(* ===== verification/Js_Prelude.thy ===== *)
theory Js_Prelude
  imports Main "HOL-Library.AList" "HOL-Library.Multiset" "HOL-Library.Sublist"
    "HOL-Library.Char_ord" "HOL-Library.List_Lexorder" "HOL-Library.Log_Nat"
begin

text \<open>
  Shared vocabulary of the development: the parts of the JavaScript standard library
  that the modelled TypeScript sources use, with the lemmas the components share.

  \<^item> A JavaScript \<open>Set\<close> iterates in insertion order: it is a distinct list, and
    \<open>js_add\<close> appends a new element. A \<open>Map\<close> iterates in insertion order and an update
    keeps the position of the key: it is an association list under \<^const>\<open>AList.update\<close>.
  \<^item> \<open>Array.prototype.sort\<close> is stable; \<open>js_sort\<close> is the stable insertion sort, which
    agrees with it for every consistent comparator. The locale \<open>js_comparator\<close> states
    what consistent means and proves that the result is sorted.
  \<^item> Strings are lists of 8-bit code units: the strings all of whose UTF-16 code units
    are below 256. On these NFC normalisation is the identity, and \<open>trim\<close> and
    \<open>toLowerCase\<close> are the functions below.
  \<^item> A \<open>number\<close> that the code keeps integral is an \<^typ>\<open>int\<close> or \<^typ>\<open>nat\<close>; a quotient
    is the rational that IEEE-754 double arithmetic gives, rounded by \<open>fl\<close>.
\<close>

named_theorems js_simps \<open>rewriting rules for the JavaScript library functions\<close>
named_theorems js_defs \<open>definitions of the JavaScript library functions\<close>

section \<open>Sets and maps in insertion order\<close>

type_synonym 'a js_set = "'a list"
type_synonym ('k, 'v) js_map = "('k \<times> 'v) list"

definition js_add :: "'a \<Rightarrow> 'a js_set \<Rightarrow> 'a js_set" where
  "js_add x xs = (if x \<in> set xs then xs else xs @ [x])"

definition js_set_of :: "'a list \<Rightarrow> 'a js_set" where
  "js_set_of xs = foldl (\<lambda>s x. js_add x s) [] xs"

definition js_delete :: "'a \<Rightarrow> 'a js_set \<Rightarrow> 'a js_set" where
  "js_delete x xs = filter (\<lambda>y. y \<noteq> x) xs"

lemma set_js_add [simp, js_simps]: "set (js_add x xs) = insert x (set xs)"
  by (auto simp: js_add_def)

lemma distinct_js_add [simp]: "distinct xs \<Longrightarrow> distinct (js_add x xs)"
  by (simp add: js_add_def)

lemma set_foldl_js_add [simp]: "set (foldl (\<lambda>s x. js_add x s) ys xs) = set ys \<union> set xs"
  by (induction xs arbitrary: ys) auto

lemma distinct_foldl_js_add [simp]:
  "distinct ys \<Longrightarrow> distinct (foldl (\<lambda>s x. js_add x s) ys xs)"
  by (induction xs arbitrary: ys) auto

lemma set_js_set_of [simp, js_simps]: "set (js_set_of xs) = set xs"
  by (simp add: js_set_of_def)

lemma distinct_js_set_of [simp]: "distinct (js_set_of xs)"
  by (simp add: js_set_of_def)

lemma foldl_js_add_id: "distinct (ys @ xs) \<Longrightarrow> foldl (\<lambda>s x. js_add x s) ys xs = ys @ xs"
  by (induction xs arbitrary: ys) (auto simp: js_add_def)

lemma js_set_of_id: "distinct xs \<Longrightarrow> js_set_of xs = xs"
  by (simp add: js_set_of_def foldl_js_add_id)

lemma set_js_delete [simp, js_simps]: "set (js_delete x xs) = set xs - {x}"
  by (auto simp: js_delete_def)

lemma distinct_js_delete [simp]: "distinct xs \<Longrightarrow> distinct (js_delete x xs)"
  by (simp add: js_delete_def)

definition js_map_of :: "('k \<times> 'v) list \<Rightarrow> ('k, 'v) js_map" where
  "js_map_of kvs = foldl (\<lambda>m (k, v). AList.update k v m) [] kvs"

lemma map_of_foldl_update:
  "map_of (foldl (\<lambda>m (k, v). AList.update k v m) m kvs) = map_of m ++ map_of (rev kvs)"
  by (induction kvs arbitrary: m) (auto simp: update_conv' map_add_def split: option.splits)

lemma map_of_js_map_of [simp, js_simps]: "map_of (js_map_of kvs) = map_of (rev kvs)"
  by (simp add: js_map_of_def map_of_foldl_update)

lemma map_of_rev_None [simp]: "map_of (rev kvs) k = None \<longleftrightarrow> k \<notin> fst ` set kvs"
  by (simp add: map_of_eq_None_iff)

lemma map_of_rev_distinct: "distinct (map fst kvs) \<Longrightarrow> map_of (rev kvs) = map_of kvs"
  by (subst map_of_inject_set) (simp_all add: rev_map [symmetric])

lemma distinct_foldl_update:
  "distinct (map fst m) \<Longrightarrow>
   distinct (map fst (foldl (\<lambda>m (k, v). AList.update k v m) m kvs))"
  by (induction kvs arbitrary: m) (auto simp: distinct_update)

lemma distinct_js_map_of [simp]: "distinct (map fst (js_map_of kvs))"
  by (simp add: js_map_of_def distinct_foldl_update)

lemma fst_foldl_update:
  "fst ` set (foldl (\<lambda>m (k, v). AList.update k v m) m kvs) = fst ` set m \<union> fst ` set kvs"
  by (simp only: dom_map_of_conv_image_fst [symmetric] map_of_foldl_update)
    (simp add: dom_map_of_conv_image_fst Un_commute)

lemma fst_js_map_of [simp]: "fst ` set (js_map_of kvs) = fst ` set kvs"
  by (simp add: js_map_of_def fst_foldl_update)

lemma map_of_Some_key: "map_of m k = Some v \<Longrightarrow> k \<in> fst ` set m"
  by (metis map_of_eq_None_iff option.distinct(1))

text \<open>A walk that marks a known key as seen in every iteration gets shorter.\<close>

lemma card_unseen_less:
  "map_of m k = Some v \<Longrightarrow> k \<notin> set seen \<Longrightarrow>
   card (fst ` set m - insert k (set seen)) < card (fst ` set m - set seen)"
  by (rule psubset_card_mono) (auto dest: map_of_Some_key)

text \<open>
  The interface the stateful components rely on: a keyed store in which an update changes
  one key only. It is interpreted by the association lists that model a \<open>Map\<close>.
\<close>

locale keyed_store =
  fixes lookup :: "'m \<Rightarrow> 'k \<Rightarrow> 'v option"
    and put :: "'k \<Rightarrow> 'v \<Rightarrow> 'm \<Rightarrow> 'm"
    and remove :: "'k \<Rightarrow> 'm \<Rightarrow> 'm"
  assumes lookup_put: "lookup (put k v m) k' = (if k' = k then Some v else lookup m k')"
    and lookup_remove: "lookup (remove k m) k' = (if k' = k then None else lookup m k')"
begin

lemma put_frame: "k' \<noteq> k \<Longrightarrow> lookup (put k v m) k' = lookup m k'"
  by (simp add: lookup_put)

lemma put_read: "lookup (put k v m) k = Some v"
  by (simp add: lookup_put)

lemma remove_read: "lookup (remove k m) k = None"
  by (simp add: lookup_remove)

lemma remove_frame: "k' \<noteq> k \<Longrightarrow> lookup (remove k m) k' = lookup m k'"
  by (simp add: lookup_remove)

lemma put_overwrite: "lookup (put k v (put k w m)) = lookup (put k v m)"
  by (auto simp: lookup_put)

lemma remove_put: "lookup (remove k (put k v m)) = lookup (remove k m)"
  by (auto simp: lookup_put lookup_remove)

end

interpretation alist_store: keyed_store map_of AList.update AList.delete
  by unfold_locales (auto simp: update_conv' delete_conv')

lemma subseq_splice: "subseq zs (ks @ xs) \<Longrightarrow> subseq zs (ks @ x # xs)"
proof (rule subseq_order.trans)
  show "subseq (ks @ xs) (ks @ x # xs)"
    by (induction ks) auto
qed

text \<open>The first element that satisfies a test.\<close>

lemma find_split_first:
  "find P xs = Some x \<longleftrightarrow> (\<exists>pre post. xs = pre @ x # post \<and> P x \<and> (\<forall>y \<in> set pre. \<not> P y))"
proof (induction xs)
  case (Cons y xs)
  show ?case
  proof (cases "P y")
    case True
    then show ?thesis by (auto simp: Cons_eq_append_conv)
  next
    case False
    then have "find P (y # xs) = Some x \<longleftrightarrow> (\<exists>pre post. xs = pre @ x # post \<and> P x \<and> (\<forall>z \<in> set pre. \<not> P z))"
      using Cons.IH by simp
    also have "\<dots> \<longleftrightarrow> (\<exists>pre post. y # xs = (y # pre) @ x # post \<and> P x \<and> (\<forall>z \<in> set (y # pre). \<not> P z))"
      using False by simp
    also have "\<dots> \<longleftrightarrow> (\<exists>pre post. y # xs = pre @ x # post \<and> P x \<and> (\<forall>z \<in> set pre. \<not> P z))"
      (is "?l \<longleftrightarrow> ?r")
    proof
      assume ?r
      then obtain pre post where "y # xs = pre @ x # post" "P x" "\<forall>z \<in> set pre. \<not> P z" by blast
      with False show ?l by (cases pre) auto
    qed blast
    finally show ?thesis .
  qed
qed simp

lemma all_kept_iff: "length (filter P xs) = length xs \<longleftrightarrow> (\<forall>x \<in> set xs. P x)"
proof
  assume "length (filter P xs) = length xs"
  then show "\<forall>x \<in> set xs. P x" by (metis length_filter_less less_irrefl)
qed (simp add: filter_True)

lemma find_filter_conj: "find P (filter Q xs) = find (\<lambda>x. Q x \<and> P x) xs"
  by (induction xs) auto

section \<open>Stable sorting with a comparator\<close>

fun js_insert :: "('a \<Rightarrow> 'a \<Rightarrow> int) \<Rightarrow> 'a \<Rightarrow> 'a list \<Rightarrow> 'a list" where
  "js_insert cmp x [] = [x]"
| "js_insert cmp x (y # ys) = (if cmp x y \<le> 0 then x # y # ys else y # js_insert cmp x ys)"

definition js_sort :: "('a \<Rightarrow> 'a \<Rightarrow> int) \<Rightarrow> 'a list \<Rightarrow> 'a list" where
  "js_sort cmp xs = foldr (js_insert cmp) xs []"

lemma js_sort_simps [simp, js_simps]:
  "js_sort cmp [] = []"
  "js_sort cmp (x # xs) = js_insert cmp x (js_sort cmp xs)"
  by (simp_all add: js_sort_def)

lemma mset_js_insert [simp]: "mset (js_insert cmp x xs) = add_mset x (mset xs)"
  by (induction xs) auto

lemma mset_js_sort [simp]: "mset (js_sort cmp xs) = mset xs"
  by (induction xs) auto

lemma set_js_sort [simp, js_simps]: "set (js_sort cmp xs) = set xs"
  by (metis mset_js_sort set_mset_mset)

lemma length_js_sort [simp, js_simps]: "length (js_sort cmp xs) = length xs"
  by (metis mset_js_sort size_mset)

lemma distinct_js_sort [simp]: "distinct (js_sort cmp xs) = distinct xs"
  by (metis mset_js_sort mset_eq_imp_distinct_iff)

lemma js_sort_eq_Nil [simp]: "js_sort cmp xs = [] \<longleftrightarrow> xs = []"
  by (metis length_js_sort length_0_conv)

lemma distinct_map_js_sort [simp]: "distinct (map f (js_sort cmp xs)) = distinct (map f xs)"
  by (metis mset_js_sort mset_map mset_eq_imp_distinct_iff)

lemma js_sort_Cons_in: "js_sort cmp xs = y # ys \<Longrightarrow> y \<in> set xs"
  by (metis list.set_intros(1) set_js_sort)

text \<open>What \<open>sort\<close> asks of its comparator, and what it promises for one.\<close>

locale js_comparator =
  fixes cmp :: "'a \<Rightarrow> 'a \<Rightarrow> int"
  assumes total: "cmp x y \<le> 0 \<or> cmp y x \<le> 0"
    and trans: "cmp x y \<le> 0 \<Longrightarrow> cmp y z \<le> 0 \<Longrightarrow> cmp x z \<le> 0"
begin

lemma sorted_js_insert:
  "sorted_wrt (\<lambda>x y. cmp x y \<le> 0) xs \<Longrightarrow> sorted_wrt (\<lambda>x y. cmp x y \<le> 0) (js_insert cmp x xs)"
proof (induction xs)
  case (Cons y ys)
  have set_ins: "set (js_insert cmp x ys) = insert x (set ys)"
    by (metis mset_js_insert set_mset_mset set_mset_add_mset_insert)
  show ?case
  proof (cases "cmp x y \<le> 0")
    case True
    with Cons.prems show ?thesis by (auto intro: trans)
  next
    case False
    with total have "cmp y x \<le> 0" by blast
    with False Cons show ?thesis by (auto simp: set_ins)
  qed
qed simp

lemma sorted_js_sort: "sorted_wrt (\<lambda>x y. cmp x y \<le> 0) (js_sort cmp xs)"
  by (induction xs) (simp_all add: sorted_js_insert)

lemma js_insert_least:
  "\<forall>y \<in> set xs. cmp x y \<le> 0 \<Longrightarrow> js_insert cmp x xs = x # xs"
  by (cases xs) auto

lemma js_sort_sorted: "sorted_wrt (\<lambda>x y. cmp x y \<le> 0) xs \<Longrightarrow> js_sort cmp xs = xs"
  by (induction xs) (auto simp: js_insert_least)

lemma js_sort_idem: "js_sort cmp (js_sort cmp xs) = js_sort cmp xs"
  by (rule js_sort_sorted) (rule sorted_js_sort)

lemma js_sort_hd_le: "x \<in> set xs \<Longrightarrow> cmp (hd (js_sort cmp xs)) x \<le> 0"
proof -
  assume x: "x \<in> set xs"
  have refl: "cmp a a \<le> 0" for a using total by blast
  from sorted_js_sort [of xs] x show ?thesis
    by (cases "js_sort cmp xs") (auto simp: refl simp flip: set_js_sort [of cmp xs])
qed

end

text \<open>
  The comparators of the code compare a first key and, where it is equal, a second one
  (\<open>compareNumber(a.from, b.from) || compareNumber(a.to, b.to)\<close>).
\<close>

definition compareNumber :: "int \<Rightarrow> int \<Rightarrow> int" where
  "compareNumber a b = a - b"

definition compareCodePoint :: "string \<Rightarrow> string \<Rightarrow> int" where
  "compareCodePoint a b = (if a < b then -1 else if b < a then 1 else 0)"

definition js_or :: "int \<Rightarrow> int \<Rightarrow> int" where
  "js_or a b = (if a \<noteq> 0 then a else b)"

interpretation compareNumber: js_comparator compareNumber
  by unfold_locales (auto simp: compareNumber_def)

interpretation compareCodePoint: js_comparator compareCodePoint
  by unfold_locales (auto simp: compareCodePoint_def split: if_splits)

text \<open>
  A consistent comparator is antisymmetric in sign as well; lexicographic composition
  keeps that, so it gives a \<open>js_comparator\<close> again.
\<close>

locale js_order = js_comparator +
  assumes antisym: "cmp x y < 0 \<longleftrightarrow> 0 < cmp y x"
begin

lemma equiv_sym: "cmp x y = 0 \<longleftrightarrow> cmp y x = 0"
  using antisym [of x y] antisym [of y x] by linarith

lemma less_trans: "cmp x y < 0 \<Longrightarrow> cmp y z \<le> 0 \<Longrightarrow> cmp x z < 0"
  using trans [of x y z] trans [of y z x] antisym equiv_sym [of x z]
  by (metis less_le not_less order.order_iff_strict)

end

interpretation compareNumber: js_order compareNumber
  by unfold_locales (auto simp: compareNumber_def)

interpretation compareCodePoint: js_order compareCodePoint
  by unfold_locales (auto simp: compareCodePoint_def split: if_splits)

section \<open>Scans repeated until nothing changes\<close>

text \<open>
  The code's fixed-point loops have one shape: \<open>while (changed)\<close> scan a list in order,
  and let an element update the state (\<open>Some\<close>) or leave it (\<open>None\<close>).
\<close>

fun js_pass :: "('a \<Rightarrow> 's \<Rightarrow> 's option) \<Rightarrow> 'a list \<Rightarrow> 's \<Rightarrow> 's \<times> bool" where
  "js_pass step [] s = (s, False)"
| "js_pass step (x # xs) s =
     (case step x s of
        None \<Rightarrow> js_pass step xs s
      | Some s' \<Rightarrow> (fst (js_pass step xs s'), True))"

partial_function (option) js_repeat ::
    "('a \<Rightarrow> 's \<Rightarrow> 's option) \<Rightarrow> 'a list \<Rightarrow> 's \<Rightarrow> 's option" where
  "js_repeat step xs s =
     (let (s', changed) = js_pass step xs s in if changed then js_repeat step xs s' else Some s')"

declare js_repeat.simps [code]

lemma js_pass_unchanged:
  "js_pass step xs s = (s', False) \<Longrightarrow> s' = s \<and> (\<forall>x \<in> set xs. step x s = None)"
  by (induction xs arbitrary: s s') (auto split: option.splits)

lemma js_pass_inv:
  assumes "I s" and "\<And>x s s'. x \<in> set xs \<Longrightarrow> I s \<Longrightarrow> step x s = Some s' \<Longrightarrow> I s'"
  shows "I (fst (js_pass step xs s))"
  using assms by (induction xs arbitrary: s) (auto split: option.splits)

text \<open>The interface of such a loop: a measure that every update decreases.\<close>

locale shrinking_step =
  fixes step :: "'a \<Rightarrow> 's \<Rightarrow> 's option"
    and weight :: "'s \<Rightarrow> nat"
    and items :: "'a list"
  assumes shrinks: "x \<in> set items \<Longrightarrow> step x s = Some s' \<Longrightarrow> weight s' < weight s"
begin

lemma pass_le: "set xs \<subseteq> set items \<Longrightarrow> weight (fst (js_pass step xs s)) \<le> weight s"
proof (induction xs arbitrary: s)
  case (Cons x xs)
  show ?case
  proof (cases "step x s")
    case None
    with Cons show ?thesis by simp
  next
    case (Some s1)
    with Cons.prems have "weight s1 < weight s" using shrinks by auto
    moreover have "weight (fst (js_pass step xs s1)) \<le> weight s1" using Cons by simp
    ultimately show ?thesis using Some by simp
  qed
qed simp

lemma pass_less:
  "set xs \<subseteq> set items \<Longrightarrow> snd (js_pass step xs s) \<Longrightarrow> weight (fst (js_pass step xs s)) < weight s"
proof (induction xs arbitrary: s)
  case (Cons x xs)
  show ?case
  proof (cases "step x s")
    case None
    with Cons show ?thesis by simp
  next
    case (Some s1)
    with Cons.prems have "weight s1 < weight s" using shrinks by auto
    moreover have "weight (fst (js_pass step xs s1)) \<le> weight s1"
      using Cons.prems pass_le by simp
    ultimately show ?thesis using Some by simp
  qed
qed simp

lemma repeat_returns: "\<exists>s'. js_repeat step items s = Some s'"
proof (induction "weight s" arbitrary: s rule: less_induct)
  case less
  show ?case
  proof (cases "js_pass step items s")
    case (Pair s1 changed)
    show ?thesis
    proof (cases changed)
      case True
      with Pair pass_less [of items s] have "weight s1 < weight s" by simp
      then obtain s2 where "js_repeat step items s1 = Some s2" using less by blast
      with Pair True show ?thesis by (simp add: js_repeat.simps)
    next
      case False
      with Pair show ?thesis by (simp add: js_repeat.simps)
    qed
  qed
qed

lemma repeat_final:
  assumes "js_repeat step items s = Some s'" and "I s"
    and "\<And>x s s'. x \<in> set items \<Longrightarrow> I s \<Longrightarrow> step x s = Some s' \<Longrightarrow> I s'"
  shows "I s' \<and> (\<forall>x \<in> set items. step x s' = None)"
  using assms(1,2)
proof (induction "weight s" arbitrary: s rule: less_induct)
  case less
  obtain s1 changed where pass: "js_pass step items s = (s1, changed)" by fastforce
  have inv: "I s1"
    using js_pass_inv [of I s items step] less.prems(2) assms(3) pass by simp
  show ?case
  proof (cases changed)
    case True
    with pass less.prems(1) have "js_repeat step items s1 = Some s'"
      by (simp add: js_repeat.simps [of step items s])
    with less.hyps [of s1] pass_less [of items s] pass True inv show ?thesis by simp
  next
    case False
    with pass less.prems have "s' = s1" by (simp add: js_repeat.simps [of step items s])
    with False pass js_pass_unchanged [of step items s s1] inv show ?thesis by auto
  qed
qed

lemma repeat_fixed:
  "js_repeat step items s = Some s' \<Longrightarrow> x \<in> set items \<Longrightarrow> step x s' = None"
  using repeat_final [of s s' "\<lambda>_. True"] by blast

lemma repeat_inv:
  "js_repeat step items s = Some s' \<Longrightarrow> I s \<Longrightarrow>
   (\<And>x s s'. x \<in> set items \<Longrightarrow> I s \<Longrightarrow> step x s = Some s' \<Longrightarrow> I s') \<Longrightarrow> I s'"
  using repeat_final [of s s' I] by blast

end

end
