(* ===== verification/Task_Model.thy ===== *)
theory Task_Model
  imports Js_Prelude
begin

text \<open>
  The task record of \<open>src/core/task-types.ts\<close> and its two status vocabularies. A record
  field is kept when a modelled operation reads or writes it. An absent \<open>dependencies\<close>
  array is the empty list (the code reads \<open>task.dependencies ?? []\<close>), an absent
  \<open>isPriorityFix\<close> is \<^const>\<open>False\<close> (the code tests it for truth).
\<close>

type_synonym task_id = string

datatype TaskStatus =
    DRAFT | PENDING | CLAIMED | EXECUTING | TESTING | DOCUMENTING
  | DONE | NO_GO | PAUSED | MANUAL_REVIEW_REQUIRED

datatype TaskEvaluation =
    EvalDone | GO_WITH_TECH_DEBT | EvalNoGo | DEFERRED | NOT_DISPATCHED

record TaskScope =
  directories :: "string list"
  filesRead :: "string list"
  filesWrite :: "string list"

record task =
  task_id :: task_id
  task_title :: string
  task_scope :: TaskScope
  task_dependencies :: "task_id list"
  task_status :: TaskStatus
  isPriorityFix :: bool
  fixForTaskId :: "task_id option"
  createdAt :: "string option"
  updatedAt :: "string option"
  retryAfter :: "int option"

text \<open>The truth value of an optional string: absent and empty are false.\<close>

definition js_truthy :: "string option \<Rightarrow> string option" where
  "js_truthy s = (case s of None \<Rightarrow> None | Some x \<Rightarrow> (if x = [] then None else Some x))"

lemma js_truthy_simps [simp]:
  "js_truthy None = None" "js_truthy (Some x) = (if x = [] then None else Some x)"
  by (simp_all add: js_truthy_def)

lemma js_truthy_Some [simp]: "js_truthy s = Some x \<longleftrightarrow> s = Some x \<and> x \<noteq> []"
  by (auto simp: js_truthy_def split: option.splits)

lemma js_truthy_None [simp]: "js_truthy s = None \<longleftrightarrow> s = None \<or> s = Some []"
  by (auto simp: js_truthy_def split: option.splits)

text \<open>\<open>new Map(tasks.map(task => [task.id, task]))\<close>: the last task of an id wins.\<close>

definition tasks_by_id :: "task list \<Rightarrow> (task_id, task) js_map" where
  "tasks_by_id tasks = js_map_of (map (\<lambda>t. (task_id t, t)) tasks)"

lemma fst_tasks_by_id [simp]: "fst ` set (tasks_by_id tasks) = task_id ` set tasks"
  by (simp add: tasks_by_id_def image_image)

lemma lookup_tasks_by_id_dom:
  "map_of (tasks_by_id tasks) i = None \<longleftrightarrow> i \<notin> task_id ` set tasks"
  by (simp add: map_of_eq_None_iff)

lemma lookup_tasks_by_id:
  "map_of (tasks_by_id tasks) i = Some t \<Longrightarrow> t \<in> set tasks \<and> task_id t = i"
  by (auto simp: tasks_by_id_def dest!: map_of_SomeD)

lemma lookup_tasks_by_id_distinct:
  "distinct (map task_id tasks) \<Longrightarrow> t \<in> set tasks \<Longrightarrow>
   map_of (tasks_by_id tasks) (task_id t) = Some t"
  by (auto simp: tasks_by_id_def comp_def map_of_rev_distinct intro!: map_of_is_SomeI)

text \<open>A task with the given identity, status, dependencies and repair edge, for examples.\<close>

definition sample_task ::
    "task_id \<Rightarrow> TaskStatus \<Rightarrow> task_id list \<Rightarrow> task_id option \<Rightarrow> task" where
  "sample_task i st deps fix =
     \<lparr>task_id = i, task_title = ''Task '' @ i,
      task_scope = \<lparr>directories = [], filesRead = [], filesWrite = []\<rparr>,
      task_dependencies = deps, task_status = st, isPriorityFix = (fix \<noteq> None),
      fixForTaskId = fix, createdAt = None, updatedAt = None, retryAfter = None\<rparr>"

end
