(* ===== verification/Js_Number.thy ===== *)
theory Js_Number
  imports Js_Prelude Complex_Main
begin

text \<open>
  IEEE-754 double arithmetic on rationals, as far as the code uses it: a quotient or a
  product is the exact rational rounded to 53 significant bits, ties to even. Overflow and
  subnormal results are not modelled: the quantities are task counts, token counts,
  percentages and ratios.
\<close>

definition round_half_even :: "int \<Rightarrow> int \<Rightarrow> int" where
  "round_half_even a b =
     (let q = a div b; r = a mod b
      in if 2 * r < b \<or> (2 * r = b \<and> even q) then q else q + 1)"

function bit_length :: "int \<Rightarrow> nat" where
  "bit_length a = (if a \<le> 0 then 0 else Suc (bit_length (a div 2)))"
  by pat_completeness auto
termination
  by (relation "measure nat") auto

declare bit_length.simps [simp del]

text \<open>For \<open>a, b > 0\<close>: the exponent \<open>e\<close> with \<open>2 ^ e \<le> a / b < 2 ^ (e + 1)\<close>.\<close>

definition fl_exponent :: "int \<Rightarrow> int \<Rightarrow> int" where
  "fl_exponent a b =
     (let d = int (bit_length a) - int (bit_length b);
          ge = (if 0 \<le> d then b * 2 ^ nat d \<le> a else b \<le> a * 2 ^ nat (- d))
      in if ge then d else d - 1)"

definition fl_pos :: "int \<Rightarrow> int \<Rightarrow> rat" where
  "fl_pos a b =
     (let s = 52 - fl_exponent a b
      in if 0 \<le> s then of_int (round_half_even (a * 2 ^ nat s) b) / of_int (2 ^ nat s)
         else of_int (round_half_even a (b * 2 ^ nat (- s))) * of_int (2 ^ nat (- s)))"

definition fl :: "rat \<Rightarrow> rat" where
  "fl x = (case quotient_of x of (a, b) \<Rightarrow>
     if a = 0 then 0 else if 0 < a then fl_pos a b else - fl_pos (- a) b)"

definition fl_div :: "rat \<Rightarrow> rat \<Rightarrow> rat" where
  "fl_div x y = fl (x / y)"

definition fl_mult :: "rat \<Rightarrow> rat \<Rightarrow> rat" where
  "fl_mult x y = fl (x * y)"

definition fl_add :: "rat \<Rightarrow> rat \<Rightarrow> rat" where
  "fl_add x y = fl (x + y)"

text \<open>\<open>(part / whole) * 100\<close>, as the code computes its percentages.\<close>

definition js_percent :: "nat \<Rightarrow> nat \<Rightarrow> rat" where
  "js_percent part whole = fl_mult (fl_div (of_int (int part)) (of_int (int whole))) 100"

lemma fl_0 [simp]: "fl 0 = 0"
  by (simp add: fl_def)

lemma round_half_even_nonneg: "0 \<le> a \<Longrightarrow> 0 \<le> b \<Longrightarrow> 0 \<le> round_half_even a b"
  by (simp add: round_half_even_def Let_def div_int_pos_iff add_nonneg_nonneg)

lemma fl_pos_nonneg: "0 \<le> a \<Longrightarrow> 0 \<le> b \<Longrightarrow> 0 \<le> fl_pos a b"
  by (simp add: fl_pos_def Let_def round_half_even_nonneg)

lemma fl_nonneg: "0 \<le> x \<Longrightarrow> 0 \<le> fl x"
proof -
  assume x: "0 \<le> x"
  obtain a b where q: "quotient_of x = (a, b)" by fastforce
  then have "0 < b" "x = of_int a / of_int b"
    by (auto simp: quotient_of_denom_pos quotient_of_div)
  with x have "0 \<le> a" by (simp add: zero_le_divide_iff)
  with q \<open>0 < b\<close> show ?thesis by (simp add: fl_def fl_pos_nonneg)
qed

lemma js_percent_nonneg: "0 \<le> js_percent part whole"
  by (simp add: js_percent_def fl_mult_def fl_div_def fl_nonneg)

lemma js_percent_0 [simp]: "js_percent 0 whole = 0"
  by (simp add: js_percent_def fl_mult_def fl_div_def)

section \<open>The error of rounding\<close>

lemma bit_length_bounds:
  "0 < a \<Longrightarrow> 0 < bit_length a \<and> 2 ^ (bit_length a - 1) \<le> a \<and> a < 2 ^ bit_length a"
proof (induction a rule: bit_length.induct)
  case (1 a)
  have step: "bit_length a = Suc (bit_length (a div 2))" using 1(2) by (subst bit_length.simps) simp
  show ?case
  proof (cases "a = 1")
    case True
    then show ?thesis by (simp add: bit_length.simps)
  next
    case False
    with 1(2) have half: "\<not> a \<le> 0" "0 < a div 2" by auto
    from 1(1) [OF half] obtain n where n: "bit_length (a div 2) = Suc n" "2 ^ n \<le> a div 2" "a div 2 < 2 ^ Suc n"
      by (metis diff_Suc_1 gr0_conv_Suc)
    then show ?thesis by (auto simp: step)
  qed
qed

text \<open>The exponent is not too large: \<open>2 ^ e \<le> a / b\<close>.\<close>

lemma fl_exponent_le:
  assumes "0 < a" "0 < b"
  shows "(2::rat) powi fl_exponent a b * of_int b \<le> of_int a"
proof -
  define d where "d = int (bit_length a) - int (bit_length b)"
  have e: "fl_exponent a b = (if if 0 \<le> d then b * 2 ^ nat d \<le> a else b \<le> a * 2 ^ nat (- d) then d else d - 1)"
    by (simp only: fl_exponent_def d_def Let_def)
  consider "0 \<le> d" "b * 2 ^ nat d \<le> a" "fl_exponent a b = d" | "d < 0" "b \<le> a * 2 ^ nat (- d)" "fl_exponent a b = d"
    | "fl_exponent a b = d - 1"
    using e by (cases "0 \<le> d") (auto split: if_splits)
  then show ?thesis
  proof cases
    case 1
    then have "of_int (b * 2 ^ nat d) \<le> (of_int a :: rat)" by (simp only: of_int_le_iff)
    with 1 show ?thesis by (simp add: power_int_def mult.commute)
  next
    case 2
    then have "of_int b \<le> (of_int (a * 2 ^ nat (- d)) :: rat)" by (simp only: of_int_le_iff)
    with 2 show ?thesis by (simp add: power_int_def field_simps)
  next
    case 3
    from bit_length_bounds [OF assms(1)] obtain n where n: "bit_length a = Suc n" "2 ^ n \<le> a"
      by (metis diff_Suc_1 gr0_conv_Suc)
    have "of_int (2 ^ n) \<le> (of_int a :: rat)" "of_int b \<le> (of_int (2 ^ bit_length b) :: rat)"
      using n(2) bit_length_bounds [OF assms(2)] unfolding of_int_le_iff by auto
    then have le: "(2::rat) ^ n \<le> of_int a" "of_int b \<le> (2::rat) ^ bit_length b" by simp_all
    have "(2::rat) powi fl_exponent a b = 2 ^ n / 2 ^ bit_length b"
      by (simp add: 3 d_def n(1) power_int_diff)
    moreover have "2 ^ n / 2 ^ bit_length b * of_int b \<le> 2 ^ n / 2 ^ bit_length b * (2::rat) ^ bit_length b"
      using le(2) by (rule mult_left_mono) simp
    moreover have "2 ^ n / 2 ^ bit_length b * (2::rat) ^ bit_length b = 2 ^ n" by simp
    ultimately show ?thesis using le(1) by (simp only:)
  qed
qed

lemma round_half_even_error:
  assumes "0 < b"
  shows "\<bar>of_int (round_half_even a b) - of_int a / of_int b\<bar> \<le> (1/2 :: rat)"
proof -
  define q r where "q = a div b" and "r = a mod b"
  have "a = q * b + r" "0 \<le> r" "r < b" using assms by (auto simp: q_def r_def)
  then have val: "(of_int a :: rat) / of_int b = of_int q + of_int r / of_int b"
    using assms by (simp add: field_simps)
  have r: "0 \<le> (of_int r :: rat)" "(of_int r :: rat) < of_int b" "0 < (of_int b :: rat)"
    using \<open>0 \<le> r\<close> \<open>r < b\<close> assms by auto
  show ?thesis
  proof (cases "2 * r < b \<or> (2 * r = b \<and> even q)")
    case True
    then have "of_int (2 * r) \<le> (of_int b :: rat)" by (simp only: of_int_le_iff) auto
    then have "(of_int r :: rat) / of_int b \<le> 1/2" using r by (simp add: field_simps)
    moreover have "round_half_even a b = q" using True by (simp add: round_half_even_def q_def r_def Let_def)
    ultimately show ?thesis using r by (simp add: val)
  next
    case False
    then have "of_int b \<le> (of_int (2 * r) :: rat)" by (simp only: of_int_le_iff) auto
    then have "1/2 \<le> (of_int r :: rat) / of_int b" "(of_int r :: rat) / of_int b < 1"
      using r by (simp_all add: field_simps)
    moreover have "round_half_even a b = q + 1"
      using False unfolding round_half_even_def q_def r_def Let_def by simp
    ultimately show ?thesis by (simp add: val abs_le_iff)
  qed
qed

lemma fl_pos_error:
  assumes "0 < a" "0 < b"
  shows "\<bar>fl_pos a b - of_int a / of_int b\<bar> \<le> of_int a / of_int b / (2 ^ 53 :: rat)"
proof -
  define s where "s = 52 - fl_exponent a b"
  define x where "x = (of_int a / of_int b :: rat)"
  define n where "n = (if 0 \<le> s then round_half_even (a * 2 ^ nat s) b else round_half_even a (b * 2 ^ nat (- s)))"
  have pos: "0 < (2::rat) powi s" by simp
  have fl: "fl_pos a b = of_int n / 2 powi s"
    unfolding fl_pos_def Let_def s_def [symmetric] n_def power_int_def
    by (cases "0 \<le> s") (simp_all add: field_simps)
  have near: "\<bar>of_int n - x * 2 powi s\<bar> \<le> 1/2"
  proof (cases "0 \<le> s")
    case True
    then have "of_int (a * 2 ^ nat s) / of_int b = x * 2 powi s" by (simp add: x_def power_int_def)
    with round_half_even_error [OF assms(2), of "a * 2 ^ nat s"] True show ?thesis
      unfolding n_def by (simp only: if_True)
  next
    case False
    have "0 < b * 2 ^ nat (- s)" using assms(2) by simp
    moreover have "of_int a / of_int (b * 2 ^ nat (- s)) = x * 2 powi s"
      using False by (simp add: x_def power_int_def field_simps)
    ultimately show ?thesis
      using round_half_even_error [of "b * 2 ^ nat (- s)" a] False unfolding n_def by (simp only: if_False)
  qed
  have "(2::rat) powi fl_exponent a b \<le> x"
    using fl_exponent_le [OF assms] assms(2) by (simp add: x_def field_simps)
  then have "2 powi fl_exponent a b * 2 powi s \<le> x * 2 powi s" by (rule mult_right_mono) simp
  then have large: "2 ^ 52 \<le> x * 2 powi s" by (simp add: s_def flip: power_int_add)
  have "fl_pos a b - x = (of_int n - x * 2 powi s) / 2 powi s"
    using pos by (simp add: fl diff_divide_distrib)
  then have "\<bar>fl_pos a b - x\<bar> = \<bar>of_int n - x * 2 powi s\<bar> / 2 powi s"
    using pos by (simp only: abs_divide abs_of_pos)
  also have "\<dots> \<le> (1/2) / 2 powi s" using near pos by (intro divide_right_mono) auto
  also have "\<dots> \<le> x / 2 ^ 53" using large pos by (simp add: field_simps)
  finally show ?thesis by (simp add: x_def)
qed

text \<open>Rounding a positive number changes it by at most one part in \<open>2 ^ 53\<close>.\<close>

lemma fl_error:
  assumes "0 \<le> x"
  shows "\<bar>fl x - x\<bar> \<le> x / 2 ^ 53"
proof -
  obtain a b where q: "quotient_of x = (a, b)" by fastforce
  then have b: "0 < b" and x: "x = of_int a / of_int b"
    by (auto simp: quotient_of_denom_pos quotient_of_div)
  have "0 \<le> a" using assms b by (simp add: x zero_le_divide_iff)
  then show ?thesis using fl_pos_error [of a b] b q x by (cases "a = 0") (simp_all add: fl_def)
qed

lemma js_percent_error:
  assumes "part \<le> whole" "0 < whole"
  shows "\<bar>js_percent part whole - 100 * of_nat part / of_nat whole\<bar> \<le> 1 / 2 ^ 40"
proof -
  define x where "x = (of_nat part / of_nat whole :: rat)"
  have x: "0 \<le> x" "x \<le> 1" using assms by (simp_all add: x_def)
  have q: "\<bar>fl x - x\<bar> \<le> x / 2 ^ 53" using x(1) by (rule fl_error)
  have nn: "0 \<le> fl x * 100" using fl_nonneg [OF x(1)] by simp
  have p: "\<bar>fl (fl x * 100) - fl x * 100\<bar> \<le> fl x * 100 / 2 ^ 53" using nn by (rule fl_error)
  have val: "js_percent part whole = fl (fl x * 100)" by (simp add: js_percent_def fl_mult_def fl_div_def x_def)
  have exact: "100 * of_nat part / of_nat whole = 100 * x" by (simp add: x_def)
  have "fl x \<le> x + x / 2 ^ 53" "x \<le> fl x + x / 2 ^ 53"
      "fl (fl x * 100) \<le> fl x * 100 + fl x * 100 / 2 ^ 53" "fl x * 100 \<le> fl (fl x * 100) + fl x * 100 / 2 ^ 53"
    using q p by (simp_all only: abs_le_iff) linarith+
  moreover have "(2::rat) ^ 53 = 9007199254740992" "(2::rat) ^ 40 = 1099511627776" by simp_all
  ultimately have "\<bar>fl (fl x * 100) - 100 * x\<bar> \<le> 1 / 2 ^ 40"
    using x by (simp only: abs_le_iff) linarith
  then show ?thesis by (simp add: val exact)
qed

end
