(* ===== verification/Task_Lineage.thy ===== *)
theory Task_Lineage
  imports Task_Model Js_Number
begin

text \<open>
  \<open>src/core/task-lineage.ts\<close>: raw task attempts are folded into logical lineages. A repair
  attempt names the attempt it repairs (\<open>fixForTaskId\<close>); the attempts of one root form a
  lineage, and the lineage is represented by its causal head. Every projection the
  scheduler, the pause gate and the finalizer use is a function of this fold.

  The parameter \<open>lc\<close> is \<open>String.prototype.localeCompare\<close>, whose order the language leaves
  to the host's collation.
\<close>

section \<open>The repair chain\<close>

definition IN_FLIGHT_STATUSES :: "TaskStatus list" where
  "IN_FLIGHT_STATUSES = [PENDING, CLAIMED, EXECUTING, TESTING, DOCUMENTING]"

record TaskLineage =
  rootId :: task_id
  rootTask :: task
  resolvedTask :: task
  attempts :: "task list"
  attemptIds :: "task_id list"

definition timestamp :: "task \<Rightarrow> string" where
  "timestamp t = (case createdAt t of Some c \<Rightarrow> c
     | None \<Rightarrow> (case updatedAt t of Some u \<Rightarrow> u | None \<Rightarrow> []))"

text \<open>
  The parent walk of \<open>resolveFixAttemptDepth\<close>: each iteration either leaves the loop or
  marks one more known id as seen.
\<close>

function fix_depth_loop ::
    "(task_id, task) js_map \<Rightarrow> task_id option \<Rightarrow> task_id list \<Rightarrow> nat \<Rightarrow> nat" where
  "fix_depth_loop byId parentId seen depth =
     (case js_truthy parentId of
        None \<Rightarrow> depth
      | Some p \<Rightarrow>
          if p \<in> set seen then depth
          else (case map_of byId p of
                  None \<Rightarrow> depth
                | Some parent \<Rightarrow>
                    if \<not> isPriorityFix parent then depth
                    else fix_depth_loop byId (fixForTaskId parent) (p # seen) (depth + 1)))"
  by pat_completeness auto
termination
  by (relation "measure (\<lambda>(byId, _, seen, _). card (fst ` set byId - set seen))")
    (auto intro: card_unseen_less)

declare fix_depth_loop.simps [simp del]

definition resolveFixAttemptDepth :: "task \<Rightarrow> (task_id, task) js_map \<Rightarrow> nat" where
  "resolveFixAttemptDepth t byId =
     (if \<not> isPriorityFix t then 0
      else fix_depth_loop byId (fixForTaskId t) [task_id t] 1)"

function fix_ancestors_loop ::
    "(task_id, task) js_map \<Rightarrow> task_id option \<Rightarrow> task_id list \<Rightarrow> task_id list" where
  "fix_ancestors_loop byId parentId seen =
     (case js_truthy parentId of
        None \<Rightarrow> []
      | Some p \<Rightarrow>
          if p \<in> set seen then []
          else p # (case map_of byId p of
                      None \<Rightarrow> []
                    | Some parent \<Rightarrow> fix_ancestors_loop byId (fixForTaskId parent) (p # seen)))"
  by pat_completeness auto
termination
  by (relation "measure (\<lambda>(byId, _, seen). card (fst ` set byId - set seen))")
    (auto intro: card_unseen_less)

declare fix_ancestors_loop.simps [simp del]

definition resolveFixAncestorIds :: "task \<Rightarrow> (task_id, task) js_map \<Rightarrow> task_id list" where
  "resolveFixAncestorIds t byId = fix_ancestors_loop byId (fixForTaskId t) [task_id t]"

definition resolveTaskLineageRootId :: "task \<Rightarrow> (task_id, task) js_map \<Rightarrow> task_id" where
  "resolveTaskLineageRootId t byId =
     (case js_truthy (fixForTaskId t) of
        None \<Rightarrow> task_id t
      | Some _ \<Rightarrow>
          (case find (\<lambda>a. map_of byId a \<noteq> None) (rev (resolveFixAncestorIds t byId)) of
             Some a \<Rightarrow> a
           | None \<Rightarrow> task_id t))"

section \<open>The fold into lineages\<close>

definition compareAttempts ::
    "(string \<Rightarrow> string \<Rightarrow> int) \<Rightarrow> (task_id, task) js_map \<Rightarrow> task \<Rightarrow> task \<Rightarrow> int" where
  "compareAttempts lc byId left right =
     (let depthDelta = int (resolveFixAttemptDepth left byId)
                     - int (resolveFixAttemptDepth right byId)
      in if depthDelta \<noteq> 0 then depthDelta
         else (let timeDelta = lc (timestamp left) (timestamp right)
               in if timeDelta \<noteq> 0 then timeDelta else lc (task_id left) (task_id right)))"

text \<open>The admitted successor of a failed head: its earliest direct repair.\<close>

definition admitted_successor ::
    "(string \<Rightarrow> string \<Rightarrow> int) \<Rightarrow> (task_id, task) js_map \<Rightarrow> task list \<Rightarrow> task \<Rightarrow> task option" where
  "admitted_successor lc byId atts head =
     (case js_sort (compareAttempts lc byId)
             (filter (\<lambda>a. fixForTaskId a = Some (task_id head)) atts) of
        [] \<Rightarrow> None
      | successor # _ \<Rightarrow> Some successor)"

lemma admitted_successor_Some:
  "admitted_successor lc byId atts head = Some s \<Longrightarrow>
   s \<in> set atts \<and> fixForTaskId s = Some (task_id head)"
  by (auto simp: admitted_successor_def split: list.splits dest!: js_sort_Cons_in)

function causal_head_loop ::
    "(string \<Rightarrow> string \<Rightarrow> int) \<Rightarrow> (task_id, task) js_map \<Rightarrow> task list \<Rightarrow> task_id list \<Rightarrow> task \<Rightarrow> task" where
  "causal_head_loop lc byId atts seen head =
     (if task_status head = NO_GO \<and> task_id head \<notin> set seen
      then (case admitted_successor lc byId atts head of
              None \<Rightarrow> head
            | Some successor \<Rightarrow>
                causal_head_loop lc byId atts (task_id head # seen) successor)
      else head)"
  by pat_completeness auto
termination
proof (relation "measure (\<lambda>(_, _, atts, seen, head).
    card (insert (task_id head) (task_id ` set atts) - set seen))", goal_cases)
  case 1
  show ?case by simp
next
  case (2 lc byId atts seen head successor)
  then have "task_id successor \<in> task_id ` set atts"
    using admitted_successor_Some by blast
  then have "insert (task_id successor) (task_id ` set atts) - set (task_id head # seen)
      \<subset> insert (task_id head) (task_id ` set atts) - set seen"
    using 2 by auto
  then show ?case by (simp add: psubset_card_mono)
qed

declare causal_head_loop.simps [simp del]

definition resolveCausalLineageHead ::
    "(string \<Rightarrow> string \<Rightarrow> int) \<Rightarrow> (task_id, task) js_map \<Rightarrow> task list \<Rightarrow> task \<Rightarrow> task" where
  "resolveCausalLineageHead lc byId atts rt = causal_head_loop lc byId atts [] rt"

text \<open>The grouping loop of \<open>foldTaskLineages\<close>: one entry per root id, in first-seen order.\<close>

fun group_by_root ::
    "(task_id, task) js_map \<Rightarrow> (task_id, task list) js_map \<Rightarrow> task list \<Rightarrow> (task_id, task list) js_map" where
  "group_by_root byId grouped [] = grouped"
| "group_by_root byId grouped (t # ts) =
     (let r = resolveTaskLineageRootId t byId;
          g = (case map_of grouped r of Some g \<Rightarrow> g | None \<Rightarrow> [])
      in group_by_root byId (AList.update r (g @ [t]) grouped) ts)"

definition make_lineage ::
    "(string \<Rightarrow> string \<Rightarrow> int) \<Rightarrow> (task_id, task) js_map \<Rightarrow> task_id \<times> task list \<Rightarrow> TaskLineage" where
  "make_lineage lc byId entry =
     (let sorted = js_sort (compareAttempts lc byId) (snd entry);
          root = (case map_of byId (fst entry) of Some t \<Rightarrow> t | None \<Rightarrow> hd sorted)
      in \<lparr>rootId = fst entry, rootTask = root,
          resolvedTask = resolveCausalLineageHead lc byId sorted root,
          attempts = sorted, attemptIds = map task_id sorted\<rparr>)"

definition foldTaskLineages :: "(string \<Rightarrow> string \<Rightarrow> int) \<Rightarrow> task list \<Rightarrow> TaskLineage list" where
  "foldTaskLineages lc tasks =
     (let byId = tasks_by_id tasks
      in js_sort (\<lambda>left right. lc (rootId left) (rootId right))
           (map (make_lineage lc byId) (group_by_root byId [] tasks)))"

section \<open>The ancestor walk\<close>

lemma fix_ancestors_simps [simp]:
  "fix_ancestors_loop byId None seen = []"
  "fix_ancestors_loop byId (Some p) seen =
     (if p = [] \<or> p \<in> set seen then []
      else p # (case map_of byId p of
                  None \<Rightarrow> []
                | Some parent \<Rightarrow> fix_ancestors_loop byId (fixForTaskId parent) (p # seen)))"
  by (simp_all add: fix_ancestors_loop.simps [of byId])

lemma fix_ancestors_props:
  "distinct (fix_ancestors_loop byId parentId seen) \<and>
   set (fix_ancestors_loop byId parentId seen) \<inter> set seen = {} \<and>
   [] \<notin> set (fix_ancestors_loop byId parentId seen)"
proof (induction byId parentId seen rule: fix_ancestors_loop.induct)
  case (1 byId parentId seen)
  then show ?case
    by (cases parentId) (auto split: option.splits)
qed

lemma distinct_ancestors: "distinct (resolveFixAncestorIds t byId)"
  by (simp add: resolveFixAncestorIds_def fix_ancestors_props)

lemma not_own_ancestor: "task_id t \<notin> set (resolveFixAncestorIds t byId)"
  using fix_ancestors_props [of byId "fixForTaskId t" "[task_id t]"]
  by (auto simp: resolveFixAncestorIds_def)

lemma root_known:
  "t \<in> set tasks \<Longrightarrow>
   resolveTaskLineageRootId t (tasks_by_id tasks) \<in> task_id ` set tasks"
  by (auto simp: resolveTaskLineageRootId_def find_Some_iff lookup_tasks_by_id_dom
      split: option.splits dest!: lookup_tasks_by_id) 

section \<open>The grouping\<close>

definition groups_ok :: "(task_id, task) js_map \<Rightarrow> (task_id, task list) js_map \<Rightarrow> bool" where
  "groups_ok byId g \<longleftrightarrow> distinct (map fst g) \<and>
     (\<forall>(r, ts) \<in> set g. ts \<noteq> [] \<and> (\<forall>t \<in> set ts. resolveTaskLineageRootId t byId = r))"

lemma mset_concat_update:
  "distinct (map fst g) \<Longrightarrow>
   mset (concat (map snd (AList.update r (case_option [] (\<lambda>x. x) (map_of g r) @ [t]) g)))
   = add_mset t (mset (concat (map snd g)))"
proof (induction g)
  case (Cons e g)
  obtain k ts where e: "e = (k, ts)" by fastforce
  show ?case
  proof (cases "k = r")
    case True
    with e show ?thesis by simp
  next
    case False
    with Cons e show ?thesis by simp
  qed
qed simp

lemma groups_ok_update:
  assumes "groups_ok byId g" and "resolveTaskLineageRootId t byId = r"
  shows "groups_ok byId (AList.update r (case_option [] (\<lambda>x. x) (map_of g r) @ [t]) g)"
proof -
  have keys: "distinct (map fst g)" using assms(1) by (simp add: groups_ok_def)
  have "ts \<noteq> [] \<and> (\<forall>t \<in> set ts. resolveTaskLineageRootId t byId = k)"
    if "(k, ts) \<in> set (AList.update r (case_option [] (\<lambda>x. x) (map_of g r) @ [t]) g)" for k ts
  proof (cases "k = r")
    case True
    with that keys have ts: "ts = case_option [] (\<lambda>x. x) (map_of g r) @ [t]"
      by (metis distinct_update map_of_is_SomeI option.inject update_conv fun_upd_same)
    show ?thesis
      using assms ts True by (auto simp: groups_ok_def split: option.splits dest!: map_of_SomeD)
  next
    case False
    with that keys have "(k, ts) \<in> set g"
      by (metis distinct_update fun_upd_apply map_of_SomeD map_of_is_SomeI update_conv)
    with assms(1) show ?thesis by (auto simp: groups_ok_def)
  qed
  with keys show ?thesis by (auto simp: groups_ok_def distinct_update)
qed

lemma group_by_root_props:
  "groups_ok byId g \<Longrightarrow>
   groups_ok byId (group_by_root byId g ts) \<and>
   mset (concat (map snd (group_by_root byId g ts))) = mset (concat (map snd g)) + mset ts"
proof (induction ts arbitrary: g)
  case (Cons t ts)
  let ?r = "resolveTaskLineageRootId t byId"
  let ?g = "AList.update ?r (case_option [] (\<lambda>x. x) (map_of g ?r) @ [t]) g"
  have keys: "distinct (map fst g)" using Cons.prems by (simp add: groups_ok_def)
  have "groups_ok byId ?g" using Cons.prems by (rule groups_ok_update) simp
  from Cons.IH [OF this] show ?case
    by (simp add: Let_def mset_concat_update [OF keys] del: mset_concat)
qed simp

section \<open>The fold is a partition\<close>

lemma group_by_root_ok:
  "groups_ok (tasks_by_id tasks) (group_by_root (tasks_by_id tasks) [] tasks)"
  using group_by_root_props [of "tasks_by_id tasks" "[]" tasks] by (simp add: groups_ok_def)

lemma make_lineage_simps [simp]:
  "rootId (make_lineage lc byId e) = fst e"
  "attempts (make_lineage lc byId e) = js_sort (compareAttempts lc byId) (snd e)"
  "attemptIds (make_lineage lc byId e) = map task_id (attempts (make_lineage lc byId e))"
  by (simp_all add: make_lineage_def Let_def)

lemma fold_members:
  "l \<in> set (foldTaskLineages lc tasks) \<longleftrightarrow>
   (\<exists>e \<in> set (group_by_root (tasks_by_id tasks) [] tasks).
      l = make_lineage lc (tasks_by_id tasks) e)"
  by (auto simp: foldTaskLineages_def Let_def)

lemma fold_distinct_roots: "distinct (map rootId (foldTaskLineages lc tasks))"
  using group_by_root_ok [of tasks]
  by (simp add: foldTaskLineages_def Let_def comp_def groups_ok_def)

lemma fold_attempt_root:
  "l \<in> set (foldTaskLineages lc tasks) \<Longrightarrow>
   attempts l \<noteq> [] \<and>
   (\<forall>t \<in> set (attempts l). resolveTaskLineageRootId t (tasks_by_id tasks) = rootId l)"
  using group_by_root_ok [of tasks] by (auto simp: fold_members groups_ok_def)

lemma mset_concat_perm:
  "mset xs = mset ys \<Longrightarrow> mset (concat (map f xs)) = mset (concat (map f ys))"
proof -
  have *: "mset (concat (map f zs)) = (\<Sum>x\<in>#mset zs. mset (f x))" for zs
    by (induction zs) auto
  show "mset xs = mset ys \<Longrightarrow> mset (concat (map f xs)) = mset (concat (map f ys))"
    by (simp only: *)
qed

lemma fold_attempts_mset:
  "mset (concat (map attempts (foldTaskLineages lc tasks))) = mset tasks"
proof -
  let ?g = "group_by_root (tasks_by_id tasks) [] tasks"
  have "mset (concat (map attempts (foldTaskLineages lc tasks)))
      = mset (concat (map attempts (map (make_lineage lc (tasks_by_id tasks)) ?g)))"
    by (rule mset_concat_perm) (simp add: foldTaskLineages_def Let_def)
  also have "\<dots> = mset (concat (map snd ?g))"
    by (simp add: mset_concat comp_def)
  also have "\<dots> = mset tasks"
    using group_by_root_props [of "tasks_by_id tasks" "[]" tasks] by (simp add: groups_ok_def)
  finally show ?thesis .
qed

lemma fold_set_attempts:
  "(\<Union>l \<in> set (foldTaskLineages lc tasks). set (attempts l)) = set tasks"
  using arg_cong [OF fold_attempts_mset [of lc tasks], of set_mset] by auto

lemma fold_attempt_in:
  "l \<in> set (foldTaskLineages lc tasks) \<Longrightarrow> t \<in> set (attempts l) \<Longrightarrow> t \<in> set tasks"
  using fold_set_attempts [of lc tasks] by blast

lemma fold_root_known:
  assumes "l \<in> set (foldTaskLineages lc tasks)"
  shows "rootId l \<in> task_id ` set tasks"
proof -
  from fold_attempt_root [OF assms] obtain t where
    t: "t \<in> set (attempts l)" "resolveTaskLineageRootId t (tasks_by_id tasks) = rootId l"
    by (metis list.set_intros(1) neq_Nil_conv)
  have "t \<in> set tasks" using assms t(1) by (rule fold_attempt_in)
  with t(2) show ?thesis by (metis root_known)
qed

section \<open>The causal head\<close>

text \<open>
  The abstract description of the head: the chain of admitted repairs that starts at the
  root, each of which repairs a failed predecessor.
\<close>

inductive admitted_step ::
    "(string \<Rightarrow> string \<Rightarrow> int) \<Rightarrow> (task_id, task) js_map \<Rightarrow> task list \<Rightarrow> task \<Rightarrow> task \<Rightarrow> bool"
  for lc byId atts where
  admit: "task_status h = NO_GO \<Longrightarrow> admitted_successor lc byId atts h = Some s \<Longrightarrow>
    admitted_step lc byId atts h s"

inductive_simps admitted_step_iff: "admitted_step lc byId atts h s"

lemma causal_head_chain:
  "(admitted_step lc byId atts)\<^sup>*\<^sup>* head (causal_head_loop lc byId atts seen head)"
proof (induction lc byId atts seen head rule: causal_head_loop.induct)
  case (1 lc byId atts seen head)
  show ?case
  proof (cases "task_status head = NO_GO \<and> task_id head \<notin> set seen")
    case True
    show ?thesis
    proof (cases "admitted_successor lc byId atts head")
      case None
      with True show ?thesis by (simp add: causal_head_loop.simps)
    next
      case (Some s)
      with True have "admitted_step lc byId atts head s" by (simp add: admitted_step_iff)
      moreover have "(admitted_step lc byId atts)\<^sup>*\<^sup>* s
          (causal_head_loop lc byId atts (task_id head # seen) s)"
        using "1.IH" True Some by simp
      ultimately show ?thesis
        using True Some
        by (simp add: causal_head_loop.simps [of lc byId atts seen head] converse_rtranclp_into_rtranclp)
    qed
  qed (auto simp: causal_head_loop.simps)
qed

lemma causal_head_stops:
  "task_status (causal_head_loop lc byId atts seen head) = NO_GO \<Longrightarrow>
   admitted_successor lc byId atts (causal_head_loop lc byId atts seen head) = None \<or>
   task_id (causal_head_loop lc byId atts seen head) \<in> set seen \<or>
   (\<exists>h. (admitted_step lc byId atts)\<^sup>*\<^sup>* head h \<and>
      (admitted_step lc byId atts)\<^sup>+\<^sup>+ h (causal_head_loop lc byId atts seen head) \<and>
      task_id h = task_id (causal_head_loop lc byId atts seen head))"
proof (induction lc byId atts seen head rule: causal_head_loop.induct)
  case (1 lc byId atts seen head)
  let ?R = "admitted_step lc byId atts"
  show ?case
  proof (cases "task_status head = NO_GO \<and> task_id head \<notin> set seen")
    case True
    show ?thesis
    proof (cases "admitted_successor lc byId atts head")
      case None
      with True show ?thesis by (simp add: causal_head_loop.simps)
    next
      case (Some s)
      let ?r = "causal_head_loop lc byId atts (task_id head # seen) s"
      have eq: "causal_head_loop lc byId atts seen head = ?r"
        using True Some by (simp add: causal_head_loop.simps [of lc byId atts seen head])
      have step: "?R head s" using True Some by (simp add: admitted_step_iff)
      then have plus: "?R\<^sup>+\<^sup>+ head ?r"
        using causal_head_chain [of lc byId atts s "task_id head # seen"] by simp
      from "1.IH" [of s] True Some "1.prems" eq have
        "admitted_successor lc byId atts ?r = None \<or> task_id ?r \<in> set (task_id head # seen) \<or>
         (\<exists>h. ?R\<^sup>*\<^sup>* s h \<and> ?R\<^sup>+\<^sup>+ h ?r \<and> task_id h = task_id ?r)"
        by simp
      then show ?thesis
        unfolding eq using plus step
        by (metis converse_rtranclp_into_rtranclp rtranclp.rtrancl_refl set_ConsD)
    qed
  next
    case False
    with "1.prems" show ?thesis by (simp add: causal_head_loop.simps [of lc byId atts seen head])
  qed
qed

lemma chain_absorbing:
  "(admitted_step lc byId atts)\<^sup>*\<^sup>* h s \<Longrightarrow> task_status h \<noteq> NO_GO \<Longrightarrow> s = h"
  by (induction rule: converse_rtranclp_induct) (auto simp: admitted_step_iff)

lemma chain_member:
  "(admitted_step lc byId atts)\<^sup>*\<^sup>* h s \<Longrightarrow> s = h \<or> s \<in> set atts"
  by (induction rule: rtranclp_induct) (auto simp: admitted_step_iff dest: admitted_successor_Some)

lemma fold_head_eq:
  assumes "l \<in> set (foldTaskLineages lc tasks)"
  shows "resolvedTask l = causal_head_loop lc (tasks_by_id tasks) (attempts l) [] (rootTask l)"
  using assms by (auto simp: fold_members make_lineage_def Let_def resolveCausalLineageHead_def)

lemma fold_rootTask:
  assumes "l \<in> set (foldTaskLineages lc tasks)"
  shows "rootTask l \<in> set tasks \<and> task_id (rootTask l) = rootId l"
proof -
  from fold_root_known [OF assms] obtain t where
    "map_of (tasks_by_id tasks) (rootId l) = Some t"
    using lookup_tasks_by_id_dom [of tasks "rootId l"] by (cases "map_of (tasks_by_id tasks) (rootId l)") auto
  with assms have "map_of (tasks_by_id tasks) (rootId l) = Some (rootTask l)"
    by (auto simp: fold_members make_lineage_def Let_def)
  then show ?thesis by (rule lookup_tasks_by_id)
qed

lemma fold_resolved_in:
  assumes "l \<in> set (foldTaskLineages lc tasks)"
  shows "resolvedTask l \<in> set tasks"
  using chain_member [OF causal_head_chain] fold_rootTask [OF assms] fold_attempt_in [OF assms]
  by (metis fold_head_eq [OF assms])

section \<open>Properties\<close>

text \<open>
  C33 Folding attempts into lineages neither loses nor duplicates an attempt: the attempts of
  all lineages together are the given tasks, every lineage has its own root, and each of its
  attempts resolves to that root. This holds for every collation order.
\<close>

theorem fold_partition:
  "mset (concat (map attempts (foldTaskLineages lc tasks))) = mset tasks \<and>
   distinct (map rootId (foldTaskLineages lc tasks)) \<and>
   (\<forall>l \<in> set (foldTaskLineages lc tasks).
      attempts l \<noteq> [] \<and> rootId l \<in> task_id ` set tasks \<and>
      (\<forall>t \<in> set (attempts l). resolveTaskLineageRootId t (tasks_by_id tasks) = rootId l))"
  using fold_attempts_mset fold_distinct_roots fold_attempt_root fold_root_known by metis

definition sample_repairs :: "task list" where
  "sample_repairs =
     [sample_task ''a'' NO_GO [] None,
      sample_task ''a-fix'' NO_GO [] (Some ''a''),
      sample_task ''a-fix-fix'' DONE [] (Some ''a-fix''),
      sample_task ''b'' PENDING [''a''] None]"

lemma sample_repairs_fold:
  "map (\<lambda>l. (rootId l, attemptIds l, task_id (resolvedTask l)))
     (foldTaskLineages compareCodePoint sample_repairs)
   = [(''a'', [''a'', ''a-fix'', ''a-fix-fix''], ''a-fix-fix''), (''b'', [''b''], ''b'')]"
  by code_simp

theorem fold_partition_witness:
  "length (concat (map attempts (foldTaskLineages compareCodePoint sample_repairs))) = 4 \<and>
   map rootId (foldTaskLineages compareCodePoint sample_repairs) = [''a'', ''b'']"
proof -
  have "mset (concat (map attempts (foldTaskLineages compareCodePoint sample_repairs)))
      = mset sample_repairs"
    using fold_partition [of compareCodePoint sample_repairs] by (rule conjunct1)
  then have "length (concat (map attempts (foldTaskLineages compareCodePoint sample_repairs)))
      = length sample_repairs"
    by (rule mset_eq_length)
  then show ?thesis
    using arg_cong [OF sample_repairs_fold, of "map fst"]
    by (simp add: sample_repairs_def comp_def)
qed

text \<open>
  The representative of a lineage is its causal head: it is reached from the root by a
  chain of admitted repairs, each the earliest direct repair of a failed predecessor; a root
  that has not failed (a DONE root in particular) is its own representative, whatever repairs
  were recorded later; and a failed representative is one that has no repair, or closes a
  cycle of repair edges.
\<close>

theorem causal_head_correct:
  assumes "l \<in> set (foldTaskLineages lc tasks)"
  shows "let R = admitted_step lc (tasks_by_id tasks) (attempts l) in
    resolvedTask l \<in> set tasks \<and> R\<^sup>*\<^sup>* (rootTask l) (resolvedTask l) \<and>
    (task_status (rootTask l) \<noteq> NO_GO \<longrightarrow> resolvedTask l = rootTask l) \<and>
    (task_status (resolvedTask l) = NO_GO \<longrightarrow>
      admitted_successor lc (tasks_by_id tasks) (attempts l) (resolvedTask l) = None \<or>
      (\<exists>h. R\<^sup>*\<^sup>* (rootTask l) h \<and> R\<^sup>+\<^sup>+ h (resolvedTask l) \<and>
         task_id h = task_id (resolvedTask l)))"
proof -
  note eq = fold_head_eq [OF assms]
  have "(admitted_step lc (tasks_by_id tasks) (attempts l))\<^sup>*\<^sup>* (rootTask l) (resolvedTask l)"
    unfolding eq by (rule causal_head_chain)
  with fold_resolved_in [OF assms] chain_absorbing
    causal_head_stops [of lc "tasks_by_id tasks" "attempts l" "[]" "rootTask l"]
  show ?thesis by (auto simp: Let_def eq)
qed

theorem causal_head_correct_witness:
  "\<exists>l \<in> set (foldTaskLineages compareCodePoint sample_repairs).
     task_status (rootTask l) \<noteq> NO_GO \<and> resolvedTask l = rootTask l"
proof -
  have ex: "list_ex (\<lambda>l. task_status (rootTask l) \<noteq> NO_GO)
      (foldTaskLineages compareCodePoint sample_repairs)" by code_simp
  then obtain l where "l \<in> set (foldTaskLineages compareCodePoint sample_repairs)"
    "task_status (rootTask l) \<noteq> NO_GO" by (auto simp: list_ex_iff)
  with causal_head_correct [of l compareCodePoint sample_repairs] show ?thesis
    by (auto simp: Let_def)
qed

end
