(* ===== verification/Lineage_Settlement.thy ===== *)
theory Lineage_Settlement
  imports Task_Lineage
begin

text \<open>
  The consumers of the lineage fold in \<open>src/core/task-lineage.ts\<close>: the projection of
  NOT_DISPATCHED evidence, the settlement classifier, the progress counters, the selection
  of the next repairs, the cancellation of redundant repairs and the pause gate.
\<close>

section \<open>Redundant repair descendants\<close>

datatype RepairDescendantCancellationAction = SUPERSEDE_QUEUED | CANCEL_ACTIVE

record RepairDescendantCancellationDecision =
  rootTaskId :: task_id
  acceptedResolvingAttemptId :: task_id
  descendantAttemptId :: task_id
  descendantStatus :: TaskStatus
  cancel_action :: RepairDescendantCancellationAction

definition decideRedundantRepairDescendantCancellations ::
    "(string \<Rightarrow> string \<Rightarrow> int) \<Rightarrow> task list \<Rightarrow> task_id \<Rightarrow> RepairDescendantCancellationDecision list" where
  "decideRedundantRepairDescendantCancellations lc tasks accepted =
     (let byId = tasks_by_id tasks
      in case map_of byId accepted of
           None \<Rightarrow> []
         | Some acceptedAttempt \<Rightarrow>
             if task_status acceptedAttempt \<noteq> DONE then []
             else (let rt = resolveTaskLineageRootId acceptedAttempt byId
                   in js_sort (\<lambda>l r. lc (descendantAttemptId l) (descendantAttemptId r))
                        (map (\<lambda>t. \<lparr>rootTaskId = rt, acceptedResolvingAttemptId = accepted,
                                   descendantAttemptId = task_id t,
                                   descendantStatus = task_status t,
                                   cancel_action = (if task_status t = PENDING
                                      then SUPERSEDE_QUEUED else CANCEL_ACTIVE)\<rparr>)
                          (filter (\<lambda>t. task_status t \<in> set IN_FLIGHT_STATUSES \<and>
                                       accepted \<in> set (resolveFixAncestorIds t byId)) tasks))))"

section \<open>Projection of NOT_DISPATCHED\<close>

datatype SettlementState = RESUMABLE | FAILED | SKIPPED

datatype SettlementReason =
  DISPATCH_RETRY_AVAILABLE | DISPATCH_EXHAUSTED | DEPENDENCY_STARVED | POLICY_FIX_EXEMPT

record NotDispatchedSettlement =
  settlement_state :: SettlementState
  settlement_reason :: SettlementReason

type_synonym settlements = "(task_id, NotDispatchedSettlement) js_map"

definition initial_settlement ::
    "task_id set \<Rightarrow> task_id set \<Rightarrow> task_id \<Rightarrow> NotDispatchedSettlement" where
  "initial_settlement redispatchAttempted policyTerminal i =
     (if i \<in> policyTerminal then \<lparr>settlement_state = SKIPPED, settlement_reason = POLICY_FIX_EXEMPT\<rparr>
      else if i \<in> redispatchAttempted
      then \<lparr>settlement_state = FAILED, settlement_reason = DISPATCH_EXHAUSTED\<rparr>
      else \<lparr>settlement_state = RESUMABLE, settlement_reason = DISPATCH_RETRY_AVAILABLE\<rparr>)"

fun project_initial ::
    "(task_id \<Rightarrow> TaskEvaluation option) \<Rightarrow> task_id set \<Rightarrow> task_id set \<Rightarrow>
     settlements \<Rightarrow> TaskLineage list \<Rightarrow> settlements" where
  "project_initial evals redispatchAttempted policyTerminal projected [] = projected"
| "project_initial evals redispatchAttempted policyTerminal projected (l # ls) =
     (let attemptId = task_id (resolvedTask l)
      in if evals attemptId \<noteq> Some NOT_DISPATCHED
         then project_initial evals redispatchAttempted policyTerminal projected ls
         else project_initial evals redispatchAttempted policyTerminal
                (AList.update attemptId
                   (initial_settlement redispatchAttempted policyTerminal attemptId) projected) ls)"

text \<open>\<open>new Map(lineages.map(lineage => [lineage.rootId, lineage]))\<close>\<close>

definition lineages_by_root :: "TaskLineage list \<Rightarrow> (task_id, TaskLineage) js_map" where
  "lineages_by_root ls = js_map_of (map (\<lambda>l. (rootId l, l)) ls)"

definition dependency_lineage ::
    "(task_id, task) js_map \<Rightarrow> (task_id, TaskLineage) js_map \<Rightarrow> task_id \<Rightarrow> TaskLineage option" where
  "dependency_lineage byId byRoot dependencyId =
     map_of byRoot (case map_of byId dependencyId of
         Some dependency \<Rightarrow> resolveTaskLineageRootId dependency byId
       | None \<Rightarrow> dependencyId)"

definition dependency_starved ::
    "(task_id, task) js_map \<Rightarrow> (task_id, TaskLineage) js_map \<Rightarrow> settlements \<Rightarrow> TaskLineage \<Rightarrow> bool" where
  "dependency_starved byId byRoot projected l =
     list_ex (\<lambda>d. case dependency_lineage byId byRoot d of
           None \<Rightarrow> False
         | Some dl \<Rightarrow>
             (case map_of projected (task_id (resolvedTask dl)) of
                None \<Rightarrow> False
              | Some s \<Rightarrow> settlement_state s = FAILED \<or> settlement_state s = SKIPPED))
       (task_dependencies (rootTask l))"

definition starve_step ::
    "(task_id, task) js_map \<Rightarrow> (task_id, TaskLineage) js_map \<Rightarrow> TaskLineage \<Rightarrow> settlements \<Rightarrow> settlements option" where
  "starve_step byId byRoot l projected =
     (let attemptId = task_id (resolvedTask l)
      in case map_of projected attemptId of
           None \<Rightarrow> None
         | Some s \<Rightarrow>
             if settlement_state s \<noteq> RESUMABLE then None
             else if \<not> dependency_starved byId byRoot projected l then None
             else Some (AList.update attemptId
                          \<lparr>settlement_state = SKIPPED, settlement_reason = DEPENDENCY_STARVED\<rparr>
                          projected))"

definition projectNotDispatchedSettlements ::
    "(string \<Rightarrow> string \<Rightarrow> int) \<Rightarrow> task list \<Rightarrow> (task_id \<Rightarrow> TaskEvaluation option) \<Rightarrow>
     task_id set \<Rightarrow> task_id set \<Rightarrow> settlements option" where
  "projectNotDispatchedSettlements lc tasks evals redispatchAttempted policyTerminal =
     (let byId = tasks_by_id tasks;
          lineages = foldTaskLineages lc tasks;
          byRoot = lineages_by_root lineages
      in js_repeat (starve_step byId byRoot) lineages
           (project_initial evals redispatchAttempted policyTerminal [] lineages))"

section \<open>Settlement classifier and progress\<close>

datatype TaskLineageSettlementState =
  LIN_COMPLETED | LIN_FAILED | LIN_ACTIVE | LIN_UNSETTLED | LIN_RESUMABLE | LIN_SKIPPED

record TaskLineageSettlementProjection =
  proj_lineage :: TaskLineage
  evaluation :: "TaskEvaluation option"
  notDispatchedSettlement :: "NotDispatchedSettlement option"
  lineage_state :: TaskLineageSettlementState

definition classify_lineage ::
    "TaskStatus \<Rightarrow> TaskEvaluation option \<Rightarrow> NotDispatchedSettlement option \<Rightarrow> TaskLineageSettlementState" where
  "classify_lineage st ev nds =
     (if ev = Some NOT_DISPATCHED \<and> nds \<noteq> None
      then (case settlement_state (the nds) of
              RESUMABLE \<Rightarrow> LIN_RESUMABLE | SKIPPED \<Rightarrow> LIN_SKIPPED | FAILED \<Rightarrow> LIN_FAILED)
      else if st = DONE \<or> ev = Some EvalDone \<or> ev = Some GO_WITH_TECH_DEBT then LIN_COMPLETED
      else if st = NO_GO \<or> ev = Some EvalNoGo then LIN_FAILED
      else if st \<in> set IN_FLIGHT_STATUSES then LIN_ACTIVE
      else LIN_UNSETTLED)"

definition projectTaskLineageSettlements ::
    "(string \<Rightarrow> string \<Rightarrow> int) \<Rightarrow> task list \<Rightarrow> (task_id \<Rightarrow> TaskEvaluation option) \<Rightarrow>
     (task_id \<Rightarrow> NotDispatchedSettlement option) \<Rightarrow> TaskLineageSettlementProjection list" where
  "projectTaskLineageSettlements lc tasks evals nds =
     map (\<lambda>l. let i = task_id (resolvedTask l)
              in \<lparr>proj_lineage = l, evaluation = evals i, notDispatchedSettlement = nds i,
                  lineage_state = classify_lineage (task_status (resolvedTask l)) (evals i) (nds i)\<rparr>)
       (foldTaskLineages lc tasks)"

record LogicalTaskProgress =
  progress_done :: nat
  progress_active :: nat
  progress_blocked :: nat
  progress_total :: nat

definition count_lineage :: "LogicalTaskProgress \<Rightarrow> TaskLineage \<Rightarrow> LogicalTaskProgress" where
  "count_lineage p l =
     (let st = task_status (resolvedTask l)
      in if st = DONE then p\<lparr>progress_done := progress_done p + 1\<rparr>
         else if st \<in> {CLAIMED, EXECUTING, TESTING, DOCUMENTING}
         then p\<lparr>progress_active := progress_active p + 1\<rparr>
         else if st = PENDING \<or> st = PAUSED then p\<lparr>progress_blocked := progress_blocked p + 1\<rparr>
         else p)"

definition computeLogicalTaskProgress ::
    "(string \<Rightarrow> string \<Rightarrow> int) \<Rightarrow> task list \<Rightarrow> LogicalTaskProgress" where
  "computeLogicalTaskProgress lc tasks =
     (let lineages = foldTaskLineages lc tasks
      in foldl count_lineage
           \<lparr>progress_done = 0, progress_active = 0, progress_blocked = 0,
            progress_total = length lineages\<rparr> lineages)"

section \<open>Selection of pending repairs\<close>

definition pending_fix_candidate ::
    "(task_id, task) js_map \<Rightarrow> task_id set \<Rightarrow> int \<Rightarrow> task_id set \<Rightarrow> task \<Rightarrow> bool" where
  "pending_fix_candidate byId authorizedHeadIds maxFixRetries attemptedIds t \<longleftrightarrow>
     isPriorityFix t \<and> task_status t = PENDING \<and> task_id t \<in> authorizedHeadIds \<and>
     task_id t \<notin> attemptedIds \<and>
     int (resolveFixAttemptDepth t byId) \<le> maxFixRetries \<and>
     (case js_truthy (fixForTaskId t) of
        None \<Rightarrow> True
      | Some p \<Rightarrow>
          (case map_of byId p of
             None \<Rightarrow> True
           | Some parent \<Rightarrow> task_status parent \<notin> set IN_FLIGHT_STATUSES))"

fun select_one_per_root ::
    "(task_id, task) js_map \<Rightarrow> task_id list \<Rightarrow> task list \<Rightarrow> task list" where
  "select_one_per_root byId selectedRoots [] = []"
| "select_one_per_root byId selectedRoots (t # ts) =
     (let r = resolveTaskLineageRootId t byId
      in if r \<in> set selectedRoots then select_one_per_root byId selectedRoots ts
         else t # select_one_per_root byId (js_add r selectedRoots) ts)"

definition selectPendingFixTasks ::
    "(string \<Rightarrow> string \<Rightarrow> int) \<Rightarrow> task list \<Rightarrow> int \<Rightarrow> task_id set \<Rightarrow> task list" where
  "selectPendingFixTasks lc tasks maxFixRetries attemptedIds =
     (if maxFixRetries \<le> 0 then []
      else (let byId = tasks_by_id tasks;
                heads = task_id ` resolvedTask ` set (foldTaskLineages lc tasks);
                candidates = js_sort
                  (\<lambda>left right. js_or (int (resolveFixAttemptDepth left byId)
                                      - int (resolveFixAttemptDepth right byId))
                                (lc (task_id left) (task_id right)))
                  (filter (pending_fix_candidate byId heads maxFixRetries attemptedIds) tasks)
            in select_one_per_root byId [] candidates))"

section \<open>The pause gate\<close>

record FixCircuitBreakerConfig =
  breaker_enabled :: bool
  max_unresolved_tasks :: int
  min_unresolved_ratio_percent :: rat

record FixCircuitBreakerDecision =
  shouldPause :: bool
  totalTasks :: nat
  unresolvedTasks :: nat
  unresolvedRatioPercent :: rat
  effectiveCountThreshold :: int
  unresolvedTaskIds :: "task_id list"
  blockedDependentTaskIds :: "task_id list"
  blockedDependencyEdges :: "(task_id \<times> task_id) list"
  forcedByBlockedDependents :: bool

text \<open>
  The depth-first search of \<open>findUnresolvedLineageBlocker\<close>. The array \<open>pending\<close> is a
  stack: its last element is the head of the list here, so \<open>pending.push(...ds)\<close> is
  \<open>rev ds @ pending\<close>.
\<close>

function find_blocker_loop ::
    "task_id set \<Rightarrow> (task_id, task) js_map \<Rightarrow> task_id list \<Rightarrow> task_id list \<Rightarrow> task_id option" where
  "find_blocker_loop unresolved rootsById seen [] = None"
| "find_blocker_loop unresolved rootsById seen (d # pending) =
     (if d = [] \<or> d \<in> set seen then find_blocker_loop unresolved rootsById seen pending
      else if d \<in> unresolved then Some d
      else (case map_of rootsById d of
              None \<Rightarrow> find_blocker_loop unresolved rootsById (d # seen) pending
            | Some dependency \<Rightarrow>
                find_blocker_loop unresolved rootsById (d # seen)
                  (rev (task_dependencies dependency) @ pending)))"
  by pat_completeness auto
termination
proof (relation "measures [\<lambda>(_, roots, seen, _). card (fst ` set roots - set seen),
    \<lambda>(_, _, _, pending). length pending]", goal_cases)
  case 1
  show ?case by simp
next
  case 2
  then show ?case by simp
next
  case (3 unresolved rootsById seen d pending)
  have "card (fst ` set rootsById - insert d (set seen)) \<le> card (fst ` set rootsById - set seen)"
    by (rule card_mono) auto
  then show ?case by (auto simp: le_less)
next
  case (4 unresolved rootsById seen d pending dependency)
  then show ?case by (simp add: card_unseen_less)
qed

definition findUnresolvedLineageBlocker ::
    "task_id set \<Rightarrow> (task_id, task) js_map \<Rightarrow> task \<Rightarrow> task_id option" where
  "findUnresolvedLineageBlocker unresolved rootsById t =
     find_blocker_loop unresolved rootsById [] (rev (task_dependencies t))"

definition breaker_waiting :: "(task_id \<Rightarrow> TaskEvaluation option) \<Rightarrow> task \<Rightarrow> bool" where
  "breaker_waiting evals t \<longleftrightarrow>
     task_status t = PENDING \<or> task_status t = PAUSED \<or>
     evals (task_id t) = Some DEFERRED \<or> evals (task_id t) = Some NOT_DISPATCHED"

text \<open>The edge \<open>"blocked\<leftarrow>root"\<close> of the diagnostics is the pair of its two ids.\<close>

fun blocked_edges ::
    "(task_id \<Rightarrow> TaskEvaluation option) \<Rightarrow> task_id set \<Rightarrow> (task_id, task) js_map \<Rightarrow> task list \<Rightarrow>
     (task_id \<times> task_id) list" where
  "blocked_edges evals unresolved rootsById [] = []"
| "blocked_edges evals unresolved rootsById (t # ts) =
     (if \<not> breaker_waiting evals t then blocked_edges evals unresolved rootsById ts
      else (case findUnresolvedLineageBlocker unresolved rootsById t of
              None \<Rightarrow> blocked_edges evals unresolved rootsById ts
            | Some b \<Rightarrow> (task_id t, b) # blocked_edges evals unresolved rootsById ts))"

definition evaluateFixCircuitBreaker ::
    "(string \<Rightarrow> string \<Rightarrow> int) \<Rightarrow> task list \<Rightarrow> (task_id \<Rightarrow> TaskEvaluation option) \<Rightarrow>
     FixCircuitBreakerConfig \<Rightarrow> (task_id \<Rightarrow> NotDispatchedSettlement option) \<Rightarrow>
     FixCircuitBreakerDecision" where
  "evaluateFixCircuitBreaker lc tasks evals policy nds =
     (let lineages = projectTaskLineageSettlements lc tasks evals nds;
          logicalRoots = map (\<lambda>p. rootTask (proj_lineage p)) lineages;
          total = length lineages;
          ids = map (\<lambda>p. rootId (proj_lineage p))
                  (filter (\<lambda>p. lineage_state p = LIN_FAILED) lineages);
          unresolved = length ids;
          ratio = (if 0 < total then js_percent unresolved total else 0);
          rootsById = tasks_by_id logicalRoots;
          edges = blocked_edges evals (set ids) rootsById logicalRoots;
          forced = (0 < unresolved \<and> edges \<noteq> [])
      in \<lparr>shouldPause = (forced \<or> (breaker_enabled policy \<and> 0 < unresolved \<and>
              max_unresolved_tasks policy \<le> int unresolved \<and>
              min_unresolved_ratio_percent policy \<le> ratio)),
          totalTasks = total, unresolvedTasks = unresolved, unresolvedRatioPercent = ratio,
          effectiveCountThreshold = max_unresolved_tasks policy, unresolvedTaskIds = ids,
          blockedDependentTaskIds = map fst edges, blockedDependencyEdges = edges,
          forcedByBlockedDependents = forced\<rparr>)"

section \<open>Starvation reaches a fixed point\<close>

definition count_resumable :: "settlements \<Rightarrow> nat" where
  "count_resumable m = length (filter (\<lambda>(_, s). settlement_state s = RESUMABLE) m)"

lemma count_resumable_update:
  "map_of m k = Some s \<Longrightarrow> settlement_state s = RESUMABLE \<Longrightarrow> settlement_state s' \<noteq> RESUMABLE \<Longrightarrow>
   count_resumable (AList.update k s' m) < count_resumable m"
  by (induction m) (auto simp: count_resumable_def split: if_splits)

lemma starve_step_Some:
  "starve_step byId byRoot l m = Some m' \<longleftrightarrow>
   (\<exists>s. map_of m (task_id (resolvedTask l)) = Some s \<and> settlement_state s = RESUMABLE \<and>
        dependency_starved byId byRoot m l \<and>
        m' = AList.update (task_id (resolvedTask l))
               \<lparr>settlement_state = SKIPPED, settlement_reason = DEPENDENCY_STARVED\<rparr> m)"
  by (auto simp: starve_step_def Let_def split: option.splits if_splits)

interpretation starvation: shrinking_step "starve_step byId byRoot" count_resumable items
  for byId byRoot items
  by unfold_locales (auto simp: starve_step_Some intro: count_resumable_update)

text \<open>What the scan keeps: settled entries stay, and the evidence for a skip stays.\<close>

definition settled_in :: "settlements \<Rightarrow> task_id \<Rightarrow> bool" where
  "settled_in m i \<longleftrightarrow>
     (\<exists>s. map_of m i = Some s \<and> (settlement_state s = FAILED \<or> settlement_state s = SKIPPED))"

lemma dependency_starved_iff:
  "dependency_starved byId byRoot m l \<longleftrightarrow>
   (\<exists>d \<in> set (task_dependencies (rootTask l)). \<exists>dl.
      dependency_lineage byId byRoot d = Some dl \<and> settled_in m (task_id (resolvedTask dl)))"
proof -
  have "(case dependency_lineage byId byRoot d of None \<Rightarrow> False
       | Some dl \<Rightarrow> (case map_of m (task_id (resolvedTask dl)) of None \<Rightarrow> False
           | Some s \<Rightarrow> settlement_state s = FAILED \<or> settlement_state s = SKIPPED)) \<longleftrightarrow>
     (\<exists>dl. dependency_lineage byId byRoot d = Some dl \<and> settled_in m (task_id (resolvedTask dl)))" for d
    by (cases "dependency_lineage byId byRoot d") (auto simp: settled_in_def split: option.split)
  then show ?thesis by (simp add: dependency_starved_def list_ex_iff)
qed

lemma settled_in_update:
  "settlement_state s' \<noteq> RESUMABLE \<Longrightarrow> settled_in m i \<Longrightarrow> settled_in (AList.update k s' m) i"
  by (cases "settlement_state s'") (auto simp: settled_in_def update_conv')

lemma dependency_starved_update:
  "settlement_state s' \<noteq> RESUMABLE \<Longrightarrow> dependency_starved byId byRoot m l \<Longrightarrow>
   dependency_starved byId byRoot (AList.update k s' m) l"
  unfolding dependency_starved_iff by (blast intro: settled_in_update)

definition starve_inv ::
    "(task_id, task) js_map \<Rightarrow> (task_id, TaskLineage) js_map \<Rightarrow> TaskLineage list \<Rightarrow>
     settlements \<Rightarrow> settlements \<Rightarrow> bool" where
  "starve_inv byId byRoot ls m0 m \<longleftrightarrow>
     (\<forall>i. map_of m i = map_of m0 i \<or>
        (map_of m i = Some \<lparr>settlement_state = SKIPPED, settlement_reason = DEPENDENCY_STARVED\<rparr> \<and>
         (\<exists>s. map_of m0 i = Some s \<and> settlement_state s = RESUMABLE) \<and>
         (\<exists>l \<in> set ls. task_id (resolvedTask l) = i \<and> dependency_starved byId byRoot m l)))"

lemma starve_inv_step:
  assumes "l \<in> set ls" and inv: "starve_inv byId byRoot ls m0 m"
    and step: "starve_step byId byRoot l m = Some m'"
  shows "starve_inv byId byRoot ls m0 m'"
proof -
  let ?s = "\<lparr>settlement_state = SKIPPED, settlement_reason = DEPENDENCY_STARVED\<rparr>"
  from step obtain s where s: "map_of m (task_id (resolvedTask l)) = Some s"
      "settlement_state s = RESUMABLE" "dependency_starved byId byRoot m l"
    and m': "m' = AList.update (task_id (resolvedTask l)) ?s m"
    by (auto simp: starve_step_Some)
  have keep: "dependency_starved byId byRoot m k \<Longrightarrow> dependency_starved byId byRoot m' k" for k
    unfolding m' by (rule dependency_starved_update) simp_all
  have at: "map_of m0 (task_id (resolvedTask l)) = Some s"
    using inv s(1,2) by (auto simp: starve_inv_def elim!: allE [of _ "task_id (resolvedTask l)"])
  show ?thesis
    unfolding starve_inv_def
  proof
    fix i
    show "map_of m' i = map_of m0 i \<or> (map_of m' i = Some ?s \<and>
        (\<exists>s. map_of m0 i = Some s \<and> settlement_state s = RESUMABLE) \<and>
        (\<exists>l \<in> set ls. task_id (resolvedTask l) = i \<and> dependency_starved byId byRoot m' l))"
    proof (cases "i = task_id (resolvedTask l)")
      case True
      with at s(2) keep [OF s(3)] assms(1) m' show ?thesis by (auto simp: update_conv')
    next
      case False
      then have "map_of m' i = map_of m i" by (simp add: m' update_conv')
      with inv keep show ?thesis unfolding starve_inv_def by metis
    qed
  qed
qed

lemma map_of_project_initial:
  "map_of (project_initial evals rd pt m ls) i =
   (if evals i = Some NOT_DISPATCHED \<and> (\<exists>l \<in> set ls. task_id (resolvedTask l) = i)
    then Some (initial_settlement rd pt i) else map_of m i)"
  by (induction ls arbitrary: m) (auto simp: Let_def update_conv')

lemma initial_settlement_resumable:
  "settlement_state (initial_settlement rd pt i) = RESUMABLE \<longleftrightarrow> i \<notin> rd \<and> i \<notin> pt"
  by (simp add: initial_settlement_def)

lemma settlement_fixpoint_aux:
  fixes lc tasks
  defines "ls \<equiv> foldTaskLineages lc tasks"
  defines "starved m l \<equiv> dependency_starved (tasks_by_id tasks) (lineages_by_root ls) m l"
  shows "\<exists>m. projectNotDispatchedSettlements lc tasks evals rd pt = Some m \<and>
    (\<forall>l \<in> set ls. let i = task_id (resolvedTask l) in
       if evals i \<noteq> Some NOT_DISPATCHED then map_of m i = None
       else if i \<in> rd \<or> i \<in> pt then map_of m i = Some (initial_settlement rd pt i)
       else (map_of m i = Some \<lparr>settlement_state = RESUMABLE,
                settlement_reason = DISPATCH_RETRY_AVAILABLE\<rparr> \<and> \<not> starved m l) \<or>
            (map_of m i = Some \<lparr>settlement_state = SKIPPED, settlement_reason = DEPENDENCY_STARVED\<rparr> \<and>
             (\<exists>k \<in> set ls. task_id (resolvedTask k) = i \<and> starved m k)))"
proof -
  let ?byId = "tasks_by_id tasks" and ?byRoot = "lineages_by_root ls"
  let ?m0 = "project_initial evals rd pt [] ls"
  obtain m where m: "js_repeat (starve_step ?byId ?byRoot) ls ?m0 = Some m"
    using starvation.repeat_returns by blast
  have "starve_inv ?byId ?byRoot ls ?m0 m \<and> (\<forall>l \<in> set ls. starve_step ?byId ?byRoot l m = None)"
    using m by (rule starvation.repeat_final) (auto simp: starve_inv_def [of _ _ _ ?m0 ?m0]
        intro: starve_inv_step)
  then have inv: "starve_inv ?byId ?byRoot ls ?m0 m"
    and fixed: "\<And>l. l \<in> set ls \<Longrightarrow> starve_step ?byId ?byRoot l m = None" by auto
  have "let i = task_id (resolvedTask l) in
       if evals i \<noteq> Some NOT_DISPATCHED then map_of m i = None
       else if i \<in> rd \<or> i \<in> pt then map_of m i = Some (initial_settlement rd pt i)
       else (map_of m i = Some \<lparr>settlement_state = RESUMABLE,
                settlement_reason = DISPATCH_RETRY_AVAILABLE\<rparr> \<and> \<not> starved m l) \<or>
            (map_of m i = Some \<lparr>settlement_state = SKIPPED, settlement_reason = DEPENDENCY_STARVED\<rparr> \<and>
             (\<exists>k \<in> set ls. task_id (resolvedTask k) = i \<and> starved m k))"
    if l: "l \<in> set ls" for l
  proof -
    let ?i = "task_id (resolvedTask l)"
    have m0: "map_of ?m0 ?i =
        (if evals ?i = Some NOT_DISPATCHED then Some (initial_settlement rd pt ?i) else None)"
      using l by (auto simp: map_of_project_initial)
    from fixed [OF l] have "map_of m ?i = Some s \<Longrightarrow> settlement_state s = RESUMABLE \<Longrightarrow>
        \<not> dependency_starved ?byId ?byRoot m l" for s
      by (auto simp: starve_step_def Let_def)
    with inv m0 initial_settlement_resumable [of rd pt ?i] show ?thesis
      unfolding starve_inv_def starved_def
      by (auto simp: Let_def initial_settlement_def elim!: allE [of _ ?i])
  qed
  moreover have "projectNotDispatchedSettlements lc tasks evals rd pt = Some m"
    using m by (simp add: projectNotDispatchedSettlements_def Let_def ls_def)
  ultimately show ?thesis by blast
qed

text \<open>
  C34 The projection of NOT_DISPATCHED evidence always returns, and what it returns is a
  consistent fixed point of dependency starvation: exactly the heads whose evaluation is
  NOT_DISPATCHED are projected; a head that the policy or an exhausted dispatch settles keeps
  that settlement; and an otherwise resumable head is either still resumable with no failed or
  skipped dependency lineage, or skipped because one of its dependency lineages is failed or
  skipped in the same projection.
\<close>

theorem settlement_fixpoint:
  "let ls = foldTaskLineages lc tasks;
       starved = dependency_starved (tasks_by_id tasks) (lineages_by_root ls)
   in \<exists>m. projectNotDispatchedSettlements lc tasks evals rd pt = Some m \<and>
    (\<forall>l \<in> set ls. let i = task_id (resolvedTask l) in
       if evals i \<noteq> Some NOT_DISPATCHED then map_of m i = None
       else if i \<in> rd \<or> i \<in> pt then map_of m i = Some (initial_settlement rd pt i)
       else (map_of m i = Some \<lparr>settlement_state = RESUMABLE,
                settlement_reason = DISPATCH_RETRY_AVAILABLE\<rparr> \<and> \<not> starved m l) \<or>
            (map_of m i = Some \<lparr>settlement_state = SKIPPED, settlement_reason = DEPENDENCY_STARVED\<rparr> \<and>
             (\<exists>k \<in> set ls. task_id (resolvedTask k) = i \<and> starved m k)))"
  unfolding Let_def by (rule settlement_fixpoint_aux [unfolded Let_def])

definition sample_starved :: "task list" where
  "sample_starved = [sample_task ''c'' PENDING [''b''] None,
     sample_task ''b'' PENDING [''a''] None, sample_task ''a'' PENDING [] None,
     sample_task ''d'' PENDING [] None]"

theorem settlement_fixpoint_witness:
  "\<exists>m. projectNotDispatchedSettlements compareCodePoint sample_starved
        (\<lambda>_. Some NOT_DISPATCHED) {''a''} {} = Some m \<and>
      map (\<lambda>i. map_option settlement_state (map_of m i)) [''a'', ''b'', ''c'', ''d'']
        = [Some FAILED, Some SKIPPED, Some SKIPPED, Some RESUMABLE]"
proof -
  obtain m where m: "projectNotDispatchedSettlements compareCodePoint sample_starved
      (\<lambda>_. Some NOT_DISPATCHED) {''a''} {} = Some m"
    using settlement_fixpoint [of compareCodePoint sample_starved "\<lambda>_. Some NOT_DISPATCHED" "{''a''}" "{}"]
    by (auto simp: Let_def)
  moreover have "map_option (\<lambda>m. map (\<lambda>i. map_option settlement_state (map_of m i))
      [''a'', ''b'', ''c'', ''d'']) (projectNotDispatchedSettlements compareCodePoint sample_starved
      (\<lambda>_. Some NOT_DISPATCHED) {''a''} {})
    = Some [Some FAILED, Some SKIPPED, Some SKIPPED, Some RESUMABLE]"
    by code_simp
  ultimately show ?thesis by simp
qed

section \<open>Progress counters\<close>

lemma foldl_count_lineage:
  "progress_done (foldl count_lineage p ls) = progress_done p
      + length (filter (\<lambda>l. task_status (resolvedTask l) = DONE) ls) \<and>
   progress_active (foldl count_lineage p ls) = progress_active p
      + length (filter (\<lambda>l. task_status (resolvedTask l) \<in> {CLAIMED, EXECUTING, TESTING, DOCUMENTING}) ls) \<and>
   progress_blocked (foldl count_lineage p ls) = progress_blocked p
      + length (filter (\<lambda>l. task_status (resolvedTask l) \<in> {PENDING, PAUSED}) ls) \<and>
   progress_total (foldl count_lineage p ls) = progress_total p"
  by (induction ls arbitrary: p) (auto simp: count_lineage_def Let_def)

lemma length_by_status:
  "length (filter (\<lambda>l. task_status (resolvedTask l) = DONE) ls)
   + length (filter (\<lambda>l. task_status (resolvedTask l) \<in> {CLAIMED, EXECUTING, TESTING, DOCUMENTING}) ls)
   + length (filter (\<lambda>l. task_status (resolvedTask l) \<in> {PENDING, PAUSED}) ls)
   + length (filter (\<lambda>l. task_status (resolvedTask l) \<in> {DRAFT, NO_GO, MANUAL_REVIEW_REQUIRED}) ls)
   = length ls"
proof (induction ls)
  case (Cons l ls)
  then show ?case by (cases "task_status (resolvedTask l)") auto
qed simp

text \<open>
  The progress counters classify lineages, not attempts: done, active, blocked and the
  uncounted rest (draft, failed, manual review) add up to the number of lineages.
\<close>

theorem logical_progress_total:
  "let p = computeLogicalTaskProgress lc tasks; ls = foldTaskLineages lc tasks in
   progress_total p = length ls \<and>
   progress_done p + progress_active p + progress_blocked p
     + length (filter (\<lambda>l. task_status (resolvedTask l) \<in> {DRAFT, NO_GO, MANUAL_REVIEW_REQUIRED}) ls)
     = progress_total p"
  using length_by_status [of "foldTaskLineages lc tasks"]
  by (simp add: computeLogicalTaskProgress_def Let_def foldl_count_lineage)

section \<open>Selection of repairs\<close>

lemma select_one_per_root_props:
  "set (select_one_per_root byId sel ts) \<subseteq> set ts \<and>
   distinct (map (\<lambda>t. resolveTaskLineageRootId t byId) (select_one_per_root byId sel ts)) \<and>
   (\<forall>t \<in> set (select_one_per_root byId sel ts). resolveTaskLineageRootId t byId \<notin> set sel) \<and>
   (\<forall>t \<in> set ts. resolveTaskLineageRootId t byId \<in> set sel \<or>
      (\<exists>s \<in> set (select_one_per_root byId sel ts).
         resolveTaskLineageRootId s byId = resolveTaskLineageRootId t byId))"
proof (induction ts arbitrary: sel)
  case (Cons t ts)
  let ?r = "resolveTaskLineageRootId t byId"
  show ?case
  proof (cases "?r \<in> set sel")
    case True
    with Cons [of sel] show ?thesis by (auto simp: Let_def)
  next
    case False
    with Cons [of "js_add ?r sel"] show ?thesis by (auto simp: Let_def)
  qed
qed simp

text \<open>
  The repairs selected for dispatch are pending priority fixes within the retry budget
  that head their lineage, were not attempted before and whose parent is no longer in flight;
  at most one is selected per logical root, and every root that has such a repair gets one.
\<close>

theorem selectPendingFixTasks_correct:
  fixes lc tasks maxFixRetries attemptedIds
  assumes "0 < maxFixRetries"
  shows "let byId = tasks_by_id tasks;
        heads = task_id ` resolvedTask ` set (foldTaskLineages lc tasks);
        candidate = pending_fix_candidate byId heads maxFixRetries attemptedIds;
        rt = (\<lambda>t. resolveTaskLineageRootId t byId);
        selected = selectPendingFixTasks lc tasks maxFixRetries attemptedIds in
    distinct (map rt selected) \<and>
    (\<forall>t \<in> set selected. t \<in> set tasks \<and> candidate t) \<and>
    (\<forall>t \<in> set tasks. candidate t \<longrightarrow> (\<exists>s \<in> set selected. rt s = rt t))"
proof -
  let ?byId = "tasks_by_id tasks"
  let ?heads = "task_id ` resolvedTask ` set (foldTaskLineages lc tasks)"
  let ?cands = "js_sort (\<lambda>left right. js_or (int (resolveFixAttemptDepth left ?byId)
        - int (resolveFixAttemptDepth right ?byId)) (lc (task_id left) (task_id right)))
      (filter (pending_fix_candidate ?byId ?heads maxFixRetries attemptedIds) tasks)"
  have "selectPendingFixTasks lc tasks maxFixRetries attemptedIds
      = select_one_per_root ?byId [] ?cands"
    using assms by (simp add: selectPendingFixTasks_def Let_def)
  with select_one_per_root_props [of ?byId "[]" ?cands] show ?thesis
    by (auto simp: Let_def)
qed

definition sample_fixes :: "task list" where
  "sample_fixes = [sample_task ''a'' NO_GO [] None, sample_task ''a-fix'' PENDING [] (Some ''a''),
     sample_task ''a-fix-2'' PENDING [] (Some ''a''), sample_task ''b'' EXECUTING [] None]"

theorem selectPendingFixTasks_correct_witness:
  "distinct (map (\<lambda>t. resolveTaskLineageRootId t (tasks_by_id sample_fixes))
       (selectPendingFixTasks compareCodePoint sample_fixes 2 {})) \<and>
   map task_id (selectPendingFixTasks compareCodePoint sample_fixes 2 {}) = [''a-fix'']"
proof
  show "distinct (map (\<lambda>t. resolveTaskLineageRootId t (tasks_by_id sample_fixes))
       (selectPendingFixTasks compareCodePoint sample_fixes 2 {}))"
    using selectPendingFixTasks_correct [of 2 sample_fixes compareCodePoint "{}"]
    by (simp add: Let_def)
  show "map task_id (selectPendingFixTasks compareCodePoint sample_fixes 2 {}) = [''a-fix'']"
    by code_simp
qed

section \<open>The blocker search\<close>

text \<open>Abstract reachability along the dependencies of the logical roots.\<close>

inductive dep_reaches :: "(task_id, task) js_map \<Rightarrow> task_id \<Rightarrow> task_id \<Rightarrow> bool"
  for rootsById where
  here: "d \<noteq> [] \<Longrightarrow> dep_reaches rootsById d d"
| step: "d \<noteq> [] \<Longrightarrow> map_of rootsById d = Some t \<Longrightarrow> e \<in> set (task_dependencies t) \<Longrightarrow>
    dep_reaches rootsById e b \<Longrightarrow> dep_reaches rootsById d b"

lemma find_blocker_sound:
  "find_blocker_loop unresolved rootsById seen pending = Some b \<Longrightarrow>
   b \<in> unresolved \<and> (\<exists>d \<in> set pending. dep_reaches rootsById d b)"
proof (induction unresolved rootsById seen pending rule: find_blocker_loop.induct)
  case (2 unresolved rootsById seen d pending)
  then show ?case
    by (auto split: if_splits option.splits intro: dep_reaches.intros)
qed simp

lemma find_blocker_closed:
  "find_blocker_loop unresolved rootsById seen pending = None \<Longrightarrow>
   (\<forall>x \<in> set seen. x \<notin> unresolved \<and> (\<forall>t. map_of rootsById x = Some t \<longrightarrow>
      (\<forall>e \<in> set (task_dependencies t). e = [] \<or> e \<in> set seen \<union> set pending))) \<Longrightarrow>
   \<exists>S. set seen \<union> (set pending - {[]}) \<subseteq> S \<and>
      (\<forall>x \<in> S. x \<notin> unresolved \<and> (\<forall>t. map_of rootsById x = Some t \<longrightarrow>
         (\<forall>e \<in> set (task_dependencies t). e = [] \<or> e \<in> S)))"
proof (induction unresolved rootsById seen pending rule: find_blocker_loop.induct)
  case (1 unresolved rootsById seen)
  then show ?case by (intro exI [of _ "set seen"]) auto
next
  case (2 unresolved rootsById seen d pending)
  show ?case
  proof (cases "d = [] \<or> d \<in> set seen")
    case True
    then have "find_blocker_loop unresolved rootsById seen pending = None"
      using "2.prems"(1) by simp
    moreover have "\<forall>x \<in> set seen. x \<notin> unresolved \<and> (\<forall>t. map_of rootsById x = Some t \<longrightarrow>
        (\<forall>e \<in> set (task_dependencies t). e = [] \<or> e \<in> set seen \<union> set pending))"
      using "2.prems"(2) True by auto
    ultimately obtain S where "set seen \<union> (set pending - {[]}) \<subseteq> S"
      "\<forall>x \<in> S. x \<notin> unresolved \<and> (\<forall>t. map_of rootsById x = Some t \<longrightarrow>
         (\<forall>e \<in> set (task_dependencies t). e = [] \<or> e \<in> S))"
      using "2.IH"(1) [OF True] by blast
    then show ?thesis using True by (intro exI [of _ S]) auto
  next
    case False
    with "2.prems"(1) have d: "d \<notin> unresolved" by (auto split: if_splits)
    show ?thesis
    proof (cases "map_of rootsById d")
      case None
      have "find_blocker_loop unresolved rootsById (d # seen) pending = None"
        using "2.prems"(1) False d None by simp
      moreover have "\<forall>x \<in> set (d # seen). x \<notin> unresolved \<and> (\<forall>t. map_of rootsById x = Some t \<longrightarrow>
          (\<forall>e \<in> set (task_dependencies t). e = [] \<or> e \<in> set (d # seen) \<union> set pending))"
        using "2.prems"(2) d None by auto
      ultimately obtain S where "set (d # seen) \<union> (set pending - {[]}) \<subseteq> S"
        "\<forall>x \<in> S. x \<notin> unresolved \<and> (\<forall>t. map_of rootsById x = Some t \<longrightarrow>
           (\<forall>e \<in> set (task_dependencies t). e = [] \<or> e \<in> S))"
        using "2.IH"(2) [OF False d None] by blast
      then show ?thesis by (intro exI [of _ S]) auto
    next
      case (Some t)
      let ?pending = "rev (task_dependencies t) @ pending"
      have "find_blocker_loop unresolved rootsById (d # seen) ?pending = None"
        using "2.prems"(1) False d Some by simp
      moreover have "\<forall>x \<in> set (d # seen). x \<notin> unresolved \<and> (\<forall>t. map_of rootsById x = Some t \<longrightarrow>
          (\<forall>e \<in> set (task_dependencies t). e = [] \<or> e \<in> set (d # seen) \<union> set ?pending))"
        using "2.prems"(2) d Some by auto
      ultimately obtain S where "set (d # seen) \<union> (set ?pending - {[]}) \<subseteq> S"
        "\<forall>x \<in> S. x \<notin> unresolved \<and> (\<forall>t. map_of rootsById x = Some t \<longrightarrow>
           (\<forall>e \<in> set (task_dependencies t). e = [] \<or> e \<in> S))"
        using "2.IH"(3) [OF False d Some] by blast
      then show ?thesis by (intro exI [of _ S]) auto
    qed
  qed
qed

lemma closed_reaches:
  "dep_reaches rootsById d b \<Longrightarrow> d \<in> S \<Longrightarrow>
   (\<And>x t e. x \<in> S \<Longrightarrow> map_of rootsById x = Some t \<Longrightarrow> e \<in> set (task_dependencies t) \<Longrightarrow>
      e = [] \<or> e \<in> S) \<Longrightarrow> b \<in> S"
proof (induction rule: dep_reaches.induct)
  case (step d t e b)
  have "e \<noteq> []" using step.hyps(4) by (auto elim: dep_reaches.cases)
  with step.prems(2) [OF step.prems(1) step.hyps(2,3)] have "e \<in> S" by simp
  then show ?case by (rule step.IH) (rule step.prems(2))
qed

lemma find_blocker_None:
  "findUnresolvedLineageBlocker unresolved rootsById t = None \<longleftrightarrow>
   (\<forall>d \<in> set (task_dependencies t). \<forall>b \<in> unresolved. \<not> dep_reaches rootsById d b)"
proof
  assume none: "findUnresolvedLineageBlocker unresolved rootsById t = None"
  have "\<exists>S. set [] \<union> (set (rev (task_dependencies t)) - {[]}) \<subseteq> S \<and>
      (\<forall>x \<in> S. x \<notin> unresolved \<and> (\<forall>t. map_of rootsById x = Some t \<longrightarrow>
         (\<forall>e \<in> set (task_dependencies t). e = [] \<or> e \<in> S)))"
    by (rule find_blocker_closed)
      (use none in \<open>simp_all add: findUnresolvedLineageBlocker_def\<close>)
  then obtain S where sub: "set [] \<union> (set (rev (task_dependencies t)) - {[]}) \<subseteq> S"
    and S: "\<forall>x \<in> S. x \<notin> unresolved \<and> (\<forall>t. map_of rootsById x = Some t \<longrightarrow>
         (\<forall>e \<in> set (task_dependencies t). e = [] \<or> e \<in> S))"
    by (elim exE conjE)
  show "\<forall>d \<in> set (task_dependencies t). \<forall>b \<in> unresolved. \<not> dep_reaches rootsById d b"
  proof (intro ballI notI)
    fix d b
    assume d: "d \<in> set (task_dependencies t)" and b: "b \<in> unresolved" and r: "dep_reaches rootsById d b"
    from r have "d \<noteq> []" by (auto elim: dep_reaches.cases)
    with d sub have "d \<in> S" by auto
    have "b \<in> S" by (rule closed_reaches [OF r \<open>d \<in> S\<close>]) (use S in simp)
    with S b show False by simp
  qed
next
  assume "\<forall>d \<in> set (task_dependencies t). \<forall>b \<in> unresolved. \<not> dep_reaches rootsById d b"
  then show "findUnresolvedLineageBlocker unresolved rootsById t = None"
    using find_blocker_sound [of unresolved rootsById "[]" "rev (task_dependencies t)"]
    by (cases "findUnresolvedLineageBlocker unresolved rootsById t")
      (auto simp: findUnresolvedLineageBlocker_def)
qed

lemma find_blocker_Some:
  "findUnresolvedLineageBlocker unresolved rootsById t = Some b \<Longrightarrow>
   b \<in> unresolved \<and> (\<exists>d \<in> set (task_dependencies t). dep_reaches rootsById d b)"
  using find_blocker_sound [of unresolved rootsById "[]" "rev (task_dependencies t)"]
  by (auto simp: findUnresolvedLineageBlocker_def)

section \<open>The pause decision\<close>

lemma blocked_edges_set:
  "(i, b) \<in> set (blocked_edges evals unresolved rootsById ts) \<longleftrightarrow>
   (\<exists>t \<in> set ts. task_id t = i \<and> breaker_waiting evals t \<and>
      findUnresolvedLineageBlocker unresolved rootsById t = Some b)"
  by (induction ts) (auto split: option.splits)

lemma blocked_edges_Nil:
  "blocked_edges evals unresolved rootsById ts = [] \<longleftrightarrow>
   (\<forall>t \<in> set ts. breaker_waiting evals t \<longrightarrow>
      findUnresolvedLineageBlocker unresolved rootsById t = None)"
  by (induction ts) (auto split: option.splits)

lemma blocked_edges_sound:
  assumes "(i, b) \<in> set (blocked_edges evals unresolved rootsById ts)"
  shows "b \<in> unresolved \<and> (\<exists>t \<in> set ts. task_id t = i \<and> breaker_waiting evals t \<and>
    (\<exists>e \<in> set (task_dependencies t). dep_reaches rootsById e b))"
proof -
  from assms obtain t where t: "t \<in> set ts" "task_id t = i" "breaker_waiting evals t"
    "findUnresolvedLineageBlocker unresolved rootsById t = Some b"
    by (auto simp: blocked_edges_set)
  from find_blocker_Some [OF t(4)] t(1-3) show ?thesis by blast
qed

lemma blocked_edges_nonempty:
  "blocked_edges evals unresolved rootsById ts \<noteq> [] \<longleftrightarrow>
   (\<exists>t \<in> set ts. breaker_waiting evals t \<and>
      (\<exists>e \<in> set (task_dependencies t). \<exists>b \<in> unresolved. dep_reaches rootsById e b))"
  unfolding blocked_edges_Nil find_blocker_None by blast

text \<open>
  The computed percentage against the exact one: for a threshold that is further than the
  rounding error from the exact percentage, the comparison of the code is the exact one.
\<close>

lemma percent_threshold:
  assumes "k \<le> n" "0 < n"
  shows "(least + 1 / 2 ^ 40) * of_nat n \<le> 100 * of_nat k \<Longrightarrow> least \<le> js_percent k n"
    and "least \<le> js_percent k n \<Longrightarrow> (least - 1 / 2 ^ 40) * of_nat n \<le> 100 * of_nat k"
proof -
  have n: "0 < (of_nat n :: rat)" using assms(2) by simp
  have near: "js_percent k n \<le> 100 * of_nat k / of_nat n + 1 / 2 ^ 40"
    "100 * of_nat k / of_nat n - 1 / 2 ^ 40 \<le> js_percent k n"
    using js_percent_error [OF assms] unfolding abs_le_iff by linarith+
  show "least \<le> js_percent k n" if "(least + 1 / 2 ^ 40) * of_nat n \<le> 100 * of_nat k"
  proof -
    have "least + 1 / 2 ^ 40 \<le> 100 * of_nat k / of_nat n" using that n by (simp only: pos_le_divide_eq)
    with near(2) show ?thesis by linarith
  qed
  show "(least - 1 / 2 ^ 40) * of_nat n \<le> 100 * of_nat k" if "least \<le> js_percent k n"
  proof -
    have "least - 1 / 2 ^ 40 \<le> 100 * of_nat k / of_nat n" using that near(1) by linarith
    then show ?thesis using n by (simp only: pos_le_divide_eq)
  qed
qed

text \<open>
  C20 The pause gate, for \<open>n\<close> lineages of which \<open>k\<close> have failed. The decision reports these two
  numbers and the roots of the failed lineages. It is forced exactly when a waiting lineage
  root (pending, paused, deferred or not dispatched) transitively depends on a failed lineage,
  and a forced decision pauses whatever the policy says. Otherwise the run is paused by an
  enabled policy whose absolute threshold \<open>k\<close> reaches and whose proportional threshold
  \<open>100 * k / n\<close> reaches in exact arithmetic, up to the rounding of the percentage: it is
  paused when the percentage exceeds the threshold by \<open>2 ^ -40\<close> points, and not paused when
  it falls short of it by more. At the threshold itself the rounded percentage decides (see
  \<open>circuit_breaker_rounds_down\<close>). Every diagnostic edge names a failed lineage that really is
  reachable from the waiting root, and without a failed lineage the run is never paused.
\<close>

theorem circuit_breaker_correct:
  "let d = evaluateFixCircuitBreaker lc tasks evals policy nds;
       ps = projectTaskLineageSettlements lc tasks evals nds;
       failures = filter (\<lambda>p. lineage_state p = LIN_FAILED) ps;
       n = length ps; k = length failures;
       failed = map (\<lambda>p. rootId (proj_lineage p)) failures;
       roots = map (\<lambda>p. rootTask (proj_lineage p)) ps;
       byId = tasks_by_id roots;
       stuck = (\<exists>t \<in> set roots. breaker_waiting evals t \<and>
         (\<exists>e \<in> set (task_dependencies t). \<exists>b \<in> set failed. dep_reaches byId e b));
       reached = (\<lambda>slack. breaker_enabled policy \<and> 0 < k \<and> max_unresolved_tasks policy \<le> int k \<and>
         (min_unresolved_ratio_percent policy + slack) * of_nat n \<le> 100 * of_nat k) in
   totalTasks d = n \<and> unresolvedTasks d = k \<and> unresolvedTaskIds d = failed \<and>
   (forcedByBlockedDependents d \<longleftrightarrow> stuck) \<and>
   (stuck \<or> reached (1 / 2 ^ 40) \<longrightarrow> shouldPause d) \<and>
   (shouldPause d \<longrightarrow> stuck \<or> reached (- (1 / 2 ^ 40))) \<and>
   (\<forall>(i, b) \<in> set (blockedDependencyEdges d). b \<in> set failed \<and>
      (\<exists>t \<in> set roots. task_id t = i \<and> breaker_waiting evals t \<and>
         (\<exists>e \<in> set (task_dependencies t). dep_reaches byId e b))) \<and>
   (k = 0 \<longrightarrow> \<not> shouldPause d)"
proof -
  let ?d = "evaluateFixCircuitBreaker lc tasks evals policy nds"
  let ?ps = "projectTaskLineageSettlements lc tasks evals nds"
  let ?failures = "filter (\<lambda>p. lineage_state p = LIN_FAILED) ?ps"
  let ?failed = "map (\<lambda>p. rootId (proj_lineage p)) ?failures"
  let ?roots = "map (\<lambda>p. rootTask (proj_lineage p)) ?ps"
  let ?edges = "blocked_edges evals (set ?failed) (tasks_by_id ?roots) ?roots"
  let ?ratio = "js_percent (length ?failures) (length ?ps)"
  let ?reached = "breaker_enabled policy \<and> 0 < length ?failures \<and>
     max_unresolved_tasks policy \<le> int (length ?failures) \<and> min_unresolved_ratio_percent policy \<le> ?ratio"
  have some: "0 < length ?failures" if "?edges \<noteq> []"
    using that unfolding blocked_edges_nonempty
    by (metis empty_iff length_0_conv length_greater_0_conv list.set(1) map_is_Nil_conv)
  have "length ?failures \<le> length ?ps" by (rule length_filter_le)
  then have count: "0 < length ?failures \<Longrightarrow> 0 < length ?ps" by linarith
  have fields: "totalTasks ?d = length ?ps" "unresolvedTasks ?d = length ?failures" "unresolvedTaskIds ?d = ?failed"
      "blockedDependencyEdges ?d = ?edges" "forcedByBlockedDependents ?d \<longleftrightarrow> ?edges \<noteq> []"
      "shouldPause ?d \<longleftrightarrow> ?edges \<noteq> [] \<or> ?reached"
    unfolding evaluateFixCircuitBreaker_def Let_def FixCircuitBreakerDecision.simps length_map
    using some count by auto
  have edge: "\<forall>(i, b) \<in> set ?edges. b \<in> set ?failed \<and> (\<exists>t \<in> set ?roots. task_id t = i \<and>
      breaker_waiting evals t \<and>
      (\<exists>e \<in> set (task_dependencies t). dep_reaches (tasks_by_id ?roots) e b))"
    using blocked_edges_sound [of _ _ evals "set ?failed" "tasks_by_id ?roots" ?roots]
    unfolding Ball_def split_paired_All prod.case by blast
  note threshold = percent_threshold [OF \<open>length ?failures \<le> length ?ps\<close> count,
      of "min_unresolved_ratio_percent policy"]
  show ?thesis
    unfolding Let_def fields blocked_edges_nonempty [symmetric] diff_conv_add_uminus [symmetric]
    by (intro conjI impI refl edge) (use some threshold in \<open>blast | fastforce\<close>)+
qed

theorem circuit_breaker_correct_witness:
  "shouldPause (evaluateFixCircuitBreaker compareCodePoint
      [sample_task ''a'' NO_GO [] None, sample_task ''b'' PENDING [''a''] None] (\<lambda>_. None)
      \<lparr>breaker_enabled = False, max_unresolved_tasks = 5, min_unresolved_ratio_percent = 50\<rparr> (\<lambda>_. None))"
proof -
  let ?ts = "[sample_task ''a'' NO_GO [] None, sample_task ''b'' PENDING [''a''] None]"
  let ?p = "\<lparr>breaker_enabled = False, max_unresolved_tasks = 5, min_unresolved_ratio_percent = 50\<rparr>"
  have "blockedDependencyEdges (evaluateFixCircuitBreaker compareCodePoint ?ts (\<lambda>_. None) ?p (\<lambda>_. None))
      = [(''b'', ''a'')]"
    by code_simp
  with circuit_breaker_correct [of compareCodePoint ?ts "\<lambda>_. None" ?p "\<lambda>_. None"]
  show ?thesis unfolding Let_def by fastforce
qed

text \<open>A run of \<open>n\<close> independent tasks of which the first \<open>failed\<close> have failed.\<close>

definition independent_run :: "nat \<Rightarrow> nat \<Rightarrow> task list" where
  "independent_run failed n =
     map (\<lambda>i. sample_task [char_of (i + 48)] (if i < failed then NO_GO else DONE) [] None) [0..<n]"

text \<open>
  The proportional threshold is compared with a rounded percentage: with 29 of 50 lineages
  failed, which is exactly 58 percent, a policy whose minimum ratio is 58 percent does not
  pause the run, because \<open>29 / 50 * 100\<close> is just below 58 in double arithmetic.
\<close>

theorem circuit_breaker_rounds_down:
  "let d = evaluateFixCircuitBreaker compareCodePoint (independent_run 29 50) (\<lambda>_. None)
       \<lparr>breaker_enabled = True, max_unresolved_tasks = 5, min_unresolved_ratio_percent = 58\<rparr>
       (\<lambda>_. None)
   in \<not> shouldPause d \<and> unresolvedTasks d = 29 \<and> totalTasks d = 50 \<and> 29 * 100 = 58 * (50::int)"
  by code_simp

end
