(* ===== verification/Scheduler_State.thy ===== *)
theory Scheduler_State
  imports Task_Lineage
begin

text \<open>
  \<open>src/orchestra/scheduler-truth.ts\<close> and \<open>src/orchestra/scheduler-state.ts\<close>: which task
  ids satisfy or terminally fail their dependents, and which are past their retry backoff,
  with the attempts of a repair lineage folded into one answer.
\<close>

definition isDependencySatisfying :: "TaskStatus \<Rightarrow> bool" where
  "isDependencySatisfying status \<longleftrightarrow> status = DONE"

definition isSchedulingTerminalFailure :: "TaskStatus \<Rightarrow> bool" where
  "isSchedulingTerminalFailure status \<longleftrightarrow> status = NO_GO \<or> status = MANUAL_REVIEW_REQUIRED"

definition isSchedulingSettled :: "TaskStatus \<Rightarrow> bool" where
  "isSchedulingSettled status \<longleftrightarrow>
     isDependencySatisfying status \<or> isSchedulingTerminalFailure status"

record EffectiveDependencyState =
  satisfyingIds :: "task_id set"
  terminalFailureIds :: "task_id set"
  retryEligibleIds :: "task_id set"

definition retry_eligible :: "int \<Rightarrow> task \<Rightarrow> bool" where
  "retry_eligible nowMs t = (case retryAfter t of None \<Rightarrow> True | Some r \<Rightarrow> r \<le> nowMs)"

text \<open>The first loop classifies the raw status of every task.\<close>

definition raw_dependency_state :: "task list \<Rightarrow> int \<Rightarrow> EffectiveDependencyState" where
  "raw_dependency_state tasks nowMs =
     \<lparr>satisfyingIds = set (map task_id (filter (\<lambda>t. isDependencySatisfying (task_status t)) tasks)),
      terminalFailureIds =
        set (map task_id (filter (\<lambda>t. isSchedulingTerminalFailure (task_status t)) tasks)),
      retryEligibleIds = set (map task_id (filter (retry_eligible nowMs) tasks))\<rparr>"

definition projected_ids :: "(task_id, task) js_map \<Rightarrow> TaskLineage \<Rightarrow> task_id set" where
  "projected_ids byId l =
     set (attemptIds l) \<union> set (resolveFixAncestorIds (resolvedTask l) byId)"

text \<open>The second loop lets the head of each lineage speak for all its ids.\<close>

definition project_lineage ::
    "(task_id, task) js_map \<Rightarrow> TaskLineage \<Rightarrow> EffectiveDependencyState \<Rightarrow> EffectiveDependencyState" where
  "project_lineage byId l s =
     (let ids = projected_ids byId l; st = task_status (resolvedTask l)
      in if isDependencySatisfying st
         then s\<lparr>satisfyingIds := satisfyingIds s \<union> ids,
                terminalFailureIds := terminalFailureIds s - ids\<rparr>
         else if isSchedulingTerminalFailure st
         then s\<lparr>satisfyingIds := satisfyingIds s - ids,
                terminalFailureIds := terminalFailureIds s \<union> ids\<rparr>
         else s\<lparr>satisfyingIds := satisfyingIds s - ids,
                terminalFailureIds := terminalFailureIds s - ids\<rparr>)"

definition computeEffectiveDependencyState ::
    "(string \<Rightarrow> string \<Rightarrow> int) \<Rightarrow> task list \<Rightarrow> int \<Rightarrow> EffectiveDependencyState" where
  "computeEffectiveDependencyState lc tasks nowMs =
     fold (project_lineage (tasks_by_id tasks)) (foldTaskLineages lc tasks)
       (raw_dependency_state tasks nowMs)"

section \<open>Lemmas\<close>

lemma satisfying_not_terminal: "isDependencySatisfying st \<Longrightarrow> \<not> isSchedulingTerminalFailure st"
  by (simp add: isDependencySatisfying_def isSchedulingTerminalFailure_def)

lemma project_lineage_sets:
  "x \<in> satisfyingIds (project_lineage byId l s) \<longleftrightarrow>
     (if x \<in> projected_ids byId l then isDependencySatisfying (task_status (resolvedTask l))
      else x \<in> satisfyingIds s)"
  "x \<in> terminalFailureIds (project_lineage byId l s) \<longleftrightarrow>
     (if x \<in> projected_ids byId l then isSchedulingTerminalFailure (task_status (resolvedTask l))
      else x \<in> terminalFailureIds s)"
  "retryEligibleIds (project_lineage byId l s) = retryEligibleIds s"
  by (auto simp: project_lineage_def Let_def satisfying_not_terminal)

text \<open>The last lineage that projects an id decides about it.\<close>

lemma fold_project_unprojected:
  "(\<And>l. l \<in> set ls \<Longrightarrow> x \<notin> projected_ids byId l) \<Longrightarrow>
   (x \<in> satisfyingIds (fold (project_lineage byId) ls s) \<longleftrightarrow> x \<in> satisfyingIds s) \<and>
   (x \<in> terminalFailureIds (fold (project_lineage byId) ls s) \<longleftrightarrow> x \<in> terminalFailureIds s)"
  by (induction ls arbitrary: s) (auto simp: project_lineage_sets)

lemma fold_project_disjoint:
  "(\<exists>l \<in> set ls. x \<in> projected_ids byId l) \<or> \<not> (x \<in> satisfyingIds s \<and> x \<in> terminalFailureIds s) \<Longrightarrow>
   \<not> (x \<in> satisfyingIds (fold (project_lineage byId) ls s) \<and>
      x \<in> terminalFailureIds (fold (project_lineage byId) ls s))"
proof (induction ls arbitrary: s)
  case (Cons l ls)
  show ?case
    unfolding fold_simps
  proof (rule Cons.IH)
    show "(\<exists>l \<in> set ls. x \<in> projected_ids byId l) \<or>
        \<not> (x \<in> satisfyingIds (project_lineage byId l s) \<and>
           x \<in> terminalFailureIds (project_lineage byId l s))"
      using Cons.prems by (auto simp: project_lineage_sets satisfying_not_terminal)
  qed
qed simp

lemma fold_project_unique:
  assumes "l \<in> set ls" and "x \<in> projected_ids byId l"
    and "\<And>k. k \<in> set ls \<Longrightarrow> k \<noteq> l \<Longrightarrow> x \<notin> projected_ids byId k"
  shows "(x \<in> satisfyingIds (fold (project_lineage byId) ls s) \<longleftrightarrow>
      isDependencySatisfying (task_status (resolvedTask l))) \<and>
    (x \<in> terminalFailureIds (fold (project_lineage byId) ls s) \<longleftrightarrow>
      isSchedulingTerminalFailure (task_status (resolvedTask l)))"
  using assms
proof (induction ls arbitrary: s)
  case (Cons k ls)
  show ?case
  proof (cases "l \<in> set ls")
    case True
    with Cons show ?thesis by simp
  next
    case False
    with Cons.prems have "k = l" by simp
    moreover have "\<And>m. m \<in> set ls \<Longrightarrow> x \<notin> projected_ids byId m"
      using Cons.prems(3) False by auto
    ultimately show ?thesis
      using fold_project_unprojected [of ls x byId] Cons.prems(2)
      by (simp add: project_lineage_sets)
  qed
qed simp

lemma raw_id_projected:
  assumes "t \<in> set tasks"
  shows "\<exists>l \<in> set (foldTaskLineages lc tasks). task_id t \<in> projected_ids (tasks_by_id tasks) l"
proof -
  from assms obtain l where l: "l \<in> set (foldTaskLineages lc tasks)" "t \<in> set (attempts l)"
    using fold_set_attempts [of lc tasks] by blast
  then have "attemptIds l = map task_id (attempts l)" by (auto simp: fold_members)
  with l show ?thesis by (intro bexI [of _ l]) (auto simp: projected_ids_def)
qed

text \<open>
  No task id both satisfies and terminally fails its dependents, so one tick of the
  scheduler can never both start a dependent and cascade-skip it for the same dependency,
  whatever the attempts, their statuses and their order (duplicate ids included).
\<close>

theorem dependency_state_consistent:
  "satisfyingIds (computeEffectiveDependencyState lc tasks nowMs) \<inter>
   terminalFailureIds (computeEffectiveDependencyState lc tasks nowMs) = {}"
proof -
  have "\<not> (x \<in> satisfyingIds (computeEffectiveDependencyState lc tasks nowMs) \<and>
      x \<in> terminalFailureIds (computeEffectiveDependencyState lc tasks nowMs))" for x
    unfolding computeEffectiveDependencyState_def
    by (rule fold_project_disjoint)
      (use raw_id_projected [of _ tasks lc] in \<open>auto simp: raw_dependency_state_def\<close>)
  then show ?thesis by blast
qed

text \<open>
  An id that one lineage projects answers with the status of that lineage's head: it
  satisfies dependents exactly when the head is DONE and fails them exactly when the head is
  NO_GO or MANUAL_REVIEW_REQUIRED; in particular a failed root whose repair is DONE satisfies
  its dependents, and one whose repair is still running does neither.
\<close>

theorem dependency_state_follows_head:
  assumes "l \<in> set (foldTaskLineages lc tasks)"
    and "x \<in> projected_ids (tasks_by_id tasks) l"
    and "\<And>k. k \<in> set (foldTaskLineages lc tasks) \<Longrightarrow> k \<noteq> l \<Longrightarrow>
      x \<notin> projected_ids (tasks_by_id tasks) k"
  shows "let s = computeEffectiveDependencyState lc tasks nowMs in
    (x \<in> satisfyingIds s \<longleftrightarrow> isDependencySatisfying (task_status (resolvedTask l))) \<and>
    (x \<in> terminalFailureIds s \<longleftrightarrow> isSchedulingTerminalFailure (task_status (resolvedTask l)))"
  unfolding Let_def computeEffectiveDependencyState_def by (rule fold_project_unique [OF assms])

theorem dependency_state_follows_head_witness:
  "''a'' \<in> satisfyingIds (computeEffectiveDependencyState compareCodePoint sample_repairs 0) \<and>
   task_status (sample_repairs ! 0) = NO_GO"
proof -
  let ?ls = "foldTaskLineages compareCodePoint sample_repairs"
  let ?byId = "tasks_by_id sample_repairs"
  have len: "map rootId ?ls = [''a'', ''b'']" by code_simp
  then obtain l k where ls: "?ls = [l, k]" by (auto simp: map_eq_Cons_conv)
  have "map (\<lambda>l. (''a'' \<in> projected_ids ?byId l, task_status (resolvedTask l))) ?ls
      = [(True, DONE), (False, PENDING)]" by code_simp
  with dependency_state_follows_head [of l compareCodePoint sample_repairs "''a''" 0] ls
  show ?thesis by (auto simp: Let_def isDependencySatisfying_def sample_repairs_def sample_task_def)
qed

end
