(* ===== verification/Failure_Disposition.thy ===== *)
theory Failure_Disposition
  imports Task_Model
begin

text \<open>
  \<open>src/core/failure-disposition-policy.ts\<close>: what happens to a task that the host rejected
  before dispatch. Reason codes are strings, as in the task files; a policy maps a known
  reason code to a partial override of the default disposition.
\<close>

definition HOST_PRE_DISPATCH_REASON_CODES :: "string list" where
  "HOST_PRE_DISPATCH_REASON_CODES =
     [''PROVIDER_ADAPTER_UNAVAILABLE'', ''FORCED_SKILL_UNAVAILABLE'',
      ''ATTRIBUTION_BASELINE_CAPTURE_FAILED'', ''PROMPT_COMPILE_FAILED'',
      ''SCOPE_COMPILE_FAILED'', ''SCOPE_UNSATISFIABLE'',
      ''COORDINATOR_CRASHED_BEFORE_DOCKER_PREPARE'', ''LEGACY_HOST_PRE_DISPATCH_REJECTION'']"

definition isHostPreDispatchReasonCode :: "string \<Rightarrow> bool" where
  "isHostPreDispatchReasonCode value \<longleftrightarrow> value \<in> set HOST_PRE_DISPATCH_REASON_CODES"

record FailureDisposition =
  disp_evaluation :: TaskEvaluation
  fixEligible :: bool
  redispatchEligible :: bool
  cascadeDependents :: bool

text \<open>\<open>Partial<FailureDisposition>\<close>: a field left out is \<^const>\<open>None\<close>.\<close>

record FailureDispositionOverride =
  override_evaluation :: "TaskEvaluation option"
  override_fixEligible :: "bool option"
  override_redispatchEligible :: "bool option"
  override_cascadeDependents :: "bool option"

type_synonym FailureDispositionPolicyConfig = "string \<Rightarrow> FailureDispositionOverride option"

definition DEFAULT_HOST_PRE_DISPATCH_DISPOSITION :: FailureDisposition where
  "DEFAULT_HOST_PRE_DISPATCH_DISPOSITION =
     \<lparr>disp_evaluation = NOT_DISPATCHED, fixEligible = False, redispatchEligible = False,
      cascadeDependents = True\<rparr>"

definition spread :: "'a \<Rightarrow> 'a option \<Rightarrow> 'a" where
  "spread base over = (case over of None \<Rightarrow> base | Some v \<Rightarrow> v)"

definition resolveHostPreDispatchFailureDisposition ::
    "string \<Rightarrow> FailureDispositionPolicyConfig \<Rightarrow> FailureDisposition" where
  "resolveHostPreDispatchFailureDisposition reasonCode config =
     (let d = DEFAULT_HOST_PRE_DISPATCH_DISPOSITION
      in case config reasonCode of
           None \<Rightarrow> d
         | Some over \<Rightarrow>
             \<lparr>disp_evaluation = NOT_DISPATCHED,
              fixEligible = spread (fixEligible d) (override_fixEligible over),
              redispatchEligible = spread (redispatchEligible d) (override_redispatchEligible over),
              cascadeDependents = spread (cascadeDependents d) (override_cascadeDependents over)\<rparr>)"

text \<open>The reason code under which an unknown code is settled.\<close>

definition known_reason_code :: "string \<Rightarrow> string" where
  "known_reason_code code =
     (if isHostPreDispatchReasonCode code then code else ''LEGACY_HOST_PRE_DISPATCH_REJECTION'')"

definition isPolicyTerminalPreDispatchResult ::
    "string option \<Rightarrow> FailureDispositionPolicyConfig \<Rightarrow> bool" where
  "isPolicyTerminalPreDispatchResult settlementReason config =
     (case settlementReason of
        None \<Rightarrow> False
      | Some code \<Rightarrow>
          (let d = resolveHostPreDispatchFailureDisposition (known_reason_code code) config
           in \<not> fixEligible d \<and> \<not> redispatchEligible d))"

lemma known_reason_code_host [simp]: "isHostPreDispatchReasonCode (known_reason_code code)"
  by (simp add: known_reason_code_def isHostPreDispatchReasonCode_def
      HOST_PRE_DISPATCH_REASON_CODES_def)

lemma disposition_evaluation [simp]:
  "disp_evaluation (resolveHostPreDispatchFailureDisposition code config) = NOT_DISPATCHED"
  by (simp add: resolveHostPreDispatchFailureDisposition_def Let_def
      DEFAULT_HOST_PRE_DISPATCH_DISPOSITION_def split: option.split)

lemma disposition_default:
  "config code = None \<Longrightarrow>
   \<not> fixEligible (resolveHostPreDispatchFailureDisposition code config) \<and>
   \<not> redispatchEligible (resolveHostPreDispatchFailureDisposition code config)"
  by (simp add: resolveHostPreDispatchFailureDisposition_def DEFAULT_HOST_PRE_DISPATCH_DISPOSITION_def)

end
