(* ===== verification/Scheduler_Reducer.thy ===== *)
theory Scheduler_Reducer
  imports Scheduler_State Failure_Disposition
begin

text \<open>
  \<open>src/orchestra/scheduler-reducer.ts\<close>: one tick of the scheduler as a pure function from
  a snapshot to a queue, dispositions and an ordered list of effects. The snapshot's sets
  are sets, its maps are partial functions, its arrays lists. The dispositions of a tick and
  its effects are threaded through the passes as the code's mutable \<open>dispositions\<close> and
  \<open>orderedEffects\<close>.
\<close>

section \<open>Snapshot and decision\<close>

datatype SchedulerTriggerKind = TriggerInitial | TriggerWatcher
datatype DispatchStrategy = Continuous | LegacyFifo

record SchedulerTaskSnapshot =
  snap_id :: task_id
  snap_status :: TaskStatus
  snap_dependencies :: "task_id list"
  snap_fixForTaskId :: "task_id option"
  snap_retryAfter :: "int option"
  repairSettlementReasonCode :: "string option"

record SchedulerSnapshot =
  trigger_kind :: SchedulerTriggerKind
  trigger_sequence :: nat
  strategy :: DispatchStrategy
  nowMs :: int
  costStop :: bool
  slotBudget :: int
  orderedQueue :: "SchedulerTaskSnapshot list"
  snap_tasks :: "SchedulerTaskSnapshot list"
  assignedTaskIds :: "task_id set"
  collectedIds :: "task_id set"
  completedTaskIds :: "task_id list"
  dependencyPipelineEnabled :: bool
  deferTerminalDependencyFailure :: bool
  effectiveDependencyState :: EffectiveDependencyState
  collisionBlockedIds :: "task_id set"
  collisionBlockingIds :: "task_id \<Rightarrow> task_id option"
  failureDispositionPolicy :: FailureDispositionPolicyConfig

datatype SpawnReason = QueueDrain | PendingSlotFill
datatype BlockReason = DependencyPending | ScopeCollision | RetryBackoff

datatype SchedulerEffect =
    SpawnTask task_id SpawnReason
  | KillWorker task_id
  | NoMintRepair task_id task_id string string
  | CascadeSkip task_id task_id bool string \<comment> \<open>the flag: a quiescence skip\<close>
  | Blocked task_id BlockReason "task_id option"
  | ClearBlocked task_id
  | EmitMetric string nat
  | WriteCheckpoint string

datatype SchedulerDisposition =
  DispSpawn | BlockedDependency | BlockedCollision | BlockedRetry | NoMint | DispCascadeSkip

type_synonym dispositions = "task_id \<Rightarrow> SchedulerDisposition option"

record SchedulerDecision =
  nextQueue :: "SchedulerTaskSnapshot list"
  decision_dispositions :: dispositions
  orderedEffects :: "SchedulerEffect list"

section \<open>No-mint repairs\<close>

text \<open>
  A repair of a task that the host rejected before dispatch is not minted unless the
  failure-disposition policy makes the reason fixable.
\<close>

definition no_mint :: "FailureDispositionPolicyConfig \<Rightarrow> SchedulerTaskSnapshot \<Rightarrow> (task_id \<times> string) option" where
  "no_mint policy t =
     (case js_truthy (snap_fixForTaskId t) of
        None \<Rightarrow> None
      | Some failed \<Rightarrow>
          (case js_truthy (repairSettlementReasonCode t) of
             None \<Rightarrow> None
           | Some code \<Rightarrow>
               (let reason = known_reason_code code
                in if fixEligible (resolveHostPreDispatchFailureDisposition reason policy) then None
                   else Some (failed, reason))))"

definition noMintIds :: "SchedulerSnapshot \<Rightarrow> task_id set" where
  "noMintIds snap = set (map snap_id
     (filter (\<lambda>t. no_mint (failureDispositionPolicy snap) t \<noteq> None) (snap_tasks snap)))"

definition no_mint_effects :: "SchedulerSnapshot \<Rightarrow> SchedulerEffect list" where
  "no_mint_effects snap = concat (map (\<lambda>t.
     case no_mint (failureDispositionPolicy snap) t of
       None \<Rightarrow> []
     | Some (failed, reason) \<Rightarrow>
         [NoMintRepair (snap_id t) failed reason (''no-mint:'' @ snap_id t @ '':'' @ reason)])
     (snap_tasks snap))"

definition no_mint_dispositions :: "SchedulerSnapshot \<Rightarrow> dispositions" where
  "no_mint_dispositions snap = (\<lambda>i. if i \<in> noMintIds snap then Some NoMint else None)"

definition clear_blocked_effects :: "SchedulerSnapshot \<Rightarrow> SchedulerEffect list" where
  "clear_blocked_effects snap =
     (if strategy snap = Continuous \<and> dependencyPipelineEnabled snap
      then map (\<lambda>t. ClearBlocked (snap_id t))
             (filter (\<lambda>t. snap_status t \<noteq> PENDING) (snap_tasks snap))
      else [])"

section \<open>Cascade skip\<close>

record cascade_state =
  cs_effects :: "SchedulerEffect list"
  cs_dispositions :: dispositions
  cs_skipped :: "task_id list"
  cs_failed :: "task_id set"

definition first_failed_dependency :: "task_id set \<Rightarrow> SchedulerTaskSnapshot \<Rightarrow> task_id option" where
  "first_failed_dependency failed t = js_truthy (find (\<lambda>d. d \<in> failed) (snap_dependencies t))"

definition skip_task :: "bool \<Rightarrow> SchedulerTaskSnapshot \<Rightarrow> task_id \<Rightarrow> cascade_state \<Rightarrow> cascade_state" where
  "skip_task quiescent t failedDep st =
     st\<lparr>cs_effects := cs_effects st @ [CascadeSkip (snap_id t) failedDep quiescent
            (''cascade-skip:'' @ snap_id t @ '':'' @ failedDep)],
        cs_dispositions := (cs_dispositions st)(snap_id t \<mapsto> DispCascadeSkip),
        cs_skipped := js_add (snap_id t) (cs_skipped st),
        cs_failed := insert (snap_id t) (cs_failed st)\<rparr>"

definition cascade_step ::
    "SchedulerSnapshot \<Rightarrow> SchedulerTaskSnapshot \<Rightarrow> cascade_state \<Rightarrow> cascade_state option" where
  "cascade_step snap t st =
     (if snap_id t \<in> collectedIds snap \<or> snap_id t \<in> set (cs_skipped st)
         \<or> snap_id t \<in> noMintIds snap then None
      else if snap_status t \<noteq> PENDING then None
      else if snap_id t \<in> assignedTaskIds snap then None
      else (case first_failed_dependency (cs_failed st) t of
              None \<Rightarrow> None
            | Some failedDep \<Rightarrow> Some (skip_task False t failedDep st)))"

definition cascade_start :: "SchedulerSnapshot \<Rightarrow> cascade_state" where
  "cascade_start snap =
     \<lparr>cs_effects = no_mint_effects snap @ clear_blocked_effects snap,
      cs_dispositions = no_mint_dispositions snap,
      cs_skipped = [],
      cs_failed = terminalFailureIds (effectiveDependencyState snap) \<union>
        set (concat (map (\<lambda>t. if snap_id t \<in> noMintIds snap
               then (case js_truthy (snap_fixForTaskId t) of None \<Rightarrow> [] | Some f \<Rightarrow> [f]) else [])
             (snap_tasks snap)))\<rparr>"

definition cascade_pass :: "SchedulerSnapshot \<Rightarrow> cascade_state option" where
  "cascade_pass snap =
     (if \<not> deferTerminalDependencyFailure snap \<or> noMintIds snap \<noteq> {}
      then js_repeat (cascade_step snap) (snap_tasks snap) (cascade_start snap)
      else Some (cascade_start snap))"

text \<open>The quiescence pass closes PAUSED branches that can never reopen.\<close>

definition paused_step ::
    "SchedulerSnapshot \<Rightarrow> SchedulerTaskSnapshot \<Rightarrow> cascade_state \<Rightarrow> cascade_state option" where
  "paused_step snap t st =
     (if snap_status t \<noteq> PAUSED then None
      else if snap_id t \<in> collectedIds snap \<or> snap_id t \<in> set (cs_skipped st) then None
      else if snap_id t \<in> assignedTaskIds snap then None
      else (case first_failed_dependency (cs_failed st) t of
              None \<Rightarrow> None
            | Some failedDep \<Rightarrow> Some (skip_task True t failedDep st)))"

definition cascadePausedAtQuiescence ::
    "SchedulerSnapshot \<Rightarrow> SchedulerEffect list \<Rightarrow> dispositions \<Rightarrow> task_id list \<Rightarrow> cascade_state option" where
  "cascadePausedAtQuiescence snap effects disp alreadySkipped =
     js_repeat (paused_step snap) (snap_tasks snap)
       \<lparr>cs_effects = effects, cs_dispositions = disp, cs_skipped = alreadySkipped,
        cs_failed = terminalFailureIds (effectiveDependencyState snap) \<union> set alreadySkipped\<rparr>"

definition hasLiveWork :: "SchedulerSnapshot \<Rightarrow> bool" where
  "hasLiveWork snap \<longleftrightarrow>
     list_ex (\<lambda>t. snap_status t = CLAIMED \<or> snap_status t = EXECUTING \<or> snap_status t = TESTING)
       (snap_tasks snap)
     \<or> (\<exists>i \<in> assignedTaskIds snap. i \<notin> collectedIds snap)"

section \<open>Block classification\<close>

record BlockClassification =
  block_reason :: BlockReason
  block_disposition :: SchedulerDisposition
  block_blockingId :: "task_id option"

definition classifyBlock :: "SchedulerTaskSnapshot \<Rightarrow> SchedulerSnapshot \<Rightarrow> BlockClassification option" where
  "classifyBlock t snap =
     (if snap_id t \<in> collisionBlockedIds snap
      then Some \<lparr>block_reason = ScopeCollision, block_disposition = BlockedCollision,
                 block_blockingId = collisionBlockingIds snap (snap_id t)\<rparr>
      else if snap_id t \<notin> retryEligibleIds (effectiveDependencyState snap)
      then Some \<lparr>block_reason = RetryBackoff, block_disposition = BlockedRetry, block_blockingId = None\<rparr>
      else if dependencyPipelineEnabled snap \<and> snap_dependencies t \<noteq> []
      then (case js_truthy (find (\<lambda>d. d \<notin> satisfyingIds (effectiveDependencyState snap))
                    (snap_dependencies t)) of
              None \<Rightarrow> None
            | Some b \<Rightarrow> Some \<lparr>block_reason = DependencyPending,
                block_disposition = BlockedDependency, block_blockingId = Some b\<rparr>)
      else None)"

definition blocked_effect :: "SchedulerTaskSnapshot \<Rightarrow> BlockClassification \<Rightarrow> SchedulerEffect" where
  "blocked_effect t b = Blocked (snap_id t) (block_reason b) (js_truthy (block_blockingId b))"

section \<open>Continuous strategy\<close>

record drain_state =
  ds_effects :: "SchedulerEffect list"
  ds_dispositions :: dispositions
  ds_slots :: int
  ds_chosen :: "task_id set"

definition mark_blocked :: "SchedulerTaskSnapshot \<Rightarrow> BlockClassification \<Rightarrow> drain_state \<Rightarrow> drain_state" where
  "mark_blocked t b st =
     st\<lparr>ds_effects := ds_effects st @ [blocked_effect t b],
        ds_dispositions := (ds_dispositions st)(snap_id t \<mapsto> block_disposition b)\<rparr>"

definition mark_spawn :: "SpawnReason \<Rightarrow> SchedulerTaskSnapshot \<Rightarrow> drain_state \<Rightarrow> drain_state" where
  "mark_spawn reason t st =
     st\<lparr>ds_effects := ds_effects st @ [SpawnTask (snap_id t) reason],
        ds_dispositions := (ds_dispositions st)(snap_id t \<mapsto> DispSpawn),
        ds_slots := ds_slots st - 1,
        ds_chosen := insert (snap_id t) (ds_chosen st)\<rparr>"

definition never_spawn :: "task_id set \<Rightarrow> dispositions \<Rightarrow> task_id \<Rightarrow> bool" where
  "never_spawn skipped disp i \<longleftrightarrow> i \<in> skipped \<or> disp i = Some NoMint"

text \<open>
  Step 1 scans the queue by index: \<open>kept\<close> is the part before the index, a blocked entry
  stays in place, a dropped or spawned entry is spliced out.
\<close>

fun drain_queue ::
    "SchedulerSnapshot \<Rightarrow> task_id set \<Rightarrow> SchedulerTaskSnapshot list \<Rightarrow>
     SchedulerTaskSnapshot list \<Rightarrow> drain_state \<Rightarrow> SchedulerTaskSnapshot list \<times> drain_state" where
  "drain_queue snap skipped kept [] st = (kept, st)"
| "drain_queue snap skipped kept (candidate # rest) st =
     (if ds_slots st \<le> 0 then (kept @ candidate # rest, st)
      else if snap_id candidate \<in> assignedTaskIds snap then drain_queue snap skipped kept rest st
      else if never_spawn skipped (ds_dispositions st) (snap_id candidate)
      then drain_queue snap skipped kept rest st
      else (case classifyBlock candidate snap of
              Some b \<Rightarrow> drain_queue snap skipped (kept @ [candidate]) rest (mark_blocked candidate b st)
            | None \<Rightarrow> drain_queue snap skipped kept rest (mark_spawn QueueDrain candidate st)))"

text \<open>Step 2 fills the remaining slots from the pending tasks that are not queued.\<close>

fun fill_slots ::
    "SchedulerSnapshot \<Rightarrow> task_id set \<Rightarrow> task_id set \<Rightarrow> SchedulerTaskSnapshot list \<Rightarrow>
     drain_state \<Rightarrow> drain_state" where
  "fill_slots snap skipped stillQueued [] st = st"
| "fill_slots snap skipped stillQueued (t # ts) st =
     (if ds_slots st \<le> 0 then st
      else if snap_status t \<noteq> PENDING \<or> snap_id t \<in> assignedTaskIds snap
           \<or> snap_id t \<in> collectedIds snap \<or> snap_id t \<in> ds_chosen st
           \<or> never_spawn skipped (ds_dispositions st) (snap_id t) \<or> snap_id t \<in> stillQueued
      then fill_slots snap skipped stillQueued ts st
      else (case classifyBlock t snap of
              Some b \<Rightarrow> fill_slots snap skipped stillQueued ts (mark_blocked t b st)
            | None \<Rightarrow> fill_slots snap skipped stillQueued ts (mark_spawn PendingSlotFill t st)))"

definition reduceContinuous ::
    "SchedulerSnapshot \<Rightarrow> SchedulerEffect list \<Rightarrow> dispositions \<Rightarrow> task_id set \<Rightarrow>
     SchedulerTaskSnapshot list \<times> drain_state" where
  "reduceContinuous snap effects disp skipped =
     (let (queue, st) = drain_queue snap skipped [] (orderedQueue snap)
            \<lparr>ds_effects = effects, ds_dispositions = disp, ds_slots = slotBudget snap, ds_chosen = {}\<rparr>
      in if 0 < ds_slots st
         then (queue, fill_slots snap skipped (set (map snap_id queue)) (snap_tasks snap) st)
         else (queue, st))"

section \<open>Legacy FIFO strategy\<close>

text \<open>The inner index scan: the first entry that is neither dropped nor blocked.\<close>

fun pick_eligible ::
    "SchedulerSnapshot \<Rightarrow> task_id set \<Rightarrow> SchedulerTaskSnapshot list \<Rightarrow> SchedulerTaskSnapshot list \<Rightarrow>
     drain_state \<Rightarrow> SchedulerTaskSnapshot option \<times> SchedulerTaskSnapshot list \<times> drain_state" where
  "pick_eligible snap skipped kept [] st = (None, kept, st)"
| "pick_eligible snap skipped kept (candidate # rest) st =
     (if snap_id candidate \<in> assignedTaskIds snap then pick_eligible snap skipped kept rest st
      else if never_spawn skipped (ds_dispositions st) (snap_id candidate)
      then pick_eligible snap skipped kept rest st
      else (case classifyBlock candidate snap of
              Some b \<Rightarrow> pick_eligible snap skipped (kept @ [candidate]) rest (mark_blocked candidate b st)
            | None \<Rightarrow> (Some candidate, kept @ rest, st)))"

definition kill_worker :: "task_id \<Rightarrow> drain_state \<Rightarrow> drain_state" where
  "kill_worker i st = st\<lparr>ds_effects := ds_effects st @ [KillWorker i]\<rparr>"

fun replace_completed ::
    "SchedulerSnapshot \<Rightarrow> task_id set \<Rightarrow> task_id list \<Rightarrow> SchedulerTaskSnapshot list \<Rightarrow>
     drain_state \<Rightarrow> SchedulerTaskSnapshot list \<times> drain_state" where
  "replace_completed snap skipped [] queue st = (queue, st)"
| "replace_completed snap skipped (completedId # others) queue st =
     (case pick_eligible snap skipped [] queue st of
        (None, queue', st') \<Rightarrow> (queue', st')
      | (Some next, queue', st') \<Rightarrow>
          replace_completed snap skipped others queue'
            (mark_spawn QueueDrain next (kill_worker completedId st')))"

definition reduceLegacyFifo ::
    "SchedulerSnapshot \<Rightarrow> SchedulerEffect list \<Rightarrow> dispositions \<Rightarrow> task_id set \<Rightarrow>
     SchedulerTaskSnapshot list \<times> drain_state" where
  "reduceLegacyFifo snap effects disp skipped =
     replace_completed snap skipped (completedTaskIds snap) (orderedQueue snap)
       \<lparr>ds_effects = effects, ds_dispositions = disp, ds_slots = slotBudget snap, ds_chosen = {}\<rparr>"

section \<open>The tick\<close>

fun is_spawn :: "SchedulerEffect \<Rightarrow> bool" where
  "is_spawn (SpawnTask _ _) = True"
| "is_spawn _ = False"

definition metric_effects :: "cascade_state \<Rightarrow> SchedulerEffect list" where
  "metric_effects cs =
     (if cs_skipped cs \<noteq> [] then [EmitMetric ''scheduler.cascade_skip'' (length (cs_skipped cs))] else [])"

definition finish_tick ::
    "SchedulerTaskSnapshot list \<Rightarrow> cascade_state \<Rightarrow> SchedulerDecision" where
  "finish_tick queue cs =
     \<lparr>nextQueue = queue, decision_dispositions = cs_dispositions cs,
      orderedEffects = cs_effects cs @
        (if list_ex is_spawn (cs_effects cs) \<or> cs_skipped cs \<noteq> []
         then [WriteCheckpoint ''tick-progressed''] else [])\<rparr>"

definition dispatch_phase ::
    "SchedulerSnapshot \<Rightarrow> cascade_state \<Rightarrow> SchedulerTaskSnapshot list \<times> drain_state" where
  "dispatch_phase snap cs =
     (if strategy snap = LegacyFifo
      then reduceLegacyFifo snap (cs_effects cs @ metric_effects cs) (cs_dispositions cs) (set (cs_skipped cs))
      else reduceContinuous snap (cs_effects cs @ metric_effects cs) (cs_dispositions cs) (set (cs_skipped cs)))"

definition quiescence_phase ::
    "SchedulerSnapshot \<Rightarrow> cascade_state \<Rightarrow> drain_state \<Rightarrow> cascade_state option" where
  "quiescence_phase snap cs ds =
     (if strategy snap = Continuous \<and> \<not> deferTerminalDependencyFailure snap
         \<and> \<not> list_ex is_spawn (ds_effects ds) \<and> \<not> hasLiveWork snap
      then cascadePausedAtQuiescence snap (ds_effects ds) (ds_dispositions ds) (cs_skipped cs)
      else Some (cs\<lparr>cs_effects := ds_effects ds, cs_dispositions := ds_dispositions ds\<rparr>))"

definition reduceSchedulerTick :: "SchedulerSnapshot \<Rightarrow> SchedulerDecision option" where
  "reduceSchedulerTick snap =
     Option.bind (cascade_pass snap) (\<lambda>cs.
       if costStop snap
       then Some \<lparr>nextQueue = orderedQueue snap, decision_dispositions = cs_dispositions cs,
              orderedEffects = cs_effects cs @ metric_effects cs @
                (if cs_skipped cs \<noteq> [] then [WriteCheckpoint ''cascade-skip-under-cost-stop''] else [])\<rparr>
       else (let (queue, ds) = dispatch_phase snap cs
             in map_option (finish_tick queue) (quiescence_phase snap cs ds)))"

text \<open>\<open>toSchedulerTaskSnapshot\<close> copies the fields the reducer reads.\<close>

definition toSchedulerTaskSnapshot :: "task \<Rightarrow> SchedulerTaskSnapshot" where
  "toSchedulerTaskSnapshot t =
     \<lparr>snap_id = task_id t, snap_status = task_status t, snap_dependencies = task_dependencies t,
      snap_fixForTaskId = fixForTaskId t, snap_retryAfter = retryAfter t,
      repairSettlementReasonCode = None\<rparr>"

end
