(* ===== verification/Scheduler_Correct.thy ===== *)
theory Scheduler_Correct
  imports Scheduler_Reducer
begin

text \<open>
  Correctness of one scheduler tick: it always returns; the cascade skips exactly the tasks
  that transitively depend on a failure; what is started is startable; the slot budget, the
  cost stop and the queue discipline are kept.
\<close>

section \<open>The cascade\<close>

lemma cascade_step_Some:
  "cascade_step snap t st = Some st' \<longleftrightarrow>
   snap_id t \<notin> collectedIds snap \<and> snap_id t \<notin> set (cs_skipped st) \<and>
   snap_id t \<notin> noMintIds snap \<and> snap_status t = PENDING \<and> snap_id t \<notin> assignedTaskIds snap \<and>
   (\<exists>d. first_failed_dependency (cs_failed st) t = Some d \<and> st' = skip_task False t d st)"
  by (auto simp: cascade_step_def split: option.splits if_splits)

lemma paused_step_Some:
  "paused_step snap t st = Some st' \<longleftrightarrow>
   snap_status t = PAUSED \<and> snap_id t \<notin> collectedIds snap \<and> snap_id t \<notin> set (cs_skipped st) \<and>
   snap_id t \<notin> assignedTaskIds snap \<and>
   (\<exists>d. first_failed_dependency (cs_failed st) t = Some d \<and> st' = skip_task True t d st)"
  by (auto simp: paused_step_def split: option.splits if_splits)

lemma skip_task_simps [simp]:
  "set (cs_skipped (skip_task q t d st)) = insert (snap_id t) (set (cs_skipped st))"
  "cs_failed (skip_task q t d st) = insert (snap_id t) (cs_failed st)"
  "cs_effects (skip_task q t d st) = cs_effects st @ [CascadeSkip (snap_id t) d q
      (''cascade-skip:'' @ snap_id t @ '':'' @ d)]"
  "cs_dispositions (skip_task q t d st) = (cs_dispositions st)(snap_id t \<mapsto> DispCascadeSkip)"
  by (simp_all add: skip_task_def)

definition unskipped :: "SchedulerSnapshot \<Rightarrow> cascade_state \<Rightarrow> nat" where
  "unskipped snap st = card (snap_id ` set (snap_tasks snap) - set (cs_skipped st))"

lemma unskipped_less:
  "t \<in> set (snap_tasks snap) \<Longrightarrow> snap_id t \<notin> set (cs_skipped st) \<Longrightarrow>
   unskipped snap (skip_task q t d st) < unskipped snap st"
  unfolding unskipped_def skip_task_simps by (rule psubset_card_mono) auto

interpretation cascade: shrinking_step "cascade_step snap" "unskipped snap" "snap_tasks snap" for snap
  by unfold_locales (auto simp: cascade_step_Some intro: unskipped_less)

interpretation quiescence: shrinking_step "paused_step snap" "unskipped snap" "snap_tasks snap" for snap
  by unfold_locales (auto simp: paused_step_Some intro: unskipped_less)

lemma cascade_pass_returns: "\<exists>cs. cascade_pass snap = Some cs"
  using cascade.repeat_returns by (simp add: cascade_pass_def)

lemma quiescence_phase_returns: "\<exists>cs'. quiescence_phase snap cs ds = Some cs'"
  using quiescence.repeat_returns by (simp add: quiescence_phase_def cascadePausedAtQuiescence_def)

text \<open>
  What the cascade is meant to do, in terms of the snapshot alone. A task is a repair that is
  not minted when it names the task it repairs and a settlement reason, and the policy does not
  make that reason fixable. A tick starts from the failures of the dependency state and the
  tasks such repairs were for.
\<close>

definition no_mint_repair :: "SchedulerSnapshot \<Rightarrow> SchedulerTaskSnapshot \<Rightarrow> bool" where
  "no_mint_repair snap t \<longleftrightarrow> (\<exists>f code. snap_fixForTaskId t = Some f \<and> f \<noteq> [] \<and>
     repairSettlementReasonCode t = Some code \<and> code \<noteq> [] \<and>
     \<not> fixEligible (resolveHostPreDispatchFailureDisposition (known_reason_code code) (failureDispositionPolicy snap)))"

definition not_minted :: "SchedulerSnapshot \<Rightarrow> task_id \<Rightarrow> bool" where
  "not_minted snap i \<longleftrightarrow> (\<exists>t \<in> set (snap_tasks snap). snap_id t = i \<and> no_mint_repair snap t)"

definition failure_seed :: "SchedulerSnapshot \<Rightarrow> task_id \<Rightarrow> bool" where
  "failure_seed snap d \<longleftrightarrow> d \<in> terminalFailureIds (effectiveDependencyState snap) \<or>
     (\<exists>t \<in> set (snap_tasks snap). snap_fixForTaskId t = Some d \<and> d \<noteq> [] \<and> not_minted snap (snap_id t))"

text \<open>The tasks doomed by a failure.\<close>

definition cascade_candidate :: "SchedulerSnapshot \<Rightarrow> SchedulerTaskSnapshot \<Rightarrow> bool" where
  "cascade_candidate snap t \<longleftrightarrow> t \<in> set (snap_tasks snap) \<and> snap_status t = PENDING \<and>
     snap_id t \<notin> collectedIds snap \<and> snap_id t \<notin> assignedTaskIds snap \<and> \<not> not_minted snap (snap_id t)"

inductive doomed :: "SchedulerSnapshot \<Rightarrow> task_id \<Rightarrow> bool" for snap where
  direct: "cascade_candidate snap t \<Longrightarrow> d \<in> set (snap_dependencies t) \<Longrightarrow>
    failure_seed snap d \<Longrightarrow> doomed snap (snap_id t)"
| transitive: "cascade_candidate snap t \<Longrightarrow> d \<in> set (snap_dependencies t) \<Longrightarrow>
    doomed snap d \<Longrightarrow> doomed snap (snap_id t)"

text \<open>The paused tasks that can never reopen, closed only when nothing is running or started.\<close>

definition paused_candidate :: "SchedulerSnapshot \<Rightarrow> SchedulerTaskSnapshot \<Rightarrow> bool" where
  "paused_candidate snap t \<longleftrightarrow> t \<in> set (snap_tasks snap) \<and> snap_status t = PAUSED \<and>
     snap_id t \<notin> collectedIds snap \<and> snap_id t \<notin> assignedTaskIds snap \<and> \<not> doomed snap (snap_id t)"

inductive dead_paused :: "SchedulerSnapshot \<Rightarrow> task_id \<Rightarrow> bool" for snap where
  direct: "paused_candidate snap t \<Longrightarrow> d \<in> set (snap_dependencies t) \<Longrightarrow>
    d \<in> terminalFailureIds (effectiveDependencyState snap) \<or> doomed snap d \<Longrightarrow> dead_paused snap (snap_id t)"
| transitive: "paused_candidate snap t \<Longrightarrow> d \<in> set (snap_dependencies t) \<Longrightarrow>
    dead_paused snap d \<Longrightarrow> dead_paused snap (snap_id t)"

text \<open>What the model computes agrees with these: the repairs, and the failures it starts from.\<close>

lemma no_mint_iff: "no_mint (failureDispositionPolicy snap) t \<noteq> None \<longleftrightarrow> no_mint_repair snap t"
  by (auto simp: no_mint_def no_mint_repair_def js_truthy_def Let_def split: option.splits)

lemma noMintIds_iff: "i \<in> noMintIds snap \<longleftrightarrow> not_minted snap i"
  unfolding noMintIds_def no_mint_iff not_minted_def by auto

lemma cascade_start_failed: "d \<in> cs_failed (cascade_start snap) \<longleftrightarrow> failure_seed snap d"
  by (auto simp: cascade_start_def failure_seed_def noMintIds_iff js_truthy_def split: option.splits if_splits)

lemma doomed_task: "doomed snap i \<Longrightarrow> \<exists>t \<in> set (snap_tasks snap). snap_id t = i"
  by (induction rule: doomed.induct) (auto simp: cascade_candidate_def)

lemma dead_paused_task: "dead_paused snap i \<Longrightarrow> \<exists>t \<in> set (snap_tasks snap). snap_id t = i"
  by (induction rule: dead_paused.induct) (auto simp: paused_candidate_def)

lemma first_failed_Some:
  "first_failed_dependency failed t = Some d \<Longrightarrow> d \<in> set (snap_dependencies t) \<and> d \<in> failed"
  by (auto simp: first_failed_dependency_def find_Some_iff)

text \<open>
  A look-up whose answer is tested for truth misses an element only behind the empty string.
\<close>

lemma find_falsy:
  assumes "js_truthy (find P xs) = None"
  shows "(\<forall>x \<in> set xs. \<not> P x) \<or> (\<exists>pre post. xs = pre @ [] # post \<and> (\<forall>x \<in> set pre. \<not> P x) \<and> P [])"
proof (cases "find P xs")
  case None
  then show ?thesis by (simp add: find_None_iff)
next
  case (Some x)
  with assms have "x = []" by (simp add: js_truthy_def split: if_splits)
  with Some obtain i where i: "i < length xs" "P []" "xs ! i = []" "\<forall>j < i. \<not> P (xs ! j)"
    by (auto simp: find_Some_iff)
  then have "xs = take i xs @ [] # drop (Suc i) xs" by (metis id_take_nth_drop)
  moreover have "\<forall>x \<in> set (take i xs). \<not> P x" using i by (auto simp: in_set_conv_nth)
  ultimately show ?thesis using i(2) by blast
qed

lemma first_failed_None:
  "first_failed_dependency failed t = None \<Longrightarrow> [] \<notin> failed \<Longrightarrow> d \<in> set (snap_dependencies t) \<Longrightarrow> d \<notin> failed"
  unfolding first_failed_dependency_def by (drule find_falsy) auto

text \<open>The ids that a list of effects skips, in the ordinary or in the quiescence pass.\<close>

definition skipped_by :: "bool \<Rightarrow> SchedulerEffect list \<Rightarrow> task_id set" where
  "skipped_by q effs = {i. \<exists>d k. CascadeSkip i d q k \<in> set effs}"

lemma skipped_by_append [simp]: "skipped_by q (xs @ ys) = skipped_by q xs \<union> skipped_by q ys"
  by (auto simp: skipped_by_def)

lemma skipped_by_simps [simp]:
  "skipped_by q [] = {}"
  "skipped_by q [CascadeSkip i d q' k] = (if q = q' then {i} else {})"
  "skipped_by q [SpawnTask i r] = {}" "skipped_by q [KillWorker i] = {}"
  "skipped_by q [Blocked i br b] = {}" "skipped_by q [EmitMetric n v] = {}"
  "skipped_by q [WriteCheckpoint m] = {}"
  by (auto simp: skipped_by_def)

definition cascade_inv :: "SchedulerSnapshot \<Rightarrow> cascade_state \<Rightarrow> bool" where
  "cascade_inv snap st \<longleftrightarrow>
     cs_failed st = cs_failed (cascade_start snap) \<union> set (cs_skipped st) \<and>
     (\<forall>i \<in> set (cs_skipped st). doomed snap i) \<and>
     skipped_by False (cs_effects st) = set (cs_skipped st) \<and>
     skipped_by True (cs_effects st) = {} \<and>
     \<not> list_ex is_spawn (cs_effects st) \<and>
     (\<forall>i \<in> noMintIds snap. cs_dispositions st i = Some NoMint) \<and>
     set (cs_skipped st) \<inter> noMintIds snap = {}"

lemma early_effects:
  "e \<in> set (no_mint_effects snap @ clear_blocked_effects snap) \<Longrightarrow>
   (\<exists>i f r k. e = NoMintRepair i f r k) \<or> (\<exists>i. e = ClearBlocked i)"
  by (auto simp: no_mint_effects_def clear_blocked_effects_def split: option.splits if_splits)

lemma cascade_inv_start: "cascade_inv snap (cascade_start snap)"
proof -
  have "\<And>e. e \<in> set (cs_effects (cascade_start snap)) \<Longrightarrow>
      (\<exists>i f r k. e = NoMintRepair i f r k) \<or> (\<exists>i. e = ClearBlocked i)"
    using early_effects by (auto simp: cascade_start_def)
  moreover have "cs_skipped (cascade_start snap) = []" by (simp add: cascade_start_def)
  moreover have "\<forall>i \<in> noMintIds snap. cs_dispositions (cascade_start snap) i = Some NoMint"
    by (simp add: cascade_start_def no_mint_dispositions_def)
  ultimately show ?thesis
    unfolding cascade_inv_def list_ex_iff skipped_by_def by fastforce
qed

lemma cascade_inv_step:
  assumes "t \<in> set (snap_tasks snap)" and inv: "cascade_inv snap st"
    and step: "cascade_step snap t st = Some st'"
  shows "cascade_inv snap st'"
proof -
  from step obtain d where d: "first_failed_dependency (cs_failed st) t = Some d"
    and st': "st' = skip_task False t d st" and cand: "cascade_candidate snap t"
    using assms(1) by (auto simp: cascade_step_Some cascade_candidate_def noMintIds_iff)
  from first_failed_Some [OF d] inv have "doomed snap (snap_id t)"
    using cand by (auto simp: cascade_inv_def cascade_start_failed intro: doomed.intros)
  moreover have "snap_id t \<notin> noMintIds snap" using cand by (simp add: cascade_candidate_def noMintIds_iff)
  ultimately show ?thesis
    using inv unfolding cascade_inv_def st' by auto
qed

lemma cascade_pass_inv:
  assumes "cascade_pass snap = Some cs"
  shows "cascade_inv snap cs"
proof (cases "\<not> deferTerminalDependencyFailure snap \<or> noMintIds snap \<noteq> {}")
  case True
  with assms have "js_repeat (cascade_step snap) (snap_tasks snap) (cascade_start snap) = Some cs"
    by (simp add: cascade_pass_def)
  then show ?thesis
    by (rule cascade.repeat_inv) (auto intro: cascade_inv_start cascade_inv_step)
next
  case False
  with assms show ?thesis by (auto simp: cascade_pass_def cascade_inv_start)
qed

text \<open>No task, and no failure of the dependency state, has the empty id.\<close>

definition ids_named :: "SchedulerSnapshot \<Rightarrow> bool" where
  "ids_named snap \<longleftrightarrow> [] \<notin> terminalFailureIds (effectiveDependencyState snap) \<and>
     list_all (\<lambda>t. snap_id t \<noteq> []) (snap_tasks snap)"

lemma ids_namedD:
  assumes "ids_named snap"
  shows "\<not> failure_seed snap []" "\<not> doomed snap []" "\<not> dead_paused snap []"
    "[] \<notin> terminalFailureIds (effectiveDependencyState snap)"
  using assms doomed_task [of snap "[]"] dead_paused_task [of snap "[]"]
  by (auto simp: ids_named_def failure_seed_def list_all_iff)

lemma cascade_pass_complete:
  assumes "cascade_pass snap = Some cs"
    and "\<not> deferTerminalDependencyFailure snap \<or> noMintIds snap \<noteq> {}"
    and named: "ids_named snap"
    and "doomed snap i"
  shows "i \<in> set (cs_skipped cs)"
proof -
  from assms(1,2) have rep: "js_repeat (cascade_step snap) (snap_tasks snap) (cascade_start snap) = Some cs"
    by (simp add: cascade_pass_def split: if_splits)
  have failed: "cs_failed cs = cs_failed (cascade_start snap) \<union> set (cs_skipped cs)"
    and sound: "\<forall>i \<in> set (cs_skipped cs). doomed snap i"
    using cascade_pass_inv [OF assms(1)] by (simp_all add: cascade_inv_def)
  have no_empty: "[] \<notin> cs_failed cs"
    using ids_namedD [OF named] sound by (auto simp: failed cascade_start_failed)
  have skip: "snap_id t \<in> set (cs_skipped cs)"
    if t: "cascade_candidate snap t" and d: "d \<in> set (snap_dependencies t)" "d \<in> cs_failed cs" for t d
  proof (rule ccontr)
    assume not: "snap_id t \<notin> set (cs_skipped cs)"
    from t have mem: "t \<in> set (snap_tasks snap)" by (simp add: cascade_candidate_def)
    from cascade.repeat_fixed [OF rep mem] have "cascade_step snap t cs = None" .
    with t not have "first_failed_dependency (cs_failed cs) t = None"
      by (auto simp: cascade_step_def cascade_candidate_def noMintIds_iff split: option.splits if_splits)
    from first_failed_None [OF this no_empty d(1)] d(2) show False by simp
  qed
  show ?thesis
    using assms(4) by (induction rule: doomed.induct) (auto intro: skip simp: failed cascade_start_failed)
qed

section \<open>The dispatch phase as a sequence of steps\<close>

text \<open>
  Both strategies only ever block an entry, start an eligible one or (legacy) kill a
  completed worker; what they have in common is proved once over this relation.
\<close>

definition startable :: "SchedulerSnapshot \<Rightarrow> task_id set \<Rightarrow> drain_state \<Rightarrow> SchedulerTaskSnapshot \<Rightarrow> bool" where
  "startable snap skipped st t \<longleftrightarrow> snap_id t \<notin> assignedTaskIds snap \<and>
     \<not> never_spawn skipped (ds_dispositions st) (snap_id t)"

inductive dispatch_step :: "SchedulerSnapshot \<Rightarrow> task_id set \<Rightarrow> drain_state \<Rightarrow> drain_state \<Rightarrow> bool"
  for snap skipped where
  block: "startable snap skipped st t \<Longrightarrow> classifyBlock t snap = Some b \<Longrightarrow>
    dispatch_step snap skipped st (mark_blocked t b st)"
| drain: "t \<in> set (orderedQueue snap) \<Longrightarrow> startable snap skipped st t \<Longrightarrow>
    classifyBlock t snap = None \<Longrightarrow> dispatch_step snap skipped st (mark_spawn QueueDrain t st)"
| fill: "t \<in> set (snap_tasks snap) \<Longrightarrow> startable snap skipped st t \<Longrightarrow> snap_status t = PENDING \<Longrightarrow>
    snap_id t \<notin> collectedIds snap \<Longrightarrow> classifyBlock t snap = None \<Longrightarrow>
    dispatch_step snap skipped st (mark_spawn PendingSlotFill t st)"
| kill: "i \<in> set (completedTaskIds snap) \<Longrightarrow> dispatch_step snap skipped st (kill_worker i st)"

lemma mark_simps [simp]:
  "ds_effects (mark_blocked t b st) = ds_effects st @ [Blocked (snap_id t) (block_reason b) (js_truthy (block_blockingId b))]"
  "ds_dispositions (mark_blocked t b st) = (ds_dispositions st)(snap_id t \<mapsto> block_disposition b)"
  "ds_slots (mark_blocked t b st) = ds_slots st"
  "ds_chosen (mark_blocked t b st) = ds_chosen st"
  "ds_effects (mark_spawn r t st) = ds_effects st @ [SpawnTask (snap_id t) r]"
  "ds_dispositions (mark_spawn r t st) = (ds_dispositions st)(snap_id t \<mapsto> DispSpawn)"
  "ds_slots (mark_spawn r t st) = ds_slots st - 1"
  "ds_chosen (mark_spawn r t st) = insert (snap_id t) (ds_chosen st)"
  "ds_effects (kill_worker i st) = ds_effects st @ [KillWorker i]"
  "ds_dispositions (kill_worker i st) = ds_dispositions st"
  "ds_slots (kill_worker i st) = ds_slots st"
  "ds_chosen (kill_worker i st) = ds_chosen st"
  by (simp_all add: mark_blocked_def mark_spawn_def kill_worker_def blocked_effect_def)

lemma drain_queue_steps:
  "set queue \<subseteq> set (orderedQueue snap) \<Longrightarrow>
   (dispatch_step snap skipped)\<^sup>*\<^sup>* st (snd (drain_queue snap skipped kept queue st))"
proof (induction queue arbitrary: kept st)
  case (Cons c queue)
  show ?case
  proof (cases "ds_slots st \<le> 0 \<or> \<not> startable snap skipped st c")
    case True
    with Cons show ?thesis by (auto simp: startable_def)
  next
    case False
    then have ok: "startable snap skipped st c" by simp
    show ?thesis
    proof (cases "classifyBlock c snap")
      case None
      with ok Cons.prems have "dispatch_step snap skipped st (mark_spawn QueueDrain c st)"
        by (auto intro: dispatch_step.drain)
      with False None Cons show ?thesis
        by (auto simp: startable_def intro: converse_rtranclp_into_rtranclp)
    next
      case (Some b)
      with ok have "dispatch_step snap skipped st (mark_blocked c b st)"
        by (rule dispatch_step.block)
      with False Some Cons show ?thesis
        by (auto simp: startable_def intro: converse_rtranclp_into_rtranclp)
    qed
  qed
qed simp

lemma fill_slots_steps:
  "set ts \<subseteq> set (snap_tasks snap) \<Longrightarrow>
   (dispatch_step snap skipped)\<^sup>*\<^sup>* st (fill_slots snap skipped queued ts st)"
proof (induction ts arbitrary: st)
  case (Cons t ts)
  show ?case
  proof (cases "ds_slots st \<le> 0 \<or> snap_status t \<noteq> PENDING \<or> \<not> startable snap skipped st t \<or>
      snap_id t \<in> collectedIds snap \<or> snap_id t \<in> ds_chosen st \<or> snap_id t \<in> queued")
    case True
    with Cons show ?thesis by (auto simp: startable_def)
  next
    case False
    then have ok: "startable snap skipped st t" by simp
    show ?thesis
    proof (cases "classifyBlock t snap")
      case None
      with ok False Cons.prems have "dispatch_step snap skipped st (mark_spawn PendingSlotFill t st)"
        by (auto intro: dispatch_step.fill)
      with False None Cons show ?thesis
        by (auto simp: startable_def intro: converse_rtranclp_into_rtranclp)
    next
      case (Some b)
      with ok have "dispatch_step snap skipped st (mark_blocked t b st)"
        by (rule dispatch_step.block)
      with False Some Cons show ?thesis
        by (auto simp: startable_def intro: converse_rtranclp_into_rtranclp)
    qed
  qed
qed simp

lemma pick_eligible_props:
  assumes "set queue \<subseteq> set (orderedQueue snap)"
    and "pick_eligible snap skipped kept queue st = (p, queue', st')"
  shows "(dispatch_step snap skipped)\<^sup>*\<^sup>* st st' \<and>
    (\<forall>t. p = Some t \<longrightarrow> t \<in> set queue \<and> startable snap skipped st' t \<and> classifyBlock t snap = None) \<and>
    subseq queue' (kept @ queue) \<and> set queue' \<subseteq> set (kept @ queue)"
  using assms
proof (induction queue arbitrary: kept st)
  case (Cons c queue)
  show ?case
  proof (cases "startable snap skipped st c")
    case False
    with Cons.prems have eq: "pick_eligible snap skipped kept queue st = (p, queue', st')"
      by (auto simp: startable_def split: if_splits)
    from Cons.IH [OF _ eq] Cons.prems(1) show ?thesis
      by (auto intro: subseq_splice)
  next
    case True
    show ?thesis
    proof (cases "classifyBlock c snap")
      case None
      with True Cons.prems show ?thesis by (auto simp: startable_def intro: subseq_splice)
    next
      case (Some b)
      with True Cons.prems have eq:
        "pick_eligible snap skipped (kept @ [c]) queue (mark_blocked c b st) = (p, queue', st')"
        by (auto simp: startable_def)
      have "dispatch_step snap skipped st (mark_blocked c b st)"
        using True Some by (rule dispatch_step.block)
      with Cons.IH [OF _ eq] Cons.prems(1) show ?thesis
        by (auto intro: converse_rtranclp_into_rtranclp)
    qed
  qed
qed auto

lemma startable_kill [simp]: "startable snap skipped (kill_worker i st) t = startable snap skipped st t"
  by (simp add: startable_def)

lemma replace_completed_steps:
  assumes "set queue \<subseteq> set (orderedQueue snap)" and "set done \<subseteq> set (completedTaskIds snap)"
  shows "(dispatch_step snap skipped)\<^sup>*\<^sup>* st (snd (replace_completed snap skipped done queue st)) \<and>
    subseq (fst (replace_completed snap skipped done queue st)) queue"
  using assms
proof (induction "done" arbitrary: queue st)
  case (Cons i more_done)
  obtain p queue' st' where pick: "pick_eligible snap skipped [] queue st = (p, queue', st')"
    by (cases "pick_eligible snap skipped [] queue st") auto
  from pick_eligible_props [OF Cons.prems(1) pick]
  have steps: "(dispatch_step snap skipped)\<^sup>*\<^sup>* st st'" and sub: "subseq queue' queue"
    and sets: "set queue' \<subseteq> set queue"
    and some: "\<And>t. p = Some t \<Longrightarrow> t \<in> set queue \<and> startable snap skipped st' t \<and> classifyBlock t snap = None"
    by auto
  show ?case
  proof (cases p)
    case None
    with pick steps sub show ?thesis by simp
  next
    case (Some t)
    let ?k = "kill_worker i st'" and ?s = "mark_spawn QueueDrain t (kill_worker i st')"
    have "dispatch_step snap skipped st' ?k" using Cons.prems(2) by (auto intro: dispatch_step.kill)
    moreover have "dispatch_step snap skipped ?k ?s"
      using some [OF Some] Cons.prems(1) by (auto intro: dispatch_step.drain)
    ultimately have pre: "(dispatch_step snap skipped)\<^sup>*\<^sup>* st ?s"
      using steps by (meson rtranclp.rtrancl_into_rtrancl)
    have "set queue' \<subseteq> set (orderedQueue snap)" using sets Cons.prems(1) by blast
    from Cons.IH [OF this, of ?s] Cons.prems(2) pre sub Some pick show ?thesis
      by (auto intro: rtranclp_trans subseq_order.trans)
  qed
qed simp

lemma drain_queue_subseq: "subseq (fst (drain_queue snap skipped kept queue st)) (kept @ queue)"
proof (induction queue arbitrary: kept st)
  case (Cons c queue)
  from Cons [of kept] Cons [of "kept @ [c]"] show ?case
    by (auto split: option.splits intro: subseq_splice)
qed simp

lemma dispatch_phase_steps:
  assumes "dispatch_phase snap cs = (queue, ds)"
  shows "(dispatch_step snap (set (cs_skipped cs)))\<^sup>*\<^sup>*
      \<lparr>ds_effects = cs_effects cs @ metric_effects cs, ds_dispositions = cs_dispositions cs,
       ds_slots = slotBudget snap, ds_chosen = {}\<rparr> ds \<and> subseq queue (orderedQueue snap)"
proof (cases "strategy snap = LegacyFifo")
  case True
  let ?st = "\<lparr>ds_effects = cs_effects cs @ metric_effects cs, ds_dispositions = cs_dispositions cs,
       ds_slots = slotBudget snap, ds_chosen = {}\<rparr>"
  from True assms have "replace_completed snap (set (cs_skipped cs)) (completedTaskIds snap)
      (orderedQueue snap) ?st = (queue, ds)"
    by (simp add: dispatch_phase_def reduceLegacyFifo_def)
  with replace_completed_steps [of "orderedQueue snap" snap "completedTaskIds snap" "set (cs_skipped cs)" ?st]
  show ?thesis by simp
next
  case False
  let ?st = "\<lparr>ds_effects = cs_effects cs @ metric_effects cs, ds_dispositions = cs_dispositions cs,
       ds_slots = slotBudget snap, ds_chosen = {}\<rparr>"
  obtain q d where drain: "drain_queue snap (set (cs_skipped cs)) [] (orderedQueue snap) ?st = (q, d)"
    by fastforce
  have "(dispatch_step snap (set (cs_skipped cs)))\<^sup>*\<^sup>* ?st d"
    using drain_queue_steps [of "orderedQueue snap" snap "set (cs_skipped cs)" ?st "[]"] drain by simp
  moreover have "queue = q" and "ds = d \<or> ds = fill_slots snap (set (cs_skipped cs)) (set (map snap_id q)) (snap_tasks snap) d"
    using False assms drain by (auto simp: dispatch_phase_def reduceContinuous_def split: if_splits)
  moreover have "(dispatch_step snap (set (cs_skipped cs)))\<^sup>*\<^sup>* d
      (fill_slots snap (set (cs_skipped cs)) (set (map snap_id q)) (snap_tasks snap) d)"
    by (rule fill_slots_steps) simp
  moreover have "subseq q (orderedQueue snap)"
    using drain_queue_subseq [of snap "set (cs_skipped cs)" "[]" "orderedQueue snap" ?st] drain by simp
  ultimately show ?thesis by (auto intro: rtranclp_trans)
qed

section \<open>Invariants of the dispatch phase\<close>

lemma classify_disposition:
  "classifyBlock t snap = Some b \<Longrightarrow> block_disposition b \<noteq> NoMint"
  by (auto simp: classifyBlock_def split: if_splits option.splits)

text \<open>
  What \<open>classifyBlock\<close> leaves of the dependencies of a task it does not block: all of them are
  satisfied, or the empty id is among them, unsatisfied, and those before it are satisfied.
\<close>

definition dependencies_clear :: "SchedulerSnapshot \<Rightarrow> SchedulerTaskSnapshot \<Rightarrow> bool" where
  "dependencies_clear snap t \<longleftrightarrow>
     (let satisfied = satisfyingIds (effectiveDependencyState snap) in
      set (snap_dependencies t) \<subseteq> satisfied \<or>
      (\<exists>pre post. snap_dependencies t = pre @ [] # post \<and> set pre \<subseteq> satisfied \<and> [] \<notin> satisfied))"

lemma clear_named:
  assumes "dependencies_clear snap t" "[] \<notin> set (snap_dependencies t)"
  shows "set (snap_dependencies t) \<subseteq> satisfyingIds (effectiveDependencyState snap)"
proof -
  have "snap_dependencies t \<noteq> pre @ [] # post" for pre post
    using assms(2) by (metis in_set_conv_decomp)
  with assms(1) show ?thesis by (simp add: dependencies_clear_def Let_def)
qed

lemma classify_None:
  assumes "classifyBlock t snap = None"
  shows "snap_id t \<notin> collisionBlockedIds snap"
    and "snap_id t \<in> retryEligibleIds (effectiveDependencyState snap)"
    and "dependencyPipelineEnabled snap \<Longrightarrow> dependencies_clear snap t"
proof -
  show "snap_id t \<notin> collisionBlockedIds snap" "snap_id t \<in> retryEligibleIds (effectiveDependencyState snap)"
    using assms by (auto simp: classifyBlock_def simp del: js_truthy_None split: if_splits)
  assume "dependencyPipelineEnabled snap"
  then have "snap_dependencies t = [] \<or> js_truthy (find (\<lambda>d. d \<notin> satisfyingIds (effectiveDependencyState snap))
      (snap_dependencies t)) = None"
    using assms unfolding classifyBlock_def by (simp del: js_truthy_None split: if_splits option.splits)
  then show "dependencies_clear snap t"
  proof
    assume "js_truthy (find (\<lambda>d. d \<notin> satisfyingIds (effectiveDependencyState snap)) (snap_dependencies t)) = None"
    from find_falsy [OF this] show ?thesis unfolding dependencies_clear_def Let_def by blast
  qed (simp add: dependencies_clear_def)
qed

text \<open>When a task may be started.\<close>

definition ready_to_start :: "SchedulerSnapshot \<Rightarrow> SchedulerTaskSnapshot \<Rightarrow> bool" where
  "ready_to_start snap t \<longleftrightarrow> t \<in> set (orderedQueue snap) \<union> set (snap_tasks snap) \<and>
     snap_id t \<notin> assignedTaskIds snap \<and> \<not> not_minted snap (snap_id t) \<and> snap_id t \<notin> collisionBlockedIds snap \<and>
     snap_id t \<in> retryEligibleIds (effectiveDependencyState snap) \<and>
     (dependencyPipelineEnabled snap \<longrightarrow> dependencies_clear snap t)"

definition startable_id :: "SchedulerSnapshot \<Rightarrow> task_id \<Rightarrow> bool" where
  "startable_id snap i \<longleftrightarrow> (\<exists>t. snap_id t = i \<and> ready_to_start snap t)"

definition spawned_by :: "SchedulerEffect list \<Rightarrow> task_id set" where
  "spawned_by effs = {i. \<exists>r. SpawnTask i r \<in> set effs}"

lemma spawned_by_append [simp]: "spawned_by (xs @ ys) = spawned_by xs \<union> spawned_by ys"
  by (auto simp: spawned_by_def)

lemma spawned_by_simps [simp]:
  "spawned_by [] = {}" "spawned_by [SpawnTask i r] = {i}" "spawned_by [CascadeSkip i d q k] = {}"
  "spawned_by [KillWorker i] = {}" "spawned_by [Blocked i br b] = {}"
  "spawned_by [EmitMetric n v] = {}" "spawned_by [WriteCheckpoint m] = {}"
  by (auto simp: spawned_by_def)

lemma spawned_by_empty: "\<not> list_ex is_spawn effs \<longleftrightarrow> spawned_by effs = {}"
proof
  show "\<not> list_ex is_spawn effs \<Longrightarrow> spawned_by effs = {}"
    by (auto simp: list_ex_iff spawned_by_def)
  show "spawned_by effs = {} \<Longrightarrow> \<not> list_ex is_spawn effs"
    by (auto simp: list_ex_iff spawned_by_def elim: is_spawn.elims)
qed

definition dispatch_inv :: "SchedulerSnapshot \<Rightarrow> task_id set \<Rightarrow> drain_state \<Rightarrow> bool" where
  "dispatch_inv snap skipped st \<longleftrightarrow>
     (\<forall>i \<in> spawned_by (ds_effects st). startable_id snap i \<and> i \<notin> skipped) \<and>
     (\<forall>i \<in> noMintIds snap. ds_dispositions st i = Some NoMint) \<and>
     skipped_by False (ds_effects st) = skipped \<and> skipped_by True (ds_effects st) = {}"

lemma startable_ready:
  assumes "startable snap skipped st t" and "classifyBlock t snap = None"
    and "\<forall>i \<in> noMintIds snap. ds_dispositions st i = Some NoMint"
    and "t \<in> set (orderedQueue snap) \<union> set (snap_tasks snap)"
  shows "startable_id snap (snap_id t) \<and> snap_id t \<notin> skipped \<and> snap_id t \<notin> noMintIds snap"
proof -
  have ids: "snap_id t \<notin> assignedTaskIds snap \<and> snap_id t \<notin> skipped \<and> snap_id t \<notin> noMintIds snap"
    using assms(1,3) by (auto simp: startable_def never_spawn_def)
  with classify_None [OF assms(2)] assms(4) have "ready_to_start snap t"
    by (simp add: ready_to_start_def noMintIds_iff)
  with ids show ?thesis by (auto simp: startable_id_def)
qed

lemma dispatch_inv_step:
  assumes "dispatch_step snap skipped st st'" and inv: "dispatch_inv snap skipped st"
  shows "dispatch_inv snap skipped st'"
  using assms(1)
proof cases
  case (block t b)
  then have "snap_id t \<notin> noMintIds snap"
    using inv by (auto simp: dispatch_inv_def startable_def never_spawn_def)
  with block inv show ?thesis by (auto simp: dispatch_inv_def)
next
  case (drain t)
  with startable_ready [of snap skipped st t] inv show ?thesis by (auto simp: dispatch_inv_def)
next
  case (fill t)
  with startable_ready [of snap skipped st t] inv show ?thesis by (auto simp: dispatch_inv_def)
next
  case (kill i)
  with inv show ?thesis by (auto simp: dispatch_inv_def)
qed

lemma dispatch_inv_steps:
  "(dispatch_step snap skipped)\<^sup>*\<^sup>* st st' \<Longrightarrow> dispatch_inv snap skipped st \<Longrightarrow>
   dispatch_inv snap skipped st'"
  by (induction rule: rtranclp_induct) (auto intro: dispatch_inv_step)

lemma dispatch_phase_inv:
  assumes "cascade_pass snap = Some cs" and "dispatch_phase snap cs = (queue, ds)"
  shows "dispatch_inv snap (set (cs_skipped cs)) ds"
proof -
  from cascade_pass_inv [OF assms(1)] have "dispatch_inv snap (set (cs_skipped cs))
      \<lparr>ds_effects = cs_effects cs @ metric_effects cs, ds_dispositions = cs_dispositions cs,
       ds_slots = slotBudget snap, ds_chosen = {}\<rparr>"
    by (auto simp: dispatch_inv_def cascade_inv_def spawned_by_empty metric_effects_def)
  with dispatch_phase_steps [OF assms(2)] show ?thesis by (blast intro: dispatch_inv_steps)
qed

text \<open>The quiescence pass only adds skips marked as such.\<close>

definition paused_inv :: "SchedulerEffect list \<Rightarrow> task_id set \<Rightarrow> cascade_state \<Rightarrow> bool" where
  "paused_inv effs skipped st \<longleftrightarrow>
     spawned_by (cs_effects st) = spawned_by effs \<and>
     skipped_by False (cs_effects st) = skipped_by False effs \<and>
     set (cs_skipped st) = skipped \<union> skipped_by True (cs_effects st)"

lemma quiescence_phase_inv:
  assumes "quiescence_phase snap cs ds = Some cs'" and "skipped_by True (ds_effects ds) = {}"
  shows "paused_inv (ds_effects ds) (set (cs_skipped cs)) cs'"
proof (cases "strategy snap = Continuous \<and> \<not> deferTerminalDependencyFailure snap
         \<and> \<not> list_ex is_spawn (ds_effects ds) \<and> \<not> hasLiveWork snap")
  case True
  with assms(1) have rep: "js_repeat (paused_step snap) (snap_tasks snap)
      \<lparr>cs_effects = ds_effects ds, cs_dispositions = ds_dispositions ds, cs_skipped = cs_skipped cs,
       cs_failed = terminalFailureIds (effectiveDependencyState snap) \<union> set (cs_skipped cs)\<rparr> = Some cs'"
    by (simp add: quiescence_phase_def cascadePausedAtQuiescence_def)
  show ?thesis
    by (rule quiescence.repeat_inv [OF rep])
      (use assms(2) in \<open>auto simp: paused_inv_def paused_step_Some\<close>)
next
  case False
  with assms show ?thesis by (auto simp: quiescence_phase_def paused_inv_def)
qed

lemma tick_cases:
  assumes "reduceSchedulerTick snap = Some d"
  obtains (stopped) cs where "cascade_pass snap = Some cs" "costStop snap"
      "nextQueue d = orderedQueue snap"
      "orderedEffects d = cs_effects cs @ metric_effects cs @
        (if cs_skipped cs \<noteq> [] then [WriteCheckpoint ''cascade-skip-under-cost-stop''] else [])"
  | (ran) cs queue ds cs' tail where "cascade_pass snap = Some cs" "\<not> costStop snap"
      "dispatch_phase snap cs = (queue, ds)" "quiescence_phase snap cs ds = Some cs'"
      "nextQueue d = queue" "orderedEffects d = cs_effects cs' @ tail"
      "tail = [] \<or> tail = [WriteCheckpoint ''tick-progressed'']"
proof -
  obtain cs where cs: "cascade_pass snap = Some cs" using cascade_pass_returns by blast
  show ?thesis
  proof (cases "costStop snap")
    case True
    with cs assms show ?thesis
      by (intro stopped [of cs]) (auto simp: reduceSchedulerTick_def)
  next
    case False
    obtain queue ds where disp: "dispatch_phase snap cs = (queue, ds)" by fastforce
    obtain cs' where q: "quiescence_phase snap cs ds = Some cs'" using quiescence_phase_returns by blast
    from cs disp q False assms have "d = finish_tick queue cs'"
      by (simp add: reduceSchedulerTick_def)
    with cs disp q False show ?thesis
      by (intro ran [of cs queue ds cs' "if list_ex is_spawn (cs_effects cs') \<or> cs_skipped cs' \<noteq> []
            then [WriteCheckpoint ''tick-progressed''] else []"])
        (auto simp: finish_tick_def)
  qed
qed

section \<open>Counting what is started and killed\<close>

definition spawns :: "SchedulerEffect list \<Rightarrow> task_id list" where
  "spawns effs = concat (map (\<lambda>e. case e of SpawnTask i _ \<Rightarrow> [i] | _ \<Rightarrow> []) effs)"

definition kills :: "SchedulerEffect list \<Rightarrow> task_id list" where
  "kills effs = concat (map (\<lambda>e. case e of KillWorker i \<Rightarrow> [i] | _ \<Rightarrow> []) effs)"

lemma spawns_simps [simp]:
  "spawns [] = []" "spawns (xs @ ys) = spawns xs @ spawns ys" "spawns (SpawnTask i r # es) = i # spawns es"
  "spawns (CascadeSkip i d q k # es) = spawns es" "spawns (KillWorker i # es) = spawns es" "spawns (Blocked i br b # es) = spawns es"
  "spawns (EmitMetric n v # es) = spawns es" "spawns (WriteCheckpoint m # es) = spawns es"
  by (simp_all add: spawns_def)

lemma kills_simps [simp]:
  "kills [] = []" "kills (xs @ ys) = kills xs @ kills ys" "kills (SpawnTask i r # es) = kills es"
  "kills (CascadeSkip i d q k # es) = kills es" "kills (KillWorker i # es) = i # kills es" "kills (Blocked i br b # es) = kills es"
  "kills (EmitMetric n v # es) = kills es" "kills (WriteCheckpoint m # es) = kills es"
  by (simp_all add: kills_def)

lemma set_spawns: "set (spawns effs) = spawned_by effs"
  by (auto simp: spawns_def spawned_by_def split: SchedulerEffect.splits)

lemma metric_counts [simp]: "spawns (metric_effects cs) = []" "kills (metric_effects cs) = []"
  by (simp_all add: metric_effects_def)

lemma cascade_pass_kills:
  assumes "cascade_pass snap = Some cs"
  shows "kills (cs_effects cs) = []"
proof -
  have start: "kills (cs_effects (cascade_start snap)) = []"
  proof -
    have "(case e of KillWorker i \<Rightarrow> [i] | _ \<Rightarrow> []) = []"
      if "e \<in> set (no_mint_effects snap @ clear_blocked_effects snap)" for e
      using early_effects [OF that] by auto
    then show ?thesis unfolding cascade_start_def kills_def by (auto simp: concat_eq_Nil_conv)
  qed
  show ?thesis
  proof (cases "\<not> deferTerminalDependencyFailure snap \<or> noMintIds snap \<noteq> {}")
    case True
    with assms have rep: "js_repeat (cascade_step snap) (snap_tasks snap) (cascade_start snap) = Some cs"
      by (simp add: cascade_pass_def)
    show ?thesis
      by (rule cascade.repeat_inv [OF rep, of "\<lambda>st. kills (cs_effects st) = []"])
        (auto simp: start cascade_step_Some)
  next
    case False
    with assms show ?thesis by (auto simp: cascade_pass_def start)
  qed
qed

lemma cascade_pass_spawns: "cascade_pass snap = Some cs \<Longrightarrow> spawns (cs_effects cs) = []"
  using cascade_pass_inv [of snap cs] set_spawns [of "cs_effects cs"]
  by (simp add: cascade_inv_def spawned_by_empty)

lemma quiescence_phase_counts:
  assumes "quiescence_phase snap cs ds = Some cs'"
  shows "spawns (cs_effects cs') = spawns (ds_effects ds) \<and> kills (cs_effects cs') = kills (ds_effects ds)"
proof (cases "strategy snap = Continuous \<and> \<not> deferTerminalDependencyFailure snap
         \<and> \<not> list_ex is_spawn (ds_effects ds) \<and> \<not> hasLiveWork snap")
  case True
  with assms(1) have rep: "js_repeat (paused_step snap) (snap_tasks snap)
      \<lparr>cs_effects = ds_effects ds, cs_dispositions = ds_dispositions ds, cs_skipped = cs_skipped cs,
       cs_failed = terminalFailureIds (effectiveDependencyState snap) \<union> set (cs_skipped cs)\<rparr> = Some cs'"
    by (simp add: quiescence_phase_def cascadePausedAtQuiescence_def)
  show ?thesis
    by (rule quiescence.repeat_inv [OF rep]) (auto simp: paused_step_Some)
next
  case False
  with assms show ?thesis by (auto simp: quiescence_phase_def)
qed

text \<open>Each spawn takes a slot, and the continuous strategy never takes one that is not there.\<close>

lemma drain_queue_slots:
  "int (length (spawns (ds_effects (snd (drain_queue snap skipped kept queue st))))) +
     ds_slots (snd (drain_queue snap skipped kept queue st))
   = int (length (spawns (ds_effects st))) + ds_slots st \<and>
   min 0 (ds_slots st) \<le> ds_slots (snd (drain_queue snap skipped kept queue st)) \<and>
   kills (ds_effects (snd (drain_queue snap skipped kept queue st))) = kills (ds_effects st)"
proof (induction queue arbitrary: kept st)
  case (Cons c queue)
  show ?case
    using Cons [of kept st] Cons [of kept "mark_spawn QueueDrain c st"]
      Cons [of "kept @ [c]" "mark_blocked c (the (classifyBlock c snap)) st"]
    by (cases "classifyBlock c snap"; cases "ds_slots st \<le> 0") (simp_all add: min_absorb1)
qed simp

lemma fill_slots_slots:
  "int (length (spawns (ds_effects (fill_slots snap skipped queued ts st)))) +
     ds_slots (fill_slots snap skipped queued ts st)
   = int (length (spawns (ds_effects st))) + ds_slots st \<and>
   min 0 (ds_slots st) \<le> ds_slots (fill_slots snap skipped queued ts st) \<and>
   kills (ds_effects (fill_slots snap skipped queued ts st)) = kills (ds_effects st)"
proof (induction ts arbitrary: st)
  case (Cons t ts)
  show ?case
    using Cons [of st] Cons [of "mark_spawn PendingSlotFill t st"]
      Cons [of "mark_blocked t (the (classifyBlock t snap)) st"]
    by (cases "classifyBlock t snap"; cases "ds_slots st \<le> 0") (simp_all add: min_absorb1)
qed simp

text \<open>A drained entry leaves the queue; a filled one is remembered as chosen.\<close>

definition fresh_spawns :: "drain_state \<Rightarrow> bool" where
  "fresh_spawns st \<longleftrightarrow> distinct (spawns (ds_effects st)) \<and> set (spawns (ds_effects st)) \<subseteq> ds_chosen st"

lemma drain_queue_fresh:
  "fresh_spawns st \<Longrightarrow> distinct (map snap_id queue) \<Longrightarrow> snap_id ` set queue \<inter> ds_chosen st = {} \<Longrightarrow>
   fresh_spawns (snd (drain_queue snap skipped kept queue st))"
proof (induction queue arbitrary: kept st)
  case (Cons c queue)
  have "fresh_spawns (mark_spawn QueueDrain c st)" "fresh_spawns (mark_blocked c b st)" for b
    using Cons.prems by (auto simp: fresh_spawns_def)
  with Cons.prems Cons.IH [of st kept] Cons.IH [of "mark_spawn QueueDrain c st" kept]
    Cons.IH [of "mark_blocked c _ st" "kept @ [c]"]
  show ?case by (auto split: option.split)
qed simp

lemma fill_slots_fresh:
  "fresh_spawns st \<Longrightarrow> fresh_spawns (fill_slots snap skipped queued ts st)"
proof (induction ts arbitrary: st)
  case (Cons t ts)
  have "fresh_spawns (mark_blocked t b st)" for b
    using Cons.prems by (auto simp: fresh_spawns_def)
  moreover have "snap_id t \<notin> ds_chosen st \<Longrightarrow> fresh_spawns (mark_spawn PendingSlotFill t st)"
    using Cons.prems by (auto simp: fresh_spawns_def)
  ultimately show ?case using Cons by (auto split: option.split)
qed simp

text \<open>The legacy strategy kills one completed worker for each task it starts.\<close>

lemma pick_eligible_counts:
  "pick_eligible snap skipped kept queue st = (p, queue', st') \<Longrightarrow>
   spawns (ds_effects st') = spawns (ds_effects st) \<and> kills (ds_effects st') = kills (ds_effects st)"
proof (induction queue arbitrary: kept st)
  case (Cons c queue)
  then show ?case by (fastforce split: if_splits option.splits)
qed simp

lemma replace_completed_counts:
  "\<exists>n. kills (ds_effects (snd (replace_completed snap skipped done queue st)))
      = kills (ds_effects st) @ take n done \<and>
    length (spawns (ds_effects (snd (replace_completed snap skipped done queue st))))
      = length (spawns (ds_effects st)) + min n (length done)"
proof (induction "done" arbitrary: queue st)
  case (Cons i others)
  obtain p queue' st' where pick: "pick_eligible snap skipped [] queue st = (p, queue', st')"
    by (cases "pick_eligible snap skipped [] queue st") auto
  note counts = pick_eligible_counts [OF pick]
  show ?case
  proof (cases p)
    case None
    with pick counts show ?thesis by (intro exI [of _ 0]) simp
  next
    case (Some t)
    from Cons [of queue' "mark_spawn QueueDrain t (kill_worker i st')"] obtain n where
      "kills (ds_effects (snd (replace_completed snap skipped others queue'
          (mark_spawn QueueDrain t (kill_worker i st'))))) = kills (ds_effects st') @ i # take n others \<and>
       length (spawns (ds_effects (snd (replace_completed snap skipped others queue'
          (mark_spawn QueueDrain t (kill_worker i st')))))) = Suc (length (spawns (ds_effects st'))) + min n (length others)"
      by auto
    with pick counts Some show ?thesis by (intro exI [of _ "Suc n"]) simp
  qed
qed simp

section \<open>Properties of a tick\<close>

lemma skipped_by_ready:
  assumes "dispatch_inv snap skipped ds"
  shows "spawned_by (ds_effects ds) \<inter> skipped_by False (ds_effects ds) = {}"
  using assms by (auto simp: dispatch_inv_def)

lemma metric_quiet [simp]:
  "skipped_by q (metric_effects cs) = {}" "spawned_by (metric_effects cs) = {}"
  by (simp_all add: metric_effects_def)

lemma tick_skips:
  assumes "reduceSchedulerTick snap = Some d"
  obtains cs where "cascade_pass snap = Some cs"
    and "skipped_by False (orderedEffects d) = set (cs_skipped cs)"
  using assms
proof (cases rule: tick_cases)
  case (stopped cs)
  moreover have "skipped_by False (cs_effects cs) = set (cs_skipped cs)"
    using cascade_pass_inv [OF stopped(1)] by (simp add: cascade_inv_def)
  ultimately show ?thesis by (intro that [of cs]) auto
next
  case (ran cs queue ds cs' tail)
  from dispatch_phase_inv [OF ran(1,3)]
  have "skipped_by False (ds_effects ds) = set (cs_skipped cs)" "skipped_by True (ds_effects ds) = {}"
    by (simp_all add: dispatch_inv_def)
  with quiescence_phase_inv [OF ran(4)] ran show ?thesis
    by (intro that [of cs]) (auto simp: paused_inv_def)
qed

text \<open>
  A tick always produces a decision: the two fixed-point loops of the cascade stop on
  every snapshot, dependency cycles included.
\<close>

theorem tick_returns: "\<exists>d. reduceSchedulerTick snap = Some d"
proof -
  obtain cs where cs: "cascade_pass snap = Some cs" using cascade_pass_returns by blast
  obtain queue ds where "dispatch_phase snap cs = (queue, ds)" by fastforce
  moreover obtain cs' where "quiescence_phase snap cs ds = Some cs'"
    using quiescence_phase_returns by blast
  ultimately show ?thesis using cs by (simp add: reduceSchedulerTick_def)
qed

text \<open>A snapshot for the witnesses: \<open>f\<close> failed, \<open>b\<close> needs it, \<open>c\<close> needs \<open>b\<close>, \<open>e\<close> is free.\<close>

definition sample_snap :: "task_id \<Rightarrow> TaskStatus \<Rightarrow> task_id list \<Rightarrow> SchedulerTaskSnapshot" where
  "sample_snap i st deps = toSchedulerTaskSnapshot (sample_task i st deps None)"

definition sample_tick :: "DispatchStrategy \<Rightarrow> SchedulerSnapshot" where
  "sample_tick strat =
     (let ts = [sample_snap ''c'' PENDING [''b''], sample_snap ''f'' NO_GO [],
                sample_snap ''b'' PENDING [''f''], sample_snap ''e'' PENDING [''g''],
                sample_snap ''g'' DONE [], sample_snap ''h'' PENDING [''e'']]
      in \<lparr>trigger_kind = TriggerWatcher, trigger_sequence = 1, strategy = strat, nowMs = 0,
          costStop = False, slotBudget = 1,
          orderedQueue = [sample_snap ''h'' PENDING [''e''], sample_snap ''b'' PENDING [''f''],
                          sample_snap ''e'' PENDING [''g'']],
          snap_tasks = ts, assignedTaskIds = {}, collectedIds = {},
          completedTaskIds = [''g''], dependencyPipelineEnabled = True,
          deferTerminalDependencyFailure = False,
          effectiveDependencyState = \<lparr>satisfyingIds = {''g''}, terminalFailureIds = {''f''},
            retryEligibleIds = set (map snap_id ts)\<rparr>,
          collisionBlockedIds = {}, collisionBlockingIds = (\<lambda>_. None),
          failureDispositionPolicy = (\<lambda>_. None)\<rparr>)"

definition sample_effects :: "DispatchStrategy \<Rightarrow> SchedulerEffect list" where
  "sample_effects strat =
     (case reduceSchedulerTick (sample_tick strat) of None \<Rightarrow> [] | Some d \<Rightarrow> orderedEffects d)"

lemma sample_effects_value:
  "sample_effects Continuous =
     [ClearBlocked ''f'', ClearBlocked ''g'', CascadeSkip ''b'' ''f'' False ''cascade-skip:b:f'',
      CascadeSkip ''c'' ''b'' False ''cascade-skip:c:b'', EmitMetric ''scheduler.cascade_skip'' 2,
      Blocked ''h'' DependencyPending (Some ''e''), SpawnTask ''e'' QueueDrain,
      WriteCheckpoint ''tick-progressed'']"
  by code_simp

text \<open>Another one: \<open>p\<close> is paused and needs \<open>f\<close>, which failed; nothing is queued.\<close>

definition sample_paused :: SchedulerSnapshot where
  "sample_paused = sample_tick Continuous\<lparr>orderedQueue := [],
     snap_tasks := [sample_snap ''p'' PAUSED [''f''], sample_snap ''f'' NO_GO []]\<rparr>"

lemma sample_paused_effects:
  "map_option orderedEffects (reduceSchedulerTick sample_paused) =
     Some [ClearBlocked ''p'', ClearBlocked ''f'', CascadeSkip ''p'' ''f'' True ''cascade-skip:p:f'',
       WriteCheckpoint ''tick-progressed'']"
  by code_simp

text \<open>
  The quiescence pass closes the dead paused tasks: started from a cascade that skipped the
  doomed ones, it skips the paused tasks that depend on a failure, on a doomed task or on one
  it skipped itself, and no other.
\<close>

lemma quiescence_exact:
  assumes rep: "js_repeat (paused_step snap) (snap_tasks snap)
      \<lparr>cs_effects = effs, cs_dispositions = disp, cs_skipped = skipped,
       cs_failed = terminalFailureIds (effectiveDependencyState snap) \<union> set skipped\<rparr> = Some cs'"
    and skipped: "set skipped = {i. doomed snap i}" and quiet: "skipped_by True effs = {}"
    and named: "ids_named snap"
  shows "skipped_by True (cs_effects cs') = {i. dead_paused snap i}"
proof -
  let ?closed = "\<lambda>st :: cascade_state. skipped_by True (cs_effects st)"
  define inv where "inv st \<longleftrightarrow> set (cs_skipped st) = {i. doomed snap i} \<union> ?closed st \<and>
     cs_failed st = terminalFailureIds (effectiveDependencyState snap) \<union> set (cs_skipped st) \<and>
     (\<forall>i \<in> ?closed st. dead_paused snap i)" for st :: cascade_state
  have step: "inv st'" if t: "t \<in> set (snap_tasks snap)" and "inv st" "paused_step snap t st = Some st'" for t st st'
  proof -
    from that(2,3) t obtain d where d: "first_failed_dependency (cs_failed st) t = Some d"
      and st': "st' = skip_task True t d st" and cand: "paused_candidate snap t"
      by (auto simp: paused_step_Some paused_candidate_def inv_def)
    from first_failed_Some [OF d] \<open>inv st\<close> cand have "dead_paused snap (snap_id t)"
      by (auto simp: inv_def intro: dead_paused.intros)
    with \<open>inv st\<close> show ?thesis by (auto simp: inv_def st')
  qed
  have "inv \<lparr>cs_effects = effs, cs_dispositions = disp, cs_skipped = skipped,
       cs_failed = terminalFailureIds (effectiveDependencyState snap) \<union> set skipped\<rparr>"
    by (simp add: inv_def skipped quiet)
  from quiescence.repeat_inv [OF rep, of inv, OF this] step have inv: "inv cs'" by blast
  have no_empty: "[] \<notin> cs_failed cs'" using inv ids_namedD [OF named] by (auto simp: inv_def)
  have skip: "snap_id t \<in> ?closed cs'"
    if t: "paused_candidate snap t" and d: "d \<in> set (snap_dependencies t)" "d \<in> cs_failed cs'" for t d
  proof (rule ccontr)
    assume "snap_id t \<notin> ?closed cs'"
    with inv t have not: "snap_id t \<notin> set (cs_skipped cs')" by (simp add: inv_def paused_candidate_def)
    from t have mem: "t \<in> set (snap_tasks snap)" by (simp add: paused_candidate_def)
    from quiescence.repeat_fixed [OF rep mem] t not have "first_failed_dependency (cs_failed cs') t = None"
      by (auto simp: paused_step_def paused_candidate_def split: option.splits if_splits)
    from first_failed_None [OF this no_empty d(1)] d(2) show False by simp
  qed
  have "i \<in> ?closed cs'" if "dead_paused snap i" for i
    using that by (induction rule: dead_paused.induct) (use inv in \<open>auto intro!: skip simp: inv_def\<close>)
  with inv show ?thesis by (auto simp: inv_def)
qed

text \<open>When a tick may close paused tasks: it is continuous and nothing starts or is in flight.\<close>

definition quiescent :: "SchedulerSnapshot \<Rightarrow> SchedulerDecision \<Rightarrow> bool" where
  "quiescent snap d \<longleftrightarrow> strategy snap = Continuous \<and> \<not> costStop snap \<and> spawned_by (orderedEffects d) = {} \<and>
     list_all (\<lambda>t. snap_status t \<notin> {CLAIMED, EXECUTING, TESTING}) (snap_tasks snap) \<and>
     assignedTaskIds snap \<subseteq> collectedIds snap"

lemma not_hasLiveWork:
  "\<not> hasLiveWork snap \<longleftrightarrow> list_all (\<lambda>t. snap_status t \<notin> {CLAIMED, EXECUTING, TESTING}) (snap_tasks snap) \<and>
     assignedTaskIds snap \<subseteq> collectedIds snap"
  by (auto simp: hasLiveWork_def list_all_iff list_ex_iff)

lemma tick_closes:
  assumes "reduceSchedulerTick snap = Some d" and "ids_named snap"
  shows "skipped_by True (orderedEffects d) =
    (if \<not> deferTerminalDependencyFailure snap \<and> quiescent snap d then {i. dead_paused snap i} else {})"
  using assms(1)
proof (cases rule: tick_cases)
  case (stopped cs)
  have "skipped_by True (cs_effects cs) = {}"
    using cascade_pass_inv [OF stopped(1)] by (simp add: cascade_inv_def)
  with stopped show ?thesis by (auto simp: quiescent_def)
next
  case (ran cs queue ds cs' tail)
  from dispatch_phase_inv [OF ran(1,3)] have quiet: "skipped_by True (ds_effects ds) = {}"
    by (simp add: dispatch_inv_def)
  have "spawned_by (cs_effects cs') = spawned_by (ds_effects ds)"
    using quiescence_phase_inv [OF ran(4) quiet] by (simp add: paused_inv_def)
  then have same: "quiescent snap d \<longleftrightarrow>
      strategy snap = Continuous \<and> \<not> list_ex is_spawn (ds_effects ds) \<and> \<not> hasLiveWork snap"
    using ran(2,6,7) by (auto simp: quiescent_def spawned_by_empty not_hasLiveWork)
  have tail: "skipped_by True (orderedEffects d) = skipped_by True (cs_effects cs')" using ran(6,7) by auto
  show ?thesis
  proof (cases "\<not> deferTerminalDependencyFailure snap \<and> quiescent snap d")
    case True
    with ran(4) have rep: "js_repeat (paused_step snap) (snap_tasks snap)
      \<lparr>cs_effects = ds_effects ds, cs_dispositions = ds_dispositions ds, cs_skipped = cs_skipped cs,
       cs_failed = terminalFailureIds (effectiveDependencyState snap) \<union> set (cs_skipped cs)\<rparr> = Some cs'"
      by (simp add: same quiescence_phase_def cascadePausedAtQuiescence_def)
    have "set (cs_skipped cs) = {i. doomed snap i}"
      using cascade_pass_complete [OF ran(1) _ assms(2)] cascade_pass_inv [OF ran(1)] True
      by (auto simp: cascade_inv_def)
    from quiescence_exact [OF rep this quiet assms(2)] True show ?thesis by (simp add: tail)
  next
    case False
    with ran(4) have "cs_effects cs' = ds_effects ds" by (auto simp: same quiescence_phase_def)
    with quiet False show ?thesis by (simp only: tail if_False)
  qed
qed

text \<open>
  C1 Exactness of the cascade. Take a snapshot in which neither a task id nor a terminal failure
  is the empty string, which the code would not tell from no failure at all. Unless terminal
  failures are deferred, the tasks that the ordinary pass of a tick skips are exactly the doomed
  ones: the least set that contains every pending, unassigned, uncollected task (not itself a
  repair that is not minted) with a dependency that failed terminally, that such a repair was
  for, or that is doomed. The pass at quiescence skips exactly the paused, unassigned,
  uncollected tasks with a dependency that failed terminally, is doomed or is skipped in the
  same way; it does so when failures are not deferred, the strategy is continuous, there is no
  cost stop, and nothing is started or in flight, and otherwise skips nothing. When failures
  are deferred, a tick with no repair to refuse skips nothing at all, and any other tick skips
  doomed tasks only (which ones is left open: see \<open>deferred_failures_cascade\<close> below).
\<close>

theorem tick_cascade_exact:
  assumes "reduceSchedulerTick snap = Some d" and "ids_named snap"
  shows "(\<not> deferTerminalDependencyFailure snap \<longrightarrow> skipped_by False (orderedEffects d) = {i. doomed snap i})
    \<and> skipped_by True (orderedEffects d) =
        (if \<not> deferTerminalDependencyFailure snap \<and> quiescent snap d then {i. dead_paused snap i} else {})
    \<and> (deferTerminalDependencyFailure snap \<and> (\<forall>i. \<not> not_minted snap i) \<longrightarrow> skipped_by False (orderedEffects d) = {})
    \<and> skipped_by False (orderedEffects d) \<subseteq> {i. doomed snap i}"
proof -
  obtain cs where cs: "cascade_pass snap = Some cs"
    and eq: "skipped_by False (orderedEffects d) = set (cs_skipped cs)"
    using tick_skips [OF assms(1)] .
  have sound: "set (cs_skipped cs) \<subseteq> {i. doomed snap i}"
    using cascade_pass_inv [OF cs] by (auto simp: cascade_inv_def)
  have complete: "\<not> deferTerminalDependencyFailure snap \<Longrightarrow> {i. doomed snap i} \<subseteq> set (cs_skipped cs)"
    using cascade_pass_complete [OF cs _ assms(2)] by blast
  have deferred: "set (cs_skipped cs) = {}"
    if "deferTerminalDependencyFailure snap \<and> (\<forall>i. \<not> not_minted snap i)"
  proof -
    have "noMintIds snap = {}" using that by (auto simp: noMintIds_iff)
    with cs that have "cs = cascade_start snap" by (simp add: cascade_pass_def)
    then show ?thesis by (simp add: cascade_start_def)
  qed
  show ?thesis
    unfolding eq tick_closes [OF assms] using deferred sound complete by blast
qed

theorem tick_cascade_exact_witness:
  "doomed (sample_tick Continuous) ''c'' \<and> \<not> doomed (sample_tick Continuous) ''h'' \<and> dead_paused sample_paused ''p''"
proof -
  obtain d where d: "reduceSchedulerTick (sample_tick Continuous) = Some d"
    using tick_returns by blast
  have eff: "orderedEffects d = sample_effects Continuous" using d by (simp add: sample_effects_def)
  have named: "ids_named (sample_tick Continuous)" "ids_named sample_paused" by code_simp+
  have now: "\<not> deferTerminalDependencyFailure (sample_tick Continuous)" by code_simp
  have "''c'' \<in> skipped_by False (orderedEffects d) \<and> ''h'' \<notin> skipped_by False (orderedEffects d)"
    by (simp add: eff sample_effects_value skipped_by_def)
  moreover obtain e where e: "reduceSchedulerTick sample_paused = Some e" using tick_returns by blast
  have "''p'' \<in> skipped_by True (orderedEffects e)"
    using sample_paused_effects e by (auto simp: skipped_by_def)
  ultimately show ?thesis
    using tick_cascade_exact [OF d named(1)] tick_cascade_exact [OF e named(2)] now
    by (auto split: if_splits)
qed

text \<open>
  With failures deferred, one refused repair starts the cascade for every failure: \<open>f\<close> failed
  and may be repaired, yet \<open>b\<close>, which depends on it, is skipped because the repair \<open>r\<close> of
  another task \<open>g\<close> is not minted.
\<close>

definition sample_deferred :: "SchedulerTaskSnapshot list \<Rightarrow> SchedulerSnapshot" where
  "sample_deferred repairs = sample_tick Continuous\<lparr>deferTerminalDependencyFailure := True, orderedQueue := [],
     snap_tasks := [sample_snap ''f'' NO_GO [], sample_snap ''b'' PENDING [''f'']] @ repairs\<rparr>"

definition sample_repair :: SchedulerTaskSnapshot where
  "sample_repair = sample_snap ''r'' PENDING []\<lparr>snap_fixForTaskId := Some ''g'',
     repairSettlementReasonCode := Some ''unknown-reason''\<rparr>"

theorem deferred_failures_cascade:
  "map_option (\<lambda>d. filter (\<lambda>e. case e of CascadeSkip _ _ _ _ \<Rightarrow> True | _ \<Rightarrow> False) (orderedEffects d))
      (reduceSchedulerTick (sample_deferred [])) = Some []
   \<and> map_option (\<lambda>d. filter (\<lambda>e. case e of CascadeSkip _ _ _ _ \<Rightarrow> True | _ \<Rightarrow> False) (orderedEffects d))
      (reduceSchedulerTick (sample_deferred [sample_repair]))
     = Some [CascadeSkip ''b'' ''f'' False ''cascade-skip:b:f'']"
  by code_simp

text \<open>
  C2 A started task may be started: it stands in the queue or among the tasks of the tick, it is
  not assigned, not a repair that is not minted, not in a scope collision and past its retry
  backoff, and the cascade of the same tick did not skip it. With the dependency pipeline on,
  its dependencies are satisfied, with one exception that the statement spells out: when the
  empty string is among them and no task of that id is satisfied, only the dependencies before
  it are known to be, since the code tests the unsatisfied id it found for truth (see
  \<open>empty_dependency_masks\<close>). A task that names no empty dependency has all of them satisfied.
  Nothing is started under a cost stop.
\<close>

theorem tick_spawns_safe:
  assumes "reduceSchedulerTick snap = Some d" and "i \<in> spawned_by (orderedEffects d)"
  shows "(\<exists>t. snap_id t = i \<and> ready_to_start snap t
      \<and> (dependencyPipelineEnabled snap \<and> [] \<notin> set (snap_dependencies t)
          \<longrightarrow> set (snap_dependencies t) \<subseteq> satisfyingIds (effectiveDependencyState snap)))
    \<and> i \<notin> skipped_by False (orderedEffects d) \<and> \<not> costStop snap"
proof -
  have "startable_id snap i \<and> i \<notin> skipped_by False (orderedEffects d) \<and> \<not> costStop snap"
    using assms(1)
  proof (cases rule: tick_cases)
    case (stopped cs)
    have "spawned_by (cs_effects cs) = {}"
      using cascade_pass_inv [OF stopped(1)] by (simp add: cascade_inv_def spawned_by_empty)
    with stopped assms(2) show ?thesis by (auto split: if_splits)
  next
    case (ran cs queue ds cs' tail)
    from dispatch_phase_inv [OF ran(1,3)] have inv: "dispatch_inv snap (set (cs_skipped cs)) ds" .
    then have "skipped_by True (ds_effects ds) = {}" by (simp add: dispatch_inv_def)
    from quiescence_phase_inv [OF ran(4) this] inv ran assms(2) show ?thesis
      by (auto simp: paused_inv_def dispatch_inv_def)
  qed
  moreover from this obtain t where t: "snap_id t = i" "ready_to_start snap t"
    unfolding startable_id_def by blast
  moreover from t(2) have "set (snap_dependencies t) \<subseteq> satisfyingIds (effectiveDependencyState snap)"
    if "dependencyPipelineEnabled snap \<and> [] \<notin> set (snap_dependencies t)"
    using that clear_named by (simp add: ready_to_start_def)
  ultimately show ?thesis by blast
qed

theorem tick_spawns_safe_witness:
  "spawns (sample_effects Continuous) = [''e''] \<and> startable_id (sample_tick Continuous) ''e''"
proof -
  obtain d where d: "reduceSchedulerTick (sample_tick Continuous) = Some d"
    using tick_returns by blast
  have eff: "orderedEffects d = sample_effects Continuous" using d by (simp add: sample_effects_def)
  have sp: "spawns (sample_effects Continuous) = [''e'']" by code_simp
  have "''e'' \<in> spawned_by (orderedEffects d)"
    by (simp add: eff sample_effects_value spawned_by_def)
  with tick_spawns_safe [OF d, of "''e''"] sp show ?thesis by (auto simp: startable_id_def)
qed

text \<open>
  Under a cost stop a tick starts and kills nothing and returns the queue as it was; the
  cascade still runs.
\<close>

theorem tick_cost_stop:
  assumes "reduceSchedulerTick snap = Some d" and "costStop snap"
  shows "spawned_by (orderedEffects d) = {} \<and> kills (orderedEffects d) = [] \<and>
    nextQueue d = orderedQueue snap \<and>
    (\<exists>cs. cascade_pass snap = Some cs \<and> skipped_by False (orderedEffects d) = set (cs_skipped cs))"
proof -
  from assms(1) have "kills (orderedEffects d) = []"
    by (cases rule: tick_cases) (use assms(2) in \<open>auto simp: cascade_pass_kills\<close>)
  moreover from assms(1) have "spawned_by (orderedEffects d) = {}"
    by (cases rule: tick_cases)
      (use assms(2) in \<open>auto simp: set_spawns [symmetric] cascade_pass_spawns\<close>)
  moreover from assms(1) have "nextQueue d = orderedQueue snap"
    by (cases rule: tick_cases) (use assms(2) in auto)
  ultimately show ?thesis using tick_skips [OF assms(1)] by metis
qed

theorem tick_cost_stop_witness:
  "\<exists>d. reduceSchedulerTick (sample_tick Continuous\<lparr>costStop := True\<rparr>) = Some d \<and>
     map snap_id (nextQueue d) = [''h'', ''b'', ''e''] \<and> spawned_by (orderedEffects d) = {}"
proof -
  obtain d where d: "reduceSchedulerTick (sample_tick Continuous\<lparr>costStop := True\<rparr>) = Some d"
    using tick_returns by blast
  have "map snap_id (orderedQueue (sample_tick Continuous\<lparr>costStop := True\<rparr>)) = [''h'', ''b'', ''e'']"
    by code_simp
  with d tick_cost_stop [OF d] show ?thesis by simp
qed

text \<open>
  The slot budget: the continuous strategy starts at most \<open>slotBudget\<close> tasks (none for a
  budget that is not positive) and kills no worker; the legacy strategy kills a prefix of the
  completed workers and starts exactly one task for each of them.
\<close>

theorem tick_slot_budget:
  assumes "reduceSchedulerTick snap = Some d"
  shows "(strategy snap = Continuous \<longrightarrow>
      length (spawns (orderedEffects d)) \<le> nat (slotBudget snap) \<and> kills (orderedEffects d) = []) \<and>
    (strategy snap = LegacyFifo \<longrightarrow> (\<exists>n. kills (orderedEffects d) = take n (completedTaskIds snap)) \<and>
      length (spawns (orderedEffects d)) = length (kills (orderedEffects d)))"
  using assms
proof (cases rule: tick_cases)
  case (stopped cs)
  with cascade_pass_kills [OF stopped(1)] cascade_pass_spawns [OF stopped(1)] show ?thesis
    by (auto intro: exI [of _ 0])
next
  case (ran cs queue ds cs' tail)
  have cnt: "spawns (orderedEffects d) = spawns (ds_effects ds)" "kills (orderedEffects d) = kills (ds_effects ds)"
    using quiescence_phase_counts [OF ran(4)] ran by auto
  let ?st = "\<lparr>ds_effects = cs_effects cs @ metric_effects cs, ds_dispositions = cs_dispositions cs,
       ds_slots = slotBudget snap, ds_chosen = {}\<rparr>"
  have start: "spawns (ds_effects ?st) = []" "kills (ds_effects ?st) = []"
    using cascade_pass_kills [OF ran(1)] cascade_pass_spawns [OF ran(1)] by auto
  show ?thesis
  proof (cases "strategy snap")
    case Continuous
    obtain q d1 where drain: "drain_queue snap (set (cs_skipped cs)) [] (orderedQueue snap) ?st = (q, d1)"
      by fastforce
    have one: "int (length (spawns (ds_effects d1))) + ds_slots d1 = slotBudget snap"
      "min 0 (slotBudget snap) \<le> ds_slots d1" "kills (ds_effects d1) = []"
      using drain_queue_slots [of snap "set (cs_skipped cs)" "[]" "orderedQueue snap" ?st] drain start
      by auto
    let ?f = "fill_slots snap (set (cs_skipped cs)) (snap_id ` set q) (snap_tasks snap) d1"
    have two: "int (length (spawns (ds_effects ?f))) + ds_slots ?f = slotBudget snap"
      "min 0 (ds_slots d1) \<le> ds_slots ?f" "kills (ds_effects ?f) = []"
      using fill_slots_slots [of snap "set (cs_skipped cs)" "snap_id ` set q" "snap_tasks snap" d1] one
      by auto
    have "ds = d1 \<or> ds = ?f"
      using Continuous ran(3) drain by (auto simp: dispatch_phase_def reduceContinuous_def split: if_splits)
    with one two cnt Continuous show ?thesis by auto
  next
    case LegacyFifo
    with ran(3) have "ds = snd (replace_completed snap (set (cs_skipped cs)) (completedTaskIds snap)
        (orderedQueue snap) ?st)"
      by (simp add: dispatch_phase_def reduceLegacyFifo_def)
    with replace_completed_counts [of snap "set (cs_skipped cs)" "completedTaskIds snap" "orderedQueue snap" ?st]
      start cnt LegacyFifo show ?thesis by auto
  qed
qed

theorem tick_slot_budget_witness:
  "kills (sample_effects LegacyFifo) = [''g''] \<and> length (spawns (sample_effects LegacyFifo)) = 1"
proof -
  obtain d where d: "reduceSchedulerTick (sample_tick LegacyFifo) = Some d"
    using tick_returns by blast
  have eff: "orderedEffects d = sample_effects LegacyFifo" using d by (simp add: sample_effects_def)
  have "kills (sample_effects LegacyFifo) = [''g''] \<and> strategy (sample_tick LegacyFifo) = LegacyFifo"
    by code_simp
  with tick_slot_budget [OF d] eff show ?thesis by simp
qed

text \<open>
  The queue discipline: the next queue is a subsequence of the old one (nothing is
  reordered, duplicated or invented), and the continuous strategy starts no task twice in a
  tick when the queue names none twice.
\<close>

theorem tick_queue_discipline:
  assumes "reduceSchedulerTick snap = Some d"
  shows "subseq (nextQueue d) (orderedQueue snap) \<and>
    (strategy snap = Continuous \<longrightarrow> distinct (map snap_id (orderedQueue snap)) \<longrightarrow>
       distinct (spawns (orderedEffects d)))"
  using assms
proof (cases rule: tick_cases)
  case (stopped cs)
  with cascade_pass_spawns [OF stopped(1)] show ?thesis by auto
next
  case (ran cs queue ds cs' tail)
  have cnt: "spawns (orderedEffects d) = spawns (ds_effects ds)"
    using quiescence_phase_counts [OF ran(4)] ran by auto
  have "distinct (spawns (ds_effects ds))"
    if cont: "strategy snap = Continuous" and dist: "distinct (map snap_id (orderedQueue snap))"
  proof -
    let ?st = "\<lparr>ds_effects = cs_effects cs @ metric_effects cs, ds_dispositions = cs_dispositions cs,
         ds_slots = slotBudget snap, ds_chosen = {}\<rparr>"
    obtain q d1 where drain: "drain_queue snap (set (cs_skipped cs)) [] (orderedQueue snap) ?st = (q, d1)"
      by fastforce
    have "fresh_spawns ?st" using cascade_pass_spawns [OF ran(1)] by (simp add: fresh_spawns_def)
    with drain_queue_fresh [of ?st "orderedQueue snap" snap "set (cs_skipped cs)" "[]"] dist drain
    have "fresh_spawns d1" by simp
    moreover from this have "fresh_spawns (fill_slots snap (set (cs_skipped cs)) (snap_id ` set q) (snap_tasks snap) d1)"
      by (rule fill_slots_fresh)
    ultimately have "fresh_spawns ds"
      using cont ran(3) drain by (auto simp: dispatch_phase_def reduceContinuous_def split: if_splits)
    then show ?thesis by (simp add: fresh_spawns_def)
  qed
  with dispatch_phase_steps [OF ran(3)] ran(5) cnt show ?thesis by simp
qed

theorem tick_queue_discipline_witness:
  "distinct (spawns (sample_effects Continuous))"
proof -
  obtain d where d: "reduceSchedulerTick (sample_tick Continuous) = Some d"
    using tick_returns by blast
  have eff: "orderedEffects d = sample_effects Continuous" using d by (simp add: sample_effects_def)
  have "strategy (sample_tick Continuous) = Continuous \<and>
      distinct (map snap_id (orderedQueue (sample_tick Continuous)))" by code_simp
  with tick_queue_discipline [OF d] eff show ?thesis by simp
qed

text \<open>
  The quiescence pass closes PAUSED branches only when nothing can reopen them: a skip it
  marks as quiescent concerns a PAUSED task that is neither assigned nor collected, and the
  tick then starts nothing, no task is in flight and no assignment is uncollected.
\<close>

theorem tick_quiescence:
  assumes "reduceSchedulerTick snap = Some d" and "i \<in> skipped_by True (orderedEffects d)"
  shows "(\<exists>t \<in> set (snap_tasks snap). snap_id t = i \<and> snap_status t = PAUSED) \<and>
    i \<notin> assignedTaskIds snap \<and> i \<notin> collectedIds snap \<and>
    spawned_by (orderedEffects d) = {} \<and> \<not> hasLiveWork snap \<and> strategy snap = Continuous"
  using assms(1)
proof (cases rule: tick_cases)
  case (stopped cs)
  have "skipped_by True (cs_effects cs) = {}"
    using cascade_pass_inv [OF stopped(1)] by (simp add: cascade_inv_def)
  with stopped assms(2) show ?thesis by (auto split: if_splits)
next
  case (ran cs queue ds cs' tail)
  from dispatch_phase_inv [OF ran(1,3)] have quiet: "skipped_by True (ds_effects ds) = {}"
    by (simp add: dispatch_inv_def)
  let ?q = "strategy snap = Continuous \<and> \<not> deferTerminalDependencyFailure snap
         \<and> \<not> list_ex is_spawn (ds_effects ds) \<and> \<not> hasLiveWork snap"
  show ?thesis
  proof (cases ?q)
    case True
    with ran(4) have rep: "js_repeat (paused_step snap) (snap_tasks snap)
      \<lparr>cs_effects = ds_effects ds, cs_dispositions = ds_dispositions ds, cs_skipped = cs_skipped cs,
       cs_failed = terminalFailureIds (effectiveDependencyState snap) \<union> set (cs_skipped cs)\<rparr> = Some cs'"
      by (simp add: quiescence_phase_def cascadePausedAtQuiescence_def)
    have "\<forall>i \<in> skipped_by True (cs_effects cs').
        (\<exists>t \<in> set (snap_tasks snap). snap_id t = i \<and> snap_status t = PAUSED) \<and>
        i \<notin> assignedTaskIds snap \<and> i \<notin> collectedIds snap"
      by (rule quiescence.repeat_inv [OF rep]) (auto simp: quiet paused_step_Some)
    moreover have "spawned_by (cs_effects cs') = {}"
      using quiescence_phase_inv [OF ran(4) quiet] True
      by (auto simp: paused_inv_def spawned_by_empty)
    ultimately show ?thesis using True ran assms(2) by auto
  next
    case False
    with ran(4) have "cs_effects cs' = ds_effects ds" by (auto simp: quiescence_phase_def)
    with quiet ran assms(2) show ?thesis by auto
  qed
qed

theorem tick_quiescence_witness:
  "\<exists>d. reduceSchedulerTick sample_paused = Some d \<and> ''p'' \<in> skipped_by True (orderedEffects d) \<and>
     \<not> hasLiveWork sample_paused"
proof -
  obtain d where d: "reduceSchedulerTick sample_paused = Some d" using tick_returns by blast
  from d sample_paused_effects have "''p'' \<in> skipped_by True (orderedEffects d)" by (auto simp: skipped_by_def)
  with d tick_quiescence [OF d] show ?thesis by blast
qed

text \<open>
  An empty dependency id masks the ones after it: the code takes the first unsatisfied
  dependency and tests it for truth, so a task that names \<open>""\<close> before an unsatisfied
  dependency is not blocked.
\<close>

theorem empty_dependency_masks:
  "classifyBlock (sample_snap ''e'' PENDING [[], ''x'']) (sample_tick Continuous) = None \<and>
   ''x'' \<notin> satisfyingIds (effectiveDependencyState (sample_tick Continuous)) \<and>
   classifyBlock (sample_snap ''e'' PENDING [''x'']) (sample_tick Continuous) \<noteq> None"
  by code_simp

end
