(* ===== verification/Scheduler_Live.thy ===== *)
theory Scheduler_Live
  imports Scheduler_Correct
begin

text \<open>
  Progress of one tick of the continuous strategy: with a free slot left, no task that could
  be started is left waiting. The drain of the queue and the fill from the task list are each
  shown to start every eligible entry unless they run out of slots.
\<close>

text \<open>Nothing but a no-mint repair carries the \<open>NoMint\<close> disposition.\<close>

definition no_mint_only :: "SchedulerSnapshot \<Rightarrow> dispositions \<Rightarrow> bool" where
  "no_mint_only snap disp \<longleftrightarrow> (\<forall>i. disp i = Some NoMint \<longrightarrow> i \<in> noMintIds snap)"

lemma no_mint_only_update [simp]:
  "no_mint_only snap disp \<Longrightarrow> x \<noteq> NoMint \<Longrightarrow> no_mint_only snap (disp(i \<mapsto> x))"
  by (simp add: no_mint_only_def)

lemma no_mint_only_mark [simp]:
  "no_mint_only snap (ds_dispositions st) \<Longrightarrow> classifyBlock t snap = Some b \<Longrightarrow>
   no_mint_only snap (ds_dispositions (mark_blocked t b st))"
  "no_mint_only snap (ds_dispositions st) \<Longrightarrow> no_mint_only snap (ds_dispositions (mark_spawn r t st))"
  by (simp_all add: no_mint_only_def classify_disposition)

lemma cascade_pass_no_mint_only:
  assumes "cascade_pass snap = Some cs"
  shows "no_mint_only snap (cs_dispositions cs)"
proof -
  have start: "no_mint_only snap (cs_dispositions (cascade_start snap))"
    by (simp add: cascade_start_def no_mint_dispositions_def no_mint_only_def)
  show ?thesis
  proof (cases "\<not> deferTerminalDependencyFailure snap \<or> noMintIds snap \<noteq> {}")
    case True
    with assms have rep: "js_repeat (cascade_step snap) (snap_tasks snap) (cascade_start snap) = Some cs"
      by (simp add: cascade_pass_def)
    show ?thesis
    proof (rule cascade.repeat_inv [OF rep, of "\<lambda>st. no_mint_only snap (cs_dispositions st)"])
      show "no_mint_only snap (cs_dispositions (cascade_start snap))" by (rule start)
    qed (auto simp: cascade_step_Some no_mint_only_def split: if_splits)
  next
    case False
    with assms show ?thesis by (auto simp: cascade_pass_def start)
  qed
qed

text \<open>A task that the tick may start: everything the code checks speaks for it.\<close>

definition eligible :: "SchedulerSnapshot \<Rightarrow> task_id set \<Rightarrow> SchedulerTaskSnapshot \<Rightarrow> bool" where
  "eligible snap skipped t \<longleftrightarrow> snap_id t \<notin> assignedTaskIds snap \<and> snap_id t \<notin> skipped \<and>
     snap_id t \<notin> noMintIds snap \<and> classifyBlock t snap = None"

lemma eligible_startable:
  "eligible snap skipped t \<Longrightarrow> no_mint_only snap disp \<Longrightarrow>
   snap_id t \<notin> assignedTaskIds snap \<and> \<not> never_spawn skipped disp (snap_id t) \<and> classifyBlock t snap = None"
  by (auto simp: eligible_def never_spawn_def no_mint_only_def)

lemma drain_queue_mono:
  "spawned_by (ds_effects st) \<subseteq> spawned_by (ds_effects (snd (drain_queue snap skipped kept queue st)))"
proof (induction queue arbitrary: kept st)
  case (Cons c queue)
  show ?case
    using Cons [of st kept] Cons [of "mark_spawn QueueDrain c st" kept]
      Cons [of "mark_blocked c (the (classifyBlock c snap)) st" "kept @ [c]"]
    by (cases "classifyBlock c snap") auto
qed simp

lemma fill_slots_mono:
  "spawned_by (ds_effects st) \<subseteq> spawned_by (ds_effects (fill_slots snap skipped queued ts st))"
proof (induction ts arbitrary: st)
  case (Cons t ts)
  show ?case
    using Cons [of st] Cons [of "mark_spawn PendingSlotFill t st"]
      Cons [of "mark_blocked t (the (classifyBlock t snap)) st"]
    by (cases "classifyBlock t snap") auto
qed simp

text \<open>What the drain keeps in the queue is blocked; what it chose it started.\<close>

definition chosen_started :: "drain_state \<Rightarrow> bool" where
  "chosen_started st \<longleftrightarrow> ds_chosen st \<subseteq> spawned_by (ds_effects st)"

lemma chosen_started_mark [simp]:
  "chosen_started st \<Longrightarrow> chosen_started (mark_spawn r t st)"
  "chosen_started st \<Longrightarrow> chosen_started (mark_blocked t b st)"
  by (auto simp: chosen_started_def)

lemma drain_queue_live:
  assumes "no_mint_only snap (ds_dispositions st)" and "chosen_started st"
    and "drain_queue snap skipped kept queue st = (queue', st')" and "0 < ds_slots st'"
  shows "no_mint_only snap (ds_dispositions st') \<and> chosen_started st' \<and>
    (\<forall>c \<in> set queue'. c \<in> set kept \<or> classifyBlock c snap \<noteq> None) \<and>
    (\<forall>c \<in> set queue. eligible snap skipped c \<longrightarrow> snap_id c \<in> spawned_by (ds_effects st'))"
  using assms
proof (induction queue arbitrary: kept st)
  case (Cons c queue)
  show ?case
  proof (cases "ds_slots st \<le> 0 \<or> \<not> startable snap skipped st c")
    case True
    moreover have "0 < ds_slots st" using Cons.prems(3,4) by (auto split: if_splits)
    ultimately have "drain_queue snap skipped kept queue st = (queue', st')"
      and "\<not> startable snap skipped st c"
      using Cons.prems(3) by (auto simp: startable_def split: if_splits)
    with Cons.IH [of st kept] Cons.prems eligible_startable [of snap skipped c "ds_dispositions st"]
    show ?thesis by (auto simp: startable_def)
  next
    case False
    show ?thesis
    proof (cases "classifyBlock c snap")
      case None
      with False Cons.prems have rest: "drain_queue snap skipped kept queue (mark_spawn QueueDrain c st) = (queue', st')"
        by (auto simp: startable_def)
      moreover have "snap_id c \<in> spawned_by (ds_effects st')"
        using drain_queue_mono [of "mark_spawn QueueDrain c st" snap skipped kept queue] rest by simp
      moreover have "no_mint_only snap (ds_dispositions (mark_spawn QueueDrain c st))"
        "chosen_started (mark_spawn QueueDrain c st)" using Cons.prems(1,2) by simp_all
      from Cons.IH [OF this rest Cons.prems(4)] calculation show ?thesis by simp
    next
      case (Some b)
      with False Cons.prems have rest: "drain_queue snap skipped (kept @ [c]) queue (mark_blocked c b st) = (queue', st')"
        by (auto simp: startable_def)
      have "no_mint_only snap (ds_dispositions (mark_blocked c b st))" "chosen_started (mark_blocked c b st)"
        by (rule no_mint_only_mark(1) [OF Cons.prems(1) Some] chosen_started_mark(2) [OF Cons.prems(2)])+
      from Cons.IH [OF this rest Cons.prems(4)] Some show ?thesis by (auto simp: eligible_def)
    qed
  qed
qed auto

lemma fill_slots_live:
  assumes "no_mint_only snap (ds_dispositions st)" and "chosen_started st"
    and "0 < ds_slots (fill_slots snap skipped queued ts st)"
    and "t \<in> set ts" "eligible snap skipped t" "snap_status t = PENDING"
    and "snap_id t \<notin> collectedIds snap" "snap_id t \<notin> queued"
  shows "snap_id t \<in> spawned_by (ds_effects (fill_slots snap skipped queued ts st))"
  using assms
proof (induction ts arbitrary: st)
  case (Cons c ts)
  have slots: "0 < ds_slots st" using Cons.prems(3) by (auto split: if_splits)
  note ok = eligible_startable [OF Cons.prems(5) Cons.prems(1)]
  show ?case
  proof (cases "snap_status c \<noteq> PENDING \<or> snap_id c \<in> assignedTaskIds snap \<or> snap_id c \<in> collectedIds snap \<or>
      snap_id c \<in> ds_chosen st \<or> never_spawn skipped (ds_dispositions st) (snap_id c) \<or> snap_id c \<in> queued")
    case True
    with slots have eq: "fill_slots snap skipped queued (c # ts) st = fill_slots snap skipped queued ts st"
      by auto
    show ?thesis
    proof (cases "c = t")
      case True
      with \<open>snap_status c \<noteq> PENDING \<or> _\<close> ok Cons.prems have "snap_id t \<in> ds_chosen st" by auto
      with Cons.prems(2) fill_slots_mono [of st snap skipped queued ts] eq show ?thesis
        by (auto simp: chosen_started_def)
    next
      case False
      with Cons.IH [of st] Cons.prems eq show ?thesis by simp
    qed
  next
    case False
    show ?thesis
    proof (cases "classifyBlock c snap")
      case None
      with False slots have eq: "fill_slots snap skipped queued (c # ts) st =
          fill_slots snap skipped queued ts (mark_spawn PendingSlotFill c st)" by auto
      have started: "no_mint_only snap (ds_dispositions (mark_spawn PendingSlotFill c st))"
        "chosen_started (mark_spawn PendingSlotFill c st)"
        using Cons.prems(1,2) no_mint_only_mark(2) by auto
      show ?thesis
      proof (cases "c = t")
        case True
        with fill_slots_mono [of "mark_spawn PendingSlotFill c st" snap skipped queued ts] eq
        show ?thesis by simp
      next
        case False
        with Cons.IH [OF started] Cons.prems eq show ?thesis by simp
      qed
    next
      case (Some b)
      with False slots have eq: "fill_slots snap skipped queued (c # ts) st =
          fill_slots snap skipped queued ts (mark_blocked c b st)" by auto
      have started: "no_mint_only snap (ds_dispositions (mark_blocked c b st))" "chosen_started (mark_blocked c b st)"
        by (rule no_mint_only_mark(1) [OF Cons.prems(1) Some] chosen_started_mark(2) [OF Cons.prems(2)])+
      have "c \<noteq> t" using Some ok by auto
      with Cons.IH [OF started] Cons.prems eq show ?thesis by simp
    qed
  qed
qed simp

lemma reduceContinuous_live:
  assumes "no_mint_only snap disp"
    and "reduceContinuous snap effects disp skipped = (queue, ds)" and "0 < ds_slots ds"
    and "t \<in> set (snap_tasks snap)" "eligible snap skipped t" "snap_status t = PENDING"
    and "snap_id t \<notin> collectedIds snap"
    and "\<forall>c \<in> set (orderedQueue snap). snap_id c = snap_id t \<longrightarrow> c = t"
  shows "snap_id t \<in> spawned_by (ds_effects ds)"
proof -
  let ?st = "\<lparr>ds_effects = effects, ds_dispositions = disp, ds_slots = slotBudget snap, ds_chosen = {}\<rparr>"
  obtain q d where drain: "drain_queue snap skipped [] (orderedQueue snap) ?st = (q, d)" by fastforce
  let ?f = "fill_slots snap skipped (snap_id ` set q) (snap_tasks snap) d"
  from assms(2,3) drain have ds: "ds = ?f" and pos: "0 < ds_slots d" "0 < ds_slots ?f"
    by (auto simp: reduceContinuous_def split: if_splits)
  have start: "no_mint_only snap (ds_dispositions ?st)" "chosen_started ?st"
    using assms(1) by (simp_all add: chosen_started_def)
  note live = drain_queue_live [OF start drain pos(1)]
  have "snap_id t \<notin> snap_id ` set q"
  proof
    assume "snap_id t \<in> snap_id ` set q"
    then obtain c where c: "c \<in> set q" "snap_id c = snap_id t" by auto
    have "subseq q (orderedQueue snap)"
      using drain_queue_subseq [of snap skipped "[]" "orderedQueue snap" ?st] drain by simp
    then have "set q \<subseteq> set (orderedQueue snap)" by (auto elim: list_emb_set)
    with c assms(8) have "c = t" by blast
    with c live assms(5) show False by (auto simp: eligible_def)
  qed
  with fill_slots_live [of snap d skipped "snap_id ` set q" "snap_tasks snap" t] live pos assms ds
  show ?thesis by simp
qed

lemma reduceContinuous_slots:
  assumes "reduceContinuous snap effects disp skipped = (queue, ds)" and "spawns effects = []"
  shows "int (length (spawns (ds_effects ds))) + ds_slots ds = slotBudget snap"
proof -
  let ?st = "\<lparr>ds_effects = effects, ds_dispositions = disp, ds_slots = slotBudget snap, ds_chosen = {}\<rparr>"
  obtain q d where drain: "drain_queue snap skipped [] (orderedQueue snap) ?st = (q, d)" by fastforce
  have "int (length (spawns (ds_effects d))) + ds_slots d = slotBudget snap"
    using drain_queue_slots [of snap skipped "[]" "orderedQueue snap" ?st] drain assms(2) by simp
  moreover from assms(1) drain have "ds = d \<or> ds = fill_slots snap skipped (snap_id ` set q) (snap_tasks snap) d"
    by (auto simp: reduceContinuous_def split: if_splits)
  ultimately show ?thesis
    using fill_slots_slots [of snap skipped "snap_id ` set q" "snap_tasks snap" d] by auto
qed

text \<open>
  C3 The scheduler is work conserving: in a tick of the continuous strategy without a cost
  stop, a pending task that is not assigned, collected, a no-mint repair, blocked or skipped
  by the cascade is started, or every slot of the budget has been used.
\<close>

theorem tick_work_conserving:
  assumes "reduceSchedulerTick snap = Some d" and "strategy snap = Continuous" "\<not> costStop snap"
    and "t \<in> set (snap_tasks snap)" "snap_status t = PENDING"
    and "snap_id t \<notin> assignedTaskIds snap" "snap_id t \<notin> collectedIds snap" "snap_id t \<notin> noMintIds snap"
    and "classifyBlock t snap = None" and "snap_id t \<notin> skipped_by False (orderedEffects d)"
    and "\<forall>c \<in> set (orderedQueue snap). snap_id c = snap_id t \<longrightarrow> c = t"
  shows "snap_id t \<in> spawned_by (orderedEffects d) \<or>
    slotBudget snap \<le> int (length (spawns (orderedEffects d)))"
  using assms(1)
proof (cases rule: tick_cases)
  case (stopped cs)
  with assms(3) show ?thesis by simp
next
  case (ran cs queue ds cs' tail)
  from dispatch_phase_inv [OF ran(1,3)] have inv: "skipped_by False (ds_effects ds) = set (cs_skipped cs)"
    "skipped_by True (ds_effects ds) = {}" by (simp_all add: dispatch_inv_def)
  from quiescence_phase_inv [OF ran(4) inv(2)] ran(6,7) inv(1)
  have eff: "spawned_by (orderedEffects d) = spawned_by (ds_effects ds)"
    and skip: "snap_id t \<notin> set (cs_skipped cs)"
    using assms(10) by (auto simp: paused_inv_def)
  have cnt: "spawns (orderedEffects d) = spawns (ds_effects ds)"
    using quiescence_phase_counts [OF ran(4)] ran(6,7) by auto
  let ?e = "cs_effects cs @ metric_effects cs"
  from assms(2) ran(3) have red: "reduceContinuous snap ?e (cs_dispositions cs) (set (cs_skipped cs)) = (queue, ds)"
    by (simp add: dispatch_phase_def)
  have slots: "int (length (spawns (ds_effects ds))) + ds_slots ds = slotBudget snap"
    by (rule reduceContinuous_slots [OF red]) (simp add: cascade_pass_spawns [OF ran(1)])
  have "eligible snap (set (cs_skipped cs)) t" using assms(6,8,9) skip by (simp add: eligible_def)
  from reduceContinuous_live [OF cascade_pass_no_mint_only [OF ran(1)] red _ assms(4) this assms(5,7,11)]
  show ?thesis using eff cnt slots by (cases "0 < ds_slots ds") auto
qed

theorem tick_work_conserving_witness:
  "''e'' \<in> spawned_by (sample_effects Continuous) \<or> (1::int) \<le> int (length (spawns (sample_effects Continuous)))"
proof -
  let ?t = "sample_snap ''e'' PENDING [''g'']" and ?s = "sample_tick Continuous"
  obtain d where d: "reduceSchedulerTick ?s = Some d" using tick_returns by blast
  have eff: "orderedEffects d = sample_effects Continuous" using d by (simp add: sample_effects_def)
  have pre: "strategy ?s = Continuous" "\<not> costStop ?s" "?t \<in> set (snap_tasks ?s)" "snap_status ?t = PENDING"
    "snap_id ?t = ''e''" "''e'' \<notin> assignedTaskIds ?s" "''e'' \<notin> collectedIds ?s" "''e'' \<notin> noMintIds ?s"
    "classifyBlock ?t ?s = None" "slotBudget ?s = 1"
    by code_simp+
  have queue: "\<forall>c \<in> set (orderedQueue ?s). snap_id c = ''e'' \<longrightarrow> c = ?t" by code_simp
  have "''e'' \<notin> skipped_by False (orderedEffects d)"
    by (simp add: eff sample_effects_value skipped_by_def)
  with tick_work_conserving [OF d pre(1,2,3,4)] pre queue show ?thesis by (simp add: eff)
qed

end
