(* ===== verification/Execution_Topology.thy ===== *)
theory Execution_Topology
  imports Task_Model Js_String
begin

text \<open>
  \<open>src/core/execution-topology.ts\<close>: from an ordered task list to dependency edges, writer
  collisions, synthetic edges and execution waves. A plan slot is a number from 1 on; the
  arrays that the code indexes by slot have length \<open>taskCount + 1\<close>.
\<close>

section \<open>Data\<close>

datatype ExecutionTopologyFindingCode =
    DuplicateTaskId | InvalidWriterPath | UnresolvedDependency | SelfDependency
  | DependencyCycle | UndeclaredWriterCollision

text \<open>Every finding has severity \<open>block\<close>; the field is left out.\<close>

record ExecutionTopologyFinding =
  finding_code :: ExecutionTopologyFindingCode
  finding_slots :: "nat list"
  finding_path :: "string option"
  finding_ref :: "string option"

datatype EdgeSource = Authored | Collision

record ExecutionTopologyEdge =
  edge_from :: nat
  edge_to :: nat
  edge_source :: EdgeSource
  edge_paths :: "string list option"

record ExecutionTopologyCollision =
  collision_path :: string
  collision_key :: string
  writerSlots :: "nat list"
  declared :: bool

record ExecutionTopologyWave =
  wave :: nat
  wave_slots :: "nat list"

record ExecutionTopology =
  configuredMaxWorkers :: nat
  effectiveConcurrency :: nat
  taskSlots :: "nat list"
  collisions :: "ExecutionTopologyCollision list"
  authoredEdges :: "ExecutionTopologyEdge list"
  syntheticEdges :: "ExecutionTopologyEdge list"
  effectiveEdges :: "ExecutionTopologyEdge list"
  waves :: "ExecutionTopologyWave list"
  findings :: "ExecutionTopologyFinding list"
  topology_pass :: bool

text \<open>The key \<open>from:to\<close> of an edge is modelled as the pair: decimal rendering is injective.\<close>

definition edgeKey :: "nat \<Rightarrow> nat \<Rightarrow> nat \<times> nat" where
  "edgeKey source target = (source, target)"

definition compareSlot :: "nat \<Rightarrow> nat \<Rightarrow> int" where
  "compareSlot a b = compareNumber (int a) (int b)"

definition compareEdge :: "ExecutionTopologyEdge \<Rightarrow> ExecutionTopologyEdge \<Rightarrow> int" where
  "compareEdge a b =
     js_or (compareSlot (edge_from a) (edge_from b)) (compareSlot (edge_to a) (edge_to b))"

section \<open>Portable writer paths\<close>

text \<open>\<open>^[A-Za-z]:($|/)\<close>: a drive prefix.\<close>

fun drive_prefix :: "string \<Rightarrow> bool" where
  "drive_prefix (l # c # rest) =
     (((CHR ''A'' \<le> l \<and> l \<le> CHR ''Z'') \<or> (CHR ''a'' \<le> l \<and> l \<le> CHR ''z'')) \<and> c = CHR '':''
      \<and> (rest = [] \<or> hd rest = CHR ''/''))"
| "drive_prefix _ = False"

fun resolve_segments :: "string list \<Rightarrow> string list \<Rightarrow> string list option" where
  "resolve_segments segments [] = Some segments"
| "resolve_segments segments (segment # rest) =
     (if segment = [] \<or> segment = ''.'' then resolve_segments segments rest
      else if segment = ''..'' then
        (if segments = [] then None else resolve_segments (butlast segments) rest)
      else if CHR 0x00 \<in> set segment \<or> CHR '':'' \<in> set segment then None
      else resolve_segments (segments @ [segment]) rest)"

text \<open>The result is the path with its collision key, or \<^const>\<open>None\<close> for \<open>ok: false\<close>.\<close>

definition normalizePortableWriterPath :: "string \<Rightarrow> (string \<times> string) option" where
  "normalizePortableWriterPath raw =
     (let input = js_replace_char (CHR 0x5C) (CHR ''/'') (js_trim raw)
      in if input = [] \<or> js_starts_with input ''/'' \<or> js_starts_with input ''//''
            \<or> drive_prefix input then None
         else (case resolve_segments [] (js_split (CHR ''/'') input) of
                 None \<Rightarrow> None
               | Some segments \<Rightarrow>
                   (if segments = [] then None
                    else let path = js_join ''/'' segments in Some (path, js_lower path))))"

section \<open>Dependency slots\<close>

definition add_slot :: "string \<Rightarrow> nat \<Rightarrow> (string, nat list) js_map \<Rightarrow> (string, nat list) js_map" where
  "add_slot key slot m = AList.update key
     ((case map_of m key of None \<Rightarrow> [] | Some slots \<Rightarrow> slots) @ [slot]) m"

definition slots_by :: "(task \<Rightarrow> string) \<Rightarrow> task list \<Rightarrow> (string, nat list) js_map" where
  "slots_by key tasks =
     foldl (\<lambda>m (i, t). add_slot (key t) (i + 1) m) [] (enumerate 0 tasks)"

text \<open>\<open>byId?.length === 1 ? byId : byTitle?.length === 1 ? byTitle : undefined\<close>, then \<open>?.[0]\<close>.\<close>

definition unique_slot :: "nat list option \<Rightarrow> nat option" where
  "unique_slot slots = (case slots of Some [slot] \<Rightarrow> Some slot | _ \<Rightarrow> None)"

definition resolve_ref ::
    "(string, nat list) js_map \<Rightarrow> (string, nat list) js_map \<Rightarrow> string \<Rightarrow> nat option" where
  "resolve_ref idToSlots titleToSlots ref =
     (case unique_slot (map_of idToSlots ref) of
        Some slot \<Rightarrow> Some slot
      | None \<Rightarrow> unique_slot (map_of titleToSlots ref))"

definition duplicate_findings :: "(string, nat list) js_map \<Rightarrow> ExecutionTopologyFinding list" where
  "duplicate_findings idToSlots =
     map (\<lambda>(_, slots). \<lparr>finding_code = DuplicateTaskId, finding_slots = js_sort compareSlot slots,
            finding_path = None, finding_ref = None\<rparr>)
       (filter (\<lambda>(_, slots). 1 < length slots) idToSlots)"

text \<open>One dependency of the task in slot \<open>target\<close>; the accumulator is (findings, edges).\<close>

definition resolve_dependency ::
    "(string \<Rightarrow> nat option) \<Rightarrow> nat \<Rightarrow> string \<Rightarrow>
     ExecutionTopologyFinding list \<times> ExecutionTopologyEdge list \<Rightarrow>
     ExecutionTopologyFinding list \<times> ExecutionTopologyEdge list" where
  "resolve_dependency lookup target rawRef acc =
     (let ref = js_trim rawRef; (fs, es) = acc
      in case lookup ref of
           None \<Rightarrow> (fs @ [\<lparr>finding_code = UnresolvedDependency, finding_slots = [target],
                        finding_path = None, finding_ref = Some ref\<rparr>], es)
         | Some source \<Rightarrow>
             (if source = target
              then (fs @ [\<lparr>finding_code = SelfDependency, finding_slots = [target],
                        finding_path = None, finding_ref = Some ref\<rparr>], es)
              else if edgeKey source target \<notin> set (map (\<lambda>e. edgeKey (edge_from e) (edge_to e)) es)
              then (fs, es @ [\<lparr>edge_from = source, edge_to = target, edge_source = Authored,
                        edge_paths = None\<rparr>])
              else (fs, es)))"

definition resolveDependencySlots ::
    "task list \<Rightarrow> ExecutionTopologyEdge list \<times> ExecutionTopologyFinding list" where
  "resolveDependencySlots tasks =
     (let idToSlots = slots_by task_id tasks;
          titleToSlots = slots_by task_title tasks;
          (fs, es) = foldl (\<lambda>acc (i, t).
             foldl (\<lambda>acc rawRef. resolve_dependency (resolve_ref idToSlots titleToSlots) (i + 1) rawRef acc)
               acc (task_dependencies t))
             (duplicate_findings idToSlots, []) (enumerate 0 tasks)
      in (js_sort compareEdge es, fs))"

section \<open>Reachability\<close>

text \<open>\<open>outgoing\<close>: for each slot the set of its successors, in insertion order.\<close>

definition build_outgoing :: "nat \<Rightarrow> ExecutionTopologyEdge list \<Rightarrow> nat list list" where
  "build_outgoing taskCount edges =
     foldl (\<lambda>out e. out[edge_from e := js_add (edge_to e) (out ! edge_from e)])
       (replicate (taskCount + 1) []) edges"

definition successors :: "nat list list \<Rightarrow> nat \<Rightarrow> nat list" where
  "successors outgoing slot = (if slot < length outgoing then outgoing ! slot else [])"

lemma successors_subset: "set (successors outgoing slot) \<subseteq> set (concat outgoing)"
  by (auto simp: successors_def intro!: bexI [of _ "outgoing ! slot"])

function reach_loop :: "nat list list \<Rightarrow> nat list \<Rightarrow> nat js_set \<Rightarrow> nat js_set" where
  "reach_loop outgoing [] reached = reached"
| "reach_loop outgoing (current # queue) reached =
     (if current \<in> set reached then reach_loop outgoing queue reached
      else reach_loop outgoing (queue @ successors outgoing current) (js_add current reached))"
  by pat_completeness auto
termination
proof (relation "measures [\<lambda>(out, q, r). card ((set (concat out) \<union> set q) - set r), \<lambda>(out, q, r). length q]")
  fix out :: "nat list list" and current :: nat and queue reached
  let ?U = "\<lambda>q r. (set (concat out) \<union> set q) - set r"
  show "((out, queue, reached), (out, current # queue, reached))
      \<in> measures [\<lambda>(out, q, r). card ((set (concat out) \<union> set q) - set r), \<lambda>(out, q, r). length q]"
    if "current \<in> set reached"
  proof -
    have "card (?U queue reached) \<le> card (?U (current # queue) reached)"
      by (rule card_mono) auto
    then show ?thesis by (auto simp: le_less)
  qed
  show "((out, queue @ successors out current, js_add current reached), (out, current # queue, reached))
      \<in> measures [\<lambda>(out, q, r). card ((set (concat out) \<union> set q) - set r), \<lambda>(out, q, r). length q]"
    if "current \<notin> set reached"
  proof -
    have "card (?U (queue @ successors out current) (js_add current reached))
        < card (?U (current # queue) reached)"
      by (rule psubset_card_mono) (use that successors_subset [of out current] in auto)
    then show ?thesis by simp
  qed
qed auto

definition buildReachability :: "nat \<Rightarrow> ExecutionTopologyEdge list \<Rightarrow> nat js_set list" where
  "buildReachability taskCount edges =
     (let outgoing = build_outgoing taskCount edges
      in map (\<lambda>slot. reach_loop outgoing (js_sort compareSlot (successors outgoing slot)) [])
           [0..<taskCount + 1])"

section \<open>Topological order\<close>

text \<open>The in-degrees: a repeated edge counts once.\<close>

definition count_edge ::
    "ExecutionTopologyEdge \<Rightarrow> int list \<times> nat list list \<Rightarrow> int list \<times> nat list list" where
  "count_edge e st =
     (let (incoming, outgoing) = st
      in if edge_to e \<notin> set (outgoing ! edge_from e)
         then (incoming[edge_to e := incoming ! edge_to e + 1],
               outgoing[edge_from e := js_add (edge_to e) (outgoing ! edge_from e)])
         else (incoming, outgoing))"

definition build_degrees ::
    "nat \<Rightarrow> ExecutionTopologyEdge list \<Rightarrow> int list \<times> nat list list" where
  "build_degrees taskCount edges =
     foldl (\<lambda>st e. count_edge e st)
       (replicate (taskCount + 1) 0, replicate (taskCount + 1) []) edges"

text \<open>
  Releasing a dependent decrements its in-degree and makes it ready at zero; decrementing an
  entry that does not exist gives \<open>NaN\<close>, which is never zero.
\<close>

fun release :: "nat list \<Rightarrow> int list \<times> nat list \<Rightarrow> int list \<times> nat list" where
  "release [] st = st"
| "release (d # ds) (incoming, ready) =
     (if d < length incoming
      then release ds (incoming[d := incoming ! d - 1],
             if incoming ! d - 1 = 0 then ready @ [d] else ready)
      else release ds (incoming, ready))"

text \<open>Each released slot that becomes ready had a positive in-degree before.\<close>

definition positives :: "int list \<Rightarrow> nat" where
  "positives incoming = length (filter (\<lambda>x. 0 < x) incoming)"

lemma positives_update:
  "d < length xs \<Longrightarrow> positives (xs[d := x]) + (if 0 < xs ! d then 1 else 0)
     = positives xs + (if 0 < x then 1 else 0)"
proof (induction xs arbitrary: d)
  case (Cons a xs)
  then show ?case by (cases d) (auto simp: positives_def)
qed (simp add: positives_def)

lemma release_measure:
  "length (snd (release ds (incoming, ready))) + positives (fst (release ds (incoming, ready)))
   \<le> length ready + positives incoming"
proof (induction ds arbitrary: incoming ready)
  case (Cons d ds)
  show ?case
  proof (cases "d < length incoming")
    case True
    with positives_update [OF True, of "incoming ! d - 1"]
      Cons [of "incoming[d := incoming ! d - 1]" "ready @ [d]"]
      Cons [of "incoming[d := incoming ! d - 1]" ready]
    show ?thesis by (cases "incoming ! d = 1") (auto split: if_splits)
  next
    case False
    with Cons show ?thesis by simp
  qed
qed simp

function topo_loop ::
    "nat list list \<Rightarrow> int list \<Rightarrow> nat list \<Rightarrow> nat list \<Rightarrow> nat list" where
  "topo_loop outgoing incoming ready order =
     (case js_sort compareSlot ready of
        [] \<Rightarrow> order
      | slot # rest \<Rightarrow>
          (let (incoming', ready') =
             release (js_sort compareSlot (successors outgoing slot)) (incoming, rest)
           in topo_loop outgoing incoming' ready' (order @ [slot])))"
  by pat_completeness auto
termination
proof (relation "measure (\<lambda>(out, incoming, ready, order). length ready + positives incoming)")
  fix outgoing incoming ready order slot rest p incoming' ready'
  assume sort: "js_sort compareSlot ready = slot # rest"
    and p: "p = release (js_sort compareSlot (successors outgoing slot)) (incoming, rest)"
    "(incoming', ready') = p"
  have "length ready = Suc (length rest)" using sort by (metis length_js_sort length_Cons)
  moreover have "length ready' + positives incoming' \<le> length rest + positives incoming"
    using release_measure [of "js_sort compareSlot (successors outgoing slot)" incoming rest] p
    by (metis fst_conv snd_conv)
  ultimately show "((outgoing, incoming', ready', order @ [slot]), (outgoing, incoming, ready, order))
      \<in> measure (\<lambda>(out, incoming, ready, order). length ready + positives incoming)"
    by simp
qed auto

declare topo_loop.simps [simp del]

definition initially_ready :: "nat \<Rightarrow> int list \<Rightarrow> nat list" where
  "initially_ready taskCount incoming = filter (\<lambda>s. incoming ! s = 0) [1..<taskCount + 1]"

text \<open>The result is the order and the slots it leaves out.\<close>

definition topologicalOrder :: "nat \<Rightarrow> ExecutionTopologyEdge list \<Rightarrow> nat list \<times> nat list" where
  "topologicalOrder taskCount edges =
     (let (incoming, outgoing) = build_degrees taskCount edges;
          order = topo_loop outgoing incoming (initially_ready taskCount incoming) []
      in (order, filter (\<lambda>slot. slot \<notin> set order) [1..<taskCount + 1]))"

section \<open>Waves\<close>

text \<open>
  A level of ready slots is cut into waves of at most \<open>maxWorkers\<close>, which the caller makes
  positive; for zero the code would not return, here no wave is cut.
\<close>

function cut_waves :: "nat \<Rightarrow> nat list \<Rightarrow> nat list list" where
  "cut_waves maxWorkers ready =
     (if ready = [] \<or> maxWorkers = 0 then []
      else take maxWorkers ready # cut_waves maxWorkers (drop maxWorkers ready))"
  by pat_completeness auto
termination
  by (relation "measure (\<lambda>(_, ready). length ready)") auto

declare cut_waves.simps [simp del]

definition decrement :: "int list \<Rightarrow> nat \<Rightarrow> int list" where
  "decrement incoming d = (if d < length incoming then incoming[d := incoming ! d - 1] else incoming)"

definition resolve_level :: "nat list list \<Rightarrow> nat list \<Rightarrow> int list \<Rightarrow> int list" where
  "resolve_level outgoing ready incoming =
     foldl (\<lambda>inc slot. foldl decrement inc (successors outgoing slot)) incoming ready"

function wave_loop ::
    "nat \<Rightarrow> nat \<Rightarrow> nat list list \<Rightarrow> int list \<Rightarrow> nat list \<Rightarrow> nat list list \<Rightarrow> nat list list" where
  "wave_loop taskCount maxWorkers outgoing incoming resolved ws =
     (if length resolved < taskCount
      then (let ready = filter (\<lambda>s. s \<notin> set resolved \<and> incoming ! s = 0) [1..<taskCount + 1]
            in if ready = [] then ws
               else wave_loop taskCount maxWorkers outgoing (resolve_level outgoing ready incoming)
                      (resolved @ ready) (ws @ cut_waves maxWorkers ready))
      else ws)"
  by pat_completeness auto
termination
proof (relation "measure (\<lambda>(n, k, out, inc, resolved, ws). n - length resolved)")
  fix n k out inc ws and resolved ready :: "nat list"
  assume "length resolved < n" and "ready \<noteq> []"
  then show "((n, k, out, resolve_level out ready inc, resolved @ ready, ws @ cut_waves k ready),
       n, k, out, inc, resolved, ws) \<in> measure (\<lambda>(n, k, out, inc, resolved, ws). n - length resolved)"
    by (cases ready) auto
qed auto

declare wave_loop.simps [simp del]

definition buildWaves :: "nat \<Rightarrow> ExecutionTopologyEdge list \<Rightarrow> nat \<Rightarrow> ExecutionTopologyWave list" where
  "buildWaves taskCount edges maxWorkers =
     (let (incoming, outgoing) = build_degrees taskCount edges
      in map (\<lambda>(i, slots). \<lparr>wave = i + 1, wave_slots = slots\<rparr>)
           (enumerate 0 (wave_loop taskCount maxWorkers outgoing incoming [] [])))"

section \<open>The derived topology\<close>

record writer_entry =
  entry_path :: string
  entry_slots :: "nat js_set"

type_synonym writer_map = "(string, writer_entry) js_map"

definition record_writer ::
    "nat \<Rightarrow> string \<Rightarrow> writer_map \<times> ExecutionTopologyFinding list \<Rightarrow>
     writer_map \<times> ExecutionTopologyFinding list" where
  "record_writer slot rawPath st =
     (let (ws, fs) = st
      in case normalizePortableWriterPath rawPath of
           None \<Rightarrow> (ws, fs @ [\<lparr>finding_code = InvalidWriterPath, finding_slots = [slot],
                          finding_path = Some rawPath, finding_ref = None\<rparr>])
         | Some (path, key) \<Rightarrow>
             (let current = (case map_of ws key of
                               None \<Rightarrow> \<lparr>entry_path = path, entry_slots = []\<rparr> | Some e \<Rightarrow> e);
                  shown = (if compareCodePoint path (entry_path current) < 0 then path
                           else entry_path current)
              in (AList.update key \<lparr>entry_path = shown, entry_slots = js_add slot (entry_slots current)\<rparr> ws,
                  fs)))"

definition collect_writers :: "task list \<Rightarrow> writer_map \<times> ExecutionTopologyFinding list" where
  "collect_writers tasks =
     foldl (\<lambda>st (i, t). foldl (\<lambda>st rawPath. record_writer (i + 1) rawPath st) st (filesWrite (task_scope t)))
       ([], []) (enumerate 0 tasks)"

definition order_index :: "nat list \<Rightarrow> nat \<Rightarrow> nat option" where
  "order_index order slot = map_of (map (\<lambda>(i, s). (s, i)) (enumerate 0 order)) slot"

text \<open>\<open>orderIndex.get(a) ?? a\<close>\<close>

definition order_rank :: "nat list \<Rightarrow> nat \<Rightarrow> nat" where
  "order_rank order slot = (case order_index order slot of None \<Rightarrow> slot | Some i \<Rightarrow> i)"

definition compareWriter :: "nat list \<Rightarrow> nat \<Rightarrow> nat \<Rightarrow> int" where
  "compareWriter order a b =
     js_or (compareSlot (order_rank order a) (order_rank order b)) (compareSlot a b)"

text \<open>Every pair \<open>i < j\<close> of writers is ordered by authored reachability.\<close>

fun totally_ordered :: "nat js_set list \<Rightarrow> nat list \<Rightarrow> bool" where
  "totally_ordered reach [] = True"
| "totally_ordered reach (a # bs) =
     (list_all (\<lambda>b. b \<in> set (reach ! a) \<or> a \<in> set (reach ! b)) bs \<and> totally_ordered reach bs)"

record synthetic_entry =
  syn_from :: nat
  syn_to :: nat
  syn_paths :: "string js_set"

type_synonym synthetic_map = "(nat \<times> nat, synthetic_entry) js_map"

text \<open>Consecutive writers that authored reachability does not order get an edge.\<close>

fun add_synthetic :: "nat js_set list \<Rightarrow> string \<Rightarrow> nat list \<Rightarrow> synthetic_map \<Rightarrow> synthetic_map" where
  "add_synthetic reach path (source # target # slots) m =
     (if target \<in> set (reach ! source) then add_synthetic reach path (target # slots) m
      else
        (let key = edgeKey source target;
             current = (case map_of m key of
                          None \<Rightarrow> \<lparr>syn_from = source, syn_to = target, syn_paths = []\<rparr> | Some e \<Rightarrow> e)
         in add_synthetic reach path (target # slots)
              (AList.update key (current\<lparr>syn_paths := js_add path (syn_paths current)\<rparr>) m)))"
| "add_synthetic reach path _ m = m"

record collision_state =
  col_synthetic :: synthetic_map
  col_collisions :: "ExecutionTopologyCollision list"
  col_findings :: "ExecutionTopologyFinding list"

definition collide ::
    "nat js_set list \<Rightarrow> nat list \<Rightarrow> string \<times> writer_entry \<Rightarrow> collision_state \<Rightarrow> collision_state" where
  "collide reach order ke st =
     (let (key, entry) = ke
      in if length (entry_slots entry) < 2 then st
         else
           (let slots = js_sort (compareWriter order) (entry_slots entry);
                ok = totally_ordered reach slots
            in st\<lparr>col_collisions := col_collisions st @
                   [\<lparr>collision_path = entry_path entry, collision_key = key, writerSlots = slots,
                     declared = ok\<rparr>],
                  col_findings := col_findings st @
                   (if ok then []
                    else [\<lparr>finding_code = UndeclaredWriterCollision, finding_slots = slots,
                           finding_path = Some (entry_path entry), finding_ref = None\<rparr>]),
                  col_synthetic := add_synthetic reach (entry_path entry) slots (col_synthetic st)\<rparr>))"

definition collide_all ::
    "nat js_set list \<Rightarrow> nat list \<Rightarrow> writer_map \<Rightarrow> ExecutionTopologyFinding list \<Rightarrow> collision_state" where
  "collide_all reach order writers fs =
     foldl (\<lambda>st ke. collide reach order ke st)
       \<lparr>col_synthetic = [], col_collisions = [], col_findings = fs\<rparr>
       (js_sort (\<lambda>a b. compareCodePoint (fst a) (fst b)) writers)"

definition synthetic_edges :: "synthetic_map \<Rightarrow> ExecutionTopologyEdge list" where
  "synthetic_edges m =
     js_sort compareEdge
       (map (\<lambda>(_, e). \<lparr>edge_from = syn_from e, edge_to = syn_to e, edge_source = Collision,
               edge_paths = Some (js_sort compareCodePoint (syn_paths e))\<rparr>) m)"

definition add_effective ::
    "ExecutionTopologyEdge \<Rightarrow> (nat \<times> nat, ExecutionTopologyEdge) js_map \<Rightarrow>
     (nat \<times> nat, ExecutionTopologyEdge) js_map" where
  "add_effective e m =
     (let key = edgeKey (edge_from e) (edge_to e)
      in case map_of m key of
           None \<Rightarrow> AList.update key e m
         | Some existing \<Rightarrow> (if edge_source existing = Collision then AList.update key e m else m))"

definition effective_edges ::
    "ExecutionTopologyEdge list \<Rightarrow> ExecutionTopologyEdge list \<Rightarrow> ExecutionTopologyEdge list" where
  "effective_edges authored synthetic =
     js_sort compareEdge (map snd (foldl (\<lambda>m e. add_effective e m) [] (authored @ synthetic)))"

definition code_name :: "ExecutionTopologyFindingCode \<Rightarrow> string" where
  "code_name c =
     (case c of DuplicateTaskId \<Rightarrow> ''duplicate-task-id'' | InvalidWriterPath \<Rightarrow> ''invalid-writer-path''
      | UnresolvedDependency \<Rightarrow> ''unresolved-dependency'' | SelfDependency \<Rightarrow> ''self-dependency''
      | DependencyCycle \<Rightarrow> ''dependency-cycle''
      | UndeclaredWriterCollision \<Rightarrow> ''undeclared-writer-collision'')"

definition text_of :: "string option \<Rightarrow> string" where
  "text_of s = (case s of None \<Rightarrow> [] | Some x \<Rightarrow> x)"

definition first_slot :: "nat list \<Rightarrow> nat" where
  "first_slot slots = (case slots of [] \<Rightarrow> 0 | s # _ \<Rightarrow> s)"

definition compareFinding :: "ExecutionTopologyFinding \<Rightarrow> ExecutionTopologyFinding \<Rightarrow> int" where
  "compareFinding a b =
     js_or (compareCodePoint (code_name (finding_code a)) (code_name (finding_code b)))
       (js_or (compareSlot (first_slot (finding_slots a)) (first_slot (finding_slots b)))
         (js_or (compareCodePoint (text_of (finding_path a)) (text_of (finding_path b)))
           (compareCodePoint (text_of (finding_ref a)) (text_of (finding_ref b)))))"

definition cycle_finding :: "nat list \<Rightarrow> ExecutionTopologyFinding" where
  "cycle_finding slots =
     \<lparr>finding_code = DependencyCycle, finding_slots = slots, finding_path = None, finding_ref = None\<rparr>"

text \<open>\<open>options.maxWorkers\<close>: \<^const>\<open>None\<close> is a number that is not finite.\<close>

definition configured_workers :: "rat option \<Rightarrow> nat" where
  "configured_workers maxWorkers = (case maxWorkers of None \<Rightarrow> 1 | Some w \<Rightarrow> nat (max 1 \<lfloor>w\<rfloor>))"

definition deriveExecutionTopology :: "task list \<Rightarrow> rat option \<Rightarrow> ExecutionTopology" where
  "deriveExecutionTopology tasks maxWorkers =
     (let n = length tasks;
          (authored, fs0) = resolveDependencySlots tasks;
          reach = buildReachability n authored;
          (order, cycle) = topologicalOrder n authored;
          fs1 = fs0 @ (if cycle \<noteq> [] then [cycle_finding cycle] else []);
          (writers, fsw) = collect_writers tasks;
          st = collide_all reach order writers (fs1 @ fsw);
          synthetic = synthetic_edges (col_synthetic st);
          effective = effective_edges authored synthetic;
          (_, cycle2) = topologicalOrder n effective;
          fs2 = col_findings st @
            (if cycle2 \<noteq> [] \<and> cycle = [] then [cycle_finding cycle2] else []);
          ws = buildWaves n effective (configured_workers maxWorkers);
          sorted = js_sort compareFinding fs2
      in \<lparr>configuredMaxWorkers = configured_workers maxWorkers,
          effectiveConcurrency = foldl (\<lambda>m w. max m (length (wave_slots w))) 0 ws,
          taskSlots = [1..<n + 1],
          collisions = col_collisions st, authoredEdges = authored, syntheticEdges = synthetic,
          effectiveEdges = effective, waves = ws, findings = sorted,
          topology_pass = (sorted = [])\<rparr>)"

end
