(* ===== verification/Topology_Graph.thy ===== *)
theory Topology_Graph
  imports Execution_Topology
begin

text \<open>
  The graph algorithms of the execution topology: reachability is the transitive closure,
  the topological order is one of the acyclic part, and the waves are levels of it.
\<close>

section \<open>Edges as a relation\<close>

definition edge_rel :: "ExecutionTopologyEdge list \<Rightarrow> (nat \<times> nat) set" where
  "edge_rel edges = (\<lambda>e. (edge_from e, edge_to e)) ` set edges"

definition wf_edges :: "nat \<Rightarrow> ExecutionTopologyEdge list \<Rightarrow> bool" where
  "wf_edges n edges \<longleftrightarrow> (\<forall>e \<in> set edges. edge_from e \<in> {1..n} \<and> edge_to e \<in> {1..n})"

lemma edge_rel_simps [simp]:
  "edge_rel [] = {}" "edge_rel (e # es) = insert (edge_from e, edge_to e) (edge_rel es)"
  "edge_rel (es @ fs) = edge_rel es \<union> edge_rel fs"
  by (auto simp: edge_rel_def)

lemma wf_edges_snoc [simp]:
  "wf_edges n (es @ [e]) \<longleftrightarrow> wf_edges n es \<and> edge_from e \<in> {1..n} \<and> edge_to e \<in> {1..n}"
  by (auto simp: wf_edges_def)

lemma wf_edge_rel: "wf_edges n edges \<Longrightarrow> edge_rel edges \<subseteq> {1..n} \<times> {1..n}"
  by (auto simp: wf_edges_def edge_rel_def)

lemma finite_edge_rel [simp]: "finite (edge_rel edges)"
  by (simp add: edge_rel_def)

definition outgoing_ok :: "nat \<Rightarrow> (nat \<times> nat) set \<Rightarrow> nat list list \<Rightarrow> bool" where
  "outgoing_ok n E out \<longleftrightarrow> length out = n + 1 \<and>
     (\<forall>s \<le> n. set (out ! s) = E `` {s} \<and> distinct (out ! s))"

lemma outgoing_add:
  assumes "outgoing_ok n E out" and "s \<le> n"
  shows "outgoing_ok n (insert (s, t) E) (out[s := js_add t (out ! s)])"
proof -
  have "set (out[s := js_add t (out ! s)] ! u) = insert (s, t) E `` {u} \<and>
      distinct (out[s := js_add t (out ! s)] ! u)" if "u \<le> n" for u
    using assms that by (cases "u = s") (auto simp: outgoing_ok_def)
  with assms(1) show ?thesis by (simp add: outgoing_ok_def)
qed

lemma build_outgoing_ok:
  "wf_edges n edges \<Longrightarrow> outgoing_ok n (edge_rel edges) (build_outgoing n edges)"
proof (induction edges rule: rev_induct)
  case Nil
  then show ?case by (auto simp: build_outgoing_def outgoing_ok_def nth_Cons split: nat.splits)
next
  case (snoc e es)
  then have "outgoing_ok n (edge_rel es) (build_outgoing n es)" "edge_from e \<le> n" by auto
  from outgoing_add [OF this] show ?case by (simp add: build_outgoing_def)
qed

lemma successors_ok:
  "outgoing_ok n E out \<Longrightarrow> E \<subseteq> {1..n} \<times> {1..n} \<Longrightarrow>
   set (successors out s) = E `` {s} \<and> distinct (successors out s)"
  by (auto simp: outgoing_ok_def successors_def)

section \<open>Reachability\<close>

lemma reach_loop_contains: "set reached \<union> set queue \<subseteq> set (reach_loop out queue reached)"
  by (induction out queue reached rule: reach_loop.induct) auto

lemma reach_loop_closed:
  "(\<And>x. x \<in> set reached \<Longrightarrow> set (successors out x) \<subseteq> set reached \<union> set queue) \<Longrightarrow>
   x \<in> set (reach_loop out queue reached) \<Longrightarrow>
   set (successors out x) \<subseteq> set (reach_loop out queue reached)"
proof (induction out queue reached rule: reach_loop.induct)
  case (2 out c queue reached)
  show ?case
  proof (cases "c \<in> set reached")
    case True
    have "set (successors out x) \<subseteq> set reached \<union> set queue" if "x \<in> set reached" for x
      using "2.prems"(1) [OF that] True by auto
    with 2 True show ?thesis by simp
  next
    case False
    have "set (successors out x) \<subseteq> set (js_add c reached) \<union> set (queue @ successors out c)"
      if "x \<in> set (js_add c reached)" for x
      using "2.prems"(1) [of x] that by auto
    with 2 False show ?thesis by simp
  qed
qed auto

lemma reach_loop_sound:
  "y \<in> set (reach_loop out queue reached) \<Longrightarrow>
   y \<in> set reached \<or> (\<exists>x \<in> set queue. (x, y) \<in> {(a, b). b \<in> set (successors out a)}\<^sup>*)"
proof (induction out queue reached rule: reach_loop.induct)
  case (2 out c queue reached)
  show ?case
  proof (cases "c \<in> set reached")
    case True
    with 2 show ?thesis by auto
  next
    case False
    with "2.IH"(2) "2.prems" consider "y \<in> set (js_add c reached)"
      | x where "x \<in> set queue" "(x, y) \<in> {(a, b). b \<in> set (successors out a)}\<^sup>*"
      | x where "x \<in> set (successors out c)" "(x, y) \<in> {(a, b). b \<in> set (successors out a)}\<^sup>*"
      by (auto simp del: set_js_add)
    then show ?thesis
    proof cases
      case 3
      then have "(c, y) \<in> {(a, b). b \<in> set (successors out a)}\<^sup>*"
        by (auto intro: converse_rtrancl_into_rtrancl)
      then show ?thesis by auto
    qed auto
  qed
qed auto

lemma reachability_closure:
  assumes "wf_edges n edges" and "a \<le> n"
  shows "set (buildReachability n edges ! a) = (edge_rel edges)\<^sup>+ `` {a}"
proof -
  let ?out = "build_outgoing n edges" and ?E = "edge_rel edges"
  let ?R = "reach_loop ?out (js_sort compareSlot (successors ?out a)) []"
  have succ: "set (successors ?out x) = ?E `` {x}" for x
    using successors_ok [OF build_outgoing_ok [OF assms(1)] wf_edge_rel [OF assms(1)]] by simp
  then have rel: "{(x, y). y \<in> set (successors ?out x)} = ?E" by auto
  have "y \<in> set ?R" if "(a, y) \<in> ?E\<^sup>+" for y
    using that
  proof induction
    case (base y)
    then show ?case using reach_loop_contains [of "[]" "js_sort compareSlot (successors ?out a)" ?out] succ
      by auto
  next
    case (step y z)
    then show ?case using reach_loop_closed [of "[]" ?out _ y] succ by fastforce
  qed
  moreover have "(a, y) \<in> ?E\<^sup>+" if "y \<in> set ?R" for y
    using reach_loop_sound [OF that] unfolding rel
    by (auto simp: succ intro: rtrancl_into_trancl2)
  ultimately have "set ?R = ?E\<^sup>+ `` {a}" by auto
  moreover have "buildReachability n edges ! a = ?R"
    using assms(2) unfolding buildReachability_def Let_def by (subst nth_map) (simp_all add: nth_append del: upt_Suc)
  ultimately show ?thesis by simp
qed

section \<open>In-degrees\<close>

definition degrees_ok :: "nat \<Rightarrow> (nat \<times> nat) set \<Rightarrow> nat set \<Rightarrow> int list \<Rightarrow> bool" where
  "degrees_ok n E done inc \<longleftrightarrow> length inc = n + 1 \<and>
     (\<forall>t \<in> {1..n}. inc ! t = int (card {s. (s, t) \<in> E \<and> s \<notin> done}))"

lemma degrees_zero:
  assumes "degrees_ok n E done inc" and "finite E" and "t \<in> {1..n}"
  shows "inc ! t = 0 \<longleftrightarrow> (\<forall>s. (s, t) \<in> E \<longrightarrow> s \<in> done)"
proof -
  have "finite {s. (s, t) \<in> E \<and> s \<notin> done}"
    by (rule finite_subset [of _ "fst ` E"]) (use assms(2) in \<open>auto intro: rev_image_eqI\<close>)
  with assms(1,3) show ?thesis by (auto simp: degrees_ok_def)
qed

lemma build_degrees_ok:
  "wf_edges n edges \<Longrightarrow> build_degrees n edges = (inc, out) \<Longrightarrow>
   degrees_ok n (edge_rel edges) {} inc \<and> outgoing_ok n (edge_rel edges) out"
proof (induction edges arbitrary: inc out rule: rev_induct)
  case Nil
  then show ?case
    by (auto simp: build_degrees_def degrees_ok_def outgoing_ok_def nth_Cons split: nat.splits)
next
  case (snoc e es)
  obtain inc0 out0 where b: "build_degrees n es = (inc0, out0)" by fastforce
  with snoc have ok: "degrees_ok n (edge_rel es) {} inc0" "outgoing_ok n (edge_rel es) out0"
    and r: "edge_from e \<in> {1..n}" "edge_to e \<in> {1..n}" by auto
  from snoc.prems(2) b have step: "count_edge e (inc0, out0) = (inc, out)"
    by (simp add: build_degrees_def)
  have mem: "edge_to e \<in> set (out0 ! edge_from e) \<longleftrightarrow> (edge_from e, edge_to e) \<in> edge_rel es"
    using ok(2) r by (auto simp: outgoing_ok_def)
  show ?case
  proof (cases "(edge_from e, edge_to e) \<in> edge_rel es")
    case True
    with step mem ok show ?thesis by (auto simp: count_edge_def insert_absorb)
  next
    case False
    with step mem have eq: "inc = inc0[edge_to e := inc0 ! edge_to e + 1]"
      "out = out0[edge_from e := js_add (edge_to e) (out0 ! edge_from e)]"
      by (auto simp: count_edge_def)
    have "inc ! t = int (card {s. (s, t) \<in> insert (edge_from e, edge_to e) (edge_rel es)})"
      if t: "t \<in> {1..n}" for t
    proof (cases "t = edge_to e")
      case True
      have "{s. (s, t) \<in> insert (edge_from e, edge_to e) (edge_rel es)}
          = insert (edge_from e) {s. (s, t) \<in> edge_rel es}" using True by auto
      moreover have "finite {s. (s, t) \<in> edge_rel es}"
        by (rule finite_subset [of _ "fst ` edge_rel es"]) (auto intro: rev_image_eqI)
      ultimately show ?thesis using ok(1) t True False eq by (simp add: degrees_ok_def)
    next
      case neq: False
      then have "{s. (s, t) \<in> insert (edge_from e, edge_to e) (edge_rel es)} = {s. (s, t) \<in> edge_rel es}"
        by auto
      with ok(1) t neq eq show ?thesis by (simp add: degrees_ok_def)
    qed
    with ok(1) eq have "degrees_ok n (edge_rel (es @ [e])) {} inc" by (simp add: degrees_ok_def)
    moreover have "outgoing_ok n (edge_rel (es @ [e])) out"
      using outgoing_add [OF ok(2)] r eq by simp
    ultimately show ?thesis ..
  qed
qed

text \<open>Resolving a slot lowers the in-degree of its successors by one.\<close>

lemma degrees_resolve:
  assumes ok: "degrees_ok n E done inc" and "finite E" and "x \<notin> done"
    and len: "length inc' = n + 1"
    and dec: "\<And>t. t \<in> {1..n} \<Longrightarrow> inc' ! t = inc ! t - (if (x, t) \<in> E then 1 else 0)"
  shows "degrees_ok n E (insert x done) inc'"
proof -
  have "inc' ! t = int (card {s. (s, t) \<in> E \<and> s \<notin> insert x done})" if t: "t \<in> {1..n}" for t
  proof -
    let ?P = "{s. (s, t) \<in> E \<and> s \<notin> done}"
    have fin: "finite ?P"
      by (rule finite_subset [of _ "fst ` E"]) (use assms(2) in \<open>auto intro: rev_image_eqI\<close>)
    have eq: "{s. (s, t) \<in> E \<and> s \<notin> insert x done} = ?P - {x}" by auto
    show ?thesis
    proof (cases "(x, t) \<in> E")
      case True
      with assms(3) have "x \<in> ?P" by simp
      then have "card ?P = Suc (card (?P - {x}))" using fin by (intro card.remove)
      moreover have "inc ! t = int (card ?P)" using ok t by (simp add: degrees_ok_def)
      ultimately show ?thesis unfolding eq using True dec [OF t] by simp
    next
      case False
      then have "?P - {x} = ?P" by auto
      moreover have "inc ! t = int (card ?P)" using ok t by (simp add: degrees_ok_def)
      ultimately show ?thesis unfolding eq using False dec [OF t] by simp
    qed
  qed
  with len show ?thesis by (simp add: degrees_ok_def)
qed

lemma release_spec:
  "distinct ds \<Longrightarrow> set ds \<subseteq> {..<length inc} \<Longrightarrow>
   snd (release ds (inc, ready)) = ready @ filter (\<lambda>d. inc ! d = 1) ds \<and>
   length (fst (release ds (inc, ready))) = length inc \<and>
   (\<forall>t < length inc. fst (release ds (inc, ready)) ! t = inc ! t - (if t \<in> set ds then 1 else 0))"
proof (induction ds arbitrary: inc ready)
  case (Cons d ds)
  let ?inc = "inc[d := inc ! d - 1]"
  have "filter (\<lambda>e. ?inc ! e = 1) ds = filter (\<lambda>e. inc ! e = 1) ds"
    using Cons.prems by (intro filter_cong) (auto simp: nth_list_update)
  then have filt: "filter (\<lambda>e. ?inc ! e = 1) ds = filter (\<lambda>e. inc ! e = 1) ds" .
  have nth: "?inc ! t - (if t \<in> set ds then 1 else 0) = inc ! t - (if t \<in> set (d # ds) then 1 else 0)"
    if "t < length inc" for t
    using that Cons.prems by (cases "t = d") auto
  have rel: "release (d # ds) (inc, ready) = release ds (?inc, if inc ! d = 1 then ready @ [d] else ready)"
    using Cons.prems by simp
  have "distinct ds" "set ds \<subseteq> {..<length ?inc}" using Cons.prems by auto
  from Cons.IH [OF this, of "if inc ! d = 1 then ready @ [d] else ready"] show ?case
    unfolding rel filt using nth by simp
qed simp

lemma foldl_decrement_spec:
  "distinct ds \<Longrightarrow> length (foldl decrement inc ds) = length inc \<and>
   (\<forall>t < length inc. foldl decrement inc ds ! t = inc ! t - (if t \<in> set ds then 1 else 0))"
proof (induction ds arbitrary: inc)
  case (Cons d ds)
  have "length (decrement inc d) = length inc" by (simp add: decrement_def)
  moreover have "\<forall>t < length inc. decrement inc d ! t = inc ! t - (if t = d then 1 else 0)"
    by (auto simp: decrement_def nth_list_update)
  ultimately show ?case using Cons.IH [of "decrement inc d"] Cons.prems by auto
qed simp

lemma resolve_level_ok:
  assumes "outgoing_ok n E out" and "E \<subseteq> {1..n} \<times> {1..n}"
  shows "distinct ready \<Longrightarrow> set ready \<inter> done = {} \<Longrightarrow> degrees_ok n E done inc \<Longrightarrow>
    degrees_ok n E (done \<union> set ready) (resolve_level out ready inc)"
proof (induction ready arbitrary: inc "done")
  case Nil
  then show ?case by (simp add: resolve_level_def)
next
  case (Cons x ready)
  have fin: "finite E" by (rule finite_subset [OF assms(2)]) simp
  let ?inc = "foldl decrement inc (successors out x)"
  have succ: "set (successors out x) = E `` {x}" "distinct (successors out x)"
    using successors_ok [OF assms] by auto
  have len: "length inc = n + 1" using Cons.prems(3) by (simp add: degrees_ok_def)
  have "degrees_ok n E (insert x done) ?inc"
    by (rule degrees_resolve [OF Cons.prems(3) fin])
      (use foldl_decrement_spec [OF succ(2), of inc] len Cons.prems(2) succ(1) in auto)
  with Cons.IH [of "insert x done" ?inc] Cons.prems show ?case
    by (auto simp: resolve_level_def Un_insert_left Un_insert_right)
qed

section \<open>The topological order\<close>

text \<open>Every predecessor of an entry stands before it.\<close>

definition topological :: "(nat \<times> nat) set \<Rightarrow> nat list \<Rightarrow> bool" where
  "topological E order \<longleftrightarrow> (\<forall>i < length order. \<forall>s. (s, order ! i) \<in> E \<longrightarrow> s \<in> set (take i order))"

lemma topological_Nil [simp]: "topological E []"
  by (simp add: topological_def)

lemma topological_snoc:
  "topological E order \<Longrightarrow> (\<And>s. (s, x) \<in> E \<Longrightarrow> s \<in> set order) \<Longrightarrow> topological E (order @ [x])"
  by (auto simp: topological_def nth_append less_Suc_eq)

lemma topological_index:
  assumes "topological E order" and "distinct order" and "j < length order" and "(order ! i, order ! j) \<in> E"
    and "i < length order"
  shows "i < j"
proof -
  from assms(1,3,4) have "order ! i \<in> set (take j order)" by (auto simp: topological_def)
  then obtain k where "k < j" "order ! k = order ! i" using assms(3) by (auto simp: in_set_conv_nth)
  with assms show ?thesis by (auto simp: nth_eq_iff_index_eq)
qed

definition topo_inv ::
    "nat \<Rightarrow> (nat \<times> nat) set \<Rightarrow> int list \<Rightarrow> nat list \<Rightarrow> nat list \<Rightarrow> bool" where
  "topo_inv n E inc ready order \<longleftrightarrow>
     degrees_ok n E (set order) inc \<and> distinct order \<and> set order \<subseteq> {1..n} \<and> topological E order \<and>
     distinct ready \<and> set ready = {t \<in> {1..n}. t \<notin> set order \<and> inc ! t = 0}"

lemma topo_inv_step:
  assumes inv: "topo_inv n E inc ready order" and out: "outgoing_ok n E out"
    and E: "E \<subseteq> {1..n} \<times> {1..n}"
    and sort: "js_sort compareSlot ready = slot # rest"
    and rel: "release (js_sort compareSlot (successors out slot)) (inc, rest) = (inc', ready')"
  shows "topo_inv n E inc' ready' (order @ [slot])"
proof -
  have fin: "finite E" by (rule finite_subset [OF E]) simp
  let ?ds = "js_sort compareSlot (successors out slot)"
  have ds: "set ?ds = E `` {slot}" "distinct ?ds" using successors_ok [OF out E] by auto
  have len: "length inc = n + 1" using inv by (simp add: topo_inv_def degrees_ok_def)
  have ready: "set ready = insert slot (set rest)" "distinct (slot # rest)"
    using sort inv by (metis set_js_sort list.simps(15)) (metis sort distinct_js_sort inv topo_inv_def)
  then have slot: "slot \<in> {1..n}" "slot \<notin> set order" "inc ! slot = 0"
    using inv by (auto simp: topo_inv_def)
  have "set ?ds \<subseteq> {..<length inc}" using ds(1) E len by auto
  from release_spec [OF ds(2) this, of rest]
  have ready': "ready' = rest @ filter (\<lambda>d. inc ! d = 1) ?ds" and len': "length inc' = n + 1"
    and dec: "\<forall>t < length inc. inc' ! t = inc ! t - (if (slot, t) \<in> E then 1 else 0)"
    unfolding rel ds(1) len by auto
  have deg: "degrees_ok n E (set (order @ [slot])) inc'"
    using degrees_resolve [of n E "set order" inc slot inc'] inv fin slot(2) len' dec len
    by (simp add: topo_inv_def)
  have preds: "(s, slot) \<in> E \<Longrightarrow> s \<in> set order" for s
    using degrees_zero [of n E "set order" inc slot] inv fin slot by (auto simp: topo_inv_def)
  have nonneg: "inc ! t \<ge> 0" if "t \<in> {1..n}" for t using inv that by (simp add: topo_inv_def degrees_ok_def)
  have self: "(slot, slot) \<notin> E" using preds slot(2) by blast
  have "set ready' = {t \<in> {1..n}. t \<notin> set (order @ [slot]) \<and> inc' ! t = 0}"
  proof (intro equalityI subsetI)
    fix t assume "t \<in> set ready'"
    then consider "t \<in> set rest" | "(slot, t) \<in> E" "inc ! t = 1" unfolding ready' using ds by auto
    then show "t \<in> {t \<in> {1..n}. t \<notin> set (order @ [slot]) \<and> inc' ! t = 0}"
    proof cases
      case 1
      with ready have "t \<in> set ready" "t \<noteq> slot" by auto
      then have t: "t \<in> {1..n}" "t \<notin> set order" "inc ! t = 0" using inv by (auto simp: topo_inv_def)
      have "(slot, t) \<notin> E"
        using degrees_zero [of n E "set order" inc t] inv fin t slot(2) by (auto simp: topo_inv_def)
      with t \<open>t \<noteq> slot\<close> dec len show ?thesis by auto
    next
      case 2
      with E have t: "t \<in> {1..n}" by auto
      have "t \<notin> set order"
      proof
        assume "t \<in> set order"
        then obtain i where i: "i < length order" "order ! i = t" by (auto simp: in_set_conv_nth)
        with inv 2 have "slot \<in> set (take i order)" by (auto simp: topo_inv_def topological_def)
        with slot(2) show False by (meson in_set_takeD)
      qed
      with t 2 dec len self show ?thesis by (cases "t = slot") auto
    qed
  next
    fix t assume "t \<in> {t \<in> {1..n}. t \<notin> set (order @ [slot]) \<and> inc' ! t = 0}"
    then have t: "t \<in> {1..n}" "t \<notin> set order" "t \<noteq> slot" "inc' ! t = 0" by auto
    have t': "inc' ! t = inc ! t - (if (slot, t) \<in> E then 1 else 0)" using dec len t(1) by auto
    show "t \<in> set ready'"
    proof (cases "(slot, t) \<in> E")
      case True
      with t t' ds show ?thesis unfolding ready' by simp
    next
      case False
      with t t' have "t \<in> set ready" using inv by (simp add: topo_inv_def)
      with ready t show ?thesis unfolding ready' by auto
    qed
  qed
  moreover have "distinct ready'"
  proof -
    have "set rest \<inter> {d \<in> set ?ds. inc ! d = 1} = {}"
      using ready inv by (auto simp: topo_inv_def)
    with ready ds show ?thesis unfolding ready' by auto
  qed
  moreover have "topological E (order @ [slot])"
    using inv preds by (intro topological_snoc) (auto simp: topo_inv_def)
  ultimately show ?thesis using deg inv slot by (auto simp: topo_inv_def)
qed

lemma topo_loop_inv:
  "topo_inv n E inc ready order \<Longrightarrow> outgoing_ok n E out \<Longrightarrow> E \<subseteq> {1..n} \<times> {1..n} \<Longrightarrow>
   \<exists>inc'. topo_inv n E inc' [] (topo_loop out inc ready order)"
proof (induction out inc ready order rule: topo_loop.induct)
  case (1 out inc ready order)
  show ?case
  proof (cases "js_sort compareSlot ready")
    case Nil
    with 1 show ?thesis by (auto simp: topo_loop.simps)
  next
    case (Cons slot rest)
    obtain inc' ready' where rel:
      "release (js_sort compareSlot (successors out slot)) (inc, rest) = (inc', ready')" by fastforce
    from topo_inv_step [OF "1.prems" Cons rel] "1.IH" [OF Cons rel [symmetric] refl] "1.prems" Cons rel
    show ?thesis by (simp add: topo_loop.simps [of out inc ready])
  qed
qed

lemma topologicalOrder_inv:
  assumes "wf_edges n edges" and "topologicalOrder n edges = (order, cycle)"
  shows "distinct order \<and> topological (edge_rel edges) order \<and>
    set order \<union> set cycle = {1..n} \<and> set order \<inter> set cycle = {} \<and> sorted cycle \<and> distinct cycle \<and>
    (\<forall>t \<in> set cycle. \<exists>s \<in> set cycle. (s, t) \<in> edge_rel edges)"
proof -
  let ?E = "edge_rel edges"
  note E = wf_edge_rel [OF assms(1)]
  obtain inc out where b: "build_degrees n edges = (inc, out)" by fastforce
  from build_degrees_ok [OF assms(1) b] have ok: "degrees_ok n ?E {} inc" "outgoing_ok n ?E out" by auto
  have "topo_inv n ?E inc (initially_ready n inc) []"
    using ok(1) by (auto simp: topo_inv_def initially_ready_def)
  from topo_loop_inv [OF this ok(2) E] obtain inc' where
    inv: "topo_inv n ?E inc' [] order"
    using assms(2) b by (auto simp: topologicalOrder_def Let_def)
  have cyc: "cycle = filter (\<lambda>slot. slot \<notin> set order) [1..<n + 1]"
    using assms(2) b by (auto simp: topologicalOrder_def Let_def)
  have "\<exists>s \<in> set cycle. (s, t) \<in> ?E" if "t \<in> set cycle" for t
  proof -
    from that cyc have t: "t \<in> {1..n}" "t \<notin> set order" by auto
    with inv have "inc' ! t \<noteq> 0" by (auto simp: topo_inv_def)
    with degrees_zero [of n ?E "set order" inc' t] inv t obtain s where "(s, t) \<in> ?E" "s \<notin> set order"
      by (auto simp: topo_inv_def)
    with E cyc show ?thesis by (intro bexI [of _ s]) auto
  qed
  moreover have "sorted cycle" "distinct cycle" "set cycle = {1..n} - set order"
    unfolding cyc by (auto simp: sorted_wrt_filter simp del: upt_Suc)
  ultimately show ?thesis using inv by (auto simp: topo_inv_def)
qed

lemma topological_acyclic:
  assumes "topological E order" and "distinct order" and "E \<subseteq> set order \<times> set order"
  shows "acyclic E"
proof -
  define rk where "rk x = (THE i. i < length order \<and> order ! i = x)" for x
  have rk: "rk (order ! i) = i" if "i < length order" for i
    unfolding rk_def using that assms(2) by (intro the_equality) (auto simp: nth_eq_iff_index_eq)
  have "E \<subseteq> measure rk"
  proof (rule subrelI)
    fix a b assume e: "(a, b) \<in> E"
    with assms(3) obtain i j where "i < length order" "order ! i = a" "j < length order" "order ! j = b"
      by (force simp: in_set_conv_nth)
    with topological_index [OF assms(1,2), of j i] e rk show "(a, b) \<in> measure rk" by auto
  qed
  then show ?thesis by (meson wf_acyclic wf_measure wf_subset)
qed

lemma topologicalOrder_acyclic:
  assumes "wf_edges n edges" and "topologicalOrder n edges = (order, cycle)"
  shows "cycle = [] \<longleftrightarrow> acyclic (edge_rel edges)"
proof
  note inv = topologicalOrder_inv [OF assms]
  show "acyclic (edge_rel edges)" if "cycle = []"
    using topological_acyclic [of "edge_rel edges" order] inv that wf_edge_rel [OF assms(1)] by simp
  show "cycle = []" if "acyclic (edge_rel edges)"
  proof (rule ccontr)
    assume "cycle \<noteq> []"
    then obtain c where "c \<in> set cycle" by (cases cycle) auto
    moreover have "wf (edge_rel edges)" using that by (simp add: finite_acyclic_wf)
    ultimately obtain z where "z \<in> set cycle" "\<forall>y. (y, z) \<in> edge_rel edges \<longrightarrow> y \<notin> set cycle"
      by (metis wfE_min)
    with inv show False by blast
  qed
qed

section \<open>The waves\<close>

lemma concat_cut_waves: "0 < k \<Longrightarrow> concat (cut_waves k ready) = ready"
  by (induction k ready rule: cut_waves.induct) (subst cut_waves.simps, auto)

lemma cut_waves_size: "w \<in> set (cut_waves k ready) \<Longrightarrow> w \<noteq> [] \<and> length w \<le> k"
  by (induction k ready rule: cut_waves.induct) (subst (asm) (2) cut_waves.simps, auto split: if_splits)

text \<open>Every predecessor of a slot runs in an earlier wave.\<close>

definition layered :: "(nat \<times> nat) set \<Rightarrow> nat list list \<Rightarrow> bool" where
  "layered E ws \<longleftrightarrow> (\<forall>i < length ws. \<forall>t \<in> set (ws ! i). \<forall>s. (s, t) \<in> E \<longrightarrow> s \<in> set (concat (take i ws)))"

lemma layered_append:
  assumes "layered E ws" and "\<And>v t s. v \<in> set vs \<Longrightarrow> t \<in> set v \<Longrightarrow> (s, t) \<in> E \<Longrightarrow> s \<in> set (concat ws)"
  shows "layered E (ws @ vs)"
  unfolding layered_def
proof (intro allI impI ballI)
  fix i t s assume i: "i < length (ws @ vs)" and t: "t \<in> set ((ws @ vs) ! i)" and e: "(s, t) \<in> E"
  show "s \<in> set (concat (take i (ws @ vs)))"
  proof (cases "i < length ws")
    case True
    with assms(1) t e show ?thesis by (auto simp: layered_def nth_append)
  next
    case False
    with i t have "(ws @ vs) ! i \<in> set vs" by (auto simp: nth_append)
    with assms(2) t e have "s \<in> set (concat ws)" by blast
    with False show ?thesis by simp
  qed
qed

definition wave_inv ::
    "nat \<Rightarrow> nat \<Rightarrow> (nat \<times> nat) set \<Rightarrow> int list \<Rightarrow> nat list \<Rightarrow> nat list list \<Rightarrow> bool" where
  "wave_inv n k E inc resolved ws \<longleftrightarrow>
     degrees_ok n E (set resolved) inc \<and> distinct resolved \<and> set resolved \<subseteq> {1..n} \<and>
     concat ws = resolved \<and> (\<forall>w \<in> set ws. w \<noteq> [] \<and> length w \<le> k) \<and> layered E ws"

lemma wave_loop_inv:
  assumes out: "outgoing_ok n E out" and E: "E \<subseteq> {1..n} \<times> {1..n}" and "0 < k"
  shows "wave_inv n k E inc resolved ws \<Longrightarrow>
    \<exists>inc' resolved'. wave_inv n k E inc' resolved' (wave_loop n k out inc resolved ws) \<and>
      (\<forall>t \<in> {1..n} - set resolved'. \<exists>s \<in> {1..n} - set resolved'. (s, t) \<in> E)"
proof (induction "n - length resolved" arbitrary: inc resolved ws rule: less_induct)
  case less
  have fin: "finite E" by (rule finite_subset [OF E]) simp
  let ?ready = "filter (\<lambda>s. s \<notin> set resolved \<and> inc ! s = 0) [1..<n + 1]"
  have inv: "degrees_ok n E (set resolved) inc" "distinct resolved" "set resolved \<subseteq> {1..n}"
    "concat ws = resolved" "layered E ws" "\<forall>w \<in> set ws. w \<noteq> [] \<and> length w \<le> k"
    using less.prems by (auto simp: wave_inv_def)
  show ?case
  proof (cases "length resolved < n")
    case False
    have "card (set resolved) = length resolved" using inv(2) by (rule distinct_card)
    with False have "set resolved = {1..n}"
      by (intro card_subset_eq inv(3)) (use card_mono [OF _ inv(3)] in auto)
    with False less.prems show ?thesis
      by (subst wave_loop.simps) (auto intro!: exI [of _ inc] exI [of _ resolved])
  next
    case small: True
    show ?thesis
    proof (cases "?ready = []")
      case True
      have "\<exists>s \<in> {1..n} - set resolved. (s, t) \<in> E" if t: "t \<in> {1..n} - set resolved" for t
      proof -
        have "t \<in> set [1..<n + 1]" using t by auto
        with True t have "inc ! t \<noteq> 0" unfolding filter_empty_conv by blast
        with degrees_zero [OF inv(1) fin, of t] t E show ?thesis by auto
      qed
      with small True less.prems show ?thesis
        by (subst wave_loop.simps) (auto intro!: exI [of _ inc] exI [of _ resolved])
    next
      case False
      have disj: "distinct ?ready" "set ?ready \<inter> set resolved = {}" "set ?ready \<subseteq> {1..n}" by auto
      have preds: "s \<in> set resolved" if "t \<in> set ?ready" "(s, t) \<in> E" for s t
        using degrees_zero [OF inv(1) fin, of t] that by auto
      have "layered E (ws @ cut_waves k ?ready)"
      proof (rule layered_append [OF inv(5)])
        fix v t s assume v: "v \<in> set (cut_waves k ?ready)" and t: "t \<in> set v" "(s, t) \<in> E"
        from v t(1) have "t \<in> set (concat (cut_waves k ?ready))" by auto
        then have "t \<in> set ?ready" by (simp only: concat_cut_waves [OF \<open>0 < k\<close>])
        then have "s \<in> set resolved" using t(2) by (rule preds)
        with inv(4) show "s \<in> set (concat ws)" by (simp only:)
      qed
      moreover have "\<forall>w \<in> set (ws @ cut_waves k ?ready). w \<noteq> [] \<and> length w \<le> k"
        using inv(6) cut_waves_size by auto
      moreover have "degrees_ok n E (set (resolved @ ?ready)) (resolve_level out ?ready inc)"
        using resolve_level_ok [OF out E disj(1,2) inv(1)] by simp
      ultimately have "wave_inv n k E (resolve_level out ?ready inc) (resolved @ ?ready) (ws @ cut_waves k ?ready)"
        unfolding wave_inv_def using inv(2,3,4) disj concat_cut_waves [OF \<open>0 < k\<close>, of ?ready] by auto
      moreover have "n - length (resolved @ ?ready) < n - length resolved"
        using False small by (cases ?ready) auto
      ultimately have "\<exists>inc' resolved'. wave_inv n k E inc' resolved'
          (wave_loop n k out (resolve_level out ?ready inc) (resolved @ ?ready) (ws @ cut_waves k ?ready)) \<and>
        (\<forall>t \<in> {1..n} - set resolved'. \<exists>s \<in> {1..n} - set resolved'. (s, t) \<in> E)"
        by (intro less.hyps)
      with small False show ?thesis
        by (subst wave_loop.simps) (simp add: Let_def del: upt_Suc)
    qed
  qed
qed

lemma buildWaves_inv:
  assumes "wf_edges n edges" and "0 < k"
  shows "\<exists>resolved. concat (map wave_slots (buildWaves n edges k)) = resolved \<and> distinct resolved \<and>
    set resolved \<subseteq> {1..n} \<and> (\<forall>w \<in> set (buildWaves n edges k). wave_slots w \<noteq> [] \<and> length (wave_slots w) \<le> k) \<and>
    layered (edge_rel edges) (map wave_slots (buildWaves n edges k)) \<and>
    map wave (buildWaves n edges k) = [1..<length (buildWaves n edges k) + 1] \<and>
    (acyclic (edge_rel edges) \<longrightarrow> set resolved = {1..n})"
proof -
  let ?E = "edge_rel edges"
  note E = wf_edge_rel [OF assms(1)]
  obtain inc out where b: "build_degrees n edges = (inc, out)" by fastforce
  from build_degrees_ok [OF assms(1) b] have ok: "degrees_ok n ?E {} inc" "outgoing_ok n ?E out" by auto
  have "wave_inv n k ?E inc [] []" using ok(1) by (simp add: wave_inv_def layered_def)
  from wave_loop_inv [OF ok(2) E assms(2) this] obtain inc' resolved where
    inv: "wave_inv n k ?E inc' resolved (wave_loop n k out inc [] [])"
    and stuck: "\<And>t. t \<in> {1..n} - set resolved \<Longrightarrow> \<exists>s \<in> {1..n} - set resolved. (s, t) \<in> ?E" by blast
  define ws where "ws = wave_loop n k out inc [] []"
  have bw: "buildWaves n edges k = map (\<lambda>(i, slots). \<lparr>wave = i + 1, wave_slots = slots\<rparr>) (enumerate 0 ws)"
    using b by (simp add: buildWaves_def ws_def)
  have slots: "map wave_slots (buildWaves n edges k) = ws"
    unfolding bw by (simp add: comp_def case_prod_beta del: enumerate_simps)
  have num: "map wave (buildWaves n edges k) = [1..<length ws + 1]"
    unfolding bw by (rule nth_equalityI) (simp_all add: nth_enumerate_eq del: upt_Suc)
  have "set resolved = {1..n}" if "acyclic ?E"
  proof (rule ccontr)
    assume "set resolved \<noteq> {1..n}"
    moreover have "set resolved \<subseteq> {1..n}" using inv by (simp add: wave_inv_def)
    ultimately obtain t where "t \<in> {1..n} - set resolved" by blast
    moreover have "wf ?E" using that by (simp add: finite_acyclic_wf)
    ultimately obtain z where "z \<in> {1..n} - set resolved" "\<forall>y. (y, z) \<in> ?E \<longrightarrow> y \<notin> {1..n} - set resolved"
      by (metis wfE_min)
    with stuck show False by blast
  qed
  moreover have "\<forall>w \<in> set (buildWaves n edges k). wave_slots w \<in> set ws" using slots by (metis imageI set_map)
  moreover have "length (buildWaves n edges k) = length ws" using slots by (metis length_map)
  ultimately show ?thesis using inv unfolding ws_def [symmetric] slots
    by (intro exI [of _ resolved]) (auto simp: wave_inv_def num simp del: upt_Suc)
qed

end
