(* ===== verification/Topology_Correct.thy ===== *)
theory Topology_Correct
  imports Topology_Graph
begin

text \<open>
  Correctness of \<open>deriveExecutionTopology\<close> and of the portable path normalisation.
\<close>

section \<open>Portable paths\<close>

definition plain_segment :: "string \<Rightarrow> bool" where
  "plain_segment s \<longleftrightarrow> s \<noteq> [] \<and> s \<noteq> ''.'' \<and> s \<noteq> ''..'' \<and> CHR 0x00 \<notin> set s \<and> CHR '':'' \<notin> set s"

lemma list_all_butlast: "list_all P xs \<Longrightarrow> list_all P (butlast xs)"
  by (auto simp: list_all_iff dest: in_set_butlastD)

lemma resolve_segments_plain:
  "resolve_segments segs input = Some out \<Longrightarrow> list_all plain_segment segs \<Longrightarrow> list_all plain_segment out"
proof (induction segs input rule: resolve_segments.induct)
  case (2 segs seg rest)
  have "list_all plain_segment (butlast segs)" using "2.prems"(2) by (rule list_all_butlast)
  moreover have "plain_segment seg" if "seg \<noteq> []" "seg \<noteq> ''.''" "seg \<noteq> ''..''"
      "CHR 0x00 \<notin> set seg" "CHR '':'' \<notin> set seg"
    using that by (simp add: plain_segment_def)
  ultimately show ?case using 2 by (simp split: if_splits)
qed simp

lemma resolve_segments_subset:
  "resolve_segments segs input = Some out \<Longrightarrow> set out \<subseteq> set segs \<union> set input"
  by (induction segs input rule: resolve_segments.induct)
    (fastforce split: if_splits dest: in_set_butlastD)+

lemma resolve_segments_id:
  "list_all plain_segment input \<Longrightarrow> resolve_segments segs input = Some (segs @ input)"
  by (induction input arbitrary: segs) (auto simp: plain_segment_def)

lemma normalize_segments:
  assumes "normalizePortableWriterPath raw = Some (path, key)"
  obtains segs where "segs \<noteq> []" "list_all plain_segment segs" "path = js_join ''/'' segs"
    "js_split (CHR ''/'') path = segs" "CHR 0x5C \<notin> set path" "CHR '':'' \<notin> set path" "key = js_lower path"
proof -
  let ?in = "js_replace_char (CHR 0x5C) (CHR ''/'') (js_trim raw)"
  from assms obtain segs where r: "resolve_segments [] (js_split (CHR ''/'') ?in) = Some segs"
    and ne: "segs \<noteq> []" and path: "path = js_join ''/'' segs" and key: "key = js_lower path"
    by (auto simp: normalizePortableWriterPath_def Let_def split: if_splits option.splits)
  from resolve_segments_plain [OF r] have plain: "list_all plain_segment segs" by simp
  from resolve_segments_subset [OF r] have sub: "set segs \<subseteq> set (js_split (CHR ''/'') ?in)" by simp
  have "CHR 0x5C \<notin> set ?in" by (rule js_replace_char_notin) simp
  then have "CHR 0x5C \<notin> set s" if "s \<in> set segs" for s using sub that set_js_split by blast
  moreover have "CHR '':'' \<notin> set s" if "s \<in> set segs" for s
    using plain that by (auto simp: list_all_iff plain_segment_def)
  ultimately have "CHR 0x5C \<notin> set path \<and> CHR '':'' \<notin> set path"
    using set_js_join [of "''/''" segs] unfolding path by auto
  moreover have "js_split (CHR ''/'') path = segs"
    unfolding path using sub js_split_no_sep by (intro js_split_join ne) blast
  ultimately show ?thesis using that ne plain path key by blast
qed

text \<open>
  A portable writer path stays inside the project: an accepted path is relative, uses no
  backslash, drive or colon, and none of its segments is empty, \<open>.\<close> or \<open>..\<close>; its collision
  key is its lower-case form.
\<close>

theorem normalize_inside_project:
  assumes "normalizePortableWriterPath raw = Some (path, key)"
  shows "path \<noteq> [] \<and> hd path \<noteq> CHR ''/'' \<and> CHR 0x5C \<notin> set path \<and> CHR '':'' \<notin> set path \<and>
    (\<forall>s \<in> set (js_split (CHR ''/'') path). s \<noteq> [] \<and> s \<noteq> ''.'' \<and> s \<noteq> ''..'') \<and> key = js_lower path"
proof -
  obtain segs where segs: "segs \<noteq> []" "list_all plain_segment segs" "path = js_join ''/'' segs"
    "js_split (CHR ''/'') path = segs" "CHR 0x5C \<notin> set path" "CHR '':'' \<notin> set path" "key = js_lower path"
    using normalize_segments [OF assms] .
  have ne: "[] \<notin> set segs" using segs(2) by (auto simp: list_all_iff plain_segment_def)
  with segs(1,3) have "path \<noteq> []" by (simp add: js_join_Nil_iff)
  moreover have "hd path \<noteq> CHR ''/''"
  proof
    assume "hd path = CHR ''/''"
    then have "js_split (CHR ''/'') path = [] # js_split (CHR ''/'') (tl path)"
      using \<open>path \<noteq> []\<close> by (cases path) auto
    with segs(4) ne show False by (metis list.set_intros(1))
  qed
  ultimately show ?thesis using segs by (auto simp: list_all_iff plain_segment_def)
qed

theorem normalize_inside_project_witness:
  "normalizePortableWriterPath '' Src/./a/../B.ts '' = Some (''Src/B.ts'', ''src/b.ts'') \<and>
   hd ''Src/B.ts'' \<noteq> CHR ''/''"
proof -
  have n: "normalizePortableWriterPath '' Src/./a/../B.ts '' = Some (''Src/B.ts'', ''src/b.ts'')" by code_simp
  with normalize_inside_project [OF n] show ?thesis by blast
qed

text \<open>
  Normalisation is idempotent on every accepted path that neither starts nor ends with
  white space, so a path stored in a collision record normalises to itself and keeps its key.
\<close>

theorem normalize_idempotent:
  assumes "normalizePortableWriterPath raw = Some (path, key)" and "js_trim path = path"
  shows "normalizePortableWriterPath path = Some (path, key)"
proof -
  obtain segs where segs: "segs \<noteq> []" "list_all plain_segment segs" "path = js_join ''/'' segs"
    "js_split (CHR ''/'') path = segs" "CHR 0x5C \<notin> set path" "CHR '':'' \<notin> set path" "key = js_lower path"
    using normalize_segments [OF assms(1)] .
  have start: "path \<noteq> []" "hd path \<noteq> CHR ''/''" using normalize_inside_project [OF assms(1)] by auto
  have "\<not> drive_prefix path" using segs(6) by (cases path rule: drive_prefix.cases) auto
  moreover have "\<not> js_starts_with path ''/''" "\<not> js_starts_with path ''//''"
    using start by (cases path; simp add: js_starts_with_def)+
  ultimately show ?thesis
    using assms(2) start(1) segs resolve_segments_id [OF segs(2), of "[]"]
    by (simp add: normalizePortableWriterPath_def Let_def js_replace_char_id)
qed

theorem normalize_idempotent_witness:
  "normalizePortableWriterPath ''src/B.ts'' = Some (''src/B.ts'', ''src/b.ts'')"
proof -
  have "normalizePortableWriterPath ''src/x/../B.ts'' = Some (''src/B.ts'', ''src/b.ts'')" by code_simp
  moreover have "js_trim ''src/B.ts'' = ''src/B.ts''" by code_simp
  ultimately show ?thesis by (rule normalize_idempotent)
qed

section \<open>Dependency slots\<close>

lemma map_of_add_slot:
  "map_of (add_slot key slot m) k = (if k = key then Some (text_slots (map_of m key) @ [slot]) else map_of m k)"
  if "text_slots = (\<lambda>x. case x of None \<Rightarrow> [] | Some slots \<Rightarrow> slots)"
  using that by (simp add: add_slot_def update_conv')

lemma slots_by_fold:
  "map_of (foldl (\<lambda>m (i, t). add_slot (key t) (i + 1) m) m xs) k =
     (let l = (case map_of m k of None \<Rightarrow> [] | Some s \<Rightarrow> s) @
              map (\<lambda>(i, t). i + 1) (filter (\<lambda>(i, t). key t = k) xs)
      in if map_of m k = None \<and> l = [] then None else Some l)"
proof (induction xs arbitrary: m)
  case (Cons x xs)
  obtain i t where x: "x = (i, t)" by (cases x)
  show ?case
    unfolding foldl_Cons x prod.case Cons.IH
    by (cases "key t = k"; cases "map_of m k") (auto simp: map_of_add_slot Let_def)
qed (auto split: option.splits)

text \<open>The slots of the tasks with a given id or title.\<close>

definition slots_with :: "(task \<Rightarrow> string) \<Rightarrow> string \<Rightarrow> task list \<Rightarrow> nat list" where
  "slots_with key k tasks = map (\<lambda>(i, t). i + 1) (filter (\<lambda>(i, t). key t = k) (enumerate 0 tasks))"

lemma slots_by_lookup:
  "map_of (slots_by key tasks) k = (if slots_with key k tasks = [] then None else Some (slots_with key k tasks))"
  unfolding slots_by_def slots_with_def slots_by_fold by (simp add: Let_def)

lemma in_slots_with:
  "s \<in> set (slots_with key k tasks) \<longleftrightarrow> s \<in> {1..length tasks} \<and> key (tasks ! (s - 1)) = k"
proof -
  have "s \<in> set (slots_with key k tasks) \<longleftrightarrow> (\<exists>i < length tasks. s = i + 1 \<and> key (tasks ! i) = k)"
    by (force simp: slots_with_def in_set_enumerate_eq)
  also have "\<dots> \<longleftrightarrow> s \<in> {1..length tasks} \<and> key (tasks ! (s - 1)) = k"
    by (cases s) auto
  finally show ?thesis .
qed

text \<open>What a reference means: the unique task with this id, else the unique one with this title.\<close>

definition ref_slot :: "task list \<Rightarrow> string \<Rightarrow> nat option" where
  "ref_slot tasks ref = resolve_ref (slots_by task_id tasks) (slots_by task_title tasks) ref"

lemma unique_slot_Some: "unique_slot x = Some s \<longleftrightarrow> x = Some [s]"
  by (auto simp: unique_slot_def split: option.splits list.splits)

lemma ref_slot_range:
  assumes "ref_slot tasks ref = Some s"
  shows "s \<in> {1..length tasks} \<and> (task_id (tasks ! (s - 1)) = ref \<or> task_title (tasks ! (s - 1)) = ref)"
proof -
  from assms have "slots_with task_id ref tasks = [s] \<or> slots_with task_title ref tasks = [s]"
    by (auto simp: ref_slot_def resolve_ref_def unique_slot_Some slots_by_lookup split: option.splits if_splits)
  with in_slots_with [of s task_id ref tasks] in_slots_with [of s task_title ref tasks] show ?thesis by auto
qed

lemma resolve_dependency_fold:
  assumes "acc' = foldl (\<lambda>acc r. resolve_dependency lookup target r acc) acc refs"
  shows "edge_rel (snd acc') = edge_rel (snd acc) \<union>
      {(a, b). b = target \<and> a \<noteq> b \<and> (\<exists>r \<in> set refs. lookup (js_trim r) = Some a)} \<and>
    (fst acc' = [] \<longleftrightarrow> fst acc = [] \<and> (\<forall>r \<in> set refs. \<exists>a. lookup (js_trim r) = Some a \<and> a \<noteq> target)) \<and>
    (\<forall>e \<in> set (snd acc'). e \<in> set (snd acc) \<or> edge_source e = Authored)"
  using assms
proof (induction refs arbitrary: acc)
  case (Cons r refs)
  obtain fs es where acc: "acc = (fs, es)" by (cases acc)
  define acc1 where "acc1 = resolve_dependency lookup target r acc"
  have mem: "edgeKey a b \<in> set (map (\<lambda>e. edgeKey (edge_from e) (edge_to e)) es) \<longleftrightarrow> (a, b) \<in> edge_rel es"
    for a b by (auto simp: edgeKey_def edge_rel_def)
  have one: "edge_rel (snd acc1) = edge_rel es \<union> {(a, b). b = target \<and> a \<noteq> b \<and> lookup (js_trim r) = Some a}"
    "(fst acc1 = [] \<longleftrightarrow> fs = [] \<and> (\<exists>a. lookup (js_trim r) = Some a \<and> a \<noteq> target))"
    "\<forall>e \<in> set (snd acc1). e \<in> set es \<or> edge_source e = Authored"
    unfolding acc1_def acc resolve_dependency_def Let_def prod.case mem
    by (simp_all split: option.split) (auto split: if_splits)
  have "acc' = foldl (\<lambda>acc r. resolve_dependency lookup target r acc) acc1 refs"
    using Cons.prems unfolding acc1_def by simp
  note two = Cons.IH [OF this]
  have e: "edge_rel (snd acc') = edge_rel (snd acc) \<union>
      {(a, b). b = target \<and> a \<noteq> b \<and> (\<exists>r \<in> set (r # refs). lookup (js_trim r) = Some a)}"
    unfolding two [THEN conjunct1] one(1) acc by auto
  have f: "fst acc' = [] \<longleftrightarrow> fst acc = [] \<and>
      (\<forall>r \<in> set (r # refs). \<exists>a. lookup (js_trim r) = Some a \<and> a \<noteq> target)"
    using two one(2) unfolding acc by simp
  have g: "\<forall>e \<in> set (snd acc'). e \<in> set (snd acc) \<or> edge_source e = Authored"
    using two one(3) unfolding acc by auto
  show ?case using e f g by blast
qed simp

definition depends_on :: "task list \<Rightarrow> nat \<Rightarrow> nat \<Rightarrow> bool" where
  "depends_on tasks a b \<longleftrightarrow> b \<in> {1..length tasks} \<and> a \<noteq> b \<and>
     (\<exists>r \<in> set (task_dependencies (tasks ! (b - 1))). ref_slot tasks (js_trim r) = Some a)"

lemma resolve_all_fold:
  assumes "acc' = foldl (\<lambda>acc (i, t).
      foldl (\<lambda>acc r. resolve_dependency lookup (i + 1) r acc) acc (task_dependencies t)) acc xs"
  shows "edge_rel (snd acc') = edge_rel (snd acc) \<union>
      {(a, b). a \<noteq> b \<and> (\<exists>(i, t) \<in> set xs. b = i + 1 \<and> (\<exists>r \<in> set (task_dependencies t). lookup (js_trim r) = Some a))} \<and>
    (fst acc' = [] \<longleftrightarrow> fst acc = [] \<and>
      (\<forall>(i, t) \<in> set xs. \<forall>r \<in> set (task_dependencies t). \<exists>a. lookup (js_trim r) = Some a \<and> a \<noteq> i + 1)) \<and>
    (\<forall>e \<in> set (snd acc'). e \<in> set (snd acc) \<or> edge_source e = Authored)"
  using assms
proof (induction xs arbitrary: acc)
  case (Cons x xs)
  obtain i t where x: "x = (i, t)" by (cases x)
  define acc1 where
    "acc1 = foldl (\<lambda>acc r. resolve_dependency lookup (i + 1) r acc) acc (task_dependencies t)"
  have "acc' = foldl (\<lambda>acc (i, t).
      foldl (\<lambda>acc r. resolve_dependency lookup (i + 1) r acc) acc (task_dependencies t)) acc1 xs"
    using Cons.prems unfolding acc1_def x by simp
  note two = Cons.IH [OF this] and one = resolve_dependency_fold [OF acc1_def]
  have e: "edge_rel (snd acc') = edge_rel (snd acc) \<union>
      {(a, b). a \<noteq> b \<and> (\<exists>(i, t) \<in> set (x # xs). b = i + 1 \<and> (\<exists>r \<in> set (task_dependencies t). lookup (js_trim r) = Some a))}"
    unfolding two [THEN conjunct1] one [THEN conjunct1] x by auto
  have f: "fst acc' = [] \<longleftrightarrow> fst acc = [] \<and>
      (\<forall>(i, t) \<in> set (x # xs). \<forall>r \<in> set (task_dependencies t). \<exists>a. lookup (js_trim r) = Some a \<and> a \<noteq> i + 1)"
    using two one x by simp
  show ?case using e f two one by blast
qed simp

lemma resolveDependencySlots_spec:
  assumes "resolveDependencySlots tasks = (authored, fs)"
  shows "edge_rel authored = {(a, b). depends_on tasks a b}" and "wf_edges (length tasks) authored"
    and "\<forall>e \<in> set authored. edge_source e = Authored"
    and "fs = [] \<longleftrightarrow> distinct (map task_id tasks) \<and>
      (\<forall>b \<in> {1..length tasks}. \<forall>r \<in> set (task_dependencies (tasks ! (b - 1))).
         \<exists>a. ref_slot tasks (js_trim r) = Some a \<and> a \<noteq> b)"
proof -
  let ?n = "length tasks"
  define acc where "acc = foldl (\<lambda>acc (i, t).
      foldl (\<lambda>acc r. resolve_dependency (ref_slot tasks) (i + 1) r acc) acc (task_dependencies t))
      (duplicate_findings (slots_by task_id tasks), []) (enumerate 0 tasks)"
  have res: "authored = js_sort compareEdge (snd acc)" "fs = fst acc"
    using assms unfolding resolveDependencySlots_def Let_def acc_def ref_slot_def [abs_def]
    by (auto split: prod.splits)
  have rel: "edge_rel authored = edge_rel (snd acc)" unfolding res edge_rel_def by simp
  note spec = resolve_all_fold [OF acc_def]
  have enum: "(\<exists>(i, t) \<in> set (enumerate 0 tasks). b = i + 1 \<and> P t) \<longleftrightarrow> b \<in> {1..?n} \<and> P (tasks ! (b - 1))" for b P
    by (cases b) (auto simp: in_set_enumerate_eq)
  have enum_all: "(\<forall>(i, t) \<in> set (enumerate 0 tasks). Q (i + 1) t) \<longleftrightarrow> (\<forall>b \<in> {1..?n}. Q b (tasks ! (b - 1)))" for Q
  proof -
    have "(\<forall>(i, t) \<in> set (enumerate 0 tasks). Q (i + 1) t) \<longleftrightarrow> (\<forall>i < ?n. Q (i + 1) (tasks ! i))"
      by (auto simp: in_set_enumerate_eq)
    also have "\<dots> \<longleftrightarrow> (\<forall>b \<in> {1..?n}. Q b (tasks ! (b - 1)))"
    proof (intro iffI ballI allI impI)
      fix b assume "\<forall>i < ?n. Q (i + 1) (tasks ! i)" "b \<in> {1..?n}"
      then show "Q b (tasks ! (b - 1))" by (cases b) auto
    next
      fix i assume "\<forall>b \<in> {1..?n}. Q b (tasks ! (b - 1))" "i < ?n"
      then show "Q (i + 1) (tasks ! i)" by (auto dest: bspec [of _ _ "i + 1"])
    qed
    finally show ?thesis .
  qed
  show edges: "edge_rel authored = {(a, b). depends_on tasks a b}"
    unfolding rel spec [THEN conjunct1] enum depends_on_def by auto
  show "wf_edges ?n authored"
  proof -
    have "(edge_from e, edge_to e) \<in> edge_rel authored" if "e \<in> set authored" for e
      using that by (auto simp: edge_rel_def)
    then show ?thesis
      unfolding wf_edges_def edges using ref_slot_range by (auto simp: depends_on_def)
  qed
  show "\<forall>e \<in> set authored. edge_source e = Authored" using spec unfolding res by simp
  have dup: "duplicate_findings (slots_by task_id tasks) = [] \<longleftrightarrow> distinct (map task_id tasks)"
  proof -
    have "distinct (map fst (slots_by task_id tasks))"
    proof -
      have "distinct (map fst (foldl (\<lambda>m (i, t). add_slot (task_id t) (i + 1) m) m xs))"
        if "distinct (map fst m)" for m and xs :: "(nat \<times> task) list"
        using that by (induction xs arbitrary: m) (auto simp: add_slot_def distinct_update)
      then show ?thesis by (simp add: slots_by_def)
    qed
    then have entry: "(k, l) \<in> set (slots_by task_id tasks) \<longleftrightarrow> map_of (slots_by task_id tasks) k = Some l" for k l
      by simp
    have "duplicate_findings (slots_by task_id tasks) = [] \<longleftrightarrow>
        (\<forall>(k, l) \<in> set (slots_by task_id tasks). length l \<le> 1)"
      by (auto simp: duplicate_findings_def filter_empty_conv not_less)
    also have "\<dots> \<longleftrightarrow> (\<forall>k. length (slots_with task_id k tasks) \<le> 1)"
    proof (intro iffI allI ballI)
      fix k assume all: "\<forall>(k, l) \<in> set (slots_by task_id tasks). length l \<le> 1"
      show "length (slots_with task_id k tasks) \<le> 1"
      proof (cases "slots_with task_id k tasks = []")
        case False
        then have "(k, slots_with task_id k tasks) \<in> set (slots_by task_id tasks)"
          unfolding entry by (simp add: slots_by_lookup)
        with all show ?thesis by blast
      qed simp
    next
      fix p assume all: "\<forall>k. length (slots_with task_id k tasks) \<le> 1" and p: "p \<in> set (slots_by task_id tasks)"
      obtain k l where kl: "p = (k, l)" by (cases p)
      with p have "map_of (slots_by task_id tasks) k = Some l" unfolding kl entry by simp
      then have "l = slots_with task_id k tasks" by (simp add: slots_by_lookup split: if_splits)
      with all kl show "case p of (k, l) \<Rightarrow> length l \<le> 1" by simp
    qed
    also have "\<dots> \<longleftrightarrow> distinct (map task_id tasks)"
    proof
      assume le: "\<forall>k. length (slots_with task_id k tasks) \<le> 1"
      show "distinct (map task_id tasks)"
      proof (unfold distinct_conv_nth, intro allI impI)
        fix i j assume ij: "i < length (map task_id tasks)" "j < length (map task_id tasks)" "i \<noteq> j"
        show "map task_id tasks ! i \<noteq> map task_id tasks ! j"
        proof
          assume eq: "map task_id tasks ! i = map task_id tasks ! j"
          let ?l = "slots_with task_id (task_id (tasks ! i)) tasks"
          have "i + 1 \<in> set ?l" "j + 1 \<in> set ?l" unfolding in_slots_with using ij eq by auto
          with ij(3) have "2 \<le> card (set ?l)"
            by (metis add_right_cancel card_2_iff card_mono finite_set insert_subset empty_subsetI)
          with card_length [of ?l] le show False by (metis le_trans not_less_eq_eq numeral_2_eq_2 One_nat_def)
        qed
      qed
    next
      assume dist: "distinct (map task_id tasks)"
      show "\<forall>k. length (slots_with task_id k tasks) \<le> 1"
      proof
        fix k
        have "distinct (slots_with task_id k tasks)"
          unfolding slots_with_def by (auto simp: distinct_map inj_on_def in_set_enumerate_eq)
        moreover have "s = s'" if "s \<in> set (slots_with task_id k tasks)" "s' \<in> set (slots_with task_id k tasks)" for s s'
        proof -
          have r: "s \<in> {1..length tasks}" "s' \<in> {1..length tasks}"
            "task_id (tasks ! (s - 1)) = task_id (tasks ! (s' - 1))"
            using that unfolding in_slots_with by auto
          then have "s - 1 = s' - 1" using nth_eq_iff_index_eq [OF dist, of "s - 1" "s' - 1"] by auto
          with r show ?thesis by auto
        qed
        ultimately show "length (slots_with task_id k tasks) \<le> 1"
          by (metis One_nat_def card_le_Suc0_iff_eq distinct_card finite_set)
      qed
    qed
    finally show ?thesis .
  qed
  show "fs = [] \<longleftrightarrow> distinct (map task_id tasks) \<and>
      (\<forall>b \<in> {1..?n}. \<forall>r \<in> set (task_dependencies (tasks ! (b - 1))).
         \<exists>a. ref_slot tasks (js_trim r) = Some a \<and> a \<noteq> b)"
    using spec [THEN conjunct2, THEN conjunct1] dup
      enum_all [of "\<lambda>b t. \<forall>r \<in> set (task_dependencies t). \<exists>a. ref_slot tasks (js_trim r) = Some a \<and> a \<noteq> b"]
    unfolding res by simp
qed

section \<open>Writers\<close>

definition writes_key :: "task list \<Rightarrow> nat \<Rightarrow> string \<Rightarrow> bool" where
  "writes_key tasks slot key \<longleftrightarrow> slot \<in> {1..length tasks} \<and>
     (\<exists>raw \<in> set (filesWrite (task_scope (tasks ! (slot - 1)))). \<exists>path.
        normalizePortableWriterPath raw = Some (path, key))"

definition entry_set :: "writer_map \<Rightarrow> string \<Rightarrow> nat set" where
  "entry_set ws key = (case map_of ws key of None \<Rightarrow> {} | Some e \<Rightarrow> set (entry_slots e))"

definition writers_ok :: "writer_map \<Rightarrow> bool" where
  "writers_ok ws \<longleftrightarrow> distinct (map fst ws) \<and> (\<forall>(k, e) \<in> set ws. distinct (entry_slots e))"

lemma writers_ok_lookup: "writers_ok ws \<Longrightarrow> map_of ws k = Some e \<Longrightarrow> distinct (entry_slots e)"
  by (auto simp: writers_ok_def dest!: map_of_SomeD)

lemma set_alist_update: "set (AList.update k v m) \<subseteq> insert (k, v) (set m)"
  by (induction m) auto

lemma record_writer_spec:
  assumes "writers_ok (fst st)"
  shows "writers_ok (fst (record_writer slot raw st)) \<and>
    (\<forall>k. entry_set (fst (record_writer slot raw st)) k = entry_set (fst st) k \<union>
      (if \<exists>path. normalizePortableWriterPath raw = Some (path, k) then {slot} else {})) \<and>
    (snd (record_writer slot raw st) = [] \<longleftrightarrow> snd st = [] \<and> normalizePortableWriterPath raw \<noteq> None)"
proof -
  obtain ws fs where st: "st = (ws, fs)" by (cases st)
  show ?thesis
  proof (cases "normalizePortableWriterPath raw")
    case None
    with assms st show ?thesis by (simp add: record_writer_def)
  next
    case (Some pk)
    obtain path key where pk: "pk = (path, key)" by (cases pk)
    define cur where "cur = (case map_of ws key of None \<Rightarrow> \<lparr>entry_path = path, entry_slots = []\<rparr> | Some e \<Rightarrow> e)"
    have slots: "set (entry_slots cur) = entry_set ws key" "distinct (entry_slots cur)"
      using writers_ok_lookup [of ws key] assms st
      by (auto simp: cur_def entry_set_def split: option.split)
    define e where "e = \<lparr>entry_path = (if compareCodePoint path (entry_path cur) < 0 then path
        else entry_path cur), entry_slots = js_add slot (entry_slots cur)\<rparr>"
    have rec: "record_writer slot raw st = (AList.update key e ws, fs)"
      using Some pk st by (simp add: record_writer_def Let_def cur_def e_def)
    have "distinct (entry_slots e)" using slots by (simp add: e_def)
    then have "writers_ok (AList.update key e ws)"
      using assms st set_alist_update [of key e ws] unfolding writers_ok_def
      by (auto simp: distinct_update)
    then show ?thesis
      unfolding rec using Some pk st slots by (auto simp: entry_set_def update_conv' e_def)
  qed
qed

lemma record_writers_spec:
  assumes "writers_ok (fst st)"
  shows "writers_ok (fst (foldl (\<lambda>st raw. record_writer slot raw st) st raws)) \<and>
    (\<forall>k. entry_set (fst (foldl (\<lambda>st raw. record_writer slot raw st) st raws)) k = entry_set (fst st) k \<union>
      (if \<exists>raw \<in> set raws. \<exists>path. normalizePortableWriterPath raw = Some (path, k) then {slot} else {})) \<and>
    (snd (foldl (\<lambda>st raw. record_writer slot raw st) st raws) = [] \<longleftrightarrow>
      snd st = [] \<and> (\<forall>raw \<in> set raws. normalizePortableWriterPath raw \<noteq> None))"
  using assms
proof (induction raws arbitrary: st)
  case (Cons raw raws)
  note one = record_writer_spec [OF Cons.prems, of slot raw]
  note two = Cons.IH [OF one [THEN conjunct1]]
  show ?case using one two by (auto simp: Un_assoc)
qed simp

lemma collect_writers_fold:
  fixes xs :: "(nat \<times> task) list"
  assumes "writers_ok (fst st)"
    and "st' = foldl (\<lambda>st (i, t). foldl (\<lambda>st raw. record_writer (i + 1) raw st) st (filesWrite (task_scope t))) st xs"
  shows "writers_ok (fst st') \<and>
    (\<forall>k. entry_set (fst st') k = entry_set (fst st) k \<union>
      {s. \<exists>(i, t) \<in> set xs. s = i + 1 \<and>
         (\<exists>raw \<in> set (filesWrite (task_scope t)). \<exists>path. normalizePortableWriterPath raw = Some (path, k))}) \<and>
    (snd st' = [] \<longleftrightarrow> snd st = [] \<and>
      (\<forall>(i, t) \<in> set xs. \<forall>raw \<in> set (filesWrite (task_scope t)). normalizePortableWriterPath raw \<noteq> None))"
  using assms
proof (induction xs arbitrary: st)
  case (Cons x xs)
  obtain i t where x: "x = (i, t)" by (cases x)
  define st1 where "st1 = foldl (\<lambda>st raw. record_writer (i + 1) raw st) st (filesWrite (task_scope t))"
  note one = record_writers_spec [OF Cons.prems(1), of "i + 1" "filesWrite (task_scope t)", folded st1_def]
  have st': "st' = foldl (\<lambda>st (i, t). foldl (\<lambda>st raw. record_writer (i + 1) raw st) st (filesWrite (task_scope t))) st1 xs"
    using Cons.prems(2) by (simp add: x st1_def)
  note two = Cons.IH [OF one [THEN conjunct1] st']
  have e: "\<forall>k. entry_set (fst st') k = entry_set (fst st) k \<union>
      {s. \<exists>(i, t) \<in> set (x # xs). s = i + 1 \<and>
         (\<exists>raw \<in> set (filesWrite (task_scope t)). \<exists>path. normalizePortableWriterPath raw = Some (path, k))}"
    unfolding two [THEN conjunct2, THEN conjunct1, rule_format] one [THEN conjunct2, THEN conjunct1, rule_format] x
    by auto
  show ?case using e one two unfolding x by simp
qed simp

lemma collect_writers_spec:
  assumes "collect_writers tasks = (writers, fs)"
  shows "writers_ok writers" and "entry_set writers key = {s. writes_key tasks s key}"
    and "fs = [] \<longleftrightarrow> (\<forall>t \<in> set tasks. \<forall>raw \<in> set (filesWrite (task_scope t)).
      normalizePortableWriterPath raw \<noteq> None)"
proof -
  have ok: "writers_ok (fst ([], []))" by (simp add: writers_ok_def)
  note spec = collect_writers_fold [OF ok, of "(writers, fs)" "enumerate 0 tasks"]
  have eq: "(writers, fs) = foldl (\<lambda>st (i, t). foldl (\<lambda>st raw. record_writer (i + 1) raw st) st
      (filesWrite (task_scope t))) ([], []) (enumerate 0 tasks)"
    using assms by (simp add: collect_writers_def)
  note spec = spec [OF eq]
  show "writers_ok writers" using spec by simp
  have enum: "(\<exists>(i, t) \<in> set (enumerate 0 tasks). s = i + 1 \<and> P t) \<longleftrightarrow> s \<in> {1..length tasks} \<and> P (tasks ! (s - 1))" for s P
    by (cases s) (auto simp: in_set_enumerate_eq)
  show "entry_set writers key = {s. writes_key tasks s key}"
    using spec [THEN conjunct2, THEN conjunct1, rule_format, of key] unfolding enum
    by (simp add: writes_key_def entry_set_def)
  have "(\<forall>(i, t) \<in> set (enumerate 0 tasks). Q t) \<longleftrightarrow> (\<forall>t \<in> set tasks. Q t)" for Q
  proof -
    have "set tasks = snd ` set (enumerate 0 tasks)" by (metis list.set_map map_snd_enumerate)
    then show ?thesis by auto
  qed
  then show "fs = [] \<longleftrightarrow> (\<forall>t \<in> set tasks. \<forall>raw \<in> set (filesWrite (task_scope t)).
      normalizePortableWriterPath raw \<noteq> None)"
    using spec by simp
qed

section \<open>Collisions and synthetic edges\<close>

definition consecutive :: "'a list \<Rightarrow> ('a \<times> 'a) set" where
  "consecutive xs = set (zip xs (tl xs))"

lemma consecutive_simps [simp]:
  "consecutive [] = {}" "consecutive [x] = {}"
  "consecutive (x # y # xs) = insert (x, y) (consecutive (y # xs))"
  by (simp_all add: consecutive_def)

lemma consecutive_trancl:
  "consecutive xs \<subseteq> R\<^sup>+ \<Longrightarrow> i < j \<Longrightarrow> j < length xs \<Longrightarrow> (xs ! i, xs ! j) \<in> R\<^sup>+"
proof (induction xs arbitrary: i j rule: induct_list012)
  case (3 x y zs)
  then obtain j' where j: "j = Suc j'" by (cases j) auto
  show ?case
  proof (cases i)
    case 0
    have xy: "(x, y) \<in> R\<^sup>+" using 3 by simp
    show ?thesis
    proof (cases "j' = 0")
      case False
      with 3 j have "((y # zs) ! 0, (y # zs) ! j') \<in> R\<^sup>+" by (intro "3.IH"(2)) auto
      with xy 0 j show ?thesis by (auto intro: trancl_trans)
    qed (use xy 0 j in auto)
  next
    case (Suc i')
    with 3 j show ?thesis by (auto intro!: "3.IH"(2))
  qed
qed auto

lemma consecutive_wrt:
  "sorted_wrt P xs \<Longrightarrow> distinct xs \<Longrightarrow> (a, b) \<in> consecutive xs \<Longrightarrow> P a b \<and> a \<noteq> b \<and> a \<in> set xs \<and> b \<in> set xs"
  by (induction xs rule: induct_list012) auto

lemma totally_ordered_iff:
  "totally_ordered reach xs \<longleftrightarrow>
   (\<forall>i j. i < j \<longrightarrow> j < length xs \<longrightarrow> xs ! j \<in> set (reach ! (xs ! i)) \<or> xs ! i \<in> set (reach ! (xs ! j)))"
proof (induction xs)
  case (Cons a xs)
  have "(\<forall>i j. i < j \<longrightarrow> j < length (a # xs) \<longrightarrow>
        (a # xs) ! j \<in> set (reach ! ((a # xs) ! i)) \<or> (a # xs) ! i \<in> set (reach ! ((a # xs) ! j))) \<longleftrightarrow>
      (\<forall>j < length xs. xs ! j \<in> set (reach ! a) \<or> a \<in> set (reach ! (xs ! j))) \<and>
      (\<forall>i j. i < j \<longrightarrow> j < length xs \<longrightarrow> xs ! j \<in> set (reach ! (xs ! i)) \<or> xs ! i \<in> set (reach ! (xs ! j)))"
    (is "(\<forall>i j. ?P i j) \<longleftrightarrow> ?A \<and> ?B")
  proof
    assume all: "\<forall>i j. ?P i j"
    have ?A using all [rule_format, of 0 "Suc _"] by auto
    moreover have ?B using all [rule_format, of "Suc _" "Suc _"] by auto
    ultimately show "?A \<and> ?B" ..
  next
    assume "?A \<and> ?B"
    then show "\<forall>i j. ?P i j" by (auto simp: nth_Cons split: nat.split)
  qed
  with Cons show ?case by (auto simp: list_all_length)
qed simp

definition syn_ok :: "synthetic_map \<Rightarrow> bool" where
  "syn_ok m \<longleftrightarrow> (\<forall>(k, e) \<in> set m. k = (syn_from e, syn_to e))"

lemma fst_alist_update: "fst ` set (AList.update k v m) = insert k (fst ` set m)"
  by (induction m) auto

lemma add_synthetic_spec:
  "syn_ok m \<Longrightarrow> syn_ok (add_synthetic reach path slots m) \<and>
   fst ` set (add_synthetic reach path slots m) =
     fst ` set m \<union> {(a, b) \<in> consecutive slots. b \<notin> set (reach ! a)}"
proof (induction reach path slots m rule: add_synthetic.induct)
  case (1 reach path source target slots m)
  show ?case
  proof (cases "target \<in> set (reach ! source)")
    case True
    with 1 show ?thesis by auto
  next
    case False
    define cur where "cur = (case map_of m (edgeKey source target) of
        None \<Rightarrow> \<lparr>syn_from = source, syn_to = target, syn_paths = []\<rparr> | Some e \<Rightarrow> e)"
    define m1 where "m1 = AList.update (edgeKey source target)
        (cur\<lparr>syn_paths := js_add path (syn_paths cur)\<rparr>) m"
    have "syn_from cur = source \<and> syn_to cur = target"
      using "1.prems" by (auto simp: cur_def syn_ok_def edgeKey_def split: option.split dest!: map_of_SomeD)
    then have "syn_ok m1"
      using "1.prems" set_alist_update [of "edgeKey source target" "cur\<lparr>syn_paths := js_add path (syn_paths cur)\<rparr>" m]
      unfolding m1_def syn_ok_def by (auto simp: edgeKey_def)
    moreover have "fst ` set m1 = insert (source, target) (fst ` set m)"
      unfolding m1_def by (simp add: fst_alist_update edgeKey_def)
    ultimately have "syn_ok (add_synthetic reach path (target # slots) m1) \<and>
        fst ` set (add_synthetic reach path (target # slots) m1) =
        insert (source, target) (fst ` set m) \<union> {(a, b) \<in> consecutive (target # slots). b \<notin> set (reach ! a)}"
      using "1.IH"(2) [OF False refl, of cur] unfolding m1_def cur_def by simp
    moreover have "add_synthetic reach path (source # target # slots) m =
        add_synthetic reach path (target # slots) m1"
      using False by (simp add: m1_def cur_def Let_def)
    ultimately show ?thesis using False by auto
  qed
qed auto

definition entry_writers :: "nat list \<Rightarrow> writer_entry \<Rightarrow> nat list" where
  "entry_writers order e = js_sort (compareWriter order) (entry_slots e)"

lemma collide_fold:
  assumes "st' = foldl (\<lambda>st ke. collide reach order ke st) st kes" and "syn_ok (col_synthetic st)"
  shows "syn_ok (col_synthetic st') \<and>
    fst ` set (col_synthetic st') = fst ` set (col_synthetic st) \<union>
      {(a, b). b \<notin> set (reach ! a) \<and> (\<exists>(k, e) \<in> set kes. (a, b) \<in> consecutive (entry_writers order e))} \<and>
    (col_findings st' = [] \<longleftrightarrow> col_findings st = [] \<and>
      (\<forall>(k, e) \<in> set kes. totally_ordered reach (entry_writers order e)))"
  using assms
proof (induction kes arbitrary: st)
  case (Cons ke kes)
  obtain k e where ke: "ke = (k, e)" by (cases ke)
  define st1 where "st1 = collide reach order ke st"
  have one: "syn_ok (col_synthetic st1) \<and>
    fst ` set (col_synthetic st1) = fst ` set (col_synthetic st) \<union>
      {(a, b). b \<notin> set (reach ! a) \<and> (a, b) \<in> consecutive (entry_writers order e)} \<and>
    (col_findings st1 = [] \<longleftrightarrow> col_findings st = [] \<and> totally_ordered reach (entry_writers order e))"
  proof (cases "length (entry_slots e) < 2")
    case True
    have "length (entry_writers order e) < 2" using True by (simp add: entry_writers_def)
    then have "entry_writers order e = [] \<or> (\<exists>x. entry_writers order e = [x])"
      by (cases "entry_writers order e" rule: list.exhaust; cases "tl (entry_writers order e)") auto
    with True Cons.prems(2) show ?thesis by (auto simp: st1_def ke collide_def)
  next
    case False
    with add_synthetic_spec [OF Cons.prems(2), of reach "entry_path e" "entry_writers order e"]
    show ?thesis by (auto simp: st1_def ke collide_def Let_def entry_writers_def)
  qed
  have "st' = foldl (\<lambda>st ke. collide reach order ke st) st1 kes" using Cons.prems(1) by (simp add: st1_def)
  note two = Cons.IH [OF this one [THEN conjunct1]]
  have e: "fst ` set (col_synthetic st') = fst ` set (col_synthetic st) \<union>
      {(a, b). b \<notin> set (reach ! a) \<and> (\<exists>(k, e) \<in> set (ke # kes). (a, b) \<in> consecutive (entry_writers order e))}"
    unfolding two [THEN conjunct2, THEN conjunct1] one [THEN conjunct2, THEN conjunct1] ke by auto
  have f: "col_findings st' = [] \<longleftrightarrow> col_findings st = [] \<and>
      (\<forall>(k, e) \<in> set (ke # kes). totally_ordered reach (entry_writers order e))"
    using two one unfolding ke by simp
  show ?case using e f two by blast
qed simp

lemma synthetic_edges_rel: "syn_ok m \<Longrightarrow> edge_rel (synthetic_edges m) = fst ` set m"
proof -
  assume ok: "syn_ok m"
  have "edge_rel (synthetic_edges m) = (\<lambda>(k, e). (syn_from e, syn_to e)) ` set m"
    unfolding edge_rel_def synthetic_edges_def set_js_sort by (force simp: image_iff)
  also have "\<dots> = fst ` set m" using ok by (intro image_cong) (auto simp: syn_ok_def)
  finally show ?thesis .
qed

lemma effective_fold:
  assumes "m' = foldl (\<lambda>m e. add_effective e m) m es"
    and "\<forall>(k, e) \<in> set m. k = (edge_from e, edge_to e)" and "distinct (map fst m)"
  shows "(\<forall>(k, e) \<in> set m'. k = (edge_from e, edge_to e)) \<and> distinct (map fst m') \<and>
    fst ` set m' = fst ` set m \<union> edge_rel es"
  using assms
proof (induction es arbitrary: m)
  case (Cons e es)
  define m1 where "m1 = add_effective e m"
  have sub: "set m1 \<subseteq> insert ((edge_from e, edge_to e), e) (set m)"
    using set_alist_update [of "(edge_from e, edge_to e)" e m]
    by (auto simp: m1_def add_effective_def edgeKey_def Let_def split: option.split)
  have keys: "fst ` set m1 = insert (edge_from e, edge_to e) (fst ` set m)"
    by (auto simp: m1_def add_effective_def edgeKey_def Let_def fst_alist_update insert_absorb
        dest: map_of_Some_key split: option.split)
  have dist: "distinct (map fst m1)"
    using Cons.prems(3) by (auto simp: m1_def add_effective_def Let_def distinct_update split: option.split)
  have "\<forall>(k, e) \<in> set m1. k = (edge_from e, edge_to e)" using sub Cons.prems(2) by auto
  from Cons.IH [OF _ this dist] Cons.prems(1) keys show ?case by (simp add: m1_def)
qed simp

lemma effective_edges_rel: "edge_rel (effective_edges authored synthetic) = edge_rel authored \<union> edge_rel synthetic"
proof -
  define m where "m = foldl (\<lambda>m e. add_effective e m) [] (authored @ synthetic)"
  have m: "\<forall>(k, e) \<in> set m. k = (edge_from e, edge_to e)" "fst ` set m = edge_rel (authored @ synthetic)"
    using effective_fold [OF m_def] by auto
  have "edge_rel (effective_edges authored synthetic) = (\<lambda>(k, e). (edge_from e, edge_to e)) ` set m"
    unfolding effective_edges_def m_def [symmetric] edge_rel_def by (force simp: image_iff)
  also have "\<dots> = fst ` set m" using m(1) by (intro image_cong) auto
  finally show ?thesis using m(2) by simp
qed

section \<open>The derived topology\<close>

interpretation compareWriter: js_comparator "compareWriter order" for order
  by unfold_locales (auto simp: compareWriter_def compareSlot_def compareNumber_def js_or_def split: if_splits)

lemma order_rank_index:
  "distinct order \<Longrightarrow> i < length order \<Longrightarrow> order_rank order (order ! i) = i"
proof -
  assume d: "distinct order" and i: "i < length order"
  have "distinct (map fst (map (\<lambda>(i, s). (s, i)) (enumerate 0 order)))"
    using d by (simp add: comp_def case_prod_beta)
  moreover have "(order ! i, i) \<in> set (map (\<lambda>(i, s). (s, i)) (enumerate 0 order))"
    using i by (force simp: in_set_enumerate_eq)
  ultimately show ?thesis by (simp add: order_rank_def order_index_def)
qed

lemma layered_before:
  assumes "layered E ws" and "(s, t) \<in> E\<^sup>+" and "i < length ws" and "t \<in> set (ws ! i)"
  shows "s \<in> set (concat (take i ws))"
  using assms(2-)
proof (induction arbitrary: i rule: trancl_induct)
  case (base t)
  with assms(1) show ?case by (auto simp: layered_def)
next
  case (step u t)
  with assms(1) have "u \<in> set (concat (take i ws))" by (auto simp: layered_def)
  then obtain v where v: "v \<in> set (take i ws)" "u \<in> set v" by auto
  then obtain j where j: "j < i" "u \<in> set (ws ! j)"
    using step.prems(1) by (metis in_set_conv_nth length_take min_less_iff_conj nth_take)
  with step.IH [of j] step.prems have "s \<in> set (concat (take j ws))" by simp
  moreover have "set (take j ws) \<subseteq> set (take i ws)"
    using j(1) by (intro set_take_subset_set_take) simp
  ultimately show ?case by auto
qed

text \<open>The parts of a derived topology.\<close>

lemma derive_parts:
  obtains authored fs0 order cycle writers fsw st cycle2 order2 where
    "resolveDependencySlots tasks = (authored, fs0)"
    "topologicalOrder (length tasks) authored = (order, cycle)"
    "collect_writers tasks = (writers, fsw)"
    "st = collide_all (buildReachability (length tasks) authored) order writers
       (fs0 @ (if cycle \<noteq> [] then [cycle_finding cycle] else []) @ fsw)"
    "topologicalOrder (length tasks) (effectiveEdges (deriveExecutionTopology tasks mw)) = (order2, cycle2)"
    "authoredEdges (deriveExecutionTopology tasks mw) = authored"
    "effectiveEdges (deriveExecutionTopology tasks mw) =
       effective_edges authored (synthetic_edges (col_synthetic st))"
    "waves (deriveExecutionTopology tasks mw) = buildWaves (length tasks)
       (effectiveEdges (deriveExecutionTopology tasks mw)) (configured_workers mw)"
    "topology_pass (deriveExecutionTopology tasks mw) \<longleftrightarrow>
       col_findings st = [] \<and> (cycle2 = [] \<or> cycle \<noteq> [])"
    "configuredMaxWorkers (deriveExecutionTopology tasks mw) = configured_workers mw"
proof -
  obtain authored fs0 where 1: "resolveDependencySlots tasks = (authored, fs0)" by fastforce
  obtain order cycle where 2: "topologicalOrder (length tasks) authored = (order, cycle)" by fastforce
  obtain writers fsw where 3: "collect_writers tasks = (writers, fsw)" by fastforce
  define st where "st = collide_all (buildReachability (length tasks) authored) order writers
       (fs0 @ (if cycle \<noteq> [] then [cycle_finding cycle] else []) @ fsw)"
  obtain order2 cycle2 where 4: "topologicalOrder (length tasks)
      (effective_edges authored (synthetic_edges (col_synthetic st))) = (order2, cycle2)" by fastforce
  show ?thesis
    by (rule that [OF 1 2 3 st_def, of order2 cycle2])
      (use 1 2 3 4 in \<open>auto simp: deriveExecutionTopology_def Let_def st_def\<close>)
qed

text \<open>The effective edges: the authored ones and, between unordered neighbours, the synthetic ones.\<close>

lemma derive_collisions:
  assumes "st = collide_all reach order writers fs" and "writers_ok writers"
  shows "syn_ok (col_synthetic st)"
    and "edge_rel (synthetic_edges (col_synthetic st)) =
      {(a, b). b \<notin> set (reach ! a) \<and> (\<exists>(k, e) \<in> set writers. (a, b) \<in> consecutive (entry_writers order e))}"
    and "col_findings st = [] \<longleftrightarrow> fs = [] \<and> (\<forall>(k, e) \<in> set writers. totally_ordered reach (entry_writers order e))"
  using collide_fold [OF assms(1) [unfolded collide_all_def]] synthetic_edges_rel [of "col_synthetic st"]
  by (simp_all add: syn_ok_def)

lemma entry_of_key:
  assumes "writers_ok writers" and "(k, e) \<in> set writers"
  shows "set (entry_writers order e) = entry_set writers k" and "distinct (entry_writers order e)"
  using assms by (auto simp: writers_ok_def entry_writers_def entry_set_def)

definition effective_rel :: "task list \<Rightarrow> rat option \<Rightarrow> (nat \<times> nat) set" where
  "effective_rel tasks mw = edge_rel (effectiveEdges (deriveExecutionTopology tasks mw))"

lemma derive_edges:
  fixes tasks mw
  defines "n \<equiv> length tasks"
  shows "wf_edges n (authoredEdges (deriveExecutionTopology tasks mw))"
    and "edge_rel (authoredEdges (deriveExecutionTopology tasks mw)) = {(a, b). depends_on tasks a b}"
    and "edge_rel (authoredEdges (deriveExecutionTopology tasks mw)) \<subseteq> effective_rel tasks mw"
    and "wf_edges n (effectiveEdges (deriveExecutionTopology tasks mw))"
    and "acyclic {(a, b). depends_on tasks a b} \<Longrightarrow> acyclic (effective_rel tasks mw)"
    and "writes_key tasks a key \<Longrightarrow> writes_key tasks b key \<Longrightarrow> a \<noteq> b \<Longrightarrow>
      (a, b) \<in> (effective_rel tasks mw)\<^sup>+ \<or> (b, a) \<in> (effective_rel tasks mw)\<^sup>+"
proof -
  let ?T = "deriveExecutionTopology tasks mw"
  obtain authored fs0 order cycle writers fsw st cycle2 order2 where
    res: "resolveDependencySlots tasks = (authored, fs0)" and
    topo: "topologicalOrder (length tasks) authored = (order, cycle)" and
    col: "collect_writers tasks = (writers, fsw)" and
    st: "st = collide_all (buildReachability (length tasks) authored) order writers
       (fs0 @ (if cycle \<noteq> [] then [cycle_finding cycle] else []) @ fsw)" and
    au: "authoredEdges ?T = authored" and
    eff: "effectiveEdges ?T = effective_edges authored (synthetic_edges (col_synthetic st))"
    using derive_parts [of tasks mw] by metis
  let ?reach = "buildReachability (length tasks) authored"
  note ok = collect_writers_spec(1) [OF col] and spec = resolveDependencySlots_spec [OF res]
  note inv = topologicalOrder_inv [OF spec(2) topo]
  show "wf_edges n (authoredEdges ?T)" "edge_rel (authoredEdges ?T) = {(a, b). depends_on tasks a b}"
    using spec au by (simp_all add: n_def)
  have rel: "effective_rel tasks mw = edge_rel authored \<union> {(a, b). b \<notin> set (?reach ! a) \<and>
      (\<exists>(k, e) \<in> set writers. (a, b) \<in> consecutive (entry_writers order e))}"
    unfolding effective_rel_def eff effective_edges_rel derive_collisions(2) [OF st ok] ..
  show "edge_rel (authoredEdges ?T) \<subseteq> effective_rel tasks mw" unfolding rel au by blast
  have cons: "a \<in> {1..n} \<and> b \<in> {1..n} \<and> a \<noteq> b \<and> compareWriter order a b \<le> 0"
    if ke: "(k, e) \<in> set writers" and ab: "(a, b) \<in> consecutive (entry_writers order e)" for k e a b
  proof -
    have "sorted_wrt (\<lambda>x y. compareWriter order x y \<le> 0) (entry_writers order e)"
      unfolding entry_writers_def by (rule compareWriter.sorted_js_sort)
    from consecutive_wrt [OF this entry_of_key(2) [OF ok ke] ab]
    show ?thesis
      using entry_of_key(1) [OF ok ke, of order] collect_writers_spec(2) [OF col, of k]
      by (auto simp: writes_key_def n_def)
  qed
  have sub: "effective_rel tasks mw \<subseteq> {1..n} \<times> {1..n}"
    using wf_edge_rel [OF spec(2)] cons unfolding rel n_def by auto
  show wf: "wf_edges n (effectiveEdges ?T)"
    using sub unfolding effective_rel_def edge_rel_def wf_edges_def by auto
  show "acyclic (effective_rel tasks mw)" if "acyclic {(a, b). depends_on tasks a b}"
  proof -
    from that have "cycle = []" using topologicalOrder_acyclic [OF spec(2) topo] spec(1) by simp
    with inv have all: "set order = {1..n}" by (simp add: n_def)
    have d: "distinct order" using inv by simp
    have "effective_rel tasks mw \<subseteq> measure (order_rank order)"
    proof (rule subrelI)
      fix a b assume ab: "(a, b) \<in> effective_rel tasks mw"
      then obtain i j where i: "i < length order" "order ! i = a" and j: "j < length order" "order ! j = b"
        using sub all by (metis (no_types, lifting) in_mono in_set_conv_nth mem_Sigma_iff)
      have ranks: "order_rank order a = i" "order_rank order b = j"
        using order_rank_index [OF d] i j by auto
      from ab consider "(a, b) \<in> edge_rel authored"
        | k e where "(k, e) \<in> set writers" "(a, b) \<in> consecutive (entry_writers order e)"
        unfolding rel by blast
      then have "i < j"
      proof cases
        case 1
        with topological_index [of "edge_rel authored" order j i] inv i j show ?thesis by simp
      next
        case 2
        from cons [OF 2] have "compareWriter order a b \<le> 0" "a \<noteq> b" by auto
        then have "i \<le> j" using ranks
          by (auto simp: compareWriter_def compareSlot_def compareNumber_def js_or_def split: if_splits)
        moreover have "i \<noteq> j" using \<open>a \<noteq> b\<close> i j by auto
        ultimately show ?thesis by simp
      qed
      then show "(a, b) \<in> measure (order_rank order)" using ranks by simp
    qed
    then show ?thesis by (meson wf_acyclic wf_measure wf_subset)
  qed
  show "(a, b) \<in> (effective_rel tasks mw)\<^sup>+ \<or> (b, a) \<in> (effective_rel tasks mw)\<^sup>+"
    if wa: "writes_key tasks a key" and wb: "writes_key tasks b key" and ne: "a \<noteq> b"
  proof -
    have mem: "a \<in> entry_set writers key" "b \<in> entry_set writers key"
      using wa wb collect_writers_spec(2) [OF col, of key] by auto
    then obtain e where e: "(key, e) \<in> set writers"
      by (auto simp: entry_set_def split: option.splits dest!: map_of_SomeD)
    let ?ws = "entry_writers order e"
    have "consecutive ?ws \<subseteq> (effective_rel tasks mw)\<^sup>+"
    proof (rule subrelI)
      fix x y assume xy: "(x, y) \<in> consecutive ?ws"
      show "(x, y) \<in> (effective_rel tasks mw)\<^sup>+"
      proof (cases "y \<in> set (?reach ! x)")
        case True
        moreover have "x \<le> length tasks" using cons [OF e xy] by (simp add: n_def)
        ultimately have "(x, y) \<in> (edge_rel authored)\<^sup>+"
          using reachability_closure [OF spec(2)] by auto
        then show ?thesis unfolding rel by (rule trancl_mono) blast
      next
        case False
        then have "(x, y) \<in> effective_rel tasks mw" unfolding rel using e xy by blast
        then show ?thesis ..
      qed
    qed
    note chain = consecutive_trancl [OF this]
    from mem obtain i j where "i < length ?ws" "?ws ! i = a" "j < length ?ws" "?ws ! j = b"
      using entry_of_key(1) [OF ok e, of order] by (metis in_set_conv_nth)
    with chain [of i j] chain [of j i] ne show ?thesis by (cases i j rule: linorder_cases) auto
  qed
qed

lemma configured_workers_pos: "0 < configured_workers mw"
  by (auto simp: configured_workers_def split: option.split)

text \<open>
  The waves of every derived topology are sound: no slot is in two waves, each wave has
  between one and \<open>maxWorkers\<close> slots and the waves are numbered from 1, and every
  prerequisite of a slot along an effective edge (authored or synthetic) is in an earlier
  wave. When the authored dependencies are acyclic every slot is in a wave.
\<close>

theorem topology_waves_sound:
  "let T = deriveExecutionTopology tasks mw; ws = map wave_slots (waves T)
   in distinct (concat ws) \<and> list_all (\<lambda>w. 1 \<le> length w \<and> length w \<le> configuredMaxWorkers T) ws \<and>
      map wave (waves T) = [1..<length ws + 1] \<and>
      layered (effective_rel tasks mw) ws \<and> {(a, b). depends_on tasks a b} \<subseteq> effective_rel tasks mw \<and>
      (acyclic {(a, b). depends_on tasks a b} \<longrightarrow> set (concat ws) = {1..length tasks})"
proof -
  let ?T = "deriveExecutionTopology tasks mw"
  have ws: "waves ?T = buildWaves (length tasks) (effectiveEdges ?T) (configured_workers mw)"
    "configuredMaxWorkers ?T = configured_workers mw"
    by (simp_all add: deriveExecutionTopology_def Let_def split: prod.split)
  note inv = buildWaves_inv [OF derive_edges(4) [of tasks mw] configured_workers_pos [of mw],
      folded ws effective_rel_def]
  show ?thesis
    using inv derive_edges(2,3,5) [of tasks mw] unfolding ws(2) Let_def
    by (auto simp: list_all_iff Suc_le_eq simp del: upt_Suc)
qed

theorem topology_waves_sound_witness:
  "let T = deriveExecutionTopology [sample_task ''a'' PENDING [] None, sample_task ''b'' PENDING [''a''] None,
       sample_task ''c'' PENDING [''a''] None] (Some 1)
   in map wave_slots (waves T) = [[1], [2], [3]] \<and> distinct (concat (map wave_slots (waves T)))"
proof -
  let ?ts = "[sample_task ''a'' PENDING [] None, sample_task ''b'' PENDING [''a''] None,
       sample_task ''c'' PENDING [''a''] None]"
  have "map wave_slots (waves (deriveExecutionTopology ?ts (Some 1))) = [[1], [2], [3]]" by code_simp
  with topology_waves_sound [of ?ts "Some 1"] show ?thesis by (simp add: Let_def)
qed

text \<open>
  C4 Two tasks that write the same portable path never share a wave, whether or not the plan
  declares an order between them and whatever spelling of the path they use.
\<close>

theorem topology_serializes_writers:
  assumes "writes_key tasks a key" and "writes_key tasks b key" and "a \<noteq> b"
    and "w \<in> set (waves (deriveExecutionTopology tasks mw))" and "a \<in> set (wave_slots w)"
  shows "b \<notin> set (wave_slots w)"
proof
  assume b: "b \<in> set (wave_slots w)"
  let ?T = "deriveExecutionTopology tasks mw"
  let ?ws = "map wave_slots (waves ?T)"
  have ws: "waves ?T = buildWaves (length tasks) (effectiveEdges ?T) (configured_workers mw)"
    by (simp add: deriveExecutionTopology_def Let_def split: prod.split)
  note inv = buildWaves_inv [OF derive_edges(4) [of tasks mw] configured_workers_pos [of mw],
      folded ws effective_rel_def]
  have lay: "layered (effective_rel tasks mw) ?ws" and dist: "distinct (concat ?ws)" using inv by auto
  from assms(4) obtain i where i: "i < length ?ws" "?ws ! i = wave_slots w"
    by (metis in_set_conv_nth length_map nth_map)
  have "s \<notin> set (concat (take i ?ws))" if "s \<in> set (?ws ! i)" for s
  proof -
    have "concat ?ws = concat (take i ?ws) @ ?ws ! i @ concat (drop (Suc i) ?ws)"
      using i(1) by (metis append_take_drop_id Cons_nth_drop_Suc concat.simps(2) concat_append)
    with dist that show ?thesis by (metis disjoint_iff distinct_append set_append UnI1)
  qed
  moreover from derive_edges(6) [OF assms(1-3)] layered_before [OF lay _ i(1)] i(2) b assms(5)
  have "a \<in> set (concat (take i ?ws)) \<or> b \<in> set (concat (take i ?ws))" by auto
  ultimately show False using i(2) b assms(5) by auto
qed

definition sample_writer :: "task_id \<Rightarrow> task_id list \<Rightarrow> string list \<Rightarrow> task" where
  "sample_writer i deps paths =
     (sample_task i PENDING deps None)\<lparr>task_scope :=
        \<lparr>directories = [], filesRead = [], filesWrite = paths\<rparr>\<rparr>"

definition sample_plan :: "task list" where
  "sample_plan = [sample_writer ''a'' [] [''src/X.ts''], sample_writer ''b'' [] [''./SRC/x.ts''],
     sample_writer ''c'' [''a''] []]"

theorem topology_serializes_writers_witness:
  "\<exists>w \<in> set (waves (deriveExecutionTopology sample_plan (Some 4))).
     1 \<in> set (wave_slots w) \<and> 2 \<notin> set (wave_slots w) \<and> writes_key sample_plan 2 ''src/x.ts''"
proof -
  have ws: "map wave_slots (waves (deriveExecutionTopology sample_plan (Some 4))) = [[1], [2, 3]]"
    by code_simp
  then obtain w v where wv: "waves (deriveExecutionTopology sample_plan (Some 4)) = [w, v]" "wave_slots w = [1]"
    by (auto simp: map_eq_Cons_conv)
  then have w: "w \<in> set (waves (deriveExecutionTopology sample_plan (Some 4)))" "wave_slots w = [1]" by auto
  have n: "normalizePortableWriterPath ''src/X.ts'' = Some (''src/X.ts'', ''src/x.ts'')"
    "normalizePortableWriterPath ''./SRC/x.ts'' = Some (''SRC/x.ts'', ''src/x.ts'')"
    "filesWrite (task_scope (sample_plan ! 0)) = [''src/X.ts'']"
    "filesWrite (task_scope (sample_plan ! 1)) = [''./SRC/x.ts'']" "length sample_plan = 3"
    by code_simp+
  then have k: "writes_key sample_plan 1 ''src/x.ts''" "writes_key sample_plan 2 ''src/x.ts''"
    by (auto simp: writes_key_def)
  from topology_serializes_writers [OF k _ w(1)] w k(2) show ?thesis by (intro bexI [of _ w]) auto
qed

text \<open>
  The verdict is exact: a plan passes precisely when its task ids are distinct, every
  dependency names another task of the plan, every writer path is portable, the dependencies
  are acyclic and any two writers of one portable path are ordered by them. The synthetic
  edges of an acyclic plan never close a cycle, so the second cycle check adds no finding.
\<close>

theorem topology_pass_iff:
  "topology_pass (deriveExecutionTopology tasks mw) \<longleftrightarrow>
     distinct (map task_id tasks) \<and>
     (\<forall>b \<in> {1..length tasks}. \<forall>r \<in> set (task_dependencies (tasks ! (b - 1))).
        \<exists>a. ref_slot tasks (js_trim r) = Some a \<and> a \<noteq> b) \<and>
     (\<forall>t \<in> set tasks. \<forall>raw \<in> set (filesWrite (task_scope t)). normalizePortableWriterPath raw \<noteq> None) \<and>
     acyclic {(a, b). depends_on tasks a b} \<and>
     (\<forall>a b key. writes_key tasks a key \<and> writes_key tasks b key \<and> a \<noteq> b \<longrightarrow>
        (a, b) \<in> {(a, b). depends_on tasks a b}\<^sup>+ \<or> (b, a) \<in> {(a, b). depends_on tasks a b}\<^sup>+)"
proof -
  let ?T = "deriveExecutionTopology tasks mw" and ?n = "length tasks"
  obtain authored fs0 order cycle writers fsw st cycle2 order2 where
    res: "resolveDependencySlots tasks = (authored, fs0)" and
    topo: "topologicalOrder ?n authored = (order, cycle)" and
    col: "collect_writers tasks = (writers, fsw)" and
    st: "st = collide_all (buildReachability ?n authored) order writers
       (fs0 @ (if cycle \<noteq> [] then [cycle_finding cycle] else []) @ fsw)" and
    topo2: "topologicalOrder ?n (effectiveEdges ?T) = (order2, cycle2)" and
    pass: "topology_pass ?T \<longleftrightarrow> col_findings st = [] \<and> (cycle2 = [] \<or> cycle \<noteq> [])"
    using derive_parts [of tasks mw] by metis
  let ?reach = "buildReachability ?n authored" and ?D = "{(a, b). depends_on tasks a b}"
  note ok = collect_writers_spec(1) [OF col] and spec = resolveDependencySlots_spec [OF res]
  have cyc: "cycle = [] \<longleftrightarrow> acyclic ?D" using topologicalOrder_acyclic [OF spec(2) topo] spec(1) by simp
  have cyc2: "cycle2 = []" if "cycle = []"
    using topologicalOrder_acyclic [OF derive_edges(4) topo2] derive_edges(5) [of tasks mw] cyc that
    by (simp add: effective_rel_def)
  have reach: "b \<in> set (?reach ! a) \<longleftrightarrow> (a, b) \<in> ?D\<^sup>+" if "a \<in> {1..?n}" for a b
    using reachability_closure [OF spec(2), of a] that spec(1) by auto
  have slots: "set (entry_writers order e) = {s. writes_key tasks s k}" "distinct (entry_writers order e)"
    if "(k, e) \<in> set writers" for k e
    using entry_of_key [OF ok that] collect_writers_spec(2) [OF col, of k] by auto
  have ordered: "(\<forall>(k, e) \<in> set writers. totally_ordered ?reach (entry_writers order e)) \<longleftrightarrow>
      (\<forall>a b key. writes_key tasks a key \<and> writes_key tasks b key \<and> a \<noteq> b \<longrightarrow> (a, b) \<in> ?D\<^sup>+ \<or> (b, a) \<in> ?D\<^sup>+)"
    (is "?L \<longleftrightarrow> ?R")
  proof
    assume L: ?L
    show ?R
    proof (intro allI impI)
      fix a b key assume w: "writes_key tasks a key \<and> writes_key tasks b key \<and> a \<noteq> b"
      then have mem: "a \<in> entry_set writers key" "b \<in> entry_set writers key"
        using collect_writers_spec(2) [OF col, of key] by auto
      then obtain e where e: "(key, e) \<in> set writers"
        by (auto simp: entry_set_def split: option.splits dest!: map_of_SomeD)
      with w slots [OF e] obtain i j where ij: "i < length (entry_writers order e)" "entry_writers order e ! i = a"
        "j < length (entry_writers order e)" "entry_writers order e ! j = b" by (metis in_set_conv_nth mem_Collect_eq)
      have "a \<in> {1..?n}" "b \<in> {1..?n}" using w by (auto simp: writes_key_def)
      moreover have "totally_ordered ?reach (entry_writers order e)" using L e by blast
      then have "b \<in> set (?reach ! a) \<or> a \<in> set (?reach ! b)"
        using ij w unfolding totally_ordered_iff by (cases i j rule: linorder_cases) auto
      ultimately show "(a, b) \<in> ?D\<^sup>+ \<or> (b, a) \<in> ?D\<^sup>+" using reach by blast
    qed
  next
    assume R: ?R
    show ?L
    proof clarify
      fix k e assume e: "(k, e) \<in> set writers"
      show "totally_ordered ?reach (entry_writers order e)"
        unfolding totally_ordered_iff
      proof (intro allI impI)
        fix i j assume ij: "i < j" "j < length (entry_writers order e)"
        let ?a = "entry_writers order e ! i" and ?b = "entry_writers order e ! j"
        have "?a \<in> set (entry_writers order e)" "?b \<in> set (entry_writers order e)" using ij by auto
        then have w: "writes_key tasks ?a k" "writes_key tasks ?b k" unfolding slots [OF e] by auto
        moreover have "?a \<noteq> ?b" using ij slots(2) [OF e] by (simp add: nth_eq_iff_index_eq)
        ultimately have "(?a, ?b) \<in> ?D\<^sup>+ \<or> (?b, ?a) \<in> ?D\<^sup>+" using R by blast
        moreover have "?a \<in> {1..?n}" "?b \<in> {1..?n}" using w by (auto simp: writes_key_def)
        ultimately show "?b \<in> set (?reach ! ?a) \<or> ?a \<in> set (?reach ! ?b)" using reach by blast
      qed
    qed
  qed
  have "topology_pass ?T \<longleftrightarrow> fs0 = [] \<and> fsw = [] \<and> cycle = [] \<and>
      (\<forall>(k, e) \<in> set writers. totally_ordered ?reach (entry_writers order e))"
    using pass derive_collisions(3) [OF st ok] cyc2 by auto
  then show ?thesis unfolding spec(4) cyc collect_writers_spec(3) [OF col] ordered by (simp only: conj_assoc)
qed

theorem topology_pass_iff_witness:
  "\<not> topology_pass (deriveExecutionTopology sample_plan (Some 4)) \<and>
   topology_pass (deriveExecutionTopology [sample_writer ''a'' [] [''x'']] None) \<and>
   acyclic {(a, b). depends_on [sample_writer ''a'' [] [''x'']] a b}"
proof -
  have "\<not> topology_pass (deriveExecutionTopology sample_plan (Some 4))"
    "topology_pass (deriveExecutionTopology [sample_writer ''a'' [] [''x'']] None)" by code_simp+
  then show ?thesis using topology_pass_iff [of "[sample_writer ''a'' [] [''x'']]" None] by blast
qed

text \<open>
  The topological order lists exactly the slots that no cycle blocks, each after all its
  prerequisites; every left-out slot waits for another left-out slot, and none is left out
  exactly when the edges are acyclic.
\<close>

theorem topologicalOrder_correct:
  assumes "wf_edges n edges"
  shows "let (order, cycle) = topologicalOrder n edges
    in distinct (order @ cycle) \<and> set (order @ cycle) = {1..n} \<and> topological (edge_rel edges) order \<and>
       (\<forall>t \<in> set cycle. \<exists>s \<in> set cycle. (s, t) \<in> edge_rel edges) \<and>
       (cycle = [] \<longleftrightarrow> acyclic (edge_rel edges))"
proof -
  obtain order cycle where t: "topologicalOrder n edges = (order, cycle)" by fastforce
  from topologicalOrder_inv [OF assms t] topologicalOrder_acyclic [OF assms t] show ?thesis
    unfolding t by simp
qed

definition sample_edge :: "nat \<Rightarrow> nat \<Rightarrow> ExecutionTopologyEdge" where
  "sample_edge a b = \<lparr>edge_from = a, edge_to = b, edge_source = Authored, edge_paths = None\<rparr>"

theorem topologicalOrder_correct_witness:
  "topologicalOrder 4 [sample_edge 3 1, sample_edge 2 4, sample_edge 4 2] = ([3, 1], [2, 4]) \<and>
   \<not> acyclic (edge_rel [sample_edge 3 1, sample_edge 2 4, sample_edge 4 2])"
proof -
  let ?es = "[sample_edge 3 1, sample_edge 2 4, sample_edge 4 2]"
  have "wf_edges 4 ?es" by (simp add: wf_edges_def sample_edge_def)
  moreover have "topologicalOrder 4 ?es = ([3, 1], [2, 4])" by code_simp
  ultimately show ?thesis using topologicalOrder_correct [of 4 ?es] by simp
qed

text \<open>
  The authored edges are exactly the declared dependencies, each reference resolved to the
  unique task with that id or else the unique one with that title, and the reachability sets
  are their transitive closure.
\<close>

theorem authored_edges_exact:
  assumes "resolveDependencySlots tasks = (authored, fs)" and "a \<le> length tasks"
  shows "edge_rel authored = {(a, b). depends_on tasks a b} \<and>
    set (buildReachability (length tasks) authored ! a) = {(a, b). depends_on tasks a b}\<^sup>+ `` {a}"
  using resolveDependencySlots_spec(1,2) [OF assms(1)] reachability_closure [OF _ assms(2)] by simp

theorem authored_edges_exact_witness:
  "(1, 3) \<in> {(a, b). depends_on [sample_task ''a'' PENDING [] None,
     sample_task ''b'' PENDING ['' Task a ''] None, sample_task ''c'' PENDING [''b''] None] a b}\<^sup>+"
proof -
  let ?ts = "[sample_task ''a'' PENDING [] None, sample_task ''b'' PENDING ['' Task a ''] None,
     sample_task ''c'' PENDING [''b''] None]"
  obtain authored fs where r: "resolveDependencySlots ?ts = (authored, fs)" by fastforce
  have "(case resolveDependencySlots ?ts of (es, _) \<Rightarrow> buildReachability (length ?ts) es ! 1) = [2, 3]"
    by code_simp
  with authored_edges_exact [OF r, of 1] r show ?thesis by auto
qed

end
