(* ===== verification/Dependency_Scheduler.thy ===== *)
theory Dependency_Scheduler
  imports Topology_Correct
begin

text \<open>
  \<open>src/orchestra/dependency-scheduler.ts\<close>: the id-keyed dependency graph of a sprint, the
  eligibility filter, the failure cascade and its undoing, and the persisted form. Tasks that
  the code mutates in place are threaded through as the updated task list; the transition
  callback is the list of its events; \<open>debugLog\<close> is left out.
\<close>

section \<open>Data\<close>

record DependencyWave =
  waveIndex :: int
  wave_taskIds :: "task_id list"

record DependencyGraph =
  dg_dependencies :: "(task_id, task_id js_set) js_map"
  dg_dependents :: "(task_id, task_id js_set) js_map"
  waveAssignment :: "(task_id, int) js_map"
  dg_waves :: "DependencyWave list"
  hasCycle :: bool
  cycleTaskIds :: "task_id list"

record EnforcementResult =
  eligible :: "task_id list"
  blocked :: "task_id list"
  reasons :: "(task_id, task_id list) js_map"

datatype CascadeTransition = BLOCKED | UNBLOCKED

record CascadeTransitionEvent =
  transition :: CascadeTransition
  event_taskId :: task_id
  triggerTaskId :: task_id
  event_failureCategory :: "string option"
  fromStatus :: TaskStatus
  toStatus :: TaskStatus

definition neighbours :: "(task_id, task_id js_set) js_map \<Rightarrow> task_id \<Rightarrow> task_id js_set" where
  "neighbours m i = (case map_of m i of None \<Rightarrow> [] | Some s \<Rightarrow> s)"

section \<open>Building the graph\<close>

text \<open>\<open>map.get(key)?.add(value)\<close>\<close>

definition add_to :: "task_id \<Rightarrow> task_id \<Rightarrow> (task_id, task_id js_set) js_map \<Rightarrow> (task_id, task_id js_set) js_map" where
  "add_to key v m = (case map_of m key of None \<Rightarrow> m | Some s \<Rightarrow> AList.update key (js_add v s) m)"

definition empty_sets :: "task list \<Rightarrow> (task_id, task_id js_set) js_map" where
  "empty_sets tasks = foldl (\<lambda>m t. AList.update (task_id t) [] m) [] tasks"

text \<open>\<open>tasks[slot - 1]?.id\<close>, tested for truth: an empty id is no id.\<close>

definition slot_id :: "task list \<Rightarrow> nat \<Rightarrow> task_id option" where
  "slot_id tasks slot =
     (if 1 \<le> slot \<and> slot \<le> length tasks then js_truthy (Some (task_id (tasks ! (slot - 1)))) else None)"

definition add_edge ::
    "task list \<Rightarrow> ExecutionTopologyEdge \<Rightarrow>
     (task_id, task_id js_set) js_map \<times> (task_id, task_id js_set) js_map \<Rightarrow>
     (task_id, task_id js_set) js_map \<times> (task_id, task_id js_set) js_map" where
  "add_edge tasks e st =
     (let (deps, rdeps) = st
      in case (slot_id tasks (edge_from e), slot_id tasks (edge_to e)) of
           (Some source, Some target) \<Rightarrow> (add_to target source deps, add_to source target rdeps)
         | _ \<Rightarrow> (deps, rdeps))"

text \<open>
  An unresolved reference stays a runtime dependency. Such a finding has one slot, the slot of
  a task, and a reference, so the defaults of the code for missing ones do not apply.
\<close>

definition keep_unresolved ::
    "task list \<Rightarrow> ExecutionTopologyFinding \<Rightarrow> (task_id, task_id js_set) js_map \<Rightarrow>
     (task_id, task_id js_set) js_map" where
  "keep_unresolved tasks f deps =
     (if finding_code f = UnresolvedDependency
      then (case (finding_slots f, finding_ref f) of
              (slot # _, Some ref) \<Rightarrow>
                (if 1 \<le> slot \<and> slot \<le> length tasks then add_to (task_id (tasks ! (slot - 1))) ref deps
                 else deps)
            | _ \<Rightarrow> deps)
      else deps)"

definition without_writers :: "task \<Rightarrow> task" where
  "without_writers t = t\<lparr>task_scope := (task_scope t)\<lparr>filesWrite := []\<rparr>\<rparr>"

definition sched_workers :: "task list \<Rightarrow> rat option" where
  "sched_workers tasks = Some (of_nat (max 1 (length tasks)))"

definition graph_waves :: "task list \<Rightarrow> ExecutionTopology \<Rightarrow> DependencyWave list" where
  "graph_waves tasks topology =
     map (\<lambda>w. \<lparr>waveIndex = int (wave w) - 1,
            wave_taskIds = map (\<lambda>slot. task_id (tasks ! (slot - 1))) (wave_slots w)\<rparr>) (waves topology)"

definition assign_waves :: "DependencyWave list \<Rightarrow> (task_id, int) js_map" where
  "assign_waves ws =
     foldl (\<lambda>m w. foldl (\<lambda>m i. AList.update i (waveIndex w) m) m (wave_taskIds w)) [] ws"

definition cycle_ids :: "task list \<Rightarrow> ExecutionTopology \<Rightarrow> task_id list" where
  "cycle_ids tasks topology =
     js_set_of (concat (map (\<lambda>slot. case slot_id tasks slot of None \<Rightarrow> [] | Some i \<Rightarrow> [i])
       (concat (map finding_slots
          (filter (\<lambda>f. finding_code f = DependencyCycle) (findings topology))))))"

definition buildDependencyGraph :: "task list \<Rightarrow> bool \<Rightarrow> DependencyGraph" where
  "buildDependencyGraph tasks includeCollisions =
     (let topology = deriveExecutionTopology tasks (sched_workers tasks);
          selectedEdges = (if includeCollisions then effectiveEdges topology else authoredEdges topology);
          (deps, rdeps) = foldl (\<lambda>st e. add_edge tasks e st) (empty_sets tasks, empty_sets tasks) selectedEdges;
          deps' = foldl (\<lambda>m f. keep_unresolved tasks f m) deps (findings topology);
          selected = (if includeCollisions then topology
                      else deriveExecutionTopology (map without_writers tasks) (sched_workers tasks));
          ws = graph_waves tasks selected;
          cyc = cycle_ids tasks selected
      in \<lparr>dg_dependencies = deps', dg_dependents = rdeps, waveAssignment = assign_waves ws,
          dg_waves = ws, hasCycle = cyc \<noteq> [], cycleTaskIds = cyc\<rparr>)"

section \<open>Eligibility\<close>

definition enforce_one :: "DependencyGraph \<Rightarrow> task_id set \<Rightarrow> task_id \<Rightarrow> EnforcementResult \<Rightarrow> EnforcementResult" where
  "enforce_one graph doneTasks taskId r =
     (let unresolved = filter (\<lambda>d. d \<notin> doneTasks) (neighbours (dg_dependencies graph) taskId)
      in if unresolved = [] then r\<lparr>eligible := eligible r @ [taskId]\<rparr>
         else r\<lparr>blocked := blocked r @ [taskId],
                reasons := AList.update taskId unresolved (reasons r)\<rparr>)"

definition enforceWaveDependency :: "DependencyGraph \<Rightarrow> task_id list \<Rightarrow> task_id set \<Rightarrow> EnforcementResult" where
  "enforceWaveDependency graph candidateTaskIds doneTasks =
     foldl (\<lambda>r i. enforce_one graph doneTasks i r) \<lparr>eligible = [], blocked = [], reasons = []\<rparr>
       candidateTaskIds"

section \<open>Failure cascade\<close>

text \<open>The inner loop over the dependents of one task: (visited, blockedTaskIds, queue).\<close>

fun visit_dependents ::
    "task_id list \<Rightarrow> task_id js_set \<times> task_id list \<times> task_id list \<Rightarrow>
     task_id js_set \<times> task_id list \<times> task_id list" where
  "visit_dependents [] st = st"
| "visit_dependents (d # ds) (visited, out, queue) =
     (if d \<in> set visited then visit_dependents ds (visited, out, queue)
      else visit_dependents ds (js_add d visited, out @ [d], queue @ [d]))"

definition graph_nodes :: "(task_id, task_id js_set) js_map \<Rightarrow> task_id set" where
  "graph_nodes m = \<Union> (set ` snd ` set m)"

lemma neighbours_nodes: "set (neighbours m i) \<subseteq> graph_nodes m"
  by (auto simp: neighbours_def graph_nodes_def split: option.splits)
    (metis map_of_SomeD snd_conv)

lemma finite_graph_nodes [simp]: "finite (graph_nodes m)"
  by (auto simp: graph_nodes_def)

lemma visit_measure:
  "set ds \<subseteq> U \<Longrightarrow> finite U \<Longrightarrow> visit_dependents ds (visited, out, queue) = (visited', out', queue') \<Longrightarrow>
   length queue' + card (U - set visited') \<le> length queue + card (U - set visited)"
proof (induction ds arbitrary: visited out queue)
  case (Cons d ds)
  show ?case
  proof (cases "d \<in> set visited")
    case True
    with Cons show ?thesis by simp
  next
    case False
    with Cons.prems(1,2) have "card (U - set visited) = Suc (card (U - insert d (set visited)))"
      using card.remove [of "U - set visited" d] by (simp add: Diff_insert [of U d])
    with False Cons show ?thesis by fastforce
  qed
qed simp

function block_loop ::
    "(task_id, task_id js_set) js_map \<Rightarrow> task_id js_set \<Rightarrow> task_id list \<Rightarrow> task_id list \<Rightarrow> task_id list" where
  "block_loop rdeps visited out [] = out"
| "block_loop rdeps visited out (current # queue) =
     (case visit_dependents (neighbours rdeps current) (visited, out, queue) of
        (visited', out', queue') \<Rightarrow> block_loop rdeps visited' out' queue')"
  by pat_completeness auto
termination
  by (relation "measure (\<lambda>(m, visited, out, queue). length queue + card (graph_nodes m - set visited))")
    (auto split: prod.split dest: visit_measure [OF neighbours_nodes finite_graph_nodes] simp: less_Suc_eq_le)

definition block_task :: "task_id list \<Rightarrow> task \<Rightarrow> task" where
  "block_task ids t = (if task_id t \<in> set ids \<and> task_status t = PENDING then t\<lparr>task_status := PAUSED\<rparr> else t)"

definition block_events :: "task_id list \<Rightarrow> task_id \<Rightarrow> task list \<Rightarrow> CascadeTransitionEvent list" where
  "block_events ids failed tasks =
     map (\<lambda>t. \<lparr>transition = BLOCKED, event_taskId = task_id t, triggerTaskId = failed,
            event_failureCategory = None, fromStatus = PENDING, toStatus = PAUSED\<rparr>)
       (filter (\<lambda>t. task_id t \<in> set ids \<and> task_status t = PENDING) tasks)"

text \<open>The result: the blocked ids, the updated tasks and the events in order.\<close>

definition cascadeBlockDependents ::
    "DependencyGraph \<Rightarrow> task_id \<Rightarrow> task list \<Rightarrow> task_id list \<times> task list \<times> CascadeTransitionEvent list" where
  "cascadeBlockDependents graph failedTaskId tasks =
     (let ids = block_loop (dg_dependents graph) [failedTaskId] [] [failedTaskId]
      in (ids, map (block_task ids) tasks, block_events ids failedTaskId tasks))"

record ApplyFailureCascadeResult =
  blockedTaskIds :: "task_id list"
  totalBlocked :: nat
  cascadeApplied :: bool
  failureCategory :: string

definition applyFailureCascade ::
    "DependencyGraph \<Rightarrow> task_id \<Rightarrow> task list \<Rightarrow> bool \<Rightarrow> string \<Rightarrow>
     ApplyFailureCascadeResult \<times> task list \<times> CascadeTransitionEvent list" where
  "applyFailureCascade graph failedTaskId tasks shouldCascade category =
     (if \<not> shouldCascade
      then (\<lparr>blockedTaskIds = [], totalBlocked = 0, cascadeApplied = False, failureCategory = category\<rparr>,
            tasks, [])
      else (let (ids, tasks', events) = cascadeBlockDependents graph failedTaskId tasks
            in (\<lparr>blockedTaskIds = ids, totalBlocked = length ids, cascadeApplied = True,
                 failureCategory = category\<rparr>,
                tasks', map (\<lambda>e. e\<lparr>event_failureCategory := Some category\<rparr>) events)))"

section \<open>Unblocking\<close>

text \<open>\<open>taskMap\<close> holds the last task of an id; its status is written in place.\<close>

fun set_first_status :: "task_id \<Rightarrow> TaskStatus \<Rightarrow> task list \<Rightarrow> task list" where
  "set_first_status i st [] = []"
| "set_first_status i st (t # ts) =
     (if task_id t = i then t\<lparr>task_status := st\<rparr> # ts else t # set_first_status i st ts)"

definition set_status :: "task_id \<Rightarrow> TaskStatus \<Rightarrow> task list \<Rightarrow> task list" where
  "set_status i st tasks = rev (set_first_status i st (rev tasks))"

definition unblock_one ::
    "DependencyGraph \<Rightarrow> task_id \<Rightarrow> task_id set \<Rightarrow> task_id \<Rightarrow>
     task_id list \<times> task list \<times> CascadeTransitionEvent list \<Rightarrow>
     task_id list \<times> task list \<times> CascadeTransitionEvent list" where
  "unblock_one graph resolved doneTasks depId st =
     (let (ids, tasks, events) = st
      in case map_of (tasks_by_id tasks) depId of
           None \<Rightarrow> st
         | Some t \<Rightarrow>
             (if task_status t \<noteq> PAUSED then st
              else if list_all (\<lambda>d. d \<in> doneTasks) (neighbours (dg_dependencies graph) depId)
              then (ids @ [depId], set_status depId PENDING tasks,
                    events @ [\<lparr>transition = UNBLOCKED, event_taskId = depId, triggerTaskId = resolved,
                       event_failureCategory = None, fromStatus = PAUSED, toStatus = PENDING\<rparr>])
              else st))"

definition unblockDependents ::
    "DependencyGraph \<Rightarrow> task_id \<Rightarrow> task list \<Rightarrow> task_id set \<Rightarrow>
     task_id list \<times> task list \<times> CascadeTransitionEvent list" where
  "unblockDependents graph resolvedTaskId tasks doneTasks =
     foldl (\<lambda>st i. unblock_one graph resolvedTaskId doneTasks i st) ([], tasks, [])
       (neighbours (dg_dependents graph) resolvedTaskId)"

section \<open>Persistence\<close>

text \<open>
  The records of the serialised form are keyed like the maps: an object keeps insertion order
  for keys that are not array indices, as task ids are not.
\<close>

record SerializedDependencyGraph =
  ser_dependencies :: "(task_id, task_id list) js_map"
  ser_dependents :: "(task_id, task_id list) js_map"
  ser_waveAssignment :: "(task_id, int) js_map"
  ser_waves :: "DependencyWave list"
  ser_hasCycle :: bool
  ser_cycleTaskIds :: "task_id list"
  persistedAt :: string
  sprintId :: string

definition serialize_sets :: "(task_id, task_id js_set) js_map \<Rightarrow> (task_id, task_id list) js_map" where
  "serialize_sets m = foldl (\<lambda>r (i, deps). AList.update i (js_sort compareCodePoint deps) r) [] m"

definition deserialize_sets :: "(task_id, task_id list) js_map \<Rightarrow> (task_id, task_id js_set) js_map" where
  "deserialize_sets r = foldl (\<lambda>m (i, deps). AList.update i (js_set_of deps) m) [] r"

definition serializeDependencyGraph :: "DependencyGraph \<Rightarrow> string \<Rightarrow> string \<Rightarrow> SerializedDependencyGraph" where
  "serializeDependencyGraph graph sprint nowIso =
     \<lparr>ser_dependencies = serialize_sets (dg_dependencies graph),
      ser_dependents = serialize_sets (dg_dependents graph),
      ser_waveAssignment = js_map_of (waveAssignment graph),
      ser_waves = dg_waves graph, ser_hasCycle = hasCycle graph,
      ser_cycleTaskIds = cycleTaskIds graph, persistedAt = nowIso, sprintId = sprint\<rparr>"

definition deserializeDependencyGraph :: "SerializedDependencyGraph \<Rightarrow> DependencyGraph" where
  "deserializeDependencyGraph s =
     \<lparr>dg_dependencies = deserialize_sets (ser_dependencies s),
      dg_dependents = deserialize_sets (ser_dependents s),
      waveAssignment = js_map_of (ser_waveAssignment s),
      dg_waves = ser_waves s, hasCycle = ser_hasCycle s, cycleTaskIds = ser_cycleTaskIds s\<rparr>"

section \<open>The Mermaid diagram\<close>

definition safe_id :: "task_id \<Rightarrow> string" where
  "safe_id i = js_replace_char (CHR ''-'') (CHR ''_'') i"

definition wave_of :: "DependencyGraph \<Rightarrow> task_id \<Rightarrow> int" where
  "wave_of graph i = (case map_of (waveAssignment graph) i of None \<Rightarrow> 0 | Some w \<Rightarrow> w)"

definition node_lines :: "DependencyGraph \<Rightarrow> string list" where
  "node_lines graph =
     map (\<lambda>i. ''  '' @ safe_id i @ ''['' @ [CHR 0x22] @ i @ '' (W'' @ show_int (wave_of graph i) @ '')'' @ [CHR 0x22] @ '']'')
       (js_sort compareCodePoint (map fst (waveAssignment graph)))"

definition edge_lines :: "DependencyGraph \<Rightarrow> string list" where
  "edge_lines graph =
     concat (map (\<lambda>(i, deps). map (\<lambda>d. ''  '' @ safe_id d @ '' --> '' @ safe_id i) deps)
       (dg_dependencies graph))"

definition class_lines ::
    "DependencyGraph \<Rightarrow> (task_id, TaskStatus) js_map \<Rightarrow> TaskStatus \<Rightarrow> string \<Rightarrow> string \<Rightarrow> string list" where
  "class_lines graph statuses st name style =
     (let ids = map (\<lambda>(i, _). safe_id i)
            (filter (\<lambda>(i, s). map_of (waveAssignment graph) i \<noteq> None \<and> s = st) statuses)
      in if ids = [] then []
         else [''  classDef '' @ name @ '' '' @ style, ''  class '' @ js_join '','' ids @ '' '' @ name])"

definition generateMermaidDiagram :: "DependencyGraph \<Rightarrow> (task_id, TaskStatus) js_map \<Rightarrow> string" where
  "generateMermaidDiagram graph statuses =
     js_join [CHR 0x0A] ([''graph TD''] @ node_lines graph @ edge_lines graph @
       class_lines graph statuses DONE ''done'' ''fill:#4caf50,stroke:#2e7d32,color:#fff'' @
       class_lines graph statuses NO_GO ''nogo'' ''fill:#f44336,stroke:#c62828,color:#fff'' @
       class_lines graph statuses PAUSED ''paused'' ''fill:#ff9800,stroke:#e65100,color:#fff'' @
       class_lines graph statuses EXECUTING ''executing'' ''fill:#2196f3,stroke:#1565c0,color:#fff'')"

end
