(* ===== verification/Dependency_Correct.thy ===== *)
theory Dependency_Correct
  imports Dependency_Scheduler
begin

text \<open>
  Correctness of the runtime dependency graph: eligibility, the failure cascade as the
  transitive closure of the dependents, its undoing, and the persisted form.
\<close>

section \<open>The cascade\<close>

lemma visit_dependents_spec:
  "\<exists>news. distinct news \<and> set news = set ds - set visited \<and>
     visit_dependents ds (visited, out, queue) = (visited @ news, out @ news, queue @ news)"
proof (induction ds arbitrary: visited out queue)
  case (Cons d ds)
  show ?case
  proof (cases "d \<in> set visited")
    case True
    with Cons show ?thesis by (simp add: insert_Diff_if)
  next
    case False
    from Cons [of "visited @ [d]" "out @ [d]" "queue @ [d]"] obtain news where
      "distinct news" "set news = set ds - set (visited @ [d])"
      "visit_dependents ds (visited @ [d], out @ [d], queue @ [d]) =
         (visited @ d # news, out @ d # news, queue @ d # news)" by auto
    with False show ?thesis by (intro exI [of _ "d # news"]) (auto simp: js_add_def)
  qed
qed simp

definition dependent_rel :: "(task_id, task_id js_set) js_map \<Rightarrow> (task_id \<times> task_id) set" where
  "dependent_rel m = {(a, b). b \<in> set (neighbours m a)}"

definition block_inv :: "(task_id, task_id js_set) js_map \<Rightarrow> task_id \<Rightarrow> task_id list \<Rightarrow> task_id list \<Rightarrow> bool" where
  "block_inv m failed out queue \<longleftrightarrow> distinct (failed # out) \<and> set queue \<subseteq> insert failed (set out) \<and>
     (\<forall>x \<in> insert failed (set out) - set queue. set (neighbours m x) \<subseteq> insert failed (set out)) \<and>
     (\<forall>x \<in> set out. (failed, x) \<in> (dependent_rel m)\<^sup>+)"

lemma block_loop_inv:
  "block_inv m failed out queue \<Longrightarrow> block_inv m failed (block_loop m (failed # out) out queue) []"
proof (induction m "failed # out" out queue rule: block_loop.induct)
  case (2 m out c queue)
  from visit_dependents_spec obtain news where news: "distinct news"
    "set news = set (neighbours m c) - set (failed # out)"
    "visit_dependents (neighbours m c) (failed # out, out, queue) = ((failed # out) @ news, out @ news, queue @ news)"
    by blast
  have "(failed, c) \<in> (dependent_rel m)\<^sup>*" using "2.prems" by (auto simp: block_inv_def)
  then have reach: "(failed, x) \<in> (dependent_rel m)\<^sup>+" if "x \<in> set news" for x
    using that news(2) by (auto simp: dependent_rel_def intro: rtrancl_into_trancl1)
  have "block_inv m failed (out @ news) (queue @ news)"
    unfolding block_inv_def
  proof (intro conjI)
    show "distinct (failed # out @ news)" using "2.prems" news by (auto simp: block_inv_def)
    show "set (queue @ news) \<subseteq> insert failed (set (out @ news))"
      using "2.prems" by (auto simp: block_inv_def)
    show "\<forall>x \<in> insert failed (set (out @ news)) - set (queue @ news).
        set (neighbours m x) \<subseteq> insert failed (set (out @ news))"
    proof
      fix x assume x: "x \<in> insert failed (set (out @ news)) - set (queue @ news)"
      show "set (neighbours m x) \<subseteq> insert failed (set (out @ news))"
      proof (cases "x = c")
        case True
        with news(2) show ?thesis by auto
      next
        case False
        with x "2.prems" have "set (neighbours m x) \<subseteq> insert failed (set out)" by (auto simp: block_inv_def)
        then show ?thesis by auto
      qed
    qed
    show "\<forall>x \<in> set (out @ news). (failed, x) \<in> (dependent_rel m)\<^sup>+"
      using "2.prems" reach by (auto simp: block_inv_def)
  qed
  with "2.hyps" [of "out @ news" "(out @ news, queue @ news)" "queue @ news"] news(3) show ?case by simp
qed simp

lemma block_loop_closure:
  "set (block_loop m [failed] [] [failed]) = (dependent_rel m)\<^sup>+ `` {failed} - {failed}"
  "distinct (block_loop m [failed] [] [failed])"
proof -
  define out where "out = block_loop m [failed] [] [failed]"
  have "block_inv m failed [] [failed]" by (simp add: block_inv_def)
  then have inv: "block_inv m failed out []" unfolding out_def by (rule block_loop_inv)
  have "y \<in> insert failed (set out)" if "(failed, y) \<in> (dependent_rel m)\<^sup>+" for y
    using that
    by induction (use inv in \<open>auto simp: block_inv_def dependent_rel_def\<close>)
  with inv have "set out = (dependent_rel m)\<^sup>+ `` {failed} - {failed} \<and> distinct out"
    by (auto simp: block_inv_def)
  then show "set (block_loop m [failed] [] [failed]) = (dependent_rel m)\<^sup>+ `` {failed} - {failed}"
    "distinct (block_loop m [failed] [] [failed])" unfolding out_def by auto
qed

text \<open>
  C19 The failure cascade blocks exactly the transitive dependents of the failed task, each
  once, on cyclic graphs too: the pending ones of them become PAUSED, with one event each
  in task order, and every other task is unchanged.
\<close>

theorem cascade_blocks_transitive:
  "let (ids, tasks', events) = cascadeBlockDependents graph failed tasks;
       hit = (dependent_rel (dg_dependents graph))\<^sup>+ `` {failed} - {failed};
       paused = filter (\<lambda>t. task_id t \<in> hit \<and> task_status t = PENDING) tasks
   in distinct ids \<and> set ids = hit \<and>
      tasks' = map (\<lambda>t. if t \<in> set paused then t\<lparr>task_status := PAUSED\<rparr> else t) tasks \<and>
      map event_taskId events = map task_id paused"
  using block_loop_closure [of "dg_dependents graph" failed]
  by (auto simp: cascadeBlockDependents_def Let_def block_task_def block_events_def)

text \<open>
  The failure policy: only a cascading failure blocks anything; a runtime or ambiguous one
  leaves the tasks alone and emits nothing, and every event of a cascading one carries its
  failure category.
\<close>

theorem failure_cascade_policy:
  "let (r, tasks', events) = applyFailureCascade graph failed tasks shouldCascade category
   in cascadeApplied r = shouldCascade \<and> totalBlocked r = length (blockedTaskIds r) \<and>
      failureCategory r = category \<and>
      (if shouldCascade
       then tasks' = fst (snd (cascadeBlockDependents graph failed tasks)) \<and>
            list_all (\<lambda>e. event_failureCategory e = Some category) events
       else blockedTaskIds r = [] \<and> tasks' = tasks \<and> events = [])"
  by (simp add: applyFailureCascade_def Let_def list_all_iff split: prod.split)

section \<open>Eligibility\<close>

lemma enforce_fold:
  "foldl (\<lambda>r i. enforce_one graph doneTasks i r) r cs =
     r\<lparr>eligible := eligible r @ filter (\<lambda>i. set (neighbours (dg_dependencies graph) i) \<subseteq> doneTasks) cs,
       blocked := blocked r @ filter (\<lambda>i. \<not> set (neighbours (dg_dependencies graph) i) \<subseteq> doneTasks) cs,
       reasons := foldl (\<lambda>m i. AList.update i
           (filter (\<lambda>d. d \<notin> doneTasks) (neighbours (dg_dependencies graph) i)) m) (reasons r)
         (filter (\<lambda>i. \<not> set (neighbours (dg_dependencies graph) i) \<subseteq> doneTasks) cs)\<rparr>"
proof (induction cs arbitrary: r)
  case (Cons c cs)
  have "filter (\<lambda>d. d \<notin> doneTasks) (neighbours (dg_dependencies graph) c) = [] \<longleftrightarrow>
      set (neighbours (dg_dependencies graph) c) \<subseteq> doneTasks"
    by (auto simp: filter_empty_conv)
  with Cons show ?case by (simp add: enforce_one_def Let_def)
qed simp

lemma foldl_update_lookup:
  "map_of (foldl (\<lambda>m i. AList.update i (f i) m) m xs) k = (if k \<in> set xs then Some (f k) else map_of m k)"
  by (induction xs arbitrary: m) (auto simp: update_conv')

text \<open>
  Eligibility is exact: the candidates split, in order, into those whose dependencies are
  all done and the rest, and each of the rest is reported with precisely its missing ones.
\<close>

theorem enforcement_exact:
  "let r = enforceWaveDependency graph candidates doneTasks;
       ok = (\<lambda>i. set (neighbours (dg_dependencies graph) i) \<subseteq> doneTasks)
   in eligible r = filter ok candidates \<and> blocked r = filter (\<lambda>i. \<not> ok i) candidates \<and>
      map_of (reasons r) = (\<lambda>i. if i \<in> set (blocked r)
        then Some (filter (\<lambda>d. d \<notin> doneTasks) (neighbours (dg_dependencies graph) i)) else None)"
  unfolding enforceWaveDependency_def enforce_fold Let_def
  by (auto simp: foldl_update_lookup fun_eq_iff)

section \<open>Unblocking\<close>

definition status_of :: "task list \<Rightarrow> task_id \<Rightarrow> TaskStatus option" where
  "status_of tasks i = map_option task_status (map_of (tasks_by_id tasks) i)"

lemma map_of_set_first:
  "map_of (map (\<lambda>t. (task_id t, t)) (set_first_status i st ts)) j =
   (if j = i then map_option (\<lambda>t. t\<lparr>task_status := st\<rparr>) (map_of (map (\<lambda>t. (task_id t, t)) ts) i)
    else map_of (map (\<lambda>t. (task_id t, t)) ts) j)"
  by (induction ts) auto

lemma status_of_set_status:
  "status_of (set_status i st tasks) j =
   (if j = i \<and> status_of tasks i \<noteq> None then Some st else status_of tasks j)"
proof -
  have "map_of (tasks_by_id (set_status i st tasks)) j =
      (if j = i then map_option (\<lambda>t. t\<lparr>task_status := st\<rparr>) (map_of (tasks_by_id tasks) i)
       else map_of (tasks_by_id tasks) j)"
    using map_of_set_first [of i st "rev tasks" j] by (simp add: tasks_by_id_def set_status_def rev_map)
  then show ?thesis by (auto simp: status_of_def)
qed

lemma unblock_fold:
  fixes graph resolved doneTasks
  defines "deps_done \<equiv> \<lambda>i. set (neighbours (dg_dependencies graph) i) \<subseteq> doneTasks"
  assumes "(ids', tasks', events') = foldl (\<lambda>st i. unblock_one graph resolved doneTasks i st) (ids, tasks, events) ds"
  shows "set ids' = set ids \<union> {i \<in> set ds. status_of tasks i = Some PAUSED \<and> deps_done i} \<and>
    (\<forall>j. status_of tasks' j = (if j \<in> set ds \<and> status_of tasks j = Some PAUSED \<and> deps_done j
       then Some PENDING else status_of tasks j)) \<and>
    (map event_taskId events = ids \<longrightarrow> map event_taskId events' = ids')"
  using assms(2)
proof (induction ds arbitrary: ids tasks events)
  case (Cons d ds)
  show ?case
  proof (cases "status_of tasks d = Some PAUSED \<and> deps_done d")
    case True
    then obtain t where t: "map_of (tasks_by_id tasks) d = Some t" "task_status t = PAUSED"
      by (auto simp: status_of_def)
    with True have "(ids', tasks', events') = foldl (\<lambda>st i. unblock_one graph resolved doneTasks i st)
        (ids @ [d], set_status d PENDING tasks, events @ [\<lparr>transition = UNBLOCKED, event_taskId = d,
           triggerTaskId = resolved, event_failureCategory = None, fromStatus = PAUSED, toStatus = PENDING\<rparr>]) ds"
      using Cons.prems by (simp add: unblock_one_def deps_done_def list_all_iff subset_iff)
    from Cons.IH [OF this] True show ?thesis by (auto simp: status_of_set_status)
  next
    case False
    then have "unblock_one graph resolved doneTasks d (ids, tasks, events) = (ids, tasks, events)"
      by (auto simp: unblock_one_def status_of_def deps_done_def list_all_iff split: option.split)
    with Cons.prems have "(ids', tasks', events') =
        foldl (\<lambda>st i. unblock_one graph resolved doneTasks i st) (ids, tasks, events) ds" by simp
    from Cons.IH [OF this] False show ?thesis by auto
  qed
qed simp

text \<open>
  Resolving a task re-enables exactly its direct dependents that are PAUSED and whose
  dependencies are all done: they become PENDING, one event each, and no other status changes.
\<close>

theorem unblock_exact:
  "let (ids, tasks', events) = unblockDependents graph resolved tasks doneTasks;
       ok = (\<lambda>i. i \<in> set (neighbours (dg_dependents graph) resolved) \<and> status_of tasks i = Some PAUSED \<and>
               set (neighbours (dg_dependencies graph) i) \<subseteq> doneTasks)
   in set ids = {i. ok i} \<and> map event_taskId events = ids \<and>
      status_of tasks' = (\<lambda>i. if ok i then Some PENDING else status_of tasks i)"
proof -
  obtain ids tasks' events where u: "unblockDependents graph resolved tasks doneTasks = (ids, tasks', events)"
    by (cases "unblockDependents graph resolved tasks doneTasks") auto
  from unblock_fold [OF u [unfolded unblockDependents_def, symmetric]] show ?thesis
    unfolding u by (auto simp: fun_eq_iff)
qed

section \<open>Persistence\<close>

lemma alist_update_new: "k \<notin> fst ` set r \<Longrightarrow> AList.update k v r = r @ [(k, v)]"
  by (induction r) auto

lemma foldl_map_update:
  "distinct (map fst m) \<Longrightarrow> fst ` set m \<inter> fst ` set r = {} \<Longrightarrow>
   foldl (\<lambda>r (i, v). AList.update i (f v) r) r m = r @ map (\<lambda>(i, v). (i, f v)) m"
proof (induction m arbitrary: r)
  case (Cons x m)
  obtain i v where x: "x = (i, v)" by (cases x)
  have "AList.update i (f v) r = r @ [(i, f v)]"
    using Cons.prems x by (intro alist_update_new) auto
  with Cons x show ?case by auto
qed simp

lemma js_map_of_distinct: "distinct (map fst m) \<Longrightarrow> js_map_of m = m"
  using foldl_map_update [of m "[]" "\<lambda>v. v"] by (simp add: js_map_of_def)

definition wf_graph :: "DependencyGraph \<Rightarrow> bool" where
  "wf_graph g \<longleftrightarrow> distinct (map fst (dg_dependencies g)) \<and> distinct (map fst (dg_dependents g)) \<and>
     distinct (map fst (waveAssignment g)) \<and>
     list_all (\<lambda>(_, s). distinct s) (dg_dependencies g) \<and> list_all (\<lambda>(_, s). distinct s) (dg_dependents g)"

text \<open>The graph as a mathematical object: edge sets and wave numbers, orders forgotten.\<close>

definition graph_view :: "DependencyGraph \<Rightarrow>
    (task_id \<Rightarrow> task_id set option) \<times> (task_id \<Rightarrow> task_id set option) \<times> (task_id \<Rightarrow> int option) \<times>
    DependencyWave list \<times> bool \<times> task_id list" where
  "graph_view g = (map_option set \<circ> map_of (dg_dependencies g), map_option set \<circ> map_of (dg_dependents g),
     map_of (waveAssignment g), dg_waves g, hasCycle g, cycleTaskIds g)"

lemma serialize_sets_map:
  "distinct (map fst m) \<Longrightarrow> serialize_sets m = map (\<lambda>(i, s). (i, js_sort compareCodePoint s)) m"
  unfolding serialize_sets_def using foldl_map_update [of m "[]" "js_sort compareCodePoint"] by simp

lemma deserialize_sets_map:
  "distinct (map fst m) \<Longrightarrow> deserialize_sets m = map (\<lambda>(i, s). (i, js_set_of s)) m"
  unfolding deserialize_sets_def using foldl_map_update [of m "[]" js_set_of] by simp

lemma map_of_map_snd: "map_of (map (\<lambda>(i, s). (i, f s)) m) = map_option f \<circ> map_of m"
  by (induction m) (auto simp: fun_eq_iff)

lemma distinct_map_snd: "distinct (map fst (map (\<lambda>(i, s). (i, f s)) m)) = distinct (map fst m)"
  by (simp add: comp_def case_prod_beta)

lemma sets_roundtrip:
  assumes "distinct (map fst m)" and "list_all (\<lambda>(_, s). distinct s) m"
  shows "deserialize_sets (serialize_sets m) = map (\<lambda>(i, s). (i, js_sort compareCodePoint s)) m"
proof -
  have "deserialize_sets (serialize_sets m) =
      map (\<lambda>(i, s). (i, js_set_of s)) (map (\<lambda>(i, s). (i, js_sort compareCodePoint s)) m)"
    using assms(1) by (simp add: serialize_sets_map deserialize_sets_map distinct_map_snd del: map_map)
  also have "\<dots> = map (\<lambda>(i, s). (i, js_sort compareCodePoint s)) m"
    using assms(2) by (auto simp: list_all_iff js_set_of_id)
  finally show ?thesis .
qed

text \<open>
  The persisted form loses nothing and is canonical: loading a saved graph gives back the
  same edges, waves and cycle report, and saving the loaded graph gives the same file.
\<close>

theorem graph_roundtrip:
  assumes "wf_graph g"
  shows "graph_view (deserializeDependencyGraph (serializeDependencyGraph g sprint now)) = graph_view g \<and>
    serializeDependencyGraph (deserializeDependencyGraph (serializeDependencyGraph g sprint now)) sprint now
      = serializeDependencyGraph g sprint now"
proof -
  have w: "js_map_of (js_map_of (waveAssignment g)) = waveAssignment g"
    "js_map_of (waveAssignment g) = waveAssignment g"
    using assms by (simp_all add: wf_graph_def js_map_of_distinct)
  have rt: "deserialize_sets (serialize_sets (dg_dependencies g)) =
        map (\<lambda>(i, s). (i, js_sort compareCodePoint s)) (dg_dependencies g)"
    "deserialize_sets (serialize_sets (dg_dependents g)) =
        map (\<lambda>(i, s). (i, js_sort compareCodePoint s)) (dg_dependents g)"
    using assms by (simp_all add: wf_graph_def sets_roundtrip)
  have again: "serialize_sets (map (\<lambda>(i, s). (i, js_sort compareCodePoint s)) m) = serialize_sets m"
    if "distinct (map fst m)" for m
    using that by (simp add: serialize_sets_map distinct_map_snd compareCodePoint.js_sort_idem
        comp_def case_prod_beta del: map_map) (simp add: case_prod_beta comp_def compareCodePoint.js_sort_idem)
  show ?thesis
    using assms w rt again
    by (simp add: graph_view_def deserializeDependencyGraph_def serializeDependencyGraph_def wf_graph_def
        map_of_map_snd option.map_comp comp_def)
qed

definition sample_graph :: DependencyGraph where
  "sample_graph = buildDependencyGraph [sample_task ''a'' PENDING [] None,
     sample_task ''b'' PENDING [''a'', ''zz''] None, sample_task ''c'' PENDING [''b'', ''a''] None] True"

theorem graph_roundtrip_witness:
  "graph_view (deserializeDependencyGraph (serializeDependencyGraph sample_graph ''s'' ''t'')) =
     graph_view sample_graph \<and> map snd (dg_dependencies sample_graph) = [[], [''a'', ''zz''], [''a'', ''b'']]"
proof -
  have "wf_graph sample_graph" "map snd (dg_dependencies sample_graph) = [[], [''a'', ''zz''], [''a'', ''b'']]"
    by code_simp+
  with graph_roundtrip [of sample_graph "''s''" "''t''"] show ?thesis by simp
qed

section \<open>The graph of a plan\<close>

lemma neighbours_add_to:
  "map_of m key \<noteq> None \<Longrightarrow>
   set (neighbours (add_to key v m) i) = set (neighbours m i) \<union> (if i = key then {v} else {}) \<and>
   (map_of (add_to key v m) i = None \<longleftrightarrow> map_of m i = None)"
  by (auto simp: add_to_def neighbours_def update_conv')

lemma empty_sets_lookup: "map_of (empty_sets tasks) i = (if i \<in> task_id ` set tasks then Some [] else None)"
proof -
  have "map_of (foldl (\<lambda>m t. AList.update (task_id t) [] m) m tasks) i =
      (if i \<in> task_id ` set tasks then Some [] else map_of m i)" for m :: "(task_id, task_id js_set) js_map"
    by (induction tasks arbitrary: m) (auto simp: update_conv')
  then show ?thesis by (simp add: empty_sets_def)
qed

definition known_ids :: "task list \<Rightarrow> (task_id, task_id js_set) js_map \<Rightarrow> bool" where
  "known_ids tasks m \<longleftrightarrow> (\<forall>t \<in> set tasks. map_of m (task_id t) \<noteq> None)"

definition id_at :: "task list \<Rightarrow> nat \<Rightarrow> task_id" where
  "id_at tasks slot = task_id (tasks ! (slot - 1))"

lemma add_edges_fold:
  assumes "\<forall>t \<in> set tasks. task_id t \<noteq> []" and "wf_edges (length tasks) es"
    and "known_ids tasks deps" and "known_ids tasks rdeps"
    and "(deps', rdeps') = foldl (\<lambda>st e. add_edge tasks e st) (deps, rdeps) es"
  shows "known_ids tasks deps' \<and> known_ids tasks rdeps' \<and>
    (\<forall>i. set (neighbours deps' i) = set (neighbours deps i) \<union>
       {id_at tasks a |a b. (a, b) \<in> edge_rel es \<and> i = id_at tasks b}) \<and>
    (\<forall>i. set (neighbours rdeps' i) = set (neighbours rdeps i) \<union>
       {id_at tasks b |a b. (a, b) \<in> edge_rel es \<and> i = id_at tasks a})"
  using assms(2-)
proof (induction es arbitrary: deps rdeps)
  case (Cons e es)
  have r: "edge_from e \<in> {1..length tasks}" "edge_to e \<in> {1..length tasks}" "wf_edges (length tasks) es"
    using Cons.prems(1) by (auto simp: wf_edges_def)
  have slot: "slot_id tasks s = Some (id_at tasks s) \<and> id_at tasks s \<in> task_id ` set tasks"
    if "s \<in> {1..length tasks}" for s
  proof -
    have "tasks ! (s - 1) \<in> set tasks" using that by auto
    with that assms(1) show ?thesis by (auto simp: slot_id_def id_at_def)
  qed
  let ?d = "add_to (id_at tasks (edge_to e)) (id_at tasks (edge_from e)) deps"
  let ?r = "add_to (id_at tasks (edge_from e)) (id_at tasks (edge_to e)) rdeps"
  have known: "map_of deps (id_at tasks (edge_to e)) \<noteq> None" "map_of rdeps (id_at tasks (edge_from e)) \<noteq> None"
    using Cons.prems(2,3) slot [OF r(2)] slot [OF r(1)] by (metis imageE known_ids_def)+
  have step: "add_edge tasks e (deps, rdeps) = (?d, ?r)"
    using slot r by (simp add: add_edge_def)
  have "known_ids tasks ?d" "known_ids tasks ?r"
    using neighbours_add_to [OF known(1)] neighbours_add_to [OF known(2)] Cons.prems(2,3)
    by (auto simp: known_ids_def)
  note ih = Cons.IH [OF r(3) this, unfolded neighbours_add_to [OF known(1), THEN conjunct1]
      neighbours_add_to [OF known(2), THEN conjunct1]]
  have "(deps', rdeps') = foldl (\<lambda>st e. add_edge tasks e st) (?d, ?r) es"
    using Cons.prems(4) step by simp
  from ih [OF this] show ?case by (auto 0 3)
qed simp

lemma keep_unresolved_fold:
  assumes "known_ids tasks deps"
  shows "known_ids tasks (foldl (\<lambda>m f. keep_unresolved tasks f m) deps fs) \<and>
    (\<forall>i. set (neighbours deps i) \<subseteq> set (neighbours (foldl (\<lambda>m f. keep_unresolved tasks f m) deps fs) i)) \<and>
    (\<forall>f \<in> set fs. \<forall>slot ref. finding_code f = UnresolvedDependency \<longrightarrow> finding_slots f = [slot] \<longrightarrow>
       finding_ref f = Some ref \<longrightarrow> slot \<in> {1..length tasks} \<longrightarrow>
       ref \<in> set (neighbours (foldl (\<lambda>m f. keep_unresolved tasks f m) deps fs) (id_at tasks slot)))"
  using assms
proof (induction fs arbitrary: deps)
  case (Cons f fs)
  have add: "known_ids tasks (add_to (task_id (tasks ! (s - 1))) r deps) \<and>
      (\<forall>i. set (neighbours (add_to (task_id (tasks ! (s - 1))) r deps) i) =
        set (neighbours deps i) \<union> (if i = id_at tasks s then {r} else {}))"
    if "s \<in> {1..length tasks}" for s r
  proof -
    have "tasks ! (s - 1) \<in> set tasks" using that by auto
    then have "map_of deps (task_id (tasks ! (s - 1))) \<noteq> None" using Cons.prems by (auto simp: known_ids_def)
    from neighbours_add_to [OF this] Cons.prems show ?thesis by (auto simp: known_ids_def id_at_def)
  qed
  have k: "known_ids tasks (keep_unresolved tasks f deps)"
    and mono: "set (neighbours deps i) \<subseteq> set (neighbours (keep_unresolved tasks f deps) i)" for i
    using add Cons.prems
    by (auto simp: keep_unresolved_def Suc_le_eq split: list.split option.split)
  have here: "ref \<in> set (neighbours (keep_unresolved tasks f deps) (id_at tasks slot))"
    if "finding_code f = UnresolvedDependency" "finding_slots f = [slot]" "finding_ref f = Some ref"
      "slot \<in> {1..length tasks}" for slot ref
    using that add [of slot ref] by (auto simp: keep_unresolved_def)
  note ih = Cons.IH [OF k]
  show ?case
    unfolding foldl_Cons
  proof (intro conjI)
    show "known_ids tasks (foldl (\<lambda>m f. keep_unresolved tasks f m) (keep_unresolved tasks f deps) fs)"
      using ih by blast
    show "\<forall>i. set (neighbours deps i) \<subseteq>
        set (neighbours (foldl (\<lambda>m f. keep_unresolved tasks f m) (keep_unresolved tasks f deps) fs) i)"
      using ih mono by blast
    show "\<forall>g \<in> set (f # fs). \<forall>slot ref. finding_code g = UnresolvedDependency \<longrightarrow> finding_slots g = [slot] \<longrightarrow>
       finding_ref g = Some ref \<longrightarrow> slot \<in> {1..length tasks} \<longrightarrow>
       ref \<in> set (neighbours (foldl (\<lambda>m f. keep_unresolved tasks f m) (keep_unresolved tasks f deps) fs)
         (id_at tasks slot))"
    proof (intro ballI allI impI)
      fix g slot ref
      assume g: "g \<in> set (f # fs)" and cond: "finding_code g = UnresolvedDependency" "finding_slots g = [slot]"
        "finding_ref g = Some ref" "slot \<in> {1..length tasks}"
      show "ref \<in> set (neighbours (foldl (\<lambda>m f. keep_unresolved tasks f m) (keep_unresolved tasks f deps) fs)
         (id_at tasks slot))"
      proof (cases "g = f")
        case True
        with here cond have "ref \<in> set (neighbours (keep_unresolved tasks f deps) (id_at tasks slot))" by blast
        with ih show ?thesis by blast
      next
        case False
        with g have "g \<in> set fs" by simp
        with ih cond show ?thesis by blast
      qed
    qed
  qed
qed simp

text \<open>An unresolved reference of a task is among the findings of its topology.\<close>

lemma resolve_dependency_findings:
  "set (fst acc) \<subseteq> set (fst (foldl (\<lambda>acc r. resolve_dependency lookup target r acc) acc refs)) \<and>
   (\<forall>r \<in> set refs. lookup (js_trim r) = None \<longrightarrow>
      \<lparr>finding_code = UnresolvedDependency, finding_slots = [target], finding_path = None,
       finding_ref = Some (js_trim r)\<rparr> \<in> set (fst (foldl (\<lambda>acc r. resolve_dependency lookup target r acc) acc refs)))"
proof (induction refs arbitrary: acc)
  case (Cons r refs)
  obtain fs es where acc: "acc = (fs, es)" by (cases acc)
  have "set fs \<subseteq> set (fst (resolve_dependency lookup target r acc))"
    "lookup (js_trim r) = None \<Longrightarrow> \<lparr>finding_code = UnresolvedDependency, finding_slots = [target],
       finding_path = None, finding_ref = Some (js_trim r)\<rparr> \<in> set (fst (resolve_dependency lookup target r acc))"
    by (auto simp: acc resolve_dependency_def Let_def split: option.split)
  with Cons [of "resolve_dependency lookup target r acc"] show ?case unfolding acc by auto
qed simp

lemma resolve_all_findings:
  fixes xs :: "(nat \<times> task) list" and lookup :: "string \<Rightarrow> nat option"
  defines "go \<equiv> \<lambda>acc xs. foldl (\<lambda>acc (i, t).
      foldl (\<lambda>acc r. resolve_dependency lookup (i + 1) r acc) acc (task_dependencies t)) acc xs"
  shows "set (fst acc) \<subseteq> set (fst (go acc xs)) \<and>
    (\<forall>(i, t) \<in> set xs. \<forall>r \<in> set (task_dependencies t). lookup (js_trim r) = None \<longrightarrow>
      \<lparr>finding_code = UnresolvedDependency, finding_slots = [i + 1], finding_path = None,
       finding_ref = Some (js_trim r)\<rparr> \<in> set (fst (go acc xs)))"
proof (induction xs arbitrary: acc)
  case Nil
  then show ?case by (simp add: go_def)
next
  case (Cons x xs)
  obtain i t where x: "x = (i, t)" by (cases x)
  let ?acc = "foldl (\<lambda>acc r. resolve_dependency lookup (i + 1) r acc) acc (task_dependencies t)"
  have go: "go acc (x # xs) = go ?acc xs" by (simp add: go_def x)
  have one: "set (fst acc) \<subseteq> set (fst ?acc)"
    "\<And>r. r \<in> set (task_dependencies t) \<Longrightarrow> lookup (js_trim r) = None \<Longrightarrow>
      \<lparr>finding_code = UnresolvedDependency, finding_slots = [i + 1], finding_path = None,
       finding_ref = Some (js_trim r)\<rparr> \<in> set (fst ?acc)"
    using resolve_dependency_findings [of acc lookup "i + 1" "task_dependencies t"] by blast+
  from Cons [of ?acc] have two: "set (fst ?acc) \<subseteq> set (fst (go ?acc xs))" by blast
  have sub: "set (fst acc) \<subseteq> set (fst (go ?acc xs))" using one(1) two by blast
  have all: "\<forall>y \<in> set ((i, t) # xs). case y of (i, t) \<Rightarrow> \<forall>r \<in> set (task_dependencies t). lookup (js_trim r) = None \<longrightarrow>
      \<lparr>finding_code = UnresolvedDependency, finding_slots = [i + 1], finding_path = None,
       finding_ref = Some (js_trim r)\<rparr> \<in> set (fst (go ?acc xs))"
  proof
    fix y assume y: "y \<in> set ((i, t) # xs)"
    show "case y of (i, t) \<Rightarrow> \<forall>r \<in> set (task_dependencies t). lookup (js_trim r) = None \<longrightarrow>
      \<lparr>finding_code = UnresolvedDependency, finding_slots = [i + 1], finding_path = None,
       finding_ref = Some (js_trim r)\<rparr> \<in> set (fst (go ?acc xs))"
    proof (cases "y = (i, t)")
      case True
      with one(2) two show ?thesis by blast
    next
      case False
      with y Cons [of ?acc] show ?thesis by auto
    qed
  qed
  show ?case unfolding x go [unfolded x] using sub all by blast
qed

lemma derive_unresolved:
  assumes "slot \<in> {1..length tasks}" and "r \<in> set (task_dependencies (tasks ! (slot - 1)))"
    and "ref_slot tasks (js_trim r) = None"
  shows "\<lparr>finding_code = UnresolvedDependency, finding_slots = [slot], finding_path = None,
       finding_ref = Some (js_trim r)\<rparr> \<in> set (findings (deriveExecutionTopology tasks mw))"
proof -
  let ?f = "\<lparr>finding_code = UnresolvedDependency, finding_slots = [slot], finding_path = None,
       finding_ref = Some (js_trim r)\<rparr>"
  obtain authored fs0 where res: "resolveDependencySlots tasks = (authored, fs0)" by fastforce
  obtain order cycle where topo: "topologicalOrder (length tasks) authored = (order, cycle)" by fastforce
  obtain writers fsw where col: "collect_writers tasks = (writers, fsw)" by fastforce
  have "(slot - 1, tasks ! (slot - 1)) \<in> set (enumerate 0 tasks)"
    using assms(1) by (force simp: in_set_enumerate_eq)
  moreover have "fs0 = fst (foldl (\<lambda>acc (i, t).
      foldl (\<lambda>acc r. resolve_dependency (ref_slot tasks) (i + 1) r acc) acc (task_dependencies t))
      (duplicate_findings (slots_by task_id tasks), []) (enumerate 0 tasks))"
    using res unfolding resolveDependencySlots_def Let_def ref_slot_def [abs_def]
    by (auto split: prod.splits)
  ultimately have "\<lparr>finding_code = UnresolvedDependency, finding_slots = [slot - 1 + 1],
      finding_path = None, finding_ref = Some (js_trim r)\<rparr> \<in> set fs0"
    using resolve_all_findings [where lookup = "ref_slot tasks" and xs = "enumerate 0 tasks"
      and acc = "(duplicate_findings (slots_by task_id tasks), [])"] assms(2,3) by blast
  then have "?f \<in> set fs0" using assms(1) by simp
  have "set (col_findings st) \<subseteq> set (col_findings (foldl (\<lambda>st ke. collide reach order ke st) st kes))"
    for st reach and kes :: "(string \<times> writer_entry) list"
  proof (induction kes arbitrary: st)
    case (Cons ke kes)
    have "set (col_findings st) \<subseteq> set (col_findings (collide reach order ke st))"
      by (cases ke) (auto simp: collide_def Let_def)
    with Cons show ?case by auto
  qed simp
  then have sub: "set fs0 \<subseteq> set (col_findings (collide_all (buildReachability (length tasks) authored) order writers
       ((fs0 @ (if cycle \<noteq> [] then [cycle_finding cycle] else [])) @ fsw)))"
    unfolding collide_all_def by (rule subset_trans [rotated]) auto
  with \<open>?f \<in> set fs0\<close> have "?f \<in> set (col_findings (collide_all (buildReachability (length tasks) authored) order writers
       ((fs0 @ (if cycle \<noteq> [] then [cycle_finding cycle] else [])) @ fsw)))" by blast
  then show ?thesis
    using res topo col
    by (cases "cycle = []") (auto simp: deriveExecutionTopology_def Let_def split: prod.split)
qed

text \<open>
  A task is never eligible before its dependencies: in the graph built from a plan with
  distinct, non-empty ids, an eligible task has every dependency reference resolved to a task
  that is done (or to itself); an unresolved reference is itself required to be done.
\<close>

theorem eligible_deps_done:
  assumes "\<forall>t \<in> set tasks. task_id t \<noteq> []" and "slot \<in> {1..length tasks}"
    and "id_at tasks slot \<in> set (eligible (enforceWaveDependency
          (buildDependencyGraph tasks withCollisions) candidates doneTasks))"
    and "r \<in> set (task_dependencies (tasks ! (slot - 1)))"
  shows "(case ref_slot tasks (js_trim r) of
      Some a \<Rightarrow> a = slot \<or> id_at tasks a \<in> doneTasks
    | None \<Rightarrow> js_trim r \<in> doneTasks)"
proof -
  let ?g = "buildDependencyGraph tasks withCollisions"
  let ?T = "deriveExecutionTopology tasks (sched_workers tasks)"
  let ?es = "if withCollisions then effectiveEdges ?T else authoredEdges ?T"
  obtain deps rdeps where fold: "(deps, rdeps) = foldl (\<lambda>st e. add_edge tasks e st)
      (empty_sets tasks, empty_sets tasks) ?es" by (metis surj_pair)
  have g: "dg_dependencies ?g = foldl (\<lambda>m f. keep_unresolved tasks f m) deps (findings ?T)"
    by (simp add: buildDependencyGraph_def Let_def fold [symmetric])
  have wf: "wf_edges (length tasks) ?es" using derive_edges(1,4) [of tasks "sched_workers tasks"] by simp
  have k: "known_ids tasks (empty_sets tasks)" by (auto simp: known_ids_def empty_sets_lookup)
  note built = add_edges_fold [OF assms(1) wf k k fold]
  note kept = keep_unresolved_fold [OF built [THEN conjunct1], of "findings ?T", folded g]
  have all_done: "set (neighbours (dg_dependencies ?g) (id_at tasks slot)) \<subseteq> doneTasks"
    using assms(3) unfolding enforceWaveDependency_def enforce_fold by auto
  show ?thesis
  proof (cases "ref_slot tasks (js_trim r)")
    case None
    from derive_unresolved [OF assms(2,4) None, of "sched_workers tasks"] kept assms(2)
    have "js_trim r \<in> set (neighbours (dg_dependencies ?g) (id_at tasks slot))" by fastforce
    with all_done None show ?thesis by auto
  next
    case (Some a)
    show ?thesis
    proof (cases "a = slot")
      case False
      then have "depends_on tasks a slot" using Some assms(2,4) by (auto simp: depends_on_def)
      then have "(a, slot) \<in> edge_rel ?es"
        using derive_edges(2,3) [of tasks "sched_workers tasks"] by (auto simp: effective_rel_def)
      then have "id_at tasks a \<in> set (neighbours deps (id_at tasks slot))" using built by blast
      with kept all_done Some show ?thesis by auto
    qed (simp add: Some)
  qed
qed

theorem eligible_deps_done_witness:
  "eligible (enforceWaveDependency sample_graph [''a'', ''b'', ''c''] {''a'', ''zz''}) = [''a'', ''b''] \<and>
   ''a'' \<in> {''a'', ''zz''}"
proof -
  let ?ts = "[sample_task ''a'' PENDING [] None,
     sample_task ''b'' PENDING [''a'', ''zz''] None, sample_task ''c'' PENDING [''b'', ''a''] None]"
  have e: "eligible (enforceWaveDependency (buildDependencyGraph ?ts True) [''a'', ''b'', ''c'']
      (set [''a'', ''zz''])) = [''a'', ''b'']" by code_simp
  have "ref_slot ?ts (js_trim ''a'') = Some 1" "id_at ?ts 1 = ''a''" "id_at ?ts 2 = ''b''"
    "length ?ts = 3" "task_dependencies (?ts ! (2 - 1)) = [''a'', ''zz'']"
    "list_all (\<lambda>t. task_id t \<noteq> []) ?ts" by code_simp+
  with eligible_deps_done [of ?ts 2 True "[''a'', ''b'', ''c'']" "{''a'', ''zz''}" "''a''"] e
  show ?thesis by (auto simp: sample_graph_def list_all_iff)
qed

end
