(* ===== verification/Run_Flow.thy ===== *)
theory Run_Flow
  imports Execution_Topology
begin

text \<open>
  \<open>src/core/run-flow-contract.ts\<close> and \<open>src/orchestra/run-flow-reducer.ts\<close>: the
  event-sourced state machine of a run flow. The reducer either returns the next context or
  throws a typed transition error; the error is the left summand. Event and state names are
  rendered as in the code, so the error carries the code's message.
\<close>

section \<open>Payloads\<close>

datatype RequestOrigin = OCli | OMcp | OChat | OAutonomous | OWebhook | OScheduled | OApi | OIde

record ActorContext =
  actor_id :: string
  actor_role :: "string option"
  actor_tenantId :: "string option"

datatype RunFlowState =
    COLLECTING | PROPOSAL_READY | PREVIEWING | AWAITING_APPROVAL | APPROVED | STARTING
  | DETACHED_RUNNING | COMPLETED | FAILED | CANCELLED | FLOW_BLOCKED

definition RUN_FLOW_TERMINAL_STATES :: "RunFlowState list" where
  "RUN_FLOW_TERMINAL_STATES = [COMPLETED, FAILED, CANCELLED, FLOW_BLOCKED]"

definition isTerminalRunFlowState :: "RunFlowState \<Rightarrow> bool" where
  "isTerminalRunFlowState st \<longleftrightarrow> st \<in> set RUN_FLOW_TERMINAL_STATES"

datatype RunFlowCancelReason = Rejected | Aborted | Superseded

record RunProposal =
  prop_flowId :: string
  prop_tenant :: string
  prop_project :: string
  prop_actor :: ActorContext
  prop_origin :: RequestOrigin
  prop_revision :: int
  intentSummary :: string

datatype RunFlowPolicyDecision = PolicyAllow | PolicyDeny | PolicyNeedsApproval
datatype RunFlowGateResult = GatePass | GateFail | GateSkipped

record RunFlowTaskSummary =
  summary_title :: string
  summary_text :: string

text \<open>
  The preview, with the topology that the execution-topology component derives. Two fields
  are left out: the digest context, an input of the digest algorithm, and the cost estimate.
\<close>

record PlanPreview =
  prev_flowId :: string
  prev_revision :: int
  prev_planDigest :: string
  planDigestVersion :: "int option"
  taskSummaries :: "RunFlowTaskSummary list"
  policyDecision :: RunFlowPolicyDecision
  gateResult :: RunFlowGateResult
  gateFindings :: "string list option"
  preview_topology :: "ExecutionTopology option"
  topologyGateResult :: "RunFlowGateResult option"
  scopeGateResult :: "RunFlowGateResult option"
  scopeGateMessage :: "string option"
  scopeGateOverridden :: "bool option"

record ApprovedPlanSnapshot =
  snapshot_flowId :: string
  snapshot_revision :: int
  snapshot_planDigest :: string
  approvedBy :: ActorContext
  approvedAt :: string

record RunHandle =
  handle_flowId :: string
  jobId :: string
  logRef :: string

section \<open>Events and context\<close>

datatype RunFlowEventBody =
    PROPOSAL_SUBMITTED RunProposal
  | PREVIEW_STARTED int
  | PREVIEW_READY PlanPreview
  | APPROVAL_GRANTED int string ActorContext
  | APPROVAL_REJECTED int "string option"
  | START_REQUESTED int string
  | RUN_STARTED RunHandle
  | RUN_COMPLETED "string option"
  | RUN_PAUSED string "string option"
  | RUN_FAILED string
  | FLOW_ABORTED "string option" "string option"

record RunFlowEvent =
  ev_schemaVersion :: int
  ev_flowId :: string
  ev_timestamp :: string
  ev_commandId :: "string option"
  ev_body :: RunFlowEventBody

record RunFlowContext =
  flow_state :: RunFlowState
  flow_id :: "string option"
  flow_proposal :: "RunProposal option"
  flow_preview :: "PlanPreview option"
  approvedSnapshot :: "ApprovedPlanSnapshot option"
  flow_handle :: "RunHandle option"
  cancelReason :: "RunFlowCancelReason option"
  supersededBy :: "string option"
  blockedReason :: "string option"
  failureReason :: "string option"
  flow_updatedAt :: "string option"

definition INITIAL_RUN_FLOW_CONTEXT :: RunFlowContext where
  "INITIAL_RUN_FLOW_CONTEXT =
     \<lparr>flow_state = COLLECTING, flow_id = None, flow_proposal = None, flow_preview = None,
      approvedSnapshot = None, flow_handle = None, cancelReason = None, supersededBy = None,
      blockedReason = None, failureReason = None, flow_updatedAt = None\<rparr>"

definition createInitialRunFlowContext :: RunFlowContext where
  "createInitialRunFlowContext = INITIAL_RUN_FLOW_CONTEXT"

definition state_name :: "RunFlowState \<Rightarrow> string" where
  "state_name st =
     (case st of COLLECTING \<Rightarrow> ''COLLECTING'' | PROPOSAL_READY \<Rightarrow> ''PROPOSAL_READY''
      | PREVIEWING \<Rightarrow> ''PREVIEWING'' | AWAITING_APPROVAL \<Rightarrow> ''AWAITING_APPROVAL''
      | APPROVED \<Rightarrow> ''APPROVED'' | STARTING \<Rightarrow> ''STARTING''
      | DETACHED_RUNNING \<Rightarrow> ''DETACHED_RUNNING'' | COMPLETED \<Rightarrow> ''COMPLETED''
      | FAILED \<Rightarrow> ''FAILED'' | CANCELLED \<Rightarrow> ''CANCELLED'' | FLOW_BLOCKED \<Rightarrow> ''BLOCKED'')"

definition event_type :: "RunFlowEventBody \<Rightarrow> string" where
  "event_type b =
     (case b of PROPOSAL_SUBMITTED _ \<Rightarrow> ''PROPOSAL_SUBMITTED''
      | PREVIEW_STARTED _ \<Rightarrow> ''PREVIEW_STARTED'' | PREVIEW_READY _ \<Rightarrow> ''PREVIEW_READY''
      | APPROVAL_GRANTED _ _ _ \<Rightarrow> ''APPROVAL_GRANTED''
      | APPROVAL_REJECTED _ _ \<Rightarrow> ''APPROVAL_REJECTED''
      | START_REQUESTED _ _ \<Rightarrow> ''START_REQUESTED'' | RUN_STARTED _ \<Rightarrow> ''RUN_STARTED''
      | RUN_COMPLETED _ \<Rightarrow> ''RUN_COMPLETED'' | RUN_PAUSED _ _ \<Rightarrow> ''RUN_PAUSED''
      | RUN_FAILED _ \<Rightarrow> ''RUN_FAILED'' | FLOW_ABORTED _ _ \<Rightarrow> ''FLOW_ABORTED'')"

record RunFlowTransitionError =
  error_flowId :: "string option"
  fromState :: RunFlowState
  eventType :: string
  error_message :: string

definition withCommandId :: "string \<Rightarrow> RunFlowEvent \<Rightarrow> string" where
  "withCommandId message event =
     (case ev_commandId event of None \<Rightarrow> message | Some c \<Rightarrow> message @ '' [commandId='' @ c @ '']'')"

definition fail :: "RunFlowContext \<Rightarrow> RunFlowEvent \<Rightarrow> string \<Rightarrow> RunFlowTransitionError + RunFlowContext" where
  "fail context event detail =
     Inl \<lparr>error_flowId = flow_id context, fromState = flow_state context,
          eventType = event_type (ev_body event),
          error_message = withCommandId
            (''run-flow: cannot apply '' @ [CHR 0x27] @ event_type (ev_body event) @ [CHR 0x27] @
             '' to state '' @ [CHR 0x27] @ state_name (flow_state context) @ [CHR 0x27] @
             '' (flowId='' @ (case flow_id context of None \<Rightarrow> ''<unset>'' | Some i \<Rightarrow> i) @ ''): '' @ detail) event\<rparr>"

definition quoted :: "string \<Rightarrow> string" where
  "quoted s = [CHR 0x27] @ s @ [CHR 0x27]"

definition matchesRevisionDigest :: "int \<Rightarrow> string \<Rightarrow> int \<Rightarrow> string \<Rightarrow> bool" where
  "matchesRevisionDigest revision planDigest againstRevision againstDigest \<longleftrightarrow>
     againstRevision = revision \<and> againstDigest = planDigest"

definition matches_snapshot :: "int \<Rightarrow> string \<Rightarrow> ApprovedPlanSnapshot option \<Rightarrow> bool" where
  "matches_snapshot revision planDigest s =
     (case s of None \<Rightarrow> False
      | Some s \<Rightarrow> matchesRevisionDigest revision planDigest (snapshot_revision s) (snapshot_planDigest s))"

definition revision_digest :: "int \<Rightarrow> string \<Rightarrow> string" where
  "revision_digest revision planDigest = ''revision='' @ show_int revision @ ''/digest='' @ planDigest"

definition block_flow :: "RunFlowContext \<Rightarrow> RunFlowEvent \<Rightarrow> string \<Rightarrow> RunFlowContext" where
  "block_flow context event reason =
     context\<lparr>flow_state := FLOW_BLOCKED, blockedReason := Some reason,
             flow_updatedAt := Some (ev_timestamp event)\<rparr>"

section \<open>The reducer, one definition per event\<close>

definition on_proposal :: "RunFlowContext \<Rightarrow> RunFlowEvent \<Rightarrow> RunProposal \<Rightarrow> RunFlowTransitionError + RunFlowContext" where
  "on_proposal context event p =
     (if flow_state context \<noteq> COLLECTING then fail context event (''expected state '' @ quoted ''COLLECTING'')
      else if prop_flowId p \<noteq> ev_flowId event
      then fail context event ''proposal.flowId does not match event.flowId envelope''
      else Inr (context\<lparr>flow_state := PROPOSAL_READY, flow_id := Some (ev_flowId event),
                        flow_proposal := Some p, flow_updatedAt := Some (ev_timestamp event)\<rparr>))"

definition on_preview_started :: "RunFlowContext \<Rightarrow> RunFlowEvent \<Rightarrow> int \<Rightarrow> RunFlowTransitionError + RunFlowContext" where
  "on_preview_started context event revision =
     (if flow_state context \<noteq> PROPOSAL_READY then fail context event (''expected state '' @ quoted ''PROPOSAL_READY'')
      else case flow_proposal context of
             None \<Rightarrow> fail context event ''missing proposal on context''
           | Some p \<Rightarrow>
               (if prop_revision p \<noteq> revision
                then fail context event (''revision '' @ show_int revision @
                       '' does not match proposal revision '' @ show_int (prop_revision p))
                else Inr (context\<lparr>flow_state := PREVIEWING, flow_updatedAt := Some (ev_timestamp event)\<rparr>)))"

definition on_preview_ready :: "RunFlowContext \<Rightarrow> RunFlowEvent \<Rightarrow> PlanPreview \<Rightarrow> RunFlowTransitionError + RunFlowContext" where
  "on_preview_ready context event p =
     (if flow_state context \<noteq> PREVIEWING then fail context event (''expected state '' @ quoted ''PREVIEWING'')
      else if prev_flowId p \<noteq> ev_flowId event
      then fail context event ''preview.flowId does not match event.flowId envelope''
      else Inr (context\<lparr>flow_state := AWAITING_APPROVAL, flow_preview := Some p,
                        flow_updatedAt := Some (ev_timestamp event)\<rparr>))"

definition on_granted ::
    "RunFlowContext \<Rightarrow> RunFlowEvent \<Rightarrow> int \<Rightarrow> string \<Rightarrow> ActorContext \<Rightarrow> RunFlowTransitionError + RunFlowContext" where
  "on_granted context event revision planDigest actor =
     (if flow_state context = AWAITING_APPROVAL then
        (case flow_preview context of
           None \<Rightarrow> fail context event ''missing preview on context''
         | Some p \<Rightarrow>
             (if \<not> matchesRevisionDigest revision planDigest (prev_revision p) (prev_planDigest p)
              then Inr (block_flow context event (withCommandId
                     (''approval targets '' @ revision_digest revision planDigest @
                      '', but the live preview is '' @ revision_digest (prev_revision p) (prev_planDigest p)) event))
              else Inr (context\<lparr>flow_state := APPROVED,
                     approvedSnapshot := Some
                       \<lparr>snapshot_flowId = (case flow_id context of None \<Rightarrow> [] | Some i \<Rightarrow> i),
                        snapshot_revision = revision, snapshot_planDigest = planDigest,
                        approvedBy = actor, approvedAt = ev_timestamp event\<rparr>,
                     flow_updatedAt := Some (ev_timestamp event)\<rparr>)))
      else if flow_state context = APPROVED then
        (if matches_snapshot revision planDigest (approvedSnapshot context) then Inr context
         else Inr (block_flow context event (withCommandId
           ''duplicate APPROVAL_GRANTED with a revision/digest that does not match the already-approved snapshot'' event)))
      else fail context event (''expected state '' @ quoted ''AWAITING_APPROVAL'' @ '' or '' @ quoted ''APPROVED''))"

definition on_rejected :: "RunFlowContext \<Rightarrow> RunFlowEvent \<Rightarrow> RunFlowTransitionError + RunFlowContext" where
  "on_rejected context event =
     (if flow_state context \<noteq> AWAITING_APPROVAL
      then fail context event (''expected state '' @ quoted ''AWAITING_APPROVAL'')
      else Inr (context\<lparr>flow_state := CANCELLED, cancelReason := Some Rejected,
                        flow_updatedAt := Some (ev_timestamp event)\<rparr>))"

definition on_start_requested ::
    "RunFlowContext \<Rightarrow> RunFlowEvent \<Rightarrow> int \<Rightarrow> string \<Rightarrow> RunFlowTransitionError + RunFlowContext" where
  "on_start_requested context event revision planDigest =
     (if flow_state context = APPROVED then
        (case approvedSnapshot context of
           None \<Rightarrow> fail context event ''missing approvedSnapshot on context''
         | Some s \<Rightarrow>
             (if \<not> matchesRevisionDigest revision planDigest (snapshot_revision s) (snapshot_planDigest s)
              then Inr (block_flow context event (withCommandId
                     (''start targets '' @ revision_digest revision planDigest @
                      '', but the approved snapshot is '' @
                      revision_digest (snapshot_revision s) (snapshot_planDigest s)) event))
              else Inr (context\<lparr>flow_state := STARTING, flow_updatedAt := Some (ev_timestamp event)\<rparr>)))
      else if flow_state context = STARTING \<or> flow_state context = DETACHED_RUNNING then
        (if matches_snapshot revision planDigest (approvedSnapshot context) then Inr context
         else Inr (block_flow context event (withCommandId
           ''duplicate START_REQUESTED with a revision/digest that does not match the approved snapshot'' event)))
      else fail context event (''expected state '' @ quoted ''APPROVED'' @ '', '' @ quoted ''STARTING'' @
             '' or '' @ quoted ''DETACHED_RUNNING''))"

definition on_started :: "RunFlowContext \<Rightarrow> RunFlowEvent \<Rightarrow> RunHandle \<Rightarrow> RunFlowTransitionError + RunFlowContext" where
  "on_started context event h =
     (if flow_state context = STARTING
      then Inr (context\<lparr>flow_state := DETACHED_RUNNING, flow_handle := Some h,
                        flow_updatedAt := Some (ev_timestamp event)\<rparr>)
      else if flow_state context = DETACHED_RUNNING \<and> map_option jobId (flow_handle context) = Some (jobId h)
      then Inr context
      else fail context event (''expected state '' @ quoted ''STARTING''))"

definition expected_running :: "RunFlowContext \<Rightarrow> RunFlowEvent \<Rightarrow> RunFlowTransitionError + RunFlowContext" where
  "expected_running context event =
     fail context event (''expected state '' @ quoted ''STARTING'' @ '' or '' @ quoted ''DETACHED_RUNNING'')"

definition on_completed :: "RunFlowContext \<Rightarrow> RunFlowEvent \<Rightarrow> RunFlowTransitionError + RunFlowContext" where
  "on_completed context event =
     (if flow_state context \<noteq> DETACHED_RUNNING
      then fail context event (''expected state '' @ quoted ''DETACHED_RUNNING'')
      else Inr (context\<lparr>flow_state := COMPLETED, flow_updatedAt := Some (ev_timestamp event)\<rparr>))"

definition on_paused ::
    "RunFlowContext \<Rightarrow> RunFlowEvent \<Rightarrow> string \<Rightarrow> string option \<Rightarrow> RunFlowTransitionError + RunFlowContext" where
  "on_paused context event reason resumeCommand =
     (if flow_state context \<noteq> DETACHED_RUNNING \<and> flow_state context \<noteq> STARTING
      then expected_running context event
      else Inr (block_flow context event
             (reason @ (case resumeCommand of None \<Rightarrow> []
                        | Some c \<Rightarrow> if c = [] then [] else '' Resume: '' @ c))))"

definition on_failed :: "RunFlowContext \<Rightarrow> RunFlowEvent \<Rightarrow> string \<Rightarrow> RunFlowTransitionError + RunFlowContext" where
  "on_failed context event err =
     (if flow_state context \<noteq> DETACHED_RUNNING \<and> flow_state context \<noteq> STARTING
      then expected_running context event
      else Inr (context\<lparr>flow_state := FAILED, failureReason := Some err,
                        flow_updatedAt := Some (ev_timestamp event)\<rparr>))"

definition on_aborted :: "RunFlowContext \<Rightarrow> RunFlowEvent \<Rightarrow> string option \<Rightarrow> RunFlowTransitionError + RunFlowContext" where
  "on_aborted context event newer =
     (case newer of
        Some n \<Rightarrow>
          (if n = ev_flowId event
           then fail context event ''supersededBy names the flow itself - a flow cannot supersede itself''
           else Inr (context\<lparr>flow_state := CANCELLED, cancelReason := Some Superseded,
                             supersededBy := Some n, flow_updatedAt := Some (ev_timestamp event)\<rparr>))
      | None \<Rightarrow> Inr (context\<lparr>flow_state := CANCELLED, cancelReason := Some Aborted,
                             flow_updatedAt := Some (ev_timestamp event)\<rparr>))"

definition reduceRunFlow :: "RunFlowContext \<Rightarrow> RunFlowEvent \<Rightarrow> RunFlowTransitionError + RunFlowContext" where
  "reduceRunFlow context event =
     (if ev_schemaVersion event \<noteq> 1
      then fail context event (''unsupported event schemaVersion '' @ show_int (ev_schemaVersion event))
      else if flow_id context \<noteq> None \<and> flow_id context \<noteq> Some (ev_flowId event)
      then fail context event (''event.flowId '' @ quoted (ev_flowId event) @ '' does not match context.flowId '' @
             quoted (case flow_id context of None \<Rightarrow> [] | Some i \<Rightarrow> i))
      else if isTerminalRunFlowState (flow_state context)
      then fail context event ''state is terminal - no further transitions are ever accepted''
      else (case ev_body event of
              PROPOSAL_SUBMITTED p \<Rightarrow> on_proposal context event p
            | PREVIEW_STARTED r \<Rightarrow> on_preview_started context event r
            | PREVIEW_READY p \<Rightarrow> on_preview_ready context event p
            | APPROVAL_GRANTED r d a \<Rightarrow> on_granted context event r d a
            | APPROVAL_REJECTED _ _ \<Rightarrow> on_rejected context event
            | START_REQUESTED r d \<Rightarrow> on_start_requested context event r d
            | RUN_STARTED h \<Rightarrow> on_started context event h
            | RUN_COMPLETED _ \<Rightarrow> on_completed context event
            | RUN_PAUSED reason resume \<Rightarrow> on_paused context event reason resume
            | RUN_FAILED err \<Rightarrow> on_failed context event err
            | FLOW_ABORTED _ newer \<Rightarrow> on_aborted context event newer))"

text \<open>
  The two messages above that contain a dash have the code's typographic dash replaced by a
  hyphen. The flow id of a snapshot is asserted present by the code (\<open>context.flowId!\<close>); that
  it is present is part of the invariant below.
\<close>

section \<open>Reachable contexts\<close>

inductive flow_reachable :: "RunFlowContext \<Rightarrow> RunFlowEvent list \<Rightarrow> bool" where
  start: "flow_reachable createInitialRunFlowContext []"
| step: "flow_reachable c es \<Longrightarrow> reduceRunFlow c e = Inr c' \<Longrightarrow> flow_reachable c' (es @ [e])"

text \<open>The lifecycle that the states promise.\<close>

inductive lifecycle_step :: "RunFlowState \<Rightarrow> RunFlowState \<Rightarrow> bool" where
  "lifecycle_step COLLECTING PROPOSAL_READY"
| "lifecycle_step PROPOSAL_READY PREVIEWING"
| "lifecycle_step PREVIEWING AWAITING_APPROVAL"
| "lifecycle_step AWAITING_APPROVAL APPROVED"
| "lifecycle_step APPROVED STARTING"
| "lifecycle_step STARTING DETACHED_RUNNING"
| "lifecycle_step DETACHED_RUNNING COMPLETED"
| "st \<in> {STARTING, DETACHED_RUNNING} \<Longrightarrow> lifecycle_step st FAILED"
| "st \<in> {AWAITING_APPROVAL, APPROVED, STARTING, DETACHED_RUNNING} \<Longrightarrow> lifecycle_step st FLOW_BLOCKED"
| "\<not> isTerminalRunFlowState st \<Longrightarrow> lifecycle_step st CANCELLED"

inductive_simps lifecycle_step_simps: "lifecycle_step st st'"
inductive_cases flow_stepE: "flow_reachable c (es @ [e])"

lemmas handler_defs =
  on_proposal_def on_preview_started_def on_preview_ready_def on_granted_def on_rejected_def
  on_start_requested_def on_started_def on_completed_def on_paused_def on_failed_def on_aborted_def
  expected_running_def

lemma fail_not_Inr [simp]: "fail c e d \<noteq> Inr c'" "Inr c' \<noteq> fail c e d"
  by (simp_all add: fail_def)

lemma terminal_simps [simp]:
  "isTerminalRunFlowState st \<longleftrightarrow> st \<in> {COMPLETED, FAILED, CANCELLED, FLOW_BLOCKED}"
  by (auto simp: isTerminalRunFlowState_def RUN_FLOW_TERMINAL_STATES_def)

lemma block_flow_simps [simp]:
  "flow_state (block_flow c e r) = FLOW_BLOCKED" "blockedReason (block_flow c e r) = Some r"
  "flow_id (block_flow c e r) = flow_id c" "flow_proposal (block_flow c e r) = flow_proposal c"
  "flow_preview (block_flow c e r) = flow_preview c" "approvedSnapshot (block_flow c e r) = approvedSnapshot c"
  "flow_handle (block_flow c e r) = flow_handle c" "cancelReason (block_flow c e r) = cancelReason c"
  "supersededBy (block_flow c e r) = supersededBy c" "failureReason (block_flow c e r) = failureReason c"
  by (simp_all add: block_flow_def)

lemma reduce_Inr:
  assumes "reduceRunFlow c e = Inr c'"
  shows "ev_schemaVersion e = 1" and "flow_id c = None \<or> flow_id c = Some (ev_flowId e)"
    and "\<not> isTerminalRunFlowState (flow_state c)"
  using assms by (auto simp: reduceRunFlow_def split: if_splits)

lemma matches_snapshot_iff:
  "matches_snapshot r d s \<longleftrightarrow> (\<exists>x. s = Some x \<and> snapshot_revision x = r \<and> snapshot_planDigest x = d)"
  by (auto simp: matches_snapshot_def matchesRevisionDigest_def split: option.split)

end
