(* ===== verification/Run_Flow_Correct.thy ===== *)
theory Run_Flow_Correct
  imports Run_Flow
begin

text \<open>
  Safety of the run flow: terminal states absorb, the reducer refines the lifecycle, and
  over every event history a start is preceded by an approval of exactly what it starts.
\<close>

lemma handler_cases:
  assumes "reduceRunFlow c e = Inr c'"
  shows "case ev_body e of
      PROPOSAL_SUBMITTED p \<Rightarrow> on_proposal c e p = Inr c'
    | PREVIEW_STARTED r \<Rightarrow> on_preview_started c e r = Inr c'
    | PREVIEW_READY p \<Rightarrow> on_preview_ready c e p = Inr c'
    | APPROVAL_GRANTED r d a \<Rightarrow> on_granted c e r d a = Inr c'
    | APPROVAL_REJECTED _ _ \<Rightarrow> on_rejected c e = Inr c'
    | START_REQUESTED r d \<Rightarrow> on_start_requested c e r d = Inr c'
    | RUN_STARTED h \<Rightarrow> on_started c e h = Inr c'
    | RUN_COMPLETED _ \<Rightarrow> on_completed c e = Inr c'
    | RUN_PAUSED reason resume \<Rightarrow> on_paused c e reason resume = Inr c'
    | RUN_FAILED err \<Rightarrow> on_failed c e err = Inr c'
    | FLOW_ABORTED _ newer \<Rightarrow> on_aborted c e newer = Inr c'"
  using assms by (auto simp: reduceRunFlow_def split: if_splits RunFlowEventBody.splits)

fun stops :: "RunFlowEventBody \<Rightarrow> bool" where
  "stops (APPROVAL_REJECTED _ _) = True"
| "stops (FLOW_ABORTED _ _) = True"
| "stops _ = False"

text \<open>The accepted events, case by case.\<close>

lemma reduce_cases [consumes 1]:
  assumes "reduceRunFlow c e = Inr c'"
  obtains (proposal) p where "ev_body e = PROPOSAL_SUBMITTED p" "flow_state c = COLLECTING"
      "prop_flowId p = ev_flowId e"
      "c' = c\<lparr>flow_state := PROPOSAL_READY, flow_id := Some (ev_flowId e), flow_proposal := Some p,
              flow_updatedAt := Some (ev_timestamp e)\<rparr>"
  | (preview_started) p where "ev_body e = PREVIEW_STARTED (prop_revision p)" "flow_state c = PROPOSAL_READY"
      "flow_proposal c = Some p"
      "c' = c\<lparr>flow_state := PREVIEWING, flow_updatedAt := Some (ev_timestamp e)\<rparr>"
  | (preview_ready) p where "ev_body e = PREVIEW_READY p" "flow_state c = PREVIEWING" "prev_flowId p = ev_flowId e"
      "c' = c\<lparr>flow_state := AWAITING_APPROVAL, flow_preview := Some p, flow_updatedAt := Some (ev_timestamp e)\<rparr>"
  | (granted) p a where "ev_body e = APPROVAL_GRANTED (prev_revision p) (prev_planDigest p) a"
      "flow_state c = AWAITING_APPROVAL" "flow_preview c = Some p"
      "c' = c\<lparr>flow_state := APPROVED, approvedSnapshot := Some
          \<lparr>snapshot_flowId = (case flow_id c of None \<Rightarrow> [] | Some i \<Rightarrow> i), snapshot_revision = prev_revision p,
           snapshot_planDigest = prev_planDigest p, approvedBy = a, approvedAt = ev_timestamp e\<rparr>,
          flow_updatedAt := Some (ev_timestamp e)\<rparr>"
  | (blocked) reason where "\<not> stops (ev_body e)" "c' = block_flow c e reason"
      "flow_state c \<in> {APPROVED, STARTING, DETACHED_RUNNING} \<or> flow_state c = AWAITING_APPROVAL \<and> flow_preview c \<noteq> None"
  | (replayed) "\<not> stops (ev_body e)" "c' = c" "flow_state c \<in> {APPROVED, STARTING, DETACHED_RUNNING}"
  | (rejected) r x where "ev_body e = APPROVAL_REJECTED r x" "flow_state c = AWAITING_APPROVAL"
      "c' = c\<lparr>flow_state := CANCELLED, cancelReason := Some Rejected, flow_updatedAt := Some (ev_timestamp e)\<rparr>"
  | (start) s where "ev_body e = START_REQUESTED (snapshot_revision s) (snapshot_planDigest s)"
      "flow_state c = APPROVED" "approvedSnapshot c = Some s"
      "c' = c\<lparr>flow_state := STARTING, flow_updatedAt := Some (ev_timestamp e)\<rparr>"
  | (started) h where "ev_body e = RUN_STARTED h" "flow_state c = STARTING"
      "c' = c\<lparr>flow_state := DETACHED_RUNNING, flow_handle := Some h, flow_updatedAt := Some (ev_timestamp e)\<rparr>"
  | (completed) x where "ev_body e = RUN_COMPLETED x" "flow_state c = DETACHED_RUNNING"
      "c' = c\<lparr>flow_state := COMPLETED, flow_updatedAt := Some (ev_timestamp e)\<rparr>"
  | (failed) err where "ev_body e = RUN_FAILED err" "flow_state c = STARTING \<or> flow_state c = DETACHED_RUNNING"
      "c' = c\<lparr>flow_state := FAILED, failureReason := Some err, flow_updatedAt := Some (ev_timestamp e)\<rparr>"
  | (aborted) x where "ev_body e = FLOW_ABORTED x None"
      "c' = c\<lparr>flow_state := CANCELLED, cancelReason := Some Aborted, flow_updatedAt := Some (ev_timestamp e)\<rparr>"
  | (superseded) x n where "ev_body e = FLOW_ABORTED x (Some n)" "n \<noteq> ev_flowId e"
      "c' = c\<lparr>flow_state := CANCELLED, cancelReason := Some Superseded, supersededBy := Some n,
              flow_updatedAt := Some (ev_timestamp e)\<rparr>"
proof (cases "ev_body e")
  case (PROPOSAL_SUBMITTED p)
  with handler_cases [OF assms] show ?thesis
    by (intro proposal [of p]) (simp_all add: on_proposal_def split: if_splits)
next
  case (PREVIEW_STARTED r)
  with handler_cases [OF assms] show ?thesis
    by (intro preview_started [of "the (flow_proposal c)"])
      (simp_all add: on_preview_started_def split: if_splits option.splits)
next
  case (PREVIEW_READY p)
  with handler_cases [OF assms] show ?thesis
    by (intro preview_ready [of p]) (simp_all add: on_preview_ready_def split: if_splits)
next
  case (APPROVAL_GRANTED r d a)
  with handler_cases [OF assms] have g: "on_granted c e r d a = Inr c'" by simp
  consider p where "flow_state c = AWAITING_APPROVAL" "flow_preview c = Some p"
      "matchesRevisionDigest r d (prev_revision p) (prev_planDigest p)"
    | p where "flow_state c = AWAITING_APPROVAL" "flow_preview c = Some p"
      "\<not> matchesRevisionDigest r d (prev_revision p) (prev_planDigest p)"
    | "flow_state c = APPROVED" "matches_snapshot r d (approvedSnapshot c)"
    | "flow_state c = APPROVED" "\<not> matches_snapshot r d (approvedSnapshot c)"
    using g unfolding on_granted_def by (cases "flow_preview c") (auto split: if_splits)
  then show ?thesis
  proof cases
    case (1 p)
    with g APPROVAL_GRANTED show ?thesis
      by (intro granted [of p a]) (simp_all add: on_granted_def matchesRevisionDigest_def)
  next
    case (2 p)
    with g APPROVAL_GRANTED show ?thesis by (intro blocked) (auto simp: on_granted_def)
  next
    case 3
    with g APPROVAL_GRANTED show ?thesis by (intro replayed) (auto simp: on_granted_def)
  next
    case 4
    with g APPROVAL_GRANTED show ?thesis by (intro blocked) (auto simp: on_granted_def)
  qed
next
  case (APPROVAL_REJECTED r x)
  with handler_cases [OF assms] show ?thesis
    by (intro rejected [of r x]) (simp_all add: on_rejected_def split: if_splits)
next
  case (START_REQUESTED r d)
  with handler_cases [OF assms] have g: "on_start_requested c e r d = Inr c'" by simp
  consider s where "flow_state c = APPROVED" "approvedSnapshot c = Some s"
      "matchesRevisionDigest r d (snapshot_revision s) (snapshot_planDigest s)"
    | s where "flow_state c = APPROVED" "approvedSnapshot c = Some s"
      "\<not> matchesRevisionDigest r d (snapshot_revision s) (snapshot_planDigest s)"
    | "flow_state c = STARTING \<or> flow_state c = DETACHED_RUNNING" "matches_snapshot r d (approvedSnapshot c)"
    | "flow_state c = STARTING \<or> flow_state c = DETACHED_RUNNING" "\<not> matches_snapshot r d (approvedSnapshot c)"
    using g unfolding on_start_requested_def by (cases "approvedSnapshot c") (auto split: if_splits)
  then show ?thesis
  proof cases
    case (1 s)
    with g START_REQUESTED show ?thesis
      by (intro start [of s]) (simp_all add: on_start_requested_def matchesRevisionDigest_def)
  next
    case (2 s)
    with g START_REQUESTED show ?thesis by (intro blocked) (auto simp: on_start_requested_def)
  next
    case 3
    with g START_REQUESTED show ?thesis by (intro replayed) (auto simp: on_start_requested_def)
  next
    case 4
    with g START_REQUESTED show ?thesis by (intro blocked) (auto simp: on_start_requested_def)
  qed
next
  case (RUN_STARTED h)
  with handler_cases [OF assms] have g: "on_started c e h = Inr c'" by simp
  show ?thesis
  proof (cases "flow_state c = STARTING")
    case True
    with g RUN_STARTED show ?thesis by (intro started [of h]) (simp_all add: on_started_def)
  next
    case False
    with g RUN_STARTED show ?thesis by (intro replayed) (simp_all add: on_started_def split: if_splits)
  qed
next
  case (RUN_COMPLETED x)
  with handler_cases [OF assms] show ?thesis
    by (intro completed [of x]) (simp_all add: on_completed_def split: if_splits)
next
  case (RUN_PAUSED r x)
  with handler_cases [OF assms] have g: "on_paused c e r x = Inr c'" by simp
  then have "flow_state c = STARTING \<or> flow_state c = DETACHED_RUNNING"
    by (auto simp: on_paused_def expected_running_def split: if_splits)
  with g RUN_PAUSED show ?thesis by (intro blocked) (auto simp: on_paused_def)
next
  case (RUN_FAILED err)
  with handler_cases [OF assms] have g: "on_failed c e err = Inr c'" by simp
  then have "flow_state c = STARTING \<or> flow_state c = DETACHED_RUNNING"
    by (auto simp: on_failed_def expected_running_def split: if_splits)
  with g RUN_FAILED show ?thesis by (intro failed [of err]) (auto simp: on_failed_def)
next
  case (FLOW_ABORTED x newer)
  with handler_cases [OF assms] have g: "on_aborted c e newer = Inr c'" by simp
  show ?thesis
  proof (cases newer)
    case None
    with g FLOW_ABORTED show ?thesis by (intro aborted [of x]) (simp_all add: on_aborted_def)
  next
    case (Some n)
    with g FLOW_ABORTED show ?thesis by (intro superseded [of x n]) (simp_all add: on_aborted_def split: if_splits)
  qed
qed

text \<open>
  Terminal states absorb: a completed, failed, cancelled or blocked flow rejects every
  event with a typed error that names the state, so a rejected or aborted flow never starts.
\<close>

theorem terminal_absorbing:
  assumes "isTerminalRunFlowState (flow_state c)"
  shows "\<exists>err. reduceRunFlow c e = Inl err \<and> fromState err = flow_state c \<and>
    eventType err = event_type (ev_body e)"
  using assms by (auto simp: reduceRunFlow_def fail_def)

text \<open>
  C23 Refinement: every accepted event either leaves the context as it was or makes one step
  of the lifecycle, keeps a set flow id, and (unless it starts a proposal) keeps the proposal.
\<close>

theorem reduce_refines_lifecycle:
  assumes "reduceRunFlow c e = Inr c'"
  shows "(c' = c \<or> lifecycle_step (flow_state c) (flow_state c')) \<and>
    (flow_id c \<noteq> None \<longrightarrow> flow_id c' = flow_id c) \<and>
    (flow_state c \<noteq> COLLECTING \<longrightarrow> flow_proposal c' = flow_proposal c)"
  using assms
proof (cases rule: reduce_cases)
  case (blocked reason)
  then show ?thesis by (auto simp: lifecycle_step_simps)
next
  case (aborted x)
  with reduce_Inr(3) [OF assms] show ?thesis by (auto simp: lifecycle_step_simps)
next
  case (superseded x n)
  with reduce_Inr(3) [OF assms] show ?thesis by (auto simp: lifecycle_step_simps)
next
  case (proposal p)
  with reduce_Inr(2) [OF assms] show ?thesis by (auto simp: lifecycle_step_simps)
qed (simp_all add: lifecycle_step_simps)

section \<open>The invariant of reachable contexts\<close>

text \<open>Identity, preview, approval and reasons: the four parts of a well-formed context.\<close>

definition wf_ids :: "RunFlowContext \<Rightarrow> bool" where
  "wf_ids c \<longleftrightarrow>
     (flow_state c = COLLECTING \<or> flow_state c = CANCELLED \<or> flow_id c \<noteq> None \<and> flow_proposal c \<noteq> None) \<and>
     (flow_proposal c = None \<or> flow_id c = map_option prop_flowId (flow_proposal c)) \<and>
     (flow_state c = COLLECTING \<longrightarrow> flow_id c = None)"

fun before_preview :: "RunFlowState \<Rightarrow> bool" where
  "before_preview COLLECTING = True"
| "before_preview PROPOSAL_READY = True"
| "before_preview PREVIEWING = True"
| "before_preview _ = False"

fun after_approval :: "RunFlowState \<Rightarrow> bool" where
  "after_approval APPROVED = True"
| "after_approval STARTING = True"
| "after_approval DETACHED_RUNNING = True"
| "after_approval COMPLETED = True"
| "after_approval FAILED = True"
| "after_approval _ = False"

definition wf_preview :: "RunFlowContext \<Rightarrow> bool" where
  "wf_preview c \<longleftrightarrow>
     (before_preview (flow_state c) \<longrightarrow> flow_preview c = None) \<and>
     (before_preview (flow_state c) \<or> flow_state c = CANCELLED \<or> flow_preview c \<noteq> None) \<and>
     (flow_preview c = None \<or> flow_id c = map_option prev_flowId (flow_preview c))"

definition wf_snapshot :: "RunFlowContext \<Rightarrow> bool" where
  "wf_snapshot c \<longleftrightarrow>
     (before_preview (flow_state c) \<or> flow_state c = AWAITING_APPROVAL \<longrightarrow> approvedSnapshot c = None) \<and>
     (after_approval (flow_state c) \<longrightarrow> approvedSnapshot c \<noteq> None) \<and>
     (approvedSnapshot c = None \<or>
        flow_id c = map_option snapshot_flowId (approvedSnapshot c) \<and>
        map_option prev_revision (flow_preview c) = map_option snapshot_revision (approvedSnapshot c) \<and>
        map_option prev_planDigest (flow_preview c) = map_option snapshot_planDigest (approvedSnapshot c))"

definition wf_outcome :: "RunFlowContext \<Rightarrow> bool" where
  "wf_outcome c \<longleftrightarrow>
     (flow_state c = DETACHED_RUNNING \<or> flow_state c = COMPLETED \<longrightarrow> flow_handle c \<noteq> None) \<and>
     (flow_state c = FLOW_BLOCKED \<longleftrightarrow> blockedReason c \<noteq> None) \<and>
     (flow_state c = FAILED \<longleftrightarrow> failureReason c \<noteq> None) \<and>
     (flow_state c = CANCELLED \<longleftrightarrow> cancelReason c \<noteq> None) \<and>
     (cancelReason c = Some Superseded \<longleftrightarrow> supersededBy c \<noteq> None)"

definition flow_wf :: "RunFlowContext \<Rightarrow> bool" where
  "flow_wf c \<longleftrightarrow> wf_ids c \<and> wf_preview c \<and> wf_snapshot c \<and> wf_outcome c"

lemma wf_ids_step:
  assumes "reduceRunFlow c e = Inr c'" "wf_ids c"
  shows "wf_ids c'"
  using assms(1)
proof (cases rule: reduce_cases)
  case (blocked reason)
  from blocked(3) assms(2) have "flow_id c \<noteq> None \<and> flow_proposal c \<noteq> None"
    by (auto simp: wf_ids_def)
  with blocked(2) assms(2) show ?thesis by (simp add: wf_ids_def)
next
  case (failed err)
  with assms(2) show ?thesis by (auto simp: wf_ids_def)
qed (use assms(2) in \<open>simp_all add: wf_ids_def\<close>)

lemma wf_preview_step:
  assumes "reduceRunFlow c e = Inr c'" "wf_ids c" "wf_preview c"
  shows "wf_preview c'"
  using assms(1)
proof (cases rule: reduce_cases)
  case (proposal p)
  with assms(2,3) show ?thesis by (simp add: wf_preview_def)
next
  case (preview_ready p)
  with reduce_Inr(2) [OF assms(1)] assms(2) have "flow_id c = Some (ev_flowId e)" by (auto simp: wf_ids_def)
  with preview_ready show ?thesis by (simp add: wf_preview_def)
next
  case (blocked reason)
  from blocked(3) assms(3) have "flow_preview c \<noteq> None" by (auto simp: wf_preview_def)
  with blocked(2) assms(3) show ?thesis by (simp add: wf_preview_def)
next
  case (failed err)
  with assms(3) show ?thesis by (auto simp: wf_preview_def)
qed (use assms(3) in \<open>simp_all add: wf_preview_def\<close>)

lemma wf_snapshot_step:
  assumes "reduceRunFlow c e = Inr c'" "wf_ids c" "wf_snapshot c"
  shows "wf_snapshot c'"
  using assms(1)
proof (cases rule: reduce_cases)
  case (granted p a)
  with assms(2) obtain i where "flow_id c = Some i" by (auto simp: wf_ids_def)
  with granted show ?thesis by (simp add: wf_snapshot_def)
next
  case (failed err)
  with assms(3) show ?thesis by (auto simp: wf_snapshot_def)
qed (use assms(3) in \<open>simp_all add: wf_snapshot_def\<close>)

lemma wf_outcome_step:
  assumes "reduceRunFlow c e = Inr c'" "wf_outcome c"
  shows "wf_outcome c'"
proof -
  have live: "cancelReason c = None \<and> supersededBy c = None \<and> blockedReason c = None \<and> failureReason c = None"
    using reduce_Inr(3) [OF assms(1)] assms(2) by (auto simp: wf_outcome_def)
  from assms(1) show ?thesis
    by (cases rule: reduce_cases) (use assms(2) live in \<open>simp_all add: wf_outcome_def\<close>)
qed

lemma reachable_inv: "flow_reachable c es \<Longrightarrow> flow_wf c"
proof (induction rule: flow_reachable.induct)
  case start
  show ?case
    by (simp add: flow_wf_def wf_ids_def wf_preview_def wf_snapshot_def wf_outcome_def
        createInitialRunFlowContext_def INITIAL_RUN_FLOW_CONTEXT_def)
next
  case (step c es e c')
  then show ?case
    using wf_ids_step wf_preview_step wf_snapshot_step wf_outcome_step by (simp add: flow_wf_def)
qed

section \<open>Histories\<close>

definition approved_in :: "RunFlowEvent list \<Rightarrow> int \<Rightarrow> string \<Rightarrow> bool" where
  "approved_in es r d \<longleftrightarrow> (\<exists>e1 e2 p a. subseq [e1, e2] es \<and> ev_body e1 = PREVIEW_READY p \<and>
     prev_revision p = r \<and> prev_planDigest p = d \<and> ev_body e2 = APPROVAL_GRANTED r d a)"

definition started_in :: "RunFlowEvent list \<Rightarrow> int \<Rightarrow> string \<Rightarrow> bool" where
  "started_in es r d \<longleftrightarrow> (\<exists>e1 e2 e3 p a. subseq [e1, e2, e3] es \<and> ev_body e1 = PREVIEW_READY p \<and>
     prev_revision p = r \<and> prev_planDigest p = d \<and> ev_body e2 = APPROVAL_GRANTED r d a \<and>
     ev_body e3 = START_REQUESTED r d)"

text \<open>What a history explains of the context it leads to.\<close>

definition preview_seen :: "RunFlowContext \<Rightarrow> RunFlowEvent list \<Rightarrow> bool" where
  "preview_seen c es \<longleftrightarrow> (\<forall>p. flow_preview c = Some p \<longrightarrow> (\<exists>e \<in> set es. ev_body e = PREVIEW_READY p))"

definition approval_seen :: "RunFlowContext \<Rightarrow> RunFlowEvent list \<Rightarrow> bool" where
  "approval_seen c es \<longleftrightarrow>
     (\<forall>s. approvedSnapshot c = Some s \<longrightarrow> approved_in es (snapshot_revision s) (snapshot_planDigest s))"

fun after_start :: "RunFlowState \<Rightarrow> bool" where
  "after_start STARTING = True"
| "after_start DETACHED_RUNNING = True"
| "after_start COMPLETED = True"
| "after_start FAILED = True"
| "after_start _ = False"

definition start_seen :: "RunFlowContext \<Rightarrow> RunFlowEvent list \<Rightarrow> bool" where
  "start_seen c es \<longleftrightarrow> (\<forall>s. after_start (flow_state c) \<longrightarrow> approvedSnapshot c = Some s \<longrightarrow>
     started_in es (snapshot_revision s) (snapshot_planDigest s))"

definition no_stop_seen :: "RunFlowContext \<Rightarrow> RunFlowEvent list \<Rightarrow> bool" where
  "no_stop_seen c es \<longleftrightarrow> flow_state c = CANCELLED \<or> (\<forall>e \<in> set es. \<not> stops (ev_body e))"

lemma subseq_snoc: "subseq xs es \<Longrightarrow> subseq xs (es @ [e])"
  by (simp add: subseq_rev_drop_many)

lemma subseq_snoc_last: "subseq xs es \<Longrightarrow> subseq (xs @ [e]) (es @ [e])"
  by simp

lemma approved_mono: "approved_in es r d \<Longrightarrow> approved_in (es @ [e]) r d"
  unfolding approved_in_def using subseq_snoc by fast

lemma started_mono: "started_in es r d \<Longrightarrow> started_in (es @ [e]) r d"
  unfolding started_in_def using subseq_snoc by fast

lemma approved_intro:
  assumes "e1 \<in> set es" "ev_body e1 = PREVIEW_READY p" "ev_body e2 = APPROVAL_GRANTED (prev_revision p) (prev_planDigest p) a"
  shows "approved_in (es @ [e2]) (prev_revision p) (prev_planDigest p)"
proof -
  have "subseq [e1] es" using assms(1) by (simp add: subseq_singleton_left)
  then have "subseq [e1, e2] (es @ [e2])" using subseq_snoc_last [of "[e1]" es e2] by simp
  with assms(2,3) show ?thesis unfolding approved_in_def by blast
qed

lemma started_intro:
  assumes "approved_in es r d" "ev_body e = START_REQUESTED r d"
  shows "started_in (es @ [e]) r d"
proof -
  from assms(1) obtain e1 e2 p a where "subseq [e1, e2] es" "ev_body e1 = PREVIEW_READY p"
    "prev_revision p = r" "prev_planDigest p = d" "ev_body e2 = APPROVAL_GRANTED r d a"
    by (auto simp: approved_in_def)
  moreover from this have "subseq [e1, e2, e] (es @ [e])" using subseq_snoc_last [of "[e1, e2]" es e] by simp
  ultimately show ?thesis using assms(2) unfolding started_in_def by blast
qed

lemma preview_seen_mono:
  "preview_seen c es \<Longrightarrow> flow_preview c' = flow_preview c \<Longrightarrow> preview_seen c' (es @ [e])"
  by (simp add: preview_seen_def)

lemma approval_seen_mono:
  "approval_seen c es \<Longrightarrow> approvedSnapshot c' = approvedSnapshot c \<Longrightarrow> approval_seen c' (es @ [e])"
  by (simp add: approval_seen_def approved_mono)

lemma start_seen_mono:
  "start_seen c es \<Longrightarrow> approvedSnapshot c' = approvedSnapshot c \<Longrightarrow>
   (after_start (flow_state c') \<Longrightarrow> after_start (flow_state c)) \<Longrightarrow> start_seen c' (es @ [e])"
  by (simp add: start_seen_def started_mono)

lemma preview_seen_step:
  assumes "reduceRunFlow c e = Inr c'" "preview_seen c es"
  shows "preview_seen c' (es @ [e])"
  using assms(1)
proof (cases rule: reduce_cases)
  case (preview_ready p)
  then show ?thesis by (simp add: preview_seen_def)
qed (intro preview_seen_mono [OF assms(2)]; simp)+

lemma approval_seen_step:
  assumes "reduceRunFlow c e = Inr c'" "preview_seen c es" "approval_seen c es"
  shows "approval_seen c' (es @ [e])"
  using assms(1)
proof (cases rule: reduce_cases)
  case (granted p a)
  from granted(3) assms(2) obtain e1 where e1: "e1 \<in> set es" "ev_body e1 = PREVIEW_READY p"
    unfolding preview_seen_def by blast
  from approved_intro [OF e1 granted(1)] granted(4) show ?thesis by (simp add: approval_seen_def)
qed (intro approval_seen_mono [OF assms(3)]; simp)+

lemma start_seen_step:
  assumes "reduceRunFlow c e = Inr c'" "approval_seen c es" "start_seen c es"
  shows "start_seen c' (es @ [e])"
  using assms(1)
proof (cases rule: reduce_cases)
  case (start s)
  from start(3) assms(2) have "approved_in es (snapshot_revision s) (snapshot_planDigest s)"
    by (simp add: approval_seen_def)
  from started_intro [OF this start(1)] start(3,4) show ?thesis by (simp add: start_seen_def)
next
  case (granted p a)
  then show ?thesis by (simp add: start_seen_def)
next
  case (failed err)
  then have "after_start (flow_state c)" by auto
  with failed(3) show ?thesis by (intro start_seen_mono [OF assms(3)]) simp_all
qed (intro start_seen_mono [OF assms(3)]; simp)+

lemma no_stop_step:
  assumes "reduceRunFlow c e = Inr c'" "no_stop_seen c es"
  shows "no_stop_seen c' (es @ [e])"
proof -
  from reduce_Inr(3) [OF assms(1)] assms(2) have "\<forall>e \<in> set es. \<not> stops (ev_body e)"
    by (simp add: no_stop_seen_def)
  with assms(1) show ?thesis
    by (cases rule: reduce_cases) (simp_all add: no_stop_seen_def)
qed

lemma reachable_history:
  "flow_reachable c es \<Longrightarrow> preview_seen c es \<and> approval_seen c es \<and> start_seen c es \<and> no_stop_seen c es"
proof (induction rule: flow_reachable.induct)
  case start
  show ?case
    by (simp add: preview_seen_def approval_seen_def start_seen_def no_stop_seen_def
        createInitialRunFlowContext_def INITIAL_RUN_FLOW_CONTEXT_def)
next
  case (step c es e c')
  then show ?case
    using preview_seen_step approval_seen_step start_seen_step no_stop_step by blast
qed

text \<open>
  C12 Only what was approved is started: whatever the sequence of events, a flow that is
  starting, running, completed or failed has in its history, in this order, a preview, a
  grant of approval for exactly that preview's revision and digest, and a start request for
  the same revision and digest; and nothing in that history rejected or aborted the flow.
\<close>

theorem started_only_approved:
  assumes "flow_reachable c es" and "flow_state c \<in> {STARTING, DETACHED_RUNNING, COMPLETED, FAILED}"
  shows "(\<exists>s. approvedSnapshot c = Some s \<and> started_in es (snapshot_revision s) (snapshot_planDigest s)) \<and>
    (\<forall>e \<in> set es. \<not> stops (ev_body e))"
proof -
  from assms(2) have st: "after_approval (flow_state c)" "after_start (flow_state c)"
    "flow_state c \<noteq> CANCELLED" by auto
  from reachable_inv [OF assms(1)] st(1) obtain s where s: "approvedSnapshot c = Some s"
    unfolding flow_wf_def wf_snapshot_def by blast
  from reachable_history [OF assms(1)] s st(2,3) show ?thesis
    unfolding start_seen_def no_stop_seen_def by blast
qed

text \<open>
  C37 Reachable contexts are well formed: every state carries the data it needs (so the
  missing-proposal, missing-preview and missing-snapshot errors cannot occur), all parts
  agree on the flow id, the approved snapshot is the live preview's revision and digest, and
  a reason is recorded exactly for the blocked, failed and cancelled states.
\<close>

theorem reachable_well_formed:
  assumes "flow_reachable c es"
  shows "flow_wf c"
  using reachable_inv [OF assms] by simp

text \<open>The commands that a client may deliver again.\<close>

fun replayable :: "RunFlowEventBody \<Rightarrow> bool" where
  "replayable (APPROVAL_GRANTED _ _ _) = True"
| "replayable (START_REQUESTED _ _) = True"
| "replayable (RUN_STARTED _) = True"
| "replayable _ = False"

text \<open>
  Replay: delivering an accepted approval, start request or start notice a second time
  changes nothing, unless the first delivery already blocked the flow.
\<close>

theorem replay_idempotent:
  assumes "reduceRunFlow c e = Inr c'" and "replayable (ev_body e)"
  shows "flow_state c' = FLOW_BLOCKED \<or> reduceRunFlow c' e = Inr c'"
proof -
  note pre = reduce_Inr [OF assms(1)]
  from assms(1) show ?thesis
  proof (cases rule: reduce_cases)
    case (granted p a)
    with pre show ?thesis
      by (simp add: reduceRunFlow_def on_granted_def matches_snapshot_iff)
  next
    case (start s)
    with pre show ?thesis
      by (simp add: reduceRunFlow_def on_start_requested_def matches_snapshot_iff)
  next
    case (started h)
    with pre show ?thesis by (simp add: reduceRunFlow_def on_started_def)
  next
    case replayed
    with assms(1) show ?thesis by simp
  qed (use assms(2) in simp_all)
qed

section \<open>A sample history\<close>

definition sample_actor :: ActorContext where
  "sample_actor = \<lparr>actor_id = ''op'', actor_role = None, actor_tenantId = None\<rparr>"

definition sample_event :: "RunFlowEventBody \<Rightarrow> RunFlowEvent" where
  "sample_event b = \<lparr>ev_schemaVersion = 1, ev_flowId = ''f'', ev_timestamp = ''t'', ev_commandId = None, ev_body = b\<rparr>"

definition sample_proposal :: RunProposal where
  "sample_proposal = \<lparr>prop_flowId = ''f'', prop_tenant = ''t'', prop_project = ''p'', prop_actor = sample_actor,
     prop_origin = OCli, prop_revision = 1, intentSummary = ''do it''\<rparr>"

definition sample_preview :: "int \<Rightarrow> PlanPreview" where
  "sample_preview r = \<lparr>prev_flowId = ''f'', prev_revision = r, prev_planDigest = ''d'',
     planDigestVersion = None, taskSummaries = [], policyDecision = PolicyAllow, gateResult = GatePass,
     gateFindings = None, preview_topology = None, topologyGateResult = None, scopeGateResult = None,
     scopeGateMessage = None, scopeGateOverridden = None\<rparr>"

definition sample_history :: "int \<Rightarrow> RunFlowEventBody list" where
  "sample_history r = [PROPOSAL_SUBMITTED sample_proposal, PREVIEW_STARTED 1, PREVIEW_READY (sample_preview r),
     APPROVAL_GRANTED r ''d'' sample_actor, START_REQUESTED r ''d'',
     RUN_STARTED \<lparr>handle_flowId = ''f'', jobId = ''j'', logRef = ''l''\<rparr>]"

fun run_flow :: "RunFlowContext \<Rightarrow> RunFlowEvent list \<Rightarrow> RunFlowTransitionError + RunFlowContext" where
  "run_flow c [] = Inr c"
| "run_flow c (e # es) = (case reduceRunFlow c e of Inl err \<Rightarrow> Inl err | Inr c' \<Rightarrow> run_flow c' es)"

lemma run_flow_reachable:
  "flow_reachable c es \<Longrightarrow> run_flow c es' = Inr c' \<Longrightarrow> flow_reachable c' (es @ es')"
proof (induction es' arbitrary: c es)
  case (Cons e es')
  from Cons.prems(2) obtain c1 where "reduceRunFlow c e = Inr c1" "run_flow c1 es' = Inr c'"
    by (auto split: sum.splits)
  with Cons.IH [of c1 "es @ [e]"] Cons.prems(1) show ?case by (auto intro: flow_reachable.step)
qed simp

lemma run_flow_initial:
  "run_flow createInitialRunFlowContext es = Inr c \<Longrightarrow> flow_reachable c es"
  using run_flow_reachable [OF flow_reachable.start] by fastforce

definition flow_after :: "RunFlowEventBody list \<Rightarrow> RunFlowContext option" where
  "flow_after bs = (case run_flow createInitialRunFlowContext (map sample_event bs) of Inl _ \<Rightarrow> None | Inr c \<Rightarrow> Some c)"

lemma flow_after_reachable: "flow_after bs = Some c \<Longrightarrow> flow_reachable c (map sample_event bs)"
  by (auto simp: flow_after_def run_flow_initial split: sum.splits)

theorem terminal_absorbing_witness:
  "\<exists>c err. flow_after [FLOW_ABORTED None None] = Some c \<and>
     reduceRunFlow c (sample_event (START_REQUESTED 1 ''d'')) = Inl err \<and> fromState err = CANCELLED"
proof -
  have "map_option flow_state (flow_after [FLOW_ABORTED None None]) = Some CANCELLED" by code_simp
  then obtain c where c: "flow_after [FLOW_ABORTED None None] = Some c" "flow_state c = CANCELLED" by auto
  with terminal_absorbing [of c "sample_event (START_REQUESTED 1 ''d'')"] show ?thesis by auto
qed

theorem reduce_refines_lifecycle_witness:
  "\<exists>c'. reduceRunFlow createInitialRunFlowContext (sample_event (PROPOSAL_SUBMITTED sample_proposal)) = Inr c' \<and>
     lifecycle_step COLLECTING (flow_state c')"
proof -
  let ?r = "reduceRunFlow createInitialRunFlowContext (sample_event (PROPOSAL_SUBMITTED sample_proposal))"
  have "(case ?r of Inl _ \<Rightarrow> None | Inr c \<Rightarrow> Some (flow_state c)) = Some PROPOSAL_READY"
    "flow_state createInitialRunFlowContext = COLLECTING" by code_simp+
  then obtain c' where c: "?r = Inr c'" "flow_state c' = PROPOSAL_READY"
    "flow_state createInitialRunFlowContext = COLLECTING" by (auto split: sum.splits)
  with reduce_refines_lifecycle [OF c(1)] show ?thesis by auto
qed

theorem started_only_approved_witness:
  "\<exists>c. flow_after (sample_history 1) = Some c \<and> flow_state c = DETACHED_RUNNING \<and>
     started_in (map sample_event (sample_history 1)) 1 ''d''"
proof -
  have "map_option (\<lambda>c. (flow_state c, map_option (\<lambda>s. (snapshot_revision s, snapshot_planDigest s)) (approvedSnapshot c)))
      (flow_after (sample_history 1)) = Some (DETACHED_RUNNING, Some (1, ''d''))" by code_simp
  then obtain c s where c: "flow_after (sample_history 1) = Some c" "flow_state c = DETACHED_RUNNING"
    "approvedSnapshot c = Some s" "snapshot_revision s = 1" "snapshot_planDigest s = ''d''" by auto
  with started_only_approved [OF flow_after_reachable [OF c(1)]] show ?thesis by auto
qed

theorem reachable_well_formed_witness:
  "\<exists>c. flow_after (sample_history 1) = Some c \<and> flow_wf c"
proof -
  have "map_option flow_state (flow_after (sample_history 1)) = Some DETACHED_RUNNING" by code_simp
  then obtain c where c: "flow_after (sample_history 1) = Some c" by auto
  with reachable_well_formed [OF flow_after_reachable [OF c]] show ?thesis by blast
qed

theorem replay_idempotent_witness:
  "\<exists>c. flow_after (take 4 (sample_history 1)) = Some c \<and> flow_state c = APPROVED \<and>
     reduceRunFlow c (sample_event (APPROVAL_GRANTED 1 ''d'' sample_actor)) = Inr c"
proof -
  let ?e = "sample_event (APPROVAL_GRANTED 1 ''d'' sample_actor)"
  have eq: "Option.bind (flow_after (take 3 (sample_history 1))) (\<lambda>c. case reduceRunFlow c ?e of Inl _ \<Rightarrow> None | Inr c' \<Rightarrow> Some c')
       = flow_after (take 4 (sample_history 1))" by code_simp
  have "map_option flow_state (flow_after (take 4 (sample_history 1))) = Some APPROVED" by code_simp
  then obtain c where c: "flow_after (take 4 (sample_history 1)) = Some c" "flow_state c = APPROVED" by blast
  from eq c(1) obtain c0 where c0: "reduceRunFlow c0 ?e = Inr c"
    by (cases "flow_after (take 3 (sample_history 1))") (auto split: sum.splits)
  have "replayable (ev_body ?e)" by (simp add: sample_event_def)
  from replay_idempotent [OF c0 this] c show ?thesis by simp
qed

text \<open>
  The preview's revision is not compared with the proposal's: a flow whose proposal is
  revision 1 accepts a preview of revision 2 and can be approved and started at revision 2.
\<close>

theorem preview_revision_unchecked:
  "\<exists>c. flow_reachable c (map sample_event (sample_history 2)) \<and> flow_state c = DETACHED_RUNNING \<and>
     map_option prop_revision (flow_proposal c) = Some 1 \<and>
     map_option snapshot_revision (approvedSnapshot c) = Some 2"
proof -
  have "map_option (\<lambda>c. (flow_state c, map_option prop_revision (flow_proposal c),
      map_option snapshot_revision (approvedSnapshot c))) (flow_after (sample_history 2))
      = Some (DETACHED_RUNNING, Some 1, Some 2)" by code_simp
  then show ?thesis using flow_after_reachable by auto
qed

end
