(* ===== verification/Js_Value.thy ===== *)
theory Js_Value
  imports Js_String
begin

text \<open>
  Dynamically typed JavaScript values, as the code that checks configuration and conditions
  sees them: what \<open>unknown\<close> can hold when it comes from parsed JSON or YAML. An object is the
  list of its own entries in enumeration order.
\<close>

section \<open>Values\<close>

datatype js =
    JUndefined | JNull | JBool bool | JNum rat | JInfinity bool | JNaN
  | JStr string | JArr "js list" | JObj "(string \<times> js) list"

text \<open>A number is finite, one of the two infinities (\<open>True\<close> is the positive one) or NaN.\<close>

type_synonym 'a js_result = "string + 'a"

definition result_bind :: "('e + 'a) \<Rightarrow> ('a \<Rightarrow> 'e + 'b) \<Rightarrow> 'e + 'b" where
  "result_bind r f = (case r of Inl e \<Rightarrow> Inl e | Inr x \<Rightarrow> f x)"

definition check :: "bool \<Rightarrow> 'e \<Rightarrow> 'e + unit" where
  "check ok e = (if ok then Inr () else Inl e)"

definition isPlainObject :: "js \<Rightarrow> bool" where
  "isPlainObject v = (case v of JObj _ \<Rightarrow> True | _ \<Rightarrow> False)"

definition is_boolean :: "js \<Rightarrow> bool" where
  "is_boolean v = (case v of JBool _ \<Rightarrow> True | _ \<Rightarrow> False)"

fun js_get :: "js \<Rightarrow> string \<Rightarrow> js" where
  "js_get (JObj es) k = (case map_of es k of None \<Rightarrow> JUndefined | Some v \<Rightarrow> v)"
| "js_get _ _ = JUndefined"

fun js_keys :: "js \<Rightarrow> string list" where
  "js_keys (JObj es) = map fst es"
| "js_keys _ = []"

text \<open>\<open>Number.isSafeInteger\<close>, with the integer it recognises.\<close>

definition max_safe_integer :: int where
  "max_safe_integer = 2 ^ 53 - 1"

definition safe_integer :: "js \<Rightarrow> int option" where
  "safe_integer v =
     (case v of JNum q \<Rightarrow>
        (if of_int \<lfloor>q\<rfloor> = q \<and> \<bar>\<lfloor>q\<rfloor>\<bar> \<le> max_safe_integer then Some \<lfloor>q\<rfloor> else None)
      | _ \<Rightarrow> None)"

section \<open>Laws\<close>

lemma result_bind_simps [simp]:
  "result_bind (Inl e) f = Inl e" "result_bind (Inr x) f = f x"
  by (simp_all add: result_bind_def)

lemma result_bind_Inr: "result_bind r f = Inr y \<longleftrightarrow> (\<exists>x. r = Inr x \<and> f x = Inr y)"
  by (cases r) simp_all

lemma check_Inr [simp]: "check ok e = Inr u \<longleftrightarrow> ok"
  by (simp add: check_def)

lemma check_simps [simp]: "check True e = Inr ()" "check False e = Inl e"
  by (simp_all add: check_def)

lemma safe_integer_of_int: "\<bar>n\<bar> \<le> max_safe_integer \<Longrightarrow> safe_integer (JNum (of_int n)) = Some n"
  by (simp add: safe_integer_def)

lemma safe_integer_bound: "safe_integer v = Some n \<Longrightarrow> \<bar>n\<bar> \<le> max_safe_integer"
  by (auto simp: safe_integer_def split: js.splits if_splits)

end
