(* ===== verification/Approval_Lifecycle.thy ===== *)
theory Approval_Lifecycle
  imports Js_Value
begin

text \<open>
  \<open>src/core/approval-lifecycle-policy.ts\<close>: the lifecycle profile of an approval request, the
  overrides that may only tighten it, the expiry of a request, its risk tier, and what happens
  when it times out. Configuration is a dynamic value and is checked as in the code, with the
  code's messages. The digests of a policy (SHA-256 of its canonical JSON) are not modelled.
\<close>

section \<open>Ranked enumerations\<close>

datatype ApprovalLifecycleOrigin = Confirmation | AutonomousTrigger | GatewayPairing | BrokerNative
datatype ApprovalRiskTier = Routine | Elevated | Critical
datatype ApprovalTimeoutDisposition = RequestDefault | ParkAlert | ParkUndecidable | DenyExpire
datatype ApprovalLifecycleBlockingScope = BlockRequest | BlockTrigger | BlockRun | BlockSecurity

definition APPROVAL_LIFECYCLE_ORIGINS :: "ApprovalLifecycleOrigin list" where
  "APPROVAL_LIFECYCLE_ORIGINS = [Confirmation, AutonomousTrigger, GatewayPairing, BrokerNative]"

definition APPROVAL_RISK_TIERS :: "ApprovalRiskTier list" where
  "APPROVAL_RISK_TIERS = [Routine, Elevated, Critical]"

definition APPROVAL_TIMEOUT_DISPOSITIONS :: "ApprovalTimeoutDisposition list" where
  "APPROVAL_TIMEOUT_DISPOSITIONS = [RequestDefault, ParkAlert, ParkUndecidable, DenyExpire]"

definition APPROVAL_LIFECYCLE_BLOCKING_SCOPES :: "ApprovalLifecycleBlockingScope list" where
  "APPROVAL_LIFECYCLE_BLOCKING_SCOPES = [BlockRequest, BlockTrigger, BlockRun, BlockSecurity]"

primrec origin_name :: "ApprovalLifecycleOrigin \<Rightarrow> string" where
  "origin_name Confirmation = ''confirmation''"
| "origin_name AutonomousTrigger = ''autonomous-trigger''"
| "origin_name GatewayPairing = ''gateway-pairing''"
| "origin_name BrokerNative = ''broker-native''"

primrec risk_name :: "ApprovalRiskTier \<Rightarrow> string" where
  "risk_name Routine = ''routine''"
| "risk_name Elevated = ''elevated''"
| "risk_name Critical = ''critical''"

primrec timeout_name :: "ApprovalTimeoutDisposition \<Rightarrow> string" where
  "timeout_name RequestDefault = ''request-default''"
| "timeout_name ParkAlert = ''park-alert''"
| "timeout_name ParkUndecidable = ''park-undecidable''"
| "timeout_name DenyExpire = ''deny-expire''"

primrec blocking_name :: "ApprovalLifecycleBlockingScope \<Rightarrow> string" where
  "blocking_name BlockRequest = ''request''"
| "blocking_name BlockTrigger = ''trigger''"
| "blocking_name BlockRun = ''run''"
| "blocking_name BlockSecurity = ''security''"

primrec RISK_RANK :: "ApprovalRiskTier \<Rightarrow> nat" where
  "RISK_RANK Routine = 0" | "RISK_RANK Elevated = 1" | "RISK_RANK Critical = 2"

primrec TIMEOUT_RANK :: "ApprovalTimeoutDisposition \<Rightarrow> nat" where
  "TIMEOUT_RANK RequestDefault = 0" | "TIMEOUT_RANK ParkAlert = 1"
| "TIMEOUT_RANK ParkUndecidable = 2" | "TIMEOUT_RANK DenyExpire = 3"

primrec BLOCKING_RANK :: "ApprovalLifecycleBlockingScope \<Rightarrow> nat" where
  "BLOCKING_RANK BlockRequest = 0" | "BLOCKING_RANK BlockTrigger = 1"
| "BLOCKING_RANK BlockRun = 2" | "BLOCKING_RANK BlockSecurity = 3"

text \<open>The ranks make the three enumerations linear orders, the stricter the greater.\<close>

instantiation ApprovalRiskTier :: linorder
begin
definition less_eq_ApprovalRiskTier :: "ApprovalRiskTier \<Rightarrow> ApprovalRiskTier \<Rightarrow> bool" where
  "less_eq_ApprovalRiskTier a b \<longleftrightarrow> RISK_RANK a \<le> RISK_RANK b"
definition less_ApprovalRiskTier :: "ApprovalRiskTier \<Rightarrow> ApprovalRiskTier \<Rightarrow> bool" where
  "less_ApprovalRiskTier a b \<longleftrightarrow> RISK_RANK a < RISK_RANK b"
instance
proof
  fix a b :: ApprovalRiskTier
  show "a \<le> b \<Longrightarrow> b \<le> a \<Longrightarrow> a = b"
    by (cases a; cases b) (simp_all add: less_eq_ApprovalRiskTier_def)
qed (auto simp: less_eq_ApprovalRiskTier_def less_ApprovalRiskTier_def)
end

instantiation ApprovalTimeoutDisposition :: linorder
begin
definition less_eq_ApprovalTimeoutDisposition ::
    "ApprovalTimeoutDisposition \<Rightarrow> ApprovalTimeoutDisposition \<Rightarrow> bool" where
  "less_eq_ApprovalTimeoutDisposition a b \<longleftrightarrow> TIMEOUT_RANK a \<le> TIMEOUT_RANK b"
definition less_ApprovalTimeoutDisposition ::
    "ApprovalTimeoutDisposition \<Rightarrow> ApprovalTimeoutDisposition \<Rightarrow> bool" where
  "less_ApprovalTimeoutDisposition a b \<longleftrightarrow> TIMEOUT_RANK a < TIMEOUT_RANK b"
instance
proof
  fix a b :: ApprovalTimeoutDisposition
  show "a \<le> b \<Longrightarrow> b \<le> a \<Longrightarrow> a = b"
    by (cases a; cases b) (simp_all add: less_eq_ApprovalTimeoutDisposition_def)
qed (auto simp: less_eq_ApprovalTimeoutDisposition_def less_ApprovalTimeoutDisposition_def)
end

instantiation ApprovalLifecycleBlockingScope :: linorder
begin
definition less_eq_ApprovalLifecycleBlockingScope ::
    "ApprovalLifecycleBlockingScope \<Rightarrow> ApprovalLifecycleBlockingScope \<Rightarrow> bool" where
  "less_eq_ApprovalLifecycleBlockingScope a b \<longleftrightarrow> BLOCKING_RANK a \<le> BLOCKING_RANK b"
definition less_ApprovalLifecycleBlockingScope ::
    "ApprovalLifecycleBlockingScope \<Rightarrow> ApprovalLifecycleBlockingScope \<Rightarrow> bool" where
  "less_ApprovalLifecycleBlockingScope a b \<longleftrightarrow> BLOCKING_RANK a < BLOCKING_RANK b"
instance
proof
  fix a b :: ApprovalLifecycleBlockingScope
  show "a \<le> b \<Longrightarrow> b \<le> a \<Longrightarrow> a = b"
    by (cases a; cases b) (simp_all add: less_eq_ApprovalLifecycleBlockingScope_def)
qed (auto simp: less_eq_ApprovalLifecycleBlockingScope_def less_ApprovalLifecycleBlockingScope_def)
end

lemmas rank_order =
  less_eq_ApprovalRiskTier_def less_ApprovalRiskTier_def
  less_eq_ApprovalTimeoutDisposition_def less_ApprovalTimeoutDisposition_def
  less_eq_ApprovalLifecycleBlockingScope_def less_ApprovalLifecycleBlockingScope_def

section \<open>Profiles and policies\<close>

record ResolvedApprovalLifecycleProfile =
  ttlMs :: int
  slaMs :: "int \<times> int \<times> int"
  riskTier :: ApprovalRiskTier
  timeoutDisposition :: ApprovalTimeoutDisposition
  blocking :: ApprovalLifecycleBlockingScope

record ResolvedApprovalLifecycleConfig =
  lifecycle_enabled :: bool
  profiles :: "ApprovalLifecycleOrigin \<Rightarrow> ResolvedApprovalLifecycleProfile"

primrec DEFAULT_PROFILES :: "ApprovalLifecycleOrigin \<Rightarrow> ResolvedApprovalLifecycleProfile" where
  "DEFAULT_PROFILES Confirmation =
     \<lparr>ttlMs = 28800000, slaMs = (300000, 1800000, 7200000), riskTier = Elevated,
      timeoutDisposition = ParkUndecidable, blocking = BlockRun\<rparr>"
| "DEFAULT_PROFILES AutonomousTrigger =
     \<lparr>ttlMs = 3600000, slaMs = (120000, 600000, 1800000), riskTier = Elevated,
      timeoutDisposition = ParkAlert, blocking = BlockTrigger\<rparr>"
| "DEFAULT_PROFILES GatewayPairing =
     \<lparr>ttlMs = 600000, slaMs = (60000, 180000, 420000), riskTier = Critical,
      timeoutDisposition = DenyExpire, blocking = BlockSecurity\<rparr>"
| "DEFAULT_PROFILES BrokerNative =
     \<lparr>ttlMs = 1800000, slaMs = (120000, 600000, 1200000), riskTier = Routine,
      timeoutDisposition = RequestDefault, blocking = BlockRequest\<rparr>"

definition DEFAULT_APPROVAL_LIFECYCLE_POLICY :: ResolvedApprovalLifecycleConfig where
  "DEFAULT_APPROVAL_LIFECYCLE_POLICY = \<lparr>lifecycle_enabled = False, profiles = DEFAULT_PROFILES\<rparr>"

section \<open>Checking an override\<close>

text \<open>An error is the message of the thrown \<open>ApprovalLifecyclePolicyError\<close>.\<close>

definition rejectUnknownKeys :: "js \<Rightarrow> string list \<Rightarrow> string \<Rightarrow> unit js_result" where
  "rejectUnknownKeys value allowed path =
     (let unknown = filter (\<lambda>key. key \<notin> set allowed) (js_keys value)
      in check (unknown = []) (path @ '' contains unsupported field(s): '' @ js_join '', '' unknown))"

definition requirePositiveInteger :: "js \<Rightarrow> string \<Rightarrow> int js_result" where
  "requirePositiveInteger value path =
     (case safe_integer value of
        None \<Rightarrow> Inl (path @ '' must be a positive safe integer'')
      | Some n \<Rightarrow> if n \<le> 0 then Inl (path @ '' must be a positive safe integer'') else Inr n)"

definition profile_path :: "ApprovalLifecycleOrigin \<Rightarrow> string" where
  "profile_path origin = ''approval.lifecycle.profiles.'' @ origin_name origin"

definition parse_ttl :: "string \<Rightarrow> js \<Rightarrow> int \<Rightarrow> int js_result" where
  "parse_ttl path value base =
     result_bind
       (if js_get value ''ttlMs'' = JUndefined then Inr base
        else requirePositiveInteger (js_get value ''ttlMs'') (path @ ''.ttlMs''))
       (\<lambda>ttl. if ttl > base then Inl (path @ ''.ttlMs may only shorten the parent ceiling'') else Inr ttl)"

definition parse_sla_entries :: "string \<Rightarrow> js \<Rightarrow> (int \<times> int \<times> int) js_result" where
  "parse_sla_entries path v =
     (case v of
        JArr [x, y, z] \<Rightarrow>
          result_bind (requirePositiveInteger x (path @ ''.slaMs.0'')) (\<lambda>a.
          result_bind (requirePositiveInteger y (path @ ''.slaMs.1'')) (\<lambda>b.
          result_bind (requirePositiveInteger z (path @ ''.slaMs.2'')) (\<lambda>c. Inr (a, b, c))))
      | _ \<Rightarrow> Inl (path @ ''.slaMs must contain exactly three due offsets''))"

definition check_sla :: "string \<Rightarrow> int \<times> int \<times> int \<Rightarrow> int \<times> int \<times> int \<Rightarrow> (int \<times> int \<times> int) js_result" where
  "check_sla path base sla =
     (case base of (p, q, r) \<Rightarrow> case sla of (a, b, c) \<Rightarrow>
        if \<not> (a < b \<and> b < c) then Inl (path @ ''.slaMs must be strictly increasing'')
        else if a > p \<or> b > q \<or> c > r then Inl (path @ ''.slaMs may only advance parent stages'')
        else Inr sla)"

definition parse_sla :: "string \<Rightarrow> js \<Rightarrow> int \<times> int \<times> int \<Rightarrow> int \<Rightarrow> (int \<times> int \<times> int) js_result" where
  "parse_sla path value base ttl =
     result_bind
       (if js_get value ''slaMs'' = JUndefined then Inr base
        else result_bind (parse_sla_entries path (js_get value ''slaMs'')) (check_sla path base))
       (\<lambda>sla. if snd (snd sla) \<ge> ttl then Inl (path @ ''.slaMs entries must be earlier than ttlMs'') else Inr sla)"

definition find_named :: "('a \<Rightarrow> string) \<Rightarrow> 'a list \<Rightarrow> js \<Rightarrow> 'a option" where
  "find_named name options v = (case v of JStr s \<Rightarrow> find (\<lambda>x. name x = s) options | _ \<Rightarrow> None)"

definition parse_ranked ::
    "('a \<Rightarrow> string) \<Rightarrow> 'a list \<Rightarrow> ('a \<Rightarrow> nat) \<Rightarrow> js \<Rightarrow> 'a \<Rightarrow> string \<Rightarrow> string \<Rightarrow> 'a js_result" where
  "parse_ranked name options rank v base invalid weaker =
     result_bind
       (if v = JUndefined then (if base \<in> set options then Inr base else Inl invalid)
        else (case find_named name options v of None \<Rightarrow> Inl invalid | Some x \<Rightarrow> Inr x))
       (\<lambda>x. if rank x < rank base then Inl weaker else Inr x)"

definition parse_risk :: "string \<Rightarrow> js \<Rightarrow> ApprovalRiskTier \<Rightarrow> ApprovalRiskTier js_result" where
  "parse_risk path value base =
     parse_ranked risk_name APPROVAL_RISK_TIERS RISK_RANK (js_get value ''riskTier'') base
       (path @ ''.riskTier is invalid'') (path @ ''.riskTier may not lower the parent floor'')"

definition parse_timeout ::
    "string \<Rightarrow> js \<Rightarrow> ApprovalTimeoutDisposition \<Rightarrow> ApprovalTimeoutDisposition js_result" where
  "parse_timeout path value base =
     parse_ranked timeout_name APPROVAL_TIMEOUT_DISPOSITIONS TIMEOUT_RANK
       (js_get value ''timeoutDisposition'') base (path @ ''.timeoutDisposition is invalid'')
       (path @ ''.timeoutDisposition may not weaken the parent disposition'')"

definition parse_blocking ::
    "string \<Rightarrow> js \<Rightarrow> ApprovalLifecycleBlockingScope \<Rightarrow> ApprovalLifecycleBlockingScope js_result" where
  "parse_blocking path value base =
     parse_ranked blocking_name APPROVAL_LIFECYCLE_BLOCKING_SCOPES BLOCKING_RANK
       (js_get value ''blocking'') base (path @ ''.blocking is invalid'')
       (path @ ''.blocking may not weaken the parent boundary'')"

definition PROFILE_KEYS :: "string list" where
  "PROFILE_KEYS = [''ttlMs'', ''slaMs'', ''riskTier'', ''timeoutDisposition'', ''blocking'']"

definition parseProfileOverride ::
    "ApprovalLifecycleOrigin \<Rightarrow> js \<Rightarrow> ResolvedApprovalLifecycleProfile \<Rightarrow> ResolvedApprovalLifecycleProfile js_result" where
  "parseProfileOverride origin value base =
     (let path = profile_path origin in
      result_bind (check (isPlainObject value) (path @ '' must be an object'')) (\<lambda>_.
      result_bind (rejectUnknownKeys value PROFILE_KEYS path) (\<lambda>_.
      result_bind (parse_ttl path value (ttlMs base)) (\<lambda>ttl.
      result_bind (parse_sla path value (slaMs base) ttl) (\<lambda>sla.
      result_bind (parse_risk path value (riskTier base)) (\<lambda>risk.
      result_bind (parse_timeout path value (timeoutDisposition base)) (\<lambda>disposition.
      result_bind (parse_blocking path value (blocking base)) (\<lambda>scope.
        Inr \<lparr>ttlMs = ttl, slaMs = sla, riskTier = risk, timeoutDisposition = disposition, blocking = scope\<rparr>))))))))"

section \<open>Resolving a policy\<close>

definition check_policy_shape :: "js \<Rightarrow> js js_result" where
  "check_policy_shape config =
     result_bind
       (if config = JUndefined \<or> config = JNull then Inr (JObj [])
        else if isPlainObject config then Inr config else Inl ''approval.lifecycle must be an object'') (\<lambda>raw.
     result_bind (rejectUnknownKeys raw [''enabled'', ''profiles''] ''approval.lifecycle'') (\<lambda>_.
     result_bind (check (js_get raw ''enabled'' = JUndefined \<or> is_boolean (js_get raw ''enabled''))
       ''approval.lifecycle.enabled must be a boolean'') (\<lambda>_.
     result_bind (check (js_get raw ''profiles'' = JUndefined \<or> isPlainObject (js_get raw ''profiles''))
       ''approval.lifecycle.profiles must be an object'') (\<lambda>_. Inr raw))))"

fun resolve_profiles ::
    "js \<Rightarrow> (ApprovalLifecycleOrigin \<Rightarrow> ResolvedApprovalLifecycleProfile) \<Rightarrow> ApprovalLifecycleOrigin list \<Rightarrow>
     (ApprovalLifecycleOrigin \<Rightarrow> ResolvedApprovalLifecycleProfile) \<Rightarrow>
     (ApprovalLifecycleOrigin \<Rightarrow> ResolvedApprovalLifecycleProfile) js_result" where
  "resolve_profiles raw parent [] ps = Inr ps"
| "resolve_profiles raw parent (origin # origins) ps =
     (if js_get raw (origin_name origin) = JUndefined then resolve_profiles raw parent origins ps
      else result_bind (parseProfileOverride origin (js_get raw (origin_name origin)) (parent origin))
             (\<lambda>p. resolve_profiles raw parent origins (ps(origin := p))))"

definition resolveApprovalLifecyclePolicy ::
    "js \<Rightarrow> ResolvedApprovalLifecycleConfig \<Rightarrow> ResolvedApprovalLifecycleConfig js_result" where
  "resolveApprovalLifecyclePolicy config parent =
     result_bind (check_policy_shape config) (\<lambda>raw.
       let rawProfiles = (if js_get raw ''profiles'' = JUndefined then JObj [] else js_get raw ''profiles'') in
       result_bind (rejectUnknownKeys rawProfiles (map origin_name APPROVAL_LIFECYCLE_ORIGINS)
         ''approval.lifecycle.profiles'') (\<lambda>_.
       result_bind (resolve_profiles rawProfiles (profiles parent) APPROVAL_LIFECYCLE_ORIGINS (profiles parent)) (\<lambda>ps.
         Inr \<lparr>lifecycle_enabled = (case js_get raw ''enabled'' of JBool b \<Rightarrow> b | _ \<Rightarrow> lifecycle_enabled parent),
              profiles = ps\<rparr>)))"

text \<open>A resolved profile as the dynamic value that the tightening of a candidate checks.\<close>

definition profile_value :: "ResolvedApprovalLifecycleProfile \<Rightarrow> js" where
  "profile_value p =
     JObj [(''ttlMs'', JNum (of_int (ttlMs p))),
           (''slaMs'', JArr [JNum (of_int (fst (slaMs p))), JNum (of_int (fst (snd (slaMs p)))),
                             JNum (of_int (snd (snd (slaMs p))))]),
           (''riskTier'', JStr (risk_name (riskTier p))),
           (''timeoutDisposition'', JStr (timeout_name (timeoutDisposition p))),
           (''blocking'', JStr (blocking_name (blocking p)))]"

definition tightenApprovalLifecycleProfile ::
    "ApprovalLifecycleOrigin \<Rightarrow> ResolvedApprovalLifecycleProfile \<Rightarrow> ResolvedApprovalLifecycleProfile \<Rightarrow>
     ResolvedApprovalLifecycleProfile js_result" where
  "tightenApprovalLifecycleProfile origin authored candidate =
     parseProfileOverride origin (profile_value candidate) authored"

fun tighten_profiles ::
    "(ApprovalLifecycleOrigin \<Rightarrow> ResolvedApprovalLifecycleProfile) \<Rightarrow>
     (ApprovalLifecycleOrigin \<Rightarrow> ResolvedApprovalLifecycleProfile) \<Rightarrow> ApprovalLifecycleOrigin list \<Rightarrow>
     (ApprovalLifecycleOrigin \<Rightarrow> ResolvedApprovalLifecycleProfile) \<Rightarrow>
     (ApprovalLifecycleOrigin \<Rightarrow> ResolvedApprovalLifecycleProfile) js_result" where
  "tighten_profiles authored candidate [] ps = Inr ps"
| "tighten_profiles authored candidate (origin # origins) ps =
     result_bind (tightenApprovalLifecycleProfile origin (authored origin) (candidate origin))
       (\<lambda>p. tighten_profiles authored candidate origins (ps(origin := p)))"

definition tightenApprovalLifecyclePolicy ::
    "ResolvedApprovalLifecycleConfig \<Rightarrow> ResolvedApprovalLifecycleConfig \<Rightarrow> ResolvedApprovalLifecycleConfig js_result" where
  "tightenApprovalLifecyclePolicy authored candidate =
     result_bind (tighten_profiles (profiles authored) (profiles candidate) APPROVAL_LIFECYCLE_ORIGINS (profiles authored))
       (\<lambda>ps. Inr \<lparr>lifecycle_enabled = lifecycle_enabled authored, profiles = ps\<rparr>)"

section \<open>Profile transitions\<close>

record ApprovalLifecycleProfileTransition =
  transition_profile :: ResolvedApprovalLifecycleProfile
  transitionChanged :: bool
  weakeningIgnored :: bool

definition stricterValue :: "'a \<Rightarrow> 'a \<Rightarrow> ('a \<Rightarrow> nat) \<Rightarrow> 'a" where
  "stricterValue authored candidate ranks = (if ranks candidate > ranks authored then candidate else authored)"

definition stricter_profile ::
    "ResolvedApprovalLifecycleProfile \<Rightarrow> ResolvedApprovalLifecycleProfile \<Rightarrow> ResolvedApprovalLifecycleProfile" where
  "stricter_profile authored candidate =
     \<lparr>ttlMs = min (ttlMs authored) (ttlMs candidate),
      slaMs = (case slaMs authored of (a, b, c) \<Rightarrow> case slaMs candidate of (x, y, z) \<Rightarrow> (min a x, min b y, min c z)),
      riskTier = stricterValue (riskTier authored) (riskTier candidate) RISK_RANK,
      timeoutDisposition = stricterValue (timeoutDisposition authored) (timeoutDisposition candidate) TIMEOUT_RANK,
      blocking = stricterValue (blocking authored) (blocking candidate) BLOCKING_RANK\<rparr>"

definition sla_changed :: "int \<times> int \<times> int \<Rightarrow> int \<times> int \<times> int \<Rightarrow> bool" where
  "sla_changed s t = (case s of (a, b, c) \<Rightarrow> case t of (x, y, z) \<Rightarrow> a \<noteq> x \<or> b \<noteq> y \<or> c \<noteq> z)"

definition sla_later :: "int \<times> int \<times> int \<Rightarrow> int \<times> int \<times> int \<Rightarrow> bool" where
  "sla_later s t = (case s of (a, b, c) \<Rightarrow> case t of (x, y, z) \<Rightarrow> a > x \<or> b > y \<or> c > z)"

definition applyApprovalLifecycleProfileTransition ::
    "ResolvedApprovalLifecycleProfile \<Rightarrow> ResolvedApprovalLifecycleProfile \<Rightarrow> ApprovalLifecycleProfileTransition" where
  "applyApprovalLifecycleProfileTransition authored candidate =
     (let p = stricter_profile authored candidate in
      \<lparr>transition_profile = p,
       transitionChanged = (ttlMs p \<noteq> ttlMs authored \<or> sla_changed (slaMs p) (slaMs authored) \<or>
         riskTier p \<noteq> riskTier authored \<or> timeoutDisposition p \<noteq> timeoutDisposition authored \<or>
         blocking p \<noteq> blocking authored),
       weakeningIgnored = (ttlMs candidate > ttlMs authored \<or> sla_later (slaMs candidate) (slaMs authored) \<or>
         RISK_RANK (riskTier candidate) < RISK_RANK (riskTier authored) \<or>
         TIMEOUT_RANK (timeoutDisposition candidate) < TIMEOUT_RANK (timeoutDisposition authored) \<or>
         BLOCKING_RANK (blocking candidate) < BLOCKING_RANK (blocking authored))\<rparr>)"

end
