(* ===== verification/Approval_Timeout.thy ===== *)
theory Approval_Timeout
  imports Approval_Lifecycle
begin

text \<open>
  The second half of \<open>src/core/approval-lifecycle-policy.ts\<close>: when a request expires, how
  risky it is, and what its timeout does. Parsing and printing of timestamps
  (\<open>Date.parse\<close>, \<open>toISOString\<close>) are arguments: a parsed timestamp is its number of
  milliseconds, or \<open>None\<close> where the code sees a value that is not finite.
\<close>

section \<open>Expiry\<close>

datatype lifecycle_error = PolicyInvalid string | InvalidTimeValue

record EffectiveApprovalExpiry =
  expiry_now :: string
  expiresAt :: string
  expired :: bool
  producerExpiryCapped :: bool

definition parseUtc :: "(string \<Rightarrow> int option) \<Rightarrow> string \<Rightarrow> string \<Rightarrow> lifecycle_error + int" where
  "parseUtc date_parse value path =
     (case date_parse value of
        None \<Rightarrow> Inl (PolicyInvalid (path @ '' must be an ISO UTC timestamp''))
      | Some t \<Rightarrow> Inr t)"

text \<open>A \<open>Date\<close> holds at most 8.64e15 ms either way; beyond, \<open>toISOString\<close> throws a \<open>RangeError\<close>.\<close>

definition max_time_value :: int where
  "max_time_value = 8640000000000000"

definition toISOString :: "(int \<Rightarrow> string) \<Rightarrow> int \<Rightarrow> lifecycle_error + string" where
  "toISOString print t = (if \<bar>t\<bar> \<le> max_time_value then Inr (print t) else Inl InvalidTimeValue)"

definition producer_ms ::
    "(string \<Rightarrow> int option) \<Rightarrow> string option \<Rightarrow> int \<Rightarrow> lifecycle_error + int" where
  "producer_ms date_parse producer ceilingMs =
     (case producer of None \<Rightarrow> Inr ceilingMs | Some s \<Rightarrow> parseUtc date_parse s ''producerExpiresAt'')"

definition resolveEffectiveApprovalExpiry ::
    "(string \<Rightarrow> int option) \<Rightarrow> (int \<Rightarrow> string) \<Rightarrow> string \<Rightarrow> string option \<Rightarrow>
     ResolvedApprovalLifecycleProfile \<Rightarrow> int option \<Rightarrow> lifecycle_error + EffectiveApprovalExpiry" where
  "resolveEffectiveApprovalExpiry date_parse print createdAt producer profile clock =
     result_bind (parseUtc date_parse createdAt ''createdAt'') (\<lambda>createdMs.
     let ceilingMs = createdMs + ttlMs profile in
     result_bind (producer_ms date_parse producer ceilingMs) (\<lambda>producerMs.
     result_bind (check (producerMs > createdMs) (PolicyInvalid ''producerExpiresAt must be after createdAt'')) (\<lambda>_.
     let effectiveMs = min producerMs ceilingMs in
     case clock of
       None \<Rightarrow> Inl (PolicyInvalid ''approval lifecycle clock returned an invalid Date'')
     | Some nowMs \<Rightarrow>
         result_bind (toISOString print nowMs) (\<lambda>now.
         result_bind (toISOString print effectiveMs) (\<lambda>expires.
           Inr \<lparr>expiry_now = now, expiresAt = expires, expired = (nowMs \<ge> effectiveMs),
                producerExpiryCapped = (producerMs > ceilingMs)\<rparr>)))))"

section \<open>Risk\<close>

text \<open>A risk arrives as a string: an unknown one is an error, whatever its declared type.\<close>

definition mapLegacyApprovalRisk :: "string \<Rightarrow> ApprovalRiskTier js_result" where
  "mapLegacyApprovalRisk risk =
     (if risk = ''none'' \<or> risk = ''low'' then Inr Routine
      else if risk = ''medium'' \<or> risk = ''high'' then Inr Elevated
      else if risk = ''critical'' then Inr Critical
      else Inl (''unknown legacy approval risk: '' @ risk))"

definition isApprovalRiskTierAtLeast :: "ApprovalRiskTier \<Rightarrow> ApprovalRiskTier \<Rightarrow> bool" where
  "isApprovalRiskTierAtLeast candidate lowest \<longleftrightarrow> RISK_RANK candidate \<ge> RISK_RANK lowest"

definition maxApprovalRiskTier :: "ApprovalRiskTier \<Rightarrow> ApprovalRiskTier list \<Rightarrow> ApprovalRiskTier" where
  "maxApprovalRiskTier first tiers =
     foldl (\<lambda>highest tier. if isApprovalRiskTierAtLeast tier highest then tier else highest) first tiers"

record risk_input =
  risk_origin :: ApprovalLifecycleOrigin
  producerRisk :: string
  risk_policy :: ResolvedApprovalLifecycleConfig
  securitySensitive :: bool
  destructive :: bool
  riskTagged :: bool

definition resolveEffectiveApprovalRiskTier :: "risk_input \<Rightarrow> ApprovalRiskTier js_result" where
  "resolveEffectiveApprovalRiskTier input =
     result_bind (mapLegacyApprovalRisk (producerRisk input)) (\<lambda>mapped.
       let risk = maxApprovalRiskTier (riskTier (profiles (risk_policy input) (risk_origin input))) [mapped] in
       Inr (if risk_origin input = GatewayPairing \<or>
               risk_origin input = Confirmation \<and> securitySensitive input \<or>
               risk_origin input = AutonomousTrigger \<and> (destructive input \<or> riskTagged input)
            then Critical else risk))"

section \<open>Timeout\<close>

datatype LegacyApprovalAction = LegacyAllow | LegacyDeny | LegacyDefer | LegacyEscalate
datatype timeout_action = ActPark | ActDeny | ActProceedWarn
datatype timeout_state = Undecidable | Expired
datatype timeout_reason = ProfileTimeout | CriticalFailClosed | RequestDefaultNotAllowlisted | RequestDefaultReason

definition BROKER_PROCEED_WARN_REQUEST_KIND_ALLOWLIST :: "string list" where
  "BROKER_PROCEED_WARN_REQUEST_KIND_ALLOWLIST = []"

record ResolvedApprovalTimeout =
  timeout_act :: timeout_action
  terminalState :: timeout_state
  timeout_alert :: bool
  replayAllowed :: bool
  accessGrantAllowed :: bool
  timeout_blocking :: ApprovalLifecycleBlockingScope
  timeout_why :: timeout_reason

definition timeout_result ::
    "ApprovalLifecycleBlockingScope \<Rightarrow> timeout_action \<Rightarrow> timeout_state \<Rightarrow> bool \<Rightarrow> timeout_reason \<Rightarrow> ResolvedApprovalTimeout" where
  "timeout_result scope act st alert why =
     \<lparr>timeout_act = act, terminalState = st, timeout_alert = alert, replayAllowed = False,
      accessGrantAllowed = False, timeout_blocking = scope, timeout_why = why\<rparr>"

definition request_default_timeout ::
    "ApprovalLifecycleBlockingScope \<Rightarrow> ApprovalRiskTier \<Rightarrow> LegacyApprovalAction option \<Rightarrow> string option \<Rightarrow>
     ResolvedApprovalTimeout" where
  "request_default_timeout scope risk action kind =
     (if risk = Critical then timeout_result scope ActDeny Expired True CriticalFailClosed
      else if action = Some LegacyAllow then
        (if risk = Routine \<and> kind \<noteq> None \<and> the kind \<in> set BROKER_PROCEED_WARN_REQUEST_KIND_ALLOWLIST
         then timeout_result scope ActProceedWarn Expired True RequestDefaultReason
         else timeout_result scope ActDeny Expired True RequestDefaultNotAllowlisted)
      else if action = Some LegacyDeny then timeout_result scope ActDeny Expired False RequestDefaultReason
      else timeout_result scope ActPark Expired True RequestDefaultReason)"

definition resolveApprovalTimeout ::
    "ApprovalLifecycleOrigin \<Rightarrow> ResolvedApprovalLifecycleProfile \<Rightarrow> ApprovalRiskTier \<Rightarrow>
     LegacyApprovalAction option \<Rightarrow> string option \<Rightarrow> ResolvedApprovalTimeout js_result" where
  "resolveApprovalTimeout origin profile risk action kind =
     (let floor = DEFAULT_PROFILES origin in
      if TIMEOUT_RANK (timeoutDisposition profile) < TIMEOUT_RANK (timeoutDisposition floor) \<or>
         BLOCKING_RANK (blocking profile) < BLOCKING_RANK (blocking floor)
      then Inl (''timeout profile weakens the '' @ origin_name origin @ '' origin safety floor'')
      else Inr (case timeoutDisposition profile of
          ParkUndecidable \<Rightarrow> timeout_result (blocking profile) ActPark Undecidable True ProfileTimeout
        | ParkAlert \<Rightarrow> timeout_result (blocking profile) ActPark Expired True ProfileTimeout
        | DenyExpire \<Rightarrow> timeout_result (blocking profile) ActDeny Expired False ProfileTimeout
        | RequestDefault \<Rightarrow> request_default_timeout (blocking profile) risk action kind))"

end
