(* ===== verification/Approval_Correct.thy ===== *)
theory Approval_Correct
  imports Approval_Timeout
begin

text \<open>
  What the approval lifecycle promises: every layer of configuration only tightens, live
  transitions compute the meet of two profiles, and no timeout ever proceeds.
\<close>

section \<open>The strictness order\<close>

definition sla_le :: "int \<times> int \<times> int \<Rightarrow> int \<times> int \<times> int \<Rightarrow> bool" where
  "sla_le s t \<longleftrightarrow> fst s \<le> fst t \<and> fst (snd s) \<le> fst (snd t) \<and> snd (snd s) \<le> snd (snd t)"

text \<open>\<open>at_least_as_strict p q\<close>: no field of \<open>p\<close> is weaker than that of \<open>q\<close>.\<close>

definition at_least_as_strict ::
    "ResolvedApprovalLifecycleProfile \<Rightarrow> ResolvedApprovalLifecycleProfile \<Rightarrow> bool" where
  "at_least_as_strict p q \<longleftrightarrow> ttlMs p \<le> ttlMs q \<and> sla_le (slaMs p) (slaMs q) \<and>
     riskTier q \<le> riskTier p \<and> timeoutDisposition q \<le> timeoutDisposition p \<and> blocking q \<le> blocking p"

definition sla_wf :: "int \<times> int \<times> int \<Rightarrow> int \<Rightarrow> bool" where
  "sla_wf s ttl \<longleftrightarrow> 0 < fst s \<and> fst s < fst (snd s) \<and> fst (snd s) < snd (snd s) \<and> snd (snd s) < ttl"

definition profile_wf :: "ResolvedApprovalLifecycleProfile \<Rightarrow> bool" where
  "profile_wf p \<longleftrightarrow> sla_wf (slaMs p) (ttlMs p) \<and> ttlMs p \<le> max_safe_integer"

definition policy_strict :: "ResolvedApprovalLifecycleConfig \<Rightarrow> ResolvedApprovalLifecycleConfig \<Rightarrow> bool" where
  "policy_strict p q \<longleftrightarrow> (\<forall>origin. at_least_as_strict (profiles p origin) (profiles q origin))"

definition policy_wf :: "ResolvedApprovalLifecycleConfig \<Rightarrow> bool" where
  "policy_wf p \<longleftrightarrow> (\<forall>origin. profile_wf (profiles p origin))"

lemma sla_le_refl [simp]: "sla_le s s"
  by (simp add: sla_le_def)

lemma sla_le_trans: "sla_le s t \<Longrightarrow> sla_le t u \<Longrightarrow> sla_le s u"
  by (auto simp: sla_le_def)

lemma sla_le_antisym: "sla_le s t \<Longrightarrow> sla_le t s \<Longrightarrow> s = t"
  by (auto simp: sla_le_def prod_eq_iff)

lemma strict_refl [simp]: "at_least_as_strict p p"
  by (simp add: at_least_as_strict_def)

lemma strict_trans: "at_least_as_strict p q \<Longrightarrow> at_least_as_strict q r \<Longrightarrow> at_least_as_strict p r"
  unfolding at_least_as_strict_def by (meson order_trans sla_le_trans)

lemma strict_antisym:
  assumes "at_least_as_strict p q" "at_least_as_strict q p"
  shows "p = q"
proof (rule ResolvedApprovalLifecycleProfile.equality)
  show "slaMs p = slaMs q" using assms by (intro sla_le_antisym) (simp_all add: at_least_as_strict_def)
qed (use assms in \<open>simp_all add: at_least_as_strict_def antisym\<close>)

lemma policy_strict_refl: "policy_strict p p"
  by (simp add: policy_strict_def)

lemma policy_strict_trans: "policy_strict p q \<Longrightarrow> policy_strict q r \<Longrightarrow> policy_strict p r"
  unfolding policy_strict_def using strict_trans by blast

lemma default_wf: "policy_wf DEFAULT_APPROVAL_LIFECYCLE_POLICY"
  unfolding policy_wf_def
proof
  fix origin
  show "profile_wf (profiles DEFAULT_APPROVAL_LIFECYCLE_POLICY origin)"
    by (cases origin)
      (simp_all add: DEFAULT_APPROVAL_LIFECYCLE_POLICY_def profile_wf_def sla_wf_def max_safe_integer_def)
qed

section \<open>Layers of configuration\<close>

fun apply_layers :: "('c \<Rightarrow> 'p \<Rightarrow> 'e + 'p) \<Rightarrow> 'c list \<Rightarrow> 'p \<Rightarrow> 'e + 'p" where
  "apply_layers layer [] p = Inr p"
| "apply_layers layer (c # cs) p = result_bind (layer c p) (apply_layers layer cs)"

text \<open>The contract of a configuration layer: what it accepts is never weaker than what it got.\<close>

locale override_layer =
  fixes stricter :: "'p \<Rightarrow> 'p \<Rightarrow> bool"
    and well_formed :: "'p \<Rightarrow> bool"
    and layer :: "'c \<Rightarrow> 'p \<Rightarrow> 'e + 'p"
  assumes refl: "stricter p p"
    and trans: "stricter p q \<Longrightarrow> stricter q r \<Longrightarrow> stricter p r"
    and tightens: "well_formed p \<Longrightarrow> layer c p = Inr q \<Longrightarrow> well_formed q \<and> stricter q p"
begin

lemma layers_tighten:
  "well_formed p \<Longrightarrow> apply_layers layer cs p = Inr q \<Longrightarrow> well_formed q \<and> stricter q p"
proof (induction cs arbitrary: p)
  case Nil
  then show ?case by (simp add: refl)
next
  case (Cons c cs)
  then obtain r where r: "layer c p = Inr r" "apply_layers layer cs r = Inr q"
    by (auto simp: result_bind_Inr)
  with tightens [OF Cons.prems(1) r(1)] Cons.IH [of r] show ?case by (blast intro: trans)
qed

end

section \<open>An accepted override tightens\<close>

lemma requirePositiveInteger_Inr:
  "requirePositiveInteger v path = Inr n \<longleftrightarrow> safe_integer v = Some n \<and> 0 < n"
  by (auto simp: requirePositiveInteger_def split: option.splits)

lemma parse_ttl_le: "parse_ttl path v base = Inr n \<Longrightarrow> n \<le> base"
  by (auto simp: parse_ttl_def result_bind_Inr split: if_splits)

lemma parse_sla_entries_pos:
  "parse_sla_entries path v = Inr s \<Longrightarrow> 0 < fst s"
  by (auto simp: parse_sla_entries_def result_bind_Inr requirePositiveInteger_Inr
      split: js.splits list.splits)

lemma check_sla_Inr:
  "check_sla path base s = Inr t \<longleftrightarrow> t = s \<and> fst s < fst (snd s) \<and> fst (snd s) < snd (snd s) \<and> sla_le s base"
  by (auto simp: check_sla_def sla_le_def split: prod.splits if_splits)

lemma parse_sla_tightens:
  assumes "parse_sla path v base ttl = Inr s" "sla_wf base basettl"
  shows "sla_wf s ttl \<and> sla_le s base"
proof (cases "js_get v ''slaMs'' = JUndefined")
  case True
  with assms show ?thesis by (simp add: parse_sla_def sla_wf_def split: if_splits)
next
  case False
  with assms(1) obtain t where t: "parse_sla_entries path (js_get v ''slaMs'') = Inr t"
    "check_sla path base t = Inr s" "snd (snd s) < ttl"
    by (auto simp: parse_sla_def result_bind_Inr split: if_splits)
  from t(1) parse_sla_entries_pos have "0 < fst t" by blast
  with t(2,3) show ?thesis by (simp add: check_sla_Inr sla_wf_def)
qed

lemma parse_ranked_floor: "parse_ranked name options rank v base e1 e2 = Inr x \<Longrightarrow> rank base \<le> rank x"
  by (auto simp: parse_ranked_def result_bind_Inr split: if_splits)

lemma parseProfileOverride_Inr:
  assumes "parseProfileOverride origin v base = Inr p"
  obtains "isPlainObject v" "parse_ttl (profile_path origin) v (ttlMs base) = Inr (ttlMs p)"
    "parse_sla (profile_path origin) v (slaMs base) (ttlMs p) = Inr (slaMs p)"
    "parse_risk (profile_path origin) v (riskTier base) = Inr (riskTier p)"
    "parse_timeout (profile_path origin) v (timeoutDisposition base) = Inr (timeoutDisposition p)"
    "parse_blocking (profile_path origin) v (blocking base) = Inr (blocking p)"
  using assms by (auto simp: parseProfileOverride_def Let_def result_bind_Inr)

lemma parseProfileOverride_tightens:
  assumes "parseProfileOverride origin v base = Inr p" "profile_wf base"
  shows "profile_wf p \<and> at_least_as_strict p base"
  using assms(1)
proof (rule parseProfileOverride_Inr)
  assume ttl: "parse_ttl (profile_path origin) v (ttlMs base) = Inr (ttlMs p)"
    and sla: "parse_sla (profile_path origin) v (slaMs base) (ttlMs p) = Inr (slaMs p)"
    and risk: "parse_risk (profile_path origin) v (riskTier base) = Inr (riskTier p)"
    and timeout: "parse_timeout (profile_path origin) v (timeoutDisposition base) = Inr (timeoutDisposition p)"
    and block: "parse_blocking (profile_path origin) v (blocking base) = Inr (blocking p)"
  have "riskTier base \<le> riskTier p" "timeoutDisposition base \<le> timeoutDisposition p" "blocking base \<le> blocking p"
    using parse_ranked_floor [OF risk [unfolded parse_risk_def]]
      parse_ranked_floor [OF timeout [unfolded parse_timeout_def]]
      parse_ranked_floor [OF block [unfolded parse_blocking_def]] by (simp_all add: rank_order)
  with parse_ttl_le [OF ttl] parse_sla_tightens [OF sla] assms(2) show ?thesis
    by (auto simp: profile_wf_def at_least_as_strict_def)
qed

section \<open>Policies\<close>

lemma resolve_profiles_tighten:
  assumes "resolve_profiles raw parent origins ps = Inr ps'" "\<forall>origin. profile_wf (parent origin)"
    and "\<forall>origin. profile_wf (ps origin) \<and> at_least_as_strict (ps origin) (parent origin)"
  shows "\<forall>origin. profile_wf (ps' origin) \<and> at_least_as_strict (ps' origin) (parent origin)"
  using assms(1,3)
proof (induction origins arbitrary: ps)
  case (Cons origin origins)
  show ?case
  proof (cases "js_get raw (origin_name origin) = JUndefined")
    case True
    with Cons.prems show ?thesis by (intro Cons.IH [of ps]) simp_all
  next
    case False
    with Cons.prems(1) obtain p where
      p: "parseProfileOverride origin (js_get raw (origin_name origin)) (parent origin) = Inr p"
      and rest: "resolve_profiles raw parent origins (ps(origin := p)) = Inr ps'"
      by (auto simp: result_bind_Inr)
    from parseProfileOverride_tightens [OF p] assms(2) Cons.prems(2)
    show ?thesis by (intro Cons.IH [OF rest]) simp
  qed
qed simp

lemma resolve_policy_tightens:
  assumes "policy_wf parent" "resolveApprovalLifecyclePolicy config parent = Inr p"
  shows "policy_wf p \<and> policy_strict p parent"
proof -
  from assms(2) obtain raw ps where
    "resolve_profiles raw (profiles parent) APPROVAL_LIFECYCLE_ORIGINS (profiles parent) = Inr ps" "profiles p = ps"
    by (auto simp: resolveApprovalLifecyclePolicy_def Let_def result_bind_Inr)
  with resolve_profiles_tighten [of raw "profiles parent" APPROVAL_LIFECYCLE_ORIGINS "profiles parent" ps] assms(1)
  show ?thesis by (simp add: policy_wf_def policy_strict_def)
qed

lemma tighten_profiles_tighten:
  assumes "tighten_profiles authored candidate origins ps = Inr ps'" "\<forall>origin. profile_wf (authored origin)"
    and "\<forall>origin. profile_wf (ps origin) \<and> at_least_as_strict (ps origin) (authored origin)"
  shows "\<forall>origin. profile_wf (ps' origin) \<and> at_least_as_strict (ps' origin) (authored origin)"
  using assms(1,3)
proof (induction origins arbitrary: ps)
  case (Cons origin origins)
  from Cons.prems(1) obtain p where
    p: "parseProfileOverride origin (profile_value (candidate origin)) (authored origin) = Inr p"
    and rest: "tighten_profiles authored candidate origins (ps(origin := p)) = Inr ps'"
    by (auto simp: result_bind_Inr tightenApprovalLifecycleProfile_def)
  from parseProfileOverride_tightens [OF p] assms(2) Cons.prems(2)
  show ?case by (intro Cons.IH [OF rest]) simp
qed simp

lemma tighten_policy_tightens:
  assumes "policy_wf authored" "tightenApprovalLifecyclePolicy authored candidate = Inr p"
  shows "policy_wf p \<and> policy_strict p authored"
proof -
  from assms(2) obtain ps where
    "tighten_profiles (profiles authored) (profiles candidate) APPROVAL_LIFECYCLE_ORIGINS (profiles authored) = Inr ps"
    "profiles p = ps"
    by (auto simp: tightenApprovalLifecyclePolicy_def result_bind_Inr)
  with tighten_profiles_tighten [of "profiles authored" "profiles candidate" APPROVAL_LIFECYCLE_ORIGINS "profiles authored" ps]
    assms(1)
  show ?thesis by (simp add: policy_wf_def policy_strict_def)
qed

interpretation config_layer: override_layer policy_strict policy_wf resolveApprovalLifecyclePolicy
  by unfold_locales (blast intro: policy_strict_refl policy_strict_trans dest: resolve_policy_tightens)+

interpretation live_layer: override_layer policy_strict policy_wf
  "\<lambda>candidate authored. tightenApprovalLifecyclePolicy authored candidate"
  by unfold_locales (blast intro: policy_strict_refl policy_strict_trans dest: tighten_policy_tightens)+

section \<open>A transition is the meet of two profiles\<close>

lemma stricterValue_le_iff:
  "ranks (stricterValue a c ranks) \<le> n \<longleftrightarrow> ranks a \<le> n \<and> ranks c \<le> (n :: nat)"
  by (auto simp: stricterValue_def)

lemma sla_le_min:
  "sla_le s (case a of (a1, a2, a3) \<Rightarrow> case c of (c1, c2, c3) \<Rightarrow> (min a1 c1, min a2 c2, min a3 c3)) \<longleftrightarrow>
   sla_le s a \<and> sla_le s c"
  by (cases a; cases c) (auto simp: sla_le_def)

lemma stricter_profile_glb:
  "at_least_as_strict r (stricter_profile a c) \<longleftrightarrow> at_least_as_strict r a \<and> at_least_as_strict r c"
  by (auto simp: at_least_as_strict_def stricter_profile_def sla_le_min rank_order stricterValue_le_iff)

lemma stricter_profile_wf:
  assumes "profile_wf a" "profile_wf c"
  shows "profile_wf (stricter_profile a c)"
proof -
  obtain a1 a2 a3 c1 c2 c3 where "slaMs a = (a1, a2, a3)" "slaMs c = (c1, c2, c3)"
    by (metis prod_cases3)
  with assms show ?thesis by (simp add: profile_wf_def stricter_profile_def sla_wf_def min_def)
qed

interpretation transition_layer: override_layer at_least_as_strict "\<lambda>p. True"
  "\<lambda>candidate authored. Inr (transition_profile (applyApprovalLifecycleProfileTransition authored candidate))
     :: unit + ResolvedApprovalLifecycleProfile"
  by unfold_locales
    (auto intro: strict_trans simp: applyApprovalLifecycleProfileTransition_def Let_def
      stricter_profile_glb [THEN iffD1, OF strict_refl])

lemma sla_later_iff: "sla_later s t \<longleftrightarrow> \<not> sla_le s t"
  by (auto simp: sla_later_def sla_le_def split: prod.splits)

lemma sla_changed_iff: "sla_changed s t \<longleftrightarrow> s \<noteq> t"
  by (auto simp: sla_changed_def split: prod.splits)

lemma transitionChanged_iff:
  "transitionChanged (applyApprovalLifecycleProfileTransition a c) \<longleftrightarrow> stricter_profile a c \<noteq> a"
proof -
  have "ttlMs p \<noteq> ttlMs a \<or> slaMs p \<noteq> slaMs a \<or> riskTier p \<noteq> riskTier a \<or>
      timeoutDisposition p \<noteq> timeoutDisposition a \<or> blocking p \<noteq> blocking a \<longleftrightarrow> p \<noteq> a"
    for p :: ResolvedApprovalLifecycleProfile
    by (auto intro: ResolvedApprovalLifecycleProfile.equality)
  then show ?thesis by (simp add: applyApprovalLifecycleProfileTransition_def Let_def sla_changed_iff)
qed

lemma weakeningIgnored_iff:
  "weakeningIgnored (applyApprovalLifecycleProfileTransition a c) \<longleftrightarrow> \<not> at_least_as_strict c a"
  by (auto simp: applyApprovalLifecycleProfileTransition_def Let_def sla_later_iff at_least_as_strict_def
      rank_order not_le)

lemma transition_profile_simp [simp]:
  "transition_profile (applyApprovalLifecycleProfileTransition a c) = stricter_profile a c"
  by (simp add: applyApprovalLifecycleProfileTransition_def Let_def)

section \<open>Tightening a profile\<close>

lemma safe_of_int: "0 < n \<Longrightarrow> n \<le> max_safe_integer \<Longrightarrow> safe_integer (JNum (of_int n)) = Some n"
  by (rule safe_integer_of_int) simp

lemma profile_value_get:
  "js_get (profile_value c) ''ttlMs'' = JNum (of_int (ttlMs c))"
  "js_get (profile_value c) ''slaMs'' = JArr [JNum (of_int (fst (slaMs c))), JNum (of_int (fst (snd (slaMs c)))),
     JNum (of_int (snd (snd (slaMs c))))]"
  "js_get (profile_value c) ''riskTier'' = JStr (risk_name (riskTier c))"
  "js_get (profile_value c) ''timeoutDisposition'' = JStr (timeout_name (timeoutDisposition c))"
  "js_get (profile_value c) ''blocking'' = JStr (blocking_name (blocking c))"
  by (simp_all add: profile_value_def)

lemma find_risk: "find_named risk_name APPROVAL_RISK_TIERS (JStr (risk_name r)) = Some r"
  by (cases r) (simp_all add: find_named_def APPROVAL_RISK_TIERS_def)

lemma find_timeout: "find_named timeout_name APPROVAL_TIMEOUT_DISPOSITIONS (JStr (timeout_name r)) = Some r"
  by (cases r) (simp_all add: find_named_def APPROVAL_TIMEOUT_DISPOSITIONS_def)

lemma find_blocking: "find_named blocking_name APPROVAL_LIFECYCLE_BLOCKING_SCOPES (JStr (blocking_name r)) = Some r"
  by (cases r) (simp_all add: find_named_def APPROVAL_LIFECYCLE_BLOCKING_SCOPES_def)

lemma parse_ranked_Inr:
  "find_named name options (JStr s) = Some x \<Longrightarrow>
   parse_ranked name options rank (JStr s) base e1 e2 = Inr y \<longleftrightarrow> y = x \<and> rank base \<le> rank x"
  by (auto simp: parse_ranked_def)

lemma tighten_profile_Inr:
  assumes "profile_wf c"
  shows "tightenApprovalLifecycleProfile origin a c = Inr p \<longleftrightarrow> p = c \<and> at_least_as_strict c a"
proof -
  obtain x y z where sla: "slaMs c = (x, y, z)" by (rule prod_cases3)
  from assms sla have pos: "0 < x" "x < y" "y < z" "z < ttlMs c" "ttlMs c \<le> max_safe_integer"
    by (auto simp: profile_wf_def sla_wf_def)
  have ttl: "parse_ttl path (profile_value c) n = Inr m \<longleftrightarrow> m = ttlMs c \<and> ttlMs c \<le> n" for path n m
    using pos safe_of_int [of "ttlMs c"]
    by (auto simp: parse_ttl_def profile_value_get requirePositiveInteger_def)
  have entries: "parse_sla_entries path (js_get (profile_value c) ''slaMs'') = Inr (slaMs c)" for path
    using pos safe_of_int [of x] safe_of_int [of y] safe_of_int [of z]
    by (simp add: parse_sla_entries_def profile_value_get requirePositiveInteger_def sla)
  have sla': "parse_sla path (profile_value c) s (ttlMs c) = Inr t \<longleftrightarrow> t = slaMs c \<and> sla_le (slaMs c) s" for path s t
    using entries [of path] pos
    by (auto simp: parse_sla_def profile_value_get result_bind_Inr check_sla_Inr sla)
  have keys: "rejectUnknownKeys (profile_value c) PROFILE_KEYS path = Inr ()" for path
    by (simp add: rejectUnknownKeys_def profile_value_def PROFILE_KEYS_def)
  have obj: "isPlainObject (profile_value c)" by (simp add: isPlainObject_def profile_value_def)
  have eta: "\<lparr>ttlMs = ttlMs c, slaMs = (x, y, z), riskTier = riskTier c,
      timeoutDisposition = timeoutDisposition c, blocking = blocking c\<rparr> = c"
    using sla by (intro ResolvedApprovalLifecycleProfile.equality) simp_all
  show ?thesis
    unfolding tightenApprovalLifecycleProfile_def parseProfileOverride_def Let_def result_bind_Inr
    by (auto simp: keys obj ttl sla' sla eta parse_risk_def parse_timeout_def parse_blocking_def profile_value_get
        parse_ranked_Inr [OF find_risk] parse_ranked_Inr [OF find_timeout] parse_ranked_Inr [OF find_blocking]
        at_least_as_strict_def rank_order)
qed

section \<open>Timeouts\<close>

text \<open>Policies that the program can hold: the default, layered, tightened and moved by transitions.\<close>

inductive held_policy :: "ResolvedApprovalLifecycleConfig \<Rightarrow> bool" where
  default: "held_policy DEFAULT_APPROVAL_LIFECYCLE_POLICY"
| configured: "held_policy p \<Longrightarrow> resolveApprovalLifecyclePolicy config p = Inr q \<Longrightarrow> held_policy q"
| tightened: "held_policy p \<Longrightarrow> tightenApprovalLifecyclePolicy p candidate = Inr q \<Longrightarrow> held_policy q"
| moved: "held_policy p \<Longrightarrow> profile_wf candidate \<Longrightarrow>
    held_policy (p\<lparr>profiles := (profiles p)(origin :=
      transition_profile (applyApprovalLifecycleProfileTransition (profiles p origin) candidate))\<rparr>)"

lemma held_policy_above_default:
  "held_policy p \<Longrightarrow> policy_wf p \<and> policy_strict p DEFAULT_APPROVAL_LIFECYCLE_POLICY"
proof (induction rule: held_policy.induct)
  case default
  show ?case using default_wf policy_strict_refl by blast
next
  case (configured p config q)
  then show ?case using config_layer.tightens config_layer.trans by blast
next
  case (tightened p candidate q)
  then show ?case using live_layer.tightens live_layer.trans by blast
next
  case (moved p candidate origin)
  have "at_least_as_strict (stricter_profile (profiles p origin) candidate) (profiles p origin)"
    using stricter_profile_glb strict_refl by blast
  with moved stricter_profile_wf [of "profiles p origin" candidate] show ?case
    by (auto simp: policy_wf_def policy_strict_def intro: strict_trans)
qed

lemma request_default_outcome:
  "timeout_act (request_default_timeout scope risk action kind)
     = (if risk = Critical \<or> action \<in> {Some LegacyAllow, Some LegacyDeny} then ActDeny else ActPark)"
  "terminalState (request_default_timeout scope risk action kind) = Expired"
  "timeout_alert (request_default_timeout scope risk action kind) \<longleftrightarrow> risk = Critical \<or> action \<noteq> Some LegacyDeny"
  "timeout_blocking (request_default_timeout scope risk action kind) = scope"
  by (simp_all add: request_default_timeout_def timeout_result_def BROKER_PROCEED_WARN_REQUEST_KIND_ALLOWLIST_def)

text \<open>What a timeout does to a request under each disposition, written as a table.\<close>

definition timeout_outcome ::
    "ApprovalTimeoutDisposition \<Rightarrow> ApprovalRiskTier \<Rightarrow> LegacyApprovalAction option \<Rightarrow> timeout_action \<times> timeout_state \<times> bool" where
  "timeout_outcome d risk action = (case d of
       ParkUndecidable \<Rightarrow> (ActPark, Undecidable, True)
     | ParkAlert \<Rightarrow> (ActPark, Expired, True)
     | DenyExpire \<Rightarrow> (ActDeny, Expired, False)
     | RequestDefault \<Rightarrow>
         if risk = Critical \<or> action = Some LegacyAllow then (ActDeny, Expired, True)
         else if action = Some LegacyDeny then (ActDeny, Expired, False)
         else (ActPark, Expired, True))"

lemma resolveApprovalTimeout_above_floor:
  assumes "at_least_as_strict profile (DEFAULT_PROFILES origin)"
  obtains t where "resolveApprovalTimeout origin profile risk action kind = Inr t"
    "(timeout_act t, terminalState t, timeout_alert t) = timeout_outcome (timeoutDisposition profile) risk action"
    "timeout_blocking t = blocking profile"
proof -
  define t where "t = (case timeoutDisposition profile of
          ParkUndecidable \<Rightarrow> timeout_result (blocking profile) ActPark Undecidable True ProfileTimeout
        | ParkAlert \<Rightarrow> timeout_result (blocking profile) ActPark Expired True ProfileTimeout
        | DenyExpire \<Rightarrow> timeout_result (blocking profile) ActDeny Expired False ProfileTimeout
        | RequestDefault \<Rightarrow> request_default_timeout (blocking profile) risk action kind)"
  have "resolveApprovalTimeout origin profile risk action kind = Inr t"
    using assms by (simp add: resolveApprovalTimeout_def t_def at_least_as_strict_def rank_order Let_def)
  moreover have "(timeout_act t, terminalState t, timeout_alert t) = timeout_outcome (timeoutDisposition profile) risk action"
    "timeout_blocking t = blocking profile"
    by (cases "timeoutDisposition profile";
        auto simp: t_def timeout_result_def timeout_outcome_def request_default_outcome)+
  ultimately show ?thesis by (rule that)
qed

section \<open>The properties\<close>

text \<open>
  Overrides only tighten: however many layers of configuration are applied to a well-formed
  parent policy, an accepted result is well formed (SLA stages increase and precede the TTL)
  and no field of any profile is weaker than the parent's.
\<close>

theorem overrides_only_tighten:
  assumes "policy_wf parent" and "apply_layers resolveApprovalLifecyclePolicy configs parent = Inr p"
  shows "policy_wf p \<and> policy_strict p parent"
  using config_layer.layers_tighten [OF assms] .

text \<open>
  C13 Timeouts fail closed. Take any policy the program can hold: the default one, tightened by
  configuration layers and by live transitions. For every origin, risk, request kind and
  default the request asked for, the timeout is resolved (the safety floor never trips), by a
  disposition no weaker than the default of the origin, and it keeps at least its blocking
  scope. The disposition alone decides what happens: \<open>park-undecidable\<close> and \<open>park-alert\<close> park
  the request with an alert, \<open>deny-expire\<close> denies it, and under \<open>request-default\<close> a critical
  request and one that asked to be allowed are denied with an alert, one that asked to be
  denied is denied, and any other is parked. So no timeout proceeds; a critical request is
  denied under the two denying dispositions and parked under the two parking ones.
\<close>

theorem timeouts_fail_closed:
  assumes "held_policy p"
  shows "let d = timeoutDisposition (profiles p origin) in
    \<exists>t. resolveApprovalTimeout origin (profiles p origin) risk action kind = Inr t
    \<and> timeoutDisposition (DEFAULT_PROFILES origin) \<le> d
    \<and> blocking (DEFAULT_PROFILES origin) \<le> timeout_blocking t
    \<and> (timeout_act t, terminalState t, timeout_alert t) = timeout_outcome d risk action
    \<and> timeout_act t \<noteq> ActProceedWarn
    \<and> (risk = Critical \<longrightarrow> timeout_act t = (if d \<in> {RequestDefault, DenyExpire} then ActDeny else ActPark))"
proof -
  define d where "d = timeoutDisposition (profiles p origin)"
  have floor: "at_least_as_strict (profiles p origin) (DEFAULT_PROFILES origin)"
    using held_policy_above_default [OF assms]
    by (simp add: policy_strict_def DEFAULT_APPROVAL_LIFECYCLE_POLICY_def)
  obtain t where t: "resolveApprovalTimeout origin (profiles p origin) risk action kind = Inr t"
    and does: "(timeout_act t, terminalState t, timeout_alert t) = timeout_outcome d risk action"
    and scope: "timeout_blocking t = blocking (profiles p origin)"
    using resolveApprovalTimeout_above_floor [OF floor] unfolding d_def by metis
  have "timeout_act t = fst (timeout_outcome d risk action)" using does by (metis fst_conv)
  then have act: "timeout_act t \<noteq> ActProceedWarn"
      "risk = Critical \<longrightarrow> timeout_act t = (if d \<in> {RequestDefault, DenyExpire} then ActDeny else ActPark)"
    by (cases d; auto simp: timeout_outcome_def)+
  show ?thesis
    unfolding d_def [symmetric] Let_def using t does scope act floor by (auto simp: at_least_as_strict_def d_def)
qed

text \<open>
  A transition is the meet: the profile it yields is the weakest one that is at least as
  strict as both, it reports a change exactly when the profile changes, and an ignored
  weakening exactly when the candidate is weaker somewhere; a candidate that the strict check
  accepts is taken as it is.
\<close>

theorem transition_is_meet:
  "\<forall>r. (at_least_as_strict r (transition_profile (applyApprovalLifecycleProfileTransition a c)) \<longleftrightarrow>
       at_least_as_strict r a \<and> at_least_as_strict r c) \<and>
     (transitionChanged (applyApprovalLifecycleProfileTransition a c) \<longleftrightarrow>
       transition_profile (applyApprovalLifecycleProfileTransition a c) \<noteq> a) \<and>
     (weakeningIgnored (applyApprovalLifecycleProfileTransition a c) \<longleftrightarrow> \<not> at_least_as_strict c a)"
  by (simp add: stricter_profile_glb transitionChanged_iff weakeningIgnored_iff)

text \<open>
  The strict check and the transition agree: the check accepts a well-formed candidate,
  unchanged, exactly when the transition would ignore no weakening, and then the transition
  yields the same profile.
\<close>

theorem tighten_agrees_with_transition:
  assumes "profile_wf c"
  shows "(if weakeningIgnored (applyApprovalLifecycleProfileTransition a c)
     then \<exists>err. tightenApprovalLifecycleProfile origin a c = Inl err
     else tightenApprovalLifecycleProfile origin a c =
       Inr (transition_profile (applyApprovalLifecycleProfileTransition a c)))"
proof (cases "at_least_as_strict c a")
  case True
  have "stricter_profile a c = c"
    by (intro strict_antisym) (use True stricter_profile_glb strict_refl in blast)+
  with True tighten_profile_Inr [OF assms, of origin a c] show ?thesis by (simp add: weakeningIgnored_iff)
next
  case False
  then have "tightenApprovalLifecycleProfile origin a c \<noteq> Inr q" for q
    using tighten_profile_Inr [OF assms, of origin a q] by simp
  then have "\<exists>err. tightenApprovalLifecycleProfile origin a c = Inl err"
    by (cases "tightenApprovalLifecycleProfile origin a c") blast+
  with False show ?thesis by (simp add: weakeningIgnored_iff)
qed

text \<open>
  Expiry respects the ceiling and tightening: a request is expired once its profile's
  TTL has passed since creation, whatever expiry its producer asked for, and a request that is
  expired under a profile is expired under every stricter one.
\<close>

theorem expiry_monotone:
  assumes "resolveEffectiveApprovalExpiry date_parse print createdAt producer q (Some now) = Inr eq"
    and "resolveEffectiveApprovalExpiry date_parse print createdAt producer p (Some now) = Inr ep"
    and "at_least_as_strict p q"
  shows "(expired eq \<longrightarrow> expired ep) \<and>
    (\<forall>t. date_parse createdAt = Some t \<longrightarrow> t + ttlMs p \<le> now \<longrightarrow> expired ep)"
proof (cases producer)
  case None
  with assms show ?thesis
    by (auto simp: resolveEffectiveApprovalExpiry_def producer_ms_def parseUtc_def result_bind_Inr Let_def
        at_least_as_strict_def split: option.splits)
next
  case (Some s)
  with assms show ?thesis
    by (auto simp: resolveEffectiveApprovalExpiry_def producer_ms_def parseUtc_def result_bind_Inr Let_def
        at_least_as_strict_def split: option.splits)
qed

section \<open>Witnesses\<close>

definition sample_override :: js where
  "sample_override = JObj [(''enabled'', JBool True), (''profiles'', JObj [(''broker-native'',
     JObj [(''ttlMs'', JNum 1500000), (''riskTier'', JStr ''elevated'')])])]"

theorem overrides_only_tighten_witness:
  "\<exists>p. apply_layers resolveApprovalLifecyclePolicy [sample_override] DEFAULT_APPROVAL_LIFECYCLE_POLICY = Inr p \<and>
     ttlMs (profiles p BrokerNative) = 1500000 \<and> policy_wf p \<and> policy_strict p DEFAULT_APPROVAL_LIFECYCLE_POLICY"
proof -
  have "(case apply_layers resolveApprovalLifecyclePolicy [sample_override] DEFAULT_APPROVAL_LIFECYCLE_POLICY of
      Inl _ \<Rightarrow> 0 | Inr p \<Rightarrow> ttlMs (profiles p BrokerNative)) = 1500000" by code_simp
  then obtain p where p: "apply_layers resolveApprovalLifecyclePolicy [sample_override] DEFAULT_APPROVAL_LIFECYCLE_POLICY
      = Inr p" "ttlMs (profiles p BrokerNative) = 1500000" by (auto split: sum.splits)
  with overrides_only_tighten [OF default_wf p(1)] show ?thesis by blast
qed

theorem timeouts_fail_closed_witness:
  "(\<exists>t. resolveApprovalTimeout BrokerNative (profiles DEFAULT_APPROVAL_LIFECYCLE_POLICY BrokerNative) Critical
       (Some LegacyAllow) None = Inr t \<and> timeout_act t = ActDeny)
   \<and> (\<exists>t. resolveApprovalTimeout AutonomousTrigger (profiles DEFAULT_APPROVAL_LIFECYCLE_POLICY AutonomousTrigger) Critical
       (Some LegacyAllow) None = Inr t \<and> timeout_act t = ActPark)"
  using timeouts_fail_closed [OF held_policy.default, of BrokerNative Critical "Some LegacyAllow" None]
    timeouts_fail_closed [OF held_policy.default, of AutonomousTrigger Critical "Some LegacyAllow" None]
  by (auto simp: DEFAULT_APPROVAL_LIFECYCLE_POLICY_def Let_def)

theorem tighten_agrees_with_transition_witness:
  "\<exists>err. tightenApprovalLifecycleProfile BrokerNative (DEFAULT_PROFILES BrokerNative) (DEFAULT_PROFILES Confirmation) = Inl err"
proof -
  have wf: "profile_wf (DEFAULT_PROFILES Confirmation)"
    using default_wf
    unfolding policy_wf_def DEFAULT_APPROVAL_LIFECYCLE_POLICY_def ResolvedApprovalLifecycleConfig.select_convs
    by blast
  have "weakeningIgnored (applyApprovalLifecycleProfileTransition (DEFAULT_PROFILES BrokerNative) (DEFAULT_PROFILES Confirmation))"
    by (simp add: weakeningIgnored_iff at_least_as_strict_def)
  with tighten_agrees_with_transition [OF wf, of "DEFAULT_PROFILES BrokerNative" BrokerNative] show ?thesis by simp
qed

theorem expiry_monotone_witness:
  "\<exists>e. resolveEffectiveApprovalExpiry (\<lambda>s. if s = ''t'' then Some 0 else None) (\<lambda>t. ''p'') ''t'' None
     (DEFAULT_PROFILES GatewayPairing) (Some 700000) = Inr e \<and> expired e"
proof -
  obtain e where e: "resolveEffectiveApprovalExpiry (\<lambda>s. if s = ''t'' then Some 0 else None) (\<lambda>t. ''p'') ''t'' None
     (DEFAULT_PROFILES GatewayPairing) (Some 700000) = Inr e"
    by (simp add: resolveEffectiveApprovalExpiry_def parseUtc_def producer_ms_def toISOString_def max_time_value_def)
  with expiry_monotone [OF e e strict_refl] show ?thesis by auto
qed

end
