(* ===== verification/Usage_Event.thy ===== *)
theory Usage_Event
  imports Js_Value
begin

text \<open>
  \<open>src/core/log-event.ts\<close> (the normaliser) and the measuring half of
  \<open>src/core/live-execution-budget.ts\<close>: from a chunk of a provider's stream to one measured
  usage observation. A chunk is a dynamic value; \<open>JSON.parse\<close> is an argument
  (\<open>None\<close> where it throws). Appending to the log file is not modelled.
\<close>

section \<open>Reading dynamic values\<close>

definition asRecord :: "js \<Rightarrow> js option" where
  "asRecord v = (if isPlainObject v then Some v else None)"

definition js_string :: "js \<Rightarrow> string option" where
  "js_string v = (case v of JStr s \<Rightarrow> Some s | _ \<Rightarrow> None)"

definition is_number :: "js \<Rightarrow> bool" where
  "is_number v = (case v of JNum _ \<Rightarrow> True | JInfinity _ \<Rightarrow> True | JNaN \<Rightarrow> True | _ \<Rightarrow> False)"

definition is_array :: "js \<Rightarrow> bool" where
  "is_array v = (case v of JArr _ \<Rightarrow> True | _ \<Rightarrow> False)"

definition array_first :: "js \<Rightarrow> js" where
  "array_first v = (case v of JArr (x # _) \<Rightarrow> x | _ \<Rightarrow> JUndefined)"

definition js_nullish :: "js \<Rightarrow> js \<Rightarrow> js" where
  "js_nullish a b = (if a = JUndefined \<or> a = JNull then b else a)"

definition or_else :: "'a option \<Rightarrow> 'a option \<Rightarrow> 'a option" where
  "or_else a b = (case a of None \<Rightarrow> b | Some _ \<Rightarrow> a)"

section \<open>Log events\<close>

datatype LogEventType = LTurn | LToolUse | LToolResult | LText | LStderr | LUsage | LLifecycle

datatype usage_mode = Incremental | Cumulative

record UsageEventSemantics =
  sem_provider :: string
  sem_providerEventType :: "string option"
  sem_mode :: usage_mode
  terminal :: bool
  sem_identity :: "string option"
  sem_countsAsTurn :: bool
  sem_reportedTurns :: "int option"

record StreamLogEvent =
  log_type :: LogEventType
  content :: js
  usageSemantics :: "UsageEventSemantics option"

definition plain :: "LogEventType \<Rightarrow> js \<Rightarrow> StreamLogEvent" where
  "plain t v = \<lparr>log_type = t, content = v, usageSemantics = None\<rparr>"

section \<open>What a provider declares\<close>

datatype live_usage = LiveIncremental | LiveFinalOnly | LiveNone

definition getProviderCommandSpec_liveUsage :: "string \<Rightarrow> live_usage option" where
  "getProviderCommandSpec_liveUsage provider =
     map_of [(''claude'', LiveIncremental), (''codex'', LiveFinalOnly), (''gemini'', LiveFinalOnly),
             (''cursor'', LiveFinalOnly)] provider"

section \<open>The normaliser\<close>

definition hasUsageShape :: "js \<Rightarrow> bool" where
  "hasUsageShape v \<longleftrightarrow> isPlainObject (js_get v ''usage'') \<or> isPlainObject (js_get v ''usageMetadata'') \<or>
     is_number (js_get v ''prompt_eval_count'') \<or> is_number (js_get v ''eval_count'')"

definition directType :: "string option \<Rightarrow> js \<Rightarrow> StreamLogEvent option" where
  "directType t v =
     (case t of None \<Rightarrow> None
      | Some s \<Rightarrow>
          map_option (\<lambda>ty. plain ty v)
            (map_of [(''tool_use'', LToolUse), (''tool_result'', LToolResult), (''text'', LText),
                     (''stderr'', LStderr), (''usage'', LUsage), (''turn'', LTurn),
                     (''lifecycle'', LLifecycle)] s))"

datatype block_type = BlockToolUse | BlockToolResult | BlockText

fun dominant_loop :: "js list \<Rightarrow> bool \<Rightarrow> bool \<Rightarrow> block_type option" where
  "dominant_loop [] hasToolResult hasText =
     (if hasToolResult then Some BlockToolResult else if hasText then Some BlockText else None)"
| "dominant_loop (block # blocks) hasToolResult hasText =
     (if \<not> isPlainObject block then dominant_loop blocks hasToolResult hasText
      else if js_get block ''type'' = JStr ''tool_use'' then Some BlockToolUse
      else dominant_loop blocks (hasToolResult \<or> js_get block ''type'' = JStr ''tool_result'')
             (hasText \<or> js_get block ''type'' = JStr ''text''))"

definition dominantBlockType :: "js \<Rightarrow> block_type option" where
  "dominantBlockType v = (case v of JArr blocks \<Rightarrow> dominant_loop blocks False False | _ \<Rightarrow> None)"

definition normalizeClaude :: "js \<Rightarrow> StreamLogEvent option" where
  "normalizeClaude v =
     (let t = js_string (js_get v ''type'') in
      if t = Some ''system'' then Some (plain LLifecycle v)
      else if t = Some ''result'' then Some (plain LUsage v)
      else if (t = Some ''assistant'' \<or> t = Some ''user'') \<and> isPlainObject (js_get v ''message'') then
        (case dominantBlockType (js_get (js_get v ''message'') ''content'') of
           Some BlockToolUse \<Rightarrow> Some (plain LToolUse v)
         | Some BlockToolResult \<Rightarrow> Some (plain LToolResult v)
         | _ \<Rightarrow> Some (plain LText v))
      else if t = Some ''message_start'' then Some (plain LTurn v)
      else if t = Some ''message_delta'' \<or> t = Some ''message_stop'' then
        Some (plain (if hasUsageShape v then LUsage else LLifecycle) v)
      else if t = Some ''content_block_start'' then
        (let cbType = (if isPlainObject (js_get v ''content_block'')
                       then js_get (js_get v ''content_block'') ''type'' else JUndefined) in
         if cbType = JStr ''tool_use'' then Some (plain LToolUse v)
         else if cbType = JStr ''tool_result'' then Some (plain LToolResult v)
         else Some (plain LText v))
      else if t = Some ''content_block_delta'' then Some (plain LText v)
      else if t = Some ''content_block_stop'' \<or> t = Some ''ping'' then Some (plain LLifecycle v)
      else or_else (directType t v) (if hasUsageShape v then Some (plain LUsage v) else None))"

definition normalizeOllama :: "js \<Rightarrow> StreamLogEvent option" where
  "normalizeOllama v =
     (if js_get v ''done'' = JBool True \<and>
         (is_number (js_get v ''eval_count'') \<or> is_number (js_get v ''prompt_eval_count''))
      then Some (plain LUsage v)
      else if js_string (js_get v ''response'') \<noteq> None then Some (plain LText v)
      else if isPlainObject (js_get v ''message'') \<and>
              js_string (js_get (js_get v ''message'') ''content'') \<noteq> None
      then Some (plain LText v)
      else if js_get v ''done'' = JBool True then Some (plain LLifecycle v)
      else None)"

definition usage_or_text :: "js \<Rightarrow> StreamLogEvent" where
  "usage_or_text v = plain (if hasUsageShape v then LUsage else LText) v"

definition normalize_choices :: "js \<Rightarrow> StreamLogEvent" where
  "normalize_choices v =
     (let choice = array_first (js_get v ''choices'');
          delta = js_nullish (js_get choice ''delta'') (js_get choice ''message'') in
      if isPlainObject choice \<and> isPlainObject delta \<and> is_array (js_get delta ''tool_calls'')
      then plain LToolUse v
      else if isPlainObject choice \<and> isPlainObject delta \<and> js_string (js_get delta ''content'') \<noteq> None
      then plain LText v
      else usage_or_text v)"

definition normalizeGeneric :: "js \<Rightarrow> StreamLogEvent option" where
  "normalizeGeneric v =
     (let t = js_string (js_get v ''type'') in
      case directType t v of
        Some e \<Rightarrow> Some e
      | None \<Rightarrow>
          if map_option js_lower (js_string (js_get v ''stream'')) = Some ''stderr'' then Some (plain LStderr v)
          else if is_array (js_get v ''choices'') then Some (normalize_choices v)
          else if is_array (js_get v ''candidates'') then Some (usage_or_text v)
          else if js_string (js_get v ''response'') \<noteq> None then Some (usage_or_text v)
          else if isPlainObject (js_get v ''message'') \<and>
                  js_string (js_get (js_get v ''message'') ''content'') \<noteq> None
          then Some (plain LText v)
          else if hasUsageShape v then Some (plain LUsage v)
          else None)"

definition readNonNegativeInteger :: "js \<Rightarrow> int option" where
  "readNonNegativeInteger v =
     (case v of JNum q \<Rightarrow> if 0 \<le> q \<and> of_int \<lfloor>q\<rfloor> = q then Some \<lfloor>q\<rfloor> else None | _ \<Rightarrow> None)"

definition first_identity :: "js list \<Rightarrow> string option" where
  "first_identity vs =
     (case find (\<lambda>v. case js_string v of None \<Rightarrow> False | Some s \<Rightarrow> s \<noteq> []) vs of
        None \<Rightarrow> None | Some v \<Rightarrow> js_string v)"

definition deriveUsageEventSemantics :: "js \<Rightarrow> string \<Rightarrow> UsageEventSemantics" where
  "deriveUsageEventSemantics v provider =
     (let trimmed = js_lower (js_trim provider);
          normalizedProvider = (if trimmed = [] then ''unknown'' else trimmed);
          rawType = or_else (js_string (js_get v ''providerEventType''))
            (or_else (js_string (js_get v ''codexEventType'')) (js_string (js_get v ''type'')));
          declared = getProviderCommandSpec_liveUsage normalizedProvider;
          isTerminal = (rawType = Some ''result'' \<or> rawType = Some ''turn.completed'' \<or>
            rawType = Some ''response.completed'' \<or> js_get v ''done'' = JBool True \<or>
            declared = Some LiveFinalOnly) in
      \<lparr>sem_provider = normalizedProvider,
       sem_providerEventType = (if rawType = Some [] then None else rawType),
       sem_mode = (if isTerminal then Cumulative else Incremental),
       terminal = isTerminal,
       sem_identity = first_identity
         ([js_get v ''request_id'', js_get v ''requestId'', js_get v ''turn_id'', js_get v ''turnId'',
           js_get v ''id'', js_get v ''uuid''] @
          (if isTerminal then [js_get v ''session_id'', js_get v ''created_at''] else [])),
       sem_countsAsTurn = (rawType = Some ''turn.completed'' \<or> declared = Some LiveFinalOnly \<and> isTerminal),
       sem_reportedTurns = readNonNegativeInteger (js_get v ''num_turns'')\<rparr>)"

definition normalize_object :: "js \<Rightarrow> string \<Rightarrow> StreamLogEvent" where
  "normalize_object v provider =
     (let p = js_lower provider;
          detected = (if js_includes p ''claude'' \<or> js_includes p ''anthropic'' then normalizeClaude v
                      else if js_includes p ''ollama'' then normalizeOllama v else None);
          normalized = (case or_else detected (normalizeGeneric v) of None \<Rightarrow> plain LText v | Some e \<Rightarrow> e) in
      if log_type normalized = LUsage
      then normalized\<lparr>usageSemantics := Some (deriveUsageEventSemantics v provider)\<rparr>
      else normalized)"

definition starts_json :: "string \<Rightarrow> bool" where
  "starts_json s = (case s of [] \<Rightarrow> False | c # _ \<Rightarrow> c = CHR ''{'' \<or> c = CHR ''['')"

definition parsed_chunk :: "(string \<Rightarrow> js option) \<Rightarrow> js \<Rightarrow> js option" where
  "parsed_chunk json_parse raw =
     (case raw of
        JStr s \<Rightarrow> if starts_json (js_trim s) then json_parse (js_trim s) else None
      | _ \<Rightarrow> Some raw)"

definition normalizeStreamEvent :: "(string \<Rightarrow> js option) \<Rightarrow> js \<Rightarrow> string \<Rightarrow> StreamLogEvent" where
  "normalizeStreamEvent json_parse raw provider =
     (case parsed_chunk json_parse raw of
        None \<Rightarrow> plain LText raw
      | Some v \<Rightarrow> if isPlainObject v then normalize_object v provider else plain LText raw)"

section \<open>Measured usage\<close>

record UsageCounts =
  inputTokens :: int
  outputTokens :: int
  cacheReadTokens :: int
  cacheCreationTokens :: int

record LiveUsageObservation =
  dedupeKey :: string
  obs_mode :: usage_mode
  obs_counts :: UsageCounts
  contextTokens :: int
  countsAsTurn :: bool
  reportedTurns :: "int option"

definition js_count :: "js \<Rightarrow> int" where
  "js_count v = (case v of JNum q \<Rightarrow> if 0 \<le> q then \<lfloor>q\<rfloor> else 0 | _ \<Rightarrow> 0)"

fun firstCount :: "js \<Rightarrow> string list \<Rightarrow> int" where
  "firstCount r [] = 0"
| "firstCount r (key # keys) = (if js_get r key \<noteq> JUndefined then js_count (js_get r key) else firstCount r keys)"

definition usageCounts :: "js \<Rightarrow> UsageCounts" where
  "usageCounts usage =
     (let rawInput = firstCount usage [''input_tokens'', ''inputTokens'', ''prompt_tokens'', ''promptTokenCount'', ''prompt_eval_count''];
          outputs = firstCount usage [''output_tokens'', ''outputTokens'', ''completion_tokens'', ''candidatesTokenCount'', ''eval_count''];
          reads = firstCount usage [''cache_read_input_tokens'', ''cacheReadTokens'', ''cache_read_tokens'', ''cached_input_tokens'', ''cachedContentTokenCount''];
          creations = firstCount usage [''cache_creation_input_tokens'', ''cacheCreationTokens'', ''cache_write_tokens''];
          direct = firstCount usage [''cached_input_tokens'', ''cachedContentTokenCount''];
          inclusive = (if direct \<noteq> 0 then direct
                       else js_count (js_get (js_get usage ''prompt_tokens_details'') ''cached_tokens'')) in
      \<lparr>inputTokens = (if inclusive > 0 then max (rawInput - inclusive) 0 else rawInput),
       outputTokens = outputs, cacheReadTokens = reads, cacheCreationTokens = creations\<rparr>)"

definition hasCounts :: "UsageCounts \<Rightarrow> bool" where
  "hasCounts c \<longleftrightarrow> inputTokens c > 0 \<or> outputTokens c > 0 \<or> cacheReadTokens c > 0 \<or> cacheCreationTokens c > 0"

definition observationKey :: "js \<Rightarrow> js option \<Rightarrow> string option" where
  "observationKey r message =
     first_identity [(case message of None \<Rightarrow> JUndefined | Some msg \<Rightarrow> js_get msg ''id''),
       js_get r ''request_id'', js_get r ''requestId'', js_get r ''turn_id'', js_get r ''turnId'',
       js_get r ''id'', js_get r ''uuid'']"

text \<open>A host-written log event is unwrapped only when it carries the host's stamps.\<close>

definition unwrap_host_event :: "js \<Rightarrow> js" where
  "unwrap_host_event r =
     (if js_string (js_get r ''ts'') \<noteq> None \<and>
         (case js_get r ''seq'' of JNum q \<Rightarrow> of_int \<lfloor>q\<rfloor> = q \<and> 0 < q | _ \<Rightarrow> False) \<and>
         isPlainObject (js_get r ''content'')
      then js_get r ''content'' else r)"

definition usage_of :: "js \<Rightarrow> js option \<Rightarrow> js option" where
  "usage_of r message =
     or_else (case message of None \<Rightarrow> None | Some msg \<Rightarrow> asRecord (js_get msg ''usage''))
       (or_else (or_else (asRecord (js_get r ''usage'')) (asRecord (js_get r ''usageMetadata'')))
         (if js_get r ''input_tokens'' \<noteq> JUndefined \<or> js_get r ''prompt_eval_count'' \<noteq> JUndefined \<or>
             js_get r ''output_tokens'' \<noteq> JUndefined
          then Some r else None))"

definition provider_event_type :: "UsageEventSemantics option \<Rightarrow> js \<Rightarrow> string \<Rightarrow> string" where
  "provider_event_type sem r rootType =
     (case or_else (Option.bind sem sem_providerEventType)
             (or_else (js_string (js_get r ''providerEventType'')) (js_string (js_get r ''codexEventType''))) of
        None \<Rightarrow> rootType | Some t \<Rightarrow> t)"

definition counter_key :: "UsageEventSemantics option \<Rightarrow> string \<Rightarrow> UsageCounts \<Rightarrow> string" where
  "counter_key sem eventType c =
     js_join '':'' [(case sem of None \<Rightarrow> ''provider'' | Some s \<Rightarrow> sem_provider s), eventType,
       show_int (inputTokens c), show_int (outputTokens c), show_int (cacheReadTokens c),
       show_int (cacheCreationTokens c)]"

definition is_cumulative :: "UsageEventSemantics option \<Rightarrow> string \<Rightarrow> string \<Rightarrow> bool" where
  "is_cumulative sem rootType eventType \<longleftrightarrow>
     map_option sem_mode sem = Some Cumulative \<or> rootType = ''result'' \<or>
     eventType = ''turn.completed'' \<or> eventType = ''response.completed''"

definition terminal_counter_key :: "UsageEventSemantics option \<Rightarrow> string \<Rightarrow> UsageCounts \<Rightarrow> string option" where
  "terminal_counter_key sem eventType counts =
     (if map_option terminal sem = Some True \<or> eventType = ''turn.completed''
      then Some (counter_key sem eventType counts) else None)"

definition reported_turns :: "UsageEventSemantics option \<Rightarrow> js \<Rightarrow> bool \<Rightarrow> int option" where
  "reported_turns sem r cumulative =
     or_else (Option.bind sem sem_reportedTurns)
       (if cumulative \<and> js_count (js_get r ''num_turns'') > 0 then Some (js_count (js_get r ''num_turns'')) else None)"

definition counts_as_turn :: "UsageEventSemantics option \<Rightarrow> string \<Rightarrow> string \<Rightarrow> bool \<Rightarrow> bool \<Rightarrow> bool" where
  "counts_as_turn sem rootType eventType hasMessage cumulative \<longleftrightarrow>
     rootType = ''assistant'' \<and> hasMessage \<or> \<not> cumulative \<or>
     map_option sem_countsAsTurn sem = Some True \<or> eventType = ''turn.completed''"

definition make_observation ::
    "UsageEventSemantics option \<Rightarrow> js \<Rightarrow> js option \<Rightarrow> UsageCounts \<Rightarrow> LiveUsageObservation option" where
  "make_observation sem r message counts =
     (let rootType = (case js_string (js_get r ''type'') of None \<Rightarrow> [] | Some s \<Rightarrow> s);
          eventType = provider_event_type sem r rootType;
          cumulative = is_cumulative sem rootType eventType;
          key = or_else (observationKey r message) (or_else (Option.bind sem sem_identity)
            (or_else (if cumulative then js_string (js_get r ''session_id'') else None)
              (terminal_counter_key sem eventType counts)))
      in if key = None \<or> key = Some [] then None
         else Some
           \<lparr>dedupeKey = (if cumulative then ''snapshot'' else ''call'') @ '':'' @ the key,
            obs_mode = (if cumulative then Cumulative else Incremental),
            obs_counts = counts,
            contextTokens = inputTokens counts + cacheReadTokens counts + cacheCreationTokens counts,
            countsAsTurn = counts_as_turn sem rootType eventType (message \<noteq> None) cumulative,
            reportedTurns = reported_turns sem r cumulative\<rparr>)"

definition extractLiveUsageObservation :: "StreamLogEvent \<Rightarrow> LiveUsageObservation option" where
  "extractLiveUsageObservation event =
     Option.bind (asRecord (content event)) (\<lambda>outer.
       let r = unwrap_host_event outer; message = asRecord (js_get r ''message'') in
       Option.bind (usage_of r message) (\<lambda>usage.
         if hasCounts (usageCounts usage)
         then make_observation (usageSemantics event) r message (usageCounts usage) else None))"

section \<open>Laws\<close>

lemma js_count_nonneg [simp]: "0 \<le> js_count v"
  by (auto simp: js_count_def split: js.split)

lemma firstCount_nonneg [simp]: "0 \<le> firstCount r keys"
  by (induction keys) auto

definition counts_nonneg :: "UsageCounts \<Rightarrow> bool" where
  "counts_nonneg c \<longleftrightarrow> 0 \<le> inputTokens c \<and> 0 \<le> outputTokens c \<and> 0 \<le> cacheReadTokens c \<and> 0 \<le> cacheCreationTokens c"

lemma usageCounts_nonneg: "counts_nonneg (usageCounts usage)"
  by (simp add: usageCounts_def counts_nonneg_def Let_def del: firstCount.simps)

lemma if_None_Some: "(if P then None else Some x) = Some y \<Longrightarrow> x = y"
  by (cases P) simp_all

lemma if_mode_Incremental: "(if c then Cumulative else Incremental) = Incremental \<Longrightarrow> \<not> c"
  by (cases c) simp_all

lemma incremental_counts_as_turn:
  "(if c then Cumulative else Incremental) = Incremental \<Longrightarrow> counts_as_turn sem a b m c"
  unfolding counts_as_turn_def using if_mode_Incremental by blast

lemma make_observation_Some:
  assumes "make_observation sem r message counts = Some obs"
  shows "obs_counts obs = counts"
    and "contextTokens obs = inputTokens counts + cacheReadTokens counts + cacheCreationTokens counts"
    and "obs_mode obs = Incremental \<Longrightarrow> countsAsTurn obs"
proof -
  note eq = if_None_Some [OF assms [unfolded make_observation_def Let_def], symmetric]
  show "obs_counts obs = counts" unfolding eq by (rule LiveUsageObservation.select_convs)
  show "contextTokens obs = inputTokens counts + cacheReadTokens counts + cacheCreationTokens counts"
    unfolding eq by (rule LiveUsageObservation.select_convs)
  show "countsAsTurn obs" if "obs_mode obs = Incremental"
    using that unfolding eq LiveUsageObservation.select_convs by (rule incremental_counts_as_turn)
qed

lemma extract_Some:
  assumes "extractLiveUsageObservation event = Some obs"
  obtains sem r message usage where "make_observation sem r message (usageCounts usage) = Some obs"
    "hasCounts (usageCounts usage)"
proof -
  from assms obtain r message usage where
    "(if hasCounts (usageCounts usage) then make_observation (usageSemantics event) r message (usageCounts usage) else None)
      = Some obs"
    unfolding extractLiveUsageObservation_def Let_def bind_eq_Some_conv by blast
  then show ?thesis by (cases "hasCounts (usageCounts usage)") (simp_all add: that)
qed

lemma observation_nonneg:
  assumes "extractLiveUsageObservation event = Some obs"
  shows "counts_nonneg (obs_counts obs)" and "0 \<le> contextTokens obs"
proof -
  from assms obtain sem r message usage where u: "make_observation sem r message (usageCounts usage) = Some obs"
    by (rule extract_Some)
  show "counts_nonneg (obs_counts obs)" using make_observation_Some(1) [OF u] usageCounts_nonneg by simp
  show "0 \<le> contextTokens obs"
    using make_observation_Some(2) [OF u] usageCounts_nonneg [of usage] by (simp add: counts_nonneg_def)
qed

end
