(* ===== verification/Budget_Policy.thy ===== *)
theory Budget_Policy
  imports Usage_Event Js_Number
begin

text \<open>
  \<open>src/core/execution-budget-policy.ts\<close>: checking the owner's budget policy and resolving the
  budget of one execution from it. The policy and the requested budget are dynamic values, as
  they are read from configuration. SHA-256 and the JSON text of a leaf value are arguments.
\<close>

section \<open>Budgets\<close>

datatype BudgetField =
    MaxUsd | MaxTokens | MaxTurns | MaxInputTokens | MaxOutputTokens | MaxCacheReadTokens
  | MaxCacheCreationTokens | MaxContextTokens

text \<open>A budget has an optional ceiling for each field.\<close>

type_synonym ExecutionBudget = "BudgetField \<Rightarrow> rat option"

definition BUDGET_FIELDS :: "BudgetField list" where
  "BUDGET_FIELDS = [MaxUsd, MaxTokens, MaxTurns, MaxInputTokens, MaxOutputTokens, MaxCacheReadTokens,
     MaxCacheCreationTokens, MaxContextTokens]"

primrec field_name :: "BudgetField \<Rightarrow> string" where
  "field_name MaxUsd = ''maxUsd''"
| "field_name MaxTokens = ''maxTokens''"
| "field_name MaxTurns = ''maxTurns''"
| "field_name MaxInputTokens = ''maxInputTokens''"
| "field_name MaxOutputTokens = ''maxOutputTokens''"
| "field_name MaxCacheReadTokens = ''maxCacheReadTokens''"
| "field_name MaxCacheCreationTokens = ''maxCacheCreationTokens''"
| "field_name MaxContextTokens = ''maxContextTokens''"

datatype ExecutionBudgetRole = Brain | Worker | Auditor

definition ROLES :: "ExecutionBudgetRole list" where
  "ROLES = [Brain, Worker, Auditor]"

primrec role_name :: "ExecutionBudgetRole \<Rightarrow> string" where
  "role_name Brain = ''brain''" | "role_name Worker = ''worker''" | "role_name Auditor = ''auditor''"

definition BACKENDS :: "string list" where
  "BACKENDS = [''docker'', ''subprocess'', ''tmux'']"

definition TASK_KINDS :: "string list" where
  "TASK_KINDS = [''code-development'', ''test'', ''documentation'', ''audit'', ''security'', ''refactor'',
     ''devops'', ''config'', ''design'', ''data'', ''generic'']"

text \<open>An error is a message, or names the offending entry of a list between two pieces of text.\<close>

datatype budget_policy_error = BudgetPolicyInvalid string | InvalidListEntry string js string

type_synonym 'a budget_result = "budget_policy_error + 'a"

fun run_checks :: "('e + unit) list \<Rightarrow> 'e + unit" where
  "run_checks [] = Inr ()"
| "run_checks (c # cs) = result_bind c (\<lambda>_. run_checks cs)"

definition require :: "bool \<Rightarrow> string \<Rightarrow> unit budget_result" where
  "require ok message = check ok (BudgetPolicyInvalid message)"

definition quote_char :: char where "quote_char = CHR 0x27"

definition assertKnownKeys :: "js \<Rightarrow> string list \<Rightarrow> string \<Rightarrow> unit budget_result" where
  "assertKnownKeys value allowed path =
     (case find (\<lambda>key. key \<notin> set allowed) (js_keys value) of
        None \<Rightarrow> Inr ()
      | Some key \<Rightarrow> Inl (BudgetPolicyInvalid
          (''Unknown field '' @ [quote_char] @ path @ ''.'' @ key @ [quote_char])))"

definition nonneg_number :: "js \<Rightarrow> bool" where
  "nonneg_number v = (case v of JNum q \<Rightarrow> 0 \<le> q | _ \<Rightarrow> False)"

definition assertBudget :: "js \<Rightarrow> string \<Rightarrow> unit budget_result" where
  "assertBudget value path =
     (case value of
        JObj es \<Rightarrow> run_checks
          ([assertKnownKeys value (map field_name BUDGET_FIELDS) path,
            require (es \<noteq> []) (path @ '' must contain at least one explicit ceiling'')] @
           map (\<lambda>(field, ceiling). require (nonneg_number ceiling)
                 (path @ ''.'' @ field @ '' must be a non-negative finite number'')) es)
      | _ \<Rightarrow> Inl (BudgetPolicyInvalid (path @ '' must be an object'')))"

definition read_budget :: "js \<Rightarrow> ExecutionBudget" where
  "read_budget v = (\<lambda>field. case js_get v (field_name field) of JNum q \<Rightarrow> Some q | _ \<Rightarrow> None)"

section \<open>Landing\<close>

record ExecutionLandingPolicyConfig =
  reserve_ratio :: rat
  attended_allow_hard_stop :: bool

record ExecutionLandingTurnAllocation =
  workTurns :: int
  reservedTurns :: int

definition proper_fraction :: "js \<Rightarrow> bool" where
  "proper_fraction v = (case v of JNum q \<Rightarrow> 0 < q \<and> q < 1 | _ \<Rightarrow> False)"

definition assertExecutionLandingPolicyConfig :: "js \<Rightarrow> string \<Rightarrow> unit budget_result" where
  "assertExecutionLandingPolicyConfig value path = run_checks
     [require (isPlainObject value) (path @ '' must be an object''),
      assertKnownKeys value [''reserve_ratio'', ''attended_unsupported''] path,
      require (proper_fraction (js_get value ''reserve_ratio''))
        (path @ ''.reserve_ratio must be a finite number greater than 0 and less than 1''),
      require (js_get value ''attended_unsupported'' \<in> {JUndefined, JStr ''hold'', JStr ''allow-hard-stop''})
        (path @ ''.attended_unsupported must be '' @ [quote_char] @ ''hold'' @ [quote_char] @ '' or '' @
         [quote_char] @ ''allow-hard-stop'' @ [quote_char])]"

definition deriveExecutionLandingTurnAllocation :: "rat \<Rightarrow> rat \<Rightarrow> ExecutionLandingTurnAllocation budget_result" where
  "deriveExecutionLandingTurnAllocation maxTurns reserveRatio =
     result_bind (require (of_int \<lfloor>maxTurns\<rfloor> = maxTurns \<and> 0 \<le> maxTurns) ''maxTurns must be a non-negative integer'') (\<lambda>_.
     result_bind (assertExecutionLandingPolicyConfig (JObj [(''reserve_ratio'', JNum reserveRatio)])
       ''execution_budget.landing'') (\<lambda>_.
       let reserved = \<lceil>fl_mult maxTurns reserveRatio\<rceil> in
       Inr \<lparr>workTurns = max 0 (\<lfloor>maxTurns\<rfloor> - reserved), reservedTurns = reserved\<rparr>))"

definition cloneLandingPolicy :: "js \<Rightarrow> ExecutionLandingPolicyConfig" where
  "cloneLandingPolicy value =
     \<lparr>reserve_ratio = (case js_get value ''reserve_ratio'' of JNum q \<Rightarrow> q | _ \<Rightarrow> 0),
      attended_allow_hard_stop = (js_get value ''attended_unsupported'' = JStr ''allow-hard-stop'')\<rparr>"

section \<open>Final-only usage\<close>

fun check_entries :: "(string \<Rightarrow> bool) \<Rightarrow> string \<Rightarrow> string \<Rightarrow> js list \<Rightarrow> string list \<Rightarrow> unit budget_result" where
  "check_entries ok what place [] seen = Inr ()"
| "check_entries ok what place (v # vs) seen =
     (case js_string v of
        None \<Rightarrow> Inl (InvalidListEntry (''Invalid '' @ what) v place)
      | Some s \<Rightarrow>
          if \<not> ok s then Inl (InvalidListEntry (''Invalid '' @ what) v place)
          else if s \<in> set seen then Inl (InvalidListEntry (''Duplicate '' @ what) v place)
          else check_entries ok what place vs (js_add s seen))"

definition is_role :: "string \<Rightarrow> bool" where
  "is_role s \<longleftrightarrow> s \<in> set (map role_name ROLES)"

definition positive_integer :: "js \<Rightarrow> bool" where
  "positive_integer v = (case v of JNum q \<Rightarrow> of_int \<lfloor>q\<rfloor> = q \<and> 0 < q | _ \<Rightarrow> False)"

definition positive_safe_integer :: "js \<Rightarrow> bool" where
  "positive_safe_integer v = (case safe_integer v of None \<Rightarrow> False | Some n \<Rightarrow> 0 < n)"

definition assertFinalOnlyUsagePolicyConfig :: "js \<Rightarrow> string \<Rightarrow> unit budget_result" where
  "assertFinalOnlyUsagePolicyConfig value path = run_checks
     ([require (isPlainObject value) (path @ '' must be an object''),
       assertKnownKeys value [''action'', ''roles'', ''max_wall_clock_seconds''] path,
       require (js_get value ''action'' = JStr ''hold'' \<or> js_get value ''action'' = JStr ''allow-wall-clock-containment'')
         (path @ ''.action must be '' @ [quote_char] @ ''hold'' @ [quote_char] @ '' or '' @ [quote_char] @
          ''allow-wall-clock-containment'' @ [quote_char])] @
      (if js_get value ''action'' = JStr ''hold'' then
         [require (js_get value ''roles'' = JUndefined \<and> js_get value ''max_wall_clock_seconds'' = JUndefined)
            (path @ ''.roles and '' @ path @ ''.max_wall_clock_seconds are not allowed when action is hold'')]
       else
         [(case js_get value ''roles'' of
             JArr (v # vs) \<Rightarrow> check_entries is_role ''role'' ('' in '' @ path @ ''.roles'') (v # vs) []
           | _ \<Rightarrow> Inl (BudgetPolicyInvalid (path @ ''.roles must be a non-empty array for allow-wall-clock-containment''))),
          require (positive_integer (js_get value ''max_wall_clock_seconds''))
            (path @ ''.max_wall_clock_seconds must be a positive integer for allow-wall-clock-containment'')]))"

section \<open>Purpose profiles\<close>

definition require_safe :: "js \<Rightarrow> string \<Rightarrow> string \<Rightarrow> unit budget_result" where
  "require_safe value path field =
     require (positive_safe_integer (js_get value field)) (path @ ''.'' @ field @ '' must be a positive safe integer'')"

definition assertXverifyAdjudicationPurposeProfile :: "js \<Rightarrow> unit budget_result" where
  "assertXverifyAdjudicationPurposeProfile value =
     (let path = ''execution_budget.purposes.xverify-adjudication'';
          fields = [''maxTokens'', ''maxWallClockSeconds'', ''maxVerificationsPerSprint''] in
      run_checks ([require (isPlainObject value) (path @ '' must be an object''),
        assertKnownKeys value fields path] @ map (require_safe value path) fields))"

definition number_of :: "js \<Rightarrow> rat" where
  "number_of v = (case v of JNum q \<Rightarrow> q | _ \<Rightarrow> 0)"

definition assertReachabilityProbePurposeProfile :: "js \<Rightarrow> unit budget_result" where
  "assertReachabilityProbePurposeProfile value =
     (let path = ''execution_budget.purposes.reachability-probe'';
          fields = [''maxInputTokens'', ''maxOutputTokens'', ''maxTokens'', ''timeoutMs''] in
      run_checks ([require (isPlainObject value) (path @ '' must be an object''),
        assertKnownKeys value (fields @ [''maxUsd'']) path] @ map (require_safe value path) fields @
       [require (\<not> number_of (js_get value ''maxTokens'') <
            number_of (js_get value ''maxInputTokens'') + number_of (js_get value ''maxOutputTokens''))
          (path @ ''.maxTokens must cover input plus output ceilings''),
        require (js_get value ''maxUsd'' = JUndefined \<or> nonneg_number (js_get value ''maxUsd'') \<and>
            number_of (js_get value ''maxUsd'') > 0)
          (path @ ''.maxUsd must be a positive finite number when provided'')]))"

section \<open>The whole policy\<close>

definition check_role :: "js \<Rightarrow> ExecutionBudgetRole \<Rightarrow> unit budget_result" where
  "check_role roles role =
     (let rawRole = js_get roles (role_name role);
          rolePath = ''execution_budget.roles.'' @ role_name role;
          kinds = js_get rawRole ''by_task_kind'' in
      if rawRole = JUndefined then Inr ()
      else run_checks
        ([require (isPlainObject rawRole) (rolePath @ '' must be an object''),
          assertKnownKeys rawRole [''default'', ''by_task_kind''] rolePath,
          require (js_get rawRole ''default'' \<noteq> JUndefined \<or> kinds \<noteq> JUndefined)
            (rolePath @ '' must define default or by_task_kind''),
          (if js_get rawRole ''default'' = JUndefined then Inr ()
           else assertBudget (js_get rawRole ''default'') (rolePath @ ''.default''))] @
         (if kinds = JUndefined then []
          else [require (isPlainObject kinds) (rolePath @ ''.by_task_kind must be an object''),
                assertKnownKeys kinds TASK_KINDS (rolePath @ ''.by_task_kind''),
                require (js_keys kinds \<noteq> []) (rolePath @ ''.by_task_kind must not be empty'')] @
               (case kinds of
                  JObj es \<Rightarrow> map (\<lambda>(kind, budget). assertBudget budget (rolePath @ ''.by_task_kind.'' @ kind)) es
                | _ \<Rightarrow> []))))"

definition check_purposes :: "js \<Rightarrow> unit budget_result" where
  "check_purposes purposes =
     (if purposes = JUndefined then Inr ()
      else run_checks
        [require (isPlainObject purposes) ''execution_budget.purposes must be an object'',
         assertKnownKeys purposes [''reachability-probe'', ''xverify-adjudication''] ''execution_budget.purposes'',
         (if js_get purposes ''reachability-probe'' = JUndefined then Inr ()
          else assertReachabilityProbePurposeProfile (js_get purposes ''reachability-probe'')),
         (if js_get purposes ''xverify-adjudication'' = JUndefined then Inr ()
          else assertXverifyAdjudicationPurposeProfile (js_get purposes ''xverify-adjudication''))])"

definition check_unmetered :: "js \<Rightarrow> unit budget_result" where
  "check_unmetered unmetered =
     (let path = ''execution_budget.unmetered_backend'';
          action = js_get unmetered ''action''; backends = js_get unmetered ''ordered_backends'' in
      if unmetered = JUndefined then Inr ()
      else run_checks
        ([require (isPlainObject unmetered) (path @ '' must be an object''),
          assertKnownKeys unmetered [''action'', ''ordered_backends''] path,
          require (action = JStr ''hold'' \<or> action = JStr ''reroute-or-hold'')
            (path @ ''.action must be '' @ [quote_char] @ ''hold'' @ [quote_char] @ '' or '' @ [quote_char] @
             ''reroute-or-hold'' @ [quote_char])] @
         (if backends = JUndefined then []
          else [require (is_array backends) (path @ ''.ordered_backends must be an array''),
                (case backends of
                   JArr vs \<Rightarrow> check_entries (\<lambda>s. s \<in> set BACKENDS) ''backend'' ('' in '' @ path @ ''.ordered_backends'') vs []
                 | _ \<Rightarrow> Inr ()),
                require (\<not> (action = JStr ''reroute-or-hold'' \<and> backends = JArr []))
                  (path @ ''.ordered_backends must not be empty for reroute-or-hold'')]) @
         [require (\<not> (action = JStr ''reroute-or-hold'' \<and> backends = JUndefined))
            (path @ ''.ordered_backends is required for reroute-or-hold''),
          require (\<not> (action = JStr ''hold'' \<and> backends \<noteq> JUndefined))
            (path @ ''.ordered_backends is not allowed when action is hold'')]))"

definition POLICY_KEYS :: "string list" where
  "POLICY_KEYS = [''roles'', ''landing'', ''unmetered_backend'', ''final_only_usage'', ''purposes'', ''native_agent'']"

definition assertExecutionBudgetPolicyConfig :: "js \<Rightarrow> unit budget_result" where
  "assertExecutionBudgetPolicyConfig value = run_checks
     ([require (isPlainObject value) ''execution_budget must be an object'',
       assertKnownKeys value POLICY_KEYS ''execution_budget'',
       require (isPlainObject (js_get value ''roles'')) ''execution_budget.roles must be an object'',
       assertKnownKeys (js_get value ''roles'') (map role_name ROLES) ''execution_budget.roles'',
       require (js_keys (js_get value ''roles'') \<noteq> []) ''execution_budget.roles must define at least one role''] @
      map (check_role (js_get value ''roles'')) ROLES @
      [(if js_get value ''landing'' = JUndefined then Inr ()
        else assertExecutionLandingPolicyConfig (js_get value ''landing'') ''execution_budget.landing''),
       (if js_get value ''final_only_usage'' = JUndefined then Inr ()
        else assertFinalOnlyUsagePolicyConfig (js_get value ''final_only_usage'') ''execution_budget.final_only_usage''),
       check_purposes (js_get value ''purposes''),
       check_unmetered (js_get value ''unmetered_backend'')])"

end
