(* ===== verification/Budget_Resolution.thy ===== *)
theory Budget_Resolution
  imports Budget_Policy
begin

text \<open>
  The resolving half of \<open>src/core/execution-budget-policy.ts\<close>: the digest of a policy, the
  purpose profiles, the native agent's budget, and the budget of one execution.
\<close>

section \<open>Digest\<close>

lemma size_entry: "(k, v) \<in> set es \<Longrightarrow> size v < Suc (size_list (size_prod (\<lambda>x. 0) size) es)"
  by (induction es) auto

function canonicalJson :: "(js \<Rightarrow> string) \<Rightarrow> js \<Rightarrow> string" where
  "canonicalJson stringify value =
     (case value of
        JArr vs \<Rightarrow> ''['' @ js_join '','' (map (canonicalJson stringify) vs) @ '']''
      | JObj es \<Rightarrow> ''{'' @ js_join '','' (map (\<lambda>(k, text). stringify (JStr k) @ '':'' @ text)
          (js_sort (\<lambda>a b. compareCodePoint (fst a) (fst b))
            (map (\<lambda>(k, v). (k, canonicalJson stringify v)) es))) @ ''}''
      | _ \<Rightarrow> stringify value)"
  by pat_completeness auto
termination
proof (relation "measure (size \<circ> snd)")
  fix stringify :: "js \<Rightarrow> string" and w vs v
  assume "w = JArr vs" "v \<in> set vs"
  then show "((stringify, v), stringify, w) \<in> measure (size \<circ> snd)"
    using size_list_estimation' [of v vs "size v" size] by simp
next
  fix stringify :: "js \<Rightarrow> string" and w es e k v
  assume "w = JObj es" "e \<in> set es" "(k, v) = e"
  then show "((stringify, v), stringify, w) \<in> measure (size \<circ> snd)"
    using size_entry [of k v es] by simp
qed simp

declare canonicalJson.simps [simp del]

definition executionBudgetPolicyDigest :: "(string \<Rightarrow> string) \<Rightarrow> (js \<Rightarrow> string) \<Rightarrow> js \<Rightarrow> string budget_result" where
  "executionBudgetPolicyDigest sha256 stringify policy =
     result_bind (assertExecutionBudgetPolicyConfig policy) (\<lambda>_. Inr (sha256 (canonicalJson stringify policy)))"

definition js_truthy :: "js \<Rightarrow> bool" where
  "js_truthy v =
     (case v of JUndefined \<Rightarrow> False | JNull \<Rightarrow> False | JBool b \<Rightarrow> b | JNum q \<Rightarrow> q \<noteq> 0
      | JInfinity _ \<Rightarrow> True | JNaN \<Rightarrow> False | JStr s \<Rightarrow> s \<noteq> [] | JArr _ \<Rightarrow> True | JObj _ \<Rightarrow> True)"

section \<open>Purpose profiles\<close>

datatype billing = BillSubscription | BillFree | BillLocal | BillMeteredApi

datatype profile_unavailable =
    ReachabilityProfileMissing | MeteredApiUsdCeilingMissing
  | XverifyProfileMissing | XverifyTokenCeilingMissing

datatype purpose_decision =
    PurposeAvailable js string string | PurposeUnavailable profile_unavailable string "string option"

definition purpose_profile :: "js \<Rightarrow> string \<Rightarrow> js" where
  "purpose_profile policy name = js_get (js_get policy ''purposes'') name"

definition resolveReachabilityProbePurposeProfile ::
    "(string \<Rightarrow> string) \<Rightarrow> (js \<Rightarrow> string) \<Rightarrow> js \<Rightarrow> billing \<Rightarrow> purpose_decision budget_result" where
  "resolveReachabilityProbePurposeProfile sha256 stringify policy mode =
     (let ref = ''execution_budget.purposes.reachability-probe'';
          profile = purpose_profile policy ''reachability-probe'' in
      if \<not> js_truthy policy then Inr (PurposeUnavailable ReachabilityProfileMissing ref None)
      else result_bind (executionBudgetPolicyDigest sha256 stringify policy) (\<lambda>digest. Inr
        (if \<not> js_truthy profile then PurposeUnavailable ReachabilityProfileMissing ref (Some digest)
         else if mode = BillMeteredApi \<and> js_get profile ''maxUsd'' = JUndefined
         then PurposeUnavailable MeteredApiUsdCeilingMissing ref (Some digest)
         else PurposeAvailable profile ref digest)))"

definition resolveXverifyAdjudicationPurposeProfile ::
    "(string \<Rightarrow> string) \<Rightarrow> (js \<Rightarrow> string) \<Rightarrow> js \<Rightarrow> purpose_decision budget_result" where
  "resolveXverifyAdjudicationPurposeProfile sha256 stringify policy =
     (let ref = ''execution_budget.purposes.xverify-adjudication'';
          profile = purpose_profile policy ''xverify-adjudication'' in
      if \<not> js_truthy policy then Inr (PurposeUnavailable XverifyProfileMissing ref None)
      else result_bind (executionBudgetPolicyDigest sha256 stringify policy) (\<lambda>digest. Inr
        (if \<not> js_truthy profile then PurposeUnavailable XverifyProfileMissing ref (Some digest)
         else if \<not> positive_safe_integer (js_get profile ''maxTokens'')
         then PurposeUnavailable XverifyTokenCeilingMissing ref (Some digest)
         else PurposeAvailable profile ref digest)))"

section \<open>The native agent's budget\<close>

datatype NativeField =
    MaxModelRounds | MaxToolCalls | MaxWallTimeMs | MaxCumulativeTokens | MaxNoProgressRounds
  | CheckpointEveryRounds | CheckpointEveryToolCalls | OutputReserveTokens | ContextSafetyReserveTokens

type_synonym ResolvedNativeAgentBudget = "NativeField \<Rightarrow> int"

primrec native_name :: "NativeField \<Rightarrow> string" where
  "native_name MaxModelRounds = ''maxModelRounds''"
| "native_name MaxToolCalls = ''maxToolCalls''"
| "native_name MaxWallTimeMs = ''maxWallTimeMs''"
| "native_name MaxCumulativeTokens = ''maxCumulativeTokens''"
| "native_name MaxNoProgressRounds = ''maxNoProgressRounds''"
| "native_name CheckpointEveryRounds = ''checkpointEveryRounds''"
| "native_name CheckpointEveryToolCalls = ''checkpointEveryToolCalls''"
| "native_name OutputReserveTokens = ''outputReserveTokens''"
| "native_name ContextSafetyReserveTokens = ''contextSafetyReserveTokens''"

primrec DEFAULT_NATIVE_AGENT_BUDGET :: ResolvedNativeAgentBudget where
  "DEFAULT_NATIVE_AGENT_BUDGET MaxModelRounds = 120"
| "DEFAULT_NATIVE_AGENT_BUDGET MaxToolCalls = 400"
| "DEFAULT_NATIVE_AGENT_BUDGET MaxWallTimeMs = 45 * 60000"
| "DEFAULT_NATIVE_AGENT_BUDGET MaxCumulativeTokens = 2000000"
| "DEFAULT_NATIVE_AGENT_BUDGET MaxNoProgressRounds = 8"
| "DEFAULT_NATIVE_AGENT_BUDGET CheckpointEveryRounds = 20"
| "DEFAULT_NATIVE_AGENT_BUDGET CheckpointEveryToolCalls = 60"
| "DEFAULT_NATIVE_AGENT_BUDGET OutputReserveTokens = 4096"
| "DEFAULT_NATIVE_AGENT_BUDGET ContextSafetyReserveTokens = 2048"

definition NATIVE_AGENT_BUDGET_FIELDS :: "NativeField list" where
  "NATIVE_AGENT_BUDGET_FIELDS =
     [MaxModelRounds, MaxToolCalls, MaxWallTimeMs, MaxCumulativeTokens, MaxNoProgressRounds,
      CheckpointEveryRounds, CheckpointEveryToolCalls, OutputReserveTokens, ContextSafetyReserveTokens]"

fun merge_native :: "js \<Rightarrow> NativeField list \<Rightarrow> ResolvedNativeAgentBudget \<Rightarrow> ResolvedNativeAgentBudget budget_result" where
  "merge_native authored [] merged = Inr merged"
| "merge_native authored (field # rest) merged =
     (if js_get authored (native_name field) = JUndefined then merge_native authored rest merged
      else (case safe_integer (js_get authored (native_name field)) of
              None \<Rightarrow> Inl (BudgetPolicyInvalid (''execution_budget.native_agent.'' @ native_name field @
                '' must be a positive safe integer''))
            | Some n \<Rightarrow>
                if n \<le> 0 then Inl (BudgetPolicyInvalid (''execution_budget.native_agent.'' @ native_name field @
                  '' must be a positive safe integer''))
                else merge_native authored rest (merged(field := n))))"

definition resolveNativeAgentBudget :: "js \<Rightarrow> ResolvedNativeAgentBudget budget_result" where
  "resolveNativeAgentBudget policy =
     (let authored = js_get policy ''native_agent'' in
      if authored = JUndefined then Inr DEFAULT_NATIVE_AGENT_BUDGET
      else result_bind (require (isPlainObject authored) ''execution_budget.native_agent must be an object'') (\<lambda>_.
        result_bind (assertKnownKeys authored (map native_name NATIVE_AGENT_BUDGET_FIELDS) ''execution_budget.native_agent'') (\<lambda>_.
          merge_native authored NATIVE_AGENT_BUDGET_FIELDS DEFAULT_NATIVE_AGENT_BUDGET)))"

section \<open>The budget of one execution\<close>

datatype ExecutionBudgetPolicyHoldReason =
    BudgetPolicyMissing | RoleProfileMissing | LandingPolicyMissing | LandingTurnReserveInsufficient
  | FinalOnlyUsageAuthorizationMissing

record FinalOnlyUsageAuthorization =
  maxWallClockSeconds :: rat
  final_profileRef :: string
  final_policyDigest :: string

record ExecutionBudgetPolicyAllowDecision =
  allow_budget :: "ExecutionBudget option"
  allow_profileRef :: string
  allow_policyDigest :: string
  requestedNarrowing :: bool
  landingPolicy :: "ExecutionLandingPolicyConfig option"
  finalOnlyUsage :: "FinalOnlyUsageAuthorization option"

record ExecutionBudgetPolicyHoldDecision =
  reasonCode :: ExecutionBudgetPolicyHoldReason
  hold_profileRef :: string
  hold_policyDigest :: "string option"
  requiredContinuationTurns :: "rat option"
  guaranteedContinuationTurns :: "int option"

datatype ExecutionBudgetPolicyDecision =
    Allow ExecutionBudgetPolicyAllowDecision | Hold ExecutionBudgetPolicyHoldDecision

record budget_request =
  req_policy :: js
  req_role :: ExecutionBudgetRole
  req_taskKind :: "string option"
  requestedBudget :: js
  local_execution :: bool
  minimumContinuationTurns :: "rat option"
  liveUsageMode :: "live_usage option"

definition hold :: "ExecutionBudgetPolicyHoldReason \<Rightarrow> string \<Rightarrow> string option \<Rightarrow> ExecutionBudgetPolicyDecision" where
  "hold reason ref digest =
     Hold \<lparr>reasonCode = reason, hold_profileRef = ref, hold_policyDigest = digest,
           requiredContinuationTurns = None, guaranteedContinuationTurns = None\<rparr>"

definition hasLiveCeiling :: "ExecutionBudget \<Rightarrow> bool" where
  "hasLiveCeiling budget \<longleftrightarrow> (\<exists>field \<in> set (filter (\<lambda>f. f \<noteq> MaxUsd) BUDGET_FIELDS). budget field \<noteq> None)"

definition narrow_field :: "rat option \<Rightarrow> rat option \<Rightarrow> rat option" where
  "narrow_field authority request =
     (case request of None \<Rightarrow> authority
      | Some r \<Rightarrow> (case authority of None \<Rightarrow> Some r | Some a \<Rightarrow> Some (min a r)))"

definition narrowBudget :: "js \<Rightarrow> js \<Rightarrow> ExecutionBudget budget_result" where
  "narrowBudget authority requested =
     (if \<not> js_truthy requested then Inr (read_budget authority)
      else result_bind (assertBudget requested ''requested execution budget'') (\<lambda>_.
        Inr (\<lambda>field. narrow_field (read_budget authority field) (read_budget requested field))))"

definition js_includes_value :: "js \<Rightarrow> string \<Rightarrow> bool" where
  "js_includes_value v s = (case v of JArr vs \<Rightarrow> JStr s \<in> set vs | JStr t \<Rightarrow> js_includes t s | _ \<Rightarrow> False)"

definition final_only_grant :: "js \<Rightarrow> ExecutionBudgetRole \<Rightarrow> string \<Rightarrow> FinalOnlyUsageAuthorization option" where
  "final_only_grant policy role digest =
     (let finalOnly = js_get policy ''final_only_usage'' in
      if js_get finalOnly ''action'' = JStr ''allow-wall-clock-containment'' \<and>
         js_includes_value (js_get finalOnly ''roles'') (role_name role) \<and>
         js_get finalOnly ''max_wall_clock_seconds'' \<noteq> JUndefined
      then Some \<lparr>maxWallClockSeconds = number_of (js_get finalOnly ''max_wall_clock_seconds''),
                 final_profileRef = ''execution_budget.final_only_usage'', final_policyDigest = digest\<rparr>
      else None)"

definition resolve_local :: "(string \<Rightarrow> string) \<Rightarrow> budget_request \<Rightarrow> ExecutionBudgetPolicyDecision budget_result" where
  "resolve_local sha256 input =
     (let requested = requestedBudget input; digest = sha256 ''local-exempt'' in
      result_bind (if js_truthy requested then assertBudget requested ''requested execution budget'' else Inr ()) (\<lambda>_.
        Inr (Allow
          \<lparr>allow_budget = (if js_truthy requested then Some (read_budget requested) else None),
           allow_profileRef = ''local-exempt'', allow_policyDigest = digest,
           requestedNarrowing = js_truthy requested, landingPolicy = None,
           finalOnlyUsage = final_only_grant (req_policy input) (req_role input) digest\<rparr>)))"

definition kind_budget :: "budget_request \<Rightarrow> js" where
  "kind_budget input =
     (case req_taskKind input of None \<Rightarrow> JUndefined
      | Some kind \<Rightarrow>
          if kind = [] then JUndefined
          else js_get (js_get (js_get (js_get (req_policy input) ''roles'') (role_name (req_role input))) ''by_task_kind'') kind)"

definition role_authority :: "budget_request \<Rightarrow> js" where
  "role_authority input =
     js_nullish (kind_budget input)
       (js_get (js_get (js_get (req_policy input) ''roles'') (role_name (req_role input))) ''default'')"

definition kind_ref :: "budget_request \<Rightarrow> bool \<Rightarrow> string" where
  "kind_ref input byKind =
     ''execution_budget.roles.'' @ role_name (req_role input) @
     (if byKind then ''.by_task_kind.'' @ (case req_taskKind input of None \<Rightarrow> [] | Some k \<Rightarrow> k) else ''.default'')"

definition has_task_kind :: "budget_request \<Rightarrow> bool" where
  "has_task_kind input \<longleftrightarrow> (case req_taskKind input of None \<Rightarrow> False | Some k \<Rightarrow> k \<noteq> [])"

text \<open>The turns that landing guarantees, checked only when a minimum is asked for and turns are capped.\<close>

definition continuation_hold ::
    "budget_request \<Rightarrow> ExecutionBudget \<Rightarrow> ExecutionLandingPolicyConfig \<Rightarrow> string \<Rightarrow> string \<Rightarrow>
     ExecutionBudgetPolicyDecision option budget_result" where
  "continuation_hold input budget landing ref digest =
     (case minimumContinuationTurns input of None \<Rightarrow> Inr None
      | Some minimum \<Rightarrow>
        (case budget MaxTurns of None \<Rightarrow> Inr None
         | Some turns \<Rightarrow>
           result_bind (deriveExecutionLandingTurnAllocation turns (reserve_ratio landing)) (\<lambda>allocation.
             Inr (if of_int (reservedTurns allocation) < minimum
                  then Some (Hold \<lparr>reasonCode = LandingTurnReserveInsufficient, hold_profileRef = ref @ ''.maxTurns'',
                         hold_policyDigest = Some digest, requiredContinuationTurns = Some minimum,
                         guaranteedContinuationTurns = Some (reservedTurns allocation)\<rparr>)
                  else None))))"

definition admit :: "budget_request \<Rightarrow> ExecutionBudget \<Rightarrow> ExecutionLandingPolicyConfig \<Rightarrow> string \<Rightarrow> string \<Rightarrow> ExecutionBudgetPolicyDecision" where
  "admit input budget landing ref digest =
     (let grant = final_only_grant (req_policy input) (req_role input) digest in
      if liveUsageMode input \<noteq> None \<and> liveUsageMode input \<noteq> Some LiveIncremental \<and>
         hasLiveCeiling budget \<and> grant = None
      then hold FinalOnlyUsageAuthorizationMissing ''execution_budget.final_only_usage'' (Some digest)
      else Allow \<lparr>allow_budget = Some budget, allow_profileRef = ref, allow_policyDigest = digest,
             requestedNarrowing = (requestedBudget input \<noteq> JUndefined), landingPolicy = Some landing,
             finalOnlyUsage = grant\<rparr>)"

definition resolve_remote ::
    "(string \<Rightarrow> string) \<Rightarrow> (js \<Rightarrow> string) \<Rightarrow> budget_request \<Rightarrow> ExecutionBudgetPolicyDecision budget_result" where
  "resolve_remote sha256 stringify input =
     (let policy = req_policy input; authority = role_authority input in
      result_bind (executionBudgetPolicyDigest sha256 stringify policy) (\<lambda>digest.
      if \<not> js_truthy (js_get policy ''landing'')
      then Inr (hold LandingPolicyMissing ''execution_budget.landing'' (Some digest))
      else if \<not> js_truthy authority
      then Inr (hold RoleProfileMissing (kind_ref input (has_task_kind input)) (Some digest))
      else result_bind (narrowBudget authority (requestedBudget input)) (\<lambda>budget.
        let landing = cloneLandingPolicy (js_get policy ''landing'');
            ref = kind_ref input (js_truthy (kind_budget input)) in
        result_bind (continuation_hold input budget landing ref digest) (\<lambda>h.
          Inr (case h of Some decision \<Rightarrow> decision | None \<Rightarrow> admit input budget landing ref digest)))))"

definition resolveExecutionBudgetPolicy ::
    "(string \<Rightarrow> string) \<Rightarrow> (js \<Rightarrow> string) \<Rightarrow> budget_request \<Rightarrow> ExecutionBudgetPolicyDecision budget_result" where
  "resolveExecutionBudgetPolicy sha256 stringify input =
     result_bind
       (require (case minimumContinuationTurns input of None \<Rightarrow> True | Some n \<Rightarrow> of_int \<lfloor>n\<rfloor> = n \<and> 1 \<le> n)
         ''minimumContinuationTurns must be a positive integer'') (\<lambda>_.
       if local_execution input then resolve_local sha256 input
       else if \<not> js_truthy (req_policy input)
       then Inr (hold BudgetPolicyMissing (''execution_budget.roles.'' @ role_name (req_role input)) None)
       else resolve_remote sha256 stringify input)"

end
