(* ===== verification/Live_Budget.thy ===== *)
theory Live_Budget
  imports Budget_Resolution
begin

text \<open>
  The enforcing half of \<open>src/core/live-execution-budget.ts\<close>: the admission checks of a budget
  and \<open>LiveExecutionBudgetGuard\<close>, which folds measured observations into counters and decides
  after each one. A decision's reasons keep the numbers that the code prints. Counters are
  integers: sums beyond \<open>2 ^ 53\<close>, which a double would round, are outside the model.
\<close>

section \<open>Admission\<close>

text \<open>The error of these checks is the message of \<open>createExecutionAdmissionError\<close>.\<close>

definition hasLiveUsageCeiling :: "ExecutionBudget option \<Rightarrow> bool" where
  "hasLiveUsageCeiling budget =
     (case budget of None \<Rightarrow> False
      | Some b \<Rightarrow> \<exists>field \<in> set [MaxTokens, MaxTurns, MaxInputTokens, MaxOutputTokens, MaxCacheReadTokens,
          MaxCacheCreationTokens, MaxContextTokens].
          (case b field of None \<Rightarrow> False | Some q \<Rightarrow> 0 \<le> q))"

definition blocked_suffix :: string where
  "blocked_suffix = '' Spawn blocked before provider work.''"

definition check_budget_entry :: "string \<times> js \<Rightarrow> unit js_result" where
  "check_budget_entry entry =
     (case entry of (field, v) \<Rightarrow>
        if field \<notin> set (map field_name BUDGET_FIELDS)
        then Inl (''Unknown execution budget field '' @ [CHR 0x22] @ field @ [CHR 0x22] @ ''.'' @ blocked_suffix)
        else check (nonneg_number v)
          (''Execution budget '' @ field @ '' must be a non-negative finite number.'' @ blocked_suffix))"

definition assertExecutionBudgetShape :: "js \<Rightarrow> string \<Rightarrow> bool \<Rightarrow> unit js_result" where
  "assertExecutionBudgetShape budget executor local =
     (if local \<and> budget = JUndefined then Inr ()
      else (case budget of
          JUndefined \<Rightarrow> Inl (''Remote execution budget is required for executor '' @ [CHR 0x22] @ executor @
            [CHR 0x22] @ ''.'' @ blocked_suffix)
        | JObj [] \<Rightarrow> Inl (''Execution budget must contain at least one explicit ceiling.'' @ blocked_suffix)
        | JObj es \<Rightarrow> run_checks (map check_budget_entry es)
        | _ \<Rightarrow> Inl (''Execution budget must be an object.'' @ blocked_suffix)))"

definition assertLiveUsageBudgetSupport :: "js \<Rightarrow> bool \<Rightarrow> string \<Rightarrow> bool \<Rightarrow> unit js_result" where
  "assertLiveUsageBudgetSupport budget measuredStream executor local =
     result_bind (assertExecutionBudgetShape budget executor local) (\<lambda>_.
       if local \<and> budget = JUndefined then Inr ()
       else if is_number (js_get budget ''maxUsd'')
       then Inl (''Live USD budget enforcement requires an immutable pricing snapshot and incremental measured usage; executor ''
         @ [CHR 0x22] @ executor @ [CHR 0x22] @ '' does not provide that contract.'' @ blocked_suffix @
         '' Use measured token/cache/turn ceilings until live USD accrual is available.'')
       else check (\<not> (hasLiveUsageCeiling (Some (read_budget budget)) \<and> \<not> measuredStream))
         (''Live execution budget requires measured streaming usage; executor '' @ [CHR 0x22] @ executor @
          [CHR 0x22] @ '' does not declare that capability.'' @ blocked_suffix))"

section \<open>Counters\<close>

record LiveUsageCounters =
  ctr_turns :: int
  ctr_input :: int
  ctr_output :: int
  ctr_cacheRead :: int
  ctr_cacheCreation :: int
  ctr_total :: int
  ctr_maxContext :: int

definition ZERO_COUNTERS :: LiveUsageCounters where
  "ZERO_COUNTERS = \<lparr>ctr_turns = 0, ctr_input = 0, ctr_output = 0, ctr_cacheRead = 0, ctr_cacheCreation = 0,
     ctr_total = 0, ctr_maxContext = 0\<rparr>"

definition addCounters :: "LiveUsageCounters \<Rightarrow> UsageCounts \<Rightarrow> LiveUsageCounters" where
  "addCounters c d =
     (let i = ctr_input c + inputTokens d; q = ctr_output c + outputTokens d;
          r = ctr_cacheRead c + cacheReadTokens d; k = ctr_cacheCreation c + cacheCreationTokens d in
      c\<lparr>ctr_input := i, ctr_output := q, ctr_cacheRead := r, ctr_cacheCreation := k, ctr_total := i + q + r + k\<rparr>)"

definition snapshotDelta :: "LiveUsageCounters \<Rightarrow> UsageCounts \<Rightarrow> UsageCounts" where
  "snapshotDelta c d =
     \<lparr>inputTokens = max 0 (inputTokens d - ctr_input c), outputTokens = max 0 (outputTokens d - ctr_output c),
      cacheReadTokens = max 0 (cacheReadTokens d - ctr_cacheRead c),
      cacheCreationTokens = max 0 (cacheCreationTokens d - ctr_cacheCreation c)\<rparr>"

section \<open>The guard\<close>

record LiveExecutionBudgetGuard =
  seen_keys :: "string js_set"
  counters :: LiveUsageCounters
  measurableEvents :: nat
  incrementalUsageEvents :: nat
  consecutiveCacheReadEvents :: nat
  lastAppliedDelta :: "UsageCounts option"

text \<open>The parts of a guard that never change: the budget and the landing reserve ratio, if any.\<close>

record guard_config =
  guard_budget :: ExecutionBudget
  guard_landing :: "rat option"

datatype LiveUsageGuardState =
    GuardStateV1 LiveUsageCounters "string list" nat nat
  | GuardStateV2 LiveUsageCounters "string list" nat nat nat "UsageCounts option"

definition new_guard :: LiveExecutionBudgetGuard where
  "new_guard = \<lparr>seen_keys = [], counters = ZERO_COUNTERS, measurableEvents = 0, incrementalUsageEvents = 0,
     consecutiveCacheReadEvents = 0, lastAppliedDelta = None\<rparr>"

definition restore_guard :: "LiveUsageGuardState \<Rightarrow> LiveExecutionBudgetGuard" where
  "restore_guard st =
     (case st of
        GuardStateV1 c seen m i \<Rightarrow>
          \<lparr>seen_keys = js_set_of seen, counters = c, measurableEvents = m, incrementalUsageEvents = i,
           consecutiveCacheReadEvents = 0, lastAppliedDelta = None\<rparr>
      | GuardStateV2 c seen m i k d \<Rightarrow>
          \<lparr>seen_keys = js_set_of seen, counters = c, measurableEvents = m, incrementalUsageEvents = i,
           consecutiveCacheReadEvents = k, lastAppliedDelta = d\<rparr>)"

definition exportState :: "LiveExecutionBudgetGuard \<Rightarrow> LiveUsageGuardState" where
  "exportState g = GuardStateV2 (counters g) (seen_keys g) (measurableEvents g) (incrementalUsageEvents g)
     (consecutiveCacheReadEvents g) (lastAppliedDelta g)"

datatype decision_state = WithinBudget | LandingRequested | Exceeded | Unmeasurable

datatype budget_reason =
    BudgetExceeded string int rat
  | LandingReached string int rat rat
  | ContextUnmeasured
  | UsageUnmeasured

record LiveBudgetDecision =
  dec_state :: decision_state
  dec_reasons :: "budget_reason list"
  dec_counters :: LiveUsageCounters
  dec_observation :: "LiveUsageObservation option"
  dec_appliedDelta :: "UsageCounts option"
  dec_cacheReadStreak :: nat

definition budget_checks :: "ExecutionBudget \<Rightarrow> LiveUsageCounters \<Rightarrow> (rat option \<times> int \<times> string) list" where
  "budget_checks budget c =
     [(budget MaxTurns, ctr_turns c, ''turn''),
      (budget MaxInputTokens, ctr_input c, ''input token''),
      (budget MaxOutputTokens, ctr_output c, ''output token''),
      (budget MaxCacheReadTokens, ctr_cacheRead c, ''cache-read token''),
      (budget MaxCacheCreationTokens, ctr_cacheCreation c, ''cache-creation token''),
      (budget MaxTokens, ctr_total c, ''aggregate token''),
      (budget MaxContextTokens, ctr_maxContext c, ''per-call context token'')]"

fun exceeded_reasons :: "(rat option \<times> int \<times> string) list \<Rightarrow> budget_reason list" where
  "exceeded_reasons [] = []"
| "exceeded_reasons ((limit, actual, label) # cs) =
     (case limit of
        Some l \<Rightarrow> if of_int actual > l then BudgetExceeded label actual l # exceeded_reasons cs else exceeded_reasons cs
      | None \<Rightarrow> exceeded_reasons cs)"

definition landing_threshold :: "rat \<Rightarrow> rat \<Rightarrow> string \<Rightarrow> rat budget_result" where
  "landing_threshold ratio limit label =
     (if label = ''turn''
      then result_bind (deriveExecutionLandingTurnAllocation limit ratio) (\<lambda>a. Inr (of_int (workTurns a)))
      else Inr (fl_mult limit (fl (1 - ratio))))"

fun landing_reasons :: "rat \<Rightarrow> (rat option \<times> int \<times> string) list \<Rightarrow> budget_reason list budget_result" where
  "landing_reasons ratio [] = Inr []"
| "landing_reasons ratio ((limit, actual, label) # cs) =
     (case limit of
        None \<Rightarrow> landing_reasons ratio cs
      | Some l \<Rightarrow>
          result_bind (landing_threshold ratio l label) (\<lambda>threshold.
          result_bind (landing_reasons ratio cs) (\<lambda>rest.
            Inr (if of_int actual \<ge> threshold then LandingReached label actual threshold ratio # rest else rest))))"

definition landing_part :: "guard_config \<Rightarrow> LiveUsageCounters \<Rightarrow> budget_reason list budget_result" where
  "landing_part cfg c =
     (case guard_landing cfg of
        Some ratio \<Rightarrow>
          if exceeded_reasons (budget_checks (guard_budget cfg) c) = []
          then landing_reasons ratio (budget_checks (guard_budget cfg) c) else Inr []
      | None \<Rightarrow> Inr [])"

definition decide ::
    "guard_config \<Rightarrow> LiveExecutionBudgetGuard \<Rightarrow> decision_state \<Rightarrow> budget_reason list \<Rightarrow> budget_reason list \<Rightarrow>
     decision_state \<times> budget_reason list" where
  "decide cfg g emptyState reasons landing =
     (if reasons = [] \<and> guard_budget cfg MaxContextTokens \<noteq> None \<and> incrementalUsageEvents g = 0
      then (Unmeasurable, [ContextUnmeasured])
      else if emptyState = Unmeasurable \<and> measurableEvents g = 0 then (Unmeasurable, [UsageUnmeasured])
      else (if reasons \<noteq> [] then Exceeded else if landing \<noteq> [] then LandingRequested else emptyState,
            if reasons \<noteq> [] then reasons else landing))"

definition decision ::
    "guard_config \<Rightarrow> LiveExecutionBudgetGuard \<Rightarrow> decision_state \<Rightarrow> LiveUsageObservation option \<Rightarrow>
     UsageCounts option \<Rightarrow> LiveBudgetDecision budget_result" where
  "decision cfg g emptyState obs delta =
     result_bind (landing_part cfg (counters g)) (\<lambda>landing.
       case decide cfg g emptyState (exceeded_reasons (budget_checks (guard_budget cfg) (counters g))) landing of
         (st, why) \<Rightarrow> Inr \<lparr>dec_state = st, dec_reasons = why, dec_counters = counters g, dec_observation = obs,
           dec_appliedDelta = delta, dec_cacheReadStreak = consecutiveCacheReadEvents g\<rparr>)"

definition applied_delta :: "LiveUsageCounters \<Rightarrow> LiveUsageObservation \<Rightarrow> UsageCounts" where
  "applied_delta c obs = (case obs_mode obs of Cumulative \<Rightarrow> snapshotDelta c (obs_counts obs) | Incremental \<Rightarrow> obs_counts obs)"

definition count_turns :: "LiveUsageObservation \<Rightarrow> int \<Rightarrow> int" where
  "count_turns obs turns =
     (let t = (if countsAsTurn obs then turns + 1 else turns)
      in case reportedTurns obs of None \<Rightarrow> t | Some n \<Rightarrow> max t n)"

definition apply_observation :: "LiveUsageObservation \<Rightarrow> LiveUsageCounters \<Rightarrow> LiveUsageCounters" where
  "apply_observation obs c =
     (let c1 = addCounters c (applied_delta c obs); c2 = c1\<lparr>ctr_turns := count_turns obs (ctr_turns c1)\<rparr>
      in if obs_mode obs = Incremental then c2\<lparr>ctr_maxContext := max (ctr_maxContext c2) (contextTokens obs)\<rparr> else c2)"

definition record_observation :: "LiveUsageObservation \<Rightarrow> LiveExecutionBudgetGuard \<Rightarrow> LiveExecutionBudgetGuard" where
  "record_observation obs g =
     \<lparr>seen_keys = js_add (dedupeKey obs) (seen_keys g),
      counters = apply_observation obs (counters g),
      measurableEvents = measurableEvents g + 1,
      incrementalUsageEvents = (if obs_mode obs = Incremental then incrementalUsageEvents g + 1 else incrementalUsageEvents g),
      consecutiveCacheReadEvents =
        (if cacheReadTokens (applied_delta (counters g) obs) > 0 then consecutiveCacheReadEvents g + 1 else 0),
      lastAppliedDelta = Some (applied_delta (counters g) obs)\<rparr>"

text \<open>Observing returns the next guard and a decision, or the error thrown while deciding.\<close>

definition observe ::
    "guard_config \<Rightarrow> StreamLogEvent \<Rightarrow> LiveExecutionBudgetGuard \<Rightarrow>
     LiveExecutionBudgetGuard \<times> LiveBudgetDecision budget_result" where
  "observe cfg event g =
     (case extractLiveUsageObservation event of
        None \<Rightarrow> (g, decision cfg g Unmeasurable None None)
      | Some obs \<Rightarrow>
          if dedupeKey obs \<in> set (seen_keys g) then (g, decision cfg g WithinBudget (Some obs) None)
          else let g' = record_observation obs g
               in (g', decision cfg g' WithinBudget (Some obs) (Some (applied_delta (counters g) obs))))"

definition snapshot :: "guard_config \<Rightarrow> LiveExecutionBudgetGuard \<Rightarrow> LiveBudgetDecision budget_result" where
  "snapshot cfg g = decision cfg g (if measurableEvents g > 0 then WithinBudget else Unmeasurable) None None"

end
