(* ===== verification/Execution_Budget.thy ===== *)
theory Execution_Budget
  imports Live_Budget
begin

text \<open>
  \<open>src/core/execution-budget.ts\<close>: the verdict on a finished execution and on the cost of a
  run. Money is a double: a sum is the rounded one; a cost that is not finite is \<open>None\<close>.
\<close>

section \<open>Evidence\<close>

datatype BillingMode = Subscription | FreeTier | LocalBilling | ApiBilling

record TokenUsage =
  use_input :: int
  use_output :: int
  use_cacheRead :: "int option"
  use_cacheCreation :: "int option"
  use_source :: "string option"

record TaskCost =
  cost_usd :: "rat option"
  pricingSource :: string

definition MEASURED_USAGE_SOURCES :: "string list" where
  "MEASURED_USAGE_SOURCES = [''provider-adapter'', ''session-store'', ''envelope'', ''cli-log'',
     ''host-runtime-budget'', ''host-runtime-budget-lineage'']"

definition isMeasuredUsageEvidence :: "string option \<Rightarrow> bool" where
  "isMeasuredUsageEvidence source = (case source of None \<Rightarrow> False | Some s \<Rightarrow> s \<in> set MEASURED_USAGE_SOURCES)"

definition unknown_model :: "string \<Rightarrow> bool" where
  "unknown_model source = js_starts_with source ''unknown-model:''"

section \<open>The cost of a run\<close>

datatype verdict_state = VWithin | VExceeded | VUnknown

record RunCostBudgetVerdict =
  run_state :: verdict_state
  run_cumulativeUsd :: rat

text \<open>The cost to add, when its evidence is trusted.\<close>

definition trusted_cost :: "TaskCost option \<Rightarrow> TokenUsage option \<Rightarrow> rat option" where
  "trusted_cost nextCost nextUsage =
     (case nextCost of None \<Rightarrow> None
      | Some cost \<Rightarrow>
          (case cost_usd cost of None \<Rightarrow> None
           | Some usd \<Rightarrow>
               if \<not> unknown_model (pricingSource cost) \<and> 0 \<le> usd \<and>
                  (pricingSource cost = ''provider-envelope'' \<or>
                   isMeasuredUsageEvidence (Option.bind nextUsage use_source))
               then Some usd else None))"

definition evaluateRunCostBudget ::
    "rat \<Rightarrow> TaskCost option \<Rightarrow> TokenUsage option \<Rightarrow> rat option \<Rightarrow> BillingMode option \<Rightarrow> RunCostBudgetVerdict" where
  "evaluateRunCostBudget cumulativeUsd nextCost nextUsage sprintBudgetUsd billingMode =
     (if billingMode = Some Subscription \<or> billingMode = Some FreeTier \<or> billingMode = Some LocalBilling
      then \<lparr>run_state = VWithin, run_cumulativeUsd = cumulativeUsd\<rparr>
      else if billingMode \<noteq> Some ApiBilling then \<lparr>run_state = VUnknown, run_cumulativeUsd = cumulativeUsd\<rparr>
      else
        let trusted = trusted_cost nextCost nextUsage;
            usd = fl_add cumulativeUsd (case trusted of None \<Rightarrow> 0 | Some x \<Rightarrow> x) in
        (case sprintBudgetUsd of
           None \<Rightarrow> \<lparr>run_state = VUnknown, run_cumulativeUsd = usd\<rparr>
         | Some limit \<Rightarrow>
             \<lparr>run_state = (if trusted = None then VUnknown else if usd > limit then VExceeded else VWithin),
              run_cumulativeUsd = usd\<rparr>))"

section \<open>The verdict on one execution\<close>

datatype verdict_reason =
    UsageUnavailable string "string option"
  | OverCeiling string rat rat
  | TurnSummaryUnavailable
  | ContextSummaryUnavailable
  | CostEvidenceUnavailable

record ExecutionBudgetVerdict =
  verdict_state :: verdict_state
  verdict_reasons :: "verdict_reason list"
  consumedTokens :: "int option"
  consumedUsd :: "rat option"

text \<open>A check leaves nothing, a reason for missing evidence, or a reason for an excess.\<close>

datatype budget_check = Passed | Missing verdict_reason | Over verdict_reason

definition ceiling_check :: "rat option \<Rightarrow> rat option \<Rightarrow> verdict_reason \<Rightarrow> string \<Rightarrow> budget_check" where
  "ceiling_check limit actual unavailable label =
     (case limit of None \<Rightarrow> Passed
      | Some l \<Rightarrow>
          (case actual of
             None \<Rightarrow> Missing unavailable
           | Some a \<Rightarrow> if a > l then Over (OverCeiling label a l) else Passed))"

definition measured_usage :: "TokenUsage option \<Rightarrow> TokenUsage option" where
  "measured_usage usage =
     (case usage of None \<Rightarrow> None | Some u \<Rightarrow> if isMeasuredUsageEvidence (use_source u) then Some u else None)"

definition or_zero :: "int option \<Rightarrow> int" where
  "or_zero n = (case n of None \<Rightarrow> 0 | Some k \<Rightarrow> k)"

definition total_tokens :: "TokenUsage \<Rightarrow> int" where
  "total_tokens u = use_input u + use_output u + or_zero (use_cacheRead u) + or_zero (use_cacheCreation u)"

definition measured_decision :: "LiveBudgetDecision option \<Rightarrow> LiveBudgetDecision option" where
  "measured_decision d =
     (case d of None \<Rightarrow> None | Some x \<Rightarrow> if dec_state x = Unmeasurable then None else Some x)"

definition consumed_usd :: "TaskCost option \<Rightarrow> TokenUsage option \<Rightarrow> BillingMode option \<Rightarrow> rat option" where
  "consumed_usd cost usage billingMode =
     (if billingMode = Some LocalBilling then Some 0
      else if billingMode = Some ApiBilling then trusted_cost cost usage else None)"

definition usd_check :: "rat option \<Rightarrow> rat option \<Rightarrow> BillingMode option \<Rightarrow> budget_check" where
  "usd_check limit usd billingMode =
     (if billingMode = Some Subscription \<or> billingMode = Some FreeTier \<or> billingMode = Some LocalBilling
      then Passed else ceiling_check limit usd CostEvidenceUnavailable ''USD'')"

definition execution_checks ::
    "ExecutionBudget \<Rightarrow> TokenUsage option \<Rightarrow> TaskCost option \<Rightarrow> LiveBudgetDecision option \<Rightarrow> BillingMode option \<Rightarrow>
     budget_check list" where
  "execution_checks budget usage cost live billingMode =
     (let u = measured_usage usage; d = measured_decision live;
          source = Option.bind usage use_source;
          tokens = (\<lambda>f. map_option (\<lambda>x. of_int (f x)) u) in
      [ceiling_check (budget MaxTokens) (tokens total_tokens) (UsageUnavailable ''token'' source) ''token'',
       ceiling_check (budget MaxInputTokens) (tokens use_input) (UsageUnavailable ''input token'' source) ''input token'',
       ceiling_check (budget MaxOutputTokens) (tokens use_output) (UsageUnavailable ''output token'' source) ''output token'',
       ceiling_check (budget MaxCacheReadTokens) (tokens (\<lambda>x. or_zero (use_cacheRead x)))
         (UsageUnavailable ''cache-read token'' source) ''cache-read token'',
       ceiling_check (budget MaxCacheCreationTokens) (tokens (\<lambda>x. or_zero (use_cacheCreation x)))
         (UsageUnavailable ''cache-creation token'' source) ''cache-creation token'',
       ceiling_check (budget MaxTurns) (map_option (\<lambda>x. of_int (ctr_turns (dec_counters x))) d)
         TurnSummaryUnavailable ''turn'',
       ceiling_check (budget MaxContextTokens) (map_option (\<lambda>x. of_int (ctr_maxContext (dec_counters x))) d)
         ContextSummaryUnavailable ''per-call context token'',
       usd_check (budget MaxUsd) (consumed_usd cost usage billingMode) billingMode])"

fun check_reasons :: "budget_check list \<Rightarrow> verdict_reason list" where
  "check_reasons [] = []"
| "check_reasons (Passed # cs) = check_reasons cs"
| "check_reasons (Missing r # cs) = r # check_reasons cs"
| "check_reasons (Over r # cs) = r # check_reasons cs"

fun is_over :: "budget_check \<Rightarrow> bool" where
  "is_over (Over _) = True" | "is_over _ = False"

fun is_missing :: "budget_check \<Rightarrow> bool" where
  "is_missing (Missing _) = True" | "is_missing _ = False"

definition has_any_ceiling :: "ExecutionBudget option \<Rightarrow> bool" where
  "has_any_ceiling budget =
     (case budget of None \<Rightarrow> False
      | Some b \<Rightarrow> \<exists>field \<in> set BUDGET_FIELDS. case b field of None \<Rightarrow> False | Some q \<Rightarrow> 0 \<le> q)"

definition evaluateExecutionBudget ::
    "ExecutionBudget option \<Rightarrow> TokenUsage option \<Rightarrow> TaskCost option \<Rightarrow> LiveBudgetDecision option \<Rightarrow>
     BillingMode option \<Rightarrow> ExecutionBudgetVerdict" where
  "evaluateExecutionBudget budget usage cost live billingMode =
     (if \<not> has_any_ceiling budget
      then \<lparr>verdict_state = VWithin, verdict_reasons = [], consumedTokens = None, consumedUsd = None\<rparr>
      else let checks = execution_checks (the budget) usage cost live billingMode in
        \<lparr>verdict_state = (if list_ex is_over checks then VExceeded else if list_ex is_missing checks then VUnknown else VWithin),
         verdict_reasons = check_reasons checks,
         consumedTokens = map_option total_tokens (measured_usage usage),
         consumedUsd = consumed_usd cost usage billingMode\<rparr>)"

end
