(* ===== verification/Budget_Correct.thy ===== *)
theory Budget_Correct
  imports Execution_Budget
begin

text \<open>
  What the budget pipeline promises: a request can only narrow the owner's ceilings, admission
  fails closed, the guard's counters depend only on what was observed, and an exceeded budget
  stays exceeded.
\<close>

section \<open>Checks\<close>

lemma run_checks_Inr: "run_checks cs = Inr () \<longleftrightarrow> (\<forall>c \<in> set cs. c = Inr ())"
  by (induction cs) (auto simp: result_bind_Inr)

lemma require_Inr [simp]: "require ok message = Inr () \<longleftrightarrow> ok"
  by (simp add: require_def)

lemma unit_result: "(r :: 'e + unit) = Inr u \<longleftrightarrow> r = Inr ()"
  by simp

section \<open>Admitted remote executions\<close>

lemma continuation_hold_Some:
  "continuation_hold input budget landing ref digest = Inr (Some x) \<Longrightarrow> \<exists>y. x = Hold y"
  by (auto simp: continuation_hold_def result_bind_Inr split: option.splits if_splits)

lemma admit_Allow:
  assumes "admit input budget landing ref digest = Allow d"
  shows "allow_budget d = Some budget" and "landingPolicy d = Some landing"
    and "liveUsageMode input = None \<or> liveUsageMode input = Some LiveIncremental \<or> \<not> hasLiveCeiling budget \<or>
      finalOnlyUsage d \<noteq> None"
    and "finalOnlyUsage d = final_only_grant (req_policy input) (req_role input) digest"
  using assms by (auto simp: admit_def hold_def Let_def split: if_splits)

lemma resolve_Allow:
  assumes "resolveExecutionBudgetPolicy sha256 stringify input = Inr (Allow d)" "\<not> local_execution input"
  obtains digest budget ref where
    "assertExecutionBudgetPolicyConfig (req_policy input) = Inr ()"
    "js_truthy (js_get (req_policy input) ''landing'')" "js_truthy (role_authority input)"
    "narrowBudget (role_authority input) (requestedBudget input) = Inr budget"
    "continuation_hold input budget (cloneLandingPolicy (js_get (req_policy input) ''landing'')) ref digest = Inr None"
    "admit input budget (cloneLandingPolicy (js_get (req_policy input) ''landing'')) ref digest = Allow d"
proof -
  have "resolve_remote sha256 stringify input = Inr (Allow d)"
    using assms by (auto simp: resolveExecutionBudgetPolicy_def result_bind_Inr hold_def split: if_splits)
  then obtain digest where digest: "executionBudgetPolicyDigest sha256 stringify (req_policy input) = Inr digest"
    and l: "js_truthy (js_get (req_policy input) ''landing'')" and a: "js_truthy (role_authority input)"
    and rest: "result_bind (narrowBudget (role_authority input) (requestedBudget input)) (\<lambda>budget.
        result_bind (continuation_hold input budget (cloneLandingPolicy (js_get (req_policy input) ''landing''))
            (kind_ref input (js_truthy (kind_budget input))) digest) (\<lambda>h.
          Inr (case h of Some x \<Rightarrow> x
             | None \<Rightarrow> admit input budget (cloneLandingPolicy (js_get (req_policy input) ''landing''))
                 (kind_ref input (js_truthy (kind_budget input))) digest))) = Inr (Allow d)"
    by (auto simp: resolve_remote_def Let_def result_bind_Inr hold_def split: if_splits)
  from rest obtain budget h where b: "narrowBudget (role_authority input) (requestedBudget input) = Inr budget"
    and h: "continuation_hold input budget (cloneLandingPolicy (js_get (req_policy input) ''landing''))
        (kind_ref input (js_truthy (kind_budget input))) digest = Inr h"
    and d: "(case h of Some x \<Rightarrow> x
             | None \<Rightarrow> admit input budget (cloneLandingPolicy (js_get (req_policy input) ''landing''))
                 (kind_ref input (js_truthy (kind_budget input))) digest) = Allow d"
    by (auto simp: result_bind_Inr)
  have "h = None" using continuation_hold_Some [of input budget _ _ digest] h d by (cases h) fastforce+
  with h d digest l a b that show ?thesis by (auto simp: executionBudgetPolicyDigest_def result_bind_Inr)
qed

lemma narrowBudget_Inr:
  assumes "narrowBudget authority requested = Inr b"
  shows "b field = (if js_truthy requested then narrow_field (read_budget authority field) (read_budget requested field)
                    else read_budget authority field)"
  using assms by (auto simp: narrowBudget_def result_bind_Inr split: if_splits)

text \<open>\<open>caps b c\<close>: every ceiling of \<open>c\<close> is one of \<open>b\<close>, at most as high.\<close>

definition caps :: "ExecutionBudget \<Rightarrow> ExecutionBudget \<Rightarrow> bool" where
  "caps b c \<longleftrightarrow> (\<forall>field limit. c field = Some limit \<longrightarrow> (\<exists>x. b field = Some x \<and> x \<le> limit))"

lemma narrow_caps:
  "narrow_field a r = Some x \<longleftrightarrow> (a = Some x \<and> r = None) \<or> (a = None \<and> r = Some x) \<or>
     (\<exists>p q. a = Some p \<and> r = Some q \<and> x = min p q)"
  by (auto simp: narrow_field_def split: option.splits)

lemma narrowBudget_caps:
  assumes "narrowBudget authority requested = Inr b"
  shows "caps b (read_budget authority)" and "js_truthy requested \<Longrightarrow> caps b (read_budget requested)"
    and "b field \<noteq> None \<Longrightarrow> read_budget authority field \<noteq> None \<or> read_budget requested field \<noteq> None"
  using narrowBudget_Inr [OF assms]
  by (auto simp: caps_def narrow_field_def split: option.splits if_splits)

lemma valid_policy_landing:
  assumes "assertExecutionBudgetPolicyConfig policy = Inr ()" "js_truthy (js_get policy ''landing'')"
  shows "0 < reserve_ratio (cloneLandingPolicy (js_get policy ''landing''))"
    and "reserve_ratio (cloneLandingPolicy (js_get policy ''landing'')) < 1"
proof -
  have "js_get policy ''landing'' \<noteq> JUndefined" using assms(2) by (auto simp: js_truthy_def)
  with assms(1) have "assertExecutionLandingPolicyConfig (js_get policy ''landing'') ''execution_budget.landing'' = Inr ()"
    by (simp add: assertExecutionBudgetPolicyConfig_def run_checks_Inr del: run_checks.simps)
  then have "proper_fraction (js_get (js_get policy ''landing'') ''reserve_ratio'')"
    by (simp add: assertExecutionLandingPolicyConfig_def run_checks_Inr del: run_checks.simps)
  then show "0 < reserve_ratio (cloneLandingPolicy (js_get policy ''landing''))"
    and "reserve_ratio (cloneLandingPolicy (js_get policy ''landing'')) < 1"
    by (auto simp: proper_fraction_def cloneLandingPolicy_def split: js.splits)
qed

lemma continuation_hold_None:
  assumes "continuation_hold input budget landing ref digest = Inr None"
    and "minimumContinuationTurns input = Some minimum" "budget MaxTurns = Some turns"
  shows "\<exists>a. deriveExecutionLandingTurnAllocation turns (reserve_ratio landing) = Inr a \<and>
    minimum \<le> of_int (reservedTurns a)"
  using assms by (auto simp: continuation_hold_def result_bind_Inr not_less split: if_splits)

section \<open>The guard over a stream\<close>

fun guard_after :: "guard_config \<Rightarrow> StreamLogEvent list \<Rightarrow> LiveExecutionBudgetGuard \<Rightarrow> LiveExecutionBudgetGuard" where
  "guard_after cfg [] g = g"
| "guard_after cfg (e # es) g = guard_after cfg es (fst (observe cfg e g))"

lemma guard_after_append [simp]: "guard_after cfg (xs @ ys) g = guard_after cfg ys (guard_after cfg xs g)"
  by (induction xs arbitrary: g) simp_all

lemma fst_observe:
  "fst (observe cfg e g) =
     (case extractLiveUsageObservation e of None \<Rightarrow> g
      | Some obs \<Rightarrow> if dedupeKey obs \<in> set (seen_keys g) then g else record_observation obs g)"
  by (simp add: observe_def Let_def split: option.split)

text \<open>Induction on the stream: a property of the guard that every new observation preserves.\<close>

lemma guard_after_inv:
  assumes "P g"
    and step: "\<And>g e obs. P g \<Longrightarrow> e \<in> set es \<Longrightarrow> extractLiveUsageObservation e = Some obs \<Longrightarrow>
      dedupeKey obs \<notin> set (seen_keys g) \<Longrightarrow> P (record_observation obs g)"
  shows "P (guard_after cfg es g)"
  using assms
proof (induction es arbitrary: g)
  case (Cons e es)
  have "P (fst (observe cfg e g))"
    using Cons.prems by (auto simp: fst_observe split: option.split)
  then show ?case
    unfolding guard_after.simps by (rule Cons.IH) (use Cons.prems(2) in auto)
qed simp

definition counters_wf :: "LiveUsageCounters \<Rightarrow> bool" where
  "counters_wf c \<longleftrightarrow> 0 \<le> ctr_turns c \<and> 0 \<le> ctr_input c \<and> 0 \<le> ctr_output c \<and> 0 \<le> ctr_cacheRead c \<and>
     0 \<le> ctr_cacheCreation c \<and> 0 \<le> ctr_maxContext c \<and>
     ctr_total c = ctr_input c + ctr_output c + ctr_cacheRead c + ctr_cacheCreation c"

definition counters_le :: "LiveUsageCounters \<Rightarrow> LiveUsageCounters \<Rightarrow> bool" where
  "counters_le c d \<longleftrightarrow> ctr_turns c \<le> ctr_turns d \<and> ctr_input c \<le> ctr_input d \<and> ctr_output c \<le> ctr_output d \<and>
     ctr_cacheRead c \<le> ctr_cacheRead d \<and> ctr_cacheCreation c \<le> ctr_cacheCreation d \<and>
     ctr_total c \<le> ctr_total d \<and> ctr_maxContext c \<le> ctr_maxContext d"

lemma counters_le_refl [simp]: "counters_le c c"
  by (simp add: counters_le_def)

lemma counters_le_trans: "counters_le c d \<Longrightarrow> counters_le d e \<Longrightarrow> counters_le c e"
  by (auto simp: counters_le_def)

lemma applied_delta_nonneg:
  "counts_nonneg (obs_counts obs) \<Longrightarrow> counts_nonneg (applied_delta c obs)"
  by (cases "obs_mode obs") (simp_all add: applied_delta_def snapshotDelta_def counts_nonneg_def)

lemma apply_observation_fields:
  "ctr_turns (apply_observation obs c) = count_turns obs (ctr_turns c)"
  "ctr_input (apply_observation obs c) = ctr_input c + inputTokens (applied_delta c obs)"
  "ctr_output (apply_observation obs c) = ctr_output c + outputTokens (applied_delta c obs)"
  "ctr_cacheRead (apply_observation obs c) = ctr_cacheRead c + cacheReadTokens (applied_delta c obs)"
  "ctr_cacheCreation (apply_observation obs c) = ctr_cacheCreation c + cacheCreationTokens (applied_delta c obs)"
  "ctr_total (apply_observation obs c) = ctr_input (apply_observation obs c) + ctr_output (apply_observation obs c) +
     ctr_cacheRead (apply_observation obs c) + ctr_cacheCreation (apply_observation obs c)"
  "ctr_maxContext (apply_observation obs c) =
     (if obs_mode obs = Incremental then max (ctr_maxContext c) (contextTokens obs) else ctr_maxContext c)"
  by (simp_all add: apply_observation_def addCounters_def Let_def)

lemma count_turns_ge: "turns \<le> count_turns obs turns"
  by (auto simp: count_turns_def Let_def split: option.split)

lemma apply_observation_wf:
  assumes "counters_wf c" "counts_nonneg (obs_counts obs)" "0 \<le> contextTokens obs"
  shows "counters_wf (apply_observation obs c) \<and> counters_le c (apply_observation obs c)"
proof -
  have "counts_nonneg (applied_delta c obs)" using applied_delta_nonneg assms(2) by blast
  with assms(1,3) count_turns_ge [of "ctr_turns c" obs] show ?thesis
    by (auto simp: counters_wf_def counters_le_def apply_observation_fields counts_nonneg_def)
qed

definition guard_wf :: "LiveExecutionBudgetGuard \<Rightarrow> bool" where
  "guard_wf g \<longleftrightarrow> counters_wf (counters g) \<and> distinct (seen_keys g) \<and>
     length (seen_keys g) = measurableEvents g \<and> incrementalUsageEvents g \<le> measurableEvents g \<and>
     consecutiveCacheReadEvents g \<le> measurableEvents g \<and> (measurableEvents g = 0 \<longrightarrow> counters g = ZERO_COUNTERS)"

lemma new_guard_wf: "guard_wf new_guard"
  by (simp add: guard_wf_def new_guard_def ZERO_COUNTERS_def counters_wf_def)

lemma record_observation_wf:
  assumes "guard_wf g" "extractLiveUsageObservation e = Some obs" "dedupeKey obs \<notin> set (seen_keys g)"
  shows "guard_wf (record_observation obs g) \<and> counters_le (counters g) (counters (record_observation obs g))"
proof -
  from apply_observation_wf [of "counters g" obs] observation_nonneg [OF assms(2)] assms(1)
  have "counters_wf (apply_observation obs (counters g)) \<and> counters_le (counters g) (apply_observation obs (counters g))"
    by (simp add: guard_wf_def)
  with assms show ?thesis by (auto simp: guard_wf_def record_observation_def js_add_def)
qed

lemma guard_after_wf: "guard_wf g \<Longrightarrow> guard_wf (guard_after cfg es g)"
  using guard_after_inv [of guard_wf] record_observation_wf by blast

lemma guard_after_le:
  assumes "guard_wf g"
  shows "counters_le (counters g) (counters (guard_after cfg es g))"
proof -
  have "guard_wf (guard_after cfg es g) \<and> counters_le (counters g) (counters (guard_after cfg es g))"
  proof (rule guard_after_inv [of "\<lambda>h. guard_wf h \<and> counters_le (counters g) (counters h)"])
    show "guard_wf g \<and> counters_le (counters g) (counters g)" using assms by simp
  next
    fix h e obs
    assume "guard_wf h \<and> counters_le (counters g) (counters h)" "extractLiveUsageObservation e = Some obs"
      "dedupeKey obs \<notin> set (seen_keys h)"
    then show "guard_wf (record_observation obs h) \<and> counters_le (counters g) (counters (record_observation obs h))"
      using record_observation_wf counters_le_trans by blast
  qed
  then show ?thesis by simp
qed

section \<open>Decisions\<close>

lemma exceeded_reasons_Nil_iff:
  "exceeded_reasons cs = [] \<longleftrightarrow> (\<forall>(limit, actual, label) \<in> set cs. \<forall>l. limit = Some l \<longrightarrow> of_int actual \<le> l)"
  by (induction cs rule: exceeded_reasons.induct) (auto split: option.split)

definition over_budget :: "ExecutionBudget \<Rightarrow> LiveUsageCounters \<Rightarrow> bool" where
  "over_budget budget c \<longleftrightarrow> exceeded_reasons (budget_checks budget c) \<noteq> []"

lemma over_budget_iff:
  "over_budget budget c \<longleftrightarrow> (\<exists>(limit, actual, label) \<in> set (budget_checks budget c). \<exists>l. limit = Some l \<and> l < of_int actual)"
  unfolding over_budget_def exceeded_reasons_Nil_iff by (fastforce simp: not_le)

lemma over_budget_fields:
  "over_budget budget c \<longleftrightarrow> (\<exists>l. budget MaxTurns = Some l \<and> l < of_int (ctr_turns c)) \<or>
     (\<exists>l. budget MaxInputTokens = Some l \<and> l < of_int (ctr_input c)) \<or>
     (\<exists>l. budget MaxOutputTokens = Some l \<and> l < of_int (ctr_output c)) \<or>
     (\<exists>l. budget MaxCacheReadTokens = Some l \<and> l < of_int (ctr_cacheRead c)) \<or>
     (\<exists>l. budget MaxCacheCreationTokens = Some l \<and> l < of_int (ctr_cacheCreation c)) \<or>
     (\<exists>l. budget MaxTokens = Some l \<and> l < of_int (ctr_total c)) \<or>
     (\<exists>l. budget MaxContextTokens = Some l \<and> l < of_int (ctr_maxContext c))"
  unfolding over_budget_iff budget_checks_def by simp

lemma less_of_int_mono: "(l :: rat) < of_int a \<Longrightarrow> a \<le> b \<Longrightarrow> l < of_int b"
  by (meson less_le_trans of_int_le_iff)

lemma over_budget_mono: "over_budget budget c \<Longrightarrow> counters_le c d \<Longrightarrow> over_budget budget d"
  unfolding over_budget_fields counters_le_def by (elim disjE exE conjE) (use less_of_int_mono in blast)+

definition nonneg_budget :: "ExecutionBudget \<Rightarrow> bool" where
  "nonneg_budget budget \<longleftrightarrow> (\<forall>field l. budget field = Some l \<longrightarrow> 0 \<le> l)"

lemma over_budget_measured:
  assumes "guard_wf g" "nonneg_budget budget" "over_budget budget (counters g)"
  shows "measurableEvents g \<noteq> 0"
proof
  assume "measurableEvents g = 0"
  with assms(1) have "counters g = ZERO_COUNTERS" by (simp add: guard_wf_def)
  with assms(2,3) show False
    unfolding over_budget_fields nonneg_budget_def by (auto simp: ZERO_COUNTERS_def not_less [symmetric])
qed

lemma decision_over:
  assumes "guard_wf g" "nonneg_budget (guard_budget cfg)" "over_budget (guard_budget cfg) (counters g)"
  shows "\<exists>d. decision cfg g st obs delta = Inr d \<and> dec_state d = Exceeded"
  using over_budget_measured [OF assms] assms(3)
  by (auto simp: decision_def landing_part_def over_budget_def decide_def split: option.split)

lemma decision_Exceeded:
  assumes "decision cfg g st obs delta = Inr d" "dec_state d = Exceeded" "st \<noteq> Exceeded"
  shows "over_budget (guard_budget cfg) (counters g)"
  using assms by (auto simp: decision_def result_bind_Inr over_budget_def decide_def split: if_splits)

lemma observe_decision:
  "\<exists>st obs delta. st \<noteq> Exceeded \<and> snd (observe cfg e g) = decision cfg (fst (observe cfg e g)) st obs delta"
  by (cases "extractLiveUsageObservation e") (auto simp: observe_def Let_def)

text \<open>
  C14 Exceeded is permanent: once a decision says that the budget is exceeded, every later
  decision of the same guard says so, whatever events arrive and in whatever order; in
  particular a later event can neither raise an error nor report landing.
\<close>

theorem exceeded_is_permanent:
  assumes "nonneg_budget (guard_budget cfg)"
    and "snd (observe cfg e (guard_after cfg es new_guard)) = Inr d" and "dec_state d = Exceeded"
  shows "\<exists>d'. snd (observe cfg e' (guard_after cfg (es @ e # es') new_guard)) = Inr d' \<and> dec_state d' = Exceeded"
proof -
  define g where "g = guard_after cfg (es @ [e]) new_guard"
  define h where "h = guard_after cfg (es @ e # es' @ [e']) new_guard"
  have g: "g = fst (observe cfg e (guard_after cfg es new_guard))" by (simp add: g_def)
  have h: "h = guard_after cfg (es' @ [e']) g" by (simp add: h_def g_def)
  have wf: "guard_wf g" "guard_wf h" unfolding g_def h_def by (rule guard_after_wf [OF new_guard_wf])+
  from observe_decision [of cfg e "guard_after cfg es new_guard"] assms(2)
  obtain st obs delta where "st \<noteq> Exceeded" "decision cfg g st obs delta = Inr d" unfolding g by metis
  with assms(3) have "over_budget (guard_budget cfg) (counters g)" using decision_Exceeded by blast
  moreover have "counters_le (counters g) (counters h)" unfolding h by (rule guard_after_le [OF wf(1)])
  ultimately have over: "over_budget (guard_budget cfg) (counters h)" by (rule over_budget_mono)
  have "h = fst (observe cfg e' (guard_after cfg (es @ e # es') new_guard))" by (simp add: h_def)
  with observe_decision [of cfg e' "guard_after cfg (es @ e # es') new_guard"] decision_over [OF wf(2) assms(1) over]
  show ?thesis by auto
qed

section \<open>Reordered and redelivered events\<close>

definition observations :: "StreamLogEvent list \<Rightarrow> LiveUsageObservation set" where
  "observations es = {obs. \<exists>e \<in> set es. extractLiveUsageObservation e = Some obs}"

text \<open>The guard has folded exactly the observations of \<open>S\<close>, all of them incremental.\<close>

definition tally :: "LiveExecutionBudgetGuard \<Rightarrow> LiveUsageObservation set \<Rightarrow> bool" where
  "tally g S \<longleftrightarrow> finite S \<and> set (seen_keys g) = dedupeKey ` S \<and>
     ctr_input (counters g) = (\<Sum>obs\<in>S. inputTokens (obs_counts obs)) \<and>
     ctr_output (counters g) = (\<Sum>obs\<in>S. outputTokens (obs_counts obs)) \<and>
     ctr_cacheRead (counters g) = (\<Sum>obs\<in>S. cacheReadTokens (obs_counts obs)) \<and>
     ctr_cacheCreation (counters g) = (\<Sum>obs\<in>S. cacheCreationTokens (obs_counts obs)) \<and>
     ctr_total (counters g) = ctr_input (counters g) + ctr_output (counters g) + ctr_cacheRead (counters g) +
       ctr_cacheCreation (counters g) \<and>
     ctr_maxContext (counters g) = Max (insert 0 (contextTokens ` S))"

lemma tally_new: "tally new_guard {}"
  by (simp add: tally_def new_guard_def ZERO_COUNTERS_def)

lemma tally_record:
  assumes "tally g S" "obs \<notin> S" "obs_mode obs = Incremental"
  shows "tally (record_observation obs g) (insert obs S)"
proof -
  from assms(1) have fin: "finite S" by (simp add: tally_def)
  have delta: "applied_delta (counters g) obs = obs_counts obs" using assms(3) by (simp add: applied_delta_def)
  have "Max (insert 0 (insert (contextTokens obs) (contextTokens ` S))) =
      max (Max (insert 0 (contextTokens ` S))) (contextTokens obs)"
    using fin by (subst insert_commute) (simp add: max.commute)
  with assms fin show ?thesis
    by (simp add: tally_def record_observation_def apply_observation_fields delta)
qed

lemma tally_observe:
  assumes "tally g S" "extractLiveUsageObservation e = Some obs" "obs_mode obs = Incremental"
    and "inj_on dedupeKey Q" "S \<subseteq> Q" "obs \<in> Q"
  shows "tally (fst (observe cfg e g)) (insert obs S)"
proof (cases "obs \<in> S")
  case True
  with assms(1) have "dedupeKey obs \<in> set (seen_keys g)" by (simp add: tally_def)
  with assms(1,2) True show ?thesis by (simp add: fst_observe insert_absorb)
next
  case False
  with assms(4,5,6) have "dedupeKey obs \<notin> dedupeKey ` S" by (auto dest: inj_onD)
  with assms(1) have "dedupeKey obs \<notin> set (seen_keys g)" by (simp add: tally_def)
  with tally_record [OF assms(1) False assms(3)] assms(2) show ?thesis by (simp add: fst_observe)
qed

lemma tally_after:
  assumes "inj_on dedupeKey Q" "\<forall>obs \<in> Q. obs_mode obs = Incremental"
  shows "tally g S \<Longrightarrow> S \<subseteq> Q \<Longrightarrow> observations es \<subseteq> Q \<Longrightarrow> tally (guard_after cfg es g) (S \<union> observations es)"
proof (induction es arbitrary: g S)
  case Nil
  then show ?case by (simp add: observations_def)
next
  case (Cons e es)
  show ?case
  proof (cases "extractLiveUsageObservation e")
    case None
    then have "observations (e # es) = observations es" "fst (observe cfg e g) = g"
      by (auto simp: observations_def fst_observe)
    with Cons show ?thesis by simp
  next
    case (Some obs)
    then have split: "observations (e # es) = insert obs (observations es)" by (auto simp: observations_def)
    with Cons.prems have "obs \<in> Q" by simp
    with assms Some Cons.prems have "tally (fst (observe cfg e g)) (insert obs S)"
      by (intro tally_observe [of g S e obs Q]) simp_all
    from Cons.IH [OF this] Cons.prems split \<open>obs \<in> Q\<close> show ?thesis by simp
  qed
qed

text \<open>
  Usage is what was observed: for provider calls whose identities are consistent, the token
  totals and the largest context depend only on the set of observations, however the events are
  ordered, repeated or mixed with events that measure nothing.
\<close>

theorem usage_order_independent:
  assumes "inj_on dedupeKey (observations es)" and "\<forall>obs \<in> observations es. obs_mode obs = Incremental"
    and "observations es' = observations es"
  shows "(counters (guard_after cfg es new_guard))\<lparr>ctr_turns := 0\<rparr> =
    (counters (guard_after cfg es' new_guard))\<lparr>ctr_turns := 0\<rparr>"
proof -
  have "tally (guard_after cfg es new_guard) (observations es)"
    using tally_after [OF assms(1,2) tally_new, of es] by simp
  moreover have "tally (guard_after cfg es' new_guard) (observations es)"
    using tally_after [OF assms(1,2) tally_new, of es'] assms(3) by simp
  ultimately show ?thesis
    by (intro LiveUsageCounters.equality) (simp_all add: tally_def)
qed

section \<open>Persistence\<close>

text \<open>
  Restart: a guard restored from its exported state goes on exactly as if it had never
  stopped, whatever happened before and whatever follows.
\<close>

theorem guard_restart:
  "guard_after cfg es' (restore_guard (exportState (guard_after cfg es new_guard))) =
   guard_after cfg (es @ es') new_guard"
proof -
  have "distinct (seen_keys (guard_after cfg es new_guard))"
    using guard_after_wf [OF new_guard_wf] by (simp add: guard_wf_def)
  then have "restore_guard (exportState (guard_after cfg es new_guard)) = guard_after cfg es new_guard"
    by (simp add: restore_guard_def exportState_def js_set_of_id)
  then show ?thesis by simp
qed

section \<open>Admission\<close>

text \<open>
  C15 A request only narrows: the budget of an allowed remote execution keeps every ceiling of
  the owner's policy for its role and of the request, none of them raised, and invents none.
\<close>

theorem request_only_narrows:
  assumes "resolveExecutionBudgetPolicy sha256 stringify input = Inr (Allow d)" and "\<not> local_execution input"
  shows "\<exists>b. allow_budget d = Some b \<and> caps b (read_budget (role_authority input)) \<and>
    (js_truthy (requestedBudget input) \<longrightarrow> caps b (read_budget (requestedBudget input))) \<and>
    (\<forall>field. b field \<noteq> None \<longrightarrow> read_budget (role_authority input) field \<noteq> None \<or>
       read_budget (requestedBudget input) field \<noteq> None)"
  using assms
proof (rule resolve_Allow)
  fix digest budget ref
  assume "narrowBudget (role_authority input) (requestedBudget input) = Inr budget"
    "admit input budget (cloneLandingPolicy (js_get (req_policy input) ''landing'')) ref digest = Allow d"
  then show ?thesis using narrowBudget_caps admit_Allow(1) by blast
qed

text \<open>
  Admission fails closed: a remote execution is allowed only under a policy that passes every
  check, with a landing reserve strictly between nothing and everything, with an owner's
  wall-clock grant when the provider cannot meter live against a live ceiling, and with the
  continuation turns it asked for guaranteed when its turns are capped.
\<close>

theorem admission_fails_closed:
  assumes "resolveExecutionBudgetPolicy sha256 stringify input = Inr (Allow d)" and "\<not> local_execution input"
  shows "assertExecutionBudgetPolicyConfig (req_policy input) = Inr () \<and>
    (\<exists>b landing. allow_budget d = Some b \<and> landingPolicy d = Some landing \<and>
      0 < reserve_ratio landing \<and> reserve_ratio landing < 1 \<and>
      (liveUsageMode input = None \<or> liveUsageMode input = Some LiveIncremental \<or> \<not> hasLiveCeiling b \<or>
       finalOnlyUsage d \<noteq> None) \<and>
      (\<forall>minimum turns. minimumContinuationTurns input = Some minimum \<longrightarrow> b MaxTurns = Some turns \<longrightarrow>
        (\<exists>a. deriveExecutionLandingTurnAllocation turns (reserve_ratio landing) = Inr a \<and>
           minimum \<le> of_int (reservedTurns a))))"
  using assms
proof (rule resolve_Allow)
  fix digest budget ref
  assume valid: "assertExecutionBudgetPolicyConfig (req_policy input) = Inr ()"
    "js_truthy (js_get (req_policy input) ''landing'')"
    and c: "continuation_hold input budget (cloneLandingPolicy (js_get (req_policy input) ''landing'')) ref digest = Inr None"
    and a: "admit input budget (cloneLandingPolicy (js_get (req_policy input) ''landing'')) ref digest = Allow d"
  from valid_policy_landing [OF valid] admit_Allow [OF a] valid(1) continuation_hold_None [OF c]
  show ?thesis by blast
qed

section \<open>The final verdict\<close>

text \<open>The amount consumed of each budget field, when there is measured evidence of it.\<close>

definition measured_amount ::
    "TokenUsage option \<Rightarrow> TaskCost option \<Rightarrow> LiveBudgetDecision option \<Rightarrow> BillingMode option \<Rightarrow> BudgetField \<Rightarrow> rat option" where
  "measured_amount usage cost live billingMode field =
     (case field of
        MaxUsd \<Rightarrow> consumed_usd cost usage billingMode
      | MaxTokens \<Rightarrow> map_option (\<lambda>u. of_int (total_tokens u)) (measured_usage usage)
      | MaxInputTokens \<Rightarrow> map_option (\<lambda>u. of_int (use_input u)) (measured_usage usage)
      | MaxOutputTokens \<Rightarrow> map_option (\<lambda>u. of_int (use_output u)) (measured_usage usage)
      | MaxCacheReadTokens \<Rightarrow> map_option (\<lambda>u. of_int (or_zero (use_cacheRead u))) (measured_usage usage)
      | MaxCacheCreationTokens \<Rightarrow> map_option (\<lambda>u. of_int (or_zero (use_cacheCreation u))) (measured_usage usage)
      | MaxTurns \<Rightarrow> map_option (\<lambda>d. of_int (ctr_turns (dec_counters d))) (measured_decision live)
      | MaxContextTokens \<Rightarrow> map_option (\<lambda>d. of_int (ctr_maxContext (dec_counters d))) (measured_decision live))"

definition enforced :: "BillingMode option \<Rightarrow> BudgetField \<Rightarrow> bool" where
  "enforced billingMode field \<longleftrightarrow>
     field \<noteq> MaxUsd \<or> billingMode \<notin> {Some Subscription, Some FreeTier, Some LocalBilling}"

lemma is_over_ceiling [simp]:
  "is_over (ceiling_check l a u label) \<longleftrightarrow> (\<exists>x y. l = Some x \<and> a = Some y \<and> x < y)"
  by (auto simp: ceiling_check_def split: option.split)

lemma is_missing_ceiling [simp]:
  "is_missing (ceiling_check l a u label) \<longleftrightarrow> l \<noteq> None \<and> a = None"
  by (auto simp: ceiling_check_def split: option.split)

lemma ex_field:
  "(\<exists>field. P field) \<longleftrightarrow> P MaxTokens \<or> P MaxInputTokens \<or> P MaxOutputTokens \<or> P MaxCacheReadTokens \<or>
     P MaxCacheCreationTokens \<or> P MaxTurns \<or> P MaxContextTokens \<or> P MaxUsd"
proof
  assume "\<exists>field. P field"
  then obtain field where "P field" by blast
  then show "P MaxTokens \<or> P MaxInputTokens \<or> P MaxOutputTokens \<or> P MaxCacheReadTokens \<or>
     P MaxCacheCreationTokens \<or> P MaxTurns \<or> P MaxContextTokens \<or> P MaxUsd"
    by (cases field) simp_all
qed blast

lemma some_check_over:
  "list_ex is_over (execution_checks budget usage cost live billingMode) \<longleftrightarrow>
   (\<exists>field. \<exists>l a. enforced billingMode field \<and> budget field = Some l \<and>
      measured_amount usage cost live billingMode field = Some a \<and> l < a)"
proof -
  have usd: "is_over (usd_check (budget MaxUsd) (consumed_usd cost usage billingMode) billingMode) \<longleftrightarrow>
     (\<exists>l a. enforced billingMode MaxUsd \<and> budget MaxUsd = Some l \<and>
       measured_amount usage cost live billingMode MaxUsd = Some a \<and> l < a)"
    by (auto simp: usd_check_def enforced_def measured_amount_def)
  show ?thesis
    unfolding ex_field execution_checks_def Let_def
    by (simp add: usd) (simp add: enforced_def measured_amount_def)
qed

lemma some_check_missing:
  "list_ex is_missing (execution_checks budget usage cost live billingMode) \<longleftrightarrow>
   (\<exists>field. enforced billingMode field \<and> budget field \<noteq> None \<and>
      measured_amount usage cost live billingMode field = None)"
proof -
  have usd: "is_missing (usd_check (budget MaxUsd) (consumed_usd cost usage billingMode) billingMode) \<longleftrightarrow>
     (enforced billingMode MaxUsd \<and> budget MaxUsd \<noteq> None \<and>
       measured_amount usage cost live billingMode MaxUsd = None)"
    by (auto simp: usd_check_def enforced_def measured_amount_def)
  show ?thesis
    unfolding ex_field execution_checks_def Let_def
    by (simp add: usd) (simp add: enforced_def measured_amount_def)
qed

text \<open>
  The verdict is exact and never trusts missing evidence: with some ceiling set, an
  execution is exceeded exactly when a measured amount passes an enforced ceiling, unknown
  exactly when none does but an enforced ceiling has no measured amount, and otherwise within.
\<close>

theorem verdict_exact:
  assumes "has_any_ceiling (Some b)"
  shows "verdict_state (evaluateExecutionBudget (Some b) usage cost live billingMode) =
    (if \<exists>field l a. enforced billingMode field \<and> b field = Some l \<and>
          measured_amount usage cost live billingMode field = Some a \<and> l < a then VExceeded
     else if \<exists>field. enforced billingMode field \<and> b field \<noteq> None \<and>
          measured_amount usage cost live billingMode field = None then VUnknown
     else VWithin)"
  using assms by (simp add: evaluateExecutionBudget_def Let_def some_check_over some_check_missing)

text \<open>
  A fractional turn ceiling breaks the guard: two and a half turns pass the policy's and the
  admission's checks, but with a landing policy the guard cannot decide about any event: it
  throws a policy error from inside the run.
\<close>

theorem fractional_turns_throw:
  "\<exists>budget. assertBudget budget path = Inr () \<and> assertLiveUsageBudgetSupport budget True executor False = Inr () \<and>
     snd (observe \<lparr>guard_budget = read_budget budget, guard_landing = Some (1 / 10)\<rparr> (plain LText JNull) new_guard) =
       Inl (BudgetPolicyInvalid ''maxTurns must be a non-negative integer'')"
proof (intro exI conjI)
  let ?b = "JObj [(''maxTurns'', JNum (5 / 2))]"
  show "assertBudget ?b path = Inr ()"
    by (simp add: assertBudget_def assertKnownKeys_def BUDGET_FIELDS_def nonneg_number_def require_def)
  show "assertLiveUsageBudgetSupport ?b True executor False = Inr ()"
    by (simp add: assertLiveUsageBudgetSupport_def assertExecutionBudgetShape_def check_budget_entry_def
        BUDGET_FIELDS_def nonneg_number_def is_number_def)
  have f: "\<lfloor>5 / 2 :: rat\<rfloor> = 2" by (simp add: floor_eq_iff)
  have b: "read_budget ?b = (\<lambda>f. if f = MaxTurns then Some (5 / 2) else None)"
  proof
    fix f
    show "read_budget ?b f = (if f = MaxTurns then Some (5 / 2) else None)"
      by (cases f) (simp_all add: read_budget_def)
  qed
  show "snd (observe \<lparr>guard_budget = read_budget ?b, guard_landing = Some (1 / 10)\<rparr> (plain LText JNull) new_guard) =
       Inl (BudgetPolicyInvalid ''maxTurns must be a non-negative integer'')"
    unfolding b
    by (simp add: observe_def extractLiveUsageObservation_def plain_def asRecord_def isPlainObject_def decision_def
        landing_part_def budget_checks_def new_guard_def ZERO_COUNTERS_def landing_threshold_def
        deriveExecutionLandingTurnAllocation_def require_def f)
qed

section \<open>Witnesses\<close>

definition call_event :: "string \<Rightarrow> rat \<Rightarrow> StreamLogEvent" where
  "call_event i n = plain LUsage (JObj [(''id'', JStr i), (''usage'', JObj [(''input_tokens'', JNum n)])])"

definition token_budget :: "rat \<Rightarrow> ExecutionBudget" where
  "token_budget n = (\<lambda>field. if field = MaxTokens then Some n else None)"

theorem exceeded_is_permanent_witness:
  "\<exists>d. snd (observe \<lparr>guard_budget = token_budget 10, guard_landing = None\<rparr> (call_event ''b'' 1)
     (guard_after \<lparr>guard_budget = token_budget 10, guard_landing = None\<rparr> ([] @ call_event ''a'' 20 # []) new_guard)) = Inr d \<and>
     dec_state d = Exceeded"
proof -
  define cfg where "cfg = \<lparr>guard_budget = token_budget 10, guard_landing = None\<rparr>"
  have "(case snd (observe cfg (call_event ''a'' 20) (guard_after cfg [] new_guard)) of
      Inl _ \<Rightarrow> WithinBudget | Inr d \<Rightarrow> dec_state d) = Exceeded" unfolding cfg_def by code_simp
  then obtain d where d: "snd (observe cfg (call_event ''a'' 20) (guard_after cfg [] new_guard)) = Inr d"
    "dec_state d = Exceeded" by (auto split: sum.splits)
  have "nonneg_budget (guard_budget cfg)" by (simp add: cfg_def nonneg_budget_def token_budget_def)
  from exceeded_is_permanent [OF this d] show ?thesis unfolding cfg_def .
qed

theorem verdict_exact_witness:
  "verdict_state (evaluateExecutionBudget (Some (token_budget 10)) None None None None) = VUnknown"
proof -
  have c: "has_any_ceiling (Some (token_budget 10))"
    by (simp add: has_any_ceiling_def BUDGET_FIELDS_def token_budget_def)
  have m: "measured_amount None None None None MaxTokens = None"
    by (simp add: measured_amount_def measured_usage_def)
  have "\<not> (\<exists>field l a. enforced None field \<and> token_budget 10 field = Some l \<and>
      measured_amount None None None None field = Some a \<and> l < a)"
    using m by (auto simp: token_budget_def split: if_splits)
  note e1 = this
  have e2: "\<exists>field. enforced None field \<and> token_budget 10 field \<noteq> None \<and>
      measured_amount None None None None field = None"
    using m by (intro exI [of _ MaxTokens]) (simp add: enforced_def token_budget_def)
  show ?thesis unfolding verdict_exact [OF c] using e1 e2 by (simp only: if_True if_False simp_thms)
qed

theorem usage_order_independent_witness:
  "ctr_total (counters (guard_after \<lparr>guard_budget = token_budget 10, guard_landing = None\<rparr>
     [call_event ''a'' 2, call_event ''b'' 3, call_event ''a'' 2] new_guard)) = 5"
proof -
  define cfg where "cfg = \<lparr>guard_budget = token_budget 10, guard_landing = None\<rparr>"
  define es where "es = [call_event ''a'' 2, call_event ''b'' 3]"
  define es' where "es' = [call_event ''a'' 2, call_event ''b'' 3, call_event ''a'' 2]"
  have key: "map (map_option dedupeKey \<circ> extractLiveUsageObservation) es = [Some ''call:a'', Some ''call:b'']"
    "map (map_option obs_mode \<circ> extractLiveUsageObservation) es = [Some Incremental, Some Incremental]"
    unfolding es_def by code_simp+
  then obtain a b where o: "extractLiveUsageObservation (call_event ''a'' 2) = Some a"
    "extractLiveUsageObservation (call_event ''b'' 3) = Some b" "dedupeKey a = ''call:a''" "dedupeKey b = ''call:b''"
    "obs_mode a = Incremental" "obs_mode b = Incremental"
    by (auto simp: es_def)
  have obs: "observations es = {a, b}" "observations es' = observations es"
    by (auto simp: observations_def es_def es'_def o)
  have "inj_on dedupeKey (observations es)" "\<forall>x \<in> observations es. obs_mode x = Incremental"
    using o by (auto simp: obs)
  from arg_cong [OF usage_order_independent [OF this obs(2), of cfg], of ctr_total]
  have "ctr_total (counters (guard_after cfg es new_guard)) = ctr_total (counters (guard_after cfg es' new_guard))" by simp
  moreover have "ctr_total (counters (guard_after cfg es new_guard)) = 5" unfolding cfg_def es_def by code_simp
  ultimately show ?thesis unfolding cfg_def es'_def by simp
qed

definition sample_policy :: js where
  "sample_policy = JObj
     [(''roles'', JObj [(''worker'', JObj [(''default'', JObj [(''maxTokens'', JNum 100), (''maxTurns'', JNum 10)])])]),
      (''landing'', JObj [(''reserve_ratio'', JNum (1 / 4))])]"

definition sample_request :: budget_request where
  "sample_request = \<lparr>req_policy = sample_policy, req_role = Worker, req_taskKind = None,
     requestedBudget = JObj [(''maxTokens'', JNum 50)], local_execution = False,
     minimumContinuationTurns = Some 3, liveUsageMode = Some LiveIncremental\<rparr>"

definition allowed :: "ExecutionBudgetPolicyDecision budget_result \<Rightarrow> ExecutionBudgetPolicyAllowDecision option" where
  "allowed r = (case r of Inl _ \<Rightarrow> None | Inr (Allow d) \<Rightarrow> Some d | Inr (Hold _) \<Rightarrow> None)"

lemma sample_request_allowed:
  obtains d where "resolveExecutionBudgetPolicy (\<lambda>s. s) (\<lambda>v. []) sample_request = Inr (Allow d)"
    "map_option (\<lambda>b. b MaxTokens) (allow_budget d) = Some (Some 50)"
proof -
  have "map_option (\<lambda>d. map_option (\<lambda>b. b MaxTokens) (allow_budget d))
      (allowed (resolveExecutionBudgetPolicy (\<lambda>s. s) (\<lambda>v. []) sample_request)) = Some (Some (Some 50))" by code_simp
  then show ?thesis using that
    by (auto simp: allowed_def split: sum.splits ExecutionBudgetPolicyDecision.splits)
qed

theorem request_only_narrows_witness:
  "\<exists>d b. resolveExecutionBudgetPolicy (\<lambda>s. s) (\<lambda>v. []) sample_request = Inr (Allow d) \<and>
     allow_budget d = Some b \<and> b MaxTokens = Some 50 \<and> caps b (read_budget (role_authority sample_request))"
proof -
  obtain d where d: "resolveExecutionBudgetPolicy (\<lambda>s. s) (\<lambda>v. []) sample_request = Inr (Allow d)"
    "map_option (\<lambda>b. b MaxTokens) (allow_budget d) = Some (Some 50)" by (rule sample_request_allowed)
  have "\<not> local_execution sample_request" by (simp add: sample_request_def)
  from request_only_narrows [OF d(1) this] d show ?thesis by auto
qed

theorem admission_fails_closed_witness:
  "\<exists>d. resolveExecutionBudgetPolicy (\<lambda>s. s) (\<lambda>v. []) sample_request = Inr (Allow d) \<and>
     assertExecutionBudgetPolicyConfig sample_policy = Inr ()"
proof -
  obtain d where d: "resolveExecutionBudgetPolicy (\<lambda>s. s) (\<lambda>v. []) sample_request = Inr (Allow d)"
    by (rule sample_request_allowed)
  have l: "\<not> local_execution sample_request" "req_policy sample_request = sample_policy" by (simp_all add: sample_request_def)
  from admission_fails_closed [OF d l(1)] d l(2) show ?thesis by auto
qed

end
