(* ===== verification/Condition_Evaluator.thy ===== *)
theory Condition_Evaluator
  imports Usage_Event
begin

text \<open>
  \<open>src/core/condition-evaluator.ts\<close>: conditions over nested values. Data and condition are
  separate dynamic values, so \<open>===\<close> never holds between objects or arrays. Two things of
  the language are arguments: a property that a value inherits rather than owns, and the
  decimal text of a finite number. A thrown \<open>TypeError\<close> is \<open>None\<close>.
\<close>

section \<open>Language operations\<close>

text \<open>\<open>JSON.stringify\<close>: \<open>None\<close> is \<open>undefined\<close>.\<close>

definition hex_digit :: "nat \<Rightarrow> char" where
  "hex_digit n = (if n < 10 then char_of (48 + n) else char_of (87 + n))"

definition json_char :: "char \<Rightarrow> string" where
  "json_char c =
     (if c = CHR 0x22 then [CHR 0x5C, CHR 0x22] else if c = CHR 0x5C then [CHR 0x5C, CHR 0x5C]
      else if c = CHR 0x08 then [CHR 0x5C, CHR ''b''] else if c = CHR 0x0C then [CHR 0x5C, CHR ''f'']
      else if c = CHR 0x0A then [CHR 0x5C, CHR ''n''] else if c = CHR 0x0D then [CHR 0x5C, CHR ''r'']
      else if c = CHR 0x09 then [CHR 0x5C, CHR ''t'']
      else if (of_char c :: nat) < 32
      then [CHR 0x5C, CHR ''u'', CHR ''0'', CHR ''0'', hex_digit (of_char c div 16), hex_digit (of_char c mod 16)]
      else [c])"

definition json_quote :: "string \<Rightarrow> string" where
  "json_quote s = [CHR 0x22] @ concat (map json_char s) @ [CHR 0x22]"

fun json_text :: "(rat \<Rightarrow> string) \<Rightarrow> js \<Rightarrow> string option"
  and json_elements :: "(rat \<Rightarrow> string) \<Rightarrow> js list \<Rightarrow> string list"
  and json_entries :: "(rat \<Rightarrow> string) \<Rightarrow> (string \<times> js) list \<Rightarrow> string list" where
  "json_text num JUndefined = None"
| "json_text num JNull = Some ''null''"
| "json_text num (JBool b) = Some (if b then ''true'' else ''false'')"
| "json_text num (JNum q) = Some (num q)"
| "json_text num (JInfinity b) = Some ''null''"
| "json_text num JNaN = Some ''null''"
| "json_text num (JStr s) = Some (json_quote s)"
| "json_text num (JArr vs) = Some (''['' @ js_join '','' (json_elements num vs) @ '']'')"
| "json_text num (JObj es) = Some (''{'' @ js_join '','' (json_entries num es) @ ''}'')"
| "json_elements num [] = []"
| "json_elements num (v # vs) = (case json_text num v of None \<Rightarrow> ''null'' | Some t \<Rightarrow> t) # json_elements num vs"
| "json_entries num [] = []"
| "json_entries num ((k, v) # es) =
     (case json_text num v of None \<Rightarrow> json_entries num es
      | Some t \<Rightarrow> (json_quote k @ '':'' @ t) # json_entries num es)"

definition strict_equal :: "js \<Rightarrow> js \<Rightarrow> bool" where
  "strict_equal a b =
     (case a of JArr _ \<Rightarrow> False | JObj _ \<Rightarrow> False | JNaN \<Rightarrow> False | _ \<Rightarrow> a = b)"

text \<open>\<open>Array.prototype.includes\<close> differs from \<open>===\<close> in finding NaN.\<close>

definition same_value :: "js \<Rightarrow> js \<Rightarrow> bool" where
  "same_value a b \<longleftrightarrow> strict_equal a b \<or> a = JNaN \<and> b = JNaN"

definition is_object :: "js \<Rightarrow> bool" where
  "is_object v = (case v of JArr _ \<Rightarrow> True | JObj _ \<Rightarrow> True | _ \<Rightarrow> False)"

fun nth_property :: "js list \<Rightarrow> nat \<Rightarrow> string \<Rightarrow> js option" where
  "nth_property [] n k = None"
| "nth_property (v # vs) n k = (if k = digits n then Some v else nth_property vs (Suc n) k)"

definition own_property :: "js \<Rightarrow> string \<Rightarrow> js option" where
  "own_property v k =
     (case v of
        JObj es \<Rightarrow> map_of es k
      | JArr vs \<Rightarrow> if k = ''length'' then Some (JNum (of_int (int (length vs)))) else nth_property vs 0 k
      | _ \<Rightarrow> None)"

definition read_property :: "(js \<Rightarrow> string \<Rightarrow> js) \<Rightarrow> js \<Rightarrow> string \<Rightarrow> js" where
  "read_property inherited v k = (case own_property v k of None \<Rightarrow> inherited v k | Some x \<Rightarrow> x)"

section \<open>The evaluator\<close>

fun walk :: "(js \<Rightarrow> string \<Rightarrow> js) \<Rightarrow> js \<Rightarrow> string list \<Rightarrow> js" where
  "walk inherited current [] = current"
| "walk inherited current (part # parts) =
     (if \<not> is_object current then JUndefined
      else walk inherited (read_property inherited current part) parts)"

definition resolvePath :: "(js \<Rightarrow> string \<Rightarrow> js) \<Rightarrow> js \<Rightarrow> string \<Rightarrow> js" where
  "resolvePath inherited obj path =
     (if obj = JUndefined \<or> obj = JNull \<or> path = [] then JUndefined
      else walk inherited obj (js_split CHR ''.'' path))"

text \<open>Numbers compare as doubles: an infinity is beyond every finite number, NaN compares with none.\<close>

definition number_less :: "js \<Rightarrow> js \<Rightarrow> bool" where
  "number_less a b = (case (a, b) of
       (JNum p, JNum q) \<Rightarrow> p < q
     | (JNum _, JInfinity positive) \<Rightarrow> positive
     | (JInfinity positive, JNum _) \<Rightarrow> \<not> positive
     | (JInfinity positive, JInfinity positive') \<Rightarrow> \<not> positive \<and> positive'
     | _ \<Rightarrow> False)"

definition number_le :: "js \<Rightarrow> js \<Rightarrow> bool" where
  "number_le a b = (case (a, b) of
       (JNum p, JNum q) \<Rightarrow> p \<le> q
     | (JNum _, JInfinity positive) \<Rightarrow> positive
     | (JInfinity positive, JNum _) \<Rightarrow> \<not> positive
     | (JInfinity positive, JInfinity positive') \<Rightarrow> positive \<longrightarrow> positive'
     | _ \<Rightarrow> False)"

definition has_name :: "(js \<Rightarrow> string \<Rightarrow> js) \<Rightarrow> js \<Rightarrow> js \<Rightarrow> bool" where
  "has_name inherited item operand \<longleftrightarrow>
     strict_equal item operand \<or>
     is_object item \<and> (own_property item ''name'' \<noteq> None \<or> inherited item ''name'' \<noteq> JUndefined) \<and>
       strict_equal (read_property inherited item ''name'') operand"

definition contains :: "(js \<Rightarrow> string \<Rightarrow> js) \<Rightarrow> js \<Rightarrow> js \<Rightarrow> bool" where
  "contains inherited actual operand =
     (case actual of
        JArr items \<Rightarrow> list_ex (\<lambda>item. has_name inherited item operand) items
      | JStr s \<Rightarrow> (case operand of JStr t \<Rightarrow> js_includes s t | _ \<Rightarrow> False)
      | _ \<Rightarrow> False)"

definition operator_holds :: "(js \<Rightarrow> string \<Rightarrow> js) \<Rightarrow> js \<Rightarrow> string \<Rightarrow> js \<Rightarrow> bool" where
  "operator_holds inherited actual op operand =
     (if op = ''$gt'' then number_less operand actual
      else if op = ''$gte'' then number_le operand actual
      else if op = ''$lt'' then number_less actual operand
      else if op = ''$lte'' then number_le actual operand
      else if op = ''$contains'' then contains inherited actual operand
      else if op = ''$in'' then (case operand of JArr vs \<Rightarrow> list_ex (\<lambda>v. same_value v actual) vs | _ \<Rightarrow> False)
      else if op = ''$not'' then \<not> strict_equal actual operand
      else if op = ''$exists'' then
        \<not> (operand = JBool True \<and> actual = JUndefined) \<and> \<not> (operand = JBool False \<and> actual \<noteq> JUndefined)
      else False)"

definition evaluateOperators :: "(js \<Rightarrow> string \<Rightarrow> js) \<Rightarrow> js \<Rightarrow> (string \<times> js) list \<Rightarrow> bool" where
  "evaluateOperators inherited actual ops = list_all (\<lambda>(op, operand). operator_holds inherited actual op operand) ops"

definition is_operator :: "string \<Rightarrow> bool" where
  "is_operator k \<longleftrightarrow> js_starts_with k ''$''"

definition matchValue :: "(js \<Rightarrow> string \<Rightarrow> js) \<Rightarrow> (rat \<Rightarrow> string) \<Rightarrow> js \<Rightarrow> js \<Rightarrow> bool" where
  "matchValue inherited num actual expected =
     (case expected of
        JObj ops \<Rightarrow>
          if ops \<noteq> [] \<and> list_all (\<lambda>(k, _). is_operator k) ops then evaluateOperators inherited actual ops
          else json_text num actual = json_text num expected
      | JArr _ \<Rightarrow> json_text num actual = json_text num expected
      | _ \<Rightarrow> strict_equal actual expected)"

text \<open>The own entries of a condition that is not an object: none, characters, or elements.\<close>

fun index_entries :: "nat \<Rightarrow> js list \<Rightarrow> (string \<times> js) list" where
  "index_entries n [] = []"
| "index_entries n (v # vs) = (digits n, v) # index_entries (Suc n) vs"

definition flat_entries :: "js \<Rightarrow> (string \<times> js) list" where
  "flat_entries v =
     (case v of JStr s \<Rightarrow> index_entries 0 (map (\<lambda>c. JStr [c]) s) | JArr vs \<Rightarrow> index_entries 0 vs | _ \<Rightarrow> [])"

text \<open>
  The keys of such entries are numerals, never \<open>$and\<close> or \<open>$or\<close>: they are all matched
  against paths, without recursion.
\<close>

definition eval_flat :: "(js \<Rightarrow> string \<Rightarrow> js) \<Rightarrow> (rat \<Rightarrow> string) \<Rightarrow> js \<Rightarrow> (string \<times> js) list \<Rightarrow> bool" where
  "eval_flat inherited num data es =
     list_all (\<lambda>(k, v). matchValue inherited num (resolvePath inherited data k) v) es"

fun evaluateCondition :: "(js \<Rightarrow> string \<Rightarrow> js) \<Rightarrow> (rat \<Rightarrow> string) \<Rightarrow> js \<Rightarrow> js \<Rightarrow> bool option"
  and eval_entries :: "(js \<Rightarrow> string \<Rightarrow> js) \<Rightarrow> (rat \<Rightarrow> string) \<Rightarrow> js \<Rightarrow> (string \<times> js) list \<Rightarrow> bool option"
  and eval_expected :: "(js \<Rightarrow> string \<Rightarrow> js) \<Rightarrow> (rat \<Rightarrow> string) \<Rightarrow> js \<Rightarrow> string \<Rightarrow> js \<Rightarrow> bool option"
  and eval_all :: "(js \<Rightarrow> string \<Rightarrow> js) \<Rightarrow> (rat \<Rightarrow> string) \<Rightarrow> js \<Rightarrow> js list \<Rightarrow> bool option"
  and eval_any :: "(js \<Rightarrow> string \<Rightarrow> js) \<Rightarrow> (rat \<Rightarrow> string) \<Rightarrow> js \<Rightarrow> js list \<Rightarrow> bool option" where
  "evaluateCondition inherited num data condition =
     (case condition of
        JUndefined \<Rightarrow> None
      | JNull \<Rightarrow> None
      | JObj es \<Rightarrow> eval_entries inherited num data es
      | _ \<Rightarrow> Some (eval_flat inherited num data (flat_entries condition)))"
| "eval_entries inherited num data [] = Some True"
| "eval_entries inherited num data ((key, expected) # es) =
     (case eval_expected inherited num data key expected of
        Some True \<Rightarrow> eval_entries inherited num data es
      | r \<Rightarrow> r)"
| "eval_expected inherited num data key expected =
     (if key = ''$and'' then (case expected of JArr subs \<Rightarrow> eval_all inherited num data subs | _ \<Rightarrow> Some False)
      else if key = ''$or'' then (case expected of JArr subs \<Rightarrow> eval_any inherited num data subs | _ \<Rightarrow> Some False)
      else Some (matchValue inherited num (resolvePath inherited data key) expected))"
| "eval_all inherited num data [] = Some True"
| "eval_all inherited num data (sub # subs) =
     (case evaluateCondition inherited num data sub of Some True \<Rightarrow> eval_all inherited num data subs | r \<Rightarrow> r)"
| "eval_any inherited num data [] = Some False"
| "eval_any inherited num data (sub # subs) =
     (case evaluateCondition inherited num data sub of Some False \<Rightarrow> eval_any inherited num data subs | r \<Rightarrow> r)"

end
