(* ===== verification/Condition_Meaning.thy ===== *)
theory Condition_Meaning
  imports Condition_Evaluator
begin

text \<open>
  What a condition means, stated without the evaluator: which value a path names, which numbers
  are below which, what each operator asks of a value, and what a whole condition asks of the
  data. The lemmas here tie each notion to the function of the evaluator that decides it.
\<close>

section \<open>What a path names\<close>

text \<open>A value has its own properties, and those it inherits where it has none of its own.\<close>

inductive own :: "js \<Rightarrow> string \<Rightarrow> js \<Rightarrow> bool" where
  entry: "map_of es k = Some x \<Longrightarrow> own (JObj es) k x"
| element: "n < length vs \<Longrightarrow> own (JArr vs) (digits n) (vs ! n)"
| elements: "own (JArr vs) ''length'' (JNum (of_nat (length vs)))"

inductive property :: "(js \<Rightarrow> string \<Rightarrow> js) \<Rightarrow> js \<Rightarrow> string \<Rightarrow> js \<Rightarrow> bool" for inherited where
  own: "own v k x \<Longrightarrow> property inherited v k x"
| inherited: "\<nexists>x. own v k x \<Longrightarrow> property inherited v k (inherited v k)"

text \<open>
  A path is cut at its dots and followed part by part; a part of something that is neither an
  object nor an array names \<open>undefined\<close>, and so does the empty path.
\<close>

inductive follows :: "(js \<Rightarrow> string \<Rightarrow> js) \<Rightarrow> js \<Rightarrow> string list \<Rightarrow> js \<Rightarrow> bool" for inherited where
  here: "follows inherited v [] v"
| nowhere: "(\<nexists>es. v = JObj es) \<Longrightarrow> (\<nexists>vs. v = JArr vs) \<Longrightarrow> follows inherited v (k # ks) JUndefined"
| part: "v = JObj es \<or> v = JArr vs \<Longrightarrow> property inherited v k x \<Longrightarrow> follows inherited x ks y \<Longrightarrow>
    follows inherited v (k # ks) y"

inductive names :: "(js \<Rightarrow> string \<Rightarrow> js) \<Rightarrow> js \<Rightarrow> string \<Rightarrow> js \<Rightarrow> bool" for inherited data where
  empty: "names inherited data [] JUndefined"
| parts: "path \<noteq> [] \<Longrightarrow> path = js_join ''.'' ks \<Longrightarrow> ks \<noteq> [] \<Longrightarrow> (\<And>k. k \<in> set ks \<Longrightarrow> CHR ''.'' \<notin> set k) \<Longrightarrow>
    follows inherited data ks x \<Longrightarrow> names inherited data path x"

lemma digits_value: "foldl (\<lambda>a c. 10 * a + (of_char c - 48)) 0 (digits n) = n"
proof (induction n rule: digits.induct)
  case (1 n)
  have one: "(of_char (char_of (48 + m) :: char) :: nat) - 48 = m" if "m < 10" for m :: nat
    using that by simp
  show ?case
  proof (cases "n < 10")
    case True
    with one [of n] show ?thesis by (simp add: digits.simps [of n])
  next
    case False
    with 1 one [of "n mod 10"] show ?thesis by (simp add: digits.simps [of n])
  qed
qed

lemma digits_inject: "digits m = digits n \<longleftrightarrow> m = n"
  by (metis digits_value)

lemma digits_small: "c \<in> set (digits n) \<Longrightarrow> (of_char c :: nat) < 58"
proof (induction n rule: digits.induct)
  case (1 n)
  show ?case
  proof (cases "n < 10")
    case True
    with 1(2) show ?thesis by (simp add: digits.simps [of n])
  next
    case False
    with 1(2) consider "c \<in> set (digits (n div 10))" | "c = char_of (48 + n mod 10)"
      by (subst (asm) digits.simps) auto
    then show ?thesis using 1(1) False by cases auto
  qed
qed

lemma digits_not_length: "digits n \<noteq> ''length''"
proof
  assume "digits n = ''length''"
  then have "CHR ''l'' \<in> set (digits n)" by simp
  from digits_small [OF this] show False by simp
qed

lemma nth_property_iff: "nth_property vs m k = Some x \<longleftrightarrow> (\<exists>n < length vs. k = digits (m + n) \<and> x = vs ! n)"
proof (induction vs arbitrary: m)
  case (Cons v vs)
  have later: "k \<noteq> digits m" if "k = digits (Suc m + n)" for n using that by (simp add: digits_inject)
  show ?case
  proof (cases "k = digits m")
    case True
    then have "k = digits (m + n) \<longleftrightarrow> n = 0" for n by (simp add: digits_inject)
    with True show ?thesis by auto
  next
    case False
    have "(\<exists>n < length (v # vs). k = digits (m + n) \<and> x = (v # vs) ! n)
        \<longleftrightarrow> (\<exists>n < length vs. k = digits (Suc m + n) \<and> x = vs ! n)"
      using False by (auto simp: less_Suc_eq_0_disj)
    with False Cons show ?thesis by simp
  qed
qed simp

lemma own_property_iff: "own_property v k = Some x \<longleftrightarrow> own v k x"
proof (cases v)
  case (JArr vs)
  show ?thesis
    using nth_property_iff [of vs 0 k x] digits_not_length
    by (auto simp: JArr own_property_def own.simps)
qed (auto simp: own_property_def own.simps)

lemma property_iff: "property inherited v k x \<longleftrightarrow> x = read_property inherited v k"
proof (cases "own_property v k")
  case None
  then have "\<nexists>y. own v k y" by (simp flip: own_property_iff)
  with None show ?thesis by (auto simp: property.simps read_property_def)
next
  case (Some y)
  then have "own v k z \<longleftrightarrow> z = y" for z by (auto simp flip: own_property_iff)
  with Some show ?thesis by (auto simp: property.simps read_property_def)
qed

lemma is_object_iff: "is_object v \<longleftrightarrow> (\<exists>es. v = JObj es) \<or> (\<exists>vs. v = JArr vs)"
  by (cases v) (simp_all add: is_object_def)

lemma follows_iff: "follows inherited v ks x \<longleftrightarrow> x = walk inherited v ks"
proof (induction ks arbitrary: v)
  case Nil
  show ?case by (auto simp: follows.simps [of _ _ "[]"])
next
  case (Cons k ks)
  show ?case
    by (subst follows.simps) (auto simp: is_object_iff property_iff Cons)
qed

lemma names_iff: "names inherited data path x \<longleftrightarrow> x = resolvePath inherited data path"
proof (cases "path = []")
  case True
  then show ?thesis by (auto simp: names.simps resolvePath_def)
next
  case False
  have parts: "path = js_join ''.'' ks \<and> ks \<noteq> [] \<and> (\<forall>k \<in> set ks. CHR ''.'' \<notin> set k) \<longleftrightarrow> ks = js_split CHR ''.'' path" for ks
    using js_split_join [of ks "CHR ''.''"] js_split_no_sep [of _ "CHR ''.''" path] by auto
  have "names inherited data path x \<longleftrightarrow> follows inherited data (js_split CHR ''.'' path) x"
    using False parts unfolding names.simps [of _ _ path] by metis
  moreover have "walk inherited data (js_split CHR ''.'' path) = JUndefined" if "data = JUndefined \<or> data = JNull"
    using that by (cases "js_split CHR ''.'' path") (auto simp: is_object_def)
  ultimately show ?thesis using False by (auto simp: follows_iff resolvePath_def)
qed

section \<open>What an operator asks\<close>

text \<open>
  A scalar is anything but an object and an array. Two scalars are the same value or not; NaN is
  not even the same as itself.
\<close>

definition scalar :: "js \<Rightarrow> bool" where
  "scalar v \<longleftrightarrow> (\<nexists>es. v = JObj es) \<and> (\<nexists>vs. v = JArr vs)"

definition same :: "js \<Rightarrow> js \<Rightarrow> bool" where
  "same a b \<longleftrightarrow> scalar a \<and> a \<noteq> JNaN \<and> a = b"

text \<open>A number that is not NaN is given by the rationals below it.\<close>

inductive below :: "js \<Rightarrow> rat set \<Rightarrow> bool" where
  finite: "below (JNum q) {..<q}"
| highest: "below (JInfinity True) UNIV"
| lowest: "below (JInfinity False) {}"

inductive asks :: "(js \<Rightarrow> string \<Rightarrow> js) \<Rightarrow> js \<Rightarrow> string \<Rightarrow> js \<Rightarrow> bool" for inherited actual where
  gt: "below actual A \<Longrightarrow> below operand B \<Longrightarrow> B \<subset> A \<Longrightarrow> asks inherited actual ''$gt'' operand"
| gte: "below actual A \<Longrightarrow> below operand B \<Longrightarrow> B \<subseteq> A \<Longrightarrow> asks inherited actual ''$gte'' operand"
| lt: "below actual A \<Longrightarrow> below operand B \<Longrightarrow> A \<subset> B \<Longrightarrow> asks inherited actual ''$lt'' operand"
| lte: "below actual A \<Longrightarrow> below operand B \<Longrightarrow> A \<subseteq> B \<Longrightarrow> asks inherited actual ''$lte'' operand"
| contains_item: "actual = JArr items \<Longrightarrow> item \<in> set items \<Longrightarrow> same item operand \<Longrightarrow>
    asks inherited actual ''$contains'' operand"
| contains_named: "actual = JArr items \<Longrightarrow> item \<in> set items \<Longrightarrow> \<not> scalar item \<Longrightarrow>
    own item ''name'' x \<or> property inherited item ''name'' x \<and> x \<noteq> JUndefined \<Longrightarrow> same x operand \<Longrightarrow>
    asks inherited actual ''$contains'' operand"
| contains_text: "actual = JStr (before @ t @ after) \<Longrightarrow> asks inherited actual ''$contains'' (JStr t)"
| among: "v \<in> set vs \<Longrightarrow> scalar v \<Longrightarrow> v = actual \<Longrightarrow> asks inherited actual ''$in'' (JArr vs)"
| differs: "\<not> same actual operand \<Longrightarrow> asks inherited actual ''$not'' operand"
| given: "operand = JBool True \<Longrightarrow> actual \<noteq> JUndefined \<Longrightarrow> asks inherited actual ''$exists'' operand"
| absent: "operand = JBool False \<Longrightarrow> actual = JUndefined \<Longrightarrow> asks inherited actual ''$exists'' operand"
| no_question: "(\<nexists>b. operand = JBool b) \<Longrightarrow> asks inherited actual ''$exists'' operand"

lemma scalar_iff: "scalar v \<longleftrightarrow> \<not> is_object v"
  by (auto simp: scalar_def is_object_iff)

lemma same_iff: "same a b \<longleftrightarrow> strict_equal a b"
  by (cases a) (auto simp: same_def scalar_def strict_equal_def)

lemma below_iff: "below a A \<longleftrightarrow> (case a of JNum q \<Rightarrow> A = {..<q} | JInfinity positive \<Rightarrow> A = (if positive then UNIV else {})
    | _ \<Rightarrow> False)"
  by (auto simp: below.simps split: js.splits)

lemma cuts: "{..<p :: rat} \<noteq> UNIV" "{..<p :: rat} \<subset> UNIV" "\<not> UNIV \<subseteq> {..<p :: rat}" "\<not> UNIV \<subset> {..<p :: rat}"
    "{} \<noteq> {..<p :: rat}" "{} \<subset> {..<p :: rat}" "\<not> {..<p :: rat} \<subset> {}" "\<not> {..<p :: rat} \<subseteq> {}"
proof -
  have "p \<notin> {..<p}" "p - 1 \<in> {..<p}" by simp_all
  then show "{..<p :: rat} \<noteq> UNIV" "{..<p :: rat} \<subset> UNIV" "\<not> UNIV \<subseteq> {..<p :: rat}" "\<not> UNIV \<subset> {..<p :: rat}"
    "{} \<noteq> {..<p :: rat}" "{} \<subset> {..<p :: rat}" "\<not> {..<p :: rat} \<subset> {}" "\<not> {..<p :: rat} \<subseteq> {}"
    by (blast | simp)+
qed

lemma number_less_simps:
  "number_less (JNum p) b = (case b of JNum q \<Rightarrow> p < q | JInfinity positive \<Rightarrow> positive | _ \<Rightarrow> False)"
  "number_less (JInfinity s) b = (case b of JNum q \<Rightarrow> \<not> s | JInfinity positive \<Rightarrow> \<not> s \<and> positive | _ \<Rightarrow> False)"
  "number_le (JNum p) b = (case b of JNum q \<Rightarrow> p \<le> q | JInfinity positive \<Rightarrow> positive | _ \<Rightarrow> False)"
  "number_le (JInfinity s) b = (case b of JNum q \<Rightarrow> \<not> s | JInfinity positive \<Rightarrow> s \<longrightarrow> positive | _ \<Rightarrow> False)"
  by (simp_all add: number_less_def number_le_def)

lemma below_less:
  "(\<exists>A B. below a A \<and> below b B \<and> A \<subset> B) \<longleftrightarrow> number_less a b"
  "(\<exists>A B. below a A \<and> below b B \<and> A \<subseteq> B) \<longleftrightarrow> number_le a b"
proof -
  have other: "\<not> number_less a b \<and> \<not> number_le a b \<and> (\<forall>A. \<not> below a A)"
    if "\<forall>q. a \<noteq> JNum q" "\<forall>s. a \<noteq> JInfinity s"
    using that(1) that(2) [rule_format, of True] that(2) [rule_format, of False]
    by (cases a) (simp_all add: number_less_def number_le_def below_iff)
  show "(\<exists>A B. below a A \<and> below b B \<and> A \<subset> B) \<longleftrightarrow> number_less a b"
    "(\<exists>A B. below a A \<and> below b B \<and> A \<subseteq> B) \<longleftrightarrow> number_le a b"
  proof (atomize (full))
    consider q where "a = JNum q" | "a = JInfinity True" | "a = JInfinity False"
      | "\<forall>q. a \<noteq> JNum q" "\<forall>s. a \<noteq> JInfinity s" by (metis (full_types))
    then show "((\<exists>A B. below a A \<and> below b B \<and> A \<subset> B) = number_less a b)
        \<and> ((\<exists>A B. below a A \<and> below b B \<and> A \<subseteq> B) = number_le a b)"
      by cases (use other in blast | (cases b; force simp: below_iff number_less_simps cuts lessThan_strict_subset_iff))+
  qed
qed

inductive_simps asks_simps:
  "asks inherited actual ''$gt'' operand" "asks inherited actual ''$gte'' operand"
  "asks inherited actual ''$lt'' operand" "asks inherited actual ''$lte'' operand"
  "asks inherited actual ''$contains'' operand" "asks inherited actual ''$in'' operand"
  "asks inherited actual ''$not'' operand" "asks inherited actual ''$exists'' operand"

lemma starts_iff: "js_includes s t \<longleftrightarrow> (\<exists>before after. s = before @ t @ after)"
  by (auto simp: js_includes_def sublist_def)

lemma contains_iff: "asks inherited actual ''$contains'' operand \<longleftrightarrow> contains inherited actual operand"
proof -
  have named: "(\<exists>x. (own item ''name'' x \<or> property inherited item ''name'' x \<and> x \<noteq> JUndefined) \<and> same x operand)
      \<longleftrightarrow> (own_property item ''name'' \<noteq> None \<or> inherited item ''name'' \<noteq> JUndefined)
        \<and> strict_equal (read_property inherited item ''name'') operand" for item
    by (cases "own_property item ''name''")
      (auto simp: property_iff read_property_def same_iff simp flip: own_property_iff)
  have "asks inherited actual ''$contains'' operand \<longleftrightarrow>
      (\<exists>items. actual = JArr items \<and> (\<exists>item \<in> set items. same item operand \<or> \<not> scalar item \<and>
        (\<exists>x. (own item ''name'' x \<or> property inherited item ''name'' x \<and> x \<noteq> JUndefined) \<and> same x operand)))
      \<or> (\<exists>before t after. actual = JStr (before @ t @ after) \<and> operand = JStr t)"
    unfolding asks_simps by blast
  also have "\<dots> \<longleftrightarrow> contains inherited actual operand"
    unfolding named unfolding same_iff scalar_iff
    by (cases actual; cases operand) (auto simp: contains_def has_name_def list_ex_iff starts_iff)
  finally show ?thesis .
qed

lemma asks_iff: "asks inherited actual op operand \<longleftrightarrow> operator_holds inherited actual op operand"
proof -
  consider "op = ''$gt''" | "op = ''$gte''" | "op = ''$lt''" | "op = ''$lte''" | "op = ''$contains''" | "op = ''$in''"
    | "op = ''$not''" | "op = ''$exists''"
    | "op \<notin> {''$gt'', ''$gte'', ''$lt'', ''$lte'', ''$contains'', ''$in'', ''$not'', ''$exists''}" by fast
  then show ?thesis
  proof cases
    case 1
    have "operator_holds inherited actual ''$gt'' operand = number_less operand actual" by (simp add: operator_holds_def)
    then show ?thesis unfolding 1 asks_simps below_less [symmetric] by metis
  next
    case 2
    have "operator_holds inherited actual ''$gte'' operand = number_le operand actual" by (simp add: operator_holds_def)
    then show ?thesis unfolding 2 asks_simps below_less [symmetric] by metis
  next
    case 3
    have "operator_holds inherited actual ''$lt'' operand = number_less actual operand" by (simp add: operator_holds_def)
    then show ?thesis unfolding 3 asks_simps below_less [symmetric] by metis
  next
    case 4
    have "operator_holds inherited actual ''$lte'' operand = number_le actual operand" by (simp add: operator_holds_def)
    then show ?thesis unfolding 4 asks_simps below_less [symmetric] by metis
  next
    case 5
    then show ?thesis by (simp add: operator_holds_def contains_iff)
  next
    case 6
    have "same_value v actual \<longleftrightarrow> scalar v \<and> v = actual" for v
      by (cases v) (auto simp: same_value_def strict_equal_def scalar_def)
    with 6 show ?thesis by (cases operand) (auto simp: operator_holds_def asks_simps list_ex_iff)
  next
    case 7
    then show ?thesis by (simp add: operator_holds_def asks_simps same_iff)
  next
    case 8
    then show ?thesis by (cases operand) (auto simp: operator_holds_def asks_simps)
  next
    case 9
    then show ?thesis by (subst asks.simps) (simp add: operator_holds_def)
  qed
qed

section \<open>What a value is compared with\<close>

text \<open>
  An object whose keys all start with a dollar sign is a set of operators, and all of them are
  asked. Any other object, and an array, is compared by its JSON text; a scalar is the value.
\<close>

definition operators :: "js \<Rightarrow> (string \<times> js) list \<Rightarrow> bool" where
  "operators v ops \<longleftrightarrow> v = JObj ops \<and> ops \<noteq> [] \<and> (\<forall>(k, x) \<in> set ops. \<exists>rest. k = CHR ''$'' # rest)"

inductive agrees :: "(js \<Rightarrow> string \<Rightarrow> js) \<Rightarrow> (rat \<Rightarrow> string) \<Rightarrow> js \<Rightarrow> js \<Rightarrow> bool"
  for inherited num actual where
  scalar: "same actual expected \<Longrightarrow> agrees inherited num actual expected"
| operators: "operators expected ops \<Longrightarrow>
    (\<And>op operand. (op, operand) \<in> set ops \<Longrightarrow> asks inherited actual op operand) \<Longrightarrow>
    agrees inherited num actual expected"
| literal: "\<not> scalar expected \<Longrightarrow> \<nexists>ops. operators expected ops \<Longrightarrow>
    json_text num actual = json_text num expected \<Longrightarrow> agrees inherited num actual expected"

lemma is_operator_iff: "is_operator k \<longleftrightarrow> (\<exists>rest. k = CHR ''$'' # rest)"
  by (cases k) (auto simp: is_operator_def js_starts_with_def)

lemma operators_JObj: "operators (JObj es) ops \<longleftrightarrow> ops = es \<and> es \<noteq> [] \<and> list_all (\<lambda>(k, _). is_operator k) es"
  by (auto simp: operators_def is_operator_iff list_all_iff)

lemma agrees_iff: "agrees inherited num actual expected \<longleftrightarrow> matchValue inherited num actual expected"
proof (cases "scalar expected")
  case True
  then have "agrees inherited num actual expected \<longleftrightarrow> same actual expected"
    by (auto simp: agrees.simps operators_def scalar_def)
  moreover have "matchValue inherited num actual expected \<longleftrightarrow> strict_equal actual expected"
    using True by (cases expected) (auto simp: matchValue_def scalar_def)
  ultimately show ?thesis by (simp add: same_iff)
next
  case False
  then have "\<not> same actual expected" by (auto simp: same_def)
  with False show ?thesis
    by (cases expected)
      (auto simp: agrees.simps scalar_def matchValue_def operators_JObj operators_def [of "JArr _"]
        evaluateOperators_def asks_iff list_all_iff)
qed

section \<open>The meaning of a condition\<close>

text \<open>
  Every entry of a condition has to hold: all conditions of an \<open>$and\<close>, one of an \<open>$or\<close>, and under
  any other key the value that the path names has to agree. A condition that is not an object has
  the entries that the language enumerates for it.
\<close>

inductive satisfies :: "(js \<Rightarrow> string \<Rightarrow> js) \<Rightarrow> (rat \<Rightarrow> string) \<Rightarrow> js \<Rightarrow> js \<Rightarrow> bool"
  and entry_holds :: "(js \<Rightarrow> string \<Rightarrow> js) \<Rightarrow> (rat \<Rightarrow> string) \<Rightarrow> js \<Rightarrow> string \<Rightarrow> js \<Rightarrow> bool"
  for inherited num data where
  all_entries: "(\<And>k v. (k, v) \<in> set es \<Longrightarrow> entry_holds inherited num data k v) \<Longrightarrow>
    satisfies inherited num data (JObj es)"
| flat: "\<nexists>es. c = JObj es \<Longrightarrow> c \<noteq> JUndefined \<Longrightarrow> c \<noteq> JNull \<Longrightarrow>
    (\<And>k v. (k, v) \<in> set (flat_entries c) \<Longrightarrow> \<exists>x. names inherited data k x \<and> agrees inherited num x v) \<Longrightarrow>
    satisfies inherited num data c"
| every: "(\<And>sub. sub \<in> set subs \<Longrightarrow> satisfies inherited num data sub) \<Longrightarrow>
    entry_holds inherited num data ''$and'' (JArr subs)"
| some: "sub \<in> set subs \<Longrightarrow> satisfies inherited num data sub \<Longrightarrow>
    entry_holds inherited num data ''$or'' (JArr subs)"
| path: "k \<noteq> ''$and'' \<Longrightarrow> k \<noteq> ''$or'' \<Longrightarrow> names inherited data k x \<Longrightarrow> agrees inherited num x v \<Longrightarrow>
    entry_holds inherited num data k v"

inductive_simps satisfies_simps:
  "satisfies inherited num data (JObj es)" "satisfies inherited num data JUndefined"
  "satisfies inherited num data JNull" "satisfies inherited num data (JBool b)"
  "satisfies inherited num data (JNum q)" "satisfies inherited num data (JInfinity b)" "satisfies inherited num data JNaN"
  "satisfies inherited num data (JStr s)" "satisfies inherited num data (JArr vs)"

inductive_simps entry_simps: "entry_holds inherited num data k v"

lemma eval_flat_iff:
  "eval_flat inherited num data es \<longleftrightarrow> (\<forall>k v. (k, v) \<in> set es \<longrightarrow> (\<exists>x. names inherited data k x \<and> agrees inherited num x v))"
  by (auto simp: eval_flat_def list_all_iff names_iff agrees_iff)

lemma entry_and: "entry_holds inherited num data ''$and'' v \<longleftrightarrow>
    (\<exists>subs. v = JArr subs \<and> (\<forall>sub \<in> set subs. satisfies inherited num data sub))"
  by (simp add: entry_simps) blast

lemma entry_or: "entry_holds inherited num data ''$or'' v \<longleftrightarrow>
    (\<exists>subs. v = JArr subs \<and> (\<exists>sub \<in> set subs. satisfies inherited num data sub))"
  by (simp add: entry_simps) blast

lemma entry_path: "k \<noteq> ''$and'' \<Longrightarrow> k \<noteq> ''$or'' \<Longrightarrow>
    entry_holds inherited num data k v \<longleftrightarrow> matchValue inherited num (resolvePath inherited data k) v"
  by (auto simp: entry_simps names_iff agrees_iff)

end
