(* ===== verification/Condition_Correct.thy ===== *)
theory Condition_Correct
  imports Condition_Meaning
begin

text \<open>
  The short-circuiting scan of the evaluator decides the meaning of a condition whenever it
  returns, and it returns on every condition without a null under a connective.
\<close>

declare evaluateCondition.simps [simp del]
declare eval_expected.simps [simp del]

lemma evaluator_sound:
  "\<And>b. evaluateCondition inherited num data c = Some b \<Longrightarrow> b \<longleftrightarrow> satisfies inherited num data c"
  "\<And>b. eval_entries inherited num data es = Some b \<Longrightarrow>
     b \<longleftrightarrow> (\<forall>(k, v) \<in> set es. entry_holds inherited num data k v)"
  "\<And>b. eval_expected inherited num data k v = Some b \<Longrightarrow> b \<longleftrightarrow> entry_holds inherited num data k v"
  "\<And>b. eval_all inherited num data subs = Some b \<Longrightarrow> b \<longleftrightarrow> (\<forall>sub \<in> set subs. satisfies inherited num data sub)"
  "\<And>b. eval_any inherited num data subs = Some b \<Longrightarrow> b \<longleftrightarrow> (\<exists>sub \<in> set subs. satisfies inherited num data sub)"
proof (induction inherited num data c and inherited num data es and inherited num data k v
    and inherited num data subs and inherited num data subs
    rule: evaluateCondition_eval_entries_eval_expected_eval_all_eval_any.induct)
  case (1 inherited num data c)
  show ?case
  proof (cases c)
    case (JObj es)
    with 1(2) have "eval_entries inherited num data es = Some b" by (simp add: evaluateCondition.simps)
    from 1(1) [OF JObj this] JObj show ?thesis by (auto simp: satisfies_simps)
  qed (use 1(2) in \<open>auto simp: evaluateCondition.simps satisfies_simps eval_flat_iff\<close>)
next
  case (3 inherited num data k v es)
  then show ?case by (auto split: option.splits bool.splits)
next
  case (4 inherited num data k v)
  consider "k = ''$and''" | "k = ''$or''" | "k \<noteq> ''$and''" "k \<noteq> ''$or''" by blast
  then show ?case
  proof cases
    case 1
    with 4 show ?thesis by (cases v) (auto simp: eval_expected.simps entry_and)
  next
    case 2
    with 4 show ?thesis by (cases v) (auto simp: eval_expected.simps entry_or)
  next
    case 3
    with 4 show ?thesis by (simp add: eval_expected.simps entry_path)
  qed
next
  case (6 inherited num data sub subs)
  then show ?case by (auto split: option.splits bool.splits)
next
  case (8 inherited num data sub subs)
  then show ?case by (auto split: option.splits bool.splits)
qed simp_all

section \<open>Conditions that return\<close>

text \<open>No null or undefined value stands where a connective expects a condition.\<close>

fun connectives_ok :: "js \<Rightarrow> bool"
  and entries_ok :: "(string \<times> js) list \<Rightarrow> bool"
  and subs_ok :: "js list \<Rightarrow> bool" where
  "connectives_ok c = (case c of JUndefined \<Rightarrow> False | JNull \<Rightarrow> False | JObj es \<Rightarrow> entries_ok es | _ \<Rightarrow> True)"
| "entries_ok [] = True"
| "entries_ok ((k, v) # es) =
     ((k = ''$and'' \<or> k = ''$or'' \<longrightarrow> (case v of JArr subs \<Rightarrow> subs_ok subs | _ \<Rightarrow> True)) \<and> entries_ok es)"
| "subs_ok [] = True"
| "subs_ok (sub # subs) = (connectives_ok sub \<and> subs_ok subs)"

lemma evaluator_returns:
  "connectives_ok c \<Longrightarrow> \<exists>b. evaluateCondition inherited num data c = Some b"
  "entries_ok es \<Longrightarrow> \<exists>b. eval_entries inherited num data es = Some b"
  "k = ''$and'' \<or> k = ''$or'' \<longrightarrow> (case v of JArr subs \<Rightarrow> subs_ok subs | _ \<Rightarrow> True) \<Longrightarrow>
     \<exists>b. eval_expected inherited num data k v = Some b"
  "subs_ok subs \<Longrightarrow> \<exists>b. eval_all inherited num data subs = Some b"
  "subs_ok subs \<Longrightarrow> \<exists>b. eval_any inherited num data subs = Some b"
proof (induction inherited num data c and inherited num data es and inherited num data k v
    and inherited num data subs and inherited num data subs
    rule: evaluateCondition_eval_entries_eval_expected_eval_all_eval_any.induct)
  case (1 inherited num data c)
  then show ?case by (cases c) (simp_all add: evaluateCondition.simps)
next
  case (3 inherited num data k v es)
  from 3(3) have ok: "k = ''$and'' \<or> k = ''$or'' \<longrightarrow> (case v of JArr subs \<Rightarrow> subs_ok subs | _ \<Rightarrow> True)" "entries_ok es"
    by simp_all
  obtain b where b: "eval_expected inherited num data k v = Some b" using 3(1) [OF ok(1)] by blast
  with 3(2) [OF b _ ok(2)] show ?case by (cases b) (auto intro: exI [of _ False])
next
  case (4 inherited num data k v)
  then show ?case by (cases v) (auto simp: eval_expected.simps)
next
  case (6 inherited num data sub subs)
  from 6(3) obtain b where b: "evaluateCondition inherited num data sub = Some b" using 6(1) by auto
  with 6(2) [OF b] 6(3) show ?case by (cases b) (auto intro: exI [of _ False])
next
  case (8 inherited num data sub subs)
  from 8(3) obtain b where b: "evaluateCondition inherited num data sub = Some b" using 8(1) by auto
  with 8(2) [OF b] 8(3) show ?case by (cases b) (auto intro: exI [of _ False])
qed (auto intro: exI [of _ True] exI [of _ False])

section \<open>The properties\<close>

text \<open>
  Conditions that compare with scalars and operators only: the condition and those under its
  connectives are objects, and what a path is compared with is a scalar or an operator object.
\<close>

definition compares_plainly :: "js \<Rightarrow> bool" where
  "compares_plainly v = (case v of JArr _ \<Rightarrow> False
     | JObj ops \<Rightarrow> ops \<noteq> [] \<and> list_all (\<lambda>(k, _). hd k = CHR ''$'' \<and> k \<noteq> []) ops | _ \<Rightarrow> True)"

fun plain :: "js \<Rightarrow> bool"
  and plain_entries :: "(string \<times> js) list \<Rightarrow> bool"
  and plain_subs :: "js list \<Rightarrow> bool" where
  "plain c = (case c of JObj es \<Rightarrow> plain_entries es | _ \<Rightarrow> False)"
| "plain_entries [] = True"
| "plain_entries ((k, v) # es) =
     ((if k = ''$and'' \<or> k = ''$or'' then (case v of JArr subs \<Rightarrow> plain_subs subs | _ \<Rightarrow> True) else compares_plainly v)
      \<and> plain_entries es)"
| "plain_subs [] = True"
| "plain_subs (sub # subs) = (plain sub \<and> plain_subs subs)"

lemma plain_ok:
  "plain c \<Longrightarrow> connectives_ok c" "plain_entries es \<Longrightarrow> entries_ok es" "plain_subs subs \<Longrightarrow> subs_ok subs"
proof (induction c and es and subs rule: plain_plain_entries_plain_subs.induct)
  case (3 k v es)
  then show ?case by (cases v) (auto split: if_splits)
qed (auto split: js.splits)

text \<open>
  C22 The evaluator decides the meaning of a condition: on data of any shape it returns, and it
  returns true exactly when every entry holds. The value that a path names is found by following
  its parts through own and inherited properties, \<open>$gt\<close>, \<open>$gte\<close>, \<open>$lt\<close> and \<open>$lte\<close> compare the
  numbers, infinities included, \<open>$contains\<close> finds an item, the name of an item or a part of a
  text, \<open>$in\<close>, \<open>$not\<close> and \<open>$exists\<close> test a scalar, and an unknown operator holds of nothing. This
  is for conditions that are objects throughout and compare with scalars and operators. An array
  or a nested object to compare with is left out: it is documented as an exact deep match, and
  compared by its JSON text (see \<open>deep_match_key_order\<close>).
\<close>

theorem evaluator_refines_meaning:
  assumes "plain c"
  shows "evaluateCondition inherited num data c = Some (satisfies inherited num data c)"
proof -
  obtain b where b: "evaluateCondition inherited num data c = Some b"
    using evaluator_returns(1) [OF plain_ok(1) [OF assms]] by blast
  with evaluator_sound(1) [OF b] show ?thesis by simp
qed

text \<open>
  A nested match depends on key order: the documented deep match of an object fails on an
  equal object whose keys are in another order, whatever the text of numbers.
\<close>

theorem deep_match_key_order:
  "evaluateCondition inherited num
     (JObj [(''p'', JObj [(''a'', JNull), (''b'', JNull)])]) (JObj [(''p'', JObj [(''a'', JNull), (''b'', JNull)])]) = Some True \<and>
   evaluateCondition inherited num
     (JObj [(''p'', JObj [(''b'', JNull), (''a'', JNull)])]) (JObj [(''p'', JObj [(''a'', JNull), (''b'', JNull)])]) = Some False"
proof -
  have parts: "js_split CHR ''.'' ''p'' = [''p'']" by simp
  have differ: "json_text num (JObj [(''a'', JNull), (''b'', JNull)]) \<noteq> json_text num (JObj [(''b'', JNull), (''a'', JNull)])"
    by (simp add: json_quote_def json_char_def)
  have no_op: "\<not> is_operator ''a''" by (simp add: is_operator_def js_starts_with_def)
  show ?thesis using differ
    by (simp add: evaluateCondition.simps eval_expected.simps resolvePath_def parts is_object_def read_property_def
        own_property_def matchValue_def no_op del: json_text.simps)
qed

section \<open>Witnesses\<close>

theorem evaluator_refines_meaning_witness:
  "satisfies (\<lambda>_ _. JUndefined) (\<lambda>_. []) (JObj [(''n'', JNum 7)])
     (JObj [(''$or'', JArr [JObj [(''n'', JStr ''x'')], JObj [(''n'', JObj [(''$gt'', JNum 5)])]])])"
proof -
  let ?c = "JObj [(''$or'', JArr [JObj [(''n'', JStr ''x'')], JObj [(''n'', JObj [(''$gt'', JNum 5)])]])]"
  have "evaluateCondition (\<lambda>_ _. JUndefined) (\<lambda>_. []) (JObj [(''n'', JNum 7)]) ?c = Some True" by code_simp
  moreover have "plain ?c" by code_simp
  ultimately show ?thesis
    using evaluator_refines_meaning [of ?c "\<lambda>_ _. JUndefined" "\<lambda>_. []" "JObj [(''n'', JNum 7)]"] by simp
qed

end
