(* ===== verification/Access_Policy.thy ===== *)
theory Access_Policy
  imports Condition_Correct Js_Number
begin

text \<open>
  \<open>src/core/rbac.ts\<close>, the scoring part of \<open>src/core/activation-engine.ts\<close> and
  \<open>src/core/policy-engine.ts\<close>, which composes them with the condition evaluator. A
  \<open>TypeError\<close> thrown by a condition is \<open>None\<close>; the messages have the code's dash replaced by
  a hyphen.
\<close>

section \<open>Roles and permissions\<close>

datatype Role = Viewer | Operator | Admin

datatype Permission =
    PRead | PWrite | PExecute | PAdmin | PAudit | PSprintRead | PSprintWrite | PAuditRead | PFlowManage | PTenantAdmin

primrec permission_name :: "Permission \<Rightarrow> string" where
  "permission_name PRead = ''read''" | "permission_name PWrite = ''write''"
| "permission_name PExecute = ''execute''" | "permission_name PAdmin = ''admin''"
| "permission_name PAudit = ''audit''" | "permission_name PSprintRead = ''sprint:read''"
| "permission_name PSprintWrite = ''sprint:write''" | "permission_name PAuditRead = ''audit:read''"
| "permission_name PFlowManage = ''flow:manage''" | "permission_name PTenantAdmin = ''tenant:admin''"

primrec ROLE_LEVEL :: "Role \<Rightarrow> nat" where
  "ROLE_LEVEL Viewer = 1" | "ROLE_LEVEL Operator = 2" | "ROLE_LEVEL Admin = 3"

primrec OWN_PERMISSIONS :: "Role \<Rightarrow> Permission list" where
  "OWN_PERMISSIONS Viewer = [PRead, PSprintRead]"
| "OWN_PERMISSIONS Operator = [PWrite, PExecute, PSprintWrite, PAuditRead, PFlowManage]"
| "OWN_PERMISSIONS Admin = [PAdmin, PAudit, PTenantAdmin]"

fun accumulate :: "Role list \<Rightarrow> Permission js_set \<Rightarrow> (Role \<times> Permission js_set) list" where
  "accumulate [] acc = []"
| "accumulate (role # roles) acc =
     (let acc' = foldl (\<lambda>s p. js_add p s) acc (OWN_PERMISSIONS role) in (role, acc') # accumulate roles acc')"

definition PERMISSION_MATRIX :: "Role \<Rightarrow> Permission js_set" where
  "PERMISSION_MATRIX role = (case map_of (accumulate [Viewer, Operator, Admin] []) role of None \<Rightarrow> [] | Some s \<Rightarrow> s)"

definition valid_role :: "string \<Rightarrow> Role option" where
  "valid_role role = map_of [(''admin'', Admin), (''operator'', Operator), (''viewer'', Viewer)] role"

definition isValidRole :: "string \<Rightarrow> bool" where
  "isValidRole role \<longleftrightarrow> valid_role role \<noteq> None"

definition lower_alnum :: "char \<Rightarrow> bool" where
  "lower_alnum c \<longleftrightarrow> (let n = (of_char c :: nat) in 97 \<le> n \<and> n \<le> 122 \<or> 48 \<le> n \<and> n \<le> 57)"

text \<open>The pattern \<open>^[a-z0-9][a-z0-9-]{0,62}$\<close>.\<close>

definition isValidTenantId :: "string \<Rightarrow> bool" where
  "isValidTenantId i \<longleftrightarrow>
     (case i of [] \<Rightarrow> False
      | c # cs \<Rightarrow> lower_alnum c \<and> length cs \<le> 62 \<and> list_all (\<lambda>d. lower_alnum d \<or> d = CHR ''-'') cs)"

record AuditContext =
  audit_actor :: string
  audit_target :: "string option"

record access_denied_event =
  denied_tenantId :: string
  denied_actor :: string
  denied_target :: string

definition can :: "string \<Rightarrow> Permission \<Rightarrow> string \<Rightarrow> bool" where
  "can role action tenantId \<longleftrightarrow>
     isValidTenantId tenantId \<and>
     (case valid_role role of None \<Rightarrow> False | Some r \<Rightarrow> action \<in> set (PERMISSION_MATRIX r))"

text \<open>With an audit context the check also writes an event when it denies.\<close>

definition can_audited :: "string \<Rightarrow> Permission \<Rightarrow> string \<Rightarrow> AuditContext option \<Rightarrow> bool \<times> access_denied_event list" where
  "can_audited role action tenantId ctx =
     (can role action tenantId,
      (case ctx of
         None \<Rightarrow> []
       | Some a \<Rightarrow> if can role action tenantId then []
           else [\<lparr>denied_tenantId = (if tenantId = [] then ''unknown'' else tenantId), denied_actor = audit_actor a,
                  denied_target = (case audit_target a of None \<Rightarrow> permission_name action | Some t \<Rightarrow> t)\<rparr>]))"

definition enforceRbac :: "string \<Rightarrow> Permission \<Rightarrow> string \<Rightarrow> bool option \<Rightarrow> bool" where
  "enforceRbac role action tenantId config_enabled =
     (if config_enabled \<noteq> Some True then True else can role action tenantId)"

definition principalCan :: "string list \<Rightarrow> string \<Rightarrow> bool" where
  "principalCan permissions required \<longleftrightarrow>
     ''*'' \<in> set permissions \<or> required \<in> set permissions \<or>
     (CHR '':'' \<in> set required \<and>
      (let res = takeWhile (\<lambda>c. c \<noteq> CHR '':'') required; act = drop (length res + 1) required in
       (res @ '':*'') \<in> set permissions \<or> (''*:'' @ act) \<in> set permissions))"

section \<open>Activation\<close>

text \<open>The parts of a task's DNA that rules see; all but the intent are carried as values.\<close>

record TaskDNA =
  intent_primary :: string
  intent_secondary :: "string list"
  intent_confidence :: js
  dna_domains :: js
  dna_operations :: js
  dna_complexity :: js
  dna_scope :: js

record ActivationRule =
  rule_name :: "string option"
  rule_when :: js
  rule_score :: rat

record ExclusionRule =
  exclusion_name :: "string option"
  exclusion_when :: js
  exclusion_reason :: "string option"

record ActivationConfig =
  config_rules :: "ActivationRule list"
  config_exclude :: "ExclusionRule list"
  minScore :: rat

record ActivationResult =
  act_score :: rat
  act_excluded :: bool
  act_matchedRules :: "string list"
  act_excludeReason :: "string option"

record SkillAffinityContext =
  affinity_agentId :: string
  assignedSkills :: "string list option"
  affinity_enabled :: bool

definition taskDNAToRecord :: "TaskDNA \<Rightarrow> js" where
  "taskDNAToRecord dna =
     JObj [(''intent'', JObj [(''primary'', JStr (intent_primary dna)),
                              (''secondary'', JArr (map JStr (intent_secondary dna))),
                              (''confidence'', intent_confidence dna)]),
           (''domains'', dna_domains dna), (''operations'', dna_operations dna),
           (''complexity'', dna_complexity dna), (''scope'', dna_scope dna)]"

definition SKILL_AGENT_AFFINITY_BONUS :: rat where
  "SKILL_AGENT_AFFINITY_BONUS = 3"

definition SKILL_AGENT_MAP :: "(string \<times> string) list" where
  "SKILL_AGENT_MAP =
     [(''frontend-design'', ''frontend-designer''), (''react-specialist'', ''frontend-designer''),
      (''accessibility-expert'', ''accessibility-auditor''), (''security-specialist'', ''security-auditor''),
      (''api-builder'', ''api-builder''), (''graphql-expert'', ''api-builder''),
      (''documentation-writer'', ''doc-writer''), (''docker-expert'', ''devops-engineer''),
      (''devops-engineer'', ''devops-engineer''), (''ci-testing'', ''ci-guardian''),
      (''database-migration'', ''data-engineer''), (''migration-expert'', ''migration-specialist''),
      (''performance-optimizer'', ''performance-analyzer''), (''system-architect'', ''architect'')]"

definition getSkillAgentAffinityBonus :: "string \<Rightarrow> string list option \<Rightarrow> rat" where
  "getSkillAgentAffinityBonus agentId skills =
     (case skills of None \<Rightarrow> 0
      | Some ss \<Rightarrow> if list_ex (\<lambda>s. map_of SKILL_AGENT_MAP s = Some agentId) ss then SKILL_AGENT_AFFINITY_BONUS else 0)"

definition evaluateRuleViaSecondary :: "TaskDNA \<Rightarrow> ActivationRule \<Rightarrow> rat" where
  "evaluateRuleViaSecondary dna rule =
     (case js_get (rule_when rule) ''intent.primary'' of
        JStr s \<Rightarrow> if s \<in> set (intent_secondary dna) then of_int \<lfloor>fl_mult (rule_score rule) (1 / 2)\<rfloor> else 0
      | _ \<Rightarrow> 0)"

type_synonym js_library = "(js \<Rightarrow> string \<Rightarrow> js) \<times> (rat \<Rightarrow> string)"

definition condition_of :: "js_library \<Rightarrow> TaskDNA \<Rightarrow> js \<Rightarrow> bool option" where
  "condition_of lib dna when = evaluateCondition (fst lib) (snd lib) (taskDNAToRecord dna) when"

fun first_exclusion :: "js_library \<Rightarrow> TaskDNA \<Rightarrow> ExclusionRule list \<Rightarrow> ExclusionRule option option" where
  "first_exclusion lib dna [] = Some None"
| "first_exclusion lib dna (x # xs) =
     (case condition_of lib dna (exclusion_when x) of
        None \<Rightarrow> None
      | Some True \<Rightarrow> Some (Some x)
      | Some False \<Rightarrow> first_exclusion lib dna xs)"

definition score_rule ::
    "js_library \<Rightarrow> TaskDNA \<Rightarrow> ActivationRule \<Rightarrow> bool \<Rightarrow> rat \<times> string list \<Rightarrow> rat \<times> string list" where
  "score_rule lib dna rule matched acc =
     (if matched
      then (fl_add (fst acc) (rule_score rule),
            snd acc @ [case rule_name rule of None \<Rightarrow> ''rule(score='' @ snd lib (rule_score rule) @ '')'' | Some n \<Rightarrow> n])
      else let secondary = evaluateRuleViaSecondary dna rule in
        if secondary > 0
        then (fl_add (fst acc) secondary,
              snd acc @ [(case rule_name rule of None \<Rightarrow> ''rule'' | Some n \<Rightarrow> n) @ ''(via-secondary)''])
        else acc)"

fun score_rules ::
    "js_library \<Rightarrow> TaskDNA \<Rightarrow> ActivationRule list \<Rightarrow> rat \<times> string list \<Rightarrow> (rat \<times> string list) option" where
  "score_rules lib dna [] acc = Some acc"
| "score_rules lib dna (rule # rules) acc =
     (case condition_of lib dna (rule_when rule) of
        None \<Rightarrow> None
      | Some matched \<Rightarrow> score_rules lib dna rules (score_rule lib dna rule matched acc))"

definition add_affinity :: "js_library \<Rightarrow> SkillAffinityContext option \<Rightarrow> rat \<times> string list \<Rightarrow> rat \<times> string list" where
  "add_affinity lib affinity acc =
     (case affinity of None \<Rightarrow> acc
      | Some a \<Rightarrow>
          let bonus = getSkillAgentAffinityBonus (affinity_agentId a) (assignedSkills a) in
          if affinity_enabled a \<and> bonus > 0
          then (fl_add (fst acc) bonus,
                snd acc @ [''skill-affinity:'' @ affinity_agentId a @ ''(+'' @ snd lib bonus @ '')''])
          else acc)"

definition evaluateActivation ::
    "js_library \<Rightarrow> TaskDNA \<Rightarrow> ActivationConfig \<Rightarrow> SkillAffinityContext option \<Rightarrow> ActivationResult option" where
  "evaluateActivation lib dna cfg affinity =
     (case first_exclusion lib dna (config_exclude cfg) of
        None \<Rightarrow> None
      | Some (Some x) \<Rightarrow> Some \<lparr>act_score = 0, act_excluded = True, act_matchedRules = [],
          act_excludeReason = Some (case exclusion_reason x of Some r \<Rightarrow> r
            | None \<Rightarrow> (case exclusion_name x of Some n \<Rightarrow> n | None \<Rightarrow> ''Excluded by rule''))\<rparr>
      | Some None \<Rightarrow>
          map_option (\<lambda>acc. let final = add_affinity lib affinity acc in
              \<lparr>act_score = fst final, act_excluded = False, act_matchedRules = snd final, act_excludeReason = None\<rparr>)
            (score_rules lib dna (config_rules cfg) (0, [])))"

section \<open>The policy engine\<close>

datatype PolicyDecisionKind = Permit | Suggest | Park | Deny

record ActivationLayerOutcome =
  layer_score :: rat
  layer_minScore :: rat
  meetsMinScore :: bool
  layer_excluded :: bool
  layer_matchedRules :: "string list"
  layer_excludeReason :: "string option"

record RbacLayerOutcome =
  rbac_allowed :: bool
  rbac_role :: string
  rbac_action :: Permission
  rbac_tenantId :: string

record ConditionLayerOutcome =
  condition_passed :: bool

record PolicyLayers =
  rbac_outcome :: "RbacLayerOutcome option"
  activation_outcome :: "ActivationLayerOutcome option"
  condition_outcome :: "ConditionLayerOutcome option"

record PolicyInput =
  input_rbac :: "(string \<times> Permission \<times> string) option"
  input_activation :: "(TaskDNA \<times> ActivationConfig) option"
  input_condition :: "(js \<times> js) option"

record PolicyDecision =
  policy_kind :: PolicyDecisionKind
  policy_reasons :: "string list"
  policy_layers :: PolicyLayers

definition composeDecision :: "PolicyLayers \<Rightarrow> PolicyDecisionKind" where
  "composeDecision layers =
     (if map_option rbac_allowed (rbac_outcome layers) = Some False then Deny
      else if map_option layer_excluded (activation_outcome layers) = Some True then Deny
      else if map_option condition_passed (condition_outcome layers) = Some False then Park
      else if map_option meetsMinScore (activation_outcome layers) = Some False then Suggest
      else Permit)"

definition rbac_layer :: "(string \<times> Permission \<times> string) option \<Rightarrow> RbacLayerOutcome option \<times> string list" where
  "rbac_layer input =
     (case input of None \<Rightarrow> (None, [])
      | Some (role, action, tenantId) \<Rightarrow>
          (Some \<lparr>rbac_allowed = can role action tenantId, rbac_role = role, rbac_action = action, rbac_tenantId = tenantId\<rparr>,
           [''rbac: '' @ [CHR 0x27] @ role @ [CHR 0x27] @ (if can role action tenantId then '' permitted '' else '' denied '') @
            [CHR 0x27] @ permission_name action @ [CHR 0x27]]))"

definition activation_reason :: "js_library \<Rightarrow> ActivationConfig \<Rightarrow> ActivationResult \<Rightarrow> string" where
  "activation_reason lib cfg r =
     (if act_excluded r
      then ''activation: excluded - '' @ (case act_excludeReason r of None \<Rightarrow> ''rule'' | Some x \<Rightarrow> x)
      else ''activation: score '' @ snd lib (act_score r) @ ''/'' @ snd lib (minScore cfg) @ '' ('' @
        show_int (int (length (act_matchedRules r))) @ '' rule(s) matched)'')"

definition activation_layer ::
    "js_library \<Rightarrow> (TaskDNA \<times> ActivationConfig) option \<Rightarrow> (ActivationLayerOutcome option \<times> string list) option" where
  "activation_layer lib input =
     (case input of None \<Rightarrow> Some (None, [])
      | Some (dna, cfg) \<Rightarrow>
          map_option (\<lambda>r.
            (Some \<lparr>layer_score = act_score r, layer_minScore = minScore cfg, meetsMinScore = (act_score r \<ge> minScore cfg),
                   layer_excluded = act_excluded r, layer_matchedRules = act_matchedRules r,
                   layer_excludeReason = act_excludeReason r\<rparr>,
             [activation_reason lib cfg r]))
            (evaluateActivation lib dna cfg None))"

definition condition_layer :: "js_library \<Rightarrow> (js \<times> js) option \<Rightarrow> (ConditionLayerOutcome option \<times> string list) option" where
  "condition_layer lib input =
     (case input of None \<Rightarrow> Some (None, [])
      | Some (data, when) \<Rightarrow>
          map_option (\<lambda>passed. (Some \<lparr>condition_passed = passed\<rparr>, [if passed then ''condition: gate satisfied'' else ''condition: gate not satisfied'']))
            (evaluateCondition (fst lib) (snd lib) data when))"

definition evaluatePolicy :: "js_library \<Rightarrow> PolicyInput \<Rightarrow> PolicyDecision option" where
  "evaluatePolicy lib input =
     (case activation_layer lib (input_activation input) of None \<Rightarrow> None
      | Some (a, aReasons) \<Rightarrow>
        (case condition_layer lib (input_condition input) of None \<Rightarrow> None
         | Some (c, cReasons) \<Rightarrow>
           let (r, rReasons) = rbac_layer (input_rbac input);
               layers = \<lparr>rbac_outcome = r, activation_outcome = a, condition_outcome = c\<rparr>
           in Some \<lparr>policy_kind = composeDecision layers, policy_reasons = rReasons @ aReasons @ cReasons,
                   policy_layers = layers\<rparr>))"

end
