(* ===== verification/Access_Correct.thy ===== *)
theory Access_Correct
  imports Access_Policy
begin

text \<open>
  What access decisions promise: a permit means that every layer given agrees, a further layer
  only restricts, higher roles inherit, and a tenant that is let in cannot leave its directory.
\<close>

section \<open>Decisions by severity\<close>

primrec severity :: "PolicyDecisionKind \<Rightarrow> nat" where
  "severity Permit = 0" | "severity Suggest = 1" | "severity Park = 2" | "severity Deny = 3"

instantiation PolicyDecisionKind :: linorder
begin
definition less_eq_PolicyDecisionKind :: "PolicyDecisionKind \<Rightarrow> PolicyDecisionKind \<Rightarrow> bool" where
  "less_eq_PolicyDecisionKind a b \<longleftrightarrow> severity a \<le> severity b"
definition less_PolicyDecisionKind :: "PolicyDecisionKind \<Rightarrow> PolicyDecisionKind \<Rightarrow> bool" where
  "less_PolicyDecisionKind a b \<longleftrightarrow> severity a < severity b"
instance
proof
  fix a b :: PolicyDecisionKind
  show "a \<le> b \<Longrightarrow> b \<le> a \<Longrightarrow> a = b"
    by (cases a; cases b) (simp_all add: less_eq_PolicyDecisionKind_def)
qed (auto simp: less_eq_PolicyDecisionKind_def less_PolicyDecisionKind_def)
end

definition rbac_verdict :: "RbacLayerOutcome option \<Rightarrow> PolicyDecisionKind" where
  "rbac_verdict a = (if map_option rbac_allowed a = Some False then Deny else Permit)"

definition activation_verdict :: "ActivationLayerOutcome option \<Rightarrow> PolicyDecisionKind" where
  "activation_verdict a =
     (case a of None \<Rightarrow> Permit
      | Some x \<Rightarrow> if layer_excluded x then Deny else if meetsMinScore x then Permit else Suggest)"

definition condition_verdict :: "ConditionLayerOutcome option \<Rightarrow> PolicyDecisionKind" where
  "condition_verdict c = (if map_option condition_passed c = Some False then Park else Permit)"

text \<open>The first-match precedence is the greatest severity of the layers.\<close>

lemma composeDecision_max:
  "composeDecision layers =
     max (rbac_verdict (rbac_outcome layers))
       (max (activation_verdict (activation_outcome layers)) (condition_verdict (condition_outcome layers)))"
  by (cases "activation_outcome layers")
    (auto simp: composeDecision_def rbac_verdict_def activation_verdict_def condition_verdict_def max_def
      less_eq_PolicyDecisionKind_def)

lemma Permit_least [simp]: "Permit \<le> d"
  by (simp add: less_eq_PolicyDecisionKind_def)

lemma max_Permit_iff [simp]: "max a b = Permit \<longleftrightarrow> a = Permit \<and> b = Permit"
  by (cases a; cases b) (simp_all add: max_def less_eq_PolicyDecisionKind_def)

section \<open>Layers\<close>

lemma evaluatePolicy_Some:
  assumes "evaluatePolicy lib input = Some d"
  obtains a aReasons c cReasons where
    "activation_layer lib (input_activation input) = Some (a, aReasons)"
    "condition_layer lib (input_condition input) = Some (c, cReasons)"
    "policy_kind d = max (rbac_verdict (fst (rbac_layer (input_rbac input)))) (max (activation_verdict a) (condition_verdict c))"
  using assms
  by (auto simp: evaluatePolicy_def Let_def composeDecision_max split: option.splits prod.splits)

lemma rbac_layer_Permit:
  "rbac_verdict (fst (rbac_layer (Some (role, action, tenantId)))) = Permit \<longleftrightarrow> can role action tenantId"
  by (simp add: rbac_layer_def rbac_verdict_def)

lemma condition_layer_Permit:
  assumes "condition_layer lib (Some (data, when)) = Some (c, reasons)" "condition_verdict c = Permit"
  shows "satisfies (fst lib) (snd lib) data when"
  using assms evaluator_sound(1) [of "fst lib" "snd lib" data "when" True]
  by (auto simp: condition_layer_def condition_verdict_def split: if_splits)

lemma first_exclusion_None:
  "first_exclusion lib dna xs = Some None \<Longrightarrow> x \<in> set xs \<Longrightarrow>
   \<not> satisfies (fst lib) (snd lib) (taskDNAToRecord dna) (exclusion_when x)"
proof (induction xs)
  case (Cons y ys)
  then have y: "condition_of lib dna (exclusion_when y) = Some False" "first_exclusion lib dna ys = Some None"
    by (auto split: option.splits bool.splits)
  from y(1) have "\<not> satisfies (fst lib) (snd lib) (taskDNAToRecord dna) (exclusion_when y)"
    using evaluator_sound(1) [of "fst lib" "snd lib" "taskDNAToRecord dna" "exclusion_when y" False]
    by (simp add: condition_of_def)
  with Cons y(2) show ?case by auto
qed simp

lemma activation_layer_Permit:
  assumes "activation_layer lib (Some (dna, cfg)) = Some (a, reasons)" "activation_verdict a = Permit"
  shows "\<exists>r. evaluateActivation lib dna cfg None = Some r \<and> minScore cfg \<le> act_score r \<and>
    (\<forall>x \<in> set (config_exclude cfg). \<not> satisfies (fst lib) (snd lib) (taskDNAToRecord dna) (exclusion_when x))"
proof -
  from assms obtain r where r: "evaluateActivation lib dna cfg None = Some r"
    "\<not> act_excluded r" "minScore cfg \<le> act_score r"
    by (auto simp: activation_layer_def activation_verdict_def split: if_splits)
  then have "first_exclusion lib dna (config_exclude cfg) = Some None"
    by (auto simp: evaluateActivation_def split: option.splits)
  with first_exclusion_None r show ?thesis by blast
qed

text \<open>The layers of \<open>p\<close> are among those of \<open>q\<close>.\<close>

definition fewer_layers :: "PolicyInput \<Rightarrow> PolicyInput \<Rightarrow> bool" where
  "fewer_layers p q \<longleftrightarrow> (input_rbac p = None \<or> input_rbac p = input_rbac q) \<and>
     (input_activation p = None \<or> input_activation p = input_activation q) \<and>
     (input_condition p = None \<or> input_condition p = input_condition q)"

section \<open>The properties\<close>

text \<open>
  C17 A permit is earned by every layer: when the composed decision is a permit, the role may
  do the action in that tenant, the condition's meaning holds of its data, no exclusion's
  condition holds of the task and its score reaches the minimum, for each layer that is given.
\<close>

theorem permit_sound:
  assumes "evaluatePolicy lib input = Some d" and "policy_kind d = Permit"
  shows "(\<forall>role action tenantId. input_rbac input = Some (role, action, tenantId) \<longrightarrow> can role action tenantId) \<and>
    (\<forall>data when. input_condition input = Some (data, when) \<longrightarrow> satisfies (fst lib) (snd lib) data when) \<and>
    (\<forall>dna cfg. input_activation input = Some (dna, cfg) \<longrightarrow>
      (\<exists>r. evaluateActivation lib dna cfg None = Some r \<and> minScore cfg \<le> act_score r \<and>
        (\<forall>x \<in> set (config_exclude cfg). \<not> satisfies (fst lib) (snd lib) (taskDNAToRecord dna) (exclusion_when x))))"
  using assms(1)
proof (rule evaluatePolicy_Some)
  fix a aReasons c cReasons
  assume l: "activation_layer lib (input_activation input) = Some (a, aReasons)"
    "condition_layer lib (input_condition input) = Some (c, cReasons)"
    and "policy_kind d = max (rbac_verdict (fst (rbac_layer (input_rbac input)))) (max (activation_verdict a) (condition_verdict c))"
  with assms(2) have v: "rbac_verdict (fst (rbac_layer (input_rbac input))) = Permit"
    "activation_verdict a = Permit" "condition_verdict c = Permit" by simp_all
  have "can role action tenantId" if "input_rbac input = Some (role, action, tenantId)" for role action tenantId
    using v(1) rbac_layer_Permit that by simp
  moreover have "satisfies (fst lib) (snd lib) data when" if "input_condition input = Some (data, when)" for data "when"
    using condition_layer_Permit [OF _ v(3)] l(2) that by simp
  moreover have "\<exists>r. evaluateActivation lib dna cfg None = Some r \<and> minScore cfg \<le> act_score r \<and>
        (\<forall>x \<in> set (config_exclude cfg). \<not> satisfies (fst lib) (snd lib) (taskDNAToRecord dna) (exclusion_when x))"
    if "input_activation input = Some (dna, cfg)" for dna cfg
    using activation_layer_Permit [OF _ v(2)] l(1) that by simp
  ultimately show ?thesis by blast
qed

text \<open>
  A further layer never loosens a decision: leaving layers out of a policy gives a decision
  that is at most as restrictive.
\<close>

theorem layers_only_restrict:
  assumes "evaluatePolicy lib q = Some d" and "evaluatePolicy lib p = Some d'" and "fewer_layers p q"
  shows "policy_kind d' \<le> policy_kind d"
  using assms(1)
proof (rule evaluatePolicy_Some)
  fix a aReasons c cReasons
  assume q: "activation_layer lib (input_activation q) = Some (a, aReasons)"
    "condition_layer lib (input_condition q) = Some (c, cReasons)"
    "policy_kind d = max (rbac_verdict (fst (rbac_layer (input_rbac q)))) (max (activation_verdict a) (condition_verdict c))"
  show ?thesis
    using assms(2)
  proof (rule evaluatePolicy_Some)
    fix a' aReasons' c' cReasons'
    assume p: "activation_layer lib (input_activation p) = Some (a', aReasons')"
      "condition_layer lib (input_condition p) = Some (c', cReasons')"
      "policy_kind d' = max (rbac_verdict (fst (rbac_layer (input_rbac p)))) (max (activation_verdict a') (condition_verdict c'))"
    have "rbac_verdict (fst (rbac_layer (input_rbac p))) \<le> rbac_verdict (fst (rbac_layer (input_rbac q)))"
      using assms(3) by (auto simp: fewer_layers_def rbac_layer_def rbac_verdict_def)
    moreover have "activation_verdict a' \<le> activation_verdict a"
      using assms(3) p(1) q(1) by (auto simp: fewer_layers_def activation_layer_def activation_verdict_def)
    moreover have "condition_verdict c' \<le> condition_verdict c"
      using assms(3) p(2) q(2) by (auto simp: fewer_layers_def condition_layer_def condition_verdict_def)
    ultimately show ?thesis using p(3) q(3) by (simp add: max.coboundedI1 max.coboundedI2)
  qed
qed

lemma PERMISSION_MATRIX_simps:
  "PERMISSION_MATRIX Viewer = [PRead, PSprintRead]"
  "PERMISSION_MATRIX Operator = [PRead, PSprintRead, PWrite, PExecute, PSprintWrite, PAuditRead, PFlowManage]"
  "PERMISSION_MATRIX Admin =
     [PRead, PSprintRead, PWrite, PExecute, PSprintWrite, PAuditRead, PFlowManage, PAdmin, PAudit, PTenantAdmin]"
  by code_simp+

lemma matrix_mono: "ROLE_LEVEL r \<le> ROLE_LEVEL s \<Longrightarrow> set (PERMISSION_MATRIX r) \<subseteq> set (PERMISSION_MATRIX s)"
  by (cases r; cases s) (auto simp: PERMISSION_MATRIX_simps)

lemma tenant_chars: "isValidTenantId i \<Longrightarrow> c \<in> set i \<Longrightarrow> lower_alnum c \<or> c = CHR ''-''"
  by (cases i) (auto simp: isValidTenantId_def list_all_iff)

text \<open>
  Roles inherit and tenants stay inside: whatever a role may do in a tenant, every role of at
  least its level may do there, and a tenant in which anything is allowed has a name of 1 to 63
  characters without a dot or a slash, so its isolation directory is a child of the root.
\<close>

theorem role_hierarchy:
  assumes "can role action tenantId" and "valid_role role = Some r" and "valid_role role' = Some r'"
    and "ROLE_LEVEL r \<le> ROLE_LEVEL r'"
  shows "can role' action tenantId \<and> 1 \<le> length tenantId \<and> length tenantId \<le> 63 \<and>
    CHR ''.'' \<notin> set tenantId \<and> CHR ''/'' \<notin> set tenantId"
proof -
  from assms(1) have t: "isValidTenantId tenantId" by (simp add: can_def)
  then have "1 \<le> length tenantId \<and> length tenantId \<le> 63"
    by (cases tenantId) (simp_all add: isValidTenantId_def)
  moreover have "\<not> (lower_alnum CHR ''.'' \<or> CHR ''.'' = CHR ''-'')" "\<not> (lower_alnum CHR ''/'' \<or> CHR ''/'' = CHR ''-'')"
    by code_simp+
  then have "CHR ''.'' \<notin> set tenantId" "CHR ''/'' \<notin> set tenantId"
    using tenant_chars [OF t] by blast+
  moreover have "can role' action tenantId"
    using assms matrix_mono [OF assms(4)] by (auto simp: can_def)
  ultimately show ?thesis by blast
qed

text \<open>
  The architect is not absent: the map of skills to agents, documented to leave the architect
  to base scoring, gives it the affinity bonus.
\<close>

theorem architect_gets_affinity:
  "getSkillAgentAffinityBonus ''architect'' (Some [''system-architect'']) = SKILL_AGENT_AFFINITY_BONUS"
  by (simp add: getSkillAgentAffinityBonus_def SKILL_AGENT_MAP_def)

section \<open>Witnesses\<close>

definition sample_library :: js_library where
  "sample_library = (\<lambda>_ _. JUndefined, \<lambda>_. ''n'')"

definition sample_input :: PolicyInput where
  "sample_input = \<lparr>input_rbac = Some (''operator'', PWrite, ''acme''), input_activation = None,
     input_condition = Some (JObj [(''env'', JStr ''ci'')], JObj [(''env'', JStr ''ci'')])\<rparr>"

theorem permit_sound_witness:
  "\<exists>d. evaluatePolicy sample_library sample_input = Some d \<and> policy_kind d = Permit \<and>
     satisfies (fst sample_library) (snd sample_library) (JObj [(''env'', JStr ''ci'')]) (JObj [(''env'', JStr ''ci'')])"
proof -
  have "map_option policy_kind (evaluatePolicy sample_library sample_input) = Some Permit" by code_simp
  then obtain d where d: "evaluatePolicy sample_library sample_input = Some d" "policy_kind d = Permit" by auto
  from permit_sound [OF d] d show ?thesis by (simp add: sample_input_def)
qed

theorem layers_only_restrict_witness:
  "\<exists>d d'. evaluatePolicy sample_library (sample_input\<lparr>input_rbac := Some (''viewer'', PWrite, ''acme'')\<rparr>) = Some d \<and>
     evaluatePolicy sample_library (sample_input\<lparr>input_rbac := None\<rparr>) = Some d' \<and> policy_kind d' \<le> policy_kind d"
proof -
  let ?q = "sample_input\<lparr>input_rbac := Some (''viewer'', PWrite, ''acme'')\<rparr>"
  let ?p = "sample_input\<lparr>input_rbac := None\<rparr>"
  have "map_option policy_kind (evaluatePolicy sample_library ?q) = Some Deny" by code_simp
  then obtain d where d: "evaluatePolicy sample_library ?q = Some d" by blast
  have "map_option policy_kind (evaluatePolicy sample_library ?p) = Some Permit" by code_simp
  then obtain d' where d': "evaluatePolicy sample_library ?p = Some d'" by blast
  have "fewer_layers ?p ?q" by (simp add: fewer_layers_def)
  from layers_only_restrict [OF d d' this] d d' show ?thesis by blast
qed

theorem role_hierarchy_witness:
  "can ''operator'' PWrite ''acme'' \<and> can ''admin'' PWrite ''acme''"
proof -
  have c: "can ''operator'' PWrite ''acme''" by code_simp
  have "valid_role ''operator'' = Some Operator" "valid_role ''admin'' = Some Admin" by (simp_all add: valid_role_def)
  from role_hierarchy [OF c this] c show ?thesis by simp
qed

end
