(* ===== verification/Rate_Limiter.thy ===== *)
theory Rate_Limiter
  imports Js_Prelude
begin

text \<open>
  \<open>src/core/rate-limiter.ts\<close>: a fixed-window limiter per tenant. The clock's reading is an
  argument of each check. The buckets are a keyed store, and what one tenant's calls do to the
  others is read off the laws of that store.
\<close>

section \<open>The limiter\<close>

record BucketState =
  bucket_count :: int
  windowStart :: int

type_synonym buckets = "(string, BucketState) js_map"

record TenantRateLimiter =
  maxConcurrent :: int
  windowMs :: int

record RateLimitResult =
  rl_allowed :: bool
  rl_tenantId :: string
  rl_action :: string
  rl_count :: int
  rl_limit :: int

definition new_limiter :: "int option \<Rightarrow> int option \<Rightarrow> TenantRateLimiter" where
  "new_limiter flow_max window =
     \<lparr>maxConcurrent = (case flow_max of None \<Rightarrow> 10 | Some n \<Rightarrow> n),
      windowMs = (case window of None \<Rightarrow> 60000 | Some n \<Rightarrow> n)\<rparr>"

definition getOrCreateBucket :: "string \<Rightarrow> int \<Rightarrow> buckets \<Rightarrow> BucketState" where
  "getOrCreateBucket tenantId now bs =
     (case map_of bs tenantId of None \<Rightarrow> \<lparr>bucket_count = 0, windowStart = now\<rparr> | Some b \<Rightarrow> b)"

definition roll_window :: "TenantRateLimiter \<Rightarrow> int \<Rightarrow> BucketState \<Rightarrow> BucketState" where
  "roll_window l now b = (if now - windowStart b \<ge> windowMs l then \<lparr>bucket_count = 0, windowStart = now\<rparr> else b)"

definition checkLimit :: "TenantRateLimiter \<Rightarrow> int \<Rightarrow> string \<Rightarrow> buckets \<Rightarrow> bool \<times> buckets" where
  "checkLimit l now tenantId bs =
     (let b = roll_window l now (getOrCreateBucket tenantId now bs) in
      if bucket_count b \<ge> maxConcurrent l then (False, AList.update tenantId b bs)
      else (True, AList.update tenantId (b\<lparr>bucket_count := bucket_count b + 1\<rparr>) bs))"

definition getBucketCount :: "string \<Rightarrow> buckets \<Rightarrow> int" where
  "getBucketCount tenantId bs = (case map_of bs tenantId of None \<Rightarrow> 0 | Some b \<Rightarrow> bucket_count b)"

definition checkLimitResult :: "TenantRateLimiter \<Rightarrow> int \<Rightarrow> string \<Rightarrow> string \<Rightarrow> buckets \<Rightarrow> RateLimitResult \<times> buckets" where
  "checkLimitResult l now tenantId action bs =
     (let before = getBucketCount tenantId bs; (ok, bs') = checkLimit l now tenantId bs in
      (\<lparr>rl_allowed = ok, rl_tenantId = tenantId, rl_action = action,
        rl_count = (if ok then before + 1 else before), rl_limit = maxConcurrent l\<rparr>, bs'))"

definition resetLimit :: "string \<Rightarrow> buckets \<Rightarrow> buckets" where
  "resetLimit tenantId bs = AList.delete tenantId bs"

section \<open>Traces\<close>

text \<open>The times at which a tenant's calls are allowed, over calls by any tenants.\<close>

fun admitted :: "TenantRateLimiter \<Rightarrow> string \<Rightarrow> (int \<times> string) list \<Rightarrow> buckets \<Rightarrow> int list" where
  "admitted l t [] bs = []"
| "admitted l t ((now, who) # calls) bs =
     (if who = t \<and> fst (checkLimit l now who bs) then now # admitted l t calls (snd (checkLimit l now who bs))
      else admitted l t calls (snd (checkLimit l now who bs)))"

lemma checkLimit_other: "who \<noteq> t \<Longrightarrow> map_of (snd (checkLimit l now who bs)) t = map_of bs t"
  by (simp add: checkLimit_def Let_def alist_store.put_frame)

lemma checkLimit_own:
  "map_of (snd (checkLimit l now t bs)) t = Some
     (let b = roll_window l now (getOrCreateBucket t now bs)
      in if bucket_count b \<ge> maxConcurrent l then b else b\<lparr>bucket_count := bucket_count b + 1\<rparr>)"
  by (simp add: checkLimit_def Let_def alist_store.put_read)

lemma checkLimit_allowed:
  "fst (checkLimit l now t bs) \<longleftrightarrow> bucket_count (roll_window l now (getOrCreateBucket t now bs)) < maxConcurrent l"
  by (simp add: checkLimit_def Let_def not_le)

text \<open>Admissions in an interval that are still to come, given the tenant's bucket.\<close>

definition inside :: "int \<Rightarrow> int \<Rightarrow> int list \<Rightarrow> int" where
  "inside a w ts = int (length (filter (\<lambda>t. a \<le> t \<and> t < a + w) ts))"

lemma inside_Nil [simp]: "inside a w [] = 0"
  by (simp add: inside_def)

lemma inside_Cons: "inside a w (t # ts) = (if a \<le> t \<and> t < a + w then 1 + inside a w ts else inside a w ts)"
  by (simp add: inside_def)

text \<open>At most so many admissions can still fall into \<open>[a, a + windowMs)\<close>, from time \<open>now\<close> on.\<close>

definition allowance :: "TenantRateLimiter \<Rightarrow> int \<Rightarrow> int \<Rightarrow> BucketState \<Rightarrow> int" where
  "allowance l a now b =
     (if windowStart b \<ge> a + windowMs l then 0
      else if a \<le> windowStart b then maxConcurrent l - bucket_count b
      else if now < a then 2 * maxConcurrent l
      else 2 * maxConcurrent l - bucket_count b)"

definition bucket_ok :: "TenantRateLimiter \<Rightarrow> int \<Rightarrow> BucketState \<Rightarrow> bool" where
  "bucket_ok l now b \<longleftrightarrow> 0 \<le> bucket_count b \<and> bucket_count b \<le> maxConcurrent l \<and> windowStart b \<le> now"

definition next_bucket :: "TenantRateLimiter \<Rightarrow> int \<Rightarrow> BucketState \<Rightarrow> BucketState" where
  "next_bucket l now b =
     (let r = roll_window l now b
      in if bucket_count r \<ge> maxConcurrent l then r else r\<lparr>bucket_count := bucket_count r + 1\<rparr>)"

lemma next_bucket_ok:
  assumes "bucket_ok l \<tau> b" "\<tau> \<le> now" "0 \<le> maxConcurrent l"
  shows "bucket_ok l now (next_bucket l now b)"
  using assms by (auto simp: next_bucket_def roll_window_def bucket_ok_def Let_def)

lemma allowance_nonneg:
  "bucket_ok l now b \<Longrightarrow> 0 \<le> maxConcurrent l \<Longrightarrow> 0 \<le> allowance l a now b"
  by (auto simp: allowance_def bucket_ok_def)

lemma allowance_step:
  assumes "bucket_ok l \<tau> b" "\<tau> \<le> now" "0 \<le> maxConcurrent l" "0 < windowMs l"
  shows "(if bucket_count (roll_window l now b) < maxConcurrent l \<and> a \<le> now \<and> now < a + windowMs l then 1 else 0) +
    allowance l a now (next_bucket l now b) \<le> allowance l a \<tau> b"
proof (cases "now - windowStart b \<ge> windowMs l")
  case True
  with assms show ?thesis
    by (auto simp: next_bucket_def roll_window_def allowance_def bucket_ok_def Let_def)
next
  case False
  with assms show ?thesis
    by (auto simp: next_bucket_def roll_window_def allowance_def bucket_ok_def Let_def)
qed

fun later :: "int \<Rightarrow> (int \<times> string) list \<Rightarrow> bool" where
  "later \<tau> [] = True"
| "later \<tau> ((now, who) # calls) = (\<tau> \<le> now \<and> later now calls)"

lemma allowance_later: "\<tau> \<le> now \<Longrightarrow> bucket_ok l \<tau> b \<Longrightarrow> allowance l a now b \<le> allowance l a \<tau> b"
  by (auto simp: allowance_def bucket_ok_def)

lemma bucket_ok_later: "bucket_ok l \<tau> b \<Longrightarrow> \<tau> \<le> now \<Longrightarrow> bucket_ok l now b"
  by (simp add: bucket_ok_def)

lemma admitted_bound:
  assumes "0 \<le> maxConcurrent l" "0 < windowMs l"
  shows "later \<tau> calls \<Longrightarrow> map_of bs t = Some b \<Longrightarrow> bucket_ok l \<tau> b \<Longrightarrow>
    inside a (windowMs l) (admitted l t calls bs) \<le> allowance l a \<tau> b"
proof (induction calls arbitrary: \<tau> bs b)
  case Nil
  then show ?case using allowance_nonneg assms(1) by simp
next
  case (Cons call calls)
  obtain now who where call: "call = (now, who)" by (cases call)
  with Cons.prems(1) have le: "\<tau> \<le> now" "later now calls" by simp_all
  show ?case
  proof (cases "who = t")
    case False
    have "inside a (windowMs l) (admitted l t calls (snd (checkLimit l now who bs))) \<le> allowance l a now b"
      using Cons.prems False by (intro Cons.IH le) (simp_all add: checkLimit_other bucket_ok_later [OF _ le(1)])
    also have "\<dots> \<le> allowance l a \<tau> b" using allowance_later le(1) Cons.prems(3) by blast
    finally show ?thesis using False call by simp
  next
    case True
    have b: "getOrCreateBucket t now bs = b" using Cons.prems(2) by (simp add: getOrCreateBucket_def)
    have "map_of (snd (checkLimit l now t bs)) t = Some (next_bucket l now b)"
      by (simp add: checkLimit_own b next_bucket_def)
    from Cons.IH [OF le(2) this next_bucket_ok [OF Cons.prems(3) le(1) assms(1)]]
    have "inside a (windowMs l) (admitted l t calls (snd (checkLimit l now t bs))) \<le> allowance l a now (next_bucket l now b)" .
    with allowance_step [OF Cons.prems(3) le(1) assms, of a] True call show ?thesis
      by (auto simp: checkLimit_allowed b inside_Cons split: if_splits)
  qed
qed

lemma admitted_bound_fresh:
  assumes "0 \<le> maxConcurrent l" "0 < windowMs l"
  shows "later \<tau> calls \<Longrightarrow> map_of bs t = None \<Longrightarrow> inside a (windowMs l) (admitted l t calls bs) \<le> 2 * maxConcurrent l"
proof (induction calls arbitrary: \<tau> bs)
  case Nil
  then show ?case using assms(1) by simp
next
  case (Cons call calls)
  obtain now who where call: "call = (now, who)" by (cases call)
  with Cons.prems(1) have le: "\<tau> \<le> now" "later now calls" by simp_all
  show ?case
  proof (cases "who = t")
    case False
    with Cons.IH [OF le(2), of "snd (checkLimit l now who bs)"] Cons.prems(2) call show ?thesis
      by (simp add: checkLimit_other)
  next
    case True
    define bs0 where "bs0 = AList.update t \<lparr>bucket_count = 0, windowStart = now\<rparr> bs"
    have m: "map_of bs0 t = Some \<lparr>bucket_count = 0, windowStart = now\<rparr>" by (simp add: bs0_def alist_store.put_read)
    have same: "admitted l t (call # calls) bs0 = admitted l t (call # calls) bs"
      using True call Cons.prems(2)
      by (simp add: checkLimit_def getOrCreateBucket_def m bs0_def alist_store.put_read Let_def)
    have "inside a (windowMs l) (admitted l t (call # calls) bs0) \<le> allowance l a now \<lparr>bucket_count = 0, windowStart = now\<rparr>"
      by (rule admitted_bound [OF assms _ m]) (use le call assms(1) in \<open>simp_all add: bucket_ok_def\<close>)
    also have "\<dots> \<le> 2 * maxConcurrent l" using assms by (auto simp: allowance_def)
    finally show ?thesis unfolding same .
  qed
qed

section \<open>The properties\<close>

text \<open>
  The rate is bounded: with a clock that does not go back, at most twice the configured limit
  of one tenant's calls are allowed in any interval as long as the window, however many calls of
  however many tenants are interleaved.
\<close>

theorem rate_bounded:
  assumes "0 \<le> maxConcurrent l" and "0 < windowMs l" and "later \<tau> calls"
  shows "inside a (windowMs l) (admitted l t calls []) \<le> 2 * maxConcurrent l"
  by (rule admitted_bound_fresh [OF assms]) simp

text \<open>
  The reported count is stale: after the window of a tenant that used up its limit has
  passed, the next call is allowed and reported with a count above the limit, although the
  tenant's bucket then holds one call.
\<close>

theorem reported_count_exceeds_limit:
  "\<exists>bs. map_of bs t = Some \<lparr>bucket_count = 2, windowStart = 0\<rparr> \<and>
     (let (result, bs') = checkLimitResult \<lparr>maxConcurrent = 2, windowMs = 1000\<rparr> 1000 t action bs in
      rl_allowed result \<and> rl_count result = 3 \<and> rl_limit result = 2 \<and> getBucketCount t bs' = 1)"
  by (rule exI [of _ "[(t, \<lparr>bucket_count = 2, windowStart = 0\<rparr>)]"])
    (simp add: checkLimitResult_def checkLimit_def getBucketCount_def getOrCreateBucket_def roll_window_def)

section \<open>Witnesses\<close>

theorem rate_bounded_witness:
  "admitted \<lparr>maxConcurrent = 1, windowMs = 10\<rparr> ''t'' [(9, ''t''), (9, ''u''), (19, ''t''), (20, ''t'')] [] = [9, 19] \<and>
   inside 9 10 (admitted \<lparr>maxConcurrent = 1, windowMs = 10\<rparr> ''t'' [(9, ''t''), (9, ''u''), (19, ''t''), (20, ''t'')] []) \<le> 2"
proof
  show "admitted \<lparr>maxConcurrent = 1, windowMs = 10\<rparr> ''t'' [(9, ''t''), (9, ''u''), (19, ''t''), (20, ''t'')] [] = [9, 19]"
    by code_simp
  show "inside 9 10 (admitted \<lparr>maxConcurrent = 1, windowMs = 10\<rparr> ''t'' [(9, ''t''), (9, ''u''), (19, ''t''), (20, ''t'')] []) \<le> 2"
    using rate_bounded [of "\<lparr>maxConcurrent = 1, windowMs = 10\<rparr>" 0 "[(9, ''t''), (9, ''u''), (19, ''t''), (20, ''t'')]" 9 "''t''"]
    by simp
qed

end
