(* ===== verification/Cascade_Detector.thy ===== *)
theory Cascade_Detector
  imports Js_Number
begin

text \<open>
  \<open>src/core/cascade-detector.ts\<close>: streaks of failed results and of rate limits, and the action
  they call for. The state is the class's private fields; a percentage is computed in double
  arithmetic. A reason keeps the numbers of its message.
\<close>

section \<open>The detector\<close>

datatype cascade_reason =
    AlreadyHalted | ConsecutiveNoGo int | NoGoRate rat rat | ConsecutiveRateLimited int | NoReason

datatype CascadeAction =
    Continue | PauseSprint cascade_reason int | HaltSprint cascade_reason | Throttle cascade_reason int int

record CascadeConfig =
  maxConsecutiveNoGo :: int
  maxConsecutiveRateLimited :: int
  maxNoGoRatePercent :: rat
  minTasksForRateCheck :: int
  pauseResumeSeconds :: int

definition DEFAULT_CASCADE_CONFIG :: CascadeConfig where
  "DEFAULT_CASCADE_CONFIG = \<lparr>maxConsecutiveNoGo = 5, maxConsecutiveRateLimited = 3, maxNoGoRatePercent = 30,
     minTasksForRateCheck = 10, pauseResumeSeconds = 600\<rparr>"

datatype TaskOutcome = OutDone | OutTechDebt | OutNoGo

record CascadeDetector =
  consecutiveNoGo :: nat
  consecutiveRateLimited :: nat
  totalTasks :: nat
  totalNoGo :: nat
  paused :: bool
  halted :: bool

definition new_detector :: CascadeDetector where
  "new_detector = \<lparr>consecutiveNoGo = 0, consecutiveRateLimited = 0, totalTasks = 0, totalNoGo = 0,
     paused = False, halted = False\<rparr>"

definition count_result :: "TaskOutcome \<Rightarrow> CascadeDetector \<Rightarrow> CascadeDetector" where
  "count_result outcome d =
     (if outcome = OutNoGo
      then d\<lparr>totalTasks := totalTasks d + 1, consecutiveNoGo := consecutiveNoGo d + 1, totalNoGo := totalNoGo d + 1\<rparr>
      else d\<lparr>totalTasks := totalTasks d + 1, consecutiveNoGo := 0\<rparr>)"

definition rate_action :: "CascadeConfig \<Rightarrow> CascadeDetector \<Rightarrow> CascadeAction" where
  "rate_action cfg d =
     (if int (totalTasks d) \<ge> minTasksForRateCheck cfg \<and>
         js_percent (totalNoGo d) (totalTasks d) \<ge> maxNoGoRatePercent cfg
      then Throttle (NoGoRate (js_percent (totalNoGo d) (totalTasks d)) (maxNoGoRatePercent cfg)) 1 30000
      else Continue)"

definition onResult :: "CascadeConfig \<Rightarrow> TaskOutcome \<Rightarrow> CascadeDetector \<Rightarrow> CascadeAction \<times> CascadeDetector" where
  "onResult cfg outcome d =
     (if halted d then (HaltSprint AlreadyHalted, d)
      else let c = count_result outcome d in
        if outcome = OutNoGo \<and> int (consecutiveNoGo c) \<ge> maxConsecutiveNoGo cfg
        then (PauseSprint (ConsecutiveNoGo (maxConsecutiveNoGo cfg)) (pauseResumeSeconds cfg), c\<lparr>paused := True\<rparr>)
        else (rate_action cfg c, c))"

definition onRateLimited :: "CascadeConfig \<Rightarrow> CascadeDetector \<Rightarrow> CascadeAction \<times> CascadeDetector" where
  "onRateLimited cfg d =
     (if halted d then (HaltSprint AlreadyHalted, d)
      else let c = d\<lparr>consecutiveRateLimited := consecutiveRateLimited d + 1\<rparr> in
        if int (consecutiveRateLimited c) \<ge> maxConsecutiveRateLimited cfg
        then (HaltSprint (ConsecutiveRateLimited (maxConsecutiveRateLimited cfg)), c\<lparr>halted := True\<rparr>)
        else (Continue, c))"

definition onRequestSuccess :: "CascadeDetector \<Rightarrow> CascadeDetector" where
  "onRequestSuccess d = d\<lparr>consecutiveRateLimited := 0\<rparr>"

definition reset_detector :: "CascadeDetector \<Rightarrow> CascadeDetector" where
  "reset_detector d = d\<lparr>consecutiveNoGo := 0, consecutiveRateLimited := 0, paused := False\<rparr>"

definition fullReset :: "CascadeDetector \<Rightarrow> CascadeDetector" where
  "fullReset d = d\<lparr>consecutiveNoGo := 0, consecutiveRateLimited := 0, totalTasks := 0, totalNoGo := 0,
     paused := False, halted := False\<rparr>"

definition noGoRatePercent :: "CascadeDetector \<Rightarrow> rat" where
  "noGoRatePercent d = (if totalTasks d > 0 then js_percent (totalNoGo d) (totalTasks d) else 0)"

section \<open>Histories\<close>

datatype detector_event = Result TaskOutcome | RateLimitedEvent | RequestSuccess | ResetEvent

definition detector_step :: "CascadeConfig \<Rightarrow> detector_event \<Rightarrow> CascadeDetector \<Rightarrow> CascadeDetector" where
  "detector_step cfg e d =
     (case e of Result x \<Rightarrow> snd (onResult cfg x d) | RateLimitedEvent \<Rightarrow> snd (onRateLimited cfg d)
      | RequestSuccess \<Rightarrow> onRequestSuccess d | ResetEvent \<Rightarrow> reset_detector d)"

fun detector_after :: "CascadeConfig \<Rightarrow> detector_event list \<Rightarrow> CascadeDetector" where
  "detector_after cfg [] = new_detector"
| "detector_after cfg (e # es) = detector_step cfg e (detector_after cfg es)"

text \<open>
  Histories are newest first. The streak of failures is the failures since the newest success or
  reset; the streak of rate limits the rate limits since the newest request success or reset.
\<close>

fun no_go_streak :: "detector_event list \<Rightarrow> nat" where
  "no_go_streak [] = 0"
| "no_go_streak (Result OutNoGo # es) = Suc (no_go_streak es)"
| "no_go_streak (Result _ # es) = 0"
| "no_go_streak (ResetEvent # es) = 0"
| "no_go_streak (_ # es) = no_go_streak es"

fun rate_limit_streak :: "detector_event list \<Rightarrow> nat" where
  "rate_limit_streak [] = 0"
| "rate_limit_streak (RateLimitedEvent # es) = Suc (rate_limit_streak es)"
| "rate_limit_streak (RequestSuccess # es) = 0"
| "rate_limit_streak (ResetEvent # es) = 0"
| "rate_limit_streak (Result _ # es) = rate_limit_streak es"

definition results :: "detector_event list \<Rightarrow> nat" where
  "results es = length (filter (\<lambda>e. case e of Result _ \<Rightarrow> True | _ \<Rightarrow> False) es)"

definition failures :: "detector_event list \<Rightarrow> nat" where
  "failures es = length (filter (\<lambda>e. e = Result OutNoGo) es)"

text \<open>The history ran into the limit of rate limits at some point.\<close>

fun reached_halt :: "CascadeConfig \<Rightarrow> detector_event list \<Rightarrow> bool" where
  "reached_halt cfg [] = False"
| "reached_halt cfg (e # es) \<longleftrightarrow> reached_halt cfg es \<or>
     (e = RateLimitedEvent \<and> int (rate_limit_streak (e # es)) \<ge> maxConsecutiveRateLimited cfg)"

lemma detector_after_spec:
  "(halted (detector_after cfg es) \<longleftrightarrow> reached_halt cfg es) \<and>
   (\<not> reached_halt cfg es \<longrightarrow>
     consecutiveNoGo (detector_after cfg es) = no_go_streak es \<and>
     consecutiveRateLimited (detector_after cfg es) = rate_limit_streak es \<and>
     totalTasks (detector_after cfg es) = results es \<and> totalNoGo (detector_after cfg es) = failures es)"
proof (induction es)
  case Nil
  show ?case by (simp add: new_detector_def results_def failures_def)
next
  case (Cons e es)
  define d where "d = detector_after cfg es"
  note IH = Cons.IH [folded d_def]
  show ?case
  proof (cases e)
    case (Result x)
    with IH show ?thesis
      by (cases x) (auto simp: d_def [symmetric] detector_step_def onResult_def count_result_def Let_def results_def failures_def)
  next
    case RateLimitedEvent
    with IH show ?thesis
      by (auto simp: d_def [symmetric] detector_step_def onRateLimited_def Let_def results_def failures_def)
  next
    case RequestSuccess
    with IH show ?thesis
      by (auto simp: d_def [symmetric] detector_step_def onRequestSuccess_def results_def failures_def)
  next
    case ResetEvent
    with IH show ?thesis
      by (auto simp: d_def [symmetric] detector_step_def reset_detector_def results_def failures_def)
  qed
qed

section \<open>The properties\<close>

text \<open>
  The detector's actions are those of its history: after any mix of results, rate limits,
  successes and resets, a result halts exactly when the rate limits once reached their limit,
  pauses exactly when it is a failure that completes the configured streak, and throttles
  exactly when enough results have a failure percentage at the configured rate.
\<close>

theorem cascade_exact:
  "fst (onResult cfg x (detector_after cfg es)) =
    (if reached_halt cfg es then HaltSprint AlreadyHalted
     else if x = OutNoGo \<and> int (no_go_streak (Result x # es)) \<ge> maxConsecutiveNoGo cfg
     then PauseSprint (ConsecutiveNoGo (maxConsecutiveNoGo cfg)) (pauseResumeSeconds cfg)
     else if int (results (Result x # es)) \<ge> minTasksForRateCheck cfg \<and>
       js_percent (failures (Result x # es)) (results (Result x # es)) \<ge> maxNoGoRatePercent cfg
     then Throttle (NoGoRate (js_percent (failures (Result x # es)) (results (Result x # es))) (maxNoGoRatePercent cfg)) 1 30000
     else Continue)"
proof (cases "reached_halt cfg es")
  case True
  with detector_after_spec [of cfg es] show ?thesis by (simp add: onResult_def)
next
  case False
  with detector_after_spec [of cfg es] have
    "\<not> halted (detector_after cfg es)" "consecutiveNoGo (detector_after cfg es) = no_go_streak es"
    "totalTasks (detector_after cfg es) = results es" "totalNoGo (detector_after cfg es) = failures es" by simp_all
  with False show ?thesis
    by (cases x) (simp_all add: onResult_def count_result_def rate_action_def Let_def results_def failures_def)
qed

end
