(* ===== verification/Js_Double.thy ===== *)
theory Js_Double
  imports Js_Number
begin

text \<open>
  The JavaScript number type as a whole: rationals rounded to a double with its least
  exponent and its overflow to an infinity, the infinities and NaN. The sign of zero is not
  kept: the modelled sources never divide by a zero, so it cannot be observed in a result
  beyond the sign itself.
\<close>

datatype jsnum = Fin rat | Infinite bool | NotANumber

text \<open>\<open>Infinite True\<close> is the negative infinity.\<close>

definition double_pos :: "int \<Rightarrow> int \<Rightarrow> rat" where
  "double_pos a b =
     (let s = min 1074 (52 - fl_exponent a b)
      in if 0 \<le> s then of_int (round_half_even (a * 2 ^ nat s) b) / of_int (2 ^ nat s)
         else of_int (round_half_even a (b * 2 ^ nat (- s))) * of_int (2 ^ nat (- s)))"

text \<open>The least number that overflows is \<open>2 ^ 1024\<close>, whose floor has 1025 bits.\<close>

definition bounded_double :: "bool \<Rightarrow> rat \<Rightarrow> jsnum" where
  "bounded_double negative q =
     (if 1024 < bit_length \<lfloor>q\<rfloor> then Infinite negative else Fin (if negative then - q else q))"

definition to_double :: "rat \<Rightarrow> jsnum" where
  "to_double x = (case quotient_of x of (a, b) \<Rightarrow>
     if a = 0 then Fin 0 else if 0 < a then bounded_double False (double_pos a b)
     else bounded_double True (double_pos (- a) b))"

fun num_neg :: "jsnum \<Rightarrow> jsnum" where
  "num_neg (Fin x) = Fin (- x)"
| "num_neg (Infinite s) = Infinite (\<not> s)"
| "num_neg NotANumber = NotANumber"

fun num_add :: "jsnum \<Rightarrow> jsnum \<Rightarrow> jsnum" where
  "num_add (Fin x) (Fin y) = to_double (x + y)"
| "num_add (Fin x) (Infinite s) = Infinite s"
| "num_add (Infinite s) (Fin x) = Infinite s"
| "num_add (Infinite s) (Infinite t) = (if s = t then Infinite s else NotANumber)"
| "num_add NotANumber y = NotANumber"
| "num_add x NotANumber = NotANumber"

definition num_sub :: "jsnum \<Rightarrow> jsnum \<Rightarrow> jsnum" where
  "num_sub x y = num_add x (num_neg y)"

fun num_mult :: "jsnum \<Rightarrow> jsnum \<Rightarrow> jsnum" where
  "num_mult (Fin x) (Fin y) = to_double (x * y)"
| "num_mult (Fin x) (Infinite s) = (if x = 0 then NotANumber else Infinite (s \<noteq> (x < 0)))"
| "num_mult (Infinite s) (Fin x) = (if x = 0 then NotANumber else Infinite (s \<noteq> (x < 0)))"
| "num_mult (Infinite s) (Infinite t) = Infinite (s \<noteq> t)"
| "num_mult NotANumber y = NotANumber"
| "num_mult x NotANumber = NotANumber"

text \<open>The divisor is not zero: the code tests that first.\<close>

fun num_div :: "jsnum \<Rightarrow> jsnum \<Rightarrow> jsnum" where
  "num_div (Fin x) (Fin y) = to_double (x / y)"
| "num_div (Fin x) (Infinite s) = Fin 0"
| "num_div (Infinite s) (Fin x) = Infinite (s \<noteq> (x < 0))"
| "num_div (Infinite s) (Infinite t) = NotANumber"
| "num_div NotANumber y = NotANumber"
| "num_div x NotANumber = NotANumber"

end
