(* ===== verification/Formula_Evaluator.thy ===== *)
theory Formula_Evaluator
  imports Js_Value Js_Double
begin

text \<open>
  \<open>src/core/kpi/formula-evaluator.ts\<close>: the sandboxed arithmetic language of derived KPIs, its
  tokenizer and its single-pass parser and evaluator. A thrown \<open>FormulaError\<close> is \<open>Inl\<close> its
  message; \<open>null\<close> is \<open>None\<close>. The evaluator's position in the token array is the list of the
  tokens that are left.
\<close>

section \<open>Tokenizer\<close>

datatype TokenKind = NumberToken | IdentToken | OpToken

record FormulaToken =
  tok_kind :: TokenKind
  tok_text :: string
  tok_pos :: nat

definition OPERATOR_CHARS :: "char list" where
  "OPERATOR_CHARS = ''+-*/()''"

definition isWhitespace :: "char \<Rightarrow> bool" where
  "isWhitespace c \<longleftrightarrow> (of_char c :: nat) \<in> {32, 9, 10, 13, 12, 11}"

definition isDigit :: "char \<Rightarrow> bool" where
  "isDigit c \<longleftrightarrow> (let n = (of_char c :: nat) in 48 \<le> n \<and> n \<le> 57)"

definition isIdentStart :: "char \<Rightarrow> bool" where
  "isIdentStart c \<longleftrightarrow> (let n = (of_char c :: nat) in 97 \<le> n \<and> n \<le> 122 \<or> 65 \<le> n \<and> n \<le> 90 \<or> c = CHR ''_'')"

definition isIdentPart :: "char \<Rightarrow> bool" where
  "isIdentPart c \<longleftrightarrow> isIdentStart c \<or> isDigit c"

text \<open>The inner loop over a number, after its first digit: what it takes and what it leaves.\<close>

fun scan_number :: "bool \<Rightarrow> string \<Rightarrow> string \<times> string" where
  "scan_number seenDot [] = ([], [])"
| "scan_number seenDot (c # cs) =
     (if isDigit c then (let (a, b) = scan_number seenDot cs in (c # a, b))
      else if c = CHR ''.'' \<and> \<not> seenDot then (let (a, b) = scan_number True cs in (c # a, b))
      else ([], c # cs))"

lemma scan_number_length: "length (snd (scan_number d s)) \<le> length s"
  by (induction d s rule: scan_number.induct) (auto split: prod.splits)

function tokenize :: "nat \<Rightarrow> string \<Rightarrow> string + FormulaToken list" where
  "tokenize i [] = Inr []"
| "tokenize i (c # cs) =
     (if isWhitespace c then tokenize (i + 1) cs
      else if c \<in> set OPERATOR_CHARS
      then map_sum id (\<lambda>ts. \<lparr>tok_kind = OpToken, tok_text = [c], tok_pos = i\<rparr> # ts) (tokenize (i + 1) cs)
      else if isDigit c
      then map_sum id (\<lambda>ts. \<lparr>tok_kind = NumberToken, tok_text = c # fst (scan_number False cs), tok_pos = i\<rparr> # ts)
             (tokenize (i + 1 + length (fst (scan_number False cs))) (snd (scan_number False cs)))
      else if isIdentStart c
      then map_sum id (\<lambda>ts. \<lparr>tok_kind = IdentToken, tok_text = c # takeWhile isIdentPart cs, tok_pos = i\<rparr> # ts)
             (tokenize (i + 1 + length (takeWhile isIdentPart cs)) (dropWhile isIdentPart cs))
      else Inl (''Unexpected character '' @ [CHR 0x27, c, CHR 0x27] @ '' at position '' @ show_int (int i)))"
  by pat_completeness auto
termination
  by (relation "measure (\<lambda>(i, s). length s)") (auto simp: less_Suc_eq_le scan_number_length length_dropWhile_le)

section \<open>Operands\<close>

definition decimal :: "string \<Rightarrow> nat" where
  "decimal s = foldl (\<lambda>n c. n * 10 + (of_char c - 48)) 0 s"

text \<open>\<open>Number(text)\<close> of a number token: digits with at most one point.\<close>

definition number_of_text :: "string \<Rightarrow> jsnum" where
  "number_of_text s =
     (let whole = takeWhile isDigit s; fraction = drop (length whole + 1) s
      in to_double (of_nat (decimal (whole @ fraction)) / 10 ^ length fraction))"

definition resolveIdentifier :: "js \<Rightarrow> FormulaToken \<Rightarrow> string + jsnum" where
  "resolveIdentifier env t =
     (if tok_text t \<notin> set (js_keys env)
      then Inl (''Unknown identifier '' @ [CHR 0x27] @ tok_text t @ [CHR 0x27])
      else (case js_get env (tok_text t) of
              JNum q \<Rightarrow> Inr (Fin q)
            | _ \<Rightarrow> Inl (''Identifier '' @ [CHR 0x27] @ tok_text t @ [CHR 0x27] @ '' is not a finite number'')))"

text \<open>One operator of a sum or of a product, on values of which either may be \<open>null\<close>.\<close>

definition apply_additive :: "string \<Rightarrow> jsnum option \<Rightarrow> jsnum option \<Rightarrow> jsnum option" where
  "apply_additive op left right =
     (case (left, right) of
        (Some x, Some y) \<Rightarrow> Some (if op = ''+'' then num_add x y else num_sub x y)
      | _ \<Rightarrow> None)"

definition apply_multiplicative :: "string \<Rightarrow> jsnum option \<Rightarrow> jsnum option \<Rightarrow> jsnum option" where
  "apply_multiplicative op left right =
     (case (left, right) of
        (Some x, Some y) \<Rightarrow>
          if op = ''*'' then Some (num_mult x y) else if y = Fin 0 then None else Some (num_div x y)
      | _ \<Rightarrow> None)"

section \<open>Parser and evaluator\<close>

definition is_op :: "string set \<Rightarrow> FormulaToken \<Rightarrow> bool" where
  "is_op ops t \<longleftrightarrow> tok_kind t = OpToken \<and> tok_text t \<in> ops"

definition unexpected :: "string \<Rightarrow> FormulaToken \<Rightarrow> string" where
  "unexpected what t = ''Unexpected '' @ what @ [CHR 0x27] @ tok_text t @ [CHR 0x27] @ '' at position '' @ show_int (int (tok_pos t))"

definition expected_close :: "nat \<Rightarrow> string" where
  "expected_close pos = ''Expected '' @ [CHR 0x27] @ '')'' @ [CHR 0x27] @ '' at position '' @ show_int (int pos)"

type_synonym parsed = "string + jsnum option \<times> FormulaToken list"

function (sequential) parseExpr :: "js \<Rightarrow> FormulaToken list \<Rightarrow> parsed"
  and expr_loop :: "js \<Rightarrow> jsnum option \<Rightarrow> FormulaToken list \<Rightarrow> parsed"
  and parseTerm :: "js \<Rightarrow> FormulaToken list \<Rightarrow> parsed"
  and term_loop :: "js \<Rightarrow> jsnum option \<Rightarrow> FormulaToken list \<Rightarrow> parsed"
  and parseFactor :: "js \<Rightarrow> FormulaToken list \<Rightarrow> parsed" where
  "parseExpr env ts =
     (case parseTerm env ts of Inl e \<Rightarrow> Inl e | Inr (left, rest) \<Rightarrow> expr_loop env left rest)"
| "expr_loop env left [] = Inr (left, [])"
| "expr_loop env left (t # ts) =
     (if \<not> is_op {''+'', ''-''} t then Inr (left, t # ts)
      else (case parseTerm env ts of
              Inl e \<Rightarrow> Inl e
            | Inr (right, rest) \<Rightarrow> expr_loop env (apply_additive (tok_text t) left right) rest))"
| "parseTerm env ts =
     (case parseFactor env ts of Inl e \<Rightarrow> Inl e | Inr (left, rest) \<Rightarrow> term_loop env left rest)"
| "term_loop env left [] = Inr (left, [])"
| "term_loop env left (t # ts) =
     (if \<not> is_op {''*'', ''/''} t then Inr (left, t # ts)
      else (case parseFactor env ts of
              Inl e \<Rightarrow> Inl e
            | Inr (right, rest) \<Rightarrow> term_loop env (apply_multiplicative (tok_text t) left right) rest))"
| "parseFactor env [] = Inl ''Unexpected end of formula''"
| "parseFactor env (t # ts) =
     (if is_op {''-''} t
      then (case parseFactor env ts of
              Inl e \<Rightarrow> Inl e
            | Inr (operand, rest) \<Rightarrow> Inr (map_option num_neg operand, rest))
      else if is_op {''(''} t
      then (case parseExpr env ts of
              Inl e \<Rightarrow> Inl e
            | Inr (inner, []) \<Rightarrow> Inl (expected_close (tok_pos t))
            | Inr (inner, close # rest) \<Rightarrow>
                if is_op {'')''} close then Inr (inner, rest) else Inl (expected_close (tok_pos close)))
      else if tok_kind t = NumberToken then Inr (Some (number_of_text (tok_text t)), ts)
      else if tok_kind t = IdentToken
      then (case resolveIdentifier env t of Inl e \<Rightarrow> Inl e | Inr x \<Rightarrow> Inr (Some x, ts))
      else Inl (unexpected ''token '' t))"
  by pat_completeness auto

text \<open>Every operand consumes a token, so the parser terminates.\<close>

lemma parse_consumes:
  "parseExpr_expr_loop_parseTerm_term_loop_parseFactor_dom (Inl (Inl (ms, ts))) \<Longrightarrow>
     (\<forall>v rest. parseExpr ms ts = Inr (v, rest) \<longrightarrow> length rest < length ts)"
  "parseExpr_expr_loop_parseTerm_term_loop_parseFactor_dom (Inl (Inr (ms, left, ts))) \<Longrightarrow>
     (\<forall>v rest. expr_loop ms left ts = Inr (v, rest) \<longrightarrow> length rest \<le> length ts)"
  "parseExpr_expr_loop_parseTerm_term_loop_parseFactor_dom (Inr (Inl (ms, ts))) \<Longrightarrow>
     (\<forall>v rest. parseTerm ms ts = Inr (v, rest) \<longrightarrow> length rest < length ts)"
  "parseExpr_expr_loop_parseTerm_term_loop_parseFactor_dom (Inr (Inr (Inl (ms, left, ts)))) \<Longrightarrow>
     (\<forall>v rest. term_loop ms left ts = Inr (v, rest) \<longrightarrow> length rest \<le> length ts)"
  "parseExpr_expr_loop_parseTerm_term_loop_parseFactor_dom (Inr (Inr (Inr (ms, ts)))) \<Longrightarrow>
     (\<forall>v rest. parseFactor ms ts = Inr (v, rest) \<longrightarrow> length rest < length ts)"
proof (induction ms ts and ms left ts and ms ts and ms left ts and ms ts
    rule: parseExpr_expr_loop_parseTerm_term_loop_parseFactor.pinduct)
  case (1 env ts)
  then show ?case by (fastforce simp: parseExpr.psimps split: sum.splits)
next
  case (3 env left t ts)
  then show ?case by (fastforce simp: expr_loop.psimps split: sum.splits if_splits)
next
  case (4 env ts)
  then show ?case by (fastforce simp: parseTerm.psimps split: sum.splits)
next
  case (6 env left t ts)
  then show ?case by (fastforce simp: term_loop.psimps split: sum.splits if_splits)
next
  case (8 env t ts)
  then show ?case by (fastforce simp: parseFactor.psimps split: sum.splits if_splits list.splits)
qed (simp_all add: expr_loop.psimps term_loop.psimps parseFactor.psimps)

termination parseExpr
  by (relation "measure (\<lambda>x. case x of
        Inl (Inl (env, ts)) \<Rightarrow> 3 * length ts + 2
      | Inl (Inr (env, left, ts)) \<Rightarrow> 3 * length ts
      | Inr (Inl (env, ts)) \<Rightarrow> 3 * length ts + 1
      | Inr (Inr (Inl (env, left, ts))) \<Rightarrow> 3 * length ts
      | Inr (Inr (Inr (env, ts))) \<Rightarrow> 3 * length ts)")
    (auto dest: parse_consumes)

section \<open>The public function\<close>

definition evaluate_tokens :: "js \<Rightarrow> FormulaToken list \<Rightarrow> string + jsnum option" where
  "evaluate_tokens env ts =
     (if ts = [] then Inl ''Empty formula''
      else (case parseExpr env ts of
              Inl e \<Rightarrow> Inl e
            | Inr (v, []) \<Rightarrow> Inr v
            | Inr (v, leftover # _) \<Rightarrow> Inl (unexpected ''trailing token '' leftover)))"

definition evaluateFormula :: "js \<Rightarrow> js \<Rightarrow> string + jsnum option" where
  "evaluateFormula formula env =
     (case formula of
        JStr s \<Rightarrow> (case tokenize 0 s of Inl e \<Rightarrow> Inl e | Inr ts \<Rightarrow> evaluate_tokens env ts)
      | _ \<Rightarrow> Inl ''Formula must be a string'')"

declare parseExpr.simps [simp del] parseTerm.simps [simp del]

end
