(* ===== verification/Formula_Correct.thy ===== *)
theory Formula_Correct
  imports Formula_Evaluator
begin

text \<open>
  The formula language as a grammar with a meaning, independent of the parser: the evaluator
  returns a value exactly for the token texts of a grammatical expression, and the value is its
  meaning. From this follow the sandbox (only own finite measures are read) and the round trip
  from an expression through its text.
\<close>

section \<open>Expressions\<close>

datatype formula =
    Literal string | Measure string | Negate formula | Group formula | Binary string formula formula

fun is_factor :: "formula \<Rightarrow> bool" and is_term :: "formula \<Rightarrow> bool" and is_expr :: "formula \<Rightarrow> bool" where
  "is_factor (Literal s) = True"
| "is_factor (Measure s) = True"
| "is_factor (Negate e) = is_factor e"
| "is_factor (Group e) = is_expr e"
| "is_factor (Binary op a b) = False"
| "is_term (Binary op a b) = (op \<in> {''*'', ''/''} \<and> is_term a \<and> is_factor b)"
| "is_term e = is_factor e"
| "is_expr (Binary op a b) =
     (op \<in> {''+'', ''-''} \<and> is_expr a \<and> is_term b \<or> op \<in> {''*'', ''/''} \<and> is_term a \<and> is_factor b)"
| "is_expr e = is_factor e"

fun print :: "formula \<Rightarrow> (TokenKind \<times> string) list" where
  "print (Literal s) = [(NumberToken, s)]"
| "print (Measure s) = [(IdentToken, s)]"
| "print (Negate e) = (OpToken, ''-'') # print e"
| "print (Group e) = (OpToken, ''('') # print e @ [(OpToken, '')'')]"
| "print (Binary op a b) = print a @ (OpToken, op) # print b"

definition own_number :: "js \<Rightarrow> string \<Rightarrow> jsnum option" where
  "own_number env s =
     (if s \<in> set (js_keys env) then (case js_get env s of JNum q \<Rightarrow> Some (Fin q) | _ \<Rightarrow> None) else None)"

text \<open>The meaning: undefined when a measure is missing, \<open>Some None\<close> for no data.\<close>

fun meaning :: "js \<Rightarrow> formula \<Rightarrow> jsnum option option" where
  "meaning env (Literal s) = Some (Some (number_of_text s))"
| "meaning env (Measure s) = map_option Some (own_number env s)"
| "meaning env (Negate e) = map_option (map_option num_neg) (meaning env e)"
| "meaning env (Group e) = meaning env e"
| "meaning env (Binary op a b) =
     Option.bind (meaning env a) (\<lambda>x. map_option (\<lambda>y.
       if op \<in> {''+'', ''-''} then apply_additive op x y else apply_multiplicative op x y) (meaning env b))"

lemma is_term_factor: "is_factor e \<Longrightarrow> is_term e"
  by (cases e) simp_all

lemma is_expr_term: "is_term e \<Longrightarrow> is_expr e"
  by (cases e) simp_all

section \<open>The tokens without their positions\<close>

definition plain :: "FormulaToken \<Rightarrow> TokenKind \<times> string" where
  "plain t = (tok_kind t, tok_text t)"

lemma is_op_iff: "is_op ops t \<longleftrightarrow> (\<exists>s \<in> ops. plain t = (OpToken, s))"
  by (auto simp: is_op_def plain_def)

lemma plain_token [simp]: "plain \<lparr>tok_kind = k, tok_text = s, tok_pos = i\<rparr> = (k, s)"
  by (simp add: plain_def)

lemma own_number_Some: "own_number env s \<noteq> None \<Longrightarrow> \<exists>q. s \<in> set (js_keys env) \<and> js_get env s = JNum q"
  by (simp add: own_number_def split: if_splits js.splits)

lemma resolve_Inr: "resolveIdentifier env t = Inr x \<longleftrightarrow> own_number env (snd (plain t)) = Some x"
  by (simp add: resolveIdentifier_def own_number_def plain_def split: js.split)

lemma additive_expr:
  assumes "is_op {''+'', ''-''} t" "is_expr a" "is_term b" "meaning env a = Some l" "meaning env b = Some r"
  shows "\<exists>op. plain t = (OpToken, op) \<and> is_expr (Binary op a b) \<and>
    meaning env (Binary op a b) = Some (apply_additive (tok_text t) l r)"
proof -
  from assms(1) obtain op where op: "op \<in> {''+'', ''-''}" "plain t = (OpToken, op)" by (auto simp: is_op_iff)
  then have "tok_text t = op" by (simp add: plain_def)
  with op assms(2-5) show ?thesis by (intro exI [of _ op]) auto
qed

lemma multiplicative_term:
  assumes "is_op {''*'', ''/''} t" "is_term a" "is_factor b" "meaning env a = Some l" "meaning env b = Some r"
  shows "\<exists>op. plain t = (OpToken, op) \<and> is_term (Binary op a b) \<and>
    meaning env (Binary op a b) = Some (apply_multiplicative (tok_text t) l r)"
proof -
  from assms(1) obtain op where op: "op \<in> {''*'', ''/''}" "plain t = (OpToken, op)" by (auto simp: is_op_iff)
  then have "tok_text t = op" by (simp add: plain_def)
  with op assms(2-5) show ?thesis by (intro exI [of _ op]) auto
qed

lemma plain_simps [simp]: "tok_kind t = fst (plain t)" "tok_text t = snd (plain t)"
  by (simp_all add: plain_def)

section \<open>Soundness\<close>

lemma parse_sound:
  "\<forall>v rest. parseExpr env ts = Inr (v, rest) \<longrightarrow>
     (\<exists>e. is_expr e \<and> map plain ts = print e @ map plain rest \<and> meaning env e = Some v)"
  "\<forall>v rest a. expr_loop env left ts = Inr (v, rest) \<longrightarrow> is_expr a \<longrightarrow> meaning env a = Some left \<longrightarrow>
     (\<exists>e. is_expr e \<and> print a @ map plain ts = print e @ map plain rest \<and> meaning env e = Some v)"
  "\<forall>v rest. parseTerm env ts = Inr (v, rest) \<longrightarrow>
     (\<exists>e. is_term e \<and> map plain ts = print e @ map plain rest \<and> meaning env e = Some v)"
  "\<forall>v rest a. term_loop env left ts = Inr (v, rest) \<longrightarrow> is_term a \<longrightarrow> meaning env a = Some left \<longrightarrow>
     (\<exists>e. is_term e \<and> print a @ map plain ts = print e @ map plain rest \<and> meaning env e = Some v)"
  "\<forall>v rest. parseFactor env ts = Inr (v, rest) \<longrightarrow>
     (\<exists>e. is_factor e \<and> map plain ts = print e @ map plain rest \<and> meaning env e = Some v)"
proof (induction env ts and env left ts and env ts and env left ts and env ts
    rule: parseExpr_expr_loop_parseTerm_term_loop_parseFactor.induct)
  case (1 env ts)
  show ?case
  proof (intro allI impI)
    fix v rest assume "parseExpr env ts = Inr (v, rest)"
    then obtain left r where l: "parseTerm env ts = Inr (left, r)" "expr_loop env left r = Inr (v, rest)"
      by (auto simp: parseExpr.simps split: sum.splits)
    from 1(1) l(1) obtain a where a: "is_term a" "map plain ts = print a @ map plain r" "meaning env a = Some left"
      by blast
    from 1(2) [OF l(1) refl] l(2) is_expr_term [OF a(1)] a(2,3)
    show "\<exists>e. is_expr e \<and> map plain ts = print e @ map plain rest \<and> meaning env e = Some v" by metis
  qed
next
  case (3 env left t ts)
  show ?case
  proof (intro allI impI)
    fix v rest a
    assume run: "expr_loop env left (t # ts) = Inr (v, rest)" and a: "is_expr a" "meaning env a = Some left"
    show "\<exists>e. is_expr e \<and> print a @ map plain (t # ts) = print e @ map plain rest \<and> meaning env e = Some v"
    proof (cases "is_op {''+'', ''-''} t")
      case False
      with run a show ?thesis by (intro exI [of _ a]) simp
    next
      case True
      with run obtain right r where p: "parseTerm env ts = Inr (right, r)"
        "expr_loop env (apply_additive (tok_text t) left right) r = Inr (v, rest)"
        by (auto split: sum.splits)
      from 3(1) True p(1) obtain b where b: "is_term b" "map plain ts = print b @ map plain r"
        "meaning env b = Some right" by blast
      from additive_expr [OF True a(1) b(1) a(2) b(3)] obtain op where op: "plain t = (OpToken, op)"
        "is_expr (Binary op a b)" "meaning env (Binary op a b) = Some (apply_additive (tok_text t) left right)" by blast
      from 3(2) [OF _ p(1) refl] True p(2) op(2,3) obtain e where "is_expr e"
        "print (Binary op a b) @ map plain r = print e @ map plain rest" "meaning env e = Some v" by blast
      with b(2) op(1) show ?thesis by (intro exI [of _ e]) simp
    qed
  qed
next
  case (4 env ts)
  show ?case
  proof (intro allI impI)
    fix v rest assume "parseTerm env ts = Inr (v, rest)"
    then obtain left r where l: "parseFactor env ts = Inr (left, r)" "term_loop env left r = Inr (v, rest)"
      by (auto simp: parseTerm.simps split: sum.splits)
    from 4(1) l(1) obtain a where a: "is_factor a" "map plain ts = print a @ map plain r" "meaning env a = Some left"
      by blast
    from 4(2) [OF l(1) refl] l(2) is_term_factor [OF a(1)] a(2,3)
    show "\<exists>e. is_term e \<and> map plain ts = print e @ map plain rest \<and> meaning env e = Some v" by metis
  qed
next
  case (6 env left t ts)
  show ?case
  proof (intro allI impI)
    fix v rest a
    assume run: "term_loop env left (t # ts) = Inr (v, rest)" and a: "is_term a" "meaning env a = Some left"
    show "\<exists>e. is_term e \<and> print a @ map plain (t # ts) = print e @ map plain rest \<and> meaning env e = Some v"
    proof (cases "is_op {''*'', ''/''} t")
      case False
      with run a show ?thesis by (intro exI [of _ a]) simp
    next
      case True
      with run obtain right r where p: "parseFactor env ts = Inr (right, r)"
        "term_loop env (apply_multiplicative (tok_text t) left right) r = Inr (v, rest)"
        by (auto split: sum.splits)
      from 6(1) True p(1) obtain b where b: "is_factor b" "map plain ts = print b @ map plain r"
        "meaning env b = Some right" by blast
      from multiplicative_term [OF True a(1) b(1) a(2) b(3)] obtain op where op: "plain t = (OpToken, op)"
        "is_term (Binary op a b)" "meaning env (Binary op a b) = Some (apply_multiplicative (tok_text t) left right)" by blast
      from 6(2) [OF _ p(1) refl] True p(2) op(2,3) obtain e where "is_term e"
        "print (Binary op a b) @ map plain r = print e @ map plain rest" "meaning env e = Some v" by blast
      with b(2) op(1) show ?thesis by (intro exI [of _ e]) simp
    qed
  qed
next
  case (8 env t ts)
  show ?case
  proof (intro allI impI)
    fix v rest assume run: "parseFactor env (t # ts) = Inr (v, rest)"
    consider (neg) "plain t = (OpToken, ''-'')" | (group) "plain t = (OpToken, ''('')"
      | (num) "fst (plain t) = NumberToken" | (ident) "fst (plain t) = IdentToken"
      using run by (auto simp: is_op_iff split: if_splits)
    then show "\<exists>e. is_factor e \<and> map plain (t # ts) = print e @ map plain rest \<and> meaning env e = Some v"
    proof cases
      case neg
      then have "is_op {''-''} t" by (simp add: is_op_iff)
      with run obtain x where "parseFactor env ts = Inr (x, rest)" "v = map_option num_neg x"
        by (auto split: sum.splits)
      with 8(1) \<open>is_op _ t\<close> obtain e where "is_factor e" "map plain ts = print e @ map plain rest"
        "meaning env e = Some x" by blast
      with neg \<open>v = _\<close> show ?thesis by (intro exI [of _ "Negate e"]) simp
    next
      case group
      then have g: "\<not> is_op {''-''} t" "is_op {''(''} t" by (simp_all add: is_op_iff)
      with run obtain c where c: "parseExpr env ts = Inr (v, c # rest)" "is_op {'')''} c"
        by (auto split: sum.splits list.splits if_splits)
      with 8(2) g obtain e where "is_expr e" "map plain ts = print e @ map plain (c # rest)"
        "meaning env e = Some v" by blast
      with group c(2) show ?thesis by (intro exI [of _ "Group e"]) (simp add: is_op_iff)
    next
      case num
      then have "\<not> is_op {''-''} t" "\<not> is_op {''(''} t" by (auto simp: is_op_iff)
      with run num have "v = Some (number_of_text (snd (plain t)))" "rest = ts" by auto
      with num show ?thesis by (intro exI [of _ "Literal (snd (plain t))"]) (simp add: prod_eq_iff)
    next
      case ident
      then have "\<not> is_op {''-''} t" "\<not> is_op {''(''} t" by (auto simp: is_op_iff)
      with run ident obtain x where "resolveIdentifier env t = Inr x" "v = Some x" "rest = ts"
        by (auto split: sum.splits)
      with ident show ?thesis by (intro exI [of _ "Measure (snd (plain t))"]) (simp add: prod_eq_iff resolve_Inr)
    qed
  qed
qed (auto intro: exI [of _ "_ :: formula"])

section \<open>Completeness\<close>

definition stops :: "string set \<Rightarrow> (TokenKind \<times> string) list \<Rightarrow> bool" where
  "stops ops r \<longleftrightarrow> (case r of [] \<Rightarrow> True | p # _ \<Rightarrow> p \<notin> Pair OpToken ` ops)"

lemma term_loop_stops: "stops {''*'', ''/''} (map plain ts) \<Longrightarrow> term_loop env v ts = Inr (v, ts)"
  by (cases ts) (auto simp: stops_def is_op_iff)

lemma expr_loop_stops: "stops {''+'', ''-''} (map plain ts) \<Longrightarrow> expr_loop env v ts = Inr (v, ts)"
  by (cases ts) (auto simp: stops_def is_op_iff)

lemma map_plain_Cons: "map plain ts = p # ps \<Longrightarrow> \<exists>t ts'. ts = t # ts' \<and> plain t = p \<and> map plain ts' = ps"
  by (cases ts) auto

lemma term_of_factor:
  assumes "\<exists>rest. parseFactor env ts = Inr (v, rest) \<and> map plain rest = r"
  shows "\<exists>rest. parseTerm env ts = term_loop env v rest \<and> map plain rest = r"
  using assms by (auto simp: parseTerm.simps)

lemma expr_of_term:
  assumes "\<exists>rest. parseTerm env ts = term_loop env v rest \<and> map plain rest = r" and "stops {''*'', ''/''} r"
  shows "\<exists>rest. parseExpr env ts = expr_loop env v rest \<and> map plain rest = r"
  using assms term_loop_stops by (auto simp: parseExpr.simps)

text \<open>The three levels of the grammar, each over all that may follow it.\<close>

definition factor_parses :: "js \<Rightarrow> formula \<Rightarrow> bool" where
  "factor_parses env e \<longleftrightarrow> (\<forall>ts r v. is_factor e \<longrightarrow> map plain ts = print e @ r \<longrightarrow> meaning env e = Some v \<longrightarrow>
     (\<exists>rest. parseFactor env ts = Inr (v, rest) \<and> map plain rest = r))"

definition term_parses :: "js \<Rightarrow> formula \<Rightarrow> bool" where
  "term_parses env e \<longleftrightarrow> (\<forall>ts r v. is_term e \<longrightarrow> map plain ts = print e @ r \<longrightarrow> meaning env e = Some v \<longrightarrow>
     (\<exists>rest. parseTerm env ts = term_loop env v rest \<and> map plain rest = r))"

definition expr_parses :: "js \<Rightarrow> formula \<Rightarrow> bool" where
  "expr_parses env e \<longleftrightarrow> (\<forall>ts r v. is_expr e \<longrightarrow> map plain ts = print e @ r \<longrightarrow> stops {''*'', ''/''} r \<longrightarrow>
     meaning env e = Some v \<longrightarrow> (\<exists>rest. parseExpr env ts = expr_loop env v rest \<and> map plain rest = r))"

lemma expr_parsesD:
  "expr_parses env e \<Longrightarrow> is_expr e \<Longrightarrow> map plain ts = print e @ r \<Longrightarrow> stops {''*'', ''/''} r \<Longrightarrow>
   meaning env e = Some v \<Longrightarrow> \<exists>rest. parseExpr env ts = expr_loop env v rest \<and> map plain rest = r"
  unfolding expr_parses_def by blast

lemma factor_level:
  assumes "factor_parses env e" and "is_term e \<longleftrightarrow> is_factor e" and "is_expr e \<longleftrightarrow> is_factor e"
  shows "term_parses env e \<and> expr_parses env e"
proof -
  have t: "term_parses env e"
    unfolding term_parses_def using assms(1,2) term_of_factor unfolding factor_parses_def by blast
  then have "expr_parses env e"
    unfolding expr_parses_def using assms(2,3) expr_of_term unfolding term_parses_def by blast
  with t show ?thesis by blast
qed

lemma negate_parses: "factor_parses env e \<Longrightarrow> factor_parses env (Negate e)"
  unfolding factor_parses_def
proof (intro allI impI)
  fix ts r v
  assume IH: "\<forall>ts r v. is_factor e \<longrightarrow> map plain ts = print e @ r \<longrightarrow> meaning env e = Some v \<longrightarrow>
      (\<exists>rest. parseFactor env ts = Inr (v, rest) \<and> map plain rest = r)"
    and e: "is_factor (Negate e)" "map plain ts = print (Negate e) @ r" "meaning env (Negate e) = Some v"
  from e(2) obtain t ts' where t: "ts = t # ts'" "plain t = (OpToken, ''-'')" "map plain ts' = print e @ r"
    using map_plain_Cons by fastforce
  from e(3) obtain x where x: "meaning env e = Some x" "v = map_option num_neg x" by auto
  from IH e(1) t(3) x(1) obtain rest where "parseFactor env ts' = Inr (x, rest)" "map plain rest = r" by auto
  with t x show "\<exists>rest. parseFactor env ts = Inr (v, rest) \<and> map plain rest = r"
    by (simp add: is_op_iff)
qed

lemma group_parses: "expr_parses env e \<Longrightarrow> factor_parses env (Group e)"
  unfolding factor_parses_def
proof (intro allI impI)
  fix ts r v
  assume IH: "expr_parses env e"
    and e: "is_factor (Group e)" "map plain ts = print (Group e) @ r" "meaning env (Group e) = Some v"
  from e(2) obtain t ts' where t: "ts = t # ts'" "plain t = (OpToken, ''('')"
    "map plain ts' = print e @ (OpToken, '')'') # r"
    using map_plain_Cons by fastforce
  have stop: "stops {''*'', ''/''} ((OpToken, '')'') # r)" by (auto simp: stops_def)
  have ge: "is_expr e" "meaning env e = Some v" using e(1,3) by simp_all
  have "\<exists>rest. parseExpr env ts' = expr_loop env v rest \<and> map plain rest = (OpToken, '')'') # r"
    by (rule expr_parsesD [OF IH ge(1) t(3) stop ge(2)])
  then obtain rest where rest:
    "parseExpr env ts' = expr_loop env v rest" "map plain rest = (OpToken, '')'') # r" by (elim exE conjE)
  then have "parseExpr env ts' = Inr (v, rest)" by (auto simp: expr_loop_stops stops_def)
  moreover from rest(2) obtain c rest' where "rest = c # rest'" "plain c = (OpToken, '')'')" "map plain rest' = r"
    using map_plain_Cons by blast
  ultimately show "\<exists>rest. parseFactor env ts = Inr (v, rest) \<and> map plain rest = r"
    using t by (simp add: is_op_iff)
qed

lemma product_parses:
  assumes "term_parses env a" "factor_parses env b" "op \<in> {''*'', ''/''}"
  shows "term_parses env (Binary op a b)"
  unfolding term_parses_def
proof (intro allI impI)
  fix ts r v
  assume e: "is_term (Binary op a b)" "map plain ts = print (Binary op a b) @ r" "meaning env (Binary op a b) = Some v"
  from e(3) assms(3) obtain x y where xy: "meaning env a = Some x" "meaning env b = Some y" "v = apply_multiplicative op x y"
    by (auto simp: bind_eq_Some_conv)
  from assms(1) e(1,2) xy(1) obtain rest where rest: "parseTerm env ts = term_loop env x rest"
    "map plain rest = (OpToken, op) # print b @ r" unfolding term_parses_def by fastforce
  then obtain t rest' where t: "rest = t # rest'" "plain t = (OpToken, op)" "map plain rest' = print b @ r"
    using map_plain_Cons by blast
  from assms(2) e(1) t(3) xy(2) obtain rest2 where "parseFactor env rest' = Inr (y, rest2)" "map plain rest2 = r"
    unfolding factor_parses_def by fastforce
  with rest(1) t xy(3) assms(3) show "\<exists>rest. parseTerm env ts = term_loop env v rest \<and> map plain rest = r"
    by (auto simp: is_op_iff)
qed

lemma sum_parses:
  assumes "expr_parses env a" "term_parses env b" "op \<in> {''+'', ''-''}"
    and e: "is_expr (Binary op a b)" "map plain ts = print (Binary op a b) @ r" "stops {''*'', ''/''} r"
      "meaning env (Binary op a b) = Some v"
  shows "\<exists>rest. parseExpr env ts = expr_loop env v rest \<and> map plain rest = r"
proof -
  from e(1) assms(3) have lv: "is_expr a" "is_term b" by auto
  from e(4) assms(3) obtain x y where xy: "meaning env a = Some x" "meaning env b = Some y" "v = apply_additive op x y"
    by (auto simp: bind_eq_Some_conv)
  have "stops {''*'', ''/''} ((OpToken, op) # print b @ r)" using assms(3) by (auto simp: stops_def)
  with assms(1) lv(1) e(2) xy(1) obtain rest where rest: "parseExpr env ts = expr_loop env x rest"
    "map plain rest = (OpToken, op) # print b @ r" unfolding expr_parses_def by fastforce
  then obtain t rest' where t: "rest = t # rest'" "plain t = (OpToken, op)" "map plain rest' = print b @ r"
    using map_plain_Cons by blast
  from assms(2) lv(2) t(3) xy(2) obtain rest2 where p: "parseTerm env rest' = term_loop env y rest2" "map plain rest2 = r"
    unfolding term_parses_def by fastforce
  with e(3) have "parseTerm env rest' = Inr (y, rest2)" by (simp add: term_loop_stops)
  with rest(1) t xy(3) assms(3) p(2) show ?thesis by (auto simp: is_op_iff)
qed

lemma parse_complete: "factor_parses env e \<and> term_parses env e \<and> expr_parses env e"
proof (induction e)
  case (Literal s)
  have "factor_parses env (Literal s)"
    unfolding factor_parses_def by (auto dest!: map_plain_Cons simp: is_op_iff)
  with factor_level [OF this] show ?case by simp
next
  case (Measure s)
  have "factor_parses env (Measure s)"
    unfolding factor_parses_def
  proof (intro allI impI)
    fix ts r v
    assume e: "map plain ts = print (Measure s) @ r" "meaning env (Measure s) = Some v"
    then obtain t ts' where t: "ts = t # ts'" "plain t = (IdentToken, s)" "map plain ts' = r"
      using map_plain_Cons by fastforce
    from e(2) obtain x where "own_number env s = Some x" "v = Some x" by auto
    with t have "resolveIdentifier env t = Inr x" by (simp add: resolve_Inr)
    with t \<open>v = Some x\<close> show "\<exists>rest. parseFactor env ts = Inr (v, rest) \<and> map plain rest = r"
      by (simp add: is_op_iff)
  qed
  with factor_level [OF this] show ?case by simp
next
  case (Negate e)
  with factor_level [of env "Negate e"] negate_parses show ?case by simp
next
  case (Group e)
  with factor_level [of env "Group e"] group_parses show ?case by simp
next
  case (Binary op a b)
  have f: "factor_parses env (Binary op a b)" by (simp add: factor_parses_def)
  have t: "term_parses env (Binary op a b)"
  proof (cases "op \<in> {''*'', ''/''}")
    case True
    with Binary product_parses show ?thesis by blast
  next
    case False
    then show ?thesis by (simp add: term_parses_def)
  qed
  have "expr_parses env (Binary op a b)"
    unfolding expr_parses_def
  proof (intro allI impI)
    fix ts r v
    assume e: "is_expr (Binary op a b)" "map plain ts = print (Binary op a b) @ r" "stops {''*'', ''/''} r"
      "meaning env (Binary op a b) = Some v"
    show "\<exists>rest. parseExpr env ts = expr_loop env v rest \<and> map plain rest = r"
    proof (cases "op \<in> {''+'', ''-''}")
      case True
      with sum_parses Binary e show ?thesis by blast
    next
      case False
      with e(1) have "is_term (Binary op a b)" by auto
      with t e(2,4) expr_of_term [OF _ e(3)] show ?thesis unfolding term_parses_def by blast
    qed
  qed
  with f t show ?case by blast
qed

section \<open>The evaluator on tokens\<close>

lemma evaluate_tokens_iff:
  "evaluate_tokens env ts = Inr v \<longleftrightarrow> (\<exists>e. is_expr e \<and> map plain ts = print e \<and> meaning env e = Some v)"
proof
  assume "evaluate_tokens env ts = Inr v"
  then have "parseExpr env ts = Inr (v, [])"
    by (auto simp: evaluate_tokens_def split: if_splits sum.splits list.splits)
  with parse_sound(1) [of env ts] show "\<exists>e. is_expr e \<and> map plain ts = print e \<and> meaning env e = Some v" by fastforce
next
  assume "\<exists>e. is_expr e \<and> map plain ts = print e \<and> meaning env e = Some v"
  then obtain e where e: "is_expr e" "map plain ts = print e @ []" "meaning env e = Some v" by auto
  have "print e \<noteq> []" by (cases e) auto
  with e(2) have "ts \<noteq> []" by auto
  have "stops {''*'', ''/''} []" by (simp add: stops_def)
  with parse_complete [of env e] e obtain rest where "parseExpr env ts = expr_loop env v rest" "map plain rest = []"
    unfolding expr_parses_def by blast
  with \<open>ts \<noteq> []\<close> show "evaluate_tokens env ts = Inr v" by (simp add: evaluate_tokens_def)
qed

section \<open>What a formula can read\<close>

lemma meaning_defined:
  "(\<exists>v. meaning env e = Some v) \<longleftrightarrow> (\<forall>s. (IdentToken, s) \<in> set (print e) \<longrightarrow> own_number env s \<noteq> None)"
proof (induction e)
  case (Binary op a b)
  have "(\<exists>v. meaning env (Binary op a b) = Some v) \<longleftrightarrow> (\<exists>v. meaning env a = Some v) \<and> (\<exists>v. meaning env b = Some v)"
    by (cases "meaning env a"; cases "meaning env b") simp_all
  with Binary show ?case by auto
qed auto

lemma meaning_cong:
  "(\<And>s. (IdentToken, s) \<in> set (print e) \<Longrightarrow> own_number env' s = own_number env s) \<Longrightarrow> meaning env' e = meaning env e"
proof (induction e)
  case (Binary op a b)
  then have "meaning env' a = meaning env a" "meaning env' b = meaning env b" by auto
  then show ?case by simp
qed auto

section \<open>The text of an expression\<close>

definition valid_token :: "TokenKind \<times> string \<Rightarrow> bool" where
  "valid_token p \<longleftrightarrow>
     (case p of
        (NumberToken, s) \<Rightarrow> s \<noteq> [] \<and> isDigit (hd s) \<and> scan_number False (tl s) = (tl s, [])
      | (IdentToken, s) \<Rightarrow> s \<noteq> [] \<and> isIdentStart (hd s) \<and> list_all isIdentPart (tl s)
      | (OpToken, s) \<Rightarrow> length s = 1 \<and> hd s \<in> set OPERATOR_CHARS)"

definition spaced :: "(TokenKind \<times> string) list \<Rightarrow> string" where
  "spaced ps = concat (map (\<lambda>p. snd p @ '' '') ps)"

text \<open>The classes of characters do not overlap.\<close>

lemma operator_chars: "set OPERATOR_CHARS = {CHR ''+'', CHR ''-'', CHR ''*'', CHR ''/'', CHR ''('', CHR '')''}"
  by (simp add: OPERATOR_CHARS_def)

lemma digit_only: "isDigit c \<Longrightarrow> \<not> isWhitespace c \<and> c \<notin> set OPERATOR_CHARS"
  unfolding operator_chars by (auto simp: isDigit_def isWhitespace_def Let_def)

lemma ident_only: "isIdentStart c \<Longrightarrow> \<not> isWhitespace c \<and> c \<notin> set OPERATOR_CHARS \<and> \<not> isDigit c"
  unfolding operator_chars by (auto simp: isIdentStart_def isDigit_def isWhitespace_def Let_def)

lemma operator_only: "c \<in> set OPERATOR_CHARS \<Longrightarrow> \<not> isWhitespace c"
  unfolding operator_chars by (auto simp: isWhitespace_def)

lemma space_only: "isWhitespace CHR '' ''" "\<not> isDigit CHR '' ''" "\<not> isIdentPart CHR '' ''" "CHR '' '' \<noteq> CHR ''.''"
  by (simp_all add: isWhitespace_def isDigit_def isIdentPart_def isIdentStart_def)

lemma scan_number_stops:
  "scan_number d s = (s, []) \<Longrightarrow> scan_number d (s @ CHR '' '' # r) = (s, CHR '' '' # r)"
  by (induction d s rule: scan_number.induct) (auto simp: space_only split: prod.splits if_splits)

lemma tokenize_space: "tokenize i (CHR '' '' # r) = tokenize (i + 1) r"
  by (simp add: space_only)

lemma tokenize_operator: "c \<in> set OPERATOR_CHARS \<Longrightarrow> tokenize i (c # cs) =
    map_sum id (\<lambda>ts. \<lparr>tok_kind = OpToken, tok_text = [c], tok_pos = i\<rparr> # ts) (tokenize (i + 1) cs)"
  using operator_only [of c] by simp

lemma tokenize_number: "isDigit c \<Longrightarrow> scan_number False cs = (a, b) \<Longrightarrow> tokenize i (c # cs) =
    map_sum id (\<lambda>ts. \<lparr>tok_kind = NumberToken, tok_text = c # a, tok_pos = i\<rparr> # ts) (tokenize (i + 1 + length a) b)"
  using digit_only [of c] by simp

lemma tokenize_ident: "isIdentStart c \<Longrightarrow> tokenize i (c # cs) =
    map_sum id (\<lambda>ts. \<lparr>tok_kind = IdentToken, tok_text = c # takeWhile isIdentPart cs, tok_pos = i\<rparr> # ts)
      (tokenize (i + 1 + length (takeWhile isIdentPart cs)) (dropWhile isIdentPart cs))"
  using ident_only [of c] by simp

declare tokenize.simps(2) [simp del]

lemma tokenize_token:
  assumes "valid_token p"
  shows "tokenize i (snd p @ '' '' @ r) =
    map_sum id (Cons \<lparr>tok_kind = fst p, tok_text = snd p, tok_pos = i\<rparr>) (tokenize (i + length (snd p) + 1) r)"
proof (cases p)
  case (Pair k s)
  with assms obtain c cs where s: "s = c # cs" by (cases k; cases s) (auto simp: valid_token_def)
  show ?thesis
  proof (cases k)
    case NumberToken
    with assms Pair s have c: "isDigit c" "scan_number False cs = (cs, [])" by (auto simp: valid_token_def)
    from tokenize_number [OF c(1) scan_number_stops [OF c(2), of r], of i] Pair s NumberToken show ?thesis
      by (simp add: tokenize_space)
  next
    case IdentToken
    with assms Pair s have c: "isIdentStart c" "list_all isIdentPart cs" by (auto simp: valid_token_def)
    have "takeWhile isIdentPart (cs @ CHR '' '' # r) = cs" "dropWhile isIdentPart (cs @ CHR '' '' # r) = CHR '' '' # r"
      using c(2) space_only(3) by (simp_all add: takeWhile_append dropWhile_append list_all_iff)
    with tokenize_ident [OF c(1), of i "cs @ CHR '' '' # r"] Pair s IdentToken show ?thesis
      by (simp add: tokenize_space)
  next
    case OpToken
    with assms Pair s have c: "c \<in> set OPERATOR_CHARS" "cs = []" by (auto simp: valid_token_def)
    from tokenize_operator [OF c(1), of i "CHR '' '' # r"] c(2) Pair s OpToken show ?thesis
      by (simp add: tokenize_space)
  qed
qed

lemma tokenize_spaced:
  "list_all valid_token ps \<Longrightarrow> \<exists>ts. tokenize i (spaced ps) = Inr ts \<and> map plain ts = ps"
proof (induction ps arbitrary: i)
  case (Cons p ps)
  then obtain ts where "tokenize (i + length (snd p) + 1) (spaced ps) = Inr ts" "map plain ts = ps" by auto
  with Cons.prems tokenize_token [of p i "spaced ps"] show ?case by (auto simp: spaced_def)
qed (simp add: spaced_def)

section \<open>No data\<close>

fun zero_division :: "js \<Rightarrow> formula \<Rightarrow> bool" where
  "zero_division env (Negate e) = zero_division env e"
| "zero_division env (Group e) = zero_division env e"
| "zero_division env (Binary op a b) =
     (zero_division env a \<or> zero_division env b \<or> op = ''/'' \<and> meaning env b = Some (Some (Fin 0)))"
| "zero_division env _ = False"

lemma meaning_null: "is_expr e \<Longrightarrow> meaning env e = Some v \<Longrightarrow> v = None \<longleftrightarrow> zero_division env e"
proof (induction e arbitrary: v)
  case (Negate e)
  then have "is_expr e" using is_expr_term is_term_factor by simp
  with Negate show ?case by auto
next
  case (Binary op a b)
  then have lv: "is_expr a" "is_expr b" "op \<in> {''+'', ''-'', ''*'', ''/''}"
    using is_expr_term is_term_factor by auto
  from Binary.prems(2) obtain x y where xy: "meaning env a = Some x" "meaning env b = Some y"
    "v = (if op \<in> {''+'', ''-''} then apply_additive op x y else apply_multiplicative op x y)"
    by (auto simp: bind_eq_Some_conv)
  from Binary.IH(1) [OF lv(1) xy(1)] Binary.IH(2) [OF lv(2) xy(2)] xy lv(3) show ?case
    by (cases x; cases y) (auto simp: apply_additive_def apply_multiplicative_def)
qed auto

section \<open>The properties\<close>

lemma evaluateFormula_iff:
  "evaluateFormula (JStr s) env = Inr v \<longleftrightarrow>
     (\<exists>ts e. tokenize 0 s = Inr ts \<and> is_expr e \<and> map plain ts = print e \<and> meaning env e = Some v)"
  using evaluate_tokens_iff by (auto simp: evaluateFormula_def split: sum.splits)

text \<open>
  C35 The evaluator implements the grammar: a formula evaluates to a value exactly when its
  tokens are those of an expression of the documented grammar whose meaning is that value;
  there, a value is \<open>null\<close> exactly when some divisor of the expression is zero.
\<close>

theorem formula_evaluator_exact:
  "evaluateFormula (JStr s) env = Inr v \<longleftrightarrow>
     (\<exists>ts e. tokenize 0 s = Inr ts \<and> is_expr e \<and> map plain ts = print e \<and> meaning env e = Some v \<and>
        (v = None \<longleftrightarrow> zero_division env e))"
  using evaluateFormula_iff [of s env v] meaning_null [of _ env v] by blast

text \<open>
  The sandbox: a formula that evaluates has read only own properties of the measures that
  are finite numbers, those its identifiers name, and any other measures that agree on them
  give the same result.
\<close>

theorem formula_sandbox:
  assumes "evaluateFormula (JStr s) env = Inr v" and "tokenize 0 s = Inr ts"
  shows "(\<forall>t \<in> set ts. tok_kind t = IdentToken \<longrightarrow>
      (\<exists>q. tok_text t \<in> set (js_keys env) \<and> js_get env (tok_text t) = JNum q)) \<and>
    (\<forall>env'. (\<forall>t \<in> set ts. tok_kind t = IdentToken \<longrightarrow> own_number env' (tok_text t) = own_number env (tok_text t)) \<longrightarrow>
      evaluateFormula (JStr s) env' = Inr v)"
proof -
  from assms obtain e where e: "is_expr e" "map plain ts = print e" "meaning env e = Some v"
    by (auto simp: evaluateFormula_iff)
  have idents: "(IdentToken, i) \<in> set (print e) \<longleftrightarrow> (\<exists>t \<in> set ts. tok_kind t = IdentToken \<and> tok_text t = i)" for i
  proof -
    have "(IdentToken, i) \<in> set (print e) \<longleftrightarrow> (IdentToken, i) \<in> plain ` set ts"
      by (simp add: e(2) [symmetric])
    also have "\<dots> \<longleftrightarrow> (\<exists>t \<in> set ts. plain t = (IdentToken, i))" by (auto simp: image_iff eq_commute)
    finally show ?thesis by (simp add: prod_eq_iff)
  qed
  have "own_number env (tok_text t) \<noteq> None" if "t \<in> set ts" "tok_kind t = IdentToken" for t
    using meaning_defined [of env e] e(3) idents that by blast
  then have "\<forall>t \<in> set ts. tok_kind t = IdentToken \<longrightarrow>
      (\<exists>q. tok_text t \<in> set (js_keys env) \<and> js_get env (tok_text t) = JNum q)"
    using own_number_Some by blast
  moreover have "evaluateFormula (JStr s) env' = Inr v"
    if "\<forall>t \<in> set ts. tok_kind t = IdentToken \<longrightarrow> own_number env' (tok_text t) = own_number env (tok_text t)" for env'
  proof -
    have "meaning env' e = meaning env e"
    proof (rule meaning_cong)
      fix i assume "(IdentToken, i) \<in> set (print e)"
      then obtain t where "t \<in> set ts" "tok_kind t = IdentToken" "tok_text t = i" by (auto simp only: idents)
      with that show "own_number env' i = own_number env i" by blast
    qed
    with e assms(2) show ?thesis unfolding evaluateFormula_iff by auto
  qed
  ultimately show ?thesis by blast
qed

text \<open>
  C36 The round trip: the text of an expression, its valid tokens written one after the other,
  evaluates to the meaning of that expression and to nothing else.
\<close>

theorem formula_roundtrip:
  assumes "is_expr e" and "list_all valid_token (print e)"
  shows "evaluateFormula (JStr (spaced (print e))) env = Inr v \<longleftrightarrow> meaning env e = Some v"
proof -
  obtain ts where ts: "tokenize 0 (spaced (print e)) = Inr ts" "map plain ts = print e"
    using tokenize_spaced [OF assms(2)] by blast
  have complete: "meaning env e = Some w \<Longrightarrow> evaluateFormula (JStr (spaced (print e))) env = Inr w" for w
    using ts assms(1) unfolding evaluateFormula_iff by blast
  show ?thesis
  proof
    assume run: "evaluateFormula (JStr (spaced (print e))) env = Inr v"
    then obtain e' where "print e' = print e" "meaning env e' = Some v"
      using ts by (auto simp: evaluateFormula_iff)
    then obtain w where "meaning env e = Some w" using meaning_defined [of env e] meaning_defined [of env e'] by auto
    with complete run show "meaning env e = Some v" by fastforce
  qed (rule complete)
qed

section \<open>Witnesses\<close>

definition sample_formula :: string where
  "sample_formula = ''-(cost - 1.5) / lines''"

theorem formula_sandbox_witness:
  "\<exists>ts. tokenize 0 sample_formula = Inr ts \<and>
     evaluateFormula (JStr sample_formula) (JObj [(''cost'', JNum 4), (''lines'', JNum 2), (''other'', JNull)]) =
       Inr (Some (Fin (- 5 / 4)))"
proof -
  have run: "evaluateFormula (JStr sample_formula) (JObj [(''cost'', JNum 4), (''lines'', JNum 2)]) =
      Inr (Some (Fin (- 5 / 4)))" by code_simp
  obtain ts where ts: "tokenize 0 sample_formula = Inr ts"
    using run by (auto simp: evaluateFormula_def split: sum.splits)
  have "own_number (JObj [(''cost'', JNum 4), (''lines'', JNum 2), (''other'', JNull)]) s =
      own_number (JObj [(''cost'', JNum 4), (''lines'', JNum 2)]) s" for s
    by (simp add: own_number_def)
  with formula_sandbox [OF run ts] ts show ?thesis by simp
qed

theorem formula_roundtrip_witness:
  "evaluateFormula (JStr ''2 * ( x + 1 ) '') (JObj [(''x'', JNum 3)]) = Inr (Some (Fin 8))"
proof -
  let ?e = "Binary ''*'' (Literal ''2'') (Group (Binary ''+'' (Measure ''x'') (Literal ''1'')))"
  have pre: "is_expr ?e" "list_all valid_token (print ?e)" "spaced (print ?e) = ''2 * ( x + 1 ) ''"
    "meaning (JObj [(''x'', JNum 3)]) ?e = Some (Some (Fin 8))"
    by code_simp+
  from formula_roundtrip [OF pre(1,2), of "JObj [(''x'', JNum 3)]" "Some (Fin 8)"] pre(3,4) show ?thesis by simp
qed

end
