(* ===== verification/Nervous_Authority.thy ===== *)
theory Nervous_Authority
  imports Js_Value Js_Double
begin

text \<open>
  \<open>src/nervous/action-registry.ts\<close>, \<open>authority-matrix.ts\<close> and \<open>decision-engine.ts\<close>, with the risk
  class of \<open>src/core/work-model.ts\<close>: which of the actions that a detector suggests may run
  without a user. Of an action its display name and description, which nothing reads, are left
  out; messages have the code's dashes and arrows replaced by ASCII ones. \<open>Number(text)\<close> is a
  parameter of the quiet hours.
\<close>

section \<open>Actions\<close>

datatype RiskLevel = RiskLow | RiskMedium | RiskHigh
datatype ApprovalPolicy = Autonomous | Suggest30m | Suggest5m | Approve
datatype ActionCategory = LowRisk | MediumRisk | HighRisk | SafetyFloor

record ActionDefinition =
  action_id :: string
  action_category :: ActionCategory
  defaultRisk :: RiskLevel
  requiredSafetyFloor :: "string list"
  reversible :: bool

definition action :: "string \<Rightarrow> ActionCategory \<Rightarrow> RiskLevel \<Rightarrow> string list \<Rightarrow> bool \<Rightarrow> ActionDefinition" where
  "action i c r required undo =
     \<lparr>action_id = i, action_category = c, defaultRisk = r, requiredSafetyFloor = required, reversible = undo\<rparr>"

definition ACTION_REGISTRY :: "ActionDefinition list" where
  "ACTION_REGISTRY =
     [action ''DEAD_EVENT_STREAM_CLEANUP'' LowRisk RiskLow [] False,
      action ''ORPHAN_TASK_ARCHIVE'' LowRisk RiskLow [] True,
      action ''LOG_ROTATION'' LowRisk RiskLow [] False,
      action ''CACHE_INVALIDATE'' LowRisk RiskLow [] False,
      action ''STALE_LOCK_RELEASE'' LowRisk RiskLow [] False,
      action ''IPC_DIR_CLEANUP'' LowRisk RiskLow [] False,
      action ''DEBT_TRENDING_REPORT'' LowRisk RiskLow [] False,
      action ''METRIC_EMIT'' LowRisk RiskLow [] False,
      action ''DIRECTIVES_WRITE'' MediumRisk RiskMedium [] True,
      action ''PROMPT_BUILDER_TWEAK'' MediumRisk RiskMedium [] True,
      action ''SKILL_ROUTING_ADJUST'' MediumRisk RiskMedium [] True,
      action ''DEBT_REPRIORITIZE'' MediumRisk RiskMedium [] True,
      action ''WORKER_RESPAWN'' MediumRisk RiskMedium [] False,
      action ''SCOPE_COLLISION_REORDER'' MediumRisk RiskMedium [] True,
      action ''ADR_DRAFT'' MediumRisk RiskMedium [] True,
      action ''RETRO_AUGMENT'' MediumRisk RiskMedium [] True,
      action ''AGENT_PERFORMANCE_FLAG'' MediumRisk RiskMedium [] True,
      action ''SPRINT_GATE_ADJUST'' MediumRisk RiskMedium [] True,
      action ''TASK_DEPENDENCY_REWIRE'' MediumRisk RiskMedium [] True,
      action ''SPRINT_START'' HighRisk RiskHigh [] False,
      action ''SPRINT_STOP'' HighRisk RiskHigh [] False,
      action ''SRC_MODIFICATION'' HighRisk RiskHigh [] True,
      action ''COMMIT_CREATE'' HighRisk RiskHigh [] True,
      action ''COMMIT_PUSH'' HighRisk RiskHigh [] False,
      action ''AGENT_DISABLE'' HighRisk RiskHigh [] True,
      action ''KILL_LIVE_SPRINT'' SafetyFloor RiskHigh [''KILL_LIVE_SPRINT''] False,
      action ''MANUAL_FILE_DELETE'' SafetyFloor RiskHigh [''MANUAL_FILE_DELETE''] False,
      action ''COST_OVER_THRESHOLD'' SafetyFloor RiskHigh [''COST_OVER_THRESHOLD''] False,
      action ''DESTRUCTIVE_GIT'' SafetyFloor RiskHigh [''DESTRUCTIVE_GIT''] False,
      action ''ADR_DEPRECATE_ACCEPTED'' SafetyFloor RiskHigh [''ADR_DEPRECATE_ACCEPTED''] False]"

definition ACTION_BY_ID :: "string \<Rightarrow> ActionDefinition option" where
  "ACTION_BY_ID i = map_of (rev (map (\<lambda>a. (action_id a, a)) ACTION_REGISTRY)) i"

definition getActionsByCategory :: "ActionCategory \<Rightarrow> ActionDefinition list" where
  "getActionsByCategory c = filter (\<lambda>a. action_category a = c) ACTION_REGISTRY"

definition isFencedSchedulerAction :: "string \<Rightarrow> bool" where
  "isFencedSchedulerAction i \<longleftrightarrow> i \<in> {''SCOPE_COLLISION_REORDER''}"

section \<open>Authority matrix\<close>

definition SAFETY_FLOOR :: "string list" where
  "SAFETY_FLOOR =
     [''KILL_LIVE_SPRINT'', ''MANUAL_FILE_DELETE'', ''COST_OVER_THRESHOLD'', ''DESTRUCTIVE_GIT'', ''ADR_DEPRECATE_ACCEPTED'']"

record AuthorityMatrix =
  matrix_mode :: string
  riskPolicyMap :: "RiskLevel \<Rightarrow> ApprovalPolicy"
  matrixOverrides :: "string \<Rightarrow> ApprovalPolicy option"
  safetyFloor :: "string list"

definition preset :: "string \<Rightarrow> ApprovalPolicy \<Rightarrow> ApprovalPolicy \<Rightarrow> ApprovalPolicy \<Rightarrow> AuthorityMatrix" where
  "preset mode low medium high =
     \<lparr>matrix_mode = mode,
      riskPolicyMap = (\<lambda>r. case r of RiskLow \<Rightarrow> low | RiskMedium \<Rightarrow> medium | RiskHigh \<Rightarrow> high),
      matrixOverrides = (\<lambda>_. None), safetyFloor = SAFETY_FLOOR\<rparr>"

definition STRICT_MATRIX :: AuthorityMatrix where
  "STRICT_MATRIX = preset ''strict'' Suggest30m Approve Approve"

definition BALANCED_MATRIX :: AuthorityMatrix where
  "BALANCED_MATRIX = preset ''balanced'' Autonomous Suggest30m Approve"

definition AUTOPILOT_MATRIX :: AuthorityMatrix where
  "AUTOPILOT_MATRIX = preset ''autopilot'' Autonomous Autonomous Suggest5m"

definition FULL_AUTO_MATRIX :: AuthorityMatrix where
  "FULL_AUTO_MATRIX = preset ''full-auto'' Autonomous Autonomous Autonomous"

definition MATRIX_BY_MODE :: "(string \<times> AuthorityMatrix) list" where
  "MATRIX_BY_MODE = [(''strict'', STRICT_MATRIX), (''balanced'', BALANCED_MATRIX),
     (''autopilot'', AUTOPILOT_MATRIX), (''full-auto'', FULL_AUTO_MATRIX)]"

definition getMatrixByMode :: "string \<Rightarrow> AuthorityMatrix option" where
  "getMatrixByMode mode = map_of MATRIX_BY_MODE mode"

definition isSafetyFloorAction :: "string \<Rightarrow> bool" where
  "isSafetyFloorAction i \<longleftrightarrow> i \<in> set SAFETY_FLOOR"

text \<open>Where a policy comes from; the code keeps it as the text of the reason.\<close>

datatype policy_source =
    FloorReason string | UserOverride string ApprovalPolicy | MatrixOverride ApprovalPolicy
  | RiskDefault RiskLevel ApprovalPolicy bool \<comment> \<open>the flag: an unregistered action\<close>
  | RiskGate policy_source

record policy_resolution =
  res_policy :: ApprovalPolicy
  res_isSafetyFloor :: bool
  res_reason :: policy_source

definition resolution_of ::
    "bool \<Rightarrow> bool \<Rightarrow> AuthorityMatrix \<Rightarrow> ActionDefinition \<Rightarrow> (string \<Rightarrow> ApprovalPolicy option) \<Rightarrow> policy_resolution" where
  "resolution_of locked unregistered matrix a userOverrides =
     (if locked then \<lparr>res_policy = Approve, res_isSafetyFloor = True, res_reason = FloorReason (action_id a)\<rparr>
      else (case userOverrides (action_id a) of
              Some p \<Rightarrow> \<lparr>res_policy = p, res_isSafetyFloor = False, res_reason = UserOverride (action_id a) p\<rparr>
            | None \<Rightarrow>
                (case matrixOverrides matrix (action_id a) of
                   Some p \<Rightarrow> \<lparr>res_policy = p, res_isSafetyFloor = False, res_reason = MatrixOverride p\<rparr>
                 | None \<Rightarrow>
                     (let p = riskPolicyMap matrix (defaultRisk a)
                      in \<lparr>res_policy = p, res_isSafetyFloor = False,
                          res_reason = RiskDefault (defaultRisk a) p unregistered\<rparr>))))"

definition resolvePolicy ::
    "AuthorityMatrix \<Rightarrow> string \<Rightarrow> (string \<Rightarrow> ApprovalPolicy option) \<Rightarrow> string + policy_resolution" where
  "resolvePolicy matrix i userOverrides =
     (case ACTION_BY_ID i of
        None \<Rightarrow> Inl (''Unknown action: '' @ i)
      | Some a \<Rightarrow> Inr (resolution_of (requiredSafetyFloor a \<noteq> [] \<or> i \<in> set SAFETY_FLOOR) False matrix a userOverrides))"

section \<open>Decision engine\<close>

record suggested_action =
  sug_id :: string
  sug_risk :: RiskLevel

definition DETECTOR_ACTION_FALLBACK :: "(string \<times> ActionCategory \<times> bool) list" where
  "DETECTOR_ACTION_FALLBACK =
     [(''BUILD_FAILURE_INVESTIGATE'', MediumRisk, True), (''INVESTIGATE_STALL'', MediumRisk, True),
      (''FORCE_EVALUATE'', MediumRisk, True), (''KILL_WORKERS'', HighRisk, False),
      (''NOTIFICATION_BRIDGE_REPAIR'', HighRisk, True)]"

definition fallback_action :: "suggested_action \<Rightarrow> ActionDefinition option" where
  "fallback_action s =
     map_option (\<lambda>(category, undo). action (sug_id s) category (sug_risk s) [] undo)
       (map_of DETECTOR_ACTION_FALLBACK (sug_id s))"

definition resolveFallbackPolicy ::
    "AuthorityMatrix \<Rightarrow> ActionDefinition \<Rightarrow> (string \<Rightarrow> ApprovalPolicy option) \<Rightarrow> policy_resolution" where
  "resolveFallbackPolicy matrix a userOverrides =
     resolution_of (requiredSafetyFloor a \<noteq> [] \<or> action_id a \<in> set (safetyFloor matrix)) True matrix a userOverrides"

record DecisionOutput =
  out_action :: ActionDefinition
  out_policy :: ApprovalPolicy
  out_risk :: RiskLevel
  out_isSafetyFloor :: bool
  out_reason :: policy_source

record NervousConfig =
  config_mode :: string
  actionOverrides :: "string \<Rightarrow> ApprovalPolicy option"
  risk_gate_enabled :: bool
  quietHours :: "(string \<times> string) option"

definition output_of :: "ActionDefinition \<Rightarrow> RiskLevel \<Rightarrow> policy_resolution \<Rightarrow> DecisionOutput" where
  "output_of a risk r =
     \<lparr>out_action = a, out_policy = res_policy r, out_risk = risk, out_isSafetyFloor = res_isSafetyFloor r,
      out_reason = res_reason r\<rparr>"

definition decide_one :: "AuthorityMatrix \<Rightarrow> (string \<Rightarrow> ApprovalPolicy option) \<Rightarrow> suggested_action \<Rightarrow> string + DecisionOutput option" where
  "decide_one matrix overrides s =
     (case ACTION_BY_ID (sug_id s) of
        Some a \<Rightarrow> map_sum id (\<lambda>r. Some (output_of a (sug_risk s) r)) (resolvePolicy matrix (sug_id s) overrides)
      | None \<Rightarrow>
          (case fallback_action s of
             None \<Rightarrow> Inr None
           | Some a \<Rightarrow> Inr (Some (output_of a (sug_risk s) (resolveFallbackPolicy matrix a overrides)))))"

fun decide_all ::
    "AuthorityMatrix \<Rightarrow> (string \<Rightarrow> ApprovalPolicy option) \<Rightarrow> suggested_action list \<Rightarrow> string + DecisionOutput list" where
  "decide_all matrix overrides [] = Inr []"
| "decide_all matrix overrides (s # ss) =
     result_bind (decide_one matrix overrides s) (\<lambda>x.
       result_bind (decide_all matrix overrides ss) (\<lambda>xs.
         Inr (case x of None \<Rightarrow> xs | Some y \<Rightarrow> y # xs)))"

section \<open>Risk class\<close>

datatype Capability =
    FsRead | FsWrite | Network | DbQuery | DbWrite | ErpRead | ErpWrite | Shell | CapApproval
  | ProviderPin | Gpu | TenantScope | McpTool

record RiskGateRequest =
  req_capabilities :: "Capability list option"
  req_capabilityTarget :: "string option"

definition HIGH_RISK_CAPABILITIES :: "Capability set" where
  "HIGH_RISK_CAPABILITIES = {ErpWrite, DbWrite, Shell}"

definition MEDIUM_RISK_CAPABILITIES :: "Capability set" where
  "MEDIUM_RISK_CAPABILITIES = {Network, FsWrite, ErpRead, DbQuery, CapApproval, ProviderPin, TenantScope, McpTool}"

definition word_char :: "char \<Rightarrow> bool" where
  "word_char c \<longleftrightarrow> (let n = (of_char c :: nat) in 48 \<le> n \<and> n \<le> 57 \<or> 65 \<le> n \<and> n \<le> 90 \<or> 97 \<le> n \<and> n \<le> 122 \<or> n = 95)"

definition verb_at :: "string \<Rightarrow> bool" where
  "verb_at s \<longleftrightarrow>
     list_ex (\<lambda>v. js_starts_with (js_lower s) v \<and>
         (case drop (length v) s of [] \<Rightarrow> True | c # _ \<Rightarrow> \<not> word_char c))
       [''send'', ''write'', ''create'', ''delete'', ''update'', ''exec'', ''drop'']"

text \<open>The pattern \<open>/\.(send|write|create|delete|update|exec|drop)\b/i\<close>.\<close>

fun high_risk_verb :: "string \<Rightarrow> bool" where
  "high_risk_verb [] = False"
| "high_risk_verb (c # cs) = (c = CHR ''.'' \<and> verb_at cs \<or> high_risk_verb cs)"

definition resolveRiskClass :: "RiskGateRequest \<Rightarrow> RiskLevel" where
  "resolveRiskClass req =
     (let caps = (case req_capabilities req of None \<Rightarrow> [] | Some cs \<Rightarrow> cs);
          verb = (case req_capabilityTarget req of None \<Rightarrow> [] | Some v \<Rightarrow> v)
      in if list_ex (\<lambda>c. c \<in> HIGH_RISK_CAPABILITIES) caps then RiskHigh
         else if high_risk_verb verb then RiskHigh
         else if list_ex (\<lambda>c. c \<in> MEDIUM_RISK_CAPABILITIES) caps then RiskMedium
         else RiskLow)"

definition gate_output :: "DecisionOutput \<Rightarrow> DecisionOutput" where
  "gate_output out =
     (if out_isSafetyFloor out then out
      else out\<lparr>out_policy := Approve, out_reason := RiskGate (out_reason out)\<rparr>)"

definition decide ::
    "NervousConfig \<Rightarrow> suggested_action list \<Rightarrow> RiskGateRequest option \<Rightarrow> string + DecisionOutput list" where
  "decide config suggested request =
     (case getMatrixByMode (config_mode config) of
        None \<Rightarrow> Inl (''Invalid authority mode: '' @ config_mode config)
      | Some matrix \<Rightarrow>
          result_bind (decide_all matrix (actionOverrides config) suggested) (\<lambda>outputs.
            Inr (case request of
                   None \<Rightarrow> outputs
                 | Some req \<Rightarrow>
                     if risk_gate_enabled config \<and> resolveRiskClass req = RiskHigh
                     then map gate_output outputs else outputs)))"

section \<open>Quiet hours\<close>

datatype Severity = Info | Warning | CriticalSeverity | Emergency

fun num_le :: "jsnum \<Rightarrow> jsnum \<Rightarrow> bool" where
  "num_le (Fin x) (Fin y) = (x \<le> y)"
| "num_le (Fin x) (Infinite s) = (\<not> s)"
| "num_le (Infinite s) (Fin x) = s"
| "num_le (Infinite s) (Infinite t) = (s \<or> \<not> t)"
| "num_le NotANumber y = False"
| "num_le x NotANumber = False"

definition num_less :: "jsnum \<Rightarrow> jsnum \<Rightarrow> bool" where
  "num_less x y \<longleftrightarrow> num_le x y \<and> \<not> num_le y x"

definition parseTimeToMinutes :: "(string \<Rightarrow> jsnum) \<Rightarrow> string \<Rightarrow> jsnum" where
  "parseTimeToMinutes to_number time =
     (case map to_number (js_split CHR '':'' time) of
        [] \<Rightarrow> Fin 0
      | [hours] \<Rightarrow> num_add (num_mult hours (Fin 60)) (Fin 0)
      | hours # minutes # _ \<Rightarrow> num_add (num_mult hours (Fin 60)) minutes)"

definition isInQuietHours :: "(string \<Rightarrow> jsnum) \<Rightarrow> nat \<Rightarrow> nat \<Rightarrow> string \<times> string \<Rightarrow> bool" where
  "isInQuietHours to_number hours minutes quiet =
     (let current = Fin (of_nat (hours * 60 + minutes));
          start = parseTimeToMinutes to_number (fst quiet); finish = parseTimeToMinutes to_number (snd quiet)
      in if num_le start finish then num_le start current \<and> num_less current finish
         else num_le start current \<or> num_less current finish)"

definition shouldDelay :: "(string \<Rightarrow> jsnum) \<Rightarrow> NervousConfig \<Rightarrow> Severity \<Rightarrow> nat \<Rightarrow> nat \<Rightarrow> bool" where
  "shouldDelay to_number config severity hours minutes =
     (case quietHours config of
        None \<Rightarrow> False
      | Some quiet \<Rightarrow>
          if severity = CriticalSeverity \<or> severity = Emergency then False
          else isInQuietHours to_number hours minutes quiet)"

section \<open>Worker authority\<close>

datatype WorkerRole = WAdmin | WEngineer | WOperator | WViewer

primrec WORKER_ROLE_CAPABILITY_MAP :: "WorkerRole \<Rightarrow> Capability set" where
  "WORKER_ROLE_CAPABILITY_MAP WAdmin =
     {FsRead, FsWrite, Network, DbQuery, DbWrite, ErpRead, ErpWrite, Shell, CapApproval, ProviderPin, Gpu, TenantScope, McpTool}"
| "WORKER_ROLE_CAPABILITY_MAP WEngineer =
     {FsRead, FsWrite, Network, DbQuery, DbWrite, ErpRead, Shell, CapApproval, ProviderPin, Gpu, McpTool}"
| "WORKER_ROLE_CAPABILITY_MAP WOperator = {FsRead, FsWrite, Network, DbQuery, ErpRead, Shell, McpTool}"
| "WORKER_ROLE_CAPABILITY_MAP WViewer = {FsRead, DbQuery, ErpRead}"

definition normalizeWorkerRole :: "string option \<Rightarrow> WorkerRole option" where
  "normalizeWorkerRole role =
     map_of [(''admin'', WAdmin), (''engineer'', WEngineer), (''operator'', WOperator), (''viewer'', WViewer)]
       (js_trim (js_lower (case role of None \<Rightarrow> [] | Some r \<Rightarrow> r)))"

record worker_actor =
  worker_id :: string
  worker_role :: "string option"
  worker_tenantId :: "string option"

datatype authority_level = PermitLevel | WarnLevel | DenyLevel

record WorkerAuthorityResult =
  auth_allowed :: bool
  auth_level :: authority_level
  auth_role :: "WorkerRole option"
  deniedCapabilities :: "Capability list"

text \<open>
  What the check emits and writes: the violation for \<open>emit\<close>, the audit event (of a sprint, a
  tenant and an actor), the console warning. The text of the reason is left out.
\<close>

datatype authority_effect =
    EmitViolation "string option" WorkerRole "Capability list" bool
  | AuditDenied string string string WorkerRole "Capability list" bool
  | WarnConsole

record enforcement_options =
  opt_enforceRbac :: "bool option"
  opt_emit :: bool
  opt_audit :: "(string option \<times> string option) option" \<comment> \<open>sprint and tenant of the context\<close>

definition checkWorkerAuthority ::
    "worker_actor option \<Rightarrow> Capability list option \<Rightarrow> enforcement_options \<Rightarrow>
     WorkerAuthorityResult \<times> authority_effect list" where
  "checkWorkerAuthority actor capabilities opts =
     (case normalizeWorkerRole (Option.bind actor worker_role) of
        None \<Rightarrow> (\<lparr>auth_allowed = True, auth_level = PermitLevel, auth_role = None, deniedCapabilities = []\<rparr>, [])
      | Some role \<Rightarrow>
          let required = (case capabilities of None \<Rightarrow> [] | Some cs \<Rightarrow> cs);
              denied = filter (\<lambda>c. c \<notin> WORKER_ROLE_CAPABILITY_MAP role) required;
              enforced = (opt_enforceRbac opts = Some True)
          in if denied = []
             then (\<lparr>auth_allowed = True, auth_level = PermitLevel, auth_role = Some role, deniedCapabilities = []\<rparr>, [])
             else (\<lparr>auth_allowed = (\<not> enforced), auth_level = (if enforced then DenyLevel else WarnLevel),
                    auth_role = Some role, deniedCapabilities = denied\<rparr>,
                   (if opt_emit opts then [EmitViolation (map_option worker_id actor) role denied enforced] else []) @
                   (case opt_audit opts of
                      None \<Rightarrow> []
                    | Some (sprint, tenant) \<Rightarrow>
                        [AuditDenied (case sprint of None \<Rightarrow> ''autonomous'' | Some i \<Rightarrow> i)
                           (case tenant of Some i \<Rightarrow> i
                            | None \<Rightarrow> (case Option.bind actor worker_tenantId of None \<Rightarrow> ''local'' | Some i \<Rightarrow> i))
                           (case actor of None \<Rightarrow> ''system'' | Some a \<Rightarrow> worker_id a) role denied enforced]) @
                   (if enforced then [] else [WarnConsole])))"

record AuthorizeExecutionResult =
  exec_allowed :: bool
  violations :: "Capability list"
  exec_enforced :: bool

definition authorizeExecution ::
    "worker_actor option \<Rightarrow> Capability list option \<Rightarrow> bool option \<Rightarrow> AuthorizeExecutionResult" where
  "authorizeExecution actor capabilities enforce =
     (let result = fst (checkWorkerAuthority actor capabilities
            \<lparr>opt_enforceRbac = enforce, opt_emit = False, opt_audit = None\<rparr>)
      in \<lparr>exec_allowed = auth_allowed result, violations = deniedCapabilities result,
          exec_enforced = (enforce = Some True)\<rparr>)"

end
