(* ===== verification/Panic_Gate.thy ===== *)
theory Panic_Gate
  imports Nervous_Authority
begin

text \<open>
  \<open>src/nervous/panic-gate.ts\<close>: the gate that a panic event passes before a worker is spawned.
  The asynchronous wait is the sequence of callbacks that the event loop runs: a poll, which
  finds the marker file in some state, or the deadline; a settled promise clears its timers.
\<close>

section \<open>Markers\<close>

datatype PanicGateDecision = Proceed | Approved | Rejected | TimeoutAutoProceed

text \<open>What a poll finds: no file, a file that cannot be read or parsed, or a JSON value.\<close>

datatype marker_file = Absent | Unreadable | Parsed js

definition isLockedPanicAction :: "string \<Rightarrow> bool" where
  "isLockedPanicAction i \<longleftrightarrow> i \<in> set SAFETY_FLOOR"

definition marker_rejects :: "js \<Rightarrow> bool" where
  "marker_rejects obj \<longleftrightarrow>
     js_get obj ''decision'' = JStr ''reject'' \<or> js_get obj ''decision'' = JStr ''rejected'' \<or>
     js_get obj ''rejectedVia'' \<noteq> JUndefined"

definition marker_accepts :: "js \<Rightarrow> bool" where
  "marker_accepts obj \<longleftrightarrow>
     js_get obj ''decision'' = JStr ''approve'' \<or> js_get obj ''decision'' = JStr ''approved'' \<or>
     js_get obj ''decision'' = JStr ''accept'' \<or> js_get obj ''decision'' = JStr ''accepted'' \<or>
     js_get obj ''acceptedAt'' \<noteq> JUndefined \<or> js_get obj ''acceptedBy'' \<noteq> JUndefined"

definition readDecisionFromMarker :: "marker_file \<Rightarrow> PanicGateDecision option" where
  "readDecisionFromMarker file =
     (case file of
        Parsed obj \<Rightarrow>
          if obj = JNull \<or> obj = JUndefined then None
          else if marker_rejects obj then Some Rejected
          else if marker_accepts obj then Some Approved
          else Some Rejected
      | _ \<Rightarrow> None)"

section \<open>The synchronous gate\<close>

datatype PanicGateMode = Advisory | BlockingWithTimeout

datatype gate_warning =
    FloorNeedsApproval string | AdvisoryProceed string | MustAwait string
  | FloorTimedOut string | AutoProceeding int string string | LethalBlocked string

definition evaluatePanicGate :: "string \<Rightarrow> PanicGateMode option \<Rightarrow> PanicGateDecision \<times> gate_warning list" where
  "evaluatePanicGate actionId mode =
     (if isLockedPanicAction actionId then (Rejected, [FloorNeedsApproval actionId])
      else if mode = None \<or> mode = Some Advisory then (Proceed, [AdvisoryProceed actionId])
      else (Proceed, [MustAwait actionId]))"

definition assertNotLethalWithoutApproval :: "string \<Rightarrow> bool \<times> gate_warning list" where
  "assertNotLethalWithoutApproval actionId =
     (if \<not> isLockedPanicAction actionId then (False, []) else (True, [LethalBlocked actionId]))"

section \<open>The wait\<close>

record gate_wait =
  wait_action :: string
  wait_task :: string
  wait_timeoutMs :: int

record gate_state =
  settled :: "PanicGateDecision option"
  gate_warnings :: "gate_warning list"

datatype gate_event = Poll marker_file | Deadline

definition DEFAULT_TIMEOUT_MS :: int where
  "DEFAULT_TIMEOUT_MS = 10000"

definition new_wait :: "string \<Rightarrow> string \<Rightarrow> int option \<Rightarrow> gate_wait" where
  "new_wait actionId taskId timeoutMs =
     \<lparr>wait_action = actionId, wait_task = taskId,
      wait_timeoutMs = (case timeoutMs of None \<Rightarrow> DEFAULT_TIMEOUT_MS | Some t \<Rightarrow> t)\<rparr>"

definition on_poll :: "marker_file \<Rightarrow> gate_state \<Rightarrow> gate_state" where
  "on_poll file st = (if settled st \<noteq> None then st else st\<lparr>settled := readDecisionFromMarker file\<rparr>)"

definition on_deadline :: "gate_wait \<Rightarrow> gate_state \<Rightarrow> gate_state" where
  "on_deadline w st =
     (if settled st \<noteq> None then st
      else if isLockedPanicAction (wait_action w)
      then st\<lparr>settled := Some Rejected, gate_warnings := gate_warnings st @ [FloorTimedOut (wait_action w)]\<rparr>
      else st\<lparr>settled := Some TimeoutAutoProceed,
              gate_warnings := gate_warnings st @ [AutoProceeding (wait_timeoutMs w) (wait_action w) (wait_task w)]\<rparr>)"

fun gate_callback :: "gate_wait \<Rightarrow> gate_event \<Rightarrow> gate_state \<Rightarrow> gate_state" where
  "gate_callback w (Poll file) st = on_poll file st"
| "gate_callback w Deadline st = on_deadline w st"

definition awaitPanicGateApproval :: "gate_wait \<Rightarrow> gate_event list \<Rightarrow> gate_state" where
  "awaitPanicGateApproval w events = fold (gate_callback w) events \<lparr>settled = None, gate_warnings = []\<rparr>"

section \<open>The first decisive callback\<close>

fun decisive :: "gate_event \<Rightarrow> bool" where
  "decisive (Poll file) = (readDecisionFromMarker file \<noteq> None)"
| "decisive Deadline = True"

fun decided_by :: "string \<Rightarrow> gate_event \<Rightarrow> PanicGateDecision option" where
  "decided_by actionId (Poll file) = readDecisionFromMarker file"
| "decided_by actionId Deadline = Some (if isLockedPanicAction actionId then Rejected else TimeoutAutoProceed)"

lemma settled_absorbing: "settled st \<noteq> None \<Longrightarrow> fold (gate_callback w) events st = st"
proof (induction events)
  case (Cons e es)
  then show ?case by (cases e) (auto simp: on_poll_def on_deadline_def)
qed simp

lemma wait_decided:
  "settled st = None \<Longrightarrow> settled (fold (gate_callback w) events st) =
     Option.bind (find decisive events) (decided_by (wait_action w))"
proof (induction events arbitrary: st)
  case (Cons e es)
  show ?case
  proof (cases "decisive e")
    case True
    with Cons.prems have "settled (gate_callback w e st) = decided_by (wait_action w) e"
      by (cases e) (simp_all add: on_poll_def on_deadline_def)
    moreover from True have "decided_by (wait_action w) e \<noteq> None" by (cases e) simp_all
    ultimately show ?thesis using True settled_absorbing [of "gate_callback w e st" w es] by simp
  next
    case False
    with Cons.prems have "settled (gate_callback w e st) = None"
      by (cases e) (simp_all add: on_poll_def)
    with False Cons.IH show ?thesis by simp
  qed
qed simp

lemma find_mem: "find P xs = Some x \<Longrightarrow> x \<in> set xs \<and> P x"
  by (auto simp: find_Some_iff)

section \<open>The property\<close>

text \<open>
  C38 The panic gate fails closed: a wait that reaches its deadline has settled; it is approved
  only by a marker that a poll read, that accepts and does not reject; and an action on the
  safety floor proceeds in neither form of the gate without such a marker, however often the
  marker is missing, unreadable or unrecognised.
\<close>

theorem panic_gate_fail_closed:
  "(Deadline \<in> set events \<longrightarrow> settled (awaitPanicGateApproval w events) \<noteq> None) \<and>
   (settled (awaitPanicGateApproval w events) = Some Approved \<longrightarrow>
      (\<exists>obj. Poll (Parsed obj) \<in> set events \<and> marker_accepts obj \<and> \<not> marker_rejects obj)) \<and>
   (isLockedPanicAction (wait_action w) \<longrightarrow>
      settled (awaitPanicGateApproval w events) \<in> {None, Some Approved, Some Rejected} \<and>
      fst (evaluatePanicGate (wait_action w) mode) = Rejected)"
proof -
  let ?s = "settled (awaitPanicGateApproval w events)"
  have s: "?s = Option.bind (find decisive events) (decided_by (wait_action w))"
    unfolding awaitPanicGateApproval_def by (rule wait_decided) simp
  have "?s \<noteq> None" if "Deadline \<in> set events"
  proof -
    from that have "find decisive events \<noteq> None" by (auto simp: find_None_iff intro: bexI [of _ Deadline])
    then obtain e where e: "find decisive events = Some e" "decisive e" using find_mem by fastforce
    then have "decided_by (wait_action w) e \<noteq> None" by (cases e) simp_all
    with s e(1) show ?thesis by simp
  qed
  moreover have "\<exists>obj. Poll (Parsed obj) \<in> set events \<and> marker_accepts obj \<and> \<not> marker_rejects obj"
    if app: "?s = Some Approved"
  proof -
    from app s obtain e where e: "find decisive events = Some e" "decided_by (wait_action w) e = Some Approved"
      by (auto simp: bind_eq_Some_conv)
    then obtain m where f: "e = Poll m" "readDecisionFromMarker m = Some Approved"
      by (cases e) (auto split: if_splits)
    then obtain obj where "m = Parsed obj" "marker_accepts obj" "\<not> marker_rejects obj"
      by (auto simp: readDecisionFromMarker_def split: marker_file.splits if_splits)
    with f find_mem [OF e(1)] show ?thesis by blast
  qed
  moreover have "?s \<in> {None, Some Approved, Some Rejected}" if "isLockedPanicAction (wait_action w)"
  proof (cases "find decisive events")
    case (Some e)
    with s that show ?thesis
      by (cases e) (auto simp: readDecisionFromMarker_def split: marker_file.splits)
  qed (simp add: s)
  ultimately show ?thesis by (auto simp: evaluatePanicGate_def)
qed

theorem panic_gate_fail_closed_witness:
  "settled (awaitPanicGateApproval (new_wait ''DESTRUCTIVE_GIT'' ''t'' None) [Poll Absent, Poll Unreadable, Deadline]) =
     Some Rejected"
proof -
  have locked: "isLockedPanicAction (wait_action (new_wait ''DESTRUCTIVE_GIT'' ''t'' None))" by code_simp
  from panic_gate_fail_closed [of "[Poll Absent, Poll Unreadable, Deadline]" "new_wait ''DESTRUCTIVE_GIT'' ''t'' None" None] locked
  show ?thesis by auto
qed

end
