(* ===== verification/Nervous_Correct.thy ===== *)
theory Nervous_Correct
  imports Panic_Gate
begin

text \<open>
  What the nervous system may do on its own: nothing on the safety floor, under any mode,
  override or gate; and a stricter mode or an enabled risk gate only tightens each policy.
\<close>

section \<open>Policies by strictness\<close>

primrec strictness :: "ApprovalPolicy \<Rightarrow> nat" where
  "strictness Autonomous = 0" | "strictness Suggest5m = 1" | "strictness Suggest30m = 2" | "strictness Approve = 3"

instantiation ApprovalPolicy :: linorder
begin
definition less_eq_ApprovalPolicy :: "ApprovalPolicy \<Rightarrow> ApprovalPolicy \<Rightarrow> bool" where
  "less_eq_ApprovalPolicy a b \<longleftrightarrow> strictness a \<le> strictness b"
definition less_ApprovalPolicy :: "ApprovalPolicy \<Rightarrow> ApprovalPolicy \<Rightarrow> bool" where
  "less_ApprovalPolicy a b \<longleftrightarrow> strictness a < strictness b"
instance
proof
  fix a b :: ApprovalPolicy
  show "a \<le> b \<Longrightarrow> b \<le> a \<Longrightarrow> a = b"
    by (cases a; cases b) (simp_all add: less_eq_ApprovalPolicy_def)
qed (auto simp: less_eq_ApprovalPolicy_def less_ApprovalPolicy_def)
end

lemma le_Approve [simp]: "p \<le> Approve"
  by (cases p) (simp_all add: less_eq_ApprovalPolicy_def)

section \<open>Outputs\<close>

lemma registered_id: "ACTION_BY_ID i = Some a \<Longrightarrow> action_id a = i"
  unfolding ACTION_BY_ID_def by (drule map_of_SomeD) auto

lemma fallback_id: "fallback_action s = Some a \<Longrightarrow> action_id a = sug_id s"
  by (auto simp: fallback_action_def action_def)

text \<open>The output for one suggestion never fails: its lookup has succeeded before.\<close>

definition output_for :: "AuthorityMatrix \<Rightarrow> (string \<Rightarrow> ApprovalPolicy option) \<Rightarrow> suggested_action \<Rightarrow> DecisionOutput option" where
  "output_for matrix overrides s =
     (case ACTION_BY_ID (sug_id s) of
        Some a \<Rightarrow> Some (output_of a (sug_risk s)
          (resolution_of (requiredSafetyFloor a \<noteq> [] \<or> sug_id s \<in> set SAFETY_FLOOR) False matrix a overrides))
      | None \<Rightarrow> map_option (\<lambda>a. output_of a (sug_risk s) (resolveFallbackPolicy matrix a overrides)) (fallback_action s))"

lemma decide_one_output: "decide_one matrix overrides s = Inr (output_for matrix overrides s)"
  by (simp add: decide_one_def output_for_def resolvePolicy_def split: option.split)

lemma decide_all_outputs:
  "decide_all matrix overrides ss = Inr (List.map_filter (output_for matrix overrides) ss)"
  by (induction ss) (simp_all add: decide_one_output map_filter_simps split: option.split)

lemma decide_Inr:
  assumes "decide config suggested request = Inr outs"
  obtains matrix where "getMatrixByMode (config_mode config) = Some matrix"
    "outs = List.map_filter (output_for matrix (actionOverrides config)) suggested \<or>
     outs = map gate_output (List.map_filter (output_for matrix (actionOverrides config)) suggested)"
    "\<not> risk_gate_enabled config \<longrightarrow> outs = List.map_filter (output_for matrix (actionOverrides config)) suggested"
  using assms by (fastforce simp: decide_def decide_all_outputs split: option.splits if_splits)

lemma preset_floor: "getMatrixByMode mode = Some matrix \<Longrightarrow> safetyFloor matrix = SAFETY_FLOOR \<and> matrixOverrides matrix = (\<lambda>_. None)"
  by (auto simp: getMatrixByMode_def MATRIX_BY_MODE_def STRICT_MATRIX_def BALANCED_MATRIX_def AUTOPILOT_MATRIX_def
      FULL_AUTO_MATRIX_def preset_def split: if_splits)

lemma output_locked:
  assumes "output_for matrix overrides s = Some out" and "safetyFloor matrix = SAFETY_FLOOR"
  shows "action_id (out_action out) = sug_id s \<and>
    (sug_id s \<in> set SAFETY_FLOOR \<longrightarrow> out_isSafetyFloor out) \<and> (out_isSafetyFloor out \<longrightarrow> out_policy out = Approve)"
  using assms registered_id [of "sug_id s"] fallback_id [of s]
  by (auto simp: output_for_def output_of_def resolveFallbackPolicy_def resolution_of_def Let_def split: option.splits if_splits)

lemma gate_output_simps [simp]:
  "out_action (gate_output out) = out_action out" "out_isSafetyFloor (gate_output out) = out_isSafetyFloor out"
  "out_policy (gate_output out) = (if out_isSafetyFloor out then out_policy out else Approve)"
  by (simp_all add: gate_output_def)

section \<open>The properties\<close>

text \<open>
  C18 The safety floor is locked: whatever the mode, the user's overrides, the risk a detector
  claims and the request, every decision about an action on the safety floor waits for an
  approval, and no decision is made about an action that was not suggested.
\<close>

theorem safety_floor_locked:
  assumes "decide config suggested request = Inr outs" and "out \<in> set outs"
  shows "(\<exists>s \<in> set suggested. action_id (out_action out) = sug_id s) \<and>
    (action_id (out_action out) \<in> set SAFETY_FLOOR \<or> out_isSafetyFloor out \<longrightarrow>
       out_policy out = Approve \<and> out_isSafetyFloor out)"
  using assms(1)
proof (rule decide_Inr)
  fix matrix
  assume m: "getMatrixByMode (config_mode config) = Some matrix"
    and outs: "outs = List.map_filter (output_for matrix (actionOverrides config)) suggested \<or>
      outs = map gate_output (List.map_filter (output_for matrix (actionOverrides config)) suggested)"
  have "\<exists>out0 \<in> set (List.map_filter (output_for matrix (actionOverrides config)) suggested). out = out0 \<or> out = gate_output out0"
    using outs assms(2) by auto
  then obtain out0 where out0: "out0 \<in> set (List.map_filter (output_for matrix (actionOverrides config)) suggested)"
    "out = out0 \<or> out = gate_output out0" by blast
  from out0(1) obtain s where s: "s \<in> set suggested" "output_for matrix (actionOverrides config) s = Some out0"
    by (auto simp: List.map_filter_def)
  with output_locked [OF s(2)] preset_floor [OF m] s(1) out0(2) show ?thesis by auto
qed

text \<open>The position of a mode in the table, from the strictest one.\<close>

definition mode_rank :: "string \<Rightarrow> nat" where
  "mode_rank mode = length (takeWhile (\<lambda>p. fst p \<noteq> mode) MATRIX_BY_MODE)"

lemma mode_ranks:
  "mode_rank ''strict'' = 0" "mode_rank ''balanced'' = 1" "mode_rank ''autopilot'' = 2" "mode_rank ''full-auto'' = 3"
  by code_simp+

lemma mode_cases:
  assumes "getMatrixByMode mode = Some m"
  shows "(mode_rank mode, riskPolicyMap m RiskLow, riskPolicyMap m RiskMedium, riskPolicyMap m RiskHigh) \<in>
    {(0, Suggest30m, Approve, Approve), (1, Autonomous, Suggest30m, Approve),
     (2, Autonomous, Autonomous, Suggest5m), (3, Autonomous, Autonomous, Autonomous)}"
proof -
  from assms have "(mode, m) \<in> set MATRIX_BY_MODE" by (auto simp: getMatrixByMode_def dest: map_of_SomeD)
  then consider "mode = ''strict''" "m = STRICT_MATRIX" | "mode = ''balanced''" "m = BALANCED_MATRIX"
    | "mode = ''autopilot''" "m = AUTOPILOT_MATRIX" | "mode = ''full-auto''" "m = FULL_AUTO_MATRIX"
    by (auto simp: MATRIX_BY_MODE_def)
  then show ?thesis
    by cases (simp_all add: mode_ranks STRICT_MATRIX_def BALANCED_MATRIX_def AUTOPILOT_MATRIX_def FULL_AUTO_MATRIX_def
        preset_def)
qed

lemma stricter_matrix:
  assumes "getMatrixByMode mode = Some m" "getMatrixByMode mode' = Some m'" "mode_rank mode \<le> mode_rank mode'"
  shows "riskPolicyMap m' r \<le> riskPolicyMap m r"
  using mode_cases [OF assms(1)] mode_cases [OF assms(2)] assms(3)
  by (cases r) (auto simp: less_eq_ApprovalPolicy_def)

definition tighter :: "DecisionOutput \<Rightarrow> DecisionOutput \<Rightarrow> bool" where
  "tighter a b \<longleftrightarrow> out_action a = out_action b \<and> out_isSafetyFloor a = out_isSafetyFloor b \<and> out_policy b \<le> out_policy a"

lemma resolution_tighter:
  assumes "matrixOverrides m = matrixOverrides m'" and "\<And>r. riskPolicyMap m' r \<le> riskPolicyMap m r"
  shows "tighter (output_of a risk (resolution_of locked u m a overrides)) (output_of a risk (resolution_of locked u m' a overrides))"
  using assms by (simp add: resolution_of_def tighter_def output_of_def Let_def split: option.split)

lemma output_tighter:
  assumes "safetyFloor m = safetyFloor m'" "matrixOverrides m = matrixOverrides m'"
    and "\<And>r. riskPolicyMap m' r \<le> riskPolicyMap m r"
  shows "rel_option tighter (output_for m overrides s) (output_for m' overrides s)"
  using resolution_tighter [OF assms(2,3)] assms(1)
  by (cases "ACTION_BY_ID (sug_id s)"; cases "fallback_action s") (simp_all add: output_for_def resolveFallbackPolicy_def)

lemma map_filter_rel:
  "(\<And>s. rel_option R (f s) (g s)) \<Longrightarrow> list_all2 R (List.map_filter f ss) (List.map_filter g ss)"
proof (induction ss)
  case (Cons s ss)
  from Cons.prems [of s] Cons.IH [OF Cons.prems] show ?case
    by (cases "f s"; cases "g s") (simp_all add: map_filter_simps)
qed (simp add: map_filter_simps)

lemma gate_tighter: "tighter a b \<Longrightarrow> tighter (gate_output a) b"
  by (auto simp: tighter_def)

text \<open>
  Strictness only tightens: with the same overrides, a mode that is at least as strict,
  with or without the risk gate on any request, decides about the same actions in the same
  order, and no policy of it is looser than the one of the other mode without the gate.
\<close>

theorem stricter_mode_only_tightens:
  assumes "decide (config\<lparr>config_mode := mode\<rparr>) suggested request = Inr outs"
    and "decide (config\<lparr>config_mode := mode', risk_gate_enabled := False\<rparr>) suggested request' = Inr outs'"
    and "mode_rank mode \<le> mode_rank mode'"
  shows "list_all2 tighter outs outs'"
  using assms(1)
proof (rule decide_Inr)
  fix m
  assume m: "getMatrixByMode (config_mode (config\<lparr>config_mode := mode\<rparr>)) = Some m"
    and outs: "outs = List.map_filter (output_for m (actionOverrides (config\<lparr>config_mode := mode\<rparr>))) suggested \<or>
      outs = map gate_output (List.map_filter (output_for m (actionOverrides (config\<lparr>config_mode := mode\<rparr>))) suggested)"
  obtain m' where m': "getMatrixByMode mode' = Some m'"
    "outs' = List.map_filter (output_for m' (actionOverrides config)) suggested"
    using assms(2) by (rule decide_Inr) simp
  have "rel_option tighter (output_for m (actionOverrides config) s) (output_for m' (actionOverrides config) s)" for s
    using output_tighter [of m m'] stricter_matrix [OF _ m'(1) assms(3), of m] preset_floor [of mode m]
      preset_floor [OF m'(1)] m by simp
  then have "list_all2 tighter (List.map_filter (output_for m (actionOverrides config)) suggested) outs'"
    unfolding m'(2) by (rule map_filter_rel)
  moreover from this have "list_all2 tighter (map gate_output (List.map_filter (output_for m (actionOverrides config)) suggested)) outs'"
    unfolding list_all2_map1 by (rule list_all2_mono) (rule gate_tighter)
  ultimately show ?thesis using outs by auto
qed

section \<open>Worker authority\<close>

text \<open>
  A worker is stopped exactly when enforcement is on and a known role lacks a required
  capability; and the capabilities of the roles grow from viewer to operator, engineer, admin.
\<close>

theorem worker_authority_exact:
  "(\<not> exec_allowed (authorizeExecution actor capabilities enforce) \<longleftrightarrow>
     enforce = Some True \<and>
     (\<exists>role cs c. normalizeWorkerRole (Option.bind actor worker_role) = Some role \<and> capabilities = Some cs \<and>
        c \<in> set cs \<and> c \<notin> WORKER_ROLE_CAPABILITY_MAP role)) \<and>
   WORKER_ROLE_CAPABILITY_MAP WViewer \<subseteq> WORKER_ROLE_CAPABILITY_MAP WOperator \<and>
   WORKER_ROLE_CAPABILITY_MAP WOperator \<subseteq> WORKER_ROLE_CAPABILITY_MAP WEngineer \<and>
   WORKER_ROLE_CAPABILITY_MAP WEngineer \<subseteq> WORKER_ROLE_CAPABILITY_MAP WAdmin"
  by (cases "normalizeWorkerRole (Option.bind actor worker_role)"; cases capabilities)
    (auto simp: authorizeExecution_def checkWorkerAuthority_def Let_def filter_empty_conv)

text \<open>
  The floor of a matrix is documented as extensible, but a registered action is tested against
  the constant list: an action that a matrix adds to its floor still runs by itself.
\<close>

theorem extended_floor_ignored:
  "\<exists>r. resolvePolicy (FULL_AUTO_MATRIX\<lparr>safetyFloor := SAFETY_FLOOR @ [''COMMIT_PUSH'']\<rparr>) ''COMMIT_PUSH'' (\<lambda>_. None) = Inr r \<and>
     res_policy r = Autonomous"
proof -
  have "map_sum id res_policy (resolvePolicy (FULL_AUTO_MATRIX\<lparr>safetyFloor := SAFETY_FLOOR @ [''COMMIT_PUSH'']\<rparr>)
      ''COMMIT_PUSH'' (\<lambda>_. None)) = (Inr Autonomous :: string + ApprovalPolicy)" by code_simp
  then show ?thesis
    by (cases "resolvePolicy (FULL_AUTO_MATRIX\<lparr>safetyFloor := SAFETY_FLOOR @ [''COMMIT_PUSH'']\<rparr>) ''COMMIT_PUSH'' (\<lambda>_. None)") auto
qed

section \<open>Witnesses\<close>

definition sample_config :: "string \<Rightarrow> NervousConfig" where
  "sample_config mode =
     \<lparr>config_mode = mode, actionOverrides = (\<lambda>i. if i = ''DESTRUCTIVE_GIT'' then Some Autonomous else None),
      risk_gate_enabled = False, quietHours = None\<rparr>"

definition sample_suggestions :: "suggested_action list" where
  "sample_suggestions = [\<lparr>sug_id = ''DESTRUCTIVE_GIT'', sug_risk = RiskLow\<rparr>, \<lparr>sug_id = ''FORCE_EVALUATE'', sug_risk = RiskMedium\<rparr>,
     \<lparr>sug_id = ''NEW_ACTION'', sug_risk = RiskLow\<rparr>, \<lparr>sug_id = ''COMMIT_PUSH'', sug_risk = RiskHigh\<rparr>]"

definition sample_policies :: "string \<Rightarrow> (string \<times> ApprovalPolicy) list" where
  "sample_policies mode =
     (case decide (sample_config mode) sample_suggestions None of
        Inl _ \<Rightarrow> [] | Inr outs \<Rightarrow> map (\<lambda>out. (action_id (out_action out), out_policy out)) outs)"

lemma sample_policies_value:
  "sample_policies ''full-auto'' = [(''DESTRUCTIVE_GIT'', Approve), (''FORCE_EVALUATE'', Autonomous), (''COMMIT_PUSH'', Autonomous)]"
  "sample_policies ''balanced'' = [(''DESTRUCTIVE_GIT'', Approve), (''FORCE_EVALUATE'', Suggest30m), (''COMMIT_PUSH'', Approve)]"
  by code_simp+

theorem safety_floor_locked_witness:
  "\<exists>outs out. decide (sample_config ''full-auto'') sample_suggestions None = Inr outs \<and> out \<in> set outs \<and>
     action_id (out_action out) = ''DESTRUCTIVE_GIT'' \<and> out_policy out = Approve"
proof -
  obtain outs where outs: "decide (sample_config ''full-auto'') sample_suggestions None = Inr outs"
    using sample_policies_value(1) by (auto simp: sample_policies_def split: sum.splits)
  with sample_policies_value(1) have "(''DESTRUCTIVE_GIT'', Approve) \<in> (\<lambda>out. (action_id (out_action out), out_policy out)) ` set outs"
    by (simp add: sample_policies_def image_set)
  then obtain out where out: "out \<in> set outs" "action_id (out_action out) = ''DESTRUCTIVE_GIT''" by auto
  have "''DESTRUCTIVE_GIT'' \<in> set SAFETY_FLOOR" by code_simp
  with safety_floor_locked [OF outs out(1)] outs out show ?thesis by metis
qed

theorem stricter_mode_only_tightens_witness:
  "\<exists>outs outs'. decide (sample_config ''balanced'') sample_suggestions None = Inr outs \<and>
     decide (sample_config ''full-auto'') sample_suggestions None = Inr outs' \<and> outs \<noteq> [] \<and> list_all2 tighter outs outs'"
proof -
  obtain outs where outs: "decide (sample_config ''balanced'') sample_suggestions None = Inr outs" "outs \<noteq> []"
    using sample_policies_value(2) by (auto simp: sample_policies_def split: sum.splits)
  obtain outs' where outs': "decide (sample_config ''full-auto'') sample_suggestions None = Inr outs'"
    using sample_policies_value(1) by (auto simp: sample_policies_def split: sum.splits)
  have eq: "sample_config ''balanced'' = (sample_config ''full-auto'')\<lparr>config_mode := ''balanced''\<rparr>"
    "sample_config ''full-auto'' = (sample_config ''full-auto'')\<lparr>config_mode := ''full-auto'', risk_gate_enabled := False\<rparr>"
    by (simp_all add: sample_config_def)
  have rank: "mode_rank ''balanced'' \<le> mode_rank ''full-auto''" by code_simp
  have "list_all2 tighter outs outs'"
    by (rule stricter_mode_only_tightens [OF outs(1) [unfolded eq(1)] _ rank, where request' = None])
      (use outs' in \<open>simp only: eq(2) [symmetric]\<close>)
  with outs outs' show ?thesis by blast
qed

end
