(* ===== verification/Scope_Gate.thy ===== *)
theory Scope_Gate
  imports Js_String Run_Flow
begin

text \<open>
  \<open>src/core/scope-gate.ts\<close>: the check of every declared path of a plan against the tracked
  files of the repository before any worker starts, the resolutions it offers for the
  suspects it can repair, and their application to the plan. A message of the text table is
  its key, its language and its parameters.
\<close>

datatype gate_text = GateText string string "(string \<times> string) list"

definition normalizeLang :: "string option \<Rightarrow> string" where
  "normalizeLang lang = (if lang = Some ''tr'' then ''tr'' else ''en'')"

record ScopeGateTask =
  gt_id :: string
  gt_filesWrite :: "string list option"
  gt_filesRead :: "string list option"
  gt_directories :: "string list option"

datatype ScopePathClass = ConfirmedPath | NewPlausiblePath | SuspectPath

datatype path_role = WriteRole | ReadRole

text \<open>\<open>structuralError\<close> has one literal: it is present or not.\<close>

record ScopePathVerdict =
  v_taskId :: string
  v_path :: string
  v_role :: path_role
  v_classification :: ScopePathClass
  v_suggestion :: "string option"
  v_reason :: gate_text
  v_structuralError :: bool

record ScopeGateInput =
  in_tasks :: "ScopeGateTask list"
  in_trackedFiles :: "string list"
  in_acknowledgeScopePaths :: bool
  in_resolveSuggestions :: bool
  in_lang :: "string option"

datatype resolution_action = DropDuplicate | AutoReplace

record ScopeResolution =
  r_taskId :: string
  r_path :: string
  r_action :: resolution_action
  r_replacement :: "string option"
  r_reason :: gate_text

text \<open>\<open>xs ?? []\<close> of an optional list and the truth of an optional string.\<close>

definition list_or_empty :: "'a list option \<Rightarrow> 'a list" where
  "list_or_empty xs = (case xs of None \<Rightarrow> [] | Some ys \<Rightarrow> ys)"

definition truthy_text :: "string option \<Rightarrow> bool" where
  "truthy_text s \<longleftrightarrow> (case s of None \<Rightarrow> False | Some t \<Rightarrow> t \<noteq> [])"

section \<open>Paths\<close>

definition strip_dot_slash :: "string \<Rightarrow> string" where
  "strip_dot_slash p = (if js_starts_with p ''./'' then drop 2 p else p)"

definition strip_slashes :: "string \<Rightarrow> string" where
  "strip_slashes p = rev (dropWhile (\<lambda>c. c = CHR ''/'') (rev p))"

definition normPath :: "string \<Rightarrow> string" where
  "normPath p = js_lower (strip_dot_slash p)"

definition basename :: "string \<Rightarrow> string" where
  "basename p = rev (takeWhile (\<lambda>c. c \<noteq> CHR ''/'') (rev p))"

definition dirname :: "string \<Rightarrow> string" where
  "dirname p = rev (tl (dropWhile (\<lambda>c. c \<noteq> CHR ''/'') (rev p)))"

lemma length_dirname: "p \<noteq> [] \<Longrightarrow> length (dirname p) < length p"
proof -
  assume p: "p \<noteq> []"
  have "length (dropWhile (\<lambda>c. c \<noteq> CHR ''/'') (rev p)) \<le> length p"
    using length_dropWhile_le [of _ "rev p"] by simp
  with p show ?thesis by (cases "length p") (auto simp: dirname_def)
qed

text \<open>The directories above a file: the loop \<open>while (d)\<close> that cuts one segment at a time.\<close>

function dir_chain :: "string \<Rightarrow> string list" where
  "dir_chain d = (if d = [] then [] else d # dir_chain (dirname d))"
  by pat_completeness auto
termination
  by (relation "measure length") (auto simp: length_dirname)

declare dir_chain.simps [simp del]

fun shared_segments :: "string list \<Rightarrow> string list \<Rightarrow> nat" where
  "shared_segments (x # xs) (y # ys) = (if x = y then Suc (shared_segments xs ys) else 0)"
| "shared_segments xs ys = 0"

fun closest_loop :: "string list \<Rightarrow> string list \<Rightarrow> string \<Rightarrow> int \<Rightarrow> string" where
  "closest_loop t [] best bestShared = best"
| "closest_loop t (c # cs) best bestShared =
     (let shared = int (shared_segments t (js_split (CHR ''/'') c))
      in if bestShared < shared then closest_loop t cs c shared else closest_loop t cs best bestShared)"

text \<open>The candidates are never empty where the code calls it.\<close>

definition pickClosest :: "string \<Rightarrow> string list \<Rightarrow> string" where
  "pickClosest target candidates =
     closest_loop (js_split (CHR ''/'') target) candidates (hd candidates) (- 1)"

fun out_of_root :: "int \<Rightarrow> string list \<Rightarrow> bool" where
  "out_of_root depth [] = False"
| "out_of_root depth (s # ss) =
     (if s = ''..'' then depth - 1 < 0 \<or> out_of_root (depth - 1) ss
      else if s \<noteq> ''.'' \<and> s \<noteq> [] then out_of_root (depth + 1) ss
      else out_of_root depth ss)"

definition looksOutOfRoot :: "string \<Rightarrow> bool" where
  "looksOutOfRoot p \<longleftrightarrow>
     js_starts_with p ''/'' \<or> js_starts_with p ''~'' \<or> out_of_root 0 (js_split (CHR ''/'') p)"

text \<open>The class \<open>[\x00-\x1f<>:"|?*\\]\<close>; 34 is the quote and 92 the backslash.\<close>

definition suspicious_char :: "char \<Rightarrow> bool" where
  "suspicious_char c \<longleftrightarrow>
     (of_char c :: nat) < 32 \<or> c \<in> set ''<>:|?*'' \<or> (of_char c :: nat) \<in> {34, 92}"

definition hasSuspiciousCharacters :: "string \<Rightarrow> bool" where
  "hasSuspiciousCharacters p \<longleftrightarrow> list_ex suspicious_char p"

definition MAX_NEW_DIR_DEPTH :: nat where "MAX_NEW_DIR_DEPTH = 2"
definition MIN_ESTABLISHED_ROOT_FILES :: nat where "MIN_ESTABLISHED_ROOT_FILES = 15"
definition MAX_LISTED_SUSPECTS :: nat where "MAX_LISTED_SUSPECTS = 20"

fun tracked_ancestor :: "string list \<Rightarrow> string js_set \<Rightarrow> nat \<Rightarrow> (string \<times> nat) option" where
  "tracked_ancestor segments dirs 0 = None"
| "tracked_ancestor segments dirs (Suc i) =
     (let p = js_join ''/'' (take (Suc i) segments)
      in if p \<in> set dirs then Some (p, length segments - Suc i)
         else tracked_ancestor segments dirs i)"

definition findTrackedAncestor :: "string \<Rightarrow> string js_set \<Rightarrow> (string \<times> nat) option" where
  "findTrackedAncestor dir dirs =
     (let segments = js_split (CHR ''/'') dir in tracked_ancestor segments dirs (length segments - 1))"

section \<open>Recurring basenames\<close>

definition COMMON_BASENAMES :: "string list" where
  "COMMON_BASENAMES =
     [''index.ts'', ''index.js'', ''index.tsx'', ''index.jsx'', ''types.ts'', ''utils.ts'', ''mod.ts'',
      ''main.ts'', ''readme.md'', ''__init__.py'', ''mod.rs'', ''lib.rs'']"

text \<open>The strings \<open>\.[cm]?[jt]sx?\<close> matches, and those of the test pattern.\<close>

definition source_suffixes :: "string list" where
  "source_suffixes =
     concat (map (\<lambda>m. concat (map (\<lambda>l. map (\<lambda>x. ''.'' @ m @ l @ ''s'' @ x) ['''', ''x'']) [''j'', ''t'']))
       ['''', ''c'', ''m''])"

definition test_suffixes :: "string list" where
  "test_suffixes = concat (map (\<lambda>k. map (\<lambda>s. k @ s) source_suffixes) [''.test'', ''.spec''])"

definition isRecurringTestBasename :: "string \<Rightarrow> bool" where
  "isRecurringTestBasename b \<longleftrightarrow> list_ex (js_ends_with (js_lower b)) test_suffixes"

text \<open>\<open>replace\<close> of a pattern anchored at the end; \<open>key\<close> is the text it is matched on.\<close>

definition remove_suffix :: "string list \<Rightarrow> string \<Rightarrow> string \<Rightarrow> string" where
  "remove_suffix ends key s =
     (case find (js_ends_with key) ends of None \<Rightarrow> s | Some e \<Rightarrow> take (length s - length e) s)"

definition taskOwnsMatchingSource :: "string \<Rightarrow> string list \<Rightarrow> bool" where
  "taskOwnsMatchingSource testBasename taskPaths =
     (let stem = js_lower (remove_suffix test_suffixes (js_lower testBasename) testBasename)
      in list_ex (\<lambda>p. let b = basename p; l = js_lower b
           in \<not> isRecurringTestBasename b \<and> remove_suffix source_suffixes l l = stem) taskPaths)"

section \<open>Glob patterns\<close>

definition has_glob_magic :: "string \<Rightarrow> bool" where
  "has_glob_magic p \<longleftrightarrow> list_ex (\<lambda>c. c \<in> set ''*?['') p"

text \<open>
  The parts of the generated expression: \<open>(?:.*/)?\<close>, \<open>.*\<close>, \<open>[^/]*\<close>, \<open>[^/]\<close> and a literal
  character. Every special character is escaped, so every other character is a literal.
\<close>

datatype glob_part = AnyDirs | AnyPath | AnySegment | AnyChar | LiteralChar char

fun globToRegExp :: "string \<Rightarrow> glob_part list" where
  "globToRegExp [] = []"
| "globToRegExp (c # cs) =
     (if c = CHR ''*'' then
        (case cs of
           [] \<Rightarrow> [AnySegment]
         | d # ds \<Rightarrow>
             if d = CHR ''*'' then
               (case ds of
                  [] \<Rightarrow> [AnyPath]
                | e # es \<Rightarrow>
                    if e = CHR ''/'' then AnyDirs # globToRegExp es else AnyPath # globToRegExp ds)
             else AnySegment # globToRegExp cs)
      else if c = CHR ''?'' then AnyChar # globToRegExp cs
      else LiteralChar c # globToRegExp cs)"

text \<open>The dot matches all but the line terminators.\<close>

definition dot_char :: "char \<Rightarrow> bool" where
  "dot_char c \<longleftrightarrow> (of_char c :: nat) \<notin> {10, 13}"

fun part_weight :: "glob_part \<Rightarrow> nat" where
  "part_weight AnyDirs = 3"
| "part_weight p = 1"

function (sequential) glob_match :: "glob_part list \<Rightarrow> string \<Rightarrow> bool" where
  "glob_match [] s = (s = [])"
| "glob_match (AnyDirs # ps) s =
     (glob_match ps s \<or> glob_match (AnyPath # LiteralChar (CHR ''/'') # ps) s)"
| "glob_match (AnyPath # ps) [] = glob_match ps []"
| "glob_match (AnyPath # ps) (c # cs) =
     (glob_match ps (c # cs) \<or> dot_char c \<and> glob_match (AnyPath # ps) cs)"
| "glob_match (AnySegment # ps) [] = glob_match ps []"
| "glob_match (AnySegment # ps) (c # cs) =
     (glob_match ps (c # cs) \<or> c \<noteq> CHR ''/'' \<and> glob_match (AnySegment # ps) cs)"
| "glob_match (AnyChar # ps) (c # cs) = (c \<noteq> CHR ''/'' \<and> glob_match ps cs)"
| "glob_match (LiteralChar d # ps) (c # cs) = (c = d \<and> glob_match ps cs)"
| "glob_match (p # ps) [] = False"
  by pat_completeness auto
termination
  by (relation "measures [\<lambda>(ps, s). sum_list (map part_weight ps), \<lambda>(ps, s). length s]") auto

section \<open>Classification\<close>

text \<open>What \<open>evaluateScopeGate\<close> computes once and \<open>classify\<close> closes over.\<close>

record gate_env =
  e_lang :: string
  e_trackedFiles :: "string list"
  e_byBasename :: "(string, string list) js_map"
  e_trackedDirs :: "string js_set"
  e_plannedWrites :: "string list"

definition index_basename :: "(string, string list) js_map \<Rightarrow> string \<Rightarrow> (string, string list) js_map" where
  "index_basename m f =
     AList.update (basename f) (list_or_empty (map_of m (basename f)) @ [f]) m"

definition gate_env_of :: "ScopeGateInput \<Rightarrow> gate_env" where
  "gate_env_of inp =
     \<lparr>e_lang = normalizeLang (in_lang inp),
      e_trackedFiles = in_trackedFiles inp,
      e_byBasename = foldl index_basename [] (in_trackedFiles inp),
      e_trackedDirs =
        foldl (\<lambda>s f. foldl (\<lambda>s d. js_add d s) s (dir_chain (dirname f))) [] (in_trackedFiles inp),
      e_plannedWrites = concat (map (\<lambda>t. list_or_empty (gt_filesWrite t)) (in_tasks inp))\<rparr>"

definition greenfield :: "gate_env \<Rightarrow> bool" where
  "greenfield env \<longleftrightarrow> e_trackedDirs env = []"

definition verdict ::
    "string \<Rightarrow> string \<Rightarrow> path_role \<Rightarrow> ScopePathClass \<Rightarrow> string option \<Rightarrow> gate_text \<Rightarrow> bool \<Rightarrow> ScopePathVerdict" where
  "verdict taskId path role c suggestion reason structural =
     \<lparr>v_taskId = taskId, v_path = path, v_role = role, v_classification = c,
      v_suggestion = suggestion, v_reason = reason, v_structuralError = structural\<rparr>"

definition coveringEntry :: "string list \<Rightarrow> string \<Rightarrow> string option" where
  "coveringEntry declaredDirs candidate =
     find (\<lambda>d. d \<noteq> [] \<and> js_starts_with (normPath candidate) (d @ ''/''))
       (map (\<lambda>dir. js_lower (strip_slashes (strip_dot_slash dir))) declaredDirs)"

definition parallel_tree :: "string list \<Rightarrow> string \<Rightarrow> string list \<Rightarrow> bool" where
  "parallel_tree declaredDirs path siblings \<longleftrightarrow>
     (case coveringEntry declaredDirs path of
        None \<Rightarrow> False
      | Some suspectEntry \<Rightarrow>
          list_ex (\<lambda>e. e \<noteq> None \<and> e \<noteq> Some suspectEntry) (map (coveringEntry declaredDirs) siblings))"

definition established_ancestor :: "gate_env \<Rightarrow> string \<Rightarrow> (string \<times> nat) option" where
  "established_ancestor env path =
     (if looksOutOfRoot path \<or> hasSuspiciousCharacters path then None
      else (case findTrackedAncestor (dirname path) (e_trackedDirs env) of
              None \<Rightarrow> None
            | Some (ancestor, newDepth) \<Rightarrow>
                if MAX_NEW_DIR_DEPTH < newDepth then None
                else (let n = length (filter (\<lambda>f. js_starts_with f (ancestor @ ''/'')) (e_trackedFiles env))
                      in if MIN_ESTABLISHED_ROOT_FILES \<le> n then Some (ancestor, n) else None)))"

definition classify ::
    "gate_env \<Rightarrow> string \<Rightarrow> string \<Rightarrow> path_role \<Rightarrow> string list \<Rightarrow> string list \<Rightarrow> ScopePathVerdict" where
  "classify env taskId path role taskPaths declaredDirs =
     (let text = (\<lambda>key ps. GateText (''scope_gate.reason.'' @ key) (e_lang env) ps);
          result = (\<lambda>c key ps. verdict taskId path role c None (text key ps) False)
      in if role = WriteRole \<and> strip_slashes (strip_dot_slash path) \<in> set (e_trackedDirs env)
         then verdict taskId path role SuspectPath None (text ''directory_in_files_write'' []) True
         else if path \<in> set (e_trackedFiles env) \<or> role = ReadRole \<and> path \<in> set (e_plannedWrites env)
         then result ConfirmedPath ''confirmed'' []
         else if has_glob_magic path
         then (let n = length (filter (glob_match (globToRegExp path)) (e_trackedFiles env))
               in if 0 < n then result ConfirmedPath ''glob_confirmed'' [(''count'', show_int (int n))]
                  else result SuspectPath ''glob_no_match'' [])
         else
           (let b = basename path;
                siblings = list_or_empty (map_of (e_byBasename env) b);
                testMirrorInTrackedDir =
                  isRecurringTestBasename b \<and> dirname path \<in> set (e_trackedDirs env)
                  \<and> taskOwnsMatchingSource b taskPaths
            in if siblings \<noteq> [] \<and> parallel_tree declaredDirs path siblings
               then result NewPlausiblePath ''parallel_tree_mirror'' []
               else if siblings \<noteq> [] \<and> js_lower b \<notin> set COMMON_BASENAMES \<and> \<not> testMirrorInTrackedDir
               then (let suggestion = pickClosest path siblings
                     in verdict taskId path role SuspectPath (Some suggestion)
                          (text ''wrong_dir_suggestion'' [(''suggestion'', suggestion)]) False)
               else (let parent = dirname path
                     in if parent = [] \<or> parent \<in> set (e_trackedDirs env)
                        then result NewPlausiblePath ''new_plausible'' []
                        else if greenfield env then result NewPlausiblePath ''greenfield'' []
                        else (case established_ancestor env path of
                                Some (ancestor, n) \<Rightarrow>
                                  result NewPlausiblePath ''intentional_new_dir''
                                    [(''parent'', parent), (''ancestor'', ancestor), (''count'', show_int (int n))]
                              | None \<Rightarrow> result SuspectPath ''invented_dir'' [(''parent'', parent)]))))"

definition task_verdicts :: "gate_env \<Rightarrow> ScopeGateTask \<Rightarrow> ScopePathVerdict list" where
  "task_verdicts env t =
     (let writes = list_or_empty (gt_filesWrite t);
          reads = list_or_empty (gt_filesRead t);
          dirs = list_or_empty (gt_directories t)
      in map (\<lambda>w. classify env (gt_id t) w WriteRole (writes @ reads) dirs) writes
         @ map (\<lambda>r. classify env (gt_id t) r ReadRole (writes @ reads) dirs) reads)"

definition gate_verdicts :: "ScopeGateInput \<Rightarrow> ScopePathVerdict list" where
  "gate_verdicts inp = concat (map (task_verdicts (gate_env_of inp)) (in_tasks inp))"

definition write_suspects :: "ScopeGateInput \<Rightarrow> ScopePathVerdict list" where
  "write_suspects inp =
     filter (\<lambda>v. v_role v = WriteRole \<and> v_classification v = SuspectPath) (gate_verdicts inp)"

section \<open>Resolutions\<close>

text \<open>The map by id is built from pairs, so the last task of an id is the one it holds.\<close>

definition writes_by_id :: "ScopeGateInput \<Rightarrow> string \<Rightarrow> string list" where
  "writes_by_id inp i =
     (case map_of (rev (map (\<lambda>t. (gt_id t, t)) (in_tasks inp))) i of
        None \<Rightarrow> []
      | Some t \<Rightarrow> list_or_empty (gt_filesWrite t))"

definition resolve_suspect :: "ScopeGateInput \<Rightarrow> ScopePathVerdict \<Rightarrow> ScopeResolution option" where
  "resolve_suspect inp s =
     (case v_suggestion s of
        None \<Rightarrow> None
      | Some suggestion \<Rightarrow>
          let resolution = (\<lambda>act key.
                \<lparr>r_taskId = v_taskId s, r_path = v_path s, r_action = act, r_replacement = Some suggestion,
                 r_reason = GateText (''scope_gate.resolution.'' @ key) (normalizeLang (in_lang inp))
                   [(''suggestion'', suggestion)]\<rparr>)
          in if suggestion = [] then None
             else if list_ex (\<lambda>w. normPath w = normPath suggestion) (writes_by_id inp (v_taskId s))
             then Some (resolution DropDuplicate ''drop_duplicate'')
             else if length (list_or_empty
                       (map_of (e_byBasename (gate_env_of inp)) (basename (v_path s)))) = 1
             then Some (resolution AutoReplace ''auto_replace'')
             else None)"

definition gate_resolutions :: "ScopeGateInput \<Rightarrow> ScopeResolution list" where
  "gate_resolutions inp = List.map_filter (resolve_suspect inp) (write_suspects inp)"

section \<open>The gate\<close>

text \<open>One line of a message for each listed suspect, with the hint of its suggestion.\<close>

record gate_bullet =
  bl_taskId :: string
  bl_path :: string
  bl_reason :: gate_text
  bl_hint :: "gate_text option"

record gate_message =
  ms_header :: gate_text
  ms_bullets :: "gate_bullet list"
  ms_more :: "gate_text option"
  ms_footer :: gate_text

datatype block_reason = SCOPE_GATE_SUSPECT | DIRECTORY_IN_FILES_WRITE

record ScopeGatePass =
  p_verdicts :: "ScopePathVerdict list"
  p_advisories :: "ScopePathVerdict list"
  p_overrideApplied :: bool
  p_resolutions :: "ScopeResolution list"
  p_greenfieldNotice :: "gate_text option"

record ScopeGateBlocked =
  b_reason :: block_reason
  b_suspects :: "ScopePathVerdict list"
  b_verdicts :: "ScopePathVerdict list"
  b_message :: gate_message
  b_resolutions :: "ScopeResolution list"

datatype ScopeGateResult = ScopePassed ScopeGatePass | ScopeBlocked ScopeGateBlocked

definition block_message ::
    "string \<Rightarrow> string \<Rightarrow> string \<Rightarrow> (ScopePathVerdict \<Rightarrow> gate_text option) \<Rightarrow> ScopePathVerdict list \<Rightarrow> gate_message" where
  "block_message lang header footer hint suspects =
     (let shown = take MAX_LISTED_SUSPECTS suspects;
          text = (\<lambda>key ps. GateText (''scope_gate.message.'' @ key) lang ps)
      in \<lparr>ms_header = text header [(''count'', show_int (int (length suspects)))],
          ms_bullets = map (\<lambda>s. \<lparr>bl_taskId = v_taskId s, bl_path = v_path s, bl_reason = v_reason s,
                                  bl_hint = hint s\<rparr>) shown,
          ms_more = (if length shown < length suspects
                     then Some (text ''more_suspects''
                            [(''count'', show_int (int (length suspects) - int (length shown)))])
                     else None),
          ms_footer = text footer []\<rparr>)"

definition suggestion_hint :: "string \<Rightarrow> ScopePathVerdict \<Rightarrow> gate_text option" where
  "suggestion_hint lang s =
     (if truthy_text (v_suggestion s)
      then Some (GateText ''scope_gate.message.hint_suggestion'' lang [(''suggestion'', the (v_suggestion s))])
      else None)"

definition blocked ::
    "ScopeGateInput \<Rightarrow> block_reason \<Rightarrow> ScopePathVerdict list \<Rightarrow> gate_message \<Rightarrow> ScopeGateResult" where
  "blocked inp reason suspects message =
     ScopeBlocked \<lparr>b_reason = reason, b_suspects = suspects, b_verdicts = gate_verdicts inp,
       b_message = message, b_resolutions = gate_resolutions inp\<rparr>"

definition structural_errors :: "ScopeGateInput \<Rightarrow> ScopePathVerdict list" where
  "structural_errors inp = filter v_structuralError (write_suspects inp)"

definition blocking_suspects :: "ScopeGateInput \<Rightarrow> ScopePathVerdict list" where
  "blocking_suspects inp =
     (if in_resolveSuggestions inp then filter (\<lambda>s. resolve_suspect inp s = None) (write_suspects inp)
      else write_suspects inp)"

definition pass_result :: "ScopeGateInput \<Rightarrow> ScopeGatePass" where
  "pass_result inp =
     (let verdicts = gate_verdicts inp;
          advisories = filter (\<lambda>v. v_classification v = NewPlausiblePath
            \<or> v_classification v = SuspectPath \<and> v_role v = ReadRole) verdicts;
          unvalidated =
            (if greenfield (gate_env_of inp)
             then length (filter (\<lambda>v. v_role v = WriteRole \<and> v_classification v \<noteq> ConfirmedPath) verdicts)
             else 0);
          resolved = (if in_resolveSuggestions inp
                      then filter (\<lambda>s. resolve_suspect inp s \<noteq> None) (write_suspects inp) else [])
      in \<lparr>p_verdicts = verdicts, p_advisories = advisories @ resolved,
          p_overrideApplied = (blocking_suspects inp \<noteq> []),
          p_resolutions = gate_resolutions inp,
          p_greenfieldNotice =
            (if 0 < unvalidated
             then Some (GateText ''scope_gate.notice.greenfield'' (normalizeLang (in_lang inp))
                    [(''count'', show_int (int unvalidated))])
             else None)\<rparr>)"

definition evaluateScopeGate :: "ScopeGateInput \<Rightarrow> ScopeGateResult" where
  "evaluateScopeGate inp =
     (let lang = normalizeLang (in_lang inp)
      in if structural_errors inp \<noteq> []
         then blocked inp DIRECTORY_IN_FILES_WRITE (structural_errors inp)
                (block_message lang ''directory_in_files_write_header'' ''directory_in_files_write_footer''
                  (\<lambda>s. None) (structural_errors inp))
         else if blocking_suspects inp \<noteq> [] \<and> \<not> in_acknowledgeScopePaths inp
         then blocked inp SCOPE_GATE_SUSPECT (blocking_suspects inp)
                (block_message lang ''header'' ''footer'' (suggestion_hint lang) (blocking_suspects inp))
         else ScopePassed (pass_result inp))"

section \<open>Application to a task\<close>

datatype applied_action = Dropped | Replaced

definition find_index :: "('a \<Rightarrow> bool) \<Rightarrow> 'a list \<Rightarrow> nat option" where
  "find_index P xs = (let i = length (takeWhile (\<lambda>x. \<not> P x) xs) in if i < length xs then Some i else None)"

definition apply_resolution ::
    "string \<Rightarrow> string list \<times> (ScopeResolution \<times> applied_action) list \<Rightarrow> ScopeResolution
      \<Rightarrow> string list \<times> (ScopeResolution \<times> applied_action) list" where
  "apply_resolution taskId st r =
     (case st of (files, applied) \<Rightarrow>
        if r_taskId r \<noteq> taskId \<or> \<not> truthy_text (r_replacement r) then (files, applied)
        else (case find_index (\<lambda>f. normPath f = normPath (r_path r)) files of
                None \<Rightarrow> (files, applied)
              | Some i \<Rightarrow>
                  let new = the (r_replacement r)
                  in if list_ex (\<lambda>f. normPath f = normPath new) files
                     then (take i files @ drop (Suc i) files, applied @ [(r, Dropped)])
                     else (files[i := new], applied @ [(r, Replaced)])))"

definition applyScopeResolutions ::
    "string \<Rightarrow> string list \<Rightarrow> ScopeResolution list \<Rightarrow> string list \<times> (ScopeResolution \<times> applied_action) list" where
  "applyScopeResolutions taskId writes resolutions =
     foldl (apply_resolution taskId) (writes, []) resolutions"

section \<open>The gate of the plan service\<close>

text \<open>
  \<open>src/orchestra/run-flow-plan-service.ts\<close> runs the gate on the planned tasks, applies the
  resolutions of a passing gate to each task, and runs the gate again to see that nothing is
  left to resolve. \<open>None\<close> stands for tracked files that could not be listed.
\<close>

record plan_scope =
  ps_result :: RunFlowGateResult
  ps_message :: "gate_message option"
  ps_overridden :: bool
  ps_tasks :: "ScopeGateTask list"

definition plan_input :: "string list \<Rightarrow> bool \<Rightarrow> bool \<Rightarrow> ScopeGateTask list \<Rightarrow> ScopeGateInput" where
  "plan_input files acknowledge resolve tasks =
     \<lparr>in_tasks = tasks, in_trackedFiles = files, in_acknowledgeScopePaths = acknowledge,
      in_resolveSuggestions = resolve, in_lang = None\<rparr>"

definition adopt_resolutions :: "ScopeResolution list \<Rightarrow> ScopeGateTask \<Rightarrow> ScopeGateTask" where
  "adopt_resolutions resolutions t =
     (case applyScopeResolutions (gt_id t) (list_or_empty (gt_filesWrite t)) resolutions of
        (files, applied) \<Rightarrow> if applied \<noteq> [] then t\<lparr>gt_filesWrite := Some files\<rparr> else t)"

definition plan_scope_gate :: "string list option \<Rightarrow> bool \<Rightarrow> ScopeGateTask list \<Rightarrow> string + plan_scope" where
  "plan_scope_gate scopeInput acknowledge tasks =
     (case scopeInput of
        None \<Rightarrow> Inr \<lparr>ps_result = GateFail, ps_message = None, ps_overridden = False, ps_tasks = tasks\<rparr>
      | Some files \<Rightarrow>
          (case evaluateScopeGate (plan_input files acknowledge True tasks) of
             ScopeBlocked b \<Rightarrow>
               Inr \<lparr>ps_result = GateFail, ps_message = Some (b_message b), ps_overridden = False,
                    ps_tasks = tasks\<rparr>
           | ScopePassed p \<Rightarrow>
               if p_resolutions p = []
               then Inr \<lparr>ps_result = GatePass, ps_message = None,
                         ps_overridden = p_overrideApplied p, ps_tasks = tasks\<rparr>
               else (let tasks' = map (adopt_resolutions (p_resolutions p)) tasks
                     in case evaluateScopeGate (plan_input files acknowledge False tasks') of
                          ScopeBlocked b \<Rightarrow> Inl ''scope_resolution_not_idempotent''
                        | ScopePassed q \<Rightarrow>
                            if p_resolutions q \<noteq> [] then Inl ''scope_resolution_not_idempotent''
                            else Inr \<lparr>ps_result = GatePass, ps_message = None,
                                      ps_overridden = p_overrideApplied q, ps_tasks = tasks'\<rparr>)))"

end
