(* ===== verification/Scope_Gate_Correct.thy ===== *)
theory Scope_Gate_Correct
  imports Scope_Gate
begin

text \<open>
  Correctness of the scope gate: what the indexes of the tracked files hold, the language of
  the generated glob expressions, the gate decides an independent notion of an acceptable
  write path, and the resolutions repair exactly the paths they name.
\<close>

section \<open>Paths and indexes\<close>

lemma path_split:
  assumes "CHR ''/'' \<in> set p"
  shows "p = dirname p @ ''/'' @ basename p"
proof -
  let ?P = "\<lambda>c. c \<noteq> CHR ''/''"
  have ne: "dropWhile ?P (rev p) \<noteq> []" using assms by (simp add: dropWhile_eq_Nil_conv)
  then have "hd (dropWhile ?P (rev p)) = CHR ''/''" using hd_dropWhile by blast
  with ne have "rev p = takeWhile ?P (rev p) @ CHR ''/'' # tl (dropWhile ?P (rev p))"
    by (metis list.collapse takeWhile_dropWhile_id)
  then have "p = rev (takeWhile ?P (rev p) @ CHR ''/'' # tl (dropWhile ?P (rev p)))"
    by (metis rev_rev_ident)
  then show ?thesis by (simp add: dirname_def basename_def)
qed

lemma basename_no_slash: "CHR ''/'' \<notin> set (basename p)"
  by (auto simp: basename_def dest: set_takeWhileD)

lemma dirname_no_slash: "CHR ''/'' \<notin> set p \<Longrightarrow> dirname p = []"
proof -
  assume "CHR ''/'' \<notin> set p"
  then have "dropWhile (\<lambda>c. c \<noteq> CHR ''/'') (rev p) = []" by (auto simp: dropWhile_eq_Nil_conv)
  then show ?thesis by (simp only: dirname_def list.sel rev.simps)
qed

lemma dir_chain_Nil [simp]: "dir_chain [] = []"
  by (simp add: dir_chain.simps)

lemma prefix_slash: "d \<noteq> [] \<Longrightarrow> \<not> prefix (d @ ''/'') ''/''"
  by (auto simp: prefix_def Cons_eq_append_conv)

lemma prefix_dir_split:
  assumes "CHR ''/'' \<notin> set b"
  shows "prefix (d @ ''/'') (p @ ''/'' @ b) \<longleftrightarrow> d = p \<or> prefix (d @ ''/'') p"
proof
  assume "prefix (d @ ''/'') (p @ ''/'' @ b)"
  then have "prefix (d @ ''/'') (p @ ''/'') \<or> (\<exists>us. d @ ''/'' = (p @ ''/'') @ us \<and> prefix us b)"
    using prefix_append [of "d @ ''/''" "p @ ''/''" b] by simp
  then show "d = p \<or> prefix (d @ ''/'') p"
  proof
    assume "prefix (d @ ''/'') (p @ ''/'')"
    then show ?thesis by (metis append1_eq_conv prefix_snoc)
  next
    assume "\<exists>us. d @ ''/'' = (p @ ''/'') @ us \<and> prefix us b"
    then obtain us where us: "d @ ''/'' = (p @ ''/'') @ us" "prefix us b" by blast
    show ?thesis
    proof (cases us rule: rev_cases)
      case Nil
      with us show ?thesis by simp
    next
      case (snoc vs v)
      with us have "v = CHR ''/''" by (metis append_assoc last_snoc)
      with snoc us assms show ?thesis by (auto simp: prefix_def)
    qed
  qed
qed (auto simp: prefix_def)

lemma set_dir_chain: "d \<in> set (dir_chain p) \<longleftrightarrow> d \<noteq> [] \<and> prefix (d @ ''/'') (p @ ''/'')"
proof (induction p rule: dir_chain.induct)
  case (1 p)
  show ?case
  proof (cases "p = []")
    case True
    then show ?thesis using prefix_slash by auto
  next
    case False
    have "prefix (d @ ''/'') (p @ ''/'') \<longleftrightarrow> d = p \<or> prefix (d @ ''/'') p"
      using prefix_dir_split [of "[]" d p] by simp
    also have "prefix (d @ ''/'') p \<longleftrightarrow>
        CHR ''/'' \<in> set p \<and> prefix (d @ ''/'') (dirname p @ ''/'')"
    proof (cases "CHR ''/'' \<in> set p")
      case True
      with prefix_dir_split [OF basename_no_slash, of d "dirname p" p] path_split [OF True]
      have "prefix (d @ ''/'') p \<longleftrightarrow> d = dirname p \<or> prefix (d @ ''/'') (dirname p)" by simp
      with prefix_dir_split [of "[]" d "dirname p"] True show ?thesis by simp
    next
      case False
      then have "\<not> prefix (d @ ''/'') p" using set_mono_prefix by fastforce
      with False show ?thesis by simp
    qed
    finally have eq: "prefix (d @ ''/'') (p @ ''/'') \<longleftrightarrow>
        d = p \<or> CHR ''/'' \<in> set p \<and> prefix (d @ ''/'') (dirname p @ ''/'')" .
    have "\<not> (d \<noteq> [] \<and> prefix (d @ ''/'') (dirname p @ ''/''))" if "CHR ''/'' \<notin> set p"
      using that prefix_slash by (auto simp: dirname_no_slash)
    with 1 [OF False] eq False show ?thesis by (auto simp: dir_chain.simps [of p])
  qed
qed

lemma above_file: "d \<in> set (dir_chain (dirname f)) \<longleftrightarrow> d \<noteq> [] \<and> prefix (d @ ''/'') f"
proof (cases "CHR ''/'' \<in> set f")
  case True
  have "prefix (d @ ''/'') f \<longleftrightarrow> d = dirname f \<or> prefix (d @ ''/'') (dirname f)"
    using prefix_dir_split [OF basename_no_slash, of d "dirname f" f] path_split [OF True] by simp
  with prefix_dir_split [of "[]" d "dirname f"] show ?thesis by (simp add: set_dir_chain)
next
  case False
  then have "\<not> prefix (d @ ''/'') f" using set_mono_prefix by fastforce
  with False show ?thesis by (simp add: dirname_no_slash)
qed

text \<open>A directory of the repository is a proper prefix of a tracked file.\<close>

definition tracked_dir :: "string list \<Rightarrow> string \<Rightarrow> bool" where
  "tracked_dir files d \<longleftrightarrow> d \<noteq> [] \<and> (\<exists>f \<in> set files. prefix (d @ ''/'') f)"

lemma set_foldl_chains:
  "set (foldl (\<lambda>s f. foldl (\<lambda>s d. js_add d s) s (chain f)) s0 fs) = set s0 \<union> (\<Union>f \<in> set fs. set (chain f))"
  by (induction fs arbitrary: s0) auto

lemma tracked_dirs_exact:
  "d \<in> set (e_trackedDirs (gate_env_of inp)) \<longleftrightarrow> tracked_dir (in_trackedFiles inp) d"
  by (auto simp: gate_env_of_def set_foldl_chains above_file tracked_dir_def)

lemma greenfield_exact: "greenfield (gate_env_of inp) \<longleftrightarrow> (\<forall>f \<in> set (in_trackedFiles inp). dirname f = [])"
proof -
  have "greenfield (gate_env_of inp) \<longleftrightarrow> (\<forall>f \<in> set (in_trackedFiles inp). dir_chain (dirname f) = [])"
    using set_foldl_chains [of "\<lambda>f. dir_chain (dirname f)" "[]" "in_trackedFiles inp"]
    by (simp add: greenfield_def gate_env_of_def flip: set_empty)
  then show ?thesis by (simp add: dir_chain.simps)
qed

lemma list_or_empty_simps [simp]: "list_or_empty None = []" "list_or_empty (Some xs) = xs"
  by (simp_all add: list_or_empty_def)

lemma lookup_index_basename:
  "list_or_empty (map_of (foldl index_basename m fs) b) =
     list_or_empty (map_of m b) @ filter (\<lambda>f. basename f = b) fs"
  by (induction fs arbitrary: m) (auto simp: index_basename_def update_conv')

lemma siblings_exact:
  "list_or_empty (map_of (e_byBasename (gate_env_of inp)) b) =
     filter (\<lambda>f. basename f = b) (in_trackedFiles inp)"
  by (simp add: gate_env_of_def lookup_index_basename)

lemma closest_loop_mem: "closest_loop t cs best n \<in> insert best (set cs)"
  by (induction t cs best n rule: closest_loop.induct) (auto simp: Let_def)

lemma pickClosest_mem: "cs \<noteq> [] \<Longrightarrow> pickClosest t cs \<in> set cs"
  using closest_loop_mem [of "js_split (CHR ''/'') t" cs "hd cs" "- 1"] by (auto simp: pickClosest_def)

section \<open>The language of a glob\<close>

fun glob_language :: "glob_part list \<Rightarrow> string set" where
  "glob_language [] = {[]}"
| "glob_language (AnyDirs # ps) =
     {d @ s |d s. (d = [] \<or> last d = CHR ''/'' \<and> list_all dot_char d) \<and> s \<in> glob_language ps}"
| "glob_language (AnyPath # ps) = {d @ s |d s. list_all dot_char d \<and> s \<in> glob_language ps}"
| "glob_language (AnySegment # ps) = {d @ s |d s. CHR ''/'' \<notin> set d \<and> s \<in> glob_language ps}"
| "glob_language (AnyChar # ps) = {c # s |c s. c \<noteq> CHR ''/'' \<and> s \<in> glob_language ps}"
| "glob_language (LiteralChar c # ps) = {c # s |s. s \<in> glob_language ps}"

lemma span_language:
  "{d @ s |d s. list_all P d \<and> s \<in> L} =
     L \<union> {c # w |c w. P c \<and> w \<in> {d @ s |d s. list_all P d \<and> s \<in> L}}" (is "?A = L \<union> ?B")
proof (intro equalityI subsetI)
  fix x assume "x \<in> ?A"
  then obtain d s where "x = d @ s" "list_all P d" "s \<in> L" by blast
  then show "x \<in> L \<union> ?B" by (cases d) auto
next
  fix x assume "x \<in> L \<union> ?B"
  then show "x \<in> ?A"
  proof
    assume "x \<in> L"
    then show ?thesis by (intro CollectI exI [of _ "[]"] exI [of _ x]) simp
  next
    assume "x \<in> ?B"
    then obtain c d s where "x = (c # d) @ s" "list_all P (c # d)" "s \<in> L" by auto
    then show ?thesis by blast
  qed
qed

lemma dirs_language:
  "{d @ s |d s. (d = [] \<or> last d = CHR ''/'' \<and> list_all dot_char d) \<and> s \<in> L} =
     L \<union> {d @ CHR ''/'' # s |d s. list_all dot_char d \<and> s \<in> L}" (is "?A = L \<union> ?B")
proof (intro equalityI subsetI)
  fix x assume "x \<in> ?A"
  then obtain d s where x: "x = d @ s" "d = [] \<or> last d = CHR ''/'' \<and> list_all dot_char d" "s \<in> L"
    by blast
  then show "x \<in> L \<union> ?B" by (cases d rule: rev_cases) auto
next
  fix x assume "x \<in> L \<union> ?B"
  then show "x \<in> ?A"
  proof
    assume "x \<in> L"
    then show ?thesis by (intro CollectI exI [of _ "[]"] exI [of _ x]) simp
  next
    assume "x \<in> ?B"
    then obtain d s where "x = (d @ ''/'') @ s" "list_all dot_char d" "s \<in> L" by auto
    moreover have "dot_char (CHR ''/'')" by (simp add: dot_char_def)
    ultimately show ?thesis by (intro CollectI exI [of _ "d @ ''/''"] exI [of _ s]) simp
  qed
qed

lemma glob_language_exact: "glob_match ps s \<longleftrightarrow> s \<in> glob_language ps"
proof (induction ps s rule: glob_match.induct)
  case (2 ps s)
  have "s \<in> glob_language (AnyDirs # ps) \<longleftrightarrow>
      s \<in> glob_language ps \<or> s \<in> glob_language (AnyPath # LiteralChar (CHR ''/'') # ps)"
    by (simp add: dirs_language) blast
  with 2 show ?case by simp
next
  case (4 ps c cs)
  then show ?case
    using span_language [of dot_char "glob_language ps"] by auto
next
  case (6 ps c cs)
  have "glob_language (AnySegment # ps) = {d @ s |d s. list_all (\<lambda>x. x \<noteq> CHR ''/'') d \<and> s \<in> glob_language ps}"
    by (fastforce simp: list_all_iff)
  with 6 show ?case
    using span_language [of "\<lambda>x. x \<noteq> CHR ''/''" "glob_language ps"]
    by (simp del: glob_language.simps(4))
qed auto

section \<open>Acceptable write paths\<close>

abbreviation task_writes :: "ScopeGateTask \<Rightarrow> string list" where
  "task_writes t \<equiv> list_or_empty (gt_filesWrite t)"

abbreviation task_paths :: "ScopeGateTask \<Rightarrow> string list" where
  "task_paths t \<equiv> list_or_empty (gt_filesWrite t) @ list_or_empty (gt_filesRead t)"

abbreviation task_dirs :: "ScopeGateTask \<Rightarrow> string list" where
  "task_dirs t \<equiv> list_or_empty (gt_directories t)"

definition names_directory :: "string list \<Rightarrow> string \<Rightarrow> bool" where
  "names_directory files w \<longleftrightarrow> tracked_dir files (strip_slashes (strip_dot_slash w))"

definition lookalikes :: "string list \<Rightarrow> string \<Rightarrow> string list" where
  "lookalikes files w = filter (\<lambda>f. basename f = basename w) files"

text \<open>The task declares two different entries, one above the path, one above a lookalike.\<close>

definition separate_trees :: "string list \<Rightarrow> string list \<Rightarrow> string \<Rightarrow> bool" where
  "separate_trees files dirs w \<longleftrightarrow>
     (\<exists>f \<in> set (lookalikes files w). \<exists>a b.
        coveringEntry dirs w = Some a \<and> coveringEntry dirs f = Some b \<and> a \<noteq> b)"

text \<open>A new name, a name that recurs anywhere, or the test of a module the task owns.\<close>

definition innocent_name :: "string list \<Rightarrow> string list \<Rightarrow> string \<Rightarrow> bool" where
  "innocent_name files paths w \<longleftrightarrow>
     lookalikes files w = [] \<or> js_lower (basename w) \<in> set COMMON_BASENAMES
     \<or> isRecurringTestBasename (basename w) \<and> tracked_dir files (dirname w)
       \<and> taskOwnsMatchingSource (basename w) paths"

text \<open>At most two new levels below a directory that holds at least fifteen files.\<close>

definition established_place :: "string list \<Rightarrow> string \<Rightarrow> bool" where
  "established_place files w \<longleftrightarrow>
     \<not> looksOutOfRoot w \<and> \<not> hasSuspiciousCharacters w \<and>
     (let segs = js_split (CHR ''/'') (dirname w); up = (\<lambda>k. js_join ''/'' (take k segs))
      in \<exists>k. 0 < k \<and> k < length segs \<and> length segs - k \<le> 2 \<and> tracked_dir files (up k)
         \<and> (\<forall>j. k < j \<and> j < length segs \<longrightarrow> \<not> tracked_dir files (up j))
         \<and> 15 \<le> length (filter (prefix (up k @ ''/'')) files))"

definition known_place :: "string list \<Rightarrow> string \<Rightarrow> bool" where
  "known_place files w \<longleftrightarrow>
     dirname w = [] \<or> tracked_dir files (dirname w) \<or> (\<forall>f \<in> set files. dirname f = [])
     \<or> established_place files w"

definition acceptable :: "string list \<Rightarrow> string list \<Rightarrow> string list \<Rightarrow> string \<Rightarrow> bool" where
  "acceptable files paths dirs w \<longleftrightarrow>
     w \<in> set files \<or>
     (if has_glob_magic w then \<exists>f \<in> set files. f \<in> glob_language (globToRegExp w)
      else separate_trees files dirs w \<or> innocent_name files paths w \<and> known_place files w)"

text \<open>The path has a lookalike elsewhere, and the evidence names the one that was meant.\<close>

definition mistaken_place :: "string list \<Rightarrow> string list \<Rightarrow> string list \<Rightarrow> string \<Rightarrow> bool" where
  "mistaken_place files paths dirs w \<longleftrightarrow>
     w \<notin> set files \<and> \<not> has_glob_magic w \<and> \<not> names_directory files w
     \<and> \<not> separate_trees files dirs w \<and> \<not> innocent_name files paths w"

definition repairable :: "ScopeGateInput \<Rightarrow> ScopeGateTask \<Rightarrow> string \<Rightarrow> bool" where
  "repairable inp t w \<longleftrightarrow>
     (let files = in_trackedFiles inp; meant = pickClosest w (lookalikes files w)
      in mistaken_place files (task_paths t) (task_dirs t) w \<and> meant \<noteq> []
         \<and> ((\<exists>w' \<in> set (writes_by_id inp (gt_id t)). normPath w' = normPath meant)
            \<or> length (lookalikes files w) = 1))"

lemma lookalikes_exact:
  "list_or_empty (map_of (e_byBasename (gate_env_of inp)) (basename w)) = lookalikes (in_trackedFiles inp) w"
  by (simp add: siblings_exact lookalikes_def)

lemma parallel_tree_exact:
  "parallel_tree dirs w (lookalikes files w) \<longleftrightarrow> separate_trees files dirs w"
  by (auto simp: parallel_tree_def separate_trees_def list_ex_iff split: option.splits)

lemma tracked_ancestor_exact:
  "tracked_ancestor segs dirs n = Some (a, depth) \<longleftrightarrow>
     (\<exists>k. 0 < k \<and> k \<le> n \<and> a = js_join ''/'' (take k segs) \<and> a \<in> set dirs \<and> depth = length segs - k
        \<and> (\<forall>j. k < j \<and> j \<le> n \<longrightarrow> js_join ''/'' (take j segs) \<notin> set dirs))"
proof (induction n)
  case (Suc n)
  show ?case
  proof (cases "js_join ''/'' (take (Suc n) segs) \<in> set dirs")
    case True
    have eq: "(0 < k \<and> k \<le> Suc n \<and> a = js_join ''/'' (take k segs) \<and> a \<in> set dirs \<and> depth = length segs - k
        \<and> (\<forall>j. k < j \<and> j \<le> Suc n \<longrightarrow> js_join ''/'' (take j segs) \<notin> set dirs)) \<longleftrightarrow>
      k = Suc n \<and> a = js_join ''/'' (take (Suc n) segs) \<and> depth = length segs - Suc n" for k
    proof (cases "k = Suc n")
      case False
      have "k \<le> Suc n \<Longrightarrow> k < Suc n" using False by simp
      with True False show ?thesis by blast
    qed (use True in auto)
    from True show ?thesis unfolding eq by (auto simp: Let_def)
  next
    case False
    then have "tracked_ancestor segs dirs (Suc n) = tracked_ancestor segs dirs n" by (simp add: Let_def)
    moreover have "(0 < k \<and> k \<le> Suc n \<and> a = js_join ''/'' (take k segs) \<and> a \<in> set dirs \<and> depth = length segs - k
        \<and> (\<forall>j. k < j \<and> j \<le> Suc n \<longrightarrow> js_join ''/'' (take j segs) \<notin> set dirs)) \<longleftrightarrow>
      (0 < k \<and> k \<le> n \<and> a = js_join ''/'' (take k segs) \<and> a \<in> set dirs \<and> depth = length segs - k
        \<and> (\<forall>j. k < j \<and> j \<le> n \<longrightarrow> js_join ''/'' (take j segs) \<notin> set dirs))" for k
      using False by (auto simp: le_Suc_eq)
    ultimately show ?thesis using Suc by simp
  qed
qed simp

lemma findTrackedAncestor_exact:
  fixes dir
  defines "segs \<equiv> js_split (CHR ''/'') dir"
  shows "findTrackedAncestor dir (e_trackedDirs (gate_env_of inp)) = Some (a, depth) \<longleftrightarrow>
    (\<exists>k. 0 < k \<and> k < length segs \<and> a = js_join ''/'' (take k segs) \<and> tracked_dir (in_trackedFiles inp) a
       \<and> depth = length segs - k
       \<and> (\<forall>j. k < j \<and> j < length segs \<longrightarrow> \<not> tracked_dir (in_trackedFiles inp) (js_join ''/'' (take j segs))))"
proof -
  have "segs \<noteq> []" by (simp add: segs_def)
  then have "0 < length segs" by (rule length_greater_0_conv [THEN iffD2])
  then have bound: "k \<le> length segs - 1 \<longleftrightarrow> k < length segs" for k by linarith
  show ?thesis
    unfolding findTrackedAncestor_def Let_def segs_def [symmetric] tracked_ancestor_exact bound tracked_dirs_exact ..
qed

lemma established_exact:
  "established_ancestor (gate_env_of inp) w \<noteq> None \<longleftrightarrow> established_place (in_trackedFiles inp) w"
proof -
  define segs where "segs = js_split (CHR ''/'') (dirname w)"
  define T where "T k \<longleftrightarrow> tracked_dir (in_trackedFiles inp) (js_join ''/'' (take k segs))" for k
  let ?nearest = "\<lambda>k. 0 < k \<and> k < length segs \<and> T k \<and> (\<forall>j. k < j \<and> j < length segs \<longrightarrow> \<not> T j)"
  have place: "established_place (in_trackedFiles inp) w \<longleftrightarrow>
      \<not> looksOutOfRoot w \<and> \<not> hasSuspiciousCharacters w \<and>
      (\<exists>k. ?nearest k \<and> length segs - k \<le> 2
        \<and> 15 \<le> length (filter (prefix (js_join ''/'' (take k segs) @ ''/'')) (in_trackedFiles inp)))"
    unfolding established_place_def Let_def segs_def [symmetric] T_def by blast
  have anc: "findTrackedAncestor (dirname w) (e_trackedDirs (gate_env_of inp)) = Some (a, depth) \<longleftrightarrow>
      (\<exists>k. ?nearest k \<and> a = js_join ''/'' (take k segs) \<and> depth = length segs - k)" for a depth
    unfolding findTrackedAncestor_exact segs_def [symmetric] T_def by blast
  have files: "e_trackedFiles (gate_env_of inp) = in_trackedFiles inp" by (simp add: gate_env_of_def)
  show ?thesis
  proof (cases "findTrackedAncestor (dirname w) (e_trackedDirs (gate_env_of inp))")
    case None
    then have no: "?nearest k \<longleftrightarrow> False" for k using anc by fastforce
    from None show ?thesis unfolding place no by (simp add: established_ancestor_def)
  next
    case (Some ad)
    obtain a depth where ad: "ad = (a, depth)" by fastforce
    from Some ad anc obtain k where k: "?nearest k" "a = js_join ''/'' (take k segs)" "depth = length segs - k"
      by metis
    then have uniq: "?nearest k' \<longleftrightarrow> k' = k" for k' by (metis linorder_neqE_nat)
    from Some ad k(2,3) show ?thesis
      unfolding place uniq
      by (simp add: established_ancestor_def files MAX_NEW_DIR_DEPTH_def MIN_ESTABLISHED_ROOT_FILES_def
          js_starts_with_def Let_def not_less)
  qed
qed

lemma env_simps:
  "e_trackedFiles (gate_env_of inp) = in_trackedFiles inp"
  "e_plannedWrites (gate_env_of inp) = concat (map task_writes (in_tasks inp))"
  by (simp_all add: gate_env_of_def)

lemma verdict_simps [simp]:
  "v_taskId (verdict i p r c s t e) = i" "v_path (verdict i p r c s t e) = p" "v_role (verdict i p r c s t e) = r"
  "v_classification (verdict i p r c s t e) = c" "v_suggestion (verdict i p r c s t e) = s"
  "v_structuralError (verdict i p r c s t e) = e"
  by (simp_all add: verdict_def)

lemma glob_count:
  "0 < length (filter (glob_match (globToRegExp w)) files) \<longleftrightarrow>
     (\<exists>f \<in> set files. f \<in> glob_language (globToRegExp w))"
  by (simp add: filter_empty_conv glob_language_exact)

text \<open>What \<open>classify\<close> says of a write path, in terms of the repository alone.\<close>

lemma classify_write:
  fixes inp i w paths dirs
  defines "v \<equiv> classify (gate_env_of inp) i w WriteRole paths dirs" and "files \<equiv> in_trackedFiles inp"
  shows "v_taskId v = i" and "v_path v = w" and "v_role v = WriteRole"
    and "v_structuralError v \<longleftrightarrow> names_directory files w"
    and "v_classification v = SuspectPath \<longleftrightarrow> names_directory files w \<or> \<not> acceptable files paths dirs w"
    and "v_suggestion v =
      (if mistaken_place files paths dirs w then Some (pickClosest w (lookalikes files w)) else None)"
proof -
  let ?b = "basename w"
  let ?mirror = "isRecurringTestBasename ?b \<and> tracked_dir files (dirname w) \<and> taskOwnsMatchingSource ?b paths"
  have v: "v =
     (let text = (\<lambda>key ps. GateText (''scope_gate.reason.'' @ key) (e_lang (gate_env_of inp)) ps);
          result = (\<lambda>c key ps. verdict i w WriteRole c None (text key ps) False)
      in if names_directory files w
         then verdict i w WriteRole SuspectPath None (text ''directory_in_files_write'' []) True
         else if w \<in> set files then result ConfirmedPath ''confirmed'' []
         else if has_glob_magic w
         then (let n = length (filter (glob_match (globToRegExp w)) files)
               in if 0 < n then result ConfirmedPath ''glob_confirmed'' [(''count'', show_int (int n))]
                  else result SuspectPath ''glob_no_match'' [])
         else if lookalikes files w \<noteq> [] \<and> separate_trees files dirs w
         then result NewPlausiblePath ''parallel_tree_mirror'' []
         else if \<not> innocent_name files paths w
         then verdict i w WriteRole SuspectPath (Some (pickClosest w (lookalikes files w)))
                (text ''wrong_dir_suggestion'' [(''suggestion'', pickClosest w (lookalikes files w))]) False
         else if dirname w = [] \<or> tracked_dir files (dirname w) then result NewPlausiblePath ''new_plausible'' []
         else if \<forall>f \<in> set files. dirname f = [] then result NewPlausiblePath ''greenfield'' []
         else (case established_ancestor (gate_env_of inp) w of
                 Some (ancestor, n) \<Rightarrow> result NewPlausiblePath ''intentional_new_dir''
                   [(''parent'', dirname w), (''ancestor'', ancestor), (''count'', show_int (int n))]
               | None \<Rightarrow> result SuspectPath ''invented_dir'' [(''parent'', dirname w)]))"
    unfolding v_def files_def classify_def Let_def names_directory_def innocent_name_def
      tracked_dirs_exact env_simps lookalikes_exact parallel_tree_exact greenfield_exact
    by (simp add: disj_commute conj_commute)
  have trees: "separate_trees files dirs w \<Longrightarrow> lookalikes files w \<noteq> []"
    by (auto simp: separate_trees_def)
  have est: "established_ancestor (gate_env_of inp) w \<noteq> None \<longleftrightarrow> established_place files w"
    by (simp only: established_exact files_def)
  show "v_taskId v = i" "v_path v = w" "v_role v = WriteRole"
    "v_structuralError v \<longleftrightarrow> names_directory files w"
    by (simp_all add: v Let_def split: option.split)
  show "v_classification v = SuspectPath \<longleftrightarrow> names_directory files w \<or> \<not> acceptable files paths dirs w"
    using trees est
    by (cases "established_ancestor (gate_env_of inp) w")
      (auto simp: v Let_def acceptable_def known_place_def glob_count [unfolded length_greater_0_conv])
  show "v_suggestion v =
      (if mistaken_place files paths dirs w then Some (pickClosest w (lookalikes files w)) else None)"
    using trees
    by (auto simp: v Let_def mistaken_place_def split: option.split)
qed

section \<open>The verdict of the gate\<close>

lemma task_write_verdicts:
  "filter (\<lambda>v. v_role v = WriteRole \<and> Q v) (task_verdicts (gate_env_of inp) t) =
     filter Q (map (\<lambda>w. classify (gate_env_of inp) (gt_id t) w WriteRole (task_paths t) (task_dirs t)) (task_writes t))"
proof -
  have read: "v_role (classify env i r ReadRole ps ds) = ReadRole" for env i r ps ds
    by (simp add: classify_def Let_def split: option.split)
  show ?thesis
    by (simp add: task_verdicts_def Let_def filter_map comp_def classify_write(3) read)
qed

definition write_verdict :: "ScopeGateInput \<Rightarrow> ScopeGateTask \<Rightarrow> string \<Rightarrow> ScopePathVerdict" where
  "write_verdict inp t w =
     classify (gate_env_of inp) (gt_id t) w WriteRole (task_paths t) (task_dirs t)"

lemmas write_verdict_simps = classify_write [of inp "gt_id t" w "task_paths t" "task_dirs t" for inp t w,
    folded write_verdict_def]

text \<open>A write path is under suspicion when its verdict is \<open>suspect\<close>.\<close>

definition suspected :: "ScopeGateInput \<Rightarrow> ScopeGateTask \<Rightarrow> string \<Rightarrow> bool" where
  "suspected inp t w \<longleftrightarrow> names_directory (in_trackedFiles inp) w
     \<or> \<not> acceptable (in_trackedFiles inp) (task_paths t) (task_dirs t) w"

lemma write_suspects_exact:
  "write_suspects inp =
     concat (map (\<lambda>t. map (write_verdict inp t) (filter (suspected inp t) (task_writes t))) (in_tasks inp))"
proof -
  have task: "filter (\<lambda>v. v_role v = WriteRole \<and> v_classification v = SuspectPath)
        (task_verdicts (gate_env_of inp) t)
      = map (write_verdict inp t) (filter (suspected inp t) (task_writes t))" for t
    unfolding task_write_verdicts write_verdict_def [symmetric] filter_map comp_def
    by (simp add: write_verdict_simps suspected_def [abs_def])
  show ?thesis
    by (simp add: write_suspects_def gate_verdicts_def filter_concat comp_def task)
qed

lemma ball_write_suspects:
  "(\<forall>v \<in> set (write_suspects inp). P v) \<longleftrightarrow>
     (\<forall>t \<in> set (in_tasks inp). \<forall>w \<in> set (task_writes t). suspected inp t w \<longrightarrow> P (write_verdict inp t w))"
  by (auto simp: write_suspects_exact)

lemma resolve_suspect_exact:
  "resolve_suspect inp (write_verdict inp t w) \<noteq> None \<longleftrightarrow> repairable inp t w"
  by (simp add: resolve_suspect_def write_verdict_simps repairable_def lookalikes_exact Let_def list_ex_iff)

lemma structural_errors_exact:
  "structural_errors inp = [] \<longleftrightarrow>
     (\<forall>t \<in> set (in_tasks inp). \<forall>w \<in> set (task_writes t). \<not> names_directory (in_trackedFiles inp) w)"
proof -
  have "structural_errors inp = [] \<longleftrightarrow> (\<forall>v \<in> set (write_suspects inp). \<not> v_structuralError v)"
    by (simp add: structural_errors_def filter_empty_conv)
  also have "\<dots> \<longleftrightarrow> (\<forall>t \<in> set (in_tasks inp). \<forall>w \<in> set (task_writes t). suspected inp t w \<longrightarrow>
      \<not> names_directory (in_trackedFiles inp) w)"
    unfolding ball_write_suspects by (simp add: write_verdict_simps)
  finally show ?thesis by (auto simp: suspected_def)
qed

lemma blocking_suspects_exact:
  "blocking_suspects inp = [] \<longleftrightarrow>
     (\<forall>t \<in> set (in_tasks inp). \<forall>w \<in> set (task_writes t).
        suspected inp t w \<longrightarrow> in_resolveSuggestions inp \<and> repairable inp t w)"
proof -
  have "blocking_suspects inp = [] \<longleftrightarrow>
      (\<forall>v \<in> set (write_suspects inp). in_resolveSuggestions inp \<and> resolve_suspect inp v \<noteq> None)"
    by (simp add: blocking_suspects_def filter_empty_conv)
  then show ?thesis unfolding ball_write_suspects resolve_suspect_exact .
qed

lemma gate_passes:
  "(\<exists>p. evaluateScopeGate inp = ScopePassed p) \<longleftrightarrow>
     structural_errors inp = [] \<and> (in_acknowledgeScopePaths inp \<or> blocking_suspects inp = [])"
  by (auto simp: evaluateScopeGate_def blocked_def Let_def)

lemma gate_passes_lemma:
  "(\<exists>p. evaluateScopeGate inp = ScopePassed p) \<longleftrightarrow>
     (\<forall>t \<in> set (in_tasks inp). \<forall>w \<in> set (task_writes t).
        \<not> names_directory (in_trackedFiles inp) w \<and>
        (in_acknowledgeScopePaths inp
         \<or> acceptable (in_trackedFiles inp) (task_paths t) (task_dirs t) w
         \<or> in_resolveSuggestions inp \<and> repairable inp t w))"
  unfolding gate_passes structural_errors_exact blocking_suspects_exact suspected_def by blast

text \<open>
  C7: The scope gate lets a plan pass exactly when no task writes a path that is a directory
  of the repository, and every write path is acceptable on the evidence of the tracked files,
  acknowledged, or a repairable typo while suggestions are adopted. No acknowledgement lets a
  directory pass.
\<close>

theorem scope_gate_exact:
  "(\<exists>p. evaluateScopeGate inp = ScopePassed p) \<longleftrightarrow>
     (\<forall>t \<in> set (in_tasks inp). \<forall>w \<in> set (task_writes t).
        \<not> names_directory (in_trackedFiles inp) w \<and>
        (in_acknowledgeScopePaths inp
         \<or> acceptable (in_trackedFiles inp) (task_paths t) (task_dirs t) w
         \<or> in_resolveSuggestions inp \<and> repairable inp t w))"
  by (rule gate_passes_lemma)

definition wrong_directory_plan :: ScopeGateInput where
  "wrong_directory_plan = plan_input [''src/agents/worker.ts''] False False
     [\<lparr>gt_id = ''1'', gt_filesWrite = Some [''src/orchestra/worker.ts''], gt_filesRead = None, gt_directories = None\<rparr>]"

text \<open>The wrong directory that the gate was written for is refused.\<close>

theorem scope_gate_exact_witness:
  "\<not> (\<exists>p. evaluateScopeGate wrong_directory_plan = ScopePassed p)"
proof -
  have "lookalikes [''src/agents/worker.ts''] ''src/orchestra/worker.ts'' = [''src/agents/worker.ts'']"
    by (simp add: lookalikes_def basename_def)
  moreover have "\<not> separate_trees [''src/agents/worker.ts''] [] ''src/orchestra/worker.ts''"
    by (simp add: separate_trees_def coveringEntry_def)
  moreover have "js_lower (basename ''src/orchestra/worker.ts'') \<notin> set COMMON_BASENAMES"
    by code_simp
  moreover have "\<not> isRecurringTestBasename (basename ''src/orchestra/worker.ts'')"
    by code_simp
  moreover have "\<not> has_glob_magic ''src/orchestra/worker.ts''" by code_simp
  ultimately show ?thesis
    unfolding scope_gate_exact
    by (simp add: wrong_directory_plan_def plan_input_def acceptable_def innocent_name_def)
qed

end
