(* ===== verification/Scope_Resolution.thy ===== *)
theory Scope_Resolution
  imports Scope_Gate_Correct
begin

text \<open>
  The resolutions of the scope gate: what their application does to the write paths of a
  task, that it repairs exactly the repairable paths when no two paths collide up to case and
  a leading \<open>./\<close>, that the plan service then passes its own second run of the gate, and what
  happens when paths do collide.
\<close>

definition meant :: "ScopeGateInput \<Rightarrow> string \<Rightarrow> string" where
  "meant inp w = pickClosest w (lookalikes (in_trackedFiles inp) w)"

definition repaired :: "ScopeGateInput \<Rightarrow> ScopeGateTask \<Rightarrow> string \<Rightarrow> string" where
  "repaired inp t w = (if repairable inp t w then meant inp w else w)"

lemma repairable_mistaken:
  "repairable inp t w \<Longrightarrow> mistaken_place (in_trackedFiles inp) (task_paths t) (task_dirs t) w"
  by (simp add: repairable_def Let_def)

lemma mistaken_lookalikes:
  assumes "mistaken_place (in_trackedFiles inp) paths dirs w"
  shows "meant inp w \<in> set (in_trackedFiles inp)" and "basename (meant inp w) = basename w"
    and "w \<notin> set (in_trackedFiles inp)"
proof -
  from assms have "lookalikes (in_trackedFiles inp) w \<noteq> []"
    by (auto simp: mistaken_place_def innocent_name_def)
  then have "meant inp w \<in> set (lookalikes (in_trackedFiles inp) w)"
    unfolding meant_def by (rule pickClosest_mem)
  with assms show "meant inp w \<in> set (in_trackedFiles inp)" "basename (meant inp w) = basename w"
      "w \<notin> set (in_trackedFiles inp)"
    by (auto simp: lookalikes_def mistaken_place_def)
qed

lemmas repairable_meant = mistaken_lookalikes [OF repairable_mistaken]

section \<open>The resolutions of one task\<close>

lemma resolve_suspect_fields:
  assumes "resolve_suspect inp (write_verdict inp t w) = Some r"
  shows "r_taskId r = gt_id t \<and> r_path r = w \<and> r_replacement r = Some (meant inp w)"
  using assms
  by (auto simp: resolve_suspect_def write_verdict_simps meant_def Let_def split: if_splits)

lemma map_filter_concat:
  "List.map_filter f (concat (map (\<lambda>t. map (g t) (h t)) ts)) =
     concat (map (\<lambda>t. List.map_filter (\<lambda>w. f (g t w)) (h t)) ts)"
  by (induction ts) (simp_all add: List.map_filter_def filter_map comp_def)

lemma gate_resolutions_concat:
  "gate_resolutions inp =
     concat (map (\<lambda>t. List.map_filter (\<lambda>w. resolve_suspect inp (write_verdict inp t w))
       (filter (suspected inp t) (task_writes t))) (in_tasks inp))"
  unfolding gate_resolutions_def write_suspects_exact by (rule map_filter_concat)

lemma gate_resolution_origin:
  assumes "r \<in> set (gate_resolutions inp)"
  obtains t w where "t \<in> set (in_tasks inp)" "w \<in> set (task_writes t)" "repairable inp t w"
    "r_taskId r = gt_id t" "r_path r = w" "r_replacement r = Some (meant inp w)"
proof -
  from assms obtain t w where tw: "t \<in> set (in_tasks inp)" "w \<in> set (task_writes t)"
      "resolve_suspect inp (write_verdict inp t w) = Some r"
    by (auto simp: gate_resolutions_concat List.map_filter_def)
  moreover from tw(3) have "repairable inp t w"
    using resolve_suspect_exact [of inp t w] by simp
  ultimately show ?thesis using resolve_suspect_fields that by blast
qed

section \<open>Application\<close>

lemma find_index_Some:
  assumes "find_index P xs = Some i"
  obtains ys x zs where "xs = ys @ x # zs" "i = length ys" "P x" "\<forall>y \<in> set ys. \<not> P y"
proof -
  let ?ys = "takeWhile (\<lambda>x. \<not> P x) xs"
  from assms have i: "i = length ?ys" "i < length xs"
    by (auto simp: find_index_def Let_def split: if_splits)
  then have "dropWhile (\<lambda>x. \<not> P x) xs \<noteq> []"
    by (metis length_append less_irrefl add.right_neutral list.size(3) takeWhile_dropWhile_id)
  then obtain x zs where d: "dropWhile (\<lambda>x. \<not> P x) xs = x # zs" by (cases "dropWhile (\<lambda>x. \<not> P x) xs") auto
  then have "P x" by (simp add: dropWhile_eq_Cons_conv)
  moreover have "xs = ?ys @ x # zs" using d takeWhile_dropWhile_id [of "\<lambda>x. \<not> P x" xs] by simp
  ultimately show ?thesis using that i(1) by (auto dest: set_takeWhileD)
qed

lemma find_index_None: "find_index P xs = None \<longleftrightarrow> (\<forall>x \<in> set xs. \<not> P x)"
proof -
  have "length (takeWhile (\<lambda>x. \<not> P x) xs) < length xs \<longleftrightarrow> (\<exists>x \<in> set xs. P x)"
    by (induction xs) auto
  then show ?thesis by (simp add: find_index_def Let_def)
qed

text \<open>One resolution removes one path and adds the replacement unless it is there already.\<close>

lemma apply_resolution_cases:
  assumes "r_taskId r = i" and "r_replacement r = Some m" and "m \<noteq> []"
  obtains (skip) "\<forall>f \<in> set files. normPath f \<noteq> normPath (r_path r)"
      "apply_resolution i (files, applied) r = (files, applied)"
    | (hit) x ys zs files' act where "files = ys @ x # zs" "normPath x = normPath (r_path r)"
      "apply_resolution i (files, applied) r = (files', applied @ [(r, act)])"
      "files' = (if \<exists>f \<in> set files. normPath f = normPath m then ys @ zs else ys @ m # zs)"
proof (cases "find_index (\<lambda>f. normPath f = normPath (r_path r)) files")
  case None
  show ?thesis
  proof (rule skip)
    show "\<forall>f \<in> set files. normPath f \<noteq> normPath (r_path r)" using None by (simp only: find_index_None)
    show "apply_resolution i (files, applied) r = (files, applied)"
      using assms None by (simp add: apply_resolution_def)
  qed
next
  case (Some k)
  from Some obtain ys x zs where "files = ys @ x # zs" "k = length ys" "normPath x = normPath (r_path r)"
    by (rule find_index_Some)
  with assms Some show ?thesis
    by (intro hit [where ys = ys and x = x and zs = zs
          and act = "if \<exists>f \<in> set files. normPath f = normPath m then Dropped else Replaced"])
      (auto simp: apply_resolution_def truthy_text_def list_ex_iff)
qed

lemma apply_other_task: "r_taskId r \<noteq> i \<Longrightarrow> apply_resolution i st r = st"
  by (auto simp: apply_resolution_def split: prod.split)

lemma apply_no_replacement: "\<not> truthy_text (r_replacement r) \<Longrightarrow> apply_resolution i st r = st"
  by (auto simp: apply_resolution_def split: prod.split)

text \<open>Whatever collides, a task gains only tracked files that bear the name of one of its own.\<close>

definition same_name :: "string \<Rightarrow> string \<Rightarrow> bool" where
  "same_name f w \<longleftrightarrow> js_lower (basename f) = js_lower (basename w)"

lemma normPath_same_name:
  assumes "normPath f = normPath w"
  shows "same_name f w"
proof -
  have low: "js_lower_char c = CHR ''/'' \<longleftrightarrow> c = CHR ''/''" for c
  proof -
    have "js_lower_char c = CHR ''/'' \<longrightarrow> c = CHR ''/''"
    proof
      assume "js_lower_char c = CHR ''/''"
      then have "(of_char (js_lower_char c) :: nat) = 47" by simp
      then have "(of_char c :: nat) = 47"
        by (auto simp: js_lower_char_def Let_def of_char_of split: if_splits)
      then have "(of_char c :: nat) = of_char (CHR ''/'')" by simp
      then show "c = CHR ''/''" by (simp only: of_char_eq_iff)
    qed
    moreover have "js_lower_char (CHR ''/'') = CHR ''/''" by (simp add: js_lower_char_def)
    ultimately show ?thesis by blast
  qed
  have take_low: "takeWhile (\<lambda>c. c \<noteq> CHR ''/'') (map js_lower_char s) =
      map js_lower_char (takeWhile (\<lambda>c. c \<noteq> CHR ''/'') s)" for s
    by (simp add: takeWhile_map comp_def low)
  have "js_lower (basename p) = basename (js_lower p)" for p
    by (simp add: basename_def js_lower_def rev_map take_low)
  moreover have "basename (strip_dot_slash p) = basename p" for p
  proof (cases "js_starts_with p ''./''")
    case True
    then obtain q where "p = ''./'' @ q" by (auto simp: js_starts_with_def prefix_def)
    then show ?thesis by (simp add: strip_dot_slash_def js_starts_with_def basename_def takeWhile_append)
  qed (simp add: strip_dot_slash_def)
  ultimately show ?thesis using assms by (metis normPath_def same_name_def)
qed

lemma apply_resolution_range:
  assumes "truthy_text (r_replacement r) \<longrightarrow> r_replacement r = Some m \<and> same_name m (r_path r)"
    and "apply_resolution i (files, applied) r = (files', applied')"
  shows "set files' \<subseteq> set files \<union> {m. r_replacement r = Some m \<and> (\<exists>f \<in> set files. same_name m f)}"
    and "length files' \<le> length files"
proof -
  consider (inert) "apply_resolution i (files, applied) r = (files, applied)"
    | (live) "r_taskId r = i" "r_replacement r = Some m" "m \<noteq> []"
    using assms(1) apply_other_task apply_no_replacement
    by (metis (mono_tags) option.simps(5) truthy_text_def)
  then have "set files' \<subseteq> set files \<union> {m. r_replacement r = Some m \<and> (\<exists>f \<in> set files. same_name m f)}
      \<and> length files' \<le> length files"
  proof cases
    case inert
    with assms(2) show ?thesis by auto
  next
    case live
    then have "same_name m (r_path r)" using assms(1) by (simp add: truthy_text_def)
    then have name: "same_name m x" if "normPath x = normPath (r_path r)" for x
      using normPath_same_name [OF that] by (simp add: same_name_def)
    from live show ?thesis
      by (rule apply_resolution_cases [of r i m files applied])
        (use assms(2) name live in \<open>auto split: if_splits\<close>)
  qed
  then show "set files' \<subseteq> set files \<union> {m. r_replacement r = Some m \<and> (\<exists>f \<in> set files. same_name m f)}"
    and "length files' \<le> length files" by blast+
qed

lemma apply_resolutions_range:
  assumes "\<And>r. r \<in> set rs \<Longrightarrow> r_replacement r = Some (new r) \<and> new r \<in> T \<and> same_name (new r) (r_path r)"
    and "set files \<subseteq> set ws \<union> {f \<in> T. \<exists>w \<in> set ws. same_name f w}"
  shows "set (fst (foldl (apply_resolution i) (files, applied) rs)) \<subseteq> set ws \<union> {f \<in> T. \<exists>w \<in> set ws. same_name f w}
    \<and> length (fst (foldl (apply_resolution i) (files, applied) rs)) \<le> length files"
  using assms
proof (induction rs arbitrary: files applied)
  case (Cons r rs)
  obtain files' applied' where step: "apply_resolution i (files, applied) r = (files', applied')" by fastforce
  have r: "r_replacement r = Some (new r)" "new r \<in> T" "same_name (new r) (r_path r)"
    using Cons.prems(1) by auto
  have range: "set files' \<subseteq> set files \<union> {m. r_replacement r = Some m \<and> (\<exists>f \<in> set files. same_name m f)}"
      "length files' \<le> length files"
    using apply_resolution_range [OF _ step, of "new r"] r by auto
  have "set files' \<subseteq> set ws \<union> {f \<in> T. \<exists>w \<in> set ws. same_name f w}"
    using range(1) Cons.prems(2) r by (fastforce simp: same_name_def)
  with Cons.IH [of files' applied'] Cons.prems(1) range(2) step show ?case by fastforce
qed simp

text \<open>
  Whatever resolutions a gate offers, applying them to a task adds only tracked files
  that bear the name of a path the task already wrote, and never lengthens its list of write
  paths.
\<close>

theorem resolutions_only_redirect:
  "set (fst (applyScopeResolutions i ws (gate_resolutions inp)))
      \<subseteq> set ws \<union> {f \<in> set (in_trackedFiles inp). \<exists>w \<in> set ws. same_name f w}
    \<and> length (fst (applyScopeResolutions i ws (gate_resolutions inp))) \<le> length ws"
proof -
  have origin: "r_replacement r = Some (the (r_replacement r)) \<and> the (r_replacement r) \<in> set (in_trackedFiles inp)
      \<and> same_name (the (r_replacement r)) (r_path r)" if "r \<in> set (gate_resolutions inp)" for r
    using that by (rule gate_resolution_origin) (auto simp: same_name_def repairable_meant)
  from apply_resolutions_range [OF origin, of "gate_resolutions inp" ws ws i "[]"]
  show ?thesis by (simp add: applyScopeResolutions_def)
qed

section \<open>Exact repair\<close>

lemma concat_of_key:
  "distinct (map k ts) \<Longrightarrow> t \<in> set ts \<Longrightarrow> concat (map (\<lambda>u. if k u = k t then f u else []) ts) = f t"
proof (induction ts)
  case (Cons u us)
  show ?case
  proof (cases "u = t")
    case True
    with Cons.prems(1) have "k x \<noteq> k t" if "x \<in> set us" for x
      using that by (auto simp: image_iff)
    then have "concat (map (\<lambda>u. if k u = k t then f u else []) us) = []" by simp
    with True show ?thesis by simp
  next
    case False
    with Cons.prems have "k u \<noteq> k t" "t \<in> set us" by force+
    with Cons show ?thesis by simp
  qed
qed simp

lemma writes_of_id:
  assumes "distinct (map gt_id (in_tasks inp))" and "t \<in> set (in_tasks inp)"
  shows "writes_by_id inp (gt_id t) = task_writes t"
proof -
  have "map_of (rev (map (\<lambda>t. (gt_id t, t)) (in_tasks inp))) = map_of (map (\<lambda>t. (gt_id t, t)) (in_tasks inp))"
    using assms(1) by (intro map_of_rev_distinct) (simp add: comp_def)
  moreover have "map_of (map (\<lambda>t. (gt_id t, t)) (in_tasks inp)) (gt_id t) = Some t"
    using assms by (intro map_of_is_SomeI) (auto simp: comp_def)
  ultimately show ?thesis by (simp add: writes_by_id_def)
qed

lemma repairable_resolution:
  assumes "repairable inp t w"
  shows "r_taskId (the (resolve_suspect inp (write_verdict inp t w))) = gt_id t"
    and "r_path (the (resolve_suspect inp (write_verdict inp t w))) = w"
    and "r_replacement (the (resolve_suspect inp (write_verdict inp t w))) = Some (meant inp w)"
  using assms resolve_suspect_exact [of inp t w] resolve_suspect_fields [of inp t w] by auto

lemma map_filter_resolutions:
  "List.map_filter (\<lambda>w. resolve_suspect inp (write_verdict inp t w)) (filter (suspected inp t) ws) =
     map (\<lambda>w. the (resolve_suspect inp (write_verdict inp t w))) (filter (repairable inp t) ws)"
proof -
  have "repairable inp t w \<Longrightarrow> suspected inp t w" for w
    using repairable_mistaken [of inp t w]
    by (auto simp: suspected_def mistaken_place_def acceptable_def)
  then have "suspected inp t w \<and> resolve_suspect inp (write_verdict inp t w) \<noteq> None \<longleftrightarrow> repairable inp t w" for w
    using resolve_suspect_exact by blast
  then show ?thesis by (simp add: List.map_filter_def comp_def conj_commute)
qed

lemma own_resolutions:
  assumes "distinct (map gt_id (in_tasks inp))" and "t \<in> set (in_tasks inp)"
  shows "filter (\<lambda>r. r_taskId r = gt_id t) (gate_resolutions inp) =
    map (\<lambda>w. the (resolve_suspect inp (write_verdict inp t w))) (filter (repairable inp t) (task_writes t))"
proof -
  let ?res = "\<lambda>u. map (\<lambda>w. the (resolve_suspect inp (write_verdict inp u w))) (filter (repairable inp u) (task_writes u))"
  have own: "filter (\<lambda>r. r_taskId r = gt_id t) (?res u) = (if gt_id u = gt_id t then ?res u else [])" for u
  proof -
    have all: "\<forall>r \<in> set (?res u). r_taskId r = gt_id u" using repairable_resolution(1) by auto
    show ?thesis
    proof (cases "gt_id u = gt_id t")
      case True
      with all have "filter (\<lambda>r. r_taskId r = gt_id t) (?res u) = ?res u" by (intro filter_True) metis
      with True show ?thesis by presburger
    next
      case False
      with all have "filter (\<lambda>r. r_taskId r = gt_id t) (?res u) = []" by (intro filter_False) metis
      with False show ?thesis by presburger
    qed
  qed
  have "filter (\<lambda>r. r_taskId r = gt_id t) (gate_resolutions inp) =
      concat (map (\<lambda>u. if gt_id u = gt_id t then ?res u else []) (in_tasks inp))"
    unfolding gate_resolutions_concat map_filter_resolutions filter_concat map_map comp_def own ..
  also have "\<dots> = ?res t" using assms by (rule concat_of_key)
  finally show ?thesis .
qed

lemma apply_own_resolutions:
  "foldl (apply_resolution i) st rs = foldl (apply_resolution i) st (filter (\<lambda>r. r_taskId r = i) rs)"
  by (induction rs arbitrary: st) (simp_all add: apply_other_task)

text \<open>
  The state of the loop after the repairs \<open>repairs\<close>, in a task where no two paths collide: each
  repairable path has lost one occurrence for every repair, and what was meant is there.
\<close>

definition repair_inv ::
    "ScopeGateInput \<Rightarrow> ScopeGateTask \<Rightarrow> string list \<Rightarrow> string list \<Rightarrow> bool" where
  "repair_inv inp t repairs files \<longleftrightarrow>
     set files \<subseteq> set (in_trackedFiles inp) \<union> set (task_writes t)
     \<and> (\<forall>w. repairable inp t w \<longrightarrow>
          count (mset files) w + count (mset repairs) w = count (mset (task_writes t)) w)
     \<and> (\<forall>x. \<not> repairable inp t x \<longrightarrow>
          (x \<in> set files \<longleftrightarrow> x \<in> set (task_writes t) \<or> x \<in> meant inp ` set repairs))"

lemma repair_step:
  assumes inj: "inj_on normPath (set (in_trackedFiles inp) \<union> set (task_writes t))"
    and inv: "repair_inv inp t repairs files"
    and w: "repairable inp t w" "count (mset repairs) w < count (mset (task_writes t)) w"
    and r: "r = the (resolve_suspect inp (write_verdict inp t w))"
    and step: "apply_resolution (gt_id t) (files, applied) r = (files', applied')"
  shows "repair_inv inp t (repairs @ [w]) files' \<and> applied' \<noteq> []"
proof -
  let ?T = "set (in_trackedFiles inp)" and ?m = "meant inp w"
  have m: "?m \<in> ?T" "\<not> repairable inp t ?m" "w \<notin> ?T"
    using repairable_meant [OF w(1)] repairable_meant(3) [of inp t ?m] by auto
  have fields: "r_taskId r = gt_id t" "r_path r = w" "r_replacement r = Some ?m"
    using repairable_resolution [OF w(1)] r by simp_all
  have "?m \<noteq> []" using w(1) by (simp add: repairable_def meant_def Let_def)
  have sub: "set files \<subseteq> ?T \<union> set (task_writes t)" using inv by (simp add: repair_inv_def)
  have wt: "w \<in> set (task_writes t)" using w(2) by (metis count_mset_0_iff not_less0)
  have "count (mset files) w + count (mset repairs) w = count (mset (task_writes t)) w"
    using inv w(1) unfolding repair_inv_def by blast
  with w(2) have "0 < count (mset files) w" by linarith
  then have wf: "w \<in> set files" by (metis count_mset_0_iff less_irrefl)
  have same: "normPath f = normPath w \<longleftrightarrow> f = w" if "f \<in> set files" for f
    using inj_onD [OF inj] that sub wt by blast
  have samem: "normPath f = normPath ?m \<longleftrightarrow> f = ?m" if "f \<in> set files" for f
    using inj_onD [OF inj] that sub m(1) by blast
  obtain ys zs where split: "files = ys @ w # zs" "applied' \<noteq> []"
      "files' = (if ?m \<in> set files then ys @ zs else ys @ ?m # zs)"
    using fields(1,3) \<open>?m \<noteq> []\<close>
  proof (rule apply_resolution_cases [of r "gt_id t" ?m files applied])
    assume "\<forall>f \<in> set files. normPath f \<noteq> normPath (r_path r)"
    with wf fields(2) show ?thesis by blast
  next
    fix x ys zs f a
    assume "files = ys @ x # zs" "normPath x = normPath (r_path r)"
      "apply_resolution (gt_id t) (files, applied) r = (f, applied @ [(r, a)])"
      "f = (if \<exists>f \<in> set files. normPath f = normPath ?m then ys @ zs else ys @ ?m # zs)"
    with step fields(2) same samem show ?thesis by (intro that [of ys zs]) auto
  qed
  have "w \<noteq> ?m" using m(1,3) by metis
  have "repair_inv inp t (repairs @ [w]) files'"
    unfolding repair_inv_def
  proof (intro conjI allI impI)
    show "set files' \<subseteq> ?T \<union> set (task_writes t)" using sub split m(1) by auto
  next
    fix v assume v: "repairable inp t v"
    then have "v \<noteq> ?m" using m(2) by blast
    then have "count (mset files') v + (if v = w then 1 else 0) = count (mset files) v"
      using split by auto
    with inv v show "count (mset files') v + count (mset (repairs @ [w])) v = count (mset (task_writes t)) v"
      by (auto simp: repair_inv_def)
  next
    fix x assume x: "\<not> repairable inp t x"
    then have "x \<noteq> w" using w(1) by blast
    then have "x \<in> set files' \<longleftrightarrow> x \<in> set files \<or> x = ?m" using split by auto
    with inv x show "x \<in> set files' \<longleftrightarrow> x \<in> set (task_writes t) \<or> x \<in> meant inp ` set (repairs @ [w])"
      by (auto simp: repair_inv_def)
  qed
  with split(2) show ?thesis by blast
qed

lemma repair_loop:
  assumes inj: "inj_on normPath (set (in_trackedFiles inp) \<union> set (task_writes t))"
    and "repair_inv inp t repairs files"
    and "\<And>w. w \<in> set todo \<Longrightarrow> repairable inp t w"
    and "\<And>w. repairable inp t w \<Longrightarrow>
      count (mset repairs) w + count (mset todo) w = count (mset (task_writes t)) w"
  shows "repair_inv inp t (repairs @ todo)
    (fst (foldl (apply_resolution (gt_id t)) (files, applied)
      (map (\<lambda>w. the (resolve_suspect inp (write_verdict inp t w))) todo)))"
  using assms(2-)
proof (induction todo arbitrary: repairs files applied)
  case (Cons w todo)
  let ?r = "the (resolve_suspect inp (write_verdict inp t w))"
  obtain files' applied' where step: "apply_resolution (gt_id t) (files, applied) ?r = (files', applied')"
    by fastforce
  have w: "repairable inp t w" using Cons.prems(2) by simp
  have "count (mset repairs) w < count (mset (task_writes t)) w" using Cons.prems(3) [OF w] by simp
  from repair_step [OF inj Cons.prems(1) w this refl step]
  have "repair_inv inp t (repairs @ [w]) files'" by blast
  moreover have "count (mset (repairs @ [w])) v + count (mset todo) v = count (mset (task_writes t)) v"
    if "repairable inp t v" for v
    using Cons.prems(3) [OF that] by (simp split: if_splits)
  ultimately show ?case using Cons.IH [of "repairs @ [w]" files' applied'] Cons.prems(2) step by simp
qed simp

lemma apply_nothing:
  "foldl (apply_resolution i) (files, applied) rs = (files', []) \<Longrightarrow> files' = files \<and> applied = []"
proof (induction rs arbitrary: files applied)
  case (Cons r rs)
  obtain g b where step: "apply_resolution i (files, applied) r = (g, b)" by fastforce
  with Cons have "g = files' \<and> b = []" by fastforce
  with step show ?case
    by (auto simp: apply_resolution_def Let_def split: if_splits option.splits)
qed simp

lemma adopted_writes:
  "task_writes (adopt_resolutions rs t) = fst (applyScopeResolutions (gt_id t) (task_writes t) rs)"
  by (auto simp: adopt_resolutions_def applyScopeResolutions_def split: prod.split dest: apply_nothing)

lemma resolutions_repair_lemma:
  assumes ids: "distinct (map gt_id (in_tasks inp))" and t: "t \<in> set (in_tasks inp)"
    and inj: "inj_on normPath (set (in_trackedFiles inp) \<union> set (task_writes t))"
  shows "set (task_writes (adopt_resolutions (gate_resolutions inp) t)) = repaired inp t ` set (task_writes t)"
proof -
  let ?todo = "filter (repairable inp t) (task_writes t)"
  let ?out = "task_writes (adopt_resolutions (gate_resolutions inp) t)"
  have start: "repair_inv inp t [] (task_writes t)" by (auto simp: repair_inv_def)
  have cnt: "count (mset ?todo) w = count (mset (task_writes t)) w" if "repairable inp t w" for w
    using that by (simp add: mset_filter)
  have inv: "repair_inv inp t ?todo ?out"
    using repair_loop [OF inj start, of ?todo "[]"] cnt
    by (simp add: adopted_writes applyScopeResolutions_def own_resolutions [OF ids t]
        apply_own_resolutions [of "gt_id t" _ "gate_resolutions inp"])
  have gone: "w \<notin> set ?out" if "repairable inp t w" for w
  proof -
    have "count (mset ?out) w = 0" using inv that cnt [OF that] by (auto simp: repair_inv_def)
    then show ?thesis by simp
  qed
  show ?thesis
  proof (intro set_eqI iffI)
    fix x assume x: "x \<in> set ?out"
    then have "\<not> repairable inp t x" using gone by blast
    with x inv have "x \<in> set (task_writes t) \<or> x \<in> meant inp ` set ?todo" by (auto simp: repair_inv_def)
    then obtain w where "w \<in> set (task_writes t)" "x = repaired inp t w"
      using \<open>\<not> repairable inp t x\<close> by (auto simp: repaired_def)
    then show "x \<in> repaired inp t ` set (task_writes t)" by blast
  next
    fix x assume "x \<in> repaired inp t ` set (task_writes t)"
    then obtain w where w: "w \<in> set (task_writes t)" "x = repaired inp t w" by blast
    show "x \<in> set ?out"
    proof (cases "repairable inp t w")
      case True
      then have "\<not> repairable inp t (meant inp w)" using repairable_meant by blast
      with inv True w show ?thesis by (auto simp: repair_inv_def repaired_def)
    next
      case False
      with inv w show ?thesis by (auto simp: repair_inv_def repaired_def)
    qed
  qed
qed

section \<open>The second run of the gate\<close>

lemma basenames_decide_ownership:
  assumes "basename ` set ps = basename ` set qs"
  shows "taskOwnsMatchingSource b ps \<longleftrightarrow> taskOwnsMatchingSource b qs"
proof -
  have same: "(\<exists>p \<in> set ps. P (basename p)) \<longleftrightarrow> (\<exists>q \<in> set qs. P (basename q))" for P
  proof -
    have "(\<exists>p \<in> set xs. P (basename p)) \<longleftrightarrow> (\<exists>b \<in> basename ` set xs. P b)" for xs by blast
    then show ?thesis by (simp only: assms)
  qed
  show ?thesis
    unfolding taskOwnsMatchingSource_def list_ex_iff Let_def
    by (rule same [of "\<lambda>p. \<not> isRecurringTestBasename p
      \<and> remove_suffix source_suffixes (js_lower p) (js_lower p) = js_lower (remove_suffix test_suffixes (js_lower b) b)"])
qed

lemma adopt_frame [simp]:
  "gt_id (adopt_resolutions rs t) = gt_id t"
  "gt_filesRead (adopt_resolutions rs t) = gt_filesRead t"
  "gt_directories (adopt_resolutions rs t) = gt_directories t"
  by (simp_all add: adopt_resolutions_def split: prod.split)

text \<open>A plan whose paths do not collide, over a repository as Git lists one.\<close>

definition collision_free :: "string list \<Rightarrow> ScopeGateTask list \<Rightarrow> bool" where
  "collision_free files tasks \<longleftrightarrow>
     distinct (map gt_id tasks) \<and> (\<forall>f \<in> set files. \<not> names_directory files f)
     \<and> (\<forall>t \<in> set tasks. inj_on normPath (set files \<union> set (task_writes t)))"

definition adopted :: "ScopeGateInput \<Rightarrow> ScopeGateTask \<Rightarrow> ScopeGateTask" where
  "adopted inp t = adopt_resolutions (gate_resolutions inp) t"

lemma adopted_innocent:
  assumes free: "collision_free (in_trackedFiles inp) (in_tasks inp)" and t: "t \<in> set (in_tasks inp)"
  shows "innocent_name (in_trackedFiles inp) (task_paths (adopted inp t)) w
      \<longleftrightarrow> innocent_name (in_trackedFiles inp) (task_paths t) w"
proof -
  have writes: "set (task_writes (adopted inp t)) = repaired inp t ` set (task_writes t)"
    using resolutions_repair_lemma free t by (simp add: collision_free_def adopted_def)
  have "basename (repaired inp t w) = basename w" for w
    by (simp add: repaired_def repairable_meant)
  then have "basename ` set (task_writes (adopted inp t)) = basename ` set (task_writes t)"
    unfolding writes by (simp add: image_image)
  then have "basename ` set (task_paths (adopted inp t)) = basename ` set (task_paths t)"
    by (simp add: image_Un adopted_def)
  then have "taskOwnsMatchingSource b (task_paths (adopted inp t)) \<longleftrightarrow> taskOwnsMatchingSource b (task_paths t)" for b
    by (rule basenames_decide_ownership)
  then show ?thesis by (simp add: innocent_name_def)
qed

text \<open>A path that is still mistaken after the repair was not repairable, and is not now.\<close>

lemma adopted_settled:
  assumes free: "collision_free (in_trackedFiles inp) (in_tasks inp)" and t: "t \<in> set (in_tasks inp)"
    and inp': "in_trackedFiles inp' = in_trackedFiles inp" "in_tasks inp' = map (adopted inp) (in_tasks inp)"
    and w: "w \<in> set (task_writes (adopted inp t))"
  shows "\<not> repairable inp' (adopted inp t) w"
proof
  let ?files = "in_trackedFiles inp" and ?t = "adopted inp t"
  assume rep: "repairable inp' ?t w"
  have writes: "set (task_writes ?t) = repaired inp t ` set (task_writes t)"
    using resolutions_repair_lemma free t by (simp add: collision_free_def adopted_def)
  have inj: "inj_on normPath (set ?files \<union> set (task_writes t))"
    using free t by (simp add: collision_free_def)
  have ids: "distinct (map gt_id (in_tasks inp))" using free by (simp add: collision_free_def)
  then have ids': "distinct (map gt_id (in_tasks inp'))" by (simp add: inp' comp_def adopted_def)
  have own: "writes_by_id inp (gt_id t) = task_writes t"
    and own': "writes_by_id inp' (gt_id ?t) = task_writes ?t"
    using writes_of_id [OF ids t] writes_of_id [OF ids'] t by (simp_all add: inp')
  have mist': "mistaken_place ?files (task_paths ?t) (task_dirs ?t) w"
    using repairable_mistaken [OF rep] by (simp add: inp')
  then have mist: "mistaken_place ?files (task_paths t) (task_dirs t) w"
    using adopted_innocent [OF free t] by (simp add: mistaken_place_def adopted_def)
  then have new: "w \<notin> set ?files" "meant inp w \<in> set ?files" "basename (meant inp w) = basename w"
    using mistaken_lookalikes [OF mist] by blast+
  from w writes obtain v where "v \<in> set (task_writes t)" "w = repaired inp t v" by blast
  with new(1) have "w \<in> set (task_writes t)" "\<not> repairable inp t w"
    by (auto simp: repaired_def repairable_meant split: if_splits)
  with mist rep have not_single: "length (lookalikes ?files w) \<noteq> 1"
    and no_dup: "\<forall>u \<in> set (task_writes t). normPath u \<noteq> normPath (meant inp w)"
    by (auto simp: repairable_def Let_def inp' own meant_def)
  from rep not_single obtain u where u: "u \<in> set (task_writes ?t)" "normPath u = normPath (meant inp w)"
    by (auto simp: repairable_def Let_def inp'(1) own' meant_def)
  with no_dup writes obtain v where v: "v \<in> set (task_writes t)" "repairable inp t v" "u = meant inp v"
    by (auto simp: repaired_def split: if_splits)
  have "meant inp v = meant inp w"
    using inj_onD [OF inj, of "meant inp v" "meant inp w"] u v new repairable_meant [OF v(2)] by auto
  moreover from this have "lookalikes ?files v = lookalikes ?files w"
    using new repairable_meant(2) [OF v(2)] by (simp add: lookalikes_def)
  ultimately show False
    using v(2) not_single no_dup by (auto simp: repairable_def Let_def own meant_def)
qed

lemma second_run_passes:
  assumes free: "collision_free (in_trackedFiles inp) (in_tasks inp)"
    and resolve: "in_resolveSuggestions inp" and pass: "evaluateScopeGate inp = ScopePassed p"
    and inp': "in_trackedFiles inp' = in_trackedFiles inp" "in_tasks inp' = map (adopted inp) (in_tasks inp)"
      "in_acknowledgeScopePaths inp' = in_acknowledgeScopePaths inp"
    and t: "t \<in> set (in_tasks inp)" and w: "w \<in> set (task_writes (adopted inp t))"
  shows "\<not> names_directory (in_trackedFiles inp) w
    \<and> (in_acknowledgeScopePaths inp
       \<or> acceptable (in_trackedFiles inp) (task_paths (adopted inp t)) (task_dirs (adopted inp t)) w)"
proof -
  let ?files = "in_trackedFiles inp"
  from w free t obtain v where v: "v \<in> set (task_writes t)" "w = repaired inp t v"
    using resolutions_repair_lemma by (auto simp: collision_free_def adopted_def)
  have gate: "\<forall>t \<in> set (in_tasks inp). \<forall>w \<in> set (task_writes t).
      \<not> names_directory ?files w \<and> (in_acknowledgeScopePaths inp
      \<or> acceptable ?files (task_paths t) (task_dirs t) w \<or> repairable inp t w)"
    using gate_passes_lemma [of inp] pass resolve by blast
  show ?thesis
  proof (cases "repairable inp t v")
    case True
    with v have "w \<in> set ?files" by (simp add: repaired_def repairable_meant)
    with free show ?thesis by (auto simp: collision_free_def acceptable_def)
  next
    case False
    with v have "w = v" by (simp add: repaired_def)
    with gate [rule_format, OF t v(1)] False have "\<not> names_directory ?files w \<and> (in_acknowledgeScopePaths inp
        \<or> acceptable ?files (task_paths t) (task_dirs t) w)" by blast
    moreover have "acceptable ?files (task_paths (adopted inp t)) (task_dirs (adopted inp t)) w
        \<longleftrightarrow> acceptable ?files (task_paths t) (task_dirs t) w"
      unfolding acceptable_def adopted_innocent [OF free t] by (simp add: adopted_def)
    ultimately show ?thesis by blast
  qed
qed

lemma passed_resolutions:
  assumes "evaluateScopeGate inp = ScopePassed p"
  shows "p_resolutions p = gate_resolutions inp"
proof -
  have "p = pass_result inp"
    using assms by (simp add: evaluateScopeGate_def blocked_def Let_def split: if_splits)
  then show ?thesis by (simp add: pass_result_def Let_def)
qed

lemma no_resolution_left:
  assumes "\<And>t w. t \<in> set (in_tasks inp) \<Longrightarrow> w \<in> set (task_writes t) \<Longrightarrow> \<not> repairable inp t w"
  shows "gate_resolutions inp = []"
proof (rule ccontr)
  assume "gate_resolutions inp \<noteq> []"
  then obtain r where "r \<in> set (gate_resolutions inp)" by (meson list.set_sel(1))
  then show False by (rule gate_resolution_origin) (use assms in blast)
qed

text \<open>
  C8: On a plan whose paths do not collide, the second run of the gate in the plan service
  never contradicts the first, and a plan that passes writes no directory of the repository
  and, unless acknowledged, only acceptable paths.
\<close>

theorem plan_scope_gate_settles:
  assumes free: "collision_free files tasks"
  shows "\<exists>s. plan_scope_gate (Some files) acknowledge tasks = Inr s \<and>
    (ps_result s = GatePass \<longrightarrow> (\<forall>t \<in> set (ps_tasks s). \<forall>w \<in> set (task_writes t).
       \<not> names_directory files w \<and> (acknowledge \<or> acceptable files (task_paths t) (task_dirs t) w)))"
proof -
  let ?inp = "plan_input files acknowledge True tasks"
  let ?tasks' = "map (adopted ?inp) tasks"
  let ?inp' = "plan_input files acknowledge False ?tasks'"
  have fields: "in_trackedFiles ?inp = files" "in_tasks ?inp = tasks" "in_acknowledgeScopePaths ?inp = acknowledge"
      "in_resolveSuggestions ?inp" "in_trackedFiles ?inp' = files" "in_tasks ?inp' = ?tasks'"
      "in_acknowledgeScopePaths ?inp' = acknowledge" "\<not> in_resolveSuggestions ?inp'"
    by (simp_all add: plan_input_def)
  show ?thesis
  proof (cases "evaluateScopeGate ?inp")
    case (ScopeBlocked b)
    then show ?thesis by (simp add: plan_scope_gate_def)
  next
    case (ScopePassed p)
    have "\<not> names_directory files w \<and> (acknowledge \<or> acceptable files (task_paths (adopted ?inp t)) (task_dirs (adopted ?inp t)) w)"
      if "t \<in> set tasks" "w \<in> set (task_writes (adopted ?inp t))" for t w
      using second_run_passes [of ?inp p ?inp' t w] free ScopePassed that fields(4) unfolding fields(1-3,5-7) by blast
    then have good: "\<forall>t \<in> set ?tasks'. \<forall>w \<in> set (task_writes t). \<not> names_directory files w
        \<and> (acknowledge \<or> acceptable files (task_paths t) (task_dirs t) w)"
      by fastforce
    then obtain q where q: "evaluateScopeGate ?inp' = ScopePassed q"
      using gate_passes_lemma [of ?inp'] unfolding fields by blast
    have "\<not> repairable ?inp' (adopted ?inp t) w" if "t \<in> set tasks" "w \<in> set (task_writes (adopted ?inp t))" for t w
      using that adopted_settled [of ?inp t ?inp' w] free unfolding fields by blast
    then have "\<not> repairable ?inp' t w" if "t \<in> set ?tasks'" "w \<in> set (task_writes t)" for t w
      using that by fastforce
    then have none: "gate_resolutions ?inp' = []"
      using no_resolution_left [of ?inp'] unfolding fields by blast
    have res: "p_resolutions p = gate_resolutions ?inp" "p_resolutions q = []"
      using passed_resolutions [OF ScopePassed] passed_resolutions [OF q] none by simp_all
    have same: "?tasks' = map (adopt_resolutions (p_resolutions p)) tasks"
      by (simp add: adopted_def res)
    have unchanged: "?tasks' = tasks" if "p_resolutions p = []"
      using that by (simp add: same adopt_resolutions_def applyScopeResolutions_def map_idI)
    show ?thesis
    proof (cases "p_resolutions p = []")
      case True
      with ScopePassed good unchanged show ?thesis by (simp add: plan_scope_gate_def)
    next
      case False
      with ScopePassed q res good same show ?thesis by (simp add: plan_scope_gate_def Let_def)
    qed
  qed
qed

text \<open>The plan the gate was written for: a module named in the wrong directory.\<close>

definition typo_task :: ScopeGateTask where
  "typo_task = \<lparr>gt_id = ''1'', gt_filesWrite = Some [''src/orchestra/worker.ts''], gt_filesRead = None,
     gt_directories = None\<rparr>"

lemma typo_collision_free: "collision_free [''src/agents/worker.ts''] [typo_task]"
proof -
  have "\<not> names_directory [''src/agents/worker.ts''] ''src/agents/worker.ts''"
    by (simp add: names_directory_def tracked_dir_def strip_slashes_def strip_dot_slash_def js_starts_with_def)
  moreover have "normPath ''src/agents/worker.ts'' \<noteq> normPath ''src/orchestra/worker.ts''"
    by code_simp
  ultimately show ?thesis by (simp add: collision_free_def typo_task_def)
qed

text \<open>
  C38: In a plan with distinct task ids, where no two paths of a task and the repository
  collide up to case and a leading \<open>./\<close>, adopting the resolutions of the gate replaces exactly
  the repairable write paths of the task by the tracked files that were meant.
\<close>

theorem resolutions_repair_exactly:
  assumes "distinct (map gt_id (in_tasks inp))" and "t \<in> set (in_tasks inp)"
    and "inj_on normPath (set (in_trackedFiles inp) \<union> set (task_writes t))"
  shows "set (task_writes (adopt_resolutions (gate_resolutions inp) t)) = repaired inp t ` set (task_writes t)"
  using assms by (rule resolutions_repair_lemma)

theorem resolutions_repair_exactly_witness:
  "set (task_writes (adopt_resolutions
      (gate_resolutions (plan_input [''src/agents/worker.ts''] False True [typo_task])) typo_task))
    = {repaired (plan_input [''src/agents/worker.ts''] False True [typo_task]) typo_task ''src/orchestra/worker.ts''}"
  using resolutions_repair_exactly [of "plan_input [''src/agents/worker.ts''] False True [typo_task]" typo_task]
    typo_collision_free
  by (simp add: plan_input_def collision_free_def) (simp add: typo_task_def)

theorem plan_scope_gate_settles_witness:
  "\<exists>s. plan_scope_gate (Some [''src/agents/worker.ts'']) False [typo_task] = Inr s \<and>
    (ps_result s = GatePass \<longrightarrow> (\<forall>t \<in> set (ps_tasks s). \<forall>w \<in> set (task_writes t).
       \<not> names_directory [''src/agents/worker.ts''] w
       \<and> acceptable [''src/agents/worker.ts''] (task_paths t) (task_dirs t) w))"
  using plan_scope_gate_settles [OF typo_collision_free, of False] by simp

text \<open>
  Where paths do collide, a repair can lose work: a tracked file written as \<open>./src/a.ts\<close> is
  its own lookalike and its own duplicate, so the plan passes with nothing left to write.
\<close>

lemma self_duplicate_is_dropped:
  "plan_scope_gate (Some [''src/a.ts'']) False
     [\<lparr>gt_id = ''1'', gt_filesWrite = Some [''./src/a.ts''], gt_filesRead = None, gt_directories = None\<rparr>]
   = Inr \<lparr>ps_result = GatePass, ps_message = None, ps_overridden = False,
       ps_tasks = [\<lparr>gt_id = ''1'', gt_filesWrite = Some [], gt_filesRead = None, gt_directories = None\<rparr>]\<rparr>"
  by code_simp

end
