(* ===== verification/Model_Activation.thy ===== *)
theory Model_Activation
  imports Js_String "HOL-Library.Product_Lexorder"
begin

text \<open>
  \<open>src/core/model-activation-store.ts\<close>: the owner's decisions about models and providers, as the
  store keeps them and as the snapshot that is taken of it once.

  A table is an association list from its primary key to the other columns of the row. Columns
  are typed, so the tests for malformed rows have no counterpart; opening and closing the
  database, and the version of its schema, are left out. The digest of the snapshot is a hash of
  the canonical decisions, which are kept themselves.
\<close>

datatype ProviderPolicyMode = ImplicitActive | ExplicitActive

definition DEFAULT_PROVIDER_POLICY_MODE :: ProviderPolicyMode where
  "DEFAULT_PROVIDER_POLICY_MODE = ImplicitActive"

record activation_row =
  row_active :: bool
  row_updatedAt :: string
  row_actor :: string

record policy_row =
  row_mode :: ProviderPolicyMode
  row_policyAt :: string
  row_policyActor :: string

record activation_store =
  as_activations :: "(string \<times> string, activation_row) js_map"
  as_policies :: "(string, policy_row) js_map"

definition assertNonEmpty :: "string \<Rightarrow> string option" where
  "assertNonEmpty value = (if js_trim value = [] then None else Some (js_trim value))"

definition setActivation ::
    "string \<Rightarrow> string \<Rightarrow> string \<Rightarrow> bool \<Rightarrow> string \<Rightarrow> activation_store \<Rightarrow> activation_store option" where
  "setActivation now provider modelId active actor st =
     (case (assertNonEmpty provider, assertNonEmpty modelId, assertNonEmpty actor) of
        (Some p, Some m, Some a) \<Rightarrow>
          Some (st\<lparr>as_activations := AList.update (p, m)
            \<lparr>row_active = active, row_updatedAt = now, row_actor = a\<rparr> (as_activations st)\<rparr>)
      | _ \<Rightarrow> None)"

definition isActive :: "activation_store \<Rightarrow> string \<Rightarrow> string \<Rightarrow> bool" where
  "isActive st provider modelId =
     (case map_of (as_activations st) (provider, modelId) of None \<Rightarrow> True | Some r \<Rightarrow> row_active r)"

definition clearActivation :: "string \<Rightarrow> string \<Rightarrow> activation_store \<Rightarrow> bool \<times> activation_store" where
  "clearActivation provider modelId st =
     (map_of (as_activations st) (provider, modelId) \<noteq> None,
      st\<lparr>as_activations := AList.delete (provider, modelId) (as_activations st)\<rparr>)"

definition setProviderPolicy ::
    "string \<Rightarrow> string \<Rightarrow> ProviderPolicyMode \<Rightarrow> string \<Rightarrow> activation_store \<Rightarrow> activation_store option" where
  "setProviderPolicy now provider mode actor st =
     (case (assertNonEmpty provider, assertNonEmpty actor) of
        (Some p, Some a) \<Rightarrow>
          Some (st\<lparr>as_policies := AList.update p
            \<lparr>row_mode = mode, row_policyAt = now, row_policyActor = a\<rparr> (as_policies st)\<rparr>)
      | _ \<Rightarrow> None)"

definition getProviderPolicy :: "activation_store \<Rightarrow> string \<Rightarrow> ProviderPolicyMode" where
  "getProviderPolicy st provider =
     (case map_of (as_policies st) provider of None \<Rightarrow> DEFAULT_PROVIDER_POLICY_MODE | Some r \<Rightarrow> row_mode r)"

text \<open>\<open>ORDER BY provider, model_id\<close> and \<open>ORDER BY provider\<close>.\<close>

definition list_activations :: "activation_store \<Rightarrow> ((string \<times> string) \<times> activation_row) list" where
  "list_activations st = sort_key fst (as_activations st)"

definition listProviderPolicies :: "activation_store \<Rightarrow> (string \<times> policy_row) list" where
  "listProviderPolicies st = sort_key fst (as_policies st)"

definition store_isExecutable :: "activation_store \<Rightarrow> string \<Rightarrow> string \<Rightarrow> bool" where
  "store_isExecutable st provider modelId =
     (if getProviderPolicy st provider = ExplicitActive
      then (case map_of (as_activations st) (provider, modelId) of None \<Rightarrow> False | Some r \<Rightarrow> row_active r)
      else isActive st provider modelId)"

section \<open>The snapshot\<close>

record ModelActivationPolicy =
  ap_explicitProviders :: "string js_set"
  ap_activeKeys :: "(string \<times> string) js_set"
  ap_deactivatedKeys :: "(string \<times> string) js_set"
  ap_activeModels :: "(string \<times> string) list"
  ap_decisions :: "(string \<times> ProviderPolicyMode) list \<times> ((string \<times> string) \<times> bool) list"

text \<open>\<open>lc\<close> is \<open>localeCompare\<close>.\<close>

definition compare_models :: "(string \<Rightarrow> string \<Rightarrow> int) \<Rightarrow> string \<times> string \<Rightarrow> string \<times> string \<Rightarrow> int" where
  "compare_models lc a b = (if fst a = fst b then lc (snd a) (snd b) else lc (fst a) (fst b))"

definition buildPolicy ::
    "(string \<Rightarrow> string \<Rightarrow> int) \<Rightarrow> ((string \<times> string) \<times> activation_row) list \<Rightarrow> (string \<times> policy_row) list
     \<Rightarrow> ModelActivationPolicy" where
  "buildPolicy lc records policies =
     (let active = map fst (filter (\<lambda>(_, r). row_active r) records)
      in \<lparr>ap_explicitProviders = js_set_of (map fst (filter (\<lambda>(_, p). row_mode p = ExplicitActive) policies)),
          ap_activeKeys = js_set_of active,
          ap_deactivatedKeys = js_set_of (map fst (filter (\<lambda>(_, r). \<not> row_active r) records)),
          ap_activeModels = js_sort (compare_models lc) active,
          ap_decisions = (sort_key fst (map (\<lambda>(p, r). (p, row_mode r)) policies),
             sort_key fst (map (\<lambda>(k, r). (k, row_active r)) records))\<rparr>)"

definition policy_providerMode :: "ModelActivationPolicy \<Rightarrow> string \<Rightarrow> ProviderPolicyMode" where
  "policy_providerMode p provider =
     (if provider \<in> set (ap_explicitProviders p) then ExplicitActive else ImplicitActive)"

definition policy_isExecutable :: "ModelActivationPolicy \<Rightarrow> string \<Rightarrow> string \<Rightarrow> bool" where
  "policy_isExecutable p provider modelId =
     (if provider \<in> set (ap_explicitProviders p) then (provider, modelId) \<in> set (ap_activeKeys p)
      else (provider, modelId) \<notin> set (ap_deactivatedKeys p))"

definition emptyModelActivationPolicy :: ModelActivationPolicy where
  "emptyModelActivationPolicy = \<lparr>ap_explicitProviders = [], ap_activeKeys = [], ap_deactivatedKeys = [],
     ap_activeModels = [], ap_decisions = ([], [])\<rparr>"

text \<open>What a reader finds: no file, a store, or a file that cannot be read.\<close>

datatype store_file = NoStore | Readable activation_store | Unreadable

definition resolveActiveModelPolicy :: "(string \<Rightarrow> string \<Rightarrow> int) \<Rightarrow> store_file \<Rightarrow> ModelActivationPolicy" where
  "resolveActiveModelPolicy lc file =
     (case file of
        Readable st \<Rightarrow> buildPolicy lc (list_activations st) (listProviderPolicies st)
      | _ \<Rightarrow> emptyModelActivationPolicy)"

definition readInactiveModels :: "store_file \<Rightarrow> (string \<times> string) js_set" where
  "readInactiveModels file =
     (case file of
        Readable st \<Rightarrow> js_set_of (map fst (filter (\<lambda>(_, r). \<not> row_active r) (list_activations st)))
      | _ \<Rightarrow> [])"

record execution_authority =
  ea_ready :: bool
  ea_executable :: bool
  ea_providerMode :: ProviderPolicyMode

definition resolveProjectModelExecutionAuthority ::
    "(string \<Rightarrow> string \<Rightarrow> int) \<Rightarrow> store_file \<Rightarrow> string \<Rightarrow> string \<Rightarrow> execution_authority" where
  "resolveProjectModelExecutionAuthority lc file provider modelId =
     (case file of
        Unreadable \<Rightarrow> \<lparr>ea_ready = False, ea_executable = False, ea_providerMode = DEFAULT_PROVIDER_POLICY_MODE\<rparr>
      | _ \<Rightarrow> (let p = resolveActiveModelPolicy lc file
             in \<lparr>ea_ready = True, ea_executable = policy_isExecutable p provider modelId,
                 ea_providerMode = policy_providerMode p provider\<rparr>))"

section \<open>The snapshot and the store agree\<close>

text \<open>The primary keys: no operation repeats one.\<close>

definition store_ok :: "activation_store \<Rightarrow> bool" where
  "store_ok st \<longleftrightarrow> distinct (map fst (as_activations st)) \<and> distinct (map fst (as_policies st))"

lemma store_ok_set:
  "store_ok st \<Longrightarrow> setActivation now p m a who st = Some st' \<Longrightarrow> store_ok st'"
  "store_ok st \<Longrightarrow> setProviderPolicy now p mode who st = Some st' \<Longrightarrow> store_ok st'"
  "store_ok st \<Longrightarrow> store_ok (snd (clearActivation p m st))"
  by (auto simp: store_ok_def setActivation_def setProviderPolicy_def clearActivation_def
      distinct_update distinct_delete split: option.splits)

lemma fst_image_map_of:
  "distinct (map fst xs) \<Longrightarrow>
   k \<in> fst ` {x \<in> set xs. case x of (_, r) \<Rightarrow> P r} \<longleftrightarrow> (\<exists>r. map_of xs k = Some r \<and> P r)"
  by (force simp: map_of_eq_Some_iff)

lemma listed_keys:
  "store_ok st \<Longrightarrow> (k \<in> set (map fst (filter (\<lambda>(_, r). P r) (list_activations st))))
     = (\<exists>r. map_of (as_activations st) k = Some r \<and> P r)"
  "store_ok st \<Longrightarrow> (q \<in> set (map fst (filter (\<lambda>(_, r). Q r) (listProviderPolicies st))))
     = (\<exists>r. map_of (as_policies st) q = Some r \<and> Q r)"
  by (simp_all only: store_ok_def list_activations_def listProviderPolicies_def set_map set_filter set_sort)
    (simp_all add: fst_image_map_of)

text \<open>
  The snapshot of the owner's decisions that selection and dispatch consult gives, for every
  provider and model, the answer that the store gives: the mode of the provider and whether the
  model may be executed.
\<close>

theorem snapshot_agrees:
  assumes "store_ok st"
  shows "policy_isExecutable (resolveActiveModelPolicy lc (Readable st)) p m = store_isExecutable st p m
    \<and> policy_providerMode (resolveActiveModelPolicy lc (Readable st)) p = getProviderPolicy st p"
proof -
  let ?policy = "resolveActiveModelPolicy lc (Readable st)"
  have explicit: "p \<in> set (ap_explicitProviders ?policy) \<longleftrightarrow> getProviderPolicy st p = ExplicitActive"
    using listed_keys(2) [OF assms, of p "\<lambda>r. row_mode r = ExplicitActive"]
    by (auto simp: resolveActiveModelPolicy_def buildPolicy_def Let_def getProviderPolicy_def
        DEFAULT_PROVIDER_POLICY_MODE_def split: option.splits)
  have mode: "getProviderPolicy st p = ImplicitActive \<longleftrightarrow> getProviderPolicy st p \<noteq> ExplicitActive"
    by (cases "getProviderPolicy st p") auto
  have active: "(p, m) \<in> set (ap_activeKeys ?policy) \<longleftrightarrow> (\<exists>r. map_of (as_activations st) (p, m) = Some r \<and> row_active r)"
    and inactive: "(p, m) \<in> set (ap_deactivatedKeys ?policy)
       \<longleftrightarrow> (\<exists>r. map_of (as_activations st) (p, m) = Some r \<and> \<not> row_active r)"
    using listed_keys(1) [OF assms, of "(p, m)" row_active] listed_keys(1) [OF assms, of "(p, m)" "\<lambda>r. \<not> row_active r"]
    by (simp_all add: resolveActiveModelPolicy_def buildPolicy_def Let_def)
  show ?thesis
    using explicit mode active inactive
    by (auto simp: policy_isExecutable_def policy_providerMode_def store_isExecutable_def isActive_def
        split: option.splits)
qed

text \<open>An unreadable store executes nothing; a missing one everything.\<close>

lemma authority_fails_closed:
  "\<not> ea_executable (resolveProjectModelExecutionAuthority lc Unreadable p m)"
  "ea_executable (resolveProjectModelExecutionAuthority lc NoStore p m)"
  by (simp_all add: resolveProjectModelExecutionAuthority_def resolveActiveModelPolicy_def Let_def
      emptyModelActivationPolicy_def policy_isExecutable_def)

definition sample_store :: activation_store where
  "sample_store = \<lparr>as_activations = [((''codex'', ''gpt-5.5''), \<lparr>row_active = True, row_updatedAt = ''t'', row_actor = ''owner''\<rparr>)],
     as_policies = [(''codex'', \<lparr>row_mode = ExplicitActive, row_policyAt = ''t'', row_policyActor = ''owner''\<rparr>)]\<rparr>"

theorem snapshot_agrees_witness:
  "\<not> policy_isExecutable (resolveActiveModelPolicy (\<lambda>_ _. 0) (Readable sample_store)) ''codex'' ''gpt-4.1''"
proof -
  have "store_ok sample_store" by (simp add: store_ok_def sample_store_def)
  moreover have "\<not> store_isExecutable sample_store ''codex'' ''gpt-4.1''" by code_simp
  ultimately show ?thesis using snapshot_agrees [of sample_store] by blast
qed

end
