(* ===== verification/Model_Registry.thy ===== *)
theory Model_Registry
  imports Model_Activation Js_Number
begin

text \<open>
  \<open>src/core/model-registry.ts\<close>: the registry of models, from which every selection of a model of
  another provider is made. The bundled catalog is data and an argument. Provider names are
  strings; a price is a finite number; display capabilities are kept as they are copied.
  \<open>setActivationPolicy\<close> is the update of \<open>reg_policy\<close>; the registration of single Ollama, local
  and OpenRouter models goes through \<open>register\<close> and \<open>buildParametricModel\<close>. Alias tables have only
  their own keys: no model id is the name of a property that every object inherits.
\<close>

datatype ModelTier = Economy | Standard | Premium | PremiumPlus
datatype ModelStatus = Ga | Preview | Deprecated

record ModelCapabilities =
  cap_streaming :: bool
  cap_toolUse :: bool
  cap_vision :: bool
  cap_codeExecution :: bool
  cap_reasoning :: bool

record ModelCost =
  cost_input :: rat
  cost_output :: rat
  cost_cacheReadInput :: "rat option"

record ModelDefinition =
  md_id :: string
  md_apiId :: string
  md_provider :: string
  md_tier :: ModelTier
  md_contextWindow :: int
  md_costPerMillion :: ModelCost
  md_pricingEvidenceRef :: "string option"
  md_capabilities :: ModelCapabilities
  md_status :: ModelStatus
  md_maxOutputTokens :: "int option"
  md_preferredForTier :: bool

datatype registry_error =
    E_MODEL_IDENTITY_MISMATCH | E_MODEL_TIER_PREFERENCE_AMBIGUOUS | E_UNKNOWN_MODEL
  | E_LOCAL_PROVIDER_FALLBACK_HOLD | E_NO_EQUIVALENT_MODEL | E_MODEL_ID_INVALID
  | E_MODEL_PROVIDER_UNVERIFIED | E_MODEL_PROVIDER_MISMATCH | E_MODEL_PRICING_UNVERIFIED
  | E_LEGACY_MODEL_ALIAS

definition tier_order :: "ModelTier \<Rightarrow> nat" where
  "tier_order t = (case t of Economy \<Rightarrow> 0 | Standard \<Rightarrow> 1 | Premium \<Rightarrow> 2 | PremiumPlus \<Rightarrow> 3)"

section \<open>Names of models\<close>

text \<open>A word of a regular expression \<open>\b...\b\<close>: the tokens start and end with word characters.\<close>

definition id_word_char :: "char \<Rightarrow> bool" where
  "id_word_char c \<longleftrightarrow>
     (let n = of_char c :: nat
      in (48 \<le> n \<and> n \<le> 57) \<or> (65 \<le> n \<and> n \<le> 90) \<or> (97 \<le> n \<and> n \<le> 122) \<or> n = 95)"

definition word_here :: "bool \<Rightarrow> string \<Rightarrow> bool \<Rightarrow> string \<Rightarrow> bool" where
  "word_here bounded tok inside s \<longleftrightarrow>
     \<not> inside \<and> js_starts_with s tok
     \<and> (bounded \<longrightarrow> (case drop (length tok) s of [] \<Rightarrow> True | c # _ \<Rightarrow> \<not> id_word_char c))"

fun has_word :: "bool \<Rightarrow> string \<Rightarrow> bool \<Rightarrow> string \<Rightarrow> bool" where
  "has_word bounded tok inside [] = False"
| "has_word bounded tok inside (c # cs) =
     (word_here bounded tok inside (c # cs) \<or> has_word bounded tok (id_word_char c) cs)"

definition matches_word :: "string \<Rightarrow> string \<Rightarrow> bool" where
  "matches_word s tok \<longleftrightarrow> has_word True tok False s"

definition inferTierFromId :: "string \<Rightarrow> ModelTier" where
  "inferTierFromId i =
     (let lid = js_trim (js_lower i)
      in if matches_word lid ''mini'' \<or> matches_word lid ''nano'' \<or> js_includes lid ''haiku'' then Economy
         else if matches_word lid ''ultra'' \<or> matches_word lid ''max'' \<or> matches_word lid ''o3'' then PremiumPlus
         else if js_includes lid ''opus'' \<or> matches_word lid ''pro''
           \<or> matches_word lid ''gpt5'' \<or> matches_word lid ''gpt-5'' then Premium
         else Standard)"

definition o_series :: "string \<Rightarrow> bool" where
  "o_series s \<longleftrightarrow> (case s of a # b # _ \<Rightarrow> a = CHR ''o'' \<and> 48 \<le> (of_char b :: nat) \<and> (of_char b :: nat) \<le> 57 | _ \<Rightarrow> False)"

definition inferProviderFromId :: "string \<Rightarrow> string option" where
  "inferProviderFromId i =
     (let lid = js_lower (js_trim i)
      in if js_includes lid ''/'' then Some ''openrouter''
         else if js_starts_with lid ''cursor-'' then Some ''cursor''
         else if js_starts_with lid ''claude-'' then Some ''claude''
         else if js_starts_with lid ''gemini'' \<or> js_starts_with lid ''google'' then Some ''gemini''
         else if js_starts_with lid ''gpt'' \<or> js_starts_with lid ''codex'' \<or> o_series lid then Some ''codex''
         else if js_starts_with lid ''ollama'' \<or> js_starts_with lid ''llama'' \<or> js_includes lid '':''
         then Some ''ollama'' else None)"

record partial_capabilities =
  pc_streaming :: "bool option"
  pc_toolUse :: "bool option"
  pc_vision :: "bool option"
  pc_codeExecution :: "bool option"
  pc_reasoning :: "bool option"

definition no_capabilities :: partial_capabilities where
  "no_capabilities = \<lparr>pc_streaming = None, pc_toolUse = None, pc_vision = None, pc_codeExecution = None,
     pc_reasoning = None\<rparr>"

definition or_default :: "'a option \<Rightarrow> 'a \<Rightarrow> 'a" where
  "or_default x d = (case x of None \<Rightarrow> d | Some v \<Rightarrow> v)"

definition with_defaults :: "partial_capabilities \<Rightarrow> bool \<Rightarrow> ModelCapabilities" where
  "with_defaults c toolUse =
     \<lparr>cap_streaming = or_default (pc_streaming c) True, cap_toolUse = or_default (pc_toolUse c) toolUse,
      cap_vision = or_default (pc_vision c) False, cap_codeExecution = or_default (pc_codeExecution c) False,
      cap_reasoning = or_default (pc_reasoning c) False\<rparr>"

record ParametricResolveOptions =
  po_provider :: "string option"
  po_tier :: "ModelTier option"
  po_apiId :: "string option"
  po_contextWindow :: "int option"
  po_costPerMillion :: "ModelCost option"
  po_pricingEvidenceRef :: "string option"
  po_capabilities :: "partial_capabilities option"
  po_status :: "ModelStatus option"
  po_maxOutputTokens :: "int option"
  po_register :: "bool option"

definition pricing_verified :: "string \<Rightarrow> string \<Rightarrow> ParametricResolveOptions \<Rightarrow> bool" where
  "pricing_verified i provider opts \<longleftrightarrow>
     (case (po_costPerMillion opts, po_pricingEvidenceRef opts) of
        (Some cost, Some ref) \<Rightarrow>
          0 \<le> cost_input cost \<and> 0 \<le> cost_output cost \<and> ref \<noteq> [] \<and> ref = js_trim ref
          \<and> \<not> (provider = ''openrouter'' \<and> \<not> js_ends_with i '':free''
               \<and> cost_input cost = 0 \<and> cost_output cost = 0)
      | _ \<Rightarrow> False)"

definition default_status :: "string \<Rightarrow> ModelStatus" where
  "default_status provider = (if provider \<in> {''ollama'', ''local-llm'', ''openrouter''} then Ga else Preview)"

definition free_cost :: ModelCost where
  "free_cost = \<lparr>cost_input = 0, cost_output = 0, cost_cacheReadInput = None\<rparr>"

definition parametric_definition :: "string \<Rightarrow> string \<Rightarrow> ParametricResolveOptions \<Rightarrow> ModelDefinition" where
  "parametric_definition i provider opts =
     \<lparr>md_id = i, md_apiId = i, md_provider = provider,
      md_tier = or_default (po_tier opts) (inferTierFromId i),
      md_contextWindow = or_default (po_contextWindow opts) 200000,
      md_costPerMillion = or_default (po_costPerMillion opts) free_cost,
      md_pricingEvidenceRef = po_pricingEvidenceRef opts,
      md_capabilities = with_defaults (or_default (po_capabilities opts) no_capabilities) True,
      md_status = or_default (po_status opts) (default_status provider),
      md_maxOutputTokens = po_maxOutputTokens opts, md_preferredForTier = False\<rparr>"

definition buildParametricModel ::
    "string \<Rightarrow> ParametricResolveOptions \<Rightarrow> registry_error + ModelDefinition" where
  "buildParametricModel i opts =
     (if i = [] \<or> i \<noteq> js_trim i then Inl E_MODEL_ID_INVALID
      else if po_apiId opts \<notin> {None, Some i} then Inl E_MODEL_IDENTITY_MISMATCH
      else (case (case po_provider opts of None \<Rightarrow> inferProviderFromId i | Some p \<Rightarrow> Some p) of
          None \<Rightarrow> Inl E_MODEL_PROVIDER_UNVERIFIED
        | Some provider \<Rightarrow>
            if provider = [] then Inl E_MODEL_PROVIDER_UNVERIFIED
            else if po_provider opts \<noteq> None \<and> inferProviderFromId i \<notin> {None, Some provider}
            then Inl E_MODEL_PROVIDER_MISMATCH
            else if provider \<notin> {''ollama'', ''local-llm''} \<and> \<not> pricing_verified i provider opts
            then Inl E_MODEL_PRICING_UNVERIFIED
            else Inr (parametric_definition i provider opts)))"

section \<open>The registry\<close>

record ModelRegistry =
  reg_models :: "(string, ModelDefinition) js_map"
  reg_policy :: "ModelActivationPolicy option"

definition registered :: "ModelRegistry \<Rightarrow> ModelDefinition list" where
  "registered reg = map snd (reg_models reg)"

definition canonical_definition :: "ModelDefinition \<Rightarrow> bool" where
  "canonical_definition d \<longleftrightarrow> md_id d \<noteq> [] \<and> md_id d = md_apiId d"

text \<open>\<open>assertSoleTierPreferencePerSet\<close>: the preferred model seen so far of each provider and tier.\<close>

fun sole_preference_from ::
    "(string \<times> ModelTier, string) js_map \<Rightarrow> ModelDefinition list \<Rightarrow> bool" where
  "sole_preference_from seen [] = True"
| "sole_preference_from seen (d # ds) =
     (if \<not> md_preferredForTier d then sole_preference_from seen ds
      else (case map_of seen (md_provider d, md_tier d) of
          Some i \<Rightarrow> i = md_id d
            \<and> sole_preference_from (AList.update (md_provider d, md_tier d) (md_id d) seen) ds
        | None \<Rightarrow> sole_preference_from (AList.update (md_provider d, md_tier d) (md_id d) seen) ds))"

definition assertSoleTierPreferencePerSet :: "ModelDefinition list \<Rightarrow> bool" where
  "assertSoleTierPreferencePerSet ds \<longleftrightarrow> sole_preference_from [] ds"

definition set_models :: "ModelDefinition list \<Rightarrow> (string, ModelDefinition) js_map \<Rightarrow> (string, ModelDefinition) js_map" where
  "set_models ds m = foldl (\<lambda>m d. AList.update (md_id d) d m) m ds"

definition new_registry :: "ModelDefinition list \<Rightarrow> registry_error + ModelRegistry" where
  "new_registry builtins =
     (if \<not> assertSoleTierPreferencePerSet builtins then Inl E_MODEL_TIER_PREFERENCE_AMBIGUOUS
      else if \<not> list_all canonical_definition builtins then Inl E_MODEL_IDENTITY_MISMATCH
      else Inr \<lparr>reg_models = set_models builtins [], reg_policy = None\<rparr>)"

definition isPoolExecutable :: "ModelRegistry \<Rightarrow> ModelDefinition \<Rightarrow> bool" where
  "isPoolExecutable reg d =
     (case reg_policy reg of None \<Rightarrow> True | Some p \<Rightarrow> policy_isExecutable p (md_provider d) (md_id d))"

definition get_model :: "ModelRegistry \<Rightarrow> string \<Rightarrow> ModelDefinition option" where
  "get_model reg i = map_of (reg_models reg) i"

definition getOrThrow :: "ModelRegistry \<Rightarrow> string \<Rightarrow> registry_error + ModelDefinition" where
  "getOrThrow reg i = (case get_model reg i of None \<Rightarrow> Inl E_UNKNOWN_MODEL | Some d \<Rightarrow> Inr d)"

definition getByProvider :: "ModelRegistry \<Rightarrow> string \<Rightarrow> ModelDefinition list" where
  "getByProvider reg provider =
     filter (\<lambda>d. md_provider d = provider \<and> isPoolExecutable reg d) (registered reg)"

definition getByTier :: "ModelRegistry \<Rightarrow> ModelTier \<Rightarrow> ModelDefinition list" where
  "getByTier reg t = filter (\<lambda>d. md_tier d = t \<and> isPoolExecutable reg d) (registered reg)"

definition tier_candidates :: "ModelRegistry \<Rightarrow> string \<Rightarrow> ModelTier \<Rightarrow> ModelDefinition list" where
  "tier_candidates reg provider t =
     filter (\<lambda>d. md_provider d = provider \<and> md_tier d = t \<and> md_status d = Ga \<and> isPoolExecutable reg d)
       (registered reg)"

definition getByProviderAndTier :: "ModelRegistry \<Rightarrow> string \<Rightarrow> ModelTier \<Rightarrow> ModelDefinition option" where
  "getByProviderAndTier reg provider t =
     (case find md_preferredForTier (tier_candidates reg provider t) of
        Some d \<Rightarrow> Some d
      | None \<Rightarrow> (case tier_candidates reg provider t of [] \<Rightarrow> None | d # _ \<Rightarrow> Some d))"

text \<open>The tiers below one, in the order in which they are tried.\<close>

definition lower_tiers :: "ModelTier \<Rightarrow> ModelTier list" where
  "lower_tiers t = tl (dropWhile (\<lambda>u. u \<noteq> t) [PremiumPlus, Premium, Standard, Economy])"

fun first_in_tiers :: "ModelRegistry \<Rightarrow> string \<Rightarrow> ModelTier list \<Rightarrow> ModelDefinition option" where
  "first_in_tiers reg provider [] = None"
| "first_in_tiers reg provider (t # ts) =
     (case getByProviderAndTier reg provider t of Some d \<Rightarrow> Some d | None \<Rightarrow> first_in_tiers reg provider ts)"

definition getEquivalent :: "ModelRegistry \<Rightarrow> string \<Rightarrow> string \<Rightarrow> registry_error + string" where
  "getEquivalent reg modelId target =
     (case get_model reg modelId of
        None \<Rightarrow> Inl E_UNKNOWN_MODEL
      | Some source \<Rightarrow>
          if md_provider source = target then Inr (md_id source)
          else if md_provider source = ''local-llm'' then Inl E_LOCAL_PROVIDER_FALLBACK_HOLD
          else (case getByProviderAndTier reg target (md_tier source) of
              Some d \<Rightarrow> Inr (md_id d)
            | None \<Rightarrow> (case first_in_tiers reg target (lower_tiers (md_tier source)) of
                  Some d \<Rightarrow> Inr (md_id d)
                | None \<Rightarrow> Inl E_NO_EQUIVALENT_MODEL)))"

definition compareTiers :: "ModelTier \<Rightarrow> ModelTier \<Rightarrow> int" where
  "compareTiers a b = int (tier_order a) - int (tier_order b)"

definition isAtLeastTier :: "ModelRegistry \<Rightarrow> string \<Rightarrow> ModelTier \<Rightarrow> registry_error + bool" where
  "isAtLeastTier reg i least =
     (case getOrThrow reg i of Inl e \<Rightarrow> Inl e | Inr d \<Rightarrow> Inr (tier_order least \<le> tier_order (md_tier d)))"

definition estimateCost :: "ModelRegistry \<Rightarrow> string \<Rightarrow> rat \<Rightarrow> rat \<Rightarrow> registry_error + rat" where
  "estimateCost reg i inputTokens outputTokens =
     (case getOrThrow reg i of
        Inl e \<Rightarrow> Inl e
      | Inr d \<Rightarrow> Inr (fl_add (fl_mult (fl_div inputTokens 1000000) (cost_input (md_costPerMillion d)))
                           (fl_mult (fl_div outputTokens 1000000) (cost_output (md_costPerMillion d)))))"

section \<open>Changes\<close>

definition prefers_another :: "ModelDefinition \<Rightarrow> ModelDefinition \<Rightarrow> bool" where
  "prefers_another d e \<longleftrightarrow>
     md_id e \<noteq> md_id d \<and> md_provider e = md_provider d \<and> md_tier e = md_tier d \<and> md_preferredForTier e"

definition register_model :: "ModelRegistry \<Rightarrow> ModelDefinition \<Rightarrow> registry_error + ModelRegistry" where
  "register_model reg d =
     (if \<not> canonical_definition d then Inl E_MODEL_IDENTITY_MISMATCH
      else if md_preferredForTier d \<and> list_ex (prefers_another d) (registered reg)
      then Inl E_MODEL_TIER_PREFERENCE_AMBIGUOUS
      else Inr (reg\<lparr>reg_models := AList.update (md_id d) d (reg_models reg)\<rparr>))"

definition unregister :: "ModelRegistry \<Rightarrow> string \<Rightarrow> bool \<times> ModelRegistry" where
  "unregister reg i = (get_model reg i \<noteq> None, reg\<lparr>reg_models := AList.delete i (reg_models reg)\<rparr>)"

definition resolve_model ::
    "ModelRegistry \<Rightarrow> string \<Rightarrow> ParametricResolveOptions \<Rightarrow> registry_error + ModelDefinition \<times> ModelRegistry" where
  "resolve_model reg i opts =
     (case get_model reg i of
        Some d \<Rightarrow> Inr (d, reg)
      | None \<Rightarrow>
        (case buildParametricModel i opts of
           Inl e \<Rightarrow> Inl e
         | Inr d \<Rightarrow> Inr (d, if po_register opts = Some False then reg
             else reg\<lparr>reg_models := AList.update (md_id d) d (reg_models reg)\<rparr>)))"

definition loadFromCatalog :: "ModelRegistry \<Rightarrow> ModelDefinition list \<Rightarrow> registry_error + ModelRegistry" where
  "loadFromCatalog reg ds =
     (if \<not> list_all canonical_definition ds then Inl E_MODEL_IDENTITY_MISMATCH
      else if \<not> assertSoleTierPreferencePerSet ds then Inl E_MODEL_TIER_PREFERENCE_AMBIGUOUS
      else Inr (reg\<lparr>reg_models := set_models ds []\<rparr>))"

definition mergeFromCatalog :: "ModelRegistry \<Rightarrow> ModelDefinition list \<Rightarrow> registry_error + ModelRegistry" where
  "mergeFromCatalog reg ds =
     (if \<not> list_all canonical_definition ds then Inl E_MODEL_IDENTITY_MISMATCH
      else Inr (reg\<lparr>reg_models := set_models ds (reg_models reg)\<rparr>))"

definition getAllModels :: "ModelRegistry \<Rightarrow> ModelDefinition list" where
  "getAllModels reg = filter (isPoolExecutable reg) (registered reg)"

definition getAllProviders :: "ModelRegistry \<Rightarrow> string js_set" where
  "getAllProviders reg = js_set_of (map md_provider (getAllModels reg))"

definition LEGACY_MIGRATIONS :: "(string \<times> string) list" where
  "LEGACY_MIGRATIONS =
     [(''fable'', ''claude-fable-5''), (''opus'', ''claude-opus-4-8''), (''sonnet'', ''claude-sonnet-5''),
      (''haiku'', ''claude-haiku-4-5-20251001''), (''gpt-5'', ''gpt-5.5''), (''gpt-5.6'', ''gpt-5.6-sol'')]"

definition CONFIG_MIGRATION_TIER_OVERRIDES :: "(string \<times> ModelTier) list" where
  "CONFIG_MIGRATION_TIER_OVERRIDES = [(''o3'', Standard), (''o4-mini'', Economy)]"

definition resolveConfigMigrationModelTier :: "ModelRegistry \<Rightarrow> string \<Rightarrow> registry_error + ModelTier" where
  "resolveConfigMigrationModelTier reg i =
     (case map_of CONFIG_MIGRATION_TIER_OVERRIDES i of
        Some t \<Rightarrow> Inr t
      | None \<Rightarrow> (case get_model reg (or_default (map_of LEGACY_MIGRATIONS i) i) of
          None \<Rightarrow> Inl E_UNKNOWN_MODEL
        | Some d \<Rightarrow> Inr (md_tier d)))"

record identity_options =
  io_provider :: "string option"
  io_registerParametric :: bool

definition no_options :: ParametricResolveOptions where
  "no_options = \<lparr>po_provider = None, po_tier = None, po_apiId = None, po_contextWindow = None,
     po_costPerMillion = None, po_pricingEvidenceRef = None, po_capabilities = None, po_status = None,
     po_maxOutputTokens = None, po_register = None\<rparr>"

definition resolveCanonicalModelIdentity ::
    "ModelRegistry \<Rightarrow> string \<Rightarrow> identity_options \<Rightarrow> registry_error + ModelDefinition \<times> ModelRegistry" where
  "resolveCanonicalModelIdentity reg apiId opts =
     (if apiId = [] \<or> apiId \<noteq> js_trim apiId then Inl E_MODEL_ID_INVALID
      else if map_of LEGACY_MIGRATIONS apiId \<noteq> None then Inl E_LEGACY_MODEL_ALIAS
      else (case get_model reg apiId of
          Some d \<Rightarrow> if io_provider opts \<notin> {None, Some (md_provider d)} then Inl E_MODEL_PROVIDER_MISMATCH
                    else Inr (d, reg)
        | None \<Rightarrow>
            if io_provider opts \<noteq> None \<and> inferProviderFromId apiId \<notin> {None, io_provider opts}
            then Inl E_MODEL_PROVIDER_MISMATCH
            else if io_provider opts \<in> {None, Some []} then Inl E_MODEL_PROVIDER_UNVERIFIED
            else (case buildParametricModel apiId (no_options\<lparr>po_provider := io_provider opts\<rparr>) of
                Inl e \<Rightarrow> Inl e
              | Inr d \<Rightarrow>
                  if io_registerParametric opts
                  then (case register_model reg d of Inl e \<Rightarrow> Inl e | Inr reg' \<Rightarrow> Inr (d, reg'))
                  else Inr (d, reg))))"

section \<open>Models registered on demand\<close>

definition ensureOllamaModelRegistered :: "ModelRegistry \<Rightarrow> string \<Rightarrow> registry_error + ModelRegistry" where
  "ensureOllamaModelRegistered reg tag =
     (if tag = [] \<or> get_model reg tag \<noteq> None then Inr reg
      else register_model reg \<lparr>md_id = tag, md_apiId = tag, md_provider = ''ollama'', md_tier = Standard,
        md_contextWindow = 32768, md_costPerMillion = free_cost, md_pricingEvidenceRef = None,
        md_capabilities = with_defaults no_capabilities True, md_status = Ga, md_maxOutputTokens = None,
        md_preferredForTier = False\<rparr>)"

definition LOCAL_LLM_HEALTH_FRESHNESS_MS :: int where
  "LOCAL_LLM_HEALTH_FRESHNESS_MS = 30000"

record local_evidence =
  lv_modelIds :: "string list"
  lv_healthy :: bool
  lv_checkedAtMs :: int

datatype local_error = E_LOCAL_PROVIDER_HEALTH_HOLD | E_MODEL_CONTEXT_INVALID | RegistryError registry_error

definition ensureLocalLlmModelRegistered ::
    "ModelRegistry \<Rightarrow> string \<Rightarrow> ModelTier \<Rightarrow> int \<Rightarrow> ModelCapabilities \<Rightarrow> local_evidence \<Rightarrow> int
     \<Rightarrow> local_error + ModelRegistry" where
  "ensureLocalLlmModelRegistered reg modelId t contextWindow caps evidence nowMs =
     (let age = nowMs - lv_checkedAtMs evidence
      in if \<not> lv_healthy evidence \<or> age < 0 \<or> LOCAL_LLM_HEALTH_FRESHNESS_MS < age
           \<or> modelId \<notin> set (lv_modelIds evidence) then Inl E_LOCAL_PROVIDER_HEALTH_HOLD
         else if contextWindow \<le> 0 then Inl E_MODEL_CONTEXT_INVALID
         else (case get_model reg modelId of
             Some d \<Rightarrow> if md_provider d \<noteq> ''local-llm'' then Inl (RegistryError E_MODEL_PROVIDER_MISMATCH)
                       else Inr reg
           | None \<Rightarrow>
             (case buildParametricModel modelId (no_options\<lparr>po_provider := Some ''local-llm'', po_tier := Some t,
                 po_contextWindow := Some contextWindow,
                 po_capabilities := Some \<lparr>pc_streaming = Some (cap_streaming caps), pc_toolUse = Some True,
                   pc_vision = Some (cap_vision caps), pc_codeExecution = Some (cap_codeExecution caps),
                   pc_reasoning = Some (cap_reasoning caps)\<rparr>,
                 po_costPerMillion := Some free_cost, po_status := Some Ga\<rparr>) of
                Inl e \<Rightarrow> Inl (RegistryError e)
              | Inr d \<Rightarrow> (case register_model reg d of Inl e \<Rightarrow> Inl (RegistryError e) | Inr reg' \<Rightarrow> Inr reg'))))"

record openrouter_facts =
  of_contextWindow :: "int option"
  of_tier :: "ModelTier option"
  of_costPerMillion :: "ModelCost option"
  of_pricingEvidenceRef :: "string option"
  of_reasoning :: "bool option"

definition ensureOpenRouterModelRegistered ::
    "ModelRegistry \<Rightarrow> string \<Rightarrow> openrouter_facts \<Rightarrow> registry_error + ModelRegistry" where
  "ensureOpenRouterModelRegistered reg modelId facts =
     (if modelId = [] then Inr reg
      else (case get_model reg modelId of
          Some d \<Rightarrow>
            if md_provider d \<noteq> ''openrouter'' then Inl E_MODEL_PROVIDER_MISMATCH
            else if md_pricingEvidenceRef d \<in> {None, Some []}
              \<or> \<not> js_ends_with modelId '':free'' \<and> cost_input (md_costPerMillion d) = 0
                \<and> cost_output (md_costPerMillion d) = 0
            then Inl E_MODEL_PRICING_UNVERIFIED
            else Inr reg
        | None \<Rightarrow>
          (case buildParametricModel modelId (no_options\<lparr>po_provider := Some ''openrouter'',
              po_tier := Some (or_default (of_tier facts) Standard),
              po_contextWindow := Some (or_default (of_contextWindow facts) 128000),
              po_costPerMillion := Some (or_default (of_costPerMillion facts) free_cost),
              po_pricingEvidenceRef := of_pricingEvidenceRef facts,
              po_capabilities := Some \<lparr>pc_streaming = Some True, pc_toolUse = Some True, pc_vision = Some False,
                pc_codeExecution = Some False, pc_reasoning = Some (or_default (of_reasoning facts) False)\<rparr>,
              po_status := Some Ga\<rparr>) of
             Inl e \<Rightarrow> Inl e | Inr d \<Rightarrow> register_model reg d)))"

end
