(* ===== verification/Model_Catalog.thy ===== *)
theory Model_Catalog
  imports Model_Registry
begin

text \<open>
  \<open>src/core/model-catalog.ts\<close>: the catalog of models.dev, mapped to model definitions and merged
  into the registry. The fetch and the cache file are inputs: the cached catalog, if one could be
  read, and the fetched one or the message of its failure. Fields have their types, prices are
  finite; the adaptation of the provider-keyed format and the texts of warnings are left out. The
  tables of aliases are read by their own keys.
\<close>

definition CACHE_TTL_MS :: int where
  "CACHE_TTL_MS = 24 * 60 * 60 * 1000"

record RemoteCatalogModel =
  rm_id :: string
  rm_apiId :: "string option"
  rm_provider :: string
  rm_tier :: "string option"
  rm_status :: "string option"
  rm_contextWindow :: "int option"
  rm_maxOutputTokens :: "int option"
  rm_inputCost :: "rat option"
  rm_outputCost :: "rat option"
  rm_capabilities :: partial_capabilities

datatype CatalogSource = FromRemote | FromCache | FromBundled

section \<open>Names\<close>

definition PROVIDER_ALIASES :: "(string \<times> string) list" where
  "PROVIDER_ALIASES =
     [(''claude'', ''claude''), (''codex'', ''codex''), (''cursor'', ''cursor''), (''gemini'', ''gemini''),
      (''ollama'', ''ollama''), (''anthropic'', ''claude''), (''anthropic.claude'', ''claude''),
      (''openai'', ''codex''), (''openai.codex'', ''codex''), (''openai-compat'', ''openai-compat''),
      (''google'', ''gemini''), (''google.gemini'', ''gemini''), (''google-genai'', ''gemini''),
      (''local'', ''ollama''), (''llamacpp'', ''ollama''), (''deepseek'', ''deepseek''), (''qwen'', ''qwen''),
      (''dashscope'', ''qwen''), (''zhipu'', ''zhipu''), (''glm'', ''zhipu'')]"

definition registerDynamicProvider ::
    "string \<Rightarrow> string option \<Rightarrow> (string, string) js_map \<Rightarrow> (string, string) js_map" where
  "registerDynamicProvider name canonicalName dyn =
     (let key = js_trim (js_lower name) in AList.update key (or_default canonicalName key) dyn)"

definition non_empty :: "string option \<Rightarrow> string option" where
  "non_empty x = (if x = Some [] then None else x)"

definition normalizeProvider :: "(string, string) js_map \<Rightarrow> string \<Rightarrow> string option" where
  "normalizeProvider dyn raw =
     (let key = js_trim (js_lower raw)
      in case map_of PROVIDER_ALIASES key of
           Some p \<Rightarrow> Some p | None \<Rightarrow> non_empty (map_of dyn key))"

definition TIER_ALIASES :: "(string \<times> ModelTier) list" where
  "TIER_ALIASES =
     [(''premium_plus'', PremiumPlus), (''premium-plus'', PremiumPlus), (''premium'', Premium),
      (''standard'', Standard), (''economy'', Economy), (''max'', PremiumPlus), (''flagship'', Premium),
      (''pro'', Premium), (''balanced'', Standard), (''mid'', Standard), (''budget'', Economy),
      (''mini'', Economy), (''nano'', Economy)]"

definition normalizeTier :: "string option \<Rightarrow> ModelTier option" where
  "normalizeTier raw =
     (case raw of None \<Rightarrow> None
      | Some s \<Rightarrow> if s = [] then None else map_of TIER_ALIASES (js_trim (js_lower s)))"

definition inferTierFromCost :: "rat \<Rightarrow> rat \<Rightarrow> ModelTier" where
  "inferTierFromCost inputCost outputCost =
     (let avg = fl_div (fl_add inputCost outputCost) 2
      in if 25 \<le> avg then PremiumPlus else if 7 \<le> avg then Premium
         else if 1 \<le> avg then Standard else Economy)"

definition STATUS_ALIASES :: "(string \<times> ModelStatus) list" where
  "STATUS_ALIASES =
     [(''ga'', Ga), (''stable'', Ga), (''released'', Ga), (''preview'', Preview), (''beta'', Preview),
      (''experimental'', Preview), (''deprecated'', Deprecated), (''retired'', Deprecated),
      (''legacy'', Deprecated)]"

definition normalizeStatus :: "string option \<Rightarrow> ModelStatus" where
  "normalizeStatus raw =
     (case raw of None \<Rightarrow> Ga
      | Some s \<Rightarrow> if s = [] then Ga else or_default (map_of STATUS_ALIASES (js_trim (js_lower s))) Ga)"

section \<open>Mapping and merging\<close>

definition mapRemoteEntry :: "(string, string) js_map \<Rightarrow> RemoteCatalogModel \<Rightarrow> ModelDefinition option" where
  "mapRemoteEntry dyn r =
     (if rm_id r = [] then None
      else (case normalizeProvider dyn (rm_provider r) of
          None \<Rightarrow> None
        | Some provider \<Rightarrow>
            (let apiId = or_default (rm_apiId r) (rm_id r)
             in if apiId = [] then None
                else (case (rm_inputCost r, rm_outputCost r) of
                    (Some ic, Some oc) \<Rightarrow>
                      if ic < 0 \<or> oc < 0 then None
                      else Some \<lparr>md_id = apiId, md_apiId = apiId, md_provider = provider,
                        md_tier = or_default (normalizeTier (rm_tier r)) (inferTierFromCost ic oc),
                        md_contextWindow = or_default (rm_contextWindow r) 200000,
                        md_costPerMillion = \<lparr>cost_input = ic, cost_output = oc, cost_cacheReadInput = None\<rparr>,
                        md_pricingEvidenceRef = Some (''catalog:models.dev:'' @ apiId),
                        md_capabilities = with_defaults (rm_capabilities r) False,
                        md_status = normalizeStatus (rm_status r),
                        md_maxOutputTokens = rm_maxOutputTokens r, md_preferredForTier = False\<rparr>
                  | _ \<Rightarrow> None))))"

definition catalog_identity :: "ModelDefinition \<Rightarrow> string \<times> string" where
  "catalog_identity d = (md_provider d, md_apiId d)"

definition mergeApiIdOverrides :: "ModelDefinition list \<Rightarrow> ModelDefinition list \<Rightarrow> ModelDefinition list" where
  "mergeApiIdOverrides existing remote =
     map snd (foldl (\<lambda>m d. AList.update (catalog_identity d) d m)
       (js_map_of (map (\<lambda>d. (catalog_identity d, d)) existing)) remote)"

definition mapped_entries :: "(string, string) js_map \<Rightarrow> RemoteCatalogModel list \<Rightarrow> ModelDefinition list" where
  "mapped_entries dyn rs = map the (filter (\<lambda>x. x \<noteq> None) (map (mapRemoteEntry dyn) rs))"

definition mapCatalogToDefinitions ::
    "ModelDefinition list \<Rightarrow> (string, string) js_map \<Rightarrow> RemoteCatalogModel list \<Rightarrow> ModelDefinition list" where
  "mapCatalogToDefinitions bundled dyn rs = mergeApiIdOverrides bundled (mapped_entries dyn rs)"

record CachedCatalog =
  cc_fetchedAt :: int
  cc_models :: "RemoteCatalogModel list"

record catalog_options =
  co_offline :: bool
  co_forceRefresh :: bool
  co_ttlMs :: int
  co_now :: int

record CatalogLoadResult =
  cl_models :: "ModelDefinition list"
  cl_source :: CatalogSource
  cl_fetchedAt :: "int option"
  cl_ageMs :: "int option"

definition from_cache ::
    "ModelDefinition list \<Rightarrow> (string, string) js_map \<Rightarrow> int \<Rightarrow> CachedCatalog \<Rightarrow> CatalogLoadResult" where
  "from_cache bundled dyn now c =
     \<lparr>cl_models = mapCatalogToDefinitions bundled dyn (cc_models c), cl_source = FromCache,
      cl_fetchedAt = Some (cc_fetchedAt c), cl_ageMs = Some (now - cc_fetchedAt c)\<rparr>"

text \<open>The clock does not move between its readings.\<close>

definition loadCatalog ::
    "ModelDefinition list \<Rightarrow> (string, string) js_map \<Rightarrow> catalog_options \<Rightarrow> CachedCatalog option
     \<Rightarrow> RemoteCatalogModel list option \<Rightarrow> CatalogLoadResult" where
  "loadCatalog bundled dyn opts cached fetched =
     (let fallback = (case cached of
            Some c \<Rightarrow> from_cache bundled dyn (co_now opts) c
          | None \<Rightarrow> \<lparr>cl_models = bundled, cl_source = FromBundled, cl_fetchedAt = None, cl_ageMs = None\<rparr>);
          warm = (case cached of None \<Rightarrow> False
            | Some c \<Rightarrow> \<not> co_forceRefresh opts \<and> co_now opts - cc_fetchedAt c < co_ttlMs opts)
      in if co_offline opts \<or> warm then fallback
         else (case fetched of
             Some rs \<Rightarrow> \<lparr>cl_models = mapCatalogToDefinitions bundled dyn rs, cl_source = FromRemote,
                         cl_fetchedAt = Some (co_now opts), cl_ageMs = Some 0\<rparr>
           | None \<Rightarrow> fallback))"

definition bootstrapFromCatalog ::
    "ModelRegistry \<Rightarrow> CatalogLoadResult \<Rightarrow> registry_error + ModelRegistry" where
  "bootstrapFromCatalog reg result =
     mergeFromCatalog reg (mergeApiIdOverrides (getAllModels reg) (cl_models result))"

end
