(* ===== verification/Registry_Correct.thy ===== *)
theory Registry_Correct
  imports Model_Catalog
begin

text \<open>
  What selection by tier promises: the model for another provider is the best usable one that is
  not above the tier asked for, a designated model is taken whatever the order of registration,
  and the operations that check keep one designation for each provider and tier. A refresh from
  the remote catalog does not.
\<close>

section \<open>Well-formed registries\<close>

definition registry_ok :: "ModelRegistry \<Rightarrow> bool" where
  "registry_ok reg \<longleftrightarrow> distinct (map fst (reg_models reg)) \<and> (\<forall>(k, d) \<in> set (reg_models reg). k = md_id d)"

definition sole_preference :: "ModelDefinition set \<Rightarrow> bool" where
  "sole_preference ds \<longleftrightarrow>
     (\<forall>d \<in> ds. \<forall>e \<in> ds. md_preferredForTier d \<and> md_preferredForTier e
        \<and> md_provider d = md_provider e \<and> md_tier d = md_tier e \<longrightarrow> md_id d = md_id e)"

lemma sole_preferenceI:
  "(\<And>d e. d \<in> ds \<Longrightarrow> e \<in> ds \<Longrightarrow> md_preferredForTier d \<Longrightarrow> md_preferredForTier e
     \<Longrightarrow> md_provider d = md_provider e \<Longrightarrow> md_tier d = md_tier e \<Longrightarrow> md_id d = md_id e)
   \<Longrightarrow> sole_preference ds"
  unfolding sole_preference_def by blast

lemma sole_preferenceD:
  "sole_preference ds \<Longrightarrow> d \<in> ds \<Longrightarrow> e \<in> ds \<Longrightarrow> md_preferredForTier d \<Longrightarrow> md_preferredForTier e
     \<Longrightarrow> md_provider d = md_provider e \<Longrightarrow> md_tier d = md_tier e \<Longrightarrow> md_id d = md_id e"
  unfolding sole_preference_def by blast

lemma sole_preference_insert:
  assumes "sole_preference ds"
    and "\<And>e. e \<in> ds \<Longrightarrow> md_preferredForTier d \<Longrightarrow> md_preferredForTier e
      \<Longrightarrow> md_provider e = md_provider d \<Longrightarrow> md_tier e = md_tier d \<Longrightarrow> md_id e = md_id d"
  shows "sole_preference (insert d ds)"
proof (rule sole_preferenceI)
  fix a b
  assume ab: "a \<in> insert d ds" "b \<in> insert d ds" "md_preferredForTier a" "md_preferredForTier b"
    "md_provider a = md_provider b" "md_tier a = md_tier b"
  consider "a = d" "b = d" | "a = d" "b \<in> ds" | "a \<in> ds" "b = d" | "a \<in> ds" "b \<in> ds"
    using ab(1,2) by blast
  then show "md_id a = md_id b"
  proof cases
    case 2 then show ?thesis using assms(2) [of b] ab by metis
  next
    case 3 then show ?thesis using assms(2) [of a] ab by metis
  next
    case 4 then show ?thesis using sole_preferenceD [OF assms(1) _ _ ab(3-6)] by blast
  qed simp
qed

lemma get_model_iff:
  "registry_ok reg \<Longrightarrow> get_model reg i = Some d \<longleftrightarrow> d \<in> set (registered reg) \<and> md_id d = i"
  by (force simp: registry_ok_def get_model_def registered_def map_of_eq_Some_iff image_iff)

lemma registered_unique:
  "registry_ok reg \<Longrightarrow> d \<in> set (registered reg) \<Longrightarrow> e \<in> set (registered reg) \<Longrightarrow> md_id d = md_id e \<Longrightarrow> d = e"
  by (metis get_model_iff option.inject)

lemma set_update_map: "distinct (map fst m) \<Longrightarrow>
  set (AList.update k v m) = insert (k, v) {x \<in> set m. fst x \<noteq> k}"
proof (induction m)
  case (Cons x m)
  obtain a b where x: "x = (a, b)" by fastforce
  have "\<And>c. (a, c) \<notin> set m" using Cons.prems by (force simp: x)
  then show ?case using Cons by (auto simp: x)
qed simp

lemma registered_set:
  "registry_ok reg \<Longrightarrow> set (reg_models reg) = (\<lambda>d. (md_id d, d)) ` set (registered reg)"
  by (force simp: registry_ok_def registered_def)

lemma registered_update:
  assumes "registry_ok reg"
  shows "registry_ok (reg\<lparr>reg_models := AList.update (md_id d) d (reg_models reg)\<rparr>)"
    and "set (registered (reg\<lparr>reg_models := AList.update (md_id d) d (reg_models reg)\<rparr>))
      = insert d {e \<in> set (registered reg). md_id e \<noteq> md_id d}"
proof -
  have m: "set (AList.update (md_id d) d (reg_models reg))
      = insert (md_id d, d) {x \<in> set (reg_models reg). fst x \<noteq> md_id d}"
    using assms by (simp add: set_update_map registry_ok_def)
  show "registry_ok (reg\<lparr>reg_models := AList.update (md_id d) d (reg_models reg)\<rparr>)"
    using assms m by (auto simp: registry_ok_def distinct_update)
  have "set (registered (reg\<lparr>reg_models := AList.update (md_id d) d (reg_models reg)\<rparr>))
      = snd ` insert (md_id d, d) {x \<in> (\<lambda>d. (md_id d, d)) ` set (registered reg). fst x \<noteq> md_id d}"
    unfolding registered_set [OF assms, symmetric] m [symmetric] by (simp add: registered_def)
  also have "\<dots> = insert d {e \<in> set (registered reg). md_id e \<noteq> md_id d}" by (auto simp: image_iff)
  finally show "set (registered (reg\<lparr>reg_models := AList.update (md_id d) d (reg_models reg)\<rparr>))
      = insert d {e \<in> set (registered reg). md_id e \<noteq> md_id d}" .
qed

lemma set_models_snoc: "set_models (ds @ [d]) m = AList.update (md_id d) d (set_models ds m)"
  by (simp add: set_models_def)

lemma registered_set_models:
  assumes "registry_ok reg"
  shows "registry_ok (reg\<lparr>reg_models := set_models ds (reg_models reg)\<rparr>)"
    and "set (registered (reg\<lparr>reg_models := set_models ds (reg_models reg)\<rparr>)) \<subseteq> set ds \<union> set (registered reg)"
    and "e \<in> set ds \<Longrightarrow> \<exists>d \<in> set ds. md_id d = md_id e \<and>
      d \<in> set (registered (reg\<lparr>reg_models := set_models ds (reg_models reg)\<rparr>))"
proof (induction ds rule: rev_induct)
  case Nil
  {
    case 1 then show ?case using assms by (simp add: set_models_def)
  next
    case 2 then show ?case by (simp add: set_models_def)
  next
    case 3 then show ?case by simp
  }
next
  case (snoc d ds)
  note step = registered_update [OF snoc.IH(1), of d, simplified]
  {
    case 1 then show ?case using step(1) by (simp add: set_models_snoc)
  next
    case 2 then show ?case using step(2) snoc.IH(2) by (auto simp: set_models_snoc)
  next
    case 3
    then show ?case
    proof (cases "md_id e = md_id d")
      case True
      then show ?thesis using step(2) by (auto simp: set_models_snoc intro: bexI [of _ d])
    next
      case False
      with 3 have "e \<in> set ds" by auto
      from snoc.IH(3) [OF this] False step(2) show ?thesis by (fastforce simp: set_models_snoc)
    qed
  }
qed

section \<open>One designation\<close>

lemma sole_preference_from_sound:
  "sole_preference_from seen ds \<Longrightarrow>
   (\<forall>d \<in> set ds. md_preferredForTier d \<longrightarrow>
      map_of seen (md_provider d, md_tier d) \<in> {None, Some (md_id d)})
   \<and> sole_preference (set ds)"
proof (induction ds arbitrary: seen)
  case (Cons d ds)
  show ?case
  proof (cases "md_preferredForTier d")
    case True
    let ?seen = "AList.update (md_provider d, md_tier d) (md_id d) seen"
    have rest: "sole_preference_from ?seen ds"
      and here: "map_of seen (md_provider d, md_tier d) \<in> {None, Some (md_id d)}"
      using Cons.prems True by (auto split: option.splits)
    have later: "md_id e = md_id d"
      if "e \<in> set ds" "md_preferredForTier e" "md_provider e = md_provider d" "md_tier e = md_tier d" for e
      using Cons.IH [OF rest] that by (auto simp: update_conv')
    have "map_of seen (md_provider e, md_tier e) \<in> {None, Some (md_id e)}"
      if "e \<in> set ds" "md_preferredForTier e" for e
    proof (cases "md_provider e = md_provider d \<and> md_tier e = md_tier d")
      case True
      with here later [OF that] show ?thesis by auto
    next
      case False
      with Cons.IH [OF rest] that show ?thesis by (auto simp: update_conv')
    qed
    moreover have "sole_preference (insert d (set ds))"
      using Cons.IH [OF rest] later by (intro sole_preference_insert) auto
    ultimately show ?thesis using here by auto
  next
    case False
    with Cons.prems have "sole_preference_from seen ds" by simp
    from Cons.IH [OF this] False show ?thesis by (auto intro: sole_preference_insert)
  qed
qed (simp add: sole_preference_def)

text \<open>Registries made by the operations that check their designations.\<close>

inductive checked_registry :: "ModelRegistry \<Rightarrow> bool" where
  constructed: "new_registry ds = Inr reg \<Longrightarrow> checked_registry reg"
| registered: "checked_registry reg \<Longrightarrow> register_model reg d = Inr reg' \<Longrightarrow> checked_registry reg'"
| unregistered: "checked_registry reg \<Longrightarrow> unregister reg i = (b, reg') \<Longrightarrow> checked_registry reg'"
| resolved: "checked_registry reg \<Longrightarrow> resolve_model reg i opts = Inr (d, reg') \<Longrightarrow> checked_registry reg'"
| loaded: "checked_registry reg \<Longrightarrow> loadFromCatalog reg ds = Inr reg' \<Longrightarrow> checked_registry reg'"
| policy: "checked_registry reg \<Longrightarrow> checked_registry (reg\<lparr>reg_policy := p\<rparr>)"

lemma built_not_preferred: "buildParametricModel i opts = Inr d \<Longrightarrow> \<not> md_preferredForTier d"
  by (auto simp: buildParametricModel_def parametric_definition_def split: if_splits option.splits)

lemma sole_preference_mono: "sole_preference ds \<Longrightarrow> es \<subseteq> ds \<Longrightarrow> sole_preference es"
  by (rule sole_preferenceI) (blast intro: sole_preferenceD)

lemma sole_preference_insert_plain:
  "sole_preference ds \<Longrightarrow> \<not> md_preferredForTier d \<Longrightarrow> sole_preference (insert d ds)"
  by (rule sole_preference_insert) auto

lemma registry_ok_empty: "registry_ok \<lparr>reg_models = [], reg_policy = p\<rparr>"
  by (simp add: registry_ok_def)

lemma loaded_ok:
  assumes "assertSoleTierPreferencePerSet ds" "reg' = reg\<lparr>reg_models := set_models ds []\<rparr>"
  shows "registry_ok reg' \<and> sole_preference (set (registered reg'))"
proof -
  let ?e = "\<lparr>reg_models = [], reg_policy = reg_policy reg\<rparr> :: ModelRegistry"
  have reg': "reg' = ?e\<lparr>reg_models := set_models ds (reg_models ?e)\<rparr>" by (simp add: assms(2))
  note loaded = registered_set_models(1,2) [OF registry_ok_empty [of "reg_policy reg"], of ds]
  have "sole_preference (set ds)"
    using assms(1) sole_preference_from_sound by (auto simp: assertSoleTierPreferencePerSet_def)
  with loaded show ?thesis unfolding reg' by (auto simp: registered_def intro: sole_preference_mono)
qed

lemma register_ok:
  assumes ok: "registry_ok reg" "sole_preference (set (registered reg))" and r: "register_model reg d = Inr reg'"
  shows "registry_ok reg' \<and> sole_preference (set (registered reg'))"
proof -
  have reg': "reg' = reg\<lparr>reg_models := AList.update (md_id d) d (reg_models reg)\<rparr>"
    and alone: "md_preferredForTier d \<longrightarrow> \<not> list_ex (prefers_another d) (registered reg)"
    using r by (auto simp: register_model_def split: if_splits)
  have "sole_preference (insert d {e \<in> set (registered reg). md_id e \<noteq> md_id d})"
    using alone by (intro sole_preference_insert sole_preference_mono [OF ok(2)])
      (auto simp: list_ex_iff prefers_another_def)
  with registered_update [OF ok(1), of d] show ?thesis by (simp add: reg')
qed

lemma unregister_ok:
  assumes "registry_ok reg" "sole_preference (set (registered reg))" "unregister reg i = (b, reg')"
  shows "registry_ok reg' \<and> sole_preference (set (registered reg'))"
proof -
  have reg': "reg' = reg\<lparr>reg_models := AList.delete i (reg_models reg)\<rparr>"
    using assms(3) by (simp add: unregister_def)
  have "set (AList.delete i (reg_models reg)) \<subseteq> set (reg_models reg)"
    by (auto simp: AList.delete_eq)
  then have "set (registered reg') \<subseteq> set (registered reg)" by (auto simp: reg' registered_def)
  with assms show ?thesis
    using \<open>set (AList.delete i (reg_models reg)) \<subseteq> set (reg_models reg)\<close>
    by (auto simp: reg' registry_ok_def distinct_delete intro: sole_preference_mono)
qed

lemma checked_registry_invariant:
  assumes "checked_registry reg"
  shows "registry_ok reg \<and> sole_preference (set (registered reg))"
  using assms
proof (induction rule: checked_registry.induct)
  case (constructed ds reg)
  then have "assertSoleTierPreferencePerSet ds" "reg = \<lparr>reg_models = [], reg_policy = None\<rparr>\<lparr>reg_models := set_models ds []\<rparr>"
    by (auto simp: new_registry_def split: if_splits)
  then show ?case by (rule loaded_ok)
next
  case (registered reg d reg')
  then show ?case using register_ok by blast
next
  case (unregistered reg i b reg')
  then show ?case using unregister_ok by blast
next
  case (resolved reg i opts d reg')
  show ?case
  proof (cases "reg' = reg")
    case False
    with resolved(2) have "\<not> md_preferredForTier d"
        "reg' = reg\<lparr>reg_models := AList.update (md_id d) d (reg_models reg)\<rparr>"
      by (auto simp: resolve_model_def dest: built_not_preferred split: option.splits sum.splits if_splits)
    with registered_update [of reg d] resolved(3) show ?thesis
      by (auto intro: sole_preference_insert_plain sole_preference_mono)
  qed (use resolved in simp)
next
  case (loaded reg ds reg')
  then show ?case using loaded_ok [of ds reg' reg] by (auto simp: loadFromCatalog_def split: if_splits)
next
  case (policy reg p)
  then show ?case by (simp add: registry_ok_def registered_def)
qed

text \<open>
  C30 The constructor, \<open>register\<close>, \<open>unregister\<close>, \<open>resolve\<close>, \<open>loadFromCatalog\<close> and a change of the
  activation policy keep the registry well formed: a model is filed under its own id, and no
  provider and tier has two designated models.
\<close>

theorem checked_registry_ok:
  assumes "checked_registry reg"
  shows "registry_ok reg \<and> sole_preference (set (registered reg))"
  by (rule checked_registry_invariant [OF assms])

section \<open>Selection by tier\<close>

lemma set_candidates:
  "d \<in> set (tier_candidates reg p t) \<longleftrightarrow>
     d \<in> set (registered reg) \<and> md_provider d = p \<and> md_tier d = t \<and> md_status d = Ga \<and> isPoolExecutable reg d"
  by (auto simp: tier_candidates_def)

lemma find_SomeD: "find P xs = Some x \<Longrightarrow> x \<in> set xs \<and> P x"
  by (auto simp: find_Some_iff)

text \<open>
  A usable designated model is the one that its provider and tier stand for, in every registry
  that is well formed and whatever the order in which its models were registered.
\<close>

theorem designated_model_selected:
  assumes "registry_ok reg" "sole_preference (set (registered reg))"
    and "d \<in> set (registered reg)" "md_preferredForTier d" "md_status d = Ga" "isPoolExecutable reg d"
  shows "getByProviderAndTier reg (md_provider d) (md_tier d) = Some d"
proof -
  let ?c = "tier_candidates reg (md_provider d) (md_tier d)"
  have "d \<in> set ?c" using assms by (simp add: set_candidates)
  then obtain e where e: "find md_preferredForTier ?c = Some e"
    using assms(4) by (cases "find md_preferredForTier ?c") (auto simp: find_None_iff)
  then have mem: "e \<in> set ?c" "md_preferredForTier e" by (auto dest: find_SomeD)
  then have "e \<in> set (registered reg)" "md_provider e = md_provider d" "md_tier e = md_tier d"
    by (simp_all add: set_candidates)
  with assms mem have "md_id e = md_id d" by (blast intro: sole_preferenceD)
  with assms(1,3) \<open>e \<in> set (registered reg)\<close> have "e = d" by (blast intro: registered_unique)
  with e show ?thesis by (simp add: getByProviderAndTier_def)
qed

lemma getByProviderAndTier_mem:
  "getByProviderAndTier reg p t = Some d \<Longrightarrow> d \<in> set (tier_candidates reg p t)"
  by (auto simp: getByProviderAndTier_def dest: find_SomeD split: option.splits list.splits)

lemma getByProviderAndTier_None:
  "getByProviderAndTier reg p t = None \<longleftrightarrow> tier_candidates reg p t = []"
  by (auto simp: getByProviderAndTier_def split: option.splits list.splits)

lemma first_in_tiers_Some:
  "first_in_tiers reg p ts = Some d \<Longrightarrow>
   \<exists>us t vs. ts = us @ t # vs \<and> d \<in> set (tier_candidates reg p t) \<and> (\<forall>u \<in> set us. tier_candidates reg p u = [])"
proof (induction ts)
  case (Cons t ts)
  show ?case
  proof (cases "getByProviderAndTier reg p t")
    case None
    with Cons obtain us u vs where "ts = us @ u # vs" "d \<in> set (tier_candidates reg p u)"
        "\<forall>u \<in> set us. tier_candidates reg p u = []" by auto
    moreover have "tier_candidates reg p t = []" using None by (simp add: getByProviderAndTier_None)
    ultimately show ?thesis by (intro exI [of _ "t # us"] exI [of _ u] exI [of _ vs]) auto
  next
    case (Some e)
    with Cons(2) have "d \<in> set (tier_candidates reg p t)" by (auto dest: getByProviderAndTier_mem)
    then show ?thesis by (intro exI [of _ "[]"] exI [of _ t] exI [of _ ts]) auto
  qed
qed simp

lemma first_in_tiers_None: "first_in_tiers reg p ts = None \<longleftrightarrow> (\<forall>t \<in> set ts. tier_candidates reg p t = [])"
  by (induction ts) (auto simp: getByProviderAndTier_None [symmetric] split: option.splits)

text \<open>The selection from a tier downwards is one walk.\<close>

lemma equivalent_walk:
  assumes "get_model reg m = Some source" "md_provider source \<noteq> target" "md_provider source \<noteq> ''local-llm''"
  shows "getEquivalent reg m target
    = (case first_in_tiers reg target (md_tier source # lower_tiers (md_tier source)) of
         Some d \<Rightarrow> Inr (md_id d) | None \<Rightarrow> Inl E_NO_EQUIVALENT_MODEL)"
  using assms by (simp add: getEquivalent_def split: option.split)

lemma tiers_covered: "set (t # lower_tiers t) = {v. tier_order v \<le> tier_order t}"
proof (rule set_eqI)
  fix v
  show "v \<in> set (t # lower_tiers t) \<longleftrightarrow> v \<in> {v. tier_order v \<le> tier_order t}"
    by (cases t; cases v) (simp_all add: lower_tiers_def tier_order_def)
qed

lemma tiers_below:
  "t # lower_tiers t = us @ u # vs \<Longrightarrow> tier_order u \<le> tier_order t \<and>
     (\<forall>v. tier_order u < tier_order v \<and> tier_order v \<le> tier_order t \<longrightarrow> v \<in> set us)"
proof -
  assume split: "t # lower_tiers t = us @ u # vs"
  have "sorted_wrt (\<lambda>a b. tier_order b < tier_order a) (t # lower_tiers t)"
    by (cases t) (simp_all add: lower_tiers_def tier_order_def)
  then have later: "\<forall>v \<in> set vs. tier_order v < tier_order u" unfolding split by (auto simp: sorted_wrt_append)
  have all: "v \<in> set us \<or> v = u \<or> v \<in> set vs \<longleftrightarrow> tier_order v \<le> tier_order t" for v
    using tiers_covered [of t] unfolding split by auto
  show ?thesis
  proof (intro conjI allI impI)
    show "tier_order u \<le> tier_order t" using all by blast
    fix v
    assume v: "tier_order u < tier_order v \<and> tier_order v \<le> tier_order t"
    with all consider "v \<in> set us" | "v = u" | "v \<in> set vs" by blast
    then show "v \<in> set us" using v later by cases auto
  qed
qed

definition usable :: "ModelRegistry \<Rightarrow> string \<Rightarrow> ModelTier \<Rightarrow> ModelDefinition list" where
  "usable reg p t = filter (\<lambda>d. md_provider d = p \<and> md_status d = Ga \<and> isPoolExecutable reg d
     \<and> tier_order (md_tier d) \<le> tier_order t) (registered reg)"

lemma usable_candidates:
  "d \<in> set (usable reg p t) \<longleftrightarrow> d \<in> set (tier_candidates reg p (md_tier d)) \<and> tier_order (md_tier d) \<le> tier_order t"
  by (auto simp: usable_def tier_candidates_def)

text \<open>What the walk over the tiers finds: a highest usable model, or that there is none.\<close>

lemma equivalent_highest:
  assumes "get_model reg m = Some source" "md_provider source \<noteq> target" "md_provider source \<noteq> ''local-llm''"
  defines "models \<equiv> usable reg target (md_tier source)"
  shows "case getEquivalent reg m target of
      Inl e \<Rightarrow> e = E_NO_EQUIVALENT_MODEL \<and> models = []
    | Inr i \<Rightarrow> \<exists>d \<in> set models. md_id d = i \<and> (\<forall>e \<in> set models. tier_order (md_tier e) \<le> tier_order (md_tier d))"
proof (cases "first_in_tiers reg target (md_tier source # lower_tiers (md_tier source))")
  case None
  from None tiers_covered [of "md_tier source"] have "tier_candidates reg target v = []" if "tier_order v \<le> tier_order (md_tier source)" for v
    using that unfolding first_in_tiers_None by blast
  then have "models = []"
    by (metis list.set_intros(1) models_def neq_Nil_conv usable_candidates list.set_cases empty_iff set_empty2)
  with None show ?thesis by (simp only: equivalent_walk [OF assms(1-3)]) simp
next
  case (Some d)
  from first_in_tiers_Some [OF Some] obtain us t vs where
    split: "md_tier source # lower_tiers (md_tier source) = us @ t # vs"
    and d: "d \<in> set (tier_candidates reg target t)" and none: "\<forall>u \<in> set us. tier_candidates reg target u = []"
    by blast
  have t: "md_tier d = t" using d by (simp add: set_candidates)
  note below = tiers_below [OF split]
  have "d \<in> set models" using d t below by (simp add: models_def usable_candidates)
  moreover have "tier_order (md_tier e) \<le> tier_order t" if "e \<in> set models" for e
  proof (rule ccontr)
    assume "\<not> tier_order (md_tier e) \<le> tier_order t"
    with that below have "md_tier e \<in> set us" by (auto simp: models_def usable_candidates)
    with none that show False by (auto simp: models_def usable_candidates)
  qed
  ultimately show ?thesis using t by (simp only: equivalent_walk [OF assms(1-3)] Some) auto
qed

text \<open>
  C29 What stands for a model on another provider. An unknown model is refused. On its own
  provider a model stands for itself. A model of the provider \<open>local-llm\<close> has no equivalent
  anywhere else: the request is held, whatever the other provider has. For any other model the
  answer is a generally available, executable model of the target provider that is not above
  the tier of the model, and no such model has a higher tier; the request then fails exactly
  when the target provider has no such model.
\<close>

theorem equivalent_exact:
  "case get_model reg m of
     None \<Rightarrow> getEquivalent reg m target = Inl E_UNKNOWN_MODEL
   | Some source \<Rightarrow>
       if md_provider source = target then getEquivalent reg m target = Inr (md_id source)
       else if md_provider source = ''local-llm'' then getEquivalent reg m target = Inl E_LOCAL_PROVIDER_FALLBACK_HOLD
       else (let models = usable reg target (md_tier source) in case getEquivalent reg m target of
           Inl e \<Rightarrow> e = E_NO_EQUIVALENT_MODEL \<and> models = []
         | Inr i \<Rightarrow> \<exists>d \<in> set models. md_id d = i
             \<and> (\<forall>e \<in> set models. tier_order (md_tier e) \<le> tier_order (md_tier d)))"
proof (cases "get_model reg m")
  case None
  then show ?thesis by (simp add: getEquivalent_def)
next
  case (Some source)
  show ?thesis
  proof (cases "md_provider source = target \<or> md_provider source = ''local-llm''")
    case True
    then show ?thesis by (auto simp: Some getEquivalent_def)
  next
    case False
    with equivalent_highest [OF Some, of target] show ?thesis by (simp add: Some Let_def)
  qed
qed

section \<open>A refresh of the catalog\<close>

lemma remote_not_preferred: "mapRemoteEntry dyn r = Some d \<Longrightarrow> \<not> md_preferredForTier d"
  by (auto simp: mapRemoteEntry_def Let_def split: if_splits option.splits)

lemma remote_canonical: "mapRemoteEntry dyn r = Some d \<Longrightarrow> md_apiId d = md_id d"
  by (auto simp: mapRemoteEntry_def Let_def split: if_splits option.splits)

lemma merge_map:
  "foldl (\<lambda>m d. AList.update (catalog_identity d) d m) m ds
     = foldl (\<lambda>m (k, v). AList.update k v m) m (map (\<lambda>d. (catalog_identity d, d)) ds)"
  by (induction ds arbitrary: m) auto

lemma map_of_identity_image:
  "map_of (rev (map (\<lambda>d. (catalog_identity d, d)) ds)) k = Some d \<Longrightarrow> d \<in> set ds \<and> catalog_identity d = k"
  by (auto dest!: map_of_SomeD)

lemma merged_models:
  assumes "d \<in> set (mergeApiIdOverrides existing remote)"
  shows "d \<in> set remote \<or> d \<in> set existing \<and> catalog_identity d \<notin> catalog_identity ` set remote"
proof -
  let ?m = "foldl (\<lambda>m d. AList.update (catalog_identity d) d m)
       (js_map_of (map (\<lambda>d. (catalog_identity d, d)) existing)) remote"
  obtain k where k: "(k, d) \<in> set ?m" using assms by (auto simp: mergeApiIdOverrides_def)
  have "distinct (map fst ?m)" unfolding merge_map by (rule distinct_foldl_update) simp
  with k have "map_of ?m k = Some d" by simp
  then have "(map_of (rev (map (\<lambda>d. (catalog_identity d, d)) existing))
      ++ map_of (rev (map (\<lambda>d. (catalog_identity d, d)) remote))) k = Some d"
    unfolding merge_map map_of_foldl_update map_of_js_map_of .
  then show ?thesis
    by (auto simp: map_add_Some_iff image_iff dest!: map_of_identity_image) 
qed

lemma merged_identities:
  assumes "d \<in> set existing \<union> set remote"
  shows "\<exists>e \<in> set (mergeApiIdOverrides existing remote). catalog_identity e = catalog_identity d"
proof -
  let ?m = "foldl (\<lambda>m d. AList.update (catalog_identity d) d m)
       (js_map_of (map (\<lambda>d. (catalog_identity d, d)) existing)) remote"
  have "catalog_identity d \<in> fst ` set ?m"
    using assms unfolding merge_map by (auto simp: fst_foldl_update image_iff)
  then obtain e where e: "(catalog_identity d, e) \<in> set ?m" by auto
  moreover have "distinct (map fst ?m)" unfolding merge_map by (rule distinct_foldl_update) simp
  ultimately have "map_of ?m (catalog_identity d) = Some e" by simp
  then have "catalog_identity e = catalog_identity d"
    unfolding merge_map map_of_foldl_update map_of_js_map_of
    by (auto simp: map_add_Some_iff dest!: map_of_identity_image)
  with e show ?thesis by (force simp: mergeApiIdOverrides_def)
qed

lemma mapped_entry:
  "e \<in> set (mapped_entries dyn rs) \<longleftrightarrow> (\<exists>r \<in> set rs. mapRemoteEntry dyn r = Some e)"
  by (force simp: mapped_entries_def image_iff)

text \<open>Where an identity is mapped, two merges leave only the mapped entries of it.\<close>

lemma merged_twice:
  assumes "e \<in> set (mergeApiIdOverrides existing (mergeApiIdOverrides bundled remote))"
    and "catalog_identity e \<in> catalog_identity ` set remote"
  shows "e \<in> set remote"
proof -
  from assms(2) obtain x where "x \<in> set remote" "catalog_identity x = catalog_identity e" by auto
  with merged_identities [of x bundled remote] obtain y where
    "y \<in> set (mergeApiIdOverrides bundled remote)" "catalog_identity e = catalog_identity y" by auto
  then have "catalog_identity e \<in> catalog_identity ` set (mergeApiIdOverrides bundled remote)" by blast
  with merged_models [OF assms(1)] have "e \<in> set (mergeApiIdOverrides bundled remote)" by blast
  with merged_models assms(2) show ?thesis by blast
qed

text \<open>
  A refresh from the catalog forgets designations: after \<open>bootstrapFromCatalog\<close> no model that
  the catalog lists is designated any more, although the bundled definition it overrides may have
  been, so its tier is decided by the order of registration again. The models of one id are of
  one provider.
\<close>

theorem refresh_forgets_designation:
  assumes "registry_ok reg" "bootstrapFromCatalog reg result = Inr reg'"
    and "cl_models result = mapCatalogToDefinitions bundled dyn rs"
    and "r \<in> set rs" "mapRemoteEntry dyn r = Some d"
    and "\<forall>e \<in> set bundled \<union> set (registered reg) \<union> set (mapped_entries dyn rs).
      md_id e = md_id d \<longrightarrow> md_provider e = md_provider d"
  shows "\<exists>e. get_model reg' (md_id d) = Some e \<and> \<not> md_preferredForTier e"
proof -
  let ?R = "mergeApiIdOverrides bundled (mapped_entries dyn rs)"
  let ?M = "mergeApiIdOverrides (getAllModels reg) ?R"
  have reg': "reg' = reg\<lparr>reg_models := set_models ?M (reg_models reg)\<rparr>" and canonical: "list_all canonical_definition ?M"
    using assms(2,3) by (auto simp: bootstrapFromCatalog_def mergeFromCatalog_def mapCatalogToDefinitions_def split: if_splits)
  have d: "d \<in> set (mapped_entries dyn rs)" using assms(4,5) by (auto simp: mapped_entry)
  obtain x where x: "x \<in> set ?R" "catalog_identity x = catalog_identity d"
    using merged_identities [of d] d by blast
  obtain y where y: "y \<in> set ?M" "catalog_identity y = catalog_identity d"
    using merged_identities [of x] x by force
  have apiId: "md_apiId z = md_id z" if "z \<in> set ?M" for z
    using canonical that by (simp add: list_all_iff canonical_definition_def)
  have "md_id y = md_id d"
    using y apiId [OF y(1)] remote_canonical [OF assms(5)] by (simp add: catalog_identity_def)
  with registered_set_models(3) [OF assms(1) y(1)] obtain e where
    e: "e \<in> set ?M" "md_id e = md_id d" "e \<in> set (registered reg')"
    unfolding reg' by auto
  have "e \<in> set bundled \<union> set (registered reg) \<union> set (mapped_entries dyn rs)"
    using merged_models [OF e(1)] merged_models [of e bundled] by (auto simp: getAllModels_def)
  with assms(6) e(2) have "md_provider e = md_provider d" by blast
  then have "catalog_identity e = catalog_identity d"
    using e apiId [OF e(1)] remote_canonical [OF assms(5)] by (simp add: catalog_identity_def)
  with d merged_twice [OF e(1)] have "e \<in> set (mapped_entries dyn rs)" by (metis imageI)
  then have "\<not> md_preferredForTier e" by (auto simp: mapped_entry dest: remote_not_preferred)
  moreover have "registry_ok reg'" unfolding reg' by (rule registered_set_models(1) [OF assms(1)])
  ultimately show ?thesis using e get_model_iff by blast
qed

section \<open>Examples\<close>

text \<open>The models of one standard tier, as they are bundled.\<close>

definition sample_model :: "string \<Rightarrow> string \<Rightarrow> ModelTier \<Rightarrow> rat \<Rightarrow> rat \<Rightarrow> bool \<Rightarrow> ModelDefinition" where
  "sample_model i p t ic oc preferred =
     \<lparr>md_id = i, md_apiId = i, md_provider = p, md_tier = t, md_contextWindow = 1050000,
      md_costPerMillion = \<lparr>cost_input = ic, cost_output = oc, cost_cacheReadInput = None\<rparr>,
      md_pricingEvidenceRef = None, md_capabilities = with_defaults no_capabilities True, md_status = Ga,
      md_maxOutputTokens = None, md_preferredForTier = preferred\<rparr>"

definition sample_bundle :: "ModelDefinition list" where
  "sample_bundle = [sample_model ''claude-sonnet-5'' ''claude'' Standard 3 15 False,
     sample_model ''gpt-4.1'' ''codex'' Standard 2 8 False,
     sample_model ''gpt-5.6-terra'' ''codex'' Standard (5 / 2) 15 True]"

definition sample_registry :: ModelRegistry where
  "sample_registry = \<lparr>reg_models = map (\<lambda>d. (md_id d, d)) sample_bundle, reg_policy = None\<rparr>"

definition sample_row :: RemoteCatalogModel where
  "sample_row = \<lparr>rm_id = ''gpt-5.6-terra'', rm_apiId = None, rm_provider = ''openai'', rm_tier = None, rm_status = None,
     rm_contextWindow = None, rm_maxOutputTokens = None, rm_inputCost = Some (5 / 2), rm_outputCost = Some 15,
     rm_capabilities = no_capabilities\<rparr>"

definition sample_load :: CatalogLoadResult where
  "sample_load = loadCatalog sample_bundle []
     \<lparr>co_offline = False, co_forceRefresh = True, co_ttlMs = CACHE_TTL_MS, co_now = 0\<rparr> None (Some [sample_row])"

definition sample_refreshed :: ModelRegistry where
  "sample_refreshed = sample_registry\<lparr>reg_models := set_models
     (mergeApiIdOverrides (getAllModels sample_registry) (cl_models sample_load)) (reg_models sample_registry)\<rparr>"

lemma sample_constructed: "new_registry sample_bundle = Inr sample_registry"
  by code_simp

lemma sample_registry_ok: "registry_ok sample_registry" "sole_preference (set (registered sample_registry))"
  using checked_registry_invariant [OF checked_registry.constructed [OF sample_constructed]] by auto

lemma sample_bootstrap: "bootstrapFromCatalog sample_registry sample_load = Inr sample_refreshed"
proof -
  have "list_all canonical_definition (mergeApiIdOverrides (getAllModels sample_registry) (cl_models sample_load))"
    by code_simp
  then show ?thesis by (simp add: bootstrapFromCatalog_def mergeFromCatalog_def sample_refreshed_def)
qed

text \<open>Before the refresh the designated model stands for the tier; after it, the one it replaced.\<close>

lemma refresh_reroutes:
  "getEquivalent sample_registry ''claude-sonnet-5'' ''codex'' = Inr ''gpt-5.6-terra''"
  "getEquivalent sample_refreshed ''claude-sonnet-5'' ''codex'' = Inr ''gpt-4.1''"
  by code_simp+

theorem checked_registry_ok_witness:
  "registry_ok sample_registry \<and> sole_preference (set (registered sample_registry))"
  by (rule checked_registry_ok [OF checked_registry.constructed [OF sample_constructed]])

theorem designated_model_selected_witness:
  "getByProviderAndTier sample_registry ''codex'' Standard = Some (sample_model ''gpt-5.6-terra'' ''codex'' Standard (5 / 2) 15 True)"
proof -
  let ?d = "sample_model ''gpt-5.6-terra'' ''codex'' Standard (5 / 2) 15 True"
  have "?d \<in> set (registered sample_registry)" "isPoolExecutable sample_registry ?d"
    by (simp_all add: registered_def sample_registry_def sample_bundle_def isPoolExecutable_def)
  then show ?thesis
    using designated_model_selected [OF sample_registry_ok, of ?d] by (simp add: sample_model_def)
qed

theorem equivalent_exact_witness:
  "\<exists>d \<in> set (usable sample_registry ''codex'' Standard). md_id d = ''gpt-5.6-terra''
     \<and> (\<forall>e \<in> set (usable sample_registry ''codex'' Standard). tier_order (md_tier e) \<le> tier_order (md_tier d))"
proof -
  have "get_model sample_registry ''claude-sonnet-5'' = Some (sample_model ''claude-sonnet-5'' ''claude'' Standard 3 15 False)"
    by code_simp
  with equivalent_exact [of sample_registry "''claude-sonnet-5''" "''codex''"] show ?thesis
    by (simp add: refresh_reroutes(1) sample_model_def Let_def)
qed

theorem refresh_forgets_designation_witness:
  "\<exists>e. get_model sample_refreshed ''gpt-5.6-terra'' = Some e \<and> \<not> md_preferredForTier e"
proof -
  let ?d = "the (mapRemoteEntry [] sample_row)"
  have d: "mapRemoteEntry [] sample_row = Some ?d" and i: "md_id ?d = ''gpt-5.6-terra''" by code_simp+
  have load: "cl_models sample_load = mapCatalogToDefinitions sample_bundle [] [sample_row]"
    by (simp add: sample_load_def loadCatalog_def)
  have "list_all (\<lambda>e. md_id e = ''gpt-5.6-terra'' \<longrightarrow> md_provider e = md_provider ?d)
      (sample_bundle @ registered sample_registry @ mapped_entries [] [sample_row])"
    by code_simp
  then have "\<forall>e \<in> set sample_bundle \<union> set (registered sample_registry) \<union> set (mapped_entries [] [sample_row]).
      md_id e = md_id ?d \<longrightarrow> md_provider e = md_provider ?d"
    unfolding i by (auto simp: list_all_iff)
  from refresh_forgets_designation [OF sample_registry_ok(1) sample_bootstrap load _ d this] show ?thesis
    unfolding i by simp
qed

end
