(* ===== verification/Exec_Observation.thy ===== *)
theory Exec_Observation
  imports Js_String "HOL-Library.Product_Lexorder"
begin

text \<open>
  \<open>src/core/provider-execution-observation.ts\<close>, the reducer of start and end observations of
  provider executions, and \<open>src/core/provider-execution-observation-store.ts\<close>, the table of
  intervals that it guards.

  A canonical timestamp is its number of milliseconds. An event id is a digest of all fields of
  the observation: equal ids are equal observations. The columns of a row of the table are the
  fields of its start observation, which is how a start is inserted. A store opened read-only
  and the rows of schema version 1 are not modelled.
\<close>

section \<open>Observations\<close>

datatype ExecutionOutcome = OutCompleted | OutFailed | OutAborted

datatype ObservationKind = ObsStart | ObsEnd ExecutionOutcome

record ExecutionObservation =
  eo_kind :: ObservationKind
  eo_executionId :: string
  eo_runId :: string
  eo_taskId :: string
  eo_attemptId :: string
  eo_principal :: string
  eo_fence :: string
  eo_sequence :: nat
  eo_observedAt :: int

text \<open>The structural part of the schema: what fails it is an exception.\<close>

definition parse_ok :: "ExecutionObservation \<Rightarrow> bool" where
  "parse_ok obs \<longleftrightarrow> eo_executionId obs \<noteq> [] \<and> eo_runId obs \<noteq> [] \<and> eo_taskId obs \<noteq> []
     \<and> eo_attemptId obs \<noteq> [] \<and> eo_principal obs \<noteq> []"

definition sameIdentity :: "ExecutionObservation \<Rightarrow> ExecutionObservation \<Rightarrow> bool" where
  "sameIdentity a b \<longleftrightarrow> eo_runId a = eo_runId b \<and> eo_taskId a = eo_taskId b
     \<and> eo_attemptId a = eo_attemptId b \<and> eo_principal a = eo_principal b \<and> eo_fence a = eo_fence b"

datatype ObservationHoldReason = MissingFence | ForeignAttempt | EndBeforeStart | ConflictingReplay

record ObservationHold =
  oh_reasonCode :: ObservationHoldReason
  oh_event :: ExecutionObservation

definition hold_of :: "ObservationHoldReason \<Rightarrow> ExecutionObservation \<Rightarrow> ObservationHold" where
  "hold_of reason obs = \<lparr>oh_reasonCode = reason, oh_event = obs\<rparr>"

section \<open>The reducer\<close>

record ExecutionRecord =
  er_start :: ExecutionObservation
  er_end :: "ExecutionObservation option"

record ObservationState =
  os_executions :: "(string, ExecutionRecord) js_map"
  os_peakOverlap :: nat
  os_holds :: "ObservationHold list"

definition initialObservationState :: ObservationState where
  "initialObservationState = \<lparr>os_executions = [], os_peakOverlap = 0, os_holds = []\<rparr>"

definition countOpen :: "(string, ExecutionRecord) js_map \<Rightarrow> nat" where
  "countOpen executions = length (filter (\<lambda>(i, r). er_end r = None) executions)"

definition appendHold :: "ObservationState \<Rightarrow> ObservationHold \<Rightarrow> ObservationState" where
  "appendHold st hold = st\<lparr>os_holds := os_holds st @ [hold]\<rparr>"

definition replaceExecution ::
    "ObservationState \<Rightarrow> string \<Rightarrow> ExecutionRecord \<Rightarrow> nat \<Rightarrow> ObservationState" where
  "replaceExecution st i r peak =
     st\<lparr>os_executions := AList.update i r (os_executions st), os_peakOverlap := peak\<rparr>"

text \<open>
  A duplicate returns the state that was passed, the same object, which the store asks for;
  every other observation returns a new one.
\<close>

datatype fold_result = SameState | NewState ObservationState

definition hold_result :: "ObservationState \<Rightarrow> ObservationHoldReason \<Rightarrow> ExecutionObservation \<Rightarrow> fold_result" where
  "hold_result st reason obs = NewState (appendHold st (hold_of reason obs))"

definition fold_start ::
    "ObservationState \<Rightarrow> ExecutionRecord option \<Rightarrow> ExecutionObservation \<Rightarrow> fold_result" where
  "fold_start st existing obs =
     (case existing of
        None \<Rightarrow>
          let executions = AList.update (eo_executionId obs) \<lparr>er_start = obs, er_end = None\<rparr> (os_executions st)
          in NewState (st\<lparr>os_executions := executions,
               os_peakOverlap := max (os_peakOverlap st) (countOpen executions)\<rparr>)
      | Some r \<Rightarrow>
          if er_start r = obs then SameState
          else if \<not> sameIdentity (er_start r) obs then hold_result st ForeignAttempt obs
          else hold_result st ConflictingReplay obs)"

definition fold_end ::
    "ObservationState \<Rightarrow> ExecutionRecord option \<Rightarrow> ExecutionObservation \<Rightarrow> fold_result" where
  "fold_end st existing obs =
     (case existing of
        None \<Rightarrow> hold_result st EndBeforeStart obs
      | Some r \<Rightarrow>
          if \<not> sameIdentity (er_start r) obs then hold_result st ForeignAttempt obs
          else if eo_sequence obs \<le> eo_sequence (er_start r) then hold_result st EndBeforeStart obs
          else (case er_end r of
              Some e \<Rightarrow> if e = obs then SameState else hold_result st ConflictingReplay obs
            | None \<Rightarrow> NewState (replaceExecution st (eo_executionId obs)
                \<lparr>er_start = er_start r, er_end = Some obs\<rparr> (os_peakOverlap st))))"

definition fold_step :: "ObservationState \<Rightarrow> ExecutionObservation \<Rightarrow> fold_result option" where
  "fold_step st obs =
     (if \<not> parse_ok obs then None
      else if js_trim (eo_fence obs) = [] then Some (hold_result st MissingFence obs)
      else (let existing = map_of (os_executions st) (eo_executionId obs)
            in Some (if eo_kind obs = ObsStart then fold_start st existing obs else fold_end st existing obs)))"

definition foldObservation :: "ObservationState \<Rightarrow> ExecutionObservation \<Rightarrow> ObservationState option" where
  "foldObservation st obs =
     map_option (\<lambda>r. case r of SameState \<Rightarrow> st | NewState st' \<Rightarrow> st') (fold_step st obs)"

fun foldObservations :: "ObservationState \<Rightarrow> ExecutionObservation list \<Rightarrow> ObservationState option" where
  "foldObservations st [] = Some st"
| "foldObservations st (obs # rest) =
     (case foldObservation st obs of None \<Rightarrow> None | Some st' \<Rightarrow> foldObservations st' rest)"

definition attainedConcurrency :: "ObservationState \<Rightarrow> nat" where
  "attainedConcurrency st = countOpen (os_executions st)"

text \<open>The open intervals, by the sequence number of their start.\<close>

definition incompleteIntervals :: "ObservationState \<Rightarrow> (string \<times> ExecutionObservation) list" where
  "incompleteIntervals st =
     sort_key (\<lambda>(i, start). eo_sequence start)
       (map (\<lambda>(i, r). (i, er_start r)) (filter (\<lambda>(i, r). er_end r = None) (os_executions st)))"

definition pruneObservationState ::
    "ObservationState \<Rightarrow> string list option \<Rightarrow> bool \<Rightarrow> ObservationState" where
  "pruneObservationState st retain clearHolds =
     st\<lparr>os_executions := filter (\<lambda>(i, r). er_end r = None
            \<or> (case retain of None \<Rightarrow> False | Some ids \<Rightarrow> i \<in> set ids)) (os_executions st),
        os_holds := (if clearHolds then [] else os_holds st)\<rparr>"

section \<open>The table of intervals\<close>

record ExecutionRow =
  row_start :: ExecutionObservation
  row_end :: "ExecutionObservation option"
  row_retired :: bool

record ObservationRetention =
  maxOpenIntervals :: nat
  maxClosedIntervals :: nat
  maxContradictions :: nat

definition resolveRetention :: "ObservationRetention \<Rightarrow> bool" where
  "resolveRetention p \<longleftrightarrow> 0 < maxOpenIntervals p \<and> 0 < maxClosedIntervals p \<and> 0 < maxContradictions p"

definition DEFAULT_RETENTION :: ObservationRetention where
  "DEFAULT_RETENTION = \<lparr>maxOpenIntervals = 1000, maxClosedIntervals = 10000, maxContradictions = 10000\<rparr>"

record observation_store =
  ob_rows :: "ExecutionRow list"
  ob_contradictions :: "(string \<times> ObservationHold) list"

datatype observation_error = InvalidObservation | OpenRetentionExceeded | SchemaMismatch | ArgumentError

definition row_id :: "ExecutionRow \<Rightarrow> string" where
  "row_id r = eo_executionId (row_start r)"

definition row_open :: "ExecutionRow \<Rightarrow> bool" where
  "row_open r \<longleftrightarrow> row_end r = None"

text \<open>Open and not retired.\<close>

definition row_active :: "ExecutionRow \<Rightarrow> bool" where
  "row_active r \<longleftrightarrow> row_end r = None \<and> \<not> row_retired r"

definition find_row :: "observation_store \<Rightarrow> string \<Rightarrow> ExecutionRow option" where
  "find_row s i = find (\<lambda>r. row_id r = i) (ob_rows s)"

record write_result =
  wr_accepted :: bool
  wr_duplicate :: bool
  wr_contradiction :: "ObservationHold option"

definition persistContradiction ::
    "ObservationRetention \<Rightarrow> observation_store \<Rightarrow> string \<Rightarrow> ObservationHold \<Rightarrow> observation_store" where
  "persistContradiction p s pd hold =
     (let cs = ob_contradictions s @ [(pd, hold)]
      in s\<lparr>ob_contradictions := drop (length cs - maxContradictions p) cs\<rparr>)"

text \<open>The closed rows beyond the limit, the ones that ended first, are deleted.\<close>

definition end_key :: "ExecutionRow \<Rightarrow> nat \<times> string" where
  "end_key r = (case row_end r of None \<Rightarrow> 0 | Some e \<Rightarrow> eo_sequence e, row_id r)"

definition pruneClosed :: "ObservationRetention \<Rightarrow> observation_store \<Rightarrow> observation_store" where
  "pruneClosed p s =
     (let closed = sort_key end_key (filter (\<lambda>r. \<not> row_open r) (ob_rows s));
          gone = map row_id (take (length closed - maxClosedIntervals p) closed)
      in s\<lparr>ob_rows := filter (\<lambda>r. row_id r \<notin> set gone) (ob_rows s)\<rparr>)"

text \<open>The state of the one execution, folded from its row.\<close>

definition row_observations :: "ExecutionRow \<Rightarrow> ExecutionObservation list" where
  "row_observations r = row_start r # (case row_end r of None \<Rightarrow> [] | Some e \<Rightarrow> [e])"

definition row_state :: "ExecutionRow option \<Rightarrow> ObservationState option" where
  "row_state existing =
     foldObservations initialObservationState
       (case existing of None \<Rightarrow> [] | Some r \<Rightarrow> row_observations r)"

definition write_observation ::
    "ObservationRetention \<Rightarrow> observation_store \<Rightarrow> ExecutionObservation
     \<Rightarrow> observation_error + write_result \<times> observation_store" where
  "write_observation p s obs =
     (let accepted = \<lparr>wr_accepted = True, wr_duplicate = False, wr_contradiction = None\<rparr>
      in if eo_kind obs = ObsStart then
           (if maxOpenIntervals p \<le> length (filter row_open (ob_rows s)) then Inl OpenRetentionExceeded
            else Inr (accepted, s\<lparr>ob_rows := ob_rows s @
                   [\<lparr>row_start = obs, row_end = None, row_retired = False\<rparr>]\<rparr>))
         else Inr (accepted, pruneClosed p (s\<lparr>ob_rows :=
                map (\<lambda>r. if row_id r = eo_executionId obs then r\<lparr>row_end := Some obs\<rparr> else r) (ob_rows s)\<rparr>)))"

definition put ::
    "ObservationRetention \<Rightarrow> observation_store \<Rightarrow> ExecutionObservation
     \<Rightarrow> observation_error + write_result \<times> observation_store" where
  "put p s obs =
     (case row_state (find_row s (eo_executionId obs)) of
        None \<Rightarrow> Inl InvalidObservation
      | Some state \<Rightarrow>
        (case fold_step state obs of
           None \<Rightarrow> Inl InvalidObservation
         | Some step \<Rightarrow>
             let next = (case step of SameState \<Rightarrow> state | NewState st \<Rightarrow> st)
             in if os_holds next \<noteq> [] then
                  Inr (\<lparr>wr_accepted = False, wr_duplicate = False, wr_contradiction = Some (last (os_holds next))\<rparr>,
                    persistContradiction p s (eo_principal obs) (last (os_holds next)))
                else if step = SameState then
                  Inr (\<lparr>wr_accepted = True, wr_duplicate = True, wr_contradiction = None\<rparr>, s)
                else write_observation p s obs))"

section \<open>Queries\<close>

definition start_key :: "ExecutionRow \<Rightarrow> nat \<times> string" where
  "start_key r = (eo_sequence (row_start r), row_id r)"

definition listIntervals :: "observation_store \<Rightarrow> string \<Rightarrow> ExecutionRow list" where
  "listIntervals s pd =
     sort_key start_key (filter (\<lambda>r. eo_principal (row_start r) = pd) (ob_rows s))"

definition listProviderPrincipalDigests :: "observation_store \<Rightarrow> int \<Rightarrow> string list option" where
  "listProviderPrincipalDigests s limit =
     (if limit < 1 then None
      else Some (take (nat limit) (sort (remdups (map (\<lambda>r. eo_principal (row_start r)) (ob_rows s))))))"

definition listContradictions :: "observation_store \<Rightarrow> string \<Rightarrow> ObservationHold list" where
  "listContradictions s pd = map snd (filter (\<lambda>(p, hold). p = pd) (ob_contradictions s))"

definition active_rows :: "observation_store \<Rightarrow> ExecutionRow list" where
  "active_rows s = sort_key start_key (filter row_active (ob_rows s))"

definition listActiveOpenIntervals :: "observation_store \<Rightarrow> int \<Rightarrow> observation_error + ExecutionRow list" where
  "listActiveOpenIntervals s limit =
     (if limit < 1 then Inl ArgumentError
      else if int (length (take (nat limit + 1) (active_rows s))) > limit then Inl OpenRetentionExceeded
      else Inr (take (nat limit + 1) (active_rows s)))"

section \<open>Retirement\<close>

record ExactOpenInterval =
  ex_executionId :: string
  ex_runId :: string
  ex_taskId :: string
  ex_attemptId :: string
  ex_principal :: string
  ex_fence :: string

definition assertExactOpenInterval :: "ExactOpenInterval \<Rightarrow> bool" where
  "assertExactOpenInterval x \<longleftrightarrow>
     list_all (\<lambda>v. js_trim v \<noteq> [])
       [ex_executionId x, ex_runId x, ex_taskId x, ex_attemptId x, ex_principal x, ex_fence x]"

definition exact_open :: "ExactOpenInterval \<Rightarrow> ExecutionRow \<Rightarrow> bool" where
  "exact_open x r \<longleftrightarrow>
     (let st = row_start r
      in eo_executionId st = ex_executionId x \<and> eo_runId st = ex_runId x \<and> eo_taskId st = ex_taskId x
         \<and> eo_attemptId st = ex_attemptId x \<and> eo_principal st = ex_principal x \<and> eo_fence st = ex_fence x
         \<and> row_active r)"

text \<open>An update that sets \<open>retired\<close> on the rows of a condition, and counts them.\<close>

definition retire_where :: "(ExecutionRow \<Rightarrow> bool) \<Rightarrow> observation_store \<Rightarrow> nat \<times> observation_store" where
  "retire_where P s =
     (length (filter P (ob_rows s)),
      s\<lparr>ob_rows := map (\<lambda>r. if P r then r\<lparr>row_retired := True\<rparr> else r) (ob_rows s)\<rparr>)"

fun retire_each :: "ExactOpenInterval list \<Rightarrow> nat \<times> observation_store \<Rightarrow> nat \<times> observation_store" where
  "retire_each [] acc = acc"
| "retire_each (x # xs) (n, s) =
     (case retire_where (exact_open x) s of (k, s') \<Rightarrow> retire_each xs (n + k, s'))"

definition retireExactOpenIntervals ::
    "observation_store \<Rightarrow> ExactOpenInterval list \<Rightarrow> observation_error + nat \<times> observation_store" where
  "retireExactOpenIntervals s xs =
     (if \<not> list_all assertExactOpenInterval xs then Inl ArgumentError
      else if \<not> list_all (\<lambda>x. list_ex (exact_open x) (ob_rows s)) xs then Inl SchemaMismatch
      else Inr (retire_each xs (0, s)))"

record ObservationScope =
  sp_runId :: string
  sp_attemptId :: string
  sp_principal :: string
  sp_fence :: string

definition assertScope :: "ObservationScope \<Rightarrow> bool" where
  "assertScope x \<longleftrightarrow> js_trim (sp_runId x) \<noteq> [] \<and> js_trim (sp_attemptId x) \<noteq> []
     \<and> js_trim (sp_principal x) \<noteq> [] \<and> js_trim (sp_fence x) \<noteq> []"

definition in_scope :: "ObservationScope \<Rightarrow> ExecutionRow \<Rightarrow> bool" where
  "in_scope x r \<longleftrightarrow>
     (let st = row_start r
      in eo_runId st = sp_runId x \<and> eo_attemptId st = sp_attemptId x \<and> eo_principal st = sp_principal x
         \<and> eo_fence st = sp_fence x \<and> row_active r)"

definition listOpenIntervalsForScope ::
    "observation_store \<Rightarrow> ObservationScope \<Rightarrow> int \<Rightarrow> observation_error + ExecutionRow list" where
  "listOpenIntervalsForScope s x limit =
     (if \<not> assertScope x \<or> limit < 1 then Inl ArgumentError
      else Inr (take (nat limit) (sort_key start_key (filter (in_scope x) (ob_rows s)))))"

definition retireOpenIntervalsForScope ::
    "observation_store \<Rightarrow> ObservationScope \<Rightarrow> observation_error + nat \<times> observation_store" where
  "retireOpenIntervalsForScope s x =
     (if \<not> assertScope x then Inl ArgumentError else Inr (retire_where (in_scope x) s))"

record GenerationScope =
  gs_runId :: string
  gs_attempts :: "(string \<times> string) list"
  gs_principals :: "string list option"

definition assertGenerationScope :: "GenerationScope \<Rightarrow> bool" where
  "assertGenerationScope g \<longleftrightarrow>
     js_trim (gs_runId g) \<noteq> [] \<and> gs_attempts g \<noteq> []
     \<and> list_all (\<lambda>(t, a). js_trim t \<noteq> [] \<and> js_trim a \<noteq> []) (gs_attempts g)
     \<and> list_all (\<lambda>d. js_trim d \<noteq> []) (case gs_principals g of None \<Rightarrow> [] | Some ds \<Rightarrow> ds)"

text \<open>The key of a task and an attempt joins them with a NUL character.\<close>

definition ownershipKey :: "string \<Rightarrow> string \<Rightarrow> string" where
  "ownershipKey t a = t @ CHR 0x00 # a"

definition owned_by :: "GenerationScope \<Rightarrow> ExecutionRow \<Rightarrow> bool" where
  "owned_by g r \<longleftrightarrow>
     (let st = row_start r
      in eo_runId st = gs_runId g
         \<and> ownershipKey (eo_taskId st) (eo_attemptId st) \<in> set (map (\<lambda>(t, a). ownershipKey t a) (gs_attempts g))
         \<and> (case gs_principals g of None \<Rightarrow> True | Some ds \<Rightarrow> eo_principal st \<in> set ds))"

record GenerationReconciliation =
  gc_retired :: "ExecutionRow list"
  gc_foreignOpenIntervals :: nat

fun reconcile_rows ::
    "GenerationScope \<Rightarrow> ExecutionRow list \<Rightarrow> GenerationReconciliation \<times> observation_store
     \<Rightarrow> GenerationReconciliation \<times> observation_store" where
  "reconcile_rows g [] acc = acc"
| "reconcile_rows g (r # rs) (c, s) =
     (if owned_by g r
      then reconcile_rows g rs (c\<lparr>gc_retired := gc_retired c @ [r]\<rparr>,
             snd (retire_where (\<lambda>q. row_id q = row_id r \<and> row_active q) s))
      else reconcile_rows g rs (c\<lparr>gc_foreignOpenIntervals := gc_foreignOpenIntervals c + 1\<rparr>, s))"

definition reconcileGenerationRetirement ::
    "observation_store \<Rightarrow> GenerationScope
     \<Rightarrow> observation_error + GenerationReconciliation \<times> observation_store" where
  "reconcileGenerationRetirement s g =
     (if \<not> assertGenerationScope g then Inl ArgumentError
      else Inr (reconcile_rows g (active_rows s) (\<lparr>gc_retired = [], gc_foreignOpenIntervals = 0\<rparr>, s)))"

end
