(* ===== verification/Exec_Observation_Correct.thy ===== *)
theory Exec_Observation_Correct
  imports Exec_Observation
begin

text \<open>
  What the store of execution observations keeps: its rows are well formed and within the
  retention bounds, a write does what the reducer does, a retirement marks exactly the rows of
  the settling generation, and frees nothing.
\<close>

section \<open>The invariant\<close>

definition start_ok :: "ExecutionObservation \<Rightarrow> bool" where
  "start_ok obs \<longleftrightarrow> parse_ok obs \<and> js_trim (eo_fence obs) \<noteq> [] \<and> eo_kind obs = ObsStart"

definition end_ok :: "ExecutionObservation \<Rightarrow> ExecutionObservation \<Rightarrow> bool" where
  "end_ok start e \<longleftrightarrow> parse_ok e \<and> eo_kind e \<noteq> ObsStart \<and> eo_executionId e = eo_executionId start
     \<and> sameIdentity start e \<and> eo_sequence start < eo_sequence e"

definition row_ok :: "ExecutionRow \<Rightarrow> bool" where
  "row_ok r \<longleftrightarrow> start_ok (row_start r) \<and> (case row_end r of None \<Rightarrow> True | Some e \<Rightarrow> end_ok (row_start r) e)"

definition observations_ok :: "ObservationRetention \<Rightarrow> observation_store \<Rightarrow> bool" where
  "observations_ok p s \<longleftrightarrow> distinct (map row_id (ob_rows s)) \<and> list_all row_ok (ob_rows s)
     \<and> length (filter row_open (ob_rows s)) \<le> maxOpenIntervals p
     \<and> length (filter (\<lambda>r. \<not> row_open r) (ob_rows s)) \<le> maxClosedIntervals p
     \<and> length (ob_contradictions s) \<le> maxContradictions p"

definition empty_store :: observation_store where
  "empty_store = \<lparr>ob_rows = [], ob_contradictions = []\<rparr>"

inductive stored_by :: "ObservationRetention \<Rightarrow> observation_store \<Rightarrow> bool" for p where
  created: "stored_by p empty_store"
| observed: "stored_by p s \<Longrightarrow> put p s obs = Inr (w, s') \<Longrightarrow> stored_by p s'"
| retired_exact: "stored_by p s \<Longrightarrow> retireExactOpenIntervals s xs = Inr (n, s') \<Longrightarrow> stored_by p s'"
| retired_scope: "stored_by p s \<Longrightarrow> retireOpenIntervalsForScope s x = Inr (n, s') \<Longrightarrow> stored_by p s'"
| settled: "stored_by p s \<Longrightarrow> reconcileGenerationRetirement s g = Inr (c, s') \<Longrightarrow> stored_by p s'"

section \<open>The reducer on one execution\<close>

lemma map_of_single_update [simp]: "map_of (AList.update k v m) = (map_of m)(k \<mapsto> v)"
  by (rule update_conv')

definition record_of :: "ExecutionRow \<Rightarrow> ExecutionRecord" where
  "record_of r = \<lparr>er_start = row_start r, er_end = row_end r\<rparr>"

lemma find_row_SomeD: "find_row s i = Some r \<Longrightarrow> r \<in> set (ob_rows s) \<and> row_id r = i"
  by (auto simp: find_row_def find_Some_iff)

lemma find_row_None: "find_row s i = None \<longleftrightarrow> i \<notin> row_id ` set (ob_rows s)"
  by (auto simp: find_row_def find_None_iff)

lemma find_row_eq:
  "distinct (map row_id (ob_rows s)) \<Longrightarrow> find_row s i = Some r \<longleftrightarrow> r \<in> set (ob_rows s) \<and> row_id r = i"
  by (cases "find_row s i") (auto simp: find_row_None distinct_map inj_on_def dest: find_row_SomeD)

lemma js_trim_fence: "sameIdentity a b \<Longrightarrow> eo_fence b = eo_fence a"
  by (simp add: sameIdentity_def)

text \<open>Folding a stored row gives the state that holds its record alone.\<close>

lemma row_state_exact:
  assumes "case existing of None \<Rightarrow> True | Some r \<Rightarrow> row_ok r \<and> row_id r = i"
  shows "\<exists>st. row_state existing = Some st \<and> os_holds st = []
    \<and> map_of (os_executions st) i = map_option record_of existing"
proof (cases existing)
  case None
  then show ?thesis by (simp add: row_state_def initialObservationState_def)
next
  case (Some r)
  with assms have r: "row_ok r" "row_id r = i" by simp_all
  show ?thesis
  proof (cases "row_end r")
    case None
    with Some r show ?thesis
      by (auto simp: row_state_def row_observations_def row_ok_def start_ok_def foldObservation_def
          fold_step_def fold_start_def initialObservationState_def record_of_def row_id_def Let_def)
  next
    case (Some e)
    with \<open>existing = Some r\<close> r show ?thesis
      by (auto simp: row_state_def row_observations_def row_ok_def start_ok_def end_ok_def foldObservation_def
          fold_step_def fold_start_def fold_end_def initialObservationState_def record_of_def row_id_def
          replaceExecution_def js_trim_fence Let_def)
  qed
qed

text \<open>What an observation is to the record of its execution: the reducer asks for nothing else.\<close>

datatype step_kind = Replayed | Refused ObservationHoldReason | Started | Ended

definition classify_observation :: "ExecutionRecord option \<Rightarrow> ExecutionObservation \<Rightarrow> step_kind" where
  "classify_observation existing obs =
     (if js_trim (eo_fence obs) = [] then Refused MissingFence
      else if eo_kind obs = ObsStart then
        (case existing of None \<Rightarrow> Started
         | Some r \<Rightarrow> if er_start r = obs then Replayed
             else Refused (if sameIdentity (er_start r) obs then ConflictingReplay else ForeignAttempt))
      else
        (case existing of None \<Rightarrow> Refused EndBeforeStart
         | Some r \<Rightarrow> if \<not> sameIdentity (er_start r) obs then Refused ForeignAttempt
             else if eo_sequence obs \<le> eo_sequence (er_start r) then Refused EndBeforeStart
             else (case er_end r of None \<Rightarrow> Ended
                   | Some e \<Rightarrow> if e = obs then Replayed else Refused ConflictingReplay)))"

definition step_effect :: "ObservationState \<Rightarrow> ExecutionObservation \<Rightarrow> step_kind \<Rightarrow> fold_result" where
  "step_effect st obs k =
     (case k of
        Replayed \<Rightarrow> SameState
      | Refused reason \<Rightarrow> hold_result st reason obs
      | Started \<Rightarrow> fold_start st None obs
      | Ended \<Rightarrow> NewState (replaceExecution st (eo_executionId obs)
          \<lparr>er_start = er_start (the (map_of (os_executions st) (eo_executionId obs))), er_end = Some obs\<rparr>
          (os_peakOverlap st)))"

lemma fold_step_classified:
  "fold_step st obs =
     (if parse_ok obs then Some (step_effect st obs (classify_observation (map_of (os_executions st) (eo_executionId obs)) obs))
      else None)"
  by (auto simp: fold_step_def step_effect_def classify_observation_def fold_start_def fold_end_def Let_def
      split: option.splits)

text \<open>A write, by the kind of its observation.\<close>

lemma put_classified:
  assumes "case find_row s (eo_executionId obs) of None \<Rightarrow> True | Some r \<Rightarrow> row_ok r"
  shows "put p s obs =
    (if \<not> parse_ok obs then Inl InvalidObservation
     else case classify_observation (map_option record_of (find_row s (eo_executionId obs))) obs of
       Replayed \<Rightarrow> Inr (\<lparr>wr_accepted = True, wr_duplicate = True, wr_contradiction = None\<rparr>, s)
     | Refused reason \<Rightarrow>
         Inr (\<lparr>wr_accepted = False, wr_duplicate = False, wr_contradiction = Some (hold_of reason obs)\<rparr>,
           persistContradiction p s (eo_principal obs) (hold_of reason obs))
     | _ \<Rightarrow> write_observation p s obs)"
proof -
  have "case find_row s (eo_executionId obs) of None \<Rightarrow> True
      | Some r \<Rightarrow> row_ok r \<and> row_id r = eo_executionId obs"
    using assms by (auto dest: find_row_SomeD split: option.splits)
  from row_state_exact [OF this] obtain st where st: "row_state (find_row s (eo_executionId obs)) = Some st"
      "os_holds st = []" "map_of (os_executions st) (eo_executionId obs)
        = map_option record_of (find_row s (eo_executionId obs))" by blast
  show ?thesis
    by (cases "classify_observation (map_option record_of (find_row s (eo_executionId obs))) obs")
      (simp_all add: put_def st fold_step_classified step_effect_def hold_result_def appendHold_def
        fold_start_def replaceExecution_def Let_def)
qed

section \<open>Every operation keeps the invariant\<close>

lemma end_row_simps [simp]:
  "row_id (r\<lparr>row_end := e\<rparr>) = row_id r" "row_id (r\<lparr>row_retired := b\<rparr>) = row_id r"
  "row_open (r\<lparr>row_retired := b\<rparr>) = row_open r" "row_ok (r\<lparr>row_retired := b\<rparr>) = row_ok r"
  by (simp_all add: row_id_def row_open_def row_ok_def split: option.split)

definition end_row :: "ExecutionObservation \<Rightarrow> ExecutionRow \<Rightarrow> ExecutionRow" where
  "end_row obs r = (if row_id r = eo_executionId obs then r\<lparr>row_end := Some obs\<rparr> else r)"

lemma end_row_id [simp]: "row_id (end_row obs r) = row_id r"
  by (simp add: end_row_def)

lemma filter_length_mono: "(\<And>x. x \<in> set xs \<Longrightarrow> P (f x) \<Longrightarrow> Q x) \<Longrightarrow> length (filter P (map f xs)) \<le> length (filter Q xs)"
  by (induction xs) (auto simp: le_Suc_eq)

text \<open>Pruning deletes closed rows only, and as many as are beyond the limit.\<close>

lemma prune_rows:
  assumes "distinct (map row_id (ob_rows s))"
  shows "\<exists>gone. ob_rows (pruneClosed p s) = filter (\<lambda>r. r \<notin> gone) (ob_rows s)
    \<and> gone \<subseteq> {r \<in> set (ob_rows s). \<not> row_open r}
    \<and> card gone = length (filter (\<lambda>r. \<not> row_open r) (ob_rows s)) - maxClosedIntervals p"
proof -
  define closed where "closed = sort_key end_key (filter (\<lambda>r. \<not> row_open r) (ob_rows s))"
  define gone where "gone = take (length closed - maxClosedIntervals p) closed"
  have d: "distinct (map row_id closed)"
    using assms by (simp add: closed_def distinct_map inj_on_def distinct_filter)
  have set_closed: "set closed = {r \<in> set (ob_rows s). \<not> row_open r}" by (auto simp: closed_def)
  have sub: "set gone \<subseteq> set closed" unfolding gone_def by (rule set_take_subset)
  have "distinct closed" using d by (simp add: distinct_map)
  then have "card (set gone) = length closed - maxClosedIntervals p"
    by (simp add: gone_def distinct_card)
  moreover have "row_id r \<in> row_id ` set gone \<longleftrightarrow> r \<in> set gone" if "r \<in> set (ob_rows s)" for r
  proof -
    have "inj_on row_id (set (ob_rows s))" using assms by (simp add: distinct_map)
    with sub that show ?thesis unfolding set_closed inj_on_def by blast
  qed
  then have "ob_rows (pruneClosed p s) = filter (\<lambda>r. r \<notin> set gone) (ob_rows s)"
    by (auto simp: pruneClosed_def Let_def closed_def [symmetric] gone_def [symmetric] intro!: filter_cong)
  ultimately show ?thesis using sub by (intro exI [of _ "set gone"]) (simp add: set_closed closed_def)
qed

lemma prune_keeps:
  assumes "distinct (map row_id (ob_rows s))"
  shows "distinct (map row_id (ob_rows (pruneClosed p s)))"
    "set (ob_rows (pruneClosed p s)) \<subseteq> set (ob_rows s)"
    "filter row_open (ob_rows (pruneClosed p s)) = filter row_open (ob_rows s)"
    "length (filter (\<lambda>r. \<not> row_open r) (ob_rows (pruneClosed p s))) \<le> maxClosedIntervals p"
    "ob_contradictions (pruneClosed p s) = ob_contradictions s"
    "length (filter (\<lambda>r. \<not> row_open r) (ob_rows s)) \<le> maxClosedIntervals p \<Longrightarrow> ob_rows (pruneClosed p s) = ob_rows s"
proof -
  from prune_rows [OF assms, of p] obtain gone where
      rows: "ob_rows (pruneClosed p s) = filter (\<lambda>r. r \<notin> gone) (ob_rows s)"
    and gone: "gone \<subseteq> {r \<in> set (ob_rows s). \<not> row_open r}"
      "card gone = length (filter (\<lambda>r. \<not> row_open r) (ob_rows s)) - maxClosedIntervals p" by blast
  let ?closed = "filter (\<lambda>r. \<not> row_open r) (ob_rows s)"
  show "distinct (map row_id (ob_rows (pruneClosed p s)))"
    using assms by (simp add: rows distinct_map inj_on_def)
  show "set (ob_rows (pruneClosed p s)) \<subseteq> set (ob_rows s)" by (auto simp: rows)
  show "filter row_open (ob_rows (pruneClosed p s)) = filter row_open (ob_rows s)"
    using gone(1) by (auto simp: rows intro!: filter_cong)
  have d: "distinct ?closed" using assms by (simp add: distinct_map)
  have "length (filter (\<lambda>r. \<not> row_open r) (ob_rows (pruneClosed p s))) = card (set ?closed - gone)"
  proof -
    have "filter (\<lambda>r. \<not> row_open r) (ob_rows (pruneClosed p s)) = filter (\<lambda>r. r \<notin> gone) ?closed"
      by (simp add: rows conj_commute)
    moreover have "set (filter (\<lambda>r. r \<notin> gone) ?closed) = set ?closed - gone" by auto
    ultimately show ?thesis using d by (metis distinct_card distinct_filter)
  qed
  also have "\<dots> = card (set ?closed) - card gone"
    using gone(1) finite_subset [OF gone(1)] by (intro card_Diff_subset) auto
  also have "card (set ?closed) = length ?closed" using d by (rule distinct_card)
  finally show "length (filter (\<lambda>r. \<not> row_open r) (ob_rows (pruneClosed p s))) \<le> maxClosedIntervals p"
    using gone(2) by simp
  show "ob_contradictions (pruneClosed p s) = ob_contradictions s"
    by (simp add: pruneClosed_def Let_def)
  show "ob_rows (pruneClosed p s) = ob_rows s" if "length ?closed \<le> maxClosedIntervals p"
  proof -
    have "finite gone" using gone(1) finite_subset [OF gone(1)] by simp
    with that gone(2) have "gone = {}" by simp
    then show ?thesis by (simp add: rows)
  qed
qed

lemma observation_ended:
  "classify_observation existing obs = Ended \<longleftrightarrow> js_trim (eo_fence obs) \<noteq> [] \<and> eo_kind obs \<noteq> ObsStart \<and>
     (\<exists>r. existing = Some r \<and> sameIdentity (er_start r) obs \<and> eo_sequence (er_start r) < eo_sequence obs
       \<and> er_end r = None)"
  by (auto simp: classify_observation_def split: option.splits)

lemma observation_started:
  "classify_observation existing obs = Started \<longleftrightarrow> js_trim (eo_fence obs) \<noteq> [] \<and> eo_kind obs = ObsStart \<and> existing = None"
  by (auto simp: classify_observation_def split: option.splits)

lemma observations_ok_row: "observations_ok p s \<Longrightarrow> case find_row s i of None \<Rightarrow> True | Some r \<Rightarrow> row_ok r"
  by (auto simp: observations_ok_def list_all_iff dest: find_row_SomeD split: option.splits)

lemma put_cases:
  assumes "observations_ok p s" "put p s obs = Inr (w, s')"
  obtains (replayed) "s' = s" "wr_duplicate w" "wr_contradiction w = None" "parse_ok obs"
      "classify_observation (map_option record_of (find_row s (eo_executionId obs))) obs = Replayed"
  | (refused) reason where "s' = persistContradiction p s (eo_principal obs) (hold_of reason obs)"
      "\<not> wr_duplicate w" "wr_contradiction w = Some (hold_of reason obs)" "parse_ok obs"
      "classify_observation (map_option record_of (find_row s (eo_executionId obs))) obs = Refused reason"
  | (started) "s' = s\<lparr>ob_rows := ob_rows s @ [\<lparr>row_start = obs, row_end = None, row_retired = False\<rparr>]\<rparr>"
      "\<not> wr_duplicate w" "wr_contradiction w = None" "start_ok obs" "find_row s (eo_executionId obs) = None"
      "length (filter row_open (ob_rows s)) < maxOpenIntervals p"
      "classify_observation (map_option record_of (find_row s (eo_executionId obs))) obs = Started"
  | (ended) r where "s' = pruneClosed p (s\<lparr>ob_rows := map (end_row obs) (ob_rows s)\<rparr>)"
      "\<not> wr_duplicate w" "wr_contradiction w = None" "find_row s (eo_executionId obs) = Some r"
      "end_ok (row_start r) obs" "row_end r = None"
      "classify_observation (map_option record_of (find_row s (eo_executionId obs))) obs = Ended"
proof -
  note put = put_classified [OF observations_ok_row [OF assms(1)], of p obs]
  from assms(2) have parse: "parse_ok obs" by (auto simp: put split: if_splits)
  show ?thesis
  proof (cases "classify_observation (map_option record_of (find_row s (eo_executionId obs))) obs")
    case Replayed
    with assms(2) parse show ?thesis by (intro replayed) (auto simp: put)
  next
    case (Refused reason)
    with assms(2) parse show ?thesis by (intro refused) (auto simp: put)
  next
    case Started
    with assms(2) parse show ?thesis
      by (intro started) (auto simp: put observation_started write_observation_def start_ok_def Let_def split: if_splits)
  next
    case Ended
    then obtain r where r: "find_row s (eo_executionId obs) = Some r" "sameIdentity (row_start r) obs"
        "eo_sequence (row_start r) < eo_sequence obs" "row_end r = None"
      by (auto simp: observation_ended record_of_def)
    from Ended have kind: "eo_kind obs \<noteq> ObsStart" by (simp add: observation_ended)
    have rows: "map (\<lambda>r. if row_id r = eo_executionId obs then r\<lparr>row_end := Some obs\<rparr> else r) (ob_rows s)
        = map (end_row obs) (ob_rows s)" by (simp add: end_row_def)
    from assms(2) parse Ended have "write_observation p s obs = Inr (w, s')" by (simp add: put)
    with kind have w: "s' = pruneClosed p (s\<lparr>ob_rows := map (end_row obs) (ob_rows s)\<rparr>)"
        "\<not> wr_duplicate w" "wr_contradiction w = None"
      unfolding rows [symmetric] by (auto simp: write_observation_def Let_def)
    have "end_ok (row_start r) obs"
      using r kind parse find_row_SomeD [OF r(1)] by (simp add: end_ok_def row_id_def)
    from w r(1) this r(4) Ended show ?thesis by (rule ended)
  qed
qed

lemma persist_simps [simp]:
  "ob_rows (persistContradiction p s pd hold) = ob_rows s"
  "length (ob_contradictions (persistContradiction p s pd hold)) \<le> maxContradictions p"
  by (simp_all add: persistContradiction_def Let_def)

lemma filter_one_changed:
  assumes "distinct (map row_id rs)" "r \<in> set rs" "row_id r = eo_executionId obs" "row_open r"
  shows "Suc (length (filter row_open (map (end_row obs) rs))) = length (filter row_open rs)
    \<and> length (filter (\<lambda>r. \<not> row_open r) (map (end_row obs) rs)) = Suc (length (filter (\<lambda>r. \<not> row_open r) rs))"
  using assms
proof (induction rs)
  case (Cons q qs)
  show ?case
  proof (cases "q = r")
    case True
    with Cons.prems have "eo_executionId obs \<notin> row_id ` set qs" by auto
    then have "map (end_row obs) qs = qs" by (force simp: end_row_def intro: map_idI)
    moreover have "\<not> row_open (end_row obs r)" using Cons.prems by (simp add: end_row_def row_open_def)
    ultimately show ?thesis using True Cons.prems by (simp del: length_filter_map)
  next
    case False
    with Cons.prems have "r \<in> set qs" by simp
    moreover have "row_id q \<noteq> eo_executionId obs" using Cons.prems \<open>r \<in> set qs\<close> by force
    ultimately show ?thesis using Cons by (simp add: end_row_def [of obs q] del: length_filter_map)
  qed
qed simp

lemma observations_ok_put:
  assumes "observations_ok p s" "put p s obs = Inr (w, s')"
  shows "observations_ok p s'"
  using assms
proof (cases rule: put_cases)
  case replayed
  with assms(1) show ?thesis by simp
next
  case refused
  with assms(1) show ?thesis by (simp add: observations_ok_def)
next
  case started
  with assms(1) show ?thesis
    by (auto simp: observations_ok_def find_row_None row_ok_def row_id_def row_open_def image_iff)
next
  case (ended r)
  let ?m = "s\<lparr>ob_rows := map (end_row obs) (ob_rows s)\<rparr>"
  note r = find_row_SomeD [OF ended(4)]
  have d: "distinct (map row_id (ob_rows ?m))" using assms(1) by (simp add: observations_ok_def comp_def)
  have ok: "row_ok q" if "q \<in> set (ob_rows ?m)" for q
  proof -
    from that obtain q0 where q0: "q0 \<in> set (ob_rows s)" "q = end_row obs q0" by auto
    have "q0 = r" if "row_id q0 = eo_executionId obs"
      using that q0 r assms(1) by (auto simp: observations_ok_def distinct_map inj_on_def)
    with q0 ended(5) assms(1) show ?thesis
      by (auto simp: end_row_def observations_ok_def list_all_iff row_ok_def)
  qed
  have "row_open r" using ended(6) by (simp add: row_open_def)
  with filter_one_changed [of "ob_rows s" r obs] r assms(1)
  have "length (filter row_open (ob_rows ?m)) \<le> maxOpenIntervals p" by (simp add: observations_ok_def)
  with ok prune_keeps [OF d, of p] assms(1) show ?thesis
    by (auto simp: observations_ok_def ended(1) list_all_iff)
qed

text \<open>A retirement changes nothing but the mark.\<close>

definition marked :: "observation_store \<Rightarrow> observation_store \<Rightarrow> bool" where
  "marked s s' \<longleftrightarrow> (\<exists>P. ob_rows s' = map (\<lambda>r. if P r then r\<lparr>row_retired := True\<rparr> else r) (ob_rows s))
     \<and> ob_contradictions s' = ob_contradictions s"

lemma marked_refl [simp]: "marked s s"
  unfolding marked_def by (intro conjI exI [of _ "\<lambda>_. False"]) simp_all

lemma marked_trans: "marked s t \<Longrightarrow> marked t u \<Longrightarrow> marked s u"
proof -
  assume st: "marked s t" and tu: "marked t u"
  from st obtain P where P: "ob_rows t = map (\<lambda>r. if P r then r\<lparr>row_retired := True\<rparr> else r) (ob_rows s)"
    unfolding marked_def by blast
  from tu obtain Q where Q: "ob_rows u = map (\<lambda>r. if Q r then r\<lparr>row_retired := True\<rparr> else r) (ob_rows t)"
    unfolding marked_def by blast
  have "ob_contradictions u = ob_contradictions s" using st tu by (simp add: marked_def)
  with P Q show ?thesis unfolding marked_def
    by (intro conjI exI [of _ "\<lambda>r. P r \<or> Q (if P r then r\<lparr>row_retired := True\<rparr> else r)"]) simp_all
qed

lemma marked_retire_where: "marked s (snd (retire_where P s))"
  by (auto simp: marked_def retire_where_def)

lemma marked_retire_each: "marked s (snd (retire_each xs (n, s)))"
proof (induction xs arbitrary: n s)
  case (Cons x xs)
  show ?case using marked_retire_where [of s "exact_open x"] Cons
    by (auto split: prod.split intro: marked_trans)
qed simp

lemma marked_reconcile_rows: "marked s (snd (reconcile_rows g rs (c, s)))"
proof (induction rs arbitrary: c s)
  case (Cons r rs)
  show ?case using marked_retire_where [of s "\<lambda>q. row_id q = row_id r \<and> row_active q"] Cons
    by (auto intro: marked_trans)
qed simp

lemma retirements_mark:
  "retireExactOpenIntervals s xs = Inr (n, s') \<Longrightarrow> marked s s'"
  "retireOpenIntervalsForScope s x = Inr (n, s') \<Longrightarrow> marked s s'"
  "reconcileGenerationRetirement s g = Inr (c, s') \<Longrightarrow> marked s s'"
  using marked_retire_each [of s xs 0] marked_retire_where [of s "in_scope x"]
    marked_reconcile_rows [of s g "active_rows s" "\<lparr>gc_retired = [], gc_foreignOpenIntervals = 0\<rparr>"]
  by (auto simp: retireExactOpenIntervals_def retireOpenIntervalsForScope_def reconcileGenerationRetirement_def
      split: if_splits)

lemma filter_marked:
  "length (filter row_open (map (\<lambda>r. if P r then r\<lparr>row_retired := True\<rparr> else r) rs)) = length (filter row_open rs)"
  "length (filter (\<lambda>r. \<not> row_open r) (map (\<lambda>r. if P r then r\<lparr>row_retired := True\<rparr> else r) rs))
     = length (filter (\<lambda>r. \<not> row_open r) rs)"
  "map row_id (map (\<lambda>r. if P r then r\<lparr>row_retired := True\<rparr> else r) rs) = map row_id rs"
  by (induction rs) (auto simp del: length_filter_map)

lemma observations_ok_marked: "observations_ok p s \<Longrightarrow> marked s s' \<Longrightarrow> observations_ok p s'"
  by (auto simp: observations_ok_def marked_def filter_marked list_all_iff simp del: map_map length_filter_map)

lemma stored_ok: "stored_by p s \<Longrightarrow> observations_ok p s"
proof (induction rule: stored_by.induct)
  case created
  show ?case by (simp add: observations_ok_def empty_store_def)
qed (blast intro: observations_ok_put observations_ok_marked retirements_mark)+

section \<open>Properties\<close>

text \<open>
  C32 Whatever observations are written and whatever is retired, in any order, the table holds one
  row per execution, each a start with at most one later end of the same owner and fence, and no
  more open rows, closed rows and contradictions than the retention allows.
\<close>

theorem observation_store_ok: "stored_by p s \<Longrightarrow> observations_ok p s"
  by (rule stored_ok)

definition executions_of :: "observation_store \<Rightarrow> string \<Rightarrow> ExecutionRecord option" where
  "executions_of s i = map_option record_of (find_row s i)"

lemma find_map:
  "(\<And>r. row_id (f r) = row_id r) \<Longrightarrow> find (\<lambda>r. row_id r = i) (map f rs) = map_option f (find (\<lambda>r. row_id r = i) rs)"
  by (induction rs) auto

lemma executions_marked: "marked s s' \<Longrightarrow> executions_of s' = executions_of s"
proof
  fix i
  assume "marked s s'"
  then obtain P where P: "ob_rows s' = map (\<lambda>r. if P r then r\<lparr>row_retired := True\<rparr> else r) (ob_rows s)"
    unfolding marked_def by blast
  show "executions_of s' i = executions_of s i"
    unfolding executions_of_def find_row_def P
    by (subst find_map) (auto simp: record_of_def option.map_comp comp_def intro!: map_option_cong)
qed

text \<open>
  C10 The table refines the reducer. As long as no closed row is beyond its limit, a write does to
  the recorded executions what the reducer does to the state that holds all of them: the same
  records, the same hold, and a duplicate exactly where the reducer returns its own state.
\<close>

theorem put_refines_fold:
  assumes "stored_by p s" "put p s obs = Inr (w, s')"
    and "map_of (os_executions st) = executions_of s"
    and "length (filter (\<lambda>r. \<not> row_open r) (ob_rows s)) < maxClosedIntervals p"
  shows "\<exists>st'. foldObservation st obs = Some st' \<and> map_of (os_executions st') = executions_of s'
    \<and> os_holds st' = os_holds st @ (case wr_contradiction w of None \<Rightarrow> [] | Some hold \<Rightarrow> [hold])
    \<and> (wr_duplicate w \<longleftrightarrow> fold_step st obs = Some SameState)"
proof -
  note ok = stored_ok [OF assms(1)]
  have same: "map_of (os_executions st) (eo_executionId obs)
      = map_option record_of (find_row s (eo_executionId obs))" by (simp add: assms(3) executions_of_def)
  note fold = fold_step_classified [of st obs, unfolded same]
  from ok assms(2) show ?thesis
  proof (cases rule: put_cases)
    case replayed
    with fold assms(3) show ?thesis by (simp add: foldObservation_def step_effect_def)
  next
    case refused
    with fold assms(3) show ?thesis
      by (simp add: foldObservation_def step_effect_def hold_result_def appendHold_def executions_of_def fun_eq_iff
          find_row_def)
  next
    case started
    have "executions_of s' = (executions_of s)(eo_executionId obs \<mapsto> \<lparr>er_start = obs, er_end = None\<rparr>)"
    proof
      fix i
      have "find (\<lambda>r. row_id r = i) (xs @ [x]) =
          (case find (\<lambda>r. row_id r = i) xs of None \<Rightarrow> if row_id x = i then Some x else None | Some y \<Rightarrow> Some y)" for xs x
        by (induction xs) auto
      with started(5) show "executions_of s' i
          = ((executions_of s)(eo_executionId obs \<mapsto> \<lparr>er_start = obs, er_end = None\<rparr>)) i"
        by (auto simp: started(1) executions_of_def find_row_def record_of_def row_id_def split: option.splits)
    qed
    with started fold assms(3) show ?thesis
      by (simp add: foldObservation_def step_effect_def start_ok_def fold_start_def Let_def)
  next
    case (ended r)
    let ?m = "s\<lparr>ob_rows := map (end_row obs) (ob_rows s)\<rparr>"
    note r = find_row_SomeD [OF ended(4)]
    have d: "distinct (map row_id (ob_rows ?m))" using ok by (simp add: observations_ok_def comp_def)
    have "row_open r" using ended(6) by (simp add: row_open_def)
    with filter_one_changed [of "ob_rows s" r obs] r ok assms(4)
    have "length (filter (\<lambda>r. \<not> row_open r) (ob_rows ?m)) \<le> maxClosedIntervals p"
      by (simp add: observations_ok_def del: length_filter_map)
    from prune_keeps(6) [OF d this] have rows: "ob_rows s' = map (end_row obs) (ob_rows s)"
      by (simp add: ended(1))
    have ex: "executions_of s' = (executions_of s)(eo_executionId obs \<mapsto> \<lparr>er_start = row_start r, er_end = Some obs\<rparr>)"
    proof
      fix i
      have "find_row s' i = map_option (end_row obs) (find_row s i)"
        by (simp add: find_row_def rows find_map)
      then show "executions_of s' i
          = ((executions_of s)(eo_executionId obs \<mapsto> \<lparr>er_start = row_start r, er_end = Some obs\<rparr>)) i"
        using ended(4)
        by (auto simp: executions_of_def end_row_def record_of_def option.map_comp comp_def
            dest: find_row_SomeD intro!: map_option_cong)
    qed
    have "parse_ok obs" using ended(5) by (simp add: end_ok_def)
    moreover have "er_start (the (executions_of s (eo_executionId obs))) = row_start r"
      using ended(4) by (simp add: executions_of_def record_of_def)
    ultimately show ?thesis using ended(1-3,7) fold assms(3) ex
      by (simp add: foldObservation_def step_effect_def replaceExecution_def)
  qed
qed

text \<open>
  A retirement of any kind frees nothing: an observation is refused by the bound on open
  intervals after it exactly when it was before it. Retired rows still count as open and are
  never pruned, so once as many intervals were retired as the bound allows, no start is recorded.
\<close>

theorem retirement_frees_nothing:
  assumes "stored_by p s"
    and "retireExactOpenIntervals s xs = Inr (n, s') \<or> retireOpenIntervalsForScope s x = Inr (n, s')
      \<or> reconcileGenerationRetirement s g = Inr (c, s')"
  shows "put p s' obs = Inl OpenRetentionExceeded \<longleftrightarrow> put p s obs = Inl OpenRetentionExceeded"
proof -
  have m: "marked s s'" using assms(2) retirements_mark by blast
  have ok: "observations_ok p s" "observations_ok p s'" using stored_ok [OF assms(1)] observations_ok_marked m by blast+
  have "length (filter row_open (ob_rows s')) = length (filter row_open (ob_rows s))"
    using m by (auto simp: marked_def filter_marked simp del: length_filter_map)
  moreover have "map_option record_of (find_row s' i) = map_option record_of (find_row s i)" for i
    using executions_marked [OF m] by (simp add: executions_of_def fun_eq_iff)
  ultimately show ?thesis
    unfolding put_classified [OF observations_ok_row [OF ok(1)]] put_classified [OF observations_ok_row [OF ok(2)]]
    by (auto simp: write_observation_def Let_def split: step_kind.split)
qed

section \<open>Settling a generation\<close>

text \<open>The rows that a generation owns, by the exact identities it lists.\<close>

definition owns :: "GenerationScope \<Rightarrow> ExecutionRow \<Rightarrow> bool" where
  "owns g r \<longleftrightarrow> eo_runId (row_start r) = gs_runId g
     \<and> (eo_taskId (row_start r), eo_attemptId (row_start r)) \<in> set (gs_attempts g)
     \<and> (case gs_principals g of None \<Rightarrow> True | Some ds \<Rightarrow> eo_principal (row_start r) \<in> set ds)"

lemma ownershipKey_inj:
  "CHR 0x00 \<notin> set t \<Longrightarrow> CHR 0x00 \<notin> set t' \<Longrightarrow> ownershipKey t a = ownershipKey t' a' \<longleftrightarrow> t = t' \<and> a = a'"
proof (induction t arbitrary: t')
  case Nil
  then show ?case by (cases t') (auto simp: ownershipKey_def)
next
  case (Cons c t)
  then show ?case by (cases t') (auto simp: ownershipKey_def)
qed

lemma owned_by_owns:
  assumes "CHR 0x00 \<notin> set (eo_taskId (row_start r))" "\<forall>x \<in> set (gs_attempts g). CHR 0x00 \<notin> set (fst x)"
  shows "owned_by g r \<longleftrightarrow> owns g r"
proof -
  let ?t = "eo_taskId (row_start r)" and ?a = "eo_attemptId (row_start r)"
  have "ownershipKey ?t ?a = ownershipKey t a \<longleftrightarrow> (?t, ?a) = (t, a)" if "(t, a) \<in> set (gs_attempts g)" for t a
    using that assms ownershipKey_inj [of ?t t ?a a] by auto
  then have "ownershipKey ?t ?a \<in> (\<lambda>(t, a). ownershipKey t a) ` set (gs_attempts g) \<longleftrightarrow> (?t, ?a) \<in> set (gs_attempts g)"
    by (auto simp: image_iff intro!: bexI [of _ "(?t, ?a)"])
  then show ?thesis by (simp add: owned_by_def owns_def Let_def)
qed

lemma row_active_simps [simp]: "\<not> row_active (r\<lparr>row_retired := True\<rparr>)"
  by (simp add: row_active_def)

lemma row_start_retired [simp]: "row_start (if b then r\<lparr>row_retired := True\<rparr> else r) = row_start r"
  by simp

definition retire_ids :: "(string \<Rightarrow> bool) \<Rightarrow> ExecutionRow list \<Rightarrow> ExecutionRow list" where
  "retire_ids P rs = map (\<lambda>r. if P (row_id r) \<and> row_active r then r\<lparr>row_retired := True\<rparr> else r) rs"

lemma retire_ids_twice: "retire_ids Q (retire_ids P rs) = retire_ids (\<lambda>i. P i \<or> Q i) rs"
  by (induction rs) (auto simp: retire_ids_def)

lemma reconcile_rows_exact:
  "reconcile_rows g rs (c, s) =
     (c\<lparr>gc_retired := gc_retired c @ filter (owned_by g) rs,
        gc_foreignOpenIntervals := gc_foreignOpenIntervals c + length (filter (\<lambda>r. \<not> owned_by g r) rs)\<rparr>,
      s\<lparr>ob_rows := retire_ids (\<lambda>i. i \<in> row_id ` set (filter (owned_by g) rs)) (ob_rows s)\<rparr>)"
proof (induction rs arbitrary: c s)
  case Nil
  show ?case by (simp add: retire_ids_def)
next
  case (Cons r rs)
  have "ob_rows (snd (retire_where (\<lambda>q. row_id q = row_id r \<and> row_active q) s)) = retire_ids (\<lambda>i. i = row_id r) (ob_rows s)"
    by (simp add: retire_where_def retire_ids_def)
  then have "snd (retire_where (\<lambda>q. row_id q = row_id r \<and> row_active q) s)
      = s\<lparr>ob_rows := retire_ids (\<lambda>i. i = row_id r) (ob_rows s)\<rparr>" by (simp add: retire_where_def)
  with Cons show ?case by (auto simp: retire_ids_twice)
qed

lemma set_active_rows: "set (active_rows s) = {r \<in> set (ob_rows s). row_active r}"
  by (auto simp: active_rows_def)

lemma retire_ids_owned:
  assumes "distinct (map row_id rs)" "set xs = {r \<in> set rs. row_active r \<and> P r}"
  shows "retire_ids (\<lambda>i. i \<in> row_id ` set xs) rs
    = map (\<lambda>r. if row_active r \<and> P r then r\<lparr>row_retired := True\<rparr> else r) rs"
  using assms by (auto simp: retire_ids_def distinct_map inj_on_def)

lemma length_filter_mset: "mset xs = mset ys \<Longrightarrow> length (filter P xs) = length (filter P ys)"
  by (metis mset_filter size_mset)

text \<open>
  C26 A settling generation retires exactly the active intervals whose run, task, attempt and, when
  it lists them, principal are its own, and counts the others; settling it again retires nothing,
  changes nothing and counts the same. Task ids hold no NUL character.
\<close>

theorem settlement_retires_owned:
  assumes "stored_by p s" "reconcileGenerationRetirement s g = Inr (c, s')"
    and "\<forall>r \<in> set (ob_rows s). CHR 0x00 \<notin> set (eo_taskId (row_start r))"
    and "\<forall>x \<in> set (gs_attempts g). CHR 0x00 \<notin> set (fst x)"
  shows "gc_retired c = filter (owns g) (active_rows s)
    \<and> gc_foreignOpenIntervals c = length (filter (\<lambda>r. \<not> owns g r) (active_rows s))
    \<and> ob_rows s' = map (\<lambda>r. if row_active r \<and> owns g r then r\<lparr>row_retired := True\<rparr> else r) (ob_rows s)
    \<and> reconcileGenerationRetirement s' g = Inr (c\<lparr>gc_retired := []\<rparr>, s')"
proof -
  have d: "distinct (map row_id (ob_rows s))" using stored_ok [OF assms(1)] by (simp add: observations_ok_def)
  have own: "filter (owned_by g) (active_rows s) = filter (owns g) (active_rows s)"
      "filter (\<lambda>r. \<not> owned_by g r) (active_rows s) = filter (\<lambda>r. \<not> owns g r) (active_rows s)"
    using assms(3,4) by (auto simp: set_active_rows owned_by_owns intro!: filter_cong)
  from assms(2) have g: "assertGenerationScope g" by (simp add: reconcileGenerationRetirement_def split: if_splits)
  let ?f = "\<lambda>r. if row_active r \<and> owns g r then r\<lparr>row_retired := True\<rparr> else r"
  have s': "s' = s\<lparr>ob_rows := map ?f (ob_rows s)\<rparr>"
    and c: "c = \<lparr>gc_retired = filter (owns g) (active_rows s),
      gc_foreignOpenIntervals = length (filter (\<lambda>r. \<not> owns g r) (active_rows s))\<rparr>"
    using assms(2) g retire_ids_owned [OF d, of "filter (owned_by g) (active_rows s)" "owns g"]
    by (auto simp: reconcileGenerationRetirement_def reconcile_rows_exact own set_active_rows)
  have active: "filter row_active (ob_rows s') = filter (\<lambda>r. \<not> owns g r) (filter row_active (ob_rows s))"
  proof -
    have "filter row_active (map ?f rs) = filter (\<lambda>r. \<not> owns g r) (filter row_active rs)" for rs
      by (induction rs) simp_all
    then show ?thesis by (simp add: s')
  qed
  have rest: "active_rows s' = sort_key start_key (filter (\<lambda>r. \<not> owns g r) (filter row_active (ob_rows s)))"
    by (simp add: active_rows_def active)
  have foreign: "filter (owned_by g) (active_rows s') = []" "filter (\<lambda>r. \<not> owned_by g r) (active_rows s') = active_rows s'"
    using assms(3,4) by (auto simp: rest owned_by_owns filter_empty_conv filter_id_conv)
  have "mset (active_rows s) = mset (filter row_active (ob_rows s))" by (simp add: active_rows_def)
  from length_filter_mset [OF this] have "length (active_rows s') = gc_foreignOpenIntervals c"
    by (simp add: rest c)
  moreover have "retire_ids (\<lambda>i. False) rs = rs" for rs by (simp add: retire_ids_def)
  ultimately have "reconcileGenerationRetirement s' g = Inr (c\<lparr>gc_retired := []\<rparr>, s')"
    using g by (simp add: reconcileGenerationRetirement_def reconcile_rows_exact foreign)
  with c s' show ?thesis by simp
qed

section \<open>Witnesses\<close>

definition sample_start :: "string \<Rightarrow> ExecutionObservation" where
  "sample_start i = \<lparr>eo_kind = ObsStart, eo_executionId = i, eo_runId = ''run-1'', eo_taskId = ''task-1'',
     eo_attemptId = ''attempt-1'', eo_principal = ''principal-a'', eo_fence = ''fence-1'', eo_sequence = 1,
     eo_observedAt = 0\<rparr>"

definition sample_end :: "string \<Rightarrow> ExecutionObservation" where
  "sample_end i = (sample_start i)\<lparr>eo_kind := ObsEnd OutCompleted, eo_sequence := 2, eo_observedAt := 60000\<rparr>"

definition one_open :: ObservationRetention where
  "one_open = \<lparr>maxOpenIntervals = 1, maxClosedIntervals = 1, maxContradictions = 1\<rparr>"

definition one_started :: observation_store where
  "one_started = \<lparr>ob_rows = [\<lparr>row_start = sample_start ''exec-1'', row_end = None, row_retired = False\<rparr>],
     ob_contradictions = []\<rparr>"

definition run_settled :: GenerationScope where
  "run_settled = \<lparr>gs_runId = ''run-1'', gs_attempts = [(''task-1'', ''attempt-1'')], gs_principals = None\<rparr>"

lemma started_one:
  "put one_open empty_store (sample_start ''exec-1'')
     = Inr (\<lparr>wr_accepted = True, wr_duplicate = False, wr_contradiction = None\<rparr>, one_started)"
  by code_simp

lemma stored_one: "stored_by one_open one_started"
  by (rule stored_by.observed [OF stored_by.created started_one])

lemma settled_one:
  "reconcileGenerationRetirement one_started run_settled
     = Inr (\<lparr>gc_retired = ob_rows one_started, gc_foreignOpenIntervals = 0\<rparr>,
            one_started\<lparr>ob_rows := map (\<lambda>r. r\<lparr>row_retired := True\<rparr>) (ob_rows one_started)\<rparr>)"
  by code_simp

theorem observation_store_ok_witness: "observations_ok one_open one_started"
  by (rule observation_store_ok [OF stored_one])

theorem put_refines_fold_witness:
  "\<exists>st'. foldObservation initialObservationState (sample_start ''exec-1'') = Some st'
     \<and> map_of (os_executions st') = executions_of one_started \<and> os_holds st' = []"
  using put_refines_fold [OF stored_by.created started_one, of initialObservationState]
  by (auto simp: initialObservationState_def executions_of_def find_row_def empty_store_def one_open_def fun_eq_iff)

text \<open>One interval was started and retired, none is active, and the next start is refused.\<close>

theorem retirement_frees_nothing_witness:
  "\<exists>c s'. reconcileGenerationRetirement one_started run_settled = Inr (c, s') \<and> active_rows s' = []
     \<and> put one_open s' (sample_start ''exec-2'') = Inl OpenRetentionExceeded"
proof -
  let ?s = "one_started\<lparr>ob_rows := map (\<lambda>r. r\<lparr>row_retired := True\<rparr>) (ob_rows one_started)\<rparr>"
  have "put one_open ?s (sample_start ''exec-2'') = Inl OpenRetentionExceeded
      \<longleftrightarrow> put one_open one_started (sample_start ''exec-2'') = Inl OpenRetentionExceeded"
    using retirement_frees_nothing [OF stored_one, of "[]" 0 ?s undefined run_settled
        "\<lparr>gc_retired = ob_rows one_started, gc_foreignOpenIntervals = 0\<rparr>" "sample_start ''exec-2''"] settled_one
    by blast
  moreover have "put one_open one_started (sample_start ''exec-2'') = Inl OpenRetentionExceeded" by code_simp
  moreover have "active_rows ?s = []" by code_simp
  ultimately show ?thesis using settled_one by blast
qed

theorem settlement_retires_owned_witness:
  "owns run_settled (hd (ob_rows one_started)) \<and> filter (owns run_settled) (active_rows one_started) = ob_rows one_started"
proof -
  have "gc_retired \<lparr>gc_retired = ob_rows one_started, gc_foreignOpenIntervals = 0\<rparr>
      = filter (owns run_settled) (active_rows one_started)"
    using settlement_retires_owned [OF stored_one settled_one]
    by (simp add: one_started_def run_settled_def sample_start_def)
  then show ?thesis by (auto simp: owns_def one_started_def run_settled_def sample_start_def)
qed

end
