(* ===== verification/Quota_Truth.thy ===== *)
theory Quota_Truth
  imports Js_Number Js_String
begin

text \<open>
  \<open>src/core/provider-limit-truth.ts\<close>: what is known of the usage limits of a provider account,
  the policy over it, and the requests and reservations against it.

  A canonical ISO timestamp is its number of milliseconds, so the checks of its format have no
  counterpart. An enumeration is a datatype, so neither have the membership tests of one. The
  checks that throw are predicates: the messages of the errors are left out. Usage amounts are
  finite doubles; the reservation ids, hashes and references are strings.
\<close>

section \<open>Identities\<close>

datatype InvocationAuthMode = AuthSubscription | AuthApi | AuthHybrid | AuthLocal | AuthUnknown
datatype InvocationTransport = TransCli | TransMcp | TransApi | TransHttp | TransLocal
datatype InvocationExecutionBackend =
    BackSubprocess | BackDocker | BackTmux | BackApi | BackInProcess | BackUnknown

record limit_backend =
  lb_transport :: InvocationTransport
  lb_executionBackend :: InvocationExecutionBackend
  lb_endpointRefHash :: "string option"

definition has_identity :: "string \<Rightarrow> bool" where
  "has_identity s \<longleftrightarrow> s \<noteq> [] \<and> js_trim s = s"

definition control_char :: "char \<Rightarrow> bool" where
  "control_char c \<longleftrightarrow> (of_char c :: nat) < 32 \<or> (of_char c :: nat) = 127"

definition lower_letter :: "char \<Rightarrow> bool" where
  "lower_letter c \<longleftrightarrow> (let n = (of_char c :: nat) in 97 \<le> n \<and> n \<le> 122)"

definition digit_char :: "char \<Rightarrow> bool" where
  "digit_char c \<longleftrightarrow> (let n = (of_char c :: nat) in 48 \<le> n \<and> n \<le> 57)"

definition upper_letter :: "char \<Rightarrow> bool" where
  "upper_letter c \<longleftrightarrow> (let n = (of_char c :: nat) in 65 \<le> n \<and> n \<le> 90)"

definition canonical_text :: "string \<Rightarrow> bool" where
  "canonical_text s \<longleftrightarrow> has_identity s \<and> \<not> list_ex control_char s"

definition LEGACY_MODEL_ALIASES :: "string list" where
  "LEGACY_MODEL_ALIASES = [''fable'', ''opus'', ''sonnet'', ''haiku'', ''gpt-5'', ''gpt-5.6'']"

definition canonical_model :: "string \<Rightarrow> bool" where
  "canonical_model m \<longleftrightarrow>
     canonical_text m \<and> length m \<le> 256 \<and> \<not> list_ex js_space m \<and> m \<notin> set LEGACY_MODEL_ALIASES"

text \<open>The pattern \<open>^[a-z][a-z0-9-]{0,63}$\<close>.\<close>

definition slug_char :: "char \<Rightarrow> bool" where
  "slug_char c \<longleftrightarrow> lower_letter c \<or> digit_char c \<or> c = CHR ''-''"

definition canonical_provider :: "string \<Rightarrow> bool" where
  "canonical_provider p \<longleftrightarrow>
     (case p of [] \<Rightarrow> False | c # cs \<Rightarrow> lower_letter c \<and> length cs \<le> 63 \<and> list_all slug_char cs)"

definition sha256_text :: "string \<Rightarrow> bool" where
  "sha256_text s \<longleftrightarrow> length s = 64 \<and> list_all (\<lambda>c. digit_char c \<or> c \<in> set ''abcdef'') s"

definition opaque_hash :: "string option \<Rightarrow> bool \<Rightarrow> bool" where
  "opaque_hash h required \<longleftrightarrow> (case h of None \<Rightarrow> \<not> required | Some s \<Rightarrow> sha256_text s)"

text \<open>A prefix, a colon, and one segment of 8 to 160 characters or a content digest.\<close>

definition ref_segment :: "string \<Rightarrow> bool" where
  "ref_segment s \<longleftrightarrow> 8 \<le> length s \<and> length s \<le> 160 \<and>
     list_all (\<lambda>c. lower_letter c \<or> upper_letter c \<or> digit_char c \<or> c \<in> set ''._-'') s"

definition opaque_ref :: "string \<Rightarrow> bool" where
  "opaque_ref r \<longleftrightarrow>
     (let p = takeWhile (\<lambda>c. c \<noteq> CHR '':'') r; rest = dropWhile (\<lambda>c. c \<noteq> CHR '':'') r
      in length r \<le> 192 \<and> \<not> js_includes r ''://'' \<and> rest \<noteq> []
         \<and> p \<noteq> [] \<and> lower_letter (hd p) \<and> list_all slug_char (tl p)
         \<and> (ref_segment (tl rest)
            \<or> js_starts_with (tl rest) ''sha256:'' \<and> sha256_text (drop 7 (tl rest))))"

section \<open>Limits, policies and observations\<close>

datatype ProviderLimitUnit = UPercent | URequests | UTokens | UCredits | UUsd

datatype ProviderLimitWindowKind =
    WSession | WWeekAll | WWeekModel | WRate | WBilling | WCustom

datatype ProviderLimitSourceKind =
    SrcCli | SrcApi | SrcHeaders | SrcTranscript | SrcLocal | SrcOperator

datatype ProviderLimitDecision = LimitAllow | LimitHold
datatype ProviderLimitPressure = POk | PWarn | PBlock | PUnknown
datatype InvocationEvidenceState = EvKnown | EvUnknown | EvStale | EvUnavailable

datatype ProviderLimitReasonCode =
    LimitNone | SourceUnknown | SourceUnavailable | IncompleteWindows | ThresholdBlock
  | ThresholdObserved | RemainingFloor | EvidenceNotYetValid | EvidenceExpired

text \<open>A reset time is known or unknown, with or without a timestamp.\<close>

record limit_reset =
  rs_known :: bool
  rs_at :: "int option"
  rs_displayRefHash :: "string option"

record ProviderLimitWindow =
  w_windowId :: string
  w_kind :: ProviderLimitWindowKind
  w_model :: "string option"
  w_unit :: ProviderLimitUnit
  w_consumed :: "rat option"
  w_remaining :: "rat option"
  w_limit :: "rat option"
  w_reset :: limit_reset

datatype ratio_enforcement = EnforceRatio | ObserveOnly

record ProviderLimitPolicy =
  lp_policyRef :: string
  lp_ratioEnforcement :: "ratio_enforcement option"
  lp_warnAtRatio :: rat
  lp_blockAtRatio :: rat
  lp_minimumRemaining :: "(ProviderLimitUnit \<times> rat) list"

datatype limit_authority = Authoritative | Advisory

record limit_source =
  src_kind :: ProviderLimitSourceKind
  src_authority :: limit_authority
  src_operatorApprovalRef :: "string option"
  src_evidenceRef :: string
  src_fetchedAt :: int
  src_expiresAt :: int
  src_incorporated :: "string list"

text \<open>The account and endpoint scope that limits are shared by (\<open>ProviderLimitSnapshotQuery\<close>).\<close>

record limit_scope =
  sc_tenantId :: string
  sc_provider :: string
  sc_accountRefHash :: "string option"
  sc_quotaScopeRefHash :: string
  sc_authMode :: InvocationAuthMode

record ProviderLimitResult =
  lr_limitResultId :: string
  lr_idempotencyKey :: string
  lr_projectId :: string
  lr_scope :: limit_scope
  lr_backend :: limit_backend
  lr_state :: InvocationEvidenceState
  lr_decision :: ProviderLimitDecision
  lr_pressure :: ProviderLimitPressure
  lr_reasonCode :: ProviderLimitReasonCode
  lr_requiredWindowIds :: "string list"
  lr_windows :: "ProviderLimitWindow list"
  lr_policy :: ProviderLimitPolicy
  lr_source :: limit_source
  lr_evidenceRefs :: "string list"

text \<open>
  \<open>deriveProviderQuotaScopeRefHash\<close> is SHA-256 of an identity text; the hash of the identity
  is an argument.
\<close>

type_synonym quota_hash =
  "string \<times> string \<times> string option \<times> InvocationAuthMode \<times> InvocationTransport \<times> string option \<Rightarrow> string"

definition quota_scope_ok :: "quota_hash \<Rightarrow> limit_scope \<Rightarrow> limit_backend \<Rightarrow> bool" where
  "quota_scope_ok h s b \<longleftrightarrow>
     sha256_text (sc_quotaScopeRefHash s) \<and>
     sc_quotaScopeRefHash s = h (sc_tenantId s, sc_provider s, sc_accountRefHash s, sc_authMode s,
       lb_transport b, lb_endpointRefHash b)"

definition backend_ok :: "limit_backend \<Rightarrow> bool" where
  "backend_ok b \<longleftrightarrow> lb_transport b \<noteq> TransMcp \<and> opaque_hash (lb_endpointRefHash b) False"

text \<open>The pattern \<open>^[a-z][a-z0-9._-]{2,95}$\<close>.\<close>

definition window_id_ok :: "string \<Rightarrow> bool" where
  "window_id_ok w \<longleftrightarrow>
     (case w of [] \<Rightarrow> False
      | c # cs \<Rightarrow> lower_letter c \<and> 2 \<le> length cs \<and> length cs \<le> 95
          \<and> list_all (\<lambda>d. lower_letter d \<or> digit_char d \<or> d \<in> set ''._-'') cs)"

definition policy_ok :: "ProviderLimitPolicy \<Rightarrow> bool" where
  "policy_ok p \<longleftrightarrow>
     opaque_ref (lp_policyRef p) \<and> 0 \<le> lp_warnAtRatio p \<and> lp_warnAtRatio p < lp_blockAtRatio p
     \<and> lp_blockAtRatio p \<le> 1 \<and> list_all (\<lambda>(_, v). 0 \<le> v) (lp_minimumRemaining p)"

definition nonneg_or_null :: "rat option \<Rightarrow> bool" where
  "nonneg_or_null x \<longleftrightarrow> (case x of None \<Rightarrow> True | Some v \<Rightarrow> 0 \<le> v)"

definition fl_sub :: "rat \<Rightarrow> rat \<Rightarrow> rat" where
  "fl_sub x y = fl (x - y)"

text \<open>The missing one of three values is computed from the other two.\<close>

definition fill_window :: "rat option \<Rightarrow> rat option \<Rightarrow> rat option \<Rightarrow> rat option \<times> rat option \<times> rat option" where
  "fill_window consumed remaining limit =
     (let remaining = (case (limit, consumed, remaining) of
            (Some l, Some c, None) \<Rightarrow> Some (max 0 (fl_sub l c)) | _ \<Rightarrow> remaining);
          consumed = (case (limit, remaining, consumed) of
            (Some l, Some r, None) \<Rightarrow> Some (max 0 (fl_sub l r)) | _ \<Rightarrow> consumed);
          limit = (case (limit, consumed, remaining) of
            (None, Some c, Some r) \<Rightarrow> Some (fl_add c r) | _ \<Rightarrow> limit)
      in (consumed, remaining, limit))"

definition window_consistent :: "rat option \<Rightarrow> rat option \<Rightarrow> rat option \<Rightarrow> bool" where
  "window_consistent consumed remaining limit \<longleftrightarrow>
     (case (consumed, remaining, limit) of
        (Some c, Some r, Some l) \<Rightarrow>
          \<bar>fl_sub (fl_add c r) l\<bar> \<le> max (fl (1 / 10 ^ 9)) (fl_mult l (fl (1 / 10 ^ 6)))
      | _ \<Rightarrow> True)"

definition normalizeWindow :: "ProviderLimitWindow \<Rightarrow> ProviderLimitWindow option" where
  "normalizeWindow w =
     (case fill_window (w_consumed w) (w_remaining w) (w_limit w) of (consumed, remaining, limit) \<Rightarrow>
        if window_id_ok (w_windowId w)
          \<and> (w_kind w = WWeekModel \<longrightarrow> w_model w \<noteq> None)
          \<and> (case w_model w of None \<Rightarrow> True | Some m \<Rightarrow> canonical_model m)
          \<and> nonneg_or_null (w_consumed w) \<and> nonneg_or_null (w_remaining w) \<and> nonneg_or_null (w_limit w)
          \<and> opaque_hash (rs_displayRefHash (w_reset w)) False
          \<and> (rs_known (w_reset w) \<longleftrightarrow> rs_at (w_reset w) \<noteq> None)
          \<and> window_consistent consumed remaining limit
          \<and> (w_unit w = UPercent \<longrightarrow> limit = None \<or> limit = Some 100)
        then Some (w\<lparr>w_consumed := consumed, w_remaining := remaining, w_limit := limit\<rparr>)
        else None)"

section \<open>Evaluation against a policy\<close>

type_synonym limit_evaluation =
  "InvocationEvidenceState \<times> ProviderLimitDecision \<times> ProviderLimitPressure \<times> ProviderLimitReasonCode"

text \<open>A map built from an array keeps the last entry of a key.\<close>

definition windows_by_id :: "ProviderLimitWindow list \<Rightarrow> string \<Rightarrow> ProviderLimitWindow option" where
  "windows_by_id ws = map_of (rev (map (\<lambda>w. (w_windowId w, w)) ws))"

definition isComplete :: "ProviderLimitWindow \<Rightarrow> bool" where
  "isComplete w \<longleftrightarrow> w_consumed w \<noteq> None \<and> w_remaining w \<noteq> None
     \<and> (case w_limit w of None \<Rightarrow> False | Some l \<Rightarrow> 0 < l)"

definition at_floor :: "ProviderLimitPolicy \<Rightarrow> ProviderLimitUnit \<Rightarrow> rat \<Rightarrow> bool" where
  "at_floor p u remaining \<longleftrightarrow>
     (case map_of (lp_minimumRemaining p) u of None \<Rightarrow> False | Some least \<Rightarrow> remaining \<le> least)"

definition enforces_ratio :: "ProviderLimitPolicy \<Rightarrow> bool" where
  "enforces_ratio p \<longleftrightarrow> lp_ratioEnforcement p \<noteq> Some ObserveOnly"

fun scan_windows ::
    "ProviderLimitPolicy \<Rightarrow> ProviderLimitPressure \<Rightarrow> ProviderLimitWindow list \<Rightarrow> limit_evaluation" where
  "scan_windows p pressure [] =
     (EvKnown, LimitAllow, pressure, if pressure = PBlock then ThresholdObserved else LimitNone)"
| "scan_windows p pressure (w # ws) =
     (if at_floor p (w_unit w) (the (w_remaining w)) then (EvKnown, LimitHold, PBlock, RemainingFloor)
      else (let ratio = fl_div (the (w_consumed w)) (the (w_limit w))
            in if lp_blockAtRatio p \<le> ratio
               then (if enforces_ratio p then (EvKnown, LimitHold, PBlock, ThresholdBlock)
                     else scan_windows p PBlock ws)
               else if lp_warnAtRatio p \<le> ratio \<and> pressure \<noteq> PBlock then scan_windows p PWarn ws
               else scan_windows p pressure ws))"

definition evaluateKnownWindows ::
    "ProviderLimitWindow list \<Rightarrow> string list \<Rightarrow> ProviderLimitPolicy \<Rightarrow> limit_evaluation" where
  "evaluateKnownWindows windows required p =
     (if required = [] \<or> list_ex (\<lambda>i. case windows_by_id windows i of
             None \<Rightarrow> True | Some w \<Rightarrow> \<not> isComplete w) required
      then (EvUnknown, LimitHold, PUnknown, IncompleteWindows)
      else scan_windows p POk (map (\<lambda>i. the (windows_by_id windows i)) required))"

definition evaluation_of :: "ProviderLimitResult \<Rightarrow> limit_evaluation" where
  "evaluation_of r = (lr_state r, lr_decision r, lr_pressure r, lr_reasonCode r)"

definition with_evaluation :: "limit_evaluation \<Rightarrow> ProviderLimitResult \<Rightarrow> ProviderLimitResult" where
  "with_evaluation e r =
     (case e of (s, d, p, c) \<Rightarrow> r\<lparr>lr_state := s, lr_decision := d, lr_pressure := p, lr_reasonCode := c\<rparr>)"

definition held :: "InvocationEvidenceState \<Rightarrow> ProviderLimitReasonCode \<Rightarrow> limit_evaluation" where
  "held s c = (s, LimitHold, PUnknown, c)"

text \<open>What \<open>assertProviderLimitResult\<close> expects of a stored state, decision and reason.\<close>

definition expected_evaluation :: "ProviderLimitResult \<Rightarrow> limit_evaluation" where
  "expected_evaluation r =
     (if lr_state r = EvStale then held EvStale EvidenceExpired
      else if lr_state r = EvKnown \<and> src_authority (lr_source r) = Authoritative
      then evaluateKnownWindows (lr_windows r) (lr_requiredWindowIds r) (lr_policy r)
      else if lr_state r = EvUnavailable then held EvUnavailable SourceUnavailable
      else held EvUnknown (if lr_reasonCode r = IncompleteWindows then IncompleteWindows
             else if lr_reasonCode r = EvidenceNotYetValid then EvidenceNotYetValid else SourceUnknown))"

definition known_resets :: "ProviderLimitResult \<Rightarrow> int list" where
  "known_resets r = map (\<lambda>w. the (rs_at (w_reset w)))
     (filter (\<lambda>w. w_windowId w \<in> set (lr_requiredWindowIds r) \<and> rs_known (w_reset w)) (lr_windows r))"

definition source_ok :: "limit_source \<Rightarrow> bool" where
  "source_ok s \<longleftrightarrow>
     (case src_operatorApprovalRef s of None \<Rightarrow> True | Some a \<Rightarrow> opaque_ref a)
     \<and> (src_kind s = SrcOperator \<and> src_authority s = Authoritative \<longrightarrow> src_operatorApprovalRef s \<noteq> None)
     \<and> (src_kind s \<noteq> SrcOperator \<longrightarrow> src_operatorApprovalRef s = None)
     \<and> (src_kind s = SrcTranscript \<longrightarrow> src_authority s = Advisory)
     \<and> opaque_ref (src_evidenceRef s) \<and> list_all opaque_ref (src_incorporated s)
     \<and> distinct (src_incorporated s) \<and> src_fetchedAt s < src_expiresAt s"

definition known_scope_ok :: "InvocationEvidenceState \<Rightarrow> limit_scope \<Rightarrow> limit_backend \<Rightarrow> bool" where
  "known_scope_ok state s b \<longleftrightarrow>
     (state = EvKnown \<longrightarrow> sc_authMode s \<noteq> AuthUnknown \<and> lb_executionBackend b \<noteq> BackUnknown
        \<and> (lb_transport b \<noteq> TransCli \<longrightarrow> lb_endpointRefHash b \<noteq> None))"

definition assertProviderLimitResult :: "quota_hash \<Rightarrow> ProviderLimitResult \<Rightarrow> bool" where
  "assertProviderLimitResult h r \<longleftrightarrow>
     has_identity (lr_limitResultId r) \<and> has_identity (sc_tenantId (lr_scope r))
     \<and> has_identity (lr_projectId r) \<and> has_identity (lr_idempotencyKey r)
     \<and> canonical_provider (sc_provider (lr_scope r)) \<and> canonical_text (sc_provider (lr_scope r))
     \<and> opaque_hash (sc_accountRefHash (lr_scope r)) (sc_authMode (lr_scope r) \<noteq> AuthLocal)
     \<and> backend_ok (lr_backend r) \<and> quota_scope_ok h (lr_scope r) (lr_backend r)
     \<and> known_scope_ok (lr_state r) (lr_scope r) (lr_backend r)
     \<and> source_ok (lr_source r) \<and> list_all opaque_ref (lr_evidenceRefs r) \<and> policy_ok (lr_policy r)
     \<and> distinct (lr_requiredWindowIds r) \<and> list_all window_id_ok (lr_requiredWindowIds r)
     \<and> list_all (\<lambda>w. normalizeWindow w = Some w) (lr_windows r)
     \<and> distinct (map w_windowId (lr_windows r))
     \<and> list_all (\<lambda>t. src_expiresAt (lr_source r) \<le> t) (known_resets r)
     \<and> evaluation_of r = expected_evaluation r"

definition applyProviderLimitPolicy ::
    "quota_hash \<Rightarrow> ProviderLimitResult \<Rightarrow> ProviderLimitPolicy \<Rightarrow> ProviderLimitResult option" where
  "applyProviderLimitPolicy h r p =
     (if \<not> assertProviderLimitResult h r \<or> \<not> policy_ok p then None
      else if lr_state r \<noteq> EvKnown \<or> src_authority (lr_source r) \<noteq> Authoritative then Some (r\<lparr>lr_policy := p\<rparr>)
      else (let projected = with_evaluation
                  (evaluateKnownWindows (lr_windows r) (lr_requiredWindowIds r) p) (r\<lparr>lr_policy := p\<rparr>)
            in if assertProviderLimitResult h projected then Some projected else None))"

definition materializeProviderLimitResult :: "quota_hash \<Rightarrow> ProviderLimitResult \<Rightarrow> int \<Rightarrow> ProviderLimitResult option" where
  "materializeProviderLimitResult h r now =
     (if \<not> assertProviderLimitResult h r then None
      else if now < src_fetchedAt (lr_source r) then Some (with_evaluation (held EvUnknown EvidenceNotYetValid) r)
      else if now < src_expiresAt (lr_source r) then Some r
      else Some (with_evaluation (held EvStale EvidenceExpired) r))"

record LimitEvidence =
  le_state :: InvocationEvidenceState
  le_limited :: bool
  le_evidenceRefs :: "string list"

definition toLimitEvidence :: "quota_hash \<Rightarrow> ProviderLimitResult \<Rightarrow> int \<Rightarrow> LimitEvidence option" where
  "toLimitEvidence h r now =
     map_option (\<lambda>fresh. \<lparr>le_state = lr_state fresh,
         le_limited = (lr_state fresh = EvKnown \<and> lr_decision fresh = LimitHold),
         le_evidenceRefs = (''provider-limit:'' @ lr_limitResultId r) # lr_evidenceRefs r\<rparr>)
       (materializeProviderLimitResult h r now)"

text \<open>
  An observation, before it is evaluated. The checks that \<open>createProviderLimitResult\<close> makes on
  it are repeated on the result, apart from the tests of its own state and of repeated ids.
\<close>

record ProviderLimitObservation =
  ob_idempotencyKey :: string
  ob_projectId :: string
  ob_scope :: limit_scope
  ob_backend :: limit_backend
  ob_state :: InvocationEvidenceState
  ob_requiredWindowIds :: "string list"
  ob_windows :: "ProviderLimitWindow list"
  ob_source :: limit_source
  ob_evidenceRefs :: "string list option"

definition observed_evaluation ::
    "ProviderLimitObservation \<Rightarrow> ProviderLimitWindow list \<Rightarrow> ProviderLimitPolicy \<Rightarrow> limit_evaluation" where
  "observed_evaluation ob windows p =
     (if ob_state ob = EvKnown \<and> src_authority (ob_source ob) = Authoritative
      then evaluateKnownWindows windows (ob_requiredWindowIds ob) p
      else if ob_state ob = EvUnavailable then held EvUnavailable SourceUnavailable
      else held EvUnknown SourceUnknown)"

definition createProviderLimitResult ::
    "quota_hash \<Rightarrow> string \<Rightarrow> ProviderLimitObservation \<Rightarrow> ProviderLimitPolicy \<Rightarrow> ProviderLimitResult option" where
  "createProviderLimitResult h newId ob p =
     (let normalized = map normalizeWindow (ob_windows ob)
      in if None \<in> set normalized \<or> \<not> distinct (ob_requiredWindowIds ob)
           \<or> \<not> known_scope_ok (ob_state ob) (ob_scope ob) (ob_backend ob) then None
         else
           (let windows = map the normalized;
                result = with_evaluation (observed_evaluation ob windows p)
                  \<lparr>lr_limitResultId = newId, lr_idempotencyKey = ob_idempotencyKey ob,
                   lr_projectId = ob_projectId ob, lr_scope = ob_scope ob, lr_backend = ob_backend ob,
                   lr_state = ob_state ob, lr_decision = LimitHold, lr_pressure = PUnknown,
                   lr_reasonCode = LimitNone, lr_requiredWindowIds = ob_requiredWindowIds ob,
                   lr_windows = windows, lr_policy = p, lr_source = ob_source ob,
                   lr_evidenceRefs = (case ob_evidenceRefs ob of None \<Rightarrow> [] | Some rs \<Rightarrow> rs)\<rparr>
            in if assertProviderLimitResult h result then Some result else None))"

end
