(* ===== verification/Provider_Concurrency.thy ===== *)
theory Provider_Concurrency
  imports Exec_Observation_Correct Quota_Truth
begin

text \<open>
  \<open>src/core/provider-concurrency-capability.ts\<close>, the ceiling that configuration, provider and
  host allow together; the projection of observed intervals onto it in
  \<open>src/core/provider-limit-admission.ts\<close>; and its reader,
  \<open>src/core/provider-concurrency-runtime-reader.ts\<close>.

  Timestamps are milliseconds, so the checks of their format have no counterpart. A ceiling is a
  finite number. What throws a TypeError is \<open>None\<close>.
\<close>

section \<open>The capability\<close>

datatype ProviderConcurrencyDecision = ConcAdmitted | ConcDegraded | ConcHold

datatype ConcurrencyReason =
    CrAdmitted | ConfiguredCeilingLimited | ProviderCapacityLimited | HostCeilingLimited
  | ProviderCapacityUnknown | ProviderCapacityExpired | ProviderCapacityNotYetValid
  | AuthorityScopeMismatch

record ProviderConcurrencyScope =
  cs_tenantRef :: string
  cs_principalRef :: string
  cs_authModeClass :: string

record ConcurrencyFreshness =
  cf_observedAt :: int
  cf_expiresAt :: int

record ConcurrencyCeiling =
  cc_scope :: ProviderConcurrencyScope
  cc_ceiling :: rat
  cc_evidenceRefs :: "string list"

text \<open>A known capacity has a ceiling, an unknown one has none.\<close>

record ProviderCapacity =
  pc_ceiling :: "rat option"
  pc_scope :: ProviderConcurrencyScope
  pc_freshness :: ConcurrencyFreshness
  pc_evidenceRefs :: "string list"

record ConcurrencyCapabilityRequest =
  cq_evaluatedAt :: int
  cq_configured :: ConcurrencyCeiling
  cq_provider :: ProviderCapacity
  cq_host :: ConcurrencyCeiling

record ConcurrencyCapabilityEvidence =
  ce_decision :: ProviderConcurrencyDecision
  ce_reasonCodes :: "ConcurrencyReason list"
  ce_scope :: ProviderConcurrencyScope
  ce_configuredCeiling :: rat
  ce_providerCapacity :: "rat option"
  ce_hostCeiling :: rat
  ce_effectiveCeiling :: "rat option"
  ce_freshness :: ConcurrencyFreshness
  ce_evidenceRefs :: "string list"

definition MAX_SAFE_INTEGER :: int where
  "MAX_SAFE_INTEGER = 2 ^ 53 - 1"

definition isSafeInteger :: "rat \<Rightarrow> bool" where
  "isSafeInteger x \<longleftrightarrow> of_int \<lfloor>x\<rfloor> = x \<and> \<bar>\<lfloor>x\<rfloor>\<bar> \<le> MAX_SAFE_INTEGER"

definition requirePositiveCeiling :: "rat \<Rightarrow> bool" where
  "requirePositiveCeiling x \<longleftrightarrow> isSafeInteger x \<and> 1 \<le> x"

definition validateScope :: "ProviderConcurrencyScope \<Rightarrow> bool" where
  "validateScope s \<longleftrightarrow> canonical_text (cs_tenantRef s) \<and> canonical_text (cs_principalRef s)
     \<and> canonical_text (cs_authModeClass s)"

definition validateEvidenceRefs :: "string list \<Rightarrow> bool" where
  "validateEvidenceRefs refs \<longleftrightarrow> refs \<noteq> [] \<and> list_all canonical_text refs"

definition validateFreshness :: "ConcurrencyFreshness \<Rightarrow> bool" where
  "validateFreshness f \<longleftrightarrow> cf_observedAt f \<le> cf_expiresAt f"

definition scopesMatch :: "ProviderConcurrencyScope \<Rightarrow> ProviderConcurrencyScope \<Rightarrow> bool" where
  "scopesMatch a b \<longleftrightarrow> cs_tenantRef a = cs_tenantRef b \<and> cs_principalRef a = cs_principalRef b
     \<and> cs_authModeClass a = cs_authModeClass b"

definition capability_evidence ::
    "ConcurrencyCapabilityRequest \<Rightarrow> ProviderConcurrencyDecision \<Rightarrow> ConcurrencyReason list \<Rightarrow> rat option
     \<Rightarrow> ConcurrencyCapabilityEvidence" where
  "capability_evidence rq decision reasons effective =
     \<lparr>ce_decision = decision, ce_reasonCodes = reasons, ce_scope = cc_scope (cq_configured rq),
      ce_configuredCeiling = cc_ceiling (cq_configured rq), ce_providerCapacity = pc_ceiling (cq_provider rq),
      ce_hostCeiling = cc_ceiling (cq_host rq), ce_effectiveCeiling = effective,
      ce_freshness = pc_freshness (cq_provider rq),
      ce_evidenceRefs = cc_evidenceRefs (cq_configured rq) @ pc_evidenceRefs (cq_provider rq)
        @ cc_evidenceRefs (cq_host rq)\<rparr>"

definition request_valid :: "ConcurrencyCapabilityRequest \<Rightarrow> bool" where
  "request_valid rq \<longleftrightarrow>
     validateScope (cc_scope (cq_configured rq)) \<and> validateScope (pc_scope (cq_provider rq))
     \<and> validateScope (cc_scope (cq_host rq)) \<and> requirePositiveCeiling (cc_ceiling (cq_configured rq))
     \<and> requirePositiveCeiling (cc_ceiling (cq_host rq)) \<and> validateEvidenceRefs (cc_evidenceRefs (cq_configured rq))
     \<and> validateEvidenceRefs (pc_evidenceRefs (cq_provider rq)) \<and> validateEvidenceRefs (cc_evidenceRefs (cq_host rq))
     \<and> validateFreshness (pc_freshness (cq_provider rq))"

definition limiting_reasons :: "rat \<Rightarrow> rat \<Rightarrow> rat \<Rightarrow> rat \<Rightarrow> ConcurrencyReason list" where
  "limiting_reasons configured provider host effective =
     (if provider < configured \<and> provider = effective then [ProviderCapacityLimited] else [])
     @ (if host < configured \<and> host = effective then [HostCeilingLimited] else [])"

definition resolveProviderConcurrencyCapability ::
    "ConcurrencyCapabilityRequest \<Rightarrow> ConcurrencyCapabilityEvidence option" where
  "resolveProviderConcurrencyCapability rq =
     (let hold = (\<lambda>reason. Some (capability_evidence rq ConcHold [reason] None));
          freshness = pc_freshness (cq_provider rq)
      in if \<not> request_valid rq then None
         else if \<not> scopesMatch (cc_scope (cq_configured rq)) (pc_scope (cq_provider rq))
           \<or> \<not> scopesMatch (cc_scope (cq_configured rq)) (cc_scope (cq_host rq)) then hold AuthorityScopeMismatch
         else (case pc_ceiling (cq_provider rq) of
             None \<Rightarrow> hold ProviderCapacityUnknown
           | Some provider \<Rightarrow>
               if \<not> requirePositiveCeiling provider then None
               else if cq_evaluatedAt rq < cf_observedAt freshness then hold ProviderCapacityNotYetValid
               else if cf_expiresAt freshness < cq_evaluatedAt rq then hold ProviderCapacityExpired
               else (let configured = cc_ceiling (cq_configured rq); host = cc_ceiling (cq_host rq);
                         effective = min configured (min provider host);
                         reasons = limiting_reasons configured provider host effective
                     in Some (if reasons = [] then capability_evidence rq ConcAdmitted [CrAdmitted] (Some effective)
                              else capability_evidence rq ConcDegraded reasons (Some effective)))))"

section \<open>Attained concurrency\<close>

record RuntimeProjection =
  rj_principal :: string
  rj_admission :: ProviderConcurrencyDecision
  rj_admittedCeiling :: "rat option"
  rj_currentAttained :: nat
  rj_peakAttained :: int
  rj_unresolvedOpenIntervals :: rat
  rj_allObserved :: bool
  rj_evidenceRefs :: "string list"

text \<open>An event is a time and a change of the number of running executions.\<close>

type_synonym concurrency_event = "int \<times> int"

definition interval_events :: "ExecutionRow \<Rightarrow> concurrency_event list" where
  "interval_events r = (eo_observedAt (row_start r), 1)
     # (case row_end r of None \<Rightarrow> [] | Some e \<Rightarrow> [(eo_observedAt e, -1)])"

definition compare_events :: "concurrency_event \<Rightarrow> concurrency_event \<Rightarrow> int" where
  "compare_events a b = js_or (compareNumber (fst a) (fst b)) (compareNumber (snd b) (snd a))"

definition attain :: "int \<times> int \<Rightarrow> concurrency_event \<Rightarrow> int \<times> int" where
  "attain acc e = (let attained = fst acc + snd e in (attained, max (snd acc) attained))"

definition peak_of :: "concurrency_event list \<Rightarrow> int" where
  "peak_of es = snd (foldl attain (0, 0) (js_sort compare_events es))"

datatype projection_error = ProjectionTypeError | ProjectionIdentityMismatch

definition peakAttainedFromIntervals :: "string \<Rightarrow> ExecutionRow list \<Rightarrow> projection_error + int" where
  "peakAttainedFromIntervals pd intervals =
     (if list_ex (\<lambda>r. eo_principal (row_start r) \<noteq> pd) intervals then Inl ProjectionIdentityMismatch
      else Inr (peak_of (concat (map interval_events intervals))))"

definition projectProviderConcurrencyRuntime ::
    "string \<Rightarrow> ConcurrencyCapabilityEvidence option \<Rightarrow> ExecutionRow list \<Rightarrow> rat option \<Rightarrow> bool option
     \<Rightarrow> projection_error + RuntimeProjection" where
  "projectProviderConcurrencyRuntime pd capability intervals unresolved all_observed =
     (let open_elsewhere = (case unresolved of None \<Rightarrow> 0 | Some n \<Rightarrow> n);
          observed = (case all_observed of None \<Rightarrow> True | Some b \<Rightarrow> b);
          refs = (case capability of None \<Rightarrow> [] | Some c \<Rightarrow> ce_evidenceRefs c)
      in if \<not> canonical_text pd \<or> \<not> isSafeInteger open_elsewhere \<or> open_elsewhere < 0
         then Inl ProjectionTypeError
         else (case peakAttainedFromIntervals pd intervals of
             Inl e \<Rightarrow> Inl e
           | Inr peak \<Rightarrow>
             (let projection = (\<lambda>decision ceiling.
                    \<lparr>rj_principal = pd, rj_admission = decision, rj_admittedCeiling = ceiling,
                     rj_currentAttained = length (filter row_open intervals), rj_peakAttained = peak,
                     rj_unresolvedOpenIntervals = open_elsewhere, rj_allObserved = observed,
                     rj_evidenceRefs = refs\<rparr>)
              in Inr (case capability of
                   None \<Rightarrow> projection ConcHold None
                 | Some c \<Rightarrow>
                     if ce_decision c = ConcHold \<or> ce_effectiveCeiling c = None then projection ConcHold None
                     else projection (ce_decision c) (ce_effectiveCeiling c)))))"

section \<open>The reader\<close>

text \<open>Which intervals belong to the current run: all of them, or the exact attempts of its tasks.\<close>

definition isCurrent ::
    "string list option \<Rightarrow> (string, string list) js_map option \<Rightarrow> ExecutionRow \<Rightarrow> bool" where
  "isCurrent tasks attempts r =
     (case tasks of
        None \<Rightarrow> True
      | Some ts \<Rightarrow> eo_taskId (row_start r) \<in> set ts
          \<and> (case attempts of
               None \<Rightarrow> True
             | Some m \<Rightarrow> (case map_of m (eo_taskId (row_start r)) of
                 None \<Rightarrow> True | Some exact \<Rightarrow> eo_attemptId (row_start r) \<in> set exact)))"

fun sequence_results :: "('e + 'a) list \<Rightarrow> 'e + 'a list" where
  "sequence_results [] = Inr []"
| "sequence_results (x # xs) =
     (case x of
        Inl e \<Rightarrow> Inl e
      | Inr a \<Rightarrow> (case sequence_results xs of Inl e \<Rightarrow> Inl e | Inr as \<Rightarrow> Inr (a # as)))"

definition read_principal ::
    "observation_store \<Rightarrow> string list option \<Rightarrow> (string, string list) js_map option \<Rightarrow> string
     \<Rightarrow> projection_error + RuntimeProjection" where
  "read_principal s tasks attempts pd =
     (let active = filter (\<lambda>r. \<not> row_retired r) (listIntervals s pd);
          elsewhere = (if tasks = None then 0
            else length (filter (\<lambda>r. row_open r \<and> \<not> isCurrent tasks attempts r) active))
      in projectProviderConcurrencyRuntime pd None (filter (isCurrent tasks attempts) active)
           (Some (of_nat elsewhere)) (Some (tasks = None)))"

text \<open>\<open>None\<close> where the database file does not exist.\<close>

definition readProviderConcurrencyRuntime ::
    "observation_store option \<Rightarrow> string list option \<Rightarrow> (string, string list) js_map option
     \<Rightarrow> projection_error + RuntimeProjection list" where
  "readProviderConcurrencyRuntime store tasks attempts =
     (case store of
        None \<Rightarrow> Inr []
      | Some s \<Rightarrow> sequence_results (map (read_principal s tasks attempts)
          (the (listProviderPrincipalDigests s 1000))))"

end
