(* ===== verification/Concurrency_Correct.thy ===== *)
theory Concurrency_Correct
  imports Provider_Concurrency
begin

text \<open>
  The reported peak is the largest number of executions that ran at one time, the reader never
  fails on a store of canonical principals, and an admitted ceiling is the least of three.
\<close>

section \<open>The sweep over the events\<close>

interpretation compare_events: js_comparator compare_events
  by unfold_locales (auto simp: compare_events_def js_or_def compareNumber_def split: if_splits)

definition event_before :: "concurrency_event \<Rightarrow> concurrency_event \<Rightarrow> bool" where
  "event_before a b \<longleftrightarrow> fst a < fst b \<or> fst a = fst b \<and> snd b \<le> snd a"

lemma compare_events_le: "compare_events a b \<le> 0 \<longleftrightarrow> event_before a b"
  by (auto simp: compare_events_def js_or_def compareNumber_def event_before_def)

lemma peak_le:
  "snd (foldl attain (n, k) es) \<le> m
     \<longleftrightarrow> k \<le> m \<and> (\<forall>ys. prefix ys es \<and> ys \<noteq> [] \<longrightarrow> n + sum_list (map snd ys) \<le> m)"
proof (induction es arbitrary: n k)
  case (Cons e es)
  have "(\<forall>ys. prefix ys (e # es) \<and> ys \<noteq> [] \<longrightarrow> n + sum_list (map snd ys) \<le> m)
      \<longleftrightarrow> n + snd e \<le> m \<and> (\<forall>ys. prefix ys es \<and> ys \<noteq> [] \<longrightarrow> n + snd e + sum_list (map snd ys) \<le> m)"
    (is "?L \<longleftrightarrow> ?R")
  proof
    assume L: ?L
    from L [rule_format, of "[e]"] have "n + snd e \<le> m" by simp
    moreover have "n + snd e + sum_list (map snd ys) \<le> m" if "prefix ys es" for ys
      using L [rule_format, of "e # ys"] that by (simp add: add.assoc)
    ultimately show ?R by blast
  next
    assume R: ?R
    show ?L
    proof (intro allI impI)
      fix ys
      assume "prefix ys (e # es) \<and> ys \<noteq> []"
      then obtain zs where "ys = e # zs" "prefix zs es" by (cases ys) auto
      with R show "n + sum_list (map snd ys) \<le> m" by (cases "zs = []") (auto simp: add.assoc)
    qed
  qed
  with Cons.IH show ?case by (auto simp: attain_def Let_def)
qed simp

text \<open>The events that have happened at a time, the ends of that time excepted.\<close>

definition happened :: "int \<Rightarrow> concurrency_event \<Rightarrow> bool" where
  "happened t e \<longleftrightarrow> fst e < t \<or> fst e = t \<and> snd e = 1"

definition running :: "ExecutionRow list \<Rightarrow> int \<Rightarrow> nat" where
  "running rs t = length (filter (\<lambda>r. eo_observedAt (row_start r) \<le> t
     \<and> (case row_end r of None \<Rightarrow> True | Some e \<Rightarrow> t \<le> eo_observedAt e)) rs)"

definition timely :: "ExecutionRow \<Rightarrow> bool" where
  "timely r \<longleftrightarrow> (case row_end r of None \<Rightarrow> True | Some e \<Rightarrow> eo_observedAt (row_start r) \<le> eo_observedAt e)"

lemma happened_running:
  "list_all timely rs \<Longrightarrow>
   sum_list (map snd (filter (happened t) (concat (map interval_events rs)))) = int (running rs t)"
  by (induction rs)
    (auto simp: interval_events_def happened_def running_def timely_def split: option.splits)

lemma event_deltas: "e \<in> set (concat (map interval_events rs)) \<Longrightarrow> snd e = 1 \<or> snd e = -1"
  by (auto simp: interval_events_def split: option.splits)

lemma takeWhile_filter:
  "sorted_wrt R xs \<Longrightarrow> (\<And>a b. a \<in> set xs \<Longrightarrow> R a b \<Longrightarrow> P b \<Longrightarrow> P a) \<Longrightarrow> takeWhile P xs = filter P xs"
proof (induction xs)
  case (Cons x xs)
  have "filter P xs = []" if "\<not> P x" using that Cons.prems by (auto simp: filter_empty_conv)
  with Cons show ?case by auto
qed simp

lemma sum_filter_split: "sum_list (map f xs) = sum_list (map f (filter P xs)) + (sum_list (map f (filter (\<lambda>x. \<not> P x) xs)) :: int)"
  by (induction xs) simp_all

lemma sum_list_nonpos: "(\<And>x. x \<in> set xs \<Longrightarrow> f x \<le> (0 :: int)) \<Longrightarrow> sum_list (map f xs) \<le> 0"
  by (induction xs) (auto simp: add_nonpos_nonpos)

text \<open>No prefix of the sorted events exceeds what has happened at the time of its last event.\<close>

lemma prefix_happened:
  assumes "sorted_wrt event_before (ys @ zs)" "ys \<noteq> []" "\<And>e. e \<in> set (ys @ zs) \<Longrightarrow> snd e = 1 \<or> snd e = -1"
  shows "sum_list (map snd ys) \<le> sum_list (map snd (filter (happened (fst (last ys))) (ys @ zs)))"
proof -
  let ?t = "fst (last ys)"
  have le: "fst e \<le> ?t" if "e \<in> set ys" for e
  proof (cases "e = last ys")
    case False
    from assms(2) have ys: "ys = butlast ys @ [last ys]" by simp
    with that False have "e \<in> set (butlast ys)" by (metis in_set_butlast_appendI rotate1.simps(2) set_ConsD set_rotate1)
    moreover have "sorted_wrt event_before (butlast ys @ [last ys])" using assms(1) ys by (simp add: sorted_wrt_append)
    ultimately have "event_before e (last ys)" by (simp add: sorted_wrt_append)
    then show ?thesis by (auto simp: event_before_def)
  qed simp
  have "sum_list (map snd (filter (\<lambda>e. \<not> happened ?t e) ys)) \<le> 0"
    using le assms(3) by (intro sum_list_nonpos) (fastforce simp: happened_def)
  moreover have "0 \<le> sum_list (map snd (filter (happened ?t) zs))"
  proof (rule sum_list_nonneg)
    fix x
    assume "x \<in> set (map snd (filter (happened ?t) zs))"
    then obtain e where e: "x = snd e" "e \<in> set zs" "happened ?t e" by auto
    with assms(1,2) have "event_before (last ys) e" by (simp add: sorted_wrt_append)
    with e show "0 \<le> x" by (auto simp: happened_def event_before_def)
  qed
  ultimately show ?thesis using sum_filter_split [of snd ys "happened ?t"] by simp
qed

lemma length_filter_imp: "(\<And>x. x \<in> set xs \<Longrightarrow> P x \<Longrightarrow> Q x) \<Longrightarrow> length (filter P xs) \<le> length (filter Q xs)"
  by (induction xs) (auto simp: le_Suc_eq)

text \<open>What runs at a time ran when the last of it started.\<close>

lemma running_at_start:
  "running rs t = 0 \<or> (\<exists>r \<in> set rs. running rs t \<le> running rs (eo_observedAt (row_start r)))"
proof -
  let ?P = "\<lambda>t r. eo_observedAt (row_start r) \<le> t
      \<and> (case row_end r of None \<Rightarrow> True | Some e \<Rightarrow> t \<le> eo_observedAt e)"
  let ?R = "filter (?P t) rs"
  show ?thesis
  proof (cases "?R = []")
    case True
    then show ?thesis by (simp add: running_def)
  next
    case False
    define m where "m = Max ((\<lambda>r. eo_observedAt (row_start r)) ` set ?R)"
    have "m \<in> (\<lambda>r. eo_observedAt (row_start r)) ` set ?R" unfolding m_def by (rule Max_in) (use False in \<open>simp_all del: set_filter\<close>)
    then obtain r where r: "r \<in> set rs" "?P t r" "m = eo_observedAt (row_start r)" by auto
    have "running rs t \<le> running rs m" unfolding running_def
    proof (rule length_filter_imp)
      fix x
      assume x: "x \<in> set rs" "?P t x"
      then have "eo_observedAt (row_start x) \<le> m" unfolding m_def by (intro Max_ge) auto
      with x r show "?P m x" by (auto split: option.splits)
    qed
    with r show ?thesis by auto
  qed
qed

lemma peak_of_le:
  assumes "list_all timely rs"
  shows "peak_of (concat (map interval_events rs)) \<le> m
    \<longleftrightarrow> 0 \<le> m \<and> (\<forall>r \<in> set rs. int (running rs (eo_observedAt (row_start r))) \<le> m)"
proof -
  let ?evs = "concat (map interval_events rs)"
  define es where "es = js_sort compare_events ?evs"
  have es: "mset es = mset ?evs" "set es = set ?evs" by (simp_all add: es_def del: set_concat)
  have sorted: "sorted_wrt event_before es"
    using compare_events.sorted_js_sort [of ?evs] by (simp add: es_def compare_events_le)
  have sum: "sum_list (map snd (filter (happened t) es)) = int (running rs t)" for t
    using happened_running [OF assms, of t] es(1) by (metis mset_filter mset_map sum_mset_sum_list)
  show ?thesis
  proof
    assume m: "peak_of ?evs \<le> m"
    then have le: "0 \<le> m" "\<And>ys. prefix ys es \<Longrightarrow> ys \<noteq> [] \<Longrightarrow> sum_list (map snd ys) \<le> m"
      unfolding peak_of_def es_def [symmetric] peak_le by auto
    have "int (running rs (eo_observedAt (row_start r))) \<le> m" if r: "r \<in> set rs" for r
    proof -
      let ?t = "eo_observedAt (row_start r)"
      have "takeWhile (happened ?t) es = filter (happened ?t) es"
        by (rule takeWhile_filter [OF sorted])
          (use event_deltas [of _ rs] es(2) in \<open>fastforce simp: event_before_def happened_def\<close>)
      then have "prefix (filter (happened ?t) es) es" by (metis takeWhile_is_prefix)
      moreover have "(?t, 1) \<in> set ?evs" using r by (auto simp: interval_events_def)
      then have "filter (happened ?t) es \<noteq> []" unfolding es(2) [symmetric] by (force simp: happened_def filter_empty_conv)
      ultimately show ?thesis using le(2) sum by metis
    qed
    with le(1) show "0 \<le> m \<and> (\<forall>r \<in> set rs. int (running rs (eo_observedAt (row_start r))) \<le> m)" by blast
  next
    assume m: "0 \<le> m \<and> (\<forall>r \<in> set rs. int (running rs (eo_observedAt (row_start r))) \<le> m)"
    have "sum_list (map snd ys) \<le> m" if ys: "prefix ys es" "ys \<noteq> []" for ys
    proof -
      from ys(1) obtain zs where zs: "es = ys @ zs" by (auto simp: prefix_def)
      have "sum_list (map snd ys) \<le> int (running rs (fst (last ys)))"
        using prefix_happened [of ys zs] sorted ys(2) event_deltas es(2) sum unfolding zs by metis
      also have "\<dots> \<le> m" using running_at_start [of rs "fst (last ys)"] m by (elim disjE bexE) force+
      finally show ?thesis .
    qed
    with m show "peak_of ?evs \<le> m" unfolding peak_of_def es_def [symmetric] peak_le by auto
  qed
qed

text \<open>
  C27 When no interval ends before it starts, the reported peak is the largest number of the
  intervals that ran at one time, the ends included: no time has more, and, unless there are no
  intervals at all, the start of one of them has exactly as many.
\<close>

theorem peak_exact:
  assumes "list_all timely rs" "list_all (\<lambda>r. eo_principal (row_start r) = pd) rs"
  shows "\<exists>n. peakAttainedFromIntervals pd rs = Inr (int n) \<and> (\<forall>t. running rs t \<le> n)
    \<and> (if rs = [] then n = 0 else \<exists>r \<in> set rs. running rs (eo_observedAt (row_start r)) = n)"
proof -
  let ?starts = "(\<lambda>r. running rs (eo_observedAt (row_start r))) ` set rs"
  define n where "n = Max (insert 0 ?starts)"
  have n: "x \<le> n" if "x \<in> insert 0 ?starts" for x unfolding n_def by (rule Max_ge) (use that in auto)
  have "n \<in> insert 0 ?starts" unfolding n_def by (rule Max_in) auto
  moreover have "0 < running rs (eo_observedAt (row_start r))" if "r \<in> set rs" for r
    using that assms(1) by (auto simp: running_def timely_def list_all_iff filter_empty_conv split: option.splits)
  ultimately have ex: "if rs = [] then n = 0 else \<exists>r \<in> set rs. running rs (eo_observedAt (row_start r)) = n"
    using n by (cases "rs = []") (auto simp: neq_Nil_conv)
  have "peak_of (concat (map interval_events rs)) \<le> m \<longleftrightarrow> int n \<le> m" for m
  proof (cases "rs = []")
    case False
    with ex obtain r where r: "r \<in> set rs" "running rs (eo_observedAt (row_start r)) = n" by auto
    have "running rs (eo_observedAt (row_start q)) \<le> n" if "q \<in> set rs" for q using n that by blast
    with r show ?thesis unfolding peak_of_le [OF assms(1)] by (metis of_nat_0_le_iff of_nat_le_iff order_trans)
  qed (use ex in \<open>simp add: peak_of_def\<close>)
  then have "peak_of (concat (map interval_events rs)) = int n" by (metis order_antisym order_refl)
  moreover have "running rs t \<le> n" for t
    using running_at_start [of rs t]
  proof
    assume "\<exists>r \<in> set rs. running rs t \<le> running rs (eo_observedAt (row_start r))"
    then obtain r where "r \<in> set rs" "running rs t \<le> running rs (eo_observedAt (row_start r))" by blast
    with n [of "running rs (eo_observedAt (row_start r))"] show ?thesis by simp
  qed simp
  moreover have "\<not> list_ex (\<lambda>r. eo_principal (row_start r) \<noteq> pd) rs" using assms(2) by (auto simp: list_all_iff list_ex_iff)
  ultimately show ?thesis using ex by (intro exI [of _ n]) (simp add: peakAttainedFromIntervals_def)
qed

section \<open>The reader\<close>

lemma sequence_results_Inr:
  "(\<And>x. x \<in> set xs \<Longrightarrow> \<exists>a. f x = Inr a) \<Longrightarrow> \<exists>as. sequence_results (map f xs) = Inr as \<and> map Inr as = map f xs"
proof (induction xs)
  case (Cons x xs)
  from Cons.prems obtain a where "f x = Inr a" by force
  moreover from Cons obtain as where "sequence_results (map f xs) = Inr as" "map Inr as = map f xs" by force
  ultimately show ?case by simp
qed simp

lemma read_principal_exact:
  assumes "canonical_text pd" "int (length (ob_rows s)) \<le> MAX_SAFE_INTEGER"
  shows "\<exists>j. read_principal s tasks attempts pd = Inr j \<and> rj_principal j = pd \<and> rj_admission j = ConcHold
    \<and> rj_admittedCeiling j = None
    \<and> rj_currentAttained j = length (filter (\<lambda>r. row_active r \<and> eo_principal (row_start r) = pd
        \<and> isCurrent tasks attempts r) (ob_rows s))
    \<and> rj_unresolvedOpenIntervals j = of_nat (length (filter (\<lambda>r. row_active r \<and> eo_principal (row_start r) = pd
        \<and> \<not> isCurrent tasks attempts r) (ob_rows s)))"
proof -
  let ?active = "filter (\<lambda>r. \<not> row_retired r) (listIntervals s pd)"
  have count: "length (filter P ?active)
      = length (filter (\<lambda>r. \<not> row_retired r \<and> eo_principal (row_start r) = pd \<and> P r) (ob_rows s))" for P
  proof -
    have "mset (listIntervals s pd) = mset (filter (\<lambda>r. eo_principal (row_start r) = pd) (ob_rows s))"
      by (simp add: listIntervals_def)
    from length_filter_mset [OF this, of "\<lambda>r. \<not> row_retired r \<and> P r"] show ?thesis
      by (simp add: conj_ac)
  qed
  have principals: "\<not> list_ex (\<lambda>r. eo_principal (row_start r) \<noteq> pd) (filter (isCurrent tasks attempts) ?active)"
    by (auto simp: listIntervals_def list_ex_iff)
  have attained: "length (filter row_open (filter (isCurrent tasks attempts) ?active))
      = length (filter (\<lambda>r. row_active r \<and> eo_principal (row_start r) = pd \<and> isCurrent tasks attempts r) (ob_rows s))"
    using count [of "\<lambda>r. row_open r \<and> isCurrent tasks attempts r"]
    by (simp add: row_open_def row_active_def conj_ac)
  have elsewhere: "(if tasks = None then 0 else length (filter (\<lambda>r. row_open r \<and> \<not> isCurrent tasks attempts r) ?active))
      = length (filter (\<lambda>r. row_active r \<and> eo_principal (row_start r) = pd \<and> \<not> isCurrent tasks attempts r) (ob_rows s))"
    (is "?e = ?n")
    using count [of "\<lambda>r. row_open r \<and> \<not> isCurrent tasks attempts r"]
    by (simp add: row_open_def row_active_def conj_ac isCurrent_def)
  have "?n \<le> length (ob_rows s)" by (rule length_filter_le)
  then have "int ?n \<le> MAX_SAFE_INTEGER" using assms(2) by linarith
  then have "isSafeInteger (of_nat ?n)" by (simp add: isSafeInteger_def)
  then show ?thesis
    using assms(1) principals
    by (simp add: read_principal_def Let_def elsewhere projectProviderConcurrencyRuntime_def
        peakAttainedFromIntervals_def attained del: filter_filter)
qed

text \<open>
  The reader reports every principal it lists, as on hold and without a ceiling: its attained
  number is the number of its active intervals that belong to the current run, and the
  unresolved number counts its other active intervals. Principals are canonical texts.
\<close>

theorem reader_exact:
  assumes "\<forall>r \<in> set (ob_rows s). canonical_text (eo_principal (row_start r))"
    and "int (length (ob_rows s)) \<le> MAX_SAFE_INTEGER"
  shows "\<exists>js. readProviderConcurrencyRuntime (Some s) tasks attempts = Inr js
    \<and> map rj_principal js = take 1000 (sort (remdups (map (\<lambda>r. eo_principal (row_start r)) (ob_rows s))))
    \<and> (\<forall>j \<in> set js. rj_admission j = ConcHold \<and> rj_admittedCeiling j = None
      \<and> rj_currentAttained j = length (filter (\<lambda>r. row_active r \<and> eo_principal (row_start r) = rj_principal j
          \<and> isCurrent tasks attempts r) (ob_rows s))
      \<and> rj_unresolvedOpenIntervals j = of_nat (length (filter (\<lambda>r. row_active r
          \<and> eo_principal (row_start r) = rj_principal j \<and> \<not> isCurrent tasks attempts r) (ob_rows s))))"
proof -
  let ?ds = "take 1000 (sort (remdups (map (\<lambda>r. eo_principal (row_start r)) (ob_rows s))))"
  let ?f = "read_principal s tasks attempts"
  have canonical: "canonical_text pd" if "pd \<in> set ?ds" for pd
    using set_take_subset [of 1000 "sort (remdups (map (\<lambda>r. eo_principal (row_start r)) (ob_rows s)))"] that assms(1)
    by auto
  have "\<exists>a. ?f pd = Inr a" if "pd \<in> set ?ds" for pd
    using read_principal_exact [OF canonical [OF that] assms(2)] by blast
  then obtain js where js: "sequence_results (map ?f ?ds) = Inr js" "map Inr js = map ?f ?ds"
    using sequence_results_Inr [of ?ds ?f] by blast
  have len: "length js = length ?ds" using js(2) by (metis length_map)
  have nth: "?f (?ds ! i) = Inr (js ! i)" if "i < length js" for i
    using that js(2) len by (metis nth_map)
  note exact = read_principal_exact [OF canonical assms(2), of _ tasks attempts]
  have "map rj_principal js = ?ds"
  proof (rule nth_equalityI)
    fix i
    assume "i < length (map rj_principal js)"
    then have i: "i < length js" by simp
    then have "?ds ! i \<in> set ?ds" using len by (intro nth_mem) simp
    from exact [OF this] nth [OF i] i show "map rj_principal js ! i = ?ds ! i" by auto
  qed (simp add: len)
  moreover have "rj_admission j = ConcHold \<and> rj_admittedCeiling j = None
      \<and> rj_currentAttained j = length (filter (\<lambda>r. row_active r \<and> eo_principal (row_start r) = rj_principal j
          \<and> isCurrent tasks attempts r) (ob_rows s))
      \<and> rj_unresolvedOpenIntervals j = of_nat (length (filter (\<lambda>r. row_active r
          \<and> eo_principal (row_start r) = rj_principal j \<and> \<not> isCurrent tasks attempts r) (ob_rows s)))"
    if j: "j \<in> set js" for j
  proof -
    from j obtain i where i: "i < length js" "js ! i = j" by (auto simp: in_set_conv_nth)
    then have "?ds ! i \<in> set ?ds" using len by (intro nth_mem) simp
    from exact [OF this] nth [OF i(1)] i(2) show ?thesis by auto
  qed
  ultimately show ?thesis
    using js(1) by (intro exI [of _ js])
      (simp add: readProviderConcurrencyRuntime_def listProviderPrincipalDigests_def)
qed

section \<open>The capability\<close>

lemma min_of_three:
  "limiting_reasons c p h (min c (min p h)) = [] \<longleftrightarrow> min c (min p h) = (c :: rat)"
  by (auto simp: limiting_reasons_def min_def split: if_splits)

text \<open>
  A ceiling is admitted exactly when the request is valid, the three authorities speak of one
  scope and the provider's capacity is known, positive and fresh. It is then the least of the
  three ceilings, and the decision is ADMITTED exactly when that is the configured one.
\<close>

theorem capability_exact:
  "(\<exists>ev. resolveProviderConcurrencyCapability rq = Some ev \<and> ce_effectiveCeiling ev = Some c
      \<and> ce_decision ev = decision)
   \<longleftrightarrow> (\<exists>provider. request_valid rq \<and> scopesMatch (cc_scope (cq_configured rq)) (pc_scope (cq_provider rq))
      \<and> scopesMatch (cc_scope (cq_configured rq)) (cc_scope (cq_host rq))
      \<and> pc_ceiling (cq_provider rq) = Some provider \<and> requirePositiveCeiling provider
      \<and> cf_observedAt (pc_freshness (cq_provider rq)) \<le> cq_evaluatedAt rq
      \<and> cq_evaluatedAt rq \<le> cf_expiresAt (pc_freshness (cq_provider rq))
      \<and> c = min (cc_ceiling (cq_configured rq)) (min provider (cc_ceiling (cq_host rq)))
      \<and> decision = (if c = cc_ceiling (cq_configured rq) then ConcAdmitted else ConcDegraded))"
  by (auto simp: resolveProviderConcurrencyCapability_def capability_evidence_def min_of_three Let_def
      split: option.splits if_splits)

section \<open>Witnesses and examples\<close>

definition sample_interval :: "string \<Rightarrow> int \<Rightarrow> int option \<Rightarrow> ExecutionRow" where
  "sample_interval i t t' = \<lparr>row_start = (sample_start i)\<lparr>eo_observedAt := t\<rparr>,
     row_end = map_option (\<lambda>x. (sample_end i)\<lparr>eo_observedAt := x\<rparr>) t', row_retired = False\<rparr>"

definition sample_rows :: "ExecutionRow list" where
  "sample_rows = [sample_interval ''a'' 0 (Some 10), sample_interval ''b'' 10 None, sample_interval ''c'' 20 (Some 30)]"

theorem peak_exact_witness:
  "\<exists>n. peakAttainedFromIntervals ''principal-a'' sample_rows = Inr (int n) \<and> (\<forall>t. running sample_rows t \<le> n)
    \<and> (\<exists>r \<in> set sample_rows. running sample_rows (eo_observedAt (row_start r)) = n)"
proof -
  have "list_all timely sample_rows" "list_all (\<lambda>r. eo_principal (row_start r) = ''principal-a'') sample_rows"
    by (simp_all add: sample_rows_def sample_interval_def sample_start_def sample_end_def timely_def)
  from peak_exact [OF this] show ?thesis by (simp add: sample_rows_def)
qed

theorem reader_exact_witness:
  "\<exists>js. readProviderConcurrencyRuntime (Some one_started) (Some []) None = Inr js
     \<and> map rj_principal js = [''principal-a''] \<and> (\<forall>j \<in> set js. rj_currentAttained j = 0)"
proof -
  have "\<forall>r \<in> set (ob_rows one_started). canonical_text (eo_principal (row_start r))" by code_simp
  moreover have "int (length (ob_rows one_started)) \<le> MAX_SAFE_INTEGER"
    by (simp add: one_started_def MAX_SAFE_INTEGER_def)
  ultimately show ?thesis
    using reader_exact [of one_started "Some []" None]
    by (auto simp: one_started_def sample_start_def isCurrent_def)
qed

text \<open>
  Only the sequence numbers of start and end are compared: the table takes an end that is dated
  before its start, and the peak of that one interval is reported as zero.
\<close>

definition early_end :: ExecutionObservation where
  "early_end = (sample_end ''exec-1'')\<lparr>eo_observedAt := -1\<rparr>"

lemma reversed_interval_unseen:
  "\<exists>s. put one_open one_started early_end
       = Inr (\<lparr>wr_accepted = True, wr_duplicate = False, wr_contradiction = None\<rparr>, s)
     \<and> peakAttainedFromIntervals ''principal-a'' (ob_rows s) = Inr 0"
proof -
  let ?s = "\<lparr>ob_rows = [\<lparr>row_start = sample_start ''exec-1'', row_end = Some early_end, row_retired = False\<rparr>],
     ob_contradictions = []\<rparr>"
  have "put one_open one_started early_end
      = Inr (\<lparr>wr_accepted = True, wr_duplicate = False, wr_contradiction = None\<rparr>, ?s)" by code_simp
  moreover have "peakAttainedFromIntervals ''principal-a'' (ob_rows ?s) = Inr 0" by code_simp
  ultimately show ?thesis by blast
qed

text \<open>A principal that the table takes and the projection does not: the reader then fails for all.\<close>

lemma padded_principal_blocks_reader:
  "\<exists>w s. put one_open empty_store ((sample_start ''exec-1'')\<lparr>eo_principal := '' a''\<rparr>) = Inr (w, s) \<and> wr_accepted w
     \<and> readProviderConcurrencyRuntime (Some s) None None = Inl ProjectionTypeError"
proof -
  let ?start = "(sample_start ''exec-1'')\<lparr>eo_principal := '' a''\<rparr>"
  let ?s = "\<lparr>ob_rows = [\<lparr>row_start = ?start, row_end = None, row_retired = False\<rparr>], ob_contradictions = []\<rparr>"
  have "put one_open empty_store ?start
      = Inr (\<lparr>wr_accepted = True, wr_duplicate = False, wr_contradiction = None\<rparr>, ?s)" by code_simp
  moreover have "readProviderConcurrencyRuntime (Some ?s) None None = Inl ProjectionTypeError" by code_simp
  ultimately show ?thesis by auto
qed

end
