(* ===== verification/Role_Invocation.thy ===== *)
theory Role_Invocation
  imports Model_Registry Quota_Truth
begin

text \<open>
  \<open>src/core/role-invocation-resolver.ts\<close>: which provider and model a role calls, from the
  configured order of providers and the evidence of their reachability and limits. The model
  registry is an argument; the evidence record is an association list of its own keys.
\<close>

datatype InvocationRole = RoleBrain | RoleWorker | RoleAuditor

datatype InvocationPurpose =
    SprintPlanning | GoalAuthoring | GoalAcceptance | ReachabilityProbe | WorkerExecution | AuditEvaluation

datatype InvocationSelectionSource = SelConfig | SelDirective | SelRouter | SelFallback | SelWire | SelNone

text \<open>The reason codes that the resolver and the admission give.\<close>

datatype InvocationReasonCode =
    RcNone | RcValidationFailed | RcFallbackUnreachable | RcFallbackLimitHold | RcFallbackExhausted
  | RcProviderResolutionFallback | RcDuplicateInvocation

record ReachabilityEvidence =
  re_state :: InvocationEvidenceState
  re_reachable :: bool
  re_evidenceRef :: "string option"

record ProviderEvidence =
  pe_reachability :: ReachabilityEvidence
  pe_limits :: LimitEvidence

definition UNKNOWN_REACHABILITY :: ReachabilityEvidence where
  "UNKNOWN_REACHABILITY = \<lparr>re_state = EvUnknown, re_reachable = False, re_evidenceRef = None\<rparr>"

definition UNKNOWN_LIMITS :: LimitEvidence where
  "UNKNOWN_LIMITS = \<lparr>le_state = EvUnknown, le_limited = False, le_evidenceRefs = []\<rparr>"

definition UNKNOWN_EVIDENCE :: ProviderEvidence where
  "UNKNOWN_EVIDENCE = \<lparr>pe_reachability = UNKNOWN_REACHABILITY, pe_limits = UNKNOWN_LIMITS\<rparr>"

record RoleInvocationPolicy =
  rp_role :: InvocationRole
  rp_unattended :: bool
  rp_acceptableReachability :: "InvocationEvidenceState list"
  rp_acceptableLimits :: "InvocationEvidenceState list"

definition defaultRoleInvocationPolicy :: "InvocationRole \<Rightarrow> bool \<Rightarrow> RoleInvocationPolicy" where
  "defaultRoleInvocationPolicy role unattended =
     \<lparr>rp_role = role, rp_unattended = unattended, rp_acceptableReachability = [EvKnown],
      rp_acceptableLimits = (if unattended then [EvKnown] else [EvKnown, EvUnknown])\<rparr>"

record RoleInvocationRequest =
  ri_role :: InvocationRole
  ri_purpose :: "InvocationPurpose option"
  ri_primaryProvider :: string
  ri_model :: string
  ri_fallbackProviders :: "string list"
  ri_evidence :: "(string, ProviderEvidence) js_map"
  ri_policy :: "RoleInvocationPolicy option"

record RoleInvocationAttempt =
  at_sequence :: nat
  at_provider :: string
  at_model :: "string option"
  at_source :: InvocationSelectionSource
  at_reachability :: ReachabilityEvidence
  at_limits :: LimitEvidence
  at_accepted :: bool
  at_reasonCode :: InvocationReasonCode

record RoleInvocationSelected =
  sel_provider :: string
  sel_model :: string
  sel_source :: InvocationSelectionSource
  sel_sequence :: nat

record InvocationSelection =
  is_provider :: "string option"
  is_model :: "string option"
  is_source :: InvocationSelectionSource
  is_reasonCode :: InvocationReasonCode

record InvocationFallbackTransition =
  ft_sequence :: nat
  ft_fromProvider :: string
  ft_fromModel :: "string option"
  ft_toProvider :: string
  ft_toModel :: string
  ft_reasonCode :: InvocationReasonCode
  ft_reachabilityRef :: "string option"
  ft_limitEvidenceRefs :: "string list"

record RoleInvocationResolution =
  rr_role :: InvocationRole
  rr_purpose :: InvocationPurpose
  rr_policy :: RoleInvocationPolicy
  rr_selected :: "RoleInvocationSelected option"
  rr_attempts :: "RoleInvocationAttempt list"
  rr_rejected :: "RoleInvocationAttempt list"
  rr_decisionReasonCode :: InvocationReasonCode
  rr_configured :: InvocationSelection
  rr_resolved :: InvocationSelection
  rr_fallbackChain :: "InvocationFallbackTransition list"
  rr_reachability :: "InvocationEvidenceState \<times> string option"
  rr_limits :: "InvocationEvidenceState \<times> string list"

definition ROLE_PURPOSE :: "InvocationRole \<Rightarrow> InvocationPurpose" where
  "ROLE_PURPOSE role =
     (case role of RoleBrain \<Rightarrow> SprintPlanning | RoleWorker \<Rightarrow> WorkerExecution | RoleAuditor \<Rightarrow> AuditEvaluation)"

definition isReachabilityUsable :: "ReachabilityEvidence \<Rightarrow> RoleInvocationPolicy \<Rightarrow> bool" where
  "isReachabilityUsable ev p \<longleftrightarrow> re_state ev \<in> set (rp_acceptableReachability p) \<and> re_reachable ev"

definition isLimitUsable :: "LimitEvidence \<Rightarrow> RoleInvocationPolicy \<Rightarrow> bool" where
  "isLimitUsable ev p \<longleftrightarrow> le_state ev \<in> set (rp_acceptableLimits p) \<and> \<not> le_limited ev"

definition request_policy :: "RoleInvocationRequest \<Rightarrow> RoleInvocationPolicy" where
  "request_policy rq =
     (case ri_policy rq of None \<Rightarrow> defaultRoleInvocationPolicy (ri_role rq) True | Some p \<Rightarrow> p)"

type_synonym candidate = "string \<times> InvocationSelectionSource"

definition candidates :: "RoleInvocationRequest \<Rightarrow> candidate list" where
  "candidates rq = (ri_primaryProvider rq, SelConfig) # map (\<lambda>p. (p, SelFallback)) (ri_fallbackProviders rq)"

definition evidence_of :: "RoleInvocationRequest \<Rightarrow> string \<Rightarrow> ProviderEvidence" where
  "evidence_of rq provider =
     (case map_of (ri_evidence rq) provider of None \<Rightarrow> UNKNOWN_EVIDENCE | Some e \<Rightarrow> e)"

definition candidate_model :: "ModelRegistry \<Rightarrow> RoleInvocationRequest \<Rightarrow> candidate \<Rightarrow> string option" where
  "candidate_model reg rq c =
     (case c of (provider, source) \<Rightarrow>
        if source = SelConfig then Some (ri_model rq)
        else (case getEquivalent reg (ri_model rq) provider of Inl _ \<Rightarrow> None | Inr m \<Rightarrow> Some m))"

definition candidate_reason :: "ModelRegistry \<Rightarrow> RoleInvocationRequest \<Rightarrow> candidate \<Rightarrow> InvocationReasonCode" where
  "candidate_reason reg rq c =
     (let ev = evidence_of rq (fst c); p = request_policy rq
      in if candidate_model reg rq c = None then RcValidationFailed
         else if \<not> isReachabilityUsable (pe_reachability ev) p then RcFallbackUnreachable
         else if \<not> isLimitUsable (pe_limits ev) p then RcFallbackLimitHold
         else RcNone)"

definition attempt_of ::
    "ModelRegistry \<Rightarrow> RoleInvocationRequest \<Rightarrow> nat \<Rightarrow> candidate \<Rightarrow> RoleInvocationAttempt" where
  "attempt_of reg rq i c =
     \<lparr>at_sequence = i + 1, at_provider = fst c, at_model = candidate_model reg rq c, at_source = snd c,
      at_reachability = pe_reachability (evidence_of rq (fst c)), at_limits = pe_limits (evidence_of rq (fst c)),
      at_accepted = (candidate_reason reg rq c = RcNone), at_reasonCode = candidate_reason reg rq c\<rparr>"

fun try_candidates ::
    "ModelRegistry \<Rightarrow> RoleInvocationRequest \<Rightarrow> nat \<Rightarrow> candidate list \<Rightarrow> RoleInvocationAttempt list" where
  "try_candidates reg rq i [] = []"
| "try_candidates reg rq i (c # cs) =
     (let a = attempt_of reg rq i c
      in if at_accepted a then [a] else a # try_candidates reg rq (i + 1) cs)"

definition transition_of :: "nat \<Rightarrow> RoleInvocationAttempt \<times> RoleInvocationAttempt \<Rightarrow> InvocationFallbackTransition" where
  "transition_of i x = (case x of (a, b) \<Rightarrow>
     \<lparr>ft_sequence = i + 1, ft_fromProvider = at_provider a, ft_fromModel = at_model a,
      ft_toProvider = at_provider b, ft_toModel = (case at_model b of None \<Rightarrow> ''unknown'' | Some m \<Rightarrow> m),
      ft_reasonCode = at_reasonCode a, ft_reachabilityRef = re_evidenceRef (at_reachability a),
      ft_limitEvidenceRefs = le_evidenceRefs (at_limits a)\<rparr>)"

definition fallback_chain :: "RoleInvocationAttempt list \<Rightarrow> InvocationFallbackTransition list" where
  "fallback_chain attempts =
     map (\<lambda>(i, x). transition_of i x) (zip [0..<length attempts] (zip attempts (tl attempts)))"

definition selected_of :: "RoleInvocationAttempt \<Rightarrow> RoleInvocationSelected" where
  "selected_of a = \<lparr>sel_provider = at_provider a, sel_model = the (at_model a), sel_source = at_source a,
     sel_sequence = at_sequence a\<rparr>"

definition resolved_of :: "RoleInvocationAttempt option \<Rightarrow> InvocationSelection" where
  "resolved_of x = (case x of
       Some a \<Rightarrow> \<lparr>is_provider = Some (at_provider a), is_model = at_model a, is_source = at_source a,
         is_reasonCode = (if at_source a = SelFallback then RcProviderResolutionFallback else RcNone)\<rparr>
     | None \<Rightarrow> \<lparr>is_provider = None, is_model = None, is_source = SelNone, is_reasonCode = RcFallbackExhausted\<rparr>)"

definition resolveRoleInvocation :: "ModelRegistry \<Rightarrow> RoleInvocationRequest \<Rightarrow> RoleInvocationResolution" where
  "resolveRoleInvocation reg rq =
     (let attempts = try_candidates reg rq 0 (candidates rq);
          chosen = find at_accepted attempts;
          terminal = (case chosen of Some a \<Rightarrow> a | None \<Rightarrow> last attempts)
      in \<lparr>rr_role = ri_role rq,
          rr_purpose = (case ri_purpose rq of None \<Rightarrow> ROLE_PURPOSE (ri_role rq) | Some p \<Rightarrow> p),
          rr_policy = request_policy rq, rr_selected = map_option selected_of chosen,
          rr_attempts = attempts, rr_rejected = filter (\<lambda>a. \<not> at_accepted a) attempts,
          rr_decisionReasonCode = (if chosen = None then RcFallbackExhausted else RcNone),
          rr_configured = \<lparr>is_provider = Some (ri_primaryProvider rq), is_model = Some (ri_model rq),
            is_source = SelConfig, is_reasonCode = RcNone\<rparr>,
          rr_resolved = resolved_of chosen, rr_fallbackChain = fallback_chain attempts,
          rr_reachability = (re_state (at_reachability terminal), re_evidenceRef (at_reachability terminal)),
          rr_limits = (le_state (at_limits terminal), le_evidenceRefs (at_limits terminal))\<rparr>)"

section \<open>The first usable candidate\<close>

lemma attempt_of_simps [simp]:
  "at_accepted (attempt_of reg rq i c) \<longleftrightarrow> candidate_reason reg rq c = RcNone"
  "at_provider (attempt_of reg rq i c) = fst c" "at_source (attempt_of reg rq i c) = snd c"
  "at_model (attempt_of reg rq i c) = candidate_model reg rq c" "at_sequence (attempt_of reg rq i c) = i + 1"
  "at_reachability (attempt_of reg rq i c) = pe_reachability (evidence_of rq (fst c))"
  "at_limits (attempt_of reg rq i c) = pe_limits (evidence_of rq (fst c))"
  by (simp_all add: attempt_of_def)

definition usable_candidate :: "ModelRegistry \<Rightarrow> RoleInvocationRequest \<Rightarrow> candidate \<Rightarrow> bool" where
  "usable_candidate reg rq c \<longleftrightarrow>
     candidate_model reg rq c \<noteq> None
     \<and> isReachabilityUsable (pe_reachability (evidence_of rq (fst c))) (request_policy rq)
     \<and> isLimitUsable (pe_limits (evidence_of rq (fst c))) (request_policy rq)"

lemma reason_none: "candidate_reason reg rq c = RcNone \<longleftrightarrow> usable_candidate reg rq c"
  by (auto simp: candidate_reason_def usable_candidate_def Let_def)

text \<open>The attempts are the candidates up to the first usable one.\<close>

lemma try_candidates_unfold:
  "try_candidates reg rq i cs =
     (let k = length (takeWhile (\<lambda>c. \<not> usable_candidate reg rq c) cs)
      in map (\<lambda>(j, c). attempt_of reg rq j c) (zip [i ..< i + length cs] (take (k + 1) cs)))"
proof (induction cs arbitrary: i)
  case (Cons c cs)
  have upt: "[i ..< i + length (c # cs)] = i # [Suc i ..< Suc i + length cs]"
    by (simp add: upt_conv_Cons del: upt_Suc)
  show ?case
    using Cons.IH [of "Suc i"] unfolding upt by (auto simp: Let_def reason_none simp del: upt_Suc)
qed simp

lemma find_try_candidates:
  "map_option (\<lambda>a. (at_provider a, at_source a)) (find at_accepted (try_candidates reg rq i cs))
     = find (usable_candidate reg rq) cs"
  by (induction cs arbitrary: i) (auto simp: Let_def reason_none)

lemma find_try_attempt:
  "find at_accepted (try_candidates reg rq i cs) = Some a \<Longrightarrow> \<exists>j c. a = attempt_of reg rq j c \<and> c \<in> set cs \<and> usable_candidate reg rq c"
proof (induction cs arbitrary: i)
  case (Cons c cs)
  show ?case
  proof (cases "usable_candidate reg rq c")
    case True
    with Cons.prems have "a = attempt_of reg rq i c" by (simp add: Let_def reason_none)
    with True show ?thesis by (intro exI [of _ i] exI [of _ c]) simp
  next
    case False
    with Cons.prems have "find at_accepted (try_candidates reg rq (Suc i) cs) = Some a"
      by (simp add: Let_def reason_none)
    from Cons.IH [OF this] obtain j d
      where "a = attempt_of reg rq j d" "d \<in> set cs" "usable_candidate reg rq d" by blast
    then show ?thesis by (intro exI [of _ j] exI [of _ d]) simp
  qed
qed simp

lemma try_candidates_nonempty: "try_candidates reg rq i cs = [] \<longleftrightarrow> cs = []"
  by (cases cs) (simp_all add: Let_def)

lemma first_usable_resolution:
  "case rr_selected (resolveRoleInvocation reg rq) of
     Some s \<Rightarrow> find (usable_candidate reg rq) (candidates rq) = Some (sel_provider s, sel_source s)
       \<and> candidate_model reg rq (sel_provider s, sel_source s) = Some (sel_model s)
   | None \<Rightarrow> find (usable_candidate reg rq) (candidates rq) = None
       \<and> rr_decisionReasonCode (resolveRoleInvocation reg rq) = RcFallbackExhausted"
proof (cases "find at_accepted (try_candidates reg rq 0 (candidates rq))")
  case None
  then show ?thesis
    using find_try_candidates [of reg rq 0 "candidates rq"] by (simp add: resolveRoleInvocation_def Let_def)
next
  case (Some a)
  from find_try_attempt [OF this] obtain j c where a: "a = attempt_of reg rq j c" "usable_candidate reg rq c"
    by blast
  then obtain m where "candidate_model reg rq c = Some m" by (auto simp: usable_candidate_def)
  with Some a find_try_candidates [of reg rq 0 "candidates rq"] show ?thesis
    by (simp add: resolveRoleInvocation_def Let_def selected_of_def)
qed

lemma first_usable_selected:
  "rr_selected (resolveRoleInvocation reg rq) = Some s \<Longrightarrow>
   find (usable_candidate reg rq) (candidates rq) = Some (sel_provider s, sel_source s)"
  using first_usable_resolution [of reg rq] by simp


text \<open>Nothing unattended runs on evidence that is not known and positive.\<close>

lemma unattended_needs_known:
  assumes "usable_candidate reg rq c" "ri_policy rq = None"
  shows "\<exists>e. map_of (ri_evidence rq) (fst c) = Some e \<and> re_state (pe_reachability e) = EvKnown
    \<and> re_reachable (pe_reachability e) \<and> le_state (pe_limits e) = EvKnown \<and> \<not> le_limited (pe_limits e)"
  using assms
  by (auto simp: usable_candidate_def isReachabilityUsable_def isLimitUsable_def request_policy_def
      defaultRoleInvocationPolicy_def evidence_of_def UNKNOWN_EVIDENCE_def UNKNOWN_REACHABILITY_def
      split: option.splits)

end
