(* ===== verification/Quota_Ledger.thy ===== *)
theory Quota_Ledger
  imports Quota_Truth
begin

text \<open>
  \<open>src/core/provider-limit-store.ts\<close>: the ledger of limit snapshots, reservations and
  reservation events, with the request, reservation and event checks of
  \<open>src/core/provider-limit-truth.ts\<close>.

  A table is the list of its rows in the order of \<open>inserted_seq\<close>; the triggers refuse updates
  and deletes, so a row is the record that was written. A transaction that throws is rolled
  back: an operation returns an error, or its result and the new ledger. Equal payload hashes
  are equal payloads. What the store is constructed with, the clock and the message
  authentication codes are fields of \<open>limit_env\<close>. The repeated check of a row that is read
  (its authentication code, and the checks made before it was written), the sentinel, the
  key ring and the migration of version 1 are not modelled.
\<close>

section \<open>Requests, reservations, events\<close>

record limit_amount =
  am_windowId :: string
  am_unit :: ProviderLimitUnit
  am_amount :: rat

record ProviderLimitReservationRequest =
  rq_reservationId :: string
  rq_idempotencyKey :: string
  rq_projectId :: string
  rq_runId :: string
  rq_taskId :: "string option"
  rq_callId :: string
  rq_attemptId :: string
  rq_fenceTokenHash :: string
  rq_receiptRef :: string
  rq_reachabilityEvidenceRef :: string
  rq_model :: string
  rq_scope :: limit_scope
  rq_backend :: limit_backend
  rq_estimates :: "limit_amount list"
  rq_estimateEvidenceRefs :: "string list"
  rq_leaseExpiresAt :: int
  rq_requestedAt :: int

datatype ProviderLimitReservationReason =
    Allowed | SnapshotMissing | SnapshotNotUsable | WindowMissing | UnitMismatch | ModelMismatch
  | EstimateScopeMismatch | LeaseOutlivesSnapshot | PolicyBlock | InsufficientRemaining

record ProviderLimitReservation = ProviderLimitReservationRequest +
  rv_snapshotEvidenceRef :: "string option"
  rv_decision :: ProviderLimitDecision
  rv_reasonCode :: ProviderLimitReservationReason
  rv_effectiveRemaining :: "(string \<times> rat) list"
  rv_appliedPolicy :: ProviderLimitPolicy

definition requestFromReservation :: "ProviderLimitReservation \<Rightarrow> ProviderLimitReservationRequest" where
  "requestFromReservation r = ProviderLimitReservationRequest.truncate r"

datatype reservation_event_type = EvDispatched | EvConsumed | EvReleased

record ProviderLimitReservationEvent =
  ev_eventId :: string
  ev_kind :: reservation_event_type
  ev_occurredAt :: int
  ev_fenceTokenHash :: string
  ev_evidenceRef :: string
  ev_terminationEvidenceRef :: "string option"
  ev_terminationAuthorityRef :: "string option"
  ev_actual :: "limit_amount list option"

record StoredReservationEvent = ProviderLimitReservationEvent +
  se_reservationId :: string
  se_sequence :: nat
  se_previousHash :: "string option"
  se_hash :: string

definition assertProviderLimitReservationRequest ::
    "quota_hash \<Rightarrow> 'a ProviderLimitReservationRequest_scheme \<Rightarrow> bool" where
  "assertProviderLimitReservationRequest h r \<longleftrightarrow>
     has_identity (sc_tenantId (rq_scope r)) \<and> has_identity (rq_projectId r)
     \<and> canonical_provider (sc_provider (rq_scope r)) \<and> canonical_model (rq_model r)
     \<and> opaque_hash (sc_accountRefHash (rq_scope r)) (sc_authMode (rq_scope r) \<noteq> AuthLocal)
     \<and> backend_ok (rq_backend r) \<and> quota_scope_ok h (rq_scope r) (rq_backend r)
     \<and> has_identity (rq_reservationId r) \<and> has_identity (rq_idempotencyKey r) \<and> has_identity (rq_runId r)
     \<and> (case rq_taskId r of None \<Rightarrow> True | Some t \<Rightarrow> has_identity t)
     \<and> has_identity (rq_callId r) \<and> has_identity (rq_attemptId r)
     \<and> sha256_text (rq_fenceTokenHash r) \<and> opaque_ref (rq_receiptRef r)
     \<and> opaque_ref (rq_reachabilityEvidenceRef r)
     \<and> rq_estimateEvidenceRefs r \<noteq> [] \<and> list_all opaque_ref (rq_estimateEvidenceRefs r)
     \<and> rq_requestedAt r < rq_leaseExpiresAt r \<and> rq_estimates r \<noteq> []
     \<and> list_all (\<lambda>e. window_id_ok (am_windowId e) \<and> 0 < am_amount e) (rq_estimates r)
     \<and> distinct (map am_windowId (rq_estimates r))"

definition assertProviderLimitReservation :: "quota_hash \<Rightarrow> ProviderLimitReservation \<Rightarrow> bool" where
  "assertProviderLimitReservation h r \<longleftrightarrow>
     assertProviderLimitReservationRequest h r
     \<and> (case rv_snapshotEvidenceRef r of None \<Rightarrow> True | Some e \<Rightarrow> opaque_ref e)
     \<and> policy_ok (rv_appliedPolicy r)
     \<and> (rv_decision r = LimitAllow \<longleftrightarrow> rv_reasonCode r = Allowed)
     \<and> (rv_reasonCode r = SnapshotMissing \<longleftrightarrow> rv_snapshotEvidenceRef r = None)
     \<and> list_all (\<lambda>(w, v). w \<in> set (map am_windowId (rq_estimates r)) \<and> 0 \<le> v) (rv_effectiveRemaining r)
     \<and> (rv_decision r = LimitAllow \<longrightarrow> list_all (\<lambda>e.
          case map_of (rv_effectiveRemaining r) (am_windowId e) of None \<Rightarrow> False
          | Some v \<Rightarrow> am_amount e \<le> v) (rq_estimates r))"

definition assertProviderLimitReservationEvent :: "'a ProviderLimitReservationEvent_scheme \<Rightarrow> bool" where
  "assertProviderLimitReservationEvent e \<longleftrightarrow>
     has_identity (ev_eventId e) \<and> sha256_text (ev_fenceTokenHash e) \<and> opaque_ref (ev_evidenceRef e)
     \<and> (ev_kind e \<noteq> EvConsumed \<longrightarrow> ev_actual e = None)
     \<and> (case (ev_terminationEvidenceRef e, ev_terminationAuthorityRef e) of
          (None, None) \<Rightarrow> ev_kind e \<noteq> EvReleased
        | (Some x, Some y) \<Rightarrow> ev_kind e = EvReleased \<and> opaque_ref x \<and> opaque_ref y
        | _ \<Rightarrow> False)
     \<and> (ev_kind e = EvConsumed \<longrightarrow> ev_actual e \<noteq> None \<and> ev_actual e \<noteq> Some [])
     \<and> list_all (\<lambda>a. window_id_ok (am_windowId a) \<and> 0 \<le> am_amount a)
         (case ev_actual e of None \<Rightarrow> [] | Some as \<Rightarrow> as)
     \<and> distinct (map am_windowId (case ev_actual e of None \<Rightarrow> [] | Some as \<Rightarrow> as))"

section \<open>The ledger\<close>

record limit_ledger =
  ll_snapshots :: "ProviderLimitResult list"
  ll_reservations :: "ProviderLimitReservation list"
  ll_events :: "StoredReservationEvent list"

datatype store_code =
    IdempotencyConflict | IntegrityFailure | LogicalWinnerExists | ReservationNotFound | ReservationSettled

text \<open>A failed assertion, an error of the store with its evidence, or a refused insertion.\<close>

datatype store_error = TruthError | StoreError store_code "string option" | ConstraintError

type_synonym 'a store_result = "store_error + 'a \<times> limit_ledger"

record limit_env =
  le_now :: int
  le_policyResolver :: "limit_scope \<Rightarrow> ProviderLimitPolicy option"
  le_terminationEvidenceVerifier ::
    "string option \<Rightarrow> string option \<Rightarrow> ProviderLimitReservation \<Rightarrow> ProviderLimitReservationEvent \<Rightarrow> bool"
  le_quotaHash :: quota_hash
  le_sha256 :: "string \<Rightarrow> string"
  le_seal :: "string \<Rightarrow> nat \<Rightarrow> ProviderLimitReservationEvent \<Rightarrow> string option \<Rightarrow> string"

definition reservationEvidenceRef :: "limit_env \<Rightarrow> string \<Rightarrow> string" where
  "reservationEvidenceRef env reservationId = ''provider-limit-reservation:'' @ le_sha256 env reservationId"

definition integrity_failure :: store_error where
  "integrity_failure = StoreError IntegrityFailure None"

definition event_ref_prefix :: string where
  "event_ref_prefix = ''provider-limit-reservation-event:''"

definition find_event :: "limit_ledger \<Rightarrow> string \<Rightarrow> StoredReservationEvent option" where
  "find_event l eventId = find (\<lambda>e. ev_eventId e = eventId) (ll_events l)"

definition plain_event :: "StoredReservationEvent \<Rightarrow> ProviderLimitReservationEvent" where
  "plain_event e = ProviderLimitReservationEvent.truncate e"

text \<open>The events of a reservation, \<open>ORDER BY sequence ASC\<close>.\<close>

definition events_of :: "limit_ledger \<Rightarrow> string \<Rightarrow> StoredReservationEvent list" where
  "events_of l rid = sort_key se_sequence (filter (\<lambda>e. se_reservationId e = rid) (ll_events l))"

section \<open>Snapshots\<close>

definition incorporated_event_ok :: "limit_ledger \<Rightarrow> ProviderLimitResult \<Rightarrow> string \<Rightarrow> bool" where
  "incorporated_event_ok l s ref \<longleftrightarrow>
     js_starts_with ref event_ref_prefix \<and>
     (case find_event l (drop (length event_ref_prefix) ref) of
        None \<Rightarrow> False
      | Some e \<Rightarrow>
          ev_kind e = EvConsumed \<and> ev_occurredAt e \<le> src_fetchedAt (lr_source s) \<and>
          (case find (\<lambda>r. rq_reservationId r = se_reservationId e) (ll_reservations l) of
             None \<Rightarrow> False
           | Some r \<Rightarrow> rq_scope r = lr_scope s
               \<and> ev_evidenceRef e \<in> set (lr_evidenceRefs s) \<and> rq_receiptRef r \<in> set (lr_evidenceRefs s)))"

definition verifyIncorporatedEvents :: "limit_ledger \<Rightarrow> ProviderLimitResult \<Rightarrow> bool" where
  "verifyIncorporatedEvents l s \<longleftrightarrow> list_all (incorporated_event_ok l s) (src_incorporated (lr_source s))"

definition snapshot_ref :: "string \<Rightarrow> string" where
  "snapshot_ref limitResultId = ''provider-limit:'' @ limitResultId"

text \<open>The unique constraints of the table, which leave the account out.\<close>

definition same_snapshot_key :: "ProviderLimitResult \<Rightarrow> ProviderLimitResult \<Rightarrow> bool" where
  "same_snapshot_key r s \<longleftrightarrow>
     lr_limitResultId r = lr_limitResultId s
     \<or> (lr_scope r)\<lparr>sc_accountRefHash := None\<rparr> = (lr_scope s)\<lparr>sc_accountRefHash := None\<rparr>
       \<and> lr_idempotencyKey r = lr_idempotencyKey s"

definition insert_snapshot :: "limit_ledger \<Rightarrow> ProviderLimitResult \<Rightarrow> (string \<times> bool) store_result" where
  "insert_snapshot l s =
     (if \<not> verifyIncorporatedEvents l s then Inl integrity_failure
      else (case find (\<lambda>r. lr_scope r = lr_scope s \<and> lr_idempotencyKey r = lr_idempotencyKey s)
              (ll_snapshots l) of
          Some persisted \<Rightarrow>
            if persisted \<noteq> s then Inl (StoreError IdempotencyConflict None)
            else Inr ((snapshot_ref (lr_limitResultId s), False), l)
        | None \<Rightarrow>
            if list_ex (same_snapshot_key s) (ll_snapshots l) then Inl ConstraintError
            else Inr ((snapshot_ref (lr_limitResultId s), True),
                      l\<lparr>ll_snapshots := ll_snapshots l @ [s]\<rparr>)))"

definition putSnapshot :: "limit_env \<Rightarrow> limit_ledger \<Rightarrow> ProviderLimitResult \<Rightarrow> (string \<times> bool) store_result" where
  "putSnapshot env l result =
     (if lr_state result = EvStale \<or> lr_reasonCode result = EvidenceNotYetValid
      then Inl (StoreError IdempotencyConflict None)
      else if \<not> assertProviderLimitResult (le_quotaHash env) result then Inl TruthError
      else (case le_policyResolver env (lr_scope result) of
          None \<Rightarrow> Inl integrity_failure
        | Some p \<Rightarrow>
          (case applyProviderLimitPolicy (le_quotaHash env) result p of
             None \<Rightarrow> Inl TruthError
           | Some authoritative \<Rightarrow>
               if le_now env < src_fetchedAt (lr_source result) then Inl integrity_failure
               else insert_snapshot l authoritative)))"

text \<open>
  \<open>ORDER BY fetched_at DESC, inserted_seq DESC LIMIT 1\<close>: the latest, of equally late ones
  the last inserted.
\<close>

fun latest :: "ProviderLimitResult option \<Rightarrow> ProviderLimitResult list \<Rightarrow> ProviderLimitResult option" where
  "latest best [] = best"
| "latest best (s # ss) =
     latest (case best of
         Some b \<Rightarrow> if src_fetchedAt (lr_source s) < src_fetchedAt (lr_source b) then Some b else Some s
       | None \<Rightarrow> Some s) ss"

definition selectLatestSnapshot :: "limit_ledger \<Rightarrow> limit_scope \<Rightarrow> ProviderLimitResult option" where
  "selectLatestSnapshot l q = latest None (filter (\<lambda>s. lr_scope s = q) (ll_snapshots l))"

definition getLatestSnapshot ::
    "limit_env \<Rightarrow> limit_ledger \<Rightarrow> limit_scope \<Rightarrow> int \<Rightarrow> store_error + ProviderLimitResult option" where
  "getLatestSnapshot env l q t =
     (case selectLatestSnapshot l q of None \<Rightarrow> Inr None
      | Some s \<Rightarrow>
        (case materializeProviderLimitResult (le_quotaHash env) s t of
           None \<Rightarrow> Inl TruthError | Some fresh \<Rightarrow> Inr (Some fresh)))"

section \<open>What is reserved\<close>

definition verified_termination :: "limit_env \<Rightarrow> ProviderLimitReservation \<Rightarrow> ProviderLimitReservationEvent \<Rightarrow> bool" where
  "verified_termination env r e \<longleftrightarrow>
     (ev_kind e = EvReleased \<longrightarrow> le_terminationEvidenceVerifier env
        (ev_terminationEvidenceRef e) (ev_terminationAuthorityRef e) r e)"

definition lifecycle_event_ok ::
    "limit_env \<Rightarrow> ProviderLimitReservation \<Rightarrow> nat \<Rightarrow> StoredReservationEvent option \<Rightarrow> StoredReservationEvent \<Rightarrow> bool" where
  "lifecycle_event_ok env r index previous e \<longleftrightarrow>
     se_sequence e = index + 1 \<and> se_previousHash e = map_option se_hash previous
     \<and> ev_fenceTokenHash e = rq_fenceTokenHash r \<and> rq_requestedAt r \<le> ev_occurredAt e
     \<and> (ev_kind e = EvDispatched \<longrightarrow> ev_occurredAt e < rq_leaseExpiresAt r)
     \<and> (case previous of None \<Rightarrow> True | Some p \<Rightarrow> ev_occurredAt p \<le> ev_occurredAt e)
     \<and> \<not> (index = 0 \<and> ev_kind e = EvConsumed)
     \<and> (index = 1 \<longrightarrow> map_option ev_kind previous = Some EvDispatched
          \<and> (ev_kind e = EvConsumed \<or> ev_kind e = EvReleased))
     \<and> verified_termination env r (plain_event e)"

fun lifecycle_from ::
    "limit_env \<Rightarrow> ProviderLimitReservation \<Rightarrow> nat \<Rightarrow> StoredReservationEvent option \<Rightarrow> StoredReservationEvent list \<Rightarrow> bool" where
  "lifecycle_from env r index previous [] = True"
| "lifecycle_from env r index previous (e # es) =
     (lifecycle_event_ok env r index previous e \<and> lifecycle_from env r (index + 1) (Some e) es)"

definition assertReservationLifecycle ::
    "limit_env \<Rightarrow> ProviderLimitReservation \<Rightarrow> StoredReservationEvent list \<Rightarrow> bool" where
  "assertReservationLifecycle env r es \<longleftrightarrow> length es \<le> 2 \<and> lifecycle_from env r 0 None es"

text \<open>What a reservation still takes from its windows.\<close>

definition outstanding_amounts ::
    "string list \<Rightarrow> ProviderLimitReservation \<Rightarrow> StoredReservationEvent list \<Rightarrow> limit_amount list" where
  "outstanding_amounts incorporated r es =
     (if es \<noteq> [] \<and> ev_kind (last es) = EvReleased then []
      else if es \<noteq> [] \<and> ev_kind (last es) = EvConsumed
      then (if event_ref_prefix @ ev_eventId (last es) \<in> set incorporated then []
            else (case ev_actual (last es) of None \<Rightarrow> [] | Some as \<Rightarrow> as))
      else rq_estimates r)"

definition add_amount :: "(string, rat) js_map \<Rightarrow> limit_amount \<Rightarrow> (string, rat) js_map" where
  "add_amount totals a = AList.update (am_windowId a)
     (fl_add (case map_of totals (am_windowId a) of None \<Rightarrow> 0 | Some v \<Rightarrow> v) (am_amount a)) totals"

definition active_reservations :: "limit_ledger \<Rightarrow> limit_scope \<Rightarrow> ProviderLimitReservation list" where
  "active_reservations l q =
     filter (\<lambda>r. rq_scope r = q \<and> rv_decision r = LimitAllow) (ll_reservations l)"

text \<open>\<open>None\<close> when a lifecycle is refused.\<close>

definition activeReservedAmounts ::
    "limit_env \<Rightarrow> limit_ledger \<Rightarrow> limit_scope \<Rightarrow> string list \<Rightarrow> (string, rat) js_map option" where
  "activeReservedAmounts env l q incorporated =
     (let rs = active_reservations l q
      in if list_all (\<lambda>r. assertReservationLifecycle env r (events_of l (rq_reservationId r))) rs
         then Some (foldl add_amount [] (concat (map (\<lambda>r.
                outstanding_amounts incorporated r (events_of l (rq_reservationId r))) rs)))
         else None)"

section \<open>Reserving\<close>

type_synonym verdict =
  "ProviderLimitDecision \<times> ProviderLimitReservationReason \<times> (string \<times> rat) list"

definition reserved_for :: "(string, rat) js_map \<Rightarrow> string \<Rightarrow> rat" where
  "reserved_for reserved w = (case map_of reserved w of None \<Rightarrow> 0 | Some v \<Rightarrow> v)"

definition policy_blocks :: "ProviderLimitPolicy \<Rightarrow> ProviderLimitWindow \<Rightarrow> rat \<Rightarrow> bool" where
  "policy_blocks p w projectedRemaining \<longleftrightarrow>
     at_floor p (w_unit w) projectedRemaining
     \<or> (case w_limit w of None \<Rightarrow> False
        | Some l \<Rightarrow> 0 < l \<and> lp_blockAtRatio p \<le> fl_div (fl_sub l projectedRemaining) l)"

fun admit_estimates ::
    "ProviderLimitResult \<Rightarrow> string \<Rightarrow> (string, rat) js_map \<Rightarrow> (string \<times> rat) list \<Rightarrow> limit_amount list \<Rightarrow> verdict" where
  "admit_estimates s model reserved eff [] = (LimitAllow, Allowed, eff)"
| "admit_estimates s model reserved eff (e # es) =
     (case windows_by_id (lr_windows s) (am_windowId e) of
        None \<Rightarrow> (LimitHold, WindowMissing, eff)
      | Some w \<Rightarrow>
        (case w_remaining w of
           None \<Rightarrow> (LimitHold, WindowMissing, eff)
         | Some least \<Rightarrow>
           if w_unit w \<noteq> am_unit e then (LimitHold, UnitMismatch, eff)
           else if w_model w \<noteq> None \<and> w_model w \<noteq> Some model then (LimitHold, ModelMismatch, eff)
           else (let remaining = max 0 (fl_sub least (reserved_for reserved (am_windowId e)));
                     eff' = eff @ [(am_windowId e, remaining)]
                 in if remaining < am_amount e then (LimitHold, InsufficientRemaining, eff')
                    else if policy_blocks (lr_policy s) w (fl_sub remaining (am_amount e))
                    then (LimitHold, PolicyBlock, eff')
                    else admit_estimates s model reserved eff' es)))"

definition estimates_match :: "ProviderLimitResult \<Rightarrow> limit_amount list \<Rightarrow> bool" where
  "estimates_match s es \<longleftrightarrow>
     length es = length (lr_requiredWindowIds s)
     \<and> list_all (\<lambda>e. am_windowId e \<in> set (lr_requiredWindowIds s)) es"

definition judge_snapshot ::
    "limit_env \<Rightarrow> limit_ledger \<Rightarrow> ProviderLimitReservationRequest \<Rightarrow> ProviderLimitResult \<Rightarrow> verdict option" where
  "judge_snapshot env l rq s =
     (if lr_state s \<noteq> EvKnown \<or> lr_decision s \<noteq> LimitAllow then Some (LimitHold, SnapshotNotUsable, [])
      else if src_expiresAt (lr_source s) < rq_leaseExpiresAt rq then Some (LimitHold, LeaseOutlivesSnapshot, [])
      else if \<not> estimates_match s (rq_estimates rq) then Some (LimitHold, EstimateScopeMismatch, [])
      else (case activeReservedAmounts env l (rq_scope rq) (src_incorporated (lr_source s)) of
          None \<Rightarrow> None
        | Some reserved \<Rightarrow> Some (admit_estimates s (rq_model rq) reserved [] (rq_estimates rq))))"

text \<open>The snapshot that a reservation is judged by: the latest of its scope, under the current policy.\<close>

definition current_snapshot ::
    "limit_env \<Rightarrow> limit_ledger \<Rightarrow> limit_scope \<Rightarrow> store_error + ProviderLimitResult option" where
  "current_snapshot env l q =
     (case selectLatestSnapshot l q of
        None \<Rightarrow> Inr None
      | Some s \<Rightarrow>
        (case materializeProviderLimitResult (le_quotaHash env) s (le_now env) of
           None \<Rightarrow> Inl TruthError
         | Some fresh \<Rightarrow>
           (case le_policyResolver env q of
              None \<Rightarrow> Inl integrity_failure
            | Some p \<Rightarrow>
              (case applyProviderLimitPolicy (le_quotaHash env) fresh p of
                 None \<Rightarrow> Inl TruthError
               | Some projected \<Rightarrow> Inr (Some projected)))))"

definition reservation_of ::
    "ProviderLimitReservationRequest \<Rightarrow> string option \<Rightarrow> verdict \<Rightarrow> ProviderLimitPolicy \<Rightarrow> ProviderLimitReservation" where
  "reservation_of rq ref v p =
     (case v of (decision, reason, eff) \<Rightarrow>
        ProviderLimitReservationRequest.extend rq
          \<lparr>rv_snapshotEvidenceRef = ref, rv_decision = decision, rv_reasonCode = reason,
           rv_effectiveRemaining = eff, rv_appliedPolicy = p\<rparr>)"

definition judge ::
    "limit_env \<Rightarrow> limit_ledger \<Rightarrow> ProviderLimitReservationRequest \<Rightarrow> store_error + ProviderLimitReservation" where
  "judge env l rq =
     (case current_snapshot env l (rq_scope rq) of
        Inl e \<Rightarrow> Inl e
      | Inr None \<Rightarrow>
        (case le_policyResolver env (rq_scope rq) of
           None \<Rightarrow> Inl integrity_failure
         | Some p \<Rightarrow> Inr (reservation_of rq None (LimitHold, SnapshotMissing, []) p))
      | Inr (Some s) \<Rightarrow>
        (case judge_snapshot env l rq s of
           None \<Rightarrow> Inl integrity_failure
         | Some v \<Rightarrow> Inr (reservation_of rq (Some (snapshot_ref (lr_limitResultId s))) v (lr_policy s))))"

type_synonym logical_attempt = "string \<times> string \<times> string \<times> string \<times> string"

definition logical_attempt :: "'a ProviderLimitReservationRequest_scheme \<Rightarrow> logical_attempt" where
  "logical_attempt r = (sc_tenantId (rq_scope r), rq_projectId r, rq_runId r, rq_callId r, rq_attemptId r)"

definition logical_winner :: "limit_ledger \<Rightarrow> logical_attempt \<Rightarrow> ProviderLimitReservation option" where
  "logical_winner l a =
     find (\<lambda>r. logical_attempt r = a \<and> rv_decision r = LimitAllow) (ll_reservations l)"

definition same_reservation_key :: "ProviderLimitReservation \<Rightarrow> ProviderLimitReservation \<Rightarrow> bool" where
  "same_reservation_key r s \<longleftrightarrow>
     rq_reservationId r = rq_reservationId s
     \<or> (rq_scope r)\<lparr>sc_accountRefHash := None\<rparr> = (rq_scope s)\<lparr>sc_accountRefHash := None\<rparr>
       \<and> rq_idempotencyKey r = rq_idempotencyKey s"

text \<open>
  The unique index of the winners is the last one created, and SQLite checks it first.
\<close>

definition insert_reservation ::
    "limit_env \<Rightarrow> limit_ledger \<Rightarrow> ProviderLimitReservation \<Rightarrow> (ProviderLimitReservation \<times> bool) store_result" where
  "insert_reservation env l r =
     (case if rv_decision r = LimitAllow then logical_winner l (logical_attempt r) else None of
        Some winner \<Rightarrow>
          Inl (StoreError LogicalWinnerExists (Some (reservationEvidenceRef env (rq_reservationId winner))))
      | None \<Rightarrow>
          if list_ex (same_reservation_key r) (ll_reservations l) then Inl ConstraintError
          else Inr ((r, True), l\<lparr>ll_reservations := ll_reservations l @ [r]\<rparr>))"

definition find_reservation_by_key ::
    "limit_ledger \<Rightarrow> limit_scope \<Rightarrow> string \<Rightarrow> ProviderLimitReservation option" where
  "find_reservation_by_key l q k =
     find (\<lambda>r. rq_scope r = q \<and> rq_idempotencyKey r = k) (ll_reservations l)"

definition reserveWithStatus ::
    "limit_env \<Rightarrow> limit_ledger \<Rightarrow> ProviderLimitReservationRequest \<Rightarrow> (ProviderLimitReservation \<times> bool) store_result" where
  "reserveWithStatus env l rq =
     (if \<not> assertProviderLimitReservationRequest (le_quotaHash env) rq then Inl TruthError
      else (case find_reservation_by_key l (rq_scope rq) (rq_idempotencyKey rq) of
          Some persisted \<Rightarrow>
            if requestFromReservation persisted \<noteq> rq then Inl (StoreError IdempotencyConflict None)
            else Inr ((persisted, False), l)
        | None \<Rightarrow>
            if le_now env < rq_requestedAt rq \<or> rq_leaseExpiresAt rq \<le> le_now env then Inl integrity_failure
            else (case judge env l rq of
                Inl e \<Rightarrow> Inl e
              | Inr r \<Rightarrow>
                  if \<not> assertProviderLimitReservation (le_quotaHash env) r then Inl TruthError
                  else insert_reservation env l r)))"

section \<open>Reservation events\<close>

record reservation_query =
  qu_projectId :: string
  qu_scope :: limit_scope

definition find_reservation ::
    "limit_ledger \<Rightarrow> reservation_query \<Rightarrow> string \<Rightarrow> ProviderLimitReservation option" where
  "find_reservation l q rid =
     find (\<lambda>r. rq_reservationId r = rid \<and> rq_projectId r = qu_projectId q \<and> rq_scope r = qu_scope q)
       (ll_reservations l)"

definition last_event :: "limit_ledger \<Rightarrow> string \<Rightarrow> StoredReservationEvent option" where
  "last_event l rid = (case events_of l rid of [] \<Rightarrow> None | es \<Rightarrow> Some (last es))"

definition replay_event ::
    "limit_env \<Rightarrow> limit_ledger \<Rightarrow> ProviderLimitReservation \<Rightarrow> ProviderLimitReservationEvent
     \<Rightarrow> StoredReservationEvent \<Rightarrow> (StoredReservationEvent \<times> bool) store_result" where
  "replay_event env l r event stored =
     (if se_reservationId stored \<noteq> rq_reservationId r \<or> plain_event stored \<noteq> event
      then Inl (StoreError IdempotencyConflict None)
      else if \<not> verified_termination env r (plain_event stored) then Inl integrity_failure
      else Inr ((stored, False), l))"

definition event_timely ::
    "limit_env \<Rightarrow> ProviderLimitReservation \<Rightarrow> StoredReservationEvent option \<Rightarrow> ProviderLimitReservationEvent \<Rightarrow> bool" where
  "event_timely env r previous event \<longleftrightarrow>
     rq_requestedAt r \<le> ev_occurredAt event \<and> ev_occurredAt event \<le> le_now env
     \<and> (case previous of None \<Rightarrow> True | Some p \<Rightarrow> ev_occurredAt p \<le> ev_occurredAt event)
     \<and> (ev_kind event = EvDispatched \<longrightarrow> ev_occurredAt event < rq_leaseExpiresAt r)"

definition actual_settles :: "ProviderLimitReservation \<Rightarrow> ProviderLimitReservationEvent \<Rightarrow> bool" where
  "actual_settles r event \<longleftrightarrow>
     (let as = (case ev_actual event of None \<Rightarrow> [] | Some as \<Rightarrow> as)
      in (ev_kind event = EvConsumed \<longrightarrow> length as = length (rq_estimates r))
         \<and> list_all (\<lambda>a. list_ex (\<lambda>e. am_windowId e = am_windowId a \<and> am_unit e = am_unit a)
              (rq_estimates r)) as)"

definition stored_event ::
    "limit_env \<Rightarrow> ProviderLimitReservation \<Rightarrow> StoredReservationEvent option \<Rightarrow> ProviderLimitReservationEvent
     \<Rightarrow> StoredReservationEvent" where
  "stored_event env r previous event =
     (let sequence = (case previous of None \<Rightarrow> 0 | Some p \<Rightarrow> se_sequence p) + 1;
          previousHash = map_option se_hash previous
      in ProviderLimitReservationEvent.extend event
           \<lparr>se_reservationId = rq_reservationId r, se_sequence = sequence, se_previousHash = previousHash,
            se_hash = le_seal env (rq_reservationId r) sequence event previousHash\<rparr>)"

definition append_new_event ::
    "limit_env \<Rightarrow> limit_ledger \<Rightarrow> ProviderLimitReservation \<Rightarrow> ProviderLimitReservationEvent
     \<Rightarrow> (StoredReservationEvent \<times> bool) store_result" where
  "append_new_event env l r event =
     (let previous = last_event l (rq_reservationId r); before = map_option ev_kind previous
      in if before = Some EvConsumed \<or> before = Some EvReleased then Inl (StoreError ReservationSettled None)
         else if ev_kind event = EvConsumed \<and> before \<noteq> Some EvDispatched then Inl integrity_failure
         else if ev_kind event = EvDispatched \<and> before \<noteq> None then Inl (StoreError ReservationSettled None)
         else if \<not> event_timely env r previous event \<or> ev_fenceTokenHash event \<noteq> rq_fenceTokenHash r
           \<or> \<not> verified_termination env r event \<or> \<not> actual_settles r event then Inl integrity_failure
         else (let stored = stored_event env r previous event
               in Inr ((stored, True), l\<lparr>ll_events := ll_events l @ [stored]\<rparr>)))"

definition appendReservationEventWithStatus ::
    "limit_env \<Rightarrow> limit_ledger \<Rightarrow> reservation_query \<Rightarrow> string \<Rightarrow> ProviderLimitReservationEvent
     \<Rightarrow> (StoredReservationEvent \<times> bool) store_result" where
  "appendReservationEventWithStatus env l q rid event =
     (if \<not> assertProviderLimitReservationEvent event then Inl TruthError
      else (case find_reservation l q rid of
          None \<Rightarrow> Inl (StoreError ReservationNotFound None)
        | Some r \<Rightarrow>
            if rv_decision r \<noteq> LimitAllow then Inl (StoreError ReservationSettled None)
            else (case find_event l (ev_eventId event) of
                Some stored \<Rightarrow> replay_event env l r event stored
              | None \<Rightarrow> append_new_event env l r event)))"

datatype reservation_state = RsRejected | RsAdmitted | RsDispatched | RsConsumed | RsReleased | RsExpiredUnreconciled

record reservation_view =
  vw_reservation :: ProviderLimitReservation
  vw_events :: "StoredReservationEvent list"
  vw_state :: reservation_state

definition view_state :: "ProviderLimitReservation \<Rightarrow> StoredReservationEvent list \<Rightarrow> int \<Rightarrow> reservation_state" where
  "view_state r es t =
     (let terminal = (if es = [] then None else Some (ev_kind (last es)))
      in if rv_decision r = LimitHold then RsRejected
         else if terminal = Some EvConsumed then RsConsumed
         else if terminal = Some EvReleased then RsReleased
         else if rq_leaseExpiresAt r \<le> t then RsExpiredUnreconciled
         else if terminal = Some EvDispatched then RsDispatched else RsAdmitted)"

definition getReservation ::
    "limit_env \<Rightarrow> limit_ledger \<Rightarrow> reservation_query \<Rightarrow> string \<Rightarrow> int \<Rightarrow> store_error + reservation_view option" where
  "getReservation env l q rid t =
     (case find_reservation l q rid of
        None \<Rightarrow> Inr None
      | Some r \<Rightarrow>
          (let es = events_of l rid
           in if assertReservationLifecycle env r es
              then Inr (Some \<lparr>vw_reservation = r, vw_events = es, vw_state = view_state r es t\<rparr>)
              else Inl integrity_failure))"

text \<open>A dispatch is granted to its first claimant, the others get its evidence.\<close>

record execution_grant =
  gr_reservationId :: string
  gr_dispatchEventRef :: string
  gr_dispatchEventHash :: string

datatype dispatch_claim = Claimed execution_grant | NotClaimed string

definition event_ref :: "'a ProviderLimitReservationEvent_scheme \<Rightarrow> string" where
  "event_ref e = event_ref_prefix @ ev_eventId e"

definition claimDispatch ::
    "limit_env \<Rightarrow> limit_ledger \<Rightarrow> reservation_query \<Rightarrow> string \<Rightarrow> ProviderLimitReservationEvent
     \<Rightarrow> dispatch_claim store_result" where
  "claimDispatch env l q rid event =
     (if ev_kind event \<noteq> EvDispatched then Inl integrity_failure
      else (case appendReservationEventWithStatus env l q rid event of
          Inr ((stored, created), l') \<Rightarrow>
            Inr (if created then Claimed \<lparr>gr_reservationId = rid, gr_dispatchEventRef = event_ref stored,
                                          gr_dispatchEventHash = se_hash stored\<rparr>
                 else NotClaimed (event_ref stored), l')
        | Inl error \<Rightarrow>
            if error \<noteq> StoreError ReservationSettled None then Inl error
            else (case getReservation env l q rid (le_now env) of
                Inl e \<Rightarrow> Inl e
              | Inr None \<Rightarrow> Inl error
              | Inr (Some view) \<Rightarrow>
                (case find (\<lambda>e. ev_kind e = EvDispatched) (vw_events view) of
                   None \<Rightarrow> Inl error
                 | Some grant \<Rightarrow> Inr (NotClaimed (event_ref grant), l)))))"

end
