(* ===== verification/Provider_Admission.thy ===== *)
theory Provider_Admission
  imports Role_Invocation Provider_Concurrency Quota_Ledger
begin

text \<open>
  \<open>src/core/provider-limit-admission.ts\<close>: a role call is admitted by resolving its candidates
  and reserving quota for the selected one; a candidate that is held is fed back as limited, and
  the next one is tried.

  The store is passed as its two operations. One admission reads the clock once. SHA-256 and the
  codes of the errors that have no evidence are arguments; \<open>buildReservation\<close> is a total function.
\<close>

section \<open>Requests and results\<close>

record AdmissionCandidateScope =
  ac_provider :: string
  ac_model :: string
  ac_accountRefHash :: "string option"
  ac_quotaScopeRefHash :: string
  ac_authMode :: InvocationAuthMode
  ac_backend :: limit_backend
  ac_reachabilityEvidenceRef :: string

record AdmissionRequest =
  ar_invocation :: RoleInvocationRequest
  ar_candidateScopes :: "(string, AdmissionCandidateScope) js_map"
  ar_concurrencyCapabilities :: "(string, ConcurrencyCapabilityRequest) js_map option"
  ar_buildReservation :: "RoleInvocationSelected \<Rightarrow> ProviderLimitReservationRequest"

record AdmissionAttempt =
  aa_provider :: string
  aa_model :: string
  aa_reservation :: "ProviderLimitReservation option"
  aa_errorRef :: "string option"
  aa_concurrency :: "ConcurrencyCapabilityEvidence option"

datatype admission_hold = HoldFallbackExhausted | HoldNotExecutable | HoldStoreFailure

datatype admission_result =
    AdmissionAllowed ProviderLimitReservation RoleInvocationResolution "AdmissionAttempt list"
  | AdmissionHeld admission_hold RoleInvocationResolution "AdmissionAttempt list"

datatype admission_error =
    IdentityMismatch | DuplicateReservation | MissingReachabilityEvidence | CapabilityTypeError

type_synonym 'l reserve_fn =
  "'l \<Rightarrow> ProviderLimitReservationRequest \<Rightarrow> store_error + (ProviderLimitReservation \<times> bool) \<times> 'l"
type_synonym 'l get_fn = "'l \<Rightarrow> reservation_query \<Rightarrow> string \<Rightarrow> store_error + reservation_view option"

record 'l admission_store =
  as_reserve :: "'l reserve_fn"
  as_get :: "'l get_fn"
  as_sha256 :: "string \<Rightarrow> string"
  as_errorCode :: "store_error \<Rightarrow> string"

definition reservation_ref :: "'l admission_store \<Rightarrow> string \<Rightarrow> string" where
  "reservation_ref sto i = ''provider-limit-reservation:'' @ as_sha256 sto i"

definition errorEvidenceRef :: "'l admission_store \<Rightarrow> store_error \<Rightarrow> string" where
  "errorEvidenceRef sto e =
     (case e of
        StoreError code (Some ref) \<Rightarrow> ref
      | _ \<Rightarrow> ''provider-limit-admission-error:'' @ as_sha256 sto (as_errorCode sto e))"

type_synonym invocation_identity =
  "string \<times> string \<times> string \<times> string option \<times> string \<times> string \<times> string \<times> string"

definition invocationIdentity :: "ProviderLimitReservationRequest \<Rightarrow> invocation_identity" where
  "invocationIdentity r = (sc_tenantId (rq_scope r), rq_projectId r, rq_runId r, rq_taskId r, rq_callId r,
     rq_attemptId r, rq_fenceTokenHash r, rq_receiptRef r)"

definition sameBackend :: "limit_backend \<Rightarrow> limit_backend \<Rightarrow> bool" where
  "sameBackend a b \<longleftrightarrow> lb_transport a = lb_transport b \<and> lb_executionBackend a = lb_executionBackend b
     \<and> lb_endpointRefHash a = lb_endpointRefHash b"

definition withLimitDecision ::
    "(string, ProviderEvidence) js_map \<Rightarrow> string \<Rightarrow> bool \<Rightarrow> string list \<Rightarrow> (string, ProviderEvidence) js_map" where
  "withLimitDecision ev provider limited refs =
     (case map_of ev provider of
        None \<Rightarrow> ev
      | Some existing \<Rightarrow> AList.update provider
          \<lparr>pe_reachability = pe_reachability existing,
           pe_limits = \<lparr>le_state = EvKnown, le_limited = limited, le_evidenceRefs = refs\<rparr>\<rparr> ev)"

definition reservationQuery :: "ProviderLimitReservationRequest \<Rightarrow> reservation_query" where
  "reservationQuery r = \<lparr>qu_projectId = rq_projectId r, qu_scope = rq_scope r\<rparr>"

definition missingConcurrencyEvidenceRef :: "'l admission_store \<Rightarrow> string \<Rightarrow> string" where
  "missingConcurrencyEvidenceRef sto provider =
     ''provider-concurrency-capability:'' @ as_sha256 sto (''missing:'' @ provider)"

definition terminalResolution ::
    "RoleInvocationResolution \<Rightarrow> InvocationReasonCode \<Rightarrow> string \<Rightarrow> RoleInvocationResolution" where
  "terminalResolution res reason ref =
     (let attempts = map (\<lambda>a. if at_accepted a then a\<lparr>at_accepted := False, at_reasonCode := reason\<rparr> else a)
            (rr_attempts res)
      in res\<lparr>rr_selected := None, rr_attempts := attempts, rr_rejected := attempts,
           rr_decisionReasonCode := reason,
           rr_resolved := \<lparr>is_provider = None, is_model = None, is_source = SelNone, is_reasonCode = reason\<rparr>,
           rr_limits := (EvUnavailable, [ref])\<rparr>)"

section \<open>The loop\<close>

record 'l admission_state =
  sa_evidence :: "(string, ProviderEvidence) js_map"
  sa_attempts :: "AdmissionAttempt list"
  sa_reservationIds :: "string list"
  sa_identity :: "invocation_identity option"
  sa_store :: 'l

type_synonym admission_outcome = "admission_error + admission_result"

datatype 'l admission_step = Continue "'l admission_state" | Stop admission_outcome 'l

definition resolve_with ::
    "ModelRegistry \<Rightarrow> AdmissionRequest \<Rightarrow> (string, ProviderEvidence) js_map \<Rightarrow> RoleInvocationResolution" where
  "resolve_with reg rq ev = resolveRoleInvocation reg ((ar_invocation rq)\<lparr>ri_evidence := ev\<rparr>)"

definition candidate_scoped :: "AdmissionRequest \<Rightarrow> RoleInvocationSelected \<Rightarrow> string \<Rightarrow> AdmissionCandidateScope option" where
  "candidate_scoped rq selected ref =
     (case map_of (ar_candidateScopes rq) (sel_provider selected) of
        None \<Rightarrow> None
      | Some c \<Rightarrow> if ac_provider c = sel_provider selected \<and> ac_model c = sel_model selected
            \<and> ac_reachabilityEvidenceRef c = ref then Some c else None)"

datatype concurrency_gate =
    GateMissing | GateFailed | GateHeld ConcurrencyCapabilityEvidence
  | GateOpen "ConcurrencyCapabilityEvidence option"

definition concurrency_gate_of :: "AdmissionRequest \<Rightarrow> string \<Rightarrow> concurrency_gate" where
  "concurrency_gate_of rq provider =
     (case ar_concurrencyCapabilities rq of
        None \<Rightarrow> GateOpen None
      | Some m \<Rightarrow> (case map_of m provider of
          None \<Rightarrow> GateMissing
        | Some q \<Rightarrow> (case resolveProviderConcurrencyCapability q of
            None \<Rightarrow> GateFailed
          | Some c \<Rightarrow> if ce_decision c = ConcHold then GateHeld c else GateOpen (Some c))))"

definition reservation_matches ::
    "RoleInvocationSelected \<Rightarrow> string \<Rightarrow> AdmissionCandidateScope \<Rightarrow> ProviderLimitReservationRequest \<Rightarrow> bool" where
  "reservation_matches selected ref c r \<longleftrightarrow>
     sc_provider (rq_scope r) = sel_provider selected \<and> rq_model r = sel_model selected
     \<and> rq_reachabilityEvidenceRef r = ref \<and> sc_accountRefHash (rq_scope r) = ac_accountRefHash c
     \<and> sc_quotaScopeRefHash (rq_scope r) = ac_quotaScopeRefHash c \<and> sc_authMode (rq_scope r) = ac_authMode c
     \<and> sameBackend (rq_backend r) (ac_backend c)"

definition attempt_for ::
    "RoleInvocationSelected \<Rightarrow> ProviderLimitReservation option \<Rightarrow> string option
     \<Rightarrow> ConcurrencyCapabilityEvidence option \<Rightarrow> AdmissionAttempt" where
  "attempt_for selected r ref concurrency =
     \<lparr>aa_provider = sel_provider selected, aa_model = sel_model selected, aa_reservation = r,
      aa_errorRef = ref, aa_concurrency = concurrency\<rparr>"

definition with_last_error :: "AdmissionAttempt list \<Rightarrow> string \<Rightarrow> AdmissionAttempt list" where
  "with_last_error attempts ref =
     (if attempts = [] then [] else butlast attempts @ [(last attempts)\<lparr>aa_errorRef := Some ref\<rparr>])"

definition limited_refs :: "'l admission_store \<Rightarrow> ProviderLimitReservation \<Rightarrow> string list" where
  "limited_refs sto r = reservation_ref sto (rq_reservationId r)
     # (case rv_snapshotEvidenceRef r of None \<Rightarrow> [] | Some s \<Rightarrow> [s])"

text \<open>The allowed reservation is recorded, and the candidates are resolved a last time.\<close>

definition finish_allowed ::
    "'l admission_store \<Rightarrow> ModelRegistry \<Rightarrow> AdmissionRequest \<Rightarrow> 'l admission_state \<Rightarrow> RoleInvocationSelected
     \<Rightarrow> ProviderLimitReservation \<Rightarrow> 'l admission_step" where
  "finish_allowed sto reg rq st selected r =
     (let ev = withLimitDecision (sa_evidence st) (sel_provider selected) False
            [reservation_ref sto (rq_reservationId r), the (rv_snapshotEvidenceRef r)];
          final = resolve_with reg rq ev
      in case rr_selected final of
           None \<Rightarrow> Stop (Inl IdentityMismatch) (sa_store st)
         | Some s \<Rightarrow>
             if sel_provider s \<noteq> sel_provider selected \<or> sel_model s \<noteq> sel_model selected
             then Stop (Inl IdentityMismatch) (sa_store st)
             else Stop (Inr (AdmissionAllowed r final (sa_attempts st))) (sa_store st))"

definition reservation_state_name :: "reservation_state option \<Rightarrow> string" where
  "reservation_state_name s =
     (case s of
        None \<Rightarrow> ''missing''
      | Some RsRejected \<Rightarrow> ''rejected'' | Some RsAdmitted \<Rightarrow> ''admitted'' | Some RsDispatched \<Rightarrow> ''dispatched''
      | Some RsConsumed \<Rightarrow> ''consumed'' | Some RsReleased \<Rightarrow> ''released''
      | Some RsExpiredUnreconciled \<Rightarrow> ''expired-unreconciled'')"

definition reservation_state_ref :: "'l admission_store \<Rightarrow> string \<Rightarrow> reservation_state option \<Rightarrow> string" where
  "reservation_state_ref sto i s =
     ''provider-limit-reservation-state:'' @ as_sha256 sto (i @ '':'' @ reservation_state_name s)"

text \<open>A reservation that existed before is executable only while it is admitted.\<close>

definition after_reserve ::
    "'l admission_store \<Rightarrow> ModelRegistry \<Rightarrow> AdmissionRequest \<Rightarrow> 'l admission_state \<Rightarrow> RoleInvocationResolution
     \<Rightarrow> RoleInvocationSelected \<Rightarrow> ProviderLimitReservationRequest \<Rightarrow> ProviderLimitReservation \<Rightarrow> bool
     \<Rightarrow> 'l admission_step" where
  "after_reserve sto reg rq st res selected request r created =
     (if rv_decision r = LimitHold then
        Continue (st\<lparr>sa_evidence := withLimitDecision (sa_evidence st) (sel_provider selected) True (limited_refs sto r)\<rparr>)
      else if created then finish_allowed sto reg rq st selected r
      else (case as_get sto (sa_store st) (reservationQuery request) (rq_reservationId r) of
          Inl e \<Rightarrow>
            Stop (Inr (AdmissionHeld HoldStoreFailure
              (terminalResolution res RcValidationFailed (errorEvidenceRef sto e))
              (with_last_error (sa_attempts st) (errorEvidenceRef sto e)))) (sa_store st)
        | Inr view \<Rightarrow>
            (let ref = reservation_state_ref sto (rq_reservationId r) (map_option vw_state view)
             in if map_option vw_state view \<noteq> Some RsAdmitted then
                  Stop (Inr (AdmissionHeld HoldNotExecutable (terminalResolution res RcDuplicateInvocation ref)
                    (with_last_error (sa_attempts st) ref))) (sa_store st)
                else finish_allowed sto reg rq st selected r)))"

definition reserve_selected ::
    "'l admission_store \<Rightarrow> ModelRegistry \<Rightarrow> AdmissionRequest \<Rightarrow> 'l admission_state \<Rightarrow> RoleInvocationResolution
     \<Rightarrow> RoleInvocationSelected \<Rightarrow> string \<Rightarrow> AdmissionCandidateScope \<Rightarrow> ConcurrencyCapabilityEvidence option
     \<Rightarrow> 'l admission_step" where
  "reserve_selected sto reg rq st res selected ref scope concurrency =
     (let request = ar_buildReservation rq selected; identity = invocationIdentity request;
          stop = (\<lambda>e. Stop (Inl e) (sa_store st))
      in if \<not> reservation_matches selected ref scope request then stop IdentityMismatch
         else if sa_identity st \<noteq> None \<and> sa_identity st \<noteq> Some identity then stop IdentityMismatch
         else if rq_reservationId request \<in> set (sa_reservationIds st) then stop DuplicateReservation
         else (case as_reserve sto (sa_store st) request of
             Inl e \<Rightarrow>
               Stop (Inr (AdmissionHeld HoldStoreFailure
                 (terminalResolution res RcValidationFailed (errorEvidenceRef sto e))
                 (sa_attempts st @ [attempt_for selected None (Some (errorEvidenceRef sto e)) concurrency])))
                 (sa_store st)
           | Inr ((r, created), l') \<Rightarrow>
               after_reserve sto reg rq
                 (st\<lparr>sa_attempts := sa_attempts st @ [attempt_for selected (Some r) None concurrency],
                     sa_reservationIds := sa_reservationIds st @ [rq_reservationId request],
                     sa_identity := Some identity, sa_store := l'\<rparr>)
                 res selected request r created))"

definition admit_step ::
    "'l admission_store \<Rightarrow> ModelRegistry \<Rightarrow> AdmissionRequest \<Rightarrow> 'l admission_state \<Rightarrow> 'l admission_step" where
  "admit_step sto reg rq st =
     (let res = resolve_with reg rq (sa_evidence st); stop = (\<lambda>x. Stop x (sa_store st));
          limit = (\<lambda>st provider refs.
            Continue (st\<lparr>sa_evidence := withLimitDecision (sa_evidence st) provider True refs\<rparr>))
      in case rr_selected res of
           None \<Rightarrow> stop (Inr (AdmissionHeld HoldFallbackExhausted res (sa_attempts st)))
         | Some selected \<Rightarrow>
           (case map_option (\<lambda>a. re_evidenceRef (at_reachability a)) (find at_accepted (rr_attempts res)) of
              Some (Some ref) \<Rightarrow>
                (case candidate_scoped rq selected ref of
                   None \<Rightarrow> stop (Inl IdentityMismatch)
                 | Some scope \<Rightarrow>
                     (case concurrency_gate_of rq (sel_provider selected) of
                        GateMissing \<Rightarrow> limit st (sel_provider selected)
                          [missingConcurrencyEvidenceRef sto (sel_provider selected)]
                      | GateFailed \<Rightarrow> stop (Inl CapabilityTypeError)
                      | GateHeld c \<Rightarrow> limit
                          (st\<lparr>sa_attempts := sa_attempts st @ [attempt_for selected None None (Some c)]\<rparr>)
                          (sel_provider selected) (ce_evidenceRefs c)
                      | GateOpen c \<Rightarrow> reserve_selected sto reg rq st res selected ref scope c))
            | _ \<Rightarrow> stop (Inl MissingReachabilityEvidence)))"

fun admit_loop ::
    "'l admission_store \<Rightarrow> ModelRegistry \<Rightarrow> AdmissionRequest \<Rightarrow> nat \<Rightarrow> 'l admission_state
     \<Rightarrow> admission_outcome \<times> 'l" where
  "admit_loop sto reg rq 0 st =
     (Inr (AdmissionHeld HoldFallbackExhausted (resolve_with reg rq (sa_evidence st)) (sa_attempts st)), sa_store st)"
| "admit_loop sto reg rq (Suc n) st =
     (case admit_step sto reg rq st of
        Stop result l \<Rightarrow> (result, l)
      | Continue st' \<Rightarrow> admit_loop sto reg rq n st')"

definition admission_providers :: "AdmissionRequest \<Rightarrow> string list" where
  "admission_providers rq =
     js_set_of (ri_primaryProvider (ar_invocation rq) # ri_fallbackProviders (ar_invocation rq))"

definition admitRoleInvocation ::
    "'l admission_store \<Rightarrow> ModelRegistry \<Rightarrow> AdmissionRequest \<Rightarrow> 'l \<Rightarrow> admission_outcome \<times> 'l" where
  "admitRoleInvocation sto reg rq l =
     admit_loop sto reg rq (Suc (length (admission_providers rq)))
       \<lparr>sa_evidence = ri_evidence (ar_invocation rq), sa_attempts = [], sa_reservationIds = [],
        sa_identity = None, sa_store = l\<rparr>"

text \<open>The store that the ledger provides, at one reading of the clock.\<close>

definition ledger_store :: "limit_env \<Rightarrow> (store_error \<Rightarrow> string) \<Rightarrow> limit_ledger admission_store" where
  "ledger_store env code =
     \<lparr>as_reserve = reserveWithStatus env, as_get = (\<lambda>l q i. getReservation env l q i (le_now env)),
      as_sha256 = le_sha256 env, as_errorCode = code\<rparr>"

definition claimAdmittedProviderDispatch ::
    "limit_env \<Rightarrow> limit_ledger \<Rightarrow> ProviderLimitReservation \<Rightarrow> ProviderLimitReservationEvent
     \<Rightarrow> dispatch_claim store_result" where
  "claimAdmittedProviderDispatch env l r event =
     claimDispatch env l (reservationQuery (requestFromReservation r)) (rq_reservationId r) event"

end
