(* ===== verification/Quota_Invariant.thy ===== *)
theory Quota_Invariant
  imports Quota_Ledger
begin

text \<open>
  The ledgers that the operations of the store can produce, and what holds of their rows.
\<close>

section \<open>Reachable ledgers\<close>

definition empty_ledger :: limit_ledger where
  "empty_ledger = \<lparr>ll_snapshots = [], ll_reservations = [], ll_events = []\<rparr>"

text \<open>
  The first list holds the logical attempts that an execution grant was given for. The
  environment of each call is its own: the clock may jump, the policy may change, and what
  the termination verifier accepts may change; only the quota hash is fixed.
\<close>

inductive ledger_reachable :: "quota_hash \<Rightarrow> logical_attempt list \<Rightarrow> limit_ledger \<Rightarrow> bool" for h where
  start: "ledger_reachable h [] empty_ledger"
| put: "ledger_reachable h gs l \<Longrightarrow> le_quotaHash env = h \<Longrightarrow>
    putSnapshot env l s = Inr (x, l') \<Longrightarrow> ledger_reachable h gs l'"
| reserve: "ledger_reachable h gs l \<Longrightarrow> le_quotaHash env = h \<Longrightarrow>
    reserveWithStatus env l rq = Inr (y, l') \<Longrightarrow> ledger_reachable h gs l'"
| append: "ledger_reachable h gs l \<Longrightarrow> le_quotaHash env = h \<Longrightarrow>
    appendReservationEventWithStatus env l q rid ev = Inr (z, l') \<Longrightarrow> ledger_reachable h gs l'"
| claim: "ledger_reachable h gs l \<Longrightarrow> le_quotaHash env = h \<Longrightarrow>
    claimDispatch env l q rid ev = Inr (Claimed g, l') \<Longrightarrow> find_reservation l q rid = Some r \<Longrightarrow>
    ledger_reachable h (logical_attempt r # gs) l'"
| refused: "ledger_reachable h gs l \<Longrightarrow> le_quotaHash env = h \<Longrightarrow>
    claimDispatch env l q rid ev = Inr (NotClaimed e, l') \<Longrightarrow> ledger_reachable h gs l'"

section \<open>What an operation adds\<close>

lemma find_append: "find P (xs @ ys) = (case find P xs of None \<Rightarrow> find P ys | Some x \<Rightarrow> Some x)"
  by (induction xs) auto

lemma find_Some_set: "find P xs = Some x \<Longrightarrow> x \<in> set xs \<and> P x"
  by (auto simp: find_Some_iff)

lemma expected_evaluation_policy:
  "\<not> (lr_state r = EvKnown \<and> src_authority (lr_source r) = Authoritative) \<Longrightarrow>
   expected_evaluation (r\<lparr>lr_policy := p\<rparr>) = expected_evaluation r"
  by (auto simp: expected_evaluation_def)

lemma assert_policy_update:
  assumes "assertProviderLimitResult h r" "policy_ok p"
    and "\<not> (lr_state r = EvKnown \<and> src_authority (lr_source r) = Authoritative)"
  shows "assertProviderLimitResult h (r\<lparr>lr_policy := p\<rparr>)"
proof -
  have "evaluation_of (r\<lparr>lr_policy := p\<rparr>) = expected_evaluation (r\<lparr>lr_policy := p\<rparr>)"
    using assms by (simp add: expected_evaluation_policy evaluation_of_def assertProviderLimitResult_def)
  moreover have "known_resets (r\<lparr>lr_policy := p\<rparr>) = known_resets r"
    by (simp add: known_resets_def)
  ultimately show ?thesis using assms(1,2) by (simp add: assertProviderLimitResult_def)
qed

lemma apply_policy_valid:
  assumes "applyProviderLimitPolicy h r p = Some r'"
  shows "assertProviderLimitResult h r'"
proof (cases "lr_state r = EvKnown \<and> src_authority (lr_source r) = Authoritative")
  case True
  with assms show ?thesis
    by (simp only: applyProviderLimitPolicy_def Let_def) (simp split: if_splits)
next
  case False
  with assms have "assertProviderLimitResult h r" "policy_ok p" "r' = r\<lparr>lr_policy := p\<rparr>"
    by (simp_all only: applyProviderLimitPolicy_def Let_def) (simp_all split: if_splits)
  with False show ?thesis by (simp only: assert_policy_update not_False_eq_True)
qed

lemma apply_policy_keeps:
  assumes "applyProviderLimitPolicy h r p = Some r'"
  shows "lr_windows r' = lr_windows r" "lr_source r' = lr_source r"
    "lr_requiredWindowIds r' = lr_requiredWindowIds r" "lr_scope r' = lr_scope r"
    "lr_limitResultId r' = lr_limitResultId r" "lr_policy r' = p"
  using assms by (auto simp: applyProviderLimitPolicy_def Let_def with_evaluation_def
      split: if_splits prod.splits)

lemma putSnapshot_cases:
  assumes "putSnapshot env l result = Inr (x, l')"
  obtains (same) "l' = l"
  | (added) s where "l' = l\<lparr>ll_snapshots := ll_snapshots l @ [s]\<rparr>"
      "assertProviderLimitResult (le_quotaHash env) s" "verifyIncorporatedEvents l s"
      "\<not> list_ex (same_snapshot_key s) (ll_snapshots l)"
  using assms
  by (auto simp: putSnapshot_def insert_snapshot_def dest: apply_policy_valid
      split: if_splits option.splits)

lemma reserve_cases:
  assumes "reserveWithStatus env l rq = Inr ((r, created), l')"
  obtains (same) "l' = l" "\<not> created" "r \<in> set (ll_reservations l)" "requestFromReservation r = rq"
      "find_reservation_by_key l (rq_scope rq) (rq_idempotencyKey rq) = Some r"
  | (added) "l' = l\<lparr>ll_reservations := ll_reservations l @ [r]\<rparr>" created
      "assertProviderLimitReservation (le_quotaHash env) r" "judge env l rq = Inr r"
      "rq_requestedAt rq \<le> le_now env" "le_now env < rq_leaseExpiresAt rq"
      "\<not> list_ex (same_reservation_key r) (ll_reservations l)"
      "rv_decision r = LimitAllow \<Longrightarrow> logical_winner l (logical_attempt r) = None"
proof (cases "find_reservation_by_key l (rq_scope rq) (rq_idempotencyKey rq)")
  case (Some p)
  with assms have "l' = l" "\<not> created" "p = r" "requestFromReservation r = rq"
    by (auto simp: reserveWithStatus_def split: if_splits)
  with Some show ?thesis
    by (intro same) (auto simp: find_reservation_by_key_def dest: find_Some_set)
next
  case None
  with assms obtain r' where
    j: "judge env l rq = Inr r'" "assertProviderLimitReservation (le_quotaHash env) r'"
       "insert_reservation env l r' = Inr ((r, created), l')"
       "rq_requestedAt rq \<le> le_now env" "le_now env < rq_leaseExpiresAt rq"
    by (auto simp: reserveWithStatus_def split: if_splits sum.splits)
  from j(3) have "r' = r" "l' = l\<lparr>ll_reservations := ll_reservations l @ [r]\<rparr>" created
      "\<not> list_ex (same_reservation_key r) (ll_reservations l)"
      "rv_decision r = LimitAllow \<Longrightarrow> logical_winner l (logical_attempt r) = None"
    by (auto simp: insert_reservation_def split: if_splits option.splits)
  with j show ?thesis by (intro added) auto
qed

lemma find_reservation_SomeD:
  "find_reservation l q rid = Some r \<Longrightarrow>
   r \<in> set (ll_reservations l) \<and> rq_reservationId r = rid \<and> rq_projectId r = qu_projectId q \<and> rq_scope r = qu_scope q"
  by (auto simp: find_reservation_def dest: find_Some_set)

lemma append_cases:
  assumes "appendReservationEventWithStatus env l q rid ev = Inr ((stored, created), l')"
  obtains (same) "l' = l" "\<not> created" "find_event l (ev_eventId ev) = Some stored" "plain_event stored = ev"
      "se_reservationId stored = rid"
  | (added) r where "find_reservation l q rid = Some r" "rv_decision r = LimitAllow" created
      "assertProviderLimitReservationEvent ev" "find_event l (ev_eventId ev) = None"
      "append_new_event env l r ev = Inr ((stored, True), l')"
proof -
  obtain r where r: "find_reservation l q rid = Some r" "rv_decision r = LimitAllow"
      "assertProviderLimitReservationEvent ev"
    using assms by (auto simp: appendReservationEventWithStatus_def split: if_splits option.splits)
  show ?thesis
  proof (cases "find_event l (ev_eventId ev)")
    case (Some s)
    with assms r have "replay_event env l r ev s = Inr ((stored, created), l')"
      by (auto simp: appendReservationEventWithStatus_def)
    with Some find_reservation_SomeD [OF r(1)] show ?thesis
      by (intro same) (auto simp: replay_event_def split: if_splits)
  next
    case None
    with assms r have *: "append_new_event env l r ev = Inr ((stored, created), l')"
      by (auto simp: appendReservationEventWithStatus_def)
    then have created by (auto simp: append_new_event_def Let_def split: if_splits)
    with * None r show ?thesis by (intro added) auto
  qed
qed

definition event_follows :: "reservation_event_type option \<Rightarrow> reservation_event_type \<Rightarrow> bool" where
  "event_follows before k \<longleftrightarrow>
     (case before of None \<Rightarrow> k \<noteq> EvConsumed | Some b \<Rightarrow> b = EvDispatched \<and> k \<noteq> EvDispatched)"

lemma append_new_event_Inr:
  assumes "append_new_event env l r ev = Inr ((stored, created), l')"
  shows "stored = stored_event env r (last_event l (rq_reservationId r)) ev"
    "l' = l\<lparr>ll_events := ll_events l @ [stored]\<rparr>"
    "event_timely env r (last_event l (rq_reservationId r)) ev"
    "ev_fenceTokenHash ev = rq_fenceTokenHash r" "verified_termination env r ev" "actual_settles r ev"
    "event_follows (map_option ev_kind (last_event l (rq_reservationId r))) (ev_kind ev)"
proof -
  define p where "p = last_event l (rq_reservationId r)"
  from assms show
    "stored = stored_event env r (last_event l (rq_reservationId r)) ev"
    "l' = l\<lparr>ll_events := ll_events l @ [stored]\<rparr>"
    "event_timely env r (last_event l (rq_reservationId r)) ev"
    "ev_fenceTokenHash ev = rq_fenceTokenHash r" "verified_termination env r ev" "actual_settles r ev"
    by (auto simp only: append_new_event_def Let_def sum.simps prod.inject split: if_splits)
  from assms have "\<not> (map_option ev_kind p = Some EvConsumed \<or> map_option ev_kind p = Some EvReleased)"
      "\<not> (ev_kind ev = EvConsumed \<and> map_option ev_kind p \<noteq> Some EvDispatched)"
      "\<not> (ev_kind ev = EvDispatched \<and> map_option ev_kind p \<noteq> None)"
    by (simp_all only: append_new_event_def Let_def p_def split: if_splits) simp_all
  then show "event_follows (map_option ev_kind (last_event l (rq_reservationId r))) (ev_kind ev)"
    unfolding event_follows_def p_def [symmetric]
    by (cases "map_option ev_kind p"; cases "the (map_option ev_kind p)"; cases "ev_kind ev") auto
qed

lemma claimDispatch_cases:
  assumes "claimDispatch env l q rid ev = Inr (c, l')"
  obtains (granted) stored where "appendReservationEventWithStatus env l q rid ev = Inr ((stored, True), l')"
      "c = Claimed \<lparr>gr_reservationId = rid, gr_dispatchEventRef = event_ref stored, gr_dispatchEventHash = se_hash stored\<rparr>"
      "ev_kind ev = EvDispatched"
  | (refused) e where "l' = l" "c = NotClaimed e"
proof (cases "appendReservationEventWithStatus env l q rid ev")
  case (Inl e)
  with assms have "l' = l \<and> (\<exists>e. c = NotClaimed e)"
    by (auto simp: claimDispatch_def split: if_splits sum.splits option.splits)
  then show ?thesis by (metis refused)
next
  case (Inr x)
  then obtain stored created l'' where x: "appendReservationEventWithStatus env l q rid ev = Inr ((stored, created), l'')"
    by (metis surj_pair)
  show ?thesis
  proof (cases created)
    case True
    with assms x show ?thesis by (intro granted) (auto simp: claimDispatch_def split: if_splits)
  next
    case False
    with x have "l'' = l" by (auto elim: append_cases)
    with assms x False show ?thesis
      by (intro refused) (auto simp: claimDispatch_def split: if_splits)
  qed
qed

section \<open>The rows of a reachable ledger\<close>

definition rows_of :: "limit_ledger \<Rightarrow> string \<Rightarrow> StoredReservationEvent list" where
  "rows_of l rid = filter (\<lambda>e. se_reservationId e = rid) (ll_events l)"

text \<open>An environment whose verifier accepts every termination.\<close>

definition trusting :: limit_env where
  "trusting = \<lparr>le_now = 0, le_policyResolver = \<lambda>_. None,
     le_terminationEvidenceVerifier = \<lambda>_ _ _ _. True, le_quotaHash = \<lambda>_. [],
     le_sha256 = \<lambda>_. [], le_seal = \<lambda>_ _ _ _. []\<rparr>"

lemma lifecycle_event_trusting:
  "lifecycle_event_ok env r i p e \<longleftrightarrow>
     lifecycle_event_ok trusting r i p e \<and> verified_termination env r (plain_event e)"
  by (auto simp: lifecycle_event_ok_def verified_termination_def trusting_def)

lemma lifecycle_from_trusting:
  "lifecycle_from env r i p es \<longleftrightarrow>
     lifecycle_from trusting r i p es \<and> (\<forall>e \<in> set es. verified_termination env r (plain_event e))"
  by (induction es arbitrary: i p) (auto simp: lifecycle_event_trusting [of env])

lemma lifecycle_trusting:
  "assertReservationLifecycle env r es \<longleftrightarrow>
     assertReservationLifecycle trusting r es \<and> (\<forall>e \<in> set es. verified_termination env r (plain_event e))"
  by (auto simp: assertReservationLifecycle_def lifecycle_from_trusting [of env])

lemma lifecycle_from_append:
  "lifecycle_from env r i p (es @ [e]) \<longleftrightarrow>
     lifecycle_from env r i p es \<and>
     lifecycle_event_ok env r (i + length es) (if es = [] then p else Some (last es)) e"
  by (induction es arbitrary: i p) auto

lemma lifecycle_sequence:
  "lifecycle_from env r i p es \<Longrightarrow> map se_sequence es = [i + 1 ..< i + 1 + length es]"
proof (induction es arbitrary: i p)
  case (Cons e es)
  then have "se_sequence e = i + 1" "map se_sequence es = [i + 2 ..< i + 2 + length es]"
    by (auto simp: lifecycle_event_ok_def)
  then show ?case by (simp add: upt_conv_Cons del: upt_Suc)
qed simp

lemma lifecycle_sorted: "lifecycle_from env r i p es \<Longrightarrow> sort_key se_sequence es = es"
  by (rule sort_key_id_if_sorted) (simp only: lifecycle_sequence sorted_upt)

definition allowed_reservations :: "limit_ledger \<Rightarrow> ProviderLimitReservation list" where
  "allowed_reservations l = filter (\<lambda>r. rv_decision r = LimitAllow) (ll_reservations l)"

definition ledger_ok :: "quota_hash \<Rightarrow> limit_ledger \<Rightarrow> bool" where
  "ledger_ok h l \<longleftrightarrow>
     (\<forall>s \<in> set (ll_snapshots l). assertProviderLimitResult h s)
     \<and> (\<forall>r \<in> set (ll_reservations l). assertProviderLimitReservation h r
          \<and> assertReservationLifecycle trusting r (rows_of l (rq_reservationId r)))
     \<and> distinct (map rq_reservationId (ll_reservations l))
     \<and> distinct (map logical_attempt (allowed_reservations l))
     \<and> distinct (map ev_eventId (ll_events l))
     \<and> (\<forall>e \<in> set (ll_events l). assertProviderLimitReservationEvent e
          \<and> se_reservationId e \<in> rq_reservationId ` set (allowed_reservations l))"

lemma events_of_rows:
  "ledger_ok h l \<Longrightarrow> r \<in> set (ll_reservations l) \<Longrightarrow>
   events_of l (rq_reservationId r) = rows_of l (rq_reservationId r)"
  by (auto simp: ledger_ok_def events_of_def rows_of_def assertReservationLifecycle_def
      intro: lifecycle_sorted)

lemma last_event_rows:
  "ledger_ok h l \<Longrightarrow> r \<in> set (ll_reservations l) \<Longrightarrow>
   last_event l (rq_reservationId r)
     = (let es = rows_of l (rq_reservationId r) in if es = [] then None else Some (last es))"
  by (simp add: last_event_def events_of_rows Let_def split: list.split)

lemma rows_of_append [simp]:
  "rows_of (l\<lparr>ll_events := ll_events l @ [e]\<rparr>) rid
     = rows_of l rid @ (if se_reservationId e = rid then [e] else [])"
  "rows_of (l\<lparr>ll_reservations := rs\<rparr>) rid = rows_of l rid"
  "rows_of (l\<lparr>ll_snapshots := ss\<rparr>) rid = rows_of l rid"
  by (simp_all add: rows_of_def)

lemma allowed_append [simp]:
  "allowed_reservations (l\<lparr>ll_reservations := ll_reservations l @ [r]\<rparr>)
     = allowed_reservations l @ (if rv_decision r = LimitAllow then [r] else [])"
  "allowed_reservations (l\<lparr>ll_events := es\<rparr>) = allowed_reservations l"
  "allowed_reservations (l\<lparr>ll_snapshots := ss\<rparr>) = allowed_reservations l"
  by (simp_all add: allowed_reservations_def)

lemma stored_event_simps [simp]:
  "se_reservationId (stored_event env r p ev) = rq_reservationId r"
  "se_sequence (stored_event env r p ev) = (case p of None \<Rightarrow> 0 | Some p \<Rightarrow> se_sequence p) + 1"
  "se_previousHash (stored_event env r p ev) = map_option se_hash p"
  "plain_event (stored_event env r p ev) = ev"
  "ev_eventId (stored_event env r p ev) = ev_eventId ev" "ev_kind (stored_event env r p ev) = ev_kind ev"
  "ev_occurredAt (stored_event env r p ev) = ev_occurredAt ev"
  "ev_fenceTokenHash (stored_event env r p ev) = ev_fenceTokenHash ev"
  by (simp_all add: stored_event_def Let_def plain_event_def ProviderLimitReservationEvent.defs)

lemma assert_stored_event [simp]:
  "assertProviderLimitReservationEvent (stored_event env r p ev) = assertProviderLimitReservationEvent ev"
  by (cases "ev_terminationEvidenceRef ev"; cases "ev_terminationAuthorityRef ev")
    (simp_all add: stored_event_def Let_def ProviderLimitReservationEvent.defs
      assertProviderLimitReservationEvent_def)

section \<open>The invariant\<close>

lemma ledger_ok_empty: "ledger_ok h empty_ledger"
  by (simp add: ledger_ok_def empty_ledger_def allowed_reservations_def)

lemma ledger_ok_snapshot:
  "ledger_ok h l \<Longrightarrow> assertProviderLimitResult h s \<Longrightarrow>
   ledger_ok h (l\<lparr>ll_snapshots := ll_snapshots l @ [s]\<rparr>)"
  by (simp add: ledger_ok_def)

lemma no_rows_of_new:
  assumes "ledger_ok h l" "rid \<notin> rq_reservationId ` set (ll_reservations l)"
  shows "rows_of l rid = []"
  using assms by (fastforce simp: ledger_ok_def rows_of_def allowed_reservations_def filter_empty_conv)

lemma ledger_ok_reservation:
  assumes ok: "ledger_ok h l" and r: "assertProviderLimitReservation h r"
    and new: "\<not> list_ex (same_reservation_key r) (ll_reservations l)"
    and winner: "rv_decision r = LimitAllow \<Longrightarrow> logical_winner l (logical_attempt r) = None"
  shows "ledger_ok h (l\<lparr>ll_reservations := ll_reservations l @ [r]\<rparr>)"
proof -
  have fresh: "rq_reservationId r \<notin> rq_reservationId ` set (ll_reservations l)"
    using new by (auto simp: list_ex_iff same_reservation_key_def)
  then have "rows_of l (rq_reservationId r) = []" by (rule no_rows_of_new [OF ok])
  then have "assertReservationLifecycle trusting r (rows_of l (rq_reservationId r))"
    by (simp add: assertReservationLifecycle_def)
  moreover have "logical_attempt r \<notin> logical_attempt ` set (allowed_reservations l)"
    if "rv_decision r = LimitAllow"
    using winner [OF that] by (auto simp: logical_winner_def find_None_iff allowed_reservations_def)
  ultimately show ?thesis using ok r fresh by (auto simp: ledger_ok_def)
qed

lemma lifecycle_last_kind:
  assumes "assertReservationLifecycle env r es" "length es = 2"
  shows "ev_kind (last es) \<noteq> EvDispatched"
proof -
  obtain a b where "es = [a, b]" using assms(2) by (cases es; cases "tl es") auto
  with assms(1) show ?thesis by (auto simp: assertReservationLifecycle_def lifecycle_event_ok_def)
qed

lemma lifecycle_extended:
  assumes life: "assertReservationLifecycle trusting r es"
    and p: "p = (if es = [] then None else Some (last es))"
    and timely: "event_timely env r p ev" and fence: "ev_fenceTokenHash ev = rq_fenceTokenHash r"
    and follows: "event_follows (map_option ev_kind p) (ev_kind ev)"
  shows "assertReservationLifecycle trusting r (es @ [stored_event env r p ev])"
proof -
  have "length es \<noteq> 2"
  proof
    assume two: "length es = 2"
    then have "es \<noteq> []" by auto
    with two lifecycle_last_kind [OF life two] follows p show False by (simp add: event_follows_def)
  qed
  with life have short: "length es \<le> 1" by (simp add: assertReservationLifecycle_def)
  have seq: "map se_sequence es = [1 ..< 1 + length es]"
    using life lifecycle_sequence [of trusting r 0 None es] by (simp add: assertReservationLifecycle_def)
  have "lifecycle_event_ok trusting r (length es) p (stored_event env r p ev)"
  proof (cases "es = []")
    case True
    with p timely fence follows show ?thesis
      by (auto simp: lifecycle_event_ok_def event_timely_def event_follows_def verified_termination_def trusting_def)
  next
    case False
    with short obtain a where "es = [a]" by (cases es; cases "tl es") auto
    with p seq timely fence follows show ?thesis
      by (cases "ev_kind ev") (auto simp: lifecycle_event_ok_def event_timely_def event_follows_def
          verified_termination_def trusting_def)
  qed
  with life short p show ?thesis
    by (auto simp: assertReservationLifecycle_def lifecycle_from_append)
qed

lemma find_event_None: "find_event l i = None \<Longrightarrow> i \<notin> ev_eventId ` set (ll_events l)"
  by (auto simp: find_event_def find_None_iff)

lemma ledger_ok_event:
  assumes ok: "ledger_ok h l" and r: "r \<in> set (ll_reservations l)" "rv_decision r = LimitAllow"
    and ev: "assertProviderLimitReservationEvent ev" "find_event l (ev_eventId ev) = None"
    and app: "append_new_event env l r ev = Inr ((stored, True), l')"
  shows "ledger_ok h l'"
proof -
  note new = append_new_event_Inr [OF app]
  let ?rid = "rq_reservationId r"
  have life: "assertReservationLifecycle trusting r (rows_of l ?rid)"
    using ok r by (simp add: ledger_ok_def)
  have p: "last_event l ?rid = (if rows_of l ?rid = [] then None else Some (last (rows_of l ?rid)))"
    using last_event_rows [OF ok r(1)] by (simp add: Let_def)
  have grown: "assertReservationLifecycle trusting r (rows_of l ?rid @ [stored])"
    unfolding new(1) using lifecycle_extended [OF life p new(3,4,7)] .
  have same: "r' = r" if "r' \<in> set (ll_reservations l)" "rq_reservationId r' = ?rid" for r'
    using that r(1) ok by (auto simp: ledger_ok_def distinct_map inj_on_def)
  have "stored = stored_event env r (last_event l ?rid) ev" by (rule new(1))
  moreover have "r \<in> set (allowed_reservations l)" using r by (simp add: allowed_reservations_def)
  ultimately show ?thesis
    using ok ev find_event_None [OF ev(2)] grown same unfolding new(2)
    by (auto simp: ledger_ok_def)
qed

lemma append_ok:
  assumes "ledger_ok h l" "appendReservationEventWithStatus env l q rid ev = Inr (x, l')"
  shows "ledger_ok h l'"
proof -
  obtain stored created where x: "x = (stored, created)" by fastforce
  from assms(2) [unfolded x] show ?thesis
  proof (cases rule: append_cases)
    case (added r)
    with assms(1) find_reservation_SomeD [OF added(1)] show ?thesis by (blast intro: ledger_ok_event)
  qed (simp add: assms(1))
qed

lemma reachable_ok: "ledger_reachable h gs l \<Longrightarrow> ledger_ok h l"
proof (induction rule: ledger_reachable.induct)
  case start
  show ?case by (rule ledger_ok_empty)
next
  case (put gs l env s x l')
  from put(3) put show ?case by (cases rule: putSnapshot_cases) (auto intro: ledger_ok_snapshot)
next
  case (reserve gs l env rq y l')
  obtain r created where y: "y = (r, created)" by fastforce
  from reserve(3) [unfolded y] reserve show ?case
    by (cases rule: reserve_cases) (auto intro: ledger_ok_reservation)
next
  case (append gs l env q rid ev z l')
  then show ?case by (blast intro: append_ok)
next
  case (claim gs l env q rid ev g l' r)
  from claim(3) claim show ?case by (cases rule: claimDispatch_cases) (auto intro: append_ok)
next
  case (refused gs l env q rid ev e l')
  from refused(3) refused show ?case by (cases rule: claimDispatch_cases) (auto intro: append_ok)
qed

end
