(* ===== verification/Quota_Fits.thy ===== *)
theory Quota_Fits
  imports Quota_Invariant
begin

lemma bit_length_le: "a < 2 ^ n \<Longrightarrow> bit_length a \<le> n"
proof (induction n arbitrary: a)
  case 0
  then show ?case by (subst bit_length.simps) simp
next
  case (Suc n)
  then have "a div 2 < 2 ^ n" by auto
  with Suc.IH have "bit_length (a div 2) \<le> n" by blast
  then show ?case by (subst bit_length.simps) simp
qed

lemma fl_pos_int:
  assumes "k < 2 ^ 53"
  shows "fl_pos k 1 = of_int k"
proof -
  have "bit_length 1 = 1" by (simp add: bit_length.simps)
  moreover have "bit_length k \<le> 53" using assms by (rule bit_length_le)
  ultimately have "fl_exponent k 1 \<le> 52" by (simp add: fl_exponent_def Let_def)
  then show ?thesis by (simp add: fl_pos_def Let_def round_half_even_def)
qed

text \<open>The integers below \<open>2 ^ 53\<close> are doubles.\<close>

lemma fl_of_int: "\<bar>k\<bar> < 2 ^ 53 \<Longrightarrow> fl (of_int k) = of_int k"
  by (simp add: fl_def fl_pos_int)

lemma fl_Ints:
  assumes "x \<in> \<int>" "\<bar>x\<bar> < 2 ^ 53"
  shows "fl x = x"
proof -
  obtain k where k: "x = of_int k" using assms(1) by (auto elim: Ints_cases)
  have "of_int \<bar>k\<bar> < (of_int (2 ^ 53) :: rat)" using assms(2) unfolding k by simp
  then have "\<bar>k\<bar> < 2 ^ 53" by (simp only: of_int_less_iff)
  then show ?thesis unfolding k by (rule fl_of_int)
qed

section \<open>What is outstanding\<close>

definition amount_for :: "string \<Rightarrow> limit_amount list \<Rightarrow> rat" where
  "amount_for w as = sum_list (map am_amount (filter (\<lambda>a. am_windowId a = w) as))"

text \<open>All that the reservations of a scope take from a window.\<close>

definition all_outstanding :: "limit_ledger \<Rightarrow> limit_scope \<Rightarrow> string list \<Rightarrow> limit_amount list" where
  "all_outstanding l q incorporated =
     concat (map (\<lambda>r. outstanding_amounts incorporated r (events_of l (rq_reservationId r)))
       (active_reservations l q))"

definition outstanding :: "limit_ledger \<Rightarrow> limit_scope \<Rightarrow> string list \<Rightarrow> string \<Rightarrow> rat" where
  "outstanding l q incorporated w = amount_for w (all_outstanding l q incorporated)"

lemma amount_for_simps [simp]:
  "amount_for w [] = 0"
  "amount_for w (a # as) = (if am_windowId a = w then am_amount a + amount_for w as else amount_for w as)"
  "amount_for w (as @ bs) = amount_for w as + amount_for w bs"
  by (simp_all add: amount_for_def)

lemma amount_for_nonneg: "(\<And>a. a \<in> set as \<Longrightarrow> 0 \<le> am_amount a) \<Longrightarrow> 0 \<le> amount_for w as"
  by (induction as) auto

lemma amount_for_Ints: "(\<And>a. a \<in> set as \<Longrightarrow> am_amount a \<in> \<int>) \<Longrightarrow> amount_for w as \<in> \<int>"
  by (induction as) auto

lemma amount_for_distinct:
  "distinct (map am_windowId as) \<Longrightarrow> a \<in> set as \<Longrightarrow> amount_for (am_windowId a) as = am_amount a"
proof (induction as)
  case (Cons b bs)
  have "amount_for w bs = 0" if "w \<notin> am_windowId ` set bs" for w
    using that by (induction bs) auto
  with Cons show ?case by (auto simp: image_iff)
qed simp

text \<open>The totals that the store computes, when the amounts are integers and their sum a double.\<close>

lemma add_amount_total:
  "map_of (add_amount t a) w = (if am_windowId a = w then Some (fl_add (reserved_for t w) (am_amount a)) else map_of t w)"
  by (simp add: add_amount_def update_conv' reserved_for_def)

lemma reserved_for_fold:
  assumes "\<And>a. a \<in> set as \<Longrightarrow> 0 \<le> am_amount a \<and> am_amount a \<in> \<int>"
    and "reserved_for t w \<in> \<int>" "0 \<le> reserved_for t w"
    and "reserved_for t w + amount_for w as < 2 ^ 53"
  shows "reserved_for (foldl add_amount t as) w = reserved_for t w + amount_for w as"
  using assms
proof (induction as arbitrary: t)
  case (Cons a as)
  have pos: "0 \<le> amount_for w as" using Cons.prems(1) by (auto intro: amount_for_nonneg)
  show ?case
  proof (cases "am_windowId a = w")
    case True
    have a: "0 \<le> am_amount a" "am_amount a \<in> \<int>" using Cons.prems(1) by auto
    have "reserved_for t w + am_amount a \<in> \<int>" using Cons.prems(2) a by simp
    moreover have "\<bar>reserved_for t w + am_amount a\<bar> < 2 ^ 53"
      using Cons.prems(3,4) True a pos by simp
    ultimately have step: "reserved_for (add_amount t a) w = reserved_for t w + am_amount a"
      using True by (simp add: reserved_for_def [of "add_amount t a"] add_amount_total fl_add_def fl_Ints)
    then have "reserved_for (foldl add_amount (add_amount t a) as) w
        = reserved_for (add_amount t a) w + amount_for w as"
      using Cons.prems a True by (intro Cons.IH) (auto simp: add.assoc)
    with step True show ?thesis by simp
  next
    case False
    then have "reserved_for (add_amount t a) w = reserved_for t w"
      by (simp add: reserved_for_def add_amount_total)
    with Cons False show ?thesis by auto
  qed
qed simp

section \<open>Judging a reservation\<close>

lemma admitted_estimate:
  assumes "admit_estimates s m t eff es = (LimitAllow, reason, eff')" "e \<in> set es"
  obtains w least where "windows_by_id (lr_windows s) (am_windowId e) = Some w" "w_remaining w = Some least"
    "w_unit w = am_unit e" "w_model w = None \<or> w_model w = Some m"
    "am_amount e \<le> max 0 (fl_sub least (reserved_for t (am_windowId e)))"
    "\<not> policy_blocks (lr_policy s) w
        (fl_sub (max 0 (fl_sub least (reserved_for t (am_windowId e)))) (am_amount e))"
  using assms
proof (induction es arbitrary: eff thesis)
  case (Cons b es)
  show ?case
  proof (cases "e = b")
    case True
    with Cons.prems(1,2) show ?thesis
      by (auto simp: Let_def not_less split: option.splits if_splits)
  next
    case False
    with Cons.prems(3) have "e \<in> set es" by simp
    moreover obtain eff2 where "admit_estimates s m t eff2 es = (LimitAllow, reason, eff')"
      using Cons.prems(2) by (auto simp: Let_def split: option.splits if_splits)
    ultimately show ?thesis using Cons.IH Cons.prems(1) by blast
  qed
qed simp

lemma windows_by_id_SomeD:
  "windows_by_id ws i = Some w \<Longrightarrow> w \<in> set ws \<and> w_windowId w = i"
  by (auto simp: windows_by_id_def dest!: map_of_SomeD)

lemma apply_policy_unknown:
  "applyProviderLimitPolicy h r p = Some r' \<Longrightarrow> lr_state r \<noteq> EvKnown \<Longrightarrow> lr_state r' \<noteq> EvKnown"
  by (auto simp: applyProviderLimitPolicy_def split: if_splits)

lemma materialize_known:
  assumes "materializeProviderLimitResult h s now = Some fresh" "lr_state fresh = EvKnown"
  shows "fresh = s" "src_fetchedAt (lr_source s) \<le> now" "now < src_expiresAt (lr_source s)"
  using assms by (auto simp: materializeProviderLimitResult_def with_evaluation_def held_def split: if_splits)

lemma current_snapshot_known:
  assumes "current_snapshot env l q = Inr (Some s)" "lr_state s = EvKnown"
  obtains s0 where "selectLatestSnapshot l q = Some s0"
    "applyProviderLimitPolicy (le_quotaHash env) s0 (lr_policy s) = Some s"
    "le_policyResolver env q = Some (lr_policy s)"
    "src_fetchedAt (lr_source s0) \<le> le_now env" "le_now env < src_expiresAt (lr_source s0)"
proof -
  obtain s0 fresh p where *: "selectLatestSnapshot l q = Some s0"
      "materializeProviderLimitResult (le_quotaHash env) s0 (le_now env) = Some fresh"
      "le_policyResolver env q = Some p" "applyProviderLimitPolicy (le_quotaHash env) fresh p = Some s"
    using assms(1) by (auto simp: current_snapshot_def split: option.splits)
  have "lr_state fresh = EvKnown" using apply_policy_unknown [OF *(4)] assms(2) by auto
  note fresh = materialize_known [OF *(2) this]
  have "lr_policy s = p" using apply_policy_keeps(6) [OF *(4)] .
  with * fresh show ?thesis by (intro that) auto
qed

lemma judge_allow:
  assumes "judge env l rq = Inr r" "rv_decision r = LimitAllow"
  obtains s reserved reason eff where "current_snapshot env l (rq_scope rq) = Inr (Some s)"
    "lr_state s = EvKnown" "lr_decision s = LimitAllow"
    "rq_leaseExpiresAt rq \<le> src_expiresAt (lr_source s)" "estimates_match s (rq_estimates rq)"
    "activeReservedAmounts env l (rq_scope rq) (src_incorporated (lr_source s)) = Some reserved"
    "admit_estimates s (rq_model rq) reserved [] (rq_estimates rq) = (LimitAllow, reason, eff)"
    "r = reservation_of rq (Some (snapshot_ref (lr_limitResultId s))) (LimitAllow, reason, eff) (lr_policy s)"
proof -
  have decision: "rv_decision (reservation_of rq ref v p) = fst v" for ref v p
    by (simp add: reservation_of_def ProviderLimitReservationRequest.defs split: prod.split)
  obtain s v where s: "current_snapshot env l (rq_scope rq) = Inr (Some s)" "judge_snapshot env l rq s = Some v"
      "r = reservation_of rq (Some (snapshot_ref (lr_limitResultId s))) v (lr_policy s)"
    using assms by (auto simp: judge_def decision split: sum.splits option.splits)
  with assms(2) have allow: "fst v = LimitAllow" by (simp add: decision)
  with s(2) have known: "lr_state s = EvKnown" "lr_decision s = LimitAllow"
      "rq_leaseExpiresAt rq \<le> src_expiresAt (lr_source s)" "estimates_match s (rq_estimates rq)"
    by (auto simp: judge_snapshot_def split: if_splits)
  with s(2) obtain reserved where
    "activeReservedAmounts env l (rq_scope rq) (src_incorporated (lr_source s)) = Some reserved"
    "v = admit_estimates s (rq_model rq) reserved [] (rq_estimates rq)"
    by (auto simp: judge_snapshot_def split: option.splits)
  moreover obtain reason eff where "v = (LimitAllow, reason, eff)" using allow by (cases v) auto
  ultimately show ?thesis using s known by (intro that [of s reserved reason eff]) simp_all
qed

lemma reserved_totals:
  "activeReservedAmounts env l q inc = Some reserved \<Longrightarrow> reserved = foldl add_amount [] (all_outstanding l q inc)"
  by (auto simp: activeReservedAmounts_def all_outstanding_def Let_def split: if_splits)

section \<open>An allowed reservation fits\<close>

definition whole_double :: "rat \<Rightarrow> bool" where
  "whole_double x \<longleftrightarrow> x \<in> \<int> \<and> 0 \<le> x \<and> x < 2 ^ 53"

text \<open>The quantities that count for a scope are integers, and so small that their sums are doubles.\<close>

definition counted_window :: "limit_ledger \<Rightarrow> ProviderLimitResult \<Rightarrow> ProviderLimitWindow \<Rightarrow> bool" where
  "counted_window l s w \<longleftrightarrow>
     (case w_remaining w of None \<Rightarrow> True | Some v \<Rightarrow> whole_double v)
     \<and> (case w_limit w of None \<Rightarrow> True | Some v \<Rightarrow> whole_double v)
     \<and> outstanding l (lr_scope s) (src_incorporated (lr_source s)) (w_windowId w) < 2 ^ 53"

definition counted :: "limit_ledger \<Rightarrow> ProviderLimitReservationRequest \<Rightarrow> bool" where
  "counted l rq \<longleftrightarrow>
     list_all (\<lambda>e. am_amount e \<in> \<int>) (rq_estimates rq) \<and>
     (case selectLatestSnapshot l (rq_scope rq) of
        None \<Rightarrow> True
      | Some s \<Rightarrow>
          list_all (counted_window l s) (lr_windows s)
          \<and> list_all (\<lambda>a. am_amount a \<in> \<int>)
              (all_outstanding l (rq_scope rq) (src_incorporated (lr_source s))))"

lemma latest_mem: "latest best ss = Some s \<Longrightarrow> s \<in> set ss \<or> best = Some s"
  by (induction best ss rule: latest.induct) (auto split: option.splits if_splits)

lemma selectLatestSnapshot_SomeD:
  "selectLatestSnapshot l q = Some s \<Longrightarrow> s \<in> set (ll_snapshots l) \<and> lr_scope s = q"
  by (auto simp: selectLatestSnapshot_def dest: latest_mem)

lemma outstanding_nonneg:
  assumes "ledger_ok h l" "a \<in> set (all_outstanding l q inc)"
  shows "0 \<le> am_amount a"
proof -
  obtain r where r: "r \<in> set (active_reservations l q)"
      "a \<in> set (outstanding_amounts inc r (events_of l (rq_reservationId r)))"
    using assms(2) by (auto simp: all_outstanding_def)
  have "r \<in> set (ll_reservations l)" using r(1) by (simp add: active_reservations_def)
  then have row: "assertProviderLimitReservation h r" using assms(1) by (simp add: ledger_ok_def)
  show ?thesis
  proof (cases "a \<in> set (rq_estimates r)")
    case True
    with row show ?thesis
      by (auto simp: assertProviderLimitReservation_def assertProviderLimitReservationRequest_def list_all_iff)
  next
    case False
    let ?e = "last (events_of l (rq_reservationId r))"
    have "events_of l (rq_reservationId r) \<noteq> []" "a \<in> set (case ev_actual ?e of None \<Rightarrow> [] | Some as \<Rightarrow> as)"
      using r(2) False by (auto simp: outstanding_amounts_def split: if_splits)
    then have "?e \<in> set (ll_events l)"
      by (metis events_of_def filter_is_subset last_in_set set_sort subsetD)
    then have "assertProviderLimitReservationEvent ?e" using assms(1) by (simp add: ledger_ok_def)
    then show ?thesis
      using \<open>a \<in> set (case ev_actual ?e of None \<Rightarrow> [] | Some as \<Rightarrow> as)\<close>
      by (auto simp: assertProviderLimitReservationEvent_def list_all_iff)
  qed
qed

text \<open>The new reservation adds its own estimates to what is outstanding, and nothing else.\<close>

lemma outstanding_added:
  assumes ok: "ledger_ok h l" and fresh: "rq_reservationId r \<notin> rq_reservationId ` set (ll_reservations l)"
    and allow: "rv_decision r = LimitAllow" and e: "e \<in> set (rq_estimates r)"
    and dist: "distinct (map am_windowId (rq_estimates r))"
  shows "outstanding (l\<lparr>ll_reservations := ll_reservations l @ [r]\<rparr>) (rq_scope r) inc (am_windowId e)
    = outstanding l (rq_scope r) inc (am_windowId e) + am_amount e"
proof -
  let ?l = "l\<lparr>ll_reservations := ll_reservations l @ [r]\<rparr>"
  have same: "events_of ?l rid = events_of l rid" for rid by (simp add: events_of_def)
  have "events_of l (rq_reservationId r) = []"
    using no_rows_of_new [OF ok fresh] by (simp add: events_of_def rows_of_def)
  then have "outstanding_amounts inc r (events_of ?l (rq_reservationId r)) = rq_estimates r"
    unfolding same by (simp add: outstanding_amounts_def)
  moreover have "active_reservations ?l (rq_scope r) = active_reservations l (rq_scope r) @ [r]"
    using allow by (simp add: active_reservations_def)
  ultimately have "all_outstanding ?l (rq_scope r) inc = all_outstanding l (rq_scope r) inc @ rq_estimates r"
    by (simp add: all_outstanding_def same)
  then show ?thesis by (simp add: outstanding_def amount_for_distinct [OF dist e])
qed

end
