(* ===== verification/Quota_Sample.thy ===== *)
theory Quota_Sample
  imports Quota_Fits
begin

text \<open>
  A ledger with one snapshot, 60 of 100 requests used: a reservation of 20 is allowed and its
  dispatch is claimed, a second one of 20 is held.
\<close>

definition sample_hash :: string where
  "sample_hash = replicate 64 (CHR ''a'')"

definition sample_scope :: limit_scope where
  "sample_scope = \<lparr>sc_tenantId = ''acme'', sc_provider = ''openai'', sc_accountRefHash = Some sample_hash,
     sc_quotaScopeRefHash = sample_hash, sc_authMode = AuthSubscription\<rparr>"

definition sample_backend :: limit_backend where
  "sample_backend = \<lparr>lb_transport = TransCli, lb_executionBackend = BackSubprocess, lb_endpointRefHash = None\<rparr>"

definition sample_policy :: "ratio_enforcement \<Rightarrow> ProviderLimitPolicy" where
  "sample_policy m = \<lparr>lp_policyRef = ''policy:team-limits'', lp_ratioEnforcement = Some m,
     lp_warnAtRatio = 1 / 2, lp_blockAtRatio = 7 / 8, lp_minimumRemaining = [(URequests, 2)]\<rparr>"

definition sample_window :: "rat \<Rightarrow> ProviderLimitWindow" where
  "sample_window used = \<lparr>w_windowId = ''session'', w_kind = WSession, w_model = None, w_unit = URequests,
     w_consumed = Some used, w_remaining = Some (100 - used), w_limit = Some 100,
     w_reset = \<lparr>rs_known = False, rs_at = None, rs_displayRefHash = None\<rparr>\<rparr>"

definition sample_snapshot :: "ratio_enforcement \<Rightarrow> rat \<Rightarrow> ProviderLimitPressure \<Rightarrow> ProviderLimitReasonCode \<Rightarrow> ProviderLimitResult" where
  "sample_snapshot m used pressure reason = \<lparr>lr_limitResultId = ''limit-result-1'', lr_idempotencyKey = ''probe-1'',
     lr_projectId = ''web'', lr_scope = sample_scope, lr_backend = sample_backend, lr_state = EvKnown,
     lr_decision = LimitAllow, lr_pressure = pressure, lr_reasonCode = reason, lr_requiredWindowIds = [''session''],
     lr_windows = [sample_window used], lr_policy = sample_policy m,
     lr_source = \<lparr>src_kind = SrcApi, src_authority = Authoritative, src_operatorApprovalRef = None,
       src_evidenceRef = ''evidence:usage-page-1'', src_fetchedAt = 1000, src_expiresAt = 5000, src_incorporated = []\<rparr>,
     lr_evidenceRefs = []\<rparr>"

definition sample_request :: "string \<Rightarrow> rat \<Rightarrow> ProviderLimitReservationRequest" where
  "sample_request name amount = \<lparr>rq_reservationId = name, rq_idempotencyKey = name, rq_projectId = ''web'',
     rq_runId = ''run-1'', rq_taskId = None, rq_callId = name, rq_attemptId = ''1'', rq_fenceTokenHash = sample_hash,
     rq_receiptRef = ''receipt:invocation-1'', rq_reachabilityEvidenceRef = ''reach:probe-0001'',
     rq_model = ''gpt-5.6-codex'', rq_scope = sample_scope, rq_backend = sample_backend,
     rq_estimates = [\<lparr>am_windowId = ''session'', am_unit = URequests, am_amount = amount\<rparr>],
     rq_estimateEvidenceRefs = [''estimate:task-size-1''], rq_leaseExpiresAt = 4000, rq_requestedAt = 1500\<rparr>"

definition sample_env :: "ratio_enforcement \<Rightarrow> limit_env" where
  "sample_env m = \<lparr>le_now = 2000, le_policyResolver = \<lambda>_. Some (sample_policy m),
     le_terminationEvidenceVerifier = \<lambda>_ _ _ _. False, le_quotaHash = \<lambda>_. sample_hash,
     le_sha256 = \<lambda>s. s, le_seal = \<lambda>rid n e p. rid @ ''-'' @ ev_eventId e\<rparr>"

definition sample_query :: reservation_query where
  "sample_query = \<lparr>qu_projectId = ''web'', qu_scope = sample_scope\<rparr>"

definition sample_dispatch :: "string \<Rightarrow> ProviderLimitReservationEvent" where
  "sample_dispatch name = \<lparr>ev_eventId = name, ev_kind = EvDispatched, ev_occurredAt = 1800,
     ev_fenceTokenHash = sample_hash, ev_evidenceRef = ''dispatch:worker-01'',
     ev_terminationEvidenceRef = None, ev_terminationAuthorityRef = None, ev_actual = None\<rparr>"

definition sample_reservation :: ProviderLimitReservation where
  "sample_reservation = reservation_of (sample_request ''res-1'' 20)
     (Some ''provider-limit:limit-result-1'') (LimitAllow, Allowed, [(''session'', 40)]) (sample_policy EnforceRatio)"

definition sample_event :: StoredReservationEvent where
  "sample_event = stored_event (sample_env EnforceRatio) sample_reservation None (sample_dispatch ''ev-1'')"

definition sample_ledger :: "ProviderLimitResult list \<Rightarrow> ProviderLimitReservation list \<Rightarrow> StoredReservationEvent list \<Rightarrow> limit_ledger" where
  "sample_ledger ss rs es = \<lparr>ll_snapshots = ss, ll_reservations = rs, ll_events = es\<rparr>"

lemma sample_ledger_simps [simp]:
  "ll_snapshots (sample_ledger ss rs es) = ss" "ll_reservations (sample_ledger ss rs es) = rs"
  "ll_events (sample_ledger ss rs es) = es"
  "(sample_ledger ss rs es)\<lparr>ll_snapshots := ss'\<rparr> = sample_ledger ss' rs es"
  "(sample_ledger ss rs es)\<lparr>ll_reservations := rs'\<rparr> = sample_ledger ss rs' es"
  "(sample_ledger ss rs es)\<lparr>ll_events := es'\<rparr> = sample_ledger ss rs es'"
  by (simp_all add: sample_ledger_def)

lemma empty_sample: "empty_ledger = sample_ledger [] [] []"
  by (simp add: empty_ledger_def sample_ledger_def)

definition usual_snapshot :: ProviderLimitResult where
  "usual_snapshot = sample_snapshot EnforceRatio 60 PWarn LimitNone"

definition observed_snapshot :: ProviderLimitResult where
  "observed_snapshot = sample_snapshot ObserveOnly 90 PBlock ThresholdObserved"

lemma sample_hash_ok [simp]: "sha256_text sample_hash"
  by (simp add: sha256_text_def sample_hash_def list_all_iff)

lemma sample_texts [simp]:
  "has_identity ''acme''" "has_identity ''web''" "has_identity ''res-1''" "has_identity ''res-2''"
  "has_identity ''run-1''" "has_identity ''1''" "has_identity ''limit-result-1''" "has_identity ''probe-1''"
  "has_identity ''ev-1''" "has_identity ''ev-2''"
  "canonical_provider ''openai''" "canonical_text ''openai''" "canonical_model ''gpt-5.6-codex''"
  "opaque_ref ''policy:team-limits''" "opaque_ref ''evidence:usage-page-1''" "opaque_ref ''receipt:invocation-1''"
  "opaque_ref ''reach:probe-0001''" "opaque_ref ''estimate:task-size-1''" "opaque_ref ''dispatch:worker-01''"
  "opaque_ref ''provider-limit:limit-result-1''" "window_id_ok ''session''"
  by code_simp+

lemma sample_numbers [simp]:
  "normalizeWindow (sample_window 60) = Some (sample_window 60)"
  "normalizeWindow (sample_window 90) = Some (sample_window 90)"
  "evaluateKnownWindows [sample_window 60] [''session''] (sample_policy EnforceRatio) = (EvKnown, LimitAllow, PWarn, LimitNone)"
  "evaluateKnownWindows [sample_window 90] [''session''] (sample_policy ObserveOnly) = (EvKnown, LimitAllow, PBlock, ThresholdObserved)"
  by code_simp+

lemma sample_quota_hash: "le_quotaHash (sample_env m) = (\<lambda>_. sample_hash)"
  by (simp add: sample_env_def)

lemma sample_policy_ok [simp]: "policy_ok (sample_policy m)"
  by (simp add: policy_ok_def sample_policy_def)

lemma sample_window_simps [simp]:
  "w_windowId (sample_window u) = ''session''" "w_unit (sample_window u) = URequests"
  "w_model (sample_window u) = None" "w_remaining (sample_window u) = Some (100 - u)"
  "w_limit (sample_window u) = Some 100" "rs_known (w_reset (sample_window u)) = False"
  by (simp_all add: sample_window_def)

lemma sample_scope_ok [simp]:
  "quota_scope_ok (\<lambda>_. sample_hash) sample_scope sample_backend" "backend_ok sample_backend"
  "known_scope_ok EvKnown sample_scope sample_backend" "opaque_hash (sc_accountRefHash sample_scope) b"
  "sc_tenantId sample_scope = ''acme''" "sc_provider sample_scope = ''openai''"
  by (simp_all add: quota_scope_ok_def backend_ok_def known_scope_ok_def sample_scope_def sample_backend_def opaque_hash_def)

lemma sample_snapshot_ok [simp]:
  "assertProviderLimitResult (\<lambda>_. sample_hash) usual_snapshot"
  "assertProviderLimitResult (\<lambda>_. sample_hash) observed_snapshot"
  by (simp_all add: usual_snapshot_def observed_snapshot_def sample_snapshot_def assertProviderLimitResult_def
      expected_evaluation_def evaluation_of_def known_resets_def source_ok_def)

lemma sample_request_ok [simp]:
  "0 < amount \<Longrightarrow> assertProviderLimitReservationRequest (\<lambda>_. sample_hash) (sample_request ''res-1'' amount)"
  "0 < amount \<Longrightarrow> assertProviderLimitReservationRequest (\<lambda>_. sample_hash) (sample_request ''res-2'' amount)"
  by (simp_all add: assertProviderLimitReservationRequest_def sample_request_def)

lemma sample_event_ok [simp]:
  "assertProviderLimitReservationEvent (sample_dispatch ''ev-1'')"
  "assertProviderLimitReservationEvent (sample_dispatch ''ev-2'')"
  by (simp_all add: assertProviderLimitReservationEvent_def sample_dispatch_def)

lemma snapshot_policy [simp]:
  "applyProviderLimitPolicy (\<lambda>_. sample_hash) usual_snapshot (sample_policy EnforceRatio) = Some usual_snapshot"
  "applyProviderLimitPolicy (\<lambda>_. sample_hash) observed_snapshot (sample_policy ObserveOnly) = Some observed_snapshot"
proof -
  have "with_evaluation (evaluateKnownWindows (lr_windows usual_snapshot) (lr_requiredWindowIds usual_snapshot)
      (sample_policy EnforceRatio)) (usual_snapshot\<lparr>lr_policy := sample_policy EnforceRatio\<rparr>) = usual_snapshot"
    by (simp add: usual_snapshot_def sample_snapshot_def with_evaluation_def)
  then show "applyProviderLimitPolicy (\<lambda>_. sample_hash) usual_snapshot (sample_policy EnforceRatio) = Some usual_snapshot"
    by (simp add: applyProviderLimitPolicy_def) (simp add: usual_snapshot_def sample_snapshot_def)
  have "with_evaluation (evaluateKnownWindows (lr_windows observed_snapshot) (lr_requiredWindowIds observed_snapshot)
      (sample_policy ObserveOnly)) (observed_snapshot\<lparr>lr_policy := sample_policy ObserveOnly\<rparr>) = observed_snapshot"
    by (simp add: observed_snapshot_def sample_snapshot_def with_evaluation_def)
  then show "applyProviderLimitPolicy (\<lambda>_. sample_hash) observed_snapshot (sample_policy ObserveOnly) = Some observed_snapshot"
    by (simp add: applyProviderLimitPolicy_def) (simp add: observed_snapshot_def sample_snapshot_def)
qed

lemma snapshot_simps:
  "lr_state usual_snapshot = EvKnown" "lr_decision usual_snapshot = LimitAllow" "lr_reasonCode usual_snapshot = LimitNone"
  "lr_scope usual_snapshot = sample_scope" "src_fetchedAt (lr_source usual_snapshot) = 1000"
  "src_expiresAt (lr_source usual_snapshot) = 5000" "src_incorporated (lr_source usual_snapshot) = []"
  "lr_limitResultId usual_snapshot = ''limit-result-1''" "lr_windows usual_snapshot = [sample_window 60]"
  "lr_requiredWindowIds usual_snapshot = [''session'']" "lr_policy usual_snapshot = sample_policy EnforceRatio"
  "lr_state observed_snapshot = EvKnown" "lr_decision observed_snapshot = LimitAllow"
  "lr_reasonCode observed_snapshot = ThresholdObserved"
  "lr_scope observed_snapshot = sample_scope" "src_fetchedAt (lr_source observed_snapshot) = 1000"
  "src_expiresAt (lr_source observed_snapshot) = 5000" "src_incorporated (lr_source observed_snapshot) = []"
  "lr_limitResultId observed_snapshot = ''limit-result-1''" "lr_windows observed_snapshot = [sample_window 90]"
  "lr_requiredWindowIds observed_snapshot = [''session'']" "lr_policy observed_snapshot = sample_policy ObserveOnly"
  by (simp_all add: usual_snapshot_def observed_snapshot_def sample_snapshot_def)

lemma sample_env_simps:
  "le_now (sample_env m) = 2000" "le_policyResolver (sample_env m) q = Some (sample_policy m)"
  "le_quotaHash (sample_env m) = (\<lambda>_. sample_hash)"
  by (simp_all add: sample_env_def)

lemma sample_put:
  "putSnapshot (sample_env EnforceRatio) empty_ledger usual_snapshot
     = Inr ((''provider-limit:limit-result-1'', True), sample_ledger [usual_snapshot] [] [])"
  "putSnapshot (sample_env ObserveOnly) empty_ledger observed_snapshot
     = Inr ((''provider-limit:limit-result-1'', True), sample_ledger [observed_snapshot] [] [])"
  by (simp_all add: putSnapshot_def insert_snapshot_def verifyIncorporatedEvents_def snapshot_simps sample_env_simps
      snapshot_ref_def empty_sample)

lemma sample_request_simps:
  "rq_scope (sample_request n x) = sample_scope" "rq_idempotencyKey (sample_request n x) = n"
  "rq_requestedAt (sample_request n x) = 1500" "rq_leaseExpiresAt (sample_request n x) = 4000"
  "rq_model (sample_request n x) = ''gpt-5.6-codex''"
  "rq_estimates (sample_request n x) = [\<lparr>am_windowId = ''session'', am_unit = URequests, am_amount = x\<rparr>]"
  by (simp_all add: sample_request_def)

lemma sample_admission:
  "admit_estimates usual_snapshot ''gpt-5.6-codex'' [] [] [\<lparr>am_windowId = ''session'', am_unit = URequests, am_amount = 20\<rparr>]
     = (LimitAllow, Allowed, [(''session'', 40)])"
  "admit_estimates observed_snapshot ''gpt-5.6-codex'' [] [] [\<lparr>am_windowId = ''session'', am_unit = URequests, am_amount = 1\<rparr>]
     = (LimitHold, PolicyBlock, [(''session'', 10)])"
  by code_simp+

lemma sample_selection:
  "current_snapshot (sample_env EnforceRatio) (sample_ledger [usual_snapshot] [] []) sample_scope = Inr (Some usual_snapshot)"
  "current_snapshot (sample_env ObserveOnly) (sample_ledger [observed_snapshot] [] []) sample_scope = Inr (Some observed_snapshot)"
  by (simp_all add: current_snapshot_def selectLatestSnapshot_def snapshot_simps sample_env_simps
      materializeProviderLimitResult_def)

lemma no_reservations: "activeReservedAmounts env (sample_ledger ss [] []) q inc = Some []"
  by (simp add: activeReservedAmounts_def active_reservations_def)

lemma sample_matches:
  "estimates_match usual_snapshot [\<lparr>am_windowId = ''session'', am_unit = URequests, am_amount = x\<rparr>]"
  "estimates_match observed_snapshot [\<lparr>am_windowId = ''session'', am_unit = URequests, am_amount = x\<rparr>]"
  by (simp_all add: estimates_match_def snapshot_simps)

lemma sample_judgement:
  "judge (sample_env EnforceRatio) (sample_ledger [usual_snapshot] [] []) (sample_request ''res-1'' 20) = Inr sample_reservation"
  "judge (sample_env ObserveOnly) (sample_ledger [observed_snapshot] [] []) (sample_request ''res-2'' 1)
     = Inr (reservation_of (sample_request ''res-2'' 1) (Some ''provider-limit:limit-result-1'')
         (LimitHold, PolicyBlock, [(''session'', 10)]) (sample_policy ObserveOnly))"
  by (simp_all only: judge_def sum.simps option.simps sample_request_simps sample_selection judge_snapshot_def
      snapshot_simps no_reservations sample_matches sample_admission snapshot_ref_def sample_reservation_def
      simp_thms if_False not_less append.simps) simp_all

lemma reservation_of_ok:
  assumes "assertProviderLimitReservationRequest h rq" "policy_ok p" "opaque_ref ref"
    and "d = LimitAllow \<longleftrightarrow> c = Allowed" "c \<noteq> SnapshotMissing"
    and "list_all (\<lambda>(w, v). w \<in> set (map am_windowId (rq_estimates rq)) \<and> 0 \<le> v) eff"
    and "d = LimitAllow \<longrightarrow> list_all (\<lambda>e. case map_of eff (am_windowId e) of None \<Rightarrow> False
          | Some v \<Rightarrow> am_amount e \<le> v) (rq_estimates rq)"
  shows "assertProviderLimitReservation h (reservation_of rq (Some ref) (d, c, eff) p)"
  using assms
  by (simp add: assertProviderLimitReservation_def assertProviderLimitReservationRequest_def reservation_of_def
      ProviderLimitReservationRequest.defs)

lemma sample_reserve:
  "reserveWithStatus (sample_env EnforceRatio) (sample_ledger [usual_snapshot] [] []) (sample_request ''res-1'' 20)
     = Inr ((sample_reservation, True), sample_ledger [usual_snapshot] [sample_reservation] [])"
proof -
  have "assertProviderLimitReservation (\<lambda>_. sample_hash) sample_reservation"
    unfolding sample_reservation_def by (rule reservation_of_ok) (simp_all add: sample_request_simps)
  then show ?thesis
    by (simp add: reserveWithStatus_def sample_env_simps find_reservation_by_key_def sample_request_simps
        sample_judgement insert_reservation_def logical_winner_def)
qed

lemma sample_found:
  "find_reservation (sample_ledger ss [sample_reservation] es) sample_query ''res-1'' = Some sample_reservation"
  "rq_fenceTokenHash sample_reservation = sample_hash" "rv_decision sample_reservation = LimitAllow"
  "rq_reservationId sample_reservation = ''res-1''"
  "rq_requestedAt sample_reservation = 1500" "rq_leaseExpiresAt sample_reservation = 4000"
  by (simp_all add: find_reservation_def sample_reservation_def reservation_of_def
      ProviderLimitReservationRequest.defs sample_request_def sample_query_def)

abbreviation reserved_ledger :: limit_ledger where
  "reserved_ledger \<equiv> sample_ledger [usual_snapshot] [sample_reservation] []"

abbreviation claimed_ledger :: limit_ledger where
  "claimed_ledger \<equiv> sample_ledger [usual_snapshot] [sample_reservation] [sample_event]"

lemma sample_dispatch_simps [simp]:
  "ev_eventId (sample_dispatch n) = n" "ev_kind (sample_dispatch n) = EvDispatched"
  "ev_occurredAt (sample_dispatch n) = 1800" "ev_fenceTokenHash (sample_dispatch n) = sample_hash"
  "ev_actual (sample_dispatch n) = None"
  by (simp_all add: sample_dispatch_def)

lemma sample_append:
  "appendReservationEventWithStatus (sample_env EnforceRatio) reserved_ledger sample_query ''res-1'' (sample_dispatch ''ev-1'')
     = Inr ((sample_event, True), claimed_ledger)"
  by (simp add: appendReservationEventWithStatus_def sample_found find_event_def append_new_event_def last_event_def Let_def
      events_of_def event_timely_def sample_env_simps verified_termination_def actual_settles_def sample_event_def)

lemma sample_claim:
  "claimDispatch (sample_env EnforceRatio) reserved_ledger sample_query ''res-1'' (sample_dispatch ''ev-1'')
     = Inr (Claimed \<lparr>gr_reservationId = ''res-1'', gr_dispatchEventRef = event_ref sample_event,
              gr_dispatchEventHash = se_hash sample_event\<rparr>, claimed_ledger)"
  by (simp add: claimDispatch_def sample_append)

lemma sample_events [simp]:
  "events_of claimed_ledger ''res-1'' = [sample_event]" "ev_kind sample_event = EvDispatched"
  by (simp_all add: events_of_def sample_event_def sample_found)

lemma sample_reachable:
  "ledger_reachable (\<lambda>_. sample_hash) [] (sample_ledger [usual_snapshot] [] [])"
  "ledger_reachable (\<lambda>_. sample_hash) [] reserved_ledger"
  "ledger_reachable (\<lambda>_. sample_hash) [logical_attempt sample_reservation] claimed_ledger"
proof -
  show one: "ledger_reachable (\<lambda>_. sample_hash) [] (sample_ledger [usual_snapshot] [] [])"
    by (rule ledger_reachable.put [OF ledger_reachable.start sample_env_simps(3) sample_put(1)])
  show two: "ledger_reachable (\<lambda>_. sample_hash) [] reserved_ledger"
    by (rule ledger_reachable.reserve [OF one sample_env_simps(3) sample_reserve])
  show "ledger_reachable (\<lambda>_. sample_hash) [logical_attempt sample_reservation] claimed_ledger"
    by (rule ledger_reachable.claim [OF two sample_env_simps(3) sample_claim sample_found(1)])
qed

lemma sample_counted: "counted (sample_ledger [usual_snapshot] [] []) (sample_request ''res-1'' 20)"
  by (simp add: counted_def counted_window_def sample_request_simps selectLatestSnapshot_def snapshot_simps
      whole_double_def outstanding_def all_outstanding_def active_reservations_def)

text \<open>A second claim of the dispatched reservation.\<close>

lemma sample_second_claim:
  "claimDispatch (sample_env EnforceRatio) claimed_ledger sample_query ''res-1'' (sample_dispatch ''ev-2'')
     = Inr (NotClaimed (event_ref sample_event), claimed_ledger)"
proof -
  have id: "ev_eventId sample_event \<noteq> ''ev-2''" by (simp add: sample_event_def)
  have "assertReservationLifecycle (sample_env EnforceRatio) sample_reservation [sample_event]"
    by (simp add: assertReservationLifecycle_def lifecycle_event_ok_def verified_termination_def sample_found
        sample_event_def)
  with id show ?thesis
    by (simp add: claimDispatch_def appendReservationEventWithStatus_def sample_found find_event_def
        append_new_event_def last_event_def getReservation_def Let_def)
qed

text \<open>Only observed, and yet blocking.\<close>

lemma observed_reserve:
  "\<exists>r l. reserveWithStatus (sample_env ObserveOnly) (sample_ledger [observed_snapshot] [] []) (sample_request ''res-2'' 1)
     = Inr ((r, True), l) \<and> rv_decision r = LimitHold \<and> rv_reasonCode r = PolicyBlock"
proof -
  let ?r = "reservation_of (sample_request ''res-2'' 1) (Some ''provider-limit:limit-result-1'')
         (LimitHold, PolicyBlock, [(''session'', 10)]) (sample_policy ObserveOnly)"
  have "assertProviderLimitReservation (\<lambda>_. sample_hash) ?r"
    by (rule reservation_of_ok) (simp_all add: sample_request_simps)
  moreover have "rv_decision ?r = LimitHold" "rv_reasonCode ?r = PolicyBlock"
    by (simp_all add: reservation_of_def ProviderLimitReservationRequest.defs)
  ultimately show ?thesis
    by (simp add: reserveWithStatus_def sample_env_simps find_reservation_by_key_def sample_request_simps
        sample_judgement insert_reservation_def)
qed

end
