(* ===== verification/Quota_Correct.thy ===== *)
theory Quota_Correct
  imports Quota_Sample
begin

text \<open>
  What the ledger promises: an execution is granted once for each logical attempt, a
  reservation goes through its lifecycle, an allowed reservation fits in what its windows have
  left, and repeating a request gives the answer it got first.
\<close>

section \<open>One grant for each attempt\<close>

definition dispatched_attempt :: "limit_ledger \<Rightarrow> logical_attempt \<Rightarrow> bool" where
  "dispatched_attempt l a \<longleftrightarrow>
     (\<exists>r \<in> set (allowed_reservations l). logical_attempt r = a \<and> rows_of l (rq_reservationId r) \<noteq> [])"

lemma dispatched_grows:
  "dispatched_attempt l a \<Longrightarrow> dispatched_attempt (l\<lparr>ll_events := ll_events l @ [e]\<rparr>) a"
  "dispatched_attempt l a \<Longrightarrow> dispatched_attempt (l\<lparr>ll_reservations := ll_reservations l @ [r]\<rparr>) a"
  "dispatched_attempt l a \<Longrightarrow> dispatched_attempt (l\<lparr>ll_snapshots := ss\<rparr>) a"
  by (auto simp: dispatched_attempt_def)

lemma append_dispatched:
  assumes "appendReservationEventWithStatus env l q rid ev = Inr (x, l')" "dispatched_attempt l a"
  shows "dispatched_attempt l' a"
proof -
  obtain stored created where x: "x = (stored, created)" by fastforce
  from assms(1) [unfolded x] assms(2) show ?thesis
    by (cases rule: append_cases) (auto dest: append_new_event_Inr(2) intro: dispatched_grows)
qed

lemma dispatch_of_fresh_attempt:
  assumes ok: "ledger_ok h l"
    and app: "appendReservationEventWithStatus env l q rid ev = Inr ((stored, True), l')"
    and kind: "ev_kind ev = EvDispatched" and r: "find_reservation l q rid = Some r"
  shows "\<not> dispatched_attempt l (logical_attempt r)" "dispatched_attempt l' (logical_attempt r)"
proof -
  from app obtain "rv_decision r = LimitAllow" and new: "append_new_event env l r ev = Inr ((stored, True), l')"
    by (cases rule: append_cases) (use r in auto)
  with find_reservation_SomeD [OF r] have rin: "r \<in> set (allowed_reservations l)" "rq_reservationId r = rid"
      "r \<in> set (ll_reservations l)"
    by (auto simp: allowed_reservations_def)
  have "last_event l (rq_reservationId r) = None"
    using append_new_event_Inr(7) [OF new] kind by (auto simp: event_follows_def split: option.splits)
  then have none: "rows_of l (rq_reservationId r) = []"
    using last_event_rows [OF ok rin(3)] by (auto simp: Let_def split: if_splits)
  have only: "r' = r" if "r' \<in> set (allowed_reservations l)" "logical_attempt r' = logical_attempt r" for r'
    using ok that rin(1) by (auto simp: ledger_ok_def distinct_map inj_on_def)
  with none show "\<not> dispatched_attempt l (logical_attempt r)"
    by (auto simp: dispatched_attempt_def)
  show "dispatched_attempt l' (logical_attempt r)"
    unfolding append_new_event_Inr(2) [OF new] append_new_event_Inr(1) [OF new]
    using rin(1) by (auto simp: dispatched_attempt_def)
qed

lemma grants_dispatched:
  "ledger_reachable h gs l \<Longrightarrow> distinct gs \<and> (\<forall>a \<in> set gs. dispatched_attempt l a)"
proof (induction rule: ledger_reachable.induct)
  case (put gs l env s x l')
  from put(3) put(4) show ?case by (cases rule: putSnapshot_cases) (auto intro: dispatched_grows)
next
  case (reserve gs l env rq y l')
  obtain r created where y: "y = (r, created)" by fastforce
  from reserve(3) [unfolded y] reserve(4) show ?case
    by (cases rule: reserve_cases) (auto intro: dispatched_grows)
next
  case (append gs l env q rid ev z l')
  then show ?case by (blast intro: append_dispatched)
next
  case (claim gs l env q rid ev g l' r)
  from claim(3) obtain stored where
    app: "appendReservationEventWithStatus env l q rid ev = Inr ((stored, True), l')" "ev_kind ev = EvDispatched"
    by (cases rule: claimDispatch_cases) auto
  note fresh = dispatch_of_fresh_attempt [OF reachable_ok [OF claim(1)] app claim(4)]
  show ?case using claim(5) fresh append_dispatched [OF app(1)] by auto
next
  case (refused gs l env q rid ev e l')
  from refused(3) refused(4) show ?case by (cases rule: claimDispatch_cases) auto
qed simp

text \<open>
  C5 Over every sequence of successful operations, whatever the clock, the policy and the
  termination verifier do between them, \<open>claimDispatch\<close> grants the execution of a logical
  attempt (tenant, project, run, call and attempt) at most once, also when several
  reservations, keys or events are tried for it.
\<close>

theorem at_most_one_grant:
  assumes "ledger_reachable h grants l"
  shows "distinct grants"
  using grants_dispatched [OF assms] by blast

section \<open>The lifecycle\<close>

text \<open>
  The events of a reservation in a reachable ledger are none, or dispatched, or released,
  or dispatched and then consumed or released; a held reservation has none. Each event has the
  reservation's fence token and names the hash of the one before, and their times do not
  decrease.
\<close>

theorem lifecycle_words:
  assumes "ledger_reachable h grants l" "r \<in> set (ll_reservations l)"
  defines "es \<equiv> events_of l (rq_reservationId r)"
  shows "map ev_kind es \<in> {[], [EvDispatched], [EvReleased], [EvDispatched, EvConsumed], [EvDispatched, EvReleased]}
    \<and> (rv_decision r = LimitHold \<longrightarrow> es = [])
    \<and> (\<forall>e \<in> set es. ev_fenceTokenHash e = rq_fenceTokenHash r)
    \<and> map se_previousHash es = take (length es) (None # map (\<lambda>e. Some (se_hash e)) es)
    \<and> sorted (map ev_occurredAt es)"
proof -
  note ok = reachable_ok [OF assms(1)]
  have es: "es = rows_of l (rq_reservationId r)" unfolding es_def by (rule events_of_rows [OF ok assms(2)])
  with ok assms(2) have life: "assertReservationLifecycle trusting r es" by (simp add: ledger_ok_def)
  then have "length es \<le> 2" by (simp add: assertReservationLifecycle_def)
  then consider "es = []" | a where "es = [a]" | a b where "es = [a, b]"
    by (cases es; cases "tl es") auto
  then have chain: "map ev_kind es \<in> {[], [EvDispatched], [EvReleased], [EvDispatched, EvConsumed], [EvDispatched, EvReleased]}
    \<and> (\<forall>e \<in> set es. ev_fenceTokenHash e = rq_fenceTokenHash r)
    \<and> map se_previousHash es = take (length es) (None # map (\<lambda>e. Some (se_hash e)) es)
    \<and> sorted (map ev_occurredAt es)"
  proof cases
    case (2 a)
    with life show ?thesis
      by (cases "ev_kind a") (auto simp: assertReservationLifecycle_def lifecycle_event_ok_def)
  next
    case (3 a b)
    with life show ?thesis
      by (auto simp: assertReservationLifecycle_def lifecycle_event_ok_def)
  qed simp
  have held: "es = []" if hold: "rv_decision r = LimitHold"
  proof (rule ccontr)
    assume "es \<noteq> []"
    then obtain e where "e \<in> set (ll_events l)" "se_reservationId e = rq_reservationId r"
      unfolding es rows_of_def by (auto simp: filter_empty_conv)
    with ok obtain r' where "r' \<in> set (ll_reservations l)" "rv_decision r' = LimitAllow"
        "rq_reservationId r' = rq_reservationId r"
      by (fastforce simp: ledger_ok_def allowed_reservations_def)
    with ok assms(2) hold show False
      by (auto simp: ledger_ok_def distinct_map inj_on_def)
  qed
  show ?thesis using chain held by auto
qed

section \<open>Reservations fit\<close>

lemma policy_blocks_exact:
  assumes "\<not> policy_blocks p w x"
  shows "map_of (lp_minimumRemaining p) (w_unit w) = Some least \<Longrightarrow> least < x"
    and "w_limit w = Some limit \<Longrightarrow> 0 < limit \<Longrightarrow> fl_div (fl_sub limit x) limit < lp_blockAtRatio p"
  using assms by (auto simp: policy_blocks_def at_floor_def not_le)

lemma reservation_of_simps [simp]:
  "rq_estimates (reservation_of rq ref v p) = rq_estimates rq"
  "rq_scope (reservation_of rq ref v p) = rq_scope rq"
  "rv_appliedPolicy (reservation_of rq ref v p) = p"
  "rv_decision (reservation_of rq ref v p) = fst v"
  by (simp_all add: reservation_of_def ProviderLimitReservationRequest.defs split: prod.split)

text \<open>
  The exact arithmetic of one estimate: what was outstanding is an integer, so is what the
  window has left, and nothing is rounded.
\<close>

lemma estimate_fits:
  assumes taken: "taken \<in> \<int>" "0 \<le> taken" "taken < 2 ^ 53" and least: "whole_double least"
    and amount: "amount \<in> \<int>" "0 < amount" "amount \<le> max 0 (fl_sub least taken)"
  shows "max 0 (fl_sub least taken) = least - taken" "taken + amount \<le> least"
    "fl_sub (least - taken) amount = least - (taken + amount)"
proof -
  have "fl_sub least taken = least - taken"
    unfolding fl_sub_def using taken least by (intro fl_Ints) (auto simp: whole_double_def)
  with amount show fits: "max 0 (fl_sub least taken) = least - taken" "taken + amount \<le> least" by auto
  have "fl (least - (taken + amount)) = least - (taken + amount)"
    using taken least amount(1,2) fits(2) by (intro fl_Ints) (auto simp: whole_double_def)
  then show "fl_sub (least - taken) amount = least - (taken + amount)"
    by (simp add: fl_sub_def diff_diff_eq)
qed

text \<open>What judged an estimate of an allowed reservation.\<close>

lemma allowed_estimate:
  assumes judged: "judge env l rq = Inr r" and allow: "rv_decision r = LimitAllow"
    and e: "e \<in> set (rq_estimates rq)"
  obtains s w least remaining where "selectLatestSnapshot l (rq_scope rq) = Some s"
    "src_fetchedAt (lr_source s) \<le> le_now env" "le_now env < src_expiresAt (lr_source s)"
    "rq_leaseExpiresAt rq \<le> src_expiresAt (lr_source s)"
    "windows_by_id (lr_windows s) (am_windowId e) = Some w" "w_remaining w = Some least"
    "w_unit w = am_unit e" "w_model w \<in> {None, Some (rq_model rq)}"
    "remaining = max 0 (fl_sub least (reserved_for
       (foldl add_amount [] (all_outstanding l (rq_scope rq) (src_incorporated (lr_source s)))) (am_windowId e)))"
    "am_amount e \<le> remaining" "\<not> policy_blocks (rv_appliedPolicy r) w (fl_sub remaining (am_amount e))"
proof -
  from judge_allow [OF judged allow] obtain s reserved reason eff where
    s: "current_snapshot env l (rq_scope rq) = Inr (Some s)" "lr_state s = EvKnown"
       "rq_leaseExpiresAt rq \<le> src_expiresAt (lr_source s)"
    and reserved: "activeReservedAmounts env l (rq_scope rq) (src_incorporated (lr_source s)) = Some reserved"
    and admit: "admit_estimates s (rq_model rq) reserved [] (rq_estimates rq) = (LimitAllow, reason, eff)"
    and r: "r = reservation_of rq (Some (snapshot_ref (lr_limitResultId s))) (LimitAllow, reason, eff) (lr_policy s)"
    by metis
  from current_snapshot_known [OF s(1,2)] obtain s0 where
    s0: "selectLatestSnapshot l (rq_scope rq) = Some s0"
        "applyProviderLimitPolicy (le_quotaHash env) s0 (lr_policy s) = Some s"
        "src_fetchedAt (lr_source s0) \<le> le_now env" "le_now env < src_expiresAt (lr_source s0)"
    by metis
  note keeps = apply_policy_keeps [OF s0(2)]
  from admitted_estimate [OF admit e] obtain w least where
    w: "windows_by_id (lr_windows s) (am_windowId e) = Some w" "w_remaining w = Some least"
       "w_unit w = am_unit e" "w_model w = None \<or> w_model w = Some (rq_model rq)"
    and fits: "am_amount e \<le> max 0 (fl_sub least (reserved_for reserved (am_windowId e)))"
    and free: "\<not> policy_blocks (lr_policy s) w
        (fl_sub (max 0 (fl_sub least (reserved_for reserved (am_windowId e)))) (am_amount e))"
    by metis
  have policy: "rv_appliedPolicy r = lr_policy s" by (simp add: r)
  have total: "reserved = foldl add_amount [] (all_outstanding l (rq_scope rq) (src_incorporated (lr_source s0)))"
    using reserved_totals [OF reserved] by (simp only: keeps)
  have lease: "rq_leaseExpiresAt rq \<le> src_expiresAt (lr_source s0)" using s(3) by (simp only: keeps)
  have window: "windows_by_id (lr_windows s0) (am_windowId e) = Some w" using w(1) by (simp only: keeps)
  have model: "w_model w \<in> {None, Some (rq_model rq)}" using w(4) by blast
  show ?thesis
    by (rule that [OF s0(1) s0(3,4) lease window w(2,3) model refl fits [unfolded total] free [folded policy, unfolded total]])
qed

text \<open>The total that the code computes for a window is what is outstanding in it.\<close>

lemma total_exact:
  assumes "ledger_ok h l" "outstanding l q inc i < 2 ^ 53"
    and "\<forall>a \<in> set (all_outstanding l q inc). am_amount a \<in> \<int>"
  shows "reserved_for (foldl add_amount [] (all_outstanding l q inc)) i = outstanding l q inc i"
    and "outstanding l q inc i \<in> \<int>" and "0 \<le> outstanding l q inc i"
proof -
  have amounts: "0 \<le> am_amount a \<and> am_amount a \<in> \<int>" if "a \<in> set (all_outstanding l q inc)" for a
    using outstanding_nonneg [OF assms(1) that] assms(3) that by simp
  show "reserved_for (foldl add_amount [] (all_outstanding l q inc)) i = outstanding l q inc i"
    using reserved_for_fold [of "all_outstanding l q inc" "[]" i] amounts assms(2)
    by (simp add: reserved_for_def outstanding_def)
  show "outstanding l q inc i \<in> \<int>" "0 \<le> outstanding l q inc i"
    using amounts by (auto simp: outstanding_def intro: amount_for_Ints amount_for_nonneg)
qed

lemma counted_SomeD:
  assumes "counted l rq" "selectLatestSnapshot l (rq_scope rq) = Some s" "e \<in> set (rq_estimates rq)"
    and "windows_by_id (lr_windows s) (am_windowId e) = Some w" "w_remaining w = Some least"
  shows "am_amount e \<in> \<int>" "whole_double least"
    "outstanding l (rq_scope rq) (src_incorporated (lr_source s)) (am_windowId e) < 2 ^ 53"
    "\<forall>a \<in> set (all_outstanding l (rq_scope rq) (src_incorporated (lr_source s))). am_amount a \<in> \<int>"
    "\<And>limit. w_limit w = Some limit \<Longrightarrow> whole_double limit"
  using assms windows_by_id_SomeD [OF assms(4)] selectLatestSnapshot_SomeD [OF assms(2)]
  by (auto simp: counted_def counted_window_def list_all_iff)

lemma reserve_created:
  assumes "ledger_ok (le_quotaHash env) l" "reserveWithStatus env l rq = Inr ((r, True), l')"
    and "rv_decision r = LimitAllow" "e \<in> set (rq_estimates rq)"
  shows "judge env l rq = Inr r" "0 < am_amount e"
    "outstanding l' (rq_scope rq) inc (am_windowId e) = outstanding l (rq_scope rq) inc (am_windowId e) + am_amount e"
proof -
  from assms(2) have l': "l' = l\<lparr>ll_reservations := ll_reservations l @ [r]\<rparr>"
      and valid: "assertProviderLimitReservation (le_quotaHash env) r" and judged: "judge env l rq = Inr r"
      and fresh: "rq_reservationId r \<notin> rq_reservationId ` set (ll_reservations l)"
    by (cases rule: reserve_cases; auto simp: list_ex_iff same_reservation_key_def)+
  from judge_allow [OF judged assms(3)] have same: "rq_estimates r = rq_estimates rq" "rq_scope r = rq_scope rq"
    by (metis reservation_of_simps(1), metis reservation_of_simps(2))
  have req: "distinct (map am_windowId (rq_estimates r))" and amount: "0 < am_amount e"
    using valid assms(4)
    by (auto simp: same assertProviderLimitReservation_def assertProviderLimitReservationRequest_def list_all_iff)
  show "judge env l rq = Inr r" "0 < am_amount e" by (fact judged, fact amount)
  show "outstanding l' (rq_scope rq) inc (am_windowId e) = outstanding l (rq_scope rq) inc (am_windowId e) + am_amount e"
    using outstanding_added [OF assms(1) fresh assms(3) _ req, of e inc] assms(4) by (simp add: l' same)
qed

text \<open>
  C6 When \<open>reserveWithStatus\<close> makes a new reservation and allows it, it was judged by the
  latest snapshot of its quota scope, which is in force and outlasts the lease, and after it
  everything outstanding in the scope fits in each of its windows: the sum of what the allowed
  and unsettled reservations hold, the new one included, is within what the snapshot says the
  window has left and stays above the floor of the policy; and where the policy enforces its
  ratios, which is the default and is not so under \<open>observe_only\<close>, below its blocking ratio.
  The quantities are counts with sums below \<open>2 ^ 53\<close>.
\<close>

theorem allow_within_quota:
  assumes "ledger_reachable h grants l" "le_quotaHash env = h"
    and "reserveWithStatus env l rq = Inr ((r, True), l')" "rv_decision r = LimitAllow"
    and "counted l rq" "e \<in> set (rq_estimates rq)"
  shows "\<exists>s w least. selectLatestSnapshot l (rq_scope rq) = Some s
    \<and> src_fetchedAt (lr_source s) \<le> le_now env \<and> le_now env < src_expiresAt (lr_source s)
    \<and> rq_leaseExpiresAt rq \<le> src_expiresAt (lr_source s)
    \<and> windows_by_id (lr_windows s) (am_windowId e) = Some w
    \<and> w_unit w = am_unit e \<and> w_model w \<in> {None, Some (rq_model rq)} \<and> w_remaining w = Some least
    \<and> (let taken = outstanding l' (rq_scope rq) (src_incorporated (lr_source s)) (am_windowId e);
            p = rv_appliedPolicy r
        in taken \<le> least
         \<and> (\<forall>m. map_of (lp_minimumRemaining p) (w_unit w) = Some m \<longrightarrow> m < least - taken)
         \<and> (enforces_ratio p \<longrightarrow> (\<forall>limit. w_limit w = Some limit \<and> 0 < limit \<longrightarrow>
              fl_div (limit - (least - taken)) limit < lp_blockAtRatio p)))"
proof -
  have ok: "ledger_ok (le_quotaHash env) l" using reachable_ok [OF assms(1)] assms(2) by simp
  note made = reserve_created [OF ok assms(3,4,6)]
  from allowed_estimate [OF made(1) assms(4,6)] obtain s w least remaining where
    s: "selectLatestSnapshot l (rq_scope rq) = Some s" "src_fetchedAt (lr_source s) \<le> le_now env"
       "le_now env < src_expiresAt (lr_source s)" "rq_leaseExpiresAt rq \<le> src_expiresAt (lr_source s)"
    and w: "windows_by_id (lr_windows s) (am_windowId e) = Some w" "w_remaining w = Some least"
       "w_unit w = am_unit e" "w_model w \<in> {None, Some (rq_model rq)}"
    and remaining: "remaining = max 0 (fl_sub least (reserved_for
       (foldl add_amount [] (all_outstanding l (rq_scope rq) (src_incorporated (lr_source s)))) (am_windowId e)))"
    and fits: "am_amount e \<le> remaining"
    and free: "\<not> policy_blocks (rv_appliedPolicy r) w (fl_sub remaining (am_amount e))"
    by metis
  let ?out = "\<lambda>l. outstanding l (rq_scope rq) (src_incorporated (lr_source s)) (am_windowId e)"
  note counts = counted_SomeD [OF assms(5) s(1) assms(6) w(1,2)]
  note total = total_exact [OF ok counts(3,4)]
  note exact = estimate_fits [OF total(2,3) counts(3,2,1) made(2) fits [unfolded remaining total(1)]]
  note after = made(3) [of "src_incorporated (lr_source s)"]
  have rest: "\<not> policy_blocks (rv_appliedPolicy r) w (least - ?out l')"
    using free unfolding remaining total(1) exact(1) exact(3) after .
  have le: "?out l' \<le> least" using exact(2) after by simp
  have limits: "fl_div (limit - (least - ?out l')) limit < lp_blockAtRatio (rv_appliedPolicy r)"
    if limit: "w_limit w = Some limit \<and> 0 < limit" for limit
  proof -
    have "fl_sub limit (least - ?out l') = limit - (least - ?out l')"
      unfolding fl_sub_def using counts(5) [of limit] limit le counts(1,2) total(2,3) made(2) after
      by (intro fl_Ints) (auto simp: whole_double_def)
    then show ?thesis using policy_blocks_exact(2) [OF rest, of limit] limit by simp
  qed
  show ?thesis
    unfolding Let_def
    by (rule exI [of _ s], rule exI [of _ w], rule exI [of _ least])
      (intro conjI allI impI s w le policy_blocks_exact(1) [OF rest] limits, simp_all)
qed

section \<open>Repeated and concurrent calls\<close>

text \<open>A later ledger has the rows of the earlier one first.\<close>

definition ledger_extends :: "limit_ledger \<Rightarrow> limit_ledger \<Rightarrow> bool" where
  "ledger_extends l l' \<longleftrightarrow> prefix (ll_snapshots l) (ll_snapshots l')
     \<and> prefix (ll_reservations l) (ll_reservations l') \<and> prefix (ll_events l) (ll_events l')"

lemma extends_refl [simp, intro]: "ledger_extends l l"
  by (simp add: ledger_extends_def)

lemma extends_append [simp]:
  "ledger_extends l (l\<lparr>ll_snapshots := ll_snapshots l @ ss\<rparr>)"
  "ledger_extends l (l\<lparr>ll_reservations := ll_reservations l @ rs\<rparr>)"
  "ledger_extends l (l\<lparr>ll_events := ll_events l @ es\<rparr>)"
  by (simp_all add: ledger_extends_def)

lemma append_extends:
  "appendReservationEventWithStatus env l q rid ev = Inr (x, l') \<Longrightarrow> ledger_extends l l'"
proof -
  assume app: "appendReservationEventWithStatus env l q rid ev = Inr (x, l')"
  obtain stored created where x: "x = (stored, created)" by fastforce
  from app [unfolded x] show ?thesis
    by (cases rule: append_cases) (auto dest: append_new_event_Inr(2))
qed

text \<open>No operation changes or removes a row.\<close>

lemma operations_append_only:
  "putSnapshot env l s = Inr (x, l') \<Longrightarrow> ledger_extends l l'"
  "reserveWithStatus env l rq = Inr (y, l') \<Longrightarrow> ledger_extends l l'"
  "claimDispatch env l q rid ev = Inr (z, l') \<Longrightarrow> ledger_extends l l'"
proof -
  show "ledger_extends l l'" if "putSnapshot env l s = Inr (x, l')"
    using that by (cases rule: putSnapshot_cases) auto
  show "ledger_extends l l'" if "reserveWithStatus env l rq = Inr (y, l')"
  proof -
    obtain r created where "y = (r, created)" by fastforce
    with that show ?thesis by (auto elim!: reserve_cases)
  qed
  show "ledger_extends l l'" if "claimDispatch env l q rid ev = Inr (z, l')"
    using that by (cases rule: claimDispatch_cases) (auto dest: append_extends)
qed

lemma find_extends:
  assumes "find P xs = Some x" "prefix xs ys"
  shows "find P ys = Some x"
  using assms by (auto simp: prefix_def find_Some_iff nth_append)

lemma requestFromReservation_of [simp]: "requestFromReservation (reservation_of rq ref v p) = rq"
  by (simp add: requestFromReservation_def reservation_of_def ProviderLimitReservationRequest.defs
      split: prod.split)

lemma judge_request: "judge env l rq = Inr r \<Longrightarrow> requestFromReservation r = rq"
  by (auto simp: judge_def split: sum.splits option.splits)

lemma request_fields:
  "rq_scope (requestFromReservation r) = rq_scope r"
  "rq_idempotencyKey (requestFromReservation r) = rq_idempotencyKey r"
  by (simp_all add: requestFromReservation_def ProviderLimitReservationRequest.defs)

lemma reserved_key:
  assumes "reserveWithStatus env l rq = Inr ((r, created), l')"
  shows "find_reservation_by_key l' (rq_scope rq) (rq_idempotencyKey rq) = Some r"
    "requestFromReservation r = rq"
proof -
  from assms show rq: "requestFromReservation r = rq"
    by (cases rule: reserve_cases) (auto dest: judge_request)
  have fields: "rq_scope rq = rq_scope r" "rq_idempotencyKey rq = rq_idempotencyKey r"
    using request_fields [of r] by (simp_all add: rq)
  from assms show "find_reservation_by_key l' (rq_scope rq) (rq_idempotencyKey rq) = Some r"
  proof (cases rule: reserve_cases)
    case added
    have "find (\<lambda>s. rq_scope s = rq_scope rq \<and> rq_idempotencyKey s = rq_idempotencyKey rq) (ll_reservations l) = None"
      using added(7) by (auto simp: find_None_iff list_ex_iff same_reservation_key_def fields)
    then show ?thesis by (simp add: added(1) find_reservation_by_key_def find_append fields)
  qed simp
qed

text \<open>
  A reservation request that is repeated on any later ledger gets the reservation it got
  first, allowed or held, and writes nothing; another request under its key is a conflict.
\<close>

theorem reserve_replays:
  assumes "reserveWithStatus env l rq = Inr ((r, created), l')" "ledger_extends l' m"
    and "le_quotaHash env' = le_quotaHash env"
    and "rq_scope rq' = rq_scope rq" "rq_idempotencyKey rq' = rq_idempotencyKey rq"
    and "assertProviderLimitReservationRequest (le_quotaHash env) rq'"
  shows "reserveWithStatus env' m rq'
    = (if rq' = rq then Inr ((r, False), m) else Inl (StoreError IdempotencyConflict None))"
proof -
  note key = reserved_key [OF assms(1)]
  have "find_reservation_by_key m (rq_scope rq) (rq_idempotencyKey rq) = Some r"
    using key(1) assms(2) by (auto simp: find_reservation_by_key_def ledger_extends_def intro: find_extends)
  then show ?thesis using assms(3-6) key(2) by (auto simp: reserveWithStatus_def)
qed

text \<open>The only dispatch of a reservation is its first event.\<close>

lemma rows_dispatched:
  assumes "assertReservationLifecycle env r (e # es)" "ev_kind e = EvDispatched" "d \<in> set (e # es)"
    and "ev_kind d = EvDispatched"
  shows "d = e"
  using assms by (cases es) (auto simp: assertReservationLifecycle_def lifecycle_event_ok_def)

text \<open>
  Once a reservation is dispatched, every successful \<open>claimDispatch\<close> on it is refused with
  the evidence of the first dispatch, and changes nothing: also a retry of the winner's own
  event, and a claim after the reservation was consumed or released.
\<close>

theorem later_claim_refused:
  assumes "ledger_reachable h grants l" "find_reservation l q rid = Some r"
    and "events_of l rid = e # es" "ev_kind e = EvDispatched"
    and "claimDispatch env l q rid ev = Inr (c, l')"
  shows "c = NotClaimed (event_ref e) \<and> l' = l"
proof -
  note ok = reachable_ok [OF assms(1)]
  note r = find_reservation_SomeD [OF assms(2)]
  have rows: "rows_of l rid = e # es" using events_of_rows [OF ok] r assms(3) by auto
  have life: "assertReservationLifecycle trusting r (e # es)" using ok r rows by (auto simp: ledger_ok_def)
  from assms(5) have kind: "ev_kind ev = EvDispatched" by (auto simp: claimDispatch_def split: if_splits)
  show ?thesis
  proof (cases "appendReservationEventWithStatus env l q rid ev")
    case (Inl err)
    with assms(5) kind obtain view d where view: "getReservation env l q rid (le_now env) = Inr (Some view)"
        "find (\<lambda>e. ev_kind e = EvDispatched) (vw_events view) = Some d" "c = NotClaimed (event_ref d)" "l' = l"
      by (auto simp: claimDispatch_def split: if_splits sum.splits option.splits)
    have "vw_events view = e # es"
      using view(1) assms(2,3) by (auto simp: getReservation_def Let_def split: if_splits)
    with view assms(4) show ?thesis by simp
  next
    case (Inr x)
    then obtain stored created l'' where app:
        "appendReservationEventWithStatus env l q rid ev = Inr ((stored, created), l'')" by (metis surj_pair)
    from app show ?thesis
    proof (cases rule: append_cases)
      case same
      have "stored \<in> set (ll_events l)" "se_reservationId stored = rid" "ev_kind stored = EvDispatched"
        using same kind by (auto simp: find_event_def plain_event_def ProviderLimitReservationEvent.defs dest: find_Some_set)
      then have "stored \<in> set (e # es)" by (simp add: rows [symmetric] rows_of_def)
      then have "stored = e" using rows_dispatched [OF life assms(4)] \<open>ev_kind stored = EvDispatched\<close> by blast
      with assms(5) app same show ?thesis by (auto simp: claimDispatch_def split: if_splits)
    next
      case (added r')
      with assms(2) have "append_new_event env l r ev = Inr ((stored, True), l'')" by simp
      then have "event_follows (map_option ev_kind (last_event l (rq_reservationId r))) EvDispatched"
        using append_new_event_Inr(7) kind by metis
      then have "last_event l rid = None" using r by (auto simp: event_follows_def split: option.splits)
      then show ?thesis using assms(3) by (simp add: last_event_def)
    qed
  qed
qed

section \<open>The mode of the ratio\<close>

lemma admit_estimates_mode:
  "admit_estimates (s\<lparr>lr_policy := (lr_policy s)\<lparr>lp_ratioEnforcement := m\<rparr>\<rparr>) model reserved eff es
     = admit_estimates s model reserved eff es"
  by (induction es arbitrary: eff)
    (simp_all add: policy_blocks_def at_floor_def Let_def cong: option.case_cong if_cong)

text \<open>
  A reservation is judged the same whatever the ratio enforcement mode of the policy is:
  \<open>reserveWithStatus\<close> does not look at the mode, which \<open>evaluateKnownWindows\<close> does, so under
  \<open>observe_only\<close> a ratio that is only observed still holds every reservation.
\<close>

theorem judgement_ignores_mode:
  "judge_snapshot env l rq (s\<lparr>lr_policy := (lr_policy s)\<lparr>lp_ratioEnforcement := m\<rparr>\<rparr>) = judge_snapshot env l rq s"
  by (simp add: judge_snapshot_def admit_estimates_mode estimates_match_def cong: option.case_cong)

text \<open>
  With a limit of 100, 90 used and 7/8 as the blocking ratio, the policy that only observes the
  ratio gives a usable snapshot, and yet a reservation of one request is blocked by the policy.
\<close>

lemma observed_ratio_blocks:
  "(lr_decision observed_snapshot, lr_reasonCode observed_snapshot) = (LimitAllow, ThresholdObserved)
   \<and> assertProviderLimitResult (\<lambda>_. sample_hash) observed_snapshot
   \<and> (\<exists>r l. reserveWithStatus (sample_env ObserveOnly) (sample_ledger [observed_snapshot] [] []) (sample_request ''res-2'' 1)
       = Inr ((r, True), l) \<and> rv_reasonCode r = PolicyBlock)"
  using observed_reserve by (auto simp: snapshot_simps)

section \<open>Witnesses\<close>

theorem at_most_one_grant_witness: "distinct [logical_attempt sample_reservation]"
  by (rule at_most_one_grant [OF sample_reachable(3)])

theorem lifecycle_words_witness:
  "sorted (map ev_occurredAt (events_of claimed_ledger ''res-1'')) \<and> events_of claimed_ledger ''res-1'' = [sample_event]"
  using lifecycle_words [OF sample_reachable(3), of sample_reservation] by (simp add: sample_found)

theorem allow_within_quota_witness:
  "\<exists>s w least. selectLatestSnapshot (sample_ledger [usual_snapshot] [] []) sample_scope = Some s
     \<and> windows_by_id (lr_windows s) ''session'' = Some w \<and> w_remaining w = Some least
     \<and> outstanding reserved_ledger sample_scope (src_incorporated (lr_source s)) ''session'' \<le> least"
  using allow_within_quota [OF sample_reachable(1) sample_env_simps(3) sample_reserve sample_found(3) sample_counted]
  by (auto simp: Let_def sample_request_simps)

theorem reserve_replays_witness:
  "reserveWithStatus (sample_env ObserveOnly) claimed_ledger (sample_request ''res-1'' 20)
     = Inr ((sample_reservation, False), claimed_ledger)"
  using reserve_replays [OF sample_reserve operations_append_only(3) [OF sample_claim],
      of "sample_env ObserveOnly" "sample_request ''res-1'' 20"]
  by (simp add: sample_env_simps)

theorem later_claim_refused_witness:
  "claimDispatch (sample_env EnforceRatio) claimed_ledger sample_query ''res-1'' (sample_dispatch ''ev-2'')
     = Inr (NotClaimed (event_ref sample_event), claimed_ledger)"
  using later_claim_refused [OF sample_reachable(3) sample_found(1) _ _ sample_second_claim] sample_second_claim
  by simp

end
