(* ===== verification/Admission_Correct.thy ===== *)
theory Admission_Correct
  imports Provider_Admission Quota_Correct
begin

text \<open>
  What an admission promises: an allow names a reservation that the store holds as admitted, for
  the candidate that the resolver selects on the final evidence; and the loop ends with every
  candidate unusable, never because its iterations are used up.
\<close>

section \<open>A held provider is not selected again\<close>

definition at_evidence :: "AdmissionRequest \<Rightarrow> (string, ProviderEvidence) js_map \<Rightarrow> RoleInvocationRequest" where
  "at_evidence rq ev = (ar_invocation rq)\<lparr>ri_evidence := ev\<rparr>"

definition usable_providers :: "ModelRegistry \<Rightarrow> AdmissionRequest \<Rightarrow> (string, ProviderEvidence) js_map \<Rightarrow> string set" where
  "usable_providers reg rq ev = fst ` {c \<in> set (candidates (ar_invocation rq)). usable_candidate reg (at_evidence rq ev) c}"

lemma request_frame [simp]:
  "request_policy (at_evidence rq ev) = request_policy (ar_invocation rq)"
  "candidate_model reg (at_evidence rq ev) c = candidate_model reg (ar_invocation rq) c"
  "candidates (at_evidence rq ev) = candidates (ar_invocation rq)"
  by (simp_all add: at_evidence_def request_policy_def candidate_model_def candidates_def
      split: option.split prod.split)

lemma evidence_of_at [simp]:
  "evidence_of (at_evidence rq ev) p = (case map_of ev p of None \<Rightarrow> UNKNOWN_EVIDENCE | Some e \<Rightarrow> e)"
  by (simp add: evidence_of_def at_evidence_def)

lemma usable_known: "usable_candidate reg (at_evidence rq ev) c \<Longrightarrow> map_of ev (fst c) \<noteq> None"
  by (auto simp: usable_candidate_def isReachabilityUsable_def UNKNOWN_EVIDENCE_def UNKNOWN_REACHABILITY_def
      split: option.splits)

lemma selected_usable:
  "rr_selected (resolve_with reg rq ev) = Some s \<Longrightarrow> sel_provider s \<in> usable_providers reg rq ev"
proof -
  assume s: "rr_selected (resolve_with reg rq ev) = Some s"
  then have "find (usable_candidate reg (at_evidence rq ev)) (candidates (ar_invocation rq))
      = Some (sel_provider s, sel_source s)"
    using first_usable_selected [of reg "at_evidence rq ev"] by (simp add: resolve_with_def at_evidence_def [symmetric])
  then have "(sel_provider s, sel_source s) \<in> set (candidates (ar_invocation rq))"
      "usable_candidate reg (at_evidence rq ev) (sel_provider s, sel_source s)" by (auto simp: find_Some_iff)
  then show ?thesis unfolding usable_providers_def by force
qed

lemma limited_unusable:
  assumes "p \<in> usable_providers reg rq ev"
  shows "usable_providers reg rq (withLimitDecision ev p True refs) \<subseteq> usable_providers reg rq ev - {p}"
proof -
  let ?ev = "withLimitDecision ev p True refs"
  from assms obtain c where c: "fst c = p" "usable_candidate reg (at_evidence rq ev) c"
    by (auto simp: usable_providers_def)
  then obtain e where e: "map_of ev p = Some e" using usable_known by blast
  then have ev: "map_of ?ev = (map_of ev)(p \<mapsto> \<lparr>pe_reachability = pe_reachability e,
      pe_limits = \<lparr>le_state = EvKnown, le_limited = True, le_evidenceRefs = refs\<rparr>\<rparr>)"
    by (simp add: withLimitDecision_def update_conv')
  have "\<not> usable_candidate reg (at_evidence rq ?ev) d" if "fst d = p" for d
    using that by (simp add: usable_candidate_def isLimitUsable_def ev)
  moreover have "usable_candidate reg (at_evidence rq ?ev) d = usable_candidate reg (at_evidence rq ev) d"
    if "fst d \<noteq> p" for d
    using that by (simp add: usable_candidate_def ev)
  ultimately show ?thesis unfolding usable_providers_def by blast
qed

lemma after_reserve_Continue:
  "after_reserve sto reg rq st res selected request r created = Continue st' \<Longrightarrow>
     rv_decision r = LimitHold
     \<and> st' = st\<lparr>sa_evidence := withLimitDecision (sa_evidence st) (sel_provider selected) True (limited_refs sto r)\<rparr>"
  by (auto simp: after_reserve_def finish_allowed_def Let_def split: if_splits sum.splits option.splits)

lemma reserve_selected_Continue:
  assumes "reserve_selected sto reg rq st res selected ref scope concurrency = Continue st'"
  shows "\<exists>refs. sa_evidence st' = withLimitDecision (sa_evidence st) (sel_provider selected) True refs"
  using assms
  by (auto simp: reserve_selected_def Let_def dest!: after_reserve_Continue split: if_splits sum.splits prod.splits)

lemma admit_step_Continue:
  assumes "admit_step sto reg rq st = Continue st'"
  shows "usable_providers reg rq (sa_evidence st') \<subset> usable_providers reg rq (sa_evidence st)"
proof -
  from assms obtain s where s: "rr_selected (resolve_with reg rq (sa_evidence st)) = Some s"
    by (auto simp: admit_step_def Let_def split: option.splits)
  with assms have "\<exists>refs. sa_evidence st' = withLimitDecision (sa_evidence st) (sel_provider s) True refs"
    by (auto simp: admit_step_def Let_def dest: reserve_selected_Continue
        split: option.splits concurrency_gate.splits)
  then obtain refs where "sa_evidence st' = withLimitDecision (sa_evidence st) (sel_provider s) True refs" by blast
  with limited_unusable [OF selected_usable [OF s], of refs] selected_usable [OF s] show ?thesis by auto
qed

lemma finite_usable [simp]: "finite (usable_providers reg rq ev)"
  by (simp add: usable_providers_def)

lemma usable_bounded: "card (usable_providers reg rq ev) \<le> length (admission_providers rq)"
proof -
  have "usable_providers reg rq ev \<subseteq> set (admission_providers rq)"
    by (auto simp: usable_providers_def admission_providers_def candidates_def)
  then have "card (usable_providers reg rq ev) \<le> card (set (admission_providers rq))" by (intro card_mono) simp_all
  also have "\<dots> = length (admission_providers rq)" unfolding admission_providers_def by (rule distinct_card) simp
  finally show ?thesis .
qed

lemma held_exhausted_step:
  "admit_step sto reg rq st = Stop (Inr (AdmissionHeld HoldFallbackExhausted res attempts)) l \<Longrightarrow>
     rr_selected res = None \<and> (\<exists>ev. res = resolve_with reg rq ev)"
  by (auto simp: admit_step_def reserve_selected_def after_reserve_def finish_allowed_def Let_def
      split: option.splits concurrency_gate.splits if_splits sum.splits prod.splits)

lemma held_exhausted_loop:
  assumes "card (usable_providers reg rq (sa_evidence st)) < n"
    and "admit_loop sto reg rq n st = (Inr (AdmissionHeld HoldFallbackExhausted res attempts), l)"
  shows "rr_selected res = None \<and> (\<exists>ev. res = resolve_with reg rq ev)"
  using assms
proof (induction n arbitrary: st)
  case (Suc n)
  show ?case
  proof (cases "admit_step sto reg rq st")
    case (Continue st')
    have "card (usable_providers reg rq (sa_evidence st')) < n"
      using psubset_card_mono [OF finite_usable admit_step_Continue [OF Continue]] Suc.prems(1) by linarith
    moreover from Continue Suc.prems(2) have
      "admit_loop sto reg rq n st' = (Inr (AdmissionHeld HoldFallbackExhausted res attempts), l)" by simp
    ultimately show ?thesis by (rule Suc.IH)
  next
    case (Stop result l')
    with Suc.prems show ?thesis by (intro held_exhausted_step) simp
  qed
qed simp

text \<open>
  C11 An admission that reports its candidates as exhausted has no usable candidate left: the loop
  runs once more than there are providers, every round that does not end it makes one provider
  unusable, and so it never ends because the rounds are used up.
\<close>

theorem exhausted_is_unselectable:
  assumes "admitRoleInvocation sto reg rq l = (Inr (AdmissionHeld HoldFallbackExhausted res attempts), l')"
  shows "rr_selected res = None \<and> rr_decisionReasonCode res = RcFallbackExhausted"
proof -
  have "card (usable_providers reg rq (ri_evidence (ar_invocation rq))) < Suc (length (admission_providers rq))"
    using usable_bounded by (simp add: less_Suc_eq_le)
  then have none: "rr_selected res = None \<and> (\<exists>ev. res = resolve_with reg rq ev)"
    by (intro held_exhausted_loop [OF _ assms [unfolded admitRoleInvocation_def]]) simp
  then obtain ev where "res = resolve_with reg rq ev" by blast
  with none first_usable_resolution [of reg "at_evidence rq ev"] show ?thesis
    by (simp add: resolve_with_def at_evidence_def)
qed

section \<open>An allow is an executable reservation\<close>

text \<open>
  What the loop needs of the store: the reservation that a request gets carries that request, and
  one that was newly created and allowed is admitted. The ledger provides it.
\<close>

locale reservation_store =
  fixes sto :: "'l admission_store" and ok :: "'l \<Rightarrow> bool"
  assumes reserve_ok: "ok l \<Longrightarrow> as_reserve sto l rq = Inr ((r, created), l') \<Longrightarrow> ok l'"
    and reserve_request: "as_reserve sto l rq = Inr ((r, created), l') \<Longrightarrow> requestFromReservation r = rq"
    and reserve_present: "ok l \<Longrightarrow> as_reserve sto l rq = Inr ((r, created), l') \<Longrightarrow>
      as_get sto l' (reservationQuery rq) (rq_reservationId r) = Inr view \<Longrightarrow> map_option vw_reservation view = Some r"
    and created_admitted: "ok l \<Longrightarrow> as_reserve sto l rq = Inr ((r, True), l') \<Longrightarrow> rv_decision r = LimitAllow \<Longrightarrow>
      \<exists>view. as_get sto l' (reservationQuery rq) (rq_reservationId r) = Inr (Some view) \<and> vw_state view = RsAdmitted"
begin

definition executable :: "'l \<Rightarrow> ProviderLimitReservation \<Rightarrow> bool" where
  "executable l r \<longleftrightarrow> (\<exists>view. as_get sto l (reservationQuery (requestFromReservation r)) (rq_reservationId r)
      = Inr (Some view) \<and> vw_state view = RsAdmitted \<and> vw_reservation view = r)"

definition granted :: "ModelRegistry \<Rightarrow> AdmissionRequest \<Rightarrow> ProviderLimitReservation \<Rightarrow> RoleInvocationResolution \<Rightarrow> bool" where
  "granted reg rq r res \<longleftrightarrow> (\<exists>s ev. res = resolve_with reg rq ev \<and> rr_selected res = Some s
      \<and> sc_provider (rq_scope (requestFromReservation r)) = sel_provider s
      \<and> rq_model (requestFromReservation r) = sel_model s)"

lemma finish_granted:
  assumes "finish_allowed sto reg rq st selected r = Stop (Inr (AdmissionAllowed r' res attempts)) l"
    and "sc_provider (rq_scope (requestFromReservation r)) = sel_provider selected"
    and "rq_model (requestFromReservation r) = sel_model selected"
  shows "r' = r \<and> l = sa_store st \<and> granted reg rq r res"
  using assms by (auto simp: finish_allowed_def granted_def Let_def split: option.splits if_splits)

lemma after_reserve_granted:
  assumes "ok l" "as_reserve sto l request = Inr ((r, created), sa_store st)"
    and "after_reserve sto reg rq st res0 selected request r created = Stop (Inr (AdmissionAllowed r' res attempts)) l'"
    and "sc_provider (rq_scope request) = sel_provider selected" "rq_model request = sel_model selected"
  shows "ok l' \<and> executable l' r' \<and> granted reg rq r' res"
proof -
  note request = reserve_request [OF assms(2)]
  from assms(3) have finish: "finish_allowed sto reg rq st selected r = Stop (Inr (AdmissionAllowed r' res attempts)) l'"
      and allow: "rv_decision r \<noteq> LimitHold"
      and admitted: "created \<or> (\<exists>view. as_get sto (sa_store st) (reservationQuery request) (rq_reservationId r)
        = Inr view \<and> map_option vw_state view = Some RsAdmitted)"
    by (auto simp: after_reserve_def Let_def split: if_splits sum.splits)
  from finish_granted [OF finish] request assms(4,5) have r': "r' = r" "l' = sa_store st" "granted reg rq r res"
    by auto
  have "rv_decision r = LimitAllow" using allow by (cases "rv_decision r") auto
  then obtain view where "as_get sto (sa_store st) (reservationQuery request) (rq_reservationId r) = Inr (Some view)"
      "vw_state view = RsAdmitted"
    using admitted created_admitted [OF assms(1), of request r "sa_store st"] assms(2) by (cases created) auto
  with reserve_present [OF assms(1,2)] reserve_ok [OF assms(1,2)] r' request show ?thesis
    by (auto simp: executable_def)
qed

lemma admit_step_granted:
  assumes "ok (sa_store st)" "admit_step sto reg rq st = Stop (Inr (AdmissionAllowed r res attempts)) l"
  shows "ok l \<and> executable l r \<and> granted reg rq r res"
proof -
  from assms(2) obtain selected ref scope c res0 where
      sel: "reserve_selected sto reg rq st res0 selected ref scope c = Stop (Inr (AdmissionAllowed r res attempts)) l"
    by (auto simp: admit_step_def Let_def split: option.splits concurrency_gate.splits)
  let ?request = "ar_buildReservation rq selected"
  from sel have m: "reservation_matches selected ref scope ?request"
    by (auto simp: reserve_selected_def Let_def split: if_splits)
  obtain r0 created l0 where reserved: "as_reserve sto (sa_store st) ?request = Inr ((r0, created), l0)"
    using sel by (cases "as_reserve sto (sa_store st) ?request") (auto simp: reserve_selected_def Let_def split: if_splits)
  define st0 where "st0 = st\<lparr>sa_attempts := sa_attempts st @ [attempt_for selected (Some r0) None c],
    sa_reservationIds := sa_reservationIds st @ [rq_reservationId ?request],
    sa_identity := Some (invocationIdentity ?request), sa_store := l0\<rparr>"
  have "after_reserve sto reg rq st0 res0 selected ?request r0 created = Stop (Inr (AdmissionAllowed r res attempts)) l"
    using sel reserved by (auto simp: reserve_selected_def Let_def st0_def split: if_splits)
  with after_reserve_granted [OF assms(1), of ?request r0 created st0] reserved m show ?thesis
    by (simp add: reservation_matches_def st0_def)
qed

lemma admit_step_ok:
  assumes "ok (sa_store st)" "admit_step sto reg rq st = Continue st'"
  shows "ok (sa_store st')"
proof -
  have "ok (sa_store st')" if "reserve_selected sto reg rq st res selected ref scope c = Continue st'" for res selected ref scope c
    using that assms(1) reserve_ok
    by (auto simp: reserve_selected_def Let_def dest!: after_reserve_Continue split: if_splits sum.splits prod.splits)
  with assms show ?thesis
    by (auto simp: admit_step_def Let_def split: option.splits concurrency_gate.splits)
qed

lemma admit_loop_granted:
  "ok (sa_store st) \<Longrightarrow> admit_loop sto reg rq n st = (Inr (AdmissionAllowed r res attempts), l)
     \<Longrightarrow> ok l \<and> executable l r \<and> granted reg rq r res"
proof (induction n arbitrary: st)
  case (Suc n)
  then show ?case
    by (cases "admit_step sto reg rq st") (auto dest: admit_step_ok admit_step_granted)
qed simp

lemma admission_granted:
  "ok l \<Longrightarrow> admitRoleInvocation sto reg rq l = (Inr (AdmissionAllowed r res attempts), l')
     \<Longrightarrow> ok l' \<and> executable l' r \<and> granted reg rq r res"
  unfolding admitRoleInvocation_def by (erule admit_loop_granted [rotated]) simp

end

section \<open>The ledger as the store\<close>

lemma truncate_fields:
  "rq_scope (requestFromReservation r) = rq_scope r" "rq_projectId (requestFromReservation r) = rq_projectId r"
  "rq_reservationId (requestFromReservation r) = rq_reservationId r" "rq_model (requestFromReservation r) = rq_model r"
  by (simp_all add: requestFromReservation_def ProviderLimitReservationRequest.defs)

lemma reserved_found:
  assumes "ledger_ok h l'" "r \<in> set (ll_reservations l')" "requestFromReservation r = rq"
  shows "find_reservation l' (reservationQuery rq) (rq_reservationId r) = Some r"
proof -
  have "x = r" if "x \<in> set (ll_reservations l')" "rq_reservationId x = rq_reservationId r" for x
    using that assms(1,2) by (auto simp: ledger_ok_def distinct_map inj_on_def)
  with assms(2,3) show ?thesis
    by (cases "find_reservation l' (reservationQuery rq) (rq_reservationId r)")
      (auto simp: find_reservation_def find_None_iff reservationQuery_def truncate_fields dest: find_Some_set)
qed

lemma ledger_store_simps [simp]:
  "as_reserve (ledger_store env code) = reserveWithStatus env"
  "as_get (ledger_store env code) l q i = getReservation env l q i (le_now env)"
  by (simp_all add: ledger_store_def)

lemma ledger_reservation_store: "reservation_store (ledger_store env code) (ledger_ok (le_quotaHash env))"
proof (unfold_locales, unfold ledger_store_simps)
  fix l rq r created l'
  assume ok: "ledger_ok (le_quotaHash env) l" and r: "reserveWithStatus env l rq = Inr ((r, created), l')"
  show ok': "ledger_ok (le_quotaHash env) l'"
    using r ok by (cases rule: reserve_cases) (auto intro: ledger_ok_reservation)
  have mem: "r \<in> set (ll_reservations l')" using r by (cases rule: reserve_cases) auto
  note found = reserved_found [OF ok' mem reserved_key(2) [OF r]]
  show "map_option vw_reservation view = Some r"
    if "getReservation env l' (reservationQuery rq) (rq_reservationId r) (le_now env) = Inr view" for view
    using that by (auto simp: getReservation_def found Let_def split: if_splits)
next
  fix l rq r created l'
  assume "reserveWithStatus env l rq = Inr ((r, created), l')"
  then show "requestFromReservation r = rq" by (rule reserved_key(2))
next
  fix l rq r l'
  assume ok: "ledger_ok (le_quotaHash env) l" and r: "reserveWithStatus env l rq = Inr ((r, True), l')"
    and allow: "rv_decision r = LimitAllow"
  from r obtain new: "l' = l\<lparr>ll_reservations := ll_reservations l @ [r]\<rparr>" "le_now env < rq_leaseExpiresAt rq"
      "\<not> list_ex (same_reservation_key r) (ll_reservations l)"
    by (cases rule: reserve_cases) auto
  have ok': "ledger_ok (le_quotaHash env) l'" using r ok by (cases rule: reserve_cases) (auto intro: ledger_ok_reservation)
  have mem: "r \<in> set (ll_reservations l')" by (simp add: new)
  note found = reserved_found [OF ok' mem reserved_key(2) [OF r]]
  have "rq_reservationId r \<notin> rq_reservationId ` set (ll_reservations l)"
    using new(3) by (auto simp: list_ex_iff same_reservation_key_def)
  with no_rows_of_new [OF ok] have "rows_of l' (rq_reservationId r) = []" by (simp add: new(1) rows_of_def)
  then have rows: "events_of l' (rq_reservationId r) = []" using events_of_rows [OF ok' mem] by simp
  have "rq_leaseExpiresAt r = rq_leaseExpiresAt rq"
    using reserved_key(2) [OF r] by (auto simp: requestFromReservation_def ProviderLimitReservationRequest.defs)
  with new(2) allow rows found
  show "\<exists>view. getReservation env l' (reservationQuery rq) (rq_reservationId r) (le_now env) = Inr (Some view)
      \<and> vw_state view = RsAdmitted"
    by (simp add: getReservation_def assertReservationLifecycle_def view_state_def)
qed

interpretation quota: reservation_store "ledger_store env code" "ledger_ok (le_quotaHash env)" for env code
  by (rule ledger_reservation_store)

lemma got_reservation:
  assumes "getReservation env l q i t = Inr (Some view)"
  shows "find_reservation l q i = Some (vw_reservation view)"
    "vw_state view = view_state (vw_reservation view) (events_of l i) t"
  using assms by (auto simp: getReservation_def Let_def split: option.splits if_splits)

lemma allowed_is_executable:
  assumes "ledger_reachable (le_quotaHash env) grants l"
    and "admitRoleInvocation (ledger_store env code) reg rq l = (Inr (AdmissionAllowed r res attempts), l')"
  shows "(\<exists>es. getReservation env l' (reservationQuery (requestFromReservation r)) (rq_reservationId r) (le_now env)
      = Inr (Some \<lparr>vw_reservation = r, vw_events = es, vw_state = RsAdmitted\<rparr>))
    \<and> (\<exists>s. rr_selected res = Some s \<and> sc_provider (rq_scope r) = sel_provider s \<and> rq_model r = sel_model s)
    \<and> (\<forall>r' \<in> set (allowed_reservations l'). logical_attempt r' = logical_attempt r \<longrightarrow> r' = r)"
proof -
  note ok = reachable_ok [OF assms(1)]
  note ends = quota.admission_granted [OF ok assms(2)]
  then obtain s ev view where s: "rr_selected res = Some s" "sc_provider (rq_scope r) = sel_provider s" "rq_model r = sel_model s"
    and view: "getReservation env l' (reservationQuery (requestFromReservation r)) (rq_reservationId r) (le_now env) = Inr (Some view)"
      "vw_state view = RsAdmitted" "vw_reservation view = r"
    by (auto simp: quota.granted_def quota.executable_def truncate_fields)
  note found = got_reservation(1) [OF view(1), unfolded view(3)]
  have state: "view_state r (events_of l' (rq_reservationId r)) (le_now env) = RsAdmitted"
    using got_reservation(2) [OF view(1)] view(2,3) by simp
  have "rv_decision r = LimitAllow" using state by (cases "rv_decision r") (auto simp: view_state_def Let_def)
  with find_reservation_SomeD [OF found] have "r \<in> set (allowed_reservations l')" by (simp add: allowed_reservations_def)
  moreover have "distinct (map logical_attempt (allowed_reservations l'))" using ends by (simp add: ledger_ok_def)
  ultimately have "\<forall>r' \<in> set (allowed_reservations l'). logical_attempt r' = logical_attempt r \<longrightarrow> r' = r"
    by (auto simp: distinct_map inj_on_def)
  moreover have "view = \<lparr>vw_reservation = r, vw_events = vw_events view, vw_state = RsAdmitted\<rparr>" using view(2,3) by simp
  ultimately show ?thesis using s view(1) by metis
qed

text \<open>
  C9 An allow on a reachable ledger names a reservation that the ledger then holds as admitted:
  allowed, unexpired, neither dispatched nor settled, whether it was created now or replayed. It
  is for the provider and the model that the resolver selects in the resolution that is returned,
  and no other allowed reservation of the ledger is for the same logical attempt.
\<close>

theorem allow_is_executable:
  assumes "ledger_reachable (le_quotaHash env) grants l"
    and "admitRoleInvocation (ledger_store env code) reg rq l = (Inr (AdmissionAllowed r res attempts), l')"
  shows "(\<exists>es. getReservation env l' (reservationQuery (requestFromReservation r)) (rq_reservationId r) (le_now env)
      = Inr (Some \<lparr>vw_reservation = r, vw_events = es, vw_state = RsAdmitted\<rparr>))
    \<and> (\<exists>s. rr_selected res = Some s \<and> sc_provider (rq_scope r) = sel_provider s \<and> rq_model r = sel_model s)
    \<and> (\<forall>r' \<in> set (allowed_reservations l'). logical_attempt r' = logical_attempt r \<longrightarrow> r' = r)"
  using assms by (rule allowed_is_executable)

text \<open>
  C28 An admitted reservation can be executed: the first well-formed dispatch event with its fence,
  dated within the reservation and not after now, is granted by the claim, for that reservation.
\<close>

theorem admitted_dispatch_granted:
  assumes "ledger_reachable (le_quotaHash env) grants l"
    and "admitRoleInvocation (ledger_store env code) reg rq l = (Inr (AdmissionAllowed r res attempts), l')"
    and "assertProviderLimitReservationEvent ev" "ev_kind ev = EvDispatched" "find_event l' (ev_eventId ev) = None"
    and "ev_fenceTokenHash ev = rq_fenceTokenHash r" "rq_requestedAt r \<le> ev_occurredAt ev"
    and "ev_occurredAt ev \<le> le_now env" "ev_occurredAt ev < rq_leaseExpiresAt r"
  shows "\<exists>g l''. claimAdmittedProviderDispatch env l' r ev = Inr (Claimed g, l'') \<and> gr_reservationId g = rq_reservationId r"
proof -
  let ?q = "reservationQuery (requestFromReservation r)"
  from allowed_is_executable [OF assms(1,2)] obtain es where
      "getReservation env l' ?q (rq_reservationId r) (le_now env)
        = Inr (Some \<lparr>vw_reservation = r, vw_events = es, vw_state = RsAdmitted\<rparr>)" by blast
  note view = got_reservation [OF this, simplified]
  have allow: "rv_decision r = LimitAllow"
    using view(2) by (cases "rv_decision r") (auto simp: view_state_def Let_def)
  have "events_of l' (rq_reservationId r) = []"
  proof (rule ccontr)
    assume "events_of l' (rq_reservationId r) \<noteq> []"
    with view(2) show False
      by (cases "ev_kind (last (events_of l' (rq_reservationId r)))") (auto simp: view_state_def Let_def split: if_splits)
  qed
  then have "last_event l' (rq_reservationId r) = None" by (simp add: last_event_def)
  moreover have "verified_termination env r ev" using assms(4) by (simp add: verified_termination_def)
  moreover have "ev_actual ev = None" using assms(3,4) by (simp add: assertProviderLimitReservationEvent_def)
  ultimately have "append_new_event env l' r ev
      = Inr ((stored_event env r None ev, True), l'\<lparr>ll_events := ll_events l' @ [stored_event env r None ev]\<rparr>)"
    using assms(4,6-9) by (simp add: append_new_event_def event_timely_def actual_settles_def Let_def)
  with view(1) allow assms(3-5) show ?thesis
    by (simp add: claimAdmittedProviderDispatch_def claimDispatch_def appendReservationEventWithStatus_def)
qed

section \<open>Witnesses\<close>

definition sample_invocation :: AdmissionRequest where
  "sample_invocation = \<lparr>ar_invocation = \<lparr>ri_role = RoleWorker, ri_purpose = None, ri_primaryProvider = ''openai'',
       ri_model = ''gpt-5.6-codex'', ri_fallbackProviders = [],
       ri_evidence = [(''openai'', \<lparr>pe_reachability = \<lparr>re_state = EvKnown, re_reachable = True,
           re_evidenceRef = Some ''reach:probe-0001''\<rparr>,
         pe_limits = \<lparr>le_state = EvKnown, le_limited = False, le_evidenceRefs = []\<rparr>\<rparr>)], ri_policy = None\<rparr>,
     ar_candidateScopes = [(''openai'', \<lparr>ac_provider = ''openai'', ac_model = ''gpt-5.6-codex'',
       ac_accountRefHash = Some sample_hash, ac_quotaScopeRefHash = sample_hash, ac_authMode = AuthSubscription,
       ac_backend = sample_backend, ac_reachabilityEvidenceRef = ''reach:probe-0001''\<rparr>)],
     ar_concurrencyCapabilities = None, ar_buildReservation = (\<lambda>s. sample_request ''res-1'' 20)\<rparr>"

definition sample_selected :: RoleInvocationSelected where
  "sample_selected = \<lparr>sel_provider = ''openai'', sel_model = ''gpt-5.6-codex'', sel_source = SelConfig, sel_sequence = 1\<rparr>"

lemma sample_selected_simps [simp]: "sel_provider sample_selected = ''openai''" "sel_model sample_selected = ''gpt-5.6-codex''"
  by (simp_all add: sample_selected_def)

lemma sample_reservation_fields:
  "rq_reservationId sample_reservation = ''res-1''" "rv_snapshotEvidenceRef sample_reservation = Some ''provider-limit:limit-result-1''"
  by (simp_all add: sample_found(4)) (simp add: sample_reservation_def reservation_of_def ProviderLimitReservationRequest.defs)

lemma sample_resolution:
  assumes "map_of ev ''openai'' = Some \<lparr>pe_reachability = \<lparr>re_state = EvKnown, re_reachable = True,
      re_evidenceRef = Some ''reach:probe-0001''\<rparr>, pe_limits = \<lparr>le_state = EvKnown, le_limited = False, le_evidenceRefs = refs\<rparr>\<rparr>"
  shows "rr_selected (resolve_with reg sample_invocation ev) = Some sample_selected"
    and "map_option (\<lambda>a. re_evidenceRef (at_reachability a)) (find at_accepted (rr_attempts (resolve_with reg sample_invocation ev)))
      = Some (Some ''reach:probe-0001'')"
  using assms
  by (simp_all add: resolve_with_def sample_invocation_def resolveRoleInvocation_def candidates_def attempt_of_def
      candidate_model_def candidate_reason_def evidence_of_def request_policy_def defaultRoleInvocationPolicy_def
      isReachabilityUsable_def isLimitUsable_def selected_of_def sample_selected_def Let_def)

lemma sample_admission_allows:
  "\<exists>res attempts. admitRoleInvocation (ledger_store (sample_env EnforceRatio) code) reg sample_invocation
     (sample_ledger [usual_snapshot] [] []) = (Inr (AdmissionAllowed sample_reservation res attempts), reserved_ledger)"
proof -
  have evidence: "map_of (ri_evidence (ar_invocation sample_invocation)) ''openai'' = Some \<lparr>pe_reachability =
      \<lparr>re_state = EvKnown, re_reachable = True, re_evidenceRef = Some ''reach:probe-0001''\<rparr>,
      pe_limits = \<lparr>le_state = EvKnown, le_limited = False, le_evidenceRefs = []\<rparr>\<rparr>"
    by (simp add: sample_invocation_def)
  have scoped: "candidate_scoped sample_invocation sample_selected ''reach:probe-0001'' = Some (snd (hd (ar_candidateScopes sample_invocation)))"
    by (simp add: candidate_scoped_def sample_invocation_def)
  have gate: "concurrency_gate_of sample_invocation ''openai'' = GateOpen None"
    by (simp add: concurrency_gate_of_def sample_invocation_def)
  have built: "ar_buildReservation sample_invocation sample_selected = sample_request ''res-1'' 20"
    by (simp add: sample_invocation_def)
  have matches: "reservation_matches sample_selected ''reach:probe-0001'' (snd (hd (ar_candidateScopes sample_invocation))) (sample_request ''res-1'' 20)"
    by (simp add: reservation_matches_def sample_invocation_def sample_request_def sample_scope_def sameBackend_def)
  have finish: "\<exists>res. finish_allowed sto reg sample_invocation st sample_selected sample_reservation
      = Stop (Inr (AdmissionAllowed sample_reservation res (sa_attempts st))) (sa_store st)"
    if "sa_evidence st = ri_evidence (ar_invocation sample_invocation)" for sto :: "limit_ledger admission_store" and st
  proof -
    let ?refs = "[reservation_ref sto ''res-1'', ''provider-limit:limit-result-1'']"
    let ?ev = "withLimitDecision (sa_evidence st) ''openai'' False ?refs"
    have "map_of ?ev ''openai'' = Some \<lparr>pe_reachability = \<lparr>re_state = EvKnown, re_reachable = True,
        re_evidenceRef = Some ''reach:probe-0001''\<rparr>, pe_limits = \<lparr>le_state = EvKnown, le_limited = False, le_evidenceRefs = ?refs\<rparr>\<rparr>"
      by (simp add: withLimitDecision_def that evidence update_conv')
    from sample_resolution(1) [OF this, of reg] show ?thesis
      by (simp add: finish_allowed_def sample_reservation_fields)
  qed
  let ?st = "\<lparr>sa_evidence = ri_evidence (ar_invocation sample_invocation),
    sa_attempts = [attempt_for sample_selected (Some sample_reservation) None None],
    sa_reservationIds = [rq_reservationId (sample_request ''res-1'' 20)],
    sa_identity = Some (invocationIdentity (sample_request ''res-1'' 20)), sa_store = reserved_ledger\<rparr>"
  obtain res where res: "finish_allowed (ledger_store (sample_env EnforceRatio) code) reg sample_invocation ?st
      sample_selected sample_reservation = Stop (Inr (AdmissionAllowed sample_reservation res (sa_attempts ?st))) (sa_store ?st)"
    using finish [of ?st] by auto
  have "admit_step (ledger_store (sample_env EnforceRatio) code) reg sample_invocation
      \<lparr>sa_evidence = ri_evidence (ar_invocation sample_invocation), sa_attempts = [], sa_reservationIds = [],
       sa_identity = None, sa_store = sample_ledger [usual_snapshot] [] []\<rparr>
      = Stop (Inr (AdmissionAllowed sample_reservation res (sa_attempts ?st))) reserved_ledger"
    using sample_found(3) res
    by (simp add: admit_step_def sample_resolution [OF evidence] scoped gate reserve_selected_def built matches
        sample_reserve after_reserve_def Let_def)
  then show ?thesis unfolding admitRoleInvocation_def by auto
qed

theorem allow_is_executable_witness:
  "\<exists>es. getReservation (sample_env EnforceRatio) reserved_ledger (reservationQuery (sample_request ''res-1'' 20)) ''res-1'' 2000
     = Inr (Some \<lparr>vw_reservation = sample_reservation, vw_events = es, vw_state = RsAdmitted\<rparr>)"
proof -
  have h: "le_quotaHash (sample_env EnforceRatio) = (\<lambda>_. sample_hash)" by (simp add: sample_env_simps)
  have reach: "ledger_reachable (le_quotaHash (sample_env EnforceRatio)) [] (sample_ledger [usual_snapshot] [] [])"
    by (rule ledger_reachable.put [OF ledger_reachable.start _ sample_put(1)]) simp
  obtain res attempts where admitted: "admitRoleInvocation (ledger_store (sample_env EnforceRatio) undefined) undefined sample_invocation
     (sample_ledger [usual_snapshot] [] []) = (Inr (AdmissionAllowed sample_reservation res attempts), reserved_ledger)"
    using sample_admission_allows by blast
  have request: "requestFromReservation sample_reservation = sample_request ''res-1'' 20"
    by (simp add: sample_reservation_def)
  from allow_is_executable [OF reach admitted, THEN conjunct1] show ?thesis
    by (simp add: sample_reservation_fields sample_env_simps request)
qed

theorem admitted_dispatch_granted_witness:
  "\<exists>g l''. claimAdmittedProviderDispatch (sample_env EnforceRatio) reserved_ledger sample_reservation (sample_dispatch ''ev-1'')
     = Inr (Claimed g, l'') \<and> gr_reservationId g = ''res-1''"
proof -
  have reach: "ledger_reachable (le_quotaHash (sample_env EnforceRatio)) [] (sample_ledger [usual_snapshot] [] [])"
    by (rule ledger_reachable.put [OF ledger_reachable.start _ sample_put(1)]) simp
  obtain res attempts where admitted: "admitRoleInvocation (ledger_store (sample_env EnforceRatio) undefined) undefined sample_invocation
     (sample_ledger [usual_snapshot] [] []) = (Inr (AdmissionAllowed sample_reservation res attempts), reserved_ledger)"
    using sample_admission_allows by blast
  show ?thesis
    using admitted_dispatch_granted [OF reach admitted sample_event_ok(1)]
    by (simp add: sample_found sample_env_simps find_event_def)
qed

text \<open>With no limit evidence nothing is selected, in the first round.\<close>

definition no_evidence :: AdmissionRequest where
  "no_evidence = sample_invocation\<lparr>ar_invocation := (ar_invocation sample_invocation)\<lparr>ri_evidence := []\<rparr>\<rparr>"

theorem exhausted_is_unselectable_witness:
  "\<exists>res. admitRoleInvocation (ledger_store (sample_env EnforceRatio) undefined) undefined no_evidence empty_ledger
     = (Inr (AdmissionHeld HoldFallbackExhausted res []), empty_ledger) \<and> rr_selected res = None"
proof -
  let ?res = "resolve_with undefined no_evidence []"
  have "rr_selected ?res = None"
    by (simp add: resolve_with_def no_evidence_def sample_invocation_def resolveRoleInvocation_def candidates_def
        attempt_of_def candidate_model_def candidate_reason_def evidence_of_def request_policy_def
        defaultRoleInvocationPolicy_def isReachabilityUsable_def UNKNOWN_EVIDENCE_def UNKNOWN_REACHABILITY_def Let_def)
  then have held: "admitRoleInvocation (ledger_store (sample_env EnforceRatio) undefined) undefined no_evidence empty_ledger
     = (Inr (AdmissionHeld HoldFallbackExhausted ?res []), empty_ledger)"
    by (simp add: admitRoleInvocation_def admit_step_def no_evidence_def)
  from held exhausted_is_unselectable [OF held] show ?thesis by blast
qed

end
