(* ===== verification/Limit_Policy.thy ===== *)
theory Limit_Policy
  imports Quota_Truth
begin

text \<open>
  \<open>src/core/provider-limit-policy.ts\<close>: from the authored layers of provider limits, one of a parent
  (global or tenant) and one of the project, to the policy of an account, and the resolver that the
  ledger asks for it.

  The input is typed: the checks that a field is an object of exactly the known keys have no
  counterpart, nor do the messages, of which the code reads only whether they speak of widening.
  SHA-256, \<open>localeCompare\<close> and the text of a number are arguments. The evidence references of a
  projection and of a snapshot are left out. An authored map of floors has every unit once.
\<close>

section \<open>Authored layers\<close>

record policy_values =
  pv_ratioEnforcement :: "ratio_enforcement option"
  pv_warnAtRatio :: "rat option"
  pv_blockAtRatio :: "rat option"
  pv_minimumRemaining :: "(ProviderLimitUnit \<times> rat) list"

record source_scope =
  so_sourceKind :: ProviderLimitSourceKind
  so_authority :: limit_authority
  so_backend :: limit_backend

record policy_selector =
  se_scope :: limit_scope
  se_backend :: limit_backend
  se_requiredWindowIds :: "string list"
  se_sourceScopes :: "source_scope list"

record policy_entry =
  en_selector :: policy_selector
  en_values :: policy_values

record limits_config =
  co_schemaVersion :: int
  co_authorityRef :: string
  co_policies :: "policy_entry list"

datatype layer_scope = GlobalScope | TenantScope | ProjectScope

record policy_layer =
  la_scope :: layer_scope
  la_config :: limits_config

record policy_env =
  py_localeCompare :: "string \<Rightarrow> string \<Rightarrow> int"
  py_sha256 :: "string \<Rightarrow> string"
  py_numberText :: "rat \<Rightarrow> string"

section \<open>Canonical JSON\<close>

text \<open>
  \<open>canonicalJson\<close> on the values that are serialised here: an object is written with its keys in
  order. The texts hold no control characters, so only quotes and backslashes are escaped.
\<close>

definition json_quoted_char :: "char \<Rightarrow> string" where
  "json_quoted_char c = (if c = CHR 0x22 \<or> c = CHR 0x5C then [CHR 0x5C, c] else [c])"

definition json_quote :: "string \<Rightarrow> string" where
  "json_quote s = CHR 0x22 # concat (map json_quoted_char s) @ [CHR 0x22]"

definition json_nullable :: "string option \<Rightarrow> string" where
  "json_nullable x = (case x of None \<Rightarrow> ''null'' | Some s \<Rightarrow> json_quote s)"

definition json_array :: "string list \<Rightarrow> string" where
  "json_array xs = ''['' @ js_join '','' xs @ '']''"

definition json_object :: "(string \<times> string) list \<Rightarrow> string" where
  "json_object es = ''{'' @ js_join '','' (map (\<lambda>(k, v). json_quote k @ '':'' @ v) es) @ ''}''"

definition unit_name :: "ProviderLimitUnit \<Rightarrow> string" where
  "unit_name u = (case u of UPercent \<Rightarrow> ''percent'' | URequests \<Rightarrow> ''requests'' | UTokens \<Rightarrow> ''tokens''
     | UCredits \<Rightarrow> ''credits'' | UUsd \<Rightarrow> ''usd'')"

definition auth_name :: "InvocationAuthMode \<Rightarrow> string" where
  "auth_name a = (case a of AuthSubscription \<Rightarrow> ''subscription'' | AuthApi \<Rightarrow> ''api''
     | AuthHybrid \<Rightarrow> ''hybrid'' | AuthLocal \<Rightarrow> ''local'' | AuthUnknown \<Rightarrow> ''unknown'')"

definition transport_name :: "InvocationTransport \<Rightarrow> string" where
  "transport_name t = (case t of TransCli \<Rightarrow> ''cli'' | TransMcp \<Rightarrow> ''mcp'' | TransApi \<Rightarrow> ''api''
     | TransHttp \<Rightarrow> ''http'' | TransLocal \<Rightarrow> ''local-runtime'')"

definition backend_name :: "InvocationExecutionBackend \<Rightarrow> string" where
  "backend_name b = (case b of BackSubprocess \<Rightarrow> ''host-subprocess'' | BackDocker \<Rightarrow> ''docker''
     | BackTmux \<Rightarrow> ''tmux'' | BackApi \<Rightarrow> ''api'' | BackInProcess \<Rightarrow> ''in-process'' | BackUnknown \<Rightarrow> ''unknown'')"

definition source_name :: "ProviderLimitSourceKind \<Rightarrow> string" where
  "source_name k = (case k of SrcCli \<Rightarrow> ''provider-cli'' | SrcApi \<Rightarrow> ''provider-api''
     | SrcHeaders \<Rightarrow> ''http-headers'' | SrcTranscript \<Rightarrow> ''historical-transcript''
     | SrcLocal \<Rightarrow> ''local-runtime'' | SrcOperator \<Rightarrow> ''operator'')"

definition authority_name :: "limit_authority \<Rightarrow> string" where
  "authority_name a = (case a of Authoritative \<Rightarrow> ''authoritative'' | Advisory \<Rightarrow> ''advisory'')"

definition scope_name :: "layer_scope \<Rightarrow> string" where
  "scope_name s = (case s of GlobalScope \<Rightarrow> ''global'' | TenantScope \<Rightarrow> ''tenant'' | ProjectScope \<Rightarrow> ''project'')"

definition enforcement_name :: "ratio_enforcement \<Rightarrow> string" where
  "enforcement_name e = (case e of EnforceRatio \<Rightarrow> ''enforce'' | ObserveOnly \<Rightarrow> ''observe_only'')"

definition backend_json :: "limit_backend \<Rightarrow> string" where
  "backend_json b = json_object
     [(''endpointRefHash'', json_nullable (lb_endpointRefHash b)),
      (''executionBackend'', json_quote (backend_name (lb_executionBackend b))),
      (''transport'', json_quote (transport_name (lb_transport b)))]"

definition source_scope_json :: "source_scope \<Rightarrow> string" where
  "source_scope_json s = json_object
     [(''authority'', json_quote (authority_name (so_authority s))),
      (''endpointRefHash'', json_nullable (lb_endpointRefHash (so_backend s))),
      (''executionBackend'', json_quote (backend_name (lb_executionBackend (so_backend s)))),
      (''sourceKind'', json_quote (source_name (so_sourceKind s))),
      (''transport'', json_quote (transport_name (lb_transport (so_backend s))))]"

definition selector_json :: "policy_selector \<Rightarrow> string" where
  "selector_json s = json_object
     [(''accountRefHash'', json_nullable (sc_accountRefHash (se_scope s))),
      (''authMode'', json_quote (auth_name (sc_authMode (se_scope s)))),
      (''backend'', backend_json (se_backend s)),
      (''provider'', json_quote (sc_provider (se_scope s))),
      (''quotaScopeRefHash'', json_quote (sc_quotaScopeRefHash (se_scope s))),
      (''requiredWindowIds'', json_array (map json_quote (se_requiredWindowIds s))),
      (''sourceScopes'', json_array (map source_scope_json (se_sourceScopes s))),
      (''tenantId'', json_quote (sc_tenantId (se_scope s)))]"

definition scope_json :: "limit_scope \<Rightarrow> string" where
  "scope_json s = json_object
     [(''accountRefHash'', json_nullable (sc_accountRefHash s)),
      (''authMode'', json_quote (auth_name (sc_authMode s))),
      (''provider'', json_quote (sc_provider s)),
      (''quotaScopeRefHash'', json_quote (sc_quotaScopeRefHash s)),
      (''tenantId'', json_quote (sc_tenantId s))]"

section \<open>Normal forms\<close>

text \<open>What throws is \<open>None\<close>.\<close>

definition ratio_or_absent :: "rat option \<Rightarrow> bool" where
  "ratio_or_absent x \<longleftrightarrow> (case x of None \<Rightarrow> True | Some r \<Rightarrow> 0 \<le> r \<and> r \<le> 1)"

definition warn_above_block :: "rat option \<Rightarrow> rat option \<Rightarrow> bool" where
  "warn_above_block warn block \<longleftrightarrow> (case (warn, block) of (Some w, Some b) \<Rightarrow> b < w | _ \<Rightarrow> False)"

definition normalizeValues :: "policy_env \<Rightarrow> bool \<Rightarrow> policy_values \<Rightarrow> policy_values option" where
  "normalizeValues env full v =
     (let floors = foldl (\<lambda>m (u, amount). AList.update u amount m) [] (pv_minimumRemaining v)
      in if full \<and> (pv_warnAtRatio v = None \<or> pv_blockAtRatio v = None)
         \<or> \<not> ratio_or_absent (pv_warnAtRatio v) \<or> \<not> ratio_or_absent (pv_blockAtRatio v)
         \<or> \<not> list_all (\<lambda>(_, amount). 0 \<le> amount) (pv_minimumRemaining v)
         \<or> \<not> full \<and> pv_warnAtRatio v = None \<and> pv_blockAtRatio v = None
           \<and> pv_ratioEnforcement v = None \<and> floors = []
         \<or> warn_above_block (pv_warnAtRatio v) (pv_blockAtRatio v) then None
         else Some (v\<lparr>pv_ratioEnforcement :=
               (if full \<and> pv_ratioEnforcement v = None then Some EnforceRatio else pv_ratioEnforcement v),
             pv_minimumRemaining :=
               js_sort (\<lambda>a b. py_localeCompare env (unit_name (fst a)) (unit_name (fst b))) floors\<rparr>))"

definition exact_backend :: "limit_backend \<Rightarrow> bool" where
  "exact_backend b \<longleftrightarrow> lb_transport b \<noteq> TransMcp \<and> lb_executionBackend b \<noteq> BackUnknown
     \<and> opaque_hash (lb_endpointRefHash b) False"

definition exact_scope :: "limit_scope \<Rightarrow> bool" where
  "exact_scope s \<longleftrightarrow> canonical_text (sc_tenantId s) \<and> canonical_text (sc_provider s)
     \<and> canonical_provider (sc_provider s) \<and> sc_authMode s \<noteq> AuthUnknown
     \<and> opaque_hash (sc_accountRefHash s) (sc_authMode s \<noteq> AuthLocal)
     \<and> opaque_hash (Some (sc_quotaScopeRefHash s)) True"

definition normalizeSelector :: "policy_env \<Rightarrow> policy_selector \<Rightarrow> policy_selector option" where
  "normalizeSelector env s =
     (if exact_scope (se_scope s) \<and> exact_backend (se_backend s)
        \<and> se_requiredWindowIds s \<noteq> [] \<and> list_all canonical_text (se_requiredWindowIds s)
        \<and> distinct (se_requiredWindowIds s)
        \<and> se_sourceScopes s \<noteq> [] \<and> list_all (\<lambda>x. exact_backend (so_backend x)) (se_sourceScopes s)
        \<and> distinct (map source_scope_json (se_sourceScopes s))
      then Some (s\<lparr>se_requiredWindowIds := js_sort compareCodePoint (se_requiredWindowIds s),
          se_sourceScopes := js_sort
            (\<lambda>a b. py_localeCompare env (source_scope_json a) (source_scope_json b)) (se_sourceScopes s)\<rparr>)
      else None)"

definition normalizeEntry :: "policy_env \<Rightarrow> bool \<Rightarrow> policy_entry \<Rightarrow> policy_entry option" where
  "normalizeEntry env full e =
     (case (normalizeSelector env (en_selector e), normalizeValues env full (en_values e)) of
        (Some s, Some v) \<Rightarrow> Some \<lparr>en_selector = s, en_values = v\<rparr>
      | _ \<Rightarrow> None)"

definition entry_key :: "policy_entry \<Rightarrow> string" where
  "entry_key e = selector_json (en_selector e)"

definition normalizeConfig :: "policy_env \<Rightarrow> bool \<Rightarrow> limits_config \<Rightarrow> limits_config option" where
  "normalizeConfig env full c =
     (if co_schemaVersion c \<noteq> 1 \<or> \<not> opaque_ref (co_authorityRef c) \<or> co_policies c = [] then None
      else (case those (map (normalizeEntry env full) (co_policies c)) of
          None \<Rightarrow> None
        | Some es \<Rightarrow>
            if \<not> distinct (map entry_key es) then None
            else Some (c\<lparr>co_policies :=
              js_sort (\<lambda>a b. py_localeCompare env (entry_key a) (entry_key b)) es\<rparr>)))"

definition selectorKey :: "policy_env \<Rightarrow> policy_selector \<Rightarrow> string option" where
  "selectorKey env s = map_option selector_json (normalizeSelector env s)"

section \<open>Layers\<close>

text \<open>The entry of a selector in a layer: \<open>None\<close> where the layer or the selector is refused.\<close>

definition findPolicy ::
    "policy_env \<Rightarrow> limits_config \<Rightarrow> policy_selector \<Rightarrow> bool \<Rightarrow> policy_entry option option" where
  "findPolicy env c s full =
     (case (normalizeConfig env full c, selectorKey env s) of
        (Some c', Some key) \<Rightarrow> Some (find (\<lambda>e. entry_key e = key) (co_policies c'))
      | _ \<Rightarrow> None)"

datatype widening =
    WidensEnforcement | WidensWarn | WidensBlock | FloorBelowParent ProviderLimitUnit
  | FloorNotPositive ProviderLimitUnit | WarnAboveBlock

definition or_parent :: "'a option \<Rightarrow> 'a option \<Rightarrow> 'a option" where
  "or_parent x y = (case x of None \<Rightarrow> y | Some _ \<Rightarrow> x)"

definition wideningDetail :: "policy_values \<Rightarrow> policy_values \<Rightarrow> widening option" where
  "wideningDetail parent project =
     (if pv_ratioEnforcement project = Some ObserveOnly \<and> pv_ratioEnforcement parent \<noteq> Some ObserveOnly
      then Some WidensEnforcement
      else if warn_above_block (pv_warnAtRatio project) (pv_warnAtRatio parent) then Some WidensWarn
      else if warn_above_block (pv_blockAtRatio project) (pv_blockAtRatio parent) then Some WidensBlock
      else (case find (\<lambda>(u, least). case map_of (pv_minimumRemaining project) u of
                 None \<Rightarrow> False | Some f \<Rightarrow> f < least) (pv_minimumRemaining parent) of
          Some (u, _) \<Rightarrow> Some (FloorBelowParent u)
        | None \<Rightarrow>
          (case find (\<lambda>(u, f). map_of (pv_minimumRemaining parent) u \<in> {None, Some 0} \<and> f \<le> 0)
                (pv_minimumRemaining project) of
             Some (u, _) \<Rightarrow> Some (FloorNotPositive u)
           | None \<Rightarrow>
             if warn_above_block (or_parent (pv_warnAtRatio project) (pv_warnAtRatio parent))
                  (or_parent (pv_blockAtRatio project) (pv_blockAtRatio parent)) then Some WarnAboveBlock
             else None)))"

datatype policy_error = InvalidPolicy | MissingParent | UnmatchedSelector | Widens widening

fun check_layer_entries :: "(string \<rightharpoonup> policy_entry) \<Rightarrow> policy_entry list \<Rightarrow> policy_error option" where
  "check_layer_entries parents [] = None"
| "check_layer_entries parents (e # es) =
     (case parents (entry_key e) of
        None \<Rightarrow> Some UnmatchedSelector
      | Some p \<Rightarrow> (case wideningDetail (en_values p) (en_values e) of
          Some d \<Rightarrow> Some (Widens d)
        | None \<Rightarrow> check_layer_entries parents es))"

text \<open>The error, if any. A map built from an array keeps the last entry of a key.\<close>

definition assertProviderLimitPolicyLayerPrecedence ::
    "policy_env \<Rightarrow> limits_config option \<Rightarrow> limits_config option \<Rightarrow> policy_error option" where
  "assertProviderLimitPolicyLayerPrecedence env parent project =
     (case project of
        None \<Rightarrow> (case parent of None \<Rightarrow> None
          | Some p \<Rightarrow> if normalizeConfig env True p = None then Some InvalidPolicy else None)
      | Some q \<Rightarrow>
          (case parent of
             None \<Rightarrow> Some MissingParent
           | Some p \<Rightarrow>
              (case (normalizeConfig env True p, normalizeConfig env False q) of
                 (Some p', Some q') \<Rightarrow>
                   check_layer_entries (map_of (rev (map (\<lambda>e. (entry_key e, e)) (co_policies p')))) (co_policies q')
               | _ \<Rightarrow> Some InvalidPolicy)))"

definition assertProviderLimitsConfig :: "policy_env \<Rightarrow> limits_config \<Rightarrow> bool" where
  "assertProviderLimitsConfig env c \<longleftrightarrow> normalizeConfig env False c \<noteq> None"

text \<open>The layers as they are kept, in normal form (\<open>createProviderLimitPolicyAuthoritySnapshot\<close>).\<close>

definition authority_layers ::
    "policy_env \<Rightarrow> limits_config option \<Rightarrow> limits_config option \<Rightarrow> layer_scope
     \<Rightarrow> policy_error + policy_layer option \<times> policy_layer option" where
  "authority_layers env parent project parentScope =
     (case assertProviderLimitPolicyLayerPrecedence env parent project of
        Some e \<Rightarrow> Inl e
      | None \<Rightarrow> Inr
          (map_option (\<lambda>c. \<lparr>la_scope = parentScope, la_config = the (normalizeConfig env True c)\<rparr>) parent,
           map_option (\<lambda>c. \<lparr>la_scope = ProjectScope, la_config = the (normalizeConfig env False c)\<rparr>) project))"

section \<open>Resolution\<close>

datatype policy_hold_reason =
    AuthorityUnavailable | SelectorUnavailable | SelectorAmbiguous | ProjectWithoutParent | ProjectWidens

record resolved_policy =
  rp_policy :: ProviderLimitPolicy
  rp_selectorDigest :: string
  rp_parentAuthorityRef :: string
  rp_projectAuthorityRef :: "string option"

definition effective_values :: "policy_values \<Rightarrow> policy_values option \<Rightarrow> policy_values" where
  "effective_values parent project =
     (case project of
        None \<Rightarrow> parent\<lparr>pv_ratioEnforcement := or_parent (pv_ratioEnforcement parent) (Some EnforceRatio)\<rparr>
      | Some v \<Rightarrow>
         \<lparr>pv_ratioEnforcement = or_parent (pv_ratioEnforcement v)
            (or_parent (pv_ratioEnforcement parent) (Some EnforceRatio)),
          pv_warnAtRatio = or_parent (pv_warnAtRatio v) (pv_warnAtRatio parent),
          pv_blockAtRatio = or_parent (pv_blockAtRatio v) (pv_blockAtRatio parent),
          pv_minimumRemaining = foldl (\<lambda>m (u, f). AList.update u f m)
            (pv_minimumRemaining parent) (pv_minimumRemaining v)\<rparr>)"

definition floors_json :: "policy_env \<Rightarrow> (ProviderLimitUnit \<times> rat) list \<Rightarrow> string" where
  "floors_json env floors = json_object
     (map (\<lambda>(u, f). (unit_name u, py_numberText env f))
       (js_sort (\<lambda>a b. compareCodePoint (unit_name (fst a)) (unit_name (fst b))) floors))"

definition values_json :: "policy_env \<Rightarrow> policy_values \<Rightarrow> string" where
  "values_json env v = json_object
     [(''blockAtRatio'', py_numberText env (the (pv_blockAtRatio v))),
      (''minimumRemaining'', floors_json env (pv_minimumRemaining v)),
      (''ratioEnforcement'', json_quote (enforcement_name (the (pv_ratioEnforcement v)))),
      (''warnAtRatio'', py_numberText env (the (pv_warnAtRatio v)))]"

definition policy_json ::
    "policy_env \<Rightarrow> policy_selector \<Rightarrow> policy_layer \<Rightarrow> string option \<Rightarrow> policy_values \<Rightarrow> string" where
  "policy_json env s parent projectRef v = json_object
     [(''parent'', json_object
         [(''authorityRef'', json_quote (co_authorityRef (la_config parent))),
          (''scope'', json_quote (scope_name (la_scope parent)))]),
      (''projectAuthorityRef'', json_nullable projectRef),
      (''schemaVersion'', ''1''),
      (''selector'', selector_json s),
      (''values'', values_json env v)]"

definition resolved_of_entries ::
    "policy_env \<Rightarrow> policy_selector \<Rightarrow> policy_layer \<Rightarrow> policy_entry \<Rightarrow> (policy_entry \<times> string) option
     \<Rightarrow> resolved_policy" where
  "resolved_of_entries env s parent parentEntry project =
     (let v = effective_values (en_values parentEntry) (map_option (en_values \<circ> fst) project);
          projectRef = map_option snd project
      in \<lparr>rp_policy =
            \<lparr>lp_policyRef = ''provider-limit-policy:'' @ py_sha256 env (policy_json env s parent projectRef v),
             lp_ratioEnforcement = pv_ratioEnforcement v,
             lp_warnAtRatio = the (pv_warnAtRatio v), lp_blockAtRatio = the (pv_blockAtRatio v),
             lp_minimumRemaining = pv_minimumRemaining v\<rparr>,
          rp_selectorDigest = py_sha256 env (selector_json s),
          rp_parentAuthorityRef = co_authorityRef (la_config parent),
          rp_projectAuthorityRef = projectRef\<rparr>)"

text \<open>What the error says decides the reason: only a widening speaks of widening.\<close>

definition precedence_reason :: "policy_error \<Rightarrow> policy_hold_reason" where
  "precedence_reason e = (case e of Widens _ \<Rightarrow> ProjectWidens | _ \<Rightarrow> ProjectWithoutParent)"

text \<open>The checks of the scopes, which both resolvers make first.\<close>

definition layer_hold :: "policy_layer option \<Rightarrow> policy_layer option \<Rightarrow> policy_hold_reason option" where
  "layer_hold parent project =
     (case parent of
        None \<Rightarrow> Some AuthorityUnavailable
      | Some p \<Rightarrow>
          if la_scope p = ProjectScope then Some AuthorityUnavailable
          else if project \<noteq> None \<and> la_scope (the project) \<noteq> ProjectScope then Some ProjectWithoutParent
          else None)"

text \<open>\<open>None\<close> is an exception, \<open>Inl\<close> a hold.\<close>

definition resolveProviderLimitPolicy ::
    "policy_env \<Rightarrow> policy_selector \<Rightarrow> policy_layer option \<Rightarrow> policy_layer option
     \<Rightarrow> (policy_hold_reason + resolved_policy) option" where
  "resolveProviderLimitPolicy env s parent project =
     (case layer_hold parent project of
        Some reason \<Rightarrow> Some (Inl reason)
      | None \<Rightarrow>
        (case (if project = None then None else assertProviderLimitPolicyLayerPrecedence env
             (map_option la_config parent) (map_option la_config project)) of
           Some e \<Rightarrow> Some (Inl (precedence_reason e))
         | None \<Rightarrow>
           (case findPolicy env (la_config (the parent)) s True of
              None \<Rightarrow> None
            | Some None \<Rightarrow> Some (Inl SelectorUnavailable)
            | Some (Some parentEntry) \<Rightarrow>
              (case (case project of None \<Rightarrow> Some None | Some q \<Rightarrow> findPolicy env (la_config q) s False) of
                 None \<Rightarrow> None
               | Some projectEntry \<Rightarrow>
                   if projectEntry \<noteq> None
                     \<and> wideningDetail (en_values parentEntry) (en_values (the projectEntry)) \<noteq> None
                   then Some (Inl ProjectWidens)
                   else Some (Inr (resolved_of_entries env (the (normalizeSelector env s)) (the parent) parentEntry
                     (map_option (\<lambda>e. (e, co_authorityRef (la_config (the project)))) projectEntry)))))))"

section \<open>The resolver of the ledger\<close>

definition runtimeSelectorKey :: "limit_scope \<Rightarrow> string option" where
  "runtimeSelectorKey q = (if exact_scope q then Some (scope_json q) else None)"

type_synonym policy_table = "(string, ProviderLimitPolicy option) js_map"

text \<open>A key whose entries have different policies is ambiguous, and stays so.\<close>

definition add_policy :: "string \<Rightarrow> ProviderLimitPolicy \<Rightarrow> policy_table \<Rightarrow> policy_table" where
  "add_policy key p m =
     (case map_of m key of
        None \<Rightarrow> AList.update key (Some p) m
      | Some old \<Rightarrow>
          if map_option lp_policyRef old \<noteq> Some (lp_policyRef p) then AList.update key None m
          else AList.update key (Some p) m)"

fun resolve_entries ::
    "policy_env \<Rightarrow> policy_layer \<Rightarrow> policy_layer option \<Rightarrow> policy_entry list \<Rightarrow> policy_table \<times> string list
     \<Rightarrow> (policy_hold_reason + policy_table \<times> string list) option" where
  "resolve_entries env parent project [] acc = Some (Inr acc)"
| "resolve_entries env parent project (e # es) acc =
     (case resolveProviderLimitPolicy env (en_selector e) (Some parent) project of
        None \<Rightarrow> None
      | Some (Inl reason) \<Rightarrow> Some (Inl reason)
      | Some (Inr r) \<Rightarrow>
        (case runtimeSelectorKey (se_scope (en_selector e)) of
           None \<Rightarrow> None
         | Some key \<Rightarrow> resolve_entries env parent project es
             (add_policy key (rp_policy r) (fst acc), snd acc @ [lp_policyRef (rp_policy r)])))"

record runtime_resolver =
  ru_authorityRef :: string
  ru_policies :: policy_table

definition runtime_authority_json ::
    "policy_layer \<Rightarrow> policy_layer option \<Rightarrow> string list \<Rightarrow> string" where
  "runtime_authority_json parent project refs = json_object
     [(''ambiguousKeys'', json_array []),
      (''parentAuthorityRef'', json_quote (co_authorityRef (la_config parent))),
      (''parentScope'', json_quote (scope_name (la_scope parent))),
      (''projectAuthorityRef'', json_nullable (map_option (co_authorityRef \<circ> la_config) project)),
      (''resolvedRefs'', json_array (map json_quote (js_sort compareCodePoint refs))),
      (''schemaVersion'', ''1'')]"

definition createProviderLimitPolicyRuntimeResolver ::
    "policy_env \<Rightarrow> policy_layer option \<Rightarrow> policy_layer option
     \<Rightarrow> (policy_hold_reason + runtime_resolver) option" where
  "createProviderLimitPolicyRuntimeResolver env parent project =
     (case layer_hold parent project of
        Some reason \<Rightarrow> Some (Inl reason)
      | None \<Rightarrow>
        (case assertProviderLimitPolicyLayerPrecedence env
             (map_option la_config parent) (map_option la_config project) of
           Some e \<Rightarrow> Some (Inl (precedence_reason e))
         | None \<Rightarrow>
           (case normalizeConfig env True (la_config (the parent)) of
              None \<Rightarrow> None
            | Some c \<Rightarrow>
              (case resolve_entries env (the parent) project (co_policies c) ([], []) of
                 None \<Rightarrow> None
               | Some (Inl reason) \<Rightarrow> Some (Inl reason)
               | Some (Inr (m, refs)) \<Rightarrow>
                   if list_ex (\<lambda>(_, p). p = None) m then Some (Inl SelectorAmbiguous)
                   else Some (Inr \<lparr>ru_authorityRef = ''provider-limit-runtime-policy:''
                          @ py_sha256 env (runtime_authority_json (the parent) project refs),
                        ru_policies = m\<rparr>)))))"

definition runtime_resolve :: "runtime_resolver \<Rightarrow> limit_scope \<Rightarrow> ProviderLimitPolicy option" where
  "runtime_resolve ru q =
     (case runtimeSelectorKey q of
        None \<Rightarrow> None
      | Some key \<Rightarrow> (case map_of (ru_policies ru) key of Some p \<Rightarrow> p | None \<Rightarrow> None))"

section \<open>One exact selector\<close>

record selector_query =
  sq_tenantId :: string
  sq_provider :: string
  sq_authMode :: InvocationAuthMode
  sq_backend :: limit_backend

datatype projection_hold = ScopeUnavailable | ScopeAmbiguous | ScopeInvalid

definition selector_matches :: "selector_query \<Rightarrow> policy_entry \<Rightarrow> bool" where
  "selector_matches q e \<longleftrightarrow>
     (let s = en_selector e
      in sc_tenantId (se_scope s) = sq_tenantId q \<and> sc_provider (se_scope s) = sq_provider q
         \<and> sc_authMode (se_scope s) = sq_authMode q \<and> se_backend s = sq_backend q)"

definition projectExactProviderLimitAuthoritySelector ::
    "policy_env \<Rightarrow> policy_layer option \<Rightarrow> policy_layer option \<Rightarrow> selector_query
     \<Rightarrow> projection_hold + policy_selector \<times> resolved_policy" where
  "projectExactProviderLimitAuthoritySelector env parent project q =
     (if \<not> (canonical_text (sq_tenantId q) \<and> canonical_text (sq_provider q) \<and> canonical_provider (sq_provider q)
          \<and> sq_authMode q \<noteq> AuthUnknown \<and> exact_backend (sq_backend q)) then Inl ScopeInvalid
      else (case parent of
          None \<Rightarrow> Inl ScopeUnavailable
        | Some p \<Rightarrow>
          (case normalizeConfig env True (la_config p) of
             None \<Rightarrow> Inl ScopeInvalid
           | Some c \<Rightarrow>
             (case filter (selector_matches q) (co_policies c) of
                [] \<Rightarrow> Inl ScopeUnavailable
              | [e] \<Rightarrow>
                 (case resolveProviderLimitPolicy env (en_selector e) parent project of
                    Some (Inr r) \<Rightarrow> Inr (en_selector e, r)
                  | _ \<Rightarrow> Inl ScopeInvalid)
              | _ \<Rightarrow> Inl ScopeAmbiguous))))"

end
