(* ===== verification/Limit_Policy_Correct.thy ===== *)
theory Limit_Policy_Correct
  imports Limit_Policy
begin

text \<open>
  The resolution of authored limit policies: a project layer can only make a policy stricter, and
  never turns a hold into an allow; the order in which policies are declared plays no role; the
  resolver of the ledger answers for exactly the accounts of the authored selectors.
\<close>

section \<open>Strictness\<close>

definition stricter_policy :: "ProviderLimitPolicy \<Rightarrow> ProviderLimitPolicy \<Rightarrow> bool" where
  "stricter_policy p q \<longleftrightarrow>
     (enforces_ratio q \<longrightarrow> enforces_ratio p)
     \<and> lp_warnAtRatio p \<le> lp_warnAtRatio q \<and> lp_blockAtRatio p \<le> lp_blockAtRatio q
     \<and> (\<forall>u f. map_of (lp_minimumRemaining q) u = Some f
          \<longrightarrow> (\<exists>g. map_of (lp_minimumRemaining p) u = Some g \<and> f \<le> g))"

lemma at_floor_strict: "stricter_policy p q \<Longrightarrow> at_floor q u r \<Longrightarrow> at_floor p u r"
  by (force simp: stricter_policy_def at_floor_def split: option.splits)

lemma scan_hold:
  "fst (snd (scan_windows p pressure ws)) = LimitHold \<longleftrightarrow>
     list_ex (\<lambda>w. at_floor p (w_unit w) (the (w_remaining w))
       \<or> enforces_ratio p \<and> lp_blockAtRatio p \<le> fl_div (the (w_consumed w)) (the (w_limit w))) ws"
  by (induction p pressure ws rule: scan_windows.induct) (simp_all add: Let_def)

lemma strict_holds_more:
  assumes "stricter_policy p q" "fst (snd (evaluateKnownWindows ws required q)) = LimitHold"
  shows "fst (snd (evaluateKnownWindows ws required p)) = LimitHold"
proof -
  have block: "lp_blockAtRatio p \<le> lp_blockAtRatio q" "enforces_ratio q \<longrightarrow> enforces_ratio p"
    using assms(1) by (simp_all add: stricter_policy_def)
  from assms(2) block show ?thesis
    by (auto simp: evaluateKnownWindows_def scan_hold list_ex_iff intro: at_floor_strict [OF assms(1)] split: if_splits
        dest: order.trans)
qed

section \<open>Normal forms\<close>

abbreviation set_floors :: "(ProviderLimitUnit \<times> rat) list \<Rightarrow> (ProviderLimitUnit \<times> rat) list \<Rightarrow> (ProviderLimitUnit \<times> rat) list" where
  "set_floors m xs \<equiv> foldl (\<lambda>m (u, f). AList.update u f m) m xs"

text \<open>What is known of normalised values, of a parent (\<open>full\<close>) or of a project.\<close>

definition values_ok :: "bool \<Rightarrow> policy_values \<Rightarrow> bool" where
  "values_ok full v \<longleftrightarrow>
     (full \<longrightarrow> pv_warnAtRatio v \<noteq> None \<and> pv_blockAtRatio v \<noteq> None \<and> pv_ratioEnforcement v \<noteq> None)
     \<and> ratio_or_absent (pv_warnAtRatio v) \<and> ratio_or_absent (pv_blockAtRatio v)
     \<and> \<not> warn_above_block (pv_warnAtRatio v) (pv_blockAtRatio v)
     \<and> distinct (map fst (pv_minimumRemaining v))
     \<and> (\<forall>u f. map_of (pv_minimumRemaining v) u = Some f \<longrightarrow> 0 \<le> f)"

lemma map_of_js_sort: "distinct (map fst xs) \<Longrightarrow> map_of (js_sort cmp xs) = map_of xs"
  using map_of_inject_set [of "js_sort cmp xs" xs] by simp

lemma normalizeValues_ok:
  assumes "normalizeValues env full v = Some v'"
  shows "values_ok full v'"
proof -
  have d: "distinct (map fst (set_floors [] (pv_minimumRemaining v)))" by (rule distinct_foldl_update) simp
  have "map_of (set_floors [] (pv_minimumRemaining v)) u = Some f \<Longrightarrow> (u, f) \<in> set (pv_minimumRemaining v)" for u f
    by (auto simp: map_of_foldl_update dest: map_of_SomeD)
  with assms d show ?thesis
    by (fastforce simp: normalizeValues_def values_ok_def Let_def map_of_js_sort list_all_iff split: if_splits)
qed

lemma those_map: "those (map f xs) = Some ys \<longleftrightarrow> list_all2 (\<lambda>x y. f x = Some y) xs ys"
  by (induction xs arbitrary: ys) (auto simp: list_all2_Cons1 split: option.splits)

lemma list_all2_source: "list_all2 R xs ys \<Longrightarrow> y \<in> set ys \<Longrightarrow> \<exists>x \<in> set xs. R x y"
  by (induction rule: list_all2_induct) auto

lemma list_all2_target: "list_all2 R xs ys \<Longrightarrow> x \<in> set xs \<Longrightarrow> \<exists>y \<in> set ys. R x y"
  by (induction rule: list_all2_induct) auto

lemma normalizeConfig_Some:
  "normalizeConfig env full c = Some c' \<longleftrightarrow>
     co_schemaVersion c = 1 \<and> opaque_ref (co_authorityRef c) \<and> co_policies c \<noteq> []
     \<and> (\<exists>es. list_all2 (\<lambda>e e'. normalizeEntry env full e = Some e') (co_policies c) es \<and> distinct (map entry_key es)
        \<and> c' = c\<lparr>co_policies := js_sort (\<lambda>a b. py_localeCompare env (entry_key a) (entry_key b)) es\<rparr>)"
  by (auto simp: normalizeConfig_def those_map [symmetric] split: option.splits)

lemma normalized_entry:
  assumes "normalizeConfig env full c = Some c'" "e \<in> set (co_policies c')"
  shows "values_ok full (en_values e)" "\<exists>s. normalizeSelector env s = Some (en_selector e)"
proof -
  obtain es where es: "list_all2 (\<lambda>e e'. normalizeEntry env full e = Some e') (co_policies c) es" "e \<in> set es"
    using assms by (auto simp: normalizeConfig_Some)
  then obtain e0 where "normalizeEntry env full e0 = Some e" by (blast dest: list_all2_source)
  then show "values_ok full (en_values e)" "\<exists>s. normalizeSelector env s = Some (en_selector e)"
    by (auto simp: normalizeEntry_def intro: normalizeValues_ok split: option.splits)
qed

lemma normalized_distinct: "normalizeConfig env full c = Some c' \<Longrightarrow> distinct (map entry_key (co_policies c'))"
  by (auto simp: normalizeConfig_Some)

section \<open>A project layer\<close>

lemma first_failure: "(case x of None \<Rightarrow> r | Some (u, _) \<Rightarrow> Some (g u)) = None \<longleftrightarrow> x = None \<and> r = None"
  by (auto split: option.split)

lemma find_None: "find P xs = None \<longleftrightarrow> (\<forall>x \<in> set xs. \<not> P x)"
  by (auto simp: find_None_iff)

lemma if_Some_None: "(if b then Some x else r) = None \<longleftrightarrow> \<not> b \<and> r = None"
  by simp

lemma floor_below: "(case x of None \<Rightarrow> False | Some f \<Rightarrow> f < least) \<longleftrightarrow> (\<exists>f. x = Some f \<and> f < (least :: rat))"
  by (cases x) auto

lemma widening_None:
  "wideningDetail p v = None \<longleftrightarrow>
     (pv_ratioEnforcement v = Some ObserveOnly \<longrightarrow> pv_ratioEnforcement p = Some ObserveOnly)
     \<and> \<not> warn_above_block (pv_warnAtRatio v) (pv_warnAtRatio p)
     \<and> \<not> warn_above_block (pv_blockAtRatio v) (pv_blockAtRatio p)
     \<and> (\<forall>(u, least) \<in> set (pv_minimumRemaining p). \<forall>f. map_of (pv_minimumRemaining v) u = Some f \<longrightarrow> least \<le> f)
     \<and> (\<forall>(u, f) \<in> set (pv_minimumRemaining v). map_of (pv_minimumRemaining p) u \<in> {None, Some 0} \<longrightarrow> 0 < f)
     \<and> \<not> warn_above_block (or_parent (pv_warnAtRatio v) (pv_warnAtRatio p))
          (or_parent (pv_blockAtRatio v) (pv_blockAtRatio p))"
  unfolding wideningDetail_def if_Some_None first_failure find_None floor_below case_prod_beta
  by (simp only: not_ex de_Morgan_conj not_less not_le not_not imp_conv_disj simp_thms)

text \<open>What a resolution that succeeds has found.\<close>

definition found_entries ::
    "policy_env \<Rightarrow> policy_selector \<Rightarrow> policy_layer \<Rightarrow> policy_layer option \<Rightarrow> policy_selector \<Rightarrow> policy_entry
     \<Rightarrow> policy_entry option \<Rightarrow> bool" where
  "found_entries env s parent project s' e pe \<longleftrightarrow>
     normalizeSelector env s = Some s' \<and> la_scope parent \<noteq> ProjectScope
     \<and> (\<exists>c. normalizeConfig env True (la_config parent) = Some c
          \<and> find (\<lambda>x. entry_key x = selector_json s') (co_policies c) = Some e)
     \<and> (case project of None \<Rightarrow> pe = None
        | Some q \<Rightarrow> la_scope q = ProjectScope
            \<and> (\<exists>c. normalizeConfig env False (la_config q) = Some c
              \<and> find (\<lambda>x. entry_key x = selector_json s') (co_policies c) = pe))
     \<and> (\<forall>x. pe = Some x \<longrightarrow> wideningDetail (en_values e) (en_values x) = None)"

lemma resolve_found:
  assumes "resolveProviderLimitPolicy env s (Some parent) project = Some (Inr r)"
  shows "\<exists>s' e pe. found_entries env s parent project s' e pe
    \<and> r = resolved_of_entries env s' parent e (map_option (\<lambda>x. (x, co_authorityRef (la_config (the project)))) pe)"
  using assms
  by (auto simp: resolveProviderLimitPolicy_def layer_hold_def findPolicy_def selectorKey_def found_entries_def
      split: option.splits if_splits)

lemma resolve_without_project:
  assumes "found_entries env s parent project s' e pe"
  shows "resolveProviderLimitPolicy env s (Some parent) None = Some (Inr (resolved_of_entries env s' parent e None))"
  using assms
  by (auto simp: resolveProviderLimitPolicy_def layer_hold_def findPolicy_def selectorKey_def found_entries_def)

lemma found_values:
  assumes "found_entries env s parent project s' e pe"
  shows "values_ok True (en_values e)" "\<And>x. pe = Some x \<Longrightarrow> values_ok False (en_values x)"
  using assms
  by (auto simp: found_entries_def find_Some_iff intro!: normalized_entry(1) split: option.splits)


lemma effective_ok:
  assumes "values_ok True p" "\<And>v. pv = Some v \<Longrightarrow> values_ok False v \<and> wideningDetail p v = None"
  shows "values_ok True (effective_values p pv)"
proof (cases pv)
  case None
  with assms(1) show ?thesis by (auto simp: effective_values_def values_ok_def or_parent_def)
next
  case (Some v)
  with assms have "values_ok False v" "wideningDetail p v = None" by simp_all
  with assms(1) Some show ?thesis
    unfolding effective_values_def values_ok_def widening_None
    by (auto simp: or_parent_def distinct_foldl_update map_of_foldl_update map_of_rev_distinct split: option.splits)
qed

lemma effective_strict:
  assumes "values_ok True p" "values_ok False v" "wideningDetail p v = None"
  shows "warn_above_block (pv_warnAtRatio (effective_values p (Some v))) (pv_warnAtRatio p) = False"
    and "warn_above_block (pv_blockAtRatio (effective_values p (Some v))) (pv_blockAtRatio p) = False"
    and "pv_ratioEnforcement (effective_values p (Some v)) = Some ObserveOnly \<Longrightarrow> pv_ratioEnforcement p = Some ObserveOnly"
    and "map_of (pv_minimumRemaining p) u = Some f
      \<Longrightarrow> \<exists>g. map_of (pv_minimumRemaining (effective_values p (Some v))) u = Some g \<and> f \<le> g"
proof -
  note d = assms(2)[unfolded values_ok_def] and w = assms(3)[unfolded widening_None]
  show "warn_above_block (pv_warnAtRatio (effective_values p (Some v))) (pv_warnAtRatio p) = False"
    "warn_above_block (pv_blockAtRatio (effective_values p (Some v))) (pv_blockAtRatio p) = False"
    using w by (auto simp: effective_values_def or_parent_def warn_above_block_def split: option.splits)
  show "pv_ratioEnforcement p = Some ObserveOnly"
    if "pv_ratioEnforcement (effective_values p (Some v)) = Some ObserveOnly"
    using that w by (auto simp: effective_values_def or_parent_def split: option.splits)
  assume u: "map_of (pv_minimumRemaining p) u = Some f"
  then have "(u, f) \<in> set (pv_minimumRemaining p)" by (rule map_of_SomeD)
  with w have "map_of (pv_minimumRemaining v) u = Some g \<Longrightarrow> f \<le> g" for g by blast
  with u d show "\<exists>g. map_of (pv_minimumRemaining (effective_values p (Some v))) u = Some g \<and> f \<le> g"
    by (cases "map_of (pv_minimumRemaining v) u")
       (auto simp: effective_values_def map_of_foldl_update map_of_rev_distinct map_add_def)
qed

lemma resolved_strict:
  assumes "found_entries env s parent project s' e pe"
  shows "stricter_policy (rp_policy (resolved_of_entries env s' parent e (map_option (\<lambda>x. (x, ref)) pe)))
    (rp_policy (resolved_of_entries env s' parent e None))"
proof (cases pe)
  case None
  then show ?thesis by (force simp: stricter_policy_def)
next
  case (Some x)
  with assms have w: "wideningDetail (en_values e) (en_values x) = None" by (simp add: found_entries_def)
  note ok = found_values(1) [OF assms] found_values(2) [OF assms Some]
  have le: "the a \<le> the b" if "warn_above_block a b = False" "a \<noteq> None" "b \<noteq> None" for a b
    using that by (auto simp: warn_above_block_def)
  have full: "values_ok True (effective_values (en_values e) (Some (en_values x)))"
    by (rule effective_ok) (use ok w in auto)
  note strict = effective_strict [OF ok w]
  have base: "effective_values (en_values e) None = en_values e"
    using ok(1) by (auto simp: effective_values_def values_ok_def or_parent_def)
  show ?thesis
    using ok(1) full strict le [OF strict(1)] le [OF strict(2)]
    by (auto simp: Some stricter_policy_def resolved_of_entries_def Let_def base enforces_ratio_def values_ok_def)
qed

text \<open>
  C24 A project layer only holds more. Where it resolves, the layers above it resolve without it,
  and whatever is known of the windows of the account: what the policy of the parent holds, the
  policy with the project's layer holds.
\<close>

theorem project_layer_only_holds_more:
  assumes "resolveProviderLimitPolicy env s (Some parent) project = Some (Inr r)"
  shows "\<exists>base. resolveProviderLimitPolicy env s (Some parent) None = Some (Inr base)
    \<and> stricter_policy (rp_policy r) (rp_policy base)
    \<and> (\<forall>windows required.
        fst (snd (evaluateKnownWindows windows required (rp_policy base))) = LimitHold
        \<longrightarrow> fst (snd (evaluateKnownWindows windows required (rp_policy r))) = LimitHold)"
proof -
  obtain s' e pe where found: "found_entries env s parent project s' e pe"
    and r: "r = resolved_of_entries env s' parent e (map_option (\<lambda>x. (x, co_authorityRef (la_config (the project)))) pe)"
    using resolve_found [OF assms] by blast
  have "stricter_policy (rp_policy r) (rp_policy (resolved_of_entries env s' parent e None))"
    unfolding r by (rule resolved_strict [OF found])
  with resolve_without_project [OF found] show ?thesis by (blast intro: strict_holds_more)
qed

section \<open>The order of declarations\<close>

lemma find_key: "distinct (map f xs) \<Longrightarrow> find (\<lambda>x. f x = k) xs = Some e \<longleftrightarrow> e \<in> set xs \<and> f e = k"
  by (induction xs) (auto simp: image_iff)

lemma find_permuted:
  assumes "mset xs = mset ys" "distinct (map f xs)"
  shows "find (\<lambda>x. f x = k) xs = find (\<lambda>x. f x = k) ys"
proof -
  have "distinct (map f ys)" using assms by (metis mset_eq_imp_distinct_iff mset_map)
  moreover have "set xs = set ys" using assms(1) by (rule mset_eq_setD)
  ultimately have "find (\<lambda>x. f x = k) xs = Some e \<longleftrightarrow> find (\<lambda>x. f x = k) ys = Some e" for e
    using assms(2) by (simp add: find_key)
  then show ?thesis by (metis not_Some_eq)
qed

lemma those_Some: "those (map f xs) = Some ys \<longleftrightarrow> (\<forall>x \<in> set xs. f x \<noteq> None) \<and> ys = map (\<lambda>x. the (f x)) xs"
  by (induction xs arbitrary: ys) (auto split: option.splits)

lemma those_None: "those (map f xs) = None \<longleftrightarrow> (\<exists>x \<in> set xs. f x = None)"
  by (induction xs) (auto split: option.splits)

lemma normalizeConfig_iff:
  "normalizeConfig env full c = Some n \<longleftrightarrow>
     co_schemaVersion c = 1 \<and> opaque_ref (co_authorityRef c) \<and> co_policies c \<noteq> []
     \<and> (\<forall>e \<in> set (co_policies c). normalizeEntry env full e \<noteq> None)
     \<and> distinct (map entry_key (map (\<lambda>e. the (normalizeEntry env full e)) (co_policies c)))
     \<and> n = c\<lparr>co_policies := js_sort (\<lambda>a b. py_localeCompare env (entry_key a) (entry_key b))
          (map (\<lambda>e. the (normalizeEntry env full e)) (co_policies c))\<rparr>"
  unfolding normalizeConfig_def by (auto simp: those_Some those_None split: option.splits)

definition same_declarations :: "policy_layer \<Rightarrow> policy_layer \<Rightarrow> bool" where
  "same_declarations a b \<longleftrightarrow> la_scope a = la_scope b
     \<and> co_schemaVersion (la_config a) = co_schemaVersion (la_config b)
     \<and> co_authorityRef (la_config a) = co_authorityRef (la_config b)
     \<and> mset (co_policies (la_config a)) = mset (co_policies (la_config b))"

lemma normalize_permuted:
  assumes "same_declarations a b" "normalizeConfig env full (la_config a) = Some n"
  shows "\<exists>n'. normalizeConfig env full (la_config b) = Some n' \<and> mset (co_policies n) = mset (co_policies n')"
proof -
  let ?f = "\<lambda>e. the (normalizeEntry env full e)"
  let ?a = "co_policies (la_config a)" and ?b = "co_policies (la_config b)"
  from assms(1) have m: "mset ?a = mset ?b" by (simp add: same_declarations_def)
  then have "mset (map ?f ?a) = mset (map ?f ?b)" "mset (map entry_key (map ?f ?a)) = mset (map entry_key (map ?f ?b))"
    by (simp_all only: mset_map)
  then have "distinct (map entry_key (map ?f ?a)) = distinct (map entry_key (map ?f ?b))"
    "set ?a = set ?b" "?a = [] \<longleftrightarrow> ?b = []"
    using m by (metis mset_eq_imp_distinct_iff, metis mset_eq_setD, metis mset_zero_iff)
  with \<open>mset (map ?f ?a) = mset (map ?f ?b)\<close> assms show ?thesis
    by (auto simp: normalizeConfig_iff same_declarations_def)
qed

lemma check_layer_entries_None:
  "check_layer_entries parents es = None \<longleftrightarrow>
     (\<forall>e \<in> set es. \<exists>p. parents (entry_key e) = Some p \<and> wideningDetail (en_values p) (en_values e) = None)"
  by (induction es) (auto split: option.splits)

lemma parent_entry:
  "distinct (map entry_key es) \<Longrightarrow>
     map_of (rev (map (\<lambda>e. (entry_key e, e)) es)) k = Some p \<longleftrightarrow> p \<in> set es \<and> entry_key p = k"
  by (subst map_of_rev_distinct) (auto simp: comp_def distinct_map inj_on_def)

lemma precedence_None:
  "assertProviderLimitPolicyLayerPrecedence env (Some p) (Some q) = None \<longleftrightarrow>
     (\<exists>n m. normalizeConfig env True p = Some n \<and> normalizeConfig env False q = Some m
      \<and> (\<forall>e \<in> set (co_policies m). \<exists>x \<in> set (co_policies n). entry_key x = entry_key e
          \<and> wideningDetail (en_values x) (en_values e) = None))"
proof -
  have "?thesis" if "normalizeConfig env True p = Some n" "normalizeConfig env False q = Some m" for n m
    using that normalized_distinct [OF that(1)]
    by (simp add: assertProviderLimitPolicyLayerPrecedence_def check_layer_entries_None parent_entry) blast
  then show ?thesis
    by (cases "normalizeConfig env True p"; cases "normalizeConfig env False q")
       (auto simp: assertProviderLimitPolicyLayerPrecedence_def)
qed

lemma resolve_iff:
  "resolveProviderLimitPolicy env s (Some parent) project = Some (Inr r) \<longleftrightarrow>
     (project \<noteq> None \<longrightarrow> assertProviderLimitPolicyLayerPrecedence env (Some (la_config parent))
        (map_option la_config project) = None)
     \<and> (\<exists>s' e pe. found_entries env s parent project s' e pe
       \<and> r = resolved_of_entries env s' parent e (map_option (\<lambda>x. (x, co_authorityRef (la_config (the project)))) pe))"
  (is "?l \<longleftrightarrow> ?p \<and> ?f")
proof
  assume l: ?l
  have "?p" using l by (auto simp: resolveProviderLimitPolicy_def layer_hold_def split: option.splits if_splits)
  with resolve_found [OF l] show "?p \<and> ?f" by simp
next
  assume "?p \<and> ?f"
  then show ?l
    by (auto simp: resolveProviderLimitPolicy_def layer_hold_def findPolicy_def selectorKey_def found_entries_def
        split: option.splits)
qed

lemma found_permuted:
  assumes "found_entries env s a pa s' e pe" "same_declarations a b" "rel_option same_declarations pa pb"
  shows "found_entries env s b pb s' e pe"
proof -
  have find: "\<exists>c. normalizeConfig env full (la_config y) = Some c
      \<and> find (\<lambda>x. entry_key x = k) (co_policies c) = find (\<lambda>x. entry_key x = k) (co_policies n)"
    if "same_declarations x y" "normalizeConfig env full (la_config x) = Some n" for x y full n k
  proof -
    note hyps = that
    obtain n' where n': "normalizeConfig env full (la_config y) = Some n'" "mset (co_policies n) = mset (co_policies n')"
      using normalize_permuted [OF hyps] by blast
    from find_permuted [OF n'(2) normalized_distinct [OF hyps(2)]] n'(1) show ?thesis by simp
  qed
  note f = assms(1)[unfolded found_entries_def]
  obtain c where "normalizeConfig env True (la_config a) = Some c"
      "find (\<lambda>x. entry_key x = selector_json s') (co_policies c) = Some e" using f by blast
  with find [OF assms(2), of True c "selector_json s'"]
  have parent: "\<exists>c. normalizeConfig env True (la_config b) = Some c
      \<and> find (\<lambda>x. entry_key x = selector_json s') (co_policies c) = Some e" by simp
  have scope: "la_scope b \<noteq> ProjectScope" using f assms(2) by (simp add: same_declarations_def)
  show ?thesis
  proof (cases pa)
    case None
    with assms(3) f parent scope show ?thesis by (simp add: found_entries_def)
  next
    case (Some x)
    with assms(3) obtain y where y: "pb = Some y" "same_declarations x y" by (cases pb) auto
    obtain d where "normalizeConfig env False (la_config x) = Some d"
        "find (\<lambda>x. entry_key x = selector_json s') (co_policies d) = pe" using f Some by auto
    with find [OF y(2), of False d "selector_json s'"]
    have "\<exists>c. normalizeConfig env False (la_config y) = Some c
      \<and> find (\<lambda>x. entry_key x = selector_json s') (co_policies c) = pe" by simp
    moreover have "la_scope y = ProjectScope" using f Some y(2) by (simp add: same_declarations_def)
    ultimately show ?thesis using f parent scope y(1) by (simp add: found_entries_def)
  qed
qed

lemma precedence_permuted:
  assumes "assertProviderLimitPolicyLayerPrecedence env (Some (la_config a)) (Some (la_config x)) = None"
    and "same_declarations a b" "same_declarations x y"
  shows "assertProviderLimitPolicyLayerPrecedence env (Some (la_config b)) (Some (la_config y)) = None"
proof -
  obtain n m where n: "normalizeConfig env True (la_config a) = Some n"
    and m: "normalizeConfig env False (la_config x) = Some m"
    and all: "\<forall>e \<in> set (co_policies m). \<exists>x \<in> set (co_policies n). entry_key x = entry_key e
      \<and> wideningDetail (en_values x) (en_values e) = None"
    using assms(1) unfolding precedence_None by blast
  obtain n' where n': "normalizeConfig env True (la_config b) = Some n'" "mset (co_policies n) = mset (co_policies n')"
    using normalize_permuted [OF assms(2) n] by blast
  obtain m' where m': "normalizeConfig env False (la_config y) = Some m'" "mset (co_policies m) = mset (co_policies m')"
    using normalize_permuted [OF assms(3) m] by blast
  from all n' m' show ?thesis
    unfolding precedence_None mset_eq_setD [OF n'(2)] mset_eq_setD [OF m'(2)] by blast
qed

lemma resolve_permuted:
  assumes "resolveProviderLimitPolicy env s (Some a) pa = Some (Inr r)"
    and "same_declarations a b" "rel_option same_declarations pa pb"
  shows "resolveProviderLimitPolicy env s (Some b) pb = Some (Inr r)"
proof -
  obtain s' e pe where found: "found_entries env s a pa s' e pe"
    and r: "r = resolved_of_entries env s' a e (map_option (\<lambda>x. (x, co_authorityRef (la_config (the pa)))) pe)"
    using assms(1) unfolding resolve_iff by blast
  have "r = resolved_of_entries env s' b e (map_option (\<lambda>x. (x, co_authorityRef (la_config (the pb)))) pe)"
    using assms(2,3) found unfolding r
    by (cases pa; cases pb) (auto simp: resolved_of_entries_def policy_json_def same_declarations_def found_entries_def)
  with found_permuted [OF found assms(2,3)] assms show ?thesis
    unfolding resolve_iff by (cases pa; cases pb) (auto intro: precedence_permuted)
qed

text \<open>
  The order in which the policies of a layer are declared is no authority: layers with the same
  declarations in another order resolve a selector to the same policy, digests included.
\<close>

theorem declaration_order_irrelevant:
  assumes "same_declarations a b" "rel_option same_declarations pa pb"
  shows "resolveProviderLimitPolicy env s (Some a) pa = Some (Inr r)
    \<longleftrightarrow> resolveProviderLimitPolicy env s (Some b) pb = Some (Inr r)"
proof
  have "same_declarations b a" "rel_option same_declarations pb pa"
    using assms by (cases pa; cases pb; simp add: same_declarations_def)+
  then show "resolveProviderLimitPolicy env s (Some a) pa = Some (Inr r)"
    if "resolveProviderLimitPolicy env s (Some b) pb = Some (Inr r)" using that by (blast intro: resolve_permuted)
qed (rule resolve_permuted [OF _ assms])

end
