(* ===== verification/Limit_Runtime_Correct.thy ===== *)
theory Limit_Runtime_Correct
  imports Limit_Policy_Correct
begin

text \<open>
  What the ledger gets from the authored layers: for which accounts the runtime resolver answers and
  with what, which resolved policies the ledger accepts, and that the layers kept in normal form
  resolve as the authored ones do.
\<close>

section \<open>Keys\<close>

lemma json_quoted_append:
  "json_quoted_char c @ x = json_quoted_char d @ y \<longleftrightarrow> c = d \<and> x = y"
  "json_quoted_char c @ x \<noteq> CHR 0x22 # y" "CHR 0x22 # y \<noteq> json_quoted_char c @ x"
  by (auto simp: json_quoted_char_def)

lemma json_quote_append: "json_quote s @ r = json_quote t @ r' \<longleftrightarrow> s = t \<and> r = r'"
proof -
  have "concat (map json_quoted_char s) @ CHR 0x22 # r = concat (map json_quoted_char t) @ CHR 0x22 # r' \<longleftrightarrow> s = t \<and> r = r'"
    (is "?eq s t \<longleftrightarrow> _")
  proof (induction s arbitrary: t)
    case Nil
    show ?case by (cases t) (auto simp: json_quoted_append)
  next
    case (Cons c s)
    show ?case by (cases t) (auto simp: json_quoted_append Cons.IH)
  qed
  then show ?thesis by (simp add: json_quote_def)
qed

lemma json_quote_inject: "json_quote s = json_quote t \<longleftrightarrow> s = t"
  using json_quote_append [of s "[]" t "[]"] by simp

lemma json_nullable_append: "json_nullable x @ r = json_nullable y @ r' \<longleftrightarrow> x = y \<and> r = r'"
proof (cases x; cases y)
qed (simp_all add: json_nullable_def json_quote_append, simp_all add: json_quote_def)

lemma auth_name_inject: "auth_name a = auth_name b \<longleftrightarrow> a = b"
  by (cases a; cases b) (simp_all add: auth_name_def)

lemma scope_json_inject: "scope_json a = scope_json b \<longleftrightarrow> a = b"
proof -
  have "scope_json a = scope_json b \<longleftrightarrow> sc_accountRefHash a = sc_accountRefHash b \<and> sc_authMode a = sc_authMode b
      \<and> sc_provider a = sc_provider b \<and> sc_quotaScopeRefHash a = sc_quotaScopeRefHash b \<and> sc_tenantId a = sc_tenantId b"
    by (simp add: scope_json_def json_object_def json_quote_append json_quote_inject json_nullable_append auth_name_inject)
  then show ?thesis by (cases a; cases b) auto
qed

section \<open>Texts of selectors\<close>

text \<open>
  A text format is self-delimiting when a written value can be cut off from whatever follows it.
\<close>

lemma array_elements_append:
  assumes cut: "\<And>x y r r'. f x @ r = f y @ r' \<longleftrightarrow> x = y \<and> r = r'" and first: "\<And>x. f x \<noteq> [] \<and> hd (f x) \<noteq> CHR '']''"
  shows "js_join '','' (map f xs) @ CHR '']'' # r = js_join '','' (map f ys) @ CHR '']'' # r' \<longleftrightarrow> xs = ys \<and> r = r'"
proof (induction xs arbitrary: ys rule: induct_list012)
  case 1
  have "CHR '']'' # r \<noteq> f y @ t" for y t using first [of y] by (cases "f y") auto
  then show ?case by (cases ys rule: remdups_adj.cases) auto
next
  case (2 x)
  have "f x @ CHR '']'' # r \<noteq> CHR '']'' # t" for t using first [of x] by (cases "f x") auto
  then show ?case by (cases ys rule: remdups_adj.cases) (auto simp: cut)
next
  case (3 x x' xs)
  have "f x @ s \<noteq> CHR '']'' # t" for s t using first [of x] by (cases "f x") auto
  then show ?case
  proof (cases ys rule: remdups_adj.cases)
    case (3 y y' zs)
    with "3.IH"(2) [of "y' # zs"] show ?thesis by (auto simp: cut)
  qed (auto simp: cut)
qed

lemma json_array_append:
  assumes "\<And>x y r r'. f x @ r = f y @ r' \<longleftrightarrow> x = y \<and> r = r'" "\<And>x. f x \<noteq> [] \<and> hd (f x) \<noteq> CHR '']''"
  shows "json_array (map f xs) @ r = json_array (map f ys) @ r' \<longleftrightarrow> xs = ys \<and> r = r'"
  using array_elements_append [of f, OF assms] by (simp add: json_array_def)

lemma backend_name_inject: "backend_name a = backend_name b \<longleftrightarrow> a = b"
  by (cases a; cases b) (simp_all add: backend_name_def)

lemma transport_name_inject: "transport_name a = transport_name b \<longleftrightarrow> a = b"
  by (cases a; cases b) (simp_all add: transport_name_def)

lemma source_name_inject: "source_name a = source_name b \<longleftrightarrow> a = b"
  by (cases a; cases b) (simp_all add: source_name_def)

lemma authority_name_inject: "authority_name a = authority_name b \<longleftrightarrow> a = b"
  by (cases a; cases b) (simp_all add: authority_name_def)

lemma limit_backend_eqI:
  "lb_endpointRefHash a = lb_endpointRefHash b \<Longrightarrow> lb_executionBackend a = lb_executionBackend b
     \<Longrightarrow> lb_transport a = lb_transport b \<Longrightarrow> a = (b :: limit_backend)"
  by (cases a; cases b) simp

lemma backend_json_append: "backend_json a @ r = backend_json b @ r' \<longleftrightarrow> a = b \<and> r = r'"
  by (auto simp: backend_json_def json_object_def json_quote_append json_nullable_append backend_name_inject
      transport_name_inject intro: limit_backend_eqI)

lemma source_scope_json_append: "source_scope_json a @ r = source_scope_json b @ r' \<longleftrightarrow> a = b \<and> r = r'"
proof -
  have "source_scope_json a @ r = source_scope_json b @ r' \<longleftrightarrow> so_authority a = so_authority b
      \<and> so_backend a = so_backend b \<and> so_sourceKind a = so_sourceKind b \<and> r = r'"
    by (auto simp: source_scope_json_def json_object_def json_quote_append json_nullable_append backend_name_inject
        transport_name_inject source_name_inject authority_name_inject intro: limit_backend_eqI)
  then show ?thesis by (cases a; cases b) auto
qed

lemma selector_json_append: "selector_json a @ r = selector_json b @ r' \<longleftrightarrow> a = b \<and> r = r'"
proof -
  have windows: "json_array (map json_quote xs) @ r = json_array (map json_quote ys) @ r' \<longleftrightarrow> xs = ys \<and> r = r'" for xs ys r r'
    by (rule json_array_append [OF json_quote_append]) (simp add: json_quote_def)
  have sources: "json_array (map source_scope_json xs) @ r = json_array (map source_scope_json ys) @ r' \<longleftrightarrow> xs = ys \<and> r = r'" for xs ys r r'
    by (rule json_array_append [OF source_scope_json_append]) (simp add: source_scope_json_def json_object_def)
  have "selector_json a @ r = selector_json b @ r' \<longleftrightarrow> sc_accountRefHash (se_scope a) = sc_accountRefHash (se_scope b)
      \<and> sc_authMode (se_scope a) = sc_authMode (se_scope b) \<and> se_backend a = se_backend b
      \<and> sc_provider (se_scope a) = sc_provider (se_scope b)
      \<and> sc_quotaScopeRefHash (se_scope a) = sc_quotaScopeRefHash (se_scope b)
      \<and> se_requiredWindowIds a = se_requiredWindowIds b \<and> se_sourceScopes a = se_sourceScopes b
      \<and> sc_tenantId (se_scope a) = sc_tenantId (se_scope b) \<and> r = r'"
    by (simp add: selector_json_def json_object_def json_quote_append json_nullable_append auth_name_inject
        backend_json_append windows sources)
  moreover have "se_scope a = se_scope b" if "sc_accountRefHash (se_scope a) = sc_accountRefHash (se_scope b)"
      "sc_authMode (se_scope a) = sc_authMode (se_scope b)" "sc_provider (se_scope a) = sc_provider (se_scope b)"
      "sc_quotaScopeRefHash (se_scope a) = sc_quotaScopeRefHash (se_scope b)"
      "sc_tenantId (se_scope a) = sc_tenantId (se_scope b)"
    using that by (cases "se_scope a"; cases "se_scope b") simp
  ultimately show ?thesis by (cases a; cases b) auto
qed

text \<open>So the text that is hashed for a policy names its selector.\<close>

lemma policy_json_selector:
  "policy_json env s parent ref v = policy_json env s' parent ref' v' \<Longrightarrow> s = s'"
  by (simp add: policy_json_def json_object_def json_nullable_append selector_json_append)

section \<open>The table of the resolver\<close>

text \<open>The value of one key, as the entries of that key decide it one after the other.\<close>

definition join_policy :: "ProviderLimitPolicy option option \<Rightarrow> ProviderLimitPolicy \<Rightarrow> ProviderLimitPolicy option option" where
  "join_policy old p =
     (case old of
        None \<Rightarrow> Some (Some p)
      | Some x \<Rightarrow> if map_option lp_policyRef x \<noteq> Some (lp_policyRef p) then Some None else Some (Some p))"

lemma map_of_add_policy:
  "map_of (add_policy k p m) k' = (if k' = k then join_policy (map_of m k) p else map_of m k')"
  by (cases "map_of m k") (auto simp: add_policy_def join_policy_def update_conv')

lemma map_of_fold_policies:
  "map_of (foldl (\<lambda>m (k, p). add_policy k p m) m xs) k
     = foldl join_policy (map_of m k) (map snd (filter (\<lambda>x. fst x = k) xs))"
  by (induction xs arbitrary: m) (auto simp: map_of_add_policy)

lemma joined_None: "foldl join_policy None ps = None \<longleftrightarrow> ps = []"
  by (induction ps rule: rev_induct) (auto simp: join_policy_def split: option.split)

lemma joined_policy:
  "foldl join_policy None ps = Some (Some p) \<Longrightarrow> ps \<noteq> [] \<and> p = last ps \<and> (\<forall>x \<in> set ps. lp_policyRef x = lp_policyRef p)"
proof (induction ps arbitrary: p rule: rev_induct)
  case (snoc x ps)
  show ?case
  proof (cases "foldl join_policy None ps")
    case None
    with snoc.prems show ?thesis by (simp add: joined_None join_policy_def)
  next
    case (Some y)
    with snoc.prems have "join_policy (Some y) x = Some (Some p)" by simp
    then obtain q where "y = Some q" "lp_policyRef q = lp_policyRef x" "p = x"
      by (cases y) (auto simp: join_policy_def split: if_splits)
    with snoc.IH [of q] Some show ?thesis by auto
  qed
qed simp

text \<open>The pairs that the loop over the entries adds.\<close>

definition resolved_pair ::
    "policy_env \<Rightarrow> policy_layer \<Rightarrow> policy_layer option \<Rightarrow> policy_entry \<Rightarrow> string \<times> ProviderLimitPolicy \<Rightarrow> bool" where
  "resolved_pair env parent project e x \<longleftrightarrow>
     exact_scope (se_scope (en_selector e)) \<and> fst x = scope_json (se_scope (en_selector e))
     \<and> (\<exists>r. resolveProviderLimitPolicy env (en_selector e) (Some parent) project = Some (Inr r) \<and> snd x = rp_policy r)"

lemma resolve_entries_pairs:
  "resolve_entries env parent project es (m, refs) = Some (Inr (m', refs')) \<Longrightarrow>
     \<exists>xs. list_all2 (resolved_pair env parent project) es xs \<and> m' = foldl (\<lambda>m (k, p). add_policy k p m) m xs"
proof (induction es arbitrary: m refs)
  case (Cons e es)
  then obtain r where r: "resolveProviderLimitPolicy env (en_selector e) (Some parent) project = Some (Inr r)"
      "exact_scope (se_scope (en_selector e))"
    and rest: "resolve_entries env parent project es
      (add_policy (scope_json (se_scope (en_selector e))) (rp_policy r) m, refs @ [lp_policyRef (rp_policy r)])
        = Some (Inr (m', refs'))"
    by (auto simp: runtimeSelectorKey_def split: option.splits sum.splits if_splits)
  from Cons.IH [OF rest] obtain xs where "list_all2 (resolved_pair env parent project) es xs"
      "m' = foldl (\<lambda>m (k, p). add_policy k p m) (add_policy (scope_json (se_scope (en_selector e))) (rp_policy r) m) xs"
    by blast
  moreover have "resolved_pair env parent project e (scope_json (se_scope (en_selector e)), rp_policy r)"
    using r by (simp add: resolved_pair_def)
  ultimately show ?case
    by (intro exI [of _ "(scope_json (se_scope (en_selector e)), rp_policy r) # xs"]) simp
qed auto

text \<open>
  The texts that are hashed for the selectors of a parent: one for each authored entry, made of the
  normalised selector, the parent and the effective values.
\<close>

definition hashed_texts :: "policy_env \<Rightarrow> policy_layer \<Rightarrow> policy_layer option \<Rightarrow> policy_entry list \<Rightarrow> string set" where
  "hashed_texts env parent project es =
     {policy_json env s parent (map_option (\<lambda>_. co_authorityRef (la_config (the project))) pe)
        (effective_values (en_values e) (map_option en_values pe)) | s e pe.
      \<exists>x \<in> set es. found_entries env (en_selector x) parent project s e pe}"

lemma resolved_digest:
  assumes "resolveProviderLimitPolicy env (en_selector x) (Some parent) project = Some (Inr r)" "x \<in> set es"
  shows "\<exists>s ref v. normalizeSelector env (en_selector x) = Some s
    \<and> lp_policyRef (rp_policy r) = ''provider-limit-policy:'' @ py_sha256 env (policy_json env s parent ref v)
    \<and> policy_json env s parent ref v \<in> hashed_texts env parent project es"
proof -
  obtain s e pe where found: "found_entries env (en_selector x) parent project s e pe"
    and r: "r = resolved_of_entries env s parent e (map_option (\<lambda>y. (y, co_authorityRef (la_config (the project)))) pe)"
    using resolve_found [OF assms(1)] by blast
  have "lp_policyRef (rp_policy r) = ''provider-limit-policy:'' @ py_sha256 env
      (policy_json env s parent (map_option (\<lambda>_. co_authorityRef (la_config (the project))) pe)
        (effective_values (en_values e) (map_option en_values pe)))"
    by (simp add: r resolved_of_entries_def Let_def option.map_comp comp_def)
  moreover have "normalizeSelector env (en_selector x) = Some s" using found by (simp add: found_entries_def)
  ultimately show ?thesis using found assms(2) unfolding hashed_texts_def by blast
qed

lemma table_entry:
  fixes xs :: "(string \<times> ProviderLimitPolicy) list"
  defines "m \<equiv> foldl (\<lambda>m (k, p). add_policy k p m) [] xs"
  assumes "\<not> list_ex (\<lambda>(_, p). p = None) m"
  shows "x \<in> set xs \<Longrightarrow> \<exists>p. map_of m (fst x) = Some (Some p) \<and> lp_policyRef (snd x) = lp_policyRef p"
    and "map_of m k = Some (Some p) \<Longrightarrow> (k, p) \<in> set xs"
proof -
  have at_key: "map_of m k = foldl join_policy None (map snd (filter (\<lambda>x. fst x = k) xs))" for k
    by (simp add: m_def map_of_fold_policies)
  show "(k, p) \<in> set xs" if "map_of m k = Some (Some p)"
  proof -
    from that have "map snd (filter (\<lambda>x. fst x = k) xs) \<noteq> [] \<and> p = last (map snd (filter (\<lambda>x. fst x = k) xs))"
      using joined_policy [of "map snd (filter (\<lambda>x. fst x = k) xs)" p] by (simp add: at_key)
    then have "p \<in> set (map snd (filter (\<lambda>x. fst x = k) xs))" by (metis last_in_set)
    then show ?thesis by auto
  qed
  assume x: "x \<in> set xs"
  then have in_key: "snd x \<in> set (map snd (filter (\<lambda>y. fst y = fst x) xs))" by auto
  then have "map_of m (fst x) \<noteq> None" by (auto simp: at_key joined_None filter_empty_conv)
  then obtain oo where oo: "map_of m (fst x) = Some oo" by blast
  moreover have "oo \<noteq> None" using assms(2) map_of_SomeD [OF oo] by (auto simp: list_ex_iff)
  ultimately obtain p where p: "map_of m (fst x) = Some (Some p)" by blast
  with joined_policy [of "map snd (filter (\<lambda>y. fst y = fst x) xs)" p] in_key
  show "\<exists>p. map_of m (fst x) = Some (Some p) \<and> lp_policyRef (snd x) = lp_policyRef p" by (auto simp: at_key)
qed

lemma created:
  assumes "createProviderLimitPolicyRuntimeResolver env (Some parent) project = Some (Inr ru)"
    and "normalizeConfig env True (la_config parent) = Some c"
  shows "\<exists>xs. list_all2 (resolved_pair env parent project) (co_policies c) xs
    \<and> ru_policies ru = foldl (\<lambda>m (k, p). add_policy k p m) [] xs
    \<and> \<not> list_ex (\<lambda>(_, p). p = None) (ru_policies ru)"
proof -
  let ?r = "resolve_entries env parent project (co_policies c) ([], [])"
  note create = assms(1)[unfolded createProviderLimitPolicyRuntimeResolver_def]
  have "\<exists>m refs. ?r = Some (Inr (m, refs)) \<and> \<not> list_ex (\<lambda>(_, p). p = None) m \<and> ru_policies ru = m"
  proof (cases ?r)
    case None
    with create assms(2) show ?thesis by (simp split: option.split_asm)
  next
    case (Some x)
    with create assms(2) show ?thesis
      by (cases x) (simp_all split: option.split_asm prod.split_asm if_split_asm, auto)
  qed
  then show ?thesis using resolve_entries_pairs by blast
qed

section \<open>What the ledger accepts\<close>

lemma digest_ref:
  assumes "sha256_text h"
  shows "opaque_ref (''provider-limit-policy:'' @ h)"
proof -
  have hex: "digit_char c \<or> c \<in> set ''abcdef''" if "c \<in> set h" for c
    using assms that by (simp add: sha256_text_def list_all_iff)
  from hex [of "CHR ''/''"] have slash: "CHR ''/'' \<notin> set h" by (auto simp: digit_char_def)
  have "lower_letter c" if "c \<in> set ''abcdef''" for c
    using that by (auto simp: lower_letter_def)
  with hex have "list_all (\<lambda>c. lower_letter c \<or> upper_letter c \<or> digit_char c \<or> c \<in> set ''._-'') h"
    unfolding list_all_iff by blast
  then have "ref_segment h" using assms by (simp add: sha256_text_def ref_segment_def)
  moreover have "\<not> js_includes (''provider-limit-policy:'' @ h) ''://''"
  proof
    assume "js_includes (''provider-limit-policy:'' @ h) ''://''"
    then have "set ''://'' \<subseteq> set (''provider-limit-policy:'' @ h)"
      unfolding js_includes_def by (rule set_mono_sublist)
    with slash show False by simp
  qed
  moreover have "length h = 64" using assms by (simp add: sha256_text_def)
  moreover have colon: "takeWhile (\<lambda>c. c \<noteq> CHR '':'') (''provider-limit-policy:'' @ h) = ''provider-limit-policy''"
    "dropWhile (\<lambda>c. c \<noteq> CHR '':'') (''provider-limit-policy:'' @ h) = CHR '':'' # h" by simp_all
  moreover have "lower_letter (hd ''provider-limit-policy'')" "list_all slug_char (tl ''provider-limit-policy'')"
    by code_simp+
  moreover have "length (''provider-limit-policy:'' @ h) \<le> 192" using \<open>length h = 64\<close> by simp
  ultimately show ?thesis unfolding opaque_ref_def Let_def colon list.sel by blast
qed

lemma resolved_values:
  assumes "resolveProviderLimitPolicy env s (Some parent) project = Some (Inr r)"
  shows "\<exists>v t. values_ok True v \<and> rp_policy r =
    \<lparr>lp_policyRef = ''provider-limit-policy:'' @ py_sha256 env t, lp_ratioEnforcement = pv_ratioEnforcement v,
     lp_warnAtRatio = the (pv_warnAtRatio v), lp_blockAtRatio = the (pv_blockAtRatio v),
     lp_minimumRemaining = pv_minimumRemaining v\<rparr>"
proof -
  obtain s' e pe where found: "found_entries env s parent project s' e pe"
    and r: "r = resolved_of_entries env s' parent e (map_option (\<lambda>x. (x, co_authorityRef (la_config (the project)))) pe)"
    using resolve_found [OF assms] by blast
  have "values_ok True (effective_values (en_values e) (map_option en_values pe))"
    by (rule effective_ok) (use found_values [OF found] found in \<open>auto simp: found_entries_def\<close>)
  then show ?thesis
    by (intro exI conjI) (assumption, simp add: r resolved_of_entries_def Let_def option.map_comp comp_def)
qed

text \<open>
  A resolved policy is one that the ledger accepts exactly when its two thresholds differ. Where
  they are equal, which the authored layers allow, every application of the policy is refused.
\<close>

theorem resolved_policy_accepted:
  assumes "resolveProviderLimitPolicy env s (Some parent) project = Some (Inr r)"
    and "\<forall>t. sha256_text (py_sha256 env t)"
  shows "(policy_ok (rp_policy r) \<longleftrightarrow> lp_warnAtRatio (rp_policy r) \<noteq> lp_blockAtRatio (rp_policy r))
    \<and> (lp_warnAtRatio (rp_policy r) = lp_blockAtRatio (rp_policy r) \<longrightarrow> applyProviderLimitPolicy h x (rp_policy r) = None)"
proof -
  obtain v t where v: "values_ok True v" and r: "rp_policy r =
    \<lparr>lp_policyRef = ''provider-limit-policy:'' @ py_sha256 env t, lp_ratioEnforcement = pv_ratioEnforcement v,
     lp_warnAtRatio = the (pv_warnAtRatio v), lp_blockAtRatio = the (pv_blockAtRatio v),
     lp_minimumRemaining = pv_minimumRemaining v\<rparr>" using resolved_values [OF assms(1)] by blast
  obtain w b where wb: "pv_warnAtRatio v = Some w" "pv_blockAtRatio v = Some b" "0 \<le> w" "w \<le> b" "b \<le> 1"
    using v by (auto simp: values_ok_def ratio_or_absent_def warn_above_block_def)
  have floors: "list_all (\<lambda>(_, f). 0 \<le> f) (pv_minimumRemaining v)"
    using v by (auto simp: values_ok_def list_all_iff)
  have "policy_ok (rp_policy r) \<longleftrightarrow> w < b"
    using wb floors digest_ref [of "py_sha256 env t"] assms(2) by (simp add: policy_ok_def r)
  with wb show ?thesis by (auto simp: r applyProviderLimitPolicy_def)
qed

section \<open>Layers kept in normal form\<close>

lemma comparator_on: "js_comparator cmp \<Longrightarrow> js_comparator (\<lambda>a b. cmp (f a) (f b))"
  unfolding js_comparator_def by blast

lemma set_floors_id: "distinct (map fst (m @ xs)) \<Longrightarrow> set_floors m xs = m @ xs"
proof (induction xs arbitrary: m)
  case (Cons x xs)
  obtain u f where x: "x = (u, f)" by force
  have "u \<notin> fst ` set m" using Cons.prems by (auto simp: x)
  then have "AList.update u f m = m @ [(u, f)]" by (induction m) auto
  with Cons.IH [of "m @ [(u, f)]"] Cons.prems show ?case by (simp add: x)
qed simp

lemma normalizeValues_idem:
  assumes "js_comparator (py_localeCompare env)" "normalizeValues env full v = Some v'"
  shows "normalizeValues env full v' = Some v'"
proof -
  let ?cmp = "\<lambda>a b. py_localeCompare env (unit_name (fst a)) (unit_name (fst b))"
  have "js_comparator ?cmp" by (rule comparator_on [OF comparator_on [OF assms(1)], of unit_name fst])
  note idem = js_comparator.js_sort_idem [OF this]
  have ok: "values_ok full v'" by (rule normalizeValues_ok [OF assms(2)])
  then have floors: "set_floors [] (pv_minimumRemaining v') = pv_minimumRemaining v'"
    by (intro set_floors_id [of "[]", simplified]) (simp add: values_ok_def)
  have nonneg: "list_all (\<lambda>(_, a). 0 \<le> a) (pv_minimumRemaining v')" using ok by (auto simp: values_ok_def list_all_iff)
  have v': "v' = v\<lparr>pv_ratioEnforcement :=
        (if full \<and> pv_ratioEnforcement v = None then Some EnforceRatio else pv_ratioEnforcement v),
      pv_minimumRemaining := js_sort ?cmp (set_floors [] (pv_minimumRemaining v))\<rparr>"
    and some: "full \<or> pv_warnAtRatio v \<noteq> None \<or> pv_blockAtRatio v \<noteq> None \<or> pv_ratioEnforcement v \<noteq> None
      \<or> set_floors [] (pv_minimumRemaining v) \<noteq> []"
    using assms(2) by (auto simp: normalizeValues_def Let_def simp del: foldl.simps split: if_split_asm)
  have sorted: "js_sort ?cmp (pv_minimumRemaining v') = pv_minimumRemaining v'" by (simp add: v' idem)
  have "full \<or> pv_warnAtRatio v' \<noteq> None \<or> pv_blockAtRatio v' \<noteq> None \<or> pv_ratioEnforcement v' \<noteq> None
      \<or> pv_minimumRemaining v' \<noteq> []"
    using some by (auto simp: v')
  then have good: "\<not> (full \<and> (pv_warnAtRatio v' = None \<or> pv_blockAtRatio v' = None)
      \<or> \<not> ratio_or_absent (pv_warnAtRatio v') \<or> \<not> ratio_or_absent (pv_blockAtRatio v')
      \<or> \<not> list_all (\<lambda>(_, amount). 0 \<le> amount) (pv_minimumRemaining v')
      \<or> \<not> full \<and> pv_warnAtRatio v' = None \<and> pv_blockAtRatio v' = None
        \<and> pv_ratioEnforcement v' = None \<and> pv_minimumRemaining v' = []
      \<or> warn_above_block (pv_warnAtRatio v') (pv_blockAtRatio v'))"
    using ok nonneg by (auto simp: values_ok_def)
  have "full \<Longrightarrow> pv_ratioEnforcement v' \<noteq> None" using ok by (simp add: values_ok_def)
  then have "(if full \<and> pv_ratioEnforcement v' = None then Some EnforceRatio else pv_ratioEnforcement v') = pv_ratioEnforcement v'"
    by auto
  then show ?thesis unfolding normalizeValues_def floors Let_def if_not_P [OF good] sorted by simp
qed

lemma normalizeSelector_idem:
  assumes "js_comparator (py_localeCompare env)" "normalizeSelector env s = Some s'"
  shows "normalizeSelector env s' = Some s'"
  using assms(2) js_comparator.js_sort_idem [OF comparator_on [OF assms(1), of source_scope_json]]
  by (auto simp: normalizeSelector_def compareCodePoint.js_sort_idem list_all_iff split: if_splits)

lemma normalizeConfig_idem:
  assumes "js_comparator (py_localeCompare env)" "normalizeConfig env full c = Some n"
  shows "normalizeConfig env full n = Some n"
proof -
  let ?cmp = "\<lambda>a b. py_localeCompare env (entry_key a) (entry_key b)"
  obtain es where es: "list_all2 (\<lambda>e e'. normalizeEntry env full e = Some e') (co_policies c) es"
    and n: "n = c\<lparr>co_policies := js_sort ?cmp es\<rparr>" and rest: "distinct (map entry_key es)" "co_policies c \<noteq> []"
      "co_schemaVersion c = 1" "opaque_ref (co_authorityRef c)"
    using assms(2) unfolding normalizeConfig_Some by blast
  have "normalizeEntry env full e = Some e" if "e \<in> set es" for e
  proof -
    from list_all2_source [OF es that] obtain e0 where "normalizeEntry env full e0 = Some e" by blast
    then show ?thesis
      using normalizeSelector_idem [OF assms(1)] normalizeValues_idem [OF assms(1)]
      by (auto simp: normalizeEntry_def split: option.splits)
  qed
  then have "list_all2 (\<lambda>e e'. normalizeEntry env full e = Some e') (co_policies n) (co_policies n)"
    unfolding list_all2_same by (simp add: n)
  moreover have "es \<noteq> []" using es rest(2) by auto
  moreover have "js_sort ?cmp (js_sort ?cmp es) = js_sort ?cmp es"
    by (rule js_comparator.js_sort_idem [OF comparator_on [OF assms(1)]])
  ultimately show ?thesis using rest unfolding normalizeConfig_Some by (intro conjI exI [of _ "co_policies n"]) (simp_all add: n)
qed

lemma kept_config:
  assumes "js_comparator (py_localeCompare env)" "normalizeConfig env full c \<noteq> None"
  shows "normalizeConfig env full (the (normalizeConfig env full c)) = normalizeConfig env full c"
    and "co_authorityRef (the (normalizeConfig env full c)) = co_authorityRef c"
proof -
  obtain n where n: "normalizeConfig env full c = Some n" using assms(2) by blast
  with normalizeConfig_idem [OF assms(1) n]
  show "normalizeConfig env full (the (normalizeConfig env full c)) = normalizeConfig env full c" by simp
  from n[unfolded normalizeConfig_Some] obtain es where "n = c\<lparr>co_policies := es\<rparr>" by blast
  with n show "co_authorityRef (the (normalizeConfig env full c)) = co_authorityRef c" by simp
qed

lemma resolved_kept:
  "co_authorityRef n = co_authorityRef c
     \<Longrightarrow> resolved_of_entries env s \<lparr>la_scope = k, la_config = n\<rparr> = resolved_of_entries env s \<lparr>la_scope = k, la_config = c\<rparr>"
  by (intro ext) (simp add: resolved_of_entries_def policy_json_def)

text \<open>
  The layers that are kept in normal form resolve every selector as the authored layers do,
  errors and digests included, wherever they are accepted at all; \<open>localeCompare\<close> is a consistent
  comparator.
\<close>

theorem kept_layers_resolve:
  assumes "js_comparator (py_localeCompare env)"
    and "authority_layers env (Some p) project k = Inr (pl, ql)"
  shows "resolveProviderLimitPolicy env s pl ql
    = resolveProviderLimitPolicy env s (Some \<lparr>la_scope = k, la_config = p\<rparr>)
        (map_option (\<lambda>c. \<lparr>la_scope = ProjectScope, la_config = c\<rparr>) project)"
proof -
  from assms(2) have none: "assertProviderLimitPolicyLayerPrecedence env (Some p) project = None"
    and pl: "pl = Some \<lparr>la_scope = k, la_config = the (normalizeConfig env True p)\<rparr>"
    and ql: "ql = map_option (\<lambda>c. \<lparr>la_scope = ProjectScope, la_config = the (normalizeConfig env False c)\<rparr>) project"
    by (auto simp: authority_layers_def split: option.splits)
  have p: "normalizeConfig env True p \<noteq> None"
    using none by (auto simp: assertProviderLimitPolicyLayerPrecedence_def split: option.splits if_splits)
  note kp = kept_config [OF assms(1) p]
  have find: "findPolicy env n s full = findPolicy env c s full"
    if "normalizeConfig env full n = normalizeConfig env full c" for n c full
    using that by (simp add: findPolicy_def)
  show ?thesis
  proof (cases "k = ProjectScope")
    case True
    then show ?thesis by (simp add: pl resolveProviderLimitPolicy_def layer_hold_def)
  next
    case False
    then have open': "layer_hold (Some \<lparr>la_scope = k, la_config = c\<rparr>) (map_option (\<lambda>c. \<lparr>la_scope = ProjectScope, la_config = f c\<rparr>) project) = None"
      for c f by (cases project) (simp_all add: layer_hold_def)
    show ?thesis
    proof (cases project)
      case None
      then show ?thesis
        unfolding resolveProviderLimitPolicy_def pl ql open' by (simp add: find [OF kp(1)] resolved_kept [OF kp(2)] cong: option.case_cong if_cong)
    next
      case (Some q)
      then have "normalizeConfig env False q \<noteq> None"
        using none by (auto simp: assertProviderLimitPolicyLayerPrecedence_def split: option.splits)
      note kq = kept_config [OF assms(1) this]
      have "assertProviderLimitPolicyLayerPrecedence env (Some (the (normalizeConfig env True p)))
          (Some (the (normalizeConfig env False q))) = None"
        using none Some by (simp add: assertProviderLimitPolicyLayerPrecedence_def kp(1) kq(1))
      with Some show ?thesis
        unfolding resolveProviderLimitPolicy_def pl ql open'
        by (simp add: find [OF kp(1)] find [OF kq(1)] resolved_kept [OF kp(2)] kq(2) none [unfolded Some] cong: option.case_cong if_cong)
    qed
  qed
qed

section \<open>The resolver of the ledger\<close>

text \<open>Where no two of the hashed texts collide, two entries with the same digest are the same one.\<close>

lemma digest_distinguishes:
  assumes "js_comparator (py_localeCompare env)" "normalizeConfig env True (la_config parent) = Some c"
    and "inj_on (py_sha256 env) (hashed_texts env parent project (co_policies c))"
    and "e \<in> set (co_policies c)" "e' \<in> set (co_policies c)"
    and "resolveProviderLimitPolicy env (en_selector e) (Some parent) project = Some (Inr r)"
    and "resolveProviderLimitPolicy env (en_selector e') (Some parent) project = Some (Inr r')"
    and "lp_policyRef (rp_policy r) = lp_policyRef (rp_policy r')"
  shows "e = e'"
proof -
  have normal: "s = en_selector x" if "x \<in> set (co_policies c)" "normalizeSelector env (en_selector x) = Some s" for x s
    using normalized_entry(2) [OF assms(2) that(1)] normalizeSelector_idem [OF assms(1)] that(2) by fastforce
  obtain s ref v where s: "normalizeSelector env (en_selector e) = Some s"
      "lp_policyRef (rp_policy r) = ''provider-limit-policy:'' @ py_sha256 env (policy_json env s parent ref v)"
      "policy_json env s parent ref v \<in> hashed_texts env parent project (co_policies c)"
    using resolved_digest [OF assms(6,4)] by blast
  obtain s' ref' v' where s': "normalizeSelector env (en_selector e') = Some s'"
      "lp_policyRef (rp_policy r') = ''provider-limit-policy:'' @ py_sha256 env (policy_json env s' parent ref' v')"
      "policy_json env s' parent ref' v' \<in> hashed_texts env parent project (co_policies c)"
    using resolved_digest [OF assms(7,5)] by blast
  have "policy_json env s parent ref v = policy_json env s' parent ref' v'"
    using assms(8) s(2,3) s'(2,3) inj_onD [OF assms(3)] by simp
  then have "s = s'" by (rule policy_json_selector)
  with normal [OF assms(4) s(1)] normal [OF assms(5) s'(1)] have "entry_key e = entry_key e'"
    by (simp add: entry_key_def)
  then show ?thesis
    using normalized_distinct [OF assms(2)] assms(4,5) by (auto simp: distinct_map dest: inj_onD)
qed

lemma account_of_one:
  assumes "createProviderLimitPolicyRuntimeResolver env (Some parent) project = Some (Inr ru)"
    and "normalizeConfig env True (la_config parent) = Some c"
    and "js_comparator (py_localeCompare env)"
    and "inj_on (py_sha256 env) (hashed_texts env parent project (co_policies c))"
    and e: "e \<in> set (co_policies c)" and e': "e' \<in> set (co_policies c)"
    and scope: "se_scope (en_selector e) = se_scope (en_selector e')"
  shows "e = e'"
proof -
  obtain xs where R: "list_all2 (resolved_pair env parent project) (co_policies c) xs"
    and m: "ru_policies ru = foldl (\<lambda>m (k, p). add_policy k p m) [] xs"
    and none: "\<not> list_ex (\<lambda>(_, p). p = None) (ru_policies ru)"
    using created [OF assms(1,2)] by blast
  obtain x where x: "x \<in> set xs" "resolved_pair env parent project e x" using list_all2_target [OF R e] by blast
  obtain x' where x': "x' \<in> set xs" "resolved_pair env parent project e' x'" using list_all2_target [OF R e'] by blast
  have "fst x = fst x'" using x x' scope by (simp add: resolved_pair_def)
  with table_entry(1) [of xs, folded m, OF none x(1)] table_entry(1) [of xs, folded m, OF none x'(1)]
  have "lp_policyRef (snd x) = lp_policyRef (snd x')" by auto
  moreover obtain r r' where "resolveProviderLimitPolicy env (en_selector e) (Some parent) project = Some (Inr r)"
      "snd x = rp_policy r" "resolveProviderLimitPolicy env (en_selector e') (Some parent) project = Some (Inr r')"
      "snd x' = rp_policy r'"
    using x(2) x'(2) unfolding resolved_pair_def by blast
  ultimately show ?thesis using digest_distinguishes [OF assms(3,2,4) e e'] by metis
qed

text \<open>
  C25 The resolver of the ledger is exact: once made, it answers for exactly the accounts of the
  authored selectors of the parent, each with the policy that the selector resolves to. Two
  properties of the library are assumed: \<open>localeCompare\<close> is a consistent comparator, and SHA-256
  does not collide on the texts that are hashed for the policies of this parent, one for each
  authored entry (were two of them to collide, two selectors of one account would pass for the same
  policy). Two selectors of one account make no resolver.
\<close>

theorem runtime_resolver_exact:
  assumes "createProviderLimitPolicyRuntimeResolver env (Some parent) project = Some (Inr ru)"
    and "normalizeConfig env True (la_config parent) = Some c"
    and "js_comparator (py_localeCompare env)"
    and "inj_on (py_sha256 env) (hashed_texts env parent project (co_policies c))"
  shows "runtime_resolve ru q = Some p \<longleftrightarrow>
      (\<exists>e \<in> set (co_policies c). \<exists>r. se_scope (en_selector e) = q
        \<and> resolveProviderLimitPolicy env (en_selector e) (Some parent) project = Some (Inr r) \<and> p = rp_policy r)"
proof -
  obtain xs where R: "list_all2 (resolved_pair env parent project) (co_policies c) xs"
    and m: "ru_policies ru = foldl (\<lambda>m (k, p). add_policy k p m) [] xs"
    and none: "\<not> list_ex (\<lambda>(_, p). p = None) (ru_policies ru)"
    using created [OF assms(1,2)] by blast
  note entry = table_entry [of xs, folded m, OF none]
  have left: "\<exists>e \<in> set (co_policies c). resolved_pair env parent project e x" if "x \<in> set xs" for x
    by (rule list_all2_source [OF R that])
  have "\<exists>e \<in> set (co_policies c). \<exists>r. se_scope (en_selector e) = q
      \<and> resolveProviderLimitPolicy env (en_selector e) (Some parent) project = Some (Inr r) \<and> p = rp_policy r"
    if "runtime_resolve ru q = Some p"
  proof -
    have "map_of (ru_policies ru) (scope_json q) = Some (Some p)"
      using that by (auto simp: runtime_resolve_def runtimeSelectorKey_def split: if_splits option.splits)
    from left [OF entry(2) [OF this]] show ?thesis by (auto simp: resolved_pair_def scope_json_inject)
  qed
  moreover have "runtime_resolve ru q = Some p"
    if e: "e \<in> set (co_policies c)" "se_scope (en_selector e) = q"
      and r: "resolveProviderLimitPolicy env (en_selector e) (Some parent) project = Some (Inr r)" "p = rp_policy r" for e r
  proof -
    obtain x where x: "x \<in> set xs" "resolved_pair env parent project e x" using list_all2_target [OF R e(1)] by blast
    with e r have x': "fst x = scope_json q" "snd x = p" "exact_scope q" by (auto simp: resolved_pair_def)
    with entry(1) [OF x(1)] obtain p' where p': "map_of (ru_policies ru) (scope_json q) = Some (Some p')"
      by auto
    from left [OF entry(2) [OF this]] obtain e' where "e' \<in> set (co_policies c)"
        "resolved_pair env parent project e' (scope_json q, p')" by blast
    moreover from this have "e' = e"
      using account_of_one [OF assms] e by (simp add: resolved_pair_def scope_json_inject)
    ultimately have "p' = p" using r by (auto simp: resolved_pair_def)
    with p' x'(3) show ?thesis by (simp add: runtime_resolve_def runtimeSelectorKey_def)
  qed
  ultimately show ?thesis by blast
qed

section \<open>Examples\<close>

definition digest_a :: string where
  "digest_a = replicate 64 CHR ''a''"

definition account_scope :: limit_scope where
  "account_scope = \<lparr>sc_tenantId = ''team'', sc_provider = ''claude'', sc_accountRefHash = Some digest_a,
     sc_quotaScopeRefHash = digest_a, sc_authMode = AuthApi\<rparr>"

definition account_backend :: limit_backend where
  "account_backend = \<lparr>lb_transport = TransApi, lb_executionBackend = BackApi, lb_endpointRefHash = None\<rparr>"

definition sample_selector :: policy_selector where
  "sample_selector = \<lparr>se_scope = account_scope, se_backend = account_backend, se_requiredWindowIds = [''session''],
     se_sourceScopes = [\<lparr>so_sourceKind = SrcApi, so_authority = Authoritative, so_backend = account_backend\<rparr>]\<rparr>"

definition sample_values :: "rat option \<Rightarrow> rat option \<Rightarrow> rat \<Rightarrow> policy_values" where
  "sample_values warn block least = \<lparr>pv_ratioEnforcement = None, pv_warnAtRatio = warn, pv_blockAtRatio = block,
     pv_minimumRemaining = [(URequests, least)]\<rparr>"

definition sample_layer :: "layer_scope \<Rightarrow> policy_values \<Rightarrow> policy_layer" where
  "sample_layer k v = \<lparr>la_scope = k, la_config = \<lparr>co_schemaVersion = 1, co_authorityRef = ''limits:team-policy'',
     co_policies = [\<lparr>en_selector = sample_selector, en_values = v\<rparr>]\<rparr>\<rparr>"

definition sample_policy_env :: policy_env where
  "sample_policy_env = \<lparr>py_localeCompare = compareCodePoint, py_sha256 = (\<lambda>t. digest_a), py_numberText = (\<lambda>r. ''0'')\<rparr>"

definition sample_parent :: policy_layer where
  "sample_parent = sample_layer GlobalScope (sample_values (Some (1/2)) (Some (3/4)) 5)"

definition sample_project :: policy_layer where
  "sample_project = sample_layer ProjectScope (sample_values (Some (1/4)) None 10)"

lemma sample_accepted: "exact_scope account_scope" "exact_backend account_backend" "sha256_text digest_a"
    "opaque_ref ''limits:team-policy''"
  by code_simp+

lemma sample_selector_normal: "normalizeSelector sample_policy_env sample_selector = Some sample_selector"
  by (simp add: normalizeSelector_def sample_accepted sample_selector_def) code_simp

lemma sample_layer_normal:
  assumes "normalizeValues sample_policy_env full v = Some v'"
  shows "normalizeConfig sample_policy_env full (la_config (sample_layer k v)) = Some (la_config (sample_layer k v'))"
  using assms by (simp add: normalizeConfig_def normalizeEntry_def sample_layer_def sample_accepted sample_selector_normal)

lemma sample_values_normal:
  "0 \<le> w \<Longrightarrow> w \<le> b \<Longrightarrow> b \<le> 1 \<Longrightarrow> 0 \<le> f \<Longrightarrow>
     normalizeValues sample_policy_env True (sample_values (Some w) (Some b) f)
       = Some ((sample_values (Some w) (Some b) f)\<lparr>pv_ratioEnforcement := Some EnforceRatio\<rparr>)"
  "0 \<le> w \<Longrightarrow> w \<le> 1 \<Longrightarrow> 0 \<le> f \<Longrightarrow>
     normalizeValues sample_policy_env False (sample_values (Some w) None f) = Some (sample_values (Some w) None f)"
  by (simp_all add: normalizeValues_def sample_values_def ratio_or_absent_def warn_above_block_def)

lemma sample_resolved:
  assumes "0 \<le> w" "w \<le> b" "b \<le> 1" "0 \<le> f"
  shows "\<exists>r. resolveProviderLimitPolicy sample_policy_env sample_selector
      (Some (sample_layer GlobalScope (sample_values (Some w) (Some b) f))) None = Some (Inr r)
    \<and> lp_warnAtRatio (rp_policy r) = w \<and> lp_blockAtRatio (rp_policy r) = b"
  using sample_layer_normal [OF sample_values_normal(1) [OF assms], of GlobalScope]
  by (simp add: resolveProviderLimitPolicy_def layer_hold_def findPolicy_def selectorKey_def sample_selector_normal
)
     (simp add: sample_layer_def entry_key_def sample_values_def resolved_of_entries_def Let_def effective_values_def)

lemma sample_project_resolved:
  "\<exists>r. resolveProviderLimitPolicy sample_policy_env sample_selector (Some sample_parent) (Some sample_project) = Some (Inr r)"
proof -
  have p: "normalizeConfig sample_policy_env True (la_config sample_parent)
      = Some (la_config (sample_layer GlobalScope ((sample_values (Some (1/2)) (Some (3/4)) 5)\<lparr>pv_ratioEnforcement := Some EnforceRatio\<rparr>)))"
    unfolding sample_parent_def by (rule sample_layer_normal [OF sample_values_normal(1)]) simp_all
  have q: "normalizeConfig sample_policy_env False (la_config sample_project)
      = Some (la_config (sample_layer ProjectScope (sample_values (Some (1/4)) None 10)))"
    unfolding sample_project_def by (rule sample_layer_normal [OF sample_values_normal(2)]) simp_all
  have w: "wideningDetail ((sample_values (Some (1/2)) (Some (3/4)) 5)\<lparr>pv_ratioEnforcement := Some EnforceRatio\<rparr>)
      (sample_values (Some (1/4)) None 10) = None"
    by (simp add: widening_None sample_values_def warn_above_block_def or_parent_def)
  have "assertProviderLimitPolicyLayerPrecedence sample_policy_env (Some (la_config sample_parent))
      (Some (la_config sample_project)) = None"
    unfolding precedence_None p q using w by (simp add: sample_layer_def entry_key_def)
  moreover have "found_entries sample_policy_env sample_selector sample_parent (Some sample_project) sample_selector
      \<lparr>en_selector = sample_selector, en_values = (sample_values (Some (1/2)) (Some (3/4)) 5)\<lparr>pv_ratioEnforcement := Some EnforceRatio\<rparr>\<rparr>
      (Some \<lparr>en_selector = sample_selector, en_values = sample_values (Some (1/4)) None 10\<rparr>)"
    using w by (simp add: found_entries_def p q sample_selector_normal) (simp add: sample_layer_def sample_parent_def sample_project_def entry_key_def)
  ultimately show ?thesis unfolding resolve_iff by auto
qed

lemma project_layer_only_holds_more_witness:
  "\<exists>r base. resolveProviderLimitPolicy sample_policy_env sample_selector (Some sample_parent) (Some sample_project) = Some (Inr r)
    \<and> resolveProviderLimitPolicy sample_policy_env sample_selector (Some sample_parent) None = Some (Inr base)
    \<and> stricter_policy (rp_policy r) (rp_policy base)"
proof -
  obtain r where r: "resolveProviderLimitPolicy sample_policy_env sample_selector (Some sample_parent) (Some sample_project) = Some (Inr r)"
    using sample_project_resolved by blast
  from project_layer_only_holds_more [OF this] r show ?thesis by blast
qed

lemma resolved_policy_accepted_witness:
  "\<exists>r r'. resolveProviderLimitPolicy sample_policy_env sample_selector (Some sample_parent) None = Some (Inr r)
    \<and> policy_ok (rp_policy r)
    \<and> resolveProviderLimitPolicy sample_policy_env sample_selector
        (Some (sample_layer GlobalScope (sample_values (Some (1/2)) (Some (1/2)) 5))) None = Some (Inr r')
    \<and> \<not> policy_ok (rp_policy r')"
proof -
  have sha: "\<forall>t. sha256_text (py_sha256 sample_policy_env t)" by (simp add: sample_policy_env_def sample_accepted)
  obtain r where r: "resolveProviderLimitPolicy sample_policy_env sample_selector (Some sample_parent) None = Some (Inr r)"
      "lp_warnAtRatio (rp_policy r) = 1/2" "lp_blockAtRatio (rp_policy r) = 3/4"
    using sample_resolved [of "1/2" "3/4" 5] unfolding sample_parent_def by auto
  obtain r' where r': "resolveProviderLimitPolicy sample_policy_env sample_selector
        (Some (sample_layer GlobalScope (sample_values (Some (1/2)) (Some (1/2)) 5))) None = Some (Inr r')"
      "lp_warnAtRatio (rp_policy r') = 1/2" "lp_blockAtRatio (rp_policy r') = 1/2"
    using sample_resolved [of "1/2" "1/2" 5] by auto
  from resolved_policy_accepted [OF r(1) sha] resolved_policy_accepted [OF r'(1) sha] r r' show ?thesis by auto
qed

lemma kept_layers_resolve_witness:
  "\<exists>pl. authority_layers sample_policy_env (Some (la_config sample_parent)) None GlobalScope = Inr (pl, None)
    \<and> resolveProviderLimitPolicy sample_policy_env sample_selector pl None
      = resolveProviderLimitPolicy sample_policy_env sample_selector (Some sample_parent) None"
proof -
  have "normalizeConfig sample_policy_env True (la_config sample_parent) \<noteq> None"
    unfolding sample_parent_def using sample_layer_normal [OF sample_values_normal(1), of "1/2" "3/4" 5] by simp
  then obtain pl where pl: "authority_layers sample_policy_env (Some (la_config sample_parent)) None GlobalScope = Inr (pl, None)"
    by (auto simp: authority_layers_def assertProviderLimitPolicyLayerPrecedence_def)
  have "js_comparator (py_localeCompare sample_policy_env)"
    by (simp add: sample_policy_env_def compareCodePoint.js_comparator_axioms)
  from kept_layers_resolve [OF this pl] pl show ?thesis by (simp add: sample_parent_def sample_layer_def)
qed

definition two_layers :: "bool \<Rightarrow> policy_layer" where
  "two_layers flip = (let e = \<lparr>en_selector = sample_selector, en_values = sample_values (Some (1/2)) (Some (3/4)) 5\<rparr>;
       e' = e\<lparr>en_selector := sample_selector\<lparr>se_scope := account_scope\<lparr>sc_tenantId := ''other''\<rparr>\<rparr>\<rparr>
     in sample_parent\<lparr>la_config := (la_config sample_parent)\<lparr>co_policies := if flip then [e', e] else [e, e']\<rparr>\<rparr>)"

lemma declaration_order_irrelevant_witness:
  "two_layers True \<noteq> two_layers False
    \<and> (\<forall>r. resolveProviderLimitPolicy sample_policy_env sample_selector (Some (two_layers True)) None = Some (Inr r)
      \<longleftrightarrow> resolveProviderLimitPolicy sample_policy_env sample_selector (Some (two_layers False)) None = Some (Inr r))"
proof -
  have "same_declarations (two_layers True) (two_layers False)" by (simp add: same_declarations_def two_layers_def)
  moreover have "two_layers True \<noteq> two_layers False"
    by (simp add: two_layers_def sample_parent_def sample_layer_def sample_selector_def account_scope_def)
  ultimately show ?thesis
    using declaration_order_irrelevant [of "two_layers True" "two_layers False" None None] by simp
qed

text \<open>Two accounts, and a hash that tells all texts apart.\<close>

definition other_scope :: limit_scope where
  "other_scope = account_scope\<lparr>sc_tenantId := ''other''\<rparr>"

definition text_env :: policy_env where
  "text_env = sample_policy_env\<lparr>py_sha256 := (\<lambda>t. t)\<rparr>"

definition account_entry :: "limit_scope \<Rightarrow> policy_entry" where
  "account_entry s = \<lparr>en_selector = sample_selector\<lparr>se_scope := s\<rparr>,
     en_values = (sample_values (Some (1/2)) (Some (3/4)) 5)\<lparr>pv_ratioEnforcement := Some EnforceRatio\<rparr>\<rparr>"

lemma accounts_accepted: "exact_scope account_scope" "exact_scope other_scope" "account_scope \<noteq> other_scope"
  by code_simp+

lemma account_selector_normal:
  "exact_scope s \<Longrightarrow> normalizeSelector text_env (sample_selector\<lparr>se_scope := s\<rparr>) = Some (sample_selector\<lparr>se_scope := s\<rparr>)"
  by (simp add: normalizeSelector_def sample_accepted sample_selector_def) code_simp

lemma account_key: "entry_key (account_entry s) = selector_json (sample_selector\<lparr>se_scope := t\<rparr>) \<longleftrightarrow> s = t"
  using selector_json_append [of "sample_selector\<lparr>se_scope := s\<rparr>" "[]" "sample_selector\<lparr>se_scope := t\<rparr>" "[]"]
  by (auto simp: entry_key_def account_entry_def sample_selector_def)

lemma two_layers_normal:
  "\<exists>c. normalizeConfig text_env True (la_config (two_layers False)) = Some c
    \<and> co_policies c \<in> {[account_entry account_scope, account_entry other_scope],
        [account_entry other_scope, account_entry account_scope]}"
proof -
  have entry: "normalizeEntry text_env True \<lparr>en_selector = sample_selector\<lparr>se_scope := s\<rparr>,
      en_values = sample_values (Some (1/2)) (Some (3/4)) 5\<rparr> = Some (account_entry s)" if "exact_scope s" for s
    using account_selector_normal [OF that]
    by (simp add: normalizeEntry_def account_entry_def)
       (simp add: normalizeValues_def sample_values_def ratio_or_absent_def warn_above_block_def)
  have policies: "co_policies (la_config (two_layers False)) = map (\<lambda>s. \<lparr>en_selector = sample_selector\<lparr>se_scope := s\<rparr>,
      en_values = sample_values (Some (1/2)) (Some (3/4)) 5\<rparr>) [account_scope, other_scope]"
    by (simp add: two_layers_def sample_selector_def other_scope_def)
  have keys: "entry_key (account_entry account_scope) \<noteq> entry_key (account_entry other_scope)"
    using account_key [of account_scope other_scope] accounts_accepted(3)
    by (simp add: entry_key_def account_entry_def)
  have rest: "co_schemaVersion (la_config (two_layers False)) = 1"
      "opaque_ref (co_authorityRef (la_config (two_layers False)))"
    by (simp_all add: two_layers_def sample_parent_def sample_layer_def sample_accepted)
  show ?thesis
    using keys by (simp add: normalizeConfig_def policies rest entry accounts_accepted)
qed

lemma account_resolved:
  assumes "s \<in> {account_scope, other_scope}"
  shows "\<exists>r. resolveProviderLimitPolicy text_env (en_selector (account_entry s)) (Some (two_layers False)) None = Some (Inr r)"
proof -
  obtain c where c: "normalizeConfig text_env True (la_config (two_layers False)) = Some c"
    and policies: "co_policies c \<in> {[account_entry account_scope, account_entry other_scope],
        [account_entry other_scope, account_entry account_scope]}"
    using two_layers_normal by blast
  have "find (\<lambda>x. entry_key x = selector_json (sample_selector\<lparr>se_scope := s\<rparr>)) (co_policies c) = Some (account_entry s)"
    using policies assms by (auto simp: account_key accounts_accepted)
  moreover have "exact_scope s" using assms accounts_accepted by auto
  moreover have "la_scope (two_layers False) \<noteq> ProjectScope"
    by (simp add: two_layers_def sample_parent_def sample_layer_def)
  ultimately have "found_entries text_env (en_selector (account_entry s)) (two_layers False) None
      (sample_selector\<lparr>se_scope := s\<rparr>) (account_entry s) None"
    using c account_selector_normal [of s] by (simp add: found_entries_def account_entry_def)
  then show ?thesis unfolding resolve_iff by blast
qed

lemma two_layers_resolver:
  "\<exists>ru. createProviderLimitPolicyRuntimeResolver text_env (Some (two_layers False)) None = Some (Inr ru)"
proof -
  obtain c where c: "normalizeConfig text_env True (la_config (two_layers False)) = Some c"
    and policies: "co_policies c \<in> {[account_entry account_scope, account_entry other_scope],
        [account_entry other_scope, account_entry account_scope]}"
    using two_layers_normal by blast
  obtain r r' where
    r: "resolveProviderLimitPolicy text_env (en_selector (account_entry account_scope)) (Some (two_layers False)) None = Some (Inr r)"
       "resolveProviderLimitPolicy text_env (en_selector (account_entry other_scope)) (Some (two_layers False)) None = Some (Inr r')"
    using account_resolved by blast
  have scope: "se_scope (en_selector (account_entry s)) = s" for s by (simp add: account_entry_def)
  have keys: "scope_json other_scope \<noteq> scope_json account_scope"
    using accounts_accepted(3) by (simp add: scope_json_inject)
  have "layer_hold (Some (two_layers False)) None = None"
    by (simp add: layer_hold_def two_layers_def sample_parent_def sample_layer_def)
  then show ?thesis
    using policies c r keys accounts_accepted(1,2)
    by (auto simp: createProviderLimitPolicyRuntimeResolver_def assertProviderLimitPolicyLayerPrecedence_def
        runtimeSelectorKey_def scope add_policy_def)
qed

lemma runtime_resolver_exact_witness:
  "\<exists>ru p q. createProviderLimitPolicyRuntimeResolver text_env (Some (two_layers False)) None = Some (Inr ru)
    \<and> runtime_resolve ru account_scope = Some p \<and> runtime_resolve ru other_scope = Some q
    \<and> runtime_resolve ru (account_scope\<lparr>sc_tenantId := ''nobody''\<rparr>) = None"
proof -
  obtain ru where ru: "createProviderLimitPolicyRuntimeResolver text_env (Some (two_layers False)) None = Some (Inr ru)"
    using two_layers_resolver by blast
  obtain c where c: "normalizeConfig text_env True (la_config (two_layers False)) = Some c"
    and policies: "set (co_policies c) = {account_entry account_scope, account_entry other_scope}"
    using two_layers_normal by fastforce
  have "js_comparator (py_localeCompare text_env)" "inj_on (py_sha256 text_env) T" for T
    by (simp_all add: text_env_def sample_policy_env_def compareCodePoint.js_comparator_axioms)
  note exact = runtime_resolver_exact [OF ru c this]
  have "\<exists>p. runtime_resolve ru s = Some p" if "s \<in> {account_scope, other_scope}" for s
    using account_resolved [OF that] that unfolding exact policies by (auto simp: account_entry_def)
  moreover have "runtime_resolve ru (account_scope\<lparr>sc_tenantId := ''nobody''\<rparr>) \<noteq> Some p" for p
    unfolding exact policies by (simp add: account_entry_def other_scope_def account_scope_def)
  ultimately show ?thesis using ru by (metis insertI1 insertI2 not_Some_eq)
qed

end
