(* ===== verification/Approval_Rules.thy ===== *)
theory Approval_Rules
  imports Approval_Timeout Usage_Event
begin

text \<open>
  The automation of approvals: \<open>src/core/approval-rules.ts\<close> (the rules an owner keeps in a file),
  \<open>src/core/approval-rules-engine.ts\<close> (their live application), the change of a rule by
  \<open>src/cli/commands/approvals.ts\<close>, \<open>src/core/approval-policy.ts\<close> (the verdict of the policy) and the
  risk tier they all read, of \<open>src/core/approval-channel-authenticator.ts\<close>.

  A rule is the JSON row of the file, since the operations keep fields they do not know. The file
  is missing, unreadable or a text; \<open>JSON.parse\<close>, \<open>JSON.stringify\<close>, the parsing and printing of dates
  and SHA-256 are arguments. A write always succeeds. Records hold the fields that this code reads.
\<close>

section \<open>Requests and their risk\<close>

datatype ApprovalScope =
  FileRead | FileWrite | ShellExec | GitMutation | NetworkScope | CredentialScope | LifecycleScope

datatype RequesterRole = BrainRole | WorkerRole | AuditorRole | NervousRole | ConnectorRole

datatype PolicyVerdict = AutoApprove | NotifyOwner | RequireApproval | DenyRequest

type_synonym ApprovalAction = LegacyApprovalAction

record ApprovalRequest =
  ar_id :: string
  ar_role :: RequesterRole
  ar_summary :: string
  ar_details :: js
  ar_scopeId :: string
  ar_scope :: ApprovalScope
  ar_risk :: string
  ar_riskTier :: js
  ar_defaultAction :: ApprovalAction
  ar_tenantId :: string

definition approvalRiskTierFor :: "string \<Rightarrow> js \<Rightarrow> ApprovalRiskTier option js_result" where
  "approvalRiskTierFor risk explicit =
     result_bind (mapLegacyApprovalRisk risk) (\<lambda>legacyFloor. Inr
       (if explicit = JUndefined then Some legacyFloor
        else (case find_named risk_name APPROVAL_RISK_TIERS explicit of
            None \<Rightarrow> None
          | Some t \<Rightarrow> if isApprovalRiskTierAtLeast t legacyFloor then Some t else None)))"

definition approvalMayUseChannel :: "string \<Rightarrow> js \<Rightarrow> bool js_result" where
  "approvalMayUseChannel risk explicit =
     result_bind (approvalRiskTierFor risk explicit) (\<lambda>tier. Inr (tier \<noteq> None \<and> tier \<noteq> Some Critical))"

section \<open>The verdict of the policy\<close>

record ApprovalPolicyRuleMatch =
  pm_scope :: "ApprovalScope option"
  pm_risk :: "string option"
  pm_requester :: "RequesterRole option"
  pm_tenantId :: "string option"

record ApprovalPolicyRule =
  pr_match :: ApprovalPolicyRuleMatch
  pr_action :: PolicyVerdict
  pr_timeoutMs :: "int option"

primrec DEFAULT_ACTION_TO_POLICY :: "ApprovalAction \<Rightarrow> PolicyVerdict" where
  "DEFAULT_ACTION_TO_POLICY LegacyDeny = DenyRequest"
| "DEFAULT_ACTION_TO_POLICY LegacyDefer = RequireApproval"
| "DEFAULT_ACTION_TO_POLICY LegacyEscalate = NotifyOwner"
| "DEFAULT_ACTION_TO_POLICY LegacyAllow = AutoApprove"

definition ruleMatches :: "ApprovalRequest \<Rightarrow> ApprovalPolicyRuleMatch \<Rightarrow> bool" where
  "ruleMatches request m \<longleftrightarrow>
     pm_scope m \<in> {None, Some (ar_scope request)} \<and> pm_risk m \<in> {None, Some (ar_risk request)}
     \<and> pm_requester m \<in> {None, Some (ar_role request)} \<and> pm_tenantId m \<in> {None, Some (ar_tenantId request)}"

text \<open>The reason of a verdict, as the message the code writes for it.\<close>

datatype policy_reason =
    RuleMatched ApprovalPolicyRuleMatch PolicyVerdict
  | NoRuleMatched ApprovalAction
  | InvalidRiskTier policy_reason
  | CriticalClamped bool policy_reason

record PolicyDecisionResult =
  pd_policy :: PolicyVerdict
  pd_reason :: policy_reason
  pd_timeoutMs :: "int option"

definition rule_verdict :: "ApprovalRequest \<Rightarrow> ApprovalPolicyRule list \<Rightarrow> PolicyDecisionResult" where
  "rule_verdict request rules =
     (case find (\<lambda>rule. ruleMatches request (pr_match rule)) rules of
        Some rule \<Rightarrow> \<lparr>pd_policy = pr_action rule, pd_reason = RuleMatched (pr_match rule) (pr_action rule),
          pd_timeoutMs = pr_timeoutMs rule\<rparr>
      | None \<Rightarrow> \<lparr>pd_policy = DEFAULT_ACTION_TO_POLICY (ar_defaultAction request),
          pd_reason = NoRuleMatched (ar_defaultAction request), pd_timeoutMs = None\<rparr>)"

definition decidePolicy ::
    "ApprovalRequest \<Rightarrow> ApprovalPolicyRule list \<Rightarrow> PolicyDecisionResult js_result" where
  "decidePolicy request rules =
     (let result = rule_verdict request rules
      in result_bind (approvalRiskTierFor (ar_risk request) (ar_riskTier request)) (\<lambda>tier. Inr
        (if tier = None then result\<lparr>pd_policy := DenyRequest, pd_reason := InvalidRiskTier (pd_reason result)\<rparr>
         else if tier = Some Critical \<and> pd_policy result = AutoApprove
         then result\<lparr>pd_policy := DenyRequest,
                pd_reason := CriticalClamped (ar_risk request = ''critical'') (pd_reason result)\<rparr>
         else result)))"

section \<open>The file of rules\<close>

record rules_env =
  date_of :: "string \<Rightarrow> int option"
  iso_text :: "int \<Rightarrow> string"
  parse_text :: "string \<Rightarrow> js option"
  print_value :: "js \<Rightarrow> string"
  hash_of :: "string \<Rightarrow> string"

datatype rules_file = Missing | Unreadable | Text string

type_synonym ApprovalRule = js

definition nonempty_string :: "js \<Rightarrow> bool" where
  "nonempty_string v \<longleftrightarrow> (case js_string v of None \<Rightarrow> False | Some s \<Rightarrow> s \<noteq> [])"

definition str_of :: "js \<Rightarrow> string" where
  "str_of v = (case js_string v of None \<Rightarrow> [] | Some s \<Rightarrow> s)"

definition date_in :: "rules_env \<Rightarrow> js \<Rightarrow> int option" where
  "date_in env v = (case js_string v of None \<Rightarrow> None | Some s \<Rightarrow> date_of env s)"

definition isIsoDate :: "rules_env \<Rightarrow> js \<Rightarrow> bool" where
  "isIsoDate env v \<longleftrightarrow> date_in env v \<noteq> None"

definition absentOr :: "js \<Rightarrow> (js \<Rightarrow> bool) \<Rightarrow> bool" where
  "absentOr v ok \<longleftrightarrow> v = JUndefined \<or> ok v"

text \<open>The pattern \<open>/^promoted-from:.+$/u\<close>: the dot matches no line terminator.\<close>

definition promoted_source :: "string \<Rightarrow> bool" where
  "promoted_source s \<longleftrightarrow>
     (let rest = drop (length ''promoted-from:'') s
      in js_starts_with s ''promoted-from:'' \<and> rest \<noteq> [] \<and> CHR 0x0A \<notin> set rest \<and> CHR 0x0D \<notin> set rest)"

definition isValidRule :: "rules_env \<Rightarrow> js \<Rightarrow> bool" where
  "isValidRule env rule \<longleftrightarrow>
     nonempty_string (js_get rule ''id'')
     \<and> isIsoDate env (js_get rule ''createdAt'')
     \<and> nonempty_string (js_get rule ''createdBy'')
     \<and> nonempty_string (js_get rule ''reason'')
     \<and> js_get rule ''decision'' \<in> {JStr ''allow'', JStr ''deny''}
     \<and> (js_get rule ''source'' = JStr ''manual''
        \<or> (case js_string (js_get rule ''source'') of None \<Rightarrow> False | Some s \<Rightarrow> promoted_source s))
     \<and> nonempty_string (js_get (js_get rule ''match'') ''idPrefix'')
     \<and> js_get (js_get rule ''match'') ''riskTierMax'' \<in> {JStr ''routine'', JStr ''elevated''}
     \<and> absentOr (js_get (js_get rule ''match'') ''summaryIncludes'') nonempty_string
     \<and> absentOr (js_get rule ''expiresAt'') (isIsoDate env)
     \<and> absentOr (js_get rule ''disabled'') is_boolean
     \<and> absentOr (js_get rule ''disabledAt'') (isIsoDate env)
     \<and> absentOr (js_get rule ''disabledBy'') nonempty_string"

record loaded_rules =
  lr_rules :: "ApprovalRule list"
  lr_fault :: bool

definition loadApprovalRules :: "rules_env \<Rightarrow> rules_file \<Rightarrow> loaded_rules" where
  "loadApprovalRules env file =
     (case file of
        Missing \<Rightarrow> \<lparr>lr_rules = [], lr_fault = False\<rparr>
      | Unreadable \<Rightarrow> \<lparr>lr_rules = [], lr_fault = True\<rparr>
      | Text s \<Rightarrow> (case parse_text env s of
            None \<Rightarrow> \<lparr>lr_rules = [], lr_fault = True\<rparr>
          | Some parsed \<Rightarrow>
              if js_get parsed ''schemaVersion'' \<noteq> JNum 1 then \<lparr>lr_rules = [], lr_fault = True\<rparr>
              else (case js_get parsed ''rules'' of
                  JArr rows \<Rightarrow> (let valid = filter (isValidRule env) rows
                    in \<lparr>lr_rules = valid, lr_fault = (length valid \<noteq> length rows)\<rparr>)
                | _ \<Rightarrow> \<lparr>lr_rules = [], lr_fault = True\<rparr>)))"

definition rules_payload :: "ApprovalRule list \<Rightarrow> js" where
  "rules_payload rules = JObj [(''schemaVersion'', JNum 1), (''rules'', JArr rules)]"

definition saveApprovalRules :: "rules_env \<Rightarrow> ApprovalRule list \<Rightarrow> rules_file" where
  "saveApprovalRules env rules = Text (print_value env (rules_payload rules) @ [CHR 0x0A])"

definition ruleActive :: "rules_env \<Rightarrow> ApprovalRule \<Rightarrow> int \<Rightarrow> bool" where
  "ruleActive env rule now \<longleftrightarrow>
     js_get rule ''disabled'' \<noteq> JBool True
     \<and> (js_get rule ''expiresAt'' = JUndefined
        \<or> (case date_in env (js_get rule ''expiresAt'') of None \<Rightarrow> True | Some t \<Rightarrow> now < t))"

definition rule_applies :: "rules_env \<Rightarrow> string \<Rightarrow> string \<Rightarrow> int \<Rightarrow> ApprovalRule \<Rightarrow> bool" where
  "rule_applies env i summary now rule \<longleftrightarrow>
     (let m = js_get rule ''match'' in
      ruleActive env rule now
      \<and> js_starts_with i (str_of (js_get m ''idPrefix''))
      \<and> (js_get m ''summaryIncludes'' = JUndefined
         \<or> js_includes (js_lower summary) (js_lower (str_of (js_get m ''summaryIncludes'')))))"

definition matchApprovalRule ::
    "rules_env \<Rightarrow> string \<Rightarrow> string \<Rightarrow> ApprovalRule list \<Rightarrow> int \<Rightarrow> ApprovalRule option" where
  "matchApprovalRule env i summary rules now = find (rule_applies env i summary now) rules"

text \<open>The pattern \<open>/^([a-z]+-)/u\<close>, or the whole id.\<close>

definition promoted_prefix :: "string \<Rightarrow> string" where
  "promoted_prefix i =
     (let word = takeWhile (\<lambda>c. CHR ''a'' \<le> c \<and> c \<le> CHR ''z'') i
      in if word \<noteq> [] \<and> js_starts_with i (word @ ''-'') then word @ ''-'' else i)"

definition promoteRuleFromDecision ::
    "rules_env \<Rightarrow> string \<Rightarrow> string \<Rightarrow> string \<Rightarrow> string \<Rightarrow> string \<Rightarrow> string option \<Rightarrow> int
     \<Rightarrow> lifecycle_error + ApprovalRule" where
  "promoteRuleFromDecision env newRuleId requestId decision createdBy reason summaryIncludes now =
     result_bind (toISOString (iso_text env) now) (\<lambda>createdAt. Inr (JObj
       [(''id'', JStr newRuleId), (''createdAt'', JStr createdAt), (''createdBy'', JStr createdBy),
        (''reason'', JStr reason),
        (''match'', JObj ([(''idPrefix'', JStr (promoted_prefix requestId))]
           @ (case summaryIncludes of None \<Rightarrow> [] | Some s \<Rightarrow> [(''summaryIncludes'', JStr s)])
           @ [(''riskTierMax'', JStr ''routine'')])),
        (''decision'', JStr decision), (''source'', JStr (''promoted-from:'' @ requestId))]))"

section \<open>Changes by the owner\<close>

datatype rule_change = DisableRule | EnableRule | RemoveRule

fun entries_of :: "js \<Rightarrow> (string \<times> js) list" where
  "entries_of (JObj es) = es"
| "entries_of _ = []"

text \<open>A field set to \<open>undefined\<close> is not written to the file.\<close>

definition changed_rule :: "rule_change \<Rightarrow> string \<Rightarrow> string \<Rightarrow> ApprovalRule \<Rightarrow> ApprovalRule" where
  "changed_rule change when user rule =
     JObj (if change = DisableRule
       then AList.update ''disabledBy'' (JStr user) (AList.update ''disabledAt'' (JStr when)
              (AList.update ''disabled'' (JBool True) (entries_of rule)))
       else AList.delete ''disabledBy'' (AList.delete ''disabledAt'' (AList.delete ''disabled'' (entries_of rule))))"

definition mutated_rules ::
    "ApprovalRule list \<Rightarrow> string \<Rightarrow> rule_change \<Rightarrow> string \<Rightarrow> string \<Rightarrow> ApprovalRule list option" where
  "mutated_rules rules i change when user =
     (if find (\<lambda>rule. str_of (js_get rule ''id'') = i) rules = None then None
      else if change = RemoveRule then Some (filter (\<lambda>rule. str_of (js_get rule ''id'') \<noteq> i) rules)
      else Some (map (\<lambda>rule. if str_of (js_get rule ''id'') \<noteq> i then rule
                             else changed_rule change when user rule) rules))"

definition mutateRule ::
    "rules_env \<Rightarrow> rules_file \<Rightarrow> string \<Rightarrow> rule_change \<Rightarrow> string \<Rightarrow> string \<Rightarrow> rules_file option" where
  "mutateRule env file i change when user =
     map_option (saveApprovalRules env)
       (mutated_rules (lr_rules (loadApprovalRules env file)) i change when user)"

definition promote_always :: "rules_env \<Rightarrow> rules_file \<Rightarrow> ApprovalRule \<Rightarrow> rules_file" where
  "promote_always env file rule = saveApprovalRules env (lr_rules (loadApprovalRules env file) @ [rule])"

section \<open>The engine\<close>

definition APPROVAL_RULES_ENGINE_AUTHORITY_REF :: string where
  "APPROVAL_RULES_ENGINE_AUTHORITY_REF = ''approval-rules-engine:v1''"

definition RULE_ACTOR_PREFIX :: string where
  "RULE_ACTOR_PREFIX = ''rule:''"

definition AUTOMATABLE_REQUEST_KINDS :: "string list" where
  "AUTOMATABLE_REQUEST_KINDS = [''provider-evidence-probe'']"

definition requestTierFor :: "ApprovalRequest \<Rightarrow> ApprovalRiskTier option js_result" where
  "requestTierFor request =
     (case js_string (js_get (ar_details request) ''kind'') of
        None \<Rightarrow> Inr None
      | Some kind \<Rightarrow>
          if kind \<notin> set AUTOMATABLE_REQUEST_KINDS then Inr None
          else approvalRiskTierFor (ar_risk request) (ar_riskTier request))"

definition tierAllows :: "js \<Rightarrow> ApprovalRiskTier \<Rightarrow> bool" where
  "tierAllows ruleMax tier =
     (if tier = Critical then False
      else if ruleMax = JStr ''elevated'' then tier = Routine \<or> tier = Elevated
      else tier = Routine)"

definition rulesFileDigest :: "rules_env \<Rightarrow> rules_file \<Rightarrow> string" where
  "rulesFileDigest env file =
     hash_of env (case file of Missing \<Rightarrow> ''absent'' | Unreadable \<Rightarrow> ''unreadable'' | Text s \<Rightarrow> s)"

definition liveRuleFor ::
    "rules_env \<Rightarrow> rules_file \<Rightarrow> ApprovalRequest \<Rightarrow> int \<Rightarrow> ApprovalRule option js_result" where
  "liveRuleFor env file request now =
     result_bind (requestTierFor request) (\<lambda>tier. Inr
       (case tier of
          None \<Rightarrow> None
        | Some t \<Rightarrow>
            if lr_fault (loadApprovalRules env file) then None
            else (case matchApprovalRule env (ar_id request) (ar_summary request)
                       (lr_rules (loadApprovalRules env file)) now of
                None \<Rightarrow> None
              | Some rule \<Rightarrow>
                  if tierAllows (js_get (js_get rule ''match'') ''riskTierMax'') t then Some rule else None)))"

record ReauthenticationContext =
  rc_request :: ApprovalRequest
  rc_action :: ApprovalAction

record LiveApprovalAuthentication =
  la_actorId :: string
  la_tenantId :: string
  la_sessionRef :: string
  la_authorityRef :: string
  la_authenticatedAt :: string
  la_expiresAt :: string

record LiveApprovalSessionProof =
  sp_actorId :: string
  sp_sessionRefHash :: string
  sp_authorityRef :: string

definition rule_actor :: "ApprovalRule \<Rightarrow> string" where
  "rule_actor rule = RULE_ACTOR_PREFIX @ str_of (js_get rule ''id'')"

definition as_lifecycle_error :: "'a js_result \<Rightarrow> lifecycle_error + 'a" where
  "as_lifecycle_error r = (case r of Inl e \<Rightarrow> Inl (PolicyInvalid e) | Inr x \<Rightarrow> Inr x)"

definition reauthenticate ::
    "rules_env \<Rightarrow> rules_file \<Rightarrow> ReauthenticationContext \<Rightarrow> int
     \<Rightarrow> lifecycle_error + LiveApprovalAuthentication option" where
  "reauthenticate env file ctx now =
     result_bind (as_lifecycle_error (liveRuleFor env file (rc_request ctx) now)) (\<lambda>live.
       case live of
         None \<Rightarrow> Inr None
       | Some rule \<Rightarrow>
           result_bind (toISOString (iso_text env) now) (\<lambda>authenticatedAt.
           result_bind (toISOString (iso_text env) (now + 120000)) (\<lambda>until. Inr (Some
             \<lparr>la_actorId = rule_actor rule, la_tenantId = ar_tenantId (rc_request ctx),
              la_sessionRef = rulesFileDigest env file,
              la_authorityRef = APPROVAL_RULES_ENGINE_AUTHORITY_REF,
              la_authenticatedAt = authenticatedAt, la_expiresAt = until\<rparr>))))"

definition isSessionActive ::
    "rules_env \<Rightarrow> rules_file \<Rightarrow> LiveApprovalSessionProof \<Rightarrow> ReauthenticationContext \<Rightarrow> int \<Rightarrow> bool js_result" where
  "isSessionActive env file proof_of ctx now =
     (if sp_authorityRef proof_of \<noteq> APPROVAL_RULES_ENGINE_AUTHORITY_REF then Inr False
      else result_bind (liveRuleFor env file (rc_request ctx) now) (\<lambda>live. Inr
        (case live of
           None \<Rightarrow> False
         | Some rule \<Rightarrow>
             sp_actorId proof_of = rule_actor rule
             \<and> sp_sessionRefHash proof_of = hash_of env (rulesFileDigest env file))))"

end
