(* ===== verification/Approval_Rules_Correct.thy ===== *)
theory Approval_Rules_Correct
  imports Approval_Rules
begin

text \<open>
  What the automation of approvals promises: the engine applies exactly the first rule of an intact
  file that addresses a request, only to the kinds and tiers that may be automated; a rule that the
  owner disabled or removed decides nothing more and ends every session of its own; no verdict of the
  policy approves a critical request by itself. And where it falls short: a change by the owner turns
  a damaged file into an intact one, and a promotion with an empty reason stops all automation.
\<close>

section \<open>Risk tiers\<close>

lemma risk_tier_cases:
  "approvalRiskTierFor risk explicit = Inr (Some t) \<longleftrightarrow>
     (\<exists>least. mapLegacyApprovalRisk risk = Inr least \<and> least \<le> t
        \<and> (explicit = JUndefined \<and> t = least \<or> explicit = JStr (risk_name t)))"
  by (cases explicit; cases t)
    (auto simp: approvalRiskTierFor_def result_bind_Inr find_named_def APPROVAL_RISK_TIERS_def
      isApprovalRiskTierAtLeast_def less_eq_ApprovalRiskTier_def)

lemma request_tier_cases:
  "requestTierFor request = Inr (Some t) \<longleftrightarrow>
     js_get (ar_details request) ''kind'' = JStr ''provider-evidence-probe''
     \<and> approvalRiskTierFor (ar_risk request) (ar_riskTier request) = Inr (Some t)"
  by (auto simp: requestTierFor_def js_string_def AUTOMATABLE_REQUEST_KINDS_def split: js.splits)

lemma tier_allows_cases:
  "tierAllows v t \<longleftrightarrow> t = Routine \<or> t = Elevated \<and> v = JStr ''elevated''"
  by (cases t) (auto simp: tierAllows_def)

section \<open>The verdict of the policy\<close>

text \<open>
  A verdict is to approve automatically exactly when the first matching rule, or the default
  action of the request without one, says so and the tier of the request is valid and below
  critical; every other verdict that the rules give stands unless the tier is invalid.
\<close>

theorem policy_verdict_exact:
  assumes "decidePolicy request rules = Inr r"
  shows "(pd_policy r = AutoApprove \<longleftrightarrow> pd_policy (rule_verdict request rules) = AutoApprove
           \<and> approvalRiskTierFor (ar_risk request) (ar_riskTier request) \<in> {Inr (Some Routine), Inr (Some Elevated)})
       \<and> (pd_policy r = pd_policy (rule_verdict request rules) \<or> pd_policy r = DenyRequest)
       \<and> (approvalRiskTierFor (ar_risk request) (ar_riskTier request) = Inr None \<longrightarrow> pd_policy r = DenyRequest)
       \<and> (ar_risk request = ''critical'' \<longrightarrow> pd_policy r \<noteq> AutoApprove)
       \<and> pd_timeoutMs r = pd_timeoutMs (rule_verdict request rules)"
proof -
  let ?tier = "approvalRiskTierFor (ar_risk request) (ar_riskTier request)"
  obtain t where t: "?tier = Inr t" using assms by (auto simp: decidePolicy_def Let_def result_bind_Inr)
  have critical: "t \<in> {None, Some Critical}" if "ar_risk request = ''critical''"
  proof (cases t)
    case (Some u)
    with t have "\<exists>least. mapLegacyApprovalRisk (ar_risk request) = Inr least \<and> least \<le> u"
      by (auto simp: risk_tier_cases)
    with that Some show ?thesis
      by (cases u) (auto simp: mapLegacyApprovalRisk_def less_eq_ApprovalRiskTier_def)
  qed simp
  consider "t = None" | "t = Some Critical" | "t = Some Routine" | "t = Some Elevated"
    by (metis ApprovalRiskTier.exhaust option.exhaust)
  then show ?thesis using assms critical by cases (auto simp: decidePolicy_def Let_def t split: if_splits)
qed

section \<open>The engine\<close>

definition intact_rows :: "rules_env \<Rightarrow> rules_file \<Rightarrow> ApprovalRule list \<Rightarrow> bool" where
  "intact_rows env file rows \<longleftrightarrow>
     file = Missing \<and> rows = []
     \<or> (\<exists>s parsed. file = Text s \<and> parse_text env s = Some parsed \<and> js_get parsed ''schemaVersion'' = JNum 1
          \<and> js_get parsed ''rules'' = JArr rows \<and> (\<forall>row \<in> set rows. isValidRule env row))"

lemma loaded_intact:
  "\<not> lr_fault (loadApprovalRules env file) \<and> lr_rules (loadApprovalRules env file) = rows
   \<longleftrightarrow> intact_rows env file rows"
proof (cases "file")
  case (Text s)
  show ?thesis
  proof (cases "parse_text env s")
    case (Some parsed)
    show ?thesis
      using Text Some
      by (cases "js_get parsed ''rules''")
        (auto simp: intact_rows_def loadApprovalRules_def all_kept_iff Let_def)
  qed (simp add: Text intact_rows_def loadApprovalRules_def)
qed (auto simp: intact_rows_def loadApprovalRules_def)

lemma live_rule_cases:
  "liveRuleFor env file request now = Inr (Some rule) \<longleftrightarrow>
     (\<exists>t rows. requestTierFor request = Inr (Some t) \<and> intact_rows env file rows
        \<and> find (rule_applies env (ar_id request) (ar_summary request) now) rows = Some rule
        \<and> tierAllows (js_get (js_get rule ''match'') ''riskTierMax'') t)"
  unfolding loaded_intact [symmetric]
  by (auto simp: liveRuleFor_def result_bind_Inr matchApprovalRule_def split: option.splits if_splits)

text \<open>
  C21 The engine has a live rule for a request exactly when every row of the file is valid, the rule
  is the first that is active, addresses the id and finds its words in the summary, the request is
  of the one kind that may be automated, and its tier is routine, or elevated under a rule for
  elevated requests.
\<close>

theorem automation_exact:
  "liveRuleFor env file request now = Inr (Some rule) \<longleftrightarrow>
     js_get (ar_details request) ''kind'' = JStr ''provider-evidence-probe''
     \<and> (approvalRiskTierFor (ar_risk request) (ar_riskTier request) = Inr (Some Routine)
        \<or> approvalRiskTierFor (ar_risk request) (ar_riskTier request) = Inr (Some Elevated)
          \<and> js_get (js_get rule ''match'') ''riskTierMax'' = JStr ''elevated'')
     \<and> (\<exists>pre post. intact_rows env file (pre @ rule # post)
          \<and> rule_applies env (ar_id request) (ar_summary request) now rule
          \<and> (\<forall>earlier \<in> set pre. \<not> rule_applies env (ar_id request) (ar_summary request) now earlier))"
  unfolding live_rule_cases request_tier_cases tier_allows_cases find_split_first by blast

section \<open>Revocation\<close>

definition rule_id :: "ApprovalRule \<Rightarrow> string" where
  "rule_id rule = str_of (js_get rule ''id'')"

lemma intact_saved:
  "intact_rows env (saveApprovalRules env rules) rows \<Longrightarrow>
   parse_text env (print_value env (rules_payload rules) @ [CHR 0x0A]) = Some (rules_payload rules) \<Longrightarrow>
   rows = rules"
  by (auto simp: intact_rows_def saveApprovalRules_def rules_payload_def)

lemma disabled_row: "js_get (changed_rule DisableRule when user rule) ''disabled'' = JBool True"
  by (simp add: changed_rule_def update_conv')

lemma mutated_dead:
  assumes "mutated_rules rules i change when user = Some rules'" "change \<noteq> EnableRule"
    and "rule \<in> set rules'" "rule_applies env j summary now rule"
  shows "rule_id rule \<noteq> i"
  using assms disabled_row
  by (cases change)
    (auto simp: mutated_rules_def rule_applies_def ruleActive_def rule_id_def Let_def split: if_splits)

lemma revoked_not_live:
  assumes "mutated_rules (lr_rules (loadApprovalRules env file)) i change when user = Some rules'"
    and "change \<noteq> EnableRule"
    and "parse_text env (print_value env (rules_payload rules') @ [CHR 0x0A]) = Some (rules_payload rules')"
    and "liveRuleFor env (saveApprovalRules env rules') request now = Inr (Some rule)"
  shows "rule_id rule \<noteq> i"
proof -
  obtain pre post where rows: "intact_rows env (saveApprovalRules env rules') (pre @ rule # post)"
    and applies: "rule_applies env (ar_id request) (ar_summary request) now rule"
    using assms(4) unfolding live_rule_cases find_split_first by blast
  from intact_saved [OF rows assms(3)] have "rule \<in> set rules'" by auto
  with mutated_dead [OF assms(1,2)] applies show ?thesis by blast
qed

text \<open>
  C16 Once the owner has disabled or removed a rule, and as long as the file is as that change wrote
  it, the rule decides no request, authenticates none and no session of its own is active,
  whatever the request, the time and the proof presented.
\<close>

theorem revoked_rule_is_dead:
  assumes "mutated_rules (lr_rules (loadApprovalRules env file)) i change when user = Some rules'"
    and "change = DisableRule \<or> change = RemoveRule"
    and "mutateRule env file i change when user = Some file'"
    and "parse_text env (print_value env (rules_payload rules') @ [CHR 0x0A]) = Some (rules_payload rules')"
  shows "(\<forall>request now rule. liveRuleFor env file' request now = Inr (Some rule) \<longrightarrow> str_of (js_get rule ''id'') \<noteq> i)
       \<and> (\<forall>ctx now auth. reauthenticate env file' ctx now = Inr (Some auth) \<longrightarrow> la_actorId auth \<noteq> ''rule:'' @ i)
       \<and> (\<forall>p ctx now. sp_actorId p = ''rule:'' @ i \<longrightarrow> isSessionActive env file' p ctx now \<noteq> Inr True)"
proof -
  have file': "file' = saveApprovalRules env rules'" using assms(1,3) by (simp add: mutateRule_def)
  have dead: "rule_id rule \<noteq> i" if "liveRuleFor env file' request now = Inr (Some rule)" for request now rule
    using revoked_not_live [OF assms(1) _ assms(4) that [unfolded file']] assms(2) by auto
  have "la_actorId auth \<noteq> ''rule:'' @ i" if "reauthenticate env file' ctx now = Inr (Some auth)" for ctx now auth
    using that dead
    by (auto simp: reauthenticate_def result_bind_Inr as_lifecycle_error_def rule_actor_def RULE_ACTOR_PREFIX_def
        rule_id_def split: sum.splits option.splits)
  moreover have "isSessionActive env file' p ctx now \<noteq> Inr True" if "sp_actorId p = ''rule:'' @ i" for p ctx now
    using that dead
    by (auto simp: isSessionActive_def result_bind_Inr rule_actor_def RULE_ACTOR_PREFIX_def rule_id_def
        split: option.splits)
  ultimately show ?thesis using dead by (auto simp: rule_id_def)
qed

text \<open>
  A session lasts only while the file is the one it was opened on, as far as the hash tells the two
  contents apart.
\<close>

definition file_content :: "rules_file \<Rightarrow> string" where
  "file_content file = (case file of Missing \<Rightarrow> ''absent'' | Unreadable \<Rightarrow> ''unreadable'' | Text s \<Rightarrow> s)"

lemma digest_of_content: "rulesFileDigest env file = hash_of env (file_content file)"
  by (simp add: rulesFileDigest_def file_content_def)

lemma session_bound_to_file:
  assumes "reauthenticate env file ctx now = Inr (Some auth)"
    and "sp_sessionRefHash p = hash_of env (la_sessionRef auth)"
    and "isSessionActive env file' p ctx' now' = Inr True"
    and "inj_on (\<lambda>s. hash_of env (hash_of env s)) {file_content file, file_content file'}"
  shows "file_content file' = file_content file"
proof -
  have "la_sessionRef auth = rulesFileDigest env file"
    using assms(1) by (auto simp: reauthenticate_def result_bind_Inr split: option.splits)
  moreover have "sp_sessionRefHash p = hash_of env (rulesFileDigest env file')"
    using assms(3) by (auto simp: isSessionActive_def result_bind_Inr split: option.splits if_splits)
  ultimately have "hash_of env (hash_of env (file_content file')) = hash_of env (hash_of env (file_content file))"
    using assms(2) unfolding digest_of_content by simp
  with assms(4) show ?thesis by (auto dest: inj_onD)
qed

section \<open>What a change by the owner does to a damaged file\<close>

lemma loaded_valid: "row \<in> set (lr_rules (loadApprovalRules env file)) \<Longrightarrow> isValidRule env row"
  by (auto simp: loadApprovalRules_def Let_def split: rules_file.splits option.splits js.splits if_splits)

lemma intact_saved_iff:
  assumes "parse_text env (print_value env (rules_payload rules) @ [CHR 0x0A]) = Some (rules_payload rules)"
  shows "intact_rows env (saveApprovalRules env rules) rows \<longleftrightarrow> rows = rules \<and> (\<forall>row \<in> set rules. isValidRule env row)"
  using assms by (auto simp: intact_rows_def saveApprovalRules_def rules_payload_def)

text \<open>The removal of a rule leaves an intact file, whatever was wrong with the file before.\<close>

lemma removal_hides_damage:
  assumes "mutated_rules (lr_rules (loadApprovalRules env file)) i RemoveRule when user = Some rules'"
    and "parse_text env (print_value env (rules_payload rules') @ [CHR 0x0A]) = Some (rules_payload rules')"
  shows "intact_rows env (saveApprovalRules env rules') rules'"
  using assms loaded_valid [of _ env "file"]
  by (auto simp: intact_saved_iff mutated_rules_def split: if_splits)

section \<open>Promotion\<close>

lemma promoted_prefix_Nil [simp]: "promoted_prefix i = [] \<longleftrightarrow> i = []"
  by (auto simp: promoted_prefix_def Let_def)

lemma promoted_prefix_addresses: "js_starts_with i (promoted_prefix i)"
  by (auto simp: promoted_prefix_def Let_def js_starts_with_def)

lemma promoted_source_iff:
  "promoted_source (''promoted-from:'' @ i) \<longleftrightarrow> i \<noteq> [] \<and> CHR 0x0A \<notin> set i \<and> CHR 0x0D \<notin> set i"
  by (simp add: promoted_source_def js_starts_with_def)

lemma promoted_fields:
  assumes "promoteRuleFromDecision env newRuleId requestId decision createdBy reason includes now = Inr rule"
  shows "js_get rule ''id'' = JStr newRuleId"
    and "js_get rule ''createdAt'' = JStr (iso_text env now)"
    and "js_get rule ''createdBy'' = JStr createdBy"
    and "js_get rule ''reason'' = JStr reason"
    and "js_get rule ''decision'' = JStr decision"
    and "js_get rule ''source'' = JStr (''promoted-from:'' @ requestId)"
    and "js_get (js_get rule ''match'') ''idPrefix'' = JStr (promoted_prefix requestId)"
    and "js_get (js_get rule ''match'') ''riskTierMax'' = JStr ''routine''"
    and "js_get (js_get rule ''match'') ''summaryIncludes''
      = (case includes of None \<Rightarrow> JUndefined | Some s \<Rightarrow> JStr s)"
    and "js_get rule ''expiresAt'' = JUndefined" "js_get rule ''disabled'' = JUndefined"
      "js_get rule ''disabledAt'' = JUndefined" "js_get rule ''disabledBy'' = JUndefined"
proof -
  obtain createdAt where at: "toISOString (iso_text env) now = Inr createdAt"
    and rule: "rule = JObj
      [(''id'', JStr newRuleId), (''createdAt'', JStr createdAt), (''createdBy'', JStr createdBy),
       (''reason'', JStr reason),
       (''match'', JObj ([(''idPrefix'', JStr (promoted_prefix requestId))]
          @ (case includes of None \<Rightarrow> [] | Some s \<Rightarrow> [(''summaryIncludes'', JStr s)])
          @ [(''riskTierMax'', JStr ''routine'')])),
       (''decision'', JStr decision), (''source'', JStr (''promoted-from:'' @ requestId))]"
    using assms unfolding promoteRuleFromDecision_def result_bind_Inr by blast
  have "createdAt = iso_text env now" using at by (simp add: toISOString_def split: if_splits)
  then show "js_get rule ''createdAt'' = JStr (iso_text env now)" by (simp add: rule)
  show "js_get rule ''id'' = JStr newRuleId" "js_get rule ''createdBy'' = JStr createdBy"
    "js_get rule ''reason'' = JStr reason" "js_get rule ''decision'' = JStr decision"
    "js_get rule ''source'' = JStr (''promoted-from:'' @ requestId)"
    "js_get (js_get rule ''match'') ''idPrefix'' = JStr (promoted_prefix requestId)"
    "js_get rule ''expiresAt'' = JUndefined" "js_get rule ''disabled'' = JUndefined"
    "js_get rule ''disabledAt'' = JUndefined" "js_get rule ''disabledBy'' = JUndefined"
    by (simp_all add: rule)
  show "js_get (js_get rule ''match'') ''riskTierMax'' = JStr ''routine''"
    "js_get (js_get rule ''match'') ''summaryIncludes''
      = (case includes of None \<Rightarrow> JUndefined | Some s \<Rightarrow> JStr s)"
    by (simp_all add: rule split: option.split)
qed

lemma promoted_rule_valid:
  assumes "promoteRuleFromDecision env newRuleId requestId decision createdBy reason includes now = Inr rule"
  shows "isValidRule env rule \<longleftrightarrow>
    newRuleId \<noteq> [] \<and> date_of env (iso_text env now) \<noteq> None \<and> createdBy \<noteq> [] \<and> reason \<noteq> []
    \<and> decision \<in> {''allow'', ''deny''} \<and> requestId \<noteq> [] \<and> CHR 0x0A \<notin> set requestId \<and> CHR 0x0D \<notin> set requestId
    \<and> includes \<noteq> Some []"
  unfolding isValidRule_def promoted_fields [OF assms] nonempty_string_def isIsoDate_def date_in_def absentOr_def
    js_string_def js.case option.case promoted_source_iff
  by (cases "includes") auto

text \<open>
  C39 A promoted decision is automated exactly when it gives a reason, an author and a nonempty
  condition: then the file holds the readable rules and the new one last, and it addresses the
  request it came from. Otherwise the file is damaged and no rule decides anything.
\<close>

theorem promotion_exact:
  assumes "promoteRuleFromDecision env newRuleId requestId decision createdBy reason includes now = Inr rule"
    and "parse_text env (print_value env (rules_payload (lr_rules (loadApprovalRules env file) @ [rule])) @ [CHR 0x0A])
       = Some (rules_payload (lr_rules (loadApprovalRules env file) @ [rule]))"
    and "newRuleId \<noteq> []" "date_of env (iso_text env now) \<noteq> None" "decision \<in> {''allow'', ''deny''}"
    and "requestId \<noteq> []" "CHR 0x0A \<notin> set requestId" "CHR 0x0D \<notin> set requestId"
  shows "if createdBy \<noteq> [] \<and> reason \<noteq> [] \<and> includes \<noteq> Some []
    then loadApprovalRules env (promote_always env file rule)
           = \<lparr>lr_rules = lr_rules (loadApprovalRules env file) @ [rule], lr_fault = False\<rparr>
         \<and> js_starts_with requestId (str_of (js_get (js_get rule ''match'') ''idPrefix''))
         \<and> js_get (js_get rule ''match'') ''riskTierMax'' = JStr ''routine''
    else lr_fault (loadApprovalRules env (promote_always env file rule))
         \<and> (\<forall>request at_time found. liveRuleFor env (promote_always env file rule) request at_time \<noteq> Inr (Some found))"
proof -
  let ?rules = "lr_rules (loadApprovalRules env file) @ [rule]"
  let ?ok = "createdBy \<noteq> [] \<and> reason \<noteq> [] \<and> includes \<noteq> Some []"
  have valid: "isValidRule env rule \<longleftrightarrow> ?ok"
    using promoted_rule_valid [OF assms(1)] assms(3-8) by blast
  have intact: "intact_rows env (promote_always env file rule) rows \<longleftrightarrow> rows = ?rules \<and> ?ok" for rows
    using loaded_valid [of _ env "file"] valid
    by (auto simp: promote_always_def intact_saved_iff [OF assms(2)])
  have rule: "str_of (js_get (js_get rule ''match'') ''idPrefix'') = promoted_prefix requestId"
    "js_get (js_get rule ''match'') ''riskTierMax'' = JStr ''routine''"
    using promoted_fields(7,8) [OF assms(1)] by (simp_all add: str_of_def js_string_def)
  show ?thesis
  proof (cases ?ok)
    case True
    with intact [of ?rules] have "intact_rows env (promote_always env file rule) ?rules" by blast
    then have "loadApprovalRules env (promote_always env file rule) = \<lparr>lr_rules = ?rules, lr_fault = False\<rparr>"
      unfolding loaded_intact [symmetric] by (intro loaded_rules.equality) simp_all
    then show ?thesis using True rule promoted_prefix_addresses by simp
  next
    case False
    with intact have none: "\<not> intact_rows env (promote_always env file rule) rows" for rows by blast
    then have "lr_fault (loadApprovalRules env (promote_always env file rule))" using loaded_intact by blast
    then show ?thesis using False none by (auto simp: live_rule_cases)
  qed
qed

section \<open>Examples\<close>

definition sample_rule_row :: "string \<Rightarrow> string \<Rightarrow> ApprovalRule" where
  "sample_rule_row i decision = JObj
     [(''id'', JStr i), (''createdAt'', JStr ''t''), (''createdBy'', JStr ''owner''), (''reason'', JStr ''why''),
      (''match'', JObj [(''idPrefix'', JStr ''aprp-''), (''riskTierMax'', JStr ''routine'')]),
      (''decision'', JStr decision), (''source'', JStr ''manual'')]"

definition sample_rules_env :: "ApprovalRule list \<Rightarrow> ApprovalRule list \<Rightarrow> rules_env" where
  "sample_rules_env old new =
     \<lparr>date_of = \<lambda>s. if s = ''t'' then Some 0 else None, iso_text = \<lambda>_. ''t'',
      parse_text = \<lambda>s. if s = ''old'' then Some (rules_payload old)
        else if s = ''new'' @ [CHR 0x0A] then Some (rules_payload new) else None,
      print_value = \<lambda>v. if v = rules_payload new then ''new'' else ''other'', hash_of = \<lambda>s. s\<rparr>"

definition sample_approval :: "string \<Rightarrow> ApprovalRequest" where
  "sample_approval risk =
     \<lparr>ar_id = ''aprp-1'', ar_role = WorkerRole, ar_summary = ''probe'',
      ar_details = JObj [(''kind'', JStr ''provider-evidence-probe'')], ar_scopeId = ''s'', ar_scope = NetworkScope,
      ar_risk = risk, ar_riskTier = JUndefined, ar_defaultAction = LegacyDeny, ar_tenantId = ''tenant''\<rparr>"

theorem policy_verdict_exact_witness:
  "\<exists>r. decidePolicy (sample_approval ''critical'')
      [\<lparr>pr_match = \<lparr>pm_scope = None, pm_risk = None, pm_requester = None, pm_tenantId = None\<rparr>,
        pr_action = AutoApprove, pr_timeoutMs = None\<rparr>] = Inr r \<and> pd_policy r \<noteq> AutoApprove"
  (is "\<exists>r. decidePolicy ?request ?rules = _ \<and> _")
proof -
  have "decidePolicy ?request ?rules \<noteq> Inl e" for e
    by (cases e) (simp_all add: decidePolicy_def Let_def approvalRiskTierFor_def sample_approval_def
        mapLegacyApprovalRisk_def)
  then obtain r where r: "decidePolicy ?request ?rules = Inr r" by (cases "decidePolicy ?request ?rules") auto
  moreover have "ar_risk ?request = ''critical''" by (simp add: sample_approval_def)
  ultimately show ?thesis using policy_verdict_exact [OF r] by blast
qed

text \<open>The first of two rules allows the request; disabled, it is dead.\<close>

definition sample_rules :: "ApprovalRule list" where
  "sample_rules = [sample_rule_row ''rule-a'' ''allow'', sample_rule_row ''rule-b'' ''deny'']"

definition sample_disabled :: "ApprovalRule list" where
  "sample_disabled =
     [changed_rule DisableRule ''t'' ''owner'' (sample_rule_row ''rule-a'' ''allow''), sample_rule_row ''rule-b'' ''deny'']"

theorem revoked_rule_is_dead_witness:
  "liveRuleFor (sample_rules_env sample_rules sample_disabled) (Text ''old'') (sample_approval ''low'') 0
     = Inr (Some (sample_rule_row ''rule-a'' ''allow''))
   \<and> (\<forall>request now. liveRuleFor (sample_rules_env sample_rules sample_disabled) (Text (''new'' @ [CHR 0x0A])) request now
     \<noteq> Inr (Some (sample_rule_row ''rule-a'' ''allow'')))"
proof
  let ?env = "sample_rules_env sample_rules sample_disabled"
  show "liveRuleFor ?env (Text ''old'') (sample_approval ''low'') 0 = Inr (Some (sample_rule_row ''rule-a'' ''allow''))"
    by code_simp
  have "mutated_rules (lr_rules (loadApprovalRules ?env (Text ''old''))) ''rule-a'' DisableRule ''t'' ''owner''
      = Some sample_disabled" by code_simp
  moreover have "mutateRule ?env (Text ''old'') ''rule-a'' DisableRule ''t'' ''owner''
      = Some (Text (''new'' @ [CHR 0x0A]))" by code_simp
  moreover have "parse_text ?env (print_value ?env (rules_payload sample_disabled) @ [CHR 0x0A])
      = Some (rules_payload sample_disabled)" by code_simp
  moreover have "str_of (js_get (sample_rule_row ''rule-a'' ''allow'') ''id'') = ''rule-a''" by code_simp
  ultimately show "\<forall>request now. liveRuleFor ?env (Text (''new'' @ [CHR 0x0A])) request now
      \<noteq> Inr (Some (sample_rule_row ''rule-a'' ''allow''))"
    using revoked_rule_is_dead [of ?env "Text ''old''" "''rule-a''" DisableRule "''t''" "''owner''" sample_disabled
        "Text (''new'' @ [CHR 0x0A])"] by blast
qed

theorem automation_exact_witness:
  "liveRuleFor (sample_rules_env sample_rules []) (Text ''old'') (sample_approval ''low'') 0
     = Inr (Some (sample_rule_row ''rule-a'' ''allow''))"
proof -
  let ?env = "sample_rules_env sample_rules []"
  let ?rule = "sample_rule_row ''rule-a'' ''allow''"
  have kind: "js_get (ar_details (sample_approval ''low'')) ''kind'' = JStr ''provider-evidence-probe''" by code_simp
  have tier: "approvalRiskTierFor (ar_risk (sample_approval ''low'')) (ar_riskTier (sample_approval ''low''))
      = Inr (Some Routine)" by code_simp
  have loaded: "loadApprovalRules ?env (Text ''old'') = \<lparr>lr_rules = sample_rules, lr_fault = False\<rparr>" by code_simp
  have intact: "intact_rows ?env (Text ''old'') ([] @ ?rule # [sample_rule_row ''rule-b'' ''deny''])"
    unfolding loaded_intact [symmetric] loaded by (simp add: sample_rules_def)
  have applies: "rule_applies ?env (ar_id (sample_approval ''low'')) (ar_summary (sample_approval ''low'')) 0 ?rule"
    by code_simp
  show ?thesis unfolding automation_exact using kind tier intact applies by (metis empty_iff list.set(1))
qed

definition unreasoned :: ApprovalRule where
  "unreasoned = JObj
     [(''id'', JStr ''rule-c''), (''createdAt'', JStr ''t''), (''createdBy'', JStr ''owner''), (''reason'', JStr []),
      (''match'', JObj [(''idPrefix'', JStr ''aprp-''), (''riskTierMax'', JStr ''routine'')]),
      (''decision'', JStr ''allow''), (''source'', JStr ''promoted-from:aprp-1'')]"

theorem promotion_exact_witness:
  "lr_fault (loadApprovalRules (sample_rules_env sample_rules (sample_rules @ [unreasoned]))
     (promote_always (sample_rules_env sample_rules (sample_rules @ [unreasoned])) (Text ''old'') unreasoned))"
proof -
  let ?env = "sample_rules_env sample_rules (sample_rules @ [unreasoned])"
  have loaded: "lr_rules (loadApprovalRules ?env (Text ''old'')) = sample_rules" by code_simp
  have promoted: "promoteRuleFromDecision ?env ''rule-c'' ''aprp-1'' ''allow'' ''owner'' [] None 0 = Inr unreasoned"
    by code_simp
  have read_back: "parse_text ?env (print_value ?env (rules_payload (sample_rules @ [unreasoned])) @ [CHR 0x0A])
      = Some (rules_payload (sample_rules @ [unreasoned]))" by code_simp
  have "date_of ?env (iso_text ?env 0) \<noteq> None" by (simp add: sample_rules_env_def)
  from promotion_exact [OF promoted, of "Text ''old''", unfolded loaded, OF read_back _ this] show ?thesis by simp
qed

text \<open>The engine never looks at the action it authenticates: a rule to deny authenticates an allow.\<close>

lemma deny_rule_authenticates_allow:
  "reauthenticate (sample_rules_env [sample_rule_row ''rule-b'' ''deny''] []) (Text ''old'')
     \<lparr>rc_request = sample_approval ''low'', rc_action = LegacyAllow\<rparr> 0
   = Inr (Some \<lparr>la_actorId = ''rule:rule-b'', la_tenantId = ''tenant'', la_sessionRef = ''old'',
       la_authorityRef = ''approval-rules-engine:v1'', la_authenticatedAt = ''t'', la_expiresAt = ''t''\<rparr>)"
  by code_simp

text \<open>
  Nothing is automated while the first row is damaged; the removal of an unrelated rule drops that row,
  which denied, and the request is allowed by the next.
\<close>

definition damaged_row :: ApprovalRule where
  "damaged_row = (case sample_rule_row ''rule-d'' ''deny'' of JObj es \<Rightarrow> JObj (es @ [(''expiresAt'', JStr ''?'')]) | v \<Rightarrow> v)"

lemma removal_revives_automation:
  "liveRuleFor (sample_rules_env [damaged_row, sample_rule_row ''rule-a'' ''allow'', sample_rule_row ''rule-b'' ''deny'']
       [sample_rule_row ''rule-a'' ''allow'']) (Text ''old'') (sample_approval ''low'') 0 = Inr None"
  "map_option (\<lambda>file. liveRuleFor
       (sample_rules_env [damaged_row, sample_rule_row ''rule-a'' ''allow'', sample_rule_row ''rule-b'' ''deny'']
         [sample_rule_row ''rule-a'' ''allow'']) file (sample_approval ''low'') 0)
     (mutateRule (sample_rules_env [damaged_row, sample_rule_row ''rule-a'' ''allow'', sample_rule_row ''rule-b'' ''deny'']
         [sample_rule_row ''rule-a'' ''allow'']) (Text ''old'') ''rule-b'' RemoveRule ''t'' ''owner'')
   = Some (Inr (Some (sample_rule_row ''rule-a'' ''allow'')))"
  by code_simp+

end
