(* ===== verification/Approval_Allow.thy ===== *)
theory Approval_Allow
  imports Approval_Rules_Correct
begin

text \<open>
  \<open>src/core/approval-allowscope.ts\<close>: the grants that always allow one exact scope until they expire.
  A store keeps its grants in memory and writes all of them with every change; an instance is a
  store that was opened on the file. The \<open>datetime\<close> format of zod is an argument, ids and the
  printed clock are given with the call, and a write always succeeds.
\<close>

section \<open>Grants\<close>

record allow_env = rules_env +
  zod_datetime :: "string \<Rightarrow> bool"

definition ALL_APPROVAL_SCOPES :: "ApprovalScope list" where
  "ALL_APPROVAL_SCOPES =
     [FileRead, FileWrite, ShellExec, GitMutation, NetworkScope, CredentialScope, LifecycleScope]"

primrec approval_scope_name :: "ApprovalScope \<Rightarrow> string" where
  "approval_scope_name FileRead = ''file-read''"
| "approval_scope_name FileWrite = ''file-write''"
| "approval_scope_name ShellExec = ''shell-exec''"
| "approval_scope_name GitMutation = ''git-mutation''"
| "approval_scope_name NetworkScope = ''network''"
| "approval_scope_name CredentialScope = ''credential''"
| "approval_scope_name LifecycleScope = ''lifecycle''"

definition ALL_APPROVAL_RISKS :: "string list" where
  "ALL_APPROVAL_RISKS = [''none'', ''low'', ''medium'', ''high'', ''critical'']"

definition GLOBAL_WILDCARD_SCOPE_IDS :: "string list" where
  "GLOBAL_WILDCARD_SCOPE_IDS = [''*'', ''**'', ''all'', ''any'', ''global'']"

definition isGlobalWildcardScopeId :: "string \<Rightarrow> bool" where
  "isGlobalWildcardScopeId scopeId \<longleftrightarrow> js_lower (js_trim scopeId) \<in> set GLOBAL_WILDCARD_SCOPE_IDS"

record AllowScopeRule =
  al_id :: string
  al_scopeId :: string
  al_scope :: ApprovalScope
  al_maxRisk :: string
  al_expiresAt :: string
  al_grantedBy :: string
  al_grantedAt :: string
  al_reason :: string

definition ALLOW_KEYS :: "string list" where
  "ALLOW_KEYS = [''id'', ''scopeId'', ''scope'', ''maxRisk'', ''expiresAt'', ''grantedBy'', ''grantedAt'', ''reason'']"

definition datetime_string :: "allow_env \<Rightarrow> js \<Rightarrow> bool" where
  "datetime_string env v \<longleftrightarrow> (case js_string v of None \<Rightarrow> False | Some s \<Rightarrow> zod_datetime env s)"

definition parse_allow_rule :: "allow_env \<Rightarrow> js \<Rightarrow> AllowScopeRule option" where
  "parse_allow_rule env v =
     (case find_named approval_scope_name ALL_APPROVAL_SCOPES (js_get v ''scope'') of
        None \<Rightarrow> None
      | Some scope \<Rightarrow>
          if isPlainObject v \<and> set (js_keys v) \<subseteq> set ALLOW_KEYS
             \<and> nonempty_string (js_get v ''id'')
             \<and> nonempty_string (js_get v ''scopeId'')
             \<and> \<not> isGlobalWildcardScopeId (str_of (js_get v ''scopeId''))
             \<and> js_get v ''maxRisk'' \<in> set (map JStr ALL_APPROVAL_RISKS)
             \<and> datetime_string env (js_get v ''expiresAt'')
             \<and> nonempty_string (js_get v ''grantedBy'')
             \<and> datetime_string env (js_get v ''grantedAt'')
             \<and> (js_get v ''reason'' = JUndefined \<or> js_string (js_get v ''reason'') \<noteq> None)
          then Some \<lparr>al_id = str_of (js_get v ''id''), al_scopeId = str_of (js_get v ''scopeId''),
            al_scope = scope, al_maxRisk = str_of (js_get v ''maxRisk''),
            al_expiresAt = str_of (js_get v ''expiresAt''), al_grantedBy = str_of (js_get v ''grantedBy''),
            al_grantedAt = str_of (js_get v ''grantedAt''), al_reason = str_of (js_get v ''reason'')\<rparr>
          else None)"

definition grant_value :: "AllowScopeRule \<Rightarrow> js" where
  "grant_value r = JObj
     [(''id'', JStr (al_id r)), (''scopeId'', JStr (al_scopeId r)),
      (''scope'', JStr (approval_scope_name (al_scope r))), (''maxRisk'', JStr (al_maxRisk r)),
      (''expiresAt'', JStr (al_expiresAt r)), (''grantedBy'', JStr (al_grantedBy r)),
      (''grantedAt'', JStr (al_grantedAt r)), (''reason'', JStr (al_reason r))]"

definition loadAllowScopeFile :: "allow_env \<Rightarrow> rules_file \<Rightarrow> AllowScopeRule list" where
  "loadAllowScopeFile env file =
     (case file of
        Text s \<Rightarrow> (case parse_text env s of
            Some (JArr entries) \<Rightarrow> List.map_filter (parse_allow_rule env) entries
          | _ \<Rightarrow> [])
      | _ \<Rightarrow> [])"

section \<open>The store\<close>

record allow_store =
  as_rules :: "AllowScopeRule list"
  as_file :: rules_file

definition open_allow_store :: "allow_env \<Rightarrow> rules_file \<Rightarrow> allow_store" where
  "open_allow_store env file = \<lparr>as_rules = loadAllowScopeFile env file, as_file = file\<rparr>"

definition grants_text :: "allow_env \<Rightarrow> AllowScopeRule list \<Rightarrow> string" where
  "grants_text env rules = print_value env (JArr (map grant_value rules)) @ [CHR 0x0A]"

definition persist :: "allow_env \<Rightarrow> allow_store \<Rightarrow> allow_store" where
  "persist env st = st\<lparr>as_file := Text (grants_text env (as_rules st))\<rparr>"

definition grantAllow ::
    "allow_env \<Rightarrow> allow_store \<Rightarrow> js \<Rightarrow> string \<Rightarrow> string \<Rightarrow> (AllowScopeRule \<times> allow_store) option" where
  "grantAllow env st input newId grantedAt =
     (case parse_allow_rule env (JObj (AList.update ''grantedAt'' (JStr grantedAt)
             (AList.update ''id'' (JStr newId) (entries_of input)))) of
        None \<Rightarrow> None
      | Some rule \<Rightarrow> Some (rule, persist env (st\<lparr>as_rules := as_rules st @ [rule]\<rparr>)))"

definition revokeAllow :: "allow_env \<Rightarrow> allow_store \<Rightarrow> string \<Rightarrow> bool \<times> allow_store" where
  "revokeAllow env st i =
     (let kept = filter (\<lambda>rule. al_id rule \<noteq> i) (as_rules st);
          revoked = (length kept \<noteq> length (as_rules st));
          st' = st\<lparr>as_rules := kept\<rparr>
      in (revoked, if revoked then persist env st' else st'))"

definition allow_expired :: "allow_env \<Rightarrow> int \<Rightarrow> AllowScopeRule \<Rightarrow> bool" where
  "allow_expired env now rule \<longleftrightarrow> (case date_of env (al_expiresAt rule) of None \<Rightarrow> False | Some t \<Rightarrow> t \<le> now)"

definition risk_position :: "string \<Rightarrow> nat" where
  "risk_position risk = length (takeWhile (\<lambda>r. r \<noteq> risk) ALL_APPROVAL_RISKS)"

definition grant_covers :: "ApprovalRequest \<Rightarrow> AllowScopeRule \<Rightarrow> bool" where
  "grant_covers request rule \<longleftrightarrow>
     al_scopeId rule = ar_scopeId request \<and> al_scope rule = ar_scope request
     \<and> risk_position (ar_risk request) \<le> risk_position (al_maxRisk rule)"

definition matchesAllow ::
    "allow_env \<Rightarrow> allow_store \<Rightarrow> ApprovalRequest \<Rightarrow> int \<Rightarrow> allow_store \<times> AllowScopeRule option js_result" where
  "matchesAllow env st request now =
     (let live = filter (\<lambda>rule. \<not> allow_expired env now rule) (as_rules st);
          purged = list_ex (allow_expired env now) (as_rules st);
          st' = (if purged then persist env (st\<lparr>as_rules := live\<rparr>) else st)
      in (st', result_bind (approvalRiskTierFor (ar_risk request) (ar_riskTier request)) (\<lambda>tier. Inr
           (if tier = None \<or> tier = Some Critical then None else find (grant_covers request) live))))"

section \<open>What a grant allows\<close>

lemma matched_state:
  "as_rules (fst (matchesAllow env st request now)) = filter (\<lambda>rule. \<not> allow_expired env now rule) (as_rules st)"
  by (auto simp: matchesAllow_def Let_def persist_def list_ex_iff filter_id_conv)


section \<open>Never global, and kept in the file\<close>

definition valid_grant :: "allow_env \<Rightarrow> AllowScopeRule \<Rightarrow> bool" where
  "valid_grant env r \<longleftrightarrow>
     al_id r \<noteq> [] \<and> al_scopeId r \<noteq> [] \<and> \<not> isGlobalWildcardScopeId (al_scopeId r)
     \<and> al_maxRisk r \<in> set ALL_APPROVAL_RISKS \<and> zod_datetime env (al_expiresAt r) \<and> al_grantedBy r \<noteq> []
     \<and> zod_datetime env (al_grantedAt r)"

lemma nonempty_text: "nonempty_string v \<Longrightarrow> str_of v \<noteq> []"
  by (auto simp: nonempty_string_def str_of_def split: option.splits)

lemma datetime_text: "datetime_string env v \<Longrightarrow> zod_datetime env (str_of v)"
  by (auto simp: datetime_string_def str_of_def split: option.splits)

lemma case_if_SomeD:
  "(case x of None \<Rightarrow> None | Some y \<Rightarrow> if C then Some (f y) else None) = Some r \<Longrightarrow> C \<and> (\<exists>y. r = f y)"
  by (auto split: option.splits if_splits)

lemma named_risk: "v \<in> set (map JStr names) \<Longrightarrow> str_of v \<in> set names"
  by (auto simp: str_of_def js_string_def)

lemma parsed_grant_valid:
  assumes "parse_allow_rule env v = Some r"
  shows "valid_grant env r"
proof -
  note parsed = case_if_SomeD [OF assms [unfolded parse_allow_rule_def]]
  from parsed obtain scope where r: "al_id r = str_of (js_get v ''id'')" "al_scopeId r = str_of (js_get v ''scopeId'')"
      "al_maxRisk r = str_of (js_get v ''maxRisk'')" "al_expiresAt r = str_of (js_get v ''expiresAt'')"
      "al_grantedBy r = str_of (js_get v ''grantedBy'')" "al_grantedAt r = str_of (js_get v ''grantedAt'')"
    by (elim conjE exE) simp
  show ?thesis
    unfolding valid_grant_def r using parsed nonempty_text datetime_text named_risk by blast
qed

lemma find_scope_name:
  "find_named approval_scope_name ALL_APPROVAL_SCOPES (JStr (approval_scope_name s)) = Some s"
  by (cases s) (simp_all add: find_named_def ALL_APPROVAL_SCOPES_def)

lemma grant_fields:
  "js_get (grant_value r) ''id'' = JStr (al_id r)"
  "js_get (grant_value r) ''scopeId'' = JStr (al_scopeId r)"
  "js_get (grant_value r) ''scope'' = JStr (approval_scope_name (al_scope r))"
  "js_get (grant_value r) ''maxRisk'' = JStr (al_maxRisk r)"
  "js_get (grant_value r) ''expiresAt'' = JStr (al_expiresAt r)"
  "js_get (grant_value r) ''grantedBy'' = JStr (al_grantedBy r)"
  "js_get (grant_value r) ''grantedAt'' = JStr (al_grantedAt r)"
  "js_get (grant_value r) ''reason'' = JStr (al_reason r)"
  "set (js_keys (grant_value r)) \<subseteq> set ALLOW_KEYS"
  "isPlainObject (grant_value r)"
  by (simp_all add: grant_value_def isPlainObject_def ALLOW_KEYS_def)

lemma js_string_JStr: "js_string (JStr s) = Some s" "str_of (JStr s) = s"
    "nonempty_string (JStr s) \<longleftrightarrow> s \<noteq> []" "datetime_string env (JStr s) \<longleftrightarrow> zod_datetime env s"
  by (simp_all add: js_string_def str_of_def nonempty_string_def datetime_string_def)

lemma parse_grant_value: "valid_grant env r \<Longrightarrow> parse_allow_rule env (grant_value r) = Some r"
  unfolding parse_allow_rule_def grant_fields find_scope_name option.case js_string_JStr
  by (auto simp: valid_grant_def grant_fields)

lemma map_filter_parsed:
  "\<forall>r \<in> set rs. valid_grant env r \<Longrightarrow> List.map_filter (parse_allow_rule env) (map grant_value rs) = rs"
  by (induction rs) (simp_all add: List.map_filter_simps parse_grant_value)

inductive allow_reachable :: "allow_env \<Rightarrow> allow_store \<Rightarrow> bool" for env where
  opened: "allow_reachable env (open_allow_store env file)"
| granted: "allow_reachable env st \<Longrightarrow> grantAllow env st input newId grantedAt = Some (rule, st') \<Longrightarrow> allow_reachable env st'"
| revoked: "allow_reachable env st \<Longrightarrow> revokeAllow env st i = (b, st') \<Longrightarrow> allow_reachable env st'"
| matched: "allow_reachable env st \<Longrightarrow> matchesAllow env st request now = (st', a) \<Longrightarrow> allow_reachable env st'"
| rewritten: "allow_reachable env st \<Longrightarrow> allow_reachable env (st\<lparr>as_file := other\<rparr>)"

lemma granted_rules:
  "grantAllow env st input newId grantedAt = Some (rule, st') \<Longrightarrow>
   as_rules st' = as_rules st @ [rule] \<and> valid_grant env rule \<and> as_file st' = Text (grants_text env (as_rules st'))"
  by (auto simp: grantAllow_def persist_def dest: parsed_grant_valid split: option.splits)

lemma revoked_rules: "revokeAllow env st i = (b, st') \<Longrightarrow> as_rules st' = filter (\<lambda>rule. al_id rule \<noteq> i) (as_rules st)"
  by (auto simp: revokeAllow_def Let_def persist_def)

lemma reachable_valid: "allow_reachable env st \<Longrightarrow> \<forall>r \<in> set (as_rules st). valid_grant env r"
proof (induction rule: allow_reachable.induct)
  case (opened "file")
  then show ?case
    by (auto simp: open_allow_store_def loadAllowScopeFile_def map_filter_def dest: parsed_grant_valid
        split: rules_file.splits option.splits js.splits)
next
  case (granted st input newId grantedAt rule st')
  then show ?case using granted_rules by fastforce
next
  case (revoked st i b st')
  then show ?case by (auto dest: revoked_rules)
next
  case (matched st request now st' a)
  then show ?case using matched_state [of env st request now] by auto
qed simp

lemma reload:
  assumes "\<forall>r \<in> set rs. valid_grant env r" "parse_text env (grants_text env rs) = Some (JArr (map grant_value rs))"
  shows "loadAllowScopeFile env (Text (grants_text env rs)) = rs"
  using assms by (simp add: loadAllowScopeFile_def map_filter_parsed)

text \<open>
  Whatever an instance opens, grants, revokes and looks up, and whatever others write to its file, it
  never holds a grant for all scopes, and opening what it writes gives exactly the grants it holds.
\<close>

theorem grants_never_global:
  assumes "allow_reachable env st"
  shows "(\<forall>rule \<in> set (as_rules st). al_scopeId rule \<noteq> [] \<and> \<not> isGlobalWildcardScopeId (al_scopeId rule))
       \<and> (parse_text env (grants_text env (as_rules st)) = Some (JArr (map grant_value (as_rules st)))
            \<longrightarrow> as_rules (open_allow_store env (as_file (persist env st))) = as_rules st)"
  using reachable_valid [OF assms] reload by (simp add: valid_grant_def persist_def open_allow_store_def)

text \<open>
  An instance that was open while another revoked a grant writes that grant back with its next own
  grant: the file holds it again.
\<close>

lemma stale_instance_restores_revoked:
  assumes "allow_reachable env st" "revoked_rule \<in> set (as_rules st)" "al_id revoked_rule = i"
    and "revokeAllow env st i = (b, other)"
    and "grantAllow env (st\<lparr>as_file := as_file other\<rparr>) input newId grantedAt = Some (rule, st')"
    and "parse_text env (grants_text env (as_rules other)) = Some (JArr (map grant_value (as_rules other)))"
    and "parse_text env (grants_text env (as_rules st')) = Some (JArr (map grant_value (as_rules st')))"
  shows "revoked_rule \<notin> set (loadAllowScopeFile env (as_file other)) \<and> revoked_rule \<in> set (loadAllowScopeFile env (as_file st'))"
proof
  have other: "as_rules other = filter (\<lambda>rule. al_id rule \<noteq> i) (as_rules st)"
    using revoked_rules [OF assms(4)] .
  have "length (filter (\<lambda>rule. al_id rule \<noteq> i) (as_rules st)) \<noteq> length (as_rules st)"
    using assms(2,3) by (auto simp: all_kept_iff)
  then have "as_file other = Text (grants_text env (as_rules other))"
    using assms(4) by (auto simp: revokeAllow_def Let_def persist_def)
  moreover have "\<forall>r \<in> set (as_rules other). valid_grant env r"
    using reachable_valid [OF allow_reachable.revoked [OF assms(1,4)]] .
  ultimately show "revoked_rule \<notin> set (loadAllowScopeFile env (as_file other))"
    using reload assms(3,6) other by auto
  have granted: "as_rules st' = as_rules st @ [rule]" "as_file st' = Text (grants_text env (as_rules st'))"
    using granted_rules [OF assms(5)] by simp_all
  have "allow_reachable env st'"
    by (rule allow_reachable.granted [OF allow_reachable.rewritten [OF assms(1)] assms(5)])
  from reload [OF reachable_valid [OF this] assms(7)] granted assms(2)
  show "revoked_rule \<in> set (loadAllowScopeFile env (as_file st'))" by simp
qed

section \<open>Examples\<close>

definition sample_grant :: "string \<Rightarrow> string \<Rightarrow> string \<Rightarrow> AllowScopeRule" where
  "sample_grant i risk until =
     \<lparr>al_id = i, al_scopeId = ''s'', al_scope = NetworkScope, al_maxRisk = risk, al_expiresAt = until,
      al_grantedBy = ''owner'', al_grantedAt = ''1'', al_reason = []\<rparr>"

definition sample_allow_env :: allow_env where
  "sample_allow_env =
     \<lparr>date_of = \<lambda>s. if s = ''1'' then Some 1 else if s = ''9'' then Some 9 else None, iso_text = \<lambda>_. ''1'',
      parse_text = \<lambda>s. if s = ''file'' then Some (JArr [grant_value (sample_grant ''a'' ''high'' ''1''),
          grant_value (sample_grant ''b'' ''none'' ''9''), grant_value (sample_grant ''c'' ''medium'' ''9'')])
        else if s = ''empty'' @ [CHR 0x0A] then Some (JArr []) else None,
      print_value = \<lambda>v. if v = JArr [] then ''empty'' else ''other'', hash_of = \<lambda>s. s,
      zod_datetime = \<lambda>s. s = ''1'' \<or> s = ''9''\<rparr>"


theorem grants_never_global_witness:
  "as_rules (open_allow_store sample_allow_env (as_file (persist sample_allow_env
     (open_allow_store sample_allow_env Missing)))) = []"
proof -
  have "as_rules (open_allow_store sample_allow_env Missing) = []" by code_simp
  moreover have "parse_text sample_allow_env (grants_text sample_allow_env []) = Some (JArr [])" by code_simp
  ultimately show ?thesis
    using grants_never_global [OF allow_reachable.opened [of sample_allow_env Missing]] by simp
qed

end
