(* ===== verification/Spec2Isabelle.thy ===== *)
theory Spec2Isabelle
  imports Lineage_Settlement Scheduler_Live Dependency_Correct Run_Flow_Correct Approval_Correct Budget_Correct
    Access_Correct Rate_Limiter Cascade_Detector Formula_Correct Nervous_Correct Scope_Resolution
    Registry_Correct Concurrency_Correct Admission_Correct
    Limit_Runtime_Correct Approval_Allow
begin

text \<open>
  Verification of the decision core of deckent, a program that plans work as a sprint of tasks,
  runs them in parallel workers and gates what the workers may do. The implementation is the
  TypeScript under \<open>src/src/\<close>; the paths below are relative to it. The parts modelled are the
  ones that decide: pure reducers, resolvers, guards and evaluators. Around them the program
  has I/O drivers (processes, containers, files, terminals, browsers) that call these parts
  between two effects; they are not modelled.

  \<^bold>\<open>How the parts interact.\<close> A run flow (\<open>orchestra/run-flow-reducer.ts\<close>) takes a proposal through
  preview and approval to a detached run of exactly the approved plan. The plan's tasks are laid
  out by the execution topology (\<open>core/execution-topology.ts\<close>), which the dependency graph
  (\<open>orchestra/dependency-scheduler.ts\<close>) reuses. While the run executes, every scheduler tick
  (\<open>orchestra/scheduler-reducer.ts\<close>) reads which ids satisfy or fail their dependents
  (\<open>orchestra/scheduler-state.ts\<close>), which in turn folds repair attempts into lineages
  (\<open>core/task-lineage.ts\<close>) and asks the failure-disposition policy. A worker is started under a
  budget (\<open>core/execution-budget-policy.ts\<close>), watched by a live guard
  (\<open>core/live-execution-budget.ts\<close>) over the usage that \<open>core/log-event.ts\<close> extracts, and judged
  at the end (\<open>core/execution-budget.ts\<close>). The cascade detector stops a sprint that keeps failing.
  Who runs a task is settled by the role resolver (\<open>core/role-invocation-resolver.ts\<close>), which takes
  the models of other providers from the registry (\<open>core/model-registry.ts\<close>), and by the admission
  (\<open>core/provider-limit-admission.ts\<close>), which reserves in the ledger of the provider's account.
  Requests for approval live by the lifecycle policy (\<open>core/approval-lifecycle-policy.ts\<close>); roles,
  activation scores and conditions are composed by \<open>core/policy-engine.ts\<close>; the nervous system
  (\<open>nervous/\<close>) decides which of its own actions need a user; KPIs are user-written formulas.

  \<^bold>\<open>Library.\<close>
  \<^item> \<open>Js_Prelude\<close>: the JavaScript containers (insertion-ordered sets and maps as lists, with the
    locale \<open>keyed_store\<close> of their laws), truthiness, and the loop that repeats a pass over an
    array until it changes nothing (\<open>js_repeat\<close>, a \<open>partial_function\<close>; the locale
    \<open>shrinking_step\<close> proves that it returns and what its fixed points satisfy).
  \<^item> \<open>Js_Number\<close>, \<open>Js_Double\<close>: IEEE doubles as rounded rationals; without and with overflow,
    infinities and NaN; rounding errs by one part in \<open>2 ^ 53\<close>. \<open>Js_String\<close>: the string functions used. \<open>Js_Value\<close>: dynamic values, as
    parsed JSON or YAML gives them, and results of code that throws.
  \<^item> \<open>Task_Model\<close>: the task record (\<open>core/task-types.ts\<close>), with the fields the modelled code reads.

  \<^bold>\<open>Sprint execution.\<close>
  \<^item> \<open>Task_Lineage\<close>, \<open>Lineage_Settlement\<close>: folding attempts into lineages, the representative of a
    lineage, the NOT_DISPATCHED projection, settlement, progress, repair selection and the pause
    gate. Shown: the fold is a partition, the representative is reached by admitted repairs, the
    starvation loop ends in a consistent fixed point, the gate pauses for a blocked dependent or at
    its thresholds, up to the rounding of the percentage.
  \<^item> \<open>Failure_Disposition\<close>, \<open>Scheduler_State\<close>: which failures are repaired, which ids satisfy or fail.
  \<^item> \<open>Scheduler_Reducer\<close>, \<open>Scheduler_Correct\<close>, \<open>Scheduler_Live\<close>: the tick, with its cascade, both
    dispatch strategies and the quiescence pass, as a function from a snapshot to an ordered list
    of effects. What both strategies share is proved over the inductive relation \<open>dispatch_step\<close>.
    Shown: the cascade skips the least set of doomed tasks and, at quiescence, the dead paused
    ones, where neither a task id nor a terminal failure is the empty string; what starts may be
    started; slots are not exceeded; no eligible task waits while a slot is free; the tick returns.
  \<^item> \<open>Execution_Topology\<close>, \<open>Topology_Graph\<close>, \<open>Topology_Correct\<close>: slots, references, cycles, waves,
    and the edges added between writers of one file. Shown: two writers of a path never share a
    wave, waves respect the edges, the verdict passes exactly without findings, authored edges
    are exactly the resolvable references, a normalised path stays inside the project.
  \<^item> \<open>Dependency_Scheduler\<close>, \<open>Dependency_Correct\<close>: the sprint's dependency graph, eligibility, the
    blocking of dependents of a failure and their release, serialisation and the diagram.
  \<^item> \<open>Scope_Gate\<close>, \<open>Scope_Gate_Correct\<close>, \<open>Scope_Resolution\<close>: the gate over the write paths of a plan
    (\<open>core/scope-gate.ts\<close>) and its double run in \<open>orchestra/run-flow-plan-service.ts\<close>. A message is
    the key of its text with the arguments. Shown: a plan passes exactly when every write path is
    acceptable on the tracked files, acknowledged or repairable; the repairs only redirect to
    tracked files, and the second run never contradicts the first.
  \<^item> \<open>Cascade_Detector\<close>, \<open>Rate_Limiter\<close>: the two counters that stop or slow a run, shown to depend
    on the history of events only.

  \<^bold>\<open>Runs, approvals and budgets.\<close>
  \<^item> \<open>Run_Flow\<close>, \<open>Run_Flow_Correct\<close>: the event reducer as a function into errors or contexts; the
    inductive relations \<open>lifecycle_step\<close> and \<open>flow_reachable\<close> are its abstraction and its
    histories. Shown: only the approved revision and digest start, terminal states absorb,
    contexts are well formed, the reducer refines the lifecycle.
  \<^item> \<open>Approval_Lifecycle\<close>, \<open>Approval_Timeout\<close>, \<open>Approval_Correct\<close>: parsing and merging lifecycle
    profiles, expiry and the outcome of a timeout. Profiles are ordered by strictness
    (instances of \<open>linorder\<close>); the locale \<open>override_layer\<close> is the contract of every layer of
    overrides. Shown: overrides only tighten, a transition is the meet, timeouts fail closed.
  \<^item> \<open>Usage_Event\<close>, \<open>Budget_Policy\<close>, \<open>Budget_Resolution\<close>, \<open>Live_Budget\<close>, \<open>Execution_Budget\<close>,
    \<open>Budget_Correct\<close>: from a provider's stream event to a usage observation, the checks of the
    owner's policy, the admission of a remote run, the live guard and the final verdict.
  \<^item> \<open>Quota_Truth\<close>, \<open>Quota_Ledger\<close>: what is known of a provider account's limits
    (\<open>core/provider-limit-truth.ts\<close>) and the ledger of snapshots, reservations and events
    (\<open>core/provider-limit-store.ts\<close>), whose operations map a ledger to an error or a result with
    the new ledger. \<open>Quota_Invariant\<close>: the ledgers that any sequence of operations can reach, under
    any clock, policy and verifier, and the invariant of their rows. \<open>Quota_Fits\<close>,
    \<open>Quota_Sample\<close>, \<open>Quota_Correct\<close>: one execution grant for each logical attempt, the lifecycle of
    a reservation, an allowed reservation fits in its windows, requests and claims replay.

  \<^bold>\<open>Models and providers.\<close>
  \<^item> \<open>Model_Activation\<close> (\<open>core/model-activation-store.ts\<close>): the owner's decisions about models and
    their snapshot. \<open>Model_Registry\<close> (\<open>core/model-registry.ts\<close>), \<open>Model_Catalog\<close>
    (\<open>core/model-catalog.ts\<close>): the registry, its checked and unchecked changes, selection by
    provider and tier, and the catalog that refreshes it. \<open>Registry_Correct\<close>: the inductive
    relation \<open>checked_registry\<close> and its invariant; the snapshot agrees with the store, selection does
    not depend on the order of registration where a model is designated, an equivalent is the best
    usable one (and none for a local model); a refresh forgets designations.
  \<^item> \<open>Role_Invocation\<close>: the ordered fallback over providers as one pass over the candidates, with the
    receipts it leaves. Shown: the first usable candidate is selected, and nothing unattended runs
    on evidence that is not known.
  \<^item> \<open>Provider_Admission\<close>, \<open>Admission_Correct\<close>: a round of the admission as a step that continues or
    stops (\<open>admit_step\<close>), and the loop over rounds, for any store of reservations. The locale
    \<open>reservation_store\<close> states what the admission needs of the store and is interpreted on the
    quota ledger. Shown: what is allowed can be executed, once, for the selected model; the loop
    does not end for want of rounds.
  \<^item> \<open>Exec_Observation\<close>, \<open>Exec_Observation_Correct\<close>: the reducer of start and end observations
    (\<open>core/provider-execution-observation.ts\<close>) and the table of intervals
    (\<open>provider-execution-observation-store.ts\<close>). Shown: the table refines the reducer, the relation
    \<open>stored_by\<close> of its writes and retirements keeps its invariant, a settling generation retires
    what it owns, and a retirement gives back no room.
  \<^item> \<open>Provider_Concurrency\<close>, \<open>Concurrency_Correct\<close>: the capability
    (\<open>core/provider-concurrency-capability.ts\<close>), the projection of intervals to an attained and a peak
    number (in \<open>provider-limit-admission.ts\<close>) and the reader of every principal
    (\<open>provider-concurrency-runtime-reader.ts\<close>). Shown: the peak is the largest number of intervals at
    one time; the reader's counts; when a ceiling is admitted.
  \<^item> \<open>Limit_Policy\<close>, \<open>Limit_Policy_Correct\<close>, \<open>Limit_Runtime_Correct\<close>: the authored layers of limit
    policies (\<open>core/provider-limit-policy.ts\<close>), their normal forms, and the resolver from which the
    ledger takes the policy of an account (its field \<open>le_policyResolver\<close>). Shown: a project layer only
    tightens and never turns a hold of the evaluation into an allow; the order of declarations is
    irrelevant; layers kept in normal form resolve as the authored ones; the resolver answers for
    exactly the authored accounts, where SHA-256 does not collide on the texts of their policies; a policy whose two thresholds are equal resolves, and is then
    refused by the ledger.

  \<^bold>\<open>Automatic approvals.\<close>
  \<^item> \<open>Approval_Rules\<close>, \<open>Approval_Rules_Correct\<close>: the file of rules (\<open>core/approval-rules.ts\<close>), whose
    rows stay JSON values, its changes by the owner (\<open>cli/commands/approvals.ts\<close>), the engine
    (\<open>approval-rules-engine.ts\<close>) and the verdict of \<open>approval-policy.ts\<close>. Shown: exactly which rule
    decides a request; a disabled or removed rule is dead; a session ends with the content of the
    file it was opened on; what a promotion makes of the file. A change by the owner hides earlier
    damage of the file, and the authenticator does not look at the action.
  \<^item> \<open>Approval_Allow\<close>: the store of grants (\<open>approval-allowscope.ts\<close>). Shown: what a grant allows and
    what a look-up forgets; no instance holds a global grant; a stale instance restores what
    another revoked.

  \<^bold>\<open>Access and autonomy.\<close>
  \<^item> \<open>Condition_Evaluator\<close>, \<open>Condition_Meaning\<close>, \<open>Condition_Correct\<close>: the condition language, its
    meaning as relations of their own (the value a path names, what an operator asks, what a
    condition asks of the data), and that the evaluator decides it. \<open>Access_Policy\<close>, \<open>Access_Correct\<close>: roles, activation scores and their composition.
  \<^item> \<open>Nervous_Authority\<close>, \<open>Panic_Gate\<close>, \<open>Nervous_Correct\<close>: the table of actions, presets, the decision
    engine, worker authority and the panic gate as the sequence of its callbacks. Shown: nothing
    on the safety floor runs by itself, strictness only tightens, the gate fails closed.
  \<^item> \<open>Formula_Evaluator\<close>, \<open>Formula_Correct\<close>: the KPI language; its parser is exactly its grammar,
    it reads only own finite measures, and the text of an expression evaluates to its meaning.

  \<^bold>\<open>Conventions.\<close> A throw is \<open>Inl\<close> or, where the message is not modelled, \<open>None\<close>. Arrays are
  lists, sets that are only tested are sets, sets and maps that are enumerated are lists in
  insertion order. Object identity plays no role in the modelled code: its mutations are
  threaded as state. Strings are Latin-1; typographic dashes and arrows in messages are
  written in ASCII. Each loop is structurally recursive, a \<open>function\<close> with a
  termination proof, or \<open>js_repeat\<close>, whose return is proved for every input. The only bound on
  rounds is the one of the code, in the admission: one more than there are providers, which
  \<open>exhausted_is_unselectable\<close> shows to be enough.

  \<^bold>\<open>Parameters.\<close> What the sources take from libraries that are not theirs, or that cannot be
  defined here, is an argument: \<open>localeCompare\<close>, \<open>JSON.parse\<close>, SHA-256, \<open>Date.parse\<close> and its inverse,
  the text of a number and \<open>Number\<close> of a text in the quiet hours, the properties an object
  inherits, the code of a store error, the bundled catalog of models. No property assumes more of
  them than it states.

  \<^bold>\<open>Not modelled.\<close> The I/O drivers named above, file locks and the durable stores (their
  correctness rests on the file system), the approval broker and the ingress of decisions
  around the lifecycle policy and the rules, the routing stages, the attended-approval digests
  and the marketplace; of \<open>activation-engine.ts\<close> the migration of old triggers; of the budget files \<open>assertExecutionLandingSupport\<close>; of the model
  catalog its requests and cache files; of the observation store the rows of schema version 1 and
  stores opened for reading; of the limit policies the checks of dynamic shapes and the form that
  writes them. What these compute is text, digests of serialised values, or the effect of a driver.
\<close>

end
